(* ===== verification/PyPrelude.thy ===== *)
theory PyPrelude
  imports
    Main
    "HOL-Library.AList"
    "HOL-Library.Char_ord"
    "HOL-Library.List_Lexorder"
    "HOL-Library.Product_Lexorder"
    "HOL-Library.Sublist"
begin

text \<open>
  The part of the Python language and of its built-in types that the repository's tools use:
  strings, lists, dictionaries, sets, integers and raised exceptions.

  A Python \<^verbatim>\<open>str\<close> is a \<^typ>\<open>string\<close>, a list of code points below 256. Every class of characters
  the tools ask about (\<^verbatim>\<open>isspace\<close>, \<^verbatim>\<open>isalnum\<close>, line breaks, \<^verbatim>\<open>\s\<close>, \<^verbatim>\<open>\w\<close>, \<^verbatim>\<open>\d\<close>) is the one Python has
  on these code points, and \<^verbatim>\<open>encode("utf-8")\<close> is the real encoding of them. A Python \<^verbatim>\<open>dict\<close> is an
  association list in insertion order (\<^const>\<open>AList.update\<close> replaces in place or appends, as
  \<^verbatim>\<open>d[k] = v\<close> does), or a map where the order is never observed. An exception is the left
  injection of a sum.
\<close>

section \<open>Proof collections\<close>

named_theorems py_string \<open>rewriting of the Python string operations\<close>
named_theorems py_result \<open>rewriting and elimination of results that may be exceptions\<close>

section \<open>Exceptions\<close>

datatype py_error =
    ValueError string
  | TypeError string
  | RuntimeError string
  | KeyError string
  | IndexError
  | OSError string
  | JSONDecodeError string
  | AssertionError
  | AttributeError
  | OverflowError
  | GitInvocationFailure string string \<comment> \<open>fault class and command, raised by \<open>ratchet_base\<close>\<close>

type_synonym 'a result = "py_error + 'a"

text \<open>\<open>except ValueError\<close> also catches the decoder's error; \<open>str(exc)\<close> of the exceptions that are shown.\<close>

fun is_value_error :: "py_error \<Rightarrow> bool" where
  "is_value_error (ValueError _) = True"
| "is_value_error (JSONDecodeError _) = True"
| "is_value_error _ = False"

fun is_os_error :: "py_error \<Rightarrow> bool" where
  "is_os_error (OSError _) = True"
| "is_os_error _ = False"

fun str_exc :: "py_error \<Rightarrow> string" where
  "str_exc (ValueError s) = s"
| "str_exc (JSONDecodeError s) = s"
| "str_exc (OSError s) = s"
| "str_exc (TypeError s) = s"
| "str_exc (RuntimeError s) = s"
| "str_exc _ = []"

abbreviation Raise :: "py_error \<Rightarrow> 'a result" where "Raise e \<equiv> Inl e"
abbreviation Return :: "'a \<Rightarrow> 'a result" where "Return x \<equiv> Inr x"

definition bindR :: "'a result \<Rightarrow> ('a \<Rightarrow> 'b result) \<Rightarrow> 'b result" where
  "bindR m f = (case m of Inl e \<Rightarrow> Inl e | Inr x \<Rightarrow> f x)"

lemma bindR_simps [simp]: "bindR (Inl e) f = Inl e" "bindR (Inr x) f = f x"
  by (simp_all add: bindR_def)

lemma bindR_eq_Inr [py_result]:
  "bindR m f = Inr y \<longleftrightarrow> (\<exists>x. m = Inr x \<and> f x = Inr y)"
  by (cases m) auto

lemma bindR_eq_Inl [py_result]:
  "bindR m f = Inl e \<longleftrightarrow> m = Inl e \<or> (\<exists>x. m = Inr x \<and> f x = Inl e)"
  by (cases m) auto

fun mapR :: "('a \<Rightarrow> 'b result) \<Rightarrow> 'a list \<Rightarrow> 'b list result" where
  "mapR f [] = Inr []"
| "mapR f (x # xs) = bindR (f x) (\<lambda>y. bindR (mapR f xs) (\<lambda>ys. Inr (y # ys)))"

lemma mapR_Inr [py_result]:
  "mapR f xs = Inr ys \<longleftrightarrow> list_all2 (\<lambda>x y. f x = Inr y) xs ys"
  by (induction xs arbitrary: ys) (auto simp: bindR_eq_Inr list_all2_Cons1)

lemma mapR_concat_Nil: "(\<exists>yss. mapR f xs = Inr yss \<and> concat yss = []) \<longleftrightarrow> list_all (\<lambda>x. f x = Inr []) xs"
  by (induction xs) (auto simp: bindR_eq_Inr)

lemma mapR_map: "(\<And>x. x \<in> set xs \<Longrightarrow> f x = Inr (g x)) \<Longrightarrow> mapR f xs = Inr (map g xs)"
  by (induction xs) auto

section \<open>Characters\<close>

abbreviation LF :: char where "LF \<equiv> CHR 0x0A"
abbreviation CR :: char where "CR \<equiv> CHR 0x0D"
abbreviation TAB :: char where "TAB \<equiv> CHR 0x09"
abbreviation DQ :: char where "DQ \<equiv> CHR 0x22"
abbreviation SQ :: char where "SQ \<equiv> CHR 0x27"
abbreviation BSLASH :: char where "BSLASH \<equiv> CHR 0x5C"
abbreviation BTICK :: char where "BTICK \<equiv> CHR 0x60"

abbreviation ord :: "char \<Rightarrow> nat" where "ord c \<equiv> of_char c"

definition is_space :: "char \<Rightarrow> bool" where
  "is_space c \<longleftrightarrow> (let n = ord c in
     9 \<le> n \<and> n \<le> 13 \<or> 28 \<le> n \<and> n \<le> 32 \<or> n = 133 \<or> n = 160)"

definition is_linebreak :: "char \<Rightarrow> bool" where
  "is_linebreak c \<longleftrightarrow> (let n = ord c in
     10 \<le> n \<and> n \<le> 13 \<or> 28 \<le> n \<and> n \<le> 30 \<or> n = 133)"

definition is_decimal :: "char \<Rightarrow> bool" where
  "is_decimal c \<longleftrightarrow> (let n = ord c in 48 \<le> n \<and> n \<le> 57)"

definition is_digit :: "char \<Rightarrow> bool" where
  "is_digit c \<longleftrightarrow> (let n = ord c in 48 \<le> n \<and> n \<le> 57 \<or> n = 178 \<or> n = 179 \<or> n = 185)"

definition is_upper_ascii :: "char \<Rightarrow> bool" where
  "is_upper_ascii c \<longleftrightarrow> (let n = ord c in 65 \<le> n \<and> n \<le> 90)"

definition is_lower_ascii :: "char \<Rightarrow> bool" where
  "is_lower_ascii c \<longleftrightarrow> (let n = ord c in 97 \<le> n \<and> n \<le> 122)"

definition is_alpha_ascii :: "char \<Rightarrow> bool" where
  "is_alpha_ascii c \<longleftrightarrow> is_upper_ascii c \<or> is_lower_ascii c"

definition is_alnum_ascii :: "char \<Rightarrow> bool" where
  "is_alnum_ascii c \<longleftrightarrow> is_alpha_ascii c \<or> is_decimal c"

definition is_alnum :: "char \<Rightarrow> bool" where
  "is_alnum c \<longleftrightarrow> is_alnum_ascii c \<or> (let n = ord c in
     n = 170 \<or> n = 178 \<or> n = 179 \<or> n = 181 \<or> n = 185 \<or> n = 186
     \<or> 188 \<le> n \<and> n \<le> 190 \<or> 192 \<le> n \<and> n \<le> 214 \<or> 216 \<le> n \<and> n \<le> 246 \<or> 248 \<le> n)"

definition is_word :: "char \<Rightarrow> bool" where
  "is_word c \<longleftrightarrow> is_alnum c \<or> c = CHR ''_''"

lemmas char_class_defs =
  is_space_def is_linebreak_def is_decimal_def is_digit_def is_upper_ascii_def is_lower_ascii_def
  is_alpha_ascii_def is_alnum_ascii_def is_alnum_def is_word_def

lemma is_space_LF [simp]: "is_space LF"
  by (simp add: is_space_def)

lemma ident_char_not_space: "is_alnum_ascii c \<Longrightarrow> \<not> is_space c"
  by (auto simp: char_class_defs Let_def)

section \<open>Strings\<close>

abbreviation startswith :: "string \<Rightarrow> string \<Rightarrow> bool" where
  "startswith s p \<equiv> prefix p s"

abbreviation endswith :: "string \<Rightarrow> string \<Rightarrow> bool" where
  "endswith s p \<equiv> suffix p s"

definition py_slice :: "'a list \<Rightarrow> nat \<Rightarrow> nat \<Rightarrow> 'a list" where
  "py_slice xs a b = take (b - a) (drop a xs)"

definition lstrip :: "string \<Rightarrow> string" where
  "lstrip s = dropWhile is_space s"

definition rstrip :: "string \<Rightarrow> string" where
  "rstrip s = rev (dropWhile is_space (rev s))"

definition strip :: "string \<Rightarrow> string" where
  "strip s = rstrip (lstrip s)"

definition rstrip_chars :: "char list \<Rightarrow> string \<Rightarrow> string" where
  "rstrip_chars cs s = rev (dropWhile (\<lambda>c. c \<in> set cs) (rev s))"

definition strip_chars :: "char list \<Rightarrow> string \<Rightarrow> string" where
  "strip_chars cs s = rstrip_chars cs (dropWhile (\<lambda>c. c \<in> set cs) s)"

fun splitlines_acc :: "string \<Rightarrow> string \<Rightarrow> string list" where
  "splitlines_acc acc [] = (if acc = [] then [] else [rev acc])"
| "splitlines_acc acc (c # cs) =
     (if c = CR then
        (case cs of
           [] \<Rightarrow> [rev acc]
         | d # ds \<Rightarrow> if d = LF then rev acc # splitlines_acc [] ds else rev acc # splitlines_acc [] cs)
      else if is_linebreak c then rev acc # splitlines_acc [] cs
      else splitlines_acc (c # acc) cs)"

definition splitlines :: "string \<Rightarrow> string list" where
  "splitlines s = splitlines_acc [] s"

text \<open>\<open>s.split()\<close>: maximal runs of characters that are not white space.\<close>

fun split_ws_acc :: "string \<Rightarrow> string \<Rightarrow> string list" where
  "split_ws_acc acc [] = (if acc = [] then [] else [rev acc])"
| "split_ws_acc acc (c # cs) =
     (if is_space c then (if acc = [] then split_ws_acc [] cs else rev acc # split_ws_acc [] cs)
      else split_ws_acc (c # acc) cs)"

definition split_ws :: "string \<Rightarrow> string list" where
  "split_ws s = split_ws_acc [] s"

text \<open>\<open>s.find(p)\<close>, with \<open>None\<close> for \<open>-1\<close>.\<close>

fun find_sub :: "string \<Rightarrow> string \<Rightarrow> nat option" where
  "find_sub p [] = (if p = [] then Some 0 else None)"
| "find_sub p (c # cs) = (if prefix p (c # cs) then Some 0 else map_option Suc (find_sub p cs))"

definition find_from :: "string \<Rightarrow> string \<Rightarrow> nat \<Rightarrow> nat option" where
  "find_from s p start =
     (if length s < start then None else map_option (\<lambda>k. start + k) (find_sub p (drop start s)))"

definition contains :: "string \<Rightarrow> string \<Rightarrow> bool" where
  "contains p s \<longleftrightarrow> find_sub p s \<noteq> None"

text \<open>\<open>s.count(c, a, b)\<close> for one character.\<close>

definition count_char :: "string \<Rightarrow> char \<Rightarrow> nat \<Rightarrow> nat \<Rightarrow> nat" where
  "count_char s c a b = count_list (py_slice s a b) c"

text \<open>\<open>s.rfind(c, 0, hi)\<close> for one character, as an integer with \<open>-1\<close> for none.\<close>

fun rfind_char_below :: "string \<Rightarrow> char \<Rightarrow> nat \<Rightarrow> int" where
  "rfind_char_below s c 0 = -1"
| "rfind_char_below s c (Suc n) =
     (if n < length s \<and> s ! n = c then int n else rfind_char_below s c n)"

text \<open>\<open>s.split(c)\<close> for a one-character separator.\<close>

fun split_char_acc :: "char \<Rightarrow> string \<Rightarrow> string \<Rightarrow> string list" where
  "split_char_acc d acc [] = [rev acc]"
| "split_char_acc d acc (c # cs) =
     (if c = d then rev acc # split_char_acc d [] cs else split_char_acc d (c # acc) cs)"

definition split_char :: "char \<Rightarrow> string \<Rightarrow> string list" where
  "split_char d s = split_char_acc d [] s"

fun split_sub_acc :: "nat \<Rightarrow> string \<Rightarrow> string \<Rightarrow> string \<Rightarrow> string list" where
  "split_sub_acc 0 p acc s = [rev acc @ s]"
| "split_sub_acc (Suc n) p acc [] = [rev acc]"
| "split_sub_acc (Suc n) p acc (c # cs) =
     (if p \<noteq> [] \<and> prefix p (c # cs) then rev acc # split_sub_acc n p [] (drop (length p) (c # cs))
      else split_sub_acc n p (c # acc) cs)"

text \<open>
  \<open>s.split(p)\<close> for a longer separator. Each step consumes a character, so the length of the
  string is enough fuel.
\<close>

definition split_sub :: "string \<Rightarrow> string \<Rightarrow> string list" where
  "split_sub p s = split_sub_acc (Suc (length s)) p [] s"

text \<open>\<open>s.split(p, 1)[0]\<close>\<close>

definition before_sub :: "string \<Rightarrow> string \<Rightarrow> string" where
  "before_sub p s = (case find_sub p s of None \<Rightarrow> s | Some k \<Rightarrow> take k s)"

text \<open>\<open>s.replace(p, q)\<close>: left to right, not overlapping; every step consumes a character.\<close>

fun replace_fuel :: "nat \<Rightarrow> string \<Rightarrow> string \<Rightarrow> string \<Rightarrow> string" where
  "replace_fuel 0 p q s = s"
| "replace_fuel (Suc n) p q [] = []"
| "replace_fuel (Suc n) p q (c # cs) =
     (if p \<noteq> [] \<and> prefix p (c # cs) then q @ replace_fuel n p q (drop (length p) (c # cs))
      else c # replace_fuel n p q cs)"

definition replace :: "string \<Rightarrow> string \<Rightarrow> string \<Rightarrow> string" where
  "replace p q s = replace_fuel (length s) p q s"

definition removeprefix :: "string \<Rightarrow> string \<Rightarrow> string" where
  "removeprefix p s = (if prefix p s then drop (length p) s else s)"

definition removesuffix :: "string \<Rightarrow> string \<Rightarrow> string" where
  "removesuffix p s = (if suffix p s then take (length s - length p) s else s)"

fun join :: "string \<Rightarrow> string list \<Rightarrow> string" where
  "join d [] = []"
| "join d [x] = x"
| "join d (x # y # xs) = x @ d @ join d (y # xs)"

text \<open>\<open>s.rsplit("/", 1)[-1]\<close> and \<open>s.split(c)[-1]\<close>\<close>

definition after_last :: "char \<Rightarrow> string \<Rightarrow> string" where
  "after_last d s = rev (takeWhile (\<lambda>c. c \<noteq> d) (rev s))"

text \<open>\<open>s.encode("utf-8")\<close> for code points below 256.\<close>

definition utf8_char :: "char \<Rightarrow> nat list" where
  "utf8_char c = (let n = ord c in if n < 128 then [n] else [192 + n div 64, 128 + n mod 64])"

definition utf8 :: "string \<Rightarrow> nat list" where
  "utf8 s = concat (map utf8_char s)"

section \<open>Numbers as text\<close>

definition digit_char :: "nat \<Rightarrow> char" where
  "digit_char d = char_of (48 + d)"

fun nat_digits :: "nat \<Rightarrow> string" where
  "nat_digits n = (if n < 10 then [digit_char n] else nat_digits (n div 10) @ [digit_char (n mod 10)])"

declare nat_digits.simps [simp del]

text \<open>\<open>str(n)\<close>\<close>

definition str_int :: "int \<Rightarrow> string" where
  "str_int i = (if i < 0 then CHR ''-'' # nat_digits (nat (- i)) else nat_digits (nat i))"

definition digit_val :: "char \<Rightarrow> nat" where
  "digit_val c = ord c - 48"

definition digits_val :: "string \<Rightarrow> nat" where
  "digits_val s = foldl (\<lambda>a c. 10 * a + digit_val c) 0 s"

text \<open>
  \<open>int(s)\<close>: surrounding white space, one sign, then decimal digits with single underscores
  between them; anything else is a \<open>ValueError\<close> (\<open>None\<close> here).
\<close>

fun underscore_ok :: "bool \<Rightarrow> string \<Rightarrow> bool" where
  "underscore_ok after_digit [] = after_digit"
| "underscore_ok after_digit (c # cs) =
     (if is_decimal c then underscore_ok True cs
      else c = CHR ''_'' \<and> after_digit \<and> underscore_ok False cs)"

definition nat_of_str :: "string \<Rightarrow> nat option" where
  "nat_of_str s = (if underscore_ok False s then Some (digits_val (filter is_decimal s)) else None)"

definition int_of_str :: "string \<Rightarrow> int option" where
  "int_of_str s0 =
     (case strip s0 of
        [] \<Rightarrow> None
      | c # cs \<Rightarrow>
          if c = CHR ''-'' then map_option (\<lambda>n. - int n) (nat_of_str cs)
          else if c = CHR ''+'' then map_option int (nat_of_str cs)
          else map_option int (nat_of_str (c # cs)))"

section \<open>Searching\<close>

lemma find_sub_Some:
  "find_sub p s = Some k \<Longrightarrow> k + length p \<le> length s \<and> prefix p (drop k s)"
proof (induction s arbitrary: k)
  case Nil
  then show ?case by (auto split: if_splits)
next
  case (Cons c cs)
  then show ?case by (auto split: if_splits dest: prefix_length_le)
qed

lemma find_sub_first: "find_sub p s = Some k \<Longrightarrow> i < k \<Longrightarrow> \<not> prefix p (drop i s)"
proof (induction s arbitrary: k i)
  case Nil
  then show ?case by (auto split: if_splits)
next
  case (Cons c cs)
  then show ?case by (cases i) (auto split: if_splits)
qed

lemma find_sub_None: "find_sub p s = None \<Longrightarrow> \<not> prefix p (drop i s)"
proof (induction s arbitrary: i)
  case Nil
  then show ?case by (auto split: if_splits)
next
  case (Cons c cs)
  then show ?case by (cases i) (auto split: if_splits)
qed

lemma find_from_Some:
  assumes "find_from s p a = Some k"
  shows "a \<le> k" "k + length p \<le> length s" "prefix p (drop k s)"
proof -
  from assms obtain j where j: "find_sub p (drop a s) = Some j" "k = a + j" "a \<le> length s"
    by (auto simp: find_from_def split: if_splits)
  from find_sub_Some [OF j(1)] j show "a \<le> k" "k + length p \<le> length s" "prefix p (drop k s)"
    by (auto simp: add.commute)
qed

section \<open>Decimal numerals\<close>

lemma digit_char_decimal: "d < 10 \<Longrightarrow> is_decimal (digit_char d)"
  by (simp add: is_decimal_def digit_char_def)

lemma digit_val_char [simp]: "d < 10 \<Longrightarrow> digit_val (digit_char d) = d"
  by (simp add: digit_val_def digit_char_def)

lemma nat_digits_small: "n < 10 \<Longrightarrow> nat_digits n = [digit_char n]"
  by (simp add: nat_digits.simps)

lemma nat_digits_big: "\<not> n < 10 \<Longrightarrow> nat_digits n = nat_digits (n div 10) @ [digit_char (n mod 10)]"
  by (simp add: nat_digits.simps [of n])

lemma nat_digits_decimal: "list_all is_decimal (nat_digits n)"
proof (induction n rule: nat_digits.induct)
  case (1 n)
  show ?case
  proof (cases "n < 10")
    case True
    then show ?thesis by (simp add: nat_digits_small digit_char_decimal)
  next
    case False
    with 1 show ?thesis by (simp add: nat_digits_big [OF False] digit_char_decimal)
  qed
qed

lemma nat_digits_nonempty [simp]: "nat_digits n \<noteq> []"
  by (subst nat_digits.simps) simp

lemma digits_val_snoc: "digits_val (s @ [c]) = 10 * digits_val s + digit_val c"
  by (simp add: digits_val_def)

lemma digits_val_nat_digits [simp]: "digits_val (nat_digits n) = n"
proof (induction n rule: nat_digits.induct)
  case (1 n)
  show ?case
  proof (cases "n < 10")
    case True
    then show ?thesis by (simp add: nat_digits_small digits_val_def)
  next
    case False
    with 1 show ?thesis by (simp add: nat_digits_big [OF False] digits_val_snoc)
  qed
qed

lemma nat_digits_head: "n \<noteq> 0 \<Longrightarrow> hd (nat_digits n) \<noteq> CHR ''0''"
proof (induction n rule: nat_digits.induct)
  case (1 n)
  show ?case
  proof (cases "n < 10")
    case True
    with 1(2) have "ord (digit_char n) \<noteq> 48" by (simp add: digit_char_def)
    with True show ?thesis by (auto simp: nat_digits_small)
  next
    case False
    then have "n div 10 \<noteq> 0" by simp
    with 1(1) False show ?thesis by (simp add: nat_digits_big [OF False])
  qed
qed

lemma nat_digits_0 [simp]: "nat_digits 0 = ''0''"
  by code_simp

lemma decimal_not_space: "is_decimal c \<Longrightarrow> \<not> is_space c"
  by (auto simp: is_decimal_def is_space_def Let_def)

lemma strip_no_space: "list_all (\<lambda>c. \<not> is_space c) s \<Longrightarrow> strip s = s"
proof -
  assume a: "list_all (\<lambda>c. \<not> is_space c) s"
  have d: "dropWhile is_space t = t" if "list_all (\<lambda>c. \<not> is_space c) t" for t
    using that by (cases t) auto
  from a have "list_all (\<lambda>c. \<not> is_space c) (rev s)" by (simp add: list_all_iff)
  with a d show ?thesis by (simp add: strip_def lstrip_def rstrip_def)
qed

lemma underscore_ok_digits: "list_all is_decimal s \<Longrightarrow> underscore_ok b s \<longleftrightarrow> b \<or> s \<noteq> []"
  by (induction s arbitrary: b) auto

lemma nat_of_str_digits: "list_all is_decimal s \<Longrightarrow> s \<noteq> [] \<Longrightarrow> nat_of_str s = Some (digits_val s)"
proof -
  assume a: "list_all is_decimal s" "s \<noteq> []"
  then have "filter is_decimal s = s" by (auto simp: filter_id_conv list_all_iff)
  with a show ?thesis by (simp add: nat_of_str_def underscore_ok_digits)
qed

lemma int_of_str_str_int [simp]: "int_of_str (str_int i) = Some i"
proof -
  have nosp: "list_all (\<lambda>c. \<not> is_space c) (nat_digits n)" for n
    using nat_digits_decimal [of n] decimal_not_space by (auto simp: list_all_iff)
  show ?thesis
  proof (cases "i < 0")
    case True
    have "strip (CHR ''-'' # nat_digits (nat (- i))) = CHR ''-'' # nat_digits (nat (- i))"
      using nosp by (intro strip_no_space) (simp add: is_space_def)
    with True show ?thesis
      by (simp add: int_of_str_def str_int_def nat_of_str_digits nat_digits_decimal)
  next
    case False
    obtain c cs where c: "nat_digits (nat i) = c # cs" by (cases "nat_digits (nat i)") auto
    with nat_digits_decimal [of "nat i"] have dec: "is_decimal c" by simp
    then have "c \<noteq> CHR ''-''" "c \<noteq> CHR ''+''" by (auto simp: is_decimal_def)
    with False c nosp [of "nat i"] show ?thesis
      using nat_of_str_digits [OF nat_digits_decimal, of "nat i"] digits_val_nat_digits [of "nat i"]
        strip_no_space [OF nosp, of "nat i"]
      by (simp add: int_of_str_def str_int_def)
  qed
qed

section \<open>Words and lines\<close>

abbreviation no_space :: "string \<Rightarrow> bool" where
  "no_space s \<equiv> list_all (\<lambda>c. \<not> is_space c) s"

lemma split_ws_acc_word:
  "no_space w \<Longrightarrow> split_ws_acc acc (w @ r) = split_ws_acc (rev w @ acc) r"
  by (induction w arbitrary: acc) auto

lemma split_ws_join:
  assumes "list_all (\<lambda>w. w \<noteq> [] \<and> no_space w) ws"
  shows "split_ws (join '' '' ws) = ws"
  using assms
proof (induction ws)
  case (Cons w ws)
  then have w: "w \<noteq> []" "no_space w" and IH: "split_ws (join '' '' ws) = ws" by auto
  show ?case
  proof (cases ws)
    case Nil
    then show ?thesis using split_ws_acc_word [OF w(2), of "[]" "[]"] w(1) by (simp add: split_ws_def)
  next
    case (Cons v vs)
    then have j: "join '' '' (w # ws) = w @ CHR '' '' # join '' '' ws" by simp
    have "split_ws (join '' '' (w # ws)) = split_ws_acc (rev w) (CHR '' '' # join '' '' ws)"
      unfolding j split_ws_def using split_ws_acc_word [OF w(2), of "[]"] by simp
    also have "\<dots> = w # split_ws (join '' '' ws)" using w(1) by (simp add: split_ws_def is_space_def)
    finally show ?thesis using IH by simp
  qed
qed (simp add: split_ws_def)

lemma split_ws_acc_words:
  "no_space acc \<Longrightarrow> \<forall>w \<in> set (split_ws_acc acc s). w \<noteq> [] \<and> no_space w"
proof (induction s arbitrary: acc)
  case Nil
  then show ?case by (simp add: list_all_iff)
next
  case (Cons c cs)
  show ?case
  proof (cases "is_space c")
    case True
    with Cons.IH [of "[]"] Cons.prems show ?thesis by (simp add: list_all_iff)
  next
    case False
    with Cons.IH [of "c # acc"] Cons.prems show ?thesis by simp
  qed
qed

lemma split_ws_words: "w \<in> set (split_ws s) \<Longrightarrow> w \<noteq> [] \<and> no_space w"
  unfolding split_ws_def using split_ws_acc_words [of "[]" s] by auto

section \<open>Dictionaries\<close>

text \<open>\<open>x or default\<close> for a value that may be \<open>None\<close>\<close>

definition the_default :: "'a \<Rightarrow> 'a option \<Rightarrow> 'a" where
  "the_default d v = (case v of None \<Rightarrow> d | Some x \<Rightarrow> x)"

lemma the_default_simps [simp]: "the_default d None = d" "the_default d (Some x) = x"
  by (simp_all add: the_default_def)

text \<open>\<open>{k: v for ...}\<close>: a later pair replaces the value of an earlier one in place.\<close>

definition dict_of :: "('k \<times> 'v) list \<Rightarrow> ('k \<times> 'v) list" where
  "dict_of kvs = foldl (\<lambda>d (k, v). AList.update k v d) [] kvs"

text \<open>\<open>d.get(k, default)\<close>\<close>

definition dget :: "('k \<times> 'v) list \<Rightarrow> 'k \<Rightarrow> 'v \<Rightarrow> 'v" where
  "dget d k v = (case map_of d k of None \<Rightarrow> v | Some x \<Rightarrow> x)"

text \<open>\<open>d[k] = f(d.get(k, default))\<close>, as \<open>setdefault\<close> and \<open>defaultdict\<close> are used.\<close>

definition dmodify :: "'k \<Rightarrow> 'v \<Rightarrow> ('v \<Rightarrow> 'v) \<Rightarrow> ('k \<times> 'v) list \<Rightarrow> ('k \<times> 'v) list" where
  "dmodify k v f d = AList.update k (f (dget d k v)) d"

lemma dget_Nil [simp]: "dget [] k v = v"
  by (simp add: dget_def)

lemma dget_update [simp]: "dget (AList.update k x d) k' v = (if k' = k then x else dget d k' v)"
  by (simp add: dget_def update_conv')

lemma dget_dmodify: "dget (dmodify k v f d) k' v = (if k' = k then f (dget d k v) else dget d k' v)"
  by (simp add: dmodify_def)

lemma distinct_dmodify [simp]: "distinct (map fst d) \<Longrightarrow> distinct (map fst (dmodify k v f d))"
  by (simp add: dmodify_def distinct_update)

lemma keys_dmodify [simp]: "set (map fst (dmodify k v f d)) = insert k (set (map fst d))"
  by (auto simp: dmodify_def dom_update)

lemma dget_in: "distinct (map fst d) \<Longrightarrow> (k, x) \<in> set d \<Longrightarrow> dget d k v = x"
  by (simp add: dget_def)

lemma in_dget: "k \<in> set (map fst d) \<Longrightarrow> (k, dget d k v) \<in> set d"
  by (cases "map_of d k") (auto simp: dget_def map_of_eq_None_iff dest: map_of_SomeD)

lemma update_fresh: "k \<notin> fst ` set acc \<Longrightarrow> AList.update k v acc = acc @ [(k, v)]"
  by (induction acc) auto

lemma dict_of_distinct:
  assumes "distinct (map fst kvs)"
  shows "dict_of kvs = kvs"
proof -
  have "foldl (\<lambda>d (k, v). AList.update k v d) acc kvs = acc @ kvs" if "distinct (map fst (acc @ kvs))" for acc
    using that by (induction kvs arbitrary: acc) (auto simp: update_fresh)
  from this [of "[]"] assms show ?thesis by (simp add: dict_of_def)
qed

lemma dict_of_keys: "fst ` set (dict_of kvs) = fst ` set kvs" and dict_of_dist: "distinct (map fst (dict_of kvs))"
proof -
  have "fst ` set (foldl (\<lambda>d (k, v). AList.update k v d) acc kvs) = fst ` set acc \<union> fst ` set kvs" for acc :: "('a \<times> 'b) list"
    by (induction kvs arbitrary: acc) (simp_all add: dom_update case_prod_beta')
  then show "fst ` set (dict_of kvs) = fst ` set kvs" by (simp add: dict_of_def)
  have "distinct (map fst (foldl (\<lambda>d (k, v). AList.update k v d) acc kvs))" if "distinct (map fst acc)" for acc :: "('a \<times> 'b) list"
    using that by (induction kvs arbitrary: acc) (auto simp: distinct_update)
  then show "distinct (map fst (dict_of kvs))" by (simp add: dict_of_def)
qed

lemma map_of_dict_of: "map_of (dict_of kvs) = map_of (rev kvs)"
  unfolding dict_of_def by (induction kvs rule: rev_induct) (auto simp: update_conv' split: prod.splits)

lemma map_of_dict_ofD: "map_of (dict_of kvs) k = Some v \<Longrightarrow> (k, v) \<in> set kvs"
  by (auto simp: map_of_dict_of dest: map_of_SomeD)

section \<open>Lines\<close>

abbreviation one_line :: "string \<Rightarrow> bool" where
  "one_line s \<equiv> list_all (\<lambda>c. \<not> is_linebreak c) s"

lemma splitlines_acc_line:
  "one_line l \<Longrightarrow> splitlines_acc acc (l @ LF # r) = (rev acc @ l) # splitlines_acc [] r"
proof (induction l arbitrary: acc)
  case (Cons c cs)
  then have "c \<noteq> CR" by (auto simp: is_linebreak_def)
  with Cons show ?case by simp
qed (simp add: is_linebreak_def)

lemma splitlines_lines: "list_all one_line ls \<Longrightarrow> splitlines (concat (map (\<lambda>l. l @ [LF]) ls)) = ls"
  unfolding splitlines_def by (induction ls) (simp_all add: splitlines_acc_line)

lemma join_LF: "ls \<noteq> [] \<Longrightarrow> join [LF] ls @ [LF] = concat (map (\<lambda>l. l @ [LF]) ls)"
proof (induction ls)
  case (Cons l ls)
  then show ?case by (cases ls) auto
qed simp

lemma strip_ends:
  assumes "\<not> is_space c" "\<not> is_space d"
  shows "strip (c # s @ [d]) = c # s @ [d]"
  using assms by (simp add: strip_def lstrip_def rstrip_def)

section \<open>The first of the largest\<close>

text \<open>\<open>max(x :: xs, key=key)\<close>: of several with the largest key the one that comes first.\<close>

definition first_max :: "('a \<Rightarrow> 'k::linorder) \<Rightarrow> 'a \<Rightarrow> 'a list \<Rightarrow> 'a" where
  "first_max key x xs = foldl (\<lambda>best y. if key best < key y then y else best) x xs"

lemma first_max_split:
  "\<exists>before after. x # xs = before @ first_max key x xs # after
     \<and> (\<forall>y \<in> set before. key y < key (first_max key x xs)) \<and> (\<forall>y \<in> set after. key y \<le> key (first_max key x xs))"
proof (induction xs rule: rev_induct)
  case Nil
  show ?case by (intro exI [of _ "[]"]) (simp add: first_max_def)
next
  case (snoc y ys)
  let ?b = "first_max key x ys"
  obtain before after where split: "x # ys = before @ ?b # after"
    and less: "\<forall>z \<in> set before. key z < key ?b" and le: "\<forall>z \<in> set after. key z \<le> key ?b"
    using snoc by blast
  have step: "first_max key x (ys @ [y]) = (if key ?b < key y then y else ?b)" by (simp add: first_max_def)
  show ?case
  proof (cases "key ?b < key y")
    case True
    have "\<forall>z \<in> set (x # ys). key z < key y"
      unfolding split using less le True by (auto intro: less_trans le_less_trans)
    then show ?thesis using step True by (intro exI [of _ "x # ys"] exI [of _ "[]"]) simp
  next
    case False
    then show ?thesis
      using step split less le by (intro exI [of _ before] exI [of _ "after @ [y]"]) (auto simp flip: append_Cons)
  qed
qed

lemma first_max_in: "first_max key x xs \<in> set (x # xs)"
  using first_max_split [of x xs key] by (metis in_set_conv_decomp)

lemma first_max_ge: "y \<in> set (x # xs) \<Longrightarrow> key y \<le> key (first_max key x xs)"
proof -
  let ?b = "first_max key x xs"
  assume y: "y \<in> set (x # xs)"
  obtain before after where split: "x # xs = before @ ?b # after"
    and less: "\<forall>z \<in> set before. key z < key ?b" and le: "\<forall>z \<in> set after. key z \<le> key ?b"
    using first_max_split [of x xs key] by blast
  have "set (x # xs) = set (before @ ?b # after)" by (rule arg_cong [OF split])
  with y have "y \<in> set before \<or> y = ?b \<or> y \<in> set after" by auto
  with less le show ?thesis by (auto intro: less_imp_le)
qed

section \<open>Comprehensions\<close>

lemma in_map_filter: "y \<in> set (List.map_filter f xs) \<longleftrightarrow> (\<exists>x \<in> set xs. f x = Some y)"
  by (force simp: map_filter_def)

lemma length_le_utf8: "length s \<le> length (utf8 s)"
proof -
  have one: "Suc 0 \<le> length (utf8_char c)" for c by (simp add: utf8_char_def Let_def)
  show ?thesis unfolding utf8_def
  proof (induction s)
    case (Cons c s)
    with one [of c] show ?case by simp
  qed simp
qed

lemma nat_digits_length: "n < 10 ^ Suc k \<Longrightarrow> length (nat_digits n) \<le> Suc k"
proof (induction k arbitrary: n)
  case 0
  then show ?case by (simp add: nat_digits_small)
next
  case (Suc k)
  show ?case
  proof (cases "n < 10")
    case False
    from Suc.prems have "n div 10 < 10 ^ Suc k" by (simp add: less_mult_imp_div_less mult.commute)
    with Suc.IH False show ?thesis by (simp add: nat_digits_big)
  qed (simp add: nat_digits_small)
qed

lemma set_join: "set (join d xs) \<subseteq> set d \<union> (\<Union>x \<in> set xs. set x)"
  by (induction d xs rule: join.induct) auto

lemma set_split_char_acc: "p \<in> set (split_char_acc d acc s) \<Longrightarrow> set p \<subseteq> set acc \<union> set s"
  by (induction d acc s rule: split_char_acc.induct) (auto split: if_splits)

lemma set_split_char: "p \<in> set (split_char d s) \<Longrightarrow> set p \<subseteq> set s"
  using set_split_char_acc [of p d "[]" s] by (simp add: split_char_def)

lemma set_rstrip_chars: "set (rstrip_chars cs s) \<subseteq> set s"
  by (auto simp: rstrip_chars_def dest: set_dropWhileD)

lemma set_strip_chars: "set (strip_chars cs s) \<subseteq> set s"
  using set_rstrip_chars [of cs "dropWhile (\<lambda>c. c \<in> set cs) s"] by (auto simp: strip_chars_def dest!: set_dropWhileD)

lemma length_rstrip_chars: "length (rstrip_chars cs s) \<le> length s"
  using length_dropWhile_le [of "\<lambda>c. c \<in> set cs" "rev s"] by (simp add: rstrip_chars_def)

lemma length_utf8_ascii: "list_all (\<lambda>c. ord c < 128) s \<Longrightarrow> length (utf8 s) = length s"
  unfolding utf8_def by (induction s) (simp_all add: utf8_char_def)

end
