(* ===== verification/PyRegex.thy ===== *)
theory PyRegex
  imports PyPrelude
begin

text \<open>
  Python's \<^verbatim>\<open>re\<close>: the abstract syntax of the patterns the tools compile, and a backtracking matcher
  with Python's priorities. The matcher returns every way a pattern can match from a position, in
  the order in which Python's engine tries them, so that \<^verbatim>\<open>match\<close>, \<^verbatim>\<open>search\<close>, \<^verbatim>\<open>fullmatch\<close>,
  \<^verbatim>\<open>finditer\<close> and \<^verbatim>\<open>sub\<close> are the first acceptable one.

  A position is the number of characters before it, the character just before it (for \<^verbatim>\<open>\b\<close> and
  \<^verbatim>\<open>^\<close>) and the text after it. A repetition never iterates over an empty match; no pattern of the
  tools has a repetition whose body can match the empty string.
\<close>

section \<open>Patterns\<close>

datatype regex =
    REmpty
  | RSet "char \<Rightarrow> bool"
  | RSeq regex regex
  | RAlt regex regex
  | RStar bool regex \<comment> \<open>\<open>True\<close>: greedy, \<open>False\<close>: lazy\<close>
  | RGroup string regex
  | RBackref string
  | RBol \<comment> \<open>\<open>^\<close>\<close>
  | RMBol \<comment> \<open>\<open>^\<close> under \<open>(?m)\<close>\<close>
  | REol \<comment> \<open>\<open>$\<close>\<close>
  | REos \<comment> \<open>\<open>\Z\<close>\<close>
  | RWordB \<comment> \<open>\<open>\b\<close>\<close>
  | RLook bool regex \<comment> \<open>\<open>(?=r)\<close> for \<open>True\<close>, \<open>(?!r)\<close> for \<open>False\<close>\<close>
  | RNotBehind "char \<Rightarrow> bool" \<comment> \<open>\<open>(?<![...])\<close>\<close>

abbreviation rchar :: "char \<Rightarrow> regex" where "rchar c \<equiv> RSet (\<lambda>x. x = c)"

fun rlit :: "string \<Rightarrow> regex" where
  "rlit [] = REmpty"
| "rlit [c] = rchar c"
| "rlit (c # d # cs) = RSeq (rchar c) (rlit (d # cs))"

fun rseq :: "regex list \<Rightarrow> regex" where
  "rseq [] = REmpty"
| "rseq [r] = r"
| "rseq (r # q # rs) = RSeq r (rseq (q # rs))"

fun ralt :: "regex list \<Rightarrow> regex" where
  "ralt [] = RSet (\<lambda>_. False)"
| "ralt [r] = r"
| "ralt (r # q # rs) = RAlt r (ralt (q # rs))"

abbreviation rstar :: "regex \<Rightarrow> regex" where "rstar r \<equiv> RStar True r"
abbreviation rplus :: "regex \<Rightarrow> regex" where "rplus r \<equiv> RSeq r (RStar True r)"
abbreviation ropt :: "regex \<Rightarrow> regex" where "ropt r \<equiv> RAlt r REmpty"

fun rrep :: "nat \<Rightarrow> regex \<Rightarrow> regex" where
  "rrep 0 r = REmpty"
| "rrep (Suc n) r = RSeq r (rrep n r)"

fun ropts :: "nat \<Rightarrow> regex \<Rightarrow> regex" where
  "ropts 0 r = REmpty"
| "ropts (Suc n) r = ropt (RSeq r (ropts n r))"

text \<open>The character classes that occur in many patterns.\<close>

abbreviation rspace :: regex where "rspace \<equiv> RSet is_space"
abbreviation rdigit :: regex where "rdigit \<equiv> RSet is_decimal"
abbreviation rany :: regex where "rany \<equiv> RSet (\<lambda>c. c \<noteq> LF)"

definition ident_start :: "char \<Rightarrow> bool" where
  "ident_start c \<longleftrightarrow> is_alpha_ascii c \<or> c = CHR ''_''"

definition ident_char :: "char \<Rightarrow> bool" where
  "ident_char c \<longleftrightarrow> is_alnum_ascii c \<or> c = CHR ''_''"

text \<open>\<open>[A-Za-z_][A-Za-z0-9_]*\<close>\<close>

definition RIDENT :: regex where
  "RIDENT = RSeq (RSet ident_start) (rstar (RSet ident_char))"

section \<open>The matcher\<close>

type_synonym rpos = "nat \<times> char option \<times> string"
type_synonym groups = "(string \<times> nat \<times> string) list"

definition word_at :: "char option \<Rightarrow> bool" where
  "word_at p = (case p of None \<Rightarrow> False | Some c \<Rightarrow> is_word c)"

definition next_char :: "string \<Rightarrow> char option" where
  "next_char cs = (case cs of [] \<Rightarrow> None | c # _ \<Rightarrow> Some c)"

fun adv :: "nat \<Rightarrow> rpos \<Rightarrow> rpos" where
  "adv 0 st = st"
| "adv (Suc n) (i, p, []) = (i, p, [])"
| "adv (Suc n) (i, p, c # cs) = adv n (Suc i, Some c, cs)"

fun star_iter :: "(rpos \<Rightarrow> groups \<Rightarrow> (rpos \<times> groups) list) \<Rightarrow> bool \<Rightarrow> nat \<Rightarrow> rpos \<Rightarrow> groups
    \<Rightarrow> (rpos \<times> groups) list" where
  "star_iter f greedy 0 st g = [(st, g)]"
| "star_iter f greedy (Suc n) st g =
     (let more = concat (map (\<lambda>(st', g'). if fst st' = fst st then [] else star_iter f greedy n st' g')
                             (f st g))
      in if greedy then more @ [(st, g)] else (st, g) # more)"

primrec rmatch :: "regex \<Rightarrow> rpos \<Rightarrow> groups \<Rightarrow> (rpos \<times> groups) list" where
  "rmatch REmpty st g = [(st, g)]"
| "rmatch (RSet P) st g =
     (case st of (i, p, cs) \<Rightarrow> (case cs of [] \<Rightarrow> []
        | c # cs' \<Rightarrow> if P c then [((Suc i, Some c, cs'), g)] else []))"
| "rmatch (RSeq r q) st g = concat (map (\<lambda>(st', g'). rmatch q st' g') (rmatch r st g))"
| "rmatch (RAlt r q) st g = rmatch r st g @ rmatch q st g"
| "rmatch (RStar b r) st g = star_iter (rmatch r) b (length (snd (snd st))) st g"
| "rmatch (RGroup n r) st g =
     map (\<lambda>(st', g'). (st', AList.update n (fst st, take (fst st' - fst st) (snd (snd st))) g'))
         (rmatch r st g)"
| "rmatch (RBackref n) st g =
     (case map_of g n of None \<Rightarrow> []
      | Some (_, w) \<Rightarrow> if prefix w (snd (snd st)) then [(adv (length w) st, g)] else [])"
| "rmatch RBol st g = (if fst st = 0 then [(st, g)] else [])"
| "rmatch RMBol st g = (if fst st = 0 \<or> fst (snd st) = Some LF then [(st, g)] else [])"
| "rmatch REol st g = (if snd (snd st) = [] \<or> snd (snd st) = [LF] then [(st, g)] else [])"
| "rmatch REos st g = (if snd (snd st) = [] then [(st, g)] else [])"
| "rmatch RWordB st g =
     (if word_at (fst (snd st)) \<noteq> word_at (next_char (snd (snd st))) then [(st, g)] else [])"
| "rmatch (RLook b r) st g = (if (rmatch r st g \<noteq> []) = b then [(st, g)] else [])"
| "rmatch (RNotBehind P) st g = (case fst (snd st) of None \<Rightarrow> [(st, g)] | Some c \<Rightarrow> if P c then [] else [(st, g)])"

section \<open>Match objects and the operations on patterns\<close>

record rematch =
  m_start :: nat
  m_end :: nat
  m_text :: string
  m_groups :: groups

definition mk_match :: "rpos \<Rightarrow> rpos \<times> groups \<Rightarrow> rematch" where
  "mk_match st res =
     \<lparr>m_start = fst st, m_end = fst (fst res),
      m_text = take (fst (fst res) - fst st) (snd (snd st)), m_groups = snd res\<rparr>"

definition match_at :: "regex \<Rightarrow> rpos \<Rightarrow> rematch option" where
  "match_at r st = (case rmatch r st [] of [] \<Rightarrow> None | res # _ \<Rightarrow> Some (mk_match st res))"

fun search_at :: "regex \<Rightarrow> nat \<Rightarrow> char option \<Rightarrow> string \<Rightarrow> rematch option" where
  "search_at r i p [] = match_at r (i, p, [])"
| "search_at r i p (c # cs) =
     (case match_at r (i, p, c # cs) of
        Some m \<Rightarrow> Some m
      | None \<Rightarrow> search_at r (Suc i) (Some c) cs)"

definition pos_at :: "string \<Rightarrow> nat \<Rightarrow> rpos" where
  "pos_at s k = adv k (0, None, s)"

text \<open>\<open>r.match(s)\<close>\<close>

definition re_match :: "regex \<Rightarrow> string \<Rightarrow> rematch option" where
  "re_match r s = match_at r (0, None, s)"

text \<open>\<open>r.search(s, pos)\<close>\<close>

definition re_search_from :: "regex \<Rightarrow> string \<Rightarrow> nat \<Rightarrow> rematch option" where
  "re_search_from r s k =
     (if length s < k then None
      else case pos_at s k of (i, p, cs) \<Rightarrow> search_at r i p cs)"

definition re_search :: "regex \<Rightarrow> string \<Rightarrow> rematch option" where
  "re_search r s = search_at r 0 None s"

text \<open>\<open>r.fullmatch(s)\<close>: the first way that ends at the end of the text.\<close>

definition re_fullmatch :: "regex \<Rightarrow> string \<Rightarrow> rematch option" where
  "re_fullmatch r s =
     (case filter (\<lambda>res. snd (snd (fst res)) = []) (rmatch r (0, None, s) []) of
        [] \<Rightarrow> None
      | res # _ \<Rightarrow> Some (mk_match (0, None, s) res))"

abbreviation fullmatches :: "regex \<Rightarrow> string \<Rightarrow> bool" where
  "fullmatches r s \<equiv> re_fullmatch r s \<noteq> None"

text \<open>\<open>m.group(name)\<close> (\<open>None\<close> for a group that took no part) and \<open>m.start(name)\<close>\<close>

definition m_group :: "rematch \<Rightarrow> string \<Rightarrow> string option" where
  "m_group m n = map_option snd (map_of (m_groups m) n)"

definition m_group_start :: "rematch \<Rightarrow> string \<Rightarrow> nat option" where
  "m_group_start m n = map_option fst (map_of (m_groups m) n)"

section \<open>Matching only moves forward, through the text\<close>

definition reaches :: "rpos \<Rightarrow> rpos \<Rightarrow> bool" where
  "reaches st st' \<longleftrightarrow> (\<exists>n \<le> length (snd (snd st)). st' = adv n st)"

lemma adv_zero [simp]: "adv 0 st = st"
  by (cases st) simp

lemma adv_add: "adv m (adv n st) = adv (n + m) st"
proof (induction n st arbitrary: m rule: adv.induct)
  case (2 n i p)
  then show ?case by (cases m) simp_all
qed simp_all

lemma adv_len: "n \<le> length (snd (snd st)) \<Longrightarrow>
    fst (adv n st) = fst st + n \<and> snd (snd (adv n st)) = drop n (snd (snd st))"
  by (induction n st rule: adv.induct) auto

lemma reaches_refl [intro, simp]: "reaches st st"
  unfolding reaches_def by (rule exI [of _ 0]) simp

lemma reaches_trans [trans]:
  assumes "reaches a b" "reaches b c"
  shows "reaches a c"
proof -
  from assms(1) obtain n where n: "n \<le> length (snd (snd a))" "b = adv n a"
    by (auto simp: reaches_def)
  from assms(2) obtain m where m: "m \<le> length (snd (snd b))" "c = adv m b"
    by (auto simp: reaches_def)
  have "n + m \<le> length (snd (snd a))"
    using n m adv_len [OF n(1)] by simp
  then show ?thesis
    using n(2) m(2) by (auto simp: reaches_def adv_add)
qed

lemma reaches_bounds:
  assumes "reaches st st'"
  shows "fst st \<le> fst st'"
    and "fst st' + length (snd (snd st')) = fst st + length (snd (snd st))"
    and "snd (snd st') = drop (fst st' - fst st) (snd (snd st))"
proof -
  from assms obtain n where "n \<le> length (snd (snd st))" "st' = adv n st"
    by (auto simp: reaches_def)
  with adv_len [of n st] show "fst st \<le> fst st'"
    and "fst st' + length (snd (snd st')) = fst st + length (snd (snd st))"
    and "snd (snd st') = drop (fst st' - fst st) (snd (snd st))"
    by simp_all
qed

lemma star_iter_reaches:
  assumes "\<And>st g st' g'. (st', g') \<in> set (f st g) \<Longrightarrow> reaches st st'"
  shows "(st', g') \<in> set (star_iter f b n st g) \<Longrightarrow> reaches st st'"
proof (induction n arbitrary: st g)
  case 0
  then show ?case by simp
next
  case (Suc n)
  from Suc.prems consider "st' = st"
    | st1 g1 where "(st1, g1) \<in> set (f st g)" "(st', g') \<in> set (star_iter f b n st1 g1)"
    by (auto simp: Let_def split: if_splits)
  then show ?case
  proof cases
    case 1
    then show ?thesis by simp
  next
    case 2
    with assms Suc.IH show ?thesis by (meson reaches_trans)
  qed
qed

lemma rmatch_reaches: "(st', g') \<in> set (rmatch r st g) \<Longrightarrow> reaches st st'"
proof (induction r arbitrary: st g st' g')
  case (RSet P)
  then obtain i p c cs where "st = (i, p, c # cs)" "st' = (Suc i, Some c, cs)"
    by (cases st) (auto split: list.splits if_splits)
  then have "st' = adv 1 st" "1 \<le> length (snd (snd st))" by simp_all
  then show ?case unfolding reaches_def by blast
next
  case (RSeq r q)
  from RSeq.prems obtain st1 g1 where "(st1, g1) \<in> set (rmatch r st g)"
    "(st', g') \<in> set (rmatch q st1 g1)" by auto
  with RSeq.IH show ?case by (meson reaches_trans)
next
  case (RStar b r)
  show ?case
  proof (rule star_iter_reaches)
    show "(st', g') \<in> set (star_iter (rmatch r) b (length (snd (snd st))) st g)"
      using RStar.prems by simp
  qed (rule RStar.IH)
next
  case (RBackref n)
  then obtain w where "prefix w (snd (snd st))" "st' = adv (length w) st"
    by (auto split: option.splits if_splits)
  then show ?case unfolding reaches_def by (blast dest: prefix_length_le)
qed (auto split: if_splits option.splits)

lemma match_at_start: "match_at r (i, p, cs) = Some m \<Longrightarrow> m_start m = i"
  by (auto simp: match_at_def mk_match_def split: list.splits)

lemma match_at_bounds:
  assumes "match_at r (i, p, cs) = Some m"
  shows "i \<le> m_end m" and "m_end m \<le> i + length cs" and "m_text m = take (m_end m - i) cs"
proof -
  from assms obtain st' g' where res: "(st', g') \<in> set (rmatch r (i, p, cs) [])"
    and m: "m = mk_match (i, p, cs) (st', g')"
    by (auto simp: match_at_def split: list.splits)
  from rmatch_reaches [OF res] have "reaches (i, p, cs) st'" .
  from reaches_bounds [OF this] m show "i \<le> m_end m" "m_end m \<le> i + length cs"
    "m_text m = take (m_end m - i) cs"
    by (auto simp: mk_match_def)
qed

lemma search_at_bounds:
  "search_at r i p cs = Some m \<Longrightarrow>
     i \<le> m_start m \<and> m_start m \<le> m_end m \<and> m_end m \<le> i + length cs
     \<and> m_text m = py_slice cs (m_start m - i) (m_end m - i)"
proof (induction r i p cs rule: search_at.induct)
  case (1 r i p)
  then show ?case
    using match_at_start [of r i p "[]" m] match_at_bounds [of r i p "[]" m]
    by (auto simp: py_slice_def)
next
  case (2 r i p c cs)
  show ?case
  proof (cases "match_at r (i, p, c # cs)")
    case None
    with "2.prems" have eq: "search_at r (Suc i) (Some c) cs = Some m" by simp
    from "2.IH" [OF None eq] have IH: "Suc i \<le> m_start m" "m_start m \<le> m_end m"
      "m_end m \<le> Suc i + length cs"
      "m_text m = py_slice cs (m_start m - Suc i) (m_end m - Suc i)" by auto
    from IH(1) have "m_start m - i = Suc (m_start m - Suc i)" by simp
    with IH show ?thesis by (auto simp: py_slice_def)
  next
    case (Some m')
    with "2.prems" have "match_at r (i, p, c # cs) = Some m" by simp
    then show ?thesis
      using match_at_start [of r i p "c # cs" m] match_at_bounds [of r i p "c # cs" m]
      by (auto simp: py_slice_def)
  qed
qed

lemma pos_at_eq: "k \<le> length s \<Longrightarrow> fst (pos_at s k) = k \<and> snd (snd (pos_at s k)) = drop k s"
  using adv_len [of k "(0, None, s)"] by (simp add: pos_at_def)

lemma re_search_from_bounds:
  assumes "re_search_from r s k = Some m"
  shows "k \<le> m_start m" "m_start m \<le> m_end m" "m_end m \<le> length s"
    "m_text m = py_slice s (m_start m) (m_end m)"
proof -
  from assms have k: "k \<le> length s" by (simp add: re_search_from_def split: if_splits)
  obtain i p cs where pa: "pos_at s k = (i, p, cs)" by (cases "pos_at s k") auto
  with pos_at_eq [OF k] have i: "i = k" and cs: "cs = drop k s" by auto
  from assms k pa have "search_at r i p cs = Some m" by (simp add: re_search_from_def)
  from search_at_bounds [OF this] i cs k show "k \<le> m_start m" "m_start m \<le> m_end m"
    "m_end m \<le> length s" "m_text m = py_slice s (m_start m) (m_end m)"
    by (auto simp: py_slice_def)
qed

section \<open>Iterated search, substitution and splitting\<close>

text \<open>
  \<open>finditer\<close>: the next search starts where the last match ended, one further after an empty match
  (no pattern that the tools iterate matches the empty string).
\<close>

definition next_start :: "rematch \<Rightarrow> nat" where
  "next_start m = (if m_start m < m_end m then m_end m else Suc (m_end m))"

function finditer_from :: "regex \<Rightarrow> string \<Rightarrow> nat \<Rightarrow> rematch list" where
  "finditer_from r s k =
     (case re_search_from r s k of
        None \<Rightarrow> []
      | Some m \<Rightarrow> m # finditer_from r s (next_start m))"
  by pat_completeness auto
termination
proof (relation "measure (\<lambda>(r, s, k). Suc (length s) - k)")
  fix r s k m
  assume "re_search_from r s k = Some m"
  from re_search_from_bounds [OF this]
  show "((r, s, next_start m), r, s, k) \<in> measure (\<lambda>(r, s, k). Suc (length s) - k)"
    by (auto simp: next_start_def)
qed simp

declare finditer_from.simps [simp del]

definition re_finditer :: "regex \<Rightarrow> string \<Rightarrow> rematch list" where
  "re_finditer r s = finditer_from r s 0"

text \<open>\<open>r.finditer(s, a, b)\<close>: the text is cut at \<open>b\<close>.\<close>

definition re_finditer_range :: "regex \<Rightarrow> string \<Rightarrow> nat \<Rightarrow> nat \<Rightarrow> rematch list" where
  "re_finditer_range r s a b = finditer_from r (take b s) a"

definition re_findall :: "regex \<Rightarrow> string \<Rightarrow> string list" where
  "re_findall r s = map m_text (re_finditer r s)"

fun sub_pieces :: "string \<Rightarrow> (rematch \<Rightarrow> string) \<Rightarrow> nat \<Rightarrow> rematch list \<Rightarrow> string" where
  "sub_pieces s f k [] = drop k s"
| "sub_pieces s f k (m # ms) = py_slice s k (m_start m) @ f m @ sub_pieces s f (m_end m) ms"

text \<open>\<open>r.sub(q, s)\<close> and \<open>r.sub(q, s, count=1)\<close> for a replacement text without escapes.\<close>

definition re_sub :: "regex \<Rightarrow> string \<Rightarrow> string \<Rightarrow> string" where
  "re_sub r q s = sub_pieces s (\<lambda>_. q) 0 (re_finditer r s)"

definition re_sub1 :: "regex \<Rightarrow> string \<Rightarrow> string \<Rightarrow> string" where
  "re_sub1 r q s = sub_pieces s (\<lambda>_. q) 0 (take 1 (re_finditer r s))"

fun split_pieces :: "string \<Rightarrow> nat \<Rightarrow> rematch list \<Rightarrow> string list" where
  "split_pieces s k [] = [drop k s]"
| "split_pieces s k (m # ms) = py_slice s k (m_start m) # split_pieces s (m_end m) ms"

definition re_split :: "regex \<Rightarrow> string \<Rightarrow> string list" where
  "re_split r s = split_pieces s 0 (re_finditer r s)"

section \<open>Character classes and their repetitions\<close>

lemma rmatch_RSet:
  "rmatch (RSet P) (i, p, cs) g =
     (case cs of [] \<Rightarrow> [] | c # cs' \<Rightarrow> if P c then [((Suc i, Some c, cs'), g)] else [])"
  by simp

lemma star_set_results:
  "(st', g') \<in> set (star_iter (rmatch (RSet P)) b n (i, p, cs) g) \<longleftrightarrow>
     g' = g \<and> (\<exists>k \<le> min n (length (takeWhile P cs)). st' = adv k (i, p, cs))"
proof (induction n arbitrary: i p cs)
  case 0
  then show ?case by auto
next
  case (Suc n)
  show ?case
  proof (cases cs)
    case Nil
    then show ?thesis by (auto simp: Let_def)
  next
    case (Cons c cs')
    show ?thesis
    proof (cases "P c")
      case True
      have "(\<exists>k \<le> Suc m. st' = adv k (i, p, c # cs')) \<longleftrightarrow>
          st' = (i, p, c # cs') \<or> (\<exists>k \<le> m. st' = adv k (Suc i, Some c, cs'))" for m
      proof
        assume "\<exists>k \<le> Suc m. st' = adv k (i, p, c # cs')"
        then obtain k where "k \<le> Suc m" "st' = adv k (i, p, c # cs')" by blast
        then show "st' = (i, p, c # cs') \<or> (\<exists>k \<le> m. st' = adv k (Suc i, Some c, cs'))" by (cases k) auto
      next
        assume "st' = (i, p, c # cs') \<or> (\<exists>k \<le> m. st' = adv k (Suc i, Some c, cs'))"
        then show "\<exists>k \<le> Suc m. st' = adv k (i, p, c # cs')"
        proof
          assume "\<exists>k \<le> m. st' = adv k (Suc i, Some c, cs')"
          then obtain k where "k \<le> m" "st' = adv k (Suc i, Some c, cs')" by blast
          then show ?thesis by (intro exI [of _ "Suc k"]) simp
        qed (rule exI [of _ 0], simp)
      qed
      then show ?thesis using Suc.IH [of "Suc i" "Some c" cs'] Cons True
        by (auto simp: Let_def)
    next
      case False
      with Cons show ?thesis by (auto simp: Let_def)
    qed
  qed
qed

lemma rmatch_star_set:
  "(st', g') \<in> set (rmatch (RStar b (RSet P)) (i, p, cs) g) \<longleftrightarrow>
     g' = g \<and> (\<exists>k \<le> length (takeWhile P cs). st' = adv k (i, p, cs))"
  using star_set_results [of st' g' P b "length cs" i p cs g] length_takeWhile_le [of P cs]
  by (simp add: min_absorb2)

lemma rmatch_RSeq_iff:
  "(st', g') \<in> set (rmatch (RSeq r q) st g) \<longleftrightarrow>
     (\<exists>st1 g1. (st1, g1) \<in> set (rmatch r st g) \<and> (st', g') \<in> set (rmatch q st1 g1))"
  by (auto simp: Bex_def case_prod_unfold)

lemma fullmatches_iff:
  "fullmatches r s \<longleftrightarrow> (\<exists>i p g. ((i, p, []), g) \<in> set (rmatch r (0, None, s) []))"
proof -
  have "fullmatches r s \<longleftrightarrow> filter (\<lambda>res. snd (snd (fst res)) = []) (rmatch r (0, None, s) []) \<noteq> []"
    by (auto simp: re_fullmatch_def split: list.splits)
  also have "\<dots> \<longleftrightarrow> (\<exists>res \<in> set (rmatch r (0, None, s) []). snd (snd (fst res)) = [])"
    by (simp add: filter_empty_conv)
  also have "\<dots> \<longleftrightarrow> (\<exists>i p g. ((i, p, []), g) \<in> set (rmatch r (0, None, s) []))"
    by (auto simp: Bex_def)
  finally show ?thesis .
qed

lemma adv_rest: "k \<le> length cs \<Longrightarrow> \<exists>i' p'. adv k (i, p, cs) = (i', p', drop k cs)"
  using adv_len [of k "(i, p, cs)"] by (cases "adv k (i, p, cs)") auto

lemma takeWhile_all_iff: "length xs \<le> length (takeWhile P xs) \<longleftrightarrow> list_all P xs"
  by (induction xs) auto

text \<open>The rest of the text is taken whole by a repeated class exactly when it lies in the class.\<close>

lemma star_set_to_end:
  "(\<exists>i' p' g'. ((i', p', []), g') \<in> set (rmatch (RStar b (RSet P)) (i, p, cs) g)) \<longleftrightarrow> list_all P cs"
proof
  assume "\<exists>i' p' g'. ((i', p', []), g') \<in> set (rmatch (RStar b (RSet P)) (i, p, cs) g)"
  then obtain i' p' k where k: "k \<le> length (takeWhile P cs)" "(i', p', []) = adv k (i, p, cs)"
    unfolding rmatch_star_set by blast
  then have "k \<le> length cs" using length_takeWhile_le [of P cs] by simp
  with k adv_rest [of k cs i p] have "length cs \<le> k" by (metis drop_eq_Nil2 prod.inject)
  with k(1) show "list_all P cs" by (simp flip: takeWhile_all_iff)
next
  assume "list_all P cs"
  then have "length cs \<le> length (takeWhile P cs)" by (simp add: takeWhile_all_iff)
  moreover obtain i' p' where "adv (length cs) (i, p, cs) = (i', p', [])"
    using adv_rest [of "length cs" cs i p] by auto
  ultimately show "\<exists>i' p' g'. ((i', p', []), g') \<in> set (rmatch (RStar b (RSet P)) (i, p, cs) g)"
    unfolding rmatch_star_set by metis
qed

lemma fullmatches_star_set: "fullmatches (rstar (RSet P)) s \<longleftrightarrow> list_all P s"
  unfolding fullmatches_iff by (rule star_set_to_end)

lemma RSet_seq_to_end:
  "(\<exists>i' p' g'. ((i', p', []), g') \<in> set (rmatch (RSeq (RSet P) r) (i, p, cs) g)) \<longleftrightarrow>
     (\<exists>c cs'. cs = c # cs' \<and> P c \<and> (\<exists>i' p' g'. ((i', p', []), g') \<in> set (rmatch r (Suc i, Some c, cs') g)))"
  by (cases cs) auto

lemma fullmatches_class_star:
  "fullmatches (RSeq (RSet P) (rstar (RSet Q))) s \<longleftrightarrow> (\<exists>c cs. s = c # cs \<and> P c \<and> list_all Q cs)"
  unfolding fullmatches_iff RSet_seq_to_end star_set_to_end ..

lemma fullmatches_plus: "fullmatches (rplus (RSet P)) s \<longleftrightarrow> s \<noteq> [] \<and> list_all P s"
  unfolding fullmatches_class_star by (cases s) auto

lemma seq_REos_to_end:
  "(\<exists>i' p' g'. ((i', p', []), g') \<in> set (rmatch (RSeq r REos) st g)) \<longleftrightarrow>
     (\<exists>i' p' g'. ((i', p', []), g') \<in> set (rmatch r st g))"
  by (auto split: if_splits)

lemma rrep_set_to_end:
  "(\<exists>i' p' g'. ((i', p', []), g') \<in> set (rmatch (rrep n (RSet P)) (i, p, cs) g)) \<longleftrightarrow>
     length cs = n \<and> list_all P cs"
proof (induction n arbitrary: i p cs g)
  case (Suc n)
  show ?case
    unfolding rrep.simps RSet_seq_to_end Suc.IH by (cases cs) auto
qed auto

lemma fullmatches_rrep: "fullmatches (rrep n (RSet P)) s \<longleftrightarrow> length s = n \<and> list_all P s"
  unfolding fullmatches_iff by (rule rrep_set_to_end)

lemma ropts_set_to_end:
  "(\<exists>i' p' g'. ((i', p', []), g') \<in> set (rmatch (ropts n (RSet P)) (i, p, cs) g)) \<longleftrightarrow>
     length cs \<le> n \<and> list_all P cs"
proof (induction n arbitrary: i p cs g)
  case (Suc n)
  have "(\<exists>i' p' g'. ((i', p', []), g') \<in> set (rmatch (ropts (Suc n) (RSet P)) (i, p, cs) g)) \<longleftrightarrow>
      (\<exists>i' p' g'. ((i', p', []), g') \<in> set (rmatch (RSeq (RSet P) (ropts n (RSet P))) (i, p, cs) g)) \<or> cs = []"
    by (auto simp del: rmatch.simps(3))
  then show ?case unfolding RSet_seq_to_end Suc.IH by (cases cs) auto
qed auto

lemma rep_range_to_end:
  "(\<exists>i' p' g'. ((i', p', []), g') \<in> set (rmatch (RSeq (rrep m (RSet P)) (ropts n (RSet P))) (i, p, cs) g)) \<longleftrightarrow>
     m \<le> length cs \<and> length cs \<le> m + n \<and> list_all P cs"
proof (induction m arbitrary: i p cs g)
  case 0
  then show ?case using ropts_set_to_end [of n P i p cs g] by simp
next
  case (Suc m)
  have eq: "rmatch (RSeq (rrep (Suc m) (RSet P)) (ropts n (RSet P))) (i, p, cs) g =
      rmatch (RSeq (RSet P) (RSeq (rrep m (RSet P)) (ropts n (RSet P)))) (i, p, cs) g"
    by (cases cs) auto
  show ?case unfolding eq RSet_seq_to_end Suc.IH by (cases cs) auto
qed

lemma fullmatches_rep_range:
  "fullmatches (RSeq (rrep m (RSet P)) (ropts n (RSet P))) s \<longleftrightarrow>
     m \<le> length s \<and> length s \<le> m + n \<and> list_all P s"
  unfolding fullmatches_iff by (rule rep_range_to_end)

section \<open>Patterns of fixed length\<close>

definition takes :: "nat \<Rightarrow> (char \<Rightarrow> bool) \<Rightarrow> regex \<Rightarrow> bool" where
  "takes n P r \<longleftrightarrow> (\<forall>st g st' g'. (st', g') \<in> set (rmatch r st g) \<longrightarrow>
     st' = adv n st \<and> n \<le> length (snd (snd st)) \<and> list_all P (take n (snd (snd st))))"

lemma takes_RSet: "(\<And>c. Q c \<Longrightarrow> P c) \<Longrightarrow> takes 1 P (RSet Q)"
  by (auto simp: takes_def split: list.splits if_splits)

lemma takes_REmpty: "takes 0 P REmpty"
  by (auto simp: takes_def)

lemma takes_RSeq:
  assumes "takes m P r" "takes n P q"
  shows "takes (m + n) P (RSeq r q)"
  unfolding takes_def
proof (intro allI impI)
  fix st g st' g'
  assume "(st', g') \<in> set (rmatch (RSeq r q) st g)"
  then obtain st1 g1 where "(st1, g1) \<in> set (rmatch r st g)" "(st', g') \<in> set (rmatch q st1 g1)"
    by (auto simp: rmatch_RSeq_iff)
  with assms have r: "st1 = adv m st" "m \<le> length (snd (snd st))" "list_all P (take m (snd (snd st)))"
    and q: "st' = adv n st1" "n \<le> length (snd (snd st1))" "list_all P (take n (snd (snd st1)))"
    unfolding takes_def by blast+
  from adv_len [OF r(2)] have "snd (snd st1) = drop m (snd (snd st))" using r(1) by simp
  with r q show "st' = adv (m + n) st \<and> m + n \<le> length (snd (snd st)) \<and> list_all P (take (m + n) (snd (snd st)))"
    by (simp add: adv_add take_add)
qed

lemma takes_rrep: "takes 1 P r \<Longrightarrow> takes n P (rrep n r)"
proof (induction n)
  case 0
  show ?case by (simp add: takes_REmpty)
next
  case (Suc n)
  then show ?case using takes_RSeq [of 1 P r n "rrep n r"] by simp
qed

lemma takes_fullmatches:
  assumes "takes n P r" "fullmatches r s"
  shows "length s = n \<and> list_all P s"
proof -
  from assms(2) obtain i p g where "((i, p, []), g) \<in> set (rmatch r (0, None, s) [])"
    unfolding fullmatches_iff by blast
  with assms(1) have eq: "(i, p, []) = adv n (0, None, s)" and n: "n \<le> length s" and P: "list_all P (take n s)"
    unfolding takes_def by fastforce+
  from adv_len [of n "(0, None, s)"] eq n have "drop n s = []" by (metis snd_conv)
  with n P show ?thesis by simp
qed

section \<open>Substitution of a character class\<close>

lemma search_class:
  "search_at (RSet P) i p s =
     (let k = length (takeWhile (\<lambda>c. \<not> P c) s) in
      if k < length s then Some \<lparr>m_start = i + k, m_end = Suc (i + k), m_text = [s ! k], m_groups = []\<rparr> else None)"
  by (induction s arbitrary: i p) (auto simp: match_at_def mk_match_def Let_def)

lemma search_from_class:
  "re_search_from (RSet P) s i =
     (if length s < i then None
      else let k = length (takeWhile (\<lambda>c. \<not> P c) (drop i s)) in
        if k < length (drop i s)
        then Some \<lparr>m_start = i + k, m_end = Suc (i + k), m_text = [drop i s ! k], m_groups = []\<rparr> else None)"
proof (cases "length s < i")
  case False
  then obtain p where "pos_at s i = (i, p, drop i s)" using pos_at_eq [of i s] by (cases "pos_at s i") auto
  with False show ?thesis by (simp add: re_search_from_def search_class)
qed (simp add: re_search_from_def)

lemma sub_class_from:
  "i \<le> length s \<Longrightarrow> sub_pieces s (\<lambda>_. q) i (finditer_from (RSet P) s i) = concat (map (\<lambda>c. if P c then q else [c]) (drop i s))"
proof (induction "length s - i" arbitrary: i rule: less_induct)
  case less
  define k where "k = length (takeWhile (\<lambda>c. \<not> P c) (drop i s))"
  have keep: "concat (map (\<lambda>c. if P c then q else [c]) (takeWhile (\<lambda>c. \<not> P c) xs)) = takeWhile (\<lambda>c. \<not> P c) xs" for xs
    by (induction xs) auto
  show ?case
  proof (cases "k < length (drop i s)")
    case False
    then have "take k (drop i s) = drop i s" by simp
    then have all: "takeWhile (\<lambda>c. \<not> P c) (drop i s) = drop i s"
      unfolding k_def by (rule trans [OF takeWhile_eq_take])
    have "finditer_from (RSet P) s i = []"
      using False less.prems by (subst finditer_from.simps) (simp add: search_from_class k_def [symmetric])
    then show ?thesis using keep [of "drop i s"] all by simp
  next
    case True
    let ?m = "\<lparr>m_start = i + k, m_end = Suc (i + k), m_text = [drop i s ! k], m_groups = []\<rparr>"
    have "finditer_from (RSet P) s i = ?m # finditer_from (RSet P) s (Suc (i + k))"
      using True less.prems by (subst finditer_from.simps) (simp add: search_from_class k_def [symmetric] next_start_def Let_def)
    then have "sub_pieces s (\<lambda>_. q) i (finditer_from (RSet P) s i) =
        py_slice s i (i + k) @ q @ concat (map (\<lambda>c. if P c then q else [c]) (drop (Suc (i + k)) s))"
      using less.hyps [of "Suc (i + k)"] True less.prems by simp
    moreover have "py_slice s i (i + k) = takeWhile (\<lambda>c. \<not> P c) (drop i s)"
      unfolding py_slice_def k_def by (simp add: takeWhile_eq_take [symmetric])
    moreover have split: "drop i s = takeWhile (\<lambda>c. \<not> P c) (drop i s) @ (drop i s ! k) # drop (Suc (i + k)) s"
      using True id_take_nth_drop [of k "drop i s"] takeWhile_eq_take [of "\<lambda>c. \<not> P c" "drop i s"]
      by (simp add: k_def [symmetric] add.commute)
    moreover have "P (drop i s ! k)" using True nth_length_takeWhile unfolding k_def by blast
    then have "concat (map (\<lambda>c. if P c then q else [c]) (drop i s)) =
        takeWhile (\<lambda>c. \<not> P c) (drop i s) @ q @ concat (map (\<lambda>c. if P c then q else [c]) (drop (Suc (i + k)) s))"
      by (subst split) (simp only: map_append concat_append keep list.map concat.simps if_True)
    ultimately show ?thesis by simp
  qed
qed

lemma re_sub_class: "re_sub (RSet P) q s = concat (map (\<lambda>c. if P c then q else [c]) s)"
  using sub_class_from [of 0 s q P] by (simp add: re_sub_def re_finditer_def)

lemma sub_pieces_set: "set (sub_pieces s (\<lambda>_. q) k ms) \<subseteq> set q \<union> set s"
proof (induction ms arbitrary: k)
  case Nil
  show ?case by (auto dest: in_set_dropD)
next
  case (Cons m ms)
  have "set (py_slice s k (m_start m)) \<subseteq> set s" by (auto simp: py_slice_def dest!: in_set_takeD in_set_dropD)
  with Cons show ?case by auto
qed

lemma re_sub_set: "set (re_sub r q s) \<subseteq> set q \<union> set s"
  unfolding re_sub_def by (rule sub_pieces_set)

section \<open>Literals and repetitions in order of priority\<close>

lemma rmatch_rlit: "rmatch (rlit s) (i, p, cs) g = (if prefix s cs then [(adv (length s) (i, p, cs), g)] else [])"
proof (induction s arbitrary: i p cs rule: rlit.induct)
  case (2 c)
  then show ?case by (cases cs) auto
next
  case (3 c d s)
  then show ?case by (cases cs) auto
qed simp

lemma star_set_lazy:
  "star_iter (rmatch (RSet P)) False n (i, p, cs) g =
     map (\<lambda>k. (adv k (i, p, cs), g)) [0..<Suc (min n (length (takeWhile P cs)))]"
proof (induction n arbitrary: i p cs)
  case (Suc n)
  show ?case
  proof (cases cs)
    case (Cons c cs')
    have "[0..<Suc (Suc m)] = 0 # map Suc [0..<Suc m]" for m
      by (metis map_Suc_upt upt_conv_Cons zero_less_Suc)
    moreover have "[0..<Suc 0] = [0]" by simp
    ultimately show ?thesis using Cons Suc [of "Suc i" "Some c" cs'] by (simp add: comp_def del: upt_Suc)
  qed simp
qed simp

lemma rmatch_lazy_set:
  "rmatch (RStar False (RSet P)) (i, p, cs) g = map (\<lambda>k. (adv k (i, p, cs), g)) [0..<Suc (length (takeWhile P cs))]"
  using star_set_lazy [of P "length cs" i p cs g] length_takeWhile_le [of P cs] by (simp add: min_def del: upt_Suc)

lemma star_set_greedy:
  "star_iter (rmatch (RSet P)) True n (i, p, cs) g =
     map (\<lambda>k. (adv k (i, p, cs), g)) (rev [0..<Suc (min n (length (takeWhile P cs)))])"
proof (induction n arbitrary: i p cs)
  case (Suc n)
  show ?case
  proof (cases cs)
    case (Cons c cs')
    have "rev [0..<Suc (Suc m)] = map Suc (rev [0..<Suc m]) @ [0]" for m
      by (metis map_Suc_upt upt_conv_Cons zero_less_Suc rev.simps(2) rev_map)
    moreover have "[0..<Suc 0] = [0]" by simp
    ultimately show ?thesis using Cons Suc [of "Suc i" "Some c" cs'] by (simp add: comp_def del: upt_Suc)
  qed simp
qed simp

lemma rmatch_greedy_set:
  "rmatch (RStar True (RSet P)) (i, p, cs) g = map (\<lambda>k. (adv k (i, p, cs), g)) (rev [0..<Suc (length (takeWhile P cs))])"
  using star_set_greedy [of P "length cs" i p cs g] length_takeWhile_le [of P cs] by (simp add: min_def del: upt_Suc)

lemma adv_prefix: "\<exists>p'. adv (length a) (i, p, a @ b) = (i + length a, p', b)"
  using adv_len [of "length a" "(i, p, a @ b)"] by (cases "adv (length a) (i, p, a @ b)") auto

lemma lazy_until:
  assumes before: "\<And>k. k < n \<Longrightarrow> \<not> prefix q (drop k cs)" and at_n: "prefix q (drop n cs)" and n: "n \<le> length (takeWhile P cs)"
  shows "\<exists>more. rmatch (RSeq (RStar False (RSet P)) (rlit q)) (i, p, cs) g = (adv (n + length q) (i, p, cs), g) # more"
proof -
  have step: "rmatch (rlit q) (adv k (i, p, cs)) g = (if prefix q (drop k cs) then [(adv (k + length q) (i, p, cs), g)] else [])"
    if "k \<le> length (takeWhile P cs)" for k
  proof -
    have "k \<le> length cs" using that length_takeWhile_le [of P cs] by simp
    then obtain i' p' where "adv k (i, p, cs) = (i', p', drop k cs)" using adv_rest by blast
    then show ?thesis using adv_add [of "length q" k "(i, p, cs)"] by (simp add: rmatch_rlit)
  qed
  have split: "[0..<Suc (length (takeWhile P cs))] = [0..<n] @ n # [Suc n..<Suc (length (takeWhile P cs))]"
    using n upt_add_eq_append [of 0 n] by (metis le_imp_less_Suc less_imp_le_nat upt_conv_Cons le0 le_add_diff_inverse)
  have none: "concat (map (\<lambda>k. rmatch (rlit q) (adv k (i, p, cs)) g) ks) = []" if "\<And>k. k \<in> set ks \<Longrightarrow> k < n" for ks
  proof -
    have "rmatch (rlit q) (adv k (i, p, cs)) g = []" if "k < n" for k using that step [of k] before [OF that] n by simp
    then show ?thesis using \<open>\<And>k. k \<in> set ks \<Longrightarrow> k < n\<close> by simp
  qed
  have "rmatch (RSeq (RStar False (RSet P)) (rlit q)) (i, p, cs) g =
      concat (map (\<lambda>k. rmatch (rlit q) (adv k (i, p, cs)) g) [0..<Suc (length (takeWhile P cs))])"
    unfolding rmatch.simps(3) rmatch_lazy_set map_map comp_def prod.case ..
  also have "\<dots> = (adv (n + length q) (i, p, cs), g) # concat (map (\<lambda>k. rmatch (rlit q) (adv k (i, p, cs)) g) [Suc n..<Suc (length (takeWhile P cs))])"
    unfolding split map_append concat_append using none [of "[0..<n]"] step [OF n] at_n by simp
  finally show ?thesis by blast
qed

lemma greedy_until:
  assumes "list_all P w" "\<not> P c" "\<And>d. P d \<Longrightarrow> d \<noteq> c"
  shows "rmatch (RSeq (RGroup n (rstar (RSet P))) (rchar c)) (i, p, w @ c # cs) g =
    [(adv (Suc (length w)) (i, p, w @ c # cs), AList.update n (i, w) g)]"
proof -
  have len: "length (takeWhile P (w @ c # cs)) = length w" using assms(1,2) by (simp add: takeWhile_append2 list_all_iff)
  have at: "\<exists>i' p'. adv k (i, p, w @ c # cs) = (i', p', drop k w @ c # cs) \<and> i' = i + k" if "k \<le> length w" for k
    using adv_len [of k "(i, p, w @ c # cs)"] that by (cases "adv k (i, p, w @ c # cs)") auto
  have stop: "rmatch (rchar c) (adv k (i, p, w @ c # cs)) g' = []" if "k < length w" for k g'
    using at [of k] that assms(1,3) by (auto simp: list_all_iff Cons_nth_drop_Suc [symmetric])
  obtain p' where last: "adv (length w) (i, p, w @ c # cs) = (i + length w, p', c # cs)" using at [of "length w"] by auto
  have step: "adv (Suc (length w)) (i, p, w @ c # cs) = (Suc (i + length w), Some c, cs)"
    using adv_add [of 1 "length w" "(i, p, w @ c # cs)"] last by simp
  have hit: "rmatch (rchar c) (i + length w, p', c # cs) g' = [((Suc (i + length w), Some c, cs), g')]" for g' by simp
  have "rev [0..<Suc (length w)] = length w # rev [0..<length w]" by simp
  then show ?thesis
    unfolding rmatch.simps(3) rmatch.simps(6) rmatch_greedy_set len
    using last step by (simp add: comp_def stop hit del: upt_Suc rmatch.simps(2))
qed


text \<open>A search passes over every position at which nothing matches.\<close>

lemma search_skip:
  "(\<And>j q. j < length s \<Longrightarrow> match_at r (i + j, q, drop j (s @ t)) = None) \<Longrightarrow>
     search_at r i p (s @ t) = search_at r (i + length s) (if s = [] then p else Some (last s)) t"
proof (induction s arbitrary: i p)
  case (Cons c s)
  have "match_at r (i, p, c # s @ t) = None" using Cons.prems [of 0 p] by simp
  moreover have "search_at r (Suc i) (Some c) (s @ t) = search_at r (Suc i + length s) (if s = [] then Some c else Some (last s)) t"
    using Cons.prems [of "Suc j" for j] by (intro Cons.IH) (simp add: add.commute)
  ultimately show ?case by simp
qed simp

end
