(* ===== verification/PyJson.thy ===== *)
theory PyJson
  imports PyPrelude
begin

text \<open>
  Python's \<^verbatim>\<open>json\<close>: decoded values, \<^verbatim>\<open>loads\<close> and \<^verbatim>\<open>raw_decode\<close> (the strict decoder), and \<^verbatim>\<open>dumps\<close> with
  the separators and flags the tools use. A decoding error is \<open>None\<close>. A \<^verbatim>\<open>\uXXXX\<close> escape of a code
  point above 255 is outside the modelled strings and decodes to an error.

  The decoder takes fuel; every call it makes to itself consumes a character, and the length of the
  text is what the callers give. The main lemma is the round trip of \<^verbatim>\<open>dumps\<close> and \<^verbatim>\<open>loads\<close>.
\<close>

section \<open>Values\<close>

text \<open>A float literal as mantissa and power of ten, and the three non-finite constants.\<close>

datatype pyfloat = Decimal int int | PosInfinity | NegInfinity | NotANumber

datatype json =
    JNull
  | JBool bool
  | JInt int
  | JFloat pyfloat
  | JStr string
  | JArr "json list"
  | JObj "(string \<times> json) list"

type_synonym jobject = "(string \<times> json) list"

text \<open>\<open>d.get(key)\<close>: \<open>None\<close> for a missing key and for a JSON null.\<close>

definition jget :: "jobject \<Rightarrow> string \<Rightarrow> json" where
  "jget d k = (case map_of d k of None \<Rightarrow> JNull | Some v \<Rightarrow> v)"

text \<open>\<open>d.get(key, default)\<close>\<close>

definition jget_or :: "jobject \<Rightarrow> string \<Rightarrow> json \<Rightarrow> json" where
  "jget_or d k v = (case map_of d k of None \<Rightarrow> v | Some x \<Rightarrow> x)"

text \<open>What the decoder says of a malformed text: \<open>exc.msg\<close> and \<open>str(exc)\<close>.\<close>

record json_diag =
  diag_msg :: "string \<Rightarrow> string"
  diag_str :: "string \<Rightarrow> string"

fun as_str :: "json \<Rightarrow> string option" where
  "as_str (JStr s) = Some s"
| "as_str _ = None"

fun as_obj :: "json \<Rightarrow> jobject option" where
  "as_obj (JObj d) = Some d"
| "as_obj _ = None"

fun as_arr :: "json \<Rightarrow> json list option" where
  "as_arr (JArr xs) = Some xs"
| "as_arr _ = None"

section \<open>Floats\<close>

text \<open>
  A literal \<open>m \<cdot> 10 ^ e\<close> is read as the nearest double. Its truncation to an integer needs the
  rounding to 53 significant bits: \<open>q = n / d\<close> is scaled by a power of two into
  \<open>[2 ^ 52, 2 ^ 53)\<close> and rounded half to even.
\<close>

definition round_half_even :: "nat \<Rightarrow> nat \<Rightarrow> nat" where
  "round_half_even n d =
     (let q = n div d; r = n mod d in
      if 2 * r < d then q else if 2 * r > d then q + 1 else if even q then q else q + 1)"

fun bit_length :: "nat \<Rightarrow> nat" where
  "bit_length n = (if n = 0 then 0 else Suc (bit_length (n div 2)))"

declare bit_length.simps [simp del]

text \<open>The integer part of the double nearest to \<open>n / d\<close>; \<open>None\<close> when it overflows to infinity.\<close>

definition double_trunc :: "nat \<Rightarrow> nat \<Rightarrow> nat option" where
  "double_trunc n d =
     (let whole = n div d; bits = bit_length whole in
      if bits = 0 then Some (if round_half_even (n * 2 ^ 53) d \<ge> 2 ^ 53 then 1 else 0)
      else if bits \<le> 53 then
        (let m = round_half_even (n * 2 ^ (53 - bits)) d in Some (m div 2 ^ (53 - bits)))
      else
        (let m = round_half_even n (d * 2 ^ (bits - 53)) in
         if m * 2 ^ (bits - 53) \<ge> 2 ^ 1024 then None else Some (m * 2 ^ (bits - 53))))"

definition decimal_ratio :: "int \<Rightarrow> int \<Rightarrow> nat \<times> nat" where
  "decimal_ratio m e =
     (if e \<ge> 0 then (nat \<bar>m\<bar> * 10 ^ nat e, 1) else (nat \<bar>m\<bar>, 10 ^ nat (- e)))"

text \<open>\<open>int(x)\<close> of a float: \<open>OverflowError\<close> is \<open>None\<close> inside \<open>Some\<close>, \<open>ValueError\<close> (NaN) is \<open>None\<close>.\<close>

definition float_to_int :: "pyfloat \<Rightarrow> int option option" where
  "float_to_int x =
     (case x of
        Decimal m e \<Rightarrow>
          (case double_trunc (fst (decimal_ratio m e)) (snd (decimal_ratio m e)) of
             None \<Rightarrow> Some None
           | Some k \<Rightarrow> Some (Some (if m < 0 then - int k else int k)))
      | PosInfinity \<Rightarrow> Some None
      | NegInfinity \<Rightarrow> Some None
      | NotANumber \<Rightarrow> None)"

text \<open>\<open>bool(x)\<close> of a float: false exactly for literals that round to zero.\<close>

definition float_truth :: "pyfloat \<Rightarrow> bool" where
  "float_truth x =
     (case x of
        Decimal m e \<Rightarrow>
          fst (decimal_ratio m e) * 2 ^ 1075 > snd (decimal_ratio m e)
      | _ \<Rightarrow> True)"

text \<open>\<open>bool(x)\<close> of a decoded value\<close>

fun truth :: "json \<Rightarrow> bool" where
  "truth JNull = False"
| "truth (JBool b) = b"
| "truth (JInt i) = (i \<noteq> 0)"
| "truth (JFloat f) = float_truth f"
| "truth (JStr s) = (s \<noteq> [])"
| "truth (JArr xs) = (xs \<noteq> [])"
| "truth (JObj d) = (d \<noteq> [])"

text \<open>\<open>int(x)\<close> of a decoded value: \<open>TypeError\<close>, \<open>ValueError\<close> or \<open>OverflowError\<close> where it raises.\<close>

fun int_of_json :: "json \<Rightarrow> int result" where
  "int_of_json (JBool b) = Return (if b then 1 else 0)"
| "int_of_json (JInt i) = Return i"
| "int_of_json (JFloat f) =
     (case float_to_int f of
        None \<Rightarrow> Raise (ValueError ''cannot convert float NaN to integer'')
      | Some None \<Rightarrow> Raise OverflowError
      | Some (Some i) \<Rightarrow> Return i)"
| "int_of_json (JStr s) =
     (case int_of_str s of
        None \<Rightarrow> Raise (ValueError ''invalid literal for int() with base 10'')
      | Some i \<Rightarrow> Return i)"
| "int_of_json _ = Raise (TypeError ''int() argument must be a string or a number'')"

text \<open>\<open>str(x)\<close> of a decoded value; \<open>str_other\<close> prints floats and containers.\<close>

fun str_json :: "(json \<Rightarrow> string) \<Rightarrow> json \<Rightarrow> string" where
  "str_json str_other (JStr s) = s"
| "str_json str_other JNull = ''None''"
| "str_json str_other (JBool b) = (if b then ''True'' else ''False'')"
| "str_json str_other (JInt i) = str_int i"
| "str_json str_other v = str_other v"

section \<open>Decoding\<close>

definition is_json_ws :: "char \<Rightarrow> bool" where
  "is_json_ws c \<longleftrightarrow> c = CHR '' '' \<or> c = TAB \<or> c = LF \<or> c = CR"

definition skip_ws :: "string \<Rightarrow> string" where
  "skip_ws s = dropWhile is_json_ws s"

definition hex_val :: "char \<Rightarrow> nat option" where
  "hex_val c = (let n = ord c in
     if 48 \<le> n \<and> n \<le> 57 then Some (n - 48)
     else if 97 \<le> n \<and> n \<le> 102 then Some (n - 87)
     else if 65 \<le> n \<and> n \<le> 70 then Some (n - 55) else None)"

definition hex4 :: "char \<Rightarrow> char \<Rightarrow> char \<Rightarrow> char \<Rightarrow> char option" where
  "hex4 a b c d =
     (case (hex_val a, hex_val b, hex_val c, hex_val d) of
        (Some w, Some x, Some y, Some z) \<Rightarrow>
          (let n = ((w * 16 + x) * 16 + y) * 16 + z in if n < 256 then Some (char_of n) else None)
      | _ \<Rightarrow> None)"

definition simple_escape :: "char \<Rightarrow> char option" where
  "simple_escape c =
     (if c = DQ then Some DQ else if c = BSLASH then Some BSLASH else if c = CHR ''/'' then Some (CHR ''/'')
      else if c = CHR ''b'' then Some (CHR 0x08) else if c = CHR ''f'' then Some (CHR 0x0C)
      else if c = CHR ''n'' then Some LF else if c = CHR ''r'' then Some CR
      else if c = CHR ''t'' then Some TAB else None)"

text \<open>The text after the opening quote: the decoded string and what follows the closing quote.\<close>

fun pstring :: "string \<Rightarrow> (string \<times> string) option" where
  "pstring [] = None"
| "pstring (c # cs) =
     (if c = DQ then Some ([], cs)
      else if c = BSLASH then
        (case cs of
           [] \<Rightarrow> None
         | e # ds \<Rightarrow>
             if e = CHR ''u'' then
               (case ds of
                  a # b # x # y # rest \<Rightarrow>
                    (case hex4 a b x y of None \<Rightarrow> None
                     | Some ch \<Rightarrow> map_option (\<lambda>(s, r). (ch # s, r)) (pstring rest))
                | _ \<Rightarrow> None)
             else
               (case simple_escape e of None \<Rightarrow> None
                | Some ch \<Rightarrow> map_option (\<lambda>(s, r). (ch # s, r)) (pstring ds)))
      else if ord c < 32 then None
      else map_option (\<lambda>(s, r). (c # s, r)) (pstring cs))"

definition pexponent :: "string \<Rightarrow> (int \<times> string) option" where
  "pexponent s =
     (case s of
        [] \<Rightarrow> None
      | c # cs \<Rightarrow>
          if c \<noteq> CHR ''e'' \<and> c \<noteq> CHR ''E'' then None
          else
            (let sign = (case cs of d # _ \<Rightarrow> if d = CHR ''-'' then -1 else 1 | [] \<Rightarrow> (1::int));
                 body = (case cs of d # ds \<Rightarrow> if d = CHR ''-'' \<or> d = CHR ''+'' then ds else cs | [] \<Rightarrow> []);
                 digits = takeWhile is_decimal body
             in if digits = [] then None
                else Some (sign * int (digits_val digits), drop (length digits) body)))"

definition pfraction :: "string \<Rightarrow> (string \<times> string) option" where
  "pfraction s =
     (case s of
        [] \<Rightarrow> None
      | c # cs \<Rightarrow>
          if c \<noteq> CHR ''.'' then None
          else (let digits = takeWhile is_decimal cs in
                if digits = [] then None else Some (digits, drop (length digits) cs)))"

definition pnumber :: "string \<Rightarrow> (json \<times> string) option" where
  "pnumber s0 =
     (let neg = (case s0 of c # _ \<Rightarrow> c = CHR ''-'' | [] \<Rightarrow> False);
          s = (if neg then tl s0 else s0);
          sgn = (if neg then -1 else (1::int));
          run = takeWhile is_decimal s;
          digits = (case run of [] \<Rightarrow> [] | d # _ \<Rightarrow> if d = CHR ''0'' then [d] else run);
          rest = drop (length digits) s
      in if digits = [] then None
         else
           (let (frac, rest1, has_frac) =
                  (case pfraction rest of None \<Rightarrow> ([], rest, False) | Some (f, r) \<Rightarrow> (f, r, True));
                (ex, rest2, has_exp) =
                  (case pexponent rest1 of None \<Rightarrow> (0, rest1, False) | Some (e, r) \<Rightarrow> (e, r, True))
            in if has_frac \<or> has_exp
               then Some (JFloat (Decimal (sgn * int (digits_val (digits @ frac))) (ex - int (length frac))), rest2)
               else Some (JInt (sgn * int (digits_val digits)), rest)))"

definition pconstant :: "string \<Rightarrow> (json \<times> string) option" where
  "pconstant s =
     (if prefix ''null'' s then Some (JNull, drop 4 s)
      else if prefix ''true'' s then Some (JBool True, drop 4 s)
      else if prefix ''false'' s then Some (JBool False, drop 5 s)
      else case pnumber s of
        Some r \<Rightarrow> Some r
      | None \<Rightarrow>
          if prefix ''NaN'' s then Some (JFloat NotANumber, drop 3 s)
          else if prefix ''Infinity'' s then Some (JFloat PosInfinity, drop 8 s)
          else if prefix ''-Infinity'' s then Some (JFloat NegInfinity, drop 9 s)
          else None)"

fun pvalue :: "nat \<Rightarrow> string \<Rightarrow> (json \<times> string) option"
  and pitems :: "nat \<Rightarrow> json list \<Rightarrow> string \<Rightarrow> (json \<times> string) option"
  and pmembers :: "nat \<Rightarrow> jobject \<Rightarrow> string \<Rightarrow> (json \<times> string) option" where
  "pvalue 0 s = None"
| "pvalue (Suc n) s =
     (case s of
        [] \<Rightarrow> None
      | c # cs \<Rightarrow>
          if c = DQ then map_option (\<lambda>(x, r). (JStr x, r)) (pstring cs)
          else if c = CHR ''{'' then
            (case skip_ws cs of
               [] \<Rightarrow> None
             | d # ds \<Rightarrow> if d = CHR ''}'' then Some (JObj [], ds) else pmembers n [] (d # ds))
          else if c = CHR ''['' then
            (case skip_ws cs of
               [] \<Rightarrow> None
             | d # ds \<Rightarrow> if d = CHR '']'' then Some (JArr [], ds) else pitems n [] (d # ds))
          else pconstant s)"
| "pitems 0 acc s = None"
| "pitems (Suc n) acc s =
     (case pvalue n s of
        None \<Rightarrow> None
      | Some (v, r) \<Rightarrow>
          (case skip_ws r of
             [] \<Rightarrow> None
           | d # ds \<Rightarrow>
               if d = CHR '']'' then Some (JArr (acc @ [v]), ds)
               else if d = CHR '','' then pitems n (acc @ [v]) (skip_ws ds)
               else None))"
| "pmembers 0 acc s = None"
| "pmembers (Suc n) acc s =
     (case s of
        [] \<Rightarrow> None
      | c # cs \<Rightarrow>
          if c \<noteq> DQ then None
          else
            (case pstring cs of
               None \<Rightarrow> None
             | Some (k, r) \<Rightarrow>
                 (case skip_ws r of
                    [] \<Rightarrow> None
                  | d # ds \<Rightarrow>
                      if d \<noteq> CHR '':'' then None
                      else
                        (case pvalue n (skip_ws ds) of
                           None \<Rightarrow> None
                         | Some (v, r2) \<Rightarrow>
                             (case skip_ws r2 of
                                [] \<Rightarrow> None
                              | e # es \<Rightarrow>
                                  if e = CHR ''}'' then Some (JObj (AList.update k v acc), es)
                                  else if e = CHR '','' then pmembers n (AList.update k v acc) (skip_ws es)
                                  else None)))))"

text \<open>\<open>json.JSONDecoder().raw_decode(s, i)\<close> on the text from \<open>i\<close>, and \<open>json.loads(s)\<close>\<close>

definition raw_decode :: "string \<Rightarrow> (json \<times> string) option" where
  "raw_decode s = pvalue (Suc (length s)) s"

definition json_loads :: "string \<Rightarrow> json option" where
  "json_loads s =
     (case raw_decode (skip_ws s) of
        None \<Rightarrow> None
      | Some (v, r) \<Rightarrow> if skip_ws r = [] then Some v else None)"

section \<open>Encoding\<close>

definition hex_digit :: "nat \<Rightarrow> char" where
  "hex_digit n = (if n < 10 then char_of (48 + n) else char_of (87 + n))"

text \<open>One character of a string, with \<open>ensure_ascii\<close> or not.\<close>

definition escape_char :: "bool \<Rightarrow> char \<Rightarrow> string" where
  "escape_char ascii c =
     (if c = DQ then [BSLASH, DQ]
      else if c = BSLASH then [BSLASH, BSLASH]
      else if c = LF then [BSLASH, CHR ''n'']
      else if c = CR then [BSLASH, CHR ''r'']
      else if c = TAB then [BSLASH, CHR ''t'']
      else if c = CHR 0x0C then [BSLASH, CHR ''f'']
      else if c = CHR 0x08 then [BSLASH, CHR ''b'']
      else if ord c < 32 \<or> ascii \<and> 127 \<le> ord c
        then [BSLASH, CHR ''u'', CHR ''0'', CHR ''0'', hex_digit (ord c div 16), hex_digit (ord c mod 16)]
      else [c])"

definition dumps_str :: "bool \<Rightarrow> string \<Rightarrow> string" where
  "dumps_str ascii s = [DQ] @ concat (map (escape_char ascii) s) @ [DQ]"

text \<open>
  The flags of \<open>dumps\<close>: \<open>ensure_ascii\<close>, \<open>sort_keys\<close> and the two separators. Floats are never
  encoded by the tools; they have no text here.
\<close>

record dump_flags =
  df_ascii :: bool
  df_sort :: bool
  df_item :: string
  df_key :: string

definition sort_items :: "bool \<Rightarrow> (string \<times> string) list \<Rightarrow> (string \<times> string) list" where
  "sort_items b xs = (if b then sort_key fst xs else xs)"

fun dumps :: "dump_flags \<Rightarrow> json \<Rightarrow> string" where
  "dumps fl JNull = ''null''"
| "dumps fl (JBool b) = (if b then ''true'' else ''false'')"
| "dumps fl (JInt i) = str_int i"
| "dumps fl (JFloat f) = []"
| "dumps fl (JStr s) = dumps_str (df_ascii fl) s"
| "dumps fl (JArr xs) = ''['' @ join (df_item fl) (map (dumps fl) xs) @ '']''"
| "dumps fl (JObj d) =
     ''{'' @ join (df_item fl)
        (map (\<lambda>(k, t). dumps_str (df_ascii fl) k @ df_key fl @ t)
             (sort_items (df_sort fl) (map (\<lambda>(k, v). (k, dumps fl v)) d))) @ ''}''"

abbreviation compact_flags :: dump_flags where
  "compact_flags \<equiv> \<lparr>df_ascii = False, df_sort = False, df_item = '','', df_key = '':''\<rparr>"

section \<open>The round trip\<close>

lemma hex_val_digit: "k < 16 \<Longrightarrow> hex_val (hex_digit k) = Some k"
  by (auto simp: hex_val_def hex_digit_def)

lemma hex4_code: "hex4 (CHR ''0'') (CHR ''0'') (hex_digit (ord c div 16)) (hex_digit (ord c mod 16)) = Some c"
proof -
  have "ord c div 16 < 16" using less_mult_imp_div_less [of "ord c" 16 16] by simp
  then have hi: "hex_val (hex_digit (ord c div 16)) = Some (ord c div 16)" by (rule hex_val_digit)
  have lo: "hex_val (hex_digit (ord c mod 16)) = Some (ord c mod 16)" by (rule hex_val_digit) simp
  have zero: "hex_val (CHR ''0'') = Some 0" by (simp add: hex_val_def)
  show ?thesis by (simp add: hex4_def hi lo zero Let_def)
qed

lemma pstring_escape:
  "pstring (escape_char b c @ t) = map_option (\<lambda>(s, r). (c # s, r)) (pstring t)"
  by (auto simp: escape_char_def simple_escape_def hex4_code)

lemma pstring_escapes: "pstring (concat (map (escape_char b) s) @ DQ # rest) = Some (s, rest)"
  by (induction s) (simp_all add: pstring_escape)

definition num_stop :: "string \<Rightarrow> bool" where
  "num_stop rest \<longleftrightarrow> (case rest of [] \<Rightarrow> True
     | c # _ \<Rightarrow> \<not> is_decimal c \<and> c \<noteq> CHR ''.'' \<and> c \<noteq> CHR ''e'' \<and> c \<noteq> CHR ''E'')"

lemma takeWhile_digits:
  "list_all P ds \<Longrightarrow> (case rest of [] \<Rightarrow> True | c # _ \<Rightarrow> \<not> P c) \<Longrightarrow> takeWhile P (ds @ rest) = ds"
  by (induction ds) (auto split: list.splits)

lemma pnumber_unsigned:
  assumes "num_stop rest"
  shows "pnumber (nat_digits n @ rest) = Some (JInt (int n), rest)"
    and "pnumber (CHR ''-'' # nat_digits n @ rest) = Some (JInt (- int n), rest)"
proof -
  obtain d ds where nd: "nat_digits n = d # ds" by (cases "nat_digits n") auto
  with nat_digits_decimal [of n] have dec: "is_decimal d" "list_all is_decimal ds" by simp_all
  have run: "takeWhile is_decimal (nat_digits n @ rest) = nat_digits n"
    using assms nat_digits_decimal by (intro takeWhile_digits) (auto simp: num_stop_def split: list.splits)
  have zero: "ds = []" if "d = CHR ''0''"
  proof -
    from that nd nat_digits_head [of n] have "n = 0" by (cases "n = 0") auto
    with nd show ?thesis by simp
  qed
  from dec have "d \<noteq> CHR ''-''" by (auto simp: is_decimal_def)
  moreover have "pfraction rest = None" "pexponent rest = None"
    using assms by (auto simp: num_stop_def pfraction_def pexponent_def split: list.splits)
  ultimately show "pnumber (nat_digits n @ rest) = Some (JInt (int n), rest)"
    and "pnumber (CHR ''-'' # nat_digits n @ rest) = Some (JInt (- int n), rest)"
    using nd run zero digits_val_nat_digits [of n] by (auto simp: pnumber_def Let_def)
qed

lemma pnumber_str_int: "num_stop rest \<Longrightarrow> pnumber (str_int i @ rest) = Some (JInt i, rest)"
  using pnumber_unsigned [of rest "nat i"] pnumber_unsigned [of rest "nat (- i)"]
  by (auto simp: str_int_def)

text \<open>The first character of the text of a value.\<close>

lemma str_int_head: "\<exists>c cs. str_int i = c # cs \<and> (is_decimal c \<or> c = CHR ''-'')"
proof -
  obtain d ds where "nat_digits (nat i) = d # ds" by (cases "nat_digits (nat i)") auto
  with nat_digits_decimal [of "nat i"] show ?thesis by (auto simp: str_int_def)
qed

fun json_ok :: "json \<Rightarrow> bool" where
  "json_ok (JFloat f) = False"
| "json_ok (JArr xs) = list_all json_ok xs"
| "json_ok (JObj d) = (distinct (map fst d) \<and> list_all json_ok (map snd d))"
| "json_ok j = True"

definition good_flags :: "dump_flags \<Rightarrow> bool" where
  "good_flags fl \<longleftrightarrow> \<not> df_sort fl
     \<and> (\<exists>w. df_item fl = CHR '','' # w \<and> list_all is_json_ws w)
     \<and> (\<exists>w. df_key fl = CHR '':'' # w \<and> list_all is_json_ws w)"

lemma dumps_head:
  assumes "json_ok j"
  shows "\<exists>c cs. dumps fl j = c # cs \<and> \<not> is_json_ws c \<and> c \<noteq> CHR '']'' \<and> c \<noteq> CHR ''}''"
proof (cases j)
  case (JInt i)
  obtain c cs where "str_int i = c # cs" "is_decimal c \<or> c = CHR ''-''" using str_int_head by blast
  with JInt show ?thesis by (auto simp: is_json_ws_def is_decimal_def)
qed (use assms in \<open>auto simp: dumps_str_def is_json_ws_def split: bool.splits\<close>)

lemma skip_ws_ws: "list_all is_json_ws w \<Longrightarrow> skip_ws (w @ s) = skip_ws s"
  by (induction w) (auto simp: skip_ws_def)

lemma skip_ws_stop: "\<not> is_json_ws c \<Longrightarrow> skip_ws (c # s) = c # s"
  by (simp add: skip_ws_def)

lemma skip_ws_dumps: "json_ok j \<Longrightarrow> skip_ws (dumps fl j @ r) = dumps fl j @ r"
  using dumps_head [of j fl] by (auto simp: skip_ws_def)

definition decodes :: "dump_flags \<Rightarrow> json \<Rightarrow> bool" where
  "decodes fl j \<longleftrightarrow>
     (\<forall>n rest. length (dumps fl j) \<le> n \<longrightarrow> num_stop rest \<longrightarrow> pvalue n (dumps fl j @ rest) = Some (j, rest))"

lemma decodesD:
  "decodes fl j \<Longrightarrow> length (dumps fl j) \<le> n \<Longrightarrow> num_stop rest \<Longrightarrow> pvalue n (dumps fl j @ rest) = Some (j, rest)"
  by (simp add: decodes_def)

lemma num_stop_punct: "num_stop (CHR '','' # r)" "num_stop (CHR '']'' # r)" "num_stop (CHR ''}'' # r)"
  by (simp_all add: num_stop_def is_decimal_def)

lemma ws_punct: "\<not> is_json_ws (CHR '','')" "\<not> is_json_ws (CHR '']'')" "\<not> is_json_ws (CHR ''}'')"
  "\<not> is_json_ws (CHR '':'')" "\<not> is_json_ws DQ"
  by (simp_all add: is_json_ws_def)

lemma pitems_dumps:
  assumes "good_flags fl" "xs \<noteq> []" "list_all json_ok xs" "\<And>x. x \<in> set xs \<Longrightarrow> decodes fl x"
    "length (join (df_item fl) (map (dumps fl) xs)) < n"
  shows "pitems n acc (join (df_item fl) (map (dumps fl) xs) @ CHR '']'' # rest) = Some (JArr (acc @ xs), rest)"
  using assms
proof (induction xs arbitrary: n acc)
  case (Cons x xs)
  from Cons.prems(5) obtain m where n: "n = Suc m" by (cases n) auto
  show ?case
  proof (cases xs)
    case Nil
    with Cons.prems n decodesD [of fl x m "CHR '']'' # rest"] show ?thesis
      by (simp add: num_stop_punct skip_ws_stop ws_punct)
  next
    case (Cons y ys)
    note xs = this
    obtain w where w: "df_item fl = CHR '','' # w" "list_all is_json_ws w"
      using Cons.prems(1) by (auto simp: good_flags_def)
    let ?tail = "join (df_item fl) (map (dumps fl) xs) @ CHR '']'' # rest"
    have dec: "pvalue m (dumps fl x @ CHR '','' # w @ ?tail) = Some (x, CHR '','' # w @ ?tail)"
      using Cons.prems(4,5) n xs by (intro decodesD) (auto simp: num_stop_punct)
    have sk: "skip_ws (w @ ?tail) = ?tail"
      using skip_ws_dumps [of y fl] Cons.prems(3) w(2) xs by (cases ys) (auto simp: skip_ws_ws)
    have "pitems m (acc @ [x]) ?tail = Some (JArr ((acc @ [x]) @ xs), rest)"
      using Cons.prems n xs w by (intro Cons.IH) auto
    with dec sk n xs w show ?thesis by (simp add: skip_ws_stop ws_punct)
  qed
qed simp

definition member_text :: "dump_flags \<Rightarrow> string \<times> json \<Rightarrow> string" where
  "member_text fl kv = dumps_str (df_ascii fl) (fst kv) @ df_key fl @ dumps fl (snd kv)"

lemma pmembers_dumps:
  assumes "good_flags fl" "d \<noteq> []" "distinct (map fst (acc @ d))" "list_all json_ok (map snd d)"
    "\<And>x. x \<in> snd ` set d \<Longrightarrow> decodes fl x"
    "length (join (df_item fl) (map (member_text fl) d)) < n"
  shows "pmembers n acc (join (df_item fl) (map (member_text fl) d) @ CHR ''}'' # rest) = Some (JObj (acc @ d), rest)"
  using assms
proof (induction d arbitrary: n acc)
  case (Cons x d)
  obtain k v where x: "x = (k, v)" by fastforce
  from Cons.prems(6) obtain m where n: "n = Suc m" by (cases n) auto
  obtain w where w: "df_item fl = CHR '','' # w" "list_all is_json_ws w"
    using Cons.prems(1) by (auto simp: good_flags_def)
  obtain u where u: "df_key fl = CHR '':'' # u" "list_all is_json_ws u"
    using Cons.prems(1) by (auto simp: good_flags_def)
  have ok: "json_ok v" using Cons.prems(4) x by simp
  have upd: "AList.update k v acc = acc @ [(k, v)]"
    using Cons.prems(3) x by (intro update_fresh) auto
  have key: "pstring (concat (map (escape_char (df_ascii fl)) k) @ DQ # t) = Some (k, t)" for t
    by (rule pstring_escapes)
  have colon: "skip_ws (CHR '':'' # t) = CHR '':'' # t" for t by (simp add: skip_ws_stop ws_punct)
  have val: "skip_ws (u @ dumps fl v @ t) = dumps fl v @ t" for t
    using u(2) ok by (simp add: skip_ws_ws skip_ws_dumps)
  have mt: "member_text fl (k, v) =
      DQ # concat (map (escape_char (df_ascii fl)) k) @ DQ # CHR '':'' # u @ dumps fl v"
    by (simp add: member_text_def dumps_str_def u)
  show ?case
  proof (cases d)
    case Nil
    have "pvalue m (dumps fl v @ CHR ''}'' # rest) = Some (v, CHR ''}'' # rest)"
      using Cons.prems(5,6) n x Nil by (intro decodesD) (auto simp: num_stop_punct member_text_def)
    with n x Nil key colon val upd show ?thesis by (simp add: mt skip_ws_stop ws_punct)
  next
    case (Cons y ys)
    note d = this
    let ?tail = "join (df_item fl) (map (member_text fl) d) @ CHR ''}'' # rest"
    have dec: "pvalue m (dumps fl v @ CHR '','' # w @ ?tail) = Some (v, CHR '','' # w @ ?tail)"
      using Cons.prems(5,6) n x d by (intro decodesD) (auto simp: num_stop_punct member_text_def)
    have sk: "skip_ws (w @ ?tail) = ?tail"
      using w(2) d by (cases ys) (auto simp: skip_ws_ws member_text_def dumps_str_def skip_ws_stop ws_punct)
    have IH: "pmembers m (acc @ [(k, v)]) ?tail = Some (JObj ((acc @ [(k, v)]) @ d), rest)"
      using Cons.prems n x d w by (intro Cons.IH) auto
    have "join (df_item fl) (map (member_text fl) (x # d)) @ CHR ''}'' # rest =
        DQ # concat (map (escape_char (df_ascii fl)) k) @ DQ # CHR '':'' # u @ dumps fl v @ CHR '','' # w @ ?tail"
      using d x w(1) by (simp add: mt)
    with n key colon val upd dec sk IH x show ?thesis by (simp add: skip_ws_stop ws_punct)
  qed
qed simp

lemma dumps_obj:
  assumes "\<not> df_sort fl"
  shows "dumps fl (JObj d) = CHR ''{'' # join (df_item fl) (map (member_text fl) d) @ ''}''"
  using assms by (simp add: sort_items_def member_text_def [abs_def] comp_def case_prod_unfold)

lemma join_member_head:
  assumes "d \<noteq> []"
  shows "\<exists>t. join (df_item fl) (map (member_text fl) d) = DQ # t"
  using assms by (cases d; cases "tl d") (auto simp: member_text_def dumps_str_def)

lemma join_value_head:
  assumes "xs \<noteq> []" "list_all json_ok xs"
  shows "\<exists>c t. join sep (map (dumps fl) xs) = c # t \<and> \<not> is_json_ws c \<and> c \<noteq> CHR '']''"
proof -
  from assms obtain x xs' where xs: "xs = x # xs'" "json_ok x" by (cases xs) auto
  then show ?thesis using dumps_head [of x fl] by (cases xs') auto
qed

lemma dumps_decodes: "good_flags fl \<Longrightarrow> json_ok j \<Longrightarrow> decodes fl j"
proof (induction j)
  case (JInt i)
  show ?case unfolding decodes_def
  proof (intro allI impI)
    fix n rest
    assume n: "length (dumps fl (JInt i)) \<le> n" and stop: "num_stop rest"
    obtain c cs where c: "str_int i = c # cs" "is_decimal c \<or> c = CHR ''-''" using str_int_head by blast
    with n obtain m where "n = Suc m" by (cases n) auto
    moreover have "c \<noteq> DQ" "c \<noteq> CHR ''{''" "c \<noteq> CHR ''[''" "c \<noteq> CHR ''n''" "c \<noteq> CHR ''t''" "c \<noteq> CHR ''f''"
      using c(2) by (auto simp: is_decimal_def)
    ultimately show "pvalue n (dumps fl (JInt i) @ rest) = Some (JInt i, rest)"
      using pnumber_str_int [OF stop, of i] c(1) by (simp add: pconstant_def)
  qed
next
  case (JArr xs)
  have "decodes fl x" if "x \<in> set xs" for x
    using JArr that by (auto simp: list_all_iff)
  show ?case unfolding decodes_def
  proof (intro allI impI)
    fix n rest
    assume n: "length (dumps fl (JArr xs)) \<le> n"
    then obtain m where m: "n = Suc m" by (cases n) auto
    show "pvalue n (dumps fl (JArr xs) @ rest) = Some (JArr xs, rest)"
    proof (cases "xs = []")
      case True
      with m show ?thesis by (simp add: skip_ws_stop ws_punct)
    next
      case False
      with JArr.prems obtain c t where ct: "join (df_item fl) (map (dumps fl) xs) = c # t"
        "\<not> is_json_ws c" "c \<noteq> CHR '']''" using join_value_head [of xs "df_item fl" fl] by auto
      have "pitems m [] (join (df_item fl) (map (dumps fl) xs) @ CHR '']'' # rest) = Some (JArr ([] @ xs), rest)"
        using False JArr m n \<open>\<And>x. x \<in> set xs \<Longrightarrow> decodes fl x\<close> by (intro pitems_dumps) auto
      with m ct show ?thesis by (simp add: skip_ws_stop)
    qed
  qed
next
  case (JObj d)
  have dec: "decodes fl x" if "x \<in> snd ` set d" for x
    using JObj that by (fastforce simp: list_all_iff)
  show ?case unfolding decodes_def
  proof (intro allI impI)
    fix n rest
    assume n: "length (dumps fl (JObj d)) \<le> n"
    then obtain m where m: "n = Suc m" by (cases n) auto
    from JObj.prems(1) have ns: "\<not> df_sort fl" by (simp add: good_flags_def)
    show "pvalue n (dumps fl (JObj d) @ rest) = Some (JObj d, rest)"
    proof (cases "d = []")
      case True
      with m ns show ?thesis by (simp add: dumps_obj skip_ws_stop ws_punct del: dumps.simps)
    next
      case False
      then obtain t where t: "join (df_item fl) (map (member_text fl) d) = DQ # t"
        using join_member_head by blast
      have "pmembers m [] (join (df_item fl) (map (member_text fl) d) @ CHR ''}'' # rest) = Some (JObj ([] @ d), rest)"
        using False JObj m n ns dec by (intro pmembers_dumps) (auto simp: dumps_obj simp del: dumps.simps)
      with m ns t show ?thesis by (simp add: dumps_obj skip_ws_stop ws_punct del: dumps.simps)
    qed
  qed
next
  case (JStr s)
  show ?case unfolding decodes_def
  proof (intro allI impI)
    fix n rest
    assume "length (dumps fl (JStr s)) \<le> n"
    then obtain m where "n = Suc m" by (cases n) (auto simp: dumps_str_def)
    then show "pvalue n (dumps fl (JStr s) @ rest) = Some (JStr s, rest)"
      by (simp add: dumps_str_def pstring_escapes)
  qed
next
  case JNull
  show ?case unfolding decodes_def
  proof (intro allI impI)
    fix n rest
    assume "length (dumps fl JNull) \<le> n"
    then obtain m where "n = Suc m" by (cases n) auto
    then show "pvalue n (dumps fl JNull @ rest) = Some (JNull, rest)" by (simp add: pconstant_def)
  qed
next
  case (JBool b)
  show ?case unfolding decodes_def
  proof (intro allI impI)
    fix n rest
    assume "length (dumps fl (JBool b)) \<le> n"
    then obtain m where "n = Suc m" by (cases n) (auto split: if_splits)
    then show "pvalue n (dumps fl (JBool b) @ rest) = Some (JBool b, rest)"
      by (cases b) (simp_all add: pconstant_def)
  qed
qed simp

lemma json_loads_dumps:
  assumes "good_flags fl" "json_ok j"
  shows "json_loads (dumps fl j) = Some j"
proof -
  have "pvalue (Suc (length (dumps fl j))) (dumps fl j @ []) = Some (j, [])"
    using dumps_decodes [OF assms] by (rule decodesD) (simp_all add: num_stop_def)
  then show ?thesis
    using skip_ws_dumps [OF assms(2), of fl "[]"] by (simp add: json_loads_def raw_decode_def skip_ws_def)
qed

section \<open>Documents on one line\<close>

text \<open>
  With \<open>ensure_ascii=False\<close> the only line break that is not escaped is the next line character.
\<close>

lemma one_line_escape: "c \<noteq> CHR 0x85 \<Longrightarrow> one_line (escape_char b c)"
proof -
  assume c: "c \<noteq> CHR 0x85"
  have "ord c \<noteq> 133" using c of_char_eq_iff [of c "CHR 0x85", where ?'a = nat] by simp
  moreover have "\<not> is_linebreak (hex_digit k)" if "k < 16" for k
    using that by (auto simp: is_linebreak_def hex_digit_def Let_def)
  moreover have "ord c div 16 < 16" using less_mult_imp_div_less [of "ord c" 16 16] by simp
  moreover have "\<not> is_linebreak d" if "d \<in> {BSLASH, DQ, CHR ''n'', CHR ''r'', CHR ''t'', CHR ''f'', CHR ''b'', CHR ''u'', CHR ''0''}" for d
    using that by (auto simp: is_linebreak_def)
  moreover have "\<not> is_linebreak c" if "\<not> ord c < 32" using that \<open>ord c \<noteq> 133\<close> by (simp add: is_linebreak_def)
  ultimately show ?thesis by (simp add: escape_char_def)
qed

lemma one_line_dumps_str: "CHR 0x85 \<notin> set s \<Longrightarrow> one_line (dumps_str b s)"
proof -
  assume s: "CHR 0x85 \<notin> set s"
  have "one_line (escape_char b c)" if "c \<in> set s" for c using that s by (intro one_line_escape) auto
  moreover have "\<not> is_linebreak DQ" by (simp add: is_linebreak_def)
  ultimately show ?thesis by (auto simp: dumps_str_def list_all_iff)
qed

lemma one_line_str_int: "one_line (str_int i)"
proof -
  have "is_decimal c \<Longrightarrow> \<not> is_linebreak c" for c by (auto simp: is_linebreak_def is_decimal_def Let_def)
  moreover have "\<not> is_linebreak (CHR ''-'')" by (simp add: is_linebreak_def)
  ultimately show ?thesis using nat_digits_decimal by (auto simp: str_int_def list_all_iff)
qed

lemma strip_dumps_obj: "strip (dumps fl (JObj d)) = dumps fl (JObj d)"
proof -
  have "\<not> is_space (CHR ''{'')" "\<not> is_space (CHR ''}'')" by (simp_all add: is_space_def)
  from strip_ends [OF this] show ?thesis by simp
qed

section \<open>Decoding consumes text\<close>

lemma pstring_length: "pstring s = Some (x, r) \<Longrightarrow> length r < length s"
  by (induction s arbitrary: x r rule: pstring.induct)
    (fastforce split: if_splits list.splits option.splits)+

lemma pfraction_length: "pfraction s = Some (f, r) \<Longrightarrow> length r < length s"
  by (auto simp: pfraction_def Let_def split: list.splits if_splits)

lemma pexponent_length: "pexponent s = Some (e, r) \<Longrightarrow> length r < length s"
  by (auto simp: pexponent_def Let_def split: list.splits if_splits)

lemma pnumber_length:
  assumes "pnumber s0 = Some (v, r)"
  shows "length r < length s0"
proof -
  define neg where "neg = (case s0 of c # _ \<Rightarrow> c = CHR ''-'' | [] \<Rightarrow> False)"
  define s where "s = (if neg then tl s0 else s0)"
  define run where "run = takeWhile is_decimal s"
  define digits where "digits = (case run of [] \<Rightarrow> [] | d # _ \<Rightarrow> if d = CHR ''0'' then [d] else run)"
  define rest where "rest = drop (length digits) s"
  define rest1 where "rest1 = (case pfraction rest of None \<Rightarrow> rest | Some (f, r) \<Rightarrow> r)"
  define rest2 where "rest2 = (case pexponent rest1 of None \<Rightarrow> rest1 | Some (e, r) \<Rightarrow> r)"
  have digits: "digits \<noteq> []" and r: "r = rest2 \<or> r = rest"
    using assms unfolding pnumber_def Let_def neg_def [symmetric] s_def [symmetric] run_def [symmetric]
      digits_def [symmetric] rest_def [symmetric] rest1_def rest2_def
    by (auto split: option.splits prod.splits if_splits)
  have "s \<noteq> []" using digits by (auto simp: digits_def run_def split: list.splits)
  then have "length rest < length s" using digits by (cases digits) (auto simp: rest_def)
  moreover have "length rest1 \<le> length rest"
    using pfraction_length [of rest] by (auto simp: rest1_def intro: less_imp_le split: option.splits)
  moreover have "length rest2 \<le> length rest1"
    using pexponent_length [of rest1] by (auto simp: rest2_def intro: less_imp_le split: option.splits)
  moreover have "length s \<le> length s0" by (simp add: s_def)
  ultimately show ?thesis using r by auto
qed

lemma pconstant_length: "pconstant s = Some (v, r) \<Longrightarrow> length r < length s"
  by (auto simp: pconstant_def dest: pnumber_length prefix_length_le split: if_splits option.splits)

lemma skip_ws_length: "length (skip_ws s) \<le> length s"
  by (simp add: skip_ws_def length_dropWhile_le)

lemma skip_ws_Cons_length: "skip_ws s = d # ds \<Longrightarrow> length ds < length s"
  using skip_ws_length [of s] by simp

definition consumes :: "(string \<Rightarrow> ('a \<times> string) option) \<Rightarrow> bool" where
  "consumes f \<longleftrightarrow> (\<forall>s v r. f s = Some (v, r) \<longrightarrow> length r < length s)"

lemma consumesD: "consumes f \<Longrightarrow> f s = Some (v, r) \<Longrightarrow> length r < length s"
  by (simp add: consumes_def)

lemma pvalue_consumes:
  assumes items: "consumes (pitems n [])" and members: "consumes (pmembers n [])"
  shows "consumes (pvalue (Suc n))"
  unfolding consumes_def
proof (intro allI impI)
  fix s v r
  assume ok: "pvalue (Suc n) s = Some (v, r)"
  then obtain c cs where s: "s = c # cs" by (cases s) auto
  consider "c = DQ" | "c = CHR ''{''" "c \<noteq> DQ" | "c = CHR ''[''" "c \<noteq> DQ" "c \<noteq> CHR ''{''" | "pconstant s = Some (v, r)"
    using ok s by (auto split: if_splits)
  then show "length r < length s"
  proof cases
    case 1
    then show ?thesis using ok s by (auto dest: pstring_length)
  next
    case 2
    then obtain d ds where ws: "skip_ws cs = d # ds" and "d = CHR ''}'' \<and> r = ds \<or> pmembers n [] (d # ds) = Some (v, r)"
      using ok s by (auto split: list.splits if_splits)
    then show ?thesis using consumesD [OF members] skip_ws_Cons_length [OF ws] s by fastforce
  next
    case 3
    then obtain d ds where ws: "skip_ws cs = d # ds" and "d = CHR '']'' \<and> r = ds \<or> pitems n [] (d # ds) = Some (v, r)"
      using ok s by (auto split: list.splits if_splits)
    then show ?thesis using consumesD [OF items] skip_ws_Cons_length [OF ws] s by fastforce
  next
    case 4
    then show ?thesis by (rule pconstant_length)
  qed
qed

lemma pitems_consumes:
  assumes val: "consumes (pvalue n)" and items: "\<And>acc. consumes (pitems n acc)"
  shows "consumes (pitems (Suc n) acc)"
  unfolding consumes_def
proof (intro allI impI)
  fix s v r
  assume ok: "pitems (Suc n) acc s = Some (v, r)"
  then obtain w t d ds where t: "pvalue n s = Some (w, t)" and ds: "skip_ws t = d # ds"
    and "r = ds \<or> pitems n (acc @ [w]) (skip_ws ds) = Some (v, r)"
    by (auto split: option.splits list.splits if_splits)
  then show "length r < length s"
    using consumesD [OF val t] skip_ws_Cons_length [OF ds] skip_ws_length [of ds]
    by (auto dest: consumesD [OF items])
qed

lemma pmembers_consumes:
  assumes val: "consumes (pvalue n)" and members: "\<And>d. consumes (pmembers n d)"
  shows "consumes (pmembers (Suc n) acc)"
  unfolding consumes_def
proof (intro allI impI)
  fix s v r
  assume ok: "pmembers (Suc n) acc s = Some (v, r)"
  then obtain c cs where s: "s = c # cs" by (cases s) auto
  from ok s obtain k t d ds where t: "pstring cs = Some (k, t)" and ds: "skip_ws t = d # ds"
    by (auto split: option.splits list.splits if_splits)
  from ok s t ds obtain w u e es where u: "pvalue n (skip_ws ds) = Some (w, u)" and es: "skip_ws u = e # es"
    and "r = es \<or> pmembers n (AList.update k w acc) (skip_ws es) = Some (v, r)"
    by (auto split: option.splits list.splits if_splits)
  then show "length r < length s"
    using s pstring_length [OF t] skip_ws_Cons_length [OF ds] skip_ws_length [of ds] consumesD [OF val u]
      skip_ws_Cons_length [OF es] skip_ws_length [of es]
    by (auto dest: consumesD [OF members])
qed

lemma decoder_consumes: "consumes (pvalue n) \<and> (\<forall>acc. consumes (pitems n acc)) \<and> (\<forall>d. consumes (pmembers n d))"
proof (induction n)
  case 0
  show ?case by (simp add: consumes_def)
next
  case (Suc n)
  then show ?case by (simp add: pvalue_consumes pitems_consumes pmembers_consumes del: pvalue.simps pitems.simps pmembers.simps)
qed

lemma raw_decode_length: "raw_decode s = Some (v, r) \<Longrightarrow> length r < length s"
  unfolding raw_decode_def by (rule consumesD [OF conjunct1 [OF decoder_consumes]])

end
