(* ===== verification/BoardComments.thy ===== *)
theory BoardComments
  imports PyRegex PyJson
begin

text \<open>
  What \<^verbatim>\<open>packages/github-devloop/tools/lifecycle_board_fact.py\<close> and
  \<^verbatim>\<open>packages/github-devloop-workflow/tools/workflow_board_fact.py\<close> have in common, each in a copy of its
  own: reading the pages of comments that \<^verbatim>\<open>gh api --paginate\<close> prints one after another, the login of
  an author, and the attributes of a marker.

  Shown here: reading ends on every text, and gives back the comments of the pages that were written.
\<close>

section \<open>Pages of comments\<close>

text \<open>What the decoder says of the text at an index where it fails, \<open>str(exc)\<close>.\<close>

type_synonym decode_diag = "string \<Rightarrow> nat \<Rightarrow> string"

text \<open>
  The loop of \<open>read_comments\<close>; the index is the number of characters in front of the rest. The left
  result is the message.
\<close>

function read_pages :: "decode_diag \<Rightarrow> string \<Rightarrow> string \<Rightarrow> json list \<Rightarrow> string + json list" where
  "read_pages diag text rest comments =
     (case lstrip rest of
        [] \<Rightarrow> Inr comments
      | c # cs \<Rightarrow>
          (case raw_decode (c # cs) of
             None \<Rightarrow> Inl (''invalid comments json: '' @ diag text (length text - length (c # cs)))
           | Some (page, rest') \<Rightarrow>
               (case as_arr page of
                  None \<Rightarrow> Inl ''expected comments json array''
                | Some items \<Rightarrow> read_pages diag text rest' (comments @ items))))"
  by pat_completeness auto
termination
proof (relation "measure (\<lambda>(diag, text, rest, comments). length rest)")
  fix diag :: decode_diag and input rest :: string and comments items :: "json list" and c cs result page rest'
  assume ws: "lstrip rest = c # cs" and dec: "raw_decode (c # cs) = Some result" "(page, rest') = result"
  from dec have "length rest' < length (c # cs)" by (auto dest: raw_decode_length)
  also have "\<dots> \<le> length rest" using ws length_dropWhile_le [of is_space rest] by (simp add: lstrip_def)
  finally show "((diag, input, rest', comments @ items), diag, input, rest, comments)
      \<in> measure (\<lambda>(diag, text, rest, comments). length rest)" by simp
qed simp

declare read_pages.simps [simp del]

definition read_comments :: "decode_diag \<Rightarrow> string \<Rightarrow> string + json list" where
  "read_comments diag text = read_pages diag text text []"

section \<open>Authors and attributes\<close>

definition login_field :: "jobject \<Rightarrow> string \<Rightarrow> string option" where
  "login_field comment key =
     (case jget comment key of JObj raw \<Rightarrow> as_str (jget raw ''login'') | _ \<Rightarrow> None)"

definition login_for :: "jobject \<Rightarrow> string" where
  "login_for comment =
     (case login_field comment ''user'' of
        Some login \<Rightarrow> login
      | None \<Rightarrow> the_default [] (login_field comment ''author''))"

text \<open>\<open>([A-Za-z_][A-Za-z0-9_]*)="([^"]*)"\<close>\<close>

definition ATTR_RE :: regex where
  "ATTR_RE = rseq [RGroup ''1'' RIDENT, rlit (''='' @ [DQ]), RGroup ''2'' (rstar (RSet (\<lambda>c. c \<noteq> DQ))), rchar DQ]"

definition group_text :: "rematch \<Rightarrow> string \<Rightarrow> string" where
  "group_text m name = the_default [] (m_group m name)"

definition parse_attrs :: "string \<Rightarrow> (string \<times> string) list" where
  "parse_attrs raw = dict_of (map (\<lambda>m. (group_text m ''1'', group_text m ''2'')) (re_finditer ATTR_RE raw))"

text \<open>
  The guards of \<open>safe_attr\<close> on a text that is not empty: at most \<open>limit\<close> bytes, no control character,
  no quote or angle bracket, no white space.
\<close>

definition safe_text :: "string \<Rightarrow> nat \<Rightarrow> bool" where
  "safe_text s limit \<longleftrightarrow>
     \<not> limit < length (utf8 s) \<and> \<not> list_ex (\<lambda>c. ord c < 32) s
     \<and> \<not> list_ex (\<lambda>c. c \<in> set s) [DQ, CHR ''<'', CHR ''>''] \<and> re_search rspace s = None"

lemma search_class_None: "search_at (RSet P) i p s = None \<longleftrightarrow> (\<forall>c \<in> set s. \<not> P c)"
  by (induction s arbitrary: i p) (simp_all add: match_at_def)

lemma safe_text_iff:
  "safe_text s limit \<longleftrightarrow>
     length (utf8 s) \<le> limit \<and> (\<forall>c \<in> set s. 32 \<le> ord c \<and> c \<noteq> DQ \<and> c \<noteq> CHR ''<'' \<and> c \<noteq> CHR ''>'' \<and> \<not> is_space c)"
  unfolding safe_text_def re_search_def search_class_None list_ex_iff by (simp add: not_less) blast

section \<open>Reading gives back what was written\<close>

lemma read_pages_end: "list_all is_space w \<Longrightarrow> read_pages diag text w comments = Inr comments"
proof -
  assume "list_all is_space w"
  then have "lstrip w = []" by (simp add: lstrip_def dropWhile_eq_Nil_conv list_all_iff)
  then show ?thesis by (subst read_pages.simps) simp
qed

lemma read_pages_page:
  assumes "good_flags fl" "list_all json_ok page" "list_all is_space w" "num_stop rest"
  shows "read_pages diag text (w @ dumps fl (JArr page) @ rest) comments = read_pages diag text rest (comments @ page)"
proof -
  let ?d = "dumps fl (JArr page)"
  obtain cs where d: "?d = CHR ''['' # cs" by simp
  have "\<not> is_space (CHR ''['')" by (simp add: is_space_def)
  with assms(3) have ws: "lstrip (w @ ?d @ rest) = ?d @ rest"
    by (simp add: lstrip_def d dropWhile_append2 list_all_iff)
  have "raw_decode (?d @ rest) = Some (JArr page, rest)"
    unfolding raw_decode_def using dumps_decodes [OF assms(1)] assms(2,4) by (intro decodesD) simp_all
  moreover obtain es where "?d @ rest = CHR ''['' # es" using d by simp
  ultimately show ?thesis
    using ws by (subst read_pages.simps) (simp del: dumps.simps)
qed

definition written_pages :: "dump_flags \<Rightarrow> (string \<times> json list) list \<Rightarrow> string" where
  "written_pages fl pages = concat (map (\<lambda>(w, page). w @ dumps fl (JArr page)) pages)"

lemma num_stop_space: "is_space c \<Longrightarrow> num_stop (c # s)"
  by (auto simp: num_stop_def is_decimal_def is_space_def Let_def)

lemma num_stop_pages:
  assumes "list_all (\<lambda>(w, page). list_all is_space w) pages" "list_all is_space w"
  shows "num_stop (written_pages fl pages @ w)"
proof (cases pages)
  case Nil
  with assms(2) show ?thesis by (cases w) (simp_all add: written_pages_def num_stop_space, simp add: num_stop_def)
next
  case (Cons p ps)
  obtain v page where p: "p = (v, page)" by (cases p)
  have "num_stop (CHR ''['' # s)" for s by (simp add: num_stop_def is_decimal_def)
  then show ?thesis using assms(1) Cons p by (cases v) (simp_all add: written_pages_def num_stop_space)
qed

lemma read_pages_written:
  assumes "good_flags fl" "list_all is_space w"
  shows "list_all (\<lambda>(v, page). list_all is_space v \<and> list_all json_ok page) pages \<Longrightarrow>
    read_pages diag text (written_pages fl pages @ w) comments = Inr (comments @ concat (map snd pages))"
proof (induction pages arbitrary: comments)
  case Nil
  then show ?case using read_pages_end [OF assms(2)] by (simp add: written_pages_def)
next
  case (Cons p ps)
  obtain v page where p: "p = (v, page)" by (cases p)
  have "num_stop (written_pages fl ps @ w)"
    using Cons.prems assms(2) by (intro num_stop_pages) (auto simp: list_all_iff)
  then show ?case
    using read_pages_page [OF assms(1), of page v "written_pages fl ps @ w" diag "text" comments] Cons p
    by (simp add: written_pages_def)
qed

text \<open>
  The comments read are exactly those of the pages written, in order, whatever white space stands
  before, between and after the pages.
\<close>

theorem read_comments_written:
  assumes "good_flags fl" "list_all is_space w"
    and "list_all (\<lambda>(v, page). list_all is_space v \<and> list_all json_ok page) pages"
  shows "read_comments diag (written_pages fl pages @ w) = Inr (concat (map snd pages))"
  unfolding read_comments_def by (subst read_pages_written [OF assms]) simp

theorem read_comments_written_witness:
  "read_comments (\<lambda>_ _. []) (''[{'' @ [DQ] @ ''id'' @ [DQ] @ '':7}]'' @ [LF] @ ''[null,true]'' @ [LF]) =
     Inr [JObj [(''id'', JInt 7)], JNull, JBool True]"
proof -
  have "good_flags compact_flags" by (simp add: good_flags_def)
  moreover have "nat_digits 7 = ''7''" by code_simp
  ultimately show ?thesis
    using read_comments_written [of compact_flags "[LF]" "[([], [JObj [(''id'', JInt 7)]]), ([LF], [JNull, JBool True])]" "\<lambda>_ _. []"]
    by (simp add: written_pages_def dumps_str_def escape_char_def str_int_def sort_items_def)
qed

end
