(* ===== verification/LifecycleBoard.thy ===== *)
theory LifecycleBoard
  imports BoardComments "HOL-Library.FSet"
begin

text \<open>
  \<^verbatim>\<open>packages/github-devloop/tools/lifecycle_board_fact.py\<close>: from the comments of an issue or a pull request,
  the one lifecycle fact the board shows.

  Shown here: comments of other authors have no influence on the result; the fact shown is the first of
  those with the largest rank and order key; every attribute that reaches the output is short, printable
  and without quotes, brackets or white space; a pull request has an origin exactly if its trusted
  markers name one proposal.
\<close>

section \<open>Patterns and limits\<close>

definition MAX_PROPOSAL_ID_BYTES :: nat where "MAX_PROPOSAL_ID_BYTES = 200"
definition MAX_STATE_BYTES :: nat where "MAX_STATE_BYTES = 64"
definition MAX_VERSION_BYTES :: nat where "MAX_VERSION_BYTES = 512"
definition MAX_ORDER_KEY_BYTES :: nat where "MAX_ORDER_KEY_BYTES = 768"

definition TERMINAL_STATES :: "string list" where
  "TERMINAL_STATES = [''blocked'', ''impl-failed'', ''merged'', ''declined'']"

text \<open>\<open><!-- fkst:github-devloop:KIND:v1\b(.*?)-->\<close>\<close>

definition marker_re :: "string \<Rightarrow> regex" where
  "marker_re kind = rseq
     [rlit (''<!-- fkst:github-devloop:'' @ kind @ '':v1''), RWordB, RGroup ''1'' (RStar False rany), rlit ''-->'']"

definition MARKER_RE :: regex where "MARKER_RE = marker_re ''state''"
definition PR_ORIGIN_RE :: regex where "PR_ORIGIN_RE = marker_re ''pr-origin''"

text \<open>\<open>\d\d\d\d-\d\d-\d\dT\d\d[-:]\d\d[-:]\d\dZ\<close> and the same with colons only\<close>

definition timestamp_re :: "regex \<Rightarrow> regex" where
  "timestamp_re separator = rseq
     [rrep 4 rdigit, rchar (CHR ''-''), rrep 2 rdigit, rchar (CHR ''-''), rrep 2 rdigit, rchar (CHR ''T''),
      rrep 2 rdigit, separator, rrep 2 rdigit, separator, rrep 2 rdigit, rchar (CHR ''Z'')]"

definition UPDATED_AT_RE :: regex where
  "UPDATED_AT_RE = timestamp_re (RSet (\<lambda>c. c = CHR ''-'' \<or> c = CHR '':''))"

definition ISO_TIMESTAMP_RE :: regex where
  "ISO_TIMESTAMP_RE = timestamp_re (rchar (CHR '':''))"

definition safe_attr :: "string option \<Rightarrow> nat \<Rightarrow> string option" where
  "safe_attr v limit =
     (case v of
        None \<Rightarrow> None
      | Some s \<Rightarrow> if s = [] then None else if safe_text s limit then Some s else None)"

section \<open>Trusted comments\<close>

record trusted_comment =
  tc_body :: string
  tc_created_at :: "string option"

definition created_at_of :: "jobject \<Rightarrow> string option" where
  "created_at_of comment =
     (case jget comment ''created_at'' of JStr t \<Rightarrow> if fullmatches ISO_TIMESTAMP_RE t then Some t else None | _ \<Rightarrow> None)"

definition trusted_comment_of :: "string \<Rightarrow> json \<Rightarrow> trusted_comment option" where
  "trusted_comment_of bot_login comment =
     (case comment of
        JObj d \<Rightarrow>
          if login_for d \<noteq> bot_login then None
          else (case jget d ''body'' of
                  JStr body \<Rightarrow> Some \<lparr>tc_body = body, tc_created_at = created_at_of d\<rparr>
                | _ \<Rightarrow> None)
      | _ \<Rightarrow> None)"

definition trusted_comments :: "json list \<Rightarrow> string \<Rightarrow> trusted_comment list" where
  "trusted_comments comments bot_login = List.map_filter (trusted_comment_of bot_login) comments"

section \<open>Facts\<close>

record state_fact =
  sf_state :: string
  sf_version :: string
  sf_order_key :: string
  sf_started_at :: "string option"

definition attr_in :: "(string \<times> string) list \<Rightarrow> string \<Rightarrow> nat \<Rightarrow> string option" where
  "attr_in attrs name limit = safe_attr (map_of attrs name) limit"

definition state_fact_of :: "string \<Rightarrow> string option \<Rightarrow> (string \<times> string) list \<Rightarrow> state_fact option" where
  "state_fact_of origin started_at attrs =
     (case (attr_in attrs ''state'' MAX_STATE_BYTES, attr_in attrs ''version'' MAX_VERSION_BYTES,
            attr_in attrs ''marker_order_key'' MAX_ORDER_KEY_BYTES) of
        (Some state, Some version, Some marker_order_key) \<Rightarrow>
          if attr_in attrs ''proposal'' MAX_PROPOSAL_ID_BYTES = Some origin
          then Some \<lparr>sf_state = state, sf_version = version, sf_order_key = marker_order_key, sf_started_at = started_at\<rparr>
          else None
      | _ \<Rightarrow> None)"

definition collect_state_facts :: "trusted_comment list \<Rightarrow> string \<Rightarrow> state_fact list" where
  "collect_state_facts comments origin =
     concat (map (\<lambda>comment.
        List.map_filter (\<lambda>m. state_fact_of origin (tc_created_at comment) (parse_attrs (group_text m ''1'')))
          (re_finditer MARKER_RE (tc_body comment))) comments)"

text \<open>The proposals of the markers of a comment, in the order in which they are looked at.\<close>

definition marker_proposals :: "trusted_comment \<Rightarrow> string option list" where
  "marker_proposals comment =
     map (\<lambda>m. attr_in (parse_attrs (group_text m ''1'')) ''proposal'' MAX_PROPOSAL_ID_BYTES)
       (re_finditer PR_ORIGIN_RE (tc_body comment) @ re_finditer MARKER_RE (tc_body comment))"

fun origin_scan :: "string fset \<Rightarrow> bool \<Rightarrow> string option list \<Rightarrow> string option \<times> bool" where
  "origin_scan origins marker_seen [] =
     (if \<not> marker_seen then (None, False)
      else (case sorted_list_of_fset origins of [origin] \<Rightarrow> (Some origin, True) | _ \<Rightarrow> (None, True)))"
| "origin_scan origins marker_seen (None # proposals) = (None, True)"
| "origin_scan origins marker_seen (Some proposal # proposals) = origin_scan (finsert proposal origins) True proposals"

definition discover_pr_origin :: "trusted_comment list \<Rightarrow> string option \<times> bool" where
  "discover_pr_origin comments = origin_scan {||} False (concat (map marker_proposals comments))"

definition primary_rank :: "state_fact \<Rightarrow> nat" where
  "primary_rank f = (if re_search UPDATED_AT_RE (sf_version f) \<noteq> None then 1 else 0)"

definition fact_key :: "state_fact \<Rightarrow> nat \<times> string" where
  "fact_key f = (primary_rank f, sf_order_key f)"

definition fact_result :: "state_fact \<Rightarrow> jobject" where
  "fact_result current =
     [(''state'', JStr (sf_state current)), (''terminal'', JBool (sf_state current \<in> set TERMINAL_STATES))] @
     (case sf_started_at current of None \<Rightarrow> [] | Some t \<Rightarrow> [(''condition_started_at'', JStr t)])"

definition board_fact :: "state_fact list \<Rightarrow> jobject option" where
  "board_fact facts =
     (case facts of [] \<Rightarrow> None | f # fs \<Rightarrow> Some (fact_result (first_max fact_key f fs)))"

section \<open>The command\<close>

record board_outcome =
  bo_status :: int
  bo_out :: "string list"
  bo_err :: "string list"

definition ascii_flags :: dump_flags where
  "ascii_flags = \<lparr>df_ascii = True, df_sort = False, df_item = '','', df_key = '':''\<rparr>"

text \<open>Whether a fact was found for an origin that was given or discovered.\<close>

definition fact_outcome :: "bool \<Rightarrow> jobject option \<Rightarrow> board_outcome" where
  "fact_outcome discover found =
     (case found of
        Some result \<Rightarrow> \<lparr>bo_status = 0, bo_out = [dumps ascii_flags (JObj result)], bo_err = []\<rparr>
      | None \<Rightarrow>
          if discover
          then \<lparr>bo_status = 2, bo_out = [], bo_err = [''lifecycle-board-fact: managed PR has no usable lifecycle fact'']\<rparr>
          else \<lparr>bo_status = 1, bo_out = [], bo_err = []\<rparr>)"

text \<open>The argument \<open>origin\<close> is \<open>None\<close> under \<open>--discover-pr-origin\<close>.\<close>

definition trusted_outcome :: "trusted_comment list \<Rightarrow> string option \<Rightarrow> board_outcome" where
  "trusted_outcome trusted origin_arg =
     (case origin_arg of
        Some origin \<Rightarrow> fact_outcome False (board_fact (collect_state_facts trusted origin))
      | None \<Rightarrow>
          (case discover_pr_origin trusted of
             (_, False) \<Rightarrow> \<lparr>bo_status = 1, bo_out = [], bo_err = []\<rparr>
           | (None, True) \<Rightarrow>
               \<lparr>bo_status = 2, bo_out = [], bo_err = [''lifecycle-board-fact: ambiguous or malformed PR origin'']\<rparr>
           | (Some origin, True) \<Rightarrow> fact_outcome True (board_fact (collect_state_facts trusted origin))))"

definition lifecycle_main :: "decode_diag \<Rightarrow> string option \<Rightarrow> string \<Rightarrow> string \<Rightarrow> board_outcome" where
  "lifecycle_main diag origin_arg bot_login input =
     (case read_comments diag input of
        Inl err \<Rightarrow> \<lparr>bo_status = 2, bo_out = [], bo_err = [''lifecycle-board-fact: '' @ err]\<rparr>
      | Inr comments \<Rightarrow> trusted_outcome (trusted_comments comments bot_login) origin_arg)"

section \<open>Only trusted comments count\<close>

definition authored :: "string \<Rightarrow> json \<Rightarrow> bool" where
  "authored login comment = (case comment of JObj d \<Rightarrow> login_for d = login | _ \<Rightarrow> False)"

lemma trusted_comments_authored: "trusted_comments (filter (authored bot_login) comments) bot_login = trusted_comments comments bot_login"
  unfolding trusted_comments_def
  by (induction comments) (auto simp: map_filter_simps trusted_comment_of_def authored_def split: json.splits option.splits)

text \<open>
  C18. Comments of other authors have no influence: two inputs whose comments by the trusted login agree
  give the same output and exit status.
\<close>

theorem lifecycle_untrusted_ignored:
  assumes "read_comments diag input = Inr comments" "read_comments diag input' = Inr comments'"
    and "filter (authored bot_login) comments = filter (authored bot_login) comments'"
  shows "lifecycle_main diag origin_arg bot_login input = lifecycle_main diag origin_arg bot_login input'"
  using assms trusted_comments_authored by (metis lifecycle_main_def sum.simps(6))

section \<open>The fact shown\<close>

text \<open>
  The board shows the first of the facts with the largest rank and order key, and nothing exactly if
  there is no fact.
\<close>

theorem board_fact_first_largest:
  "(facts = [] \<and> board_fact facts = None) \<or>
   (\<exists>before f after. facts = before @ f # after \<and> board_fact facts = Some (fact_result f)
      \<and> list_all (\<lambda>g. fact_key g < fact_key f) before \<and> list_all (\<lambda>g. fact_key g \<le> fact_key f) after)"
proof (cases facts)
  case (Cons x xs)
  then show ?thesis using first_max_split [of x xs fact_key] by (auto simp: board_fact_def list_all_iff)
qed (simp add: board_fact_def)

section \<open>The origin of a pull request\<close>

lemma origin_scan_iff:
  "origin_scan origins seen proposals = (Some origin, True) \<longleftrightarrow>
     (seen \<or> proposals \<noteq> []) \<and> None \<notin> set proposals \<and> fset origins \<union> the ` set proposals = {origin}"
proof (induction origins seen proposals rule: origin_scan.induct)
  case (1 origins seen)
  have "sorted_list_of_fset origins = [origin] \<longleftrightarrow> fset origins = {origin}"
  proof
    assume "sorted_list_of_fset origins = [origin]"
    then have "set (sorted_list_of_fset origins) = {origin}" by simp
    then show "fset origins = {origin}" by (simp add: sorted_list_of_fset.rep_eq)
  qed (simp add: sorted_list_of_fset.rep_eq)
  moreover have "origin_scan origins seen [] = (Some origin, True) \<longleftrightarrow> seen \<and> sorted_list_of_fset origins = [origin]"
    by (cases "sorted_list_of_fset origins" rule: remdups_adj.cases) (simp_all split: list.splits)
  ultimately show ?case by simp
next
  case (3 origins seen proposal proposals)
  have "fset (finsert proposal origins) \<union> the ` set proposals = fset origins \<union> the ` set (Some proposal # proposals)" by auto
  with 3 show ?case by simp
qed simp

text \<open>
  A pull request has an origin exactly if its trusted comments have at least one marker and all their
  markers name that one well-formed proposal.
\<close>

theorem discover_pr_origin_exact:
  "discover_pr_origin comments = (Some origin, True) \<longleftrightarrow>
     set (concat (map marker_proposals comments)) = {Some origin}"
proof -
  have "xs \<noteq> [] \<and> None \<notin> set xs \<and> the ` set xs = {origin} \<longleftrightarrow> set xs = {Some origin}" for xs :: "string option list"
  proof
    assume *: "xs \<noteq> [] \<and> None \<notin> set xs \<and> the ` set xs = {origin}"
    have "p = Some origin" if "p \<in> set xs" for p
    proof -
      from that * have "p \<noteq> None" "the p \<in> {origin}" by (metis, blast)
      then show ?thesis by auto
    qed
    with * show "set xs = {Some origin}" by (cases xs) auto
  next
    assume "set xs = {Some origin}"
    then show "xs \<noteq> [] \<and> None \<notin> set xs \<and> the ` set xs = {origin}" by (cases xs) auto
  qed
  from this [of "concat (map marker_proposals comments)"] show ?thesis
    unfolding discover_pr_origin_def origin_scan_iff by (simp only: bot_fset.rep_eq Un_empty_left simp_thms)
qed

section \<open>What is printed\<close>

definition printable :: "char \<Rightarrow> bool" where
  "printable c \<longleftrightarrow> 32 \<le> ord c \<and> ord c < 127"

lemma escape_ascii_printable: "list_all printable (escape_char True c)"
proof -
  have hex: "printable (hex_digit k)" if "k < 16" for k
    using that by (auto simp: printable_def hex_digit_def)
  have "ord c div 16 < 16" using less_mult_imp_div_less [of "ord c" 16 16] by simp
  with hex have "printable (hex_digit (ord c div 16))" "printable (hex_digit (ord c mod 16))" by simp_all
  moreover have "list_all printable [BSLASH, DQ, CHR ''n'', CHR ''r'', CHR ''t'', CHR ''f'', CHR ''b'', CHR ''u'', CHR ''0'']"
    by (simp add: printable_def)
  ultimately show ?thesis by (simp add: escape_char_def printable_def)
qed

lemma dumps_str_printable: "list_all printable (dumps_str True s)"
proof -
  have "list_all printable (concat (map (escape_char True) s))"
    using escape_ascii_printable by (auto simp: list_all_iff)
  then show ?thesis by (simp add: dumps_str_def printable_def)
qed

text \<open>A byte of a text takes at most six characters of output.\<close>

lemma dumps_str_length: "length (dumps_str True s) \<le> 6 * length (utf8 s) + 2"
proof -
  have "length (escape_char True c) \<le> 6" for c by (simp add: escape_char_def)
  then have "length (concat (map (escape_char True) s)) \<le> 6 * length s"
    by (induction s) (auto intro: add_mono)
  then show ?thesis using length_le_utf8 [of s] by (simp add: dumps_str_def)
qed

lemma takes_separator: "(\<And>c. Q c \<Longrightarrow> P c) \<Longrightarrow> takes n P r \<Longrightarrow> takes (Suc n) P (RSeq (RSet Q) r)"
  using takes_RSeq [OF takes_RSet, of Q P n r] by simp

lemma iso_timestamp_shape: "fullmatches ISO_TIMESTAMP_RE t \<Longrightarrow> length t = 20 \<and> list_all printable t"
proof -
  have digits: "takes k printable (rrep k rdigit)" for k
    by (intro takes_rrep takes_RSet) (auto simp: is_decimal_def printable_def Let_def)
  have after: "takes (k + n) printable (RSeq (rrep k rdigit) r)" if "takes n printable r" for k n r
    by (rule takes_RSeq [OF digits that])
  have sep: "takes (Suc n) printable (RSeq (rchar c) r)" if "printable c" "takes n printable r" for c n r
    using that by (intro takes_separator) auto
  have "takes 1 printable (rchar (CHR ''Z''))" by (intro takes_RSet) (auto simp: printable_def)
  then have "takes (4 + Suc (2 + Suc (2 + Suc (2 + Suc (2 + Suc (2 + 1)))))) printable ISO_TIMESTAMP_RE"
    unfolding ISO_TIMESTAMP_RE_def timestamp_re_def rseq.simps by (intro after sep) (simp_all add: printable_def)
  then show "fullmatches ISO_TIMESTAMP_RE t \<Longrightarrow> length t = 20 \<and> list_all printable t"
    using takes_fullmatches by force
qed

lemma safe_attr_Some: "safe_attr v limit = Some s \<longleftrightarrow> v = Some s \<and> s \<noteq> [] \<and> safe_text s limit"
  by (auto simp: safe_attr_def split: option.splits)

lemma collected_fact:
  assumes "f \<in> set (collect_state_facts trusted origin)"
  shows "safe_text (sf_state f) MAX_STATE_BYTES" "sf_state f \<noteq> []"
    "\<exists>comment \<in> set trusted. sf_started_at f = tc_created_at comment"
proof -
  from assms obtain comment attrs where comment: "comment \<in> set trusted"
    and f: "state_fact_of origin (tc_created_at comment) attrs = Some f"
    by (auto simp: collect_state_facts_def in_map_filter)
  from f show "safe_text (sf_state f) MAX_STATE_BYTES" "sf_state f \<noteq> []"
    by (auto simp: state_fact_of_def attr_in_def safe_attr_Some split: option.splits if_splits)
  from f have "sf_started_at f = tc_created_at comment"
    by (auto simp: state_fact_of_def split: option.splits if_splits)
  with comment show "\<exists>comment \<in> set trusted. sf_started_at f = tc_created_at comment" by blast
qed

lemma trusted_created_at:
  assumes "comment \<in> set (trusted_comments comments bot_login)" "tc_created_at comment = Some t"
  shows "fullmatches ISO_TIMESTAMP_RE t"
proof -
  from assms(1) obtain raw where "trusted_comment_of bot_login raw = Some comment"
    by (auto simp: trusted_comments_def in_map_filter)
  then obtain d where "created_at_of d = tc_created_at comment"
    by (auto simp: trusted_comment_of_def split: json.split_asm if_split_asm)
  with assms(2) show ?thesis by (auto simp: created_at_of_def split: json.splits if_splits)
qed

lemma fact_result_text:
  "dumps ascii_flags (JObj (fact_result f)) =
     ''{'' @ dumps_str True ''state'' @ '':'' @ dumps_str True (sf_state f) @ '','' @ dumps_str True ''terminal'' @ '':'' @
     (if sf_state f \<in> set TERMINAL_STATES then ''true'' else ''false'') @
     (case sf_started_at f of None \<Rightarrow> [] | Some t \<Rightarrow> '','' @ dumps_str True ''condition_started_at'' @ '':'' @ dumps_str True t) @ ''}''"
  by (simp add: fact_result_def ascii_flags_def sort_items_def split: option.splits)

lemma utf8_printable: "list_all printable t \<Longrightarrow> length (utf8 t) = length t"
  unfolding utf8_def by (induction t) (simp_all add: printable_def utf8_char_def)

lemma fact_result_bounded:
  assumes "safe_text (sf_state f) MAX_STATE_BYTES" "\<And>t. sf_started_at f = Some t \<Longrightarrow> fullmatches ISO_TIMESTAMP_RE t"
  shows "length (dumps ascii_flags (JObj (fact_result f))) \<le> 561"
    "list_all printable (dumps ascii_flags (JObj (fact_result f)))"
proof -
  have state: "length (dumps_str True (sf_state f)) \<le> 386"
    using assms(1) dumps_str_length [of "sf_state f"] by (simp add: safe_text_iff MAX_STATE_BYTES_def)
  have started: "length (dumps_str True t) \<le> 122" if "sf_started_at f = Some t" for t
  proof -
    from iso_timestamp_shape [OF assms(2) [OF that]] have "length t = 20" "list_all printable t" by auto
    then have "length (utf8 t) = 20" using utf8_printable by simp
    with dumps_str_length [of t] show ?thesis by simp
  qed
  have keys: "length (dumps_str True ''state'') = 7" "length (dumps_str True ''terminal'') = 10"
    "length (dumps_str True ''condition_started_at'') = 22"
    by (simp_all add: dumps_str_def escape_char_def)
  show "length (dumps ascii_flags (JObj (fact_result f))) \<le> 561"
    unfolding fact_result_text using state started keys by (auto split: option.splits)
  have "list_all printable ''{}:,truefalse''" by (simp add: printable_def)
  then show "list_all printable (dumps ascii_flags (JObj (fact_result f)))"
    unfolding fact_result_text using dumps_str_printable by (auto split: option.splits)
qed

lemma fact_outcome_ok: "bo_status (fact_outcome discover found) = 0 \<Longrightarrow>
    \<exists>result. found = Some result \<and> bo_out (fact_outcome discover found) = [dumps ascii_flags (JObj result)]"
  by (auto simp: fact_outcome_def split: option.splits if_splits)

lemma trusted_outcome_ok:
  assumes "bo_status (trusted_outcome trusted origin_arg) = 0"
  shows "\<exists>origin result. board_fact (collect_state_facts trusted origin) = Some result
    \<and> bo_out (trusted_outcome trusted origin_arg) = [dumps ascii_flags (JObj result)]"
proof -
  from assms obtain origin discover where
    "trusted_outcome trusted origin_arg = fact_outcome discover (board_fact (collect_state_facts trusted origin))"
    by (auto simp: trusted_outcome_def simp del: dumps.simps split: option.splits prod.splits bool.splits)
  with fact_outcome_ok assms show ?thesis by metis
qed

lemma board_fact_member: "board_fact facts = Some result \<Longrightarrow> \<exists>f \<in> set facts. result = fact_result f"
  using first_max_in [of fact_key] by (cases facts) (force simp: board_fact_def)+

text \<open>
  C19. On success the command prints one line of printable ASCII characters, of at most 561 characters,
  whatever the comments contain.
\<close>

theorem lifecycle_output_bounded:
  assumes "bo_status (lifecycle_main diag origin_arg bot_login input) = 0"
  shows "\<exists>line. bo_out (lifecycle_main diag origin_arg bot_login input) = [line] \<and> length line \<le> 561 \<and> list_all printable line"
proof -
  from assms obtain comments where read: "read_comments diag input = Inr comments"
    by (auto simp: lifecycle_main_def split: sum.splits)
  let ?trusted = "trusted_comments comments bot_login"
  have main: "lifecycle_main diag origin_arg bot_login input = trusted_outcome ?trusted origin_arg"
    by (simp add: lifecycle_main_def read)
  from trusted_outcome_ok [OF assms [unfolded main]] obtain origin result where
    result: "board_fact (collect_state_facts ?trusted origin) = Some result"
    and out: "bo_out (trusted_outcome ?trusted origin_arg) = [dumps ascii_flags (JObj result)]" by blast
  from board_fact_member [OF result] obtain f where f: "f \<in> set (collect_state_facts ?trusted origin)"
    and eq: "result = fact_result f" by blast
  have "fullmatches ISO_TIMESTAMP_RE t" if "sf_started_at f = Some t" for t
    using collected_fact(3) [OF f] trusted_created_at that by metis
  from fact_result_bounded [OF collected_fact(1) [OF f] this] show ?thesis
    unfolding main out eq by blast
qed

definition demo_marker :: "string \<Rightarrow> string \<Rightarrow> string" where
  "demo_marker state key = ''<!-- fkst:github-devloop:state:v1 proposal='' @ [DQ] @ ''p'' @ [DQ] @ '' state='' @ [DQ] @ state @ [DQ]
     @ '' version='' @ [DQ] @ ''v'' @ [DQ] @ '' marker_order_key='' @ [DQ] @ key @ [DQ] @ ''-->''"

definition demo_comment :: "string \<Rightarrow> string \<Rightarrow> json" where
  "demo_comment login body = JObj [(''user'', JObj [(''login'', JStr login)]), (''body'', JStr body)]"

definition demo_input :: "json list \<Rightarrow> string" where
  "demo_input comments = dumps compact_flags (JArr comments)"

lemma read_demo_input: "list_all json_ok comments \<Longrightarrow> read_comments diag (demo_input comments) = Inr comments"
  using read_pages_written [of compact_flags "[]" "[([], comments)]" diag "demo_input comments" "[]"]
  by (simp add: read_comments_def good_flags_def demo_input_def written_pages_def)

theorem lifecycle_untrusted_ignored_witness:
  "lifecycle_main (\<lambda>_ _. []) (Some ''p'') ''bot''
      (demo_input [demo_comment ''bot'' (demo_marker ''ready'' ''k''), demo_comment ''mallory'' (demo_marker ''merged'' ''z'')]) =
   lifecycle_main (\<lambda>_ _. []) (Some ''p'') ''bot'' (demo_input [demo_comment ''bot'' (demo_marker ''ready'' ''k'')])"
  by (rule lifecycle_untrusted_ignored [OF read_demo_input read_demo_input])
    (simp_all add: demo_comment_def authored_def login_for_def login_field_def jget_def)

lemma demo_status:
  "bo_status (trusted_outcome (trusted_comments [demo_comment ''bot'' (demo_marker ''ready'' ''k'')] ''bot'') (Some ''p'')) = 0"
  by code_simp

theorem lifecycle_output_bounded_witness:
  "\<exists>line. bo_out (lifecycle_main (\<lambda>_ _. []) (Some ''p'') ''bot'' (demo_input [demo_comment ''bot'' (demo_marker ''ready'' ''k'')])) = [line]
     \<and> length line \<le> 561 \<and> list_all printable line"
proof (rule lifecycle_output_bounded)
  have "list_all json_ok [demo_comment ''bot'' (demo_marker ''ready'' ''k'')]" by (simp add: demo_comment_def)
  then show "bo_status (lifecycle_main (\<lambda>_ _. []) (Some ''p'') ''bot'' (demo_input [demo_comment ''bot'' (demo_marker ''ready'' ''k'')])) = 0"
    using demo_status by (simp add: lifecycle_main_def read_demo_input)
qed

end
