(* ===== verification/WorkflowBoard.thy ===== *)
theory WorkflowBoard
  imports BoardComments "HOL-Library.FSet"
begin

text \<open>
  \<^verbatim>\<open>packages/github-devloop-workflow/tools/workflow_board_fact.py\<close>: from the comments of an issue, the state of
  its workflow as the board shows it.

  Shown here: deduplication keys stay within their alphabet and their 512 bytes; of the materialisations
  of a step the one kept is the most advanced and of these the latest, so that later comments never move
  a step back; a final state stays final; nothing is shown without a blueprint whose comment carries the
  stamp of the proxy; comments of other authors change nothing but the line for a peer.
\<close>

section \<open>Patterns and limits\<close>

definition MAX_ORIGIN_PROPOSAL_ID_BYTES :: nat where "MAX_ORIGIN_PROPOSAL_ID_BYTES = 200"
definition MAX_WORKFLOW_ID_BYTES :: nat where "MAX_WORKFLOW_ID_BYTES = 128"
definition MAX_PLAN_DIGEST_BYTES :: nat where "MAX_PLAN_DIGEST_BYTES = 64"
definition MAX_SLOT_ID_BYTES :: nat where "MAX_SLOT_ID_BYTES = 128"
definition MAX_CHILD_ISSUE_BYTES :: nat where "MAX_CHILD_ISSUE_BYTES = 30"
definition MAX_TERMINAL_REASON_CODE_BYTES :: nat where "MAX_TERMINAL_REASON_CODE_BYTES = 128"
definition MAX_DEDUP_KEY_BYTES :: nat where "MAX_DEDUP_KEY_BYTES = 512"
definition MAX_GENERATION :: int where "MAX_GENERATION = 2147483647"

definition MATERIALIZATION_STATE_RANK :: "(string \<times> nat) list" where
  "MATERIALIZATION_STATE_RANK = [(''pending'', 1), (''generated'', 2), (''created'', 3)]"

definition TERMINAL_STATES :: "string list" where
  "TERMINAL_STATES = [''done'', ''blocked'', ''error'']"

definition MARKER_RE :: regex where
  "MARKER_RE = rseq
     [rlit ''<!--'', rstar rspace, rlit ''fkst:github-devloop-workflow:'',
      RGroup ''1'' (ralt [rlit ''blueprint'', rlit ''materialization'', rlit ''terminal'', rlit ''hold'']),
      rlit '':v1'', RWordB, RGroup ''2'' (RStar False rany), rlit ''-->'']"

definition DEVLOOP_MARKER_RE :: regex where
  "DEVLOOP_MARKER_RE = rseq
     [rlit ''<!--'', rstar rspace, rlit ''fkst:github-devloop:'',
      rplus (RSet (\<lambda>c. is_alnum_ascii c \<or> c = CHR ''_'' \<or> c = CHR ''-'')), rlit '':v1'', RWordB]"

definition INTAKE_DECISION_RE :: regex where
  "INTAKE_DECISION_RE = rseq
     [rlit ''<!--'', rstar rspace, rlit ''fkst:github-devloop:intake-decision:v1'', RWordB,
      RGroup ''1'' (RStar False rany), rlit ''-->'']"

text \<open>With \<open>re.DOTALL\<close> the dot matches every character.\<close>

definition DEBUG_STAMP_RE :: regex where
  "DEBUG_STAMP_RE = rseq
     [rstar rspace, rlit ''<!--'', rstar rspace, rlit ''fkst:debug-stamp:v1'', RWordB,
      RStar False (RSet (\<lambda>_. True)), rlit ''-->'', rstar rspace, REol]"

definition safe_attr :: "string option \<Rightarrow> nat \<Rightarrow> bool \<Rightarrow> string option" where
  "safe_attr v limit allow_empty =
     (case v of
        None \<Rightarrow> None
      | Some s \<Rightarrow>
          if s = [] then (if allow_empty then Some [] else None)
          else if safe_text s limit then Some s else None)"

definition attr_in :: "(string \<times> string) list \<Rightarrow> string \<Rightarrow> nat \<Rightarrow> string option" where
  "attr_in attrs name limit = safe_attr (map_of attrs name) limit False"

section \<open>Logins\<close>

definition normalized_login :: "string \<Rightarrow> string" where
  "normalized_login login = (if endswith login ''[bot]'' then take (length login - 5) login else login)"

definition LOGIN_SEPARATOR_RE :: regex where
  "LOGIN_SEPARATOR_RE = rplus (RSet (\<lambda>c. c = CHR '','' \<or> is_space c))"

definition managed_bot_login_set :: "string \<Rightarrow> string fset" where
  "managed_bot_login_set raw =
     fset_of_list (filter (\<lambda>login. login \<noteq> [])
       (map (\<lambda>entry. normalized_login (strip entry)) (re_split LOGIN_SEPARATOR_RE raw)))"

text \<open>The bodies of the comments of the trusted login, the only field kept.\<close>

definition trusted_body :: "string \<Rightarrow> json \<Rightarrow> string option" where
  "trusted_body bot_login comment =
     (case comment of
        JObj d \<Rightarrow> if login_for d \<noteq> bot_login then None else as_str (jget d ''body'')
      | _ \<Rightarrow> None)"

definition trusted_comments :: "json list \<Rightarrow> string \<Rightarrow> string list" where
  "trusted_comments comments bot_login = List.map_filter (trusted_body bot_login) comments"

definition foreign_marker_login :: "string \<Rightarrow> string fset \<Rightarrow> json \<Rightarrow> string option" where
  "foreign_marker_login bot_login managed_logins comment =
     (case comment of
        JObj d \<Rightarrow>
          let login = login_for d in
          if login = [] \<or> login = bot_login then None
          else if normalized_login login |\<notin>| managed_logins then None
          else (case jget d ''body'' of
                  JStr body \<Rightarrow>
                    if re_search MARKER_RE body \<noteq> None \<or> re_search DEVLOOP_MARKER_RE body \<noteq> None then Some login else None
                | _ \<Rightarrow> None)
      | _ \<Rightarrow> None)"

fun first_foreign_marker_login :: "json list \<Rightarrow> string \<Rightarrow> string fset \<Rightarrow> string option" where
  "first_foreign_marker_login [] bot_login managed_logins = None"
| "first_foreign_marker_login (comment # comments) bot_login managed_logins =
     (case foreign_marker_login bot_login managed_logins comment of
        Some login \<Rightarrow> Some login
      | None \<Rightarrow> first_foreign_marker_login comments bot_login managed_logins)"

section \<open>Deduplication keys\<close>

definition checksum_step :: "nat \<Rightarrow> nat \<Rightarrow> nat" where
  "checksum_step result byte = (result * 16777619 + byte) mod 4294967291"

text \<open>\<open>f"{result:010d}"\<close>\<close>

definition zero_padded :: "nat \<Rightarrow> nat \<Rightarrow> string" where
  "zero_padded width n = replicate (width - length (nat_digits n)) (CHR ''0'') @ nat_digits n"

definition decimal_checksum :: "string \<Rightarrow> string" where
  "decimal_checksum s = zero_padded 10 (foldl checksum_step 2166136261 (utf8 s))"

definition key_char :: "char \<Rightarrow> bool" where
  "key_char c \<longleftrightarrow> is_alnum_ascii c \<or> c \<in> {CHR ''.'', CHR ''_'', CHR ''-'', CHR ''/'', CHR ''#''}"

definition sanitize_key :: "string \<Rightarrow> string" where
  "sanitize_key s =
     (let sanitized = re_sub (RSet (\<lambda>c. \<not> key_char c)) ''-'' s;
          sanitized = strip_chars ''/'' (re_sub (rplus (rchar (CHR ''/''))) ''/'' sanitized)
      in if sanitized = [] then ''empty''
         else
           (let segments = map (\<lambda>segment. if segment = ''.'' \<or> segment = ''..'' then ''-'' else segment)
                  (split_char (CHR ''/'') sanitized);
                sanitized = join ''/'' segments
            in if sanitized = [] then ''empty'' else sanitized))"

text \<open>\<open>encoded[:limit].decode("utf-8", errors="ignore")\<close>: a character cut in two is dropped.\<close>

fun utf8_prefix :: "string \<Rightarrow> nat \<Rightarrow> string" where
  "utf8_prefix [] limit = []"
| "utf8_prefix (c # cs) limit =
     (if length (utf8_char c) \<le> limit then c # utf8_prefix cs (limit - length (utf8_char c)) else [])"

definition truncate_utf8 :: "string \<Rightarrow> nat \<Rightarrow> string" where
  "truncate_utf8 s limit = (if length (utf8 s) \<le> limit then s else utf8_prefix s limit)"

definition dedup_key :: "string list \<Rightarrow> string" where
  "dedup_key parts =
     (let key = sanitize_key (join ''/'' parts) in
      if MAX_DEDUP_KEY_BYTES < length (utf8 key) then
        (let suffix = ''-'' @ decimal_checksum key in
         rstrip_chars ''/-'' (truncate_utf8 key (MAX_DEDUP_KEY_BYTES - length (utf8 suffix))) @ suffix)
      else key)"

definition proxy_comment_marker :: "string \<Rightarrow> string" where
  "proxy_comment_marker dedup = ''<!-- fkst:github-proxy:comment:'' @ dedup @ '' -->''"

definition has_tail_proxy_stamp :: "string \<Rightarrow> string \<Rightarrow> bool" where
  "has_tail_proxy_stamp body dedup = endswith (rstrip (re_sub DEBUG_STAMP_RE [] body)) (proxy_comment_marker dedup)"

section \<open>Facts\<close>

definition intake_dedup :: "string \<Rightarrow> (string \<times> string) list \<Rightarrow> string option" where
  "intake_dedup origin attrs =
     (case attr_in attrs ''dedup'' MAX_DEDUP_KEY_BYTES of
        None \<Rightarrow> None
      | Some marker_dedup \<Rightarrow>
          if attr_in attrs ''proposal'' MAX_ORIGIN_PROPOSAL_ID_BYTES = Some origin
             \<and> attr_in attrs ''decision'' MAX_SLOT_ID_BYTES = Some ''track''
          then Some (dedup_key [''workflow'', ''blueprint-decision'', origin, marker_dedup]) else None)"

definition blueprint_dedup_from_comment :: "string \<Rightarrow> string \<Rightarrow> string option" where
  "blueprint_dedup_from_comment body origin =
     (case List.map_filter (\<lambda>m. intake_dedup origin (parse_attrs (group_text m ''1''))) (re_finditer INTAKE_DECISION_RE body) of
        [] \<Rightarrow> None
      | dedup # _ \<Rightarrow> Some dedup)"

record blueprint =
  bp_workflow :: string
  bp_digest :: string

definition blueprint_fact :: "(string \<times> string) list \<Rightarrow> string \<Rightarrow> string \<Rightarrow> blueprint option" where
  "blueprint_fact attrs origin body =
     (case (attr_in attrs ''workflow'' MAX_WORKFLOW_ID_BYTES, attr_in attrs ''digest'' MAX_PLAN_DIGEST_BYTES) of
        (Some workflow, Some digest) \<Rightarrow>
          if attr_in attrs ''origin'' MAX_ORIGIN_PROPOSAL_ID_BYTES \<noteq> Some origin then None
          else (case blueprint_dedup_from_comment body origin of
                  None \<Rightarrow> None
                | Some expected_dedup \<Rightarrow>
                    if has_tail_proxy_stamp body expected_dedup then Some \<lparr>bp_workflow = workflow, bp_digest = digest\<rparr> else None)
      | _ \<Rightarrow> None)"

record materialization =
  mz_slot :: string
  mz_state :: string
  mz_child_issue :: "string option"
  mz_seq :: nat

definition state_rank :: "string \<Rightarrow> nat option" where
  "state_rank state = map_of MATERIALIZATION_STATE_RANK state"

definition materialization_fact ::
    "(string \<times> string) list \<Rightarrow> string \<Rightarrow> nat \<Rightarrow> string \<Rightarrow> materialization option" where
  "materialization_fact attrs origin seq body =
     (case (attr_in attrs ''predecessor_ref_digest'' MAX_PLAN_DIGEST_BYTES, attr_in attrs ''gen_spec_digest'' MAX_PLAN_DIGEST_BYTES,
            attr_in attrs ''slot'' MAX_SLOT_ID_BYTES, attr_in attrs ''state'' MAX_SLOT_ID_BYTES,
            safe_attr (map_of attrs ''child_issue'') MAX_CHILD_ISSUE_BYTES True) of
        (Some predecessor_ref_digest, Some gen_spec_digest, Some slot, Some state, Some child_issue) \<Rightarrow>
          if attr_in attrs ''origin'' MAX_ORIGIN_PROPOSAL_ID_BYTES \<noteq> Some origin \<or> state_rank state = None then None
          else if has_tail_proxy_stamp body (dedup_key
              [''workflow'', ''comment'', origin, ''materialization'', slot, predecessor_ref_digest, gen_spec_digest, state, child_issue])
          then Some \<lparr>mz_slot = slot, mz_state = state,
                     mz_child_issue = (if child_issue = [] then None else Some child_issue), mz_seq = seq\<rparr>
          else None
      | _ \<Rightarrow> None)"

record terminal =
  tm_state :: string
  tm_reason_code :: string
  tm_seq :: nat

definition terminal_fact :: "(string \<times> string) list \<Rightarrow> string \<Rightarrow> nat \<Rightarrow> string \<Rightarrow> terminal option" where
  "terminal_fact attrs origin seq body =
     (case (attr_in attrs ''state'' MAX_SLOT_ID_BYTES, attr_in attrs ''reason_code'' MAX_TERMINAL_REASON_CODE_BYTES) of
        (Some state, Some reason_code) \<Rightarrow>
          if attr_in attrs ''origin'' MAX_ORIGIN_PROPOSAL_ID_BYTES \<noteq> Some origin \<or> state \<notin> set TERMINAL_STATES then None
          else if has_tail_proxy_stamp body (dedup_key [''workflow'', ''comment'', origin, ''terminal'', state, reason_code])
          then Some \<lparr>tm_state = state, tm_reason_code = reason_code, tm_seq = seq\<rparr> else None
      | _ \<Rightarrow> None)"

record hold =
  hd_reason_code :: string
  hd_generation :: int
  hd_seq :: nat

definition valid_generation :: "string \<Rightarrow> int option" where
  "valid_generation raw =
     (case int_of_str raw of
        None \<Rightarrow> None
      | Some generation \<Rightarrow>
          if generation < 1 \<or> MAX_GENERATION < generation \<or> str_int generation \<noteq> raw then None else Some generation)"

definition hold_fact :: "(string \<times> string) list \<Rightarrow> string \<Rightarrow> nat \<Rightarrow> string \<Rightarrow> hold option" where
  "hold_fact attrs origin seq body =
     (case (attr_in attrs ''reason_code'' MAX_TERMINAL_REASON_CODE_BYTES,
            attr_in attrs ''generation'' (length (str_int MAX_GENERATION))) of
        (Some reason_code, Some raw_generation) \<Rightarrow>
          if attr_in attrs ''origin'' MAX_ORIGIN_PROPOSAL_ID_BYTES \<noteq> Some origin then None
          else (case valid_generation raw_generation of
                  None \<Rightarrow> None
                | Some generation \<Rightarrow>
                    if has_tail_proxy_stamp body (dedup_key [''workflow'', ''comment'', origin, ''hold'', raw_generation, reason_code])
                    then Some \<lparr>hd_reason_code = reason_code, hd_generation = generation, hd_seq = seq\<rparr> else None)
      | _ \<Rightarrow> None)"

section \<open>Collecting facts\<close>

datatype reversible = ReversibleTerminal terminal | ReversibleHold hold

record workflow_facts =
  wf_blueprint :: "blueprint option"
  wf_materializations :: "materialization list"
  wf_monotonic_terminal :: "terminal option"
  wf_reversible :: "reversible option"
  wf_seq :: nat

definition no_facts :: workflow_facts where
  "no_facts = \<lparr>wf_blueprint = None, wf_materializations = [], wf_monotonic_terminal = None, wf_reversible = None, wf_seq = 0\<rparr>"

text \<open>One marker of a comment: its kind, its attributes, and the body of the comment.\<close>

definition marker_step :: "string \<Rightarrow> string \<Rightarrow> string \<Rightarrow> (string \<times> string) list \<Rightarrow> workflow_facts \<Rightarrow> workflow_facts" where
  "marker_step origin body kind attrs facts0 =
     (let seq = Suc (wf_seq facts0); facts = facts0\<lparr>wf_seq := seq\<rparr> in
      if kind = ''blueprint'' then
        (case blueprint_fact attrs origin body of
           None \<Rightarrow> facts
         | Some found \<Rightarrow> facts\<lparr>wf_blueprint := Some found\<rparr>)
      else if kind = ''materialization'' then
        (case materialization_fact attrs origin seq body of
           None \<Rightarrow> facts
         | Some found \<Rightarrow> facts\<lparr>wf_materializations := wf_materializations facts @ [found]\<rparr>)
      else if kind = ''terminal'' then
        (case terminal_fact attrs origin seq body of
           None \<Rightarrow> facts
         | Some found \<Rightarrow>
             if tm_state found = ''blocked'' then facts\<lparr>wf_reversible := Some (ReversibleTerminal found)\<rparr>
             else facts\<lparr>wf_monotonic_terminal := Some found\<rparr>)
      else if kind = ''hold'' then
        (case hold_fact attrs origin seq body of
           None \<Rightarrow> facts
         | Some found \<Rightarrow> facts\<lparr>wf_reversible := Some (ReversibleHold found)\<rparr>)
      else facts)"

definition comment_step :: "string \<Rightarrow> workflow_facts \<Rightarrow> string \<Rightarrow> workflow_facts" where
  "comment_step origin facts body =
     foldl (\<lambda>facts m. marker_step origin body (group_text m ''1'') (parse_attrs (group_text m ''2'')) facts) facts
       (re_finditer MARKER_RE body)"

definition collect_facts :: "string list \<Rightarrow> string \<Rightarrow> workflow_facts" where
  "collect_facts comments origin = foldl (comment_step origin) no_facts comments"

section \<open>The board\<close>

text \<open>A later fact replaces an earlier one of its slot if it is more advanced, or as advanced and not older.\<close>

definition replaces :: "materialization \<Rightarrow> materialization option \<Rightarrow> bool" where
  "replaces new current =
     (case state_rank (mz_state new) of
        None \<Rightarrow> False
      | Some rank \<Rightarrow>
          (case current of
             None \<Rightarrow> True
           | Some old \<Rightarrow>
               (case state_rank (mz_state old) of
                  None \<Rightarrow> True
                | Some current_rank \<Rightarrow> current_rank < rank \<or> rank = current_rank \<and> mz_seq old \<le> mz_seq new)))"

definition slot_step :: "(string \<times> materialization) list \<Rightarrow> materialization \<Rightarrow> (string \<times> materialization) list" where
  "slot_step by_slot m = (if replaces m (map_of by_slot (mz_slot m)) then AList.update (mz_slot m) m by_slot else by_slot)"

definition latest_materialization_by_slot :: "materialization list \<Rightarrow> (string \<times> materialization) list" where
  "latest_materialization_by_slot facts = foldl slot_step [] facts"

definition or_unknown :: "string \<Rightarrow> string" where
  "or_unknown s = (if s = [] then ''unknown'' else s)"

definition parked :: "string \<Rightarrow> string \<Rightarrow> string \<Rightarrow> string" where
  "parked workflow state reason_code = ''parked(workflow:'' @ workflow @ '' '' @ state @ ''('' @ reason_code @ ''))''"

definition running :: "string \<Rightarrow> materialization list \<Rightarrow> string" where
  "running workflow materializations =
     (case map snd (latest_materialization_by_slot materializations) of
        [] \<Rightarrow> ''tracking(workflow:'' @ workflow @ '')''
      | m # ms \<Rightarrow>
          let latest = first_max mz_seq m ms; slot = or_unknown (mz_slot latest) in
          (case mz_child_issue latest of
             Some child_issue \<Rightarrow>
               if mz_state latest = ''created''
               then ''tracking(workflow:'' @ workflow @ '' running(step '' @ slot @ '' -> #'' @ child_issue @ ''))''
               else ''tracking(workflow:'' @ workflow @ '' running(step '' @ slot @ ''))''
           | None \<Rightarrow> ''tracking(workflow:'' @ workflow @ '' running(step '' @ slot @ ''))''))"

definition board_fact :: "workflow_facts \<Rightarrow> (string \<times> string) option" where
  "board_fact facts =
     (case wf_blueprint facts of
        None \<Rightarrow> None
      | Some bp \<Rightarrow>
          let workflow = or_unknown (bp_workflow bp) in
          Some (''workflow'',
            (case wf_monotonic_terminal facts of
               Some t \<Rightarrow> parked workflow (or_unknown (tm_state t)) (or_unknown (tm_reason_code t))
             | None \<Rightarrow>
                 (case wf_reversible facts of
                    Some (ReversibleHold h) \<Rightarrow> parked workflow ''hold'' (or_unknown (hd_reason_code h))
                  | Some (ReversibleTerminal t) \<Rightarrow> parked workflow (or_unknown (tm_state t)) (or_unknown (tm_reason_code t))
                  | None \<Rightarrow> running workflow (wf_materializations facts)))))"

record workflow_outcome =
  wo_status :: int
  wo_out :: "string list"
  wo_err :: "string list"

definition shown_fact :: "json list \<Rightarrow> string \<Rightarrow> string \<Rightarrow> string \<Rightarrow> (string \<times> string) option" where
  "shown_fact comments origin bot_login managed_bot_logins =
     (case board_fact (collect_facts (trusted_comments comments bot_login) origin) of
        Some found \<Rightarrow> Some found
      | None \<Rightarrow>
          map_option (\<lambda>peer_login. (''stateless'', ''peer-managed('' @ peer_login @ '')''))
            (first_foreign_marker_login comments bot_login (managed_bot_login_set managed_bot_logins)))"

definition workflow_main :: "decode_diag \<Rightarrow> string \<Rightarrow> string \<Rightarrow> string \<Rightarrow> string \<Rightarrow> workflow_outcome" where
  "workflow_main diag origin bot_login managed_bot_logins input =
     (case read_comments diag input of
        Inl err \<Rightarrow> \<lparr>wo_status = 2, wo_out = [], wo_err = [''workflow-board-fact: '' @ err]\<rparr>
      | Inr comments \<Rightarrow>
          (case shown_fact comments origin bot_login managed_bot_logins of
             None \<Rightarrow> \<lparr>wo_status = 1, wo_out = [], wo_err = []\<rparr>
           | Some (kind, shown) \<Rightarrow> \<lparr>wo_status = 0, wo_out = [kind @ [TAB] @ shown], wo_err = []\<rparr>))"

section \<open>Deduplication keys are short\<close>

lemma key_char_ascii: "key_char c \<Longrightarrow> ord c < 128"
  by (auto simp: key_char_def char_class_defs Let_def)

lemma checksum_bound: "result < 4294967291 \<Longrightarrow> foldl checksum_step result bytes < 4294967291"
  by (induction bytes arbitrary: result) (simp_all add: checksum_step_def)

lemma decimal_key_char: "is_decimal c \<Longrightarrow> key_char c"
  by (simp add: key_char_def is_alnum_ascii_def)

lemma decimal_checksum_shape: "length (decimal_checksum s) = 10" "list_all is_decimal (decimal_checksum s)"
proof -
  have "foldl checksum_step 2166136261 (utf8 s) < 10 ^ Suc 9"
    using checksum_bound [of 2166136261 "utf8 s"] by simp
  from nat_digits_length [OF this] show "length (decimal_checksum s) = 10"
    by (simp add: decimal_checksum_def zero_padded_def)
  have "is_decimal (CHR ''0'')" by (simp add: is_decimal_def)
  then show "list_all is_decimal (decimal_checksum s)"
    using nat_digits_decimal by (auto simp: decimal_checksum_def zero_padded_def list_all_iff)
qed

lemma sanitize_key_chars: "list_all key_char (sanitize_key s)"
proof -
  have punct: "key_char (CHR ''-'')" "key_char (CHR ''/'')" by (simp_all add: key_char_def)
  define s1 where "s1 = re_sub (RSet (\<lambda>c. \<not> key_char c)) ''-'' s"
  define s2 where "s2 = strip_chars ''/'' (re_sub (rplus (rchar (CHR ''/''))) ''/'' s1)"
  have s1: "\<forall>c \<in> set s1. key_char c" using punct by (auto simp: s1_def re_sub_class)
  have s2: "\<forall>c \<in> set s2. key_char c"
    unfolding s2_def using s1 punct set_strip_chars re_sub_set [of "rplus (rchar (CHR ''/''))" "''/''" s1] by fastforce
  define segments where "segments = map (\<lambda>segment. if segment = ''.'' \<or> segment = ''..'' then ''-'' else segment) (split_char (CHR ''/'') s2)"
  have "\<forall>c \<in> set p. key_char c" if "p \<in> set segments" for p
    using that s2 punct set_split_char unfolding segments_def by fastforce
  then have "\<forall>c \<in> set (join ''/'' segments). key_char c" using set_join [of "''/''" segments] punct by fastforce
  moreover have "list_all key_char ''empty''" by (simp add: key_char_def char_class_defs)
  ultimately show ?thesis
    unfolding sanitize_key_def Let_def s1_def [symmetric] s2_def [symmetric] segments_def [symmetric]
    by (simp add: list_all_iff)
qed

lemma sanitize_key_nonempty: "sanitize_key s \<noteq> []"
  by (simp add: sanitize_key_def Let_def)

lemma utf8_prefix_props: "length (utf8 (utf8_prefix s n)) \<le> n" "prefix (utf8_prefix s n) s"
  by (induction s n rule: utf8_prefix.induct) (auto simp: utf8_def)

lemma truncate_utf8_props: "length (utf8 (truncate_utf8 s n)) \<le> n" "prefix (truncate_utf8 s n) s"
  using utf8_prefix_props by (auto simp: truncate_utf8_def)

text \<open>
  A deduplication key is not empty, has at most 512 bytes and consists of letters, digits, and the
  five characters allowed beside them, whatever the parts are.
\<close>

theorem dedup_key_bounded:
  "dedup_key parts \<noteq> [] \<and> length (utf8 (dedup_key parts)) \<le> MAX_DEDUP_KEY_BYTES \<and> list_all key_char (dedup_key parts)"
proof -
  define key where "key = sanitize_key (join ''/'' parts)"
  define suffix where "suffix = ''-'' @ decimal_checksum key"
  define cut where "cut = rstrip_chars ''/-'' (truncate_utf8 key (MAX_DEDUP_KEY_BYTES - length (utf8 suffix)))"
  have ascii: "length (utf8 t) = length t" if "list_all key_char t" for t
    using that by (intro length_utf8_ascii) (auto simp: list_all_iff key_char_ascii)
  have key: "list_all key_char key" unfolding key_def by (rule sanitize_key_chars)
  have suffix: "list_all key_char suffix" "length suffix = 11"
    using decimal_checksum_shape [of key] decimal_key_char by (auto simp: suffix_def list_all_iff key_char_def)
  have truncated: "set (truncate_utf8 key n) \<subseteq> set key" for n using truncate_utf8_props(2) set_mono_prefix by blast
  then have cut: "list_all key_char cut" using key set_rstrip_chars unfolding cut_def list_all_iff by blast
  have "length cut \<le> length (truncate_utf8 key (MAX_DEDUP_KEY_BYTES - length (utf8 suffix)))"
    unfolding cut_def by (rule length_rstrip_chars)
  also have "\<dots> \<le> MAX_DEDUP_KEY_BYTES - length (utf8 suffix)"
    using length_le_utf8 truncate_utf8_props(1) by (rule order_trans)
  finally have "length (cut @ suffix) \<le> MAX_DEDUP_KEY_BYTES"
    using ascii suffix by (simp add: MAX_DEDUP_KEY_BYTES_def)
  moreover have "list_all key_char (cut @ suffix)" using cut suffix by simp
  ultimately have long: "cut @ suffix \<noteq> []" "length (utf8 (cut @ suffix)) \<le> MAX_DEDUP_KEY_BYTES" "list_all key_char (cut @ suffix)"
    using ascii [of "cut @ suffix"] suffix(2) by auto
  have "dedup_key parts = (if MAX_DEDUP_KEY_BYTES < length (utf8 key) then cut @ suffix else key)"
    by (simp add: dedup_key_def Let_def key_def cut_def suffix_def)
  then show ?thesis using long key sanitize_key_nonempty [of "join ''/'' parts"] by (simp add: key_def)
qed

section \<open>The materialisation kept for a step\<close>

definition progress :: "materialization \<Rightarrow> nat \<times> nat" where
  "progress m = (the_default 0 (state_rank (mz_state m)), mz_seq m)"

definition known_state :: "materialization \<Rightarrow> bool" where
  "known_state m \<longleftrightarrow> state_rank (mz_state m) \<noteq> None"

text \<open>The specification: the last of the facts of the step that no other one exceeds.\<close>

definition is_latest :: "string \<Rightarrow> materialization list \<Rightarrow> materialization \<Rightarrow> bool" where
  "is_latest slot facts f \<longleftrightarrow>
     (\<exists>before after. facts = before @ f # after \<and> mz_slot f = slot \<and> known_state f
        \<and> (\<forall>g \<in> set before. mz_slot g = slot \<and> known_state g \<longrightarrow> progress g \<le> progress f)
        \<and> (\<forall>g \<in> set after. mz_slot g = slot \<and> known_state g \<longrightarrow> progress g < progress f))"

lemma replaces_iff:
  "replaces m current \<longleftrightarrow> known_state m \<and> (\<forall>old. current = Some old \<longrightarrow> known_state old \<longrightarrow> progress old \<le> progress m)"
  by (auto simp: replaces_def known_state_def progress_def split: option.splits)

lemma is_latest_maximal:
  assumes "is_latest slot facts f" "g \<in> set facts" "mz_slot g = slot" "known_state g"
  shows "progress g \<le> progress f"
proof -
  from assms(1) obtain before after where "facts = before @ f # after"
    and before: "\<forall>g \<in> set before. mz_slot g = slot \<and> known_state g \<longrightarrow> progress g \<le> progress f"
    and after: "\<forall>g \<in> set after. mz_slot g = slot \<and> known_state g \<longrightarrow> progress g < progress f"
    unfolding is_latest_def by blast
  with assms(2) have "g \<in> set before \<or> g = f \<or> g \<in> set after" by auto
  with before after assms(3,4) show ?thesis by (metis less_imp_le order_refl)
qed

lemma is_latest_in: "is_latest slot facts f \<Longrightarrow> f \<in> set facts \<and> mz_slot f = slot \<and> known_state f"
  unfolding is_latest_def by (metis in_set_conv_decomp)

lemma is_latest_unique:
  assumes "is_latest slot facts f" "is_latest slot facts g"
  shows "f = g"
proof -
  from assms(1) obtain as bs where f: "facts = as @ f # bs" "mz_slot f = slot" "known_state f"
    "\<forall>h \<in> set bs. mz_slot h = slot \<and> known_state h \<longrightarrow> progress h < progress f" unfolding is_latest_def by blast
  from assms(2) obtain cs ds where g: "facts = cs @ g # ds" "mz_slot g = slot" "known_state g"
    "\<forall>h \<in> set ds. mz_slot h = slot \<and> known_state h \<longrightarrow> progress h < progress g" unfolding is_latest_def by blast
  have le: "progress f \<le> progress g" "progress g \<le> progress f"
    using is_latest_maximal [OF assms(2)] is_latest_maximal [OF assms(1)] is_latest_in [OF assms(1)] is_latest_in [OF assms(2)]
    by blast+
  from f(1) g(1) have "as @ f # bs = cs @ g # ds" by simp
  then obtain us where "as = cs @ us \<and> us @ f # bs = g # ds \<or> as @ us = cs \<and> f # bs = us @ g # ds"
    unfolding append_eq_append_conv2 by blast
  then have "f = g \<or> f \<in> set ds \<or> g \<in> set bs" by (cases us) auto
  with f(2-4) g(2-4) le show ?thesis by (auto dest: leD)
qed

lemma latest_step:
  assumes "\<And>f. map_of by_slot slot = Some f \<longleftrightarrow> is_latest slot facts f"
    and "\<And>slot'. map_of by_slot slot' = None \<Longrightarrow> \<forall>g \<in> set facts. mz_slot g = slot' \<longrightarrow> \<not> known_state g"
  shows "map_of (slot_step by_slot m) slot = Some f \<Longrightarrow> is_latest slot (facts @ [m]) f"
proof -
  assume result: "map_of (slot_step by_slot m) slot = Some f"
  show "is_latest slot (facts @ [m]) f"
  proof (cases "replaces m (map_of by_slot (mz_slot m)) \<and> mz_slot m = slot")
    case True
    then have f: "f = m" and slot: "mz_slot m = slot" using result by (auto simp: slot_step_def update_conv')
    have known: "known_state m" using True by (simp add: replaces_iff)
    have "progress g \<le> progress m" if g: "g \<in> set facts" "mz_slot g = slot" "known_state g" for g
    proof (cases "map_of by_slot slot")
      case None
      with assms(2) g show ?thesis by blast
    next
      case (Some old)
      then have old: "is_latest slot facts old" using assms(1) by blast
      then have "progress g \<le> progress old" using is_latest_maximal g by blast
      also have "progress old \<le> progress m"
        using True Some old unfolding replaces_iff slot is_latest_def by blast
      finally show ?thesis .
    qed
    with known slot f show ?thesis unfolding is_latest_def by (intro exI [of _ facts] exI [of _ "[]"]) simp
  next
    case False
    then have same: "map_of by_slot slot = Some f" using result by (auto simp: slot_step_def update_conv' split: if_splits)
    then have latest: "is_latest slot facts f" using assms(1) by blast
    then obtain before after where facts: "facts = before @ f # after" and f: "mz_slot f = slot" "known_state f"
      and le: "\<forall>g \<in> set before. mz_slot g = slot \<and> known_state g \<longrightarrow> progress g \<le> progress f"
      and less: "\<forall>g \<in> set after. mz_slot g = slot \<and> known_state g \<longrightarrow> progress g < progress f"
      unfolding is_latest_def by blast
    have "progress m < progress f" if "mz_slot m = slot" "known_state m"
      using False that same f(2) by (auto simp: replaces_iff)
    with facts f le less show ?thesis
      unfolding is_latest_def by (intro exI [of _ before] exI [of _ "after @ [m]"]) auto
  qed
qed

lemma slot_step_None:
  assumes "map_of (slot_step by_slot m) slot = None"
  shows "map_of by_slot slot = None" "mz_slot m = slot \<Longrightarrow> \<not> known_state m"
  using assms by (auto simp: slot_step_def update_conv' replaces_iff split: if_splits)

lemma latest_refines:
  "(\<forall>f. map_of (latest_materialization_by_slot facts) slot = Some f \<longleftrightarrow> is_latest slot facts f) \<and>
   (map_of (latest_materialization_by_slot facts) slot = None \<longrightarrow> (\<forall>g \<in> set facts. mz_slot g = slot \<longrightarrow> \<not> known_state g))"
proof (induction facts arbitrary: slot rule: rev_induct)
  case Nil
  show ?case by (simp add: latest_materialization_by_slot_def is_latest_def)
next
  case (snoc m facts)
  let ?d = "latest_materialization_by_slot facts"
  have step: "latest_materialization_by_slot (facts @ [m]) = slot_step ?d m"
    by (simp add: latest_materialization_by_slot_def)
  have none: "\<forall>g \<in> set (facts @ [m]). mz_slot g = slot \<longrightarrow> \<not> known_state g" if "map_of (slot_step ?d m) slot = None"
    using slot_step_None [OF that] snoc by auto
  have some: "is_latest slot (facts @ [m]) f" if "map_of (slot_step ?d m) slot = Some f" for f
    using snoc that by (intro latest_step) auto
  have "map_of (slot_step ?d m) slot = Some f" if latest: "is_latest slot (facts @ [m]) f" for f
  proof (cases "map_of (slot_step ?d m) slot")
    case None
    with none [OF None] is_latest_in [OF latest] show ?thesis by blast
  next
    case (Some g)
    with some latest is_latest_unique show ?thesis by blast
  qed
  with none some show ?case unfolding step by blast
qed

text \<open>
  C20. The dictionary built by the loop implements its specification: a step is mapped to a materialisation
  exactly if that is the most advanced one of the step, and the latest of the most advanced.
\<close>

theorem latest_by_slot_refines:
  "map_of (latest_materialization_by_slot facts) slot = Some f \<longleftrightarrow> is_latest slot facts f"
  using latest_refines by blast

section \<open>Later comments never move a workflow back\<close>

definition grows :: "workflow_facts \<Rightarrow> workflow_facts \<Rightarrow> bool" where
  "grows a b \<longleftrightarrow> (wf_blueprint a \<noteq> None \<longrightarrow> wf_blueprint b \<noteq> None)
     \<and> (wf_monotonic_terminal a \<noteq> None \<longrightarrow> wf_monotonic_terminal b \<noteq> None)
     \<and> prefix (wf_materializations a) (wf_materializations b)"

lemma grows_refl: "grows a a"
  by (simp add: grows_def)

lemma grows_trans: "grows a b \<Longrightarrow> grows b c \<Longrightarrow> grows a c"
  unfolding grows_def using prefix_order.trans by blast

lemma marker_step_grows: "grows facts (marker_step origin body kind attrs facts)"
  by (simp add: grows_def marker_step_def Let_def split: option.splits)

lemma grows_fold: "(\<And>x a. grows a (f a x)) \<Longrightarrow> grows a (foldl f a xs)"
proof (induction xs arbitrary: a)
  case (Cons x xs)
  from Cons.IH [OF Cons.prems, of "f a x"] Cons.prems [of a x] show ?case using grows_trans by simp
qed (simp add: grows_refl)

lemma collect_facts_grows: "grows (collect_facts comments origin) (collect_facts (comments @ later) origin)"
proof -
  have "grows a (comment_step origin a body)" for a body
    unfolding comment_step_def by (rule grows_fold) (rule marker_step_grows)
  then show ?thesis unfolding collect_facts_def foldl_append by (intro grows_fold)
qed

lemma latest_prefix:
  assumes "is_latest slot facts f" "prefix facts facts'"
  shows "\<exists>f'. map_of (latest_materialization_by_slot facts') slot = Some f' \<and> progress f \<le> progress f'"
proof -
  have f: "f \<in> set facts'" "mz_slot f = slot" "known_state f"
    using is_latest_in [OF assms(1)] set_mono_prefix [OF assms(2)] by blast+
  then obtain f' where "map_of (latest_materialization_by_slot facts') slot = Some f'"
    using latest_refines [of facts' slot] by (cases "map_of (latest_materialization_by_slot facts') slot") blast+
  with latest_refines [of facts' slot] is_latest_maximal f show ?thesis by metis
qed

text \<open>How far a step has come by the comments: rank and number of the fact kept for it.\<close>

definition slot_progress :: "string list \<Rightarrow> string \<Rightarrow> string \<Rightarrow> nat \<times> nat" where
  "slot_progress comments origin slot =
     (case map_of (latest_materialization_by_slot (wf_materializations (collect_facts comments origin))) slot of
        None \<Rightarrow> (0, 0)
      | Some f \<Rightarrow> progress f)"

lemma slot_progress_mono: "slot_progress comments origin slot \<le> slot_progress (comments @ later) origin slot"
proof (cases "map_of (latest_materialization_by_slot (wf_materializations (collect_facts comments origin))) slot")
  case (Some f)
  have "prefix (wf_materializations (collect_facts comments origin)) (wf_materializations (collect_facts (comments @ later) origin))"
    using collect_facts_grows by (simp add: grows_def)
  with Some latest_prefix latest_refines show ?thesis unfolding slot_progress_def by fastforce
qed (simp add: slot_progress_def less_eq_prod_def)

text \<open>
  C4. Whatever comments follow, a step never falls back to an earlier state, a workflow that is shown stays
  shown, and one that has ended stays ended (in the order of truth values, \<open>\<le>\<close> is implication).
\<close>

theorem workflow_never_moves_back:
  "slot_progress comments origin slot \<le> slot_progress (comments @ later) origin slot
   \<and> (board_fact (collect_facts comments origin) \<noteq> None) \<le> (board_fact (collect_facts (comments @ later) origin) \<noteq> None)
   \<and> (wf_monotonic_terminal (collect_facts comments origin) \<noteq> None)
       \<le> (wf_monotonic_terminal (collect_facts (comments @ later) origin) \<noteq> None)"
proof -
  have "(board_fact facts \<noteq> None) = (wf_blueprint facts \<noteq> None)" for facts
    by (auto simp: board_fact_def Let_def split: option.splits)
  then show ?thesis
    using slot_progress_mono collect_facts_grows [of comments origin later] unfolding grows_def le_bool_def by blast
qed

section \<open>Nothing is shown without a stamp\<close>

text \<open>What a comment must carry for a blueprint to count.\<close>

definition stamped_blueprint :: "string \<Rightarrow> string \<Rightarrow> bool" where
  "stamped_blueprint origin body \<longleftrightarrow>
     (\<exists>dedup. blueprint_dedup_from_comment body origin = Some dedup \<and> has_tail_proxy_stamp body dedup)"

text \<open>A blueprint marker that names the proposal, a workflow and a digest.\<close>

definition blueprint_marker :: "string \<Rightarrow> rematch \<Rightarrow> bool" where
  "blueprint_marker origin m \<longleftrightarrow> group_text m ''1'' = ''blueprint'' \<and>
     (let attrs = parse_attrs (group_text m ''2'') in
      attr_in attrs ''origin'' MAX_ORIGIN_PROPOSAL_ID_BYTES = Some origin
      \<and> attr_in attrs ''workflow'' MAX_WORKFLOW_ID_BYTES \<noteq> None \<and> attr_in attrs ''digest'' MAX_PLAN_DIGEST_BYTES \<noteq> None)"

lemma blueprint_fact_iff:
  "blueprint_fact attrs origin body \<noteq> None \<longleftrightarrow>
     attr_in attrs ''origin'' MAX_ORIGIN_PROPOSAL_ID_BYTES = Some origin
     \<and> attr_in attrs ''workflow'' MAX_WORKFLOW_ID_BYTES \<noteq> None \<and> attr_in attrs ''digest'' MAX_PLAN_DIGEST_BYTES \<noteq> None
     \<and> stamped_blueprint origin body"
  by (auto simp: blueprint_fact_def stamped_blueprint_def split: option.splits)

lemma marker_step_blueprint:
  "wf_blueprint (marker_step origin body (group_text m ''1'') (parse_attrs (group_text m ''2'')) facts) \<noteq> None \<longleftrightarrow>
     wf_blueprint facts \<noteq> None \<or> blueprint_marker origin m \<and> stamped_blueprint origin body"
  using blueprint_fact_iff [of "parse_attrs (group_text m ''2'')" origin body]
  by (auto simp: marker_step_def blueprint_marker_def Let_def split: option.splits)

lemma comment_step_blueprint:
  "wf_blueprint (comment_step origin facts body) \<noteq> None \<longleftrightarrow>
     wf_blueprint facts \<noteq> None \<or> stamped_blueprint origin body \<and> (\<exists>m \<in> set (re_finditer MARKER_RE body). blueprint_marker origin m)"
proof -
  have "wf_blueprint (foldl (\<lambda>facts m. marker_step origin body (group_text m ''1'') (parse_attrs (group_text m ''2'')) facts) facts ms) \<noteq> None
      \<longleftrightarrow> wf_blueprint facts \<noteq> None \<or> stamped_blueprint origin body \<and> (\<exists>m \<in> set ms. blueprint_marker origin m)" for ms
  proof (induction ms arbitrary: facts)
    case (Cons m ms)
    show ?case unfolding foldl.simps Cons.IH marker_step_blueprint by auto
  qed simp
  then show ?thesis unfolding comment_step_def .
qed

lemma collect_blueprint:
  "wf_blueprint (foldl (comment_step origin) facts comments) \<noteq> None \<longleftrightarrow>
     wf_blueprint facts \<noteq> None \<or> (\<exists>body \<in> set comments. stamped_blueprint origin body
       \<and> (\<exists>m \<in> set (re_finditer MARKER_RE body). blueprint_marker origin m))"
proof (induction comments arbitrary: facts)
  case (Cons body comments)
  show ?case unfolding foldl.simps Cons.IH comment_step_blueprint by auto
qed simp

text \<open>
  The board shows a workflow exactly if a comment of the trusted login has a blueprint marker for the
  proposal, an intake decision that tracks it, and at its end the stamp the proxy writes for exactly
  that decision; a marker without the stamp is never enough.
\<close>

theorem workflow_shown_iff:
  "map_option fst (shown_fact comments origin bot_login managed) = Some ''workflow'' \<longleftrightarrow>
     (\<exists>body \<in> set (trusted_comments comments bot_login).
        (\<exists>m \<in> set (re_finditer MARKER_RE body). blueprint_marker origin m)
        \<and> (\<exists>dedup. blueprint_dedup_from_comment body origin = Some dedup \<and> has_tail_proxy_stamp body dedup))"
proof -
  have "map_option fst (shown_fact comments origin bot_login managed) = Some ''workflow'' \<longleftrightarrow>
      wf_blueprint (collect_facts (trusted_comments comments bot_login) origin) \<noteq> None"
    by (auto simp: shown_fact_def board_fact_def Let_def option.map_comp split: option.splits)
  also have "\<dots> \<longleftrightarrow> (\<exists>body \<in> set (trusted_comments comments bot_login). stamped_blueprint origin body
      \<and> (\<exists>m \<in> set (re_finditer MARKER_RE body). blueprint_marker origin m))"
    unfolding collect_facts_def collect_blueprint by (simp add: no_facts_def)
  finally show ?thesis unfolding stamped_blueprint_def by blast
qed

end
