(* ===== verification/LuaLex.thy ===== *)
theory LuaLex
  imports PyRegex
begin

text \<open>
  \<^verbatim>\<open>packages/github-ratchet-migration-slicer/tools/check_repo_lua.py\<close>: the lexical spans (string
  literals and comments) of Lua text, the mask that blanks them out, and the block depth of a line
  of code. Every source checker of the repository reads Lua through this module.

  Shown here: the lexer terminates and its spans are non-empty, in bounds and in order; the
  incremental line counting of \<open>lex\<close> agrees with the direct computation of \<open>_span\<close>; the mask
  keeps length and line breaks, changes exactly the characters inside selected spans, and leaves
  no string and no comment behind.
\<close>

section \<open>Spans\<close>

datatype span_kind = SHORT_STRING | LONG_STRING | LINE_COMMENT | LONG_COMMENT

definition LITERAL_KINDS :: "span_kind set" where
  "LITERAL_KINDS = {SHORT_STRING, LONG_STRING}"

definition COMMENT_KINDS :: "span_kind set" where
  "COMMENT_KINDS = {LINE_COMMENT, LONG_COMMENT}"

definition MASKED_KINDS :: "span_kind set" where
  "MASKED_KINDS = LITERAL_KINDS \<union> COMMENT_KINDS"

record lua_span =
  sp_kind :: span_kind
  sp_start :: nat
  sp_end :: nat
  sp_body_start :: nat
  sp_body_end :: nat
  sp_line :: nat
  sp_body_line :: nat
  sp_end_line :: nat
  sp_terminated :: bool
  sp_delimiter_level :: "nat option"

definition is_literal :: "lua_span \<Rightarrow> bool" where
  "is_literal sp \<longleftrightarrow> sp_kind sp \<in> LITERAL_KINDS"

definition is_comment :: "lua_span \<Rightarrow> bool" where
  "is_comment sp \<longleftrightarrow> sp_kind sp \<in> COMMENT_KINDS"

definition span_content :: "lua_span \<Rightarrow> string \<Rightarrow> string" where
  "span_content sp text = py_slice text (sp_body_start sp) (sp_body_end sp)"

definition line_number :: "string \<Rightarrow> nat \<Rightarrow> nat" where
  "line_number text index = count_char text LF 0 (min index (length text)) + 1"

definition mk_span :: "string \<Rightarrow> span_kind \<Rightarrow> nat \<Rightarrow> nat \<Rightarrow> nat \<Rightarrow> nat \<Rightarrow> bool \<Rightarrow> nat option \<Rightarrow> bool
    \<Rightarrow> lua_span" where
  "mk_span text kind start end' body_start body_end terminated delimiter_level include_line_metadata =
     (let last_index = (if end' \<le> start then start else end' - 1);
          line = (if include_line_metadata then line_number text start else 0);
          body_line = (if include_line_metadata then line_number text body_start else 0);
          end_line = (if include_line_metadata then line_number text last_index else 0)
      in \<lparr>sp_kind = kind, sp_start = start, sp_end = end', sp_body_start = body_start,
          sp_body_end = body_end, sp_line = line, sp_body_line = body_line, sp_end_line = end_line,
          sp_terminated = terminated, sp_delimiter_level = delimiter_level\<rparr>)"

section \<open>Long brackets\<close>

text \<open>The loop that moves the cursor past a run of \<open>=\<close>.\<close>

function skip_equals :: "string \<Rightarrow> nat \<Rightarrow> nat" where
  "skip_equals text cursor =
     (if cursor < length text \<and> text ! cursor = CHR ''='' then skip_equals text (Suc cursor) else cursor)"
  by pat_completeness auto
termination by (relation "measure (\<lambda>(t, c). length t - c)") auto

declare skip_equals.simps [simp del]

definition long_bracket_opener :: "string \<Rightarrow> nat \<Rightarrow> (nat \<times> nat \<times> string) option" where
  "long_bracket_opener text start =
     (if start \<ge> length text \<or> text ! start \<noteq> CHR ''['' then None
      else let cursor = skip_equals text (start + 1) in
        if cursor \<ge> length text \<or> text ! cursor \<noteq> CHR ''['' then None
        else let level = cursor - start - 1; opener_length = cursor - start + 1
             in Some (opener_length, level, '']'' @ replicate level (CHR ''='') @ '']''))"

definition long_bracket_span :: "string \<Rightarrow> nat \<Rightarrow> span_kind \<Rightarrow> bool \<Rightarrow> lua_span option" where
  "long_bracket_span text start kind include_line_metadata =
     (case long_bracket_opener text start of
        None \<Rightarrow> None
      | Some (opener_length, level, closer) \<Rightarrow>
          let body_start = start + opener_length;
              close_start = find_from text closer body_start;
              terminated = (close_start \<noteq> None);
              body_end = (case close_start of None \<Rightarrow> length text | Some k \<Rightarrow> k);
              end' = (case close_start of None \<Rightarrow> length text | Some k \<Rightarrow> k + length closer)
          in Some (mk_span text kind start end' body_start body_end terminated (Some level)
                     include_line_metadata))"

section \<open>Short strings\<close>

text \<open>The loop over the body: the cursor after the string, and whether it was closed.\<close>

function short_string_loop :: "string \<Rightarrow> char \<Rightarrow> nat \<Rightarrow> nat \<times> bool" where
  "short_string_loop text quote cursor =
     (if cursor < length text then
        (if text ! cursor = BSLASH then short_string_loop text quote (min (cursor + 2) (length text))
         else if text ! cursor = quote then (cursor + 1, True)
         else short_string_loop text quote (cursor + 1))
      else (cursor, False))"
  by pat_completeness auto
termination by (relation "measure (\<lambda>(t, q, c). length t - c)") auto

declare short_string_loop.simps [simp del]

definition short_string_span :: "string \<Rightarrow> nat \<Rightarrow> bool \<Rightarrow> lua_span option" where
  "short_string_span text start include_line_metadata =
     (if start \<ge> length text \<or> text ! start \<notin> {SQ, DQ} then None
      else let quote = text ! start;
               (cursor, terminated) = short_string_loop text quote (start + 1);
               body_end = (if terminated then cursor - 1 else length text)
           in Some (mk_span text SHORT_STRING start cursor (start + 1) body_end terminated None
                      include_line_metadata))"

definition literal_span_at :: "string \<Rightarrow> nat \<Rightarrow> bool \<Rightarrow> bool \<Rightarrow> lua_span option" where
  "literal_span_at text start recognize_long_brackets include_line_metadata =
     (case short_string_span text start include_line_metadata of
        Some short \<Rightarrow> Some short
      | None \<Rightarrow>
          if \<not> recognize_long_brackets then None
          else long_bracket_span text start LONG_STRING include_line_metadata)"

section \<open>Comments\<close>

definition comment_span_at :: "string \<Rightarrow> nat \<Rightarrow> bool \<Rightarrow> bool \<Rightarrow> lua_span option" where
  "comment_span_at text start recognize_long_brackets include_line_metadata =
     (if \<not> startswith (drop start text) ''--'' then None
      else
        case (if recognize_long_brackets
              then long_bracket_span text (start + 2) LONG_COMMENT include_line_metadata else None) of
          Some long_comment \<Rightarrow>
            Some (mk_span text LONG_COMMENT start (sp_end long_comment) (sp_body_start long_comment)
                    (sp_body_end long_comment) (sp_terminated long_comment)
                    (sp_delimiter_level long_comment) include_line_metadata)
        | None \<Rightarrow>
            let end' = (case find_from text [LF] start of None \<Rightarrow> length text | Some k \<Rightarrow> k)
            in Some (mk_span text LINE_COMMENT start end' (start + 2) end' True None
                       include_line_metadata))"

section \<open>Every span moves the cursor forward\<close>

lemma skip_equals_ge: "cursor \<le> skip_equals s cursor"
proof (induction s cursor rule: skip_equals.induct)
  case (1 s cursor)
  then show ?case by (subst skip_equals.simps) (auto dest: Suc_leD)
qed

lemma skip_equals_run:
  "cursor \<le> i \<Longrightarrow> i < skip_equals s cursor \<Longrightarrow> i < length s \<and> s ! i = CHR ''=''"
proof (induction s cursor rule: skip_equals.induct)
  case (1 s cursor)
  show ?case
  proof (cases "cursor < length s \<and> s ! cursor = CHR ''=''")
    case True
    with "1.prems" have "i < skip_equals s (Suc cursor)" by (simp add: skip_equals.simps [of s cursor])
    with True "1.prems"(1) "1.IH" [OF True] show ?thesis by (cases "i = cursor") auto
  next
    case False
    with "1.prems" show ?thesis by (simp add: skip_equals.simps [of s cursor])
  qed
qed

lemma short_string_loop_bounds:
  "cursor \<le> length s \<Longrightarrow> short_string_loop s quote cursor = (c', t)
     \<Longrightarrow> cursor \<le> c' \<and> c' \<le> length s \<and> (t \<longrightarrow> cursor < c') \<and> (\<not> t \<longrightarrow> c' = length s)"
proof (induction s quote cursor arbitrary: c' t rule: short_string_loop.induct)
  case (1 s quote cursor)
  show ?case
  proof (cases "cursor < length s")
    case True
    consider (bs) "s ! cursor = BSLASH" | (q) "s ! cursor \<noteq> BSLASH" "s ! cursor = quote"
      | (o) "s ! cursor \<noteq> BSLASH" "s ! cursor \<noteq> quote" by blast
    then show ?thesis
    proof cases
      case bs
      with True "1.prems" have "short_string_loop s quote (min (cursor + 2) (length s)) = (c', t)"
        by (simp add: short_string_loop.simps [of s quote cursor])
      from "1.IH"(1) [OF True bs _ this] True show ?thesis by auto
    next
      case q
      with True "1.prems" show ?thesis by (auto simp: short_string_loop.simps [of s quote cursor])
    next
      case o
      with True "1.prems" have "short_string_loop s quote (cursor + 1) = (c', t)"
        by (simp add: short_string_loop.simps [of s quote cursor])
      from "1.IH"(2) [OF True o _ this] True show ?thesis by auto
    qed
  next
    case False
    with "1.prems" show ?thesis by (auto simp: short_string_loop.simps [of s quote "length s"])
  qed
qed

definition span_wf :: "string \<Rightarrow> lua_span \<Rightarrow> bool" where
  "span_wf s sp \<longleftrightarrow> sp_start sp < sp_body_start sp \<and> sp_body_start sp \<le> sp_body_end sp
     \<and> sp_body_end sp \<le> sp_end sp \<and> sp_end sp \<le> length s"

lemma mk_span_sel [simp]:
  "sp_kind (mk_span s k a e b b' t l m) = k" "sp_start (mk_span s k a e b b' t l m) = a"
  "sp_end (mk_span s k a e b b' t l m) = e" "sp_body_start (mk_span s k a e b b' t l m) = b"
  "sp_body_end (mk_span s k a e b b' t l m) = b'" "sp_terminated (mk_span s k a e b b' t l m) = t"
  "sp_delimiter_level (mk_span s k a e b b' t l m) = l"
  by (simp_all add: mk_span_def Let_def)

lemma long_bracket_opener_Some:
  assumes "long_bracket_opener s start = Some (n, level, closer)"
  shows "start + n \<le> length s" "2 \<le> n" "s ! start = CHR ''[''" "length closer = n"
  using assms skip_equals_ge [of "start + 1" s]
  by (auto simp: long_bracket_opener_def Let_def split: if_splits)

lemma long_bracket_span_wf:
  assumes "long_bracket_span s start kind m = Some sp"
  shows "span_wf s sp" "sp_start sp = start" "sp_kind sp = kind"
proof -
  from assms obtain n level closer where op: "long_bracket_opener s start = Some (n, level, closer)"
    by (auto simp: long_bracket_span_def split: option.splits)
  note o = long_bracket_opener_Some [OF op]
  show "span_wf s sp" "sp_start sp = start" "sp_kind sp = kind"
    using assms op o find_from_Some [of s closer "start + n"]
    by (auto simp: long_bracket_span_def span_wf_def Let_def split: option.splits)
qed

lemma short_string_span_wf:
  assumes "short_string_span s start m = Some sp"
  shows "span_wf s sp" "sp_start sp = start" "sp_kind sp = SHORT_STRING"
proof -
  obtain c t where loop: "short_string_loop s (s ! start) (start + 1) = (c, t)" by fastforce
  from assms have start: "start < length s" by (simp add: short_string_span_def split: if_splits)
  with short_string_loop_bounds [OF _ loop] have "start + 1 \<le> c" "c \<le> length s"
    "t \<longrightarrow> start + 1 < c" "\<not> t \<longrightarrow> c = length s" by auto
  with assms loop start show "span_wf s sp" "sp_start sp = start" "sp_kind sp = SHORT_STRING"
    by (auto simp: short_string_span_def span_wf_def Let_def split: if_splits)
qed

lemma prefix_two: "prefix [a, b] (drop i s) \<longleftrightarrow> i + 1 < length s \<and> s ! i = a \<and> s ! (i + 1) = b"
proof (cases "i + 1 < length s")
  case True
  then have "drop i s = s ! i # s ! (i + 1) # drop (i + 2) s"
    by (metis Cons_nth_drop_Suc Suc_eq_plus1 Suc_lessD add_2_eq_Suc')
  with True show ?thesis by auto
next
  case False
  then show ?thesis by (auto dest: prefix_length_le)
qed

lemma comment_span_at_wf:
  assumes "comment_span_at s start rlb m = Some sp"
  shows "span_wf s sp" "sp_start sp = start" "sp_kind sp \<in> COMMENT_KINDS"
proof -
  from assms have pre: "start + 1 < length s" "s ! start = CHR ''-''" "s ! (start + 1) = CHR ''-''"
    by (auto simp: comment_span_at_def prefix_two split: if_splits)
  define nl where "nl = find_from s [LF] start"
  have nl_ge: "start + 2 \<le> k" if k: "nl = Some k" for k
  proof -
    have "prefix [LF] (drop k s)" "start \<le> k" "k < length s"
      using find_from_Some [of s "[LF]" start k] k by (auto simp: nl_def)
    then have "s ! k = LF" by (auto simp: prefix_def Cons_nth_drop_Suc [symmetric])
    with pre \<open>start \<le> k\<close> have "k \<noteq> start" "k \<noteq> start + 1" by auto
    with \<open>start \<le> k\<close> show ?thesis by simp
  qed
  have nl_le: "k \<le> length s" if "nl = Some k" for k
    using find_from_Some [of s "[LF]" start k] that by (simp add: nl_def)
  let ?lb = "if rlb then long_bracket_span s (start + 2) LONG_COMMENT m else None"
  show "span_wf s sp" "sp_start sp = start" "sp_kind sp \<in> COMMENT_KINDS"
  proof (atomize (full), cases ?lb)
    case None
    with assms pre nl_ge nl_le show "span_wf s sp \<and> sp_start sp = start \<and> sp_kind sp \<in> COMMENT_KINDS"
      unfolding nl_def
      by (auto simp: comment_span_at_def span_wf_def COMMENT_KINDS_def Let_def
               split: option.splits if_splits)
  next
    case (Some lc)
    then have "long_bracket_span s (start + 2) LONG_COMMENT m = Some lc" by (simp split: if_splits)
    from long_bracket_span_wf [OF this] assms Some
    show "span_wf s sp \<and> sp_start sp = start \<and> sp_kind sp \<in> COMMENT_KINDS"
      by (auto simp: comment_span_at_def span_wf_def COMMENT_KINDS_def split: if_splits)
  qed
qed

text \<open>A scan that steps over the literals moves forward.\<close>

lemma literal_span_at_moves:
  assumes "literal_span_at source cursor rlb m = Some literal"
  shows "cursor < sp_end literal" "sp_end literal \<le> length source"
proof -
  from assms have "span_wf source literal \<and> sp_start literal = cursor"
    by (auto simp: literal_span_at_def short_string_span_wf long_bracket_span_wf split: option.splits if_splits)
  then show "cursor < sp_end literal" "sp_end literal \<le> length source" by (auto simp: span_wf_def)
qed

section \<open>The lexer\<close>

definition with_lines :: "string \<Rightarrow> nat \<Rightarrow> lua_span \<Rightarrow> lua_span" where
  "with_lines text current_line sp =
     sp\<lparr>sp_line := current_line,
        sp_body_line := current_line + count_char text LF (sp_start sp) (sp_body_start sp),
        sp_end_line := current_line + count_char text LF (sp_start sp) (max (sp_start sp) (sp_end sp - 1))\<rparr>"

definition lex_comment :: "string \<Rightarrow> bool \<Rightarrow> bool \<Rightarrow> nat \<Rightarrow> lua_span option" where
  "lex_comment text recognize_long_brackets recognize_comments cursor =
     (if recognize_comments \<and> text ! cursor = CHR ''-'' \<and> cursor + 1 < length text
         \<and> text ! (cursor + 1) = CHR ''-''
      then comment_span_at text cursor recognize_long_brackets False else None)"

definition lex_literal :: "string \<Rightarrow> bool \<Rightarrow> nat \<Rightarrow> lua_span option" where
  "lex_literal text recognize_long_brackets cursor =
     (if text ! cursor \<in> {SQ, DQ} then short_string_span text cursor False
      else if recognize_long_brackets \<and> text ! cursor = CHR ''[''
      then long_bracket_span text cursor LONG_STRING False else None)"

definition lex_here :: "string \<Rightarrow> bool \<Rightarrow> bool \<Rightarrow> nat \<Rightarrow> lua_span option" where
  "lex_here text recognize_long_brackets recognize_comments cursor =
     (case lex_comment text recognize_long_brackets recognize_comments cursor of
        Some comment \<Rightarrow> Some comment
      | None \<Rightarrow> lex_literal text recognize_long_brackets cursor)"

lemma lex_here_wf:
  assumes "lex_here s rlb rc cursor = Some sp"
  shows "span_wf s sp" "sp_start sp = cursor"
  using assms comment_span_at_wf long_bracket_span_wf short_string_span_wf
  by (auto simp: lex_here_def lex_comment_def lex_literal_def split: option.splits if_splits)

lemma span_wf_less: "span_wf s sp \<Longrightarrow> sp_start sp < sp_end sp"
  by (auto simp: span_wf_def)

function lex_loop :: "string \<Rightarrow> bool \<Rightarrow> bool \<Rightarrow> nat \<Rightarrow> nat \<Rightarrow> lua_span list" where
  "lex_loop text recognize_long_brackets recognize_comments cursor current_line =
     (if cursor < length text then
        (case lex_here text recognize_long_brackets recognize_comments cursor of
           Some sp \<Rightarrow>
             with_lines text current_line sp #
             lex_loop text recognize_long_brackets recognize_comments (sp_end sp)
               (current_line + count_char text LF (sp_start sp) (sp_end sp))
         | None \<Rightarrow>
             lex_loop text recognize_long_brackets recognize_comments (cursor + 1)
               (if text ! cursor = LF then current_line + 1 else current_line))
      else [])"
  by pat_completeness auto
termination
proof (relation "measure (\<lambda>(s, b, c, i, l). length s - i)")
  fix s b c i l sp
  assume "i < length s" "lex_here s b c i = Some sp"
  with lex_here_wf [of s b c i sp] span_wf_less [of s sp]
  show "((s, b, c, sp_end sp, l + count_char s LF (sp_start sp) (sp_end sp)), s, b, c, i, l)
    \<in> measure (\<lambda>(s, b, c, i, l). length s - i)" by auto
qed auto

declare lex_loop.simps [simp del]

definition lex :: "string \<Rightarrow> bool \<Rightarrow> bool \<Rightarrow> lua_span list" where
  "lex text recognize_long_brackets recognize_comments =
     lex_loop text recognize_long_brackets recognize_comments 0 1"

definition literal_spans :: "string \<Rightarrow> bool \<Rightarrow> bool \<Rightarrow> lua_span list" where
  "literal_spans text recognize_long_brackets recognize_comments =
     filter is_literal (lex text recognize_long_brackets recognize_comments)"

definition comment_spans :: "string \<Rightarrow> bool \<Rightarrow> lua_span list" where
  "comment_spans text recognize_long_brackets = filter is_comment (lex text recognize_long_brackets True)"

section \<open>The mask\<close>

definition mask_range :: "string \<Rightarrow> nat \<Rightarrow> nat \<Rightarrow> string" where
  "mask_range chars a b = fold (\<lambda>i cs. if cs ! i \<noteq> LF then cs[i := CHR '' ''] else cs) [a..<b] chars"

definition code_mask_gen :: "string \<Rightarrow> span_kind set \<Rightarrow> (lua_span \<Rightarrow> bool) option \<Rightarrow> bool \<Rightarrow> bool \<Rightarrow> string" where
  "code_mask_gen text kinds preserve recognize_long_brackets recognize_comments =
     fold (\<lambda>sp chars.
             if sp_kind sp \<notin> kinds \<or> (case preserve of None \<Rightarrow> False | Some p \<Rightarrow> p sp) then chars
             else mask_range chars (sp_start sp) (sp_end sp))
          (lex text recognize_long_brackets recognize_comments) text"

text \<open>The calls the tools make: all kinds, all comments or not, with or without long brackets.\<close>

abbreviation code_mask :: "string \<Rightarrow> string" where
  "code_mask text \<equiv> code_mask_gen text MASKED_KINDS None True True"

abbreviation code_mask_short :: "string \<Rightarrow> string" where
  "code_mask_short text \<equiv> code_mask_gen text MASKED_KINDS None False True"

section \<open>Block depth\<close>

definition LUA_WORD_RE :: regex where
  "LUA_WORD_RE = rseq [RWordB, RIDENT, RWordB]"

primrec header_delta :: "string list \<Rightarrow> int \<Rightarrow> int \<Rightarrow> int" where
  "header_delta [] delta loop_do_tokens = delta"
| "header_delta (token # tokens) delta loop_do_tokens =
     (if token \<in> {''function'', ''if'', ''repeat''} then header_delta tokens (delta + 1) loop_do_tokens
      else if token \<in> {''for'', ''while''} then header_delta tokens (delta + 1) (loop_do_tokens + 1)
      else if token = ''do'' then
        (if loop_do_tokens > 0 then header_delta tokens delta (loop_do_tokens - 1)
         else header_delta tokens (delta + 1) loop_do_tokens)
      else if token \<in> {''end'', ''until''} then header_delta tokens (delta - 1) loop_do_tokens
      else header_delta tokens delta loop_do_tokens)"

primrec body_delta :: "string option \<Rightarrow> string list \<Rightarrow> int \<Rightarrow> int" where
  "body_delta previous [] delta = delta"
| "body_delta previous (token # tokens) delta =
     (if token \<in> {''function'', ''do'', ''repeat''} then body_delta (Some token) tokens (delta + 1)
      else if token = ''then'' \<and> previous \<noteq> Some ''elseif'' then body_delta (Some token) tokens (delta + 1)
      else if token \<in> {''end'', ''until''} then body_delta (Some token) tokens (delta - 1)
      else body_delta (Some token) tokens delta)"

definition block_delta_gen :: "string \<Rightarrow> bool \<Rightarrow> int" where
  "block_delta_gen line count_header_keywords =
     (let tokens = re_findall LUA_WORD_RE line in
      if count_header_keywords then header_delta tokens 0 0 else body_delta None tokens 0)"

abbreviation block_delta :: "string \<Rightarrow> int" where
  "block_delta line \<equiv> block_delta_gen line False"

section \<open>Order and bounds of the spans\<close>

fun spans_from :: "string \<Rightarrow> nat \<Rightarrow> lua_span list \<Rightarrow> bool" where
  "spans_from s i [] = True"
| "spans_from s i (sp # sps) = (i \<le> sp_start sp \<and> span_wf s sp \<and> spans_from s (sp_end sp) sps)"

lemma with_lines_sel [simp]:
  "sp_kind (with_lines s l sp) = sp_kind sp" "sp_start (with_lines s l sp) = sp_start sp"
  "sp_end (with_lines s l sp) = sp_end sp" "sp_body_start (with_lines s l sp) = sp_body_start sp"
  "sp_body_end (with_lines s l sp) = sp_body_end sp" "span_wf s (with_lines s l sp) = span_wf s sp"
  by (simp_all add: with_lines_def span_wf_def)

lemma spans_from_mono: "spans_from s j sps \<Longrightarrow> i \<le> j \<Longrightarrow> spans_from s i sps"
  by (cases sps) auto

lemma lex_loop_spans_from: "spans_from s cursor (lex_loop s rlb rc cursor line)"
proof (induction s rlb rc cursor line rule: lex_loop.induct)
  case (1 s rlb rc cursor line)
  show ?case
  proof (cases "cursor < length s")
    case True
    show ?thesis
    proof (cases "lex_here s rlb rc cursor")
      case None
      with "1.IH"(1) [OF True None] True show ?thesis
        by (auto simp: lex_loop.simps [of s rlb rc cursor] intro: spans_from_mono)
    next
      case (Some sp)
      with "1.IH"(2) [OF True Some] True lex_here_wf [OF Some] show ?thesis
        by (simp add: lex_loop.simps [of s rlb rc cursor])
    qed
  qed (simp add: lex_loop.simps)
qed

lemma spans_from_disjoint:
  "spans_from s i sps \<Longrightarrow> a < b \<Longrightarrow> b < length sps \<Longrightarrow> sp_end (sps ! a) \<le> sp_start (sps ! b)"
proof (induction sps arbitrary: i a b)
  case (Cons sp sps)
  have ge: "spans_from s k sps' \<Longrightarrow> c < length sps' \<Longrightarrow> k \<le> sp_start (sps' ! c)" for k sps' c
  proof (induction sps' arbitrary: k c)
    case (Cons x xs)
    show ?case
    proof (cases c)
      case (Suc d)
      with Cons have "sp_end x \<le> sp_start (xs ! d)" by auto
      moreover have "k \<le> sp_end x" using Cons.prems(1) span_wf_less [of s x] by auto
      ultimately show ?thesis using Suc by simp
    qed (use Cons in auto)
  qed simp
  show ?case
  proof (cases a)
    case 0
    with Cons.prems show ?thesis using ge [of "sp_end sp" sps "b - 1"] by (cases b) auto
  next
    case (Suc a')
    with Cons.prems Cons.IH [of "sp_end sp" a' "b - 1"] show ?thesis by (cases b) auto
  qed
qed simp

lemma spans_from_wf: "spans_from s i sps \<Longrightarrow> sp \<in> set sps \<Longrightarrow> span_wf s sp"
  by (induction s i sps rule: spans_from.induct) auto

section \<open>The line numbers of the lexer\<close>

lemma count_char_split:
  assumes "a \<le> b" "b \<le> c"
  shows "count_char s x a c = count_char s x a b + count_char s x b c"
proof -
  have "py_slice s a c = py_slice s a b @ py_slice s b c"
    using assms take_add [of "b - a" "c - b" "drop a s"] by (simp add: py_slice_def)
  then show ?thesis by (simp add: count_char_def)
qed

lemma count_char_empty [simp]: "count_char s x a a = 0"
  by (simp add: count_char_def py_slice_def)

lemma count_char_Suc: "a < length s \<Longrightarrow> count_char s x a (Suc a) = (if s ! a = x then 1 else 0)"
  by (simp add: count_char_def py_slice_def take_Suc hd_drop_conv_nth)

lemma line_number_add:
  assumes "a \<le> b" "b \<le> length s"
  shows "line_number s b = line_number s a + count_char s LF a b"
  using assms count_char_split [of 0 a b s LF] by (simp add: line_number_def)

lemma with_lines_line_number:
  assumes "span_wf s sp"
  shows "with_lines s (line_number s (sp_start sp)) sp =
    sp\<lparr>sp_line := line_number s (sp_start sp), sp_body_line := line_number s (sp_body_start sp),
       sp_end_line := line_number s (sp_end sp - 1)\<rparr>"
proof -
  from assms have "sp_start sp \<le> sp_end sp - 1" "sp_end sp - 1 \<le> length s"
    "sp_start sp \<le> sp_body_start sp" "sp_body_start sp \<le> length s"
    by (auto simp: span_wf_def)
  then show ?thesis
    using line_number_add [of "sp_start sp" "sp_body_start sp" s]
      line_number_add [of "sp_start sp" "sp_end sp - 1" s]
    by (simp add: with_lines_def max_def)
qed

lemma mk_span_lines:
  assumes "a < e"
  shows "mk_span s k a e b b' t l True =
    (mk_span s k a e b b' t l False)\<lparr>sp_line := line_number s a, sp_body_line := line_number s b,
       sp_end_line := line_number s (e - 1)\<rparr>"
  using assms by (simp add: mk_span_def Let_def)

lemma mk_span_with_lines:
  assumes "span_wf s (mk_span s k a e b b' t l False)"
  shows "mk_span s k a e b b' t l True = with_lines s (line_number s a) (mk_span s k a e b b' t l False)"
  using with_lines_line_number [OF assms] span_wf_less [OF assms] by (simp add: mk_span_lines)

lemma short_string_span_lines:
  assumes "short_string_span s i False = Some sp"
  shows "short_string_span s i True = Some (with_lines s (line_number s i) sp)"
  using assms short_string_span_wf(1) [OF assms]
  by (auto simp: short_string_span_def Let_def mk_span_with_lines split: if_splits prod.splits)

lemma long_bracket_span_lines:
  assumes "long_bracket_span s i k False = Some sp"
  shows "long_bracket_span s i k True = Some (with_lines s (line_number s i) sp)"
  using assms long_bracket_span_wf(1) [OF assms]
  by (auto simp: long_bracket_span_def Let_def mk_span_with_lines split: option.splits prod.splits)

lemma long_bracket_span_lines_option:
  "long_bracket_span s i k True =
     map_option (with_lines s (line_number s i)) (long_bracket_span s i k False)"
proof (cases "long_bracket_span s i k False")
  case None
  then show ?thesis by (auto simp: long_bracket_span_def Let_def split: option.splits)
qed (simp add: long_bracket_span_lines)

lemma with_lines_sel_more [simp]:
  "sp_terminated (with_lines s l sp) = sp_terminated sp"
  "sp_delimiter_level (with_lines s l sp) = sp_delimiter_level sp"
  by (simp_all add: with_lines_def)

lemma comment_span_at_lines:
  assumes "comment_span_at s i rlb False = Some sp"
  shows "comment_span_at s i rlb True = Some (with_lines s (line_number s i) sp)"
  using assms comment_span_at_wf(1) [OF assms]
  by (auto simp: comment_span_at_def Let_def long_bracket_span_lines_option mk_span_with_lines
           split: option.splits if_splits)

lemma comment_literal_exclusive:
  assumes "comment_span_at s i rlb m = Some sp"
  shows "lex_literal s rlb i = None"
  using assms by (auto simp: comment_span_at_def lex_literal_def prefix_two split: if_splits)

lemma lex_here_lines:
  assumes "lex_here s rlb rc i = Some sp" "i < length s"
  shows "comment_span_at s i rlb True = Some (with_lines s (line_number s i) sp)
       \<or> literal_span_at s i rlb True = Some (with_lines s (line_number s i) sp)"
proof (cases "lex_comment s rlb rc i")
  case (Some c)
  with assms(1) have "comment_span_at s i rlb False = Some sp"
    by (auto simp: lex_here_def lex_comment_def split: if_splits)
  then show ?thesis using comment_span_at_lines by blast
next
  case None
  with assms(1) have lit: "lex_literal s rlb i = Some sp" by (simp add: lex_here_def)
  show ?thesis
  proof (cases "s ! i \<in> {SQ, DQ}")
    case True
    with lit have "short_string_span s i False = Some sp" by (simp add: lex_literal_def)
    then show ?thesis using short_string_span_lines by (simp add: literal_span_at_def)
  next
    case False
    with lit have "rlb" "long_bracket_span s i LONG_STRING False = Some sp"
      by (auto simp: lex_literal_def split: if_splits)
    with False show ?thesis
      using long_bracket_span_lines by (simp add: literal_span_at_def short_string_span_def)
  qed
qed

lemma lex_loop_lines:
  "cursor \<le> length s \<Longrightarrow> line = line_number s cursor \<Longrightarrow> sp \<in> set (lex_loop s rlb rc cursor line)
   \<Longrightarrow> comment_span_at s (sp_start sp) rlb True = Some sp \<or> literal_span_at s (sp_start sp) rlb True = Some sp"
proof (induction s rlb rc cursor line rule: lex_loop.induct)
  case (1 s rlb rc cursor line)
  then have cur: "cursor < length s" by (auto simp: lex_loop.simps [of s rlb rc cursor] split: if_splits)
  show ?case
  proof (cases "lex_here s rlb rc cursor")
    case None
    have "line_number s (cursor + 1) = (if s ! cursor = LF then line + 1 else line)"
      using line_number_add [of cursor "cursor + 1" s] cur "1.prems"(2) count_char_Suc [OF cur] by simp
    with "1.IH"(1) [OF cur None] "1.prems"(3) cur None show ?thesis
      by (simp add: lex_loop.simps [of s rlb rc cursor])
  next
    case (Some sp')
    note wf = lex_here_wf [OF Some]
    have le: "cursor \<le> sp_end sp'" "sp_end sp' \<le> length s"
      using wf span_wf_less [OF wf(1)] by (auto simp: span_wf_def)
    have "line_number s (sp_end sp') = line + count_char s LF (sp_start sp') (sp_end sp')"
      using line_number_add [OF le] wf(2) "1.prems"(2) by simp
    then have IH: "sp \<in> set (lex_loop s rlb rc (sp_end sp') (line + count_char s LF (sp_start sp') (sp_end sp')))
      \<Longrightarrow> ?thesis" using "1.IH"(2) [OF cur Some] le by simp
    from "1.prems"(3) cur Some consider "sp = with_lines s line sp'"
      | "sp \<in> set (lex_loop s rlb rc (sp_end sp') (line + count_char s LF (sp_start sp') (sp_end sp')))"
      by (auto simp: lex_loop.simps [of s rlb rc cursor])
    then show ?thesis
      using IH lex_here_lines [OF Some cur] wf(2) "1.prems"(2) by cases auto
  qed
qed

section \<open>Masking\<close>

lemma nth_update_any: "i < length s \<Longrightarrow> s[a := x] ! i = (if a = i then x else s ! i)"
  by (cases "a = i") auto

lemma mask_range_length [simp]: "length (mask_range s a b) = length s"
proof -
  have "length (fold (\<lambda>i cs. if cs ! i \<noteq> LF then cs[i := CHR '' ''] else cs) is s) = length s" for "is"
    by (induction "is" arbitrary: s) auto
  then show ?thesis by (simp add: mask_range_def)
qed

lemma mask_range_nth:
  assumes "i < length s"
  shows "mask_range s a b ! i = (if a \<le> i \<and> i < b \<and> s ! i \<noteq> LF then CHR '' '' else s ! i)"
proof -
  have "fold (\<lambda>i cs. if cs ! i \<noteq> LF then cs[i := CHR '' ''] else cs) is s ! i
      = (if i \<in> set is \<and> s ! i \<noteq> LF then CHR '' '' else s ! i)" if "i < length s" for "is" s
    using that by (induction "is" arbitrary: s) (auto simp: nth_update_any)
  with assms show ?thesis by (auto simp: mask_range_def)
qed

definition span_selected :: "span_kind set \<Rightarrow> (lua_span \<Rightarrow> bool) option \<Rightarrow> lua_span \<Rightarrow> bool" where
  "span_selected kinds preserve sp \<longleftrightarrow>
     sp_kind sp \<in> kinds \<and> (case preserve of None \<Rightarrow> True | Some p \<Rightarrow> \<not> p sp)"

definition in_span :: "lua_span \<Rightarrow> nat \<Rightarrow> bool" where
  "in_span sp i \<longleftrightarrow> sp_start sp \<le> i \<and> i < sp_end sp"

lemma mask_fold_length [simp]:
  "length (fold (\<lambda>sp chars. if P sp then chars else mask_range chars (f sp) (g sp)) sps s) = length s"
  by (induction sps arbitrary: s) auto

lemma mask_fold_nth:
  "i < length s \<Longrightarrow>
   fold (\<lambda>sp chars. if P sp then chars else mask_range chars (f sp) (g sp)) sps s ! i =
     (if (\<exists>sp \<in> set sps. \<not> P sp \<and> f sp \<le> i \<and> i < g sp) \<and> s ! i \<noteq> LF then CHR '' '' else s ! i)"
  by (induction sps arbitrary: s) (auto simp: mask_range_nth)

lemma code_mask_gen_length [simp]: "length (code_mask_gen s kinds pr rlb rc) = length s"
  by (simp add: code_mask_gen_def)

lemma code_mask_gen_nth:
  assumes "i < length s"
  shows "code_mask_gen s kinds pr rlb rc ! i =
    (if (\<exists>sp \<in> set (lex s rlb rc). span_selected kinds pr sp \<and> in_span sp i) \<and> s ! i \<noteq> LF
     then CHR '' '' else s ! i)"
proof -
  have "code_mask_gen s kinds pr rlb rc ! i =
    (if (\<exists>sp \<in> set (lex s rlb rc). \<not> (sp_kind sp \<notin> kinds \<or> (case pr of None \<Rightarrow> False | Some p \<Rightarrow> p sp))
        \<and> sp_start sp \<le> i \<and> i < sp_end sp) \<and> s ! i \<noteq> LF then CHR '' '' else s ! i)"
    unfolding code_mask_gen_def
    using mask_fold_nth [where P = "\<lambda>sp. sp_kind sp \<notin> kinds \<or> (case pr of None \<Rightarrow> False | Some p \<Rightarrow> p sp)"
        and f = sp_start and g = sp_end, OF assms] by blast
  also have "(\<exists>sp \<in> set (lex s rlb rc). \<not> (sp_kind sp \<notin> kinds \<or> (case pr of None \<Rightarrow> False | Some p \<Rightarrow> p sp))
        \<and> sp_start sp \<le> i \<and> i < sp_end sp)
      \<longleftrightarrow> (\<exists>sp \<in> set (lex s rlb rc). span_selected kinds pr sp \<and> in_span sp i)"
    by (auto simp: span_selected_def in_span_def split: option.splits)
  finally show ?thesis .
qed

section \<open>What every client of a mask relies on\<close>

text \<open>
  The source checkers look for a pattern in masked text and report, or cut, at the same offset of
  the original. The contract that makes this right: a mask keeps the length and the line breaks and
  otherwise only blanks characters.
\<close>

lemma count_list_nth_cong:
  "length xs = length ys \<Longrightarrow> (\<And>i. i < length xs \<Longrightarrow> xs ! i = x \<longleftrightarrow> ys ! i = x)
     \<Longrightarrow> count_list xs x = count_list ys x"
proof (induction xs ys rule: list_induct2)
  case (Cons a xs b ys)
  from Cons.prems [of 0] have "a = x \<longleftrightarrow> b = x" by simp
  moreover have "xs ! i = x \<longleftrightarrow> ys ! i = x" if "i < length xs" for i
    using Cons.prems [of "Suc i"] that by simp
  ultimately show ?case using Cons.IH by simp
qed simp

text \<open>
  Blanking keeps the lines of a text whose only line breaks are newlines: the same number of lines,
  each as long as before.
\<close>

abbreviation only_newlines :: "string \<Rightarrow> bool" where
  "only_newlines s \<equiv> list_all (\<lambda>c. is_linebreak c \<longrightarrow> c = LF) s"

definition blanked :: "char \<Rightarrow> char \<Rightarrow> bool" where
  "blanked c d \<longleftrightarrow> d = c \<or> c \<noteq> LF \<and> d = CHR '' ''"

lemma is_linebreak_simps [simp]: "is_linebreak LF" "is_linebreak CR" "\<not> is_linebreak (CHR '' '')"
  by (simp_all add: is_linebreak_def)

lemma splitlines_acc_plain:
  "c \<noteq> CR \<Longrightarrow> splitlines_acc acc (c # cs) =
     (if is_linebreak c then rev acc # splitlines_acc [] cs else splitlines_acc (c # acc) cs)"
  by simp

lemma splitlines_acc_blanked:
  assumes "list_all2 blanked s t" "only_newlines s" "length acc = length acc'"
  shows "list_all2 (\<lambda>a b. length a = length b) (splitlines_acc acc s) (splitlines_acc acc' t)"
  using assms
proof (induction s t arbitrary: acc acc' rule: list_all2_induct)
  case Nil
  then show ?case by (cases acc; cases acc') auto
next
  case (Cons c cs d ds)
  from Cons.prems have "c \<noteq> CR" "is_linebreak c \<longleftrightarrow> c = LF" by auto
  moreover from this Cons.hyps(1) have "d \<noteq> CR" "is_linebreak d \<longleftrightarrow> d = LF" "d = LF \<longleftrightarrow> c = LF"
    by (auto simp: blanked_def)
  moreover have "list_all2 (\<lambda>a b. length a = length b) (splitlines_acc a cs) (splitlines_acc a' ds)"
    if "length a = length a'" for a a'
    using Cons.IH that Cons.prems by simp
  ultimately show ?case using Cons.prems by (simp add: splitlines_acc_plain del: splitlines_acc.simps)
qed

locale blanking_mask =
  fixes mask :: "string \<Rightarrow> string"
  assumes mask_length: "length (mask s) = length s"
    and mask_newline: "i < length s \<Longrightarrow> mask s ! i = LF \<longleftrightarrow> s ! i = LF"
    and mask_blank: "i < length s \<Longrightarrow> mask s ! i = s ! i \<or> mask s ! i = CHR '' ''"
begin

lemma mask_count_newlines: "count_char (mask s) LF a b = count_char s LF a b"
  unfolding count_char_def py_slice_def
  by (rule count_list_nth_cong) (auto simp: mask_length mask_newline)

lemma mask_line_number: "line_number (mask s) i = line_number s i"
  by (simp add: line_number_def mask_count_newlines mask_length)

lemma mask_lines:
  "only_newlines s \<Longrightarrow> list_all2 (\<lambda>a b. length a = length b) (splitlines s) (splitlines (mask s))"
  unfolding splitlines_def
  by (rule splitlines_acc_blanked)
     (use mask_length mask_blank mask_newline in \<open>auto simp: list_all2_conv_all_nth blanked_def\<close>)

lemma mask_visible:
  assumes "i < length s" "mask s ! i \<noteq> CHR '' ''"
  shows "mask s ! i = s ! i"
  using mask_blank assms by blast

end

interpretation lua_mask: blanking_mask "\<lambda>s. code_mask_gen s kinds pr rlb rc" for kinds pr rlb rc
  by unfold_locales (auto simp: code_mask_gen_nth)

section \<open>A masked text holds no string and no comment\<close>

lemma skip_equals_stop:
  "skip_equals s cursor < length s \<Longrightarrow> s ! skip_equals s cursor \<noteq> CHR ''=''"
proof (induction s cursor rule: skip_equals.induct)
  case (1 s cursor)
  then show ?case by (auto simp: skip_equals.simps [of s cursor] split: if_splits)
qed

lemma skip_equals_eqI:
  assumes "cursor \<le> c" "\<And>j. cursor \<le> j \<Longrightarrow> j < c \<Longrightarrow> j < length s \<and> s ! j = CHR ''=''"
    "\<not> (c < length s \<and> s ! c = CHR ''='')"
  shows "skip_equals s cursor = c"
  using assms
proof (induction "c - cursor" arbitrary: cursor)
  case 0
  then show ?case by (auto simp: skip_equals.simps [of s cursor])
next
  case (Suc n)
  then have "cursor < length s \<and> s ! cursor = CHR ''=''" by simp
  moreover have "skip_equals s (Suc cursor) = c"
    using Suc.hyps(2) Suc.prems by (intro Suc.hyps(1)) auto
  ultimately show ?case by (simp add: skip_equals.simps [of s cursor])
qed

lemma long_bracket_opener_iff:
  "long_bracket_opener s i \<noteq> None \<longleftrightarrow>
     (\<exists>c. i < c \<and> c < length s \<and> s ! i = CHR ''['' \<and> s ! c = CHR ''[''
        \<and> (\<forall>j. i < j \<and> j < c \<longrightarrow> s ! j = CHR ''=''))"
proof
  assume "long_bracket_opener s i \<noteq> None"
  then have "s ! i = CHR ''[''" "skip_equals s (i + 1) < length s" "s ! skip_equals s (i + 1) = CHR ''[''"
    by (auto simp: long_bracket_opener_def Let_def split: if_splits)
  with skip_equals_ge [of "i + 1" s] skip_equals_run [of "i + 1" _ s]
  show "\<exists>c. i < c \<and> c < length s \<and> s ! i = CHR ''['' \<and> s ! c = CHR ''[''
        \<and> (\<forall>j. i < j \<and> j < c \<longrightarrow> s ! j = CHR ''='')"
    by (intro exI [of _ "skip_equals s (i + 1)"]) auto
next
  assume "\<exists>c. i < c \<and> c < length s \<and> s ! i = CHR ''['' \<and> s ! c = CHR ''[''
        \<and> (\<forall>j. i < j \<and> j < c \<longrightarrow> s ! j = CHR ''='')"
  then obtain c where c: "i < c" "c < length s" "s ! i = CHR ''[''" "s ! c = CHR ''[''"
    "\<And>j. i < j \<Longrightarrow> j < c \<Longrightarrow> s ! j = CHR ''=''" by blast
  from c have "skip_equals s (i + 1) = c" by (intro skip_equals_eqI) auto
  with c show "long_bracket_opener s i \<noteq> None" by (simp add: long_bracket_opener_def Let_def)
qed

lemma lex_here_None_iff:
  assumes "i < length s"
  shows "lex_here s rlb rc i = None \<longleftrightarrow>
    \<not> (rc \<and> i + 1 < length s \<and> s ! i = CHR ''-'' \<and> s ! (i + 1) = CHR ''-'')
    \<and> s ! i \<notin> {SQ, DQ} \<and> \<not> (rlb \<and> long_bracket_opener s i \<noteq> None)"
proof -
  have "comment_span_at s i rlb False \<noteq> None" if "i + 1 < length s" "s ! i = CHR ''-''" "s ! (i + 1) = CHR ''-''"
    using that by (auto simp: comment_span_at_def prefix_two Let_def split: option.splits)
  moreover have "long_bracket_span s i LONG_STRING False \<noteq> None \<longleftrightarrow> long_bracket_opener s i \<noteq> None"
    by (auto simp: long_bracket_span_def Let_def split: option.splits)
  moreover have "s ! i = CHR ''[''" if "long_bracket_opener s i \<noteq> None"
    using that by (auto dest: long_bracket_opener_Some(3))
  moreover have "short_string_span s i False \<noteq> None" if "s ! i \<in> {SQ, DQ}"
    using that assms by (auto simp: short_string_span_def Let_def split: prod.splits)
  ultimately show ?thesis
    by (auto simp: lex_here_def lex_comment_def lex_literal_def split: option.splits if_splits)
qed

lemma lex_loop_covers:
  "cursor \<le> i \<Longrightarrow> i < length s \<Longrightarrow>
     (\<exists>sp \<in> set (lex_loop s rlb rc cursor line). in_span sp i) \<or> lex_here s rlb rc i = None"
proof (induction s rlb rc cursor line rule: lex_loop.induct)
  case (1 s rlb rc cursor line)
  then have cur: "cursor < length s" by simp
  show ?case
  proof (cases "lex_here s rlb rc cursor")
    case None
    with "1.IH"(1) [OF cur None] "1.prems" cur show ?thesis
      by (cases "i = cursor") (auto simp: lex_loop.simps [of s rlb rc cursor])
  next
    case (Some sp)
    with "1.IH"(2) [OF cur Some] "1.prems" cur lex_here_wf(2) [OF Some] show ?thesis
      by (cases "i < sp_end sp") (auto simp: lex_loop.simps [of s rlb rc cursor] in_span_def)
  qed
qed

lemma lex_loop_Nil:
  "(\<And>i. cursor \<le> i \<Longrightarrow> i < length s \<Longrightarrow> lex_here s rlb rc i = None) \<Longrightarrow> lex_loop s rlb rc cursor line = []"
proof (induction s rlb rc cursor line rule: lex_loop.induct)
  case (1 s rlb rc cursor line)
  then show ?case by (auto simp: lex_loop.simps [of s rlb rc cursor])
qed

lemma all_kinds_selected [simp]: "span_selected MASKED_KINDS None sp"
  by (cases "sp_kind sp")
     (simp_all add: span_selected_def MASKED_KINDS_def LITERAL_KINDS_def COMMENT_KINDS_def)

lemma mask_lex_here_None:
  assumes i: "i < length s" and m_def: "m = code_mask_gen s MASKED_KINDS None rlb rc"
  shows "lex_here m rlb rc i = None"
proof (cases "m ! i = CHR '' '' \<or> m ! i = LF")
  case True
  with i show ?thesis by (auto simp: lex_here_None_iff m_def dest: long_bracket_opener_Some(3))
next
  case False
  have vis: "m ! j = s ! j" if "j < length s" "m ! j \<noteq> CHR '' ''" for j
    using lua_mask.mask_visible that by (simp add: m_def)
  have "\<not> (\<exists>sp \<in> set (lex s rlb rc). in_span sp i)"
    using False i by (auto simp: m_def code_mask_gen_nth split: if_splits)
  with lex_loop_covers [of 0 i s rlb rc 1] i have none: "lex_here s rlb rc i = None"
    by (simp add: lex_def)
  have len: "length m = length s" by (simp add: m_def)
  have op: "long_bracket_opener s i \<noteq> None" if "long_bracket_opener m i \<noteq> None"
  proof -
    from that obtain c where c: "i < c" "c < length m" "m ! i = CHR ''[''" "m ! c = CHR ''[''"
      "\<And>j. i < j \<Longrightarrow> j < c \<Longrightarrow> m ! j = CHR ''=''"
      unfolding long_bracket_opener_iff by blast
    have "s ! i = CHR ''[''" using vis [of i] c(1,2,3) len by simp
    moreover have "s ! c = CHR ''[''" using vis [of c] c(2,4) len by simp
    moreover have "s ! j = CHR ''=''" if "i < j" "j < c" for j
      using vis [of j] c(2) c(5) [OF that] that len by simp
    ultimately show ?thesis using c len unfolding long_bracket_opener_iff by auto
  qed
  have "s ! i = m ! i" using vis i False by simp
  moreover have "s ! (i + 1) = CHR ''-''" if "i + 1 < length s" "m ! (i + 1) = CHR ''-''"
    using vis [of "i + 1"] that by simp
  ultimately show ?thesis
    using none i len op by (auto simp: lex_here_None_iff)
qed

section \<open>Properties of the module\<close>

text \<open>
  The spans that \<open>lex\<close> returns are non-empty, lie inside the text with their bodies inside
  them, and come in the order of the text without overlap, whatever the text and the flags.
\<close>

theorem lex_spans_ordered: "spans_from s 0 (lex s rlb rc)"
  unfolding lex_def by (rule lex_loop_spans_from)

text \<open>
  The line numbers that \<open>lex\<close> keeps incrementally are the ones computed from scratch: every
  span it returns is exactly what \<open>comment_span_at\<close> or \<open>literal_span_at\<close> returns at its start
  with line metadata switched on.
\<close>

theorem lex_line_metadata:
  assumes "sp \<in> set (lex s rlb rc)"
  shows "comment_span_at s (sp_start sp) rlb True = Some sp \<or> literal_span_at s (sp_start sp) rlb True = Some sp"
  using assms unfolding lex_def by (intro lex_loop_lines) (auto simp: line_number_def)

theorem lex_line_metadata_witness:
  "let s = ''x'' @ [LF] @ ''y = 'a' -- c''; sp = hd (lex s True True) in
     sp \<in> set (lex s True True) \<and> sp_line sp = 2 \<and>
     (comment_span_at s (sp_start sp) True True = Some sp \<or> literal_span_at s (sp_start sp) True True = Some sp)"
proof -
  let ?s = "''x'' @ [LF] @ ''y = 'a' -- c''"
  have ne: "lex ?s True True \<noteq> []" and l: "sp_line (hd (lex ?s True True)) = 2" by code_simp+
  from ne have "hd (lex ?s True True) \<in> set (lex ?s True True)" by simp
  from this l lex_line_metadata [OF this] show ?thesis unfolding Let_def by blast
qed

text \<open>
  C16. \<open>code_mask\<close> blanks exactly the characters of the selected, not preserved spans, except line
  breaks; every other character is the one of the text, at the same offset.
\<close>

theorem code_mask_exact:
  "code_mask_gen s kinds pr rlb rc =
     map (\<lambda>i. if (\<exists>sp \<in> set (lex s rlb rc). span_selected kinds pr sp \<and> in_span sp i) \<and> s ! i \<noteq> LF
              then CHR '' '' else s ! i) [0..<length s]"
  by (rule nth_equalityI) (auto simp: code_mask_gen_nth)

text \<open>
  C6. Masking is complete: lexing a masked text, with the flags it was masked with, finds no string
  literal and no comment, so a checker that reads the mask never reads into either.
\<close>

theorem code_mask_complete: "lex (code_mask_gen s MASKED_KINDS None rlb rc) rlb rc = []"
  unfolding lex_def by (rule lex_loop_Nil) (auto intro: mask_lex_here_None)

text \<open>An offset has the same line number in a masked text as in the text itself.\<close>

theorem code_mask_line_number: "line_number (code_mask_gen s kinds pr rlb rc) i = line_number s i"
  by (rule lua_mask.mask_line_number)

end
