(* ===== verification/RatchetBase.thy ===== *)
theory RatchetBase
  imports PyRegex PyJson "HOL-Library.FSet"
begin

text \<open>
  \<^verbatim>\<open>packages/github-ratchet-migration-slicer/tools/ratchet_base.py\<close> and the allowlist helpers of
  \<^verbatim>\<open>scripts/check_repo_config.py\<close>: how a shrink-only ratchet finds the commit it compares against and
  reads a file as of that commit.

  The program \<^verbatim>\<open>git\<close> is a parameter, a function from an argument list to what running it does; the
  environment variables and the files of the host are parameters too. Shown here: a reference is
  only handed to \<^verbatim>\<open>git\<close> when it cannot be read as an option or a range, what is returned is a commit
  that \<^verbatim>\<open>git\<close> verified, and an allowlist is only compared when it was really read at the base.
\<close>

section \<open>The host\<close>

record completed =
  returncode :: int
  stdout :: string

text \<open>A process that could not be started has the \<open>OSError\<close>'s file name and message.\<close>

datatype process = Started completed | NotStarted "string option" string

type_synonym git = "string list \<Rightarrow> process"
type_synonym environ = "string \<Rightarrow> string option"

text \<open>A file of the host: missing, unreadable as UTF-8 text, or its text.\<close>

type_synonym host_file = "string \<Rightarrow> string option"

text \<open>
  A directory tree: its regular files with their paths relative to the root, components separated by
  \<open>/\<close>, each with its text. A directory exists when it holds a file.
\<close>

type_synonym tree = "(string \<times> string) list"

definition tree_read :: "tree \<Rightarrow> string \<Rightarrow> string option" where
  "tree_read t p = map_of t p"

definition path_parts :: "string \<Rightarrow> string list" where
  "path_parts p = split_char (CHR ''/'') p"

definition path_name :: "string \<Rightarrow> string" where
  "path_name p = after_last (CHR ''/'') p"

text \<open>\<open>sorted(dir.rglob("*.lua"))\<close> restricted to files: ordered by path components.\<close>

definition rglob_lua :: "tree \<Rightarrow> string \<Rightarrow> string list" where
  "rglob_lua t dir =
     sort_key path_parts (filter (\<lambda>p. startswith p (dir @ ''/'') \<and> endswith p ''.lua'') (map fst t))"

section \<open>Running git\<close>

definition TOOLCHAIN :: string where "TOOLCHAIN = ''TOOLCHAIN''"
definition INFRASTRUCTURE :: string where "INFRASTRUCTURE = ''INFRASTRUCTURE''"

definition run_git :: "git \<Rightarrow> string list \<Rightarrow> completed result" where
  "run_git git args =
     (let command = ''git '' @ join '' '' args in
      case git args of
        Started result \<Rightarrow> Return result
      | NotStarted filename message \<Rightarrow>
          Raise (GitInvocationFailure (if filename = Some ''git'' then TOOLCHAIN else INFRASTRUCTURE) command))"

definition rev_parse :: "git \<Rightarrow> string \<Rightarrow> string option result" where
  "rev_parse git ref =
     bindR (run_git git [''rev-parse'', ''--verify'', ''--quiet'', ref @ ''^{commit}'']) (\<lambda>result.
       let commit = strip (stdout result) in
       Return (if returncode result = 0 \<and> commit \<noteq> [] then Some commit else None))"

section \<open>References\<close>

fun first_commit :: "git \<Rightarrow> string list \<Rightarrow> string option result" where
  "first_commit git [] = Return None"
| "first_commit git (ref # refs) =
     bindR (rev_parse git ref) (\<lambda>c. case c of Some commit \<Rightarrow> Return (Some commit) | None \<Rightarrow> first_commit git refs)"

definition truthy :: "string option \<Rightarrow> string option" where
  "truthy v = (case v of None \<Rightarrow> None | Some s \<Rightarrow> if s = [] then None else Some s)"

definition resolve_dev_ref :: "environ \<Rightarrow> git \<Rightarrow> string option result" where
  "resolve_dev_ref env git =
     (let refs = (case truthy (env ''FKST_RATCHET_DEV_REF'') of None \<Rightarrow> [] | Some override \<Rightarrow> [override]) @
                 [''refs/remotes/origin/dev'', ''origin/dev'', ''refs/heads/dev'', ''dev'']
      in first_commit git refs)"

definition ref_char :: "char \<Rightarrow> bool" where
  "ref_char c \<longleftrightarrow> is_alnum_ascii c \<or> c \<in> {CHR ''.'', CHR ''_'', CHR ''/'', CHR ''-''}"

text \<open>\<open>[A-Za-z0-9][A-Za-z0-9._/\-]*\Z\<close>\<close>

definition SAFE_REF_RE :: regex where
  "SAFE_REF_RE = rseq [RSet is_alnum_ascii, rstar (RSet ref_char), REos]"

definition safe_ref :: "string \<Rightarrow> bool" where
  "safe_ref ref \<longleftrightarrow> ref \<notin> {'''', ''HEAD''} \<and> \<not> contains ''..'' ref \<and> fullmatches SAFE_REF_RE ref"

fun resolve_ref :: "git \<Rightarrow> string list \<Rightarrow> string option result" where
  "resolve_ref git [] = Return None"
| "resolve_ref git (ref # refs) =
     (if \<not> safe_ref ref then Return None
      else bindR (rev_parse git ref) (\<lambda>c. case c of Some commit \<Rightarrow> Return (Some commit) | None \<Rightarrow> resolve_ref git refs))"

definition resolve_branch_ref :: "git \<Rightarrow> string \<Rightarrow> string option result" where
  "resolve_branch_ref git branch =
     (if \<not> safe_ref branch then Return None
      else resolve_ref git
             [''refs/remotes/origin/'' @ branch, ''origin/'' @ branch, ''refs/heads/'' @ branch, branch])"

definition github_event_before :: "environ \<Rightarrow> host_file \<Rightarrow> string option" where
  "github_event_before env read =
     (case truthy (env ''GITHUB_EVENT_PATH'') of
        None \<Rightarrow> None
      | Some event_path \<Rightarrow>
          (case read event_path of
             None \<Rightarrow> None
           | Some text \<Rightarrow>
               (case json_loads text of
                  Some (JObj event) \<Rightarrow> truthy (as_str (jget event ''before''))
                | _ \<Rightarrow> None)))"

definition resolve_target_ref :: "environ \<Rightarrow> host_file \<Rightarrow> git \<Rightarrow> string option result" where
  "resolve_target_ref env read git =
     (case truthy (env ''FKST_RATCHET_TARGET_REF'') of
        Some override \<Rightarrow> resolve_ref git [override]
      | None \<Rightarrow>
          (case truthy (env ''GITHUB_BASE_REF'') of
             Some github_base \<Rightarrow> resolve_branch_ref git github_base
           | None \<Rightarrow>
               if env ''GITHUB_EVENT_NAME'' = Some ''push'' \<and> env ''GITHUB_REF_TYPE'' = Some ''branch''
               then (case github_event_before env read of
                       Some before \<Rightarrow> resolve_ref git [before]
                     | None \<Rightarrow> Return None)
               else
                 (case truthy (env ''FKST_DEVLOOP_INTEGRATION_BRANCH'') of
                    Some integration_branch \<Rightarrow> resolve_branch_ref git integration_branch
                  | None \<Rightarrow> resolve_dev_ref env git)))"

definition resolve_dev_merge_base :: "environ \<Rightarrow> git \<Rightarrow> string option result" where
  "resolve_dev_merge_base env git =
     bindR (resolve_dev_ref env git) (\<lambda>c. case c of
        None \<Rightarrow> Return None
      | Some commit \<Rightarrow>
          bindR (run_git git [''merge-base'', ''HEAD'', commit]) (\<lambda>result.
            let base = strip (stdout result) in
            Return (if returncode result \<noteq> 0 \<or> base = [] then None else Some base)))"

section \<open>Files of a commit\<close>

definition changed_paths :: "git \<Rightarrow> string \<Rightarrow> string \<Rightarrow> string list option result" where
  "changed_paths git target_commit pathspec =
     bindR (run_git git [''diff'', ''--name-only'', ''--no-renames'', target_commit, ''--'', pathspec]) (\<lambda>tracked.
       if returncode tracked \<noteq> 0 then Return None
       else bindR (run_git git [''ls-files'', ''--others'', ''--exclude-standard'', ''--'', pathspec]) (\<lambda>untracked.
         if returncode untracked \<noteq> 0 then Return None
         else Return (Some (sorted_list_of_set
                (set (filter (\<lambda>line. line \<noteq> []) (splitlines (stdout tracked) @ splitlines (stdout untracked))))))))"

definition show_file_at :: "git \<Rightarrow> string \<Rightarrow> string \<Rightarrow> string option result" where
  "show_file_at git commit path =
     bindR (run_git git [''show'', commit @ '':'' @ path]) (\<lambda>result.
       Return (if returncode result \<noteq> 0 then None else Some (stdout result)))"

datatype base_file = Absent | Unresolved | Present string

definition file_at_commit :: "git \<Rightarrow> string \<Rightarrow> string \<Rightarrow> base_file result" where
  "file_at_commit git commit path =
     bindR (run_git git [''cat-file'', ''-e'', commit @ '':'' @ path]) (\<lambda>exists.
       if returncode exists \<noteq> 0 then Return Absent
       else bindR (show_file_at git commit path) (\<lambda>shown.
         Return (case shown of None \<Rightarrow> Unresolved | Some text \<Rightarrow> Present text)))"

definition file_at_base :: "environ \<Rightarrow> git \<Rightarrow> string \<Rightarrow> base_file result" where
  "file_at_base env git path =
     bindR (resolve_dev_merge_base env git) (\<lambda>c. case c of
        None \<Rightarrow> Return Unresolved
      | Some base_commit \<Rightarrow> file_at_commit git base_commit path)"

section \<open>Allowlists of a working tree and of the base\<close>

text \<open>\<open>check_repo_config.load_allowlist\<close>: a missing file is the empty allowlist.\<close>

definition load_allowlist_with :: "(string list \<Rightarrow> 'a fset result) \<Rightarrow> string option \<Rightarrow> 'a fset result" where
  "load_allowlist_with parse_allowlist_lines file =
     (case file of None \<Rightarrow> Return {||} | Some text \<Rightarrow> parse_allowlist_lines (splitlines text))"

datatype 'a base_allowlist = BaseAbsent | BaseUnresolved | BasePresent 'a

definition base_value :: "'a base_allowlist \<Rightarrow> 'a option" where
  "base_value b = (case b of BasePresent a \<Rightarrow> Some a | _ \<Rightarrow> None)"

text \<open>\<open>check_repo_config.allowlist_at_dev_base\<close> with \<open>catch_errors\<close>: any exception is unresolved.\<close>

definition allowlist_at_dev_base :: "environ \<Rightarrow> git \<Rightarrow> string \<Rightarrow> (string list \<Rightarrow> 'a result) \<Rightarrow> 'a base_allowlist" where
  "allowlist_at_dev_base env git allowlist parse_allowlist_lines =
     (case file_at_base env git allowlist of
        Inl e \<Rightarrow> BaseUnresolved
      | Inr Absent \<Rightarrow> BaseAbsent
      | Inr Unresolved \<Rightarrow> BaseUnresolved
      | Inr (Present shown) \<Rightarrow>
          (case parse_allowlist_lines (splitlines shown) of
             Inl e \<Rightarrow> BaseUnresolved
           | Inr entries \<Rightarrow> BasePresent entries))"

section \<open>What a resolved reference is\<close>

lemma safe_ref_iff:
  "safe_ref ref \<longleftrightarrow> ref \<noteq> ''HEAD'' \<and> \<not> contains ''..'' ref
     \<and> (\<exists>c cs. ref = c # cs \<and> is_alnum_ascii c \<and> list_all ref_char cs)"
proof -
  have "fullmatches SAFE_REF_RE ref \<longleftrightarrow> (\<exists>c cs. ref = c # cs \<and> is_alnum_ascii c \<and> list_all ref_char cs)"
    unfolding fullmatches_iff SAFE_REF_RE_def rseq.simps RSet_seq_to_end seq_REos_to_end star_set_to_end ..
  then show ?thesis by (auto simp: safe_ref_def)
qed

lemma resolve_ref_sound:
  "resolve_ref git refs = Return (Some commit) \<Longrightarrow>
     \<exists>ref \<in> set refs. safe_ref ref \<and> rev_parse git ref = Return (Some commit)"
  by (induction git refs rule: resolve_ref.induct)
     (auto simp: bindR_eq_Inr split: if_splits option.splits)

lemma first_commit_sound:
  "first_commit git refs = Return (Some commit) \<Longrightarrow> \<exists>ref \<in> set refs. rev_parse git ref = Return (Some commit)"
  by (induction git refs rule: first_commit.induct) (auto simp: bindR_eq_Inr split: option.splits)

definition rev_parse_args :: "string \<Rightarrow> string list" where
  "rev_parse_args ref = [''rev-parse'', ''--verify'', ''--quiet'', ref @ ''^{commit}'']"

lemma resolve_ref_cong:
  "(\<And>ref. safe_ref ref \<Longrightarrow> git (rev_parse_args ref) = git' (rev_parse_args ref)) \<Longrightarrow>
     resolve_ref git refs = resolve_ref git' refs"
proof (induction refs)
  case (Cons ref refs)
  then have "rev_parse git ref = rev_parse git' ref" if "safe_ref ref"
    using that by (simp add: rev_parse_def run_git_def rev_parse_args_def)
  with Cons show ?case by (auto intro!: arg_cong2 [of _ _ _ _ bindR] split: option.splits)
qed simp

lemma resolve_branch_ref_sound:
  "resolve_branch_ref git branch = Return (Some commit) \<Longrightarrow>
     \<exists>ref. safe_ref ref \<and> rev_parse git ref = Return (Some commit)"
  by (auto simp: resolve_branch_ref_def simp del: resolve_ref.simps split: if_splits dest!: resolve_ref_sound)

text \<open>The variables that name a target other than the development branch.\<close>

definition target_configured :: "environ \<Rightarrow> bool" where
  "target_configured env \<longleftrightarrow>
     truthy (env ''FKST_RATCHET_TARGET_REF'') \<noteq> None \<or> truthy (env ''GITHUB_BASE_REF'') \<noteq> None
     \<or> env ''GITHUB_EVENT_NAME'' = Some ''push'' \<and> env ''GITHUB_REF_TYPE'' = Some ''branch''
     \<or> truthy (env ''FKST_DEVLOOP_INTEGRATION_BRANCH'') \<noteq> None"

text \<open>
  A reference passes the safety check exactly if it starts with an ASCII letter or digit,
  continues with letters, digits, dots, underscores, slashes and hyphens, has no double dot and is
  not \<open>HEAD\<close>: it can be read neither as an option of git nor as a range.
\<close>

theorem safe_ref_exact:
  "safe_ref ref = (ref \<noteq> ''HEAD'' \<and> \<not> contains ''..'' ref
     \<and> (case ref of [] \<Rightarrow> False | c # cs \<Rightarrow> is_alnum_ascii c \<and> list_all ref_char cs))"
  unfolding safe_ref_iff by (cases ref) auto

text \<open>
  A target commit is always one that git verified, from a safe reference or, when no target is
  configured, from the override or one of the four names of the development branch.
\<close>

theorem resolve_target_ref_verified:
  assumes "resolve_target_ref env read git = Return (Some commit)"
  shows "\<exists>ref. rev_parse git ref = Return (Some commit) \<and>
    (safe_ref ref \<or> \<not> target_configured env \<and>
       (truthy (env ''FKST_RATCHET_DEV_REF'') = Some ref \<or>
        ref \<in> {''refs/remotes/origin/dev'', ''origin/dev'', ''refs/heads/dev'', ''dev''}))"
proof (cases "target_configured env")
  case True
  with assms have "\<exists>ref. safe_ref ref \<and> rev_parse git ref = Return (Some commit)"
    by (auto simp: resolve_target_ref_def target_configured_def simp del: resolve_ref.simps
             split: option.splits if_splits dest!: resolve_ref_sound resolve_branch_ref_sound)
  then show ?thesis by blast
next
  case False
  with assms have "resolve_dev_ref env git = Return (Some commit)"
    by (auto simp: resolve_target_ref_def target_configured_def split: option.splits if_splits)
  with False show ?thesis
    by (auto simp: resolve_dev_ref_def Let_def simp del: first_commit.simps split: option.splits
             dest!: first_commit_sound)
qed

definition demo_git :: git where
  "demo_git args = Started \<lparr>returncode = 0, stdout = ''c0ffee'' @ [LF]\<rparr>"

definition demo_env :: environ where
  "demo_env = [''GITHUB_BASE_REF'' \<mapsto> ''main'']"

theorem resolve_target_ref_verified_witness:
  "resolve_target_ref demo_env (\<lambda>_. None) demo_git = Return (Some ''c0ffee'') \<and>
   (\<exists>ref. rev_parse demo_git ref = Return (Some ''c0ffee'') \<and>
    (safe_ref ref \<or> \<not> target_configured demo_env \<and>
       (truthy (demo_env ''FKST_RATCHET_DEV_REF'') = Some ref \<or>
        ref \<in> {''refs/remotes/origin/dev'', ''origin/dev'', ''refs/heads/dev'', ''dev''})))"
proof -
  have "resolve_target_ref demo_env (\<lambda>_. None) demo_git = Return (Some ''c0ffee'')" by code_simp
  from this resolve_target_ref_verified [OF this] show ?thesis by blast
qed

text \<open>
  With a target configured, git is never run on an unsafe reference: two gits that agree on the
  verification of safe references give the same target.
\<close>

theorem resolve_target_ref_only_safe:
  assumes "target_configured env"
    and "\<And>ref. safe_ref ref \<Longrightarrow> git (rev_parse_args ref) = git' (rev_parse_args ref)"
  shows "resolve_target_ref env read git = resolve_target_ref env read git'"
  using assms(1) resolve_ref_cong [of git git', OF assms(2)]
  by (auto simp: resolve_target_ref_def target_configured_def resolve_branch_ref_def
           simp del: resolve_ref.simps split: option.splits)

theorem resolve_target_ref_only_safe_witness:
  "target_configured demo_env \<and>
   resolve_target_ref demo_env (\<lambda>_. None) demo_git =
   resolve_target_ref demo_env (\<lambda>_. None)
     (\<lambda>args. if \<exists>ref. safe_ref ref \<and> args = rev_parse_args ref then demo_git args else NotStarted None [])"
proof -
  have t: "target_configured demo_env" by code_simp
  show ?thesis using t
    by (intro conjI resolve_target_ref_only_safe) auto
qed

text \<open>
  A base allowlist counts as present only if the merge base was resolved, the file exists in it,
  git showed its text and every line of it parsed; a failure on the way is never an empty allowlist.
\<close>

theorem base_allowlist_present_iff:
  "allowlist_at_dev_base env git path parse = BasePresent entries \<longleftrightarrow>
     (\<exists>base exists shown.
        resolve_dev_merge_base env git = Return (Some base)
      \<and> run_git git [''cat-file'', ''-e'', base @ '':'' @ path] = Return exists \<and> returncode exists = 0
      \<and> run_git git [''show'', base @ '':'' @ path] = Return shown \<and> returncode shown = 0
      \<and> parse (splitlines (stdout shown)) = Return entries)"
proof -
  have show_iff: "show_file_at git base path = Return (Some t) \<longleftrightarrow>
      (\<exists>shown. run_git git [''show'', base @ '':'' @ path] = Return shown \<and> returncode shown = 0 \<and> t = stdout shown)"
    for base t by (auto simp: show_file_at_def bindR_eq_Inr)
  have present_iff: "file_at_base env git path = Return (Present t) \<longleftrightarrow>
      (\<exists>base exists. resolve_dev_merge_base env git = Return (Some base)
        \<and> run_git git [''cat-file'', ''-e'', base @ '':'' @ path] = Return exists \<and> returncode exists = 0
        \<and> show_file_at git base path = Return (Some t))" for t
    by (auto simp: file_at_base_def file_at_commit_def bindR_eq_Inr split: option.splits if_splits)
  have "allowlist_at_dev_base env git path parse = BasePresent entries \<longleftrightarrow>
      (\<exists>t. file_at_base env git path = Return (Present t) \<and> parse (splitlines t) = Return entries)"
    by (auto simp: allowlist_at_dev_base_def split: sum.splits base_file.splits)
  then show ?thesis unfolding present_iff show_iff by blast
qed

end
