(* ===== verification/ShrinkOnly.thy ===== *)
theory ShrinkOnly
  imports RatchetBase "HOL-Library.FSet" "HOL-Library.Multiset"
begin

text \<open>
  The contract that the repository's ratchets share. A ratchet compares the debt found in the tree
  with a checked-in allowlist, and the allowlist with the one at the base commit; it is clean when it
  prints no message. Two laws make it shrink-only: a clean tree has no debt outside its allowlist,
  and a clean allowlist has nothing outside the one of its base. Along any history in which every
  commit was clean against the allowlist before it, debt can then only shrink.

  Each ratchet of the repository interprets this contract on its own \<open>ratchet_messages\<close>.
\<close>

section \<open>Histories\<close>

text \<open>
  A history from a base allowlist: the debt found and the allowlist of every commit, each checked
  against the allowlist of the one before.
\<close>

fun clean_history :: "('c \<Rightarrow> 'a \<Rightarrow> 'a option \<Rightarrow> bool) \<Rightarrow> 'a \<Rightarrow> ('c \<times> 'a) list \<Rightarrow> bool" where
  "clean_history clean base [] = True"
| "clean_history clean base ((c, a) # h) = (clean c a (Some base) \<and> clean_history clean a h)"

locale shrink_only_ratchet =
  fixes clean :: "'c \<Rightarrow> 'a \<Rightarrow> 'a option \<Rightarrow> bool"
    and debt :: "'c \<Rightarrow> 'd"
    and ledger :: "'a \<Rightarrow> 'd"
    and covered :: "'d \<Rightarrow> 'd \<Rightarrow> bool"
  assumes covered_refl: "covered x x"
    and covered_trans: "covered x y \<Longrightarrow> covered y z \<Longrightarrow> covered x z"
    and debt_listed: "clean c a b0 \<Longrightarrow> covered (debt c) (ledger a)"
    and ledger_shrinks: "clean c a (Some b) \<Longrightarrow> covered (ledger a) (ledger b)"
begin

lemma history_step: "clean c a (Some b) \<Longrightarrow> covered (debt c) (ledger b)"
  using debt_listed ledger_shrinks covered_trans by blast

lemma history_ledger: "clean_history clean base h \<Longrightarrow> (c, a) \<in> set h \<Longrightarrow> covered (ledger a) (ledger base)"
proof (induction h arbitrary: base)
  case (Cons x h)
  obtain c' a' where x: "x = (c', a')" by (cases x)
  with Cons.prems(1) have step: "covered (ledger a') (ledger base)" using ledger_shrinks by auto
  show ?case
  proof (cases "(c, a) \<in> set h")
    case True
    with Cons.IH Cons.prems(1) x have "covered (ledger a) (ledger a')" by auto
    then show ?thesis using step covered_trans by blast
  qed (use Cons.prems(2) x step in auto)
qed simp

lemma history_debt: "clean_history clean base h \<Longrightarrow> (c, a) \<in> set h \<Longrightarrow> covered (debt c) (ledger base)"
proof (induction h arbitrary: base)
  case (Cons x h)
  obtain c' a' where x: "x = (c', a')" by (cases x)
  show ?case
  proof (cases "(c, a) \<in> set h")
    case True
    with Cons.IH Cons.prems(1) x have "covered (debt c) (ledger a')" by auto
    moreover from Cons.prems(1) x have "covered (ledger a') (ledger base)" using ledger_shrinks by auto
    ultimately show ?thesis using covered_trans by blast
  qed (use Cons.prems x history_step in auto)
qed simp

lemma history_append:
  "clean_history clean base (h @ h') \<longleftrightarrow>
     clean_history clean base h \<and> clean_history clean (if h = [] then base else snd (last h)) h'"
  by (induction clean base h rule: clean_history.induct) auto

text \<open>Debt found at a later commit was already allowed at every earlier one.\<close>

lemma history_monotone:
  assumes "clean_history clean base (h @ (c, a) # h')" "(c', a') \<in> set h'"
  shows "covered (debt c') (ledger a)" "covered (ledger a') (ledger a)"
proof -
  from assms(1) have "clean_history clean a h'" by (simp add: history_append)
  with assms(2) show "covered (debt c') (ledger a)" "covered (ledger a') (ledger a)"
    using history_debt history_ledger by blast+
qed

end

section \<open>Messages over sorted sets\<close>

text \<open>Most messages are printed per element of a set in sorted order: none exactly if it is empty.\<close>

lemma sorted_list_of_fset_Nil [simp]: "sorted_list_of_fset S = [] \<longleftrightarrow> S = {||}"
  by (metis bot_fset.rep_eq fset_inject set_empty sorted_list_of_fset_simps(1))

lemma fminus_empty [simp]: "A |-| B = {||} \<longleftrightarrow> A |\<subseteq>| B"
  by auto

end
