(* ===== verification/IntegrationCoverage.thy ===== *)
theory IntegrationCoverage
  imports LuaLex ShrinkOnly
begin

text \<open>
  \<^verbatim>\<open>packages/integration-coverage-producer/tools/check_repo_integration_coverage.py\<close>: which queues lead from a
  department of one package to a department of another, which of these edges a run-graph test covers,
  and how the rest is accounted for by an allowlist and by exclusions.

  Shown here: the edges are exactly the pairs of a producer and a consumer of one normalised queue in
  two packages; the check is silent for exactly one allowlist; the report has one line per edge, in
  order, with a status that depends on nothing else, and calls an edge unlisted exactly if the check
  complains about it.
\<close>

section \<open>Departments, edges, exclusions\<close>

definition ALLOWLIST :: string where "ALLOWLIST = ''migration/integration-edge-coverage.allowlist''"
definition EXCLUSIONS :: string where "EXCLUSIONS = ''migration/integration-edge-coverage.exclusions''"
definition HOST_ALLOWLIST :: string where "HOST_ALLOWLIST = ''.fkst/conformance/integration-edge-coverage.allowlist''"
definition HOST_EXCLUSIONS :: string where "HOST_EXCLUSIONS = ''.fkst/conformance/integration-edge-coverage.exclusions''"

text \<open>\<open>(?:\blocal\s+spec|\bM\s*\.\s*spec)\s*=\s*\{\<close>\<close>

definition DEPARTMENT_SPEC_RE :: regex where
  "DEPARTMENT_SPEC_RE = rseq
     [RAlt (rseq [RWordB, rlit ''local'', rplus rspace, rlit ''spec''])
           (rseq [RWordB, rchar (CHR ''M''), rstar rspace, rchar (CHR ''.''), rstar rspace, rlit ''spec'']),
      rstar rspace, rchar (CHR ''=''), rstar rspace, rchar (CHR ''{'')]"

definition field_re :: "string \<Rightarrow> regex" where
  "field_re field = rseq [RWordB, rlit field, rstar rspace, rchar (CHR ''=''), rstar rspace, rchar (CHR ''{'')]"

definition name_char :: "char \<Rightarrow> bool" where
  "name_char c \<longleftrightarrow> is_alnum_ascii c \<or> c \<in> {CHR ''_'', CHR ''.'', CHR ''-''}"

definition rquote :: regex where "rquote = RSet (\<lambda>c. c = DQ \<or> c = SQ)"

definition STRING_RE :: regex where
  "STRING_RE = rseq [RGroup ''quote'' rquote, RGroup ''value'' (rplus (RSet name_char)), RBackref ''quote'']"

definition plain_char :: "char \<Rightarrow> bool" where
  "plain_char c \<longleftrightarrow> c \<noteq> DQ \<and> c \<noteq> SQ \<and> c \<noteq> BSLASH"

text \<open>\<open>(?P<quote>["'])(?P<value>[^"'\\]*(?:\\.[^"'\\]*)*)(?P=quote)\<close>\<close>

definition STRING_LITERAL_RE :: regex where
  "STRING_LITERAL_RE = rseq
     [RGroup ''quote'' rquote,
      RGroup ''value'' (rseq [rstar (RSet plain_char), rstar (rseq [rchar BSLASH, rany, rstar (RSet plain_char)])]),
      RBackref ''quote'']"

definition ASSERT_COVERS_RE :: regex where
  "ASSERT_COVERS_RE = rseq
     [RWordB, rlit ''graph'', rstar rspace, rchar (CHR ''.''), rstar rspace, rlit ''assert_covers'', rstar rspace, rchar (CHR ''('')]"

definition EDGE_RE :: regex where
  "EDGE_RE = rseq
     [RBol, RGroup ''queue'' (rplus (RSet name_char)), rlit '' -> '', RGroup ''consumer_pkg'' (rplus (RSet name_char)),
      rchar (CHR ''.''), RGroup ''consumer_dept'' (rplus (RSet name_char)), REol]"

datatype department_spec =
  DepartmentSpec (ds_package: string) (ds_department: string) (ds_path: string) (ds_root_kind: string)
    (ds_consumes: "string list") (ds_produces: "string list")

definition consumer_id :: "department_spec \<Rightarrow> string" where
  "consumer_id d = ds_package d @ ''.'' @ ds_department d"

datatype edge =
  Edge (e_queue: string) (e_producer_pkg: string) (e_producer_dept: string) (e_consumer_pkg: string)
    (e_consumer_dept: string) (e_owner_scope: string)

definition edge_id :: "edge \<Rightarrow> string" where
  "edge_id e = e_queue e @ '' -> '' @ e_consumer_pkg e @ ''.'' @ e_consumer_dept e"

type_synonym report_line = "(string \<times> string) list"

definition as_report :: "edge \<Rightarrow> string \<Rightarrow> report_line" where
  "as_report e status =
     [(''edge_id'', edge_id e), (''queue'', e_queue e), (''producer_pkg'', e_producer_pkg e),
      (''producer_dept'', e_producer_dept e), (''consumer_pkg'', e_consumer_pkg e),
      (''consumer_dept'', e_consumer_dept e), (''owner_scope'', e_owner_scope e), (''status'', status)]"

record exclusion =
  x_edge :: string
  x_reason :: string
  x_owner :: string
  x_review_by :: string

section \<open>Tables of a Lua source\<close>

definition strip_lua_comments :: "string \<Rightarrow> string" where
  "strip_lua_comments text = code_mask_gen text COMMENT_KINDS None True True"

text \<open>The loops over \<open>masked[open_index:]\<close> with the depth: the index behind the matching bracket.\<close>

fun match_end :: "char \<Rightarrow> char \<Rightarrow> int \<Rightarrow> nat \<Rightarrow> string \<Rightarrow> nat option" where
  "match_end opening closing depth index [] = None"
| "match_end opening closing depth index (c # cs) =
     (if c = opening then match_end opening closing (depth + 1) (Suc index) cs
      else if c = closing then
        (if depth - 1 = 0 then Some (Suc index) else match_end opening closing (depth - 1) (Suc index) cs)
      else match_end opening closing depth (Suc index) cs)"

definition matching_table_end :: "string \<Rightarrow> nat \<Rightarrow> nat option" where
  "matching_table_end masked open_index = match_end (CHR ''{'') (CHR ''}'') 0 open_index (drop open_index masked)"

definition matching_call_end :: "string \<Rightarrow> nat \<Rightarrow> nat" where
  "matching_call_end masked open_index =
     the_default (length masked) (match_end (CHR ''('') (CHR '')'') 0 open_index (drop open_index masked))"

definition table_span :: "regex \<Rightarrow> string \<Rightarrow> nat \<Rightarrow> nat option \<Rightarrow> (nat \<times> nat) option" where
  "table_span pattern masked start limit =
     (case re_search_from pattern (take (the_default (length masked) limit) masked) start of
        None \<Rightarrow> None
      | Some m \<Rightarrow>
          let open_index = m_end m - 1 in
          (case matching_table_end masked open_index of
             None \<Rightarrow> None
           | Some close_index \<Rightarrow>
               (case limit of
                  None \<Rightarrow> Some (open_index, close_index)
                | Some l \<Rightarrow> if l < close_index then None else Some (open_index, close_index))))"

definition code_string_literals :: "string \<Rightarrow> string \<Rightarrow> nat \<Rightarrow> nat \<Rightarrow> string list" where
  "code_string_literals source masked start stop =
     map (\<lambda>m. the_default [] (m_group m ''value''))
       (filter (\<lambda>m. let at = the_default 0 (m_group_start m ''quote'') in masked ! at = source ! at)
          (re_finditer_range STRING_RE source start stop))"

text \<open>\<open>dict.fromkeys\<close> keeps the first of equal values.\<close>

definition spec_field_values :: "string \<Rightarrow> string \<Rightarrow> nat \<times> nat \<Rightarrow> string \<Rightarrow> string list" where
  "spec_field_values source masked spec_span field =
     (case table_span (field_re field) masked (fst spec_span) (Some (snd spec_span)) of
        None \<Rightarrow> []
      | Some (a, b) \<Rightarrow> map fst (dict_of (map (\<lambda>v. (v, ())) (code_string_literals source masked a b))))"

section \<open>Packages\<close>

text \<open>A package directory: the kind and files of its root, the directory it lies in, and its name.\<close>

record package_dir =
  pd_kind :: string
  pd_tree :: tree
  pd_parent :: string
  pd_name :: string

text \<open>\<open>sorted(dir.iterdir())\<close> restricted to directories.\<close>

definition subdirectories :: "tree \<Rightarrow> string \<Rightarrow> string list" where
  "subdirectories tree dir =
     sort (remdups (List.map_filter (\<lambda>p.
        if startswith p (dir @ ''/'') then
          (case path_parts (drop (Suc (length dir)) p) of d # _ # _ \<Rightarrow> Some d | _ \<Rightarrow> None)
        else None) (map fst tree)))"

definition package_dirs_in :: "string \<Rightarrow> tree \<Rightarrow> string \<Rightarrow> package_dir list" where
  "package_dirs_in kind tree parent =
     map (\<lambda>name. \<lparr>pd_kind = kind, pd_tree = tree, pd_parent = parent, pd_name = name\<rparr>) (subdirectories tree parent)"

definition host_package_dirs :: "tree \<Rightarrow> package_dir list" where
  "host_package_dirs root =
     package_dirs_in ''host'' root ''packages'' @ package_dirs_in ''host'' root ''.fkst/local-packages''"

definition department_package_dirs :: "tree \<Rightarrow> tree option \<Rightarrow> package_dir list" where
  "department_package_dirs root platform_root =
     (case platform_root of
        None \<Rightarrow> package_dirs_in ''platform'' root ''packages''
      | Some platform \<Rightarrow> host_package_dirs root @ package_dirs_in ''platform'' platform ''packages'')"

definition package_for_queue :: "string \<Rightarrow> string \<Rightarrow> string" where
  "package_for_queue current_package queue =
     (if CHR ''.'' \<in> set queue then before_sub ''.'' queue else current_package)"

definition normalize_queue :: "string \<Rightarrow> string \<Rightarrow> string" where
  "normalize_queue current_package queue =
     (if CHR ''.'' \<in> set queue then queue else current_package @ ''.'' @ queue)"

text \<open>The path shown for a department; the roots of host and platform are different directories.\<close>

definition department_spec_path :: "package_dir \<Rightarrow> string \<Rightarrow> bool \<Rightarrow> string" where
  "department_spec_path package department host_mode =
     (if host_mode \<and> pd_kind package = ''platform'' then ''platform:packages'' else pd_parent package) @ ''/'' @
     pd_name package @ ''/departments/'' @ department @ ''/main.lua''"

definition department_names :: "package_dir \<Rightarrow> string list" where
  "department_names package =
     filter (\<lambda>d. tree_read (pd_tree package)
                  (pd_parent package @ ''/'' @ pd_name package @ ''/departments/'' @ d @ ''/main.lua'') \<noteq> None)
       (subdirectories (pd_tree package) (pd_parent package @ ''/'' @ pd_name package @ ''/departments''))"

definition department_spec_of :: "bool \<Rightarrow> package_dir \<Rightarrow> string \<Rightarrow> department_spec option" where
  "department_spec_of host_mode package department =
     (let source = the_default [] (tree_read (pd_tree package)
            (pd_parent package @ ''/'' @ pd_name package @ ''/departments/'' @ department @ ''/main.lua''));
          masked = strip_lua_comments source
      in case table_span DEPARTMENT_SPEC_RE masked 0 None of
           None \<Rightarrow> None
         | Some spec_span \<Rightarrow> Some (DepartmentSpec (pd_name package) department
             (department_spec_path package department host_mode) (pd_kind package)
             (spec_field_values source masked spec_span ''consumes'')
             (spec_field_values source masked spec_span ''produces'')))"

text \<open>The set of departments is kept as a list of its elements; nothing below depends on their order.\<close>

definition department_specs :: "tree \<Rightarrow> tree option \<Rightarrow> department_spec list" where
  "department_specs root platform_root =
     remdups (concat (map (\<lambda>package.
        List.map_filter (department_spec_of (platform_root \<noteq> None) package) (department_names package))
       (department_package_dirs root platform_root)))"

section \<open>Edges\<close>

definition edge_owner_scope_for_specs :: "department_spec \<Rightarrow> department_spec \<Rightarrow> string" where
  "edge_owner_scope_for_specs producer consumer =
     (if ds_root_kind producer = ''platform'' \<and> ds_root_kind consumer = ''platform''
      then ''platform-owned'' else ''host-owned'')"

definition edge_owner_scope :: "string \<Rightarrow> string \<Rightarrow> string fset \<Rightarrow> string" where
  "edge_owner_scope producer_pkg consumer_pkg platform_packages =
     (if producer_pkg |\<in>| platform_packages \<and> consumer_pkg |\<in>| platform_packages
      then ''platform-owned'' else ''host-owned'')"

definition producers_by_queue :: "department_spec list \<Rightarrow> (string \<times> department_spec list) list" where
  "producers_by_queue specs =
     foldl (\<lambda>d (queue, s). dmodify queue [] (\<lambda>ss. if s \<in> set ss then ss else ss @ [s]) d) []
       (concat (map (\<lambda>s. map (\<lambda>queue. (normalize_queue (ds_package s) queue, s)) (ds_produces s)) specs))"

definition edge_for :: "string \<Rightarrow> department_spec \<Rightarrow> department_spec \<Rightarrow> edge" where
  "edge_for queue producer consumer =
     Edge queue (ds_package producer) (ds_department producer) (ds_package consumer) (ds_department consumer)
       (edge_owner_scope_for_specs producer consumer)"

definition spec_edges :: "bool \<Rightarrow> department_spec list \<Rightarrow> edge list" where
  "spec_edges host_mode specs =
     (let producers = producers_by_queue specs in
      concat (map (\<lambda>s. concat (map (\<lambda>queue.
          let normalized = normalize_queue (ds_package s) queue in
          map (\<lambda>producer. edge_for normalized producer s)
            (filter (\<lambda>producer. ds_package producer \<noteq> ds_package s \<and>
                \<not> (host_mode \<and> edge_owner_scope_for_specs producer s = ''platform-owned''))
               (dget producers normalized []))) (ds_consumes s))) specs))"

definition cross_package_edge_records :: "tree \<Rightarrow> tree option \<Rightarrow> edge fset" where
  "cross_package_edge_records root platform_root =
     fset_of_list (spec_edges (platform_root \<noteq> None) (department_specs root platform_root))"

definition cross_package_edges :: "tree \<Rightarrow> tree option \<Rightarrow> string fset" where
  "cross_package_edges root platform_root = edge_id |`| cross_package_edge_records root platform_root"

definition run_graph_sources :: "tree \<Rightarrow> tree option \<Rightarrow> string list" where
  "run_graph_sources root platform_root =
     concat (map (\<lambda>package.
        let tests = pd_parent package @ ''/'' @ pd_name package @ ''/tests/'' in
        map snd (filter (\<lambda>(p, source).
           startswith p tests \<and> (let name = drop (length tests) p in
             CHR ''/'' \<notin> set name \<and> startswith name ''run_graph'' \<and> endswith name ''.lua''
             \<and> length ''run_graph.lua'' \<le> length name)) (pd_tree package)))
       (filter (\<lambda>package. \<not> (platform_root \<noteq> None \<and> pd_kind package = ''platform''))
          (department_package_dirs root platform_root)))"

definition source_observed_edges :: "string \<Rightarrow> string list" where
  "source_observed_edges source =
     (let masked = strip_lua_comments source in
      concat (map (\<lambda>m.
         filter (contains '' -> '') (map (\<lambda>s. the_default [] (m_group s ''value''))
           (re_finditer_range STRING_LITERAL_RE source (m_end m) (matching_call_end masked (m_end m - 1)))))
        (re_finditer ASSERT_COVERS_RE masked)))"

definition observed_edges :: "tree \<Rightarrow> tree option \<Rightarrow> string fset" where
  "observed_edges root platform_root =
     fset_of_list (concat (map source_observed_edges (run_graph_sources root platform_root)))"

section \<open>Allowlist and exclusions\<close>

definition load_jsonl_objects :: "json_diag \<Rightarrow> string \<Rightarrow> string option \<Rightarrow> (nat \<times> jobject) list result" where
  "load_jsonl_objects diag label file =
     (case file of
        None \<Rightarrow> Return []
      | Some text \<Rightarrow>
          mapR (\<lambda>(number, line). case json_loads line of
              None \<Rightarrow> Raise (ValueError (''invalid '' @ label @ '' JSON on line '' @ str_int (int number) @ '': '' @
                        diag_msg diag line))
            | Some (JObj item) \<Rightarrow> Return (number, item)
            | Some _ \<Rightarrow> Raise (ValueError (''invalid '' @ label @ '' line '' @ str_int (int number) @
                          '': expected JSON object'')))
            (filter (\<lambda>(number, line). line \<noteq> [] \<and> \<not> startswith line ''#'')
               (enumerate 1 (map strip (splitlines text)))))"

definition edge_field :: "jobject \<Rightarrow> string option" where
  "edge_field item = (case jget item ''edge'' of JStr e \<Rightarrow> if contains '' -> '' e then Some e else None | _ \<Rightarrow> None)"

definition text_field :: "jobject \<Rightarrow> string \<Rightarrow> string option" where
  "text_field item k = (case jget item k of JStr s \<Rightarrow> if strip s = [] then None else Some s | _ \<Rightarrow> None)"

definition line_error :: "string \<Rightarrow> nat \<Rightarrow> string \<Rightarrow> 'a result" where
  "line_error label number what =
     Raise (ValueError (''invalid '' @ label @ '' line '' @ str_int (int number) @ '': '' @ what))"

definition load_allowlist :: "json_diag \<Rightarrow> string option \<Rightarrow> string fset result" where
  "load_allowlist diag file =
     bindR (load_jsonl_objects diag ALLOWLIST file) (\<lambda>objects.
     bindR (mapR (\<lambda>(number, item).
        case edge_field item of
          None \<Rightarrow> line_error ALLOWLIST number ''edge is required''
        | Some e \<Rightarrow> if text_field item ''reason'' = None then line_error ALLOWLIST number ''reason is required'' else Return e)
       objects) (\<lambda>edges. Return (fset_of_list edges)))"

text \<open>\<open>\d{4}-\d{2}-\d{2}\<close>\<close>

definition DATE_RE :: regex where
  "DATE_RE = rseq [rrep 4 rdigit, rchar (CHR ''-''), rrep 2 rdigit, rchar (CHR ''-''), rrep 2 rdigit]"

definition date_field :: "jobject \<Rightarrow> string option" where
  "date_field item = (case jget item ''review_by'' of JStr s \<Rightarrow> if fullmatches DATE_RE s then Some s else None | _ \<Rightarrow> None)"

definition parse_exclusion :: "nat \<times> jobject \<Rightarrow> (string \<times> exclusion) result" where
  "parse_exclusion = (\<lambda>(number, item).
     case edge_field item of None \<Rightarrow> line_error EXCLUSIONS number ''edge is required'' | Some e \<Rightarrow>
     (case text_field item ''reason'' of None \<Rightarrow> line_error EXCLUSIONS number ''reason is required'' | Some reason \<Rightarrow>
     (case text_field item ''owner'' of None \<Rightarrow> line_error EXCLUSIONS number ''owner is required'' | Some owner \<Rightarrow>
     (case date_field item of None \<Rightarrow> line_error EXCLUSIONS number ''review_by is required as YYYY-MM-DD'' | Some review_by \<Rightarrow>
        Return (e, \<lparr>x_edge = e, x_reason = reason, x_owner = owner, x_review_by = review_by\<rparr>)))))"

definition load_exclusions :: "json_diag \<Rightarrow> string option \<Rightarrow> (string \<times> exclusion) list result" where
  "load_exclusions diag file =
     bindR (load_jsonl_objects diag EXCLUSIONS file) (\<lambda>objects.
     bindR (mapR parse_exclusion objects) (\<lambda>entries. Return (dict_of entries)))"

section \<open>Messages and report\<close>

definition excluded_edges :: "(string \<times> exclusion) list \<Rightarrow> string fset" where
  "excluded_edges exclusions = fset_of_list (map fst exclusions)"

definition ratchet_messages ::
    "string fset \<Rightarrow> string fset \<Rightarrow> string fset \<Rightarrow> (string \<times> exclusion) list \<Rightarrow> string list" where
  "ratchet_messages edges observed allowlist exclusions =
     (let excluded = excluded_edges exclusions; uncovered = edges |-| observed in
      map (\<lambda>e. e @ '' is listed in both integration coverage allowlist and exclusions; keep only one'')
          (sorted_list_of_fset (allowlist |\<inter>| excluded)) @
      map (\<lambda>e. ''new uncovered cross-package edge '' @ e @
             '': add a run_graph test covering it (graph.assert_covers), shrink-only ratchet'')
          (sorted_list_of_fset (uncovered |-| allowlist |-| excluded)) @
      map (\<lambda>e. ''stale: remove '' @ e @ '', now covered'') (sorted_list_of_fset (allowlist |\<inter>| observed)) @
      map (\<lambda>e. ''stale: '' @ e @ '' no longer exists'') (sorted_list_of_fset (allowlist |-| edges)) @
      map (\<lambda>e. ''stale: excluded edge '' @ e @ '' no longer exists'') (sorted_list_of_fset (excluded |-| edges)))"

definition parse_edge_id :: "string \<Rightarrow> string \<times> string \<times> string" where
  "parse_edge_id e =
     (case re_match EDGE_RE e of
        None \<Rightarrow> (before_sub '' -> '' e, [], [])
      | Some m \<Rightarrow> (the_default [] (m_group m ''queue''), the_default [] (m_group m ''consumer_pkg''),
                   the_default [] (m_group m ''consumer_dept'')))"

definition edge_status :: "string fset \<Rightarrow> string fset \<Rightarrow> (string \<times> exclusion) list \<Rightarrow> string \<Rightarrow> string" where
  "edge_status observed allowlist exclusions e =
     (if e |\<in>| observed then ''covered''
      else if e |\<in>| allowlist then ''uncovered-allowlisted''
      else if e |\<in>| excluded_edges exclusions then ''excluded''
      else ''uncovered-UNLISTED'')"

text \<open>
  The line of one edge. \<open>records\<close> are the edge records in the order in which the set is iterated: of
  several with one identifier the last is shown.
\<close>

definition edge_line ::
    "string fset \<Rightarrow> string fset \<Rightarrow> (string \<times> exclusion) list \<Rightarrow> string fset \<Rightarrow> edge list \<Rightarrow> string \<Rightarrow> report_line" where
  "edge_line observed allowlist exclusions platform_packages records e =
     (let status = edge_status observed allowlist exclusions e in
      case map_of (dict_of (map (\<lambda>r. (edge_id r, r)) records)) e of
        Some record \<Rightarrow> as_report record status
      | None \<Rightarrow>
          (case parse_edge_id e of (queue, consumer_pkg, consumer_dept) \<Rightarrow>
             let producer_pkg = package_for_queue consumer_pkg queue in
             [(''edge_id'', e), (''queue'', queue), (''producer_pkg'', producer_pkg), (''producer_dept'', []),
              (''consumer_pkg'', consumer_pkg), (''consumer_dept'', consumer_dept),
              (''owner_scope'', edge_owner_scope producer_pkg consumer_pkg platform_packages), (''status'', status)]))"

definition report_for_edges ::
    "string fset \<Rightarrow> string fset \<Rightarrow> string fset \<Rightarrow> (string \<times> exclusion) list \<Rightarrow> string fset \<Rightarrow> edge list \<Rightarrow> report_line list" where
  "report_for_edges edges observed allowlist exclusions platform_packages records =
     map (edge_line observed allowlist exclusions platform_packages records) (sorted_list_of_fset edges)"

definition allowlist_default :: "tree \<Rightarrow> tree option \<Rightarrow> string option" where
  "allowlist_default root platform_root = tree_read root (if platform_root \<noteq> None then HOST_ALLOWLIST else ALLOWLIST)"

definition exclusions_default :: "tree \<Rightarrow> tree option \<Rightarrow> string option" where
  "exclusions_default root platform_root = tree_read root (if platform_root \<noteq> None then HOST_EXCLUSIONS else EXCLUSIONS)"

text \<open>An explicit path is given by what reading it finds; \<open>iter\<close> is the order in which the set of records is iterated.\<close>

definition edge_report ::
    "json_diag \<Rightarrow> (edge fset \<Rightarrow> edge list) \<Rightarrow> tree \<Rightarrow> tree option \<Rightarrow> string option option \<Rightarrow> string option option
     \<Rightarrow> report_line list result" where
  "edge_report diag iter root platform_root allowlist_file exclusions_file =
     (let records = cross_package_edge_records root platform_root;
          platform_packages = fset_of_list (map ds_package
            (filter (\<lambda>s. ds_root_kind s = ''platform'') (department_specs root platform_root)))
      in bindR (load_allowlist diag (the_default (allowlist_default root platform_root) allowlist_file)) (\<lambda>allowlist.
         bindR (load_exclusions diag (the_default (exclusions_default root platform_root) exclusions_file)) (\<lambda>exclusions.
         Return (report_for_edges (edge_id |`| records) (observed_edges root platform_root) allowlist exclusions
           platform_packages (iter records)))))"

definition repository_messages ::
    "json_diag \<Rightarrow> tree \<Rightarrow> tree option \<Rightarrow> string option option \<Rightarrow> string option option \<Rightarrow> string list result" where
  "repository_messages diag root platform_root allowlist_file exclusions_file =
     bindR (load_allowlist diag (the_default (allowlist_default root platform_root) allowlist_file)) (\<lambda>allowlist.
     bindR (load_exclusions diag (the_default (exclusions_default root platform_root) exclusions_file)) (\<lambda>exclusions.
     Return (ratchet_messages (cross_package_edges root platform_root) (observed_edges root platform_root)
       allowlist exclusions)))"

text \<open>
  The command after argument parsing: the exit status, the report printed or written, and the lines on
  the two streams; \<open>dump\<close> is the indented, sorted JSON text of a report.
\<close>

record outcome =
  oc_status :: int
  oc_report :: "string option"
  oc_out :: "string list"
  oc_err :: "string list"

definition run_main ::
    "(report_line list \<Rightarrow> string) \<Rightarrow> json_diag \<Rightarrow> (edge fset \<Rightarrow> edge list) \<Rightarrow> tree \<Rightarrow> tree option \<Rightarrow> string option option
     \<Rightarrow> string option option \<Rightarrow> bool \<Rightarrow> bool \<Rightarrow> outcome result" where
  "run_main dump diag iter root platform_root allowlist_file exclusions_file as_json write_report =
     bindR (edge_report diag iter root platform_root allowlist_file exclusions_file) (\<lambda>report.
     bindR (repository_messages diag root platform_root allowlist_file exclusions_file) (\<lambda>messages.
       let written = (if write_report then Some (dump report @ [LF]) else None);
           printed = (if as_json then [dump report] else []);
           failed = ''integration coverage check failed:'' # map (\<lambda>m. ''  '' @ m) messages
       in Return (if messages \<noteq> [] then
            \<lparr>oc_status = 1, oc_report = written, oc_out = printed @ (if as_json then [] else failed),
             oc_err = (if as_json then failed else [])\<rparr>
          else
            \<lparr>oc_status = 0, oc_report = written,
             oc_out = printed @ (if as_json then [] else [''OK: integration coverage ratchet passed'']), oc_err = []\<rparr>)))"

section \<open>What the edges are\<close>

lemma producers_fold:
  "set (dget (foldl (\<lambda>d (queue, s). dmodify queue [] (\<lambda>ss. if s \<in> set ss then ss else ss @ [s]) d) d xs) queue []) =
     set (dget d queue []) \<union> {s. (queue, s) \<in> set xs}"
proof (induction xs arbitrary: d)
  case (Cons x xs)
  obtain q s where x: "x = (q, s)" by (cases x)
  show ?case unfolding x by (auto simp: Cons.IH dget_dmodify)
qed simp

lemma producers_by_queue_set:
  "set (dget (producers_by_queue specs) queue []) =
     {s \<in> set specs. \<exists>q \<in> set (ds_produces s). queue = normalize_queue (ds_package s) q}"
  unfolding producers_by_queue_def producers_fold by auto

text \<open>
  The edges of a set of departments are exactly the queues that a department of one package produces
  and a department of another consumes, both names read relative to their own package; in host mode
  without those between two platform departments.
\<close>

theorem spec_edges_exact:
  "set (spec_edges host_mode specs) =
     {edge_for (normalize_queue (ds_package consumer) q) producer consumer | producer consumer q q'.
        producer \<in> set specs \<and> consumer \<in> set specs \<and> q \<in> set (ds_consumes consumer) \<and> q' \<in> set (ds_produces producer)
        \<and> normalize_queue (ds_package consumer) q = normalize_queue (ds_package producer) q'
        \<and> ds_package producer \<noteq> ds_package consumer
        \<and> \<not> (host_mode \<and> ds_root_kind producer = ''platform'' \<and> ds_root_kind consumer = ''platform'')}"
proof -
  have scope: "edge_owner_scope_for_specs p c = ''platform-owned'' \<longleftrightarrow>
      ds_root_kind p = ''platform'' \<and> ds_root_kind c = ''platform''" for p c
    by (simp add: edge_owner_scope_for_specs_def)
  show ?thesis
    unfolding spec_edges_def Let_def scope by (auto simp: producers_by_queue_set)
qed

section \<open>When the check is silent\<close>

lemma integration_messages_helper:
  "ratchet_messages edges observed allowlist exclusions = [] \<longleftrightarrow>
     allowlist = edges |-| observed |-| excluded_edges exclusions \<and> excluded_edges exclusions |\<subseteq>| edges"
  by (auto simp: ratchet_messages_def Let_def fset_eq_iff)

text \<open>
  For given edges, tests and exclusions exactly one allowlist passes, the uncovered edges that are not
  excluded, and it passes exactly if every excluded edge exists.
\<close>

theorem integration_messages_iff:
  "ratchet_messages edges observed allowlist exclusions = [] \<longleftrightarrow>
     allowlist = edges |-| observed |-| excluded_edges exclusions \<and> excluded_edges exclusions |\<subseteq>| edges"
  by (rule integration_messages_helper)

section \<open>The report\<close>

lemma edge_line_fields:
  "dget (edge_line observed allowlist exclusions platform_packages records e) ''edge_id'' [] = e"
  "dget (edge_line observed allowlist exclusions platform_packages records e) ''status'' [] =
     edge_status observed allowlist exclusions e"
  by (auto simp: edge_line_def Let_def as_report_def dget_def split: option.splits prod.splits dest!: map_of_dict_ofD)

text \<open>
  The report has one line per cross-package edge, in the order of the edge identifiers; the identifier
  and the status of a line do not depend on the order in which the set of edge records is iterated.
\<close>

theorem report_lines_exact:
  "map (\<lambda>l. (dget l ''edge_id'' [], dget l ''status'' [])) (report_for_edges edges observed allowlist exclusions platform_packages records) =
     map (\<lambda>e. (e, edge_status observed allowlist exclusions e)) (sorted_list_of_fset edges)"
  by (simp add: report_for_edges_def edge_line_fields)

lemma unlisted_iff:
  "edge_status observed allowlist exclusions e = ''uncovered-UNLISTED'' \<longleftrightarrow>
     e |\<notin>| observed \<and> e |\<notin>| allowlist \<and> e |\<notin>| excluded_edges exclusions"
  by (simp add: edge_status_def)

lemma run_main_ok:
  assumes "run_main dump diag iter root platform_root allowlist_file exclusions_file as_json write_report = Return outcome"
    and "oc_status outcome = 0"
  obtains allowlist exclusions where
    "load_allowlist diag (the_default (allowlist_default root platform_root) allowlist_file) = Return allowlist"
    "load_exclusions diag (the_default (exclusions_default root platform_root) exclusions_file) = Return exclusions"
    "ratchet_messages (cross_package_edges root platform_root) (observed_edges root platform_root) allowlist exclusions = []"
    "oc_err outcome = []"
  using assms by (auto simp: run_main_def repository_messages_def Let_def bindR_eq_Inr split: if_splits)



definition sample_tree :: tree where
  "sample_tree =
     [(''packages/a/departments/p/main.lua'', ''M.spec = { produces = { '' @ [DQ] @ ''q'' @ [DQ] @ '' } }''),
      (''packages/b/departments/c/main.lua'', ''M.spec = { consumes = { '' @ [DQ] @ ''a.q'' @ [DQ] @ '' } }''),
      (''packages/b/tests/run_graph_b.lua'', ''graph.assert_covers(r, {'' @ [DQ] @ ''a.q -> b.c'' @ [DQ] @ ''})'')]"

lemma sample_specs:
  "department_specs sample_tree None =
    [DepartmentSpec ''a'' ''p'' ''packages/a/departments/p/main.lua'' ''platform'' [] [''q''],
     DepartmentSpec ''b'' ''c'' ''packages/b/departments/c/main.lua'' ''platform'' [''a.q''] []]"
  by code_simp

lemma sample_observed: "observed_edges sample_tree None = {|''a.q -> b.c''|}"
  by code_simp

lemma sample_records:
  "cross_package_edge_records sample_tree None = {|Edge ''a.q'' ''a'' ''p'' ''b'' ''c'' ''platform-owned''|}"
  unfolding cross_package_edge_records_def sample_specs by code_simp

lemma sample_lists:
  "load_allowlist diag (the_default (allowlist_default sample_tree None) None) = Return {||}"
  "load_exclusions diag (the_default (exclusions_default sample_tree None) None) = Return []"
  by code_simp+



lemma sample_run:
  "run_main (\<lambda>_. ''[]'') diag (\<lambda>_. [Edge ''a.q'' ''a'' ''p'' ''b'' ''c'' ''platform-owned'']) sample_tree None None None False False =
     Return \<lparr>oc_status = 0, oc_report = None, oc_out = [''OK: integration coverage ratchet passed''], oc_err = []\<rparr>"
proof -
  have quiet: "ratchet_messages {|''a.q -> b.c''|} {|''a.q -> b.c''|} {||} [] = []"
    by (simp add: integration_messages_helper excluded_edges_def)
  have ids: "edge_id (Edge ''a.q'' ''a'' ''p'' ''b'' ''c'' ''platform-owned'') = ''a.q -> b.c''"
    by (simp add: edge_id_def)
  show ?thesis
    by (simp add: run_main_def edge_report_def repository_messages_def cross_package_edges_def
        sample_records sample_observed sample_lists [unfolded the_default_simps] sample_specs ids quiet)
qed


end
