(* ===== verification/PyDigest.thy ===== *)
theory PyDigest
  imports PyPrelude "HOL-Library.Word"
begin

text \<open>
  The two digests of Python's \<^verbatim>\<open>hashlib\<close> that the tools use, SHA-256 and MD5, on lists of bytes, with
  32-bit machine words. What the tools rely on is the shape of a hexadecimal digest: its length is
  fixed and its characters are lower-case hexadecimal digits.
\<close>

unbundle bit_operations_syntax

type_synonym u32 = "32 word"

section \<open>Padding and words\<close>

definition be_word :: "nat list \<Rightarrow> u32" where
  "be_word bs = of_nat (foldl (\<lambda>a b. a * 256 + b) 0 bs)"

definition be_bytes :: "nat \<Rightarrow> nat \<Rightarrow> nat list" where
  "be_bytes k n = map (\<lambda>i. n div 256 ^ (k - 1 - i) mod 256) [0..<k]"

fun chunks :: "nat \<Rightarrow> nat \<Rightarrow> 'a list \<Rightarrow> 'a list list" where
  "chunks 0 k xs = []"
| "chunks (Suc n) k xs = take k xs # chunks n k (drop k xs)"

text \<open>The message, a one bit, zeros, and the length in bits in eight bytes (in the given order).\<close>

definition pad_with :: "(nat list \<Rightarrow> nat list) \<Rightarrow> nat list \<Rightarrow> nat list" where
  "pad_with order bs =
     (let n = length bs; z = (119 - n mod 64) mod 64
      in bs @ [128] @ replicate z 0 @ order (be_bytes 8 ((8 * n) mod 2 ^ 64)))"

section \<open>SHA-256\<close>

definition sha256_K :: "u32 list" where
  "sha256_K = [
     0x428A2F98, 0x71374491, 0xB5C0FBCF, 0xE9B5DBA5, 0x3956C25B, 0x59F111F1,
     0x923F82A4, 0xAB1C5ED5, 0xD807AA98, 0x12835B01, 0x243185BE, 0x550C7DC3,
     0x72BE5D74, 0x80DEB1FE, 0x9BDC06A7, 0xC19BF174, 0xE49B69C1, 0xEFBE4786,
     0x0FC19DC6, 0x240CA1CC, 0x2DE92C6F, 0x4A7484AA, 0x5CB0A9DC, 0x76F988DA,
     0x983E5152, 0xA831C66D, 0xB00327C8, 0xBF597FC7, 0xC6E00BF3, 0xD5A79147,
     0x06CA6351, 0x14292967, 0x27B70A85, 0x2E1B2138, 0x4D2C6DFC, 0x53380D13,
     0x650A7354, 0x766A0ABB, 0x81C2C92E, 0x92722C85, 0xA2BFE8A1, 0xA81A664B,
     0xC24B8B70, 0xC76C51A3, 0xD192E819, 0xD6990624, 0xF40E3585, 0x106AA070,
     0x19A4C116, 0x1E376C08, 0x2748774C, 0x34B0BCB5, 0x391C0CB3, 0x4ED8AA4A,
     0x5B9CCA4F, 0x682E6FF3, 0x748F82EE, 0x78A5636F, 0x84C87814, 0x8CC70208,
     0x90BEFFFA, 0xA4506CEB, 0xBEF9A3F7, 0xC67178F2]"

definition sha256_H :: "u32 list" where
  "sha256_H = [
     0x6A09E667, 0xBB67AE85, 0x3C6EF372, 0xA54FF53A, 0x510E527F, 0x9B05688C,
     0x1F83D9AB, 0x5BE0CD19]"

definition ssig0 :: "u32 \<Rightarrow> u32" where
  "ssig0 x = word_rotr 7 x XOR word_rotr 18 x XOR drop_bit 3 x"

definition ssig1 :: "u32 \<Rightarrow> u32" where
  "ssig1 x = word_rotr 17 x XOR word_rotr 19 x XOR drop_bit 10 x"

definition bsig0 :: "u32 \<Rightarrow> u32" where
  "bsig0 x = word_rotr 2 x XOR word_rotr 13 x XOR word_rotr 22 x"

definition bsig1 :: "u32 \<Rightarrow> u32" where
  "bsig1 x = word_rotr 6 x XOR word_rotr 11 x XOR word_rotr 25 x"

text \<open>The message schedule, kept in reverse: the latest word is at the head.\<close>

fun sha256_extend :: "nat \<Rightarrow> u32 list \<Rightarrow> u32 list" where
  "sha256_extend 0 r = r"
| "sha256_extend (Suc n) r =
     sha256_extend n ((ssig1 (r ! 1) + r ! 6 + ssig0 (r ! 14) + r ! 15) # r)"

type_synonym sha_state = "u32 \<times> u32 \<times> u32 \<times> u32 \<times> u32 \<times> u32 \<times> u32 \<times> u32"

definition sha256_round :: "sha_state \<Rightarrow> u32 \<Rightarrow> u32 \<Rightarrow> sha_state" where
  "sha256_round st k w =
     (case st of (a, b, c, d, e, f, g, h) \<Rightarrow>
        let t1 = h + bsig1 e + ((e AND f) XOR (NOT e AND g)) + k + w;
            t2 = bsig0 a + ((a AND b) XOR (a AND c) XOR (b AND c))
        in (t1 + t2, a, b, c, d + t1, e, f, g))"

fun sha256_rounds :: "u32 list \<Rightarrow> u32 list \<Rightarrow> sha_state \<Rightarrow> sha_state" where
  "sha256_rounds (k # ks) (w # ws) st = sha256_rounds ks ws (sha256_round st k w)"
| "sha256_rounds _ _ st = st"

fun list_state :: "u32 list \<Rightarrow> sha_state" where
  "list_state [a, b, c, d, e, f, g, h] = (a, b, c, d, e, f, g, h)"
| "list_state _ = (0, 0, 0, 0, 0, 0, 0, 0)"

definition state_list :: "sha_state \<Rightarrow> u32 list" where
  "state_list st = (case st of (a, b, c, d, e, f, g, h) \<Rightarrow> [a, b, c, d, e, f, g, h])"

definition sha256_block :: "sha_state \<Rightarrow> nat list \<Rightarrow> sha_state" where
  "sha256_block st block =
     (let ws = rev (sha256_extend 48 (rev (map be_word (chunks 16 4 block))));
          st' = sha256_rounds sha256_K ws st
      in list_state (map2 (+) (state_list st) (state_list st')))"

definition sha256_words :: "nat list \<Rightarrow> u32 list" where
  "sha256_words bs =
     (let m = pad_with id bs
      in state_list (foldl sha256_block (list_state sha256_H) (chunks (length m div 64) 64 m)))"

section \<open>MD5\<close>

definition md5_K :: "u32 list" where
  "md5_K = [
     0xD76AA478, 0xE8C7B756, 0x242070DB, 0xC1BDCEEE, 0xF57C0FAF, 0x4787C62A,
     0xA8304613, 0xFD469501, 0x698098D8, 0x8B44F7AF, 0xFFFF5BB1, 0x895CD7BE,
     0x6B901122, 0xFD987193, 0xA679438E, 0x49B40821, 0xF61E2562, 0xC040B340,
     0x265E5A51, 0xE9B6C7AA, 0xD62F105D, 0x02441453, 0xD8A1E681, 0xE7D3FBC8,
     0x21E1CDE6, 0xC33707D6, 0xF4D50D87, 0x455A14ED, 0xA9E3E905, 0xFCEFA3F8,
     0x676F02D9, 0x8D2A4C8A, 0xFFFA3942, 0x8771F681, 0x6D9D6122, 0xFDE5380C,
     0xA4BEEA44, 0x4BDECFA9, 0xF6BB4B60, 0xBEBFBC70, 0x289B7EC6, 0xEAA127FA,
     0xD4EF3085, 0x04881D05, 0xD9D4D039, 0xE6DB99E5, 0x1FA27CF8, 0xC4AC5665,
     0xF4292244, 0x432AFF97, 0xAB9423A7, 0xFC93A039, 0x655B59C3, 0x8F0CCC92,
     0xFFEFF47D, 0x85845DD1, 0x6FA87E4F, 0xFE2CE6E0, 0xA3014314, 0x4E0811A1,
     0xF7537E82, 0xBD3AF235, 0x2AD7D2BB, 0xEB86D391]"

definition md5_S :: "nat list" where
  "md5_S = [7, 12, 17, 22, 7, 12, 17, 22, 7, 12, 17, 22, 7, 12, 17, 22,
     5, 9, 14, 20, 5, 9, 14, 20, 5, 9, 14, 20, 5, 9, 14, 20,
     4, 11, 16, 23, 4, 11, 16, 23, 4, 11, 16, 23, 4, 11, 16, 23,
     6, 10, 15, 21, 6, 10, 15, 21, 6, 10, 15, 21, 6, 10, 15, 21]"

type_synonym md5_state = "u32 \<times> u32 \<times> u32 \<times> u32"

definition md5_round :: "u32 list \<Rightarrow> md5_state \<Rightarrow> nat \<Rightarrow> md5_state" where
  "md5_round ws st i =
     (case st of (a, b, c, d) \<Rightarrow>
        let fg = (if i < 16 then ((b AND c) OR (NOT b AND d), i)
                  else if i < 32 then ((d AND b) OR (NOT d AND c), (5 * i + 1) mod 16)
                  else if i < 48 then (b XOR c XOR d, (3 * i + 5) mod 16)
                  else (c XOR (b OR NOT d), (7 * i) mod 16));
            f = fst fg + a + md5_K ! i + ws ! snd fg
        in (d, b + word_rotl (md5_S ! i) f, b, c))"

definition md5_block :: "md5_state \<Rightarrow> nat list \<Rightarrow> md5_state" where
  "md5_block st block =
     (let ws = map (\<lambda>bs. be_word (rev bs)) (chunks 16 4 block)
      in case (st, foldl (md5_round ws) st [0..<64]) of
           ((a, b, c, d), (a', b', c', d')) \<Rightarrow> (a + a', b + b', c + c', d + d'))"

definition md5_state_of :: "nat list \<Rightarrow> md5_state" where
  "md5_state_of bs =
     (let m = pad_with rev bs
      in foldl md5_block (0x67452301, 0xEFCDAB89, 0x98BADCFE, 0x10325476) (chunks (length m div 64) 64 m))"

section \<open>Hexadecimal digests\<close>

definition hex_nibble :: "nat \<Rightarrow> char" where
  "hex_nibble n = ''0123456789abcdef'' ! (n mod 16)"

definition hex_byte :: "nat \<Rightarrow> string" where
  "hex_byte b = [hex_nibble (b div 16), hex_nibble b]"

definition hex_bytes :: "nat list \<Rightarrow> string" where
  "hex_bytes bs = concat (map hex_byte bs)"

text \<open>\<open>hashlib.sha256(b).hexdigest()\<close> and \<open>hashlib.md5(b).hexdigest()\<close>\<close>

definition sha256_hex :: "nat list \<Rightarrow> string" where
  "sha256_hex bs = hex_bytes (concat (map (\<lambda>w. be_bytes 4 (unat w)) (sha256_words bs)))"

definition md5_hex :: "nat list \<Rightarrow> string" where
  "md5_hex bs =
     (case md5_state_of bs of (a, b, c, d) \<Rightarrow>
        hex_bytes (concat (map (\<lambda>w. rev (be_bytes 4 (unat w))) [a, b, c, d])))"

definition is_hex_char :: "char \<Rightarrow> bool" where
  "is_hex_char c \<longleftrightarrow> is_decimal c \<or> (97 \<le> ord c \<and> ord c \<le> 102)"

lemma hex_nibble_is_hex: "is_hex_char (hex_nibble n)"
proof -
  have "\<forall>k < 16. is_hex_char (''0123456789abcdef'' ! k)"
    by (simp add: All_less_Suc numeral_eq_Suc is_hex_char_def is_decimal_def)
  then show ?thesis by (simp add: hex_nibble_def)
qed

lemma hex_bytes_shape: "length (hex_bytes bs) = 2 * length bs" "list_all is_hex_char (hex_bytes bs)"
  by (induction bs) (simp_all add: hex_bytes_def hex_byte_def hex_nibble_is_hex)

lemma state_list_length [simp]: "length (state_list st) = 8"
  by (simp add: state_list_def split: prod.split)

lemma sum_list_const: "(\<And>x. x \<in> set xs \<Longrightarrow> length (f x) = k) \<Longrightarrow> length (concat (map f xs)) = k * length xs"
  by (induction xs) auto

lemma sha256_hex_shape: "length (sha256_hex bs) = 64" "list_all is_hex_char (sha256_hex bs)"
proof -
  have "length (concat (map (\<lambda>w. be_bytes 4 (unat (w :: u32))) (sha256_words bs))) = 4 * length (sha256_words bs)"
    by (rule sum_list_const) (simp add: be_bytes_def)
  then show "length (sha256_hex bs) = 64"
    by (simp add: sha256_hex_def hex_bytes_shape sha256_words_def Let_def)
  show "list_all is_hex_char (sha256_hex bs)" by (simp add: sha256_hex_def hex_bytes_shape)
qed

lemma md5_hex_shape: "length (md5_hex bs) = 32" "list_all is_hex_char (md5_hex bs)"
  by (auto simp: md5_hex_def hex_bytes_shape be_bytes_def split: prod.splits)

end
