(* ===== verification/CoverageRatchet.thy ===== *)
theory CoverageRatchet
  imports PyDigest ShrinkOnly
begin

text \<open>
  \<^verbatim>\<open>scripts/check_repo_coverage.py\<close>: the shrink-only ratchet over uncovered production Lua lines. The
  coverage artifacts that the engine writes are read into covered lines, candidate lines of the
  sources that are not covered become keys (file, line, hash of the normalised line), and the keys are
  compared with an allowlist and its version at the base, counting keys by file and hash.

  Shown here: the number of messages is the size of the excess of one multiset over another, so that
  moving lines changes nothing; a written baseline is read back as the same keys and passes; which
  lines are reported; when the gate blocks and when it only warns.
\<close>

section \<open>Keys and lines\<close>

definition ALLOWLIST :: string where "ALLOWLIST = ''migration/coverage-uncovered.allowlist''"
definition REQUIRED_FLAG :: string where "REQUIRED_FLAG = ''migration/coverage-uncovered.required''"
definition DEFAULT_ARTIFACTS :: "string list" where
  "DEFAULT_ARTIFACTS = [''.fkst/run/lua-coverage/coverage.json'', ''.fkst/run/coverage.json'']"



text \<open>\<open>[0-9a-f]{8,128}\<close>\<close>

definition HASH_RE :: regex where
  "HASH_RE = RSeq (rrep 8 (RSet is_hex_char)) (ropts 120 (RSet is_hex_char))"

text \<open>\<open>[A-Za-z0-9][A-Za-z0-9._/\-]*\<close>\<close>

definition BASE_REF_RE :: regex where
  "BASE_REF_RE = RSeq (RSet is_alnum_ascii) (rstar (RSet ref_char))"

definition LUA_KEYWORDS :: "string list" where
  "LUA_KEYWORDS =
     [''and'', ''break'', ''do'', ''else'', ''elseif'', ''end'', ''false'', ''for'', ''function'',
      ''goto'', ''if'', ''in'', ''local'', ''nil'', ''not'', ''or'', ''repeat'', ''return'', ''then'',
      ''true'', ''until'', ''while'']"

definition LUA_NAME_RE :: regex where
  "LUA_NAME_RE = RSeq RIDENT (rstar (RSeq (RSet (\<lambda>c. c = CHR ''.'' \<or> c = CHR '':'')) RIDENT))"

definition closing_delimiter :: "char \<Rightarrow> bool" where
  "closing_delimiter c \<longleftrightarrow> c \<in> {CHR '')'', CHR '']'', CHR ''}'', CHR '',''}"

text \<open>\<open>^[)\]\},\s]+$\<close>\<close>

definition CLOSING_DELIMITER_ONLY_RE :: regex where
  "CLOSING_DELIMITER_ONLY_RE = rseq [RBol, rplus (RSet (\<lambda>c. closing_delimiter c \<or> is_space c)), REol]"

definition PURE_FUNCTION_SIGNATURE_RE :: regex where
  "PURE_FUNCTION_SIGNATURE_RE = rseq
     [RBol,
      ralt [rseq [rlit ''local function '', LUA_NAME_RE],
            rseq [rlit ''function '', LUA_NAME_RE],
            rseq [rlit ''local '', LUA_NAME_RE, rstar rspace, rchar (CHR ''=''), rstar rspace, rlit ''function''],
            rseq [LUA_NAME_RE, rstar rspace, rchar (CHR ''=''), rstar rspace, rlit ''function''],
            rlit ''return function'',
            rlit ''function''],
      rstar rspace, rchar (CHR ''(''), rstar (RSet (\<lambda>c. c \<noteq> CHR '')'')), rchar (CHR '')''), REol]"

datatype coverage_key = CoverageKey (ck_file: string) (ck_line: int) (ck_hash: string)

definition key_tuple :: "coverage_key \<Rightarrow> string \<times> int \<times> string" where
  "key_tuple k = (ck_file k, ck_line k, ck_hash k)"

lemma key_tuple_inject [simp]: "key_tuple x = key_tuple y \<longleftrightarrow> x = y"
  by (cases x; cases y) (simp add: key_tuple_def)

instantiation coverage_key :: linorder
begin

definition less_eq_coverage_key :: "coverage_key \<Rightarrow> coverage_key \<Rightarrow> bool" where
  "less_eq_coverage_key x y \<longleftrightarrow> key_tuple x \<le> key_tuple y"

definition less_coverage_key :: "coverage_key \<Rightarrow> coverage_key \<Rightarrow> bool" where
  "less_coverage_key x y \<longleftrightarrow> key_tuple x < key_tuple y"

instance
  by standard (auto simp: less_eq_coverage_key_def less_coverage_key_def simp flip: key_tuple_inject)

end

definition key_label :: "coverage_key \<Rightarrow> string" where
  "key_label k = ck_file k @ '':'' @ str_int (ck_line k) @ '' '' @ ck_hash k"

record uncovered_line =
  ul_key :: coverage_key
  ul_text :: string

definition line_label :: "uncovered_line \<Rightarrow> string" where
  "line_label u = ck_file (ul_key u) @ '':'' @ str_int (ck_line (ul_key u)) @ '':'' @ ul_text u"

type_synonym uncovered = "(coverage_key \<times> uncovered_line) list"

definition is_production_lua_path :: "string \<Rightarrow> bool" where
  "is_production_lua_path path =
     (if \<not> endswith path ''.lua'' then False
      else if \<not> (startswith path ''packages/'' \<or> startswith path ''libraries/forge/'' \<or> startswith path ''libraries/'')
      then False
      else if ''tests'' \<in> set (split_char (CHR ''/'') path) then False
      else \<not> (endswith path ''_test.lua'' \<or> endswith path ''_helpers.lua'' \<or> endswith path ''_fake.lua''))"

definition parse_positive_int :: "json \<Rightarrow> string \<Rightarrow> int result" where
  "parse_positive_int value context =
     (let bad = ValueError (context @ '' must be a positive integer'') in
      case value of
        JBool b \<Rightarrow> Raise bad
      | _ \<Rightarrow>
          (case int_of_json value of
             Inl (TypeError m) \<Rightarrow> Raise bad
           | Inl (ValueError m) \<Rightarrow> Raise bad
           | Inl e \<Rightarrow> Raise e
           | Inr line \<Rightarrow> if line < 1 then Raise bad else Return line))"

definition parse_hash :: "json \<Rightarrow> string \<Rightarrow> string result" where
  "parse_hash value context =
     (case value of
        JStr s \<Rightarrow>
          if fullmatches HASH_RE s then Return s
          else Raise (ValueError (context @ '' must be a lower-case hex normalized line hash''))
      | _ \<Rightarrow> Raise (ValueError (context @ '' must be a lower-case hex normalized line hash'')))"

section \<open>The allowlist\<close>

definition parse_allowlist_item :: "nat \<Rightarrow> json \<Rightarrow> coverage_key result" where
  "parse_allowlist_item number item =
     (let at_line = ALLOWLIST @ '' line '' @ str_int (int number) in
      case item of
        JObj d \<Rightarrow>
          (case jget d ''file'' of
             JStr file \<Rightarrow>
               if \<not> is_production_lua_path file then
                 Raise (ValueError (''invalid '' @ at_line @ '': file must be a production Lua path''))
               else
                 (case jget d ''reason'' of
                    JStr reason \<Rightarrow>
                      if strip reason = [] then Raise (ValueError (''invalid '' @ at_line @ '': reason is required''))
                      else
                        bindR (parse_positive_int (jget d ''line'') (at_line @ '' field '' @ [SQ] @ ''line'' @ [SQ])) (\<lambda>line.
                        bindR (parse_hash (jget d ''normalized_line_hash'') (at_line @ '' field '' @ [SQ] @ ''normalized_line_hash'' @ [SQ])) (\<lambda>h.
                        Return (CoverageKey file line h)))
                  | _ \<Rightarrow> Raise (ValueError (''invalid '' @ at_line @ '': reason is required'')))
           | _ \<Rightarrow> Raise (ValueError (''invalid '' @ at_line @ '': file must be a production Lua path'')))
      | _ \<Rightarrow> Raise (ValueError (''invalid '' @ at_line @ '': expected JSON object'')))"

definition parse_allowlist_line :: "json_diag \<Rightarrow> nat \<times> string \<Rightarrow> coverage_key result" where
  "parse_allowlist_line diag = (\<lambda>(number, stripped).
     case json_loads stripped of
       None \<Rightarrow> Raise (ValueError (''invalid '' @ ALLOWLIST @ '' JSON on line '' @ str_int (int number) @ '': '' @
                 diag_msg diag stripped))
     | Some item \<Rightarrow> parse_allowlist_item number item)"

definition parse_allowlist_text :: "json_diag \<Rightarrow> string \<Rightarrow> coverage_key fset result" where
  "parse_allowlist_text diag text =
     bindR (mapR (parse_allowlist_line diag)
              (filter (\<lambda>(number, stripped). stripped \<noteq> [] \<and> \<not> startswith stripped ''#'')
                 (enumerate 1 (map strip (splitlines text)))))
       (\<lambda>keys. Return (fset_of_list keys))"

definition load_allowlist :: "json_diag \<Rightarrow> string option \<Rightarrow> coverage_key fset result" where
  "load_allowlist diag file = (case file of None \<Rightarrow> Return {||} | Some text \<Rightarrow> parse_allowlist_text diag text)"

section \<open>Line metadata of an artifact\<close>

fun entry_line_number :: "json \<Rightarrow> json \<Rightarrow> string \<Rightarrow> int result" where
  "entry_line_number (JInt i) fallback context = parse_positive_int (JInt i) context"
| "entry_line_number (JBool b) fallback context = parse_positive_int (JBool b) context"
| "entry_line_number (JObj d) fallback context = parse_positive_int (jget_or d ''line'' fallback) context"
| "entry_line_number entry fallback context = parse_positive_int fallback context"

definition indexed_at :: "(int \<times> jobject) list \<Rightarrow> int \<Rightarrow> jobject" where
  "indexed_at indexed line = dget indexed line []"

definition hash_field :: "jobject \<Rightarrow> json" where
  "hash_field d = jget_or d ''normalized_line_hash'' (jget d ''hash'')"

definition line_hash :: "json \<Rightarrow> (int \<times> jobject) list \<Rightarrow> int \<Rightarrow> string \<Rightarrow> string result" where
  "line_hash entry indexed line context =
     (let value = (case entry of JObj d \<Rightarrow> hash_field d | _ \<Rightarrow> JNull) in
      if value \<noteq> JNull then parse_hash value context
      else parse_hash (hash_field (indexed_at indexed line)) context)"

fun first_text :: "jobject \<Rightarrow> string list \<Rightarrow> string option" where
  "first_text d [] = None"
| "first_text d (field # rest) = (case jget d field of JStr s \<Rightarrow> Some s | _ \<Rightarrow> first_text d rest)"

definition TEXT_FIELDS :: "string list" where
  "TEXT_FIELDS = [''text'', ''source'', ''line_text'', ''normalized_line'']"

definition line_text :: "json \<Rightarrow> (int \<times> jobject) list \<Rightarrow> int \<Rightarrow> string" where
  "line_text entry indexed line =
     (case (case entry of JObj d \<Rightarrow> first_text d TEXT_FIELDS | _ \<Rightarrow> None) of
        Some value \<Rightarrow> value
      | None \<Rightarrow> the_default [] (first_text (indexed_at indexed line) TEXT_FIELDS))"

section \<open>Executable lines of a source\<close>

definition normalize_source_line :: "string \<Rightarrow> string" where
  "normalize_source_line text = re_sub (rplus rspace) '' '' (strip text)"

definition normalized_source_hash :: "string \<Rightarrow> string" where
  "normalized_source_hash text = take 16 (sha256_hex (utf8 (normalize_source_line text)))"

fun without_strings_loop :: "char option \<Rightarrow> bool \<Rightarrow> string \<Rightarrow> string" where
  "without_strings_loop quote escape [] = []"
| "without_strings_loop (Some q) escape (c # cs) =
     CHR '' '' #
     (if escape then without_strings_loop (Some q) False cs
      else if c = BSLASH then without_strings_loop (Some q) True cs
      else if c = q then without_strings_loop None escape cs
      else without_strings_loop (Some q) escape cs)"
| "without_strings_loop None escape (c # cs) =
     (if c = SQ \<or> c = DQ then CHR '' '' # without_strings_loop (Some c) escape cs
      else c # without_strings_loop None escape cs)"

definition without_lua_string_literals :: "string \<Rightarrow> string" where
  "without_lua_string_literals text = without_strings_loop None False text"

definition strip_lua_line_comment :: "string \<Rightarrow> string" where
  "strip_lua_line_comment text =
     (case find_sub ''--'' (without_lua_string_literals text) of None \<Rightarrow> text | Some idx \<Rightarrow> take idx text)"

definition is_candidate_executable_lua_line :: "string \<Rightarrow> bool" where
  "is_candidate_executable_lua_line text =
     (let comment_stripped = strip_lua_line_comment text;
          stripped = normalize_source_line comment_stripped;
          without_strings = re_sub (rplus rspace) [] (without_lua_string_literals comment_stripped)
      in if stripped = [] then False
      else if stripped \<in> set [''end'', ''else'', ''then'', ''do'', ''until''] then False
      else if stripped \<in> set [''end,'', ''end)'', ''end}'', ''else,''] then False
      else if fullmatches CLOSING_DELIMITER_ONLY_RE stripped then False
      else if fullmatches PURE_FUNCTION_SIGNATURE_RE stripped then False
      else if startswith stripped ''--'' then False
      else if stripped \<in> set LUA_KEYWORDS then False
      else if without_strings = [] \<or> fullmatches (rplus (RSet closing_delimiter)) without_strings then False
      else True)"

definition source_lines_for_file :: "tree \<Rightarrow> string \<Rightarrow> string list result" where
  "source_lines_for_file root file =
     (case tree_read root file of
        None \<Rightarrow> Raise (ValueError (''coverage artifact references missing source file: '' @ file))
      | Some text \<Rightarrow> Return (splitlines text))"

text \<open>\<open>candidate_lines\<close>, in the order in which its callers sort the set, with the text of each line.\<close>

definition candidate_lines :: "string list \<Rightarrow> (nat \<times> string) list" where
  "candidate_lines lines = filter (\<lambda>(idx, text). is_candidate_executable_lua_line text) (enumerate 1 lines)"

definition coverage_map_files :: "jobject \<Rightarrow> (string \<times> jobject) list" where
  "coverage_map_files data =
     (if map_of data ''files'' \<noteq> None then []
      else List.map_filter (\<lambda>(file, item). case item of JObj d \<Rightarrow> Some (file, d) | _ \<Rightarrow> None) data)"

definition repository_coverage_path :: "string \<Rightarrow> string option \<Rightarrow> string" where
  "repository_coverage_path file package_name =
     (if is_production_lua_path file then file
      else case package_name of
        None \<Rightarrow> file
      | Some package \<Rightarrow>
          if startswith file ''../'' \<or> startswith file ''/'' then file
          else if startswith file ''libraries/forge/'' \<or> startswith file ''libraries/'' then file
          else ''packages/'' @ package @ ''/'' @ file)"

section \<open>Covered lines\<close>

fun line_entries :: "json \<Rightarrow> json list result" where
  "line_entries JNull = Return []"
| "line_entries (JArr xs) = Return xs"
| "line_entries _ = Raise (ValueError ''coverage line metadata must be a list'')"

definition covered_line_set :: "json \<Rightarrow> int fset result" where
  "covered_line_set value =
     bindR (line_entries value) (\<lambda>entries.
     bindR (mapR (\<lambda>entry. entry_line_number entry JNull ''covered line'') entries) (\<lambda>lines.
     Return (fset_of_list lines)))"

definition covered_field :: "jobject \<Rightarrow> json" where
  "covered_field d = jget_or d ''covered_lines'' (jget d ''covered'')"

definition uncovered_lines_of :: "string \<Rightarrow> int fset \<Rightarrow> string list \<Rightarrow> uncovered \<Rightarrow> uncovered" where
  "uncovered_lines_of file covered lines result =
     foldl (\<lambda>result (idx, text).
        if int idx |\<in>| covered then result
        else
          let key = CoverageKey file (int idx) (normalized_source_hash text)
          in AList.update key \<lparr>ul_key = key, ul_text = normalize_source_line text\<rparr> result)
       result (candidate_lines lines)"

fun uncovered_map_loop :: "tree \<Rightarrow> string option \<Rightarrow> (string \<times> jobject) list \<Rightarrow> uncovered \<Rightarrow> uncovered result" where
  "uncovered_map_loop root package_name [] result = Return result"
| "uncovered_map_loop root package_name ((artifact_file, file_data) # files) result =
     (let file = repository_coverage_path artifact_file package_name in
      if \<not> is_production_lua_path file then uncovered_map_loop root package_name files result
      else
        bindR (covered_line_set (covered_field file_data)) (\<lambda>covered.
        bindR (source_lines_for_file root file) (\<lambda>lines.
        uncovered_map_loop root package_name files (uncovered_lines_of file covered lines result))))"

definition uncovered_from_covered_line_map :: "tree \<Rightarrow> jobject \<Rightarrow> string option \<Rightarrow> uncovered result" where
  "uncovered_from_covered_line_map root data package_name =
     (if data = [] then Raise (ValueError ''coverage artifact has no covered-line metadata'')
      else uncovered_map_loop root package_name (coverage_map_files data) [])"

definition all_production_lua_paths :: "tree \<Rightarrow> string list" where
  "all_production_lua_paths root =
     sort (filter is_production_lua_path (rglob_lua root ''packages'' @ rglob_lua root ''libraries''))"

fun uncovered_sets_loop :: "tree \<Rightarrow> (string \<times> int fset) list \<Rightarrow> string list \<Rightarrow> uncovered \<Rightarrow> uncovered result" where
  "uncovered_sets_loop root covered_by_file [] result = Return result"
| "uncovered_sets_loop root covered_by_file (file # files) result =
     bindR (source_lines_for_file root file) (\<lambda>lines.
     uncovered_sets_loop root covered_by_file files
       (uncovered_lines_of file (dget covered_by_file file {||}) lines result))"

definition uncovered_from_covered_sets :: "tree \<Rightarrow> (string \<times> int fset) list \<Rightarrow> uncovered result" where
  "uncovered_from_covered_sets root covered_by_file =
     (if covered_by_file = [] then Raise (ValueError ''coverage artifact has no covered-line metadata'')
      else uncovered_sets_loop root covered_by_file (all_production_lua_paths root) [])"

definition canonical_line :: "int fset \<Rightarrow> nat \<times> string \<Rightarrow> json" where
  "canonical_line covered = (\<lambda>(idx, text). JObj
     [(''line'', JInt (int idx)), (''normalized_line_hash'', JStr (normalized_source_hash text)),
      (''text'', JStr (normalize_source_line text)), (''covered'', JBool (int idx |\<in>| covered))])"

definition canonical_file :: "tree \<Rightarrow> (string \<times> int fset) list \<Rightarrow> string \<Rightarrow> json list result" where
  "canonical_file root covered_by_file file =
     bindR (source_lines_for_file root file) (\<lambda>lines.
       let coverable_lines = map (canonical_line (dget covered_by_file file {||})) (candidate_lines lines)
       in Return (if coverable_lines = [] then []
                  else [JObj [(''file'', JStr file), (''coverable_lines'', JArr coverable_lines)]]))"

definition canonical_coverage_artifact :: "tree \<Rightarrow> (string \<times> int fset) list \<Rightarrow> jobject result" where
  "canonical_coverage_artifact root covered_by_file =
     (if covered_by_file = [] then Raise (ValueError ''coverage artifact has no covered-line metadata'')
      else bindR (mapR (canonical_file root covered_by_file) (all_production_lua_paths root)) (\<lambda>files.
        Return [(''schema'', JStr ''fkst.lua.coverage.v1''), (''files'', JArr (concat files))]))"

fun covered_sets_loop :: "string option \<Rightarrow> (string \<times> jobject) list \<Rightarrow> (string \<times> int fset) list
    \<Rightarrow> (string \<times> int fset) list result" where
  "covered_sets_loop package_name [] result = Return result"
| "covered_sets_loop package_name ((artifact_file, file_data) # files) result =
     (let file = repository_coverage_path artifact_file package_name in
      if \<not> is_production_lua_path file then covered_sets_loop package_name files result
      else bindR (covered_line_set (covered_field file_data)) (\<lambda>covered.
        covered_sets_loop package_name files (dmodify file {||} (\<lambda>s. s |\<union>| covered) result)))"

definition read_json_object :: "json_diag \<Rightarrow> string \<Rightarrow> jobject result" where
  "read_json_object diag text =
     (case json_loads text of
        None \<Rightarrow> Raise (JSONDecodeError (diag_str diag text))
      | Some (JObj data) \<Rightarrow> Return data
      | Some _ \<Rightarrow> Raise (ValueError ''coverage artifact must be a JSON object''))"

definition covered_sets_from_artifact :: "json_diag \<Rightarrow> string \<Rightarrow> string option \<Rightarrow> (string \<times> int fset) list result" where
  "covered_sets_from_artifact diag text package_name =
     bindR (read_json_object diag text) (\<lambda>data. covered_sets_loop package_name (coverage_map_files data) [])"

fun merge_loop :: "json_diag \<Rightarrow> (string \<times> string option) list \<Rightarrow> (string \<times> int fset) list
    \<Rightarrow> (string \<times> int fset) list result" where
  "merge_loop diag [] covered_by_file = Return covered_by_file"
| "merge_loop diag ((text, package_name) # artifacts) covered_by_file =
     bindR (covered_sets_from_artifact diag text package_name) (\<lambda>sets.
     merge_loop diag artifacts
       (foldl (\<lambda>d (file, covered). dmodify file {||} (\<lambda>s. s |\<union>| covered) d) covered_by_file sets))"

text \<open>The artifacts are given by their texts.\<close>

definition merge_covered_sets :: "json_diag \<Rightarrow> (string \<times> string option) list \<Rightarrow> (string \<times> int fset) list result" where
  "merge_covered_sets diag artifacts = merge_loop diag artifacts []"

section \<open>Missing lines of an artifact\<close>

definition index_line_entries :: "json list \<Rightarrow> (int \<times> jobject) list result" where
  "index_line_entries entries =
     bindR (mapR (\<lambda>d. bindR (parse_positive_int (jget d ''line'') (''coverage line field '' @ [SQ] @ ''line'' @ [SQ]))
                          (\<lambda>line. Return (line, d)))
              (filter (\<lambda>d. map_of d ''line'' \<noteq> None) (List.map_filter as_obj entries)))
       (\<lambda>kvs. Return (dict_of kvs))"

text \<open>
  The entries kept by the comprehension over coverable lines. The default of \<open>entry.get("covered", ...)\<close>
  is evaluated even when the field is there, so a bad line number raises in either case.
\<close>

fun uncovered_entries :: "int fset \<Rightarrow> json list \<Rightarrow> json list result" where
  "uncovered_entries covered [] = Return []"
| "uncovered_entries covered (entry # entries) =
     (case entry of
        JObj d \<Rightarrow>
          if jget_or d ''coverable'' (JBool True) = JBool False then uncovered_entries covered entries
          else
            bindR (entry_line_number entry JNull ''coverable line'') (\<lambda>line.
            bindR (uncovered_entries covered entries) (\<lambda>kept.
            Return (if truth (jget_or d ''covered'' (JBool (line |\<in>| covered))) then kept else entry # kept)))
      | _ \<Rightarrow> uncovered_entries covered entries)"

definition uncovered_entry :: "string \<Rightarrow> (int \<times> jobject) list \<Rightarrow> json \<Rightarrow> uncovered_line result" where
  "uncovered_entry path indexed entry =
     bindR (entry_line_number entry JNull ''uncovered line'') (\<lambda>line.
     bindR (line_hash entry indexed line ''uncovered line normalized_line_hash'') (\<lambda>h.
     Return \<lparr>ul_key = CoverageKey path line h, ul_text = line_text entry indexed line\<rparr>))"

definition missing_field :: "jobject \<Rightarrow> json" where
  "missing_field data =
     jget_or data ''missing_lines'' (jget_or data ''uncovered_lines''
       (jget_or data ''missing'' (jget data ''uncovered'')))"

definition missing_from_file :: "string \<Rightarrow> jobject \<Rightarrow> uncovered_line list result" where
  "missing_from_file path data =
     bindR (line_entries (jget_or data ''coverable_lines'' (jget_or data ''coverable'' (jget data ''lines'')))) (\<lambda>coverable.
     bindR (index_line_entries coverable) (\<lambda>indexed.
       let missing = missing_field data in
       bindR (if missing = JNull \<and> coverable \<noteq> []
              then bindR (covered_line_set (covered_field data)) (\<lambda>covered. uncovered_entries covered coverable)
              else line_entries missing) (\<lambda>entries.
       mapR (uncovered_entry path indexed) entries)))"

definition coverage_files :: "jobject \<Rightarrow> jobject list" where
  "coverage_files data =
     (case jget data ''files'' of
        JArr files \<Rightarrow> List.map_filter as_obj files
      | JObj files \<Rightarrow>
          List.map_filter (\<lambda>(path, item). case item of
              JObj d \<Rightarrow> Some (dict_of ((''file'', JStr path) # d)) | _ \<Rightarrow> None) files
      | _ \<Rightarrow> [])"

definition file_field :: "jobject \<Rightarrow> json" where
  "file_field d = jget_or d ''file'' (jget d ''path'')"

definition put_uncovered :: "uncovered_line \<Rightarrow> uncovered \<Rightarrow> uncovered" where
  "put_uncovered u result = AList.update (ul_key u) u result"

fun top_level_loop :: "json list \<Rightarrow> uncovered \<Rightarrow> uncovered result" where
  "top_level_loop [] result = Return result"
| "top_level_loop (item # items) result =
     (case item of
        JObj d \<Rightarrow>
          (case file_field d of
             JStr file \<Rightarrow>
               if is_production_lua_path file then
                 bindR (entry_line_number item JNull ''top-level uncovered line'') (\<lambda>line.
                 bindR (line_hash item [] line ''top-level uncovered line normalized_line_hash'') (\<lambda>h.
                 top_level_loop items
                   (put_uncovered \<lparr>ul_key = CoverageKey file line h, ul_text = line_text item [] line\<rparr> result)))
               else top_level_loop items result
           | _ \<Rightarrow> top_level_loop items result)
      | _ \<Rightarrow> Raise (ValueError ''top-level uncovered lines must include file metadata''))"

fun files_loop :: "jobject list \<Rightarrow> uncovered \<Rightarrow> uncovered result" where
  "files_loop [] result = Return result"
| "files_loop (file_data # files) result =
     (case file_field file_data of
        JStr file \<Rightarrow>
          if \<not> is_production_lua_path file then files_loop files result
          else bindR (missing_from_file file file_data) (\<lambda>missing.
            files_loop files (foldl (\<lambda>result u. put_uncovered u result) result missing))
      | _ \<Rightarrow> files_loop files result)"

definition uncovered_from_artifact :: "json_diag \<Rightarrow> string \<Rightarrow> tree option \<Rightarrow> string option \<Rightarrow> uncovered result" where
  "uncovered_from_artifact diag text root package_name =
     bindR (read_json_object diag text) (\<lambda>data.
       let files = coverage_files data in
       bindR (line_entries (jget_or data ''missing_lines'' (jget data ''uncovered_lines''))) (\<lambda>top_level_missing.
       if files = [] \<and> top_level_missing = [] then
         (case root of
            None \<Rightarrow> Raise (ValueError ''coverage artifact has no engine-authored Lua line metadata'')
          | Some root \<Rightarrow> uncovered_from_covered_line_map root data package_name)
       else bindR (top_level_loop top_level_missing []) (\<lambda>result. files_loop files result)))"

section \<open>The base\<close>

definition artifact_path :: "environ \<Rightarrow> string \<Rightarrow> host_file \<Rightarrow> string option" where
  "artifact_path env root host =
     (case truthy (env ''FKST_LUA_COVERAGE_JSON'') of
        Some explicit \<Rightarrow> Some explicit
      | None \<Rightarrow> List.find (\<lambda>candidate. host candidate \<noteq> None) (map (\<lambda>rel. root @ ''/'' @ rel) DEFAULT_ARTIFACTS))"

definition is_safe_base_ref :: "string \<Rightarrow> bool" where
  "is_safe_base_ref ref \<longleftrightarrow> ref \<notin> {[], ''HEAD''} \<and> \<not> contains ''..'' ref \<and> fullmatches BASE_REF_RE ref"

definition run_process :: "git \<Rightarrow> string list \<Rightarrow> completed result" where
  "run_process git args =
     (case git args of Started result \<Rightarrow> Return result | NotStarted _ message \<Rightarrow> Raise (OSError message))"

definition git_ref_exists :: "git \<Rightarrow> string \<Rightarrow> bool result" where
  "git_ref_exists git ref =
     bindR (run_process git [''rev-parse'', ''--verify'', ''--quiet'', ''--end-of-options'', ref])
       (\<lambda>result. Return (returncode result = 0))"

fun first_existing :: "git \<Rightarrow> string list \<Rightarrow> string option result" where
  "first_existing git [] = Return None"
| "first_existing git (ref # refs) =
     bindR (git_ref_exists git ref) (\<lambda>found. if found then Return (Some ref) else first_existing git refs)"

definition configured_base :: "environ \<Rightarrow> string option" where
  "configured_base env =
     (case truthy (env ''FKST_LUA_COVERAGE_BASE_REF'') of
        Some value \<Rightarrow> Some value
      | None \<Rightarrow> truthy (env ''GITHUB_BASE_REF''))"

definition selected_base_ref :: "environ \<Rightarrow> git \<Rightarrow> string option result" where
  "selected_base_ref env git =
     (case configured_base env of
        Some value \<Rightarrow>
          if \<not> is_safe_base_ref value then Return None
          else bindR (git_ref_exists git (''origin/'' @ value)) (\<lambda>found.
            Return (Some (if found then ''origin/'' @ value else value)))
      | None \<Rightarrow> first_existing git [''origin/integration'', ''integration''])"

text \<open>The merge base with a reference, \<open>None\<close> for each of the early returns of \<open>"unresolved"\<close>.\<close>

definition merge_base_of :: "git \<Rightarrow> string \<Rightarrow> string option result" where
  "merge_base_of git base_ref =
     (if \<not> is_safe_base_ref base_ref then Return None
      else bindR (git_ref_exists git base_ref) (\<lambda>found.
        if \<not> found then Return None
        else bindR (run_process git [''merge-base'', ''HEAD'', base_ref]) (\<lambda>base.
          let base_commit = strip (stdout base) in
          Return (if returncode base \<noteq> 0 \<or> base_commit = [] then None else Some base_commit))))"

definition base_allowlist_or_raise :: "json_diag \<Rightarrow> git \<Rightarrow> string \<Rightarrow> coverage_key fset base_allowlist result" where
  "base_allowlist_or_raise diag git base_ref =
     bindR (merge_base_of git base_ref) (\<lambda>base. case base of
        None \<Rightarrow> Return BaseUnresolved
      | Some base_commit \<Rightarrow>
          bindR (run_process git [''cat-file'', ''-e'', base_commit @ '':'' @ ALLOWLIST]) (\<lambda>exists.
          if returncode exists \<noteq> 0 then Return BaseAbsent
          else bindR (run_process git [''show'', base_commit @ '':'' @ ALLOWLIST]) (\<lambda>shown.
            if returncode shown \<noteq> 0 then Return BaseUnresolved
            else bindR (load_allowlist diag (Some (stdout shown))) (\<lambda>keys. Return (BasePresent keys)))))"

definition allowlist_at_base :: "json_diag \<Rightarrow> git \<Rightarrow> string \<Rightarrow> coverage_key fset base_allowlist" where
  "allowlist_at_base diag git base_ref =
     (case base_allowlist_or_raise diag git base_ref of Inl e \<Rightarrow> BaseUnresolved | Inr status \<Rightarrow> status)"

definition required_flag_at_base :: "git \<Rightarrow> string \<Rightarrow> unit base_allowlist" where
  "required_flag_at_base git base_ref =
     (case bindR (merge_base_of git base_ref) (\<lambda>base. case base of
          None \<Rightarrow> Return BaseUnresolved
        | Some base_commit \<Rightarrow>
            bindR (run_process git [''cat-file'', ''-e'', base_commit @ '':'' @ REQUIRED_FLAG]) (\<lambda>exists.
            Return (if returncode exists \<noteq> 0 then BaseAbsent else BasePresent ())))
      of Inl e \<Rightarrow> BaseUnresolved | Inr status \<Rightarrow> status)"

section \<open>The ratchet\<close>

definition content_key :: "coverage_key \<Rightarrow> string \<times> string" where
  "content_key key = (ck_file key, ck_hash key)"

text \<open>
  The three counting loops of the code: every key whose content has by then been seen more often than
  the counter of the other side has it.
\<close>

fun over_count :: "(string \<times> string \<Rightarrow> nat) \<Rightarrow> (string \<times> string \<Rightarrow> nat) \<Rightarrow> coverage_key list \<Rightarrow> coverage_key list" where
  "over_count allowed seen [] = []"
| "over_count allowed seen (key # keys) =
     (let ck = content_key key; seen' = seen(ck := seen ck + 1) in
      if allowed ck < seen' ck then key # over_count allowed seen' keys else over_count allowed seen' keys)"

definition counter :: "coverage_key list \<Rightarrow> string \<times> string \<Rightarrow> nat" where
  "counter keys ck = count_list (map content_key keys) ck"

definition over_counter :: "coverage_key list \<Rightarrow> coverage_key list \<Rightarrow> coverage_key list" where
  "over_counter keys others = over_count (counter others) (\<lambda>_. 0) keys"

definition sorted_keys :: "uncovered \<Rightarrow> coverage_key list" where
  "sorted_keys uncovered = sort (map fst uncovered)"

definition uncovered_at :: "uncovered \<Rightarrow> coverage_key \<Rightarrow> uncovered_line" where
  "uncovered_at uncovered key = dget uncovered key \<lparr>ul_key = key, ul_text = []\<rparr>"

definition ratchet_messages ::
    "uncovered \<Rightarrow> coverage_key fset \<Rightarrow> coverage_key fset option \<Rightarrow> string \<Rightarrow> string list" where
  "ratchet_messages uncovered allowlist base_allowlist base_ref =
     map (\<lambda>key. line_label (uncovered_at uncovered key) @
            '' is an uncovered production Lua line not in '' @ ALLOWLIST)
         (over_counter (sorted_keys uncovered) (sorted_list_of_fset allowlist)) @
     (case base_allowlist of None \<Rightarrow> []
      | Some base \<Rightarrow>
          map (\<lambda>key. key_label key @ '' grows '' @ ALLOWLIST @ '' relative to '' @ base_ref @
                 ''; cover the line instead'')
              (over_counter (sorted_list_of_fset allowlist) (sorted_list_of_fset base)))"

definition stale_allowlist_messages :: "uncovered \<Rightarrow> coverage_key fset \<Rightarrow> string list" where
  "stale_allowlist_messages uncovered allowlist =
     map (\<lambda>key. key_label key @ '' is no longer uncovered; prune the stale entry from '' @ ALLOWLIST)
         (over_counter (sorted_list_of_fset allowlist) (sorted_keys uncovered))"

section \<open>Writing a baseline\<close>



definition allowlist_entry :: "coverage_key \<Rightarrow> json" where
  "allowlist_entry key = JObj
     [(''file'', JStr (ck_file key)), (''line'', JInt (ck_line key)),
      (''normalized_line_hash'', JStr (ck_hash key)), (''reason'', JStr ''baseline'')]"

definition allowlist_text :: "uncovered \<Rightarrow> string" where
  "allowlist_text uncovered =
     (let lines = map (\<lambda>key. dumps compact_flags (allowlist_entry key)) (sorted_keys uncovered) in
      if lines = [] then [] else join [LF] lines @ [LF])"

definition write_text :: "string \<Rightarrow> string \<Rightarrow> tree \<Rightarrow> tree" where
  "write_text path text files = AList.update path text files"

definition write_uncovered_baseline :: "uncovered \<Rightarrow> string \<Rightarrow> tree \<Rightarrow> nat \<times> tree" where
  "write_uncovered_baseline uncovered allowlist_path files =
     (length uncovered, write_text allowlist_path (allowlist_text uncovered) files)"

definition write_current_uncovered ::
    "json_diag \<Rightarrow> string \<Rightarrow> string \<Rightarrow> tree option \<Rightarrow> string option \<Rightarrow> tree \<Rightarrow> (nat \<times> tree) result" where
  "write_current_uncovered diag coverage_text allowlist_path root package_name files =
     bindR (uncovered_from_artifact diag coverage_text root package_name) (\<lambda>uncovered.
     Return (write_uncovered_baseline uncovered allowlist_path files))"

definition write_current_uncovered_from_covered_sets ::
    "(string \<times> int fset) list \<Rightarrow> string \<Rightarrow> tree \<Rightarrow> tree \<Rightarrow> (nat \<times> tree) result" where
  "write_current_uncovered_from_covered_sets covered_by_file allowlist_path root files =
     bindR (uncovered_from_covered_sets root covered_by_file) (\<lambda>uncovered.
     Return (write_uncovered_baseline uncovered allowlist_path files))"

definition write_canonical_coverage_json ::
    "(string \<times> int fset) list \<Rightarrow> string \<Rightarrow> tree \<Rightarrow> tree \<Rightarrow> (nat \<times> tree) result" where
  "write_canonical_coverage_json covered_by_file output_path root files =
     bindR (canonical_coverage_artifact root covered_by_file) (\<lambda>artifact.
     Return (case jget artifact ''files'' of JArr fs \<Rightarrow> length fs | _ \<Rightarrow> 0,
             write_text output_path (dumps compact_flags (JObj artifact) @ [LF]) files))"

definition parse_covered_json_arg :: "string \<Rightarrow> (string \<times> string option) result" where
  "parse_covered_json_arg value =
     (case find_sub ''='' value of
        None \<Rightarrow> Return (value, None)
      | Some k \<Rightarrow>
          let package_name = take k value; path = drop (Suc k) value in
          if package_name = [] \<or> path = [] then
            Raise (ValueError ''coverage input entries must be PATH or PACKAGE=PATH'')
          else Return (path, Some package_name))"

section \<open>The gate\<close>

text \<open>What a run prints: the messages it returns and the warnings on the error stream.\<close>

record run_report =
  messages :: "string list"
  warnings :: "string list"

definition warn_disabled :: "string \<Rightarrow> string" where
  "warn_disabled message =
     ''warning: Lua coverage ratchet is advisory by maintainer direction (#1222): coverage is a '' @
     ''reference signal, not a hard CI gate. The absence of '' @ REQUIRED_FLAG @ '' is the intended '' @
     ''posture, not pending migration debt; create it only to opt back in. '' @ message"

definition warn_deferred :: "string \<Rightarrow> string" where
  "warn_deferred message = ''warning: Lua coverage ratchet deferred; '' @ message"

definition input_error :: "py_error \<Rightarrow> run_report result" where
  "input_error e =
     (if is_value_error e \<or> is_os_error e
      then Return \<lparr>messages = [''invalid Lua coverage ratchet input: '' @ str_exc e], warnings = []\<rparr>
      else Raise e)"

definition base_inputs ::
    "json_diag \<Rightarrow> environ \<Rightarrow> git \<Rightarrow> tree \<Rightarrow> (coverage_key fset \<times> string option \<times> coverage_key fset base_allowlist) result" where
  "base_inputs diag env git root =
     bindR (load_allowlist diag (tree_read root ALLOWLIST)) (\<lambda>allowlist.
     bindR (selected_base_ref env git) (\<lambda>base_ref.
     Return (allowlist, base_ref,
       (case base_ref of
          None \<Rightarrow> BaseUnresolved
        | Some ref \<Rightarrow>
            (case required_flag_at_base git ref of
               BaseAbsent \<Rightarrow> BaseAbsent
             | BasePresent _ \<Rightarrow> allowlist_at_base diag git ref
             | BaseUnresolved \<Rightarrow> BaseUnresolved)))))"

definition repository_messages_for_uncovered ::
    "json_diag \<Rightarrow> environ \<Rightarrow> git \<Rightarrow> tree \<Rightarrow> uncovered \<Rightarrow> run_report result" where
  "repository_messages_for_uncovered diag env git root uncovered =
     (if tree_read root REQUIRED_FLAG = None then
        Return \<lparr>messages = [],
                warnings = (if uncovered = [] then []
                            else [warn_disabled (str_int (int (length uncovered)) @
                                    '' uncovered line(s) would block once enabled'')])\<rparr>
      else
        case base_inputs diag env git root of
          Inl e \<Rightarrow> input_error e
        | Inr (allowlist, base_ref, base) \<Rightarrow>
            Return \<lparr>messages =
                (case base of BaseUnresolved \<Rightarrow>
                   [''cannot resolve coverage base allowlist to enforce shrink-only ratchet; ensure CI provides '' @
                    ''GITHUB_BASE_REF or FKST_LUA_COVERAGE_BASE_REF'']
                 | _ \<Rightarrow> []) @
                ratchet_messages uncovered allowlist (base_value base) (the_default ''base'' base_ref),
              warnings = map (\<lambda>message. ''warning: '' @ message) (stale_allowlist_messages uncovered allowlist)\<rparr>)"

definition repository_messages ::
    "json_diag \<Rightarrow> environ \<Rightarrow> git \<Rightarrow> host_file \<Rightarrow> string \<Rightarrow> tree \<Rightarrow> run_report result" where
  "repository_messages diag env git host root_path root =
     (let required = (tree_read root REQUIRED_FLAG \<noteq> None);
          advisory = (\<lambda>message. Return \<lparr>messages = [], warnings = [warn_disabled message]\<rparr>)
      in case artifact_path env root_path host of
        None \<Rightarrow>
          if \<not> required then advisory ''coverage artifact is absent''
          else Return \<lparr>messages = [], warnings = [warn_deferred (REQUIRED_FLAG @
                 '' is present but no coverage artifact is available; '' @
                 ''set FKST_LUA_COVERAGE_JSON or produce a standard coverage artifact to enforce it'')]\<rparr>
      | Some path \<Rightarrow>
          (case host path of
             None \<Rightarrow>
               if \<not> required then advisory (''coverage artifact is missing: '' @ path)
               else Return \<lparr>messages = [''Lua coverage artifact does not exist: '' @ path], warnings = []\<rparr>
           | Some text \<Rightarrow>
               (case uncovered_from_artifact diag text (Some root) None of
                  Inl e \<Rightarrow>
                    if \<not> (is_value_error e \<or> is_os_error e) then Raise e
                    else if \<not> required then advisory (''coverage artifact would not parse once enabled: '' @ str_exc e)
                    else input_error e
                | Inr uncovered \<Rightarrow> repository_messages_for_uncovered diag env git root uncovered)))"

text \<open>
  The command line after argument parsing: the exit status, what is printed on the two streams, and
  the files afterwards.
\<close>

record cli_args =
  arg_coverage_json :: "string option"
  arg_write_current_uncovered :: "string option"
  arg_package_name :: "string option"

record cli_outcome =
  exit_status :: int
  out_lines :: "string list"
  err_lines :: "string list"
  out_files :: tree

definition cli_check :: "run_report result \<Rightarrow> tree \<Rightarrow> cli_outcome result" where
  "cli_check outcome files =
     (case outcome of
        Inr report \<Rightarrow>
          Return \<lparr>exit_status = (if messages report = [] then 0 else 1), out_lines = messages report,
                  err_lines = warnings report, out_files = files\<rparr>
      | Inl e \<Rightarrow>
          if is_value_error e \<or> is_os_error e
          then Return \<lparr>exit_status = 1, out_lines = [],
                       err_lines = [''error: invalid Lua coverage ratchet input: '' @ str_exc e], out_files = files\<rparr>
          else Raise e)"

definition cli :: "json_diag \<Rightarrow> environ \<Rightarrow> git \<Rightarrow> host_file \<Rightarrow> string \<Rightarrow> tree \<Rightarrow> tree \<Rightarrow> cli_args \<Rightarrow> cli_outcome result" where
  "cli diag env git host cwd root files args =
     (case arg_write_current_uncovered args of
        None \<Rightarrow> cli_check (repository_messages diag env git host cwd root) files
      | Some target \<Rightarrow>
          (case (case arg_coverage_json args of Some p \<Rightarrow> Some p | None \<Rightarrow> artifact_path env cwd host) of
             None \<Rightarrow>
               Return \<lparr>exit_status = 1, out_lines = [],
                       err_lines = [''error: Lua coverage artifact was not found''], out_files = files\<rparr>
           | Some coverage_json \<Rightarrow>
               (case (case host coverage_json of
                        None \<Rightarrow> Raise (OSError (''[Errno 2] No such file or directory: '' @ [SQ] @ coverage_json @ [SQ]))
                      | Some text \<Rightarrow>
                          write_current_uncovered diag text target (Some root) (arg_package_name args) files) of
                  Inr (written, files') \<Rightarrow>
                    Return \<lparr>exit_status = 0,
                            out_lines = [''wrote '' @ str_int (int written) @ '' uncovered line(s) to '' @ target],
                            err_lines = [], out_files = files'\<rparr>
                | Inl e \<Rightarrow>
                    if is_value_error e \<or> is_os_error e
                    then Return \<lparr>exit_status = 1, out_lines = [],
                           err_lines = [''error: could not write current uncovered allowlist: '' @ str_exc e],
                           out_files = files\<rparr>
                    else Raise e)))"

section \<open>Counting by content\<close>

definition contents :: "coverage_key list \<Rightarrow> (string \<times> string) multiset" where
  "contents keys = mset (map content_key keys)"

lemma over_count_contents:
  "count (contents (over_count allowed seen keys)) ck =
     (seen ck + count (contents keys) ck) - max (allowed ck) (seen ck)"
proof (induction keys arbitrary: seen)
  case (Cons key keys)
  define seen' where "seen' = seen(content_key key := seen (content_key key) + 1)"
  have step: "over_count allowed seen (key # keys) =
      (if allowed (content_key key) < seen' (content_key key) then [key] else []) @ over_count allowed seen' keys"
    by (simp add: seen'_def Let_def)
  have "seen' ck = seen ck + (if ck = content_key key then 1 else 0)" by (simp add: seen'_def)
  with Cons.IH [of seen'] show ?case unfolding step by (auto simp: contents_def simp del: mset_map)
qed (simp add: contents_def)

lemma over_counter_contents: "contents (over_counter keys others) = contents keys - contents others"
proof (rule multiset_eqI)
  fix ck
  have "counter others ck = count (contents others) ck"
    unfolding counter_def contents_def count_mset count_list_eq_length_filter ..
  then show "count (contents (over_counter keys others)) ck = count (contents keys - contents others) ck"
    by (simp add: over_counter_def over_count_contents)
qed

lemma over_counter_length: "length (over_counter keys others) = size (contents keys - contents others)"
  using arg_cong [OF over_counter_contents [of keys others], of size] by (simp add: contents_def)

lemma over_counter_Nil [simp]: "over_counter keys others = [] \<longleftrightarrow> contents keys \<subseteq># contents others"
  using over_counter_length [of keys others] by (simp add: Diff_eq_empty_iff_mset flip: length_0_conv)

lemma contents_sorted_keys [simp]: "contents (sorted_keys u) = contents (map fst u)"
  by (simp add: contents_def sorted_keys_def multiset.map_comp)

abbreviation allowed_contents :: "coverage_key fset \<Rightarrow> (string \<times> string) multiset" where
  "allowed_contents allowlist \<equiv> contents (sorted_list_of_fset allowlist)"

text \<open>
  The number of messages is exactly the excess of the uncovered lines over the allowlist, counted
  by file and content, plus the excess of the allowlist over the one of the base.
\<close>

theorem coverage_messages_count:
  "length (ratchet_messages uncovered allowlist base base_ref) =
     size (contents (map fst uncovered) - allowed_contents allowlist) +
     (case base of None \<Rightarrow> 0 | Some b \<Rightarrow> size (allowed_contents allowlist - allowed_contents b))"
  by (simp add: ratchet_messages_def over_counter_length split: option.split)

interpretation coverage_ratchet: shrink_only_ratchet
  "\<lambda>uncovered allowlist base. ratchet_messages uncovered allowlist base ref = []"
  "\<lambda>uncovered. contents (map fst uncovered)" allowed_contents "(\<subseteq>#)" for ref
  by unfold_locales (auto simp: ratchet_messages_def intro: subset_mset.order_trans)

text \<open>
  C2. Along a history whose commits all pass against the allowlist before, the uncovered lines of a
  commit, counted by file and content, are included in what every earlier allowlist allowed: a line
  may move, but no line is uncovered that was not uncovered before.
\<close>

theorem coverage_history_shrinks:
  assumes "clean_history (\<lambda>uncovered allowlist base. ratchet_messages uncovered allowlist base ref = []) base
             (earlier @ (u, a) # later)"
    and "(u', a') \<in> set later"
  shows "contents (map fst u') \<subseteq># allowed_contents a \<and> contents (map fst u') \<subseteq># allowed_contents base"
proof
  show "contents (map fst u') \<subseteq># allowed_contents a"
    by (rule coverage_ratchet.history_monotone(1) [OF assms])
  show "contents (map fst u') \<subseteq># allowed_contents base"
    by (rule coverage_ratchet.history_debt [OF assms(1)]) (use assms(2) in auto)
qed

definition demo_key :: coverage_key where
  "demo_key = CoverageKey ''packages/p/core.lua'' 2 ''0123456789abcdef''"

definition demo_uncovered :: "int \<Rightarrow> uncovered" where
  "demo_uncovered line =
     [(CoverageKey ''packages/p/core.lua'' line ''0123456789abcdef'', \<lparr>ul_key = demo_key, ul_text = ''return x''\<rparr>)]"

text \<open>The allowed line moves from line 2 to line 7 and still passes.\<close>

theorem coverage_history_shrinks_witness:
  "let pass = (\<lambda>uncovered allowlist base. ratchet_messages uncovered allowlist base ''dev'' = []);
       h = [] @ (demo_uncovered 2, {|demo_key|}) # [(demo_uncovered 7, {|demo_key|})]
   in clean_history pass {|demo_key|} h \<and>
      contents (map fst (demo_uncovered 7)) \<subseteq># allowed_contents {|demo_key|} \<and>
      contents (map fst (demo_uncovered 7)) \<subseteq># allowed_contents {|demo_key|}"
proof -
  have "sorted_list_of_fset {|demo_key|} = [demo_key]" by (simp add: sorted_list_of_fset.rep_eq)
  then have h: "clean_history (\<lambda>uncovered allowlist base. ratchet_messages uncovered allowlist base ''dev'' = [])
      {|demo_key|} ([] @ (demo_uncovered 2, {|demo_key|}) # [(demo_uncovered 7, {|demo_key|})])"
    by (simp add: ratchet_messages_def contents_def sorted_keys_def demo_uncovered_def demo_key_def content_key_def)
  from h coverage_history_shrinks [OF h, of "demo_uncovered 7" "{|demo_key|}"] show ?thesis
    unfolding Let_def by simp
qed

section \<open>Which lines are uncovered\<close>

text \<open>The keys of the candidate lines of a file that are not covered.\<close>

definition uncovered_keys :: "string \<Rightarrow> int fset \<Rightarrow> string list \<Rightarrow> coverage_key set" where
  "uncovered_keys file covered lines =
     {CoverageKey file (int idx) (normalized_source_hash text) | idx text.
        (idx, text) \<in> set (candidate_lines lines) \<and> int idx |\<notin>| covered}"

lemma put_fold_keys:
  "fst ` set (foldl (\<lambda>d x. if skip x then d else AList.update (k x) (v x) d) d xs) =
     fst ` set d \<union> {k x | x. x \<in> set xs \<and> \<not> skip x}"
proof (induction xs arbitrary: d)
  case (Cons x xs)
  show ?case by (auto simp: Cons.IH dom_update)
qed simp

lemma put_fold_distinct:
  "distinct (map fst d) \<Longrightarrow>
     distinct (map fst (foldl (\<lambda>d x. if skip x then d else AList.update (k x) (v x) d) d xs))"
  by (induction xs arbitrary: d) (auto simp: distinct_update)

lemma uncovered_lines_of_fold:
  "uncovered_lines_of file covered lines d =
     foldl (\<lambda>d x. if int (fst x) |\<in>| covered then d
        else AList.update (CoverageKey file (int (fst x)) (normalized_source_hash (snd x)))
          \<lparr>ul_key = CoverageKey file (int (fst x)) (normalized_source_hash (snd x)),
           ul_text = normalize_source_line (snd x)\<rparr> d)
       d (candidate_lines lines)"
  unfolding uncovered_lines_of_def Let_def by (simp add: case_prod_beta')

lemma uncovered_lines_of_keys:
  "fst ` set (uncovered_lines_of file covered lines d) = fst ` set d \<union> uncovered_keys file covered lines"
  unfolding uncovered_lines_of_fold put_fold_keys by (auto simp: uncovered_keys_def)

lemma uncovered_lines_of_distinct:
  "distinct (map fst d) \<Longrightarrow> distinct (map fst (uncovered_lines_of file covered lines d))"
  unfolding uncovered_lines_of_fold by (rule put_fold_distinct)

lemma uncovered_sets_loop_step:
  assumes "uncovered_sets_loop root covered_by_file (f # fs) d = Return u"
  obtains t where "tree_read root f = Some t"
    "uncovered_sets_loop root covered_by_file fs
       (uncovered_lines_of f (dget covered_by_file f {||}) (splitlines t) d) = Return u"
  using assms by (auto simp: bindR_eq_Inr source_lines_for_file_def split: option.splits)

lemma uncovered_sets_loop_distinct:
  "uncovered_sets_loop root covered_by_file fs d = Return u \<Longrightarrow> distinct (map fst d) \<Longrightarrow> distinct (map fst u)"
proof (induction fs arbitrary: d)
  case (Cons f fs)
  from Cons.prems(1) show ?case
    by (rule uncovered_sets_loop_step) (use Cons.IH uncovered_lines_of_distinct Cons.prems(2) in blast)
qed simp

lemma uncovered_sets_loop_keys:
  "uncovered_sets_loop root covered_by_file fs d = Return u \<Longrightarrow>
     fst ` set u = fst ` set d \<union>
       (\<Union>f \<in> set fs. \<Union>t \<in> set_option (tree_read root f).
          uncovered_keys f (dget covered_by_file f {||}) (splitlines t))"
proof (induction fs arbitrary: d)
  case (Cons f fs)
  obtain t where t: "tree_read root f = Some t"
    and rest: "uncovered_sets_loop root covered_by_file fs
       (uncovered_lines_of f (dget covered_by_file f {||}) (splitlines t) d) = Return u"
    using Cons.prems by (rule uncovered_sets_loop_step)
  show ?case using Cons.IH [OF rest] t by (auto simp: uncovered_lines_of_keys)
qed simp

lemma uncovered_sets_loop_total:
  "(\<And>f. f \<in> set fs \<Longrightarrow> tree_read root f \<noteq> None) \<Longrightarrow>
     \<exists>u. uncovered_sets_loop root covered_by_file fs d = Return u"
proof (induction fs arbitrary: d)
  case (Cons f fs)
  then obtain t where "tree_read root f = Some t" by fastforce
  with Cons show ?case by (simp add: source_lines_for_file_def)
qed simp

lemma production_paths_exist: "f \<in> set (all_production_lua_paths root) \<Longrightarrow> tree_read root f \<noteq> None"
  by (auto simp: all_production_lua_paths_def rglob_lua_def tree_read_def map_of_eq_None_iff)

lemma all_production_lua_paths_set:
  "set (all_production_lua_paths root) = {f. tree_read root f \<noteq> None \<and> is_production_lua_path f}"
proof -
  have "startswith f ''packages/'' \<or> startswith f ''libraries/''" if "is_production_lua_path f" for f
    using that prefix_order.trans [of "''libraries/''" "''libraries/forge/''" f]
    by (auto simp: is_production_lua_path_def split: if_splits)
  moreover have "endswith f ''.lua''" if "is_production_lua_path f" for f
    using that by (auto simp: is_production_lua_path_def split: if_splits)
  moreover have "tree_read root f \<noteq> None \<longleftrightarrow> f \<in> fst ` set root" for f
    by (simp add: tree_read_def map_of_eq_None_iff)
  ultimately show ?thesis by (auto simp: all_production_lua_paths_def rglob_lua_def)
qed

lemma uncovered_sets_keys:
  assumes "uncovered_from_covered_sets root covered_by_file = Return u"
  shows "fst ` set u = (\<Union>f \<in> {f. is_production_lua_path f}. \<Union>t \<in> set_option (tree_read root f).
           uncovered_keys f (dget covered_by_file f {||}) (splitlines t))"
    and "distinct (map fst u)"
proof -
  from assms have loop: "uncovered_sets_loop root covered_by_file (all_production_lua_paths root) [] = Return u"
    by (simp add: uncovered_from_covered_sets_def split: if_splits)
  show "distinct (map fst u)" by (rule uncovered_sets_loop_distinct [OF loop]) simp
  show "fst ` set u = (\<Union>f \<in> {f. is_production_lua_path f}. \<Union>t \<in> set_option (tree_read root f).
           uncovered_keys f (dget covered_by_file f {||}) (splitlines t))"
    unfolding uncovered_sets_loop_keys [OF loop] all_production_lua_paths_set by auto
qed

text \<open>
  With covered lines given, the report always succeeds, and the keys it reports are exactly those
  of the candidate lines, in production files of the tree, that are not covered: each of them once.
\<close>

theorem uncovered_from_covered_sets_exact:
  assumes "covered_by_file \<noteq> []"
  shows "\<exists>u. uncovered_from_covered_sets root covered_by_file = Return u \<and> distinct (map fst u) \<and>
    (\<forall>f i h. CoverageKey f i h \<in> fst ` set u \<longleftrightarrow>
       (\<exists>t idx l. is_production_lua_path f \<and> tree_read root f = Some t \<and> i = int idx \<and>
          (idx, l) \<in> set (candidate_lines (splitlines t)) \<and> h = normalized_source_hash l \<and>
          i |\<notin>| dget covered_by_file f {||}))"
proof -
  obtain u where u: "uncovered_from_covered_sets root covered_by_file = Return u"
    using assms uncovered_sets_loop_total [of "all_production_lua_paths root" root covered_by_file "[]"]
      production_paths_exist [of _ root]
    by (auto simp: uncovered_from_covered_sets_def)
  then show ?thesis
    using uncovered_sets_keys [OF u] by (auto simp: uncovered_keys_def)
qed

definition demo_tree :: tree where
  "demo_tree = [(''packages/p/core.lua'', ''local x = 1'' @ [LF] @ ''return x'' @ [LF])]"

definition demo_covered :: "(string \<times> int fset) list" where
  "demo_covered = [(''packages/p/core.lua'', {|1|})]"

theorem uncovered_from_covered_sets_exact_witness:
  "\<exists>u. uncovered_from_covered_sets demo_tree demo_covered = Return u \<and> distinct (map fst u) \<and>
    (\<forall>f i h. CoverageKey f i h \<in> fst ` set u \<longleftrightarrow>
       (\<exists>t idx l. is_production_lua_path f \<and> tree_read demo_tree f = Some t \<and> i = int idx \<and>
          (idx, l) \<in> set (candidate_lines (splitlines t)) \<and> h = normalized_source_hash l \<and>
          i |\<notin>| dget demo_covered f {||}))"
  by (rule uncovered_from_covered_sets_exact) (simp add: demo_covered_def)

section \<open>A written baseline is read back\<close>

definition key_wf :: "coverage_key \<Rightarrow> bool" where
  "key_wf k \<longleftrightarrow> is_production_lua_path (ck_file k) \<and> CHR 0x85 \<notin> set (ck_file k)
     \<and> 1 \<le> ck_line k \<and> fullmatches HASH_RE (ck_hash k)"

lemma fullmatches_HASH_RE: "fullmatches HASH_RE s \<longleftrightarrow> 8 \<le> length s \<and> length s \<le> 128 \<and> list_all is_hex_char s"
  unfolding HASH_RE_def fullmatches_rep_range by simp

lemma normalized_source_hash_wf: "fullmatches HASH_RE (normalized_source_hash t)"
  unfolding fullmatches_HASH_RE normalized_source_hash_def
  using sha256_hex_shape [of "utf8 (normalize_source_line t)"]
  by (auto simp: list_all_iff dest: in_set_takeD)

lemma parse_allowlist_entry: "key_wf k \<Longrightarrow> parse_allowlist_item n (allowlist_entry k) = Return k"
proof -
  assume wf: "key_wf k"
  have "strip ''baseline'' = ''baseline''" by code_simp
  with wf show ?thesis
    by (cases k) (simp add: parse_allowlist_item_def allowlist_entry_def jget_def key_wf_def
        parse_positive_int_def parse_hash_def Let_def)
qed

lemma allowlist_entry_line:
  assumes "key_wf k"
  shows "one_line (dumps compact_flags (allowlist_entry k))"
proof -
  have lits: "one_line ''{''" "one_line '',''" "one_line '':''" "one_line ''}''" by code_simp+
  have str: "one_line (dumps_str b ''file'')" "one_line (dumps_str b ''line'')" "one_line (dumps_str b ''reason'')"
    "one_line (dumps_str b ''normalized_line_hash'')" "one_line (dumps_str b ''baseline'')" for b
    by (simp_all add: one_line_dumps_str)
  have "CHR 0x85 \<notin> set (ck_hash k)"
    using assms unfolding key_wf_def fullmatches_HASH_RE by (auto simp: list_all_iff is_hex_char_def is_decimal_def)
  with assms have "one_line (dumps_str b (ck_hash k))" "one_line (dumps_str b (ck_file k))" for b
    by (simp_all add: one_line_dumps_str key_wf_def)
  with lits str one_line_str_int show ?thesis
    by (simp add: allowlist_entry_def sort_items_def)
qed

lemma allowlist_entry_loads: "json_loads (dumps compact_flags (allowlist_entry k)) = Some (allowlist_entry k)"
  by (rule json_loads_dumps) (simp_all add: good_flags_def allowlist_entry_def)

lemma allowlist_text_lines:
  assumes "\<forall>k \<in> fst ` set u. key_wf k"
  shows "splitlines (allowlist_text u) = map (\<lambda>k. dumps compact_flags (allowlist_entry k)) (sorted_keys u)"
proof (cases "sorted_keys u = []")
  case True
  then show ?thesis by (simp add: allowlist_text_def splitlines_def)
next
  case False
  have "list_all one_line (map (\<lambda>k. dumps compact_flags (allowlist_entry k)) (sorted_keys u))"
    using assms allowlist_entry_line by (auto simp: sorted_keys_def list_all_iff)
  from splitlines_lines [OF this] False show ?thesis
    by (simp add: allowlist_text_def Let_def join_LF del: map_map)
qed

lemma load_allowlist_text:
  assumes "\<forall>k \<in> fst ` set u. key_wf k"
  shows "load_allowlist diag (Some (allowlist_text u)) = Return (fset_of_list (map fst u))"
proof -
  let ?line = "\<lambda>k. dumps compact_flags (allowlist_entry k)"
  have strip: "map strip (map ?line ks) = map ?line ks" for ks
    using strip_dumps_obj by (simp add: allowlist_entry_def del: dumps.simps)
  have keep: "?line k \<noteq> []" "\<not> startswith (?line k) ''#''" for k by (simp_all add: allowlist_entry_def)
  have all: "filter (\<lambda>(n, s). s \<noteq> [] \<and> \<not> startswith s ''#'') (enumerate m (map ?line ks)) = enumerate m (map ?line ks)"
    for m ks by (rule filter_True) (use keep in \<open>auto simp: in_set_enumerate_eq\<close>)
  have parse: "mapR (parse_allowlist_line diag) (enumerate m (map ?line ks)) = Return ks" if "\<forall>k \<in> set ks. key_wf k" for m ks
    using that by (induction ks arbitrary: m)
      (simp_all add: parse_allowlist_line_def allowlist_entry_loads parse_allowlist_entry)
  have "\<forall>k \<in> set (sorted_keys u). key_wf k" using assms by (simp add: sorted_keys_def)
  from parse [OF this] show ?thesis
    by (simp only: load_allowlist_def option.case parse_allowlist_text_def allowlist_text_lines [OF assms] strip all)
       (simp add: sorted_keys_def fset_eq_iff fset_of_list.rep_eq)
qed

lemma uncovered_keys_wf:
  assumes "uncovered_from_covered_sets root covered_by_file = Return u"
    and "\<forall>p \<in> fst ` set root. CHR 0x85 \<notin> set p" and "k \<in> fst ` set u"
  shows "key_wf k"
proof -
  from assms(3) obtain f t idx l where "is_production_lua_path f" "tree_read root f = Some t"
    and l: "(idx, l) \<in> set (candidate_lines (splitlines t))" and k: "k = CoverageKey f (int idx) (normalized_source_hash l)"
    unfolding uncovered_sets_keys(1) [OF assms(1)] by (auto simp: uncovered_keys_def)
  moreover have "CHR 0x85 \<notin> set f"
  proof -
    from \<open>tree_read root f = Some t\<close> have "f \<in> fst ` set root"
      unfolding tree_read_def by (force dest: map_of_SomeD)
    with assms(2) show ?thesis by blast
  qed
  moreover from l have "1 \<le> idx" by (auto simp: candidate_lines_def in_set_enumerate_eq)

  ultimately show ?thesis using normalized_source_hash_wf by (simp add: key_wf_def)
qed

lemma allowed_contents_exact:
  "distinct ks \<Longrightarrow> allowed_contents (fset_of_list ks) = contents ks"
proof -
  assume d: "distinct ks"
  have "mset_set (set (sorted_list_of_set (set ks))) = mset (sorted_list_of_set (set ks))"
    by (rule mset_set_set) simp
  then have "mset (sorted_list_of_fset (fset_of_list ks)) = mset_set (set ks)"
    by (simp add: sorted_list_of_fset.rep_eq fset_of_list.rep_eq)
  with d show ?thesis by (simp add: contents_def mset_set_set)
qed



section \<open>When the gate blocks\<close>

text \<open>
  Coverage is advisory unless the flag file opts in: without it no run that returns has a message,
  whatever the artifact, the allowlist and the base are.
\<close>

theorem coverage_advisory:
  assumes "tree_read root REQUIRED_FLAG = None"
    and "repository_messages diag env git host root_path root = Return report"
  shows "messages report = []"
  using assms
  by (auto simp: repository_messages_def repository_messages_for_uncovered_def input_error_def Let_def
           split: option.splits sum.splits if_splits)

abbreviation demo_diag :: json_diag where
  "demo_diag \<equiv> \<lparr>diag_msg = \<lambda>_. [], diag_str = \<lambda>_. []\<rparr>"

theorem coverage_advisory_witness:
  "\<exists>report. repository_messages demo_diag (\<lambda>_. None) (\<lambda>_. NotStarted None []) (\<lambda>_. Some ''[]'') ''/r'' [] = Return report
     \<and> warnings report \<noteq> [] \<and> messages report = []"
proof -
  have "repository_messages demo_diag (\<lambda>_. None) (\<lambda>_. NotStarted None []) (\<lambda>_. Some ''[]'') ''/r'' [] =
      Return \<lparr>messages = [], warnings = [warn_disabled
        ''coverage artifact would not parse once enabled: coverage artifact must be a JSON object'']\<rparr>"
    by code_simp
  from this coverage_advisory [OF _ this] show ?thesis by (auto simp: tree_read_def)
qed

text \<open>
  Where the flag opts in, no failure to evaluate passes: an artifact that is named but missing, one
  that cannot be read, an invalid allowlist and an unresolved base each give a message.
\<close>

theorem coverage_failures_block:
  assumes "tree_read root REQUIRED_FLAG \<noteq> None" "artifact_path env root_path host = Some path"
    and "repository_messages diag env git host root_path root = Return report"
    and "host path = None
      \<or> (\<exists>e. uncovered_from_artifact diag (the (host path)) (Some root) None = Raise e)
      \<or> (\<exists>e. base_inputs diag env git root = Raise e)
      \<or> (\<exists>allowlist base_ref. base_inputs diag env git root = Return (allowlist, base_ref, BaseUnresolved))"
  shows "messages report \<noteq> []"
  using assms
  by (auto simp: repository_messages_def repository_messages_for_uncovered_def input_error_def Let_def
           split: option.splits sum.splits if_splits)

theorem coverage_failures_block_witness:
  "\<exists>report. repository_messages demo_diag [''FKST_LUA_COVERAGE_JSON'' \<mapsto> ''c.json''] (\<lambda>_. NotStarted None [])
      (\<lambda>_. Some ''{}'') ''/r'' [(REQUIRED_FLAG, [])] = Return report \<and> messages report \<noteq> []"
proof -
  let ?env = "[''FKST_LUA_COVERAGE_JSON'' \<mapsto> ''c.json''] :: environ"
  have run: "repository_messages demo_diag ?env (\<lambda>_. NotStarted None []) (\<lambda>_. Some ''{}'') ''/r'' [(REQUIRED_FLAG, [])] =
      Return \<lparr>messages = [''invalid Lua coverage ratchet input: coverage artifact has no covered-line metadata''],
              warnings = []\<rparr>"
    by code_simp
  have "artifact_path ?env ''/r'' (\<lambda>_. Some ''{}'') = Some ''c.json''" by code_simp
  moreover have "tree_read [(REQUIRED_FLAG, [])] REQUIRED_FLAG \<noteq> None" by (simp add: tree_read_def)
  moreover have "uncovered_from_artifact demo_diag ''{}'' (Some [(REQUIRED_FLAG, [])]) None =
      Raise (ValueError ''coverage artifact has no covered-line metadata'')" by code_simp
  ultimately show ?thesis using coverage_failures_block [OF _ _ run, of "''c.json''"] run by auto
qed

end
