(* ===== verification/MonotoneGate.thy ===== *)
theory MonotoneGate
  imports LuaLex ShrinkOnly
begin

text \<open>
  \<^verbatim>\<open>scripts/check_repo_monotone_gate.py\<close>: the ratchet on raw reads of a lifecycle cursor. Reads are found
  in the production Lua sources, attributed to the function that encloses them, and counted per bucket
  (path, function, kind, token) against the allowlist and the allowlist of the base. A manifest and
  the responsibility signatures in the sources declare surfaces that must use an approved accessor.

  Shown here: the gate is silent exactly if the buckets of the tree and of the allowlist have the same
  counts and none exceeds the base, so that line numbers never matter; a read is attributed to the
  innermost function around it; the debt of a history of passing commits only shrinks.
\<close>

section \<open>Patterns\<close>

definition MANIFEST :: string where "MANIFEST = ''migration/monotone-gate.inventory''"
definition ALLOWLIST :: string where "ALLOWLIST = ''migration/monotone-gate.allowlist''"
definition APPROVED_ACCESSORS :: "string list" where
  "APPROVED_ACCESSORS = [''devloop.state.reached'', ''devloop.gate.holds'', ''reached'', ''holds'']"
definition SURFACE_KINDS :: "string list" where "SURFACE_KINDS = [''monotone-gate'', ''visibility'']"

definition PHASES :: "string list" where
  "PHASES =
     [''thinking'', ''dependency_wait'', ''ready'', ''implementing'', ''awaiting-pr'', ''pr-open'', ''reviewing'',
      ''review-meta'', ''merge-ready'', ''merging'', ''merged'', ''closed-unmerged'', ''fixing'', ''impl-failed'',
      ''declined'', ''blocked'']"

definition rquote :: regex where "rquote = RSet (\<lambda>c. c = SQ \<or> c = DQ)"

definition PHASE_LITERAL :: regex where "PHASE_LITERAL = ralt (map rlit PHASES)"

definition rcursor :: regex where
  "rcursor = rseq [ralt [rlit ''current_entity_state'', rlit ''current_state''], rstar rspace, rchar (CHR ''('')]"

definition CURSOR_RE :: regex where "CURSOR_RE = RSeq RWordB rcursor"

text \<open>
  \<open>\.\s*state\s*==\s*(?P<quote1>['"])(?P<phase1>..)(?P=quote1)\<close> or
  \<open>(?P<quote2>['"])(?P<phase2>..)(?P=quote2)\s*==\s*[^)\n]*\.\s*state\<close>
\<close>

definition STATE_EQ_RE :: regex where
  "STATE_EQ_RE = RAlt
     (rseq [rchar (CHR ''.''), rstar rspace, rlit ''state'', rstar rspace, rlit ''=='', rstar rspace,
            RGroup ''quote1'' rquote, RGroup ''phase1'' PHASE_LITERAL, RBackref ''quote1''])
     (rseq [RGroup ''quote2'' rquote, RGroup ''phase2'' PHASE_LITERAL, RBackref ''quote2'', rstar rspace, rlit ''=='',
            rstar rspace, rstar (RSet (\<lambda>c. c \<noteq> CHR '')'' \<and> c \<noteq> LF)), rchar (CHR ''.''), rstar rspace, rlit ''state''])"

definition not_quote :: "char \<Rightarrow> bool" where "not_quote c \<longleftrightarrow> c \<noteq> SQ \<and> c \<noteq> DQ"

definition DEVLOOP_ALIAS_RE :: regex where
  "DEVLOOP_ALIAS_RE = rseq
     [RBol, rstar rspace, rlit ''local'', rplus rspace, RGroup ''alias'' RIDENT, rstar rspace, rchar (CHR ''=''),
      rstar rspace, rlit ''require'', rstar rspace, rchar (CHR ''(''), rstar rspace, rquote, rlit ''devloop.'',
      rplus (RSet not_quote), rquote, rstar rspace, rchar (CHR '')'')]"

definition rqualified :: regex where
  "rqualified = RSeq RIDENT
     (rstar (rseq [rstar rspace, RSet (\<lambda>c. c = CHR ''.'' \<or> c = CHR '':''), rstar rspace, RIDENT]))"

definition FUNCTION_RE :: regex where
  "FUNCTION_RE = RAlt
     (rseq [RBol, rstar rspace, ropt (rseq [rlit ''local'', rplus rspace]), rlit ''function'', rplus rspace,
            RGroup ''name'' rqualified, rstar rspace, rchar (CHR ''('')])
     (rseq [RBol, rstar rspace, RGroup ''assign'' rqualified, rstar rspace, rchar (CHR ''=''), rstar rspace,
            rlit ''function'', RWordB])"

definition GATE_KIND_RE :: regex where
  "GATE_KIND_RE = rseq
     [RWordB, rlit ''gate_kind'', rstar rspace, rchar (CHR ''=''), rstar rspace, rquote, rlit ''monotone_milestone'', rquote]"

definition RESPONSIBILITY_RE :: regex where
  "RESPONSIBILITY_RE = rseq [RWordB, rlit ''responsibility_signature'', rstar rspace, rchar (CHR ''('')]"

definition STRING_FIELD_RE :: regex where
  "STRING_FIELD_RE = rseq
     [RWordB, RGroup ''field'' RIDENT, rstar rspace, rchar (CHR ''=''), rstar rspace, RGroup ''quote'' rquote,
      RGroup ''value'' (rstar (RSet not_quote)), RBackref ''quote'']"

text \<open>\<open>^(?P<path>packages/github-devloop[^/]*/[^:]+\.lua):(?P<function>[A-Za-z_][A-Za-z0-9_.:]*)$\<close>\<close>

definition IMPLEMENTATION_RE :: regex where
  "IMPLEMENTATION_RE = rseq
     [RBol,
      RGroup ''path'' (rseq [rlit ''packages/github-devloop'', rstar (RSet (\<lambda>c. c \<noteq> CHR ''/'')), rchar (CHR ''/''),
                             rplus (RSet (\<lambda>c. c \<noteq> CHR '':'')), rlit ''.lua'']),
      rchar (CHR '':''),
      RGroup ''function'' (RSeq (RSet ident_start)
                             (rstar (RSet (\<lambda>c. ident_char c \<or> c = CHR ''.'' \<or> c = CHR '':'')))), REol]"

definition SURFACE_TABLE_PREFIX_RE :: regex where
  "SURFACE_TABLE_PREFIX_RE = rseq [RBol, RIDENT, rchar (CHR ''.'')]"

section \<open>Surfaces and violations\<close>

record surface =
  sf_path :: string
  sf_function :: string
  sf_kind :: string
  sf_gate_kind :: string
  sf_accessor :: string
  sf_milestone :: string
  sf_domain :: string
  sf_why :: string

datatype violation =
  Violation (v_path: string) (v_surface: string) (v_kind: string) (v_token: string) (v_line: int)

definition violation_tuple :: "violation \<Rightarrow> string \<times> string \<times> string \<times> string \<times> int" where
  "violation_tuple v = (v_path v, v_surface v, v_kind v, v_token v, v_line v)"

lemma violation_tuple_inject [simp]: "violation_tuple x = violation_tuple y \<longleftrightarrow> x = y"
  by (cases x; cases y) (simp add: violation_tuple_def)

instantiation violation :: linorder
begin

definition less_eq_violation :: "violation \<Rightarrow> violation \<Rightarrow> bool" where
  "less_eq_violation x y \<longleftrightarrow> violation_tuple x \<le> violation_tuple y"

definition less_violation :: "violation \<Rightarrow> violation \<Rightarrow> bool" where
  "less_violation x y \<longleftrightarrow> violation_tuple x < violation_tuple y"

instance
  by standard (auto simp: less_eq_violation_def less_violation_def simp flip: violation_tuple_inject)

end

text \<open>\<open>issue=#?\d+\<close>\<close>

definition ISSUE_RE :: regex where
  "ISSUE_RE = rseq [rlit ''issue='', ropt (rchar (CHR ''#'')), rplus rdigit]"

definition invalid_line :: "string \<Rightarrow> string \<Rightarrow> 'a result" where
  "invalid_line what line = Raise (ValueError (''invalid '' @ ALLOWLIST @ what @ '': '' @ line))"

definition parse_violation :: "string \<Rightarrow> violation result" where
  "parse_violation line =
     (case split_char (CHR ''|'') line of
        path # surface # kind # token # line_part # issue # why # rest \<Rightarrow>
          if \<not> (endswith path ''.lua'' \<or> endswith path ''.py'') then invalid_line '' path'' line
          else if kind \<noteq> ''cursor-read'' \<and> kind \<noteq> ''state-equality'' then invalid_line '' kind'' line
          else if \<not> startswith line_part ''line='' then invalid_line '' line number'' line
          else if \<not> fullmatches ISSUE_RE issue then invalid_line '' issue link'' line
          else if \<not> startswith why ''why='' \<or> why = ''why='' then invalid_line '' WHY'' line
          else (case int_of_str (removeprefix ''line='' line_part) of
                  None \<Rightarrow> Raise (ValueError ''invalid literal for int() with base 10'')
                | Some n \<Rightarrow> Return (Violation path surface kind token n))
      | _ \<Rightarrow> invalid_line '' line'' line)"

definition violation_key :: "violation \<Rightarrow> string \<times> string \<times> string \<times> string \<times> string" where
  "violation_key v = (v_path v, v_surface v, v_kind v, v_token v, str_int (v_line v))"

definition cursor_tokens :: "string list" where
  "cursor_tokens = [''current_state('', ''current_entity_state('']"

definition m_cursor_tokens :: "string list" where
  "m_cursor_tokens = [''M.current_state('', ''M.current_entity_state('']"

definition canonical_token :: "violation \<Rightarrow> string" where
  "canonical_token v =
     (let token = replace '' '' [] (v_token v) in
      if v_kind v = ''cursor-read'' \<and> token \<in> set cursor_tokens then token
      else if v_kind v = ''cursor-read'' \<and> token \<in> set m_cursor_tokens then removeprefix ''M.'' token
      else v_token v)"

definition canonical_surface :: "violation \<Rightarrow> string" where
  "canonical_surface v =
     (let surface = re_sub1 SURFACE_TABLE_PREFIX_RE [] (v_surface v) in
      if v_path v = ''packages/github-devloop-pr/departments/review_loop/main.lua''
         \<and> surface = ''review_truth_table_unapproved'' \<and> v_kind v = ''cursor-read''
         \<and> canonical_token v = ''current_entity_state(''
      then ''reviewing_segment_transition_status'' else surface)"

definition moved_paths :: "(string \<times> string) list" where
  "moved_paths =
     [(''packages/github-devloop/core/doctor.lua'', ''packages/github-devloop-ops/core/doctor.lua''),
      (''packages/github-devloop/core/state_gap.lua'', ''packages/github-devloop-ops/core/state_gap.lua''),
      (''packages/github-devloop/departments/observability/census.lua'',
       ''packages/github-devloop-ops/departments/observability/census.lua''),
      (''packages/github-devloop/departments/observability/reaper.lua'',
       ''packages/github-devloop-ops/departments/observability/reaper.lua'')]"

text \<open>The path of \<open>canonical_key\<close>, one step per conditional of the code.\<close>

definition canonical_path :: "violation \<Rightarrow> string" where
  "canonical_path v =
     (let p1 = (if startswith (v_path v) ''std/devloop_''
                then ''libraries/devloop/'' @ removeprefix ''std/devloop_'' (v_path v) else v_path v);
          p2 = (if p1 = ''packages/github-devloop/core/dependencies.lua'' \<and> v_surface v = ''M.dependency_wait_fact''
                then ''packages/github-devloop-ops/core/dependency_wait.lua'' else dget moved_paths p1 p1);
          p3 = (if p2 = ''packages/github-devloop-pr/departments/merge/main.lua''
                then (if canonical_surface v = ''process_merge_queue_tick''
                      then ''packages/github-devloop-pr/core/merge_queue_tick.lua''
                      else ''packages/github-devloop-pr/core/merge_executor.lua'')
                else p2);
          p4 = (if p3 = ''libraries/devloop/replayer.lua''
                   \<and> (v_surface v = ''fetch_child_state_fact'' \<or> v_surface v = ''require_marker_fact'')
                then ''libraries/devloop/replay_required_facts.lua'' else p3);
          p5 = (if p4 = ''packages/github-devloop-intake-default/departments/intake_judge/main.lua''
                then ''packages/github-devloop-intake/departments/intake_judge/main.lua'' else p4)
      in if p5 = ''libraries/devloop/intake/default_intake.lua''
         then ''packages/github-devloop-intake/departments/intake_judge/main.lua'' else p5)"

type_synonym bucket = "string \<times> string \<times> string \<times> string"

definition canonical_key :: "violation \<Rightarrow> bucket" where
  "canonical_key v = (canonical_path v, canonical_surface v, v_kind v, canonical_token v)"

definition violation_label :: "violation \<Rightarrow> string" where
  "violation_label v =
     v_path v @ '':'' @ str_int (v_line v) @ '' '' @ v_surface v @ '' '' @ v_kind v @ '' '' @ v_token v"

section \<open>Blocks\<close>

record block =
  b_name :: string
  b_start :: nat
  b_end :: nat
  b_source :: string

definition strip_lua_line_comment :: "string \<Rightarrow> string" where
  "strip_lua_line_comment line =
     (case comment_spans line False of [] \<Rightarrow> line | span # _ \<Rightarrow> take (sp_start span) line)"

definition code_without_lua_line_comments :: "string \<Rightarrow> string" where
  "code_without_lua_line_comments source = join [LF] (map strip_lua_line_comment (splitlines source))"

text \<open>
  The inner loop of \<open>function_blocks\<close> and of \<open>responsibility_blocks\<close>: lines are added while the depth
  is positive and there are lines left; the result is the index of the last line taken.
\<close>

fun block_end :: "(string \<Rightarrow> int) \<Rightarrow> int \<Rightarrow> nat \<Rightarrow> string list \<Rightarrow> nat" where
  "block_end delta depth e [] = e"
| "block_end delta depth e (line # rest) =
     (if 0 < depth then block_end delta (depth + delta line) (Suc e) rest else e)"

lemma block_end_ge: "e \<le> block_end delta depth e rest"
  by (induction rest arbitrary: depth e) (auto intro: Suc_leD)

definition block_name :: "rematch \<Rightarrow> string" where
  "block_name match =
     (let pick = (\<lambda>g. truthy (m_group match g)) in
      replace '' '' [] (case pick ''name'' of Some n \<Rightarrow> n
        | None \<Rightarrow> (case pick ''assign'' of Some n \<Rightarrow> n | None \<Rightarrow> ''unknown'')))"

definition block_at :: "string list \<Rightarrow> string list \<Rightarrow> nat \<Rightarrow> block option" where
  "block_at original_lines code_lines index =
     (case re_match FUNCTION_RE (code_lines ! index) of
        None \<Rightarrow> None
      | Some match \<Rightarrow>
          let e = block_end block_delta (block_delta (code_lines ! index)) index (drop (Suc index) code_lines) in
          Some \<lparr>b_name = block_name match, b_start = index + 1, b_end = e + 1,
                b_source = join [LF] (py_slice original_lines index (e + 1))\<rparr>)"

definition function_blocks :: "string \<Rightarrow> block list" where
  "function_blocks source =
     (let code_lines = splitlines (code_mask_short source); original_lines = splitlines source in
      List.map_filter (block_at original_lines code_lines) [0..<length code_lines])"

text \<open>\<open>max(containing, key=start)\<close> keeps the first of several greatest elements.\<close>

fun latest_block :: "block \<Rightarrow> block list \<Rightarrow> block" where
  "latest_block best [] = best"
| "latest_block best (b # bs) = latest_block (if b_start best < b_start b then b else best) bs"

definition surface_for_line :: "block list \<Rightarrow> nat \<Rightarrow> string" where
  "surface_for_line blocks lineno =
     (case filter (\<lambda>b. b_start b \<le> lineno \<and> lineno \<le> b_end b) blocks of
        [] \<Rightarrow> ''<top-level>''
      | b # bs \<Rightarrow> b_name (latest_block b bs))"

text \<open>\<open>name.split(".")[-1].split(":")[-1]\<close>\<close>

definition simple_name :: "string \<Rightarrow> string" where
  "simple_name name = after_last (CHR '':'') (after_last (CHR ''.'') name)"

definition block_for_function :: "string \<Rightarrow> string \<Rightarrow> block option" where
  "block_for_function source function_name =
     List.find (\<lambda>b. b_name b = function_name \<or> simple_name (b_name b) = simple_name function_name)
       (function_blocks source)"

definition devloop_aliases :: "string \<Rightarrow> string fset" where
  "devloop_aliases source =
     fset_of_list (List.map_filter
       (\<lambda>line. case re_match DEVLOOP_ALIAS_RE line of None \<Rightarrow> None | Some m \<Rightarrow> m_group m ''alias'')
       (splitlines (code_without_lua_line_comments source)))"

definition cursor_pattern_for_aliases :: "string fset \<Rightarrow> regex" where
  "cursor_pattern_for_aliases aliases =
     (let names = sorted_list_of_fset aliases in
      if names = [] then CURSOR_RE
      else rseq [RWordB,
        ropt (rseq [RAlt (ralt (map rlit names)) (rlit ''M''), rstar rspace, rchar (CHR ''.''), rstar rspace]), rcursor])"

definition cursor_pattern :: "string \<Rightarrow> regex" where
  "cursor_pattern source = cursor_pattern_for_aliases (devloop_aliases source)"

text \<open>At most one alias can match, so the order in which the set is read does not matter.\<close>

definition cursor_violation_token :: "string \<Rightarrow> string fset \<Rightarrow> string" where
  "cursor_violation_token raw aliases =
     (let token = replace '' '' [] raw in
      if token \<in> set cursor_tokens then token
      else if token \<in> set m_cursor_tokens then removeprefix ''M.'' token
      else case List.find (\<lambda>alias. startswith token (alias @ ''.'') \<and>
                             removeprefix (alias @ ''.'') token \<in> set cursor_tokens) (sorted_list_of_fset aliases) of
             Some alias \<Rightarrow> removeprefix (alias @ ''.'') token
           | None \<Rightarrow> strip raw)"

definition paren_delta :: "string \<Rightarrow> int" where
  "paren_delta line =
     int (count_list line (CHR ''('')) + int (count_list line (CHR ''{''))
     - int (count_list line (CHR '')'')) - int (count_list line (CHR ''}''))"

function responsibility_loop :: "string list \<Rightarrow> string list \<Rightarrow> nat \<Rightarrow> block list" where
  "responsibility_loop lines code_lines index =
     (if length code_lines \<le> index then []
      else if re_search RESPONSIBILITY_RE (code_lines ! index) = None
      then responsibility_loop lines code_lines (Suc index)
      else
        let e = block_end paren_delta (paren_delta (code_lines ! index)) index (drop (Suc index) code_lines);
            source_block = join [LF] (py_slice lines index (e + 1))
        in (if re_search GATE_KIND_RE source_block \<noteq> None
            then [\<lparr>b_name = ''responsibility_signature'', b_start = index + 1, b_end = e + 1, b_source = source_block\<rparr>]
            else []) @ responsibility_loop lines code_lines (e + 1))"
  by pat_completeness auto

termination
proof (relation "measure (\<lambda>(ls, cs, i). length cs - i)")
  fix lines code_lines :: "string list" and index e and source_block :: string
  assume "\<not> length code_lines \<le> index"
    and "e = block_end paren_delta (paren_delta (code_lines ! index)) index (drop (Suc index) code_lines)"
  then show "((lines, code_lines, e + 1), lines, code_lines, index) \<in> measure (\<lambda>(ls, cs, i). length cs - i)"
    using block_end_ge [of index paren_delta "paren_delta (code_lines ! index)" "drop (Suc index) code_lines"] by auto
qed auto

declare responsibility_loop.simps [simp del]

definition responsibility_blocks :: "string \<Rightarrow> block list" where
  "responsibility_blocks source =
     responsibility_loop (splitlines source) (splitlines (code_without_lua_line_comments source)) 0"

definition string_fields :: "string \<Rightarrow> (string \<times> string) list" where
  "string_fields source =
     dict_of (map (\<lambda>m. (the_default [] (m_group m ''field''), the_default [] (m_group m ''value'')))
                  (re_finditer STRING_FIELD_RE source))"

section \<open>The manifest\<close>

definition manifest_surface :: "(json \<Rightarrow> string) \<Rightarrow> jobject \<Rightarrow> surface" where
  "manifest_surface str_other doc =
     (let field = (\<lambda>k. str_json str_other (jget_or doc k (JStr []))) in
      \<lparr>sf_path = field ''path'', sf_function = field ''function'', sf_kind = field ''kind'',
       sf_gate_kind = field ''gate_kind'', sf_accessor = field ''milestone_accessor'',
       sf_milestone = field ''milestone'', sf_domain = field ''milestone_domain'', sf_why = field ''why''\<rparr>)"

definition surface_messages :: "surface \<Rightarrow> string list" where
  "surface_messages s =
     (let at = sf_path s @ '' '' @ sf_function s in
      (if sf_kind s \<notin> set SURFACE_KINDS then [''manifest-invalid-kind: '' @ at] else []) @
      (if sf_gate_kind s \<noteq> ''monotone_milestone'' then [''manifest-invalid-gate-kind: '' @ at] else []) @
      (if sf_accessor s \<notin> set APPROVED_ACCESSORS
       then [''manifest-invalid-accessor: '' @ at @ '' '' @ sf_accessor s] else []) @
      (if sf_milestone s \<notin> set PHASES then [''manifest-invalid-milestone: '' @ at @ '' '' @ sf_milestone s] else []) @
      (if sf_domain s = [] then [''manifest-missing-domain: '' @ at] else []) @
      (if sf_why s = [] then [''manifest-missing-why: '' @ at] else []))"

fun manifest_loop :: "json_diag \<Rightarrow> (json \<Rightarrow> string) \<Rightarrow> nat \<Rightarrow> string list \<Rightarrow> (surface list \<times> string list) result" where
  "manifest_loop diag str_other number [] = Return ([], [])"
| "manifest_loop diag str_other number (raw # lines) =
     (let stripped = strip raw in
      if stripped = [] \<or> startswith stripped ''#'' then manifest_loop diag str_other (Suc number) lines
      else case json_loads stripped of
        None \<Rightarrow>
          bindR (manifest_loop diag str_other (Suc number) lines) (\<lambda>(surfaces, messages).
          Return (surfaces, (''manifest-invalid-json: '' @ MANIFEST @ '':'' @ str_int (int number) @ '': '' @
                             diag_msg diag stripped) # messages))
      | Some (JObj doc) \<Rightarrow>
          let s = manifest_surface str_other doc in
          bindR (manifest_loop diag str_other (Suc number) lines) (\<lambda>(surfaces, messages).
          Return (s # surfaces, surface_messages s @ messages))
      | Some _ \<Rightarrow> Raise AttributeError)"

definition load_manifest :: "json_diag \<Rightarrow> (json \<Rightarrow> string) \<Rightarrow> string option \<Rightarrow> (surface list \<times> string list) result" where
  "load_manifest diag str_other file =
     (case file of
        None \<Rightarrow> Return ([], [''manifest-missing: '' @ MANIFEST @ '' is required''])
      | Some text \<Rightarrow> manifest_loop diag str_other 1 (splitlines text))"

section \<open>Violations of a source\<close>

definition is_cursor_definition :: "string \<Rightarrow> nat \<Rightarrow> bool" where
  "is_cursor_definition line match_start =
     (case re_match FUNCTION_RE (code_mask_short line) of
        None \<Rightarrow> False
      | Some declaration \<Rightarrow>
          (case (m_group declaration ''name'', m_group_start declaration ''name'') of
             (Some name, Some name_start) \<Rightarrow>
               if simple_name (replace '' '' [] name) \<notin> {''current_state'', ''current_entity_state''} then False
               else name_start \<le> match_start \<and> match_start < name_start + length name
           | _ \<Rightarrow> False))"

definition line_violations :: "string \<Rightarrow> string \<Rightarrow> string fset \<Rightarrow> nat \<Rightarrow> string \<Rightarrow> violation list" where
  "line_violations path surface aliases lineno line =
     List.map_filter (\<lambda>m. if is_cursor_definition line (m_start m) then None
         else Some (Violation path surface ''cursor-read'' (cursor_violation_token (m_text m) aliases) (int lineno)))
       (re_finditer (cursor_pattern_for_aliases aliases) line) @
     map (\<lambda>m. Violation path surface ''state-equality''
           (case truthy (m_group m ''phase1'') of Some phase \<Rightarrow> phase
            | None \<Rightarrow> (case truthy (m_group m ''phase2'') of Some phase \<Rightarrow> phase | None \<Rightarrow> ''state''))
           (int lineno))
       (re_finditer STATE_EQ_RE line)"

definition block_violations :: "string \<Rightarrow> string \<Rightarrow> block \<Rightarrow> string fset option \<Rightarrow> violation list" where
  "block_violations path surface block aliases =
     (let visible_aliases = (case aliases of Some a \<Rightarrow> a | None \<Rightarrow> devloop_aliases (b_source block)) in
      concat (map (\<lambda>(lineno, line). line_violations path surface visible_aliases lineno line)
        (enumerate (b_start block) (splitlines (code_without_lua_line_comments (b_source block))))))"

definition source_violations :: "string \<Rightarrow> string \<Rightarrow> violation list" where
  "source_violations path source =
     (let blocks = function_blocks source; visible_aliases = devloop_aliases source in
      concat (map (\<lambda>(lineno, line).
           line_violations path (surface_for_line blocks lineno) visible_aliases lineno line)
        (enumerate 1 (splitlines (code_without_lua_line_comments source)))))"

section \<open>The sources\<close>

text \<open>\<open>sorted(packages.glob("github-devloop*"))\<close> restricted to directories.\<close>

definition devloop_packages :: "tree \<Rightarrow> string \<Rightarrow> string list" where
  "devloop_packages tree packages =
     sort (remdups (List.map_filter (\<lambda>p.
        if startswith p (packages @ ''/'') then
          (case path_parts (drop (Suc (length packages)) p) of
             d # _ # _ \<Rightarrow> if startswith d ''github-devloop'' then Some d else None
           | _ \<Rightarrow> None)
        else None) (map fst tree)))"

definition lua_sources_below :: "tree \<Rightarrow> string \<Rightarrow> (string \<times> string) list" where
  "lua_sources_below tree dir =
     map (\<lambda>p. (p, the_default [] (tree_read tree p)))
       (filter (\<lambda>p. ''tests'' \<notin> set (path_parts (drop (Suc (length dir)) p))) (rglob_lua tree dir))"

definition production_sources :: "tree \<Rightarrow> string list \<Rightarrow> (string \<times> string) list" where
  "production_sources tree package_roots =
     dict_of (concat (map (\<lambda>packages.
        concat (map (\<lambda>d. map (\<lambda>(p, source). (''packages/'' @ drop (Suc (length packages)) p, source))
                           (lua_sources_below tree (packages @ ''/'' @ d)))
                    (devloop_packages tree packages)))
        (if package_roots = [] then [''packages''] else package_roots)) @
      lua_sources_below tree ''libraries/devloop'')"

definition package_sources :: "tree \<Rightarrow> (string \<times> string) list" where
  "package_sources tree = production_sources tree []"

definition accessor_references :: "string \<Rightarrow> string \<Rightarrow> bool" where
  "accessor_references source accessor \<longleftrightarrow>
     re_search (rseq [RWordB, rlit (after_last (CHR ''.'') accessor), rstar rspace, rchar (CHR ''('')])
       (code_mask_short source) \<noteq> None"

section \<open>Declared surfaces\<close>

definition declared_surface_messages :: "(string \<times> string) list \<Rightarrow> surface \<Rightarrow> string list" where
  "declared_surface_messages srcs s =
     (case map_of srcs (sf_path s) of
        None \<Rightarrow> [''manifest-stale-path: '' @ sf_path s]
      | Some source \<Rightarrow>
          (case block_for_function source (sf_function s) of
             None \<Rightarrow> [''manifest-stale-function: '' @ sf_path s @ '' '' @ sf_function s]
           | Some block \<Rightarrow>
               (if \<not> accessor_references (b_source block) (sf_accessor s)
                then [''manifest-unbound-accessor: '' @ sf_path s @ '' '' @ sf_function s @ '' does not reference '' @
                      sf_accessor s]
                else []) @
               map (\<lambda>v. violation_label v @
                      '' reads a transient cursor inside a declared monotone milestone surface; use '' @ sf_accessor s)
                   (sort (block_violations (sf_path s) (sf_function s) block (Some (devloop_aliases source))))))"

definition manifest_messages ::
    "json_diag \<Rightarrow> (json \<Rightarrow> string) \<Rightarrow> string option \<Rightarrow> (string \<times> string) list \<Rightarrow> string list result" where
  "manifest_messages diag str_other manifest srcs =
     bindR (load_manifest diag str_other manifest) (\<lambda>(surfaces, messages).
     Return (messages @ concat (map (declared_surface_messages srcs) surfaces)))"

definition implementation_messages ::
    "(string \<times> string) list \<Rightarrow> string \<Rightarrow> string \<Rightarrow> string \<Rightarrow> string \<Rightarrow> string \<Rightarrow> string list" where
  "implementation_messages srcs at implementation accessor impl_path impl_function =
     (case map_of srcs impl_path of
        None \<Rightarrow> [at @ '' monotone_milestone implementation path is stale: '' @ impl_path]
      | Some impl_source \<Rightarrow>
          (case block_for_function impl_source impl_function of
             None \<Rightarrow> [at @ '' monotone_milestone implementation function is stale: '' @ implementation]
           | Some impl_block \<Rightarrow>
               (if \<not> accessor_references (b_source impl_block) accessor
                then [at @ '' monotone_milestone implementation '' @ implementation @ '' does not reference '' @ accessor]
                else []) @
               map (\<lambda>v. violation_label v @
                      '' reads a transient cursor inside monotone_milestone implementation '' @ implementation)
                   (sort (block_violations impl_path impl_function impl_block (Some (devloop_aliases impl_source))))))"

definition responsibility_messages :: "(string \<times> string) list \<Rightarrow> string \<Rightarrow> string \<Rightarrow> block \<Rightarrow> string list" where
  "responsibility_messages srcs rel source block =
     (let fields = string_fields (b_source block);
          accessor = dget fields ''milestone_accessor'' [];
          implementation = dget fields ''milestone_implementation'' [];
          at = rel @ '':'' @ str_int (int (b_start block))
      in (if accessor \<notin> set APPROVED_ACCESSORS
          then [at @ '' monotone_milestone responsibility_signature must declare an approved milestone_accessor''] else []) @
         map (\<lambda>v. violation_label v @ '' reads a transient cursor inside monotone_milestone responsibility metadata'')
             (sort (block_violations rel (b_name block) block (Some (devloop_aliases source)))) @
         (case re_fullmatch IMPLEMENTATION_RE implementation of
            None \<Rightarrow> [at @ '' monotone_milestone responsibility_signature must bind milestone_implementation as '' @
                      ''packages/github-devloop*/...lua:function'']
          | Some m \<Rightarrow>
              implementation_messages srcs at implementation accessor
                (the_default [] (m_group m ''path'')) (the_default [] (m_group m ''function''))))"

definition responsibility_binding_messages :: "(string \<times> string) list \<Rightarrow> string list" where
  "responsibility_binding_messages srcs =
     concat (map (\<lambda>(rel, source). concat (map (responsibility_messages srcs rel source) (responsibility_blocks source)))
                 (sort srcs))"

definition current_violations ::
    "json_diag \<Rightarrow> (json \<Rightarrow> string) \<Rightarrow> tree \<Rightarrow> string list \<Rightarrow> (violation list \<times> string list) result" where
  "current_violations diag str_other tree package_roots =
     (let srcs = production_sources tree package_roots;
          found = concat (map (\<lambda>(path, source). source_violations path source) (sort srcs))
      in bindR (manifest_messages diag str_other (tree_read tree MANIFEST) srcs) (\<lambda>messages.
         Return (found, messages @ responsibility_binding_messages srcs)))"

section \<open>Allowlists and messages\<close>

definition parse_dev_allowlist_lines :: "string list \<Rightarrow> violation list result" where
  "parse_dev_allowlist_lines lines =
     mapR (\<lambda>line. parse_violation (strip line))
       (filter (\<lambda>line. strip line \<noteq> [] \<and> \<not> startswith (lstrip line) ''#'') lines)"

definition load_allowlist :: "string option \<Rightarrow> violation list result" where
  "load_allowlist file =
     (case file of None \<Rightarrow> Return [] | Some text \<Rightarrow> parse_dev_allowlist_lines (splitlines text))"

definition grouped_violations :: "violation list \<Rightarrow> (bucket \<times> violation list) list" where
  "grouped_violations violations =
     map (\<lambda>(key, values). (key, sort values))
       (foldl (\<lambda>grouped v. dmodify (canonical_key v) [] (\<lambda>vs. vs @ [v]) grouped) [] violations)"

definition bucket_label :: "bucket \<Rightarrow> string" where
  "bucket_label = (\<lambda>(path, surface, kind, token). path @ '' '' @ surface @ '' '' @ kind @ '' '' @ token)"

definition current_lines :: "violation list \<Rightarrow> string" where
  "current_lines values = ''current_lines=['' @ join '', '' (map (\<lambda>v. str_int (v_line v)) values) @ '']''"

text \<open>
  The four passes of \<open>ratchet_messages\<close> have one shape: per bucket in order, when one side has more
  entries than the other, a message about the first entry beyond.
\<close>

definition excess_messages ::
    "(bucket \<Rightarrow> violation list \<Rightarrow> violation list \<Rightarrow> violation \<Rightarrow> string) \<Rightarrow>
     (bucket \<times> violation list) list \<Rightarrow> (bucket \<times> violation list) list \<Rightarrow> string list" where
  "excess_messages message by_key others_by_key =
     List.map_filter (\<lambda>(key, values).
        let others = dget others_by_key key [] in
        if length others < length values then Some (message key values others (values ! length others)) else None)
       (sort_key fst by_key)"

definition count_text :: "violation list \<Rightarrow> string" where
  "count_text values = str_int (int (length values))"

definition ratchet_messages :: "violation list \<Rightarrow> violation list \<Rightarrow> violation list option \<Rightarrow> string list" where
  "ratchet_messages current allowlist base_allowlist =
     (let current_by_key = grouped_violations current;
          allowlist_by_key = grouped_violations allowlist
      in excess_messages (\<lambda>key values allowed first.
           violation_label first @ '' is an unclassified transient lifecycle cursor read; '' @ bucket_label key @
           '' has current_count='' @ count_text values @ '' allowed_count='' @ count_text allowed @ '' '' @
           current_lines values @ ''; migrate monotone gates to devloop.state.reached()/approved milestone accessors '' @
           ''or classify legitimate current-routing debt in '' @ ALLOWLIST) current_by_key allowlist_by_key @
         excess_messages (\<lambda>key values present entry.
           violation_label entry @ '' no longer matches monotone-gate debt; '' @ bucket_label key @
           '' monotone-gate debt count shrank from allowed_count='' @ count_text values @ '' to current_count='' @
           count_text present @ '' '' @ current_lines present @ ''; prune the stale entry'')
           allowlist_by_key current_by_key @
         (case base_allowlist of None \<Rightarrow> []
          | Some base \<Rightarrow>
              let base_by_key = grouped_violations base in
              excess_messages (\<lambda>key values dev entry.
                violation_label entry @ '' grows monotone-gate allowlist relative to dev; '' @ bucket_label key @
                '' allowlist_count='' @ count_text values @ '' dev_count='' @ count_text dev @
                ''; migrate to reached() instead'') allowlist_by_key base_by_key @
              excess_messages (\<lambda>key values dev first.
                violation_label first @ '' grows monotone-gate debt relative to dev; '' @ bucket_label key @
                '' current_count='' @ count_text values @ '' dev_count='' @ count_text dev @ '' '' @
                current_lines values @ ''; migrate to reached() instead'') current_by_key base_by_key))"

definition repository_messages ::
    "json_diag \<Rightarrow> (json \<Rightarrow> string) \<Rightarrow> environ \<Rightarrow> git \<Rightarrow> tree \<Rightarrow> bool \<Rightarrow> string list result" where
  "repository_messages diag str_other env git tree enforce_base =
     bindR (current_violations diag str_other tree []) (\<lambda>(current, messages).
     bindR (load_allowlist (tree_read tree ALLOWLIST)) (\<lambda>allowlist.
       let base = (if enforce_base then allowlist_at_dev_base env git ALLOWLIST parse_dev_allowlist_lines
                   else BaseAbsent)
       in Return (messages @
            (case base of BaseUnresolved \<Rightarrow>
               [''cannot resolve dev base allowlist to enforce shrink-only ratchet; ensure CI provides the dev ref'']
             | _ \<Rightarrow> []) @
            ratchet_messages current allowlist (base_value base))))"

section \<open>Counting per bucket\<close>

definition buckets :: "violation list \<Rightarrow> bucket multiset" where
  "buckets vs = mset (map canonical_key vs)"

abbreviation add_violation :: "(bucket \<times> violation list) list \<Rightarrow> violation \<Rightarrow> (bucket \<times> violation list) list" where
  "add_violation \<equiv> \<lambda>grouped v. dmodify (canonical_key v) [] (\<lambda>vs. vs @ [v]) grouped"

lemma grouping_distinct: "distinct (map fst g) \<Longrightarrow> distinct (map fst (foldl add_violation g vs))"
  by (induction vs arbitrary: g) auto

lemma grouping_values:
  "dget (foldl add_violation g vs) key [] = dget g key [] @ filter (\<lambda>v. canonical_key v = key) vs"
  by (induction vs arbitrary: g) (auto simp: dget_dmodify)

lemma dget_map_snd: "f [] = [] \<Longrightarrow> dget (map (\<lambda>(k, v). (k, f v)) d) k [] = f (dget d k [])"
  by (induction d) (auto simp: dget_def)

lemma grouped_violations_at: "dget (grouped_violations vs) key [] = sort (filter (\<lambda>v. canonical_key v = key) vs)"
  unfolding grouped_violations_def by (simp add: dget_map_snd grouping_values)

lemma grouped_length: "length (dget (grouped_violations vs) key []) = count (buckets vs) key"
  by (induction vs) (auto simp: grouped_violations_at buckets_def)

lemma grouped_distinct: "distinct (map fst (grouped_violations vs))"
  using grouping_distinct [of "[]" vs] by (simp add: grouped_violations_def comp_def case_prod_beta')

lemma grouped_in: "(key, values) \<in> set (grouped_violations vs) \<Longrightarrow> length values = count (buckets vs) key"
  using dget_in [OF grouped_distinct] grouped_length by metis

lemma grouped_key:
  assumes "0 < count (buckets vs) key"
  shows "(key, dget (grouped_violations vs) key []) \<in> set (grouped_violations vs)"
proof (rule in_dget, rule ccontr)
  assume "key \<notin> set (map fst (grouped_violations vs))"
  then have "dget (grouped_violations vs) key [] = []"
    by (auto simp: dget_def split: option.split dest: map_of_SomeD) (metis fst_conv image_eqI map_of_SomeD)
  with assms show False unfolding grouped_length [symmetric] by simp
qed

lemma map_filter_Nil: "List.map_filter f xs = [] \<longleftrightarrow> (\<forall>x \<in> set xs. f x = None)"
  by (induction xs) (auto simp: List.map_filter_simps split: option.splits)

lemma excess_messages_Nil [simp]:
  "excess_messages message (grouped_violations vs) (grouped_violations ws) = [] \<longleftrightarrow> buckets vs \<subseteq># buckets ws"
proof -
  have "excess_messages message (grouped_violations vs) (grouped_violations ws) = [] \<longleftrightarrow>
      (\<forall>(key, values) \<in> set (grouped_violations vs). length values \<le> count (buckets ws) key)"
    by (auto simp: excess_messages_def map_filter_Nil grouped_length Let_def not_less split: if_splits)
  also have "\<dots> \<longleftrightarrow> (\<forall>key. count (buckets vs) key \<le> count (buckets ws) key)"
  proof
    assume le: "\<forall>(key, values) \<in> set (grouped_violations vs). length values \<le> count (buckets ws) key"
    show "\<forall>key. count (buckets vs) key \<le> count (buckets ws) key"
    proof
      fix key
      show "count (buckets vs) key \<le> count (buckets ws) key"
        using le grouped_key [of vs key] grouped_length [of vs key] by (cases "count (buckets vs) key") fastforce+
    qed
  next
    assume "\<forall>key. count (buckets vs) key \<le> count (buckets ws) key"
    then show "\<forall>(key, values) \<in> set (grouped_violations vs). length values \<le> count (buckets ws) key"
      using grouped_in [of _ _ vs] by fastforce
  qed
  finally show ?thesis by (simp add: subseteq_mset_def)
qed

lemma monotone_messages_Nil:
  "ratchet_messages current allowlist base = [] \<longleftrightarrow>
     buckets current = buckets allowlist \<and>
     (case base of None \<Rightarrow> True | Some b \<Rightarrow> buckets allowlist \<subseteq># buckets b)"
  by (auto simp: ratchet_messages_def Let_def subset_mset.order_eq_iff split: option.split)

text \<open>
  The gate prints nothing exactly if every bucket (path, function, kind, token) has as many reads in
  the tree as entries in the allowlist, and no bucket of the allowlist has more entries than the base.
\<close>

theorem monotone_messages_iff:
  "ratchet_messages current allowlist base = [] \<longleftrightarrow>
     buckets current = buckets allowlist \<and>
     (case base of None \<Rightarrow> True | Some b \<Rightarrow> buckets allowlist \<subseteq># buckets b)"
  by (rule monotone_messages_Nil)

interpretation monotone_ratchet: shrink_only_ratchet
  "\<lambda>current allowlist base. ratchet_messages current allowlist base = []" buckets buckets "(\<subseteq>#)"
  by unfold_locales (auto simp: monotone_messages_Nil)

definition same_but_line :: "violation \<Rightarrow> violation \<Rightarrow> bool" where
  "same_but_line v w \<longleftrightarrow> v_path v = v_path w \<and> v_surface v = v_surface w \<and> v_kind v = v_kind w \<and> v_token v = v_token w"

lemma canonical_key_lines: "canonical_key (Violation p s k t l) = canonical_key (Violation p s k t l')"
proof -
  have token: "canonical_token (Violation p s k t l) = canonical_token (Violation p s k t l')"
    unfolding canonical_token_def violation.sel ..
  have surface: "canonical_surface (Violation p s k t l) = canonical_surface (Violation p s k t l')"
    unfolding canonical_surface_def violation.sel token ..
  show ?thesis unfolding canonical_key_def canonical_path_def violation.sel token surface ..
qed

lemma canonical_key_line: "same_but_line v w \<Longrightarrow> canonical_key v = canonical_key w"
  using canonical_key_lines by (cases v; cases w) (auto simp: same_but_line_def)

lemma buckets_motion: "list_all2 same_but_line vs ws \<Longrightarrow> buckets vs = buckets ws"
  by (induction rule: list_all2_induct) (auto simp: buckets_def canonical_key_line)

text \<open>
  C17. Pure code motion never changes the verdict: if the reads keep their path, function, kind and token
  and come in any order, with any line numbers, the gate passes before exactly if it passes after.
\<close>

theorem monotone_code_motion:
  assumes "mset moved = mset current'" and "list_all2 same_but_line current moved"
  shows "ratchet_messages current allowlist base = [] \<longleftrightarrow> ratchet_messages current' allowlist base = []"
proof -
  have "buckets current = buckets moved" by (rule buckets_motion [OF assms(2)])
  also have "\<dots> = buckets current'" using assms(1) by (simp add: buckets_def)
  finally show ?thesis by (simp add: monotone_messages_Nil)
qed

definition demo_read :: "string \<Rightarrow> int \<Rightarrow> violation" where
  "demo_read surface line = Violation ''packages/github-devloop/core.lua'' surface ''cursor-read'' ''current_state('' line"

theorem monotone_code_motion_witness:
  "let current = [demo_read ''f'' 3, demo_read ''g'' 9]; moved = [demo_read ''f'' 30, demo_read ''g'' 5];
       current' = [demo_read ''g'' 5, demo_read ''f'' 30]
   in mset moved = mset current' \<and> list_all2 same_but_line current moved \<and>
      (ratchet_messages current moved None = [] \<longleftrightarrow> ratchet_messages current' moved None = [])"
proof -
  have m: "mset [demo_read ''f'' 30, demo_read ''g'' 5] = mset [demo_read ''g'' 5, demo_read ''f'' 30]" by simp
  have l: "list_all2 same_but_line [demo_read ''f'' 3, demo_read ''g'' 9] [demo_read ''f'' 30, demo_read ''g'' 5]"
    by (simp add: same_but_line_def demo_read_def)
  from m l monotone_code_motion [OF m l] show ?thesis unfolding Let_def by blast
qed

text \<open>
  Along a history whose commits all pass against the allowlist before, the reads of a commit are, per
  bucket, no more than any earlier allowlist had.
\<close>

theorem monotone_history_shrinks:
  assumes "clean_history (\<lambda>current allowlist base. ratchet_messages current allowlist base = []) base
             (earlier @ (current, allowlist) # later)"
    and "(current', allowlist') \<in> set later"
  shows "buckets current' \<subseteq># buckets allowlist \<and> buckets current' \<subseteq># buckets base"
proof
  show "buckets current' \<subseteq># buckets allowlist"
    by (rule monotone_ratchet.history_monotone(1) [OF assms])
  show "buckets current' \<subseteq># buckets base"
    by (rule monotone_ratchet.history_debt [OF assms(1)]) (use assms(2) in auto)
qed

theorem monotone_history_shrinks_witness:
  "let pass = (\<lambda>current allowlist base. ratchet_messages current allowlist base = []);
       a = [demo_read ''f'' 3, demo_read ''f'' 4]; b = [demo_read ''f'' 8]
   in clean_history pass a ([] @ (a, a) # [(b, b)]) \<and> buckets b \<subseteq># buckets a \<and> buckets b \<subseteq># buckets a"
proof -
  let ?a = "[demo_read ''f'' 3, demo_read ''f'' 4]" and ?b = "[demo_read ''f'' 8]"
  have "canonical_key (demo_read ''f'' 8) = canonical_key (demo_read ''f'' 3)"
    by (rule canonical_key_line) (simp add: same_but_line_def demo_read_def)
  then have h: "clean_history (\<lambda>current allowlist base. ratchet_messages current allowlist base = []) ?a
      ([] @ (?a, ?a) # [(?b, ?b)])"
    by (simp add: monotone_messages_Nil buckets_def)
  from h monotone_history_shrinks [OF h, of ?b ?b] show ?thesis unfolding Let_def by simp
qed

section \<open>Attribution\<close>

lemma latest_block_max:
  "latest_block b bs \<in> set (b # bs) \<and> (\<forall>c \<in> set (b # bs). b_start c \<le> b_start (latest_block b bs))"
proof (induction b bs rule: latest_block.induct)
  case (2 best b bs)
  then show ?case by (cases "b_start best < b_start b") auto
qed simp

text \<open>
  A read is attributed to the innermost function around its line: to the block that contains the line
  and starts last, and to the top level exactly if no block contains it.
\<close>

theorem surface_for_line_innermost:
  "(\<exists>b \<in> set blocks. b_start b \<le> n \<and> n \<le> b_end b \<and> surface_for_line blocks n = b_name b \<and>
      (\<forall>c \<in> set blocks. b_start c \<le> n \<and> n \<le> b_end c \<longrightarrow> b_start c \<le> b_start b))
   \<or> (\<forall>b \<in> set blocks. \<not> (b_start b \<le> n \<and> n \<le> b_end b)) \<and> surface_for_line blocks n = ''<top-level>''"
proof (cases "filter (\<lambda>b. b_start b \<le> n \<and> n \<le> b_end b) blocks")
  case Nil
  then show ?thesis by (auto simp: surface_for_line_def filter_empty_conv)
next
  case (Cons b bs)
  have inside: "c \<in> set (b # bs) \<longleftrightarrow> c \<in> set blocks \<and> b_start c \<le> n \<and> n \<le> b_end c" for c
    unfolding Cons [symmetric] by simp
  from Cons have "surface_for_line blocks n = b_name (latest_block b bs)" by (simp add: surface_for_line_def)
  with latest_block_max [of b bs] inside show ?thesis by blast
qed

end
