(* ===== verification/CodeDedup.thy ===== *)
theory CodeDedup
  imports LuaLex PyDigest ShrinkOnly
begin

text \<open>
  \<^verbatim>\<open>packages/github-ratchet-migration-slicer/tools/check_repo_dedup.py\<close>: the ratchet on byte-identical
  function bodies of production Lua files. The functions at module scope of every file are cut out by
  counting blocks on the masked text, grouped by name and digest of the normalised body, and the
  groups found in two or more files are compared with the allowlist and the allowlist of the base.

  Shown here: the groups found are exactly the names and digests shared by two files, whatever the
  order in which files are visited; an allowlist entry survives printing and parsing; the ratchet is
  silent exactly if groups and allowlist agree and nothing was added since the base, so that along
  any history of silent commits the duplicates can only shrink.
\<close>

section \<open>Entries\<close>

definition ALLOWLIST :: string where "ALLOWLIST = ''migration/code-dedup.allowlist''"

definition MIN_NORMALIZED_BODY_CHARS :: nat where "MIN_NORMALIZED_BODY_CHARS = 60"

datatype dedup_entry = DedupEntry (entry_name: string) (entry_hash: string) (entry_files: "string list")

definition entry_tuple :: "dedup_entry \<Rightarrow> string \<times> string \<times> string list" where
  "entry_tuple e = (entry_name e, entry_hash e, entry_files e)"

lemma entry_tuple_inject [simp]: "entry_tuple x = entry_tuple y \<longleftrightarrow> x = y"
  by (cases x; cases y) (simp add: entry_tuple_def)

text \<open>\<open>@dataclass(order=True)\<close> compares the tuples of fields.\<close>

instantiation dedup_entry :: linorder
begin

definition less_eq_dedup_entry :: "dedup_entry \<Rightarrow> dedup_entry \<Rightarrow> bool" where
  "less_eq_dedup_entry x y \<longleftrightarrow> entry_tuple x \<le> entry_tuple y"

definition less_dedup_entry :: "dedup_entry \<Rightarrow> dedup_entry \<Rightarrow> bool" where
  "less_dedup_entry x y \<longleftrightarrow> entry_tuple x < entry_tuple y"

instance
  by standard (auto simp: less_eq_dedup_entry_def less_dedup_entry_def simp flip: entry_tuple_inject)

end



definition parse_entry :: "string \<Rightarrow> dedup_entry result" where
  "parse_entry line =
     (case split_ws line of
        name # body_hash # file # rest \<Rightarrow>
          let files = file # rest in
          if \<not> fullmatches RIDENT name then
            Raise (ValueError (''invalid '' @ ALLOWLIST @ '' function name: '' @ line))
          else if \<not> fullmatches (rrep 32 (RSet is_hex_char)) body_hash then
            Raise (ValueError (''invalid '' @ ALLOWLIST @ '' body hash: '' @ line))
          else if length files < 2 \<or> \<not> distinct files then
            Raise (ValueError (''invalid '' @ ALLOWLIST @ '' file list: '' @ line))
          else Return (DedupEntry name body_hash (sort files))
      | _ \<Rightarrow> Raise (ValueError (''invalid '' @ ALLOWLIST @ '' line: '' @ line)))"

definition allowlist_line :: "dedup_entry \<Rightarrow> string" where
  "allowlist_line e = join '' '' (entry_name e # entry_hash e # entry_files e)"

definition entry_label :: "dedup_entry \<Rightarrow> string" where
  "entry_label e = entry_name e @ '' '' @ entry_hash e @ '' '' @ join '' '' (entry_files e)"

definition clone_key :: "dedup_entry \<Rightarrow> string \<times> string" where
  "clone_key e = (entry_name e, entry_hash e)"

section \<open>Function bodies\<close>

record function_body =
  fb_name :: string
  fb_path :: string
  fb_normalized :: string

definition body_key :: "function_body \<Rightarrow> string \<times> string" where
  "body_key b = (fb_name b, md5_hex (utf8 (fb_normalized b)))"

text \<open>
  \<open>^(?P<indent>[ \t]*)(?:local\s+)?function\s+(?P<name>IDENT(?:\s*[.:]\s*IDENT)*)\s*\(\<close>
\<close>

definition FUNCTION_RE :: regex where
  "FUNCTION_RE = rseq
     [RBol, RGroup ''indent'' (rstar (RSet (\<lambda>c. c = CHR '' '' \<or> c = TAB))),
      ropt (rseq [rlit ''local'', rplus rspace]), rlit ''function'', rplus rspace,
      RGroup ''name'' (rseq [RIDENT,
        rstar (rseq [rstar rspace, RSet (\<lambda>c. c = CHR ''.'' \<or> c = CHR '':''), rstar rspace, RIDENT])]),
      rstar rspace, rchar (CHR ''('')]"

definition is_production_lua_path :: "string \<Rightarrow> bool" where
  "is_production_lua_path path =
     (let name = path_name path in
      if \<not> (endswith name ''.lua'' \<and> name \<noteq> ''.lua'') then False
      else if ''tests'' \<in> set (path_parts path) then False
      else \<not> (endswith name ''_test.lua'' \<or> endswith name ''_helpers.lua'' \<or> endswith name ''_fake.lua''))"

text \<open>
  \<open>packages\<close> is relative to \<open>root\<close>; the filter sees the whole path, as the code's does.
\<close>

definition sources :: "string \<Rightarrow> tree \<Rightarrow> string \<Rightarrow> (string \<times> string) list" where
  "sources root tree packages =
     (let paths = rglob_lua tree packages @ rglob_lua tree ''libraries/forge'' in
      dict_of (map (\<lambda>p. (p, the_default [] (tree_read tree p)))
                   (filter (\<lambda>p. is_production_lua_path (root @ ''/'' @ p)) paths)))"

definition function_basename :: "string \<Rightarrow> string" where
  "function_basename name =
     last (re_split (RSet (\<lambda>c. c = CHR ''.'' \<or> c = CHR '':'')) (replace '' '' [] name))"

definition normalized_body :: "string list \<Rightarrow> string" where
  "normalized_body lines = join [LF] (filter (\<lambda>s. s \<noteq> []) (map strip lines))"

fun end_scan :: "int \<Rightarrow> nat \<Rightarrow> string list \<Rightarrow> nat option" where
  "end_scan depth cursor [] = None"
| "end_scan depth cursor (line # lines) =
     (let depth' = depth + block_delta line in
      if depth' \<le> 0 then Some cursor else end_scan depth' (Suc cursor) lines)"

text \<open>The index is that of a line at the only call.\<close>

definition matching_function_end :: "string list \<Rightarrow> nat \<Rightarrow> nat option" where
  "matching_function_end code_lines signature_index =
     (let depth = block_delta (code_lines ! signature_index) in
      if depth \<le> 0 then Some signature_index
      else end_scan depth (Suc signature_index) (drop (Suc signature_index) code_lines))"

lemma end_scan_ge: "end_scan d k ls = Some e \<Longrightarrow> k \<le> e \<and> e < k + length ls"
proof (induction d k ls rule: end_scan.induct)
  case (2 d k l ls)
  then show ?case by (cases "d + block_delta l \<le> 0") (auto simp: Let_def)
qed simp

lemma matching_function_end_ge:
  "matching_function_end ls i = Some e \<Longrightarrow> i \<le> e"
  by (auto simp: matching_function_end_def Let_def dest: end_scan_ge split: if_splits)

text \<open>
  The loop over the lines with the index and the block depth. A function that ends is skipped as a
  whole, so the loop goes on behind it at depth 0.
\<close>

function functions_loop :: "string \<Rightarrow> string list \<Rightarrow> string list \<Rightarrow> nat \<Rightarrow> int \<Rightarrow> function_body list" where
  "functions_loop path original_lines code_lines index block_depth =
     (if length code_lines \<le> index then []
      else
        let line = code_lines ! index;
            match = (if block_depth = 0 then re_match FUNCTION_RE line else None);
            named_end = (case match of
                None \<Rightarrow> None
              | Some m \<Rightarrow> map_option (Pair (the_default [] (m_group m ''name'')))
                             (matching_function_end code_lines index))
        in case named_end of
             Some (name, body_end) \<Rightarrow>
               (let body = normalized_body (py_slice original_lines (Suc index) body_end);
                    found = (if MIN_NORMALIZED_BODY_CHARS \<le> length body
                             then [\<lparr>fb_name = function_basename name, fb_path = path, fb_normalized = body\<rparr>]
                             else [])
                in found @ functions_loop path original_lines code_lines (Suc body_end) block_depth)
           | None \<Rightarrow>
               functions_loop path original_lines code_lines (Suc index)
                 (max 0 (block_depth + block_delta line)))"
  by pat_completeness auto

termination
  by (relation "measure (\<lambda>(p, os, ls, i, d). length ls - i)")
     (auto dest!: sym [of "Some _" "map_option _ _"] matching_function_end_ge split: option.splits)

declare functions_loop.simps [simp del]

definition module_scope_functions :: "string \<Rightarrow> string \<Rightarrow> function_body list" where
  "module_scope_functions path source =
     functions_loop path (splitlines source) (splitlines (code_mask_short source)) 0 0"

section \<open>Groups\<close>

definition group_bodies :: "(string \<times> string) list \<Rightarrow> ((string \<times> string) \<times> string fset) list" where
  "group_bodies sources_by_path =
     foldl (\<lambda>grouped (key, path). dmodify key {||} (finsert path) grouped) []
       (concat (map (\<lambda>(path, source). map (\<lambda>body. (body_key body, path)) (module_scope_functions path source))
                    (sort sources_by_path)))"

definition duplicate_groups :: "(string \<times> string) list \<Rightarrow> dedup_entry fset" where
  "duplicate_groups sources_by_path =
     fset_of_list (map (\<lambda>((name, body_hash), files). DedupEntry name body_hash (sorted_list_of_fset files))
       (filter (\<lambda>(key, files). 2 \<le> fcard files) (group_bodies sources_by_path)))"

section \<open>Allowlists and messages\<close>

definition parse_allowlist_lines :: "string list \<Rightarrow> dedup_entry fset result" where
  "parse_allowlist_lines lines =
     bindR (mapR parse_entry (filter (\<lambda>s. s \<noteq> [] \<and> \<not> startswith s ''#'') (map strip lines)))
       (\<lambda>entries. Return (fset_of_list entries))"

definition load_allowlist :: "string option \<Rightarrow> dedup_entry fset result" where
  "load_allowlist file = load_allowlist_with parse_allowlist_lines file"

definition covered_by_base_allowlist :: "dedup_entry \<Rightarrow> dedup_entry fset \<Rightarrow> bool" where
  "covered_by_base_allowlist entry base_allowlist \<longleftrightarrow>
     fBex base_allowlist (\<lambda>base.
       clone_key base = clone_key entry \<and> set (entry_files entry) \<subseteq> set (entry_files base))"

definition ratchet_messages ::
    "(string \<times> string) list \<Rightarrow> dedup_entry fset \<Rightarrow> dedup_entry fset option \<Rightarrow> string list" where
  "ratchet_messages sources_by_path allowlist base_allowlist =
     (let current = duplicate_groups sources_by_path in
      map (\<lambda>entry. entry_label entry @
             '' is a cross-file byte-identical production function body not in the allowlist baseline'')
          (sorted_list_of_fset (current |-| allowlist)) @
      map (\<lambda>entry. entry_label entry @ '' no longer matches a duplicate group in '' @ ALLOWLIST @
             ''; prune the stale entry'')
          (sorted_list_of_fset (allowlist |-| current)) @
      (case base_allowlist of None \<Rightarrow> []
       | Some base \<Rightarrow>
           map (\<lambda>entry. entry_label entry @ '' grows code-dedup allowlist relative to dev; deduplicate instead'')
               (sorted_list_of_fset (ffilter (\<lambda>entry. \<not> covered_by_base_allowlist entry base) allowlist))))"

text \<open>The local variant of \<open>allowlist_at_dev_base\<close>.\<close>

definition parse_base_lines :: "string list \<Rightarrow> dedup_entry fset result" where
  "parse_base_lines lines =
     bindR (mapR (\<lambda>line. parse_entry (strip line))
              (filter (\<lambda>line. strip line \<noteq> [] \<and> \<not> startswith (lstrip line) ''#'') lines))
       (\<lambda>entries. Return (fset_of_list entries))"

definition dedup_allowlist_at_dev_base :: "environ \<Rightarrow> git \<Rightarrow> dedup_entry fset base_allowlist" where
  "dedup_allowlist_at_dev_base env git = allowlist_at_dev_base env git ALLOWLIST parse_base_lines"

definition unresolved_base_messages :: "'a base_allowlist \<Rightarrow> string list" where
  "unresolved_base_messages base =
     (case base of BaseUnresolved \<Rightarrow>
        [''cannot resolve dev base allowlist to enforce shrink-only ratchet; ensure CI provides the dev ref'']
      | _ \<Rightarrow> [])"

definition repository_messages ::
    "environ \<Rightarrow> git \<Rightarrow> string \<Rightarrow> tree \<Rightarrow> string \<Rightarrow> string list result" where
  "repository_messages env git root tree packages =
     bindR (load_allowlist (tree_read tree ALLOWLIST)) (\<lambda>allowlist.
       let base = dedup_allowlist_at_dev_base env git in
       Return (unresolved_base_messages base @
               ratchet_messages (sources root tree packages) allowlist (base_value base)))"

section \<open>Entries are printed and parsed\<close>

definition entry_wf :: "dedup_entry \<Rightarrow> bool" where
  "entry_wf e \<longleftrightarrow> fullmatches RIDENT (entry_name e)
     \<and> length (entry_hash e) = 32 \<and> list_all is_hex_char (entry_hash e)
     \<and> 2 \<le> length (entry_files e) \<and> distinct (entry_files e) \<and> sorted (entry_files e)
     \<and> list_all (\<lambda>f. f \<noteq> [] \<and> no_space f) (entry_files e)"

lemma token_char_no_space:
  "ident_start c \<Longrightarrow> \<not> is_space c" "ident_char c \<Longrightarrow> \<not> is_space c" "is_hex_char c \<Longrightarrow> \<not> is_space c"
  by (auto simp: ident_start_def ident_char_def is_hex_char_def char_class_defs Let_def)

lemma ident_no_space: "fullmatches RIDENT s \<Longrightarrow> s \<noteq> [] \<and> no_space s"
  unfolding RIDENT_def fullmatches_class_star using token_char_no_space by (auto simp: list_all_iff)

lemma hex_no_space: "list_all is_hex_char s \<Longrightarrow> no_space s"
  using token_char_no_space by (auto simp: list_all_iff)

lemma parse_entry_iff:
  "parse_entry line = Return e \<longleftrightarrow>
     (\<exists>files. split_ws line = entry_name e # entry_hash e # files \<and> entry_files e = sort files \<and> entry_wf e)"
proof
  assume "parse_entry line = Return e"
  then obtain name h f1 rest where ws: "split_ws line = name # h # f1 # rest"
    and ok: "fullmatches RIDENT name" "fullmatches (rrep 32 (RSet is_hex_char)) h"
      "2 \<le> length (f1 # rest)" "distinct (f1 # rest)"
    and e: "e = DedupEntry name h (sort (f1 # rest))"
    by (auto simp: parse_entry_def Let_def Suc_le_eq split: list.splits if_splits)
  have "list_all (\<lambda>f. f \<noteq> [] \<and> no_space f) (f1 # rest)"
    using split_ws_words [of _ line] ws by (auto simp: list_all_iff)
  moreover from ok(2) have "length h = 32" "list_all is_hex_char h" unfolding fullmatches_rrep by auto
  ultimately show "\<exists>files. split_ws line = entry_name e # entry_hash e # files
      \<and> entry_files e = sort files \<and> entry_wf e"
    using ok(1,3,4) e ws
    by (intro exI [of _ "f1 # rest"])
       (auto simp: entry_wf_def list_all_iff distinct_insort set_insort_key sorted_insort)
next
  assume "\<exists>files. split_ws line = entry_name e # entry_hash e # files \<and> entry_files e = sort files \<and> entry_wf e"
  then obtain files where ws: "split_ws line = entry_name e # entry_hash e # files"
    and f: "entry_files e = sort files" and wf: "entry_wf e" by blast
  from wf f have "2 \<le> length files" "distinct files" by (auto simp: entry_wf_def)
  then obtain a b fs where "files = a # b # fs" by (cases files; cases "tl files") auto
  moreover from wf have "fullmatches (rrep 32 (RSet is_hex_char)) (entry_hash e)"
    unfolding fullmatches_rrep by (simp add: entry_wf_def)
  ultimately show "parse_entry line = Return e" using ws f wf \<open>distinct files\<close>
    by (cases e) (auto simp: parse_entry_def entry_wf_def Let_def)
qed

lemma split_allowlist_line: "entry_wf e \<Longrightarrow> split_ws (allowlist_line e) = entry_name e # entry_hash e # entry_files e"
  unfolding allowlist_line_def
  by (rule split_ws_join) (use ident_no_space hex_no_space in \<open>auto simp: entry_wf_def\<close>)

text \<open>
  The entries that a line of the allowlist can stand for are exactly the well-formed ones (an
  identifier, a digest of 32 hexadecimal digits, two or more different files in order), and printing
  such an entry and parsing the line gives it back.
\<close>

theorem parse_entry_roundtrip:
  "(\<exists>line. parse_entry line = Return e) = entry_wf e \<and>
   (parse_entry (allowlist_line e) = Return e) = entry_wf e"
proof -
  have printed: "parse_entry (allowlist_line e) = Return e" if "entry_wf e"
    using that split_allowlist_line [OF that] unfolding parse_entry_iff
    by (auto simp: entry_wf_def sorted_sort_id)
  moreover have "entry_wf e" if "parse_entry line = Return e" for line
    using that unfolding parse_entry_iff by blast
  ultimately show ?thesis by blast
qed

text \<open>The two ways in which allowlist lines are filtered agree.\<close>

lemma strip_hash: "startswith (strip s) ''#'' \<longleftrightarrow> startswith (lstrip s) ''#''"
proof (cases "lstrip s")
  case Nil
  then show ?thesis by (simp add: strip_def rstrip_def)
next
  case (Cons c cs)
  have "\<not> is_space c" using Cons hd_dropWhile [of is_space s] by (auto simp: lstrip_def)
  then have "\<exists>ds. rstrip (c # cs) = c # ds"
    by (simp add: rstrip_def dropWhile_append) (metis rev_rev_ident)
  with Cons show ?thesis by (auto simp: strip_def)
qed

lemma parse_base_lines_eq: "parse_base_lines lines = parse_allowlist_lines lines"
proof -
  have "mapR (\<lambda>line. parse_entry (strip line)) (filter (\<lambda>line. strip line \<noteq> [] \<and> \<not> startswith (lstrip line) ''#'') lines)
      = mapR parse_entry (filter (\<lambda>s. s \<noteq> [] \<and> \<not> startswith s ''#'') (map strip lines))"
    by (induction lines) (simp_all add: strip_hash)
  then show ?thesis by (simp add: parse_base_lines_def parse_allowlist_lines_def)
qed

section \<open>What the groups are\<close>

definition sharing_paths :: "(string \<times> string) list \<Rightarrow> string \<times> string \<Rightarrow> string set" where
  "sharing_paths srcs key =
     {path. \<exists>source. (path, source) \<in> set srcs \<and> key \<in> body_key ` set (module_scope_functions path source)}"

lemma finite_sharing_paths [simp]: "finite (sharing_paths srcs key)"
  by (rule finite_subset [of _ "fst ` set srcs"]) (force simp: sharing_paths_def)+

abbreviation add_path :: "('k \<times> 'p fset) list \<Rightarrow> 'k \<times> 'p \<Rightarrow> ('k \<times> 'p fset) list" where
  "add_path \<equiv> \<lambda>g (k, p). dmodify k {||} (finsert p) g"

lemma group_distinct: "distinct (map fst g) \<Longrightarrow> distinct (map fst (foldl add_path g xs))"
  by (induction xs arbitrary: g) (auto split: prod.split)

lemma group_members:
  "fset (dget (foldl add_path g xs) k {||}) = fset (dget g k {||}) \<union> {p. (k, p) \<in> set xs}"
proof (induction xs arbitrary: g)
  case (Cons x xs)
  show ?case by (cases x) (auto simp: Cons.IH dget_dmodify)
qed simp

lemma group_keys: "fst ` set (foldl add_path g xs) = fst ` set g \<union> fst ` set xs"
proof (induction xs arbitrary: g)
  case (Cons x xs)
  show ?case using keys_dmodify [of "fst x" "{||}" "finsert (snd x)" g] by (cases x) (simp add: Cons.IH)
qed simp

definition keyed_paths :: "(string \<times> string) list \<Rightarrow> ((string \<times> string) \<times> string) list" where
  "keyed_paths srcs = concat (map (\<lambda>(path, source).
     map (\<lambda>body. (body_key body, path)) (module_scope_functions path source)) (sort srcs))"

lemma group_bodies_keyed: "group_bodies srcs = foldl add_path [] (keyed_paths srcs)"
  by (simp add: group_bodies_def keyed_paths_def)

lemma sharing_paths_keyed: "sharing_paths srcs key = {p. (key, p) \<in> set (keyed_paths srcs)}"
  by (auto simp: sharing_paths_def keyed_paths_def)

lemma in_group_bodies:
  "(key, files) \<in> set (group_bodies srcs) \<longleftrightarrow> fset files = sharing_paths srcs key \<and> files \<noteq> {||}"
proof -
  let ?g = "group_bodies srcs"
  have dist: "distinct (map fst ?g)" unfolding group_bodies_keyed by (rule group_distinct) simp
  have val: "fset (dget ?g key {||}) = sharing_paths srcs key"
    unfolding group_bodies_keyed group_members sharing_paths_keyed by simp
  have key: "key \<in> fst ` set ?g \<longleftrightarrow> sharing_paths srcs key \<noteq> {}"
    unfolding group_bodies_keyed group_keys sharing_paths_keyed by force
  show ?thesis
  proof
    assume m: "(key, files) \<in> set ?g"
    then have "dget ?g key {||} = files" by (rule dget_in [OF dist])
    moreover from m have "key \<in> fst ` set ?g" by (rule image_eqI [rotated]) simp
    ultimately show "fset files = sharing_paths srcs key \<and> files \<noteq> {||}" using val key by auto
  next
    assume f: "fset files = sharing_paths srcs key \<and> files \<noteq> {||}"
    then have "dget ?g key {||} = files" using val by (metis fset_inject)
    moreover from f have "key \<in> fst ` set ?g" unfolding key by (metis bot_fset.rep_eq fset_inject)
    ultimately show "(key, files) \<in> set ?g" using in_dget [of key ?g "{||}"] by simp
  qed
qed

lemma in_duplicate_groups:
  "DedupEntry name body_hash files |\<in>| duplicate_groups srcs \<longleftrightarrow>
     2 \<le> card (sharing_paths srcs (name, body_hash)) \<and>
     files = sorted_list_of_set (sharing_paths srcs (name, body_hash))"
proof -
  have ne: "fs \<noteq> {||}" if "2 \<le> fcard fs" for fs :: "string fset" using that by (auto simp: fcard.rep_eq)
  have "DedupEntry name body_hash files |\<in>| duplicate_groups srcs \<longleftrightarrow>
      (\<exists>fs. ((name, body_hash), fs) \<in> set (group_bodies srcs) \<and> 2 \<le> fcard fs \<and> files = sorted_list_of_fset fs)"
    by (force simp: duplicate_groups_def fset_of_list_elem)
  also have "\<dots> \<longleftrightarrow> (\<exists>fs. fset fs = sharing_paths srcs (name, body_hash) \<and> 2 \<le> fcard fs
      \<and> files = sorted_list_of_fset fs)"
    unfolding in_group_bodies using ne by blast
  also have "\<dots> \<longleftrightarrow> 2 \<le> card (sharing_paths srcs (name, body_hash)) \<and>
      files = sorted_list_of_set (sharing_paths srcs (name, body_hash))"
  proof
    assume "\<exists>fs. fset fs = sharing_paths srcs (name, body_hash) \<and> 2 \<le> fcard fs \<and> files = sorted_list_of_fset fs"
    then show "2 \<le> card (sharing_paths srcs (name, body_hash)) \<and>
        files = sorted_list_of_set (sharing_paths srcs (name, body_hash))"
      by (auto simp: fcard.rep_eq sorted_list_of_fset.rep_eq)
  next
    assume a: "2 \<le> card (sharing_paths srcs (name, body_hash)) \<and>
        files = sorted_list_of_set (sharing_paths srcs (name, body_hash))"
    have "fset (Abs_fset (sharing_paths srcs (name, body_hash))) = sharing_paths srcs (name, body_hash)"
      by (simp add: Abs_fset_inverse)
    with a show "\<exists>fs. fset fs = sharing_paths srcs (name, body_hash) \<and> 2 \<le> fcard fs
        \<and> files = sorted_list_of_fset fs"
      by (intro exI [of _ "Abs_fset (sharing_paths srcs (name, body_hash))"])
         (simp add: fcard.rep_eq sorted_list_of_fset.rep_eq)
  qed
  finally show ?thesis .
qed

text \<open>
  C5. The duplicate groups of a set of sources are exactly the names and body digests that module
  scope functions of two or more of its files share, each with all the files that share it, in order.
\<close>

theorem duplicate_groups_exact:
  "fset (duplicate_groups srcs) =
     {DedupEntry name body_hash (sorted_list_of_set (sharing_paths srcs (name, body_hash))) | name body_hash.
        2 \<le> card (sharing_paths srcs (name, body_hash))}"
proof (rule set_eqI)
  fix e
  show "e \<in> fset (duplicate_groups srcs) \<longleftrightarrow> e \<in>
     {DedupEntry name body_hash (sorted_list_of_set (sharing_paths srcs (name, body_hash))) | name body_hash.
        2 \<le> card (sharing_paths srcs (name, body_hash))}"
    by (cases e) (auto simp: in_duplicate_groups)
qed

section \<open>When the ratchet is silent\<close>

lemma dedup_messages_Nil:
  "ratchet_messages srcs allowlist base = [] \<longleftrightarrow>
     duplicate_groups srcs = allowlist \<and>
     (case base of None \<Rightarrow> True | Some b \<Rightarrow> fBall allowlist (\<lambda>e. covered_by_base_allowlist e b))"
  by (auto simp: ratchet_messages_def Let_def split: option.splits)

text \<open>
  The ratchet prints nothing exactly if the duplicate groups of the tree are the entries of the
  allowlist, and every entry of the allowlist has an entry of the base allowlist with its name and
  digest and at least its files.
\<close>

theorem dedup_messages_iff:
  "ratchet_messages srcs allowlist base = [] \<longleftrightarrow>
     duplicate_groups srcs = allowlist \<and>
     (case base of None \<Rightarrow> True | Some b \<Rightarrow> fset allowlist \<subseteq>
        {e. \<exists>e'. e' |\<in>| b \<and> clone_key e' = clone_key e \<and> set (entry_files e) \<subseteq> set (entry_files e')})"
  unfolding dedup_messages_Nil covered_by_base_allowlist_def by (cases base) auto

definition dedup_covered :: "dedup_entry fset \<Rightarrow> dedup_entry fset \<Rightarrow> bool" where
  "dedup_covered A B \<longleftrightarrow> fBall A (\<lambda>e. covered_by_base_allowlist e B)"

lemma covered_by_self: "e |\<in>| A \<Longrightarrow> covered_by_base_allowlist e A"
  by (auto simp: covered_by_base_allowlist_def)

lemma dedup_covered_trans: "dedup_covered A B \<Longrightarrow> dedup_covered B C \<Longrightarrow> dedup_covered A C"
proof -
  assume AB: "dedup_covered A B" and BC: "dedup_covered B C"
  have "covered_by_base_allowlist e C" if "e |\<in>| A" for e
  proof -
    from AB that obtain b where b: "b |\<in>| B" "clone_key b = clone_key e" "set (entry_files e) \<subseteq> set (entry_files b)"
      by (auto simp: dedup_covered_def covered_by_base_allowlist_def)
    from BC b(1) obtain c where "c |\<in>| C" "clone_key c = clone_key b" "set (entry_files b) \<subseteq> set (entry_files c)"
      by (auto simp: dedup_covered_def covered_by_base_allowlist_def)
    with b show ?thesis unfolding covered_by_base_allowlist_def by (intro fBexI [of _ c]) auto
  qed
  then show ?thesis by (simp add: dedup_covered_def)
qed

interpretation dedup_ratchet: shrink_only_ratchet
  "\<lambda>srcs allowlist base. ratchet_messages srcs allowlist base = []" duplicate_groups "\<lambda>a. a" dedup_covered
proof
  show "dedup_covered A A" for A by (simp add: dedup_covered_def covered_by_self)
  show "dedup_covered A C" if "dedup_covered A B" "dedup_covered B C" for A B C
    using that by (rule dedup_covered_trans)
  show "dedup_covered (duplicate_groups c) a" if "ratchet_messages c a b0 = []" for c a b0
    using that by (auto simp: ratchet_messages_def Let_def dedup_covered_def intro!: covered_by_self)
  show "dedup_covered a b" if "ratchet_messages c a (Some b) = []" for c a b
    using that by (auto simp: ratchet_messages_def Let_def dedup_covered_def)
qed

text \<open>
  Along a history whose commits all pass against the allowlist of the commit before, duplication
  only shrinks: every duplicate group found at a commit was already allowed, with at least its files,
  by the allowlist at the start and by that of every earlier commit.
\<close>

theorem dedup_history_shrinks:
  assumes "clean_history (\<lambda>srcs allowlist base. ratchet_messages srcs allowlist base = []) base
             (earlier @ (srcs, allowlist) # later)"
    and "(srcs', allowlist') \<in> set later" and "e |\<in>| duplicate_groups srcs'"
  shows "covered_by_base_allowlist e allowlist \<and> covered_by_base_allowlist e base"
proof
  show "covered_by_base_allowlist e allowlist"
    using dedup_ratchet.history_monotone(1) [OF assms(1,2)] assms(3) by (auto simp: dedup_covered_def)
  have "(srcs', allowlist') \<in> set (earlier @ (srcs, allowlist) # later)" using assms(2) by simp
  from dedup_ratchet.history_debt [OF assms(1) this] assms(3)
  show "covered_by_base_allowlist e base" by (auto simp: dedup_covered_def)
qed

text \<open>Two files with the same function, allowed as one entry at every commit.\<close>

definition demo_body :: string where
  "demo_body = ''return '' @ replicate 60 (CHR ''x'')"

definition demo_source :: string where
  "demo_source = ''function f(x)'' @ [LF] @ demo_body @ [LF] @ ''end'' @ [LF]"

definition demo_sources :: "(string \<times> string) list" where
  "demo_sources = [(''a.lua'', demo_source), (''b.lua'', demo_source)]"

definition demo_entry :: dedup_entry where
  "demo_entry = DedupEntry ''f'' (md5_hex (utf8 demo_body)) [''a.lua'', ''b.lua'']"

lemma demo_functions:
  "module_scope_functions path demo_source = [\<lparr>fb_name = ''f'', fb_path = path, fb_normalized = demo_body\<rparr>]"
  by code_simp

lemma demo_sharing:
  "sharing_paths demo_sources key = (if key = (''f'', md5_hex (utf8 demo_body)) then {''a.lua'', ''b.lua''} else {})"
  by (auto simp: sharing_paths_def demo_sources_def demo_functions body_key_def)

lemma demo_groups: "duplicate_groups demo_sources = {|demo_entry|}"
proof -
  have "e |\<in>| duplicate_groups demo_sources \<longleftrightarrow> e = demo_entry" for e
    by (cases e) (auto simp: in_duplicate_groups demo_sharing demo_entry_def)
  then show ?thesis by (auto simp: fset_eq_iff)
qed

theorem dedup_history_shrinks_witness:
  "let pass = (\<lambda>srcs allowlist base. ratchet_messages srcs allowlist base = []);
       commit = (demo_sources, {|demo_entry|})
   in clean_history pass {|demo_entry|} ([] @ commit # [commit]) \<and> demo_entry |\<in>| duplicate_groups demo_sources
      \<and> covered_by_base_allowlist demo_entry {|demo_entry|} \<and> covered_by_base_allowlist demo_entry {|demo_entry|}"
proof -
  have h: "clean_history (\<lambda>srcs allowlist base. ratchet_messages srcs allowlist base = []) {|demo_entry|}
      ([] @ (demo_sources, {|demo_entry|}) # [(demo_sources, {|demo_entry|})])"
    by (auto simp: dedup_messages_Nil demo_groups covered_by_self)
  have e: "demo_entry |\<in>| duplicate_groups demo_sources" by (simp add: demo_groups)
  from dedup_history_shrinks [OF h _ e, of "{|demo_entry|}"] h e show ?thesis
    unfolding Let_def by simp
qed

section \<open>The end of a function\<close>

lemma end_scan_iff:
  "end_scan d k ls = Some e \<longleftrightarrow>
     (\<exists>n < length ls. e = k + n \<and> d + sum_list (map block_delta (take (Suc n) ls)) \<le> 0
       \<and> (\<forall>j < n. 0 < d + sum_list (map block_delta (take (Suc j) ls))))"
proof (induction d k ls rule: end_scan.induct)
  case (2 d k l ls)
  show ?case
  proof (cases "d + block_delta l \<le> 0")
    case True
    have "n = 0" if "\<forall>j < n. 0 < d + sum_list (map block_delta (take (Suc j) (l # ls)))" for n
    proof (rule ccontr)
      assume "n \<noteq> 0"
      with that have "0 < d + sum_list (map block_delta (take (Suc 0) (l # ls)))" by blast
      with True show False by simp
    qed
    with True show ?thesis by (auto simp: Let_def)
  next
    case False
    have "end_scan d k (l # ls) = Some e \<longleftrightarrow> (\<exists>m < length ls. e = Suc k + m
        \<and> d + sum_list (map block_delta (take (Suc (Suc m)) (l # ls))) \<le> 0
        \<and> (\<forall>j < m. 0 < d + sum_list (map block_delta (take (Suc (Suc j)) (l # ls)))))"
      using False 2 by (simp add: Let_def add.assoc)
    also have "\<dots> \<longleftrightarrow> (\<exists>n < length (l # ls). e = k + n
        \<and> d + sum_list (map block_delta (take (Suc n) (l # ls))) \<le> 0
        \<and> (\<forall>j < n. 0 < d + sum_list (map block_delta (take (Suc j) (l # ls)))))" (is "?A \<longleftrightarrow> ?B")
    proof
      assume ?A
      then obtain m where "m < length ls" "e = k + Suc m"
        "d + sum_list (map block_delta (take (Suc (Suc m)) (l # ls))) \<le> 0"
        "\<forall>j < m. 0 < d + sum_list (map block_delta (take (Suc (Suc j)) (l # ls)))" by auto
      moreover from this(4) False have "\<forall>j < Suc m. 0 < d + sum_list (map block_delta (take (Suc j) (l # ls)))"
        by (simp add: All_less_Suc2)
      ultimately show ?B by (intro exI [of _ "Suc m"]) simp
    next
      assume ?B
      then obtain n where n: "n < length (l # ls)" "e = k + n"
        "d + sum_list (map block_delta (take (Suc n) (l # ls))) \<le> 0"
        "\<forall>j < n. 0 < d + sum_list (map block_delta (take (Suc j) (l # ls)))" by blast
      with False obtain m where "n = Suc m" by (cases n) auto
      with n show ?A by (intro exI [of _ m]) auto
    qed
    finally show ?thesis .
  qed
qed simp

lemma matching_function_end_scan:
  "i < length ls \<Longrightarrow> matching_function_end ls i = end_scan 0 i (drop i ls)"
  by (simp add: matching_function_end_def Cons_nth_drop_Suc [symmetric])

text \<open>
  The end of the function whose signature is on a line is the first line, from the signature on,
  up to which blocks are balanced: the depth is still positive after every line before it.
\<close>

theorem matching_function_end_iff:
  assumes "i < length ls"
  shows "matching_function_end ls i = Some e \<longleftrightarrow>
    (\<exists>n. i + n < length ls \<and> e = i + n \<and> sum_list (map block_delta (take (Suc n) (drop i ls))) \<le> 0
      \<and> (\<forall>j < n. 0 < sum_list (map block_delta (take (Suc j) (drop i ls)))))"
proof -
  have "n < length (drop i ls) \<longleftrightarrow> i + n < length ls" for n by auto
  then show ?thesis unfolding matching_function_end_scan [OF assms] end_scan_iff by simp
qed

definition demo_function_lines :: "string list" where
  "demo_function_lines = [''local function f(x)'', ''  if x then'', ''    return 1'', ''  end'', ''end'']"

theorem matching_function_end_iff_witness:
  "matching_function_end demo_function_lines 0 = Some 4 \<and>
   (\<exists>n. 0 + n < length demo_function_lines \<and> 4 = 0 + n
      \<and> sum_list (map block_delta (take (Suc n) (drop 0 demo_function_lines))) \<le> 0
      \<and> (\<forall>j < n. 0 < sum_list (map block_delta (take (Suc j) (drop 0 demo_function_lines)))))"
proof -
  have "0 < length demo_function_lines" and e: "matching_function_end demo_function_lines 0 = Some 4"
    by code_simp+
  from e iffD1 [OF matching_function_end_iff [OF this(1)] e] show ?thesis by blast
qed

text \<open>
  On a source whose only line breaks are newlines, the masked lines that function ends are
  searched in line up with the lines that bodies are cut from: as many, each of the same length.
\<close>

theorem dedup_lines_aligned:
  assumes "only_newlines source"
  shows "list_all2 (\<lambda>a b. length a = length b) (splitlines source) (splitlines (code_mask_short source))"
  using assms by (rule lua_mask.mask_lines)

theorem dedup_lines_aligned_witness:
  "let source = ''s = '' @ [DQ] @ ''end'' @ [DQ, LF] @ ''end'' in
   list_all2 (\<lambda>a b. length a = length b) (splitlines source) (splitlines (code_mask_short source))"
proof -
  have "only_newlines (''s = '' @ [DQ] @ ''end'' @ [DQ, LF] @ ''end'')" by code_simp
  from dedup_lines_aligned [OF this] show ?thesis unfolding Let_def .
qed

text \<open>
  Without that hypothesis they do not: a form feed in a comment is a line break to \<open>splitlines\<close> in the
  source and a blank in the mask, and every body behind it is cut out one line too early.
\<close>

lemma dedup_lines_misaligned:
  "let source = ''-- a'' @ [CHR 0x0C] @ ''b'' @ [LF] @ ''x = 1'' in
   length (splitlines source) = 3 \<and> length (splitlines (code_mask_short source)) = 2"
  by code_simp

end
