(* ===== verification/SlicePlan.thy ===== *)
theory SlicePlan
  imports CodeDedup
begin

text \<open>
  The first half of \<^verbatim>\<open>packages/github-ratchet-migration-slicer/tools/ratchet_migration_slicer.py\<close>: the
  ratchets it can slice, the sites of an inventory, the document, the markers and the issue text of a
  slice.

  Shown here: markers are written and read back; a slice marker is written exactly if the slice has one
  site, so that slices of two or more sites cannot be filed at all.
\<close>

section \<open>Ratchets and sites\<close>

definition TARGET_COUNT :: int where "TARGET_COUNT = 0"
definition DEFAULT_SLICE_SIZE :: int where "DEFAULT_SLICE_SIZE = 3"
definition MAX_SLICE_SIZE :: int where "MAX_SLICE_SIZE = 10"
definition SCHEMA :: string where "SCHEMA = ''fkst.ratchet-slice.v1''"
definition VALID_RATCHETS :: "string list" where "VALID_RATCHETS = [''gh-git-adapter'', ''saga-handler'', ''code-dedup'']"

definition RATCHET_ALIASES :: "(string \<times> string) list" where
  "RATCHET_ALIASES = [(''891'', ''gh-git-adapter''), (''892'', ''saga-handler'')]"

definition DEFAULT_RECONCILE_RATCHETS :: "string list" where
  "DEFAULT_RECONCILE_RATCHETS = [''saga-handler'', ''code-dedup'']"

definition DEFAULT_LABELS :: "string list" where "DEFAULT_LABELS = [''fkst-dev:enabled'']"

text \<open>\<open>(?m)^\s*(?:function\s+pipeline\s*\(|pipeline\s*=\s*function\b)\<close>\<close>

definition FREE_FORM_PIPELINE_RE :: regex where
  "FREE_FORM_PIPELINE_RE = rseq
     [RMBol, rstar rspace,
      RAlt (rseq [rlit ''function'', rplus rspace, rlit ''pipeline'', rstar rspace, rchar (CHR ''('')])
           (rseq [rlit ''pipeline'', rstar rspace, rchar (CHR ''=''), rstar rspace, rlit ''function'', RWordB])]"

definition marker_char :: "char \<Rightarrow> bool" where
  "marker_char c \<longleftrightarrow> is_alnum_ascii c \<or> c \<in> {CHR ''.'', CHR ''_'', CHR ''/'', CHR '','', CHR ''-''}"

definition SAFE_MARKER_VALUE_RE :: regex where
  "SAFE_MARKER_VALUE_RE = rseq [RBol, rplus (RSet marker_char), REol]"

definition repo_char :: "char \<Rightarrow> bool" where
  "repo_char c \<longleftrightarrow> is_alnum_ascii c \<or> c \<in> {CHR ''_'', CHR ''.'', CHR ''-''}"

definition SAFE_REPO_RE :: regex where
  "SAFE_REPO_RE = rseq [RBol, rplus (RSet repo_char), rchar (CHR ''/''), rplus (RSet repo_char), REol]"

record migration_spec =
  sp_parent :: string
  sp_ratchet :: string
  sp_migration_kind :: string
  sp_allowlist_path :: string
  sp_title :: string
  sp_reference_shape :: string
  sp_allowlist_contract :: "string list"

record inventory_site =
  st_path :: string
  st_line :: nat
  st_detail :: string
  st_allowlist_entry :: "string option"

definition site_ref :: "inventory_site \<Rightarrow> string" where
  "site_ref site = st_path site @ '':'' @ str_int (int (st_line site))"

definition entry_id :: "inventory_site \<Rightarrow> string" where
  "entry_id site =
     (case truthy (st_allowlist_entry site) of Some entry \<Rightarrow> entry | None \<Rightarrow> st_path site @ ''|'' @ st_detail site)"

section \<open>Inventories\<close>

text \<open>\<open>Path(relpath).parts\<close> of a relative path\<close>

definition pure_parts :: "string \<Rightarrow> string list" where
  "pure_parts relpath = filter (\<lambda>p. p \<noteq> [] \<and> p \<noteq> ''.'') (path_parts relpath)"

text \<open>The text of the file; the tree has no symbolic links, so a path without \<open>..\<close> stays below the root.\<close>

definition validated_repo_file :: "tree \<Rightarrow> string \<Rightarrow> string result" where
  "validated_repo_file root relpath =
     (if startswith relpath ''/'' \<or> relpath = [] \<or> CHR 0x00 \<in> set relpath
      then Raise (ValueError (''invalid repository path: '' @ relpath))
      else if ''..'' \<in> set (pure_parts relpath) then Raise (ValueError (''invalid repository path: '' @ relpath))
      else case tree_read root (join ''/'' (pure_parts relpath)) of
             None \<Rightarrow> Raise (ValueError (''repository path does not exist: '' @ relpath))
           | Some source \<Rightarrow> Return source)"

definition line_for_offset :: "string \<Rightarrow> nat \<Rightarrow> nat" where
  "line_for_offset source offset = count_char source LF 0 offset + 1"

definition strip_lua_comments_and_strings :: "string \<Rightarrow> string" where
  "strip_lua_comments_and_strings source = code_mask_gen source MASKED_KINDS None True True"

definition site_key :: "inventory_site \<Rightarrow> string \<times> nat \<times> string" where
  "site_key site = (st_path site, st_line site, st_detail site)"

definition saga_site :: "string \<Rightarrow> string \<Rightarrow> inventory_site" where
  "saga_site relpath source =
     (let masked = strip_lua_comments_and_strings source in
      case re_search FREE_FORM_PIPELINE_RE masked of
        None \<Rightarrow> \<lparr>st_path = relpath, st_line = 1, st_detail = ''stale_allowlist_entry'', st_allowlist_entry = Some relpath\<rparr>
      | Some m \<Rightarrow> \<lparr>st_path = relpath, st_line = line_for_offset masked (m_start m), st_detail = ''free_form_pipeline'',
                  st_allowlist_entry = Some relpath\<rparr>)"

definition load_saga_inventory :: "tree \<Rightarrow> migration_spec \<Rightarrow> inventory_site list result" where
  "load_saga_inventory root spec =
     bindR (validated_repo_file root (sp_allowlist_path spec)) (\<lambda>allowlist.
     bindR (mapR (\<lambda>relpath. bindR (validated_repo_file root relpath) (\<lambda>source. Return (saga_site relpath source)))
       (filter (\<lambda>relpath. relpath \<noteq> [] \<and> \<not> startswith relpath ''#'') (map strip (splitlines allowlist)))) (\<lambda>sites.
     Return (sort_key site_key sites)))"

fun function_line :: "string \<Rightarrow> nat \<Rightarrow> string list \<Rightarrow> nat option" where
  "function_line expected offset [] = None"
| "function_line expected offset (code # codes) =
     (case re_match FUNCTION_RE code of
        Some m \<Rightarrow>
          if function_basename (the_default [] (m_group m ''name'')) = expected then Some offset
          else function_line expected (Suc offset) codes
      | None \<Rightarrow> function_line expected (Suc offset) codes)"

definition line_for_function_basename :: "string \<Rightarrow> string \<Rightarrow> nat option" where
  "line_for_function_basename source basename =
     function_line (function_basename basename) 1 (splitlines (strip_lua_comments_and_strings source))"

definition dedup_site :: "dedup_entry \<Rightarrow> string \<Rightarrow> string \<Rightarrow> inventory_site" where
  "dedup_site entry relpath source =
     \<lparr>st_path = relpath, st_line = the_default 1 (line_for_function_basename source (entry_name entry)),
      st_detail = ''duplicate_function: '' @ entry_name entry @ '' '' @ entry_hash entry,
      st_allowlist_entry = Some (allowlist_line entry)\<rparr>"

definition load_code_dedup_inventory :: "tree \<Rightarrow> migration_spec \<Rightarrow> inventory_site list result" where
  "load_code_dedup_inventory root spec =
     bindR (validated_repo_file root (sp_allowlist_path spec)) (\<lambda>allowlist.
     bindR (load_allowlist (Some allowlist)) (\<lambda>entries.
     bindR (mapR (\<lambda>entry.
         mapR (\<lambda>relpath. bindR (validated_repo_file root relpath) (\<lambda>source. Return (dedup_site entry relpath source)))
           (entry_files entry)) (sorted_list_of_fset entries)) (\<lambda>sites.
     Return (sort_key site_key (concat sites)))))"

section \<open>The ratchets\<close>

definition gh_git_spec :: migration_spec where
  "gh_git_spec =
     \<lparr>sp_parent = ''891'', sp_ratchet = ''gh-git-adapter'', sp_migration_kind = ''allowlist'',
      sp_allowlist_path = ''migration/gh-git-adapter.allowlist'',
      sp_title = ''gh/git ports adapter allowlist migration slice'',
      sp_reference_shape = ''Migrate raw gh/git command construction behind forge.github/forge.git adapter operations.'',
      sp_allowlist_contract = []\<rparr>"

definition saga_spec :: migration_spec where
  "saga_spec =
     \<lparr>sp_parent = ''979'', sp_ratchet = ''saga-handler'', sp_migration_kind = ''allowlist'',
      sp_allowlist_path = ''migration/saga-handler.allowlist'',
      sp_title = ''saga handler allowlist migration slice'',
      sp_reference_shape = ''Use the existing workflow.saga.department(spec, handlers) shape from migrated departments.'',
      sp_allowlist_contract =
        [''A '' @ [BTICK] @ ''saga-handler'' @ [BTICK] @ '' slice is single-flight by stable '' @ [BTICK] @ ''dedup_key'' @ [BTICK] @
           '': at most one live issue or PR surface may own the same '' @ [BTICK] @ ''dedup_key'' @ [BTICK] @ ''.'',
         ''Before opening or implementing a duplicate slice, prove the prior surface is stale, cancelled, invalid, or explicitly waived as a duplicate run.'',
         ''If the same '' @ [BTICK] @ ''dedup_key'' @ [BTICK] @ '' is already live without that proof, treat the slice as in-flight and make no source changes.'']\<rparr>"

definition code_dedup_spec :: migration_spec where
  "code_dedup_spec =
     \<lparr>sp_parent = ''1018'', sp_ratchet = ''code-dedup'', sp_migration_kind = ''allowlist'',
      sp_allowlist_path = ''migration/code-dedup.allowlist'',
      sp_title = ''code dedup allowlist migration slice'',
      sp_reference_shape = ''Hoist the byte-identical production Lua function body to an existing shared module such as std.*, then call the shared helper from each site.'',
      sp_allowlist_contract =
        [[BTICK] @ ''migration/code-dedup.allowlist'' @ [BTICK] @ '' is a shrink-only debt ledger, not an alternate duplicate inventory.'',
         ''The authoritative current inventory is derived from '' @ [BTICK] @ ''check_repo_dedup.duplicate_groups'' @ [BTICK] @
           ''; an allowlist line is retained only while that exact duplicate group still exists.'',
         ''A '' @ [BTICK] @ ''code-dedup'' @ [BTICK] @ '' allowlist line is owned as one group by its function name, body hash, and listed file set.'',
         ''After a selected group is migrated so the exact duplicate group no longer exists, remove the whole matching allowlist line; do not preserve a reduced singleton entry such as '' @
           [BTICK] @ ''safe_segment'' @ [BTICK] @ '' as a live allowlist exception.'',
         ''This spec-only slice explicitly waives a migration-slicer recurrence-class fix; any broader slicer deduplication change must be tracked separately.'']\<rparr>"

definition specs :: "(string \<times> migration_spec) list" where
  "specs = [(''gh-git-adapter'', gh_git_spec), (''saga-handler'', saga_spec), (''code-dedup'', code_dedup_spec)]"

section \<open>The document of a slice\<close>

definition markdown_code :: "string \<Rightarrow> string" where
  "markdown_code s = [BTICK] @ replace [BTICK] [BSLASH, BTICK] s @ [BTICK]"

definition selected_sites :: "inventory_site list \<Rightarrow> nat \<Rightarrow> inventory_site list" where
  "selected_sites inventory slice_size = take slice_size inventory"

definition entry_key :: "string \<Rightarrow> inventory_site \<Rightarrow> string" where
  "entry_key allowlist_path site =
     sha256_hex (utf8 (''fkst-migration-slice-v1'' @ [CHR 0x00] @ allowlist_path @ [CHR 0x00] @ entry_id site))"

definition site_record :: "migration_spec \<Rightarrow> inventory_site \<Rightarrow> jobject" where
  "site_record spec site =
     [(''path'', JStr (st_path site)), (''line'', JInt (int (st_line site))), (''detail'', JStr (st_detail site)),
      (''site_ref'', JStr (site_ref site)), (''allowlist_entry'', JStr (entry_id site)),
      (''entry_key'', JStr (entry_key (sp_allowlist_path spec) site))]"

definition site_records :: "migration_spec \<Rightarrow> inventory_site list \<Rightarrow> nat \<Rightarrow> jobject list" where
  "site_records spec inventory slice_size = map (site_record spec) (selected_sites inventory slice_size)"

definition fingerprint_flags :: dump_flags where
  "fingerprint_flags = \<lparr>df_ascii = False, df_sort = True, df_item = '','', df_key = '':''\<rparr>"

definition sites_fingerprint :: "jobject list \<Rightarrow> string" where
  "sites_fingerprint sites = take 16 (sha256_hex (utf8 (dumps fingerprint_flags (JArr (map JObj sites)))))"

text \<open>\<open>int(spec.parent)\<close> is the only part of the document that can fail.\<close>

record slice_doc =
  sd_schema :: string
  sd_ratchet :: string
  sd_parent_issue :: int
  sd_migration_kind :: string
  sd_allowlist_path :: string
  sd_title :: string
  sd_reference_shape :: string
  sd_current_count :: nat
  sd_target_count :: int
  sd_slice_size :: nat
  sd_selected_count :: nat
  sd_fingerprint :: string
  sd_dedup_key :: string
  sd_sites :: "jobject list"

definition slice_document :: "migration_spec \<Rightarrow> inventory_site list \<Rightarrow> nat \<Rightarrow> slice_doc result" where
  "slice_document spec inventory slice_size =
     (let sites = site_records spec inventory slice_size; fingerprint = sites_fingerprint sites in
      case int_of_str (sp_parent spec) of
        None \<Rightarrow> Raise (ValueError ''invalid literal for int() with base 10'')
      | Some parent_issue \<Rightarrow>
          Return \<lparr>sd_schema = SCHEMA, sd_ratchet = sp_ratchet spec, sd_parent_issue = parent_issue,
                  sd_migration_kind = sp_migration_kind spec, sd_allowlist_path = sp_allowlist_path spec,
                  sd_title = sp_title spec, sd_reference_shape = sp_reference_shape spec,
                  sd_current_count = length inventory, sd_target_count = TARGET_COUNT, sd_slice_size = slice_size,
                  sd_selected_count = length sites, sd_fingerprint = fingerprint, sd_dedup_key = sp_ratchet spec @ ''/slice/'' @ fingerprint,
                  sd_sites = sites\<rparr>)"

section \<open>Markers\<close>

definition ensure_marker_value :: "string \<Rightarrow> string result" where
  "ensure_marker_value s =
     (if fullmatches SAFE_MARKER_VALUE_RE s then Return s else Raise (ValueError (''unsafe marker value: '' @ s)))"

definition issue_create_marker :: "string \<Rightarrow> string result" where
  "issue_create_marker dedup_key =
     bindR (ensure_marker_value dedup_key) (\<lambda>v. Return (''<!-- fkst:github-proxy:issue-create:'' @ v @ '' -->''))"

definition issue_create_intent_marker :: "string \<Rightarrow> string result" where
  "issue_create_intent_marker dedup_key =
     bindR (ensure_marker_value dedup_key) (\<lambda>v.
       Return (''<!-- fkst:github-proxy:issue-create-intent:v1 dedup='' @ [DQ] @ v @ [DQ] @ '' -->''))"

definition issue_created_marker :: "string \<Rightarrow> int option \<Rightarrow> string result" where
  "issue_created_marker dedup_key number =
     bindR (ensure_marker_value dedup_key) (\<lambda>v.
       Return (''<!-- fkst:github-proxy:issue-created:v1 dedup='' @ [DQ] @ v @ [DQ] @ '' issue='' @ [DQ] @
         (case number of None \<Rightarrow> ''unknown'' | Some n \<Rightarrow> str_int n) @ [DQ] @ '' -->''))"

definition record_entry_key :: "jobject \<Rightarrow> string option" where
  "record_entry_key site = as_str (jget site ''entry_key'')"

definition marker_field :: "string \<Rightarrow> string \<Rightarrow> string" where
  "marker_field name v = '' '' @ name @ ''='' @ [DQ] @ v @ [DQ]"

text \<open>The attributes are checked in the order in which they are written.\<close>

definition ratchet_slice_marker :: "slice_doc \<Rightarrow> string result" where
  "ratchet_slice_marker doc =
     (let sites = sd_sites doc;
          entry_keys = join '','' (List.map_filter record_entry_key sites);
          single_key = (case sites of [site] \<Rightarrow> the_default [] (record_entry_key site) | _ \<Rightarrow> [])
      in bindR (ensure_marker_value (sd_schema doc)) (\<lambda>schema.
         bindR (ensure_marker_value (sd_ratchet doc)) (\<lambda>ratchet.
         bindR (ensure_marker_value (sd_dedup_key doc)) (\<lambda>dedup.
         bindR (ensure_marker_value (sd_fingerprint doc)) (\<lambda>fingerprint.
         bindR (ensure_marker_value (sd_allowlist_path doc)) (\<lambda>allowlist_path.
         bindR (ensure_marker_value single_key) (\<lambda>key.
         bindR (if single_key \<noteq> [] then ensure_marker_value (''refs/fkst/migration-slices/'' @ single_key) else Return []) (\<lambda>coord_ref.
         bindR (ensure_marker_value entry_keys) (\<lambda>entries.
         Return (''<!-- fkst:ratchet-slice:v1'' @ marker_field ''schema'' schema @ marker_field ''ratchet'' ratchet @
           marker_field ''parent'' (str_int (sd_parent_issue doc)) @ marker_field ''dedup'' dedup @
           marker_field ''fingerprint'' fingerprint @ marker_field ''allowlist_path'' allowlist_path @
           marker_field ''entry_key'' key @ marker_field ''generation'' ''1'' @ marker_field ''coord_ref'' coord_ref @
           marker_field ''entries'' entries @ '' -->''))))))))))"

definition ratchet_slice_search_query :: "string \<Rightarrow> string result" where
  "ratchet_slice_search_query ratchet =
     bindR (ensure_marker_value ratchet) (\<lambda>v. Return (''fkst:ratchet-slice:v1 ratchet='' @ [DQ] @ v @ [DQ]))"

definition selected_entry_keys :: "slice_doc \<Rightarrow> string fset" where
  "selected_entry_keys doc = fset_of_list (List.map_filter record_entry_key (sd_sites doc))"

text \<open>\<open><!-- KIND .*?-->\<close> and \<open>\bNAME="([^"]*)"\<close>\<close>

definition comment_marker_re :: "string \<Rightarrow> regex" where
  "comment_marker_re kind = rseq [rlit (''<!-- '' @ kind @ '' ''), RStar False rany, rlit ''-->'']"

definition attribute_re :: "string \<Rightarrow> regex" where
  "attribute_re name = rseq [RWordB, rlit (name @ ''='' @ [DQ]), RGroup ''1'' (rstar (RSet (\<lambda>c. c \<noteq> DQ))), rchar DQ]"

definition ratchet_slice_markers :: "string \<Rightarrow> string list" where
  "ratchet_slice_markers body = re_findall (comment_marker_re ''fkst:ratchet-slice:v1'') body"

definition marker_attribute :: "string \<Rightarrow> string \<Rightarrow> string option" where
  "marker_attribute marker name = (case re_search (attribute_re name) marker of None \<Rightarrow> None | Some m \<Rightarrow> m_group m ''1'')"

definition marker_entry_keys :: "string \<Rightarrow> string fset option" where
  "marker_entry_keys marker =
     (case marker_attribute marker ''entries'' of
        None \<Rightarrow> None
      | Some entries \<Rightarrow> Some (if entries = [] then {||} else fset_of_list (filter (\<lambda>e. e \<noteq> []) (split_char (CHR '','') entries))))"

section \<open>Issue text\<close>

definition slice_issue_title :: "slice_doc \<Rightarrow> string" where
  "slice_issue_title doc = sd_title doc @ '': '' @ sd_fingerprint doc"

definition DRY_RUN_LINE :: string where
  "DRY_RUN_LINE = ''Dry-run child issue draft. No GitHub state was modified.''"

definition ratchet_lines :: "migration_spec \<Rightarrow> slice_doc \<Rightarrow> string list" where
  "ratchet_lines spec doc =
     [''# '' @ sp_title spec, [], DRY_RUN_LINE, [], ''## Ratchet'', ''- parent_issue: #'' @ sp_parent spec,
      ''- ratchet: '' @ markdown_code (sp_ratchet spec), ''- migration_kind: '' @ markdown_code (sp_migration_kind spec),
      ''- allowlist_path: '' @ markdown_code (sp_allowlist_path spec),
      ''- current_count: '' @ str_int (int (sd_current_count doc)), ''- target_count: '' @ str_int TARGET_COUNT,
      ''- slice_size: '' @ str_int (int (sd_slice_size doc)), ''- selected_count: '' @ str_int (int (length (sd_sites doc))),
      ''- sites_fingerprint: '' @ markdown_code (sd_fingerprint doc), ''- dedup_key: '' @ markdown_code (sd_dedup_key doc),
      [], ''## Reference Shape'', sp_reference_shape spec, []]"

definition acceptance_lines :: "string \<Rightarrow> string list" where
  "acceptance_lines allowlist_path =
     [[], ''## Acceptance Criteria'', ''- Migrate only the exact sites listed above.'',
      ''- Remove only those migrated entries from '' @ [BTICK] @ allowlist_path @ [BTICK] @ ''.'',
      ''- If every listed site is already migrated and every corresponding allowlist entry is already absent, treat the slice as already converged and make no source changes.'',
      ''- The allowlist count decreases only for listed entries still present in '' @ [BTICK] @ allowlist_path @ [BTICK] @
        '' and may be unchanged only when the slice is already converged.'',
      ''- Behavior is preserved.'', ''- '' @ [BTICK] @ ''scripts/run.sh test'' @ [BTICK] @ '' exits 0.'',
      ''- No broad cleanup, opportunistic refactors, or unrelated migration work.'']"

definition render_child_issue :: "migration_spec \<Rightarrow> inventory_site list \<Rightarrow> nat \<Rightarrow> string result" where
  "render_child_issue spec inventory slice_size =
     bindR (slice_document spec inventory slice_size) (\<lambda>doc.
       let selected = selected_sites inventory slice_size in
       Return (join [LF]
         (ratchet_lines spec doc @
          (if sp_allowlist_contract spec = [] then []
           else [''## Allowlist Contract''] @ map (\<lambda>line. ''- '' @ line) (sp_allowlist_contract spec) @ [[]]) @
          [''## Exact Sites''] @
          (if selected = [] then [''- none'']
           else map (\<lambda>site. ''- '' @ markdown_code (site_ref site) @ '' ('' @ markdown_code (st_detail site) @ '')'') selected) @
          acceptance_lines (sp_allowlist_path spec) @
          (if selected = [] then [''- No child issue is needed because the target count is already reached.''] else [])) @ [LF]))"

definition render_reconciled_issue_body :: "migration_spec \<Rightarrow> inventory_site list \<Rightarrow> nat \<Rightarrow> string result" where
  "render_reconciled_issue_body spec inventory slice_size =
     bindR (slice_document spec inventory slice_size) (\<lambda>doc.
     bindR (render_child_issue spec inventory slice_size) (\<lambda>body.
     bindR (issue_create_marker (sd_dedup_key doc)) (\<lambda>create_marker.
     bindR (ratchet_slice_marker doc) (\<lambda>slice_marker.
     Return (replace DRY_RUN_LINE ''Machine-filed ratchet slice issue.'' body @ [LF] @ create_marker @ [LF] @ slice_marker @ [LF])))))"

text \<open>The plan as the document that is printed.\<close>

definition controller_plan :: "migration_spec \<Rightarrow> inventory_site list \<Rightarrow> nat \<Rightarrow> jobject result" where
  "controller_plan spec inventory slice_size =
     (if inventory = [] then
        Return [(''schema_version'', JStr SCHEMA), (''ratchet'', JStr (sp_ratchet spec)),
                (''allowlist_path'', JStr (sp_allowlist_path spec)), (''remaining_count'', JInt 0),
                (''slice_size'', JInt (int slice_size)), (''status'', JStr ''inventory_empty''), (''next_slice'', JNull)]
      else
        bindR (slice_document spec inventory 1) (\<lambda>doc.
        bindR (render_reconciled_issue_body spec inventory 1) (\<lambda>body.
        Return [(''schema_version'', JStr SCHEMA), (''ratchet'', JStr (sp_ratchet spec)),
                (''allowlist_path'', JStr (sp_allowlist_path spec)), (''remaining_count'', JInt (int (length inventory))),
                (''slice_size'', JInt 1), (''status'', JStr ''slice_available''),
                (''next_slice'', JObj
                   [(''dedup_key'', JStr (sd_dedup_key doc)), (''sites'', JArr (map JObj (sd_sites doc))),
                    (''title'', JStr (slice_issue_title doc)), (''body'', JStr body),
                    (''labels'', JArr (map JStr DEFAULT_LABELS))])])))"

section \<open>Which values a marker takes\<close>

definition marker_safe :: "string \<Rightarrow> bool" where
  "marker_safe s \<longleftrightarrow> s \<noteq> [] \<and> list_all marker_char s"

lemma anchored_plus_fullmatches: "fullmatches (rseq [RBol, rplus (RSet P), REol]) s \<longleftrightarrow> s \<noteq> [] \<and> list_all P s"
proof -
  have "fullmatches (rseq [RBol, rplus (RSet P), REol]) s \<longleftrightarrow>
      (\<exists>i p g. ((i, p, []), g) \<in> set (rmatch (rplus (RSet P)) (0, None, s) []))"
    unfolding fullmatches_iff by (auto simp: rmatch_RSeq_iff split: if_splits)
  also have "\<dots> \<longleftrightarrow> s \<noteq> [] \<and> list_all P s"
    unfolding fullmatches_iff [symmetric] by (rule fullmatches_plus)
  finally show ?thesis .
qed

lemma ensure_marker_value_eq:
  "ensure_marker_value s = (if marker_safe s then Return s else Raise (ValueError (''unsafe marker value: '' @ s)))"
  unfolding ensure_marker_value_def SAFE_MARKER_VALUE_RE_def anchored_plus_fullmatches marker_safe_def ..

lemma hex_marker_char: "is_hex_char c \<Longrightarrow> marker_char c"
  by (auto simp: is_hex_char_def marker_char_def char_class_defs Let_def)

lemma hex_marker_safe: "list_all is_hex_char s \<Longrightarrow> s \<noteq> [] \<Longrightarrow> marker_safe s"
  by (auto simp: marker_safe_def list_all_iff hex_marker_char)

lemma entry_key_safe: "marker_safe (entry_key path site)"
  unfolding entry_key_def using sha256_hex_shape by (intro hex_marker_safe) (auto simp flip: length_0_conv)

lemma fingerprint_safe: "marker_safe (sites_fingerprint sites)"
  unfolding sites_fingerprint_def using sha256_hex_shape
  by (intro hex_marker_safe) (auto simp flip: length_0_conv simp: list_all_iff dest: in_set_takeD)

lemma dedup_key_safe: "marker_safe ratchet \<Longrightarrow> marker_safe (ratchet @ ''/slice/'' @ sites_fingerprint sites)"
  using fingerprint_safe [of sites] by (simp add: marker_safe_def marker_char_def char_class_defs)

text \<open>A comment that a tool writes is found again, and its attributes are read back.\<close>

lemma comment_found:
  assumes "CHR ''>'' \<notin> set body" "LF \<notin> set body"
  shows "\<exists>ms. re_findall (comment_marker_re kind) (''<!-- '' @ kind @ '' '' @ body @ ''-->'' @ rest) =
    (''<!-- '' @ kind @ '' '' @ body @ ''-->'') # ms"
proof -
  let ?pre = "''<!-- '' @ kind @ '' ''" and ?cs = "body @ ''-->'' @ rest"
  let ?s = "?pre @ ?cs"
  obtain p where p: "adv (length ?pre) (0, None, ?s) = (length ?pre, p, ?cs)"
    using adv_prefix [of ?pre 0 None ?cs] by auto
  have far: "length body \<le> length (takeWhile (\<lambda>c. c \<noteq> LF) ?cs)"
    using assms(2) by (auto simp: takeWhile_append)
  have gt: "\<not> prefix ''-->'' (drop k ?cs)" if "k < length body" for k
  proof
    assume "prefix ''-->'' (drop k ?cs)"
    then have "drop k ?cs ! 2 = CHR ''>''" by (auto simp: prefix_def)
    then have "?cs ! (k + 2) = CHR ''>''" using that nth_drop [of k ?cs 2] by (simp only: length_append)
    then show False using that assms(1) nth_mem [of "k + 2" body]
      by (cases "k + 2 < length body") (auto simp: nth_append nth_Cons split: nat.splits)
  qed
  have hit: "prefix ''-->'' (drop (length body) ?cs)" by simp
  have lit: "rmatch (rlit ?pre) (0, None, ?s) [] = [((length ?pre, p, ?cs), [])]"
    using p by (simp only: rmatch_rlit) simp
  obtain more where "rmatch (comment_marker_re kind) (0, None, ?s) [] =
      (adv (length body + length ''-->'') (length ?pre, p, ?cs), []) # more"
    using lazy_until [OF gt hit far, of "length ?pre" p "[]"] lit unfolding comment_marker_re_def rseq.simps
    by (simp only: rmatch.simps(3) list.map concat.simps prod.case append_Nil2) blast
  moreover obtain p' where "adv (length body + length ''-->'') (length ?pre, p, ?cs) = (length ?pre + length body + 3, p', rest)"
    using adv_prefix [of "body @ ''-->''" "length ?pre" p rest] by auto
  moreover have taken: "take (length ?pre + length body + 3) ?s = ?pre @ body @ ''-->''"
  proof -
    have "length ?pre + length body + 3 = length (?pre @ body @ ''-->'')" "?s = (?pre @ body @ ''-->'') @ rest" by simp_all
    then show ?thesis by (metis append_eq_conv_conj)
  qed
  ultimately have "match_at (comment_marker_re kind) (0, None, ?s) =
      Some \<lparr>m_start = 0, m_end = length ?pre + length body + 3, m_text = ?pre @ body @ ''-->'', m_groups = []\<rparr>"
    unfolding match_at_def mk_match_def by (simp only: list.case fst_conv snd_conv diff_zero)
  then have "search_at (comment_marker_re kind) 0 None ?s =
      Some \<lparr>m_start = 0, m_end = length ?pre + length body + 3, m_text = ?pre @ body @ ''-->'', m_groups = []\<rparr>"
    by simp
  then show ?thesis
    unfolding re_findall_def re_finditer_def
    by (subst finditer_from.simps) (simp add: re_search_from_def pos_at_def)
qed


lemma attribute_found:
  assumes first: "\<And>j. j < length a \<Longrightarrow> \<not> prefix (name @ ''='' @ [DQ]) (drop j (a @ name @ ''='' @ [DQ] @ v @ [DQ] @ rest))"
    and boundary: "word_at (if a = [] then None else Some (last a)) \<noteq> word_at (next_char (name @ ''=''))"
    and "DQ \<notin> set v"
  shows "marker_attribute (a @ name @ ''='' @ [DQ] @ v @ [DQ] @ rest) name = Some v"
proof -
  let ?key = "name @ ''='' @ [DQ]" and ?rest = "v @ DQ # rest"
  have miss: "match_at (attribute_re name) (j, q, drop j (a @ ?key @ ?rest)) = None" if "j < length a" for j q
    using first [OF that] by (simp add: match_at_def attribute_re_def rmatch_rlit)
  have "next_char (?key @ ?rest) = next_char (name @ ''='')" by (cases name) (simp_all add: next_char_def)
  then have wordb: "rmatch RWordB (length a, if a = [] then None else Some (last a), ?key @ ?rest) [] =
      [((length a, if a = [] then None else Some (last a), ?key @ ?rest), [])]"
    using boundary by (simp only: rmatch.simps fst_conv snd_conv if_True simp_thms)
  obtain p where p: "adv (length ?key) (length a, if a = [] then None else Some (last a), ?key @ ?rest) = (length a + length ?key, p, ?rest)"
    using adv_prefix by blast
  have lit: "rmatch (rlit ?key) (length a, if a = [] then None else Some (last a), ?key @ ?rest) [] = [((length a + length ?key, p, ?rest), [])]"
    unfolding rmatch_rlit p by simp
  have "rmatch (RSeq (RGroup ''1'' (rstar (RSet (\<lambda>c. c \<noteq> DQ)))) (rchar DQ)) (length a + length ?key, p, ?rest) [] =
      [(adv (Suc (length v)) (length a + length ?key, p, ?rest), AList.update ''1'' (length a + length ?key, v) [])]"
    using assms(3) by (intro greedy_until) (auto simp: list_all_iff)
  with wordb lit have "rmatch (attribute_re name) (length a, if a = [] then None else Some (last a), ?key @ ?rest) [] =
      [(adv (Suc (length v)) (length a + length ?key, p, ?rest), AList.update ''1'' (length a + length ?key, v) [])]"
    unfolding attribute_re_def rseq.simps
    by (simp only: rmatch.simps(3) list.map concat.simps prod.case append_Nil2)
  then have hit: "\<exists>m. match_at (attribute_re name) (length a, if a = [] then None else Some (last a), ?key @ ?rest) = Some m \<and> m_group m ''1'' = Some v"
    by (simp add: match_at_def mk_match_def m_group_def)
  have "search_at r i q cs = Some m" if "match_at r (i, q, cs) = Some m" for r i q cs m
    using that by (cases cs) simp_all
  moreover have "re_search (attribute_re name) (a @ ?key @ ?rest) =
      search_at (attribute_re name) (length a) (if a = [] then None else Some (last a)) (?key @ ?rest)"
    unfolding re_search_def using search_skip [of a "attribute_re name" 0 "?key @ ?rest" None] miss by simp
  ultimately show ?thesis using hit by (auto simp: marker_attribute_def)
qed

lemma slice_document_eq:
  "slice_document spec inventory n = Return doc \<Longrightarrow>
     sd_sites doc = map (site_record spec) (selected_sites inventory n) \<and> sd_ratchet doc = sp_ratchet spec
     \<and> sd_allowlist_path doc = sp_allowlist_path spec \<and> sd_schema doc = SCHEMA
     \<and> sd_fingerprint doc = sites_fingerprint (sd_sites doc) \<and> sd_dedup_key doc = sp_ratchet spec @ ''/slice/'' @ sd_fingerprint doc"
  by (auto simp: slice_document_def site_records_def Let_def split: option.splits)

lemma site_record_key: "record_entry_key (site_record spec site) = Some (entry_key (sp_allowlist_path spec) site)"
  by (simp add: record_entry_key_def site_record_def jget_def)

lemma slice_marker_multi:
  assumes "slice_document spec inventory n = Return doc" "marker_safe (sp_ratchet spec)" "marker_safe (sp_allowlist_path spec)"
    and "length (selected_sites inventory n) \<noteq> 1"
  shows "ratchet_slice_marker doc = Raise (ValueError ''unsafe marker value: '')"
proof -
  note doc = slice_document_eq [OF assms(1)]
  have schema: "marker_safe SCHEMA" by (simp add: SCHEMA_def marker_safe_def marker_char_def char_class_defs)
  have "(case sd_sites doc of [site] \<Rightarrow> the_default [] (record_entry_key site) | _ \<Rightarrow> []) = []"
    using doc assms(4) by (cases "selected_sites inventory n" rule: remdups_adj.cases) auto
  moreover have "\<not> marker_safe []" by (simp add: marker_safe_def)
  ultimately show ?thesis
    using doc schema assms(2,3) dedup_key_safe [OF assms(2)] fingerprint_safe
    by (simp add: ratchet_slice_marker_def Let_def ensure_marker_value_eq)
qed

lemma spec_parents: "(name, spec) \<in> set specs \<Longrightarrow> \<exists>k. int_of_str (sp_parent spec) = Some k"
proof -
  have "int_of_str ''891'' = Some 891" "int_of_str ''979'' = Some 979" "int_of_str ''1018'' = Some 1018" by code_simp+
  then show "(name, spec) \<in> set specs \<Longrightarrow> \<exists>k. int_of_str (sp_parent spec) = Some k"
    by (auto simp: specs_def gh_git_spec_def saga_spec_def code_dedup_spec_def)
qed

lemma spec_safe: "(name, spec) \<in> set specs \<Longrightarrow> marker_safe (sp_ratchet spec) \<and> marker_safe (sp_allowlist_path spec)"
  by (auto simp: specs_def gh_git_spec_def saga_spec_def code_dedup_spec_def marker_safe_def marker_char_def char_class_defs)

text \<open>
  C21. A slice with no site or with two or more sites has no issue text: writing its marker raises, for
  every ratchet, although the default slice size is three. Only slices of one site can be filed.
\<close>

theorem multi_site_slice_unrenderable:
  assumes "(name, spec) \<in> set specs" "length (selected_sites inventory n) \<noteq> 1"
  shows "render_reconciled_issue_body spec inventory n = Raise (ValueError ''unsafe marker value: '')"
proof -
  note safe = conjunct1 [OF spec_safe [OF assms(1)]] conjunct2 [OF spec_safe [OF assms(1)]]
  from spec_parents [OF assms(1)] obtain doc where doc: "slice_document spec inventory n = Return doc"
    by (auto simp: slice_document_def Let_def)
  have key: "marker_safe (sd_dedup_key doc)"
    using slice_document_eq [OF doc] dedup_key_safe [OF safe(1), of "sd_sites doc"] by simp
  show ?thesis
    using slice_marker_multi [OF doc safe assms(2)] key
    by (simp add: render_reconciled_issue_body_def doc render_child_issue_def issue_create_marker_def ensure_marker_value_eq Let_def)
qed

definition demo_sites :: "inventory_site list" where
  "demo_sites = [\<lparr>st_path = ''a.lua'', st_line = 1, st_detail = ''d'', st_allowlist_entry = None\<rparr>,
                 \<lparr>st_path = ''b.lua'', st_line = 2, st_detail = ''d'', st_allowlist_entry = None\<rparr>]"

theorem multi_site_slice_unrenderable_witness:
  "render_reconciled_issue_body saga_spec demo_sites (nat DEFAULT_SLICE_SIZE) = Raise (ValueError ''unsafe marker value: '')"
  by (rule multi_site_slice_unrenderable [of "''saga-handler''"])
    (simp_all add: specs_def selected_sites_def demo_sites_def DEFAULT_SLICE_SIZE_def)

end
