(* ===== verification/SliceReconcile.thy ===== *)
theory SliceReconcile
  imports SlicePlan
begin

text \<open>
  The second half of \<^verbatim>\<open>packages/github-ratchet-migration-slicer/tools/ratchet_migration_slicer.py\<close>: the client
  that runs \<^verbatim>\<open>gh\<close>, the records read through it, and the reconciliation of one ratchet with its parent
  issue.

  The program \<^verbatim>\<open>gh\<close> is a parameter, a function from a call and a state of the world to what running it does
  and the new state. A computation returns its result, or the exception it raised, with the new state and
  the calls it made, in order. The reconciliation takes its client as an argument, as the code does; what
  it relies on is the locale \<open>github_ops\<close>, which the client of the tool implements.

  Shown here: without the write switch nothing is changed on GitHub; all reads come before all changes,
  and the changes are a closing of the parent, or an intent, one creation and its confirmation, in this
  order and cut off at most at an exception; a slice recorded on the parent as created is found again.
\<close>

section \<open>Computations that call gh\<close>

record gh_call =
  gc_argv :: "string list"
  gc_body :: "string option"  \<comment> \<open>the text of the file given with \<open>--body-file\<close>\<close>

text \<open>Exit status, standard output and standard error, or the \<open>OSError\<close> of a program that cannot be started.\<close>

datatype gh_process = GhStarted int string string | GhNotStarted string

type_synonym 'w gh = "gh_call \<Rightarrow> 'w \<Rightarrow> gh_process \<times> 'w"
type_synonym ('w, 'a) client = "'w \<Rightarrow> 'a result \<times> 'w \<times> gh_call list"

definition returnC :: "'a \<Rightarrow> ('w, 'a) client" where
  "returnC x = (\<lambda>w. (Return x, w, []))"

text \<open>Code that calls nothing but may raise.\<close>

definition liftC :: "'a result \<Rightarrow> ('w, 'a) client" where
  "liftC r = (\<lambda>w. (r, w, []))"

definition bindC :: "('w, 'a) client \<Rightarrow> ('a \<Rightarrow> ('w, 'b) client) \<Rightarrow> ('w, 'b) client" where
  "bindC m f = (\<lambda>w. case m w of
     (Inl e, w', calls) \<Rightarrow> (Inl e, w', calls)
   | (Inr x, w', calls) \<Rightarrow> (case f x w' of (r, w'', calls') \<Rightarrow> (r, w'', calls @ calls')))"

record 'w github_client =
  issue_search :: "string \<Rightarrow> string \<Rightarrow> string \<Rightarrow> ('w, jobject list) client"
  issue_view :: "string \<Rightarrow> int \<Rightarrow> string \<Rightarrow> ('w, jobject) client"
  issue_comment :: "string \<Rightarrow> int \<Rightarrow> string \<Rightarrow> ('w, unit) client"
  issue_create :: "string \<Rightarrow> string \<Rightarrow> string \<Rightarrow> string list \<Rightarrow> ('w, int option) client"
  issue_close :: "string \<Rightarrow> int \<Rightarrow> string \<Rightarrow> ('w, unit) client"

section \<open>The client of the tool\<close>

definition run_gh :: "'w gh \<Rightarrow> gh_call \<Rightarrow> ('w, string) client" where
  "run_gh gh call = (\<lambda>w. case gh call w of
     (GhStarted code output errors, w') \<Rightarrow>
       (if code \<noteq> 0 then Raise (RuntimeError (join '' '' (take 3 (gc_argv call)) @ '' failed: '' @ strip errors))
        else Return output, w', [call])
   | (GhNotStarted message, w') \<Rightarrow> (Raise (OSError message), w', [call]))"

definition decode :: "json_diag \<Rightarrow> string \<Rightarrow> json result" where
  "decode diag s = (case json_loads s of None \<Rightarrow> Raise (JSONDecodeError (diag_str diag s)) | Some v \<Rightarrow> Return v)"

definition parse_json_list :: "json_diag \<Rightarrow> string \<Rightarrow> jobject list result" where
  "parse_json_list diag output =
     bindR (decode diag (if output = [] then ''[]'' else output)) (\<lambda>decoded.
       case decoded of
         JArr items \<Rightarrow> Return (List.map_filter as_obj items)
       | _ \<Rightarrow> Raise (ValueError ''GitHub command did not return a JSON list''))"

definition gh_issue_search :: "'w gh \<Rightarrow> json_diag \<Rightarrow> string \<Rightarrow> string \<Rightarrow> string \<Rightarrow> ('w, jobject list) client" where
  "gh_issue_search gh diag repo state query =
     bindC (run_gh gh \<lparr>gc_argv = [''gh'', ''issue'', ''list'', ''--repo'', repo, ''--state'', state, ''--limit'', ''100'',
         ''--search'', query, ''--json'', ''number,title,state,author,body,url''], gc_body = None\<rparr>)
       (\<lambda>output. liftC (parse_json_list diag output))"

definition parse_view :: "json_diag \<Rightarrow> string \<Rightarrow> jobject result" where
  "parse_view diag output =
     bindR (decode diag (if output = [] then ''{}'' else output)) (\<lambda>decoded.
       case decoded of
         JObj d \<Rightarrow> Return d
       | _ \<Rightarrow> Raise (ValueError ''gh issue view did not return a JSON object''))"

definition gh_issue_view :: "'w gh \<Rightarrow> json_diag \<Rightarrow> string \<Rightarrow> int \<Rightarrow> string \<Rightarrow> ('w, jobject) client" where
  "gh_issue_view gh diag repo number json_fields =
     bindC (run_gh gh \<lparr>gc_argv = [''gh'', ''issue'', ''view'', str_int number, ''--repo'', repo, ''--json'', json_fields], gc_body = None\<rparr>)
       (\<lambda>output. liftC (parse_view diag output))"

text \<open>The name of the temporary file is \<open>tmp\<close>.\<close>

definition gh_issue_comment :: "'w gh \<Rightarrow> string \<Rightarrow> string \<Rightarrow> int \<Rightarrow> string \<Rightarrow> ('w, unit) client" where
  "gh_issue_comment gh tmp repo number body =
     bindC (run_gh gh \<lparr>gc_argv = [''gh'', ''issue'', ''comment'', str_int number, ''--repo'', repo, ''--body-file'', tmp], gc_body = Some body\<rparr>)
       (\<lambda>output. returnC ())"

text \<open>\<open>/issues/(\d+)\<close> and \<open>#(\d+)\<close>\<close>

definition number_after_re :: "string \<Rightarrow> regex" where
  "number_after_re lead = rseq [rlit lead, RGroup ''1'' (rplus rdigit)]"

definition parse_created_issue_number :: "string \<Rightarrow> int option" where
  "parse_created_issue_number output =
     (case (case re_search (number_after_re ''/issues/'') output of
              Some m \<Rightarrow> Some m
            | None \<Rightarrow> re_search (number_after_re ''#'') output) of
        None \<Rightarrow> None
      | Some m \<Rightarrow> int_of_str (the_default [] (m_group m ''1'')))"

definition gh_issue_create :: "'w gh \<Rightarrow> string \<Rightarrow> string \<Rightarrow> string \<Rightarrow> string \<Rightarrow> string list \<Rightarrow> ('w, int option) client" where
  "gh_issue_create gh tmp repo title body labels =
     bindC (run_gh gh \<lparr>gc_argv = [''gh'', ''issue'', ''create'', ''--repo'', repo, ''--title'', title, ''--body-file'', tmp] @
         concat (map (\<lambda>label. [''--label'', label]) labels), gc_body = Some body\<rparr>)
       (\<lambda>output. returnC (parse_created_issue_number output))"

definition gh_issue_close :: "'w gh \<Rightarrow> string \<Rightarrow> int \<Rightarrow> string \<Rightarrow> ('w, unit) client" where
  "gh_issue_close gh repo number disposition =
     (if disposition \<notin> {''completed'', ''not planned''}
      then liftC (Raise (ValueError (''unsupported issue close disposition: '' @ disposition)))
      else bindC (run_gh gh \<lparr>gc_argv = [''gh'', ''issue'', ''close'', str_int number, ''--repo'', repo, ''--reason'', disposition], gc_body = None\<rparr>)
             (\<lambda>output. returnC ()))"

definition GithubClient :: "'w gh \<Rightarrow> json_diag \<Rightarrow> string \<Rightarrow> 'w github_client" where
  "GithubClient gh diag tmp =
     \<lparr>issue_search = gh_issue_search gh diag, issue_view = gh_issue_view gh diag, issue_comment = gh_issue_comment gh tmp,
      issue_create = gh_issue_create gh tmp, issue_close = gh_issue_close gh\<rparr>"

section \<open>Records\<close>

text \<open>
  What the code reads of Python's library: \<open>show\<close> is \<open>str()\<close> of floats and containers, \<open>iso_seconds\<close> the
  seconds since the epoch that \<open>datetime.fromisoformat\<close> gives for a text, read as UTC without a zone
  (\<open>None\<close> for a \<open>ValueError\<close>), \<open>now\<close> the clock.
\<close>

record reading =
  rd_show :: "json \<Rightarrow> string"
  rd_iso_seconds :: "string \<Rightarrow> int option"
  rd_now :: int

definition or_empty :: "json \<Rightarrow> json" where
  "or_empty v = (if truth v then v else JStr [])"

definition record_body :: "reading \<Rightarrow> jobject \<Rightarrow> string" where
  "record_body rd issue = str_json (rd_show rd) (or_empty (jget issue ''body''))"

text \<open>\<open>s.upper()\<close> of code points below 256; the two that leave this range are kept.\<close>

definition upper_char :: "char \<Rightarrow> string" where
  "upper_char c = (let n = ord c in
     if 97 \<le> n \<and> n \<le> 122 \<or> 224 \<le> n \<and> n \<le> 254 \<and> n \<noteq> 247 then [char_of (n - 32)]
     else if n = 223 then ''SS'' else [c])"

definition record_state :: "reading \<Rightarrow> jobject \<Rightarrow> string" where
  "record_state rd issue = concat (map upper_char (str_json (rd_show rd) (or_empty (jget issue ''state''))))"

definition issue_author_login :: "reading \<Rightarrow> jobject \<Rightarrow> string option" where
  "issue_author_login rd issue =
     (let by_login = (case jget issue ''author_login'' of
              JNull \<Rightarrow> None | v \<Rightarrow> Some (removesuffix ''[bot]'' (str_json (rd_show rd) v)))
      in case jget issue ''author'' of
           JObj author \<Rightarrow>
             (case jget author ''login'' of
                JNull \<Rightarrow> by_login | v \<Rightarrow> Some (removesuffix ''[bot]'' (str_json (rd_show rd) v)))
         | _ \<Rightarrow> by_login)"

definition is_trusted_record :: "reading \<Rightarrow> jobject \<Rightarrow> string option \<Rightarrow> bool" where
  "is_trusted_record rd issue bot_login =
     (case truthy bot_login of
        None \<Rightarrow> True
      | Some login \<Rightarrow> issue_author_login rd issue = Some (removesuffix ''[bot]'' login))"

definition matching_issues :: "reading \<Rightarrow> jobject list \<Rightarrow> string \<Rightarrow> string option \<Rightarrow> jobject list" where
  "matching_issues rd issues marker bot_login =
     filter (\<lambda>issue. is_trusted_record rd issue bot_login \<and> contains marker (record_body rd issue)) issues"

definition comments_from_parent :: "jobject \<Rightarrow> jobject list" where
  "comments_from_parent parent =
     (case jget parent ''comments'' of JArr comments \<Rightarrow> List.map_filter as_obj comments | _ \<Rightarrow> [])"

definition parent_has_marker :: "reading \<Rightarrow> jobject \<Rightarrow> string \<Rightarrow> string option \<Rightarrow> bool" where
  "parent_has_marker rd parent marker bot_login = (matching_issues rd (comments_from_parent parent) marker bot_login \<noteq> [])"

definition UNKNOWN_LEDGER_HOLD_SECONDS :: int where "UNKNOWN_LEDGER_HOLD_SECONDS = 15 * 60"

definition parse_github_timestamp_seconds :: "reading \<Rightarrow> json \<Rightarrow> int option" where
  "parse_github_timestamp_seconds rd v =
     (if v = JNull then None
      else let stamp = strip (str_json (rd_show rd) v) in
        if stamp = [] then None else rd_iso_seconds rd (replace ''Z'' ''+00:00'' stamp))"

definition comment_created_seconds :: "reading \<Rightarrow> jobject \<Rightarrow> int option" where
  "comment_created_seconds rd comment =
     (case parse_github_timestamp_seconds rd (jget comment ''createdAt'') of
        Some s \<Rightarrow> Some s
      | None \<Rightarrow> parse_github_timestamp_seconds rd (jget comment ''created_at''))"

definition recent_unknown_ledger_comment :: "reading \<Rightarrow> jobject \<Rightarrow> bool" where
  "recent_unknown_ledger_comment rd comment =
     (case comment_created_seconds rd comment of
        None \<Rightarrow> False
      | Some created \<Rightarrow> 0 \<le> rd_now rd - created \<and> rd_now rd - created \<le> UNKNOWN_LEDGER_HOLD_SECONDS)"

text \<open>An issue of the ledger by number, or unresolved.\<close>

datatype ledger_issue = LedgerIssue int | UnresolvedLedgerIssue

definition ledger_marker :: "reading \<Rightarrow> jobject \<Rightarrow> string \<Rightarrow> ledger_issue list" where
  "ledger_marker rd comment marker =
     (let held = (if recent_unknown_ledger_comment rd comment then [UnresolvedLedgerIssue] else []) in
      case marker_attribute marker ''issue'' of
        None \<Rightarrow> held
      | Some issue \<Rightarrow>
          if issue = ''unknown'' then held
          else (case int_of_str issue of None \<Rightarrow> held | Some n \<Rightarrow> [LedgerIssue n]))"

definition parent_issue_created_marker_issues ::
    "reading \<Rightarrow> jobject \<Rightarrow> string \<Rightarrow> string option \<Rightarrow> ledger_issue list result" where
  "parent_issue_created_marker_issues rd parent dedup_key bot_login =
     bindR (ensure_marker_value dedup_key) (\<lambda>v.
       let expected = ''dedup='' @ [DQ] @ v @ [DQ] in
       Return (concat (map (\<lambda>comment.
           concat (map (ledger_marker rd comment)
             (filter (contains expected) (re_findall (comment_marker_re ''fkst:github-proxy:issue-created:v1'') (record_body rd comment)))))
         (filter (\<lambda>comment. is_trusted_record rd comment bot_login) (comments_from_parent parent)))))"

text \<open>\<open>int(issue.get("number"))\<close>, \<open>None\<close> on a \<open>TypeError\<close> or \<open>ValueError\<close>\<close>

definition issue_number :: "jobject \<Rightarrow> int option result" where
  "issue_number issue =
     (case int_of_json (jget issue ''number'') of
        Inr n \<Rightarrow> Return (Some n)
      | Inl (TypeError m) \<Rightarrow> Return None
      | Inl (ValueError m) \<Rightarrow> Return None
      | Inl e \<Rightarrow> Raise e)"

definition slice_overlaps_entry :: "reading \<Rightarrow> jobject \<Rightarrow> string \<Rightarrow> string fset \<Rightarrow> bool" where
  "slice_overlaps_entry rd open_issue ratchet entry_keys =
     list_ex (\<lambda>marker. marker_attribute marker ''ratchet'' = Some ratchet \<and>
        (case marker_entry_keys marker of None \<Rightarrow> True | Some open_keys \<Rightarrow> entry_keys |\<inter>| open_keys \<noteq> {||}))
       (ratchet_slice_markers (record_body rd open_issue))"

section \<open>Reconciliation\<close>

record reconcile_result =
  rr_ratchet :: string
  rr_action :: string
  rr_dedup_key :: "string option"
  rr_issue_number :: "int option"
  rr_parent_issue :: "int option"
  rr_reason :: "string option"

definition to_dict :: "reconcile_result \<Rightarrow> jobject" where
  "to_dict r =
     [(''ratchet'', JStr (rr_ratchet r)), (''action'', JStr (rr_action r))] @
     (case rr_dedup_key r of None \<Rightarrow> [] | Some k \<Rightarrow> [(''dedup_key'', JStr k)]) @
     (case rr_issue_number r of None \<Rightarrow> [] | Some n \<Rightarrow> [(''issue_number'', JInt n)]) @
     (case rr_parent_issue r of None \<Rightarrow> [] | Some n \<Rightarrow> [(''parent_issue'', JInt n)]) @
     (case rr_reason r of None \<Rightarrow> [] | Some s \<Rightarrow> [(''reason'', JStr s)])"

definition outcome_of :: "migration_spec \<Rightarrow> string \<Rightarrow> string option \<Rightarrow> int option \<Rightarrow> int \<Rightarrow> string option \<Rightarrow> reconcile_result" where
  "outcome_of spec action dedup_key number parent_issue reason =
     \<lparr>rr_ratchet = sp_ratchet spec, rr_action = action, rr_dedup_key = dedup_key, rr_issue_number = number,
      rr_parent_issue = Some parent_issue, rr_reason = reason\<rparr>"

definition validate_repo :: "string \<Rightarrow> string result" where
  "validate_repo repo =
     (if fullmatches SAFE_REPO_RE repo then Return repo else Raise (ValueError (''invalid GitHub repository: '' @ repo)))"

definition write_enabled :: "environ \<Rightarrow> bool" where
  "write_enabled env \<longleftrightarrow> env ''FKST_GITHUB_WRITE'' = Some ''1''"

definition trusted_bot_login :: "environ \<Rightarrow> string option result" where
  "trusted_bot_login env =
     (let bot_login = env ''FKST_GITHUB_BOT_LOGIN'' in
      if write_enabled env \<and> truthy bot_login = None
      then Raise (ValueError ''FKST_GITHUB_BOT_LOGIN is required when FKST_GITHUB_WRITE=1'') else Return bot_login)"

definition close_parent ::
    "'w github_client \<Rightarrow> reading \<Rightarrow> migration_spec \<Rightarrow> string \<Rightarrow> bool \<Rightarrow> int \<Rightarrow> jobject \<Rightarrow> ('w, reconcile_result) client" where
  "close_parent client rd spec repo writing parent_issue parent =
     (if record_state rd parent \<noteq> ''OPEN'' then returnC (outcome_of spec ''parent-already-closed'' None None parent_issue None)
      else if writing then
        bindC (issue_close client repo parent_issue ''completed'') (\<lambda>_.
          returnC (outcome_of spec ''closed-parent'' None None parent_issue None))
      else returnC (outcome_of spec ''would-close-parent'' None None parent_issue (Some ''FKST_GITHUB_WRITE!=1'')))"

text \<open>The slices the parent records as created: the first that may still be live decides.\<close>

fun check_ledger ::
    "'w github_client \<Rightarrow> reading \<Rightarrow> migration_spec \<Rightarrow> string \<Rightarrow> string option \<Rightarrow> int \<Rightarrow> string \<Rightarrow> ledger_issue list
     \<Rightarrow> ('w, reconcile_result option) client" where
  "check_ledger client rd spec repo bot_login parent_issue dedup_key [] = returnC None"
| "check_ledger client rd spec repo bot_login parent_issue dedup_key (UnresolvedLedgerIssue # issues) =
     returnC (Some (outcome_of spec ''deduped-parent-ledger'' (Some dedup_key) None parent_issue None))"
| "check_ledger client rd spec repo bot_login parent_issue dedup_key (LedgerIssue n # issues) =
     bindC (issue_view client repo n ''number,state,author,body'') (\<lambda>prior.
       if \<not> is_trusted_record rd prior bot_login \<or> record_state rd prior \<noteq> ''CLOSED''
       then returnC (Some (outcome_of spec ''deduped-parent-ledger'' (Some dedup_key) (Some n) parent_issue None))
       else check_ledger client rd spec repo bot_login parent_issue dedup_key issues)"

definition deduped :: "migration_spec \<Rightarrow> string \<Rightarrow> string \<Rightarrow> int \<Rightarrow> jobject list \<Rightarrow> reconcile_result option result" where
  "deduped spec action dedup_key parent_issue found =
     (case found of
        [] \<Rightarrow> Return None
      | issue # _ \<Rightarrow>
          bindR (issue_number issue) (\<lambda>number.
            Return (Some (outcome_of spec action (Some dedup_key) number parent_issue None))))"

definition open_slices :: "reading \<Rightarrow> migration_spec \<Rightarrow> string option \<Rightarrow> string fset \<Rightarrow> jobject list \<Rightarrow> jobject list" where
  "open_slices rd spec bot_login entry_keys candidates =
     filter (\<lambda>issue. is_trusted_record rd issue bot_login
       \<and> contains ''fkst:ratchet-slice:v1'' (record_body rd issue)
       \<and> contains (''ratchet='' @ [DQ] @ sp_ratchet spec @ [DQ]) (record_body rd issue)
       \<and> slice_overlaps_entry rd issue (sp_ratchet spec) entry_keys) candidates"

definition check_open ::
    "'w github_client \<Rightarrow> reading \<Rightarrow> migration_spec \<Rightarrow> string \<Rightarrow> string option \<Rightarrow> int \<Rightarrow> slice_doc \<Rightarrow> ('w, reconcile_result option) client" where
  "check_open client rd spec repo bot_login parent_issue doc =
     bindC (liftC (ratchet_slice_search_query (sp_ratchet spec))) (\<lambda>query.
     bindC (issue_search client repo ''open'' query) (\<lambda>candidates.
     bindC (liftC (deduped spec ''deduped-in-flight'' (sd_dedup_key doc) parent_issue
        (open_slices rd spec bot_login (selected_entry_keys doc) candidates))) (\<lambda>in_flight.
     case in_flight of
       Some r \<Rightarrow> returnC (Some r)
     | None \<Rightarrow>
         bindC (liftC (issue_create_marker (sd_dedup_key doc))) (\<lambda>exact_marker.
         bindC (issue_search client repo ''open'' exact_marker) (\<lambda>found.
         liftC (deduped spec ''deduped-existing-slice'' (sd_dedup_key doc) parent_issue
           (matching_issues rd found exact_marker bot_login)))))))"

definition publish_slice ::
    "'w github_client \<Rightarrow> reading \<Rightarrow> migration_spec \<Rightarrow> inventory_site list \<Rightarrow> nat \<Rightarrow> string \<Rightarrow> string option \<Rightarrow> string list
     \<Rightarrow> int \<Rightarrow> jobject \<Rightarrow> slice_doc \<Rightarrow> ('w, reconcile_result) client" where
  "publish_slice client rd spec inventory slice_size repo bot_login labels parent_issue parent doc =
     bindC (liftC (issue_create_intent_marker (sd_dedup_key doc))) (\<lambda>intent.
     bindC (if parent_has_marker rd parent intent bot_login then returnC ()
            else issue_comment client repo parent_issue (intent @ [LF])) (\<lambda>_.
     bindC (liftC (render_reconciled_issue_body spec inventory slice_size)) (\<lambda>body.
     bindC (issue_create client repo (slice_issue_title doc) body labels) (\<lambda>issue.
     bindC (liftC (issue_created_marker (sd_dedup_key doc) issue)) (\<lambda>created.
     bindC (issue_comment client repo parent_issue (created @ [LF])) (\<lambda>_.
     returnC (outcome_of spec ''created-slice'' (Some (sd_dedup_key doc)) issue parent_issue None)))))))"

definition reconcile_slice ::
    "'w github_client \<Rightarrow> reading \<Rightarrow> migration_spec \<Rightarrow> inventory_site list \<Rightarrow> nat \<Rightarrow> string \<Rightarrow> string option \<Rightarrow> bool \<Rightarrow> string list
     \<Rightarrow> int \<Rightarrow> jobject \<Rightarrow> ('w, reconcile_result) client" where
  "reconcile_slice client rd spec inventory slice_size repo bot_login writing labels parent_issue parent =
     bindC (liftC (slice_document spec inventory slice_size)) (\<lambda>doc.
     bindC (liftC (parent_issue_created_marker_issues rd parent (sd_dedup_key doc) bot_login)) (\<lambda>ledger.
     bindC (check_ledger client rd spec repo bot_login parent_issue (sd_dedup_key doc) ledger) (\<lambda>recorded.
     case recorded of
       Some r \<Rightarrow> returnC r
     | None \<Rightarrow>
         bindC (check_open client rd spec repo bot_login parent_issue doc) (\<lambda>live.
         case live of
           Some r \<Rightarrow> returnC r
         | None \<Rightarrow>
             if \<not> writing then
               returnC (outcome_of spec ''would-create-slice'' (Some (sd_dedup_key doc)) None parent_issue (Some ''FKST_GITHUB_WRITE!=1''))
             else publish_slice client rd spec inventory slice_size repo bot_login labels parent_issue parent doc))))"

definition parent_number :: "migration_spec \<Rightarrow> int result" where
  "parent_number spec =
     (case int_of_str (sp_parent spec) of
        None \<Rightarrow> Raise (ValueError ''invalid literal for int() with base 10'')
      | Some n \<Rightarrow> Return n)"

definition reconcile_ratchet ::
    "'w github_client \<Rightarrow> reading \<Rightarrow> migration_spec \<Rightarrow> inventory_site list \<Rightarrow> nat \<Rightarrow> string \<Rightarrow> environ \<Rightarrow> string list option
     \<Rightarrow> ('w, reconcile_result) client" where
  "reconcile_ratchet client rd spec inventory slice_size repo env labels =
     bindC (liftC (validate_repo repo)) (\<lambda>repo.
     bindC (liftC (trusted_bot_login env)) (\<lambda>bot_login.
     bindC (liftC (parent_number spec)) (\<lambda>parent_issue.
     bindC (issue_view client repo parent_issue ''number,state,comments'') (\<lambda>parent.
     if inventory = [] then close_parent client rd spec repo (write_enabled env) parent_issue parent
     else reconcile_slice client rd spec inventory slice_size repo bot_login (write_enabled env)
            (case labels of None \<Rightarrow> DEFAULT_LABELS | Some ls \<Rightarrow> if ls = [] then DEFAULT_LABELS else ls) parent_issue parent))))"

section \<open>Kinds of calls\<close>

datatype call_kind = Read | CommentCall | CreateCall | CloseCall | OtherCall

definition kind_of :: "gh_call \<Rightarrow> call_kind" where
  "kind_of call =
     (case gc_argv call of
        program # noun # verb # _ \<Rightarrow>
          if program \<noteq> ''gh'' \<or> noun \<noteq> ''issue'' then OtherCall
          else if verb = ''list'' \<or> verb = ''view'' then Read
          else if verb = ''comment'' then CommentCall
          else if verb = ''create'' then CreateCall
          else if verb = ''close'' then CloseCall else OtherCall
      | _ \<Rightarrow> OtherCall)"

definition kinds :: "('w, 'a) client \<Rightarrow> 'w \<Rightarrow> call_kind list" where
  "kinds m w = map kind_of (snd (snd (m w)))"

definition result_of :: "('w, 'a) client \<Rightarrow> 'w \<Rightarrow> 'a result" where
  "result_of m w = fst (m w)"

text \<open>
  A computation makes calls of kinds in \<open>S x\<close> when it returns \<open>x\<close>, and in \<open>F\<close> when it raises.
\<close>

definition traces :: "('a \<Rightarrow> call_kind list set) \<Rightarrow> call_kind list set \<Rightarrow> ('w, 'a) client \<Rightarrow> bool" where
  "traces S F m \<longleftrightarrow> (\<forall>w. case result_of m w of Inr x \<Rightarrow> kinds m w \<in> S x | Inl e \<Rightarrow> kinds m w \<in> F)"

lemma traces_at: "traces S F m \<Longrightarrow> case result_of m w of Inr x \<Rightarrow> kinds m w \<in> S x | Inl e \<Rightarrow> kinds m w \<in> F"
  by (simp add: traces_def)

lemma traces_return: "[] \<in> S x \<Longrightarrow> traces S F (returnC x)"
  by (simp add: traces_def result_of_def kinds_def returnC_def)

lemma traces_lift: "(\<And>x. r = Inr x \<Longrightarrow> [] \<in> S x) \<Longrightarrow> [] \<in> F \<Longrightarrow> traces S F (liftC r)"
  by (auto simp: traces_def result_of_def kinds_def liftC_def split: sum.splits)

lemma traces_bind:
  assumes "traces S F m" "\<And>x. traces (S' x) (F' x) (f x)"
    and "\<And>ks. ks \<in> F \<Longrightarrow> ks \<in> G"
    and "\<And>x ks ls. ks \<in> S x \<Longrightarrow> ls \<in> F' x \<Longrightarrow> ks @ ls \<in> G"
    and "\<And>x y ks ls. ks \<in> S x \<Longrightarrow> ls \<in> S' x y \<Longrightarrow> ks @ ls \<in> T y"
  shows "traces T G (bindC m f)"
  unfolding traces_def
proof
  fix w
  obtain r w' calls where m: "m w = (r, w', calls)" by (cases "m w")
  show "case result_of (bindC m f) w of Inr x \<Rightarrow> kinds (bindC m f) w \<in> T x | Inl e \<Rightarrow> kinds (bindC m f) w \<in> G"
  proof (cases r)
    case (Inl e)
    then have "map kind_of calls \<in> F" using assms(1) m by (auto simp: traces_def result_of_def kinds_def dest: spec [of _ w])
    with Inl m assms(3) show ?thesis by (simp add: result_of_def kinds_def bindC_def)
  next
    case (Inr x)
    obtain r' w'' calls' where f: "f x w' = (r', w'', calls')" by (cases "f x w'")
    have "map kind_of calls \<in> S x" using assms(1) m Inr by (auto simp: traces_def result_of_def kinds_def dest: spec [of _ w])
    moreover have "case r' of Inr y \<Rightarrow> map kind_of calls' \<in> S' x y | Inl e \<Rightarrow> map kind_of calls' \<in> F' x"
      using spec [OF assms(2) [of x, unfolded traces_def], of w'] f by (simp add: result_of_def kinds_def split: sum.splits)
    ultimately show ?thesis
      using m Inr f assms(4,5) by (auto simp: result_of_def kinds_def bindC_def split: sum.splits)
  qed
qed

lemma traces_weaken: "traces S F m \<Longrightarrow> (\<And>x. S x \<subseteq> S' x) \<Longrightarrow> F \<subseteq> F' \<Longrightarrow> traces S' F' m"
  by (fastforce simp: traces_def split: sum.splits)

definition reads :: "call_kind list set" where
  "reads = {ks. set ks \<subseteq> {Read}}"

lemma reads_simps [simp]: "[] \<in> reads" "[Read] \<in> reads" "ks @ ls \<in> reads \<longleftrightarrow> ks \<in> reads \<and> ls \<in> reads"
  by (auto simp: reads_def)

text \<open>A sequence of computations that only read, only reads.\<close>

lemma reads_bind: "traces (\<lambda>_. reads) reads m \<Longrightarrow> (\<And>x. traces (\<lambda>_. reads) reads (f x)) \<Longrightarrow> traces (\<lambda>_. reads) reads (bindC m f)"
  by (erule traces_bind) auto

text \<open>After reading, the rest decides.\<close>

definition after_reads :: "call_kind list set \<Rightarrow> call_kind list set" where
  "after_reads T = {ks @ ls | ks ls. ks \<in> reads \<and> ls \<in> T}"

lemma after_readsI: "ks \<in> reads \<Longrightarrow> ls \<in> T \<Longrightarrow> ks @ ls \<in> after_reads T"
  by (auto simp: after_reads_def)

lemma reads_after: "ks \<in> reads \<Longrightarrow> [] \<in> T \<Longrightarrow> ks \<in> after_reads T"
  using after_readsI [of ks "[]" T] by simp

lemma after_reads_append: "ks \<in> reads \<Longrightarrow> ls \<in> after_reads T \<Longrightarrow> ks @ ls \<in> after_reads T"
proof -
  assume ks: "ks \<in> reads" and "ls \<in> after_reads T"
  then obtain as bs where "ls = as @ bs" "as \<in> reads" "bs \<in> T" by (auto simp: after_reads_def)
  with ks show ?thesis using after_readsI [of "ks @ as" bs T] by simp
qed

lemma reads_then:
  assumes "traces (\<lambda>_. reads) reads m" "\<And>x. traces (\<lambda>y. after_reads (S y)) (after_reads F) (f x)" "[] \<in> F"
  shows "traces (\<lambda>y. after_reads (S y)) (after_reads F) (bindC m f)"
  using assms(1,2) by (rule traces_bind) (use assms(3) in \<open>auto intro: reads_after after_reads_append\<close>)

text \<open>The changes a result stands for, and those made before an exception.\<close>

definition change_kinds :: "string \<Rightarrow> call_kind list set" where
  "change_kinds action =
     (if action = ''created-slice'' then {[CommentCall, CreateCall, CommentCall], [CreateCall, CommentCall]}
      else if action = ''closed-parent'' then {[CloseCall]} else {[]})"

definition broken_off :: "call_kind list set" where
  "broken_off = {[], [CloseCall], [CommentCall], [CreateCall], [CommentCall, CreateCall], [CreateCall, CommentCall],
     [CommentCall, CreateCall, CommentCall]}"

text \<open>Reads that end in a decision which stands for no change, if they end in one.\<close>

definition quiet_reads :: "reconcile_result option \<Rightarrow> call_kind list set" where
  "quiet_reads d = (case d of None \<Rightarrow> reads | Some r \<Rightarrow> if change_kinds (rr_action r) = {[]} then reads else {})"

lemma quiet_reads_subset: "quiet_reads d \<subseteq> reads"
  by (simp add: quiet_reads_def split: option.split)

lemma quiet_bind:
  "traces (\<lambda>_. reads) reads m \<Longrightarrow> (\<And>x. traces quiet_reads reads (f x)) \<Longrightarrow> traces quiet_reads reads (bindC m f)"
  by (erule traces_bind) (auto simp: quiet_reads_def split: option.splits if_splits)

text \<open>Reads that end in the decision that the parent records a live slice.\<close>

definition recorded_only :: "reconcile_result option \<Rightarrow> call_kind list set" where
  "recorded_only d = (case d of None \<Rightarrow> {} | Some r \<Rightarrow> if rr_action r = ''deduped-parent-ledger'' then reads else {})"

lemma deduped_action: "deduped spec action dedup_key parent_issue found = Inr (Some r) \<Longrightarrow> rr_action r = action"
  by (cases found) (auto simp: deduped_def outcome_of_def bindR_eq_Inr)

section \<open>What a client promises\<close>

locale github_ops =
  fixes client :: "'w github_client"
  assumes view_reads: "traces (\<lambda>_. {[Read]}) {[Read]} (issue_view client repo n names)"
    and search_reads: "traces (\<lambda>_. {[Read]}) {[Read]} (issue_search client repo state query)"
    and comment_once: "traces (\<lambda>_. {[CommentCall]}) {[CommentCall]} (issue_comment client repo n body)"
    and create_once: "traces (\<lambda>_. {[CreateCall]}) {[CreateCall]} (issue_create client repo title body labels)"
    and close_once: "traces (\<lambda>_. {[CloseCall]}) {[CloseCall], []} (issue_close client repo n disposition)"
begin

lemma view_only: "traces (\<lambda>_. reads) reads (issue_view client repo n names)"
  using view_reads by (rule traces_weaken) auto

lemma search_only: "traces (\<lambda>_. reads) reads (issue_search client repo state query)"
  using search_reads by (rule traces_weaken) auto

lemma check_ledger_quiet:
  "traces quiet_reads reads (check_ledger client rd spec repo bot_login parent_issue dedup_key ledger)"
proof (induction ledger)
  case Nil
  show ?case by (simp add: traces_return quiet_reads_def)
next
  case (Cons entry ledger)
  have dedup: "[] \<in> quiet_reads (Some (outcome_of spec ''deduped-parent-ledger'' (Some dedup_key) number parent_issue None))" for number
    by (simp add: quiet_reads_def change_kinds_def outcome_of_def)
  show ?case
  proof (cases entry)
    case (LedgerIssue n)
    then show ?thesis using dedup Cons by (auto intro!: quiet_bind [OF view_only] traces_return)
  qed (use dedup in \<open>auto intro: traces_return\<close>)
qed

lemma check_open_quiet: "traces quiet_reads reads (check_open client rd spec repo bot_login parent_issue doc)"
proof -
  have dedup: "traces quiet_reads reads (liftC (deduped spec action dedup_key parent_issue found))"
    if "change_kinds action = {[]}" for action dedup_key found
  proof (rule traces_lift)
    show "[] \<in> quiet_reads d" if "deduped spec action dedup_key parent_issue found = Inr d" for d
      using deduped_action [of spec action dedup_key parent_issue found] that \<open>change_kinds action = {[]}\<close>
      by (cases d) (simp_all add: quiet_reads_def)
  qed simp
  have marks: "change_kinds ''deduped-in-flight'' = {[]}" "change_kinds ''deduped-existing-slice'' = {[]}"
    by (simp_all add: change_kinds_def)
  have existing: "traces quiet_reads reads
      (bindC (liftC (issue_create_marker (sd_dedup_key doc))) (\<lambda>exact_marker.
       bindC (issue_search client repo ''open'' exact_marker) (\<lambda>found.
       liftC (deduped spec ''deduped-existing-slice'' (sd_dedup_key doc) parent_issue (matching_issues rd found exact_marker bot_login)))))"
    by (intro quiet_bind search_only traces_lift dedup marks) simp_all
  have in_flight: "traces quiet_reads reads
      (bindC (liftC (deduped spec ''deduped-in-flight'' (sd_dedup_key doc) parent_issue found)) (\<lambda>in_flight.
       case in_flight of Some r \<Rightarrow> returnC (Some r) | None \<Rightarrow>
         bindC (liftC (issue_create_marker (sd_dedup_key doc))) (\<lambda>exact_marker.
         bindC (issue_search client repo ''open'' exact_marker) (\<lambda>found.
         liftC (deduped spec ''deduped-existing-slice'' (sd_dedup_key doc) parent_issue (matching_issues rd found exact_marker bot_login))))))"
    for found
  proof (rule traces_bind [OF dedup [OF marks(1)]])
    show "traces (\<lambda>y. if x = None then quiet_reads y else if x = y then {[]} else {}) reads
        (case x of Some r \<Rightarrow> returnC (Some r) | None \<Rightarrow>
         bindC (liftC (issue_create_marker (sd_dedup_key doc))) (\<lambda>exact_marker.
         bindC (issue_search client repo ''open'' exact_marker) (\<lambda>found.
         liftC (deduped spec ''deduped-existing-slice'' (sd_dedup_key doc) parent_issue (matching_issues rd found exact_marker bot_login)))))" for x
      using existing by (cases x) (auto intro: traces_return)
  qed (auto simp: quiet_reads_def split: if_splits option.splits)
  show ?thesis
    unfolding check_open_def by (intro quiet_bind search_only traces_lift in_flight) simp_all
qed

lemmas check_ledger_reads = traces_weaken [OF check_ledger_quiet quiet_reads_subset subset_refl]
lemmas check_open_reads = traces_weaken [OF check_open_quiet quiet_reads_subset subset_refl]

lemma close_parent_reads: "traces (\<lambda>_. reads) reads (close_parent client rd spec repo False parent_issue parent)"
  unfolding close_parent_def by (auto intro!: traces_return)

lemma close_parent_traces:
  "traces (\<lambda>r. change_kinds (rr_action r)) {[CloseCall], []} (close_parent client rd spec repo writing parent_issue parent)"
proof -
  have "traces (\<lambda>r. change_kinds (rr_action r)) {[CloseCall], []}
      (bindC (issue_close client repo parent_issue ''completed'') (\<lambda>_. returnC (outcome_of spec ''closed-parent'' None None parent_issue None)))"
  proof (rule traces_bind [OF close_once])
    show "traces (\<lambda>r. if r = outcome_of spec ''closed-parent'' None None parent_issue None then {[]} else {}) {}
        (returnC (outcome_of spec ''closed-parent'' None None parent_issue None))" for x :: unit
      by (rule traces_return) simp
  qed (auto simp: change_kinds_def outcome_of_def split: if_splits)
  then show ?thesis unfolding close_parent_def by (auto intro!: traces_return simp: change_kinds_def outcome_of_def)
qed

lemma publish_slice_traces:
  "traces (\<lambda>r. change_kinds (rr_action r)) broken_off
     (publish_slice client rd spec inventory slice_size repo bot_login labels parent_issue parent doc)"
proof -
  let ?r = "\<lambda>issue. outcome_of spec ''created-slice'' (Some (sd_dedup_key doc)) issue parent_issue None"
  have created: "change_kinds (rr_action (?r issue)) = {[CommentCall, CreateCall, CommentCall], [CreateCall, CommentCall]}" for issue
    by (simp add: change_kinds_def outcome_of_def)
  have confirm: "traces (\<lambda>r. if r = ?r issue then {[CommentCall]} else {}) {[CommentCall], []}
      (bindC (liftC (issue_created_marker (sd_dedup_key doc) issue)) (\<lambda>created.
       bindC (issue_comment client repo parent_issue (created @ [LF])) (\<lambda>_. returnC (?r issue))))" for issue
  proof (rule traces_bind)
    show "traces (\<lambda>_. {[]}) {[]} (liftC (issue_created_marker (sd_dedup_key doc) issue))" by (rule traces_lift) simp_all
    show "traces (\<lambda>r. if r = ?r issue then {[CommentCall]} else {}) {[CommentCall]}
        (bindC (issue_comment client repo parent_issue (created @ [LF])) (\<lambda>_. returnC (?r issue)))" for created
    proof (rule traces_bind [OF comment_once])
      show "traces (\<lambda>r. if r = ?r issue then {[]} else {}) {} (returnC (?r issue))" for x :: unit by (rule traces_return) simp
    qed (auto split: if_splits)
  qed auto
  have create: "traces (\<lambda>r. if \<exists>issue. r = ?r issue then {[CreateCall, CommentCall]} else {}) {[], [CreateCall], [CreateCall, CommentCall]}
      (bindC (liftC (render_reconciled_issue_body spec inventory slice_size)) (\<lambda>body.
       bindC (issue_create client repo (slice_issue_title doc) body labels) (\<lambda>issue.
       bindC (liftC (issue_created_marker (sd_dedup_key doc) issue)) (\<lambda>created.
       bindC (issue_comment client repo parent_issue (created @ [LF])) (\<lambda>_. returnC (?r issue))))))"
  proof (rule traces_bind)
    show "traces (\<lambda>_. {[]}) {[]} (liftC (render_reconciled_issue_body spec inventory slice_size))" by (rule traces_lift) simp_all
    show "traces (\<lambda>r. if \<exists>issue. r = ?r issue then {[CreateCall, CommentCall]} else {}) {[CreateCall], [CreateCall, CommentCall]}
        (bindC (issue_create client repo (slice_issue_title doc) body labels) (\<lambda>issue.
         bindC (liftC (issue_created_marker (sd_dedup_key doc) issue)) (\<lambda>created.
         bindC (issue_comment client repo parent_issue (created @ [LF])) (\<lambda>_. returnC (?r issue)))))" for body
      by (rule traces_bind [OF create_once confirm]) (auto split: if_splits)
  qed auto
  have intent: "traces (\<lambda>_. {[], [CommentCall]}) {[CommentCall]}
      (if parent_has_marker rd parent intent bot_login then returnC () else issue_comment client repo parent_issue (intent @ [LF]))" for intent
    by (auto intro: traces_return traces_weaken [OF comment_once])
  show ?thesis
    unfolding publish_slice_def
  proof (rule traces_bind)
    show "traces (\<lambda>_. {[]}) {[]} (liftC (issue_create_intent_marker (sd_dedup_key doc)))" by (rule traces_lift) simp_all
    show "traces (\<lambda>r. change_kinds (rr_action r)) broken_off
       (bindC (if parent_has_marker rd parent intent bot_login then returnC () else issue_comment client repo parent_issue (intent @ [LF])) (\<lambda>_.
        bindC (liftC (render_reconciled_issue_body spec inventory slice_size)) (\<lambda>body.
        bindC (issue_create client repo (slice_issue_title doc) body labels) (\<lambda>issue.
        bindC (liftC (issue_created_marker (sd_dedup_key doc) issue)) (\<lambda>created.
        bindC (issue_comment client repo parent_issue (created @ [LF])) (\<lambda>_. returnC (?r issue)))))))" for intent
      by (rule traces_bind [OF intent create]) (auto simp: broken_off_def created split: if_splits)
  qed (auto simp: broken_off_def)
qed

lemma reconcile_slice_reads:
  "traces (\<lambda>_. reads) reads (reconcile_slice client rd spec inventory slice_size repo bot_login False labels parent_issue parent)"
  unfolding reconcile_slice_def
  by (intro reads_bind traces_lift check_ledger_reads)
    (auto intro!: reads_bind traces_return check_open_reads split: option.split)

text \<open>A decision found while reading ends the run without a change.\<close>

lemma decide_then:
  assumes "traces quiet_reads reads m"
    and "traces (\<lambda>r. after_reads (change_kinds (rr_action r))) (after_reads broken_off) next"
  shows "traces (\<lambda>r. after_reads (change_kinds (rr_action r))) (after_reads broken_off)
    (bindC m (\<lambda>d. case d of Some r \<Rightarrow> returnC r | None \<Rightarrow> next))"
proof (rule traces_bind [OF assms(1)])
  show "traces (\<lambda>y. if x = None then after_reads (change_kinds (rr_action y)) else if x = Some y then {[]} else {}) (after_reads broken_off)
      (case x of Some r \<Rightarrow> returnC r | None \<Rightarrow> next)" for x
    using assms(2) by (cases x) (auto intro: traces_return)
  show "ks \<in> after_reads broken_off" if "ks \<in> reads" for ks
    using that by (rule reads_after) (simp add: broken_off_def)
  show "ks @ ls \<in> after_reads broken_off" if "ks \<in> quiet_reads x" "ls \<in> after_reads broken_off" for x ks ls
    using that quiet_reads_subset after_reads_append by blast
  show "ks @ ls \<in> after_reads (change_kinds (rr_action y))"
    if "ks \<in> quiet_reads x" "ls \<in> (if x = None then after_reads (change_kinds (rr_action y)) else if x = Some y then {[]} else {})" for x y ks ls
    using that after_reads_append [of ks ls] reads_after [of ks] by (auto simp: quiet_reads_def split: if_splits)
qed

lemma lift_then:
  assumes "\<And>x. traces (\<lambda>r. after_reads (change_kinds (rr_action r))) (after_reads broken_off) (f x)"
  shows "traces (\<lambda>r. after_reads (change_kinds (rr_action r))) (after_reads broken_off) (bindC (liftC r) f)"
  by (rule reads_then [OF _ assms]) (auto intro: traces_lift simp: broken_off_def)

lemma reconcile_slice_traces:
  "traces (\<lambda>r. after_reads (change_kinds (rr_action r))) (after_reads broken_off)
     (reconcile_slice client rd spec inventory slice_size repo bot_login writing labels parent_issue parent)"
proof -
  have publish: "traces (\<lambda>r. after_reads (change_kinds (rr_action r))) (after_reads broken_off)
      (publish_slice client rd spec inventory slice_size repo bot_login labels parent_issue parent doc)" for doc
    by (rule traces_weaken [OF publish_slice_traces]) (auto intro: after_readsI [of "[]", simplified])
  have dry: "[] \<in> after_reads (change_kinds (rr_action (outcome_of spec ''would-create-slice'' k n parent_issue reason)))" for k n reason
    by (rule reads_after) (simp_all add: change_kinds_def outcome_of_def)
  show ?thesis
    unfolding reconcile_slice_def
    by (intro lift_then decide_then check_ledger_quiet check_open_quiet) (simp add: publish dry traces_return)
qed

text \<open>A recorded issue that is never seen closed by the trusted login ends the run.\<close>

lemma check_ledger_live:
  assumes live: "traces (\<lambda>prior. if is_trusted_record rd prior bot_login \<and> record_state rd prior = ''CLOSED'' then {} else reads) reads
      (issue_view client repo n ''number,state,author,body'')"
    and "LedgerIssue n \<in> set ledger"
  shows "traces recorded_only reads (check_ledger client rd spec repo bot_login parent_issue dedup_key ledger)"
  using assms(2)
proof (induction ledger)
  case (Cons entry ledger)
  have dedup: "[] \<in> recorded_only (Some (outcome_of spec ''deduped-parent-ledger'' (Some dedup_key) number parent_issue None))" for number
    by (simp add: recorded_only_def outcome_of_def)
  have append: "ks @ ls \<in> recorded_only d" if "ks \<in> reads" "ls \<in> recorded_only d" for ks ls d
    using that by (auto simp: recorded_only_def split: option.splits if_splits)
  show ?case
  proof (cases entry)
    case (LedgerIssue m)
    show ?thesis
    proof (cases "m = n")
      case True
      have any: "traces (\<lambda>_. UNIV) UNIV x" for x :: "('a, reconcile_result option) client"
        by (simp add: traces_def split: sum.split)
      show ?thesis
        unfolding LedgerIssue check_ledger.simps True
      proof (rule traces_bind [OF live])
        show "traces (\<lambda>d. if is_trusted_record rd prior bot_login \<and> record_state rd prior = ''CLOSED'' then UNIV else recorded_only d)
            (if is_trusted_record rd prior bot_login \<and> record_state rd prior = ''CLOSED'' then UNIV else reads)
            (if \<not> is_trusted_record rd prior bot_login \<or> record_state rd prior \<noteq> ''CLOSED''
             then returnC (Some (outcome_of spec ''deduped-parent-ledger'' (Some dedup_key) (Some n) parent_issue None))
             else check_ledger client rd spec repo bot_login parent_issue dedup_key ledger)" for prior
          using any dedup by (auto intro: traces_return)
      qed (auto split: if_splits intro: append)
    next
      case False
      with Cons LedgerIssue have "traces recorded_only reads (check_ledger client rd spec repo bot_login parent_issue dedup_key ledger)"
        by simp
      then show ?thesis
        unfolding LedgerIssue check_ledger.simps
        by (intro traces_bind [OF view_only]) (auto intro!: traces_return dedup append)
    qed
  qed (use dedup in \<open>auto intro: traces_return\<close>)
qed simp

lemma reconcile_slice_recorded:
  assumes live: "traces (\<lambda>prior. if is_trusted_record rd prior bot_login \<and> record_state rd prior = ''CLOSED'' then {} else reads) reads
      (issue_view client repo n ''number,state,author,body'')"
    and doc: "slice_document spec inventory slice_size = Inr doc"
    and ledger: "parent_issue_created_marker_issues rd parent (sd_dedup_key doc) bot_login = Inr ledger" "LedgerIssue n \<in> set ledger"
  shows "traces (\<lambda>r. if rr_action r = ''deduped-parent-ledger'' then reads else {}) reads
    (reconcile_slice client rd spec inventory slice_size repo bot_login writing labels parent_issue parent)"
proof -
  have any: "traces (\<lambda>_. UNIV) UNIV x" for x :: "('a, reconcile_result) client"
    by (simp add: traces_def split: sum.split)
  have known: "bindC (liftC (Inr x)) f = f x" for x :: 'b and f :: "'b \<Rightarrow> ('a, 'c) client"
    by (simp add: fun_eq_iff bindC_def liftC_def split: prod.split sum.split)
  show ?thesis
    unfolding reconcile_slice_def doc known ledger
  proof (rule traces_bind [OF check_ledger_live [OF live ledger(2)]])
    show "traces (\<lambda>r. if x = None then UNIV else if x = Some r then {[]} else {}) (if x = None then UNIV else {})
        (case x of Some r \<Rightarrow> returnC r
         | None \<Rightarrow> bindC (check_open client rd spec repo bot_login parent_issue doc) (\<lambda>live. case live of Some r \<Rightarrow> returnC r
             | None \<Rightarrow> if \<not> writing
                 then returnC (outcome_of spec ''would-create-slice'' (Some (sd_dedup_key doc)) None parent_issue (Some ''FKST_GITHUB_WRITE!=1''))
                 else publish_slice client rd spec inventory slice_size repo bot_login labels parent_issue parent doc))" for x
      using any by (cases x) (auto intro: traces_return)
  qed (auto simp: recorded_only_def split: option.splits if_splits)
qed

lemma reconcile_dry: "\<not> write_enabled env \<Longrightarrow> traces (\<lambda>_. reads) reads (reconcile_ratchet client rd spec inventory slice_size repo env labels)"
  unfolding reconcile_ratchet_def
  by (intro reads_bind traces_lift view_only) (simp_all add: close_parent_reads reconcile_slice_reads)

lemma reconcile_traces:
  "traces (\<lambda>r. after_reads (change_kinds (rr_action r))) (after_reads broken_off)
     (reconcile_ratchet client rd spec inventory slice_size repo env labels)"
proof -
  have close: "traces (\<lambda>r. after_reads (change_kinds (rr_action r))) (after_reads broken_off)
      (close_parent client rd spec repo' writing parent_issue parent)" for repo' writing parent_issue parent
    by (rule traces_weaken [OF close_parent_traces]) (auto intro: after_readsI [of "[]", simplified] simp: broken_off_def)
  show ?thesis
    unfolding reconcile_ratchet_def
    by (intro lift_then reads_then [OF view_only]) (simp_all add: close reconcile_slice_traces, simp add: broken_off_def)
qed

end

text \<open>The client of the tool keeps these promises, whatever \<open>gh\<close> does.\<close>

lemma run_gh_traces: "traces (\<lambda>_. {[kind_of call]}) {[kind_of call]} (run_gh gh call)"
  by (auto simp: traces_def result_of_def kinds_def run_gh_def split: prod.splits gh_process.splits)

lemma run_gh_then:
  assumes "kind_of call = k" "\<And>x. traces (\<lambda>_. {[]}) {[]} (f x)"
  shows "traces (\<lambda>_. {[k]}) {[k]} (bindC (run_gh gh call) f)"
  using run_gh_traces assms(2) by (rule traces_bind) (auto simp: assms(1))

interpretation tool: github_ops "GithubClient gh diag tmp" for gh :: "'w gh" and diag tmp
proof
  have pure: "traces (\<lambda>_. {[]}) {[]} (liftC r)" "traces (\<lambda>_. {[]}) {[]} (returnC x)" for r :: "'b result" and x :: 'c
    by (auto intro: traces_lift traces_return)
  show "traces (\<lambda>_. {[Read]}) {[Read]} (issue_view (GithubClient gh diag tmp) repo n names)" for repo n names
    unfolding GithubClient_def github_client.simps gh_issue_view_def by (rule run_gh_then) (simp_all add: kind_of_def traces_lift)
  show "traces (\<lambda>_. {[Read]}) {[Read]} (issue_search (GithubClient gh diag tmp) repo state query)" for repo state query
    unfolding GithubClient_def github_client.simps gh_issue_search_def by (rule run_gh_then) (simp_all add: kind_of_def traces_lift)
  show "traces (\<lambda>_. {[CommentCall]}) {[CommentCall]} (issue_comment (GithubClient gh diag tmp) repo n body)" for repo n body
    unfolding GithubClient_def github_client.simps gh_issue_comment_def by (rule run_gh_then) (simp_all add: kind_of_def traces_return)
  show "traces (\<lambda>_. {[CreateCall]}) {[CreateCall]} (issue_create (GithubClient gh diag tmp) repo title body labels)" for repo title body labels
    unfolding GithubClient_def github_client.simps gh_issue_create_def by (rule run_gh_then) (simp_all add: kind_of_def traces_return)
  show "traces (\<lambda>_. {[CloseCall]}) {[CloseCall], []} (issue_close (GithubClient gh diag tmp) repo n disposition)" for repo n disposition
  proof -
    have "traces (\<lambda>_. {[CloseCall]}) {[CloseCall]}
        (bindC (run_gh gh \<lparr>gc_argv = [''gh'', ''issue'', ''close'', str_int n, ''--repo'', repo, ''--reason'', disposition], gc_body = None\<rparr>)
          (\<lambda>output. returnC ()))"
      by (rule run_gh_then) (simp_all add: kind_of_def traces_return)
    then show ?thesis
      unfolding GithubClient_def github_client.simps gh_issue_close_def by (auto intro: traces_lift traces_weaken)
  qed
qed

section \<open>What the parent records is read back\<close>

lemma contains_append: "contains q (a @ q @ b)"
proof -
  have "find_sub q (a @ q @ b) \<noteq> None"
    by (induction a) (cases q; cases b; simp)+
  then show ?thesis by (simp add: contains_def)
qed

lemma str_int_marker_chars: "list_all marker_char (str_int n)"
  using nat_digits_decimal by (auto simp: str_int_def list_all_iff marker_char_def char_class_defs)

text \<open>No text before the attribute \<open>issue\<close> of a marker looks like it.\<close>

lemma first_split: "x \<notin> set a \<Longrightarrow> x \<notin> set b \<Longrightarrow> a @ x # c = b @ x # d \<longleftrightarrow> a = b \<and> c = d"
proof (induction a arbitrary: b)
  case Nil
  then show ?case by (cases b) auto
next
  case (Cons y a)
  then show ?case by (cases b) auto
qed

lemma second_attribute_first:
  assumes eq: "e \<notin> set a" "e \<notin> set b" "e \<notin> set name" and name: "\<not> suffix name a"
    and j: "j < length (a @ e # b)"
  shows "\<not> prefix (name @ [e] @ u) (drop j ((a @ e # b) @ name @ e # rest))"
proof
  let ?m = "(a @ e # b) @ name @ e # rest"
  assume "prefix (name @ [e] @ u) (drop j ?m)"
  then obtain t where t: "drop j ?m = name @ e # t" by (auto simp: prefix_def)
  obtain v where v: "v @ name @ e # t = ?m" "length v = j"
    using append_take_drop_id [of j ?m] j t by (metis length_append length_take min.absorb2 less_imp_le trans_le_add1)
  show False
  proof (cases "e \<in> set v")
    case False
    have "(v @ name) @ e # t = a @ e # b @ name @ e # rest" using v(1) by simp
    then have "v @ name = a" using first_split [of e "v @ name" a] False eq by simp
    with name show False by (auto simp: suffix_def)
  next
    case True
    then obtain v1 v2 where v12: "v = v1 @ e # v2" "e \<notin> set v1" by (meson split_list_first)
    then have "v1 @ e # v2 @ name @ e # t = a @ e # b @ name @ e # rest" using v(1) by simp
    then have v2: "v1 = a" "v2 @ name @ e # t = b @ name @ e # rest" using first_split [of e v1 a] v12(2) eq by simp_all
    show False
    proof (cases "e \<in> set v2")
      case False
      have "(v2 @ name) @ e # t = (b @ name) @ e # rest" using v2(2) by simp
      then have "v2 @ name = b @ name" using first_split [of e "v2 @ name" "b @ name"] False eq by simp
      then show False using v(2) v12(1) v2(1) j by simp
    next
      case True
      then obtain w1 w2 where w: "v2 = w1 @ e # w2" "e \<notin> set w1" by (meson split_list_first)
      then have "w1 @ e # w2 @ name @ e # t = (b @ name) @ e # rest" using v2(2) by simp
      then have "w1 = b @ name" using first_split [of e w1 "b @ name"] w(2) eq by simp
      then show False using v(2) v12(1) v2(1) w(1) j by simp
    qed
  qed
qed

lemma created_marker_read_back:
  assumes "issue_created_marker dedup_key (Some n) = Inr created"
    and "comment \<in> set (comments_from_parent parent)" "is_trusted_record rd comment bot_login" "record_body rd comment = created @ [LF]"
  shows "\<exists>ledger. parent_issue_created_marker_issues rd parent dedup_key bot_login = Inr ledger \<and> LedgerIssue n \<in> set ledger"
proof -
  let ?kind = "''fkst:github-proxy:issue-created:v1''"
  let ?body = "''dedup='' @ [DQ] @ dedup_key @ [DQ] @ '' issue='' @ [DQ] @ str_int n @ [DQ] @ '' ''"
  let ?marker = "''<!-- '' @ ?kind @ '' '' @ ?body @ ''-->''"
  have safe: "marker_safe dedup_key" and created: "created = ?marker"
    using assms(1) by (auto simp: issue_created_marker_def ensure_marker_value_eq bindR_def split: if_splits)
  have no: "CHR ''>'' \<notin> set ?body" "LF \<notin> set ?body"
    using safe str_int_marker_chars [of n] by (auto simp: marker_safe_def marker_char_def char_class_defs list_all_iff)
  obtain ms where ms: "re_findall (comment_marker_re ?kind) (?marker @ [LF]) = ?marker # ms"
    using comment_found [OF no, of ?kind "[LF]"] by auto
  let ?a = "''<!-- '' @ ?kind @ '' dedup''" and ?b = "[DQ] @ dedup_key @ [DQ] @ '' ''"
  have attr: "marker_attribute ((?a @ CHR ''='' # ?b) @ ''issue'' @ ''='' @ [DQ] @ str_int n @ [DQ] @ '' -->'') ''issue'' = Some (str_int n)"
  proof (rule attribute_found)
    have key: "CHR ''='' \<notin> set dedup_key" using safe by (auto simp: marker_safe_def marker_char_def char_class_defs list_all_iff)
    show "\<not> prefix (''issue'' @ ''='' @ [DQ]) (drop j ((?a @ CHR ''='' # ?b) @ ''issue'' @ ''='' @ [DQ] @ str_int n @ [DQ] @ '' -->''))"
      if "j < length (?a @ CHR ''='' # ?b)" for j
      using second_attribute_first [of "CHR ''=''" ?a ?b "''issue''" j "[DQ]" "[DQ] @ str_int n @ [DQ] @ '' -->''"] that key
      by (simp add: suffix_def)
    show "word_at (if ?a @ CHR ''='' # ?b = [] then None else Some (last (?a @ CHR ''='' # ?b))) \<noteq> word_at (next_char (''issue'' @ ''=''))"
      by (simp add: word_at_def next_char_def char_class_defs)
    show "DQ \<notin> set (str_int n)" using str_int_marker_chars [of n] by (auto simp: marker_char_def char_class_defs list_all_iff)
  qed
  have "str_int n \<noteq> ''unknown''" using str_int_head [of n] by (auto simp: char_class_defs)
  with attr have marked: "ledger_marker rd comment ?marker = [LedgerIssue n]" by (simp add: ledger_marker_def)
  moreover have "contains (''dedup='' @ [DQ] @ dedup_key @ [DQ]) ?marker"
    using contains_append [of "''dedup='' @ [DQ] @ dedup_key @ [DQ]" "''<!-- '' @ ?kind @ '' ''"] by simp
  ultimately have "LedgerIssue n \<in> set (concat (map (ledger_marker rd comment)
      (filter (contains (''dedup='' @ [DQ] @ dedup_key @ [DQ])) (re_findall (comment_marker_re ?kind) (record_body rd comment)))))"
    unfolding assms(4) created ms by simp
  then show ?thesis
    using assms(2,3) safe unfolding parent_issue_created_marker_issues_def ensure_marker_value_eq by (auto simp del: map_map)
qed

section \<open>Properties of the controller\<close>

text \<open>
  C9. Every run first only reads, then makes the changes its result stands for: \<open>created-slice\<close> is one new
  issue and a comment on the parent after it, with the intent commented before it unless it was there;
  \<open>closed-parent\<close> is one closed issue; every other result is no change. A run that raises leaves a
  beginning of such a sequence: an issue is created at most once and never without the checks before it.
\<close>

theorem reconcile_call_order:
  "\<exists>first changes.
     kinds (reconcile_ratchet (GithubClient gh diag tmp) rd spec inventory slice_size repo env labels) w = first @ changes
     \<and> set first \<subseteq> {Read}
     \<and> changes \<in> (case result_of (reconcile_ratchet (GithubClient gh diag tmp) rd spec inventory slice_size repo env labels) w of
           Inr r \<Rightarrow> change_kinds (rr_action r) | Inl e \<Rightarrow> broken_off)"
proof -
  have "case result_of (reconcile_ratchet (GithubClient gh diag tmp) rd spec inventory slice_size repo env labels) w of
      Inr r \<Rightarrow> kinds (reconcile_ratchet (GithubClient gh diag tmp) rd spec inventory slice_size repo env labels) w
        \<in> after_reads (change_kinds (rr_action r))
    | Inl e \<Rightarrow> kinds (reconcile_ratchet (GithubClient gh diag tmp) rd spec inventory slice_size repo env labels) w \<in> after_reads broken_off"
    by (rule traces_at [OF tool.reconcile_traces])
  then show ?thesis unfolding after_reads_def reads_def by (auto split: sum.splits)
qed

text \<open>
  C3. A slice is filed once: when a trusted comment of the parent is the one this tool writes after creating
  the issue \<open>n\<close> of the slice, the tool reads the number back from it, and unless that issue is seen closed and
  trusted, the run changes nothing, also with writes enabled, and if it returns reports the slice as recorded.
\<close>

theorem recorded_slice_not_refiled:
  assumes "slice_document spec inventory slice_size = Inr doc"
    and "issue_created_marker (sd_dedup_key doc) (Some n) = Inr created"
    and "comment \<in> set (comments_from_parent parent)" "is_trusted_record rd comment bot_login"
    and "record_body rd comment = created @ [LF]"
    and live: "\<And>u prior. result_of (gh_issue_view gh diag repo n ''number,state,author,body'') u = Inr prior \<Longrightarrow>
      \<not> (is_trusted_record rd prior bot_login \<and> record_state rd prior = ''CLOSED'')"
  shows "set (kinds (reconcile_slice (GithubClient gh diag tmp) rd spec inventory slice_size repo bot_login writing labels parent_issue parent) w) \<subseteq> {Read}
    \<and> (case result_of (reconcile_slice (GithubClient gh diag tmp) rd spec inventory slice_size repo bot_login writing labels parent_issue parent) w of
         Inr r \<Rightarrow> rr_action r = ''deduped-parent-ledger'' | Inl e \<Rightarrow> True)"
proof -
  obtain ledger where ledger: "parent_issue_created_marker_issues rd parent (sd_dedup_key doc) bot_login = Inr ledger" "LedgerIssue n \<in> set ledger"
    using created_marker_read_back [OF assms(2-5)] by blast
  have view: "issue_view (GithubClient gh diag tmp) repo n = gh_issue_view gh diag repo n" by (simp add: GithubClient_def)
  have "traces (\<lambda>prior. if is_trusted_record rd prior bot_login \<and> record_state rd prior = ''CLOSED'' then {} else reads) reads
      (issue_view (GithubClient gh diag tmp) repo n ''number,state,author,body'')"
    using tool.view_only [of gh diag tmp repo n "''number,state,author,body''"] live unfolding traces_def view
    by (auto split: sum.splits)
  from traces_at [OF tool.reconcile_slice_recorded [OF this assms(1) ledger]]
  have "case result_of (reconcile_slice (GithubClient gh diag tmp) rd spec inventory slice_size repo bot_login writing labels parent_issue parent) w of
      Inr r \<Rightarrow> kinds (reconcile_slice (GithubClient gh diag tmp) rd spec inventory slice_size repo bot_login writing labels parent_issue parent) w
        \<in> (if rr_action r = ''deduped-parent-ledger'' then reads else {})
    | Inl e \<Rightarrow> kinds (reconcile_slice (GithubClient gh diag tmp) rd spec inventory slice_size repo bot_login writing labels parent_issue parent) w \<in> reads" .
  then show ?thesis by (auto simp: reads_def split: sum.splits if_splits)
qed

definition no_diag :: json_diag where
  "no_diag = \<lparr>diag_msg = (\<lambda>_. []), diag_str = (\<lambda>_. [])\<rparr>"

definition demo_gh :: "unit gh" where
  "demo_gh call u = (GhStarted 0 (''{'' @ [DQ] @ ''state'' @ [DQ] @ '': '' @ [DQ] @ ''OPEN'' @ [DQ] @ ''}'') [], u)"

definition demo_reading :: reading where
  "demo_reading = \<lparr>rd_show = (\<lambda>_. []), rd_iso_seconds = (\<lambda>_. None), rd_now = 0\<rparr>"

definition demo_parent :: jobject where
  "demo_parent = [(''comments'', JArr [JObj [(''author'', JObj [(''login'', JStr ''fkst[bot]'')]), (''body'', JStr
     (''<!-- fkst:github-proxy:issue-created:v1 dedup='' @ [DQ] @
      ''saga-handler/slice/'' @ sites_fingerprint (site_records saga_spec demo_sites 1) @ [DQ] @ '' issue='' @ [DQ] @ ''7'' @ [DQ] @ '' -->'' @ [LF]))]])]"

theorem recorded_slice_not_refiled_witness:
  "set (kinds (reconcile_slice (GithubClient demo_gh no_diag ''t'') demo_reading saga_spec demo_sites 1 ''o/r'' (Some ''fkst'') True [] 979 demo_parent) ()) \<subseteq> {Read}
   \<and> (case result_of (reconcile_slice (GithubClient demo_gh no_diag ''t'') demo_reading saga_spec demo_sites 1 ''o/r'' (Some ''fkst'') True [] 979 demo_parent) () of
        Inr r \<Rightarrow> rr_action r = ''deduped-parent-ledger'' | Inl e \<Rightarrow> True)"
proof -
  have "(''saga-handler'', saga_spec) \<in> set specs" by (simp add: specs_def)
  from spec_parents [OF this] obtain doc where doc: "slice_document saga_spec demo_sites 1 = Inr doc"
    by (auto simp: slice_document_def Let_def)
  note eqs = slice_document_eq [OF doc]
  have key: "sd_dedup_key doc = ''saga-handler/slice/'' @ sites_fingerprint (site_records saga_spec demo_sites 1)"
    using eqs by (simp add: saga_spec_def site_records_def)
  have safe: "marker_safe (sd_dedup_key doc)" unfolding key using dedup_key_safe [of "''saga-handler''"]
    by (simp add: marker_safe_def marker_char_def char_class_defs)
  have seven: "str_int 7 = ''7''" by code_simp
  let ?created = "''<!-- fkst:github-proxy:issue-created:v1 dedup='' @ [DQ] @ sd_dedup_key doc @ [DQ] @ '' issue='' @ [DQ] @ ''7'' @ [DQ] @ '' -->''"
  let ?comment = "[(''author'', JObj [(''login'', JStr ''fkst[bot]'')]), (''body'', JStr (?created @ [LF]))]"
  show ?thesis
  proof (rule recorded_slice_not_refiled [OF doc, where n = 7 and created = ?created and comment = ?comment])
    show "issue_created_marker (sd_dedup_key doc) (Some 7) = Inr ?created"
      using safe by (simp add: issue_created_marker_def ensure_marker_value_eq seven)
    show "?comment \<in> set (comments_from_parent demo_parent)"
      by (simp add: comments_from_parent_def demo_parent_def jget_def key map_filter_def)
    show "is_trusted_record demo_reading ?comment (Some ''fkst'')"
      by (simp add: is_trusted_record_def truthy_def issue_author_login_def jget_def removesuffix_def suffix_def)
    show "record_body demo_reading ?comment = ?created @ [LF]"
      by (simp add: record_body_def or_empty_def jget_def)
    have "result_of (gh_issue_view demo_gh no_diag ''o/r'' 7 ''number,state,author,body'') () = Inr [(''state'', JStr ''OPEN'')]"
      by code_simp
    moreover have "record_state demo_reading [(''state'', JStr ''OPEN'')] = ''OPEN''" by code_simp
    ultimately show "\<not> (is_trusted_record demo_reading prior (Some ''fkst'') \<and> record_state demo_reading prior = ''CLOSED'')"
      if "result_of (gh_issue_view demo_gh no_diag ''o/r'' 7 ''number,state,author,body'') u = Inr prior" for u prior
      using that by auto
  qed
qed

end
