(* ===== verification/GhGitAdapter.thy ===== *)
theory GhGitAdapter
  imports RatchetBase LuaLex ShrinkOnly
begin

text \<open>
  \<^verbatim>\<open>packages/github-ratchet-migration-slicer/tools/check_repo_gh_git_adapter.py\<close>: which \<open>gh\<close> and \<open>git\<close> commands the
  production Lua sources construct outside the forge adapters, compared with an allowlist by file.

  String literals are followed through concatenations and argument tables; the head of a command is the tool
  and its first word. The two loops that jump over literals take fuel and return \<open>None\<close> without it; shown here: the
  length of the source is enough fuel for every source, what heads look like, that plain commands are recognised,
  and exactly when the ratchet prints nothing.
\<close>

section \<open>Constants\<close>

definition ALLOWLIST :: string where "ALLOWLIST = ''migration/gh-git-adapter.allowlist''"

definition ENTRY_FILES :: "string list" where
  "ENTRY_FILES = [''libraries/forge/github.lua'', ''libraries/forge/git.lua'', ''libraries/forge/github_fake.lua'', ''libraries/forge/git_fake.lua'']"

definition DIR_PREFIXES :: "string list" where
  "DIR_PREFIXES = [''libraries/forge/github/'', ''libraries/forge/git/'']"

abbreviation rnonspace :: regex where "rnonspace \<equiv> RSet (\<lambda>c. \<not> is_space c)"

text \<open>\<open>^(?:[A-Za-z_][A-Za-z0-9_]*=\S+\s+)+\<close>\<close>

definition ENV_ASSIGN_RE :: regex where
  "ENV_ASSIGN_RE = rseq [RBol, rplus (rseq [RIDENT, rchar (CHR ''=''), rplus rnonspace, rplus rspace])]"

text \<open>\<open>^cd\s+(?:'[^']*'|"[^"]*"|[^\s;&]+)\s*(?:&&|;)\s*\<close>\<close>

definition CD_RE :: regex where
  "CD_RE = rseq [RBol, rlit ''cd'', rplus rspace,
     ralt [rseq [rchar SQ, rstar (RSet (\<lambda>c. c \<noteq> SQ)), rchar SQ], rseq [rchar DQ, rstar (RSet (\<lambda>c. c \<noteq> DQ)), rchar DQ],
           rplus (RSet (\<lambda>c. \<not> is_space c \<and> c \<noteq> CHR '';'' \<and> c \<noteq> CHR ''&''))],
     rstar rspace, ralt [rlit ''&&'', rchar (CHR '';'')], rstar rspace]"

text \<open>\<open>^(?:(?:/[^/\s]+)*/)?(?:sh|bash)\s+-c\s+(?P<quote>['"])(?P<body>.*)(?P=quote)\s*$\<close>, the dot matching newlines\<close>

definition SHELL_C_RE :: regex where
  "SHELL_C_RE = rseq [RBol,
     ropt (RSeq (rstar (RSeq (rchar (CHR ''/'')) (rplus (RSet (\<lambda>c. c \<noteq> CHR ''/'' \<and> \<not> is_space c))))) (rchar (CHR ''/''))),
     ralt [rlit ''sh'', rlit ''bash''], rplus rspace, rlit ''-c'', rplus rspace,
     RGroup ''quote'' (RSet (\<lambda>c. c = SQ \<or> c = DQ)), RGroup ''body'' (rstar (RSet (\<lambda>_. True))), RBackref ''quote'',
     rstar rspace, REol]"

definition MESSAGE_CALLS :: "string list" where "MESSAGE_CALLS = [''log'', ''raise'', ''error'', ''assert'', ''print'']"
definition MESSAGE_METHODS :: "string list" where "MESSAGE_METHODS = [''info'', ''warn'', ''warning'', ''debug'', ''error'']"

definition EXEC_WRAPPER_NAMES :: "string list" where
  "EXEC_WRAPPER_NAMES = [''gh_exec'', ''run_cmd'', ''run_exec'', ''run_gh'', ''run_git'', ''run_gh_cmd'']"

definition OPTION_ARG_FLAGS :: "string list" where
  "OPTION_ARG_FLAGS = [''-C'', ''-c'', ''-R'', ''--cwd'', ''--git-dir'', ''--hostname'', ''--namespace'', ''--repo'', ''--work-tree'']"

definition PLACEHOLDER :: string where "PLACEHOLDER = ''__FKST_DYNAMIC__''"

section \<open>Sources and the allowlist\<close>

record lua_string_literal =
  ls_start :: nat
  ls_end :: nat
  ls_content :: string

record call_context =
  cc_name :: "string option"
  cc_open_paren :: nat
  cc_start :: nat
  cc_end :: nat
  cc_arg_starts :: "nat list"

definition is_adapter_path :: "string \<Rightarrow> bool" where
  "is_adapter_path relpath \<longleftrightarrow> relpath \<in> set ENTRY_FILES \<or> list_ex (startswith relpath) DIR_PREFIXES"

definition adapter_sources :: "tree \<Rightarrow> (string \<times> string) list" where
  "adapter_sources root =
     dict_of (map (\<lambda>p. (p, the_default [] (tree_read root p))) (rglob_lua root ''packages'' @ rglob_lua root ''libraries/forge''))"

type_synonym heads_by_file = "(string \<times> string fset) list"

fun parse_allowlist_lines :: "string option \<Rightarrow> heads_by_file \<Rightarrow> string list \<Rightarrow> heads_by_file result" where
  "parse_allowlist_lines current_path entries [] = Return entries"
| "parse_allowlist_lines current_path entries (raw # lines) =
     (if strip raw = [] \<or> startswith (lstrip raw) ''#'' then parse_allowlist_lines current_path entries lines
      else if \<not> startswith raw '' '' \<and> \<not> startswith raw [TAB] \<and> endswith (rstrip raw) '':''
      then let path = butlast (strip raw) in
        parse_allowlist_lines (Some path) (dmodify path {||} (\<lambda>heads. heads) entries) lines
      else case current_path of
             None \<Rightarrow> Raise (ValueError (''invalid '' @ ALLOWLIST @ '' line: '' @ raw))
           | Some path \<Rightarrow>
               if \<not> startswith (strip raw) ''- '' then Raise (ValueError (''invalid '' @ ALLOWLIST @ '' line: '' @ raw))
               else parse_allowlist_lines current_path (dmodify path {||} (finsert (strip (drop 2 (strip raw)))) entries) lines)"

definition load_allowlist :: "string option \<Rightarrow> heads_by_file result" where
  "load_allowlist file = (case file of None \<Rightarrow> Return [] | Some text \<Rightarrow> parse_allowlist_lines None [] (splitlines text))"

section \<open>Literals and concatenations\<close>

definition parse_literal :: "string \<Rightarrow> nat \<Rightarrow> (string \<times> nat) option" where
  "parse_literal text cursor =
     map_option (\<lambda>literal. (span_content literal text, sp_end literal)) (literal_span_at text cursor True False)"

definition lua_string_literals :: "string \<Rightarrow> lua_string_literal list" where
  "lua_string_literals text =
     map (\<lambda>span. \<lparr>ls_start = sp_start span, ls_end = sp_end span, ls_content = span_content span text\<rparr>) (literal_spans text True True)"

definition skip_whitespace :: "string \<Rightarrow> nat \<Rightarrow> nat" where
  "skip_whitespace text cursor = cursor + length (takeWhile is_space (drop cursor text))"

function skip_parens :: "string \<Rightarrow> nat \<Rightarrow> nat" where
  "skip_parens text cursor =
     (if cursor < length text \<and> text ! cursor = CHR ''('' then skip_parens text (skip_whitespace text (Suc cursor)) else cursor)"
  by pat_completeness auto

termination by (relation "measure (\<lambda>(text, cursor). length text - cursor)") (auto simp: skip_whitespace_def)

declare skip_parens.simps [simp del]

definition skip_expression_prefix :: "string \<Rightarrow> nat \<Rightarrow> nat" where
  "skip_expression_prefix text cursor = skip_parens text (skip_whitespace text cursor)"

text \<open>The position at which an operand of \<open>..\<close> ends: the rest of the mask and the depth of brackets.\<close>

fun dynamic_operand :: "nat \<Rightarrow> string \<Rightarrow> nat" where
  "dynamic_operand depth [] = 0"
| "dynamic_operand depth (c # cs) =
     (if depth = 0 \<and> startswith (c # cs) ''..'' then 0
      else if c \<in> set ''([{'' then Suc (dynamic_operand (Suc depth) cs)
      else if c \<in> set '')]}'' \<and> 0 < depth then Suc (dynamic_operand (depth - 1) cs)
      else if depth = 0 \<and> c \<in> set '',;'' then 0
      else Suc (dynamic_operand depth cs))"

definition skip_dynamic_operand :: "string \<Rightarrow> nat \<Rightarrow> nat" where
  "skip_dynamic_operand masked cursor = (let cursor = skip_whitespace masked cursor in cursor + dynamic_operand 0 (drop cursor masked))"

type_synonym literals_by_start = "(nat \<times> lua_string_literal) list"

fun prefix_parts :: "nat \<Rightarrow> string \<Rightarrow> string \<Rightarrow> literals_by_start \<Rightarrow> nat \<Rightarrow> string list option" where
  "prefix_parts 0 text masked literals cursor = None"
| "prefix_parts (Suc fuel) text masked literals cursor =
     (let cursor = skip_whitespace text cursor in
      if \<not> startswith (drop cursor text) ''..'' then Some []
      else let cursor = skip_expression_prefix text (cursor + 2) in
        case map_of literals cursor of
          Some next_literal \<Rightarrow> map_option ((#) (ls_content next_literal)) (prefix_parts fuel text masked literals (ls_end next_literal))
        | None \<Rightarrow> map_option ((#) ('' '' @ PLACEHOLDER @ '' '')) (prefix_parts fuel text masked literals (skip_dynamic_operand masked cursor)))"

definition command_prefix_for_literal :: "string \<Rightarrow> string \<Rightarrow> lua_string_literal \<Rightarrow> literals_by_start \<Rightarrow> string option" where
  "command_prefix_for_literal text masked literal literals =
     map_option (\<lambda>parts. concat (ls_content literal # parts)) (prefix_parts (Suc (length text)) text masked literals (ls_end literal))"

text \<open>The end of what is left of the text leading \<open>n\<close> when characters of a class are dropped from its end.\<close>

definition back_over :: "(char \<Rightarrow> bool) \<Rightarrow> string \<Rightarrow> nat \<Rightarrow> nat" where
  "back_over P text n = length (dropWhile P (rev (take n text)))"

definition prior_literal_in_concat :: "string \<Rightarrow> lua_string_literal \<Rightarrow> lua_string_literal list \<Rightarrow> bool" where
  "prior_literal_in_concat text literal previous_literals =
     (let k = back_over is_space text (ls_start literal) in
      if k < 2 \<or> py_slice text (k - 2) k \<noteq> ''..'' then False
      else let boundary = Max (set (map (\<lambda>c. rfind_char_below text c (k - 2)) ''=,;{(''))
           in list_ex (\<lambda>previous. boundary < int (ls_end previous)) previous_literals)"
section \<open>Shell words\<close>

definition lua_unescape_for_shell :: "string \<Rightarrow> string" where
  "lua_unescape_for_shell command =
     replace [BSLASH, BSLASH] [BSLASH] (replace [BSLASH, SQ] [SQ] (replace [BSLASH, DQ] [DQ] command))"

definition shell_prefix_step :: "string \<Rightarrow> string" where
  "shell_prefix_step command0 =
     (let command1 = re_sub ENV_ASSIGN_RE [] (lstrip command0);
          command2 = re_sub CD_RE [] (lstrip command1)
      in case re_match SHELL_C_RE (lstrip command2) of
           None \<Rightarrow> command2
         | Some shell \<Rightarrow> the_default [] (m_group shell ''body''))"

fun shell_prefix_steps :: "nat \<Rightarrow> string \<Rightarrow> string" where
  "shell_prefix_steps 0 command0 = command0"
| "shell_prefix_steps (Suc n) command0 =
     (let command1 = shell_prefix_step command0 in if command1 = command0 then command1 else shell_prefix_steps n command1)"

definition normalize_shell_prefix :: "string \<Rightarrow> string" where
  "normalize_shell_prefix command0 = lstrip (shell_prefix_steps 6 (lstrip (lua_unescape_for_shell command0)))"

text \<open>
  \<open>shlex.split(s, comments=False, posix=True)\<close>: words end at white space, quotes and backslashes are removed; \<open>None\<close>
  stands for the \<open>ValueError\<close> of a quotation or an escape that is not closed.
\<close>

datatype shlex_state = Blank | Word | Quoted char | Escaped shlex_state

abbreviation shlex_space :: "char \<Rightarrow> bool" where "shlex_space c \<equiv> c \<in> {CHR '' '', TAB, CR, LF}"
abbreviation shlex_quote :: "char \<Rightarrow> bool" where "shlex_quote c \<equiv> c \<in> {SQ, DQ}"

definition escaped_char :: "shlex_state \<Rightarrow> char \<Rightarrow> string" where
  "escaped_char st c = (case st of Quoted q \<Rightarrow> if c \<noteq> BSLASH \<and> c \<noteq> q then [BSLASH, c] else [c] | _ \<Rightarrow> [c])"

fun shlex_words :: "shlex_state \<Rightarrow> string \<Rightarrow> bool \<Rightarrow> string \<Rightarrow> string list option" where
  "shlex_words Blank token quoted [] = Some []"
| "shlex_words Word token quoted [] = Some (if token = [] \<and> \<not> quoted then [] else [token])"
| "shlex_words (Quoted q) token quoted [] = None"
| "shlex_words (Escaped st) token quoted [] = None"
| "shlex_words Blank token quoted (c # cs) =
     (if shlex_space c then shlex_words Blank [] False cs
      else if c = BSLASH then shlex_words (Escaped Word) [] False cs
      else if shlex_quote c then shlex_words (Quoted c) [] False cs
      else shlex_words Word [c] False cs)"
| "shlex_words Word token quoted (c # cs) =
     (if shlex_space c then
        (if token \<noteq> [] \<or> quoted then map_option ((#) token) (shlex_words Blank [] False cs) else shlex_words Blank [] False cs)
      else if shlex_quote c then shlex_words (Quoted c) token quoted cs
      else if c = BSLASH then shlex_words (Escaped Word) token quoted cs
      else shlex_words Word (token @ [c]) quoted cs)"
| "shlex_words (Quoted q) token quoted (c # cs) =
     (if c = q then shlex_words Word token True cs
      else if c = BSLASH \<and> q = DQ then shlex_words (Escaped (Quoted q)) token True cs
      else shlex_words (Quoted q) (token @ [c]) True cs)"
| "shlex_words (Escaped st) token quoted (c # cs) = shlex_words st (token @ escaped_char st c) quoted cs"

definition split_shell_words :: "string \<Rightarrow> string list" where
  "split_shell_words command0 =
     (case shlex_words Blank [] False command0 of Some words \<Rightarrow> words | None \<Rightarrow> split_ws command0)"

text \<open>The words after leading options and their arguments.\<close>

fun skip_leading_options :: "string list \<Rightarrow> string list" where
  "skip_leading_options [] = []"
| "skip_leading_options [option] = (if startswith option ''-'' then [] else [option])"
| "skip_leading_options (option # arg # words) =
     (if \<not> startswith option ''-'' then option # arg # words
      else if option \<in> set OPTION_ARG_FLAGS then skip_leading_options words
      else skip_leading_options (arg # words))"

definition command_head_for_words :: "string list \<Rightarrow> string option" where
  "command_head_for_words words =
     (case words of
        [] \<Rightarrow> None
      | program # rest \<Rightarrow>
          let tool = after_last (CHR ''/'') program in
          if tool \<notin> {''gh'', ''git''} then None
          else case skip_leading_options rest of
                 [] \<Rightarrow> Some tool
               | first # _ \<Rightarrow>
                   if first = PLACEHOLDER then Some tool else if startswith first ''-'' then Some tool
                   else Some (join '' '' [tool, first]))"

definition command_head :: "string \<Rightarrow> string option" where
  "command_head command0 = command_head_for_words (split_shell_words (normalize_shell_prefix command0))"

section \<open>Calls\<close>

definition name_parts :: "string \<Rightarrow> string list" where
  "name_parts name = split_char (CHR ''.'') (replace '':'' ''.'' name)"

definition call_name_before :: "string \<Rightarrow> nat \<Rightarrow> string option" where
  "call_name_before masked open_paren =
     (let stop = back_over is_space masked open_paren;
          start = back_over (\<lambda>c. is_alnum c \<or> c \<in> set ''_.:'') masked stop;
          name = py_slice masked start stop
      in if name = [] \<or> is_digit (hd name) then None
         else if list_ex (\<lambda>part. part = [] \<or> is_digit (hd part)) (name_parts name) then None
         else Some name)"

record open_bracket =
  ob_kind :: char
  ob_name :: "string option"
  ob_open :: nat
  ob_arg_starts :: "nat list"

definition close_bracket :: "open_bracket \<Rightarrow> nat \<Rightarrow> call_context list" where
  "close_bracket entry cursor =
     (if ob_kind entry = CHR ''(''
      then [\<lparr>cc_name = ob_name entry, cc_open_paren = ob_open entry, cc_start = ob_open entry + 1, cc_end = cursor,
             cc_arg_starts = ob_arg_starts entry\<rparr>]
      else [])"

fun call_contexts_from :: "string \<Rightarrow> nat \<Rightarrow> open_bracket list \<Rightarrow> string \<Rightarrow> call_context list" where
  "call_contexts_from masked cursor stack [] = []"
| "call_contexts_from masked cursor stack (c # cs) =
     (if c = CHR ''('' then
        call_contexts_from masked (Suc cursor)
          (\<lparr>ob_kind = c, ob_name = call_name_before masked cursor, ob_open = cursor, ob_arg_starts = [cursor + 1]\<rparr> # stack) cs
      else if c \<in> set ''[{'' then
        call_contexts_from masked (Suc cursor) (\<lparr>ob_kind = c, ob_name = None, ob_open = cursor, ob_arg_starts = []\<rparr> # stack) cs
      else if c \<in> set '')]}'' then
        (case stack of
           [] \<Rightarrow> call_contexts_from masked (Suc cursor) [] cs
         | entry # stack \<Rightarrow> close_bracket entry cursor @ call_contexts_from masked (Suc cursor) stack cs)
      else if c = CHR '','' then
        (case stack of
           [] \<Rightarrow> call_contexts_from masked (Suc cursor) [] cs
         | entry # stack \<Rightarrow>
             call_contexts_from masked (Suc cursor)
               ((if ob_kind entry = CHR ''('' then entry\<lparr>ob_arg_starts := ob_arg_starts entry @ [cursor + 1]\<rparr> else entry) # stack) cs)
      else call_contexts_from masked (Suc cursor) stack cs)"

definition lua_call_contexts :: "string \<Rightarrow> call_context list" where
  "lua_call_contexts masked = call_contexts_from masked 0 [] masked"

fun nearest_call_from :: "call_context option \<Rightarrow> call_context list \<Rightarrow> nat \<Rightarrow> call_context option" where
  "nearest_call_from best [] literal_start = best"
| "nearest_call_from best (context # contexts) literal_start =
     nearest_call_from
       (if cc_name context \<noteq> None \<and> cc_start context \<le> literal_start \<and> literal_start \<le> cc_end context
           \<and> (case best of None \<Rightarrow> True | Some b \<Rightarrow> cc_start b < cc_start context)
        then Some context else best) contexts literal_start"

definition nearest_call :: "call_context list \<Rightarrow> nat \<Rightarrow> call_context option" where
  "nearest_call contexts literal_start = nearest_call_from None contexts literal_start"

definition nearest_call_name :: "call_context list \<Rightarrow> nat \<Rightarrow> string option" where
  "nearest_call_name contexts literal_start =
     (case nearest_call contexts literal_start of None \<Rightarrow> None | Some call \<Rightarrow> cc_name call)"

definition is_message_call_name :: "string option \<Rightarrow> bool" where
  "is_message_call_name name =
     (case name of
        None \<Rightarrow> False
      | Some name \<Rightarrow>
          let parts = name_parts name in
          if length parts = 1 then hd parts \<in> set MESSAGE_CALLS
          else let method_name = last parts; receiver = join ''.'' (butlast parts) in
            if method_name \<in> set MESSAGE_METHODS then True else receiver = ''core'' \<and> startswith method_name ''log'')"

definition is_message_literal :: "call_context list \<Rightarrow> nat \<Rightarrow> bool" where
  "is_message_literal contexts literal_start = is_message_call_name (nearest_call_name contexts literal_start)"

definition is_exec_wrapper_call_name :: "string option \<Rightarrow> bool" where
  "is_exec_wrapper_call_name name = (case name of None \<Rightarrow> False | Some name \<Rightarrow> last (name_parts name) \<in> set EXEC_WRAPPER_NAMES)"

definition argument_index_at :: "call_context \<Rightarrow> nat \<Rightarrow> nat" where
  "argument_index_at context cursor = length (filter (\<lambda>start. start \<le> cursor) (cc_arg_starts context)) - 1"

definition is_exec_wrapper_context_literal :: "call_context list \<Rightarrow> nat \<Rightarrow> bool" where
  "is_exec_wrapper_context_literal contexts literal_start =
     (case nearest_call contexts literal_start of
        None \<Rightarrow> False
      | Some call \<Rightarrow> is_exec_wrapper_call_name (cc_name call) \<and> 0 < argument_index_at call literal_start)"

definition is_exec_argv_call_name :: "string option \<Rightarrow> bool" where
  "is_exec_argv_call_name name = (case name of None \<Rightarrow> False | Some name \<Rightarrow> last (name_parts name) = ''exec_argv'')"

definition is_excluded_literal :: "call_context list \<Rightarrow> nat \<Rightarrow> bool" where
  "is_excluded_literal contexts literal_start \<longleftrightarrow>
     is_message_literal contexts literal_start \<or> is_exec_wrapper_context_literal contexts literal_start"

section \<open>Argument tables\<close>

fun table_close_from :: "int \<Rightarrow> nat \<Rightarrow> string \<Rightarrow> nat option" where
  "table_close_from depth cursor [] = None"
| "table_close_from depth cursor (c # cs) =
     (if c = CHR ''{'' then table_close_from (depth + 1) (Suc cursor) cs
      else if c = CHR ''}'' then (if depth - 1 = 0 then Some cursor else table_close_from (depth - 1) (Suc cursor) cs)
      else table_close_from depth (Suc cursor) cs)"

definition matching_table_close :: "string \<Rightarrow> nat \<Rightarrow> nat option" where
  "matching_table_close masked open_brace = table_close_from 0 open_brace (drop open_brace masked)"

text \<open>\<open>argv\s*=\s*\{\s*$\<close>\<close>

definition argv_table_re :: regex where
  "argv_table_re = rseq [rlit ''argv'', rstar rspace, rchar (CHR ''=''), rstar rspace, rchar (CHR ''{''), rstar rspace, REol]"

definition argv_table_bounds_for_literal :: "string \<Rightarrow> nat \<Rightarrow> (nat \<times> nat) option" where
  "argv_table_bounds_for_literal masked literal_start =
     (let leading = take literal_start masked in
      case re_search argv_table_re leading of
        None \<Rightarrow> None
      | Some m \<Rightarrow>
          let open_brace = rfind_char_below leading (CHR ''{'') (m_end m) in
          if open_brace < int (m_start m) then None
          else case matching_table_close masked (nat open_brace) of
                 None \<Rightarrow> None
               | Some close_brace \<Rightarrow> if close_brace \<le> literal_start then None else Some (nat open_brace, close_brace))"

fun table_operand :: "nat \<Rightarrow> string \<Rightarrow> nat" where
  "table_operand depth [] = 0"
| "table_operand depth (c # cs) =
     (if c \<in> set ''([{'' then Suc (table_operand (Suc depth) cs)
      else if c \<in> set '')]}'' \<and> 0 < depth then Suc (table_operand (depth - 1) cs)
      else if depth = 0 \<and> c = CHR '','' then 0
      else Suc (table_operand depth cs))"

definition skip_table_operand :: "string \<Rightarrow> nat \<Rightarrow> nat \<Rightarrow> nat" where
  "skip_table_operand masked cursor table_end = cursor + table_operand 0 (py_slice masked cursor table_end)"

definition skip_space_below :: "string \<Rightarrow> nat \<Rightarrow> nat \<Rightarrow> nat" where
  "skip_space_below source limit cursor = cursor + length (takeWhile is_space (py_slice source cursor limit))"

definition table_word :: "string \<Rightarrow> literals_by_start \<Rightarrow> nat \<Rightarrow> nat \<Rightarrow> string list \<times> nat" where
  "table_word masked literals close_brace cursor =
     (case map_of literals cursor of
        Some literal \<Rightarrow> ([ls_content literal], ls_end literal)
      | None \<Rightarrow>
          let stop = skip_table_operand masked cursor close_brace in
          (if strip (py_slice masked cursor stop) \<noteq> [] then [PLACEHOLDER] else [], stop))"

fun argv_words :: "nat \<Rightarrow> string \<Rightarrow> string \<Rightarrow> nat \<Rightarrow> literals_by_start \<Rightarrow> nat \<Rightarrow> string list option" where
  "argv_words 0 source masked close_brace literals cursor = None"
| "argv_words (Suc fuel) source masked close_brace literals cursor =
     (let cursor = skip_space_below source close_brace cursor in
      if close_brace \<le> cursor then Some []
      else case table_word masked literals close_brace cursor of
        (words, cursor) \<Rightarrow>
          let cursor = skip_space_below source close_brace cursor;
              cursor = (if cursor < close_brace \<and> source ! cursor = CHR '','' then Suc cursor else cursor)
          in map_option ((@) words) (argv_words fuel source masked close_brace literals cursor))"

definition argv_words_from_table :: "string \<Rightarrow> string \<Rightarrow> nat \<Rightarrow> nat \<Rightarrow> literals_by_start \<Rightarrow> string list option" where
  "argv_words_from_table source masked open_brace close_brace literals =
     argv_words (Suc close_brace) source masked close_brace literals (open_brace + 1)"

definition exec_argv_head_for_literal ::
    "string \<Rightarrow> string \<Rightarrow> call_context list \<Rightarrow> lua_string_literal \<Rightarrow> literals_by_start \<Rightarrow> string option option" where
  "exec_argv_head_for_literal source masked contexts literal literals =
     (case nearest_call contexts (ls_start literal) of
        None \<Rightarrow> Some None
      | Some call \<Rightarrow>
          if \<not> is_exec_argv_call_name (cc_name call) then Some None
          else case argv_table_bounds_for_literal masked (ls_start literal) of
                 None \<Rightarrow> Some None
               | Some (open_brace, close_brace) \<Rightarrow>
                   map_option (\<lambda>words. if words = [] \<or> hd words \<noteq> ls_content literal then None else command_head_for_words words)
                     (argv_words_from_table source masked open_brace close_brace literals))"

section \<open>Command heads\<close>

text \<open>The head at one literal: the argument table it opens, or the command it starts.\<close>

definition literal_head ::
    "string \<Rightarrow> string \<Rightarrow> call_context list \<Rightarrow> literals_by_start \<Rightarrow> lua_string_literal \<Rightarrow> string option option" where
  "literal_head source masked contexts literals literal =
     Option.bind (exec_argv_head_for_literal source masked contexts literal literals) (\<lambda>head.
       case head of
         Some h \<Rightarrow> Some (Some h)
       | None \<Rightarrow> map_option command_head (command_prefix_for_literal source masked literal literals))"

fun heads_from ::
    "string \<Rightarrow> string \<Rightarrow> call_context list \<Rightarrow> literals_by_start \<Rightarrow> string fset \<Rightarrow> lua_string_literal list \<Rightarrow> lua_string_literal list
     \<Rightarrow> string fset option" where
  "heads_from source masked contexts literals heads previous [] = Some heads"
| "heads_from source masked contexts literals heads previous (literal # rest) =
     (if prior_literal_in_concat source literal previous
      then heads_from source masked contexts literals heads (previous @ [literal]) rest
      else Option.bind (literal_head source masked contexts literals literal) (\<lambda>head.
        heads_from source masked contexts literals
          (case head of
             Some h \<Rightarrow> if \<not> is_excluded_literal contexts (ls_start literal) then finsert h heads else heads
           | None \<Rightarrow> heads)
          (previous @ [literal]) rest))"

definition index_literals :: "lua_string_literal list \<Rightarrow> literals_by_start" where
  "index_literals literals = dict_of (map (\<lambda>literal. (ls_start literal, literal)) literals)"

definition command_heads :: "string \<Rightarrow> string fset option" where
  "command_heads source =
     (let masked = code_mask source; literals = lua_string_literals source in
      heads_from source masked (lua_call_contexts masked) (index_literals literals) {||} [] literals)"

definition scanned_path :: "string \<Rightarrow> bool" where
  "scanned_path path \<longleftrightarrow>
     endswith path ''.lua'' \<and> \<not> contains ''/tests/'' path \<and> \<not> is_adapter_path path
     \<and> (startswith path ''packages/'' \<or> startswith path ''libraries/forge/'')"

fun heads_by_file_from :: "heads_by_file \<Rightarrow> (string \<times> string) list \<Rightarrow> heads_by_file option" where
  "heads_by_file_from current [] = Some current"
| "heads_by_file_from current ((path, source) # sources) =
     (if \<not> scanned_path path then heads_by_file_from current sources
      else Option.bind (command_heads source) (\<lambda>heads.
        heads_by_file_from (if heads \<noteq> {||} then AList.update path heads current else current) sources))"

definition command_heads_by_file :: "(string \<times> string) list \<Rightarrow> heads_by_file option" where
  "command_heads_by_file sources = heads_by_file_from [] (sort sources)"

definition file_messages :: "heads_by_file \<Rightarrow> heads_by_file \<Rightarrow> string \<Rightarrow> string list" where
  "file_messages current allowlist path =
     (let current_heads = dget current path {||}; allowlisted_heads = dget allowlist path {||} in
      (if allowlisted_heads = {||} \<and> path \<in> fst ` set allowlist
       then [path @ '' has an empty allowlist entry in '' @ ALLOWLIST @ ''; remove the file entry''] else []) @
      map (\<lambda>head. path @ '' constructs a new gh/git command head '' @ [SQ] @ head @ [SQ] @
             '' not in the allowlist baseline; migrate it to forge.github/forge.git'')
          (sorted_list_of_fset (current_heads |-| allowlisted_heads)) @
      map (\<lambda>head. path @ '' no longer constructs '' @ [SQ] @ head @ [SQ] @ ''; update its entry in '' @ ALLOWLIST @ '' (it must shrink)'')
          (sorted_list_of_fset (allowlisted_heads |-| current_heads)))"

definition ratchet_messages :: "(string \<times> string) list \<Rightarrow> heads_by_file \<Rightarrow> string list option" where
  "ratchet_messages sources allowlist =
     map_option (\<lambda>current.
         concat (map (file_messages current allowlist)
           (sorted_list_of_fset (fset_of_list (map fst current) |\<union>| fset_of_list (map fst allowlist)))))
       (command_heads_by_file sources)"

section \<open>Every scan ends\<close>

lemma skip_whitespace_ge: "cursor \<le> skip_whitespace src cursor"
  by (simp add: skip_whitespace_def)

lemma skip_parens_ge: "cursor \<le> skip_parens src cursor"
proof (induction src cursor rule: skip_parens.induct)
  case (1 src cursor)
  then show ?case using skip_whitespace_ge [of "Suc cursor" src]
    by (subst skip_parens.simps) (auto intro: le_trans [OF Suc_leD])
qed

lemma skip_expression_prefix_ge: "cursor \<le> skip_expression_prefix src cursor"
  unfolding skip_expression_prefix_def using skip_whitespace_ge skip_parens_ge le_trans by blast

lemma skip_dynamic_operand_ge: "cursor \<le> skip_dynamic_operand masked cursor"
  unfolding skip_dynamic_operand_def Let_def using skip_whitespace_ge le_add1 le_trans by blast

text \<open>What the loops rely on: the dictionary leads past the position at which a literal starts.\<close>

definition leads_forward :: "literals_by_start \<Rightarrow> bool" where
  "leads_forward literals \<longleftrightarrow> (\<forall>(k, literal) \<in> set literals. k < ls_end literal)"

lemma leads_forwardD: "leads_forward literals \<Longrightarrow> map_of literals k = Some literal \<Longrightarrow> k < ls_end literal"
  by (auto simp: leads_forward_def dest: map_of_SomeD)

lemma prefix_parts_returns:
  assumes "leads_forward literals"
  shows "length src - cursor < fuel \<Longrightarrow> prefix_parts fuel src masked literals cursor \<noteq> None"
proof (induction fuel arbitrary: cursor)
  case (Suc fuel)
  define here where "here = skip_whitespace src cursor"
  define after where "after = skip_expression_prefix src (here + 2)"
  show ?case
  proof (cases "startswith (drop here src) ''..''")
    case True
    then have "2 \<le> length (drop here src)" using prefix_length_le by fastforce
    then have room: "here + 2 \<le> length src" by simp
    have after: "cursor + 2 \<le> after"
      using skip_whitespace_ge [of cursor src] skip_expression_prefix_ge [of "here + 2" src] unfolding here_def after_def by linarith
    have less: "length src - k < fuel" if "after \<le> k" for k
      using that after room Suc.prems skip_whitespace_ge [of cursor src] unfolding here_def by linarith
    show ?thesis
    proof (cases "map_of literals after")
      case None
      then show ?thesis
        using Suc.IH [OF less [OF skip_dynamic_operand_ge]] True unfolding prefix_parts.simps Let_def here_def [symmetric] after_def [symmetric] by simp
    next
      case (Some literal)
      then have "after \<le> ls_end literal" using leads_forwardD [OF assms] by fastforce
      then show ?thesis
        using Suc.IH [OF less] True Some unfolding prefix_parts.simps Let_def here_def [symmetric] after_def [symmetric] by simp
    qed
  qed (simp add: Let_def here_def)
qed simp

lemma table_operand_zero: "table_operand 0 (c # cs) = 0 \<Longrightarrow> c = CHR '',''"
  by (auto split: if_splits)

lemma argv_words_returns:
  assumes literals: "leads_forward literals" and close: "close_brace \<le> length masked"
    and commas: "\<And>i. i < close_brace \<Longrightarrow> masked ! i = CHR '','' \<Longrightarrow> source ! i = CHR '',''"
    and size: "length source = length masked"
  shows "close_brace - cursor < fuel \<Longrightarrow> argv_words fuel source masked close_brace literals cursor \<noteq> None"
proof (induction fuel arbitrary: cursor)
  case (Suc fuel)
  define here where "here = skip_space_below source close_brace cursor"
  obtain words stop where word: "table_word masked literals close_brace here = (words, stop)" by (cases "table_word masked literals close_brace here")
  define after where "after = skip_space_below source close_brace stop"
  define onward where "onward = (if after < close_brace \<and> source ! after = CHR '','' then Suc after else after)"
  show ?case
  proof (cases "close_brace \<le> here")
    case False
    have here: "cursor \<le> here" by (simp add: here_def skip_space_below_def)
    have after: "stop \<le> after" by (simp add: after_def skip_space_below_def)
    have "here < onward"
    proof (cases "map_of literals here")
      case (Some literal)
      then have "here < stop" using word leads_forwardD [OF literals Some] by (auto simp: table_word_def)
      with after show ?thesis by (simp add: onward_def)
    next
      case None
      then have stop: "stop = here + table_operand 0 (py_slice masked here close_brace)"
        using word by (simp add: table_word_def skip_table_operand_def Let_def)
      have slice: "py_slice xs here close_brace = xs ! here # py_slice xs (Suc here) close_brace" if "length xs = length masked" for xs :: string
        using False close that unfolding py_slice_def
        by (metis Cons_nth_drop_Suc Suc_diff_Suc linorder_not_le order_less_le_trans take_Suc_Cons)
      show ?thesis
      proof (cases "table_operand 0 (py_slice masked here close_brace) = 0")
        case True
        then have "masked ! here = CHR '',''" using slice [of masked] table_operand_zero by metis
        then have comma: "source ! here = CHR '',''" using commas False by simp
        then have "after = here"
          unfolding after_def skip_space_below_def stop True using slice [OF size] by (simp add: char_class_defs)
        then show ?thesis using comma False by (simp add: onward_def)
      next
        case False
        then show ?thesis using stop after by (simp add: onward_def)
      qed
    qed
    then have "close_brace - onward < fuel" using False Suc.prems here by linarith
    then show ?thesis
      using Suc.IH False word unfolding argv_words.simps Let_def here_def [symmetric] onward_def after_def by simp
  qed (simp add: Let_def here_def)
qed simp

lemma index_literals_forward: "leads_forward (index_literals (lua_string_literals src))"
proof -
  have "sp_start sp < sp_end sp" if "sp \<in> set (literal_spans src True True)" for sp
    using that spans_from_wf [OF lex_loop_spans_from, of sp src True True 0 1] by (auto simp: literal_spans_def lex_def span_wf_def)
  then have "ls_start literal < ls_end literal" if "literal \<in> set (lua_string_literals src)" for literal
    using that by (auto simp: lua_string_literals_def)
  moreover have "distinct (map fst (index_literals literals))" for literals
    unfolding index_literals_def by (rule dict_of_dist)
  ultimately show ?thesis
    unfolding leads_forward_def index_literals_def by (fastforce dest: map_of_is_SomeI map_of_dict_ofD [rotated] simp: map_of_dict_ofD)
qed

lemma mask_comma: "i < length src \<Longrightarrow> code_mask src ! i = CHR '','' \<Longrightarrow> src ! i = CHR '',''"
  by (simp add: code_mask_gen_nth split: if_splits)

lemma table_close_from_bound: "table_close_from depth cursor cs = Some k \<Longrightarrow> k < cursor + length cs"
  by (induction depth cursor cs rule: table_close_from.induct) (auto split: if_splits)

lemma argv_table_bounds_below:
  assumes "argv_table_bounds_for_literal masked k = Some (open_brace, close_brace)"
  shows "close_brace \<le> length masked"
proof -
  obtain m where m: "re_search argv_table_re (take k masked) = Some m"
    and closing: "matching_table_close masked (nat (rfind_char_below (take k masked) (CHR ''{'') (m_end m))) = Some close_brace"
    and start: "int (m_start m) \<le> rfind_char_below (take k masked) (CHR ''{'') (m_end m)"
    using assms by (auto simp: argv_table_bounds_for_literal_def Let_def split: option.splits if_splits)
  have "rfind_char_below s c n < int (length s)" for s c n by (induction s c n rule: rfind_char_below.induct) auto
  then have "nat (rfind_char_below (take k masked) (CHR ''{'') (m_end m)) \<le> length masked"
    by (metis length_take min.cobounded1 nat_le_iff order.trans order_less_imp_le zle_int)
  with closing show ?thesis unfolding matching_table_close_def by (auto dest!: table_close_from_bound)
qed

lemma literal_head_returns:
  "literal_head src (code_mask src) contexts (index_literals (lua_string_literals src)) literal \<noteq> None"
proof -
  let ?index = "index_literals (lua_string_literals src)"
  have "command_prefix_for_literal src (code_mask src) literal ?index \<noteq> None"
    using prefix_parts_returns [OF index_literals_forward, where cursor = "ls_end literal" and fuel = "Suc (length src)"]
    by (simp add: command_prefix_for_literal_def)
  moreover have "exec_argv_head_for_literal src (code_mask src) contexts literal ?index \<noteq> None"
  proof -
    have "argv_words_from_table src (code_mask src) a b ?index \<noteq> None"
      if "argv_table_bounds_for_literal (code_mask src) (ls_start literal) = Some (a, b)" for a b
      unfolding argv_words_from_table_def
      using argv_table_bounds_below [OF that] mask_comma [of _ src]
      by (intro argv_words_returns [OF index_literals_forward]) auto
    then show ?thesis by (auto simp: exec_argv_head_for_literal_def split: option.splits)
  qed
  ultimately show ?thesis by (auto simp: literal_head_def split: option.splits)
qed

lemma heads_from_returns:
  "heads_from src (code_mask src) contexts (index_literals (lua_string_literals src)) heads previous rest \<noteq> None"
proof (induction rest arbitrary: heads previous)
  case (Cons literal rest)
  then show ?case using literal_head_returns [of src contexts literal] by auto
qed simp

lemma command_heads_total: "command_heads src \<noteq> None"
  using heads_from_returns by (simp add: command_heads_def Let_def)

text \<open>
  C22. The scan of a source ends, whatever the source: neither following concatenations nor reading argument
  tables runs forever, and the set of command heads is always returned.
\<close>

theorem command_heads_returns: "\<exists>heads. command_heads src = Some heads"
  using command_heads_total by fast

section \<open>What heads look like\<close>

definition head_shape :: "string \<Rightarrow> bool" where
  "head_shape head \<longleftrightarrow> (\<exists>tool \<in> {''gh'', ''git''}. head = tool \<or>
     (\<exists>word. head = tool @ '' '' @ word \<and> \<not> startswith word ''-'' \<and> word \<noteq> PLACEHOLDER))"

lemma command_head_for_words_shape: "command_head_for_words words = Some head \<Longrightarrow> head_shape head"
  by (auto simp: command_head_for_words_def head_shape_def Let_def split: list.splits if_splits)

lemma exec_argv_head_shape: "exec_argv_head_for_literal src masked contexts literal literals = Some (Some head) \<Longrightarrow> head_shape head"
  unfolding exec_argv_head_for_literal_def
  by (auto split: option.split_asm if_split_asm prod.split_asm intro: command_head_for_words_shape)

lemma literal_head_shape:
  assumes "literal_head src masked contexts literals literal = Some (Some head)"
  shows "head_shape head"
proof -
  obtain found where found: "exec_argv_head_for_literal src masked contexts literal literals = Some found"
    using assms by (auto simp: literal_head_def bind_eq_Some_conv)
  show ?thesis
  proof (cases found)
    case None
    with found assms obtain command0 where "command_head command0 = Some head" by (auto simp: literal_head_def)
    then show ?thesis unfolding command_head_def by (rule command_head_for_words_shape)
  next
    case (Some h)
    with found assms show ?thesis using exec_argv_head_shape by (simp add: literal_head_def)
  qed
qed

lemma heads_from_shape:
  "heads_from src masked contexts literals heads previous rest = Some heads' \<Longrightarrow> fBall heads head_shape \<Longrightarrow> fBall heads' head_shape"
proof (induction rest arbitrary: heads previous)
  case (Cons literal rest)
  show ?case
  proof (cases "prior_literal_in_concat src literal previous")
    case False
    then obtain head where head: "literal_head src masked contexts literals literal = Some head"
      and rest: "heads_from src masked contexts literals
          (case head of Some h \<Rightarrow> if \<not> is_excluded_literal contexts (ls_start literal) then finsert h heads else heads | None \<Rightarrow> heads)
          (previous @ [literal]) rest = Some heads'"
      using Cons.prems(1) by (auto simp: bind_eq_Some_conv)
    have "head_shape h" if "head = Some h" for h using literal_head_shape head that by blast
    then have "fBall (case head of Some h \<Rightarrow> if \<not> is_excluded_literal contexts (ls_start literal) then finsert h heads else heads | None \<Rightarrow> heads) head_shape"
      using Cons.prems(2) by (simp split: option.split)
    with Cons.IH rest show ?thesis by blast
  qed (use Cons in simp)
qed simp

text \<open>
  Heads are typed: every head found in a source is \<open>gh\<close> or \<open>git\<close>, alone or with one word that is not an
  option and not the mark of a dynamic operand, whatever paths, options, quotations and shells surround the command.
\<close>

theorem command_heads_shape: "\<exists>heads. command_heads src = Some heads \<and> fset heads \<subseteq> {head. head_shape head}"
proof -
  let ?scan = "heads_from src (code_mask src) (lua_call_contexts (code_mask src)) (index_literals (lua_string_literals src)) {||} []
    (lua_string_literals src)"
  obtain heads where heads: "?scan = Some heads" using heads_from_returns by fast
  then have "fBall heads head_shape" by (rule heads_from_shape) simp
  with heads show ?thesis by (auto simp: command_heads_def Let_def)
qed

section \<open>When the ratchet prints nothing\<close>

definition heads_at :: "(string \<times> string) list \<Rightarrow> string \<Rightarrow> string fset option" where
  "heads_at sources path =
     (case map_of sources path of
        None \<Rightarrow> None
      | Some src \<Rightarrow> if scanned_path path \<and> command_heads src \<noteq> Some {||} then command_heads src else None)"

lemma heads_by_file_from_eq:
  "distinct (map fst sources) \<Longrightarrow> fst ` set sources \<inter> fst ` set current = {} \<Longrightarrow>
   \<exists>found. heads_by_file_from current sources = Some found
     \<and> map_of found = (\<lambda>path. case heads_at sources path of None \<Rightarrow> map_of current path | Some heads \<Rightarrow> Some heads)"
proof (induction sources arbitrary: current)
  case Nil
  show ?case by (simp add: heads_at_def)
next
  case (Cons entry sources)
  obtain path src where entry: "entry = (path, src)" by fastforce
  obtain heads where heads: "command_heads src = Some heads" using command_heads_total by blast
  define current' where "current' = (if scanned_path path \<and> heads \<noteq> {||} then AList.update path heads current else current)"
  have fresh: "path \<notin> fst ` set sources" "map_of sources path = None" using Cons.prems(1) entry by (auto simp: map_of_eq_None_iff)
  have "fst ` set current' \<subseteq> insert path (fst ` set current)" by (auto simp: current'_def dom_update)
  moreover have "fst ` set sources \<inter> insert path (fst ` set current) = {}" using Cons.prems(2) fresh(1) entry by simp
  ultimately have "fst ` set sources \<inter> fst ` set current' = {}" by blast
  then obtain found where found: "heads_by_file_from current' sources = Some found"
    "map_of found = (\<lambda>path. case heads_at sources path of None \<Rightarrow> map_of current' path | Some heads \<Rightarrow> Some heads)"
    using Cons.IH [of current'] Cons.prems(1) by auto
  have old: "map_of current path = None" using Cons.prems(2) entry by (simp add: map_of_eq_None_iff)
  have "(case heads_at sources p of None \<Rightarrow> map_of current' p | Some heads \<Rightarrow> Some heads) =
      (case heads_at (entry # sources) p of None \<Rightarrow> map_of current p | Some heads \<Rightarrow> Some heads)" for p
  proof (cases "p = path")
    case True
    moreover have "heads_at sources path = None" using fresh(2) by (simp add: heads_at_def)
    moreover have "heads_at (entry # sources) path = (if scanned_path path \<and> heads \<noteq> {||} then Some heads else None)"
      using heads by (simp add: heads_at_def entry)
    ultimately show ?thesis using old by (simp add: current'_def update_conv')
  next
    case False
    then show ?thesis by (simp add: heads_at_def entry current'_def update_conv' cong: option.case_cong)
  qed
  moreover have "heads_by_file_from current (entry # sources) = heads_by_file_from current' sources"
    using heads by (simp add: entry current'_def)
  ultimately show ?case using found by simp
qed

lemma command_heads_by_file_eq:
  assumes "distinct (map fst sources)"
  shows "\<exists>found. command_heads_by_file sources = Some found \<and> map_of found = heads_at sources"
proof -
  have "distinct (map fst (sort sources))" using assms by (simp add: distinct_map)
  moreover have "map_of (sort sources) = map_of sources" using assms calculation by (simp add: map_of_inject_set)
  moreover have "(\<lambda>path. case h path of None \<Rightarrow> map_of [] path | Some heads \<Rightarrow> Some heads) = h" for h :: "string \<Rightarrow> string fset option"
    by (simp add: fun_eq_iff split: option.split)
  moreover have "heads_at (sort sources) = heads_at sources" using calculation by (simp add: heads_at_def fun_eq_iff)
  ultimately show ?thesis
    using heads_by_file_from_eq [of "sort sources" "[]"] by (simp add: command_heads_by_file_def del: map_of.simps)
qed

lemma file_messages_Nil:
  "file_messages current allowlist path = [] \<longleftrightarrow>
     map_of allowlist path \<noteq> Some {||} \<and> dget current path {||} = dget allowlist path {||}"
proof -
  have diff: "A |-| B = {||} \<longleftrightarrow> A |\<subseteq>| B" for A B :: "string fset" by auto
  have key: "path \<in> fst ` set allowlist \<longleftrightarrow> map_of allowlist path \<noteq> None" by (simp add: map_of_eq_None_iff)
  show ?thesis
    by (auto simp: file_messages_def Let_def diff dget_def key split: option.split)
qed

lemma heads_at_nonempty: "heads_at sources path \<noteq> Some {||}"
  by (simp add: heads_at_def split: option.split)

lemma messages_Nil_iff:
  assumes "distinct (map fst sources)"
  shows "ratchet_messages sources allowlist = Some [] \<longleftrightarrow> map_of allowlist = heads_at sources"
proof -
  obtain found where found: "command_heads_by_file sources = Some found" "map_of found = heads_at sources"
    using command_heads_by_file_eq [OF assms] by blast
  have same: "file_messages found allowlist path = [] \<longleftrightarrow> map_of allowlist path = map_of found path"
    if "path \<in> fst ` set found \<union> fst ` set allowlist" for path
    using heads_at_nonempty [of sources path] found(2) that
    by (auto simp: file_messages_Nil dget_def split: option.splits)
  have outside: "map_of allowlist path = map_of found path" if "path \<notin> fst ` set found \<union> fst ` set allowlist" for path
    using that by (metis UnCI map_of_eq_None_iff)
  have "ratchet_messages sources allowlist = Some [] \<longleftrightarrow>
      (\<forall>path \<in> fst ` set found \<union> fst ` set allowlist. file_messages found allowlist path = [])"
    using found(1) by (simp add: ratchet_messages_def fset_of_list.rep_eq)
  also have "\<dots> \<longleftrightarrow> map_of allowlist = map_of found" using same outside by (metis ext)
  finally show ?thesis using found(2) by simp
qed

text \<open>
  The ratchet prints nothing on a tree exactly if the allowlist has, file by file, the non-empty sets of command
  heads found in the production sources outside the forge adapters: no new head, no stale head, no empty entry.
\<close>

theorem gh_git_messages_iff:
  "ratchet_messages (adapter_sources root) allowlist = Some [] \<longleftrightarrow> map_of allowlist = heads_at (adapter_sources root)"
  unfolding adapter_sources_def by (rule messages_Nil_iff) (rule dict_of_dist)

section \<open>Plain commands are recognised\<close>

lemma anchored_search: "0 < i \<Longrightarrow> search_at (RSeq RBol r) i p cs = None"
  by (induction cs arbitrary: i p) (simp_all add: match_at_def)

lemma anchored_sub: "rmatch (RSeq RBol r) (0, None, s) [] = [] \<Longrightarrow> re_sub (RSeq RBol r) q s = s"
proof -
  assume none: "rmatch (RSeq RBol r) (0, None, s) [] = []"
  have "search_at (RSeq RBol r) 0 None s = None"
    using none by (cases s) (simp_all add: match_at_def anchored_search del: rmatch.simps)
  then have "re_search_from (RSeq RBol r) s 0 = None" by (simp add: re_search_from_def pos_at_def)
  then show ?thesis by (simp add: re_sub_def re_finditer_def finditer_from.simps)
qed

lemma replace_absent: "c \<notin> set s \<Longrightarrow> replace (c # p) q s = s"
proof -
  have "replace_fuel n (c # p) q s = s" if "c \<notin> set s" for n
    using that by (induction n "c # p" q s rule: replace_fuel.induct) auto
  then show "c \<notin> set s \<Longrightarrow> replace (c # p) q s = s" by (simp add: replace_def)
qed

definition plain_word :: "string \<Rightarrow> bool" where
  "plain_word w \<longleftrightarrow> w \<noteq> [] \<and> list_all (\<lambda>c. \<not> shlex_space c \<and> \<not> shlex_quote c \<and> c \<noteq> BSLASH) w"

lemma shlex_word_run:
  "list_all (\<lambda>c. \<not> shlex_space c \<and> \<not> shlex_quote c \<and> c \<noteq> BSLASH) w \<Longrightarrow> shlex_words Word token quoted (w @ cs) = shlex_words Word (token @ w) quoted cs"
  by (induction w arbitrary: token) auto

lemma shlex_plain: "list_all plain_word ws \<Longrightarrow> shlex_words Blank [] False (join '' '' ws) = Some ws"
proof (induction "'' '' :: string" ws rule: join.induct)
  case (2 w)
  then obtain c cs where "w = c # cs" by (cases w) (auto simp: plain_word_def)
  with 2 shlex_word_run [of cs "[c]" False "[]"] show ?case by (auto simp: plain_word_def)
next
  case (3 w v ws)
  then obtain c cs where w: "w = c # cs" by (cases w) (auto simp: plain_word_def)
  with 3 shlex_word_run [of cs "[c]" False "'' '' @ join '' '' (v # ws)"] show ?case by (auto simp: plain_word_def)
qed simp

text \<open>Nothing is cut off before the name of the tool.\<close>

lemma shell_prefix_step_tool: "tool \<in> {''gh'', ''git''} \<Longrightarrow> shell_prefix_step (tool @ CHR '' '' # rest) = tool @ CHR '' '' # rest"
proof -
  assume tool: "tool \<in> {''gh'', ''git''}"
  let ?s = "tool @ CHR '' '' # rest"
  have strip: "lstrip ?s = ?s" using tool by (auto simp: lstrip_def char_class_defs)
  have ident: "ident_char CHR ''h''" "ident_char CHR ''i''" "ident_char CHR ''t''" "\<not> ident_char CHR '' ''" "ident_start CHR ''g''"
    by (simp_all add: ident_char_def ident_start_def char_class_defs)
  have "rmatch RIDENT (0, None, ''gh'' @ CHR '' '' # rest) [] = [((2, Some CHR ''h'', CHR '' '' # rest), []), ((1, Some CHR ''g'', ''h '' @ rest), [])]"
    "rmatch RIDENT (0, None, ''git'' @ CHR '' '' # rest) [] =
      [((3, Some CHR ''t'', CHR '' '' # rest), []), ((2, Some CHR ''i'', ''t '' @ rest), []), ((1, Some CHR ''g'', ''it '' @ rest), [])]"
    unfolding RIDENT_def rmatch.simps(3) by (simp_all add: rmatch_greedy_set ident del: rmatch.simps(5))
  then have name: "rmatch (RSeq RIDENT (RSeq (rchar (CHR ''='')) r)) (0, None, ?s) [] = []" for r
    using tool by auto
  have env: "rmatch ENV_ASSIGN_RE (0, None, ?s) [] = []"
  proof -
    have "rmatch (RSeq RBol (RSeq (RSeq RIDENT (RSeq (rchar (CHR ''='')) r)) q)) (0, None, ?s) [] = []" for r q
      using name [of r] by (simp only: rmatch.simps(3) [of RBol] rmatch.simps(3) [of "RSeq RIDENT (RSeq (rchar (CHR ''='')) r)"] rmatch.simps(8)
          fst_conv simp_thms if_True list.map concat.simps prod.case append_Nil2)
    then show ?thesis unfolding ENV_ASSIGN_RE_def rseq.simps .
  qed
  obtain t where t: "?s = CHR ''g'' # t" using tool by auto
  have cd: "rmatch CD_RE (0, None, ?s) [] = []"
    unfolding CD_RE_def rseq.simps t rmatch.simps(3) by (simp add: rmatch_rlit del: rlit.simps rmatch.simps(3))
  have "rmatch (rstar (RSeq (rchar (CHR ''/'')) r)) (0, None, CHR ''g'' # t) [] = [((0, None, CHR ''g'' # t), [])]" for r by simp
  then have path: "rmatch (ropt (RSeq (rstar (RSeq (rchar (CHR ''/'')) r)) (rchar (CHR ''/'')))) (0, None, CHR ''g'' # t) [] = [((0, None, CHR ''g'' # t), [])]" for r
    by (simp only: rmatch.simps(1,3,4)) simp
  have shell: "rmatch SHELL_C_RE (0, None, ?s) [] = []"
  proof -
    let ?path = "\<lambda>r. ropt (RSeq (rstar (RSeq (rchar (CHR ''/'')) r)) (rchar (CHR ''/'')))"
    have names: "rmatch (ralt [rlit ''sh'', rlit ''bash'']) (0, None, CHR ''g'' # t) [] = []" by (simp add: rmatch_rlit del: rlit.simps)
    have "rmatch (RSeq RBol (RSeq (?path r) (RSeq (ralt [rlit ''sh'', rlit ''bash'']) q))) (0, None, CHR ''g'' # t) [] = []" for r q
      by (simp only: rmatch.simps(3) [of RBol] rmatch.simps(3) [of "?path r"] rmatch.simps(3) [of "ralt [rlit ''sh'', rlit ''bash'']"]
          path names rmatch.simps(8) fst_conv simp_thms if_True list.map concat.simps prod.case append_Nil2)
    then show ?thesis unfolding SHELL_C_RE_def rseq.simps t .
  qed
  have "re_sub ENV_ASSIGN_RE [] ?s = ?s" "re_sub CD_RE [] ?s = ?s" "re_match SHELL_C_RE ?s = None"
    using anchored_sub env cd shell unfolding ENV_ASSIGN_RE_def CD_RE_def rseq.simps by (blast, blast, simp add: re_match_def match_at_def)
  then show ?thesis
    using strip by (simp only: shell_prefix_step_def Let_def option.case)
qed

text \<open>
  A plain command is recognised: a text whose words are free of quotes, backslashes and white space, the
  first \<open>gh\<close> or \<open>git\<close> and the second not an option and not the mark of a dynamic operand, has the head made of these two.
\<close>

theorem plain_command_recognised:
  assumes tool: "tool \<in> {''gh'', ''git''}" and plain: "list_all plain_word (verb # args)"
    and verb: "\<not> startswith verb ''-''" "verb \<noteq> PLACEHOLDER"
  shows "command_head (join '' '' (tool # verb # args)) = Some (tool @ '' '' @ verb)"
proof -
  let ?s = "join '' '' (tool # verb # args)"
  have words: "list_all plain_word (tool # verb # args)" using tool plain by (auto simp: plain_word_def)
  have s: "?s = tool @ CHR '' '' # join '' '' (verb # args)" by simp
  have "BSLASH \<notin> set w" if "plain_word w" for w using that unfolding plain_word_def list_all_iff by blast
  then have "BSLASH \<notin> set w" if "w \<in> set (tool # verb # args)" for w using words that unfolding list_all_iff by blast
  then have "BSLASH \<notin> (\<Union>w \<in> set (tool # verb # args). set w)" by blast
  moreover have "BSLASH \<notin> set '' ''" by simp
  ultimately have "BSLASH \<notin> set ?s" using set_join [of "'' ''" "tool # verb # args"] by blast
  then have "lua_unescape_for_shell ?s = ?s" by (simp add: lua_unescape_for_shell_def replace_absent del: join.simps)
  moreover have "lstrip ?s = ?s" unfolding s using tool by (auto simp: lstrip_def char_class_defs)
  moreover have "shell_prefix_steps n ?s = ?s" for n
    unfolding s by (cases n) (simp_all only: shell_prefix_steps.simps shell_prefix_step_tool [OF tool] Let_def simp_thms if_True)
  ultimately have "normalize_shell_prefix ?s = ?s" by (simp add: normalize_shell_prefix_def del: join.simps)
  moreover have "split_shell_words ?s = tool # verb # args" using shlex_plain [OF words] by (simp add: split_shell_words_def del: join.simps)
  moreover have "skip_leading_options (verb # args) = verb # args" using verb by (cases args) simp_all
  moreover have "after_last (CHR ''/'') tool = tool" using tool by (auto simp: after_last_def)
  ultimately show ?thesis using tool verb by (simp add: command_head_def command_head_for_words_def Let_def del: join.simps) simp
qed

theorem plain_command_recognised_witness: "command_head ''gh issue list'' = Some ''gh issue''"
  using plain_command_recognised [of "''gh''" "''issue''" "[''list'']"]
  by (simp add: plain_word_def PLACEHOLDER_def)

end
