(* ===== verification/SliceMain.thy ===== *)
theory SliceMain
  imports SliceReconcile GhGitAdapter
begin

text \<open>
  The rest of \<^verbatim>\<open>packages/github-ratchet-migration-slicer/tools/ratchet_migration_slicer.py\<close>: the inventory of the
  gh/git ratchet, which scans the sources with the functions of that ratchet, and the command line.

  Shown here: the inventory finds exactly the heads the ratchet finds, so that it never fails on a tree the ratchet
  passes and lists every allowlist entry once; and which calls of \<open>gh\<close> the command makes.
\<close>

section \<open>The gh/git inventory\<close>

fun locations_from ::
    "string \<Rightarrow> string \<Rightarrow> call_context list \<Rightarrow> literals_by_start \<Rightarrow> (string \<times> nat) list \<Rightarrow> lua_string_literal list \<Rightarrow> lua_string_literal list
     \<Rightarrow> (string \<times> nat) list option" where
  "locations_from source masked contexts literals locations previous [] = Some locations"
| "locations_from source masked contexts literals locations previous (literal # rest) =
     (if prior_literal_in_concat source literal previous
      then locations_from source masked contexts literals locations (previous @ [literal]) rest
      else Option.bind (exec_argv_head_for_literal source masked contexts literal literals) (\<lambda>argv_head.
        Option.bind (case argv_head of
            Some h \<Rightarrow> Some (Some h)
          | None \<Rightarrow> map_option command_head (command_prefix_for_literal source masked literal literals)) (\<lambda>head.
        locations_from source masked contexts literals
          (case head of
             Some h \<Rightarrow>
               if \<not> is_excluded_literal contexts (ls_start literal) \<and> map_of locations h = None
               then locations @ [(h, line_for_offset source (ls_start literal))] else locations
           | None \<Rightarrow> locations)
          (previous @ [literal]) rest)))"

definition gh_git_head_locations :: "string \<Rightarrow> (string \<times> nat) list option" where
  "gh_git_head_locations source =
     (let masked = code_mask source; contexts = lua_call_contexts masked; literals = lua_string_literals source in
      locations_from source masked contexts (index_literals literals) [] [] literals)"

definition head_site :: "string \<Rightarrow> (string \<times> nat) list \<Rightarrow> string \<Rightarrow> inventory_site result" where
  "head_site relpath locations head =
     (case map_of locations head of
        None \<Rightarrow> Raise (ValueError (''allowlist entry is not present in source: '' @ relpath @ '' -> '' @ head))
      | Some line \<Rightarrow>
          Return \<lparr>st_path = relpath, st_line = line, st_detail = ''command_head: '' @ head,
                  st_allowlist_entry = Some (relpath @ ''|'' @ head)\<rparr>)"

text \<open>Scanning a source always returns, so there always are locations.\<close>

definition file_sites :: "tree \<Rightarrow> (string \<times> string) list \<Rightarrow> string \<times> string fset \<Rightarrow> inventory_site list result" where
  "file_sites root by_path entry =
     (case entry of (relpath, heads) \<Rightarrow>
        bindR (validated_repo_file root relpath) (\<lambda>content.
          let source = (case truthy (map_of by_path relpath) of Some s \<Rightarrow> s | None \<Rightarrow> content) in
          mapR (head_site relpath (the (gh_git_head_locations source))) (sorted_list_of_fset heads)))"

definition load_gh_git_inventory :: "tree \<Rightarrow> migration_spec \<Rightarrow> inventory_site list result" where
  "load_gh_git_inventory root spec =
     bindR (validated_repo_file root (sp_allowlist_path spec)) (\<lambda>content.
     bindR (GhGitAdapter.load_allowlist (Some content)) (\<lambda>allowlist.
     bindR (mapR (file_sites root (adapter_sources root)) (sort_key fst allowlist)) (\<lambda>sites.
     Return (concat sites))))"

section \<open>The command line\<close>

record slicer_args =
  arg_ratchet :: string
  arg_repo_root :: tree
  arg_slice_size :: int
  arg_json :: bool
  arg_reconcile :: bool
  arg_repo :: "string option"
  arg_labels :: "string list option"

record slicer_run =
  run_status :: int
  run_output :: string
  run_errors :: "string list"

definition inventory_loader :: "string \<Rightarrow> tree \<Rightarrow> migration_spec \<Rightarrow> inventory_site list result" where
  "inventory_loader ratchet =
     (if ratchet = ''gh-git-adapter'' then load_gh_git_inventory
      else if ratchet = ''saga-handler'' then load_saga_inventory else load_code_dedup_inventory)"

definition selected_ratchets :: "string \<Rightarrow> string list" where
  "selected_ratchets ratchet =
     (if ratchet = ''all'' then DEFAULT_RECONCILE_RATCHETS else [dget RATCHET_ALIASES ratchet ratchet])"

definition load_inventory :: "tree \<Rightarrow> string \<Rightarrow> (migration_spec \<times> inventory_site list) result" where
  "load_inventory root ratchet =
     (case map_of specs ratchet of
        None \<Rightarrow> Raise (KeyError ratchet)
      | Some spec \<Rightarrow> bindR (inventory_loader ratchet root spec) (\<lambda>inventory. Return (spec, inventory)))"

definition output_flags :: dump_flags where
  "output_flags = \<lparr>df_ascii = False, df_sort = True, df_item = '', '', df_key = '': ''\<rparr>"

definition failed :: "int \<Rightarrow> string \<Rightarrow> slicer_run" where
  "failed code message = \<lparr>run_status = code, run_output = [], run_errors = [message]\<rparr>"

definition printed :: "string \<Rightarrow> slicer_run" where
  "printed output = \<lparr>run_status = 0, run_output = output, run_errors = []\<rparr>"

fun mapC :: "('a \<Rightarrow> ('w, 'b) client) \<Rightarrow> 'a list \<Rightarrow> ('w, 'b list) client" where
  "mapC f [] = returnC []"
| "mapC f (x # xs) = bindC (f x) (\<lambda>y. bindC (mapC f xs) (\<lambda>ys. returnC (y # ys)))"

text \<open>\<open>try: m except Exception as exc: return handler(exc)\<close>\<close>

definition catchC :: "('w, 'a) client \<Rightarrow> (py_error \<Rightarrow> 'a) \<Rightarrow> ('w, 'a) client" where
  "catchC m handler = (\<lambda>w. case m w of (Inl e, w', calls) \<Rightarrow> (Return (handler e), w', calls) | (Inr x, w', calls) \<Rightarrow> (Return x, w', calls))"

definition reconcile_output :: "bool \<Rightarrow> reconcile_result list \<Rightarrow> string" where
  "reconcile_output as_json results =
     (if as_json then dumps output_flags (JArr (map (\<lambda>r. JObj (to_dict r)) results)) @ [LF]
      else concat (map (\<lambda>r. dumps output_flags (JObj (to_dict r)) @ [LF]) results))"

definition print_plan :: "slicer_args \<Rightarrow> (migration_spec \<times> inventory_site list) list \<Rightarrow> slicer_run result" where
  "print_plan args inventories =
     (case inventories of
        [(spec, inventory)] \<Rightarrow>
          if arg_json args then
            bindR (controller_plan spec inventory (nat (arg_slice_size args))) (\<lambda>plan. Return (printed (dumps output_flags (JObj plan) @ [LF])))
          else bindR (render_child_issue spec inventory (nat (arg_slice_size args))) (\<lambda>body. Return (printed body))
      | _ \<Rightarrow>
          Return (failed 2 (if arg_json args then ''error: --json without --reconcile requires one ratchet''
                            else ''error: dry-run body output requires one ratchet'')))"

definition reconcile_all ::
    "'w github_client \<Rightarrow> reading \<Rightarrow> environ \<Rightarrow> (py_error \<Rightarrow> string) \<Rightarrow> slicer_args \<Rightarrow> string \<Rightarrow> (migration_spec \<times> inventory_site list) list
     \<Rightarrow> ('w, slicer_run) client" where
  "reconcile_all client rd env show_exc args repo inventories =
     catchC
       (bindC (mapC (\<lambda>(spec, inventory). reconcile_ratchet client rd spec inventory (nat (arg_slice_size args)) repo env (arg_labels args)) inventories)
         (\<lambda>results. returnC (printed (reconcile_output (arg_json args) results))))
       (\<lambda>e. failed 1 (''error: ratchet reconcile failed: '' @ show_exc e))"

definition slicer_main ::
    "'w github_client \<Rightarrow> reading \<Rightarrow> environ \<Rightarrow> (py_error \<Rightarrow> string) \<Rightarrow> slicer_args \<Rightarrow> ('w, slicer_run) client" where
  "slicer_main client rd env show_exc args =
     (if arg_slice_size args < 1 \<or> MAX_SLICE_SIZE < arg_slice_size args
      then returnC (failed 2 (''error: --slice-size must be between 1 and '' @ str_int MAX_SLICE_SIZE))
      else case mapR (load_inventory (arg_repo_root args)) (selected_ratchets (arg_ratchet args)) of
             Inl e \<Rightarrow> returnC (failed 1 (''error: ratchet inventory failed: '' @ show_exc e))
           | Inr inventories \<Rightarrow>
               if arg_reconcile args then
                 (case truthy (arg_repo args) of
                    None \<Rightarrow> returnC (failed 2 ''error: --repo is required with --reconcile'')
                  | Some repo \<Rightarrow> reconcile_all client rd env show_exc args repo inventories)
               else liftC (print_plan args inventories))"

section \<open>The inventory agrees with the ratchet\<close>

lemma locations_heads:
  "heads_from src masked contexts literals heads previous rest = Some heads' \<Longrightarrow> fst ` set locations = fset heads \<Longrightarrow>
   \<exists>locations'. locations_from src masked contexts literals locations previous rest = Some locations' \<and> fst ` set locations' = fset heads'"
proof (induction rest arbitrary: heads previous locations)
  case (Cons literal rest)
  show ?case
  proof (cases "prior_literal_in_concat src literal previous")
    case False
    then obtain head where head: "literal_head src masked contexts literals literal = Some head"
      and rest: "heads_from src masked contexts literals
          (case head of Some h \<Rightarrow> if \<not> is_excluded_literal contexts (ls_start literal) then finsert h heads else heads | None \<Rightarrow> heads)
          (previous @ [literal]) rest = Some heads'"
      using Cons.prems(1) by (auto simp: bind_eq_Some_conv)
    define locations' where "locations' = (case head of
       Some h \<Rightarrow> if \<not> is_excluded_literal contexts (ls_start literal) \<and> map_of locations h = None
               then locations @ [(h, line_for_offset src (ls_start literal))] else locations
     | None \<Rightarrow> locations)"
    have "fst ` set locations' =
        fset (case head of Some h \<Rightarrow> if \<not> is_excluded_literal contexts (ls_start literal) then finsert h heads else heads | None \<Rightarrow> heads)"
    proof (cases head)
      case (Some h)
      have "map_of locations h = None \<longleftrightarrow> h \<notin> fset heads" using Cons.prems(2) by (simp add: map_of_eq_None_iff)
      with Some show ?thesis using Cons.prems(2) by (auto simp: locations'_def)
    qed (use Cons.prems(2) in \<open>simp add: locations'_def\<close>)
    then obtain found where "locations_from src masked contexts literals locations' (previous @ [literal]) rest = Some found" "fst ` set found = fset heads'"
      using Cons.IH [OF rest] by blast
    moreover have "locations_from src masked contexts literals locations previous (literal # rest) =
        locations_from src masked contexts literals locations' (previous @ [literal]) rest"
      using False head by (auto simp: literal_head_def locations'_def bind_eq_Some_conv)
    ultimately show ?thesis by simp
  qed (use Cons in simp)
qed simp

text \<open>The slicer finds the heads that the ratchet finds, each with a line.\<close>

lemma gh_git_head_locations_heads:
  "\<exists>locations. gh_git_head_locations src = Some locations \<and> command_heads src = Some (fset_of_list (map fst locations))"
proof -
  obtain heads where heads: "command_heads src = Some heads" using command_heads_total by blast
  then have "heads_from src (code_mask src) (lua_call_contexts (code_mask src)) (index_literals (lua_string_literals src)) {||} []
      (lua_string_literals src) = Some heads"
    by (simp add: command_heads_def Let_def)
  from locations_heads [OF this, of "[]"]
  obtain locations where "gh_git_head_locations src = Some locations" "fst ` set locations = fset heads"
    by (auto simp: gh_git_head_locations_def Let_def)
  with heads show ?thesis by (auto simp: fset_of_list.rep_eq fset_inject [symmetric])
qed

lemma parse_allowlist_distinct:
  "parse_allowlist_lines current_path entries ls = Inr allowlist \<Longrightarrow> distinct (map fst entries) \<Longrightarrow> distinct (map fst allowlist)"
  by (induction current_path entries ls rule: parse_allowlist_lines.induct) (auto simp: Let_def split: if_splits option.splits)

lemma adapter_sources_read: "map_of (adapter_sources root) p = Some src \<Longrightarrow> tree_read root p = Some src"
proof -
  assume "map_of (adapter_sources root) p = Some src"
  then have "p \<in> fst ` set root" "src = the_default [] (tree_read root p)"
    unfolding adapter_sources_def by (auto dest!: map_of_dict_ofD simp: rglob_lua_def)
  then show ?thesis by (cases "map_of root p") (auto simp: tree_read_def map_of_eq_None_iff)
qed

lemma mapR_all: "(\<And>x. x \<in> set xs \<Longrightarrow> f x = Inr (g x)) \<Longrightarrow> mapR f xs = Inr (map g xs)"
  by (induction xs) auto

lemma file_sites_present:
  assumes tree: "\<And>p src. tree_read root p = Some src \<Longrightarrow> validated_repo_file root p = Inr src"
    and at: "heads_at (adapter_sources root) relpath = Some heads"
  shows "\<exists>sites. file_sites root (adapter_sources root) (relpath, heads) = Inr sites
    \<and> map st_allowlist_entry sites = map (\<lambda>h. Some (relpath @ ''|'' @ h)) (sorted_list_of_fset heads)"
proof -
  obtain src where src: "map_of (adapter_sources root) relpath = Some src" "command_heads src = Some heads"
    using at by (auto simp: heads_at_def split: option.splits if_splits)
  have content: "validated_repo_file root relpath = Inr src" using tree adapter_sources_read [OF src(1)] by blast
  have same: "(case truthy (map_of (adapter_sources root) relpath) of Some s \<Rightarrow> s | None \<Rightarrow> src) = src" using src(1) by (simp add: truthy_def)
  obtain locations where locations: "gh_git_head_locations src = Some locations" "command_heads src = Some (fset_of_list (map fst locations))"
    using gh_git_head_locations_heads by blast
  define site where "site = (\<lambda>h. \<lparr>st_path = relpath, st_line = the (map_of locations h), st_detail = ''command_head: '' @ h,
    st_allowlist_entry = Some (relpath @ ''|'' @ h)\<rparr>)"
  have "head_site relpath locations h = Inr (site h)" if "h \<in> set (sorted_list_of_fset heads)" for h
  proof -
    have "h \<in> fst ` set locations" using that locations(2) src(2) by (auto simp: fset_of_list_elem)
    then have "map_of locations h \<noteq> None" by (simp add: map_of_eq_None_iff)
    then show ?thesis by (auto simp: head_site_def site_def)
  qed
  then have "mapR (head_site relpath locations) (sorted_list_of_fset heads) = Inr (map site (sorted_list_of_fset heads))" by (rule mapR_all)
  then have "file_sites root (adapter_sources root) (relpath, heads) = Inr (map site (sorted_list_of_fset heads))"
    using content locations(1) unfolding file_sites_def by (simp add: same Let_def)
  then show ?thesis by (simp add: site_def comp_def)
qed


text \<open>A tree with one raw command and its allowlist.\<close>

definition raw_tree :: tree where
  "raw_tree =
     [(''migration/gh-git-adapter.allowlist'', ''packages/a.lua:'' @ [LF] @ ''  - gh a'' @ [LF]),
      (''packages/a.lua'', [DQ] @ ''gh a'' @ [DQ])]"


section \<open>The calls the command makes\<close>

lemma traces_catch: "traces S F m \<Longrightarrow> (\<And>x. S x \<subseteq> T) \<Longrightarrow> F \<subseteq> T \<Longrightarrow> traces (\<lambda>_. T) T (catchC m handler)"
proof -
  assume m: "traces S F m" and T: "\<And>x. S x \<subseteq> T" "F \<subseteq> T"
  have "kinds m w \<in> T" for w
    using traces_at [OF m, where w = w] T by (auto split: sum.splits)
  moreover have "kinds (catchC m handler) w = kinds m w" for w
    by (auto simp: catchC_def kinds_def split: sum.split prod.split)
  ultimately show "traces (\<lambda>_. T) T (catchC m handler)" by (simp add: traces_def split: sum.split)
qed

lemma reads_map: "(\<And>x. traces (\<lambda>_. reads) reads (f x)) \<Longrightarrow> traces (\<lambda>_. reads) reads (mapC f xs)"
  by (induction xs) (auto intro!: reads_bind traces_return)

lemma traces_silent: "traces (\<lambda>_. {[]}) {[]} (returnC x)" "traces (\<lambda>_. {[]}) {[]} (liftC r)"
  by (auto intro: traces_return traces_lift)

context github_ops
begin

lemma reconcile_all_reads:
  "\<not> write_enabled env \<Longrightarrow> traces (\<lambda>_. reads) reads (reconcile_all client rd env show_exc args repo inventories)"
  unfolding reconcile_all_def
  by (rule traces_catch) (auto intro!: reads_bind reads_map reconcile_dry traces_return)

lemma slicer_main_reads: "\<not> write_enabled env \<Longrightarrow> traces (\<lambda>_. reads) reads (slicer_main client rd env show_exc args)"
  unfolding slicer_main_def
  by (auto intro!: reconcile_all_reads traces_return traces_lift split: sum.split option.split)

end

lemma slicer_main_silent: "\<not> arg_reconcile args \<Longrightarrow> traces (\<lambda>_. {[]}) {[]} (slicer_main client rd env show_exc args)"
  unfolding slicer_main_def by (auto intro!: traces_silent split: sum.split)

text \<open>
  The command changes nothing unless it was asked to twice: without \<open>--reconcile\<close> it never calls \<open>gh\<close>, and
  without \<open>FKST_GITHUB_WRITE=1\<close> every call it makes only reads, for every selector, tree and answer of \<open>gh\<close>.
\<close>

theorem slicer_main_dry_run:
  "(arg_reconcile args \<or> kinds (slicer_main (GithubClient gh diag tmp) rd env show_exc args) w = [])
   \<and> (write_enabled env \<or> set (kinds (slicer_main (GithubClient gh diag tmp) rd env show_exc args) w) \<subseteq> {Read})"
proof
  show "arg_reconcile args \<or> kinds (slicer_main (GithubClient gh diag tmp) rd env show_exc args) w = []"
  proof (cases "arg_reconcile args")
    case False
    from traces_at [OF slicer_main_silent [OF this], where w = w] show ?thesis by (auto split: sum.splits)
  qed simp
  show "write_enabled env \<or> set (kinds (slicer_main (GithubClient gh diag tmp) rd env show_exc args) w) \<subseteq> {Read}"
  proof (cases "write_enabled env")
    case False
    from traces_at [OF tool.slicer_main_reads [OF this], where w = w] show ?thesis by (auto simp: reads_def split: sum.splits)
  qed simp
qed

text \<open>
  A run with \<open>--reconcile\<close> never ends in an exception: whatever fails while the slices are loaded or
  reconciled becomes one line of errors and the exit status 1 or 2, and status 0 means that nothing failed.
\<close>

theorem slicer_main_reports:
  "arg_reconcile args \<le> (\<exists>run. result_of (slicer_main client rd env show_exc args) w = Inr run
     \<and> (run_status run = 0 \<and> run_errors run = []
        \<or> run_status run \<in> {1, 2} \<and> run_output run = [] \<and> (\<exists>message. run_errors run = [message])))"
proof -
  have "\<exists>run. result_of (reconcile_all client rd env show_exc args repo inventories) w = Inr run
     \<and> (run_status run = 0 \<and> run_errors run = []
        \<or> run_status run \<in> {1, 2} \<and> run_output run = [] \<and> (\<exists>message. run_errors run = [message]))" for repo inventories w
    by (auto simp: reconcile_all_def catchC_def result_of_def bindC_def returnC_def printed_def failed_def split: prod.splits sum.splits)
  then show ?thesis
    by (auto simp: slicer_main_def returnC_def result_of_def failed_def split: sum.split option.split)
qed

end
