(* ===== verification/SemanticTree.thy ===== *)
theory SemanticTree
  imports PyRegex PyDigest "HOL-Library.Multiset"
begin

text \<open>
  \<^verbatim>\<open>scripts/intent_bounded_replay/semantic_tree.py\<close>: digests of the tracked tree of a commit and of the changes
  between two commits, over a canonical stream of framed records.

  Bytes are texts of code points below 256. \<open>git\<close> is a parameter, a function from its arguments and its input to a
  finished process. Shown here: framed records can be read back, so that equal streams mean equal records; the
  order in which \<open>git\<close> lists entries has no influence; and the blobs read from \<open>git cat-file --batch\<close> are the ones
  it wrote, whatever bytes they hold.
\<close>

section \<open>Running git\<close>

type_synonym bytes = string

datatype byte_process = ByteProcess int bytes string | ByteProcessFailed string

type_synonym byte_git = "string list \<Rightarrow> bytes option \<Rightarrow> byte_process"

text \<open>How messages show bytes: \<open>repr()\<close>.\<close>

type_synonym show_bytes = "bytes \<Rightarrow> string"

definition bytes_space :: "char \<Rightarrow> bool" where
  "bytes_space c \<longleftrightarrow> ord c \<in> {9, 10, 11, 12, 13, 32}"

definition bytes_strip :: "bytes \<Rightarrow> bytes" where
  "bytes_strip s = rev (dropWhile bytes_space (rev (dropWhile bytes_space s)))"

definition lower_byte :: "char \<Rightarrow> char" where
  "lower_byte c = (if is_upper_ascii c then char_of (ord c + 32) else c)"

definition bytes_lower :: "bytes \<Rightarrow> bytes" where
  "bytes_lower s = map lower_byte s"

definition run_byte_git :: "byte_git \<Rightarrow> string list \<Rightarrow> bytes option \<Rightarrow> bytes result" where
  "run_byte_git git args input_bytes =
     (case git args input_bytes of
        ByteProcessFailed message \<Rightarrow> Raise (OSError message)
      | ByteProcess code output errors \<Rightarrow>
          if code \<noteq> 0 then
            Raise (RuntimeError (''git '' @ join '' '' args @ '' failed ('' @ str_int code @ ''): '' @ strip errors))
          else Return output)"

definition hex_id_re :: regex where
  "hex_id_re = rplus (RSet (\<lambda>c. is_decimal c \<or> 97 \<le> ord c \<and> ord c \<le> 102 \<or> 65 \<le> ord c \<and> ord c \<le> 70))"

definition resolve_object :: "byte_git \<Rightarrow> show_bytes \<Rightarrow> string \<Rightarrow> string \<Rightarrow> bytes result" where
  "resolve_object git show_repr ref object_type =
     bindR (run_byte_git git [''rev-parse'', ''--verify'', ''--end-of-options'', ref @ ''^{'' @ object_type @ ''}''] None) (\<lambda>output.
       let resolved = bytes_strip output in
       if \<not> fullmatches hex_id_re resolved
       then Raise (RuntimeError (''git resolved '' @ show_repr ref @ '' to an invalid object id''))
       else Return (bytes_lower resolved))"

section \<open>Excluded paths\<close>

text \<open>\<open>migration/intent-diffs/[1-9][0-9]*\.json\<close>\<close>

definition numbered_manifest_re :: regex where
  "numbered_manifest_re =
     rseq [rlit ''migration/intent-diffs/'', RSet (\<lambda>c. is_decimal c \<and> c \<noteq> CHR ''0''), rstar rdigit, rlit ''.json'']"

definition is_numbered_intent_diff_manifest :: "bytes \<Rightarrow> bool" where
  "is_numbered_intent_diff_manifest path \<longleftrightarrow> fullmatches numbered_manifest_re path"

type_synonym path_exclusion = "bytes \<Rightarrow> bool"

definition FIXED :: "path_exclusion list" where "FIXED = [is_numbered_intent_diff_manifest]"

definition excluded :: "bytes \<Rightarrow> path_exclusion list \<Rightarrow> bool" where
  "excluded path exclusions = list_ex (\<lambda>exclusion. exclusion path) exclusions"

section \<open>Entries of a tree\<close>

text \<open>\<open>s.split(sep, n)\<close> of bytes for a separator of one character.\<close>

fun split_at_most :: "nat \<Rightarrow> char \<Rightarrow> bytes \<Rightarrow> bytes list" where
  "split_at_most 0 sep s = [s]"
| "split_at_most (Suc n) sep s =
     (if sep \<in> set s then takeWhile (\<lambda>c. c \<noteq> sep) s # split_at_most n sep (drop (Suc (length (takeWhile (\<lambda>c. c \<noteq> sep) s))) s)
      else [s])"

type_synonym tree_entry = "bytes \<times> bytes \<times> bytes"

definition malformed_entry :: py_error where
  "malformed_entry = RuntimeError ''git ls-tree returned a malformed entry''"

definition tree_entry_of :: "show_bytes \<Rightarrow> bytes \<Rightarrow> tree_entry result" where
  "tree_entry_of show_repr raw_entry =
     (case split_at_most 1 TAB raw_entry of
        [metadata, path] \<Rightarrow>
          (case split_at_most 2 (CHR '' '') metadata of
             [mode, object_type, object_id] \<Rightarrow>
               if object_type \<noteq> ''blob'' then
                 Raise (RuntimeError (''tracked path '' @ show_repr path @ '' has unsupported object type '' @ show_repr object_type
                   @ ''; semantic records require blobs''))
               else Return (path, mode, bytes_lower object_id)
           | _ \<Rightarrow> Raise malformed_entry)
      | _ \<Rightarrow> Raise malformed_entry)"

definition ls_tree_entries :: "byte_git \<Rightarrow> show_bytes \<Rightarrow> bytes \<Rightarrow> tree_entry list result" where
  "ls_tree_entries git show_repr tree_oid =
     bindR (run_byte_git git [''ls-tree'', ''-r'', ''-z'', ''--full-tree'', tree_oid, ''--''] None) (\<lambda>output.
       mapR (tree_entry_of show_repr) (filter (\<lambda>raw. raw \<noteq> []) (split_char (CHR 0x00) output)))"

section \<open>Contents of blobs\<close>

text \<open>Python's slices and searches with integer positions: negative ones count from the end.\<close>

definition position :: "'a list \<Rightarrow> int \<Rightarrow> nat" where
  "position xs i = (if i < 0 then nat (i + int (length xs)) else nat i)"

definition slice_int :: "'a list \<Rightarrow> int \<Rightarrow> int \<Rightarrow> 'a list" where
  "slice_int xs a b = py_slice xs (position xs a) (position xs b)"

definition find_byte :: "bytes \<Rightarrow> char \<Rightarrow> int \<Rightarrow> int option" where
  "find_byte s c start = map_option int (find_from s [c] (position s start))"

text \<open>\<open>int(b)\<close> of bytes: only the white space of ASCII is skipped.\<close>

definition int_of_bytes :: "bytes \<Rightarrow> int option" where
  "int_of_bytes s = (if list_ex (\<lambda>c. is_space c \<and> \<not> bytes_space c) s then None else int_of_str s)"

definition batch_object :: "show_bytes \<Rightarrow> bytes \<Rightarrow> int \<Rightarrow> bytes \<Rightarrow> (bytes \<times> int) result" where
  "batch_object show_repr output cursor expected_id =
     (case find_byte output LF cursor of
        None \<Rightarrow> Raise (RuntimeError ''git cat-file --batch omitted an object header'')
      | Some header_end \<Rightarrow>
          let header = slice_int output cursor header_end; cursor = header_end + 1 in
          case split_char (CHR '' '') header of
            [object_id, object_type, size_bytes] \<Rightarrow>
              if bytes_lower object_id \<noteq> expected_id \<or> object_type \<noteq> ''blob'' then
                Raise (RuntimeError (''git cat-file returned unexpected object header '' @ show_repr header))
              else (case int_of_bytes size_bytes of
                 None \<Rightarrow> Raise (RuntimeError (''git cat-file returned invalid blob size '' @ show_repr size_bytes))
               | Some blob_size \<Rightarrow>
                   let stop = cursor + blob_size in
                   if int (length output) \<le> stop \<or> slice_int output stop (stop + 1) \<noteq> [LF]
                   then Raise (RuntimeError ''git cat-file returned a truncated blob'')
                   else Return (slice_int output cursor stop, stop + 1))
          | _ \<Rightarrow> Raise (RuntimeError (''git cat-file returned malformed header '' @ show_repr header)))"

fun batch_objects :: "show_bytes \<Rightarrow> bytes \<Rightarrow> (bytes \<times> bytes) list \<Rightarrow> int \<Rightarrow> bytes list \<Rightarrow> (bytes \<times> bytes) list result" where
  "batch_objects show_repr output blobs cursor [] =
     (if cursor \<noteq> int (length output) then Raise (RuntimeError ''git cat-file returned unexpected trailing bytes'') else Return blobs)"
| "batch_objects show_repr output blobs cursor (expected_id # ids) =
     bindR (batch_object show_repr output cursor expected_id) (\<lambda>(content, cursor).
       batch_objects show_repr output (AList.update expected_id content blobs) cursor ids)"

definition read_blobs :: "byte_git \<Rightarrow> show_bytes \<Rightarrow> bytes list \<Rightarrow> (bytes \<times> bytes) list result" where
  "read_blobs git show_repr object_ids =
     (let requested = sort (remdups object_ids) in
      if requested = [] then Return []
      else bindR (run_byte_git git [''cat-file'', ''--batch''] (Some (join [LF] requested @ [LF]))) (\<lambda>output.
        batch_objects show_repr output [] 0 requested))"

section \<open>Canonical streams\<close>

definition TREE_DOMAIN :: bytes where "TREE_DOMAIN = ''fkst-semantic-tree-v1''"
definition DIFF_DOMAIN :: bytes where "DIFF_DOMAIN = ''fkst-semantic-diff-v1''"

definition sha256_digest :: "bytes \<Rightarrow> bytes" where
  "sha256_digest s = map char_of (concat (map (\<lambda>w. be_bytes 4 (unat w)) (sha256_words (map ord s))))"

text \<open>\<open>struct.pack(">Q", n)\<close>; a length is below \<open>2 ^ 63\<close> in Python.\<close>

definition pack_u64 :: "64 word \<Rightarrow> bytes" where
  "pack_u64 n = map char_of (be_bytes 8 (unat n))"

definition frame_fields :: "bytes list \<Rightarrow> bytes" where
  "frame_fields values = concat (map (\<lambda>field. pack_u64 (of_nat (length field)) @ field) values)"

definition blob_of :: "(bytes \<times> bytes) list \<Rightarrow> bytes \<Rightarrow> bytes result" where
  "blob_of blobs object_id = (case map_of blobs object_id of None \<Rightarrow> Raise (KeyError object_id) | Some content \<Rightarrow> Return content)"

definition tree_record :: "(bytes \<times> bytes) list \<Rightarrow> tree_entry \<Rightarrow> (bytes \<times> bytes) result" where
  "tree_record blobs entry =
     (case entry of (path, mode, object_id) \<Rightarrow>
        bindR (blob_of blobs object_id) (\<lambda>content. Return (path, frame_fields [path, mode, sha256_digest content])))"

definition tree_stream :: "(bytes \<times> bytes) list \<Rightarrow> bytes" where
  "tree_stream records = TREE_DOMAIN @ concat (map snd (sort_key fst records))"

definition semantic_tree_sha256 :: "byte_git \<Rightarrow> show_bytes \<Rightarrow> string \<Rightarrow> path_exclusion list \<Rightarrow> string result" where
  "semantic_tree_sha256 git show_repr head_ref exclusions =
     bindR (resolve_object git show_repr head_ref ''tree'') (\<lambda>tree_oid.
     bindR (ls_tree_entries git show_repr tree_oid) (\<lambda>listed.
     let entries = filter (\<lambda>entry. \<not> excluded (fst entry) exclusions) listed in
     bindR (read_blobs git show_repr (map (\<lambda>entry. snd (snd entry)) entries)) (\<lambda>blobs.
     bindR (mapR (tree_record blobs) entries) (\<lambda>records.
     Return (sha256_hex (map ord (tree_stream records)))))))"

section \<open>Changes between commits\<close>

type_synonym diff_entry = "bytes \<times> bytes \<times> bytes \<times> bytes \<times> bytes \<times> bytes \<times> bytes"

definition diff_header :: "show_bytes \<Rightarrow> bytes \<Rightarrow> (bytes \<times> bytes \<times> bytes \<times> bytes \<times> bytes) result" where
  "diff_header show_repr header =
     (let malformed = RuntimeError (''git diff --raw returned malformed header '' @ show_repr header) in
      if \<not> startswith header '':'' then Raise malformed
      else case split_char (CHR '' '') (drop 1 header) of
        [old_mode, new_mode, old_id, new_id, status] \<Rightarrow>
          if status \<notin> {''A'', ''D'', ''M'', ''T''}
          then Raise (RuntimeError (''git diff --raw returned unsupported status '' @ show_repr status))
          else Return (old_mode, new_mode, old_id, new_id, status)
      | _ \<Rightarrow> Raise malformed)"

definition diff_entry_of :: "bytes \<times> bytes \<times> bytes \<times> bytes \<times> bytes \<Rightarrow> bytes \<Rightarrow> diff_entry" where
  "diff_entry_of header path =
     (case header of (old_mode, new_mode, old_id, new_id, status) \<Rightarrow>
        if status = ''A'' then (status, [], path, [], new_mode, [], bytes_lower new_id)
        else if status = ''D'' then (status, path, [], old_mode, [], bytes_lower old_id, [])
        else (status, path, path, old_mode, new_mode, bytes_lower old_id, bytes_lower new_id))"

fun diff_entries :: "show_bytes \<Rightarrow> bytes list \<Rightarrow> diff_entry list result" where
  "diff_entries show_repr [] = Return []"
| "diff_entries show_repr [header] =
     bindR (diff_header show_repr header) (\<lambda>_. Raise (RuntimeError ''git diff --raw omitted a changed path''))"
| "diff_entries show_repr (header # path # rest) =
     bindR (diff_header show_repr header) (\<lambda>parts.
     bindR (diff_entries show_repr rest) (\<lambda>entries. Return (diff_entry_of parts path # entries)))"

definition raw_diff_entries :: "byte_git \<Rightarrow> show_bytes \<Rightarrow> bytes \<Rightarrow> bytes \<Rightarrow> diff_entry list result" where
  "raw_diff_entries git show_repr base_oid head_oid =
     bindR (run_byte_git git [''diff'', ''--raw'', ''-z'', ''--no-renames'', ''--no-ext-diff'', ''--no-textconv'', ''--no-abbrev'',
         ''--ignore-submodules=none'', base_oid, head_oid, ''--''] None) (\<lambda>output.
       let parts = split_char (CHR 0x00) output in
       diff_entries show_repr (if parts \<noteq> [] \<and> last parts = [] then butlast parts else parts))"

definition kept_change :: "path_exclusion list \<Rightarrow> diff_entry \<Rightarrow> bool" where
  "kept_change exclusions entry =
     (case entry of (status, old_path, new_path, _) \<Rightarrow>
        \<not> (old_path \<noteq> [] \<and> excluded old_path exclusions) \<and> \<not> (new_path \<noteq> [] \<and> excluded new_path exclusions))"

definition change_ids :: "diff_entry \<Rightarrow> bytes list" where
  "change_ids entry = (case entry of (_, _, _, _, _, old_id, new_id) \<Rightarrow> filter (\<lambda>i. i \<noteq> []) [old_id, new_id])"

definition side_digest :: "(bytes \<times> bytes) list \<Rightarrow> bytes \<Rightarrow> bytes result" where
  "side_digest blobs object_id =
     (if object_id \<noteq> [] then bindR (blob_of blobs object_id) (\<lambda>content. Return (sha256_digest content)) else Return [])"

definition diff_record :: "(bytes \<times> bytes) list \<Rightarrow> diff_entry \<Rightarrow> diff_entry result" where
  "diff_record blobs entry =
     (case entry of (status, old_path, new_path, old_mode, new_mode, old_id, new_id) \<Rightarrow>
        bindR (side_digest blobs old_id) (\<lambda>old_hash.
        bindR (side_digest blobs new_id) (\<lambda>new_hash.
        Return (status, old_path, new_path, old_mode, new_mode, old_hash, new_hash))))"

definition record_fields :: "diff_entry \<Rightarrow> bytes list" where
  "record_fields entry = (case entry of (a, b, c, d, e, f, g) \<Rightarrow> [a, b, c, d, e, f, g])"

definition diff_stream :: "diff_entry list \<Rightarrow> bytes" where
  "diff_stream records = DIFF_DOMAIN @ concat (map (\<lambda>record. frame_fields (record_fields record)) (sort records))"

definition semantic_diff_sha256 :: "byte_git \<Rightarrow> show_bytes \<Rightarrow> string \<Rightarrow> string \<Rightarrow> path_exclusion list \<Rightarrow> string result" where
  "semantic_diff_sha256 git show_repr base_sha head_ref exclusions =
     bindR (resolve_object git show_repr base_sha ''commit'') (\<lambda>base_oid.
     bindR (resolve_object git show_repr head_ref ''commit'') (\<lambda>head_oid.
     bindR (raw_diff_entries git show_repr base_oid head_oid) (\<lambda>changes.
     let entries = filter (kept_change exclusions) changes in
     bindR (read_blobs git show_repr (concat (map change_ids entries))) (\<lambda>blobs.
     bindR (mapR (diff_record blobs) entries) (\<lambda>records.
     Return (sha256_hex (map ord (diff_stream records))))))))"

section \<open>Frames are read back\<close>

lemma be_bytes_Suc: "be_bytes (Suc k) n = be_bytes k (n div 256) @ [n mod 256]"
proof -
  have "n div 256 ^ (k - i) mod 256 = n div 256 div 256 ^ (k - 1 - i) mod 256" if "i < k" for i
  proof -
    from that have "k - i = Suc (k - 1 - i)" by simp
    then show ?thesis by (simp only: power_Suc div_mult2_eq)
  qed
  then show ?thesis by (simp add: be_bytes_def)
qed

lemma be_bytes_value: "foldl (\<lambda>a b. a * 256 + b) 0 (be_bytes k n) = n mod 256 ^ k"
proof (induction k arbitrary: n)
  case (Suc k)
  have "n mod (256 * 256 ^ k) = 256 * (n div 256 mod 256 ^ k) + n mod 256" by (rule mod_mult2_eq)
  then show ?case by (simp add: be_bytes_Suc Suc)
qed (simp add: be_bytes_def)

lemma pack_u64_length [simp]: "length (pack_u64 n) = 8"
  by (simp add: pack_u64_def be_bytes_def)

lemma pack_u64_inject: "pack_u64 a = pack_u64 b \<longleftrightarrow> a = b"
proof
  assume "pack_u64 a = pack_u64 b"
  then have "map (of_char \<circ> char_of) (be_bytes 8 (unat a)) = (map (of_char \<circ> char_of) (be_bytes 8 (unat b)) :: nat list)"
    unfolding pack_u64_def by (metis list.map_comp)
  moreover have "map (of_char \<circ> char_of) (be_bytes 8 n) = be_bytes 8 n" for n
    by (rule map_idI) (auto simp: be_bytes_def)
  ultimately have "be_bytes 8 (unat a) = be_bytes 8 (unat b)" by simp
  then have "unat a mod 256 ^ 8 = unat b mod 256 ^ 8" by (metis be_bytes_value)
  moreover have "unat w < 256 ^ 8" for w :: "64 word" using unsigned_less [of w] by simp
  ultimately show "a = b" by (metis mod_less word_unat_eq_iff)
qed simp

lemma frame_inject:
  assumes "length f < 2 ^ 64" "length g < 2 ^ 64"
    and "pack_u64 (of_nat (length f)) @ f @ x = pack_u64 (of_nat (length g)) @ g @ y"
  shows "f = g \<and> x = y"
proof -
  have "pack_u64 (of_nat (length f)) = pack_u64 (of_nat (length g))" "f @ x = g @ y"
    using assms(3) by (simp_all add: append_eq_append_conv)
  then have "of_nat (length f) = (of_nat (length g) :: 64 word)" by (simp add: pack_u64_inject)
  then have "length f = length g" using assms(1,2) by (simp add: word_of_nat_eq_iff take_bit_eq_mod)
  with \<open>f @ x = g @ y\<close> show ?thesis by simp
qed

text \<open>A sequence of framed fields of known length ends where it is read to, and its fields are the ones written.\<close>

definition short_fields :: "bytes list \<Rightarrow> bool" where
  "short_fields fs \<longleftrightarrow> list_all (\<lambda>f. length f < 2 ^ 64) fs"

lemma frame_fields_inject:
  "length fs = length gs \<Longrightarrow> short_fields fs \<Longrightarrow> short_fields gs \<Longrightarrow> frame_fields fs @ x = frame_fields gs @ y \<Longrightarrow> fs = gs \<and> x = y"
proof (induction fs gs arbitrary: x y rule: list_induct2)
  case (Cons f fs g gs)
  have "pack_u64 (of_nat (length f)) @ f @ (frame_fields fs @ x) = pack_u64 (of_nat (length g)) @ g @ (frame_fields gs @ y)"
    using Cons.prems(3) by (simp add: frame_fields_def)
  then have "f = g \<and> frame_fields fs @ x = frame_fields gs @ y"
    using Cons.prems(1,2) by (intro frame_inject) (simp_all add: short_fields_def)
  moreover have "short_fields fs" "short_fields gs" using Cons.prems by (simp_all add: short_fields_def)
  ultimately show ?case using Cons.IH by blast
qed (simp add: frame_fields_def)

lemma frames_inject:
  assumes "n \<noteq> 0" "\<And>r. r \<in> set rs \<union> set qs \<Longrightarrow> length r = n \<and> short_fields r"
    and "concat (map frame_fields rs) = concat (map frame_fields qs)"
  shows "rs = qs"
  using assms(2,3)
proof (induction rs arbitrary: qs)
  case Nil
  have "frame_fields q \<noteq> []" if "q \<in> set qs" for q
  proof -
    have "q \<noteq> []" using Nil.prems(1) [of q] that assms(1) by auto
    then have "0 < length (frame_fields q)" by (cases q) (simp_all add: frame_fields_def)
    then show ?thesis by simp
  qed
  then show ?case using Nil.prems(2) by (cases qs) auto
next
  case (Cons r rs)
  have "frame_fields r \<noteq> []"
  proof -
    have "r \<noteq> []" using Cons.prems(1) [of r] assms(1) by auto
    then have "0 < length (frame_fields r)" by (cases r) (simp_all add: frame_fields_def)
    then show ?thesis by simp
  qed
  then obtain q qs' where qs: "qs = q # qs'" using Cons.prems(2) by (cases qs) auto
  have "r = q \<and> concat (map frame_fields rs) = concat (map frame_fields qs')"
    using Cons.prems(2) Cons.prems(1) [of r] Cons.prems(1) [of q] unfolding qs
    by (intro frame_fields_inject) simp_all
  then show ?case using Cons.IH [of qs'] Cons.prems(1) qs by auto
qed

lemma sha256_digest_length: "length (sha256_digest s) = 32"
proof -
  have "length (concat (map (\<lambda>w. be_bytes 4 (unat (w :: u32))) (sha256_words (map ord s)))) = 4 * length (sha256_words (map ord s))"
    by (rule sum_list_const) (simp add: be_bytes_def)
  then show ?thesis by (simp add: sha256_digest_def sha256_words_def Let_def)
qed

section \<open>The stream of a tree stands for its contents\<close>

text \<open>What a tree holds: paths, modes and digests of contents.\<close>

definition described :: "(bytes \<times> bytes) list \<Rightarrow> tree_entry \<Rightarrow> bytes \<times> bytes \<times> bytes" where
  "described blobs entry = (case entry of (path, mode, object_id) \<Rightarrow> (path, mode, sha256_digest (the (map_of blobs object_id))))"

lemma tree_records_described:
  "mapR (tree_record blobs) entries = Inr records \<Longrightarrow>
     records = map (\<lambda>(p, m, d). (p, frame_fields [p, m, d])) (map (described blobs) entries)"
  by (induction entries arbitrary: records)
    (auto simp: tree_record_def blob_of_def described_def bindR_eq_Inr split: option.splits prod.splits)

lemma sort_key_map: "sort_key f (map g xs) = map g (sort_key (f \<circ> g) xs)"
proof (rule properties_for_sort_key)
  show "mset (map g (sort_key (f \<circ> g) xs)) = mset (map g xs)" by simp
  show "sorted (map f (map g (sort_key (f \<circ> g) xs)))" using sorted_sort_key [of "f \<circ> g" xs] by (simp add: comp_assoc)
  show "filter (\<lambda>y. f k = f y) (map g (sort_key (f \<circ> g) xs)) = filter (\<lambda>y. f k = f y) (map g xs)" for k
    using sort_key_stable [of "f \<circ> g" "f k" xs] by (simp add: filter_map comp_def eq_commute)
qed

lemma sort_key_set:
  "distinct (map f xs) \<Longrightarrow> distinct (map f ys) \<Longrightarrow> set xs = set ys \<Longrightarrow> sort_key f xs = sort_key f ys"
  by (rule map_sorted_distinct_set_unique [of f]) (auto simp: distinct_map)

definition described_fields :: "bytes \<times> bytes \<times> bytes \<Rightarrow> bytes list" where
  "described_fields d = (case d of (path, mode, digest) \<Rightarrow> [path, mode, digest])"

lemma described_fields_inject [simp]: "described_fields a = described_fields b \<longleftrightarrow> a = b"
  by (auto simp: described_fields_def split: prod.splits)

lemma tree_stream_described:
  assumes "mapR (tree_record blobs) entries = Inr records"
  shows "tree_stream records = TREE_DOMAIN @ concat (map frame_fields (map described_fields (sort_key fst (map (described blobs) entries))))"
proof -
  have "records = map (\<lambda>d. (fst d, frame_fields (described_fields d))) (map (described blobs) entries)"
    using tree_records_described [OF assms] by (simp add: described_fields_def case_prod_beta)
  then show ?thesis by (simp add: tree_stream_def sort_key_map comp_def)
qed

text \<open>An entry whose path and mode have lengths that 64 bits can hold.\<close>

definition framable :: "tree_entry \<Rightarrow> bool" where
  "framable entry \<longleftrightarrow> length (fst entry) < 2 ^ 64 \<and> length (fst (snd entry)) < 2 ^ 64"

lemma described_short: "framable entry \<Longrightarrow> short_fields (described_fields (described blobs entry)) \<and> length (described_fields (described blobs entry)) = 3"
  by (auto simp: framable_def short_fields_def described_fields_def described_def sha256_digest_length split: prod.splits)

lemma described_path [simp]: "fst (described blobs entry) = fst entry"
  by (simp add: described_def split: prod.splits)

text \<open>
  C24. over the entries of any two listings with distinct paths the canonical streams are equal exactly if the
  trees hold the same paths with the same modes and digests of contents; the order in which git lists them has no
  influence.
\<close>

theorem tree_stream_faithful:
  assumes "mapR (tree_record blobs) entries = Inr records" "mapR (tree_record blobs') entries' = Inr records'"
    and "distinct (map fst entries)" "distinct (map fst entries')"
    and "list_all framable entries" "list_all framable entries'"
  shows "tree_stream records = tree_stream records' \<longleftrightarrow> described blobs ` set entries = described blobs' ` set entries'"
proof -
  let ?s = "sort_key fst (map (described blobs) entries)" and ?t = "sort_key fst (map (described blobs') entries')"
  have "length r = 3 \<and> short_fields r" if "r \<in> set (map described_fields ?s) \<union> set (map described_fields ?t)" for r
    using that assms(5,6) described_short by (auto simp: list_all_iff)
  then have "concat (map frame_fields (map described_fields ?s)) = concat (map frame_fields (map described_fields ?t))
      \<longleftrightarrow> map described_fields ?s = map described_fields ?t"
    using frames_inject [of 3 "map described_fields ?s" "map described_fields ?t"] by fastforce
  also have "\<dots> \<longleftrightarrow> ?s = ?t" by (simp add: inj_map_eq_map inj_def)
  also have "\<dots> \<longleftrightarrow> set ?s = set ?t"
  proof
    assume "set ?s = set ?t"
    then show "?s = ?t" using assms(3,4) by (intro sort_key_set) (simp_all add: comp_def)
  qed simp
  finally show ?thesis by (simp add: tree_stream_described [OF assms(1)] tree_stream_described [OF assms(2)])
qed

theorem tree_stream_faithful_witness:
  "let blobs = [(''11'', ''x''), (''22'', ''y'')]; a = (''a'', ''100644'', ''11''); b = (''b'', ''100755'', ''22'');
       r = (''a'', frame_fields [''a'', ''100644'', sha256_digest ''x'']); s = (''b'', frame_fields [''b'', ''100755'', sha256_digest ''y'']) in
   mapR (tree_record blobs) [a, b] = Inr [r, s] \<and> mapR (tree_record blobs) [b, a] = Inr [s, r] \<and> tree_stream [r, s] = tree_stream [s, r]"
proof -
  let ?blobs = "[(''11'', ''x''), (''22'', ''y'')]" and ?a = "(''a'', ''100644'', ''11'')" and ?b = "(''b'', ''100755'', ''22'')"
  let ?r = "(''a'', frame_fields [''a'', ''100644'', sha256_digest ''x''])" and ?s = "(''b'', frame_fields [''b'', ''100755'', sha256_digest ''y''])"
  have 1: "mapR (tree_record ?blobs) [?a, ?b] = Inr [?r, ?s]" by (simp add: tree_record_def blob_of_def)
  have 2: "mapR (tree_record ?blobs) [?b, ?a] = Inr [?s, ?r]" by (simp add: tree_record_def blob_of_def)
  have "tree_stream [?r, ?s] = tree_stream [?s, ?r]"
    by (subst tree_stream_faithful [OF 1 2]) (auto simp: framable_def)
  with 1 2 show ?thesis by (simp only: Let_def simp_thms)
qed

section \<open>The stream of changes\<close>

lemma sort_eq_iff: "sort xs = sort ys \<longleftrightarrow> mset xs = mset ys"
proof
  assume "sort xs = sort ys"
  then have "mset (sort xs) = mset (sort ys)" by (rule arg_cong)
  then show "mset xs = mset ys" by simp
next
  assume "mset xs = mset ys"
  then show "sort xs = sort ys" by (intro properties_for_sort) simp_all
qed

lemma record_fields_inject [simp]: "record_fields a = record_fields b \<longleftrightarrow> a = b"
  by (auto simp: record_fields_def split: prod.splits)

text \<open>
  the canonical streams of two lists of changes are equal exactly if both hold the same changes, each as often;
  the order in which git lists them has no influence, and no change can be hidden in the bytes of another.
\<close>

theorem diff_stream_faithful:
  assumes "list_all (\<lambda>record. short_fields (record_fields record)) records"
    and "list_all (\<lambda>record. short_fields (record_fields record)) records'"
  shows "diff_stream records = diff_stream records' \<longleftrightarrow> mset records = mset records'"
proof -
  have "length r = 7 \<and> short_fields r" if "r \<in> set (map record_fields (sort records)) \<union> set (map record_fields (sort records'))" for r
    using that assms by (auto simp: list_all_iff record_fields_def split: prod.splits)
  then have "concat (map frame_fields (map record_fields (sort records))) = concat (map frame_fields (map record_fields (sort records')))
      \<longleftrightarrow> map record_fields (sort records) = map record_fields (sort records')"
    using frames_inject [of 7 "map record_fields (sort records)" "map record_fields (sort records')"] by fastforce
  also have "\<dots> \<longleftrightarrow> sort records = sort records'" by (simp add: inj_map_eq_map inj_def)
  also have "\<dots> \<longleftrightarrow> mset records = mset records'" by (rule sort_eq_iff)
  finally show ?thesis by (simp add: diff_stream_def comp_def)
qed

lemma short_fields_simps [simp]:
  "short_fields []" "short_fields (f # fs) \<longleftrightarrow> length f < 2 ^ 64 \<and> short_fields fs"
  by (simp_all add: short_fields_def)

theorem diff_stream_faithful_witness:
  "diff_stream [(''A'', [], ''b'', [], ''1'', [], ''h''), (''D'', ''a'', [], ''1'', [], ''h'', [])]
     = diff_stream [(''D'', ''a'', [], ''1'', [], ''h'', []), (''A'', [], ''b'', [], ''1'', [], ''h'')]"
proof -
  let ?a = "(''A'', [], ''b'', [], ''1'', [], ''h'')" and ?d = "(''D'', ''a'', [], ''1'', [], ''h'', [])"
  have "list_all (\<lambda>record. short_fields (record_fields record)) [?a, ?d]"
    by (simp add: record_fields_def)
  moreover have "list_all (\<lambda>record. short_fields (record_fields record)) [?d, ?a]"
    by (simp add: record_fields_def)
  ultimately show ?thesis using diff_stream_faithful [of "[?a, ?d]" "[?d, ?a]"] by (simp add: add_mset_commute)
qed

section \<open>The blobs read are the blobs written\<close>

text \<open>What \<open>git cat-file --batch\<close> writes for the blobs asked for.\<close>

definition batch_of :: "(bytes \<Rightarrow> bytes) \<Rightarrow> bytes list \<Rightarrow> bytes" where
  "batch_of content ids =
     concat (map (\<lambda>i. i @ '' blob '' @ str_int (int (length (content i))) @ [LF] @ content i @ [LF]) ids)"

definition plain_id :: "bytes \<Rightarrow> bool" where
  "plain_id i \<longleftrightarrow> bytes_lower i = i \<and> CHR '' '' \<notin> set i \<and> LF \<notin> set i"

lemma split_char_first: "d \<notin> set p \<Longrightarrow> split_char_acc d acc (p @ d # s) = (rev acc @ p) # split_char_acc d [] s"
  by (induction p arbitrary: acc) auto

lemma split_char_none: "d \<notin> set p \<Longrightarrow> split_char_acc d acc p = [rev acc @ p]"
  by (induction p arbitrary: acc) auto

lemma decimal_byte: "is_decimal c \<Longrightarrow> c \<noteq> CHR '' '' \<and> c \<noteq> LF \<and> \<not> bytes_space c"
  by (auto simp: is_decimal_def bytes_space_def)

lemma str_int_digits: "str_int (int n) = nat_digits n"
  by (simp add: str_int_def)

lemma str_int_plain: "CHR '' '' \<notin> set (str_int (int n)) \<and> LF \<notin> set (str_int (int n))"
  using nat_digits_decimal [of n] decimal_byte by (auto simp: str_int_digits list_all_iff)

lemma int_of_bytes_str_int: "int_of_bytes (str_int (int n)) = Some (int n)"
proof -
  have "\<not> list_ex (\<lambda>c. is_space c \<and> \<not> bytes_space c) (str_int (int n))"
    using nat_digits_decimal [of n] decimal_not_space by (auto simp: str_int_digits list_all_iff list_ex_iff)
  then show ?thesis by (simp add: int_of_bytes_def)
qed

lemma batch_header:
  assumes "plain_id i"
  shows "split_char (CHR '' '') (i @ '' blob '' @ str_int (int n)) = [i, ''blob'', str_int (int n)]"
proof -
  have "split_char (CHR '' '') (i @ '' blob '' @ str_int (int n))
      = split_char_acc (CHR '' '') [] (i @ CHR '' '' # ''blob'' @ CHR '' '' # str_int (int n))" by (simp add: split_char_def)
  also have "\<dots> = i # split_char_acc (CHR '' '') [] (''blob'' @ CHR '' '' # str_int (int n))"
    using assms split_char_first [of "CHR '' ''" i "[]"] by (simp add: plain_id_def)
  also have "\<dots> = [i, ''blob'', str_int (int n)]"
    using split_char_none [of "CHR '' ''" "str_int (int n)" "[]"] str_int_plain [of n] by simp
  finally show ?thesis .
qed

lemma find_sub_char: "d \<notin> set p \<Longrightarrow> find_sub [d] (p @ d # s) = Some (length p)"
  by (induction p) auto

lemma find_byte_at: "d \<notin> set p \<Longrightarrow> find_byte (pre @ p @ d # s) d (int (length pre)) = Some (int (length pre + length p))"
  by (simp add: find_byte_def find_from_def position_def find_sub_char)

lemma slice_int_at: "slice_int (pre @ p @ s) (int (length pre)) (int (length pre + length p)) = p"
  by (simp add: slice_int_def position_def py_slice_def)

lemma batch_object_written:
  assumes "plain_id i"
  shows "batch_object show_repr (pre @ batch_of content [i] @ post) (int (length pre)) i
    = Inr (content i, int (length (pre @ batch_of content [i])))"
proof -
  let ?n = "length (content i)" and ?out = "pre @ batch_of content [i] @ post"
  let ?header = "i @ '' blob '' @ str_int (int ?n)"
  let ?stop = "length pre + length ?header + 1 + ?n"
  have plain: "LF \<notin> set ?header" using assms str_int_plain [of ?n] by (simp add: plain_id_def)
  have header: "find_byte ?out LF (int (length pre)) = Some (int (length pre + length ?header))"
    using find_byte_at [OF plain, of pre "content i @ [LF] @ post"] by (simp add: batch_of_def)
  have cut: "slice_int ?out (int (length pre)) (int (length pre + length ?header)) = ?header"
    using slice_int_at [of pre ?header "[LF] @ content i @ [LF] @ post"] by (simp add: batch_of_def)
  have body: "slice_int ?out (int (length pre + length ?header) + 1) (int ?stop) = content i"
    using slice_int_at [of "pre @ ?header @ [LF]" "content i" "[LF] @ post"] by (simp add: batch_of_def algebra_simps)
  have newline: "slice_int ?out (int ?stop) (int ?stop + 1) = [LF]"
    using slice_int_at [of "pre @ ?header @ [LF] @ content i" "[LF]" post] by (simp add: batch_of_def algebra_simps)
  have size: "?stop < length ?out" "length (pre @ batch_of content [i]) = ?stop + 1" by (simp_all add: batch_of_def)
  have stop: "int (length pre + length ?header) + 1 + int ?n = int ?stop" by simp
  have id: "bytes_lower i = i" using assms by (simp add: plain_id_def)
  show ?thesis
    unfolding batch_object_def header option.case Let_def cut batch_header [OF assms] list.case int_of_bytes_str_int stop newline body
    using size id by simp
qed

lemma batch_of_Cons: "batch_of content (i # ids) = batch_of content [i] @ batch_of content ids"
  by (simp add: batch_of_def)

lemma batch_objects_written:
  "list_all plain_id ids \<Longrightarrow> distinct (map fst blobs @ ids) \<Longrightarrow>
     batch_objects show_repr (pre @ batch_of content ids) blobs (int (length pre)) ids = Inr (blobs @ map (\<lambda>i. (i, content i)) ids)"
proof (induction ids arbitrary: pre blobs)
  case (Cons i ids)
  have fresh: "AList.update i (content i) blobs = blobs @ [(i, content i)]"
    using Cons.prems(2) by (intro update_fresh) auto
  have "batch_object show_repr (pre @ batch_of content (i # ids)) (int (length pre)) i
      = Inr (content i, int (length (pre @ batch_of content [i])))"
    unfolding batch_of_Cons [of content i ids] using Cons.prems(1) by (intro batch_object_written) simp
  moreover have "batch_objects show_repr ((pre @ batch_of content [i]) @ batch_of content ids) (blobs @ [(i, content i)])
      (int (length (pre @ batch_of content [i]))) ids = Inr ((blobs @ [(i, content i)]) @ map (\<lambda>i. (i, content i)) ids)"
    using Cons.prems by (intro Cons.IH) simp_all
  ultimately show ?case by (simp add: fresh batch_of_Cons [of content i ids])
qed (simp add: batch_of_def)

text \<open>
  when git answers with the batch of the blobs asked for, every blob is read back byte for byte under its
  identifier, also when its bytes look like headers or line ends; nothing else is read.
\<close>

theorem read_blobs_written:
  assumes "list_all plain_id object_ids"
    and "git [''cat-file'', ''--batch''] (Some (join [LF] (sort (remdups object_ids)) @ [LF]))
      = ByteProcess 0 (batch_of content (sort (remdups object_ids))) errors"
  shows "read_blobs git show_repr object_ids = Inr (map (\<lambda>i. (i, content i)) (sort (remdups object_ids)))"
proof -
  have "list_all plain_id (sort (remdups object_ids))" using assms(1) by (simp add: list_all_iff)
  then have "batch_objects show_repr (batch_of content (sort (remdups object_ids))) [] 0 (sort (remdups object_ids))
      = Inr (map (\<lambda>i. (i, content i)) (sort (remdups object_ids)))"
    using batch_objects_written [of "sort (remdups object_ids)" "[]" show_repr "[]" content] by simp
  then show ?thesis using assms(2) by (simp add: read_blobs_def run_byte_git_def Let_def)
qed

theorem read_blobs_written_witness:
  "read_blobs (\<lambda>args input. ByteProcess 0 (batch_of (\<lambda>i. if i = ''a1'' then ''b2 blob 3'' @ [LF] else []) [''a1'', ''b2'']) []) (\<lambda>b. b)
     [''b2'', ''a1'', ''b2''] = Inr [(''a1'', ''b2 blob 3'' @ [LF]), (''b2'', [])]"
proof -
  have ids: "sort (remdups [''b2'', ''a1'', ''b2'']) = [''a1'', ''b2'']" by code_simp
  have "list_all plain_id [''b2'', ''a1'', ''b2'']" by code_simp
  then show ?thesis by (subst read_blobs_written [where content = "\<lambda>i. if i = ''a1'' then ''b2 blob 3'' @ [LF] else []"]) (simp_all add: ids)
qed

end
