(* ===== verification/CompetenceGate.thy ===== *)
theory CompetenceGate
  imports PyJson "HOL-Library.Multiset"
begin

text \<open>
  \<^verbatim>\<open>scripts/competence_gate.py\<close>: the gate that lets a change of the durable state machine pass only when the
  declared obligations are complete and the corpus of Lua tests has evidence for each of them.

  \<open>git\<close>, the files of the repository and the texts of Python's exceptions are parameters. A set is iterated in an
  order the program does not fix; the order is a parameter where it can be seen. Shown here: which obligations are
  accepted, that a change of an L3 path passes only with the corpus evidence, and how a change is classified, which
  for the lower levels depends on the first changed path only.
\<close>

section \<open>Obligations\<close>

definition SCHEMA :: string where "SCHEMA = ''github-devloop.competence-obligations.v1''"
definition REPORT_SCHEMA :: string where "REPORT_SCHEMA = ''github-devloop.competence-gate-ci-report.v1''"
definition REQUIRED_CHALLENGE_COUNT :: nat where "REQUIRED_CHALLENGE_COUNT = 7"

definition REQUIRED_NEGATIVE_CONTROLS :: "string list" where
  "REQUIRED_NEGATIVE_CONTROLS =
     [''001-release-replay-uses-split-version'',
      ''002-queue-wait-extra-successor'',
      ''003-dependency-hold-marker-families'',
      ''004-operator-waiver-does-not-write-raw-ready'',
      ''005-ready-replay-uses-inner-version'',
      ''006-ready-dependency-partition-boundary'',
      ''007-partial-write-idempotency-completeness'']"

definition REQUIRED_METRICS :: "string list" where
  "REQUIRED_METRICS = [''challenge_recall'', ''bug_class_recall'', ''false_reject_rate'', ''mutant_kill_rate'']"

text \<open>\<open>x.get(key, default)\<close> of a decoded value, which need not be an object; iteration, hashing and length of one.\<close>

definition get_or :: "json \<Rightarrow> string \<Rightarrow> json \<Rightarrow> json result" where
  "get_or v k d = (case as_obj v of None \<Rightarrow> Raise AttributeError | Some ob \<Rightarrow> Return (jget_or ob k d))"

definition get_attr :: "json \<Rightarrow> string \<Rightarrow> json result" where
  "get_attr v k = get_or v k JNull"

fun iterate :: "json \<Rightarrow> json list result" where
  "iterate (JArr xs) = Return xs"
| "iterate (JObj d) = Return (map (\<lambda>kv. JStr (fst kv)) d)"
| "iterate (JStr s) = Return (map (\<lambda>c. JStr [c]) s)"
| "iterate _ = Raise (TypeError ''object is not iterable'')"

fun hashable :: "json \<Rightarrow> bool" where
  "hashable (JArr _) = False"
| "hashable (JObj _) = False"
| "hashable _ = True"

definition hashed :: "json list \<Rightarrow> json list result" where
  "hashed vs = (if list_all hashable vs then Return vs else Raise (TypeError ''unhashable type''))"

fun json_len :: "json \<Rightarrow> nat result" where
  "json_len (JArr xs) = Return (length xs)"
| "json_len (JObj d) = Return (length d)"
| "json_len (JStr s) = Return (length s)"
| "json_len _ = Raise (TypeError ''object has no len()'')"

section \<open>Changed paths\<close>

record run_result =
  run_code :: int
  run_out :: string
  run_err :: string

type_synonym gate_git = "string list \<Rightarrow> run_result result"

definition run_failure :: "run_result \<Rightarrow> string \<Rightarrow> py_error" where
  "run_failure r fallback = RuntimeError (if strip (run_err r) = [] then fallback else strip (run_err r))"

definition arrow :: string where "arrow = '' -> ''"

definition status_path :: "string \<Rightarrow> string" where
  "status_path line =
     (let path = strip (drop 3 line) in
      case find_sub arrow path of None \<Rightarrow> path | Some k \<Rightarrow> drop (k + length arrow) path)"

definition diff_result :: "gate_git \<Rightarrow> string option \<Rightarrow> run_result result" where
  "diff_result git base_ref =
     (case base_ref of
        None \<Rightarrow> git [''diff'', ''--name-only'', ''HEAD'']
      | Some base \<Rightarrow>
          bindR (git [''diff'', ''--name-only'', base @ ''...HEAD'']) (\<lambda>r.
            if run_code r \<noteq> 0 then git [''diff'', ''--name-only'', base @ ''..HEAD''] else Return r))"

definition changed_of :: "string \<Rightarrow> string \<Rightarrow> string list" where
  "changed_of diff_text status_text =
     sort (remdups
       (filter (\<lambda>p. p \<noteq> []) (map strip (splitlines diff_text)) @
        filter (\<lambda>p. p \<noteq> []) (map status_path (filter (\<lambda>l. l \<noteq> []) (splitlines status_text)))))"

definition git_changed_paths :: "gate_git \<Rightarrow> string option \<Rightarrow> string list result" where
  "git_changed_paths git base_ref =
     bindR (diff_result git base_ref) (\<lambda>diff.
     if run_code diff \<noteq> 0 then Raise (run_failure diff ''git diff failed'')
     else bindR (git [''status'', ''--porcelain'']) (\<lambda>status.
     if run_code status \<noteq> 0 then Raise (run_failure status ''git status failed'')
     else Return (changed_of (run_out diff) (run_out status))))"

section \<open>Classification\<close>

record classification =
  level :: string
  l3_paths :: "string list"
  surfaces :: "json list"

text \<open>\<open>path.startswith(prefixes)\<close> for a tuple: an entry that is no string raises when it is reached.\<close>

fun starts_with_any :: "string \<Rightarrow> json list \<Rightarrow> bool result" where
  "starts_with_any path [] = Return False"
| "starts_with_any path (v # vs) =
     (case v of
        JStr p \<Rightarrow> if startswith path p then Return True else starts_with_any path vs
      | _ \<Rightarrow> Raise (TypeError ''tuple for startswith must only contain str''))"

definition is_l3 :: "json list \<Rightarrow> json list \<Rightarrow> string \<Rightarrow> bool result" where
  "is_l3 l3_exact l3_prefixes path =
     (if JStr path \<in> set l3_exact then Return True else starts_with_any path l3_prefixes)"

definition lower_level :: "json list \<Rightarrow> string \<Rightarrow> string \<Rightarrow> string result" where
  "lower_level l2_prefixes lvl path =
     (if lvl = ''L0'' then
        bindR (starts_with_any path l2_prefixes) (\<lambda>l2. Return (if l2 then ''L2'' else if path \<noteq> [] then ''L1'' else lvl))
      else Return lvl)"

fun classify_loop :: "json list \<Rightarrow> json list \<Rightarrow> json list \<Rightarrow> string \<Rightarrow> string list \<Rightarrow> string list \<Rightarrow> (string \<times> string list) result" where
  "classify_loop ex p3 p2 lvl found [] = Return (lvl, found)"
| "classify_loop ex p3 p2 lvl found (path # paths) =
     bindR (is_l3 ex p3 path) (\<lambda>l3.
       if l3 then classify_loop ex p3 p2 ''L3'' (found @ [path]) paths
       else bindR (lower_level p2 lvl path) (\<lambda>lvl'. classify_loop ex p3 p2 lvl' found paths))"

text \<open>\<open>tuple(classifier.get(key, []))\<close>\<close>

definition classifier_list :: "json \<Rightarrow> string \<Rightarrow> json list result" where
  "classifier_list classifier key = bindR (get_or classifier key (JArr [])) iterate"

definition classify_paths :: "string list \<Rightarrow> json \<Rightarrow> classification result" where
  "classify_paths paths obligations =
     bindR (get_or obligations ''risk_classifier'' (JObj [])) (\<lambda>classifier.
     bindR (classifier_list classifier ''l3_path_prefixes'') (\<lambda>l3_prefixes.
     bindR (bindR (classifier_list classifier ''l3_exact_paths'') hashed) (\<lambda>l3_exact.
     bindR (classifier_list classifier ''l2_path_prefixes'') (\<lambda>l2_prefixes.
     bindR (classify_loop l3_exact l3_prefixes l2_prefixes ''L0'' [] paths) (\<lambda>(lvl, found).
     bindR (if lvl = ''L3'' then classifier_list classifier ''surfaces'' else Return []) (\<lambda>declared.
     Return \<lparr>level = lvl, l3_paths = found, surfaces = declared\<rparr>))))))"

section \<open>Validation of the obligations\<close>

text \<open>How values that are no strings appear in messages: \<open>str()\<close> of floats and containers.\<close>

type_synonym show_value = "json \<Rightarrow> string"

definition nonempty_str :: "json \<Rightarrow> string option" where
  "nonempty_str v = (case v of JStr s \<Rightarrow> if s = [] then None else Some s | _ \<Rightarrow> None)"

definition message_if :: "bool \<Rightarrow> string \<Rightarrow> string list" where
  "message_if b m = (if b then [m] else [])"

definition item_str :: "string \<Rightarrow> json \<Rightarrow> string option" where
  "item_str key item = (case as_obj item of None \<Rightarrow> None | Some d \<Rightarrow> nonempty_str (jget d key))"

definition item_errors :: "show_value \<Rightarrow> json \<Rightarrow> string list" where
  "item_errors show_other item =
     (case as_obj item of
        None \<Rightarrow> [''obligation entries must be objects'']
      | Some d \<Rightarrow>
          let obligation_id = str_json show_other (jget d ''id''); evidence_path = jget d ''production_evidence_path'' in
          message_if (nonempty_str (jget d ''id'') = None) ''obligation id must be non-empty'' @
          message_if (nonempty_str (jget d ''challenge_id'') = None) (obligation_id @ '': challenge_id must be non-empty'') @
          message_if (nonempty_str (jget d ''bug_class'') = None) (obligation_id @ '': bug_class must be non-empty'') @
          message_if (\<not> truth (jget d ''surface'')) (obligation_id @ '': surface must be declared'') @
          message_if (\<not> truth (jget d ''evidence'')) (obligation_id @ '': evidence must be declared'') @
          message_if (\<not> truth (jget d ''expected_error'')) (obligation_id @ '': expected_error must be declared'') @
          message_if (evidence_path \<noteq> JNull \<and> nonempty_str evidence_path = None)
            (obligation_id @ '': production_evidence_path must be a non-empty string'') @
          message_if (evidence_path \<noteq> JNull \<and> nonempty_str (jget d ''production_evidence'') = None)
            (obligation_id @ '': production_evidence must be a non-empty string when production_evidence_path is set''))"

text \<open>The identifiers collected from the items: the sets \<open>seen_ids\<close>, \<open>seen_challenges\<close> and \<open>seen_classes\<close>.\<close>

definition seen :: "string \<Rightarrow> json list \<Rightarrow> string list" where
  "seen key items = remdups (List.map_filter (item_str key) items)"

fun mutation_enforced :: "json list \<Rightarrow> bool result" where
  "mutation_enforced [] = Return False"
| "mutation_enforced (item # items) =
     bindR (get_attr item ''id'') (\<lambda>i.
     bindR (if i = JStr ''006-ready-dependency-partition-boundary'' then get_attr item ''mutation_required'' else Return JNull) (\<lambda>required.
     if required = JBool True then Return True else mutation_enforced items))"

definition challenge_items :: "json \<Rightarrow> json list option" where
  "challenge_items v = (case v of JArr xs \<Rightarrow> if length xs = REQUIRED_CHALLENGE_COUNT then Some xs else None | _ \<Rightarrow> None)"

definition header_errors :: "json \<Rightarrow> string list result" where
  "header_errors obligations =
     bindR (get_attr obligations ''schema'') (\<lambda>schema.
     bindR (get_attr obligations ''owner'') (\<lambda>owner.
     bindR (get_attr obligations ''mapping_source'') (\<lambda>mapping.
     bindR (get_attr obligations ''untrusted_diff_boundary'') (\<lambda>boundary.
     Return (message_if (schema \<noteq> JStr SCHEMA) (''obligations schema must be '' @ SCHEMA) @
       message_if (owner \<noteq> JStr ''github-devloop'') ''obligations owner must be github-devloop'' @
       message_if (\<not> truth mapping) ''obligations must declare mapping_source'' @
       message_if (\<not> truth boundary) ''obligations must declare untrusted_diff_boundary'')))))"

definition missing_metrics :: "json list \<Rightarrow> string list" where
  "missing_metrics declared = sort (filter (\<lambda>m. JStr m \<notin> set declared) REQUIRED_METRICS)"

definition missing_controls :: "json list \<Rightarrow> string list" where
  "missing_controls items = sort (filter (\<lambda>c. c \<notin> set (seen ''id'' items)) REQUIRED_NEGATIVE_CONTROLS)"

definition coverage_errors :: "json list \<Rightarrow> string list" where
  "coverage_errors items =
     message_if (missing_controls items \<noteq> []) (''negative controls missing: '' @ join '', '' (missing_controls items)) @
     message_if (length (seen ''challenge_id'' items) \<noteq> REQUIRED_CHALLENGE_COUNT) ''challenge coverage must include all 7 challenge ids'' @
     message_if (length (seen ''bug_class'' items) \<noteq> REQUIRED_CHALLENGE_COUNT)
       ''bug_class_recall seed set must cover 7 distinct bug classes''"

definition validate_obligations :: "show_value \<Rightarrow> json \<Rightarrow> string list result" where
  "validate_obligations show_other obligations =
     bindR (header_errors obligations) (\<lambda>header.
     bindR (bindR (bindR (get_or obligations ''metrics'' (JArr [])) iterate) hashed) (\<lambda>declared.
     bindR (get_attr obligations ''obligations'') (\<lambda>listed.
     let items = the_default [] (challenge_items listed) in
     bindR (mutation_enforced items) (\<lambda>enforced.
     Return (header @
       message_if (missing_metrics declared \<noteq> []) (''obligations missing metrics: '' @ join '', '' (missing_metrics declared)) @
       message_if (challenge_items listed = None)
         (''obligations must list exactly '' @ str_int (int REQUIRED_CHALLENGE_COUNT) @ '' seeded challenges'') @
       concat (map (item_errors show_other) items) @ coverage_errors items @
       message_if (\<not> enforced) ''invariant #6 obligation must require mutation enforcement'')))))"

section \<open>Evidence of the Lua corpus\<close>

text \<open>Reading \<open>root / path\<close>: a missing file, any other failure, or the text.\<close>

datatype file_read = Missing string | Unreadable py_error | Contents string

type_synonym gate_files = "string \<Rightarrow> file_read"

definition read_text :: "gate_files \<Rightarrow> string \<Rightarrow> string result" where
  "read_text files path =
     (case files path of Missing m \<Rightarrow> Raise (OSError m) | Unreadable e \<Rightarrow> Raise e | Contents s \<Rightarrow> Return s)"

definition OBLIGATIONS_PATH :: string where "OBLIGATIONS_PATH = ''.competence/obligations.json''"

definition load_obligations :: "(string \<Rightarrow> string) \<Rightarrow> gate_files \<Rightarrow> json result" where
  "load_obligations decode_error files =
     bindR (read_text files OBLIGATIONS_PATH) (\<lambda>text_read.
       case json_loads text_read of None \<Rightarrow> Raise (JSONDecodeError (decode_error text_read)) | Some v \<Rightarrow> Return v)"

definition item_text :: "show_value \<Rightarrow> json \<Rightarrow> string \<Rightarrow> string result" where
  "item_text show_other item key = bindR (get_or item key (JStr [])) (\<lambda>v. Return (str_json show_other v))"

definition evidence_message :: "string \<Rightarrow> string \<Rightarrow> string \<Rightarrow> string list" where
  "evidence_message helper label needle =
     message_if (\<not> contains needle helper) (''missing competence corpus evidence for '' @ label)"

definition production_errors :: "show_value \<Rightarrow> gate_files \<Rightarrow> json \<Rightarrow> string list result" where
  "production_errors show_other files item =
     bindR (get_attr item ''production_evidence_path'') (\<lambda>evidence_path.
     if \<not> truth evidence_path then Return []
     else bindR (item_text show_other item ''production_evidence'') (\<lambda>production_evidence.
       let path = str_json show_other evidence_path in
       case files path of
         Missing _ \<Rightarrow> Return [''production evidence path does not exist: '' @ path]
       | Unreadable e \<Rightarrow> Raise e
       | Contents production \<Rightarrow>
           bindR (get_attr item ''id'') (\<lambda>i.
           Return (message_if (\<not> contains production_evidence production)
             (''production evidence missing for '' @ str_json show_other i @ '': '' @ path)))))"

definition corpus_item_errors :: "show_value \<Rightarrow> gate_files \<Rightarrow> string \<Rightarrow> json \<Rightarrow> string list result" where
  "corpus_item_errors show_other files helper item =
     bindR (item_text show_other item ''id'') (\<lambda>obligation_id.
     bindR (item_text show_other item ''challenge_id'') (\<lambda>challenge_id.
     bindR (item_text show_other item ''bug_class'') (\<lambda>bug_class.
     bindR (item_text show_other item ''expected_error'') (\<lambda>expected_error.
     bindR (production_errors show_other files item) (\<lambda>production.
     Return (evidence_message helper obligation_id obligation_id @
       evidence_message helper challenge_id (''id = '' @ [DQ] @ challenge_id @ [DQ]) @
       evidence_message helper bug_class (''bug_class = '' @ [DQ] @ bug_class @ [DQ]) @
       evidence_message helper expected_error expected_error @ production))))))"

definition HELPERS_PATH :: string where "HELPERS_PATH = ''packages/github-devloop/tests/competence_gate_helpers.lua''"
definition TEST_PATH :: string where "TEST_PATH = ''packages/github-devloop/tests/competence_gate_test.lua''"

definition required_runner_tokens :: "string list" where
  "required_runner_tokens =
     [''python3 -B '' @ [DQ] @ ''$ROOT/scripts/competence_gate.py'' @ [DQ], ''cmd_check()'']"

text \<open>\<open>controls\<close> lists the set \<open>REQUIRED_NEGATIVE_CONTROLS\<close> in the order Python iterates it.\<close>

definition validate_lua_corpus :: "show_value \<Rightarrow> string list \<Rightarrow> gate_files \<Rightarrow> json \<Rightarrow> string list result" where
  "validate_lua_corpus show_other controls files obligations =
     bindR (read_text files HELPERS_PATH) (\<lambda>helper.
     bindR (read_text files TEST_PATH) (\<lambda>test.
     bindR (read_text files ''scripts/run.sh'') (\<lambda>runner.
     bindR (bindR (get_or obligations ''obligations'' (JArr [])) iterate) (\<lambda>items.
     bindR (mapR (corpus_item_errors show_other files helper) items) (\<lambda>item_messages.
     bindR (read_text files OBLIGATIONS_PATH) (\<lambda>artifact.
     Return (concat item_messages @
       map (\<lambda>control. ''negative control inventory test missing '' @ control) (filter (\<lambda>c. \<not> contains c test) controls) @
       map (\<lambda>metric. ''competence corpus does not assert metric '' @ metric)
         (filter (\<lambda>m. \<not> contains m helper \<or> \<not> contains m test) [''challenge_recall'', ''bug_class_recall'', ''false_reject_rate'']) @
       message_if (\<not> contains ''mutant_kill_rate'' artifact) ''obligations artifact does not declare mutant_kill_rate'' @
       map (\<lambda>token. ''scripts/run.sh check is not wired to competence gate token: '' @ token)
         (filter (\<lambda>t. \<not> contains t runner) required_runner_tokens))))))))"

section \<open>Report and command\<close>

text \<open>Python's equality of values that can be members of a set; floats are compared by \<open>float_eq\<close>.\<close>

fun member_eq :: "(json \<Rightarrow> json \<Rightarrow> bool) \<Rightarrow> json \<Rightarrow> json \<Rightarrow> bool" where
  "member_eq float_eq (JStr s) (JStr t) = (s = t)"
| "member_eq float_eq JNull JNull = True"
| "member_eq float_eq (JBool a) (JBool b) = (a = b)"
| "member_eq float_eq (JInt i) (JInt j) = (i = j)"
| "member_eq float_eq (JBool a) (JInt j) = ((if a then 1 else 0) = j)"
| "member_eq float_eq (JInt i) (JBool b) = (i = (if b then 1 else 0))"
| "member_eq float_eq (JFloat f) w = float_eq (JFloat f) w"
| "member_eq float_eq v (JFloat g) = float_eq v (JFloat g)"
| "member_eq float_eq _ _ = False"

fun distinct_values :: "(json \<Rightarrow> json \<Rightarrow> bool) \<Rightarrow> json list \<Rightarrow> json list" where
  "distinct_values float_eq [] = []"
| "distinct_values float_eq (v # vs) = v # filter (\<lambda>w. \<not> member_eq float_eq v w) (distinct_values float_eq vs)"

definition build_report :: "(json \<Rightarrow> json \<Rightarrow> bool) \<Rightarrow> json \<Rightarrow> classification \<Rightarrow> string list \<Rightarrow> json result" where
  "build_report float_eq obligations c errors =
     bindR (get_or obligations ''obligations'' (JArr [])) (\<lambda>listed.
     bindR (json_len listed) (\<lambda>challenge_total.
     bindR (iterate listed) (\<lambda>items.
     bindR (mapR (\<lambda>item. get_attr item ''bug_class'') items) (\<lambda>classes.
     bindR (hashed classes) (\<lambda>classes.
     let flag = (\<lambda>b. JInt (if b then 1 else 0)) in
     Return (JObj
       [(''schema'', JStr REPORT_SCHEMA),
        (''classification'', JObj
          [(''level'', JStr (level c)), (''l3_paths'', JArr (map JStr (l3_paths c))), (''surfaces'', JArr (surfaces c))]),
        (''metrics'', JObj
          [(''challenge_recall'', flag (challenge_total = REQUIRED_CHALLENGE_COUNT \<and> errors = [])),
           (''bug_class_recall'', flag (length (distinct_values float_eq classes) = REQUIRED_CHALLENGE_COUNT \<and> errors = [])),
           (''false_reject_rate'', flag (errors \<noteq> [])),
           (''mutant_kill_rate'', flag (errors = []))]),
        (''errors'', JArr (map JStr errors))]))))))"

text \<open>
  What the gate sees: git, the files, the texts of decoding errors and of values, and what Python leaves open.
\<close>

record gate_env =
  env_decode_error :: "string \<Rightarrow> string"
  env_git :: gate_git
  env_files :: gate_files
  env_controls :: "string list"
  env_show :: show_value
  env_float_eq :: "json \<Rightarrow> json \<Rightarrow> bool"

definition gate_errors :: "gate_env \<Rightarrow> json \<Rightarrow> classification \<Rightarrow> string list result" where
  "gate_errors env obligations c =
     bindR (validate_obligations (env_show env) obligations) (\<lambda>errors.
       if level c = ''L3''
       then bindR (validate_lua_corpus (env_show env) (env_controls env) (env_files env) obligations) (\<lambda>corpus. Return (errors @ corpus))
       else Return errors)"

definition run :: "gate_env \<Rightarrow> string list option \<Rightarrow> string option \<Rightarrow> (int \<times> json) result" where
  "run env paths base_ref =
     bindR (load_obligations (env_decode_error env) (env_files env)) (\<lambda>obligations.
     bindR (case paths of Some ps \<Rightarrow> Return ps | None \<Rightarrow> git_changed_paths (env_git env) base_ref) (\<lambda>changed.
     bindR (classify_paths changed obligations) (\<lambda>c.
     bindR (gate_errors env obligations c) (\<lambda>errors.
     bindR (build_report (env_float_eq env) obligations c errors) (\<lambda>report.
     Return (if errors = [] then 0 else 1, report))))))"

text \<open>\<open>json.dumps(value, indent=2, sort_keys=True)\<close>\<close>

definition indent_line :: "nat \<Rightarrow> string" where
  "indent_line n = LF # replicate (2 * n) (CHR '' '')"

fun dumps_indent :: "(pyfloat \<Rightarrow> string) \<Rightarrow> nat \<Rightarrow> json \<Rightarrow> string" where
  "dumps_indent show_float n (JArr xs) =
     (if xs = [] then ''[]''
      else ''['' @ indent_line (Suc n) @ join ('','' @ indent_line (Suc n)) (map (dumps_indent show_float (Suc n)) xs)
        @ indent_line n @ '']'')"
| "dumps_indent show_float n (JObj d) =
     (if d = [] then ''{}''
      else ''{'' @ indent_line (Suc n) @ join ('','' @ indent_line (Suc n))
          (map (\<lambda>(k, t). dumps_str True k @ '': '' @ t)
            (sort_key fst (map (\<lambda>(k, v). (k, dumps_indent show_float (Suc n) v)) d)))
        @ indent_line n @ ''}'')"
| "dumps_indent show_float n (JFloat f) = show_float f"
| "dumps_indent show_float n v = dumps \<lparr>df_ascii = True, df_sort = True, df_item = '', '', df_key = '': ''\<rparr> v"

record gate_args =
  arg_base_ref :: "string option"
  arg_paths :: "string list option"
  arg_report_json :: bool

record gate_outcome =
  gate_exit :: int
  gate_out :: "string list"
  gate_err :: "string list"

definition report_field :: "json \<Rightarrow> string \<Rightarrow> string \<Rightarrow> json" where
  "report_field report section_name key =
     (case as_obj report of None \<Rightarrow> JNull | Some d \<Rightarrow>
       (case as_obj (jget d section_name) of None \<Rightarrow> JNull | Some s \<Rightarrow> jget s key))"

definition report_errors :: "json \<Rightarrow> string list" where
  "report_errors report =
     (case as_obj report of None \<Rightarrow> [] | Some d \<Rightarrow>
       (case jget d ''errors'' of JArr xs \<Rightarrow> List.map_filter as_str xs | _ \<Rightarrow> []))"

definition ok_line :: "show_value \<Rightarrow> json \<Rightarrow> string" where
  "ok_line show_other report =
     ''OK: competence gate '' @ str_json show_other (report_field report ''classification'' ''level'') @
     '' challenge_recall='' @ str_json show_other (report_field report ''metrics'' ''challenge_recall'') @
     '' bug_class_recall='' @ str_json show_other (report_field report ''metrics'' ''bug_class_recall'') @
     '' false_reject_rate='' @ str_json show_other (report_field report ''metrics'' ''false_reject_rate'') @
     '' mutant_kill_rate='' @ str_json show_other (report_field report ''metrics'' ''mutant_kill_rate'')"

definition gate_main :: "gate_env \<Rightarrow> (py_error \<Rightarrow> string) \<Rightarrow> (pyfloat \<Rightarrow> string) \<Rightarrow> gate_args \<Rightarrow> gate_outcome" where
  "gate_main env show_exc show_float args =
     (case run env (arg_paths args) (arg_base_ref args) of
        Inl exc \<Rightarrow> \<lparr>gate_exit = 1, gate_out = [], gate_err = [''competence gate failed: '' @ show_exc exc]\<rparr>
      | Inr (rc, report) \<Rightarrow>
          if arg_report_json args then \<lparr>gate_exit = rc, gate_out = [dumps_indent show_float 0 report], gate_err = []\<rparr>
          else if rc = 0 then \<lparr>gate_exit = 0, gate_out = [ok_line (env_show env) report], gate_err = []\<rparr>
          else \<lparr>gate_exit = rc, gate_out = [],
                gate_err = ''competence gate failed:'' # map (\<lambda>e. ''  '' @ e) (report_errors report)\<rparr>)"

section \<open>How changes are classified\<close>

lemma get_or_Inr [py_result]: "get_or v k x = Inr y \<longleftrightarrow> (\<exists>d. v = JObj d \<and> y = jget_or d k x)"
  by (cases v) (auto simp: get_or_def)

lemma get_attr_Inr [py_result]: "get_attr v k = Inr y \<longleftrightarrow> (\<exists>d. v = JObj d \<and> y = jget d k)"
  by (auto simp: get_attr_def get_or_Inr jget_or_def jget_def)

lemma hashed_Inr [py_result]: "hashed vs = Inr ws \<longleftrightarrow> list_all hashable vs \<and> ws = vs"
  by (auto simp: hashed_def)

lemma message_if_Nil [simp]: "message_if b m = [] \<longleftrightarrow> \<not> b"
  by (simp add: message_if_def)

text \<open>The entries of a list of the classifier, and the paths they stand for.\<close>

definition classifier_entries :: "json \<Rightarrow> string \<Rightarrow> json list" where
  "classifier_entries obligations key =
     (case bindR (get_or obligations ''risk_classifier'' (JObj [])) (\<lambda>c. classifier_list c key) of
        Inl _ \<Rightarrow> [] | Inr vs \<Rightarrow> vs)"

definition has_prefix :: "json list \<Rightarrow> string \<Rightarrow> bool" where
  "has_prefix vs path = list_ex (\<lambda>v. case v of JStr p \<Rightarrow> startswith path p | _ \<Rightarrow> False) vs"

definition touches_l3 :: "json \<Rightarrow> string \<Rightarrow> bool" where
  "touches_l3 obligations path \<longleftrightarrow>
     JStr path \<in> set (classifier_entries obligations ''l3_exact_paths'') \<or>
     has_prefix (classifier_entries obligations ''l3_path_prefixes'') path"

definition touches_l2 :: "json \<Rightarrow> string \<Rightarrow> bool" where
  "touches_l2 obligations path = has_prefix (classifier_entries obligations ''l2_path_prefixes'') path"

lemma starts_with_any_Inr: "starts_with_any path vs = Inr b \<Longrightarrow> b = has_prefix vs path"
  by (induction path vs rule: starts_with_any.induct) (auto simp: has_prefix_def split: json.splits if_splits)

lemma is_l3_Inr: "is_l3 ex p3 path = Inr b \<Longrightarrow> b \<longleftrightarrow> JStr path \<in> set ex \<or> has_prefix p3 path"
  by (auto simp: is_l3_def split: if_splits dest: starts_with_any_Inr)

lemma lower_level_Inr:
  "lower_level p2 lvl path = Inr lvl' \<Longrightarrow>
     lvl' = (if lvl = ''L0'' then if has_prefix p2 path then ''L2'' else if path \<noteq> [] then ''L1'' else ''L0'' else lvl)"
  by (auto simp: lower_level_def bindR_eq_Inr split: if_splits dest: starts_with_any_Inr)

text \<open>The level below L3: that of the first path that has one.\<close>

definition first_level :: "json list \<Rightarrow> string list \<Rightarrow> string" where
  "first_level p2 paths =
     (case filter (\<lambda>p. has_prefix p2 p \<or> p \<noteq> []) paths of [] \<Rightarrow> ''L0'' | p # _ \<Rightarrow> if has_prefix p2 p then ''L2'' else ''L1'')"

lemma classify_loop_Inr:
  "classify_loop ex p3 p2 lvl found paths = Inr (lvl', found') \<Longrightarrow>
     found' = found @ filter (\<lambda>p. JStr p \<in> set ex \<or> has_prefix p3 p) paths \<and>
     lvl' = (if list_ex (\<lambda>p. JStr p \<in> set ex \<or> has_prefix p3 p) paths then ''L3''
             else if lvl = ''L0'' then first_level p2 paths else lvl)"
proof (induction paths arbitrary: lvl found)
  case (Cons p paths)
  from Cons.prems obtain l3 where l3: "is_l3 ex p3 p = Inr l3" by (auto simp: bindR_eq_Inr)
  show ?case
  proof (cases l3)
    case True
    with Cons.prems l3 have "classify_loop ex p3 p2 ''L3'' (found @ [p]) paths = Inr (lvl', found')" by simp
    from Cons.IH [OF this] is_l3_Inr [OF l3] True show ?thesis by auto
  next
    case False
    with Cons.prems l3 obtain m where m: "lower_level p2 lvl p = Inr m" "classify_loop ex p3 p2 m found paths = Inr (lvl', found')"
      by (auto simp: bindR_eq_Inr)
    from Cons.IH [OF m(2)] is_l3_Inr [OF l3] False lower_level_Inr [OF m(1)] show ?thesis
      by (auto simp: first_level_def)
  qed
qed (simp add: first_level_def)

lemma classified_exact:
  assumes "classify_paths paths obligations = Inr c"
  shows "l3_paths c = filter (touches_l3 obligations) paths \<and>
    level c = (if list_ex (touches_l3 obligations) paths then ''L3''
               else case filter (\<lambda>p. touches_l2 obligations p \<or> p \<noteq> []) paths of
                 [] \<Rightarrow> ''L0'' | p # _ \<Rightarrow> if touches_l2 obligations p then ''L2'' else ''L1'')"
proof -
  obtain classifier p3 ex p2 declared where
      classifier: "get_or obligations ''risk_classifier'' (JObj []) = Inr classifier"
    and p3: "classifier_list classifier ''l3_path_prefixes'' = Inr p3"
    and ex: "classifier_list classifier ''l3_exact_paths'' = Inr ex"
    and p2: "classifier_list classifier ''l2_path_prefixes'' = Inr p2"
    and found: "classify_loop ex p3 p2 ''L0'' [] paths = Inr (level c, l3_paths c)"
    using assms by (auto simp: classify_paths_def bindR_eq_Inr hashed_Inr)
  have entries: "classifier_entries obligations ''l3_path_prefixes'' = p3" "classifier_entries obligations ''l3_exact_paths'' = ex"
    "classifier_entries obligations ''l2_path_prefixes'' = p2"
    using classifier p3 ex p2 by (simp_all add: classifier_entries_def)
  then have "touches_l3 obligations = (\<lambda>p. JStr p \<in> set ex \<or> has_prefix p3 p)" "touches_l2 obligations = has_prefix p2"
    by (auto simp: touches_l3_def [abs_def] touches_l2_def [abs_def])
  with classify_loop_Inr [OF found] show ?thesis by (simp add: first_level_def split: list.split)
qed

text \<open>
  a successful classification finds exactly the changed paths that the policy names as L3, in order, and has
  level L3 exactly if there is one. Otherwise the level is that of the first changed path alone.
\<close>

theorem classify_paths_exact:
  assumes "classify_paths paths obligations = Inr c"
  shows "l3_paths c = filter (touches_l3 obligations) paths \<and>
    level c = (if list_ex (touches_l3 obligations) paths then ''L3''
               else case filter (\<lambda>p. touches_l2 obligations p \<or> p \<noteq> []) paths of
                 [] \<Rightarrow> ''L0'' | p # _ \<Rightarrow> if touches_l2 obligations p then ''L2'' else ''L1'')"
  by (rule classified_exact [OF assms])

definition sample_policy :: json where
  "sample_policy = JObj [(''risk_classifier'', JObj [(''l2_path_prefixes'', JArr [JStr ''scripts/'']), (''l3_exact_paths'', JArr [JStr ''core.lua''])])]"

theorem classify_paths_exact_witness:
  "\<exists>c. classify_paths [''scripts/x.py'', ''core.lua''] sample_policy = Inr c \<and> l3_paths c = [''core.lua''] \<and> level c = ''L3''"
proof -
  obtain c where c: "classify_paths [''scripts/x.py'', ''core.lua''] sample_policy = Inr c"
    by (simp add: classify_paths_def sample_policy_def get_or_def jget_or_def classifier_list_def hashed_def is_l3_def lower_level_def)
  have "touches_l3 sample_policy ''core.lua''" "\<not> touches_l3 sample_policy ''scripts/x.py''"
    by (simp_all add: touches_l3_def sample_policy_def classifier_entries_def classifier_list_def get_or_def jget_or_def has_prefix_def)
  with classify_paths_exact [OF c] c show ?thesis by simp
qed

text \<open>
  The level printed for a change is not the highest one of its paths: with an unlisted path first, a change of the
  repository's checks is reported as L1.
\<close>

lemma level_of_first_path:
  "map_sum id level (classify_paths [''README.md'', ''scripts/x.py''] sample_policy) = Inr ''L1''"
  "map_sum id level (classify_paths [''scripts/x.py'', ''README.md''] sample_policy) = Inr ''L2''"
  by (simp_all add: classify_paths_def sample_policy_def get_or_def jget_or_def classifier_list_def hashed_def is_l3_def lower_level_def)

text \<open>Of a renamed file only the new name is classified.\<close>

lemma renamed_path_lost: "changed_of [] ''R  core.lua -> x.lua'' = [''x.lua'']"
  by code_simp

section \<open>Which obligations are accepted\<close>

definition complete_item :: "json \<Rightarrow> bool" where
  "complete_item item \<longleftrightarrow>
     (case as_obj item of
        None \<Rightarrow> False
      | Some d \<Rightarrow>
          list_all (\<lambda>key. nonempty_str (jget d key) \<noteq> None) [''id'', ''challenge_id'', ''bug_class''] \<and>
          list_all (\<lambda>key. truth (jget d key)) [''surface'', ''evidence'', ''expected_error''] \<and>
          (jget d ''production_evidence_path'' = JNull \<or>
           nonempty_str (jget d ''production_evidence_path'') \<noteq> None \<and> nonempty_str (jget d ''production_evidence'') \<noteq> None))"

text \<open>The closed form: seven complete items whose identifiers are the seven controls, each once, with distinct challenges and classes.\<close>

definition complete_items :: "json list \<Rightarrow> bool" where
  "complete_items items \<longleftrightarrow>
     list_all complete_item items \<and>
     mset (map (\<lambda>item. the (item_str ''id'' item)) items) = mset REQUIRED_NEGATIVE_CONTROLS \<and>
     distinct (map (\<lambda>item. the (item_str ''challenge_id'' item)) items) \<and>
     distinct (map (\<lambda>item. the (item_str ''bug_class'' item)) items) \<and>
     list_ex (\<lambda>item. item_str ''id'' item = Some ''006-ready-dependency-partition-boundary'' \<and>
       get_attr item ''mutation_required'' = Inr (JBool True)) items"

definition complete_header :: "jobject \<Rightarrow> bool" where
  "complete_header d \<longleftrightarrow>
     jget d ''schema'' = JStr SCHEMA \<and> jget d ''owner'' = JStr ''github-devloop'' \<and>
     truth (jget d ''mapping_source'') \<and> truth (jget d ''untrusted_diff_boundary'')"

definition complete_metrics :: "jobject \<Rightarrow> bool" where
  "complete_metrics d \<longleftrightarrow>
     (case iterate (jget_or d ''metrics'' (JArr [])) of
        Inl _ \<Rightarrow> False
      | Inr declared \<Rightarrow> list_all hashable declared \<and> JStr ` set REQUIRED_METRICS \<subseteq> set declared)"

definition complete_obligations :: "json \<Rightarrow> bool" where
  "complete_obligations obligations \<longleftrightarrow>
     (\<exists>d items. obligations = JObj d \<and> complete_header d \<and> complete_metrics d \<and>
        jget d ''obligations'' = JArr items \<and> complete_items items)"

lemma item_errors_Nil: "item_errors show_other item = [] \<longleftrightarrow> complete_item item"
  by (cases item) (auto simp: item_errors_def complete_item_def Let_def)

lemma complete_item_str:
  "complete_item item \<Longrightarrow> key \<in> {''id'', ''challenge_id'', ''bug_class''} \<Longrightarrow> item_str key item = Some (the (item_str key item))"
  by (cases item) (auto simp: complete_item_def item_str_def)

lemma seen_complete:
  assumes "list_all complete_item items" "key \<in> {''id'', ''challenge_id'', ''bug_class''}"
  shows "seen key items = remdups (map (\<lambda>item. the (item_str key item)) items)"
proof -
  have "List.map_filter (item_str key) items = map (\<lambda>item. the (item_str key item)) items"
    using assms(1)
  proof (induction items)
    case (Cons item items)
    then obtain v where "item_str key item = Some v" using complete_item_str [of item key] assms(2) by fastforce
    with Cons show ?case by (simp add: List.map_filter_def)
  qed (simp add: List.map_filter_def)
  then show ?thesis by (simp add: seen_def)
qed

lemma length_remdups_distinct: "length xs = n \<Longrightarrow> length (remdups xs) = n \<longleftrightarrow> distinct xs"
  using length_remdups_card_conv [of xs] card_distinct [of xs] distinct_card [of xs] by metis

lemma covering_permutation:
  assumes "distinct cs" "length xs = length cs"
  shows "set cs \<subseteq> set xs \<longleftrightarrow> mset xs = mset cs"
proof
  assume sub: "set cs \<subseteq> set xs"
  have "card (set cs) = length xs" using assms distinct_card by metis
  then have "set cs = set xs" using sub card_length [of xs] by (intro card_subset_eq) (auto dest: card_mono [rotated] intro: le_antisym)
  moreover from this have "distinct xs" using \<open>card (set cs) = length xs\<close> by (intro card_distinct) simp
  ultimately show "mset xs = mset cs" using assms(1) by (metis set_eq_iff_mset_eq_distinct)
next
  assume "mset xs = mset cs"
  then show "set cs \<subseteq> set xs" by (metis set_mset_mset order_refl)
qed

lemma controls_distinct: "distinct REQUIRED_NEGATIVE_CONTROLS" "length REQUIRED_NEGATIVE_CONTROLS = REQUIRED_CHALLENGE_COUNT"
  by (code_simp, code_simp)

lemma sort_Nil_iff: "sort xs = [] \<longleftrightarrow> xs = []"
  by (metis set_empty set_sort)

lemma coverage_errors_Nil:
  assumes "list_all complete_item items" "length items = REQUIRED_CHALLENGE_COUNT"
  shows "coverage_errors items = [] \<longleftrightarrow>
     mset (map (\<lambda>item. the (item_str ''id'' item)) items) = mset REQUIRED_NEGATIVE_CONTROLS \<and>
     distinct (map (\<lambda>item. the (item_str ''challenge_id'' item)) items) \<and>
     distinct (map (\<lambda>item. the (item_str ''bug_class'' item)) items)"
proof -
  have "missing_controls items = [] \<longleftrightarrow> set REQUIRED_NEGATIVE_CONTROLS \<subseteq> set (map (\<lambda>item. the (item_str ''id'' item)) items)"
    using seen_complete [OF assms(1), of "''id''"] by (auto simp: missing_controls_def sort_Nil_iff filter_empty_conv)
  also have "\<dots> \<longleftrightarrow> mset (map (\<lambda>item. the (item_str ''id'' item)) items) = mset REQUIRED_NEGATIVE_CONTROLS"
    using controls_distinct assms(2) by (intro covering_permutation) simp_all
  finally show ?thesis
    using assms(2) by (simp add: coverage_errors_def seen_complete [OF assms(1)] length_remdups_distinct)
qed

lemma mutation_enforced_exact:
  "list_all complete_item items \<Longrightarrow> mutation_enforced items = Inr
     (list_ex (\<lambda>item. item_str ''id'' item = Some ''006-ready-dependency-partition-boundary'' \<and>
       get_attr item ''mutation_required'' = Inr (JBool True)) items)"
proof (induction items)
  case (Cons item items)
  then obtain d where item: "item = JObj d" by (cases item) (auto simp: complete_item_def)
  have "item_str ''id'' item = Some ''006-ready-dependency-partition-boundary'' \<longleftrightarrow>
      jget d ''id'' = JStr ''006-ready-dependency-partition-boundary''"
    by (auto simp: item item_str_def nonempty_str_def split: json.splits if_splits)
  moreover have "get_attr item k = Inr (jget d k)" for k by (simp add: item get_attr_Inr)
  ultimately show ?case using Cons by auto
qed simp

lemma challenge_items_Some: "challenge_items v = Some items \<longleftrightarrow> v = JArr items \<and> length items = REQUIRED_CHALLENGE_COUNT"
  by (cases v) (auto simp: challenge_items_def)

lemma header_errors_exact:
  "header_errors (JObj d) = Inr errors \<Longrightarrow> errors = [] \<longleftrightarrow> complete_header d"
  by (auto simp: header_errors_def get_attr_def get_or_def jget_or_def jget_def complete_header_def)

lemma header_errors_total: "\<exists>errors. header_errors (JObj d) = Inr errors"
  by (simp add: header_errors_def get_attr_def get_or_def)

lemma missing_metrics_Nil: "missing_metrics declared = [] \<longleftrightarrow> JStr ` set REQUIRED_METRICS \<subseteq> set declared"
  by (auto simp: missing_metrics_def sort_Nil_iff filter_empty_conv)

lemma accepted_items:
  "challenge_items listed \<noteq> None \<and> mutation_enforced (the_default [] (challenge_items listed)) = Inr True \<and>
   concat (map (item_errors show_other) (the_default [] (challenge_items listed))) = [] \<and>
   coverage_errors (the_default [] (challenge_items listed)) = []
   \<longleftrightarrow> (\<exists>items. listed = JArr items \<and> complete_items items)"
proof (cases "challenge_items listed")
  case None
  have False if "listed = JArr items" "complete_items items" for items
  proof -
    have "length (map (\<lambda>item. the (item_str ''id'' item)) items) = length REQUIRED_NEGATIVE_CONTROLS"
      using that(2) unfolding complete_items_def by (metis mset_eq_length)
    then have "challenge_items listed = Some items" using that(1) controls_distinct(2) by (simp add: challenge_items_Some)
    with None show False by simp
  qed
  with None show ?thesis by auto
next
  case (Some items)
  then have items: "listed = JArr items" "length items = REQUIRED_CHALLENGE_COUNT" by (simp_all add: challenge_items_Some)
  have "concat (map (item_errors show_other) items) = [] \<longleftrightarrow> list_all complete_item items"
    by (simp add: item_errors_Nil list_all_iff)
  then show ?thesis using Some items
    by (cases "list_all complete_item items")
      (auto simp: the_default_def complete_items_def mutation_enforced_exact coverage_errors_Nil)
qed

lemma validate_obligations_Nil:
  "validate_obligations show_other obligations = Inr [] \<longleftrightarrow> complete_obligations obligations"
proof (cases "as_obj obligations")
  case None
  then show ?thesis by (cases obligations) (auto simp: validate_obligations_def header_errors_def get_attr_def get_or_def complete_obligations_def)
next
  case (Some d)
  then have d: "obligations = JObj d" by (cases obligations) auto
  obtain header where header: "header_errors obligations = Inr header" using header_errors_total d by blast
  have metrics: "(\<exists>declared. bindR (bindR (get_or obligations ''metrics'' (JArr [])) iterate) hashed = Inr declared \<and> missing_metrics declared = [])
      \<longleftrightarrow> complete_metrics d"
    by (auto simp: d get_or_def bindR_eq_Inr hashed_Inr complete_metrics_def missing_metrics_Nil split: sum.splits)
  have listed: "get_attr obligations ''obligations'' = Inr (jget d ''obligations'')" by (simp add: d get_attr_Inr)
  have "validate_obligations show_other obligations = Inr [] \<longleftrightarrow>
      header = [] \<and>
      (\<exists>declared. bindR (bindR (get_or obligations ''metrics'' (JArr [])) iterate) hashed = Inr declared \<and> missing_metrics declared = []) \<and>
      (challenge_items (jget d ''obligations'') \<noteq> None \<and>
       mutation_enforced (the_default [] (challenge_items (jget d ''obligations''))) = Inr True \<and>
       concat (map (item_errors show_other) (the_default [] (challenge_items (jget d ''obligations'')))) = [] \<and>
       coverage_errors (the_default [] (challenge_items (jget d ''obligations''))) = [])"
    unfolding validate_obligations_def header listed Let_def bindR_simps
    by (subst bindR_eq_Inr) (auto simp: bindR_eq_Inr [of "mutation_enforced _"])
  also have "\<dots> \<longleftrightarrow> complete_obligations obligations"
    unfolding accepted_items metrics using header_errors_exact header d by (auto simp: complete_obligations_def)
  finally show ?thesis .
qed

text \<open>
  obligations are accepted exactly if they are complete: the header and the metrics are declared, and there are
  seven complete items, one for each negative control, with distinct challenges and distinct bug classes, the sixth
  requiring mutation enforcement.
\<close>

theorem obligations_accepted_iff:
  "validate_obligations show_other obligations = Inr [] \<longleftrightarrow> complete_obligations obligations"
  by (rule validate_obligations_Nil)

section \<open>What a passing gate means\<close>

definition production_evidence_found :: "gate_files \<Rightarrow> jobject \<Rightarrow> bool" where
  "production_evidence_found files d \<longleftrightarrow>
     (case (nonempty_str (jget d ''production_evidence_path''), nonempty_str (jget d ''production_evidence'')) of
        (Some path, Some needle) \<Rightarrow> (case files path of Contents production \<Rightarrow> contains needle production | _ \<Rightarrow> False)
      | _ \<Rightarrow> True)"

text \<open>An item whose identifier, challenge, bug class and expected error are named in the Lua helpers, and whose production evidence is in its file.\<close>

definition item_evidence :: "show_value \<Rightarrow> gate_files \<Rightarrow> string \<Rightarrow> json \<Rightarrow> bool" where
  "item_evidence show_other files helper item \<longleftrightarrow>
     (case as_obj item of
        None \<Rightarrow> False
      | Some d \<Rightarrow>
          contains (the (item_str ''id'' item)) helper \<and>
          contains (''id = '' @ [DQ] @ the (item_str ''challenge_id'' item) @ [DQ]) helper \<and>
          contains (''bug_class = '' @ [DQ] @ the (item_str ''bug_class'' item) @ [DQ]) helper \<and>
          contains (str_json show_other (jget d ''expected_error'')) helper \<and> production_evidence_found files d)"

definition corpus_evidence :: "show_value \<Rightarrow> string list \<Rightarrow> gate_files \<Rightarrow> json \<Rightarrow> bool" where
  "corpus_evidence show_other controls files obligations \<longleftrightarrow>
     (\<exists>helper test runner d items.
        files HELPERS_PATH = Contents helper \<and> files TEST_PATH = Contents test \<and> files ''scripts/run.sh'' = Contents runner \<and>
        obligations = JObj d \<and> jget d ''obligations'' = JArr items \<and>
        list_all (item_evidence show_other files helper) items \<and>
        list_all (\<lambda>c. contains c test) controls \<and>
        list_all (\<lambda>m. contains m helper \<and> contains m test) [''challenge_recall'', ''bug_class_recall'', ''false_reject_rate''] \<and>
        list_all (\<lambda>t. contains t runner) required_runner_tokens)"

lemma read_text_Inr [py_result]: "read_text files path = Inr s \<longleftrightarrow> files path = Contents s"
  by (auto simp: read_text_def split: file_read.splits)

lemma evidence_message_Nil [simp]: "evidence_message helper label needle = [] \<longleftrightarrow> contains needle helper"
  by (simp add: evidence_message_def)

lemma item_text_object: "item_text show_other (JObj d) key = Inr (str_json show_other (jget_or d key (JStr [])))"
  by (simp add: item_text_def get_or_def)

lemma complete_text:
  assumes "complete_item (JObj d)" "key \<in> {''id'', ''challenge_id'', ''bug_class''}"
  shows "str_json show_other (jget_or d key (JStr [])) = the (item_str key (JObj d))"
proof -
  obtain s where "nonempty_str (jget d key) = Some s" using assms by (auto simp: complete_item_def)
  then have "jget_or d key (JStr []) = JStr s" "item_str key (JObj d) = Some s"
    by (auto simp: nonempty_str_def jget_def jget_or_def item_str_def split: json.splits if_splits option.splits)
  then show ?thesis by simp
qed

lemma nonempty_str_Some: "nonempty_str v = Some s \<longleftrightarrow> v = JStr s \<and> s \<noteq> []"
  by (cases v) (auto simp: nonempty_str_def)

lemma production_errors_Nil:
  assumes "complete_item (JObj d)" "production_errors show_other files (JObj d) = Inr []"
  shows "production_evidence_found files d"
proof (cases "jget d ''production_evidence_path''")
  case JNull
  then show ?thesis by (simp add: production_evidence_found_def nonempty_str_def)
next
  case (JStr path)
  then obtain needle where needle: "jget d ''production_evidence'' = JStr needle" "needle \<noteq> []" "path \<noteq> []"
    using assms(1) by (auto simp: complete_item_def nonempty_str_Some)
  then have "jget_or d ''production_evidence'' (JStr []) = JStr needle" by (auto simp: jget_def jget_or_def split: option.splits)
  then show ?thesis using assms(2) JStr needle
    by (auto simp: production_errors_def get_attr_def get_or_def jget_or_def jget_def item_text_def production_evidence_found_def
        nonempty_str_def Let_def bindR_eq_Inr split: file_read.splits option.splits if_splits)
qed (use assms(1) in \<open>simp_all add: complete_item_def nonempty_str_def\<close>)

lemma corpus_item_errors_Nil:
  assumes "complete_item item" "corpus_item_errors show_other files helper item = Inr []"
  shows "item_evidence show_other files helper item"
proof -
  from assms(1) obtain d where d: "item = JObj d" by (cases item) (auto simp: complete_item_def)
  have "truth (jget d ''expected_error'')" using assms(1) by (simp add: d complete_item_def)
  then have expected: "jget_or d ''expected_error'' (JStr []) = jget d ''expected_error''"
    by (auto simp: jget_def jget_or_def split: option.splits)
  have plain: "str_json show_other (jget_or d key (JStr [])) = the (item_str key (JObj d))" if "key \<in> {''id'', ''challenge_id'', ''bug_class''}" for key
    using assms(1) that unfolding d by (rule complete_text)
  have production: "production_errors show_other files (JObj d) = Inr []"
    and texts: "contains (str_json show_other (jget_or d ''id'' (JStr []))) helper"
      "contains (''id = '' @ [DQ] @ str_json show_other (jget_or d ''challenge_id'' (JStr [])) @ [DQ]) helper"
      "contains (''bug_class = '' @ [DQ] @ str_json show_other (jget_or d ''bug_class'' (JStr [])) @ [DQ]) helper"
      "contains (str_json show_other (jget_or d ''expected_error'' (JStr []))) helper"
    using assms(2) unfolding d corpus_item_errors_def item_text_object bindR_simps by (auto simp: bindR_eq_Inr)
  from production_errors_Nil [OF assms(1) [unfolded d] production] texts show ?thesis
    by (simp add: d item_evidence_def plain expected)
qed

lemma validate_lua_corpus_Nil:
  assumes "complete_obligations obligations" "validate_lua_corpus show_other controls files obligations = Inr []"
  shows "corpus_evidence show_other controls files obligations"
proof -
  from assms(1) obtain d items where items: "obligations = JObj d" "jget d ''obligations'' = JArr items" "list_all complete_item items"
    by (auto simp: complete_obligations_def complete_items_def)
  then have listed: "jget_or d ''obligations'' (JArr []) = JArr items" by (auto simp: jget_def jget_or_def split: option.splits)
  have "bindR (get_or obligations ''obligations'' (JArr [])) iterate = Inr items" by (simp add: items(1) get_or_def listed)
  then obtain helper test runner messages where files: "files HELPERS_PATH = Contents helper" "files TEST_PATH = Contents test"
      "files ''scripts/run.sh'' = Contents runner"
    and messages: "mapR (corpus_item_errors show_other files helper) items = Inr messages" "concat messages = []"
    and rest: "filter (\<lambda>c. \<not> contains c test) controls = []"
      "filter (\<lambda>m. \<not> contains m helper \<or> \<not> contains m test) [''challenge_recall'', ''bug_class_recall'', ''false_reject_rate''] = []"
      "filter (\<lambda>t. \<not> contains t runner) required_runner_tokens = []"
    using assms(2) unfolding validate_lua_corpus_def by (auto simp only: bindR_eq_Inr read_text_Inr append_is_Nil_conv map_is_Nil_conv sum.inject)
  have "corpus_item_errors show_other files helper item = Inr []" if "item \<in> set items" for item
  proof -
    from that obtain i where i: "i < length items" "item = items ! i" by (auto simp: in_set_conv_nth)
    with messages(1) have "corpus_item_errors show_other files helper item = Inr (messages ! i)" "messages ! i \<in> set messages"
      by (auto simp: mapR_Inr list_all2_conv_all_nth)
    with messages(2) show ?thesis by auto
  qed
  then have "list_all (item_evidence show_other files helper) items"
    using items(3) corpus_item_errors_Nil by (auto simp: list_all_iff)
  moreover have "list_all (\<lambda>c. contains c test) controls" "list_all (\<lambda>t. contains t runner) required_runner_tokens"
    "list_all (\<lambda>m. contains m helper \<and> contains m test) [''challenge_recall'', ''bug_class_recall'', ''false_reject_rate'']"
    using rest by (simp_all add: filter_empty_conv list_all_iff split: if_splits)
  ultimately show ?thesis using files items unfolding corpus_evidence_def by blast
qed

text \<open>The paths a run looks at: those given, or those git reports.\<close>

definition changed_paths_of :: "gate_env \<Rightarrow> gate_args \<Rightarrow> string list result" where
  "changed_paths_of env args =
     (case arg_paths args of Some ps \<Rightarrow> Return ps | None \<Rightarrow> git_changed_paths (env_git env) (arg_base_ref args))"

lemma gate_exit_zero:
  assumes "gate_exit (gate_main env show_exc show_float args) = 0"
  shows "\<exists>obligations changed c. load_obligations (env_decode_error env) (env_files env) = Inr obligations \<and>
    changed_paths_of env args = Inr changed \<and> classify_paths changed obligations = Inr c \<and> gate_errors env obligations c = Inr []"
proof -
  obtain report where "run env (arg_paths args) (arg_base_ref args) = Inr (0, report)"
    using assms by (auto simp: gate_main_def split: sum.splits if_splits)
  then show ?thesis unfolding run_def changed_paths_of_def [symmetric] by (auto simp: bindR_eq_Inr split: if_splits)
qed

lemma gate_errors_Nil:
  assumes "gate_errors env obligations c = Inr []"
  shows "complete_obligations obligations \<and>
    (level c = ''L3'' \<longrightarrow> corpus_evidence (env_show env) (env_controls env) (env_files env) obligations)"
proof -
  have "validate_obligations (env_show env) obligations = Inr []"
    and corpus: "level c = ''L3'' \<Longrightarrow> validate_lua_corpus (env_show env) (env_controls env) (env_files env) obligations = Inr []"
    using assms by (auto simp: gate_errors_def bindR_eq_Inr split: if_splits)
  then show ?thesis using validate_lua_corpus_Nil by (simp add: validate_obligations_Nil)
qed

lemma classified_l3:
  assumes "classify_paths paths obligations = Inr c" "list_ex (touches_l3 obligations) paths"
  shows "level c = ''L3''"
  using classified_exact [OF assms(1)] assms(2) by simp

text \<open>
  C25. the gate exits 0 only if the obligations on disk are complete and, when a changed path is one the policy names
  as L3, the Lua corpus has the evidence for every obligation, every control and every metric, and the runner calls
  the gate.
\<close>

theorem gate_main_sound:
  assumes "gate_exit (gate_main env show_exc show_float args) = 0"
  shows "\<exists>obligations changed. load_obligations (env_decode_error env) (env_files env) = Inr obligations \<and>
    changed_paths_of env args = Inr changed \<and> complete_obligations obligations \<and>
    (list_ex (touches_l3 obligations) changed \<longrightarrow>
      corpus_evidence (env_show env) (env_controls env) (env_files env) obligations)"
  using gate_exit_zero [OF assms] gate_errors_Nil classified_l3 by blast

definition sample_item :: "string \<times> string \<Rightarrow> json" where
  "sample_item p =
     JObj [(''id'', JStr (fst p)), (''challenge_id'', JStr (snd p)), (''bug_class'', JStr (snd p)), (''surface'', JStr ''s''),
       (''evidence'', JStr ''s''), (''expected_error'', JStr ''e''), (''mutation_required'', JBool True)]"

definition sample_pairs :: "(string \<times> string) list" where
  "sample_pairs = zip REQUIRED_NEGATIVE_CONTROLS [''1'', ''2'', ''3'', ''4'', ''5'', ''6'', ''7'']"

definition sample_obligations :: json where
  "sample_obligations =
     JObj [(''schema'', JStr SCHEMA), (''owner'', JStr ''github-devloop''), (''mapping_source'', JStr ''m''),
       (''untrusted_diff_boundary'', JStr ''u''), (''risk_classifier'', JObj [(''l3_exact_paths'', JArr [JStr ''core.lua''])]),
       (''metrics'', JArr (map JStr REQUIRED_METRICS)), (''obligations'', JArr (map sample_item sample_pairs))]"

definition sample_files :: gate_files where
  "sample_files path =
     (if path = OBLIGATIONS_PATH then Contents (dumps compact_flags sample_obligations)
      else Missing path)"

definition sample_env :: gate_env where
  "sample_env = \<lparr>env_decode_error = id, env_git = (\<lambda>_. Raise (OSError ''git'')), env_files = sample_files,
     env_controls = REQUIRED_NEGATIVE_CONTROLS, env_show = (\<lambda>_. []), env_float_eq = (\<lambda>_ _. False)\<rparr>"

lemma sample_json: "json_ok sample_obligations"
  by code_simp

lemma sample_loaded: "load_obligations id sample_files = Inr sample_obligations"
proof -
  have "good_flags compact_flags" by (simp add: good_flags_def)
  then have "json_loads (dumps compact_flags sample_obligations) = Some sample_obligations"
    by (intro json_loads_dumps sample_json)
  then show ?thesis by (simp add: load_obligations_def read_text_def sample_files_def)
qed

lemma sample_classified: "classify_paths [''README.md''] sample_obligations = Inr \<lparr>level = ''L1'', l3_paths = [], surfaces = []\<rparr>"
  by code_simp

lemma sample_validated: "validate_obligations (\<lambda>_. []) sample_obligations = Inr []"
  by code_simp

lemma sample_report:
  "\<exists>report. build_report (\<lambda>_ _. False) sample_obligations \<lparr>level = ''L1'', l3_paths = [], surfaces = []\<rparr> [] = Inr report"
  by (simp add: build_report_def sample_obligations_def get_or_def jget_or_def Let_def sample_pairs_def REQUIRED_NEGATIVE_CONTROLS_def
      sample_item_def get_attr_def hashed_def)

theorem gate_main_sound_witness:
  "let args = \<lparr>arg_base_ref = None, arg_paths = Some [''README.md''], arg_report_json = False\<rparr> in
   gate_exit (gate_main sample_env (\<lambda>_. []) (\<lambda>_. []) args) = 0 \<and>
   (\<exists>obligations. load_obligations id sample_files = Inr obligations \<and> complete_obligations obligations)"
proof -
  let ?args = "\<lparr>arg_base_ref = None, arg_paths = Some [''README.md''], arg_report_json = False\<rparr>"
  have "\<exists>report. run sample_env (arg_paths ?args) (arg_base_ref ?args) = Inr (0, report)"
    using sample_report by (auto simp: run_def sample_env_def sample_loaded sample_classified gate_errors_def sample_validated)
  then have exit: "gate_exit (gate_main sample_env (\<lambda>_. []) (\<lambda>_. []) ?args) = 0" by (auto simp: gate_main_def)
  have "\<exists>obligations. load_obligations id sample_files = Inr obligations \<and> complete_obligations obligations"
    using gate_main_sound [OF exit] by (auto simp: sample_env_def)
  with exit show ?thesis by (simp only: Let_def simp_thms)
qed

end
