(* ===== verification/CanonicalJson.thy ===== *)
theory CanonicalJson
  imports PyJson PyDigest
begin

text \<open>
  \<^verbatim>\<open>scripts/intent_bounded_replay/normalize.py\<close> and \<^verbatim>\<open>compare.py\<close>: the canonical text of a JSON value, the digest of an
  artifact without its own digest, and the first place where two artifacts differ.

  Values are finite trees, so the guards against cyclic containers never apply. A number is an integer or a
  \<open>Decimal\<close> with its sign, digits and exponent; a float is the \<open>Decimal\<close> of its shortest text. Shown here: what
  the decoder accepts always has a canonical text; canonical texts are equal exactly for values that differ at most in
  the order of members and the way numbers are written; and a report of a difference always has a pointer, which leads to a place
  where the two artifacts really differ.
\<close>

section \<open>Values\<close>

datatype number = Whole int | Fixed bool "nat list" int | NonFinite string

datatype artifact =
    ANull
  | ABool bool
  | ANum number
  | AStr string
  | AArr "artifact list"
  | AObj "(string \<times> artifact) list"

type_synonym members = "(string \<times> artifact) list"

text \<open>\<open>isinstance(v, dict)\<close> with its members, and \<open>d.get(key)\<close>.\<close>

fun as_members :: "artifact \<Rightarrow> members option" where
  "as_members (AObj d) = Some d"
| "as_members _ = None"

definition field_of :: "members \<Rightarrow> string \<Rightarrow> artifact" where
  "field_of d k = (case map_of d k of None \<Rightarrow> ANull | Some v \<Rightarrow> v)"

section \<open>Decoding\<close>

text \<open>
  \<open>loads_json\<close>: every number is read as a \<open>Decimal\<close>, a repeated key of an object and the constants that are no numbers
  raise. Every failure is \<open>None\<close>. As in \<open>PyJson\<close> the fuel is the length of the text.
\<close>

definition decimal_digits :: "int \<Rightarrow> nat list" where
  "decimal_digits m = map digit_val (nat_digits (nat \<bar>m\<bar>))"

definition decimal_of :: "json \<Rightarrow> number option" where
  "decimal_of v =
     (case v of
        JInt i \<Rightarrow> Some (Fixed (i < 0) (decimal_digits i) 0)
      | JFloat (Decimal m e) \<Rightarrow> Some (Fixed (m < 0) (decimal_digits m) e)
      | _ \<Rightarrow> None)"

definition load_scalar :: "string \<Rightarrow> (artifact \<times> string) option" where
  "load_scalar s =
     (if prefix ''null'' s then Some (ANull, drop 4 s)
      else if prefix ''true'' s then Some (ABool True, drop 4 s)
      else if prefix ''false'' s then Some (ABool False, drop 5 s)
      else case pnumber s of
        None \<Rightarrow> None
      | Some (v, r) \<Rightarrow> map_option (\<lambda>n. (ANum n, r)) (decimal_of v))"

text \<open>\<open>_strict_object\<close>\<close>

definition strict_object :: "members \<Rightarrow> artifact option" where
  "strict_object pairs = (if distinct (map fst pairs) then Some (AObj pairs) else None)"

fun load_value :: "nat \<Rightarrow> string \<Rightarrow> (artifact \<times> string) option"
  and load_items :: "nat \<Rightarrow> artifact list \<Rightarrow> string \<Rightarrow> (artifact \<times> string) option"
  and load_members :: "nat \<Rightarrow> members \<Rightarrow> string \<Rightarrow> (artifact \<times> string) option" where
  "load_value 0 s = None"
| "load_value (Suc n) s =
     (case s of
        [] \<Rightarrow> None
      | c # cs \<Rightarrow>
          if c = DQ then map_option (\<lambda>(x, r). (AStr x, r)) (pstring cs)
          else if c = CHR ''{'' then
            (case skip_ws cs of
               [] \<Rightarrow> None
             | d # ds \<Rightarrow> if d = CHR ''}'' then Some (AObj [], ds) else load_members n [] (d # ds))
          else if c = CHR ''['' then
            (case skip_ws cs of
               [] \<Rightarrow> None
             | d # ds \<Rightarrow> if d = CHR '']'' then Some (AArr [], ds) else load_items n [] (d # ds))
          else load_scalar s)"
| "load_items 0 acc s = None"
| "load_items (Suc n) acc s =
     (case load_value n s of
        None \<Rightarrow> None
      | Some (v, r) \<Rightarrow>
          (case skip_ws r of
             [] \<Rightarrow> None
           | d # ds \<Rightarrow>
               if d = CHR '']'' then Some (AArr (acc @ [v]), ds)
               else if d = CHR '','' then load_items n (acc @ [v]) (skip_ws ds)
               else None))"
| "load_members 0 acc s = None"
| "load_members (Suc n) acc s =
     (case s of
        [] \<Rightarrow> None
      | c # cs \<Rightarrow>
          if c \<noteq> DQ then None
          else
            (case pstring cs of
               None \<Rightarrow> None
             | Some (k, r) \<Rightarrow>
                 (case skip_ws r of
                    [] \<Rightarrow> None
                  | d # ds \<Rightarrow>
                      if d \<noteq> CHR '':'' then None
                      else
                        (case load_value n (skip_ws ds) of
                           None \<Rightarrow> None
                         | Some (v, r2) \<Rightarrow>
                             (case skip_ws r2 of
                                [] \<Rightarrow> None
                              | e # es \<Rightarrow>
                                  if e = CHR ''}'' then map_option (\<lambda>ob. (ob, es)) (strict_object (acc @ [(k, v)]))
                                  else if e = CHR '','' then load_members n (acc @ [(k, v)]) (skip_ws es)
                                  else None)))))"

definition loads_json :: "string \<Rightarrow> artifact option" where
  "loads_json source =
     (case load_value (Suc (length source)) (skip_ws source) of
        None \<Rightarrow> None
      | Some (v, r) \<Rightarrow> if skip_ws r = [] then Some v else None)"

definition SELF_HASH_FIELDS :: "string list" where
  "SELF_HASH_FIELDS = [''artifact_sha256'', ''manifest_sha256'', ''attestation_sha256'']"

section \<open>Canonical text\<close>

definition digit_text :: "nat list \<Rightarrow> string" where
  "digit_text ds = concat (map nat_digits ds)"

definition zeros :: "int \<Rightarrow> string" where
  "zeros n = replicate (nat n) (CHR ''0'')"

definition plain_decimal :: "nat list \<Rightarrow> int \<Rightarrow> string" where
  "plain_decimal ds e =
     (let digits = digit_text ds in
      if e \<ge> 0 then digits @ zeros e
      else
        let point = int (length digits) + e;
            body = (if point > 0 then take (nat point) digits @ ''.'' @ drop (nat point) digits
                    else ''0.'' @ zeros (- point) @ digits)
        in rstrip_chars ''.'' (rstrip_chars ''0'' body))"

fun canonical_number :: "number \<Rightarrow> string result" where
  "canonical_number (Whole i) = Return (str_int i)"
| "canonical_number (NonFinite shown) = Raise (ValueError (''non-finite JSON number is not canonical: '' @ shown))"
| "canonical_number (Fixed negative ds e) =
     (if list_all (\<lambda>d. d = 0) ds then Return ''0''
      else Return ((if negative then ''-'' else []) @ plain_decimal ds e))"

text \<open>The texts are kept as characters until the end, where they are encoded.\<close>

definition canonical_string :: "string \<Rightarrow> string" where
  "canonical_string s = dumps_str False s"

definition object_member :: "string \<times> string \<Rightarrow> string" where
  "object_member kt = canonical_string (fst kt) @ '':'' @ snd kt"

fun duplicate_key :: "string list \<Rightarrow> string list \<Rightarrow> string option" where
  "duplicate_key seen [] = None"
| "duplicate_key seen (k # ks) = (if k \<in> set seen then Some k else duplicate_key (k # seen) ks)"

text \<open>Members are encoded in the order of their keys; the first that raises stops.\<close>

definition by_key :: "(string \<times> 'a) list \<Rightarrow> (string \<times> 'a) list" where
  "by_key d = sort_key (\<lambda>kv. utf8 (fst kv)) d"

lemma mapR_cong [fundef_cong]:
  "xs = ys \<Longrightarrow> (\<And>x. x \<in> set ys \<Longrightarrow> f x = g x) \<Longrightarrow> mapR f xs = mapR g ys"
  by (induction xs arbitrary: ys) auto

fun canonical :: "artifact \<Rightarrow> string result" where
  "canonical ANull = Return ''null''"
| "canonical (ABool b) = Return (if b then ''true'' else ''false'')"
| "canonical (ANum n) = canonical_number n"
| "canonical (AStr s) = Return (canonical_string s)"
| "canonical (AArr xs) = bindR (mapR canonical xs) (\<lambda>ts. Return (''['' @ join '','' ts @ '']''))"
| "canonical (AObj d) =
     (case duplicate_key [] (map fst d) of
        Some k \<Rightarrow> Raise (ValueError (''duplicate JSON object key: '' @ [SQ] @ k @ [SQ]))
      | None \<Rightarrow>
          bindR (mapR (\<lambda>(k, r). bindR r (\<lambda>t. Return (k, t))) (by_key (map (\<lambda>(k, v). (k, canonical v)) d)))
            (\<lambda>kts. Return (''{'' @ join '','' (map object_member kts) @ ''}'')))"

definition canonical_json :: "artifact \<Rightarrow> nat list result" where
  "canonical_json v = bindR (canonical v) (\<lambda>t. Return (utf8 t))"

section \<open>Digest of an artifact\<close>

definition present_fields :: "members \<Rightarrow> string list" where
  "present_fields d = sort (filter (\<lambda>f. map_of d f \<noteq> None) SELF_HASH_FIELDS)"

definition artifact_body_v1 :: "artifact \<Rightarrow> artifact result" where
  "artifact_body_v1 v =
     (case v of
        AObj d \<Rightarrow>
          (let present = present_fields d in
           if 1 < length present then Raise (ValueError (''artifact has multiple self-hash fields: '' @ join '', '' present))
           else case present of
             [] \<Rightarrow> Return v
           | f # _ \<Rightarrow> Return (AObj (AList.delete f d)))
      | _ \<Rightarrow> Return v)"

definition canonical_artifact_hash_v1 :: "artifact \<Rightarrow> string result" where
  "canonical_artifact_hash_v1 v =
     bindR (artifact_body_v1 v) (\<lambda>body. bindR (canonical_json body) (\<lambda>bytes. Return (sha256_hex bytes)))"

section \<open>Comparison\<close>

definition artifacts_equal :: "artifact \<Rightarrow> artifact \<Rightarrow> bool result" where
  "artifacts_equal a b =
     bindR (canonical_artifact_hash_v1 a) (\<lambda>x. bindR (canonical_artifact_hash_v1 b) (\<lambda>y. Return (x = y)))"

definition pointer_escape :: "string \<Rightarrow> string" where
  "pointer_escape component = replace ''/'' ''~1'' (replace ''~'' ''~0'' component)"

definition pointer_child :: "string \<Rightarrow> string \<Rightarrow> string" where
  "pointer_child path component = path @ ''/'' @ pointer_escape component"

definition key_union :: "members \<Rightarrow> members \<Rightarrow> string list" where
  "key_union old new = sort_key utf8 (remdups (map fst old @ map fst new))"

lemma member_smaller: "map_of d k = Some v \<Longrightarrow> size v < size (AObj d)"
  by (induction d) (auto split: if_splits)

function first_divergence :: "artifact \<Rightarrow> artifact \<Rightarrow> string \<Rightarrow> string option result"
  and key_divergence :: "members \<Rightarrow> members \<Rightarrow> string \<Rightarrow> string list \<Rightarrow> string option result"
  and item_divergence :: "artifact list \<Rightarrow> artifact list \<Rightarrow> string \<Rightarrow> nat \<Rightarrow> string option result" where
  "first_divergence old new path =
     (case (canonical_json old, canonical_json new) of
        (Inl e, _) \<Rightarrow> Raise e
      | (Inr _, Inl e) \<Rightarrow> Raise e
      | (Inr a, Inr b) \<Rightarrow>
          if a = b then Return None
          else (case (old, new) of
             (AObj d, AObj e) \<Rightarrow> key_divergence d e path (key_union d e)
           | (AArr xs, AArr ys) \<Rightarrow> item_divergence xs ys path 0
           | _ \<Rightarrow> Return (Some path)))"
| "key_divergence d e path [] = Return (Some path)"
| "key_divergence d e path (k # ks) =
     (case (map_of d k, map_of e k) of
        (Some v, Some w) \<Rightarrow>
          (case first_divergence v w (pointer_child path k) of
             Inl err \<Rightarrow> Raise err
           | Inr (Some p) \<Rightarrow> Return (Some p)
           | Inr None \<Rightarrow> key_divergence d e path ks)
      | _ \<Rightarrow> Return (Some (pointer_child path k)))"
| "item_divergence (x # xs) (y # ys) path i =
     (case first_divergence x y (pointer_child path (str_int (int i))) of
        Inl err \<Rightarrow> Raise err
      | Inr (Some p) \<Rightarrow> Return (Some p)
      | Inr None \<Rightarrow> item_divergence xs ys path (Suc i))"
| "item_divergence [] [] path i = Return (Some path)"
| "item_divergence [] (y # ys) path i = Return (Some (pointer_child path (str_int (int i))))"
| "item_divergence (x # xs) [] path i = Return (Some (pointer_child path (str_int (int i))))"
  by pat_completeness auto

termination
  by (relation "inv_image (less_than <*lex*> less_than <*lex*> less_than)
       (\<lambda>x. case x of Inl (old, _, _) \<Rightarrow> (size old, 1, 0)
         | Inr (Inl (d, _, _, ks)) \<Rightarrow> (size (AObj d), 0, length ks)
         | Inr (Inr (xs, _, _, _)) \<Rightarrow> (size (AArr xs), 0, 0))")
    (auto dest: member_smaller [OF sym])

record compare_report =
  report_equal :: bool
  old_hash :: string
  new_hash :: string
  report_divergence :: "string option option" \<comment> \<open>the key is present exactly when the hashes differ\<close>

definition compare_report_of :: "artifact \<Rightarrow> artifact \<Rightarrow> compare_report result" where
  "compare_report_of old new =
     bindR (canonical_artifact_hash_v1 old) (\<lambda>a.
     bindR (canonical_artifact_hash_v1 new) (\<lambda>b.
     if a = b then Return \<lparr>report_equal = True, old_hash = a, new_hash = b, report_divergence = None\<rparr>
     else
       bindR (artifact_body_v1 old) (\<lambda>old_body.
       bindR (artifact_body_v1 new) (\<lambda>new_body.
       bindR (first_divergence old_body new_body []) (\<lambda>p.
       Return \<lparr>report_equal = False, old_hash = a, new_hash = b, report_divergence = Some p\<rparr>)))))"

section \<open>Canonical texts are read back\<close>

lemma duplicate_key_None: "duplicate_key seen ks = None \<longleftrightarrow> distinct ks \<and> set ks \<inter> set seen = {}"
  by (induction seen ks rule: duplicate_key.induct) auto

lemma by_key_map: "by_key (map (\<lambda>(k, v). (k, f v)) d) = map (\<lambda>(k, v). (k, f v)) (by_key d)"
proof -
  have "insort_key (\<lambda>kv. utf8 (fst kv)) (k, f v) (map (\<lambda>(k, v). (k, f v)) xs)
      = map (\<lambda>(k, v). (k, f v)) (insort_key (\<lambda>kv. utf8 (fst kv)) (k, v) xs)" for k v xs
    by (induction xs) auto
  then show ?thesis by (induction d) (auto simp: by_key_def)
qed

lemma utf8_char_inject: "utf8_char c @ x = utf8_char d @ y \<Longrightarrow> c = d \<and> x = y"
proof -
  assume eq: "utf8_char c @ x = utf8_char d @ y"
  have "ord c = ord d \<or> ord c div 64 = ord d div 64 \<and> ord c mod 64 = ord d mod 64" "x = y"
    using eq by (auto simp: utf8_char_def Let_def split: if_splits)
  moreover from this(1) have "ord c = ord d" by (metis mult_div_mod_eq)
  ultimately show ?thesis by simp
qed

lemma utf8_char_nonempty [simp]: "utf8_char c \<noteq> []"
  by (simp add: utf8_char_def Let_def)

lemma utf8_inject: "utf8 s = utf8 t \<longleftrightarrow> s = t"
proof
  assume "utf8 s = utf8 t"
  then show "s = t"
  proof (induction s arbitrary: t)
    case Nil
    then show ?case by (cases t) (auto simp: utf8_def)
  next
    case (Cons c s)
    then obtain d u where t: "t = d # u" by (cases t) (auto simp: utf8_def)
    from Cons.prems have "utf8_char c @ utf8 s = utf8_char d @ utf8 u" by (simp add: t utf8_def)
    from utf8_char_inject [OF this] Cons.IH t show ?case by simp
  qed
qed simp

definition number_char :: "char \<Rightarrow> bool" where
  "number_char c \<longleftrightarrow> is_decimal c \<or> c = CHR ''-'' \<or> c = CHR ''.''"

lemma digit_text_decimal: "list_all is_decimal (digit_text ds)"
  using nat_digits_decimal by (auto simp: digit_text_def list_all_iff)

lemma rstrip_chars_keep: "c \<in> set s \<Longrightarrow> c \<notin> set cs \<Longrightarrow> c \<in> set (rstrip_chars cs s)"
proof -
  assume c: "c \<in> set s" "c \<notin> set cs"
  have "c \<in> set (takeWhile (\<lambda>c. c \<in> set cs) (rev s)) \<union> set (dropWhile (\<lambda>c. c \<in> set cs) (rev s))"
    using c(1) by (metis set_append takeWhile_dropWhile_id set_rev)
  with c(2) have "c \<in> set (dropWhile (\<lambda>c. c \<in> set cs) (rev s))" by (auto dest: set_takeWhileD)
  then show ?thesis by (simp add: rstrip_chars_def)
qed

definition unstripped :: "string \<Rightarrow> int \<Rightarrow> string" where
  "unstripped digits point =
     (if point > 0 then take (nat point) digits @ ''.'' @ drop (nat point) digits else ''0.'' @ zeros (- point) @ digits)"

lemma plain_decimal_cases:
  "plain_decimal ds e = (if e \<ge> 0 then digit_text ds @ zeros e
     else rstrip_chars ''.'' (rstrip_chars ''0'' (unstripped (digit_text ds) (int (length (digit_text ds)) + e))))"
  by (simp add: plain_decimal_def unstripped_def Let_def)

lemma set_unstripped: "set (unstripped digits point) \<subseteq> {CHR ''0'', CHR ''.''} \<union> set digits" "set digits \<subseteq> set (unstripped digits point)"
proof -
  show "set (unstripped digits point) \<subseteq> {CHR ''0'', CHR ''.''} \<union> set digits"
    by (auto simp: unstripped_def zeros_def dest: in_set_takeD in_set_dropD)
  have "set digits \<subseteq> set (take (nat point) digits) \<union> set (drop (nat point) digits)"
    by (metis append_take_drop_id set_append order_refl)
  then show "set digits \<subseteq> set (unstripped digits point)" by (auto simp: unstripped_def)
qed

lemma plain_decimal_text:
  assumes "\<not> list_all (\<lambda>d. d = 0) ds"
  shows "plain_decimal ds e \<noteq> []" "list_all number_char (plain_decimal ds e)"
proof -
  obtain d where d: "d \<in> set ds" "d \<noteq> 0" using assms by (auto simp: list_all_iff)
  define c where "c = hd (nat_digits d)"
  have "c \<in> set (nat_digits d)" using nat_digits_nonempty by (simp add: c_def)
  then have c: "c \<in> set (digit_text ds)" "c \<noteq> CHR ''0''"
    using d nat_digits_head [OF d(2)] by (auto simp: digit_text_def c_def [symmetric])
  with digit_text_decimal [of ds] have "c \<noteq> CHR ''.''" by (auto simp: list_all_iff is_decimal_def)
  then have "c \<in> set (plain_decimal ds e)"
    using c set_unstripped(2) by (auto simp: plain_decimal_cases intro!: rstrip_chars_keep)
  then show "plain_decimal ds e \<noteq> []" by auto
  have "set (plain_decimal ds e) \<subseteq> {CHR ''0'', CHR ''.''} \<union> set (digit_text ds)"
  proof (cases "e \<ge> 0")
    case False
    let ?body = "unstripped (digit_text ds) (int (length (digit_text ds)) + e)"
    have "set (rstrip_chars ''.'' (rstrip_chars ''0'' ?body)) \<subseteq> set ?body"
      using set_rstrip_chars [of "''.''" "rstrip_chars ''0'' ?body"] set_rstrip_chars [of "''0''" ?body] by blast
    with False set_unstripped(1) show ?thesis by (simp add: plain_decimal_cases) blast
  qed (auto simp: plain_decimal_cases zeros_def)
  then show "list_all number_char (plain_decimal ds e)"
    using digit_text_decimal [of ds] by (auto simp: list_all_iff number_char_def is_decimal_def)
qed

lemma canonical_number_text:
  assumes "canonical_number n = Inr t"
  shows "t \<noteq> [] \<and> list_all number_char t"
proof (cases n)
  case (Whole i)
  have "list_all number_char (str_int i)" "str_int i \<noteq> []"
    using nat_digits_decimal by (auto simp: str_int_def list_all_iff number_char_def)
  with Whole assms show ?thesis by simp
next
  case (Fixed negative ds e)
  with assms plain_decimal_text [of ds e] show ?thesis
    by (auto simp: number_char_def is_decimal_def split: if_splits)
qed (use assms in simp)

section \<open>Values with the same text\<close>

inductive same :: "artifact \<Rightarrow> artifact \<Rightarrow> bool" where
  same_null: "same ANull ANull"
| same_bool: "same (ABool b) (ABool b)"
| same_number: "canonical_number m = canonical_number n \<Longrightarrow> same (ANum m) (ANum n)"
| same_string: "same (AStr s) (AStr s)"
| same_array: "list_all2 same xs ys \<Longrightarrow> same (AArr xs) (AArr ys)"
| same_object: "(\<And>k. rel_option same (map_of d k) (map_of e k)) \<Longrightarrow> same (AObj d) (AObj e)"
  monos list_all2_mono option.rel_mono

text \<open>A text that can follow a value.\<close>

definition stops :: "string \<Rightarrow> bool" where
  "stops x \<longleftrightarrow> x = [] \<or> hd x \<in> {CHR '','', CHR '']'', CHR ''}''}"

definition decodable :: "artifact \<Rightarrow> bool" where
  "decodable v \<longleftrightarrow>
     (\<forall>w s t x y. canonical v = Inr s \<longrightarrow> canonical w = Inr t \<longrightarrow> stops x \<longrightarrow> stops y \<longrightarrow> s @ x = t @ y \<longrightarrow> same v w \<and> x = y)"

lemma canonical_string_inject: "canonical_string s @ x = canonical_string t @ y \<Longrightarrow> s = t \<and> x = y"
proof -
  assume "canonical_string s @ x = canonical_string t @ y"
  then have "pstring (concat (map (escape_char False) s) @ DQ # x) = pstring (concat (map (escape_char False) t) @ DQ # y)"
    by (simp add: canonical_string_def dumps_str_def)
  then show ?thesis by (simp add: pstring_escapes)
qed

text \<open>The first character tells the kind of a value.\<close>

fun kind_char :: "artifact \<Rightarrow> char \<Rightarrow> bool" where
  "kind_char ANull c = (c = CHR ''n'')"
| "kind_char (ABool b) c = (c = (if b then CHR ''t'' else CHR ''f''))"
| "kind_char (ANum n) c = number_char c"
| "kind_char (AStr s) c = (c = DQ)"
| "kind_char (AArr xs) c = (c = CHR ''['')"
| "kind_char (AObj d) c = (c = CHR ''{'')"

lemma canonical_head: "canonical v = Inr s \<Longrightarrow> \<exists>c cs. s = c # cs \<and> kind_char v c"
proof (cases v)
  case (ANum n)
  assume "canonical v = Inr s"
  with ANum canonical_number_text [of n s] show ?thesis by (cases s) auto
qed (auto simp: canonical_string_def dumps_str_def bindR_eq_Inr split: option.splits)

lemma number_char_kinds: "number_char c \<Longrightarrow> c \<notin> {CHR ''n'', CHR ''t'', CHR ''f'', DQ, CHR ''['', CHR ''{'', CHR '','', CHR '']'', CHR ''}''}"
  by (auto simp: number_char_def is_decimal_def)

lemma canonical_head_stop: "canonical v = Inr s \<Longrightarrow> s \<noteq> [] \<and> hd s \<notin> {CHR '','', CHR '']'', CHR ''}''}"
  using canonical_head [of v s] number_char_kinds by (cases v) (auto split: if_splits)

lemma number_split:
  assumes "list_all number_char s" "list_all number_char t" "stops x" "stops y" "s @ x = t @ y"
  shows "s = t \<and> x = y"
proof -
  have cut: "takeWhile number_char (u @ z) = u" if "list_all number_char u" "stops z" for u z
    using that number_char_kinds by (induction u) (auto simp: stops_def takeWhile_eq_Nil_iff)
  from cut [OF assms(1,3)] cut [OF assms(2,4)] assms(5) show ?thesis by (metis same_append_eq)
qed

lemma join_Cons: "join d (x # xs) = x @ (if xs = [] then [] else d @ join d xs)"
  by (cases xs) simp_all

lemma object_member_pair: "object_member (k, t) = canonical_string k @ '':'' @ t"
  by (simp add: object_member_def)

text \<open>What follows the first of several texts: a closing bracket, or a comma and the others.\<close>

definition after_first :: "string list \<Rightarrow> char \<Rightarrow> string \<Rightarrow> string" where
  "after_first ts close x = (if ts = [] then [] else '','' @ join '','' ts) @ close # x"

lemma stops_after_first: "close \<in> {CHR '']'', CHR ''}''} \<Longrightarrow> stops (after_first ts close x)"
  by (auto simp: stops_def after_first_def)

lemma after_first_inject:
  "close \<in> {CHR '']'', CHR ''}''} \<Longrightarrow> after_first ts close x = after_first us close y \<Longrightarrow>
     (ts = [] \<longleftrightarrow> us = []) \<and> join '','' ts @ close # x = join '','' us @ close # y"
  by (auto simp: after_first_def split: if_splits)

lemma items_decodable:
  "list_all decodable xs \<Longrightarrow> mapR canonical xs = Inr ts \<Longrightarrow> mapR canonical ys = Inr us \<Longrightarrow>
     join '','' ts @ CHR '']'' # x = join '','' us @ CHR '']'' # y \<Longrightarrow> list_all2 same xs ys \<and> x = y"
proof (induction xs arbitrary: ys ts us)
  case Nil
  show ?case
  proof (cases ys)
    case (Cons b bs)
    with Nil.prems(3) obtain u us' where u: "us = u # us'" "canonical b = Inr u" by (auto simp: bindR_eq_Inr)
    with Nil.prems(2,4) canonical_head_stop [of b u] show ?thesis by (cases u) (auto simp: join_Cons)
  qed (use Nil in simp)
next
  case (Cons a xs)
  from Cons.prems(2) obtain t ts' where t: "ts = t # ts'" "canonical a = Inr t" "mapR canonical xs = Inr ts'" by (auto simp: bindR_eq_Inr)
  show ?case
  proof (cases ys)
    case Nil
    with t Cons.prems(3,4) canonical_head_stop [of a t] show ?thesis by (cases t) (auto simp: join_Cons)
  next
    case ys: (Cons b bs)
    with Cons.prems(3) obtain u us' where u: "us = u # us'" "canonical b = Inr u" "mapR canonical bs = Inr us'" by (auto simp: bindR_eq_Inr)
    have "t @ after_first ts' (CHR '']'') x = u @ after_first us' (CHR '']'') y"
      using Cons.prems(4) by (simp add: t u join_Cons after_first_def)
    then have ab: "same a b" and rest: "after_first ts' (CHR '']'') x = after_first us' (CHR '']'') y"
      using Cons.prems(1) t(2) u(2) stops_after_first [of "CHR '']''"] unfolding decodable_def list.pred_inject by blast+
    from after_first_inject [OF _ rest] have "join '','' ts' @ CHR '']'' # x = join '','' us' @ CHR '']'' # y" by simp
    with Cons.IH [OF _ t(3) u(3)] Cons.prems(1) ab ys show ?thesis by simp
  qed
qed

definition encoded_member :: "string \<times> artifact \<Rightarrow> (string \<times> string) result" where
  "encoded_member kv = bindR (canonical (snd kv)) (\<lambda>t. Return (fst kv, t))"

definition same_member :: "string \<times> artifact \<Rightarrow> string \<times> artifact \<Rightarrow> bool" where
  "same_member kv lw \<longleftrightarrow> fst kv = fst lw \<and> same (snd kv) (snd lw)"

lemma encoded_member_Inr: "encoded_member kv = Inr kt \<longleftrightarrow> (\<exists>t. canonical (snd kv) = Inr t \<and> kt = (fst kv, t))"
  by (auto simp: encoded_member_def bindR_eq_Inr)

lemma members_decodable:
  "list_all (\<lambda>kv. decodable (snd kv)) ps \<Longrightarrow> mapR encoded_member ps = Inr ts \<Longrightarrow> mapR encoded_member qs = Inr us \<Longrightarrow>
     join '','' (map object_member ts) @ CHR ''}'' # x = join '','' (map object_member us) @ CHR ''}'' # y \<Longrightarrow>
     list_all2 same_member ps qs \<and> x = y"
proof (induction ps arbitrary: qs ts us)
  case Nil
  show ?case
  proof (cases qs)
    case (Cons b bs)
    with Nil show ?thesis by (auto simp: bindR_eq_Inr join_Cons object_member_pair canonical_string_def dumps_str_def)
  qed (use Nil in simp)
next
  case (Cons a ps)
  from Cons.prems(2) obtain t ts' where t: "ts = (fst a, t) # ts'" "canonical (snd a) = Inr t" "mapR encoded_member ps = Inr ts'"
    by (auto simp: encoded_member_Inr bindR_eq_Inr)
  show ?case
  proof (cases qs)
    case Nil
    with t Cons.prems(3,4) show ?thesis by (auto simp: join_Cons object_member_pair canonical_string_def dumps_str_def)
  next
    case qs: (Cons b bs)
    with Cons.prems(3) obtain u us' where u: "us = (fst b, u) # us'" "canonical (snd b) = Inr u" "mapR encoded_member bs = Inr us'"
      by (auto simp: encoded_member_Inr bindR_eq_Inr)
    have "canonical_string (fst a) @ '':'' @ t @ after_first (map object_member ts') (CHR ''}'') x
        = canonical_string (fst b) @ '':'' @ u @ after_first (map object_member us') (CHR ''}'') y"
      using Cons.prems(4) by (simp add: t u join_Cons after_first_def object_member_pair)
    from canonical_string_inject [OF this] have key: "fst a = fst b"
      and rest: "t @ after_first (map object_member ts') (CHR ''}'') x = u @ after_first (map object_member us') (CHR ''}'') y" by simp_all
    then have ab: "same (snd a) (snd b)"
      and rest: "after_first (map object_member ts') (CHR ''}'') x = after_first (map object_member us') (CHR ''}'') y"
      using Cons.prems(1) t(2) u(2) stops_after_first [of "CHR ''}''"] unfolding decodable_def list.pred_inject by blast+
    from after_first_inject [OF _ rest]
    have "join '','' (map object_member ts') @ CHR ''}'' # x = join '','' (map object_member us') @ CHR ''}'' # y" by simp
    with Cons.IH [OF _ t(3) u(3)] Cons.prems(1) ab key qs show ?thesis by (simp add: same_member_def)
  qed
qed

text \<open>The members of an object in the order of their keys.\<close>

lemma mapR_comp: "mapR f (map g xs) = mapR (f \<circ> g) xs"
  by (induction xs) simp_all

lemma canonical_object:
  "canonical (AObj d) = Inr s \<longleftrightarrow>
     distinct (map fst d) \<and> (\<exists>ts. mapR encoded_member (by_key d) = Inr ts \<and> s = ''{'' @ join '','' (map object_member ts) @ ''}'')"
proof -
  have "(\<lambda>(k, r). bindR r (\<lambda>t. Return (k, t))) \<circ> (\<lambda>(k, v). (k, canonical v)) = encoded_member"
    by (auto simp: encoded_member_def)
  then have "mapR (\<lambda>(k, r). bindR r (\<lambda>t. Return (k, t))) (by_key (map (\<lambda>(k, v). (k, canonical v)) d)) = mapR encoded_member (by_key d)"
    by (simp only: by_key_map mapR_comp)
  then show ?thesis using duplicate_key_None [of "[]" "map fst d"] by (auto simp: bindR_eq_Inr split: option.splits)
qed

lemma by_key_facts: "set (by_key d) = set d" "distinct (map fst (by_key d)) \<longleftrightarrow> distinct (map fst d)"
proof -
  show "set (by_key d) = set d" by (simp add: by_key_def)
  have "map fst (by_key d) = sort_key utf8 (map fst d)"
  proof -
    have "insort_key utf8 (fst kv) (map fst xs) = map fst (insort_key (\<lambda>kv. utf8 (fst kv)) kv xs)" for kv and xs :: "(string \<times> 'a) list"
      by (induction xs) auto
    then show ?thesis by (induction d) (auto simp: by_key_def)
  qed
  then show "distinct (map fst (by_key d)) \<longleftrightarrow> distinct (map fst d)" by simp
qed

lemma map_of_by_key: "distinct (map fst d) \<Longrightarrow> map_of (by_key d) = map_of d"
  using by_key_facts [of d] by (intro map_of_inject_set [THEN iffD2]) simp_all

lemma same_members_map: "list_all2 same_member ps qs \<Longrightarrow> rel_option same (map_of ps k) (map_of qs k)"
  by (induction rule: list_all2_induct) (auto simp: same_member_def)

lemma all_decodable: "decodable v"
proof (induction v)
  case ANull
  show ?case unfolding decodable_def
  proof (intro allI impI)
    fix w s t x y assume a: "canonical ANull = Inr s" "canonical w = Inr t" "stops x" "stops y" "s @ x = t @ y"
    then show "same ANull w \<and> x = y" using canonical_head [OF a(2)] by (cases w) (auto simp: number_char_def is_decimal_def split: if_splits intro: same_null)
  qed
next
  case (ABool b)
  show ?case unfolding decodable_def
  proof (intro allI impI)
    fix w s t x y assume a: "canonical (ABool b) = Inr s" "canonical w = Inr t" "stops x" "stops y" "s @ x = t @ y"
    then show "same (ABool b) w \<and> x = y"
      using canonical_head [OF a(2)] by (cases w) (auto simp: number_char_def is_decimal_def split: if_splits intro: same_bool)
  qed
next
  case (ANum n)
  show ?case unfolding decodable_def
  proof (intro allI impI)
    fix w s t x y assume a: "canonical (ANum n) = Inr s" "canonical w = Inr t" "stops x" "stops y" "s @ x = t @ y"
    from a(1) have s: "s \<noteq> []" "list_all number_char s" using canonical_number_text by auto
    obtain c cs where t: "t = c # cs" "kind_char w c" using canonical_head [OF a(2)] by blast
    have "number_char c" using a(5) s t by (cases s) auto
    with t(2) number_char_kinds [of c] obtain m where w: "w = ANum m" by (cases w) (auto split: if_splits)
    with a have "s = t \<and> x = y" using canonical_number_text s(2) by (intro number_split) auto
    with a w show "same (ANum n) w \<and> x = y" by (auto intro!: same_number)
  qed
next
  case (AStr u)
  show ?case unfolding decodable_def
  proof (intro allI impI)
    fix w s t x y assume a: "canonical (AStr u) = Inr s" "canonical w = Inr t" "stops x" "stops y" "s @ x = t @ y"
    obtain c cs where t: "t = c # cs" "kind_char w c" using canonical_head [OF a(2)] by blast
    have "c = DQ" using a(1,5) t by (auto simp: canonical_string_def dumps_str_def)
    with t(2) number_char_kinds [of c] obtain m where w: "w = AStr m" by (cases w) (auto split: if_splits)
    with a show "same (AStr u) w \<and> x = y" using canonical_string_inject [of u x m y] by (auto intro: same_string)
  qed
next
  case (AArr xs)
  show ?case unfolding decodable_def
  proof (intro allI impI)
    fix w s t x y assume a: "canonical (AArr xs) = Inr s" "canonical w = Inr t" "stops x" "stops y" "s @ x = t @ y"
    from a(1) obtain ts where ts: "mapR canonical xs = Inr ts" "s = CHR ''['' # join '','' ts @ '']''" by (auto simp: bindR_eq_Inr)
    obtain c cs where t: "t = c # cs" "kind_char w c" using canonical_head [OF a(2)] by blast
    with a(5) ts number_char_kinds [of c] obtain ys where w: "w = AArr ys" by (cases w) (auto split: if_splits)
    with a(2) obtain us where us: "mapR canonical ys = Inr us" "t = CHR ''['' # join '','' us @ '']''" by (auto simp: bindR_eq_Inr)
    have "list_all2 same xs ys \<and> x = y" using AArr a(5) ts us by (intro items_decodable) (auto simp: list_all_iff)
    with w show "same (AArr xs) w \<and> x = y" by (auto intro: same_array)
  qed
next
  case (AObj d)
  show ?case unfolding decodable_def
  proof (intro allI impI)
    fix w s t x y assume a: "canonical (AObj d) = Inr s" "canonical w = Inr t" "stops x" "stops y" "s @ x = t @ y"
    from a(1) obtain ts where ts: "distinct (map fst d)" "mapR encoded_member (by_key d) = Inr ts" "s = CHR ''{'' # join '','' (map object_member ts) @ ''}''"
      unfolding canonical_object by auto
    obtain c cs where t: "t = c # cs" "kind_char w c" using canonical_head [OF a(2)] by blast
    with a(5) ts(3) number_char_kinds [of c] obtain e where w: "w = AObj e" by (cases w) (auto split: if_splits)
    from a(2) obtain us where us: "distinct (map fst e)" "mapR encoded_member (by_key e) = Inr us" "t = CHR ''{'' # join '','' (map object_member us) @ ''}''"
      unfolding w canonical_object by auto
    have "list_all (\<lambda>kv. decodable (snd kv)) (by_key d)" using AObj by (auto simp: list_all_iff by_key_facts)
    then have "list_all2 same_member (by_key d) (by_key e) \<and> x = y" using a(5) ts us by (intro members_decodable) auto
    then show "same (AObj d) w \<and> x = y"
      unfolding w using same_members_map [of "by_key d" "by_key e"] ts(1) us(1) by (auto simp: map_of_by_key intro: same_object)
  qed
qed

lemma canonical_array: "canonical (AArr xs) = Inr s \<longleftrightarrow> (\<exists>ts. mapR canonical xs = Inr ts \<and> s = ''['' @ join '','' ts @ '']'')"
  by (auto simp: bindR_eq_Inr)

text \<open>Sorted member lists of objects that agree as maps have the same keys at the same places.\<close>

lemma by_key_keys:
  fixes d e :: "members"
  assumes "distinct (map fst d)" "distinct (map fst e)" "fst ` set d = fst ` set e"
  shows "map fst (by_key d) = map fst (by_key e)"
proof -
  have sorted: "sorted (map utf8 (map fst (by_key z)))" for z :: "members"
    using sorted_sort_key [of "\<lambda>kv. utf8 (fst kv)" z] by (simp add: by_key_def comp_def)
  have inj: "inj_on utf8 A" for A using utf8_inject by (auto intro: inj_onI)
  have distinct: "distinct (map utf8 (map fst (by_key z)))" if "distinct (map fst z)" for z :: "members"
    using that by_key_facts(2) [of z] inj by (subst distinct_map) simp
  show ?thesis
  proof (rule map_sorted_distinct_set_unique [of utf8])
    show "set (map fst (by_key d)) = set (map fst (by_key e))" using assms(3) by (simp add: by_key_facts)
    show "inj_on utf8 (set (map fst (by_key d)) \<union> set (map fst (by_key e)))" by (rule inj)
    show "sorted (map utf8 (map fst (by_key d)))" by (rule sorted)
    show "sorted (map utf8 (map fst (by_key e)))" by (rule sorted)
    show "distinct (map utf8 (map fst (by_key d)))" using assms(1) by (rule distinct)
    show "distinct (map utf8 (map fst (by_key e)))" using assms(2) by (rule distinct)
  qed
qed

lemma same_object_members:
  assumes "distinct (map fst d)" "distinct (map fst e)" "\<And>k. rel_option same (map_of d k) (map_of e k)"
  shows "list_all2 same_member (by_key d) (by_key e)"
proof -
  have "fst ` set d = fst ` set e"
  proof -
    have "k \<in> fst ` set d \<longleftrightarrow> k \<in> fst ` set e" for k
      using assms(3) [of k] by (metis map_of_eq_None_iff option.rel_sel)
    then show ?thesis by blast
  qed
  with assms have keys: "map fst (by_key d) = map fst (by_key e)" by (intro by_key_keys)
  then have len: "length (by_key d) = length (by_key e)" by (metis length_map)
  have "same_member (by_key d ! i) (by_key e ! i)" if "i < length (by_key d)" for i
  proof -
    have key: "fst (by_key d ! i) = fst (by_key e ! i)" using keys that len by (metis nth_map)
    have d: "map_of d (fst (by_key d ! i)) = Some (snd (by_key d ! i))"
      using that assms(1) by_key_facts(1) [of d] nth_mem [OF that] by (auto intro: map_of_is_SomeI)
    have e: "map_of e (fst (by_key e ! i)) = Some (snd (by_key e ! i))"
      using that len assms(2) by_key_facts(1) [of e] nth_mem [of i "by_key e"] by (auto intro: map_of_is_SomeI)
    from assms(3) [of "fst (by_key d ! i)"] d e key show ?thesis by (simp add: same_member_def)
  qed
  with len show ?thesis by (simp add: list_all2_conv_all_nth)
qed

lemma same_texts:
  "list_all2 (\<lambda>v w. \<forall>s t. canonical v = Inr s \<longrightarrow> canonical w = Inr t \<longrightarrow> s = t) xs ys \<Longrightarrow>
     mapR canonical xs = Inr ts \<Longrightarrow> mapR canonical ys = Inr us \<Longrightarrow> ts = us"
  by (induction xs ys arbitrary: ts us rule: list_all2_induct) (auto simp: bindR_eq_Inr)

lemma same_member_texts:
  "list_all2 (\<lambda>p q. fst p = fst q \<and> (\<forall>s t. canonical (snd p) = Inr s \<longrightarrow> canonical (snd q) = Inr t \<longrightarrow> s = t)) ps qs \<Longrightarrow>
     mapR encoded_member ps = Inr ts \<Longrightarrow> mapR encoded_member qs = Inr us \<Longrightarrow> ts = us"
  by (induction ps qs arbitrary: ts us rule: list_all2_induct) (auto simp: bindR_eq_Inr encoded_member_Inr)

inductive_cases same_arrayE: "same (AArr xs) w"
inductive_cases same_objectE: "same (AObj d) w"

lemma same_canonical: "same v w \<Longrightarrow> canonical v = Inr s \<Longrightarrow> canonical w = Inr t \<Longrightarrow> s = t"
proof (induction v arbitrary: w s t)
  case (AArr xs)
  from AArr.prems(1) obtain ys where w: "w = AArr ys" and ys: "list_all2 same xs ys" by (rule same_arrayE)
  have "list_all2 (\<lambda>v w. \<forall>s t. canonical v = Inr s \<longrightarrow> canonical w = Inr t \<longrightarrow> s = t) xs ys"
    using ys by (rule list.rel_mono_strong) (use AArr.IH in blast)
  with AArr.prems(2,3) show ?case unfolding w canonical_array using same_texts by blast
next
  case (AObj d)
  from AObj.prems(1) obtain e where w: "w = AObj e" and e: "\<And>k. rel_option same (map_of d k) (map_of e k)" by (rule same_objectE) auto
  from AObj.prems(2,3) have keys: "distinct (map fst d)" "distinct (map fst e)" unfolding w canonical_object by blast+
  have "list_all2 same_member (by_key d) (by_key e)" using keys e by (rule same_object_members)
  then have "list_all2 (\<lambda>p q. fst p = fst q \<and> (\<forall>s t. canonical (snd p) = Inr s \<longrightarrow> canonical (snd q) = Inr t \<longrightarrow> s = t)) (by_key d) (by_key e)"
  proof (rule list.rel_mono_strong)
    fix p q assume p: "p \<in> set (by_key d)" and pq: "same_member p q"
    have "snd p \<in> Basic_BNFs.snds p" by (cases p) simp
    with p pq AObj.IH [of p "snd p" "snd q"] show "fst p = fst q \<and> (\<forall>s t. canonical (snd p) = Inr s \<longrightarrow> canonical (snd q) = Inr t \<longrightarrow> s = t)"
      by (auto simp: same_member_def by_key_facts)
  qed
  with AObj.prems(2,3) show ?case unfolding w canonical_object using same_member_texts by blast
qed (auto elim: same.cases)

lemma canonical_json_iff:
  assumes "canonical v = Inr s" "canonical w = Inr t"
  shows "canonical_json v = canonical_json w \<longleftrightarrow> same v w"
proof -
  have "canonical_json v = canonical_json w \<longleftrightarrow> s = t" using assms by (simp add: canonical_json_def utf8_inject)
  also have "\<dots> \<longleftrightarrow> same v w"
    using all_decodable [of v] same_canonical [OF _ assms] assms unfolding decodable_def stops_def by blast
  finally show ?thesis .
qed

section \<open>The pointer to a difference\<close>

text \<open>Two values differ at a list of components: a member or an item only one of them has, or values with different texts.\<close>

fun differ_at :: "artifact \<Rightarrow> artifact \<Rightarrow> string list \<Rightarrow> bool" where
  "differ_at v w [] \<longleftrightarrow> canonical_json v \<noteq> canonical_json w"
| "differ_at (AObj d) (AObj e) (c # cs) \<longleftrightarrow>
     (case (map_of d c, map_of e c) of
        (Some v, Some w) \<Rightarrow> differ_at v w cs
      | (None, None) \<Rightarrow> False
      | _ \<Rightarrow> cs = [])"
| "differ_at (AArr xs) (AArr ys) (c # cs) \<longleftrightarrow>
     (\<exists>i. c = str_int (int i) \<and>
        (if i < length xs \<and> i < length ys then differ_at (xs ! i) (ys ! i) cs else cs = [] \<and> i = min (length xs) (length ys) \<and> length xs \<noteq> length ys))"
| "differ_at _ _ _ \<longleftrightarrow> False"

definition pointer :: "string list \<Rightarrow> string" where
  "pointer cs = concat (map (\<lambda>c. ''/'' @ pointer_escape c) cs)"

lemma pointer_child_pointer: "pointer_child path c @ pointer cs = path @ pointer (c # cs)" "pointer_child path c = path @ pointer [c]"
  by (simp_all add: pointer_child_def pointer_def)

lemma key_union_set: "set (key_union d e) = fst ` set d \<union> fst ` set e"
  by (simp add: key_union_def)

lemma first_divergence_Some:
  "first_divergence old new path = Inr r \<Longrightarrow>
     (canonical_json old = canonical_json new \<and> r = None \<or> (\<exists>cs. r = Some (path @ pointer cs) \<and> differ_at old new cs))"
  "key_divergence d e path ks = Inr r \<Longrightarrow> set ks \<subseteq> fst ` set d \<union> fst ` set e \<Longrightarrow> canonical_json (AObj d) \<noteq> canonical_json (AObj e) \<Longrightarrow>
     (\<exists>cs. r = Some (path @ pointer cs) \<and> differ_at (AObj d) (AObj e) cs)"
  "item_divergence xs ys path i = Inr r \<Longrightarrow> length us = i \<Longrightarrow> length vs = i \<Longrightarrow> canonical_json (AArr (us @ xs)) \<noteq> canonical_json (AArr (vs @ ys)) \<Longrightarrow>
     (\<exists>cs. r = Some (path @ pointer cs) \<and> differ_at (AArr (us @ xs)) (AArr (vs @ ys)) cs)"
proof (induction old new path and d e path ks and xs ys path i arbitrary: r and r and r us vs
    rule: first_divergence_key_divergence_item_divergence.induct)
  case (1 old new path)
  show ?case
  proof (cases "canonical_json old = canonical_json new")
    case True
    with "1.prems" show ?thesis by (auto split: sum.splits if_splits)
  next
    case False
    from "1.prems" obtain a b where ab: "canonical_json old = Inr a" "canonical_json new = Inr b" by (auto split: sum.splits)
    with "1.prems" False consider
        (obj) d e where "old = AObj d" "new = AObj e" "key_divergence d e path (key_union d e) = Inr r"
      | (arr) xs ys where "old = AArr xs" "new = AArr ys" "item_divergence xs ys path 0 = Inr r"
      | (leaf) "r = Some path"
      by (auto split: artifact.splits if_splits)
    then show ?thesis
    proof cases
      case obj
      have "\<exists>cs. r = Some (path @ pointer cs) \<and> differ_at (AObj d) (AObj e) cs"
        using "1.IH"(2) [OF refl ab _ refl obj(1,2,3)] ab False obj key_union_set by auto
      with obj show ?thesis by blast
    next
      case arr
      have "\<exists>cs. r = Some (path @ pointer cs) \<and> differ_at (AArr ([] @ xs)) (AArr ([] @ ys)) cs"
        using "1.IH"(1) [OF refl ab _ refl arr(1,2,3), of "[]" "[]"] ab False arr by auto
      with arr show ?thesis by auto
    next
      case leaf
      with False show ?thesis by (intro disjI2 exI [of _ "[]"]) (simp add: pointer_def)
    qed
  qed
next
  case (2 d e path)
  then show ?case by (intro exI [of _ "[]"]) (auto simp: pointer_def)
next
  case (3 d e path k ks)
  show ?case
  proof (cases "map_of d k = None \<or> map_of e k = None")
    case True
    then have r: "r = Some (path @ pointer [k])" using "3.prems"(1) by (auto simp: pointer_child_pointer split: option.splits)
    have "map_of d k \<noteq> None \<or> map_of e k \<noteq> None" using "3.prems"(2) by (auto simp: map_of_eq_None_iff)
    with True have "differ_at (AObj d) (AObj e) [k]" by (auto split: option.splits)
    with r show ?thesis by blast
  next
    case False
    then obtain v w where vw: "map_of d k = Some v" "map_of e k = Some w" by auto
    with "3.prems"(1) obtain q where q: "first_divergence v w (pointer_child path k) = Inr q" by (auto split: sum.splits)
    show ?thesis
    proof (cases q)
      case None
      with "3.prems"(1) vw q have "key_divergence d e path ks = Inr r" by simp
      with "3.IH"(2) [OF refl vw q None] "3.prems" show ?thesis by simp
    next
      case (Some p)
      with "3.prems"(1) vw q have r: "r = Some p" by simp
      from "3.IH"(1) [OF refl vw q] Some obtain cs where cs: "p = pointer_child path k @ pointer cs" "differ_at v w cs" by auto
      then have "differ_at (AObj d) (AObj e) (k # cs)" using vw by simp
      moreover have "r = Some (path @ pointer (k # cs))" using cs(1) r by (simp only: pointer_child_pointer(1))
      ultimately show ?thesis by blast
    qed
  qed
next
  case (4 x xs y ys path i)
  from "4.prems"(1) obtain q where q: "first_divergence x y (pointer_child path (str_int (int i))) = Inr q" by (auto split: sum.splits)
  show ?case
  proof (cases q)
    case None
    with "4.prems"(1) q have rest: "item_divergence xs ys path (Suc i) = Inr r" by simp
    from "4.IH"(2) [OF q None rest, of "us @ [x]" "vs @ [y]"] "4.prems" show ?thesis by simp
  next
    case (Some p)
    with "4.prems"(1) q have r: "r = Some p" by simp
    from "4.IH"(1) [OF q] Some obtain cs where cs: "p = pointer_child path (str_int (int i)) @ pointer cs" "differ_at x y cs" by auto
    then have "differ_at (AArr (us @ x # xs)) (AArr (vs @ y # ys)) (str_int (int i) # cs)"
      using "4.prems"(2,3) by (auto simp: nth_append intro!: exI [of _ i])
    moreover have "r = Some (path @ pointer (str_int (int i) # cs))" using cs(1) r by (simp only: pointer_child_pointer(1))
    ultimately show ?thesis by blast
  qed
next
  case (5 path i)
  then show ?case by (intro exI [of _ "[]"]) (auto simp: pointer_def)
next
  case (6 y ys path i)
  then show ?case by (intro exI [of _ "[str_int (int i)]"]) (auto simp: pointer_child_pointer)
next
  case (7 x xs path i)
  then show ?case by (intro exI [of _ "[str_int (int i)]"]) (auto simp: pointer_child_pointer)
qed

text \<open>
  C27. Two artifacts have the same canonical bytes exactly if they are the same value: null, the same truth value or
  string, numbers of the same canonical decimal, arrays that agree item by item, or objects that agree key by key,
  whatever the order of their members.
\<close>

theorem canonical_json_faithful:
  assumes "canonical_json v = Inr a" "canonical_json w = Inr b"
  shows "a = b \<longleftrightarrow> same v w"
proof -
  obtain s t where "canonical v = Inr s" "canonical w = Inr t" using assms by (auto simp: canonical_json_def bindR_eq_Inr)
  from canonical_json_iff [OF this] assms show ?thesis by simp
qed

theorem canonical_json_faithful_witness:
  "canonical_json (AObj [(''b'', ANum (Fixed False [1, 0] (-1))), (''a'', ANull)])
     = canonical_json (AObj [(''a'', ANull), (''b'', ANum (Whole 1))]) \<and>
   same (AObj [(''b'', ANum (Fixed False [1, 0] (-1))), (''a'', ANull)]) (AObj [(''a'', ANull), (''b'', ANum (Whole 1))])"
proof -
  let ?v = "AObj [(''b'', ANum (Fixed False [1, 0] (-1))), (''a'', ANull)]" and ?w = "AObj [(''a'', ANull), (''b'', ANum (Whole 1))]"
  have v: "canonical_json ?v = Inr (utf8 (''{'' @ [DQ] @ ''a'' @ [DQ] @ '':null,'' @ [DQ] @ ''b'' @ [DQ] @ '':1}''))" by code_simp
  have w: "canonical_json ?w = Inr (utf8 (''{'' @ [DQ] @ ''a'' @ [DQ] @ '':null,'' @ [DQ] @ ''b'' @ [DQ] @ '':1}''))" by code_simp
  from canonical_json_faithful [OF v w] v w show ?thesis by simp
qed

text \<open>
  A report that was produced says the artifacts are equal exactly if their digests are, and otherwise always has
  a pointer, which leads to a member or item that only one body has or to values with different canonical bytes.
\<close>

theorem compare_report_pointer:
  assumes "compare_report_of old new = Inr r"
  shows "report_equal r = (old_hash r = new_hash r) \<and>
    (if report_equal r then report_divergence r = None
     else \<exists>old_body new_body cs. artifact_body_v1 old = Inr old_body \<and> artifact_body_v1 new = Inr new_body \<and>
       report_divergence r = Some (Some (pointer cs)) \<and> differ_at old_body new_body cs)"
proof -
  obtain a b where a: "canonical_artifact_hash_v1 old = Inr a" and b: "canonical_artifact_hash_v1 new = Inr b"
    using assms by (auto simp: compare_report_of_def bindR_eq_Inr)
  show ?thesis
  proof (cases "a = b")
    case True
    with assms a b show ?thesis by (auto simp: compare_report_of_def)
  next
    case False
    with assms a b obtain old_body new_body p where bodies: "artifact_body_v1 old = Inr old_body" "artifact_body_v1 new = Inr new_body"
      and p: "first_divergence old_body new_body [] = Inr p"
      and r: "r = \<lparr>report_equal = False, old_hash = a, new_hash = b, report_divergence = Some p\<rparr>"
      by (auto simp: compare_report_of_def bindR_eq_Inr simp del: first_divergence.simps)
    have "canonical_json old_body \<noteq> canonical_json new_body"
      using a b False bodies by (auto simp: canonical_artifact_hash_v1_def bindR_eq_Inr)
    with first_divergence_Some(1) [OF p] obtain cs where "p = Some (pointer cs)" "differ_at old_body new_body cs" by auto
    with r bodies False show ?thesis by auto
  qed
qed

theorem compare_report_pointer_witness:
  "\<exists>r. compare_report_of (AObj [(''a'', ANull)]) (AObj [(''a'', ABool True)]) = Inr r \<and> report_equal r = (old_hash r = new_hash r)"
proof -
  let ?v = "AObj [(''a'', ANull)]" and ?w = "AObj [(''a'', ABool True)]"
  have v: "canonical_json ?v = Inr (utf8 (''{'' @ [DQ] @ ''a'' @ [DQ] @ '':null}''))" by code_simp
  have w: "canonical_json ?w = Inr (utf8 (''{'' @ [DQ] @ ''a'' @ [DQ] @ '':true}''))" by code_simp
  have body: "artifact_body_v1 ?v = Inr ?v" "artifact_body_v1 ?w = Inr ?w" by code_simp+
  have "first_divergence ?v ?w [] = Inr (Some ''/a'')" by code_simp
  then have "\<exists>r. compare_report_of ?v ?w = Inr r"
    by (simp add: compare_report_of_def canonical_artifact_hash_v1_def v w body del: first_divergence.simps split: if_split)
  then obtain r where r: "compare_report_of ?v ?w = Inr r" ..
  with compare_report_pointer [OF r] show ?thesis by blast
qed

section \<open>What is loaded has a canonical text\<close>

fun finite_number :: "number \<Rightarrow> bool" where
  "finite_number (NonFinite _) = False"
| "finite_number _ = True"

fun clean :: "artifact \<Rightarrow> bool" where
  "clean (ANum n) = finite_number n"
| "clean (AArr xs) = list_all clean xs"
| "clean (AObj d) = (distinct (map fst d) \<and> list_all clean (map snd d))"
| "clean _ = True"

lemma mapR_total: "list_all (\<lambda>x. \<exists>y. f x = Inr y) xs \<Longrightarrow> \<exists>ys. mapR f xs = Inr ys"
  by (induction xs) auto

lemma clean_canonical: "clean v \<Longrightarrow> \<exists>s. canonical v = Inr s"
proof (induction v)
  case (ANum n)
  then show ?case by (cases n) auto
next
  case (AArr xs)
  then have "list_all (\<lambda>x. \<exists>s. canonical x = Inr s) xs" by (auto simp: list_all_iff)
  then show ?case using mapR_total [of canonical xs] by auto
next
  case (AObj d)
  have "list_all (\<lambda>kv. \<exists>t. encoded_member kv = Inr t) (by_key d)"
  proof (unfold list_all_iff, intro ballI)
    fix kv assume kv: "kv \<in> set (by_key d)"
    then have "clean (snd kv)" using AObj.prems by (auto simp: by_key_facts list_all_iff)
    moreover have "snd kv \<in> Basic_BNFs.snds kv" by (cases kv) simp
    ultimately have "\<exists>s. canonical (snd kv) = Inr s" using AObj.IH [of kv "snd kv"] kv by (simp add: by_key_facts)
    then show "\<exists>t. encoded_member kv = Inr t" by (auto simp: encoded_member_Inr)
  qed
  from mapR_total [OF this] AObj.prems show ?case unfolding canonical_object by simp
qed auto

lemma load_scalar_clean: "load_scalar s = Some (v, r) \<Longrightarrow> clean v"
  by (auto simp: load_scalar_def decimal_of_def split: if_splits option.splits json.splits pyfloat.splits)

lemma load_clean:
  "load_value n s = Some (v, r) \<Longrightarrow> clean v"
  "load_items n acc s = Some (v, r) \<Longrightarrow> list_all clean acc \<Longrightarrow> clean v"
  "load_members n ms s = Some (v, r) \<Longrightarrow> list_all clean (map snd ms) \<Longrightarrow> clean v"
proof (induction n s and n acc s and n ms s arbitrary: v r and v r and v r rule: load_value_load_items_load_members.induct)
  case (2 n s)
  then show ?case
    by (cases s) (auto split: if_splits list.splits dest: load_scalar_clean simp del: load_items.simps load_members.simps)
next
  case (4 n acc s)
  then show ?case by (fastforce split: if_splits list.splits option.splits)
next
  case (6 n ms s)
  then show ?case by (fastforce simp: strict_object_def split: if_splits list.splits option.splits)
qed auto

text \<open>
  C26. Every artifact that is loaded has canonical bytes: no text that the decoder accepts makes the digest of the
  loaded value fail, except for a top-level object with several self-hash fields.
\<close>

theorem loaded_artifact_canonical:
  assumes "loads_json source = Some v"
  shows "(\<exists>bytes. canonical_json v = Inr bytes) \<and>
    (\<exists>digest. canonical_artifact_hash_v1 v = Inr digest) = (case v of AObj d \<Rightarrow> length (present_fields d) \<le> 1 | _ \<Rightarrow> True)"
proof -
  have clean: "clean v" using assms load_clean(1) by (auto simp: loads_json_def simp del: load_value.simps split: option.splits if_splits)
  have total: "\<exists>bytes. canonical_json w = Inr bytes" if "clean w" for w
    using clean_canonical [OF that] by (auto simp: canonical_json_def)
  have dropped: "clean (AObj (AList.delete f d))" if "clean (AObj d)" for f d
    using that by (auto simp: list_all_iff AList.delete_eq distinct_map inj_on_def)
  have hash: "(\<exists>digest. canonical_artifact_hash_v1 v = Inr digest) \<longleftrightarrow> (\<exists>body. artifact_body_v1 v = Inr body)"
  proof
    assume "\<exists>body. artifact_body_v1 v = Inr body"
    then obtain body where body: "artifact_body_v1 v = Inr body" ..
    then have "clean body"
      using clean dropped by (auto simp: artifact_body_v1_def Let_def split: artifact.splits if_splits list.splits)
    with body total show "\<exists>digest. canonical_artifact_hash_v1 v = Inr digest" by (fastforce simp: canonical_artifact_hash_v1_def)
  qed (auto simp: canonical_artifact_hash_v1_def bindR_eq_Inr)
  have "(\<exists>body. artifact_body_v1 v = Inr body) \<longleftrightarrow> (case v of AObj d \<Rightarrow> length (present_fields d) \<le> 1 | _ \<Rightarrow> True)"
    by (auto simp: artifact_body_v1_def Let_def split: artifact.splits list.splits)
  with hash total [OF clean] show ?thesis by simp
qed

theorem loaded_artifact_canonical_witness:
  "\<exists>bytes. canonical_json (AObj [(''a'', ANum (Fixed False [1] 0))]) = Inr bytes"
proof -
  have "loads_json (''{'' @ [DQ] @ ''a'' @ [DQ] @ '':1}'') = Some (AObj [(''a'', ANum (Fixed False [1] 0))])" by code_simp
  from loaded_artifact_canonical [OF this] show ?thesis by blast
qed

end
