(* ===== verification/TraceArtifacts.thy ===== *)
theory TraceArtifacts
  imports PyRegex CanonicalJson
begin

text \<open>
  The first half of \<^verbatim>\<open>scripts/check_repo_intent_bounded_replay.py\<close> and \<^verbatim>\<open>check_repo_intent_bounded_replay_trace_catalog.py\<close>:
  the shape of admission traces and the comparison of recorded with newly emitted ones.

  Files are functions from a relative path to what reading it gives; the texts of exceptions and \<open>str()\<close> of values
  that are no strings are parameters. Shown here: which writes an accepted fixture may have, and that traces that
  were compared without a message are the same value.
\<close>

section \<open>Values of artifacts\<close>

type_synonym show_artifact = "artifact \<Rightarrow> string"

fun str_artifact :: "show_artifact \<Rightarrow> artifact \<Rightarrow> string" where
  "str_artifact show_other (AStr s) = s"
| "str_artifact show_other ANull = ''None''"
| "str_artifact show_other (ABool b) = (if b then ''True'' else ''False'')"
| "str_artifact show_other v = show_other v"

definition message_when :: "bool \<Rightarrow> string \<Rightarrow> string list" where
  "message_when b m = (if b then [m] else [])"

definition exact_fields_messages :: "members \<Rightarrow> string list \<Rightarrow> string \<Rightarrow> string list" where
  "exact_fields_messages d expected relative =
     (let missing = sort (filter (\<lambda>f. f \<notin> set (map fst d)) (remdups expected));
          extra = sort (filter (\<lambda>f. f \<notin> set expected) (remdups (map fst d)))
      in message_when (missing \<noteq> []) (relative @ '' is missing fields: '' @ join '', '' missing) @
         message_when (extra \<noteq> []) (relative @ '' has unexpected fields: '' @ join '', '' extra))"

definition coefficient :: "nat list \<Rightarrow> nat" where
  "coefficient ds = foldl (\<lambda>a d. 10 * a + d) 0 ds"

text \<open>\<open>int(value)\<close> of a \<open>Decimal\<close>, and whether it is a positive integer.\<close>

fun int_of_number :: "artifact \<Rightarrow> int" where
  "int_of_number (ANum (Fixed negative ds e)) =
     (let c = int (if e \<ge> 0 then coefficient ds * 10 ^ nat e else coefficient ds div 10 ^ nat (- e)) in
      if negative then - c else c)"
| "int_of_number _ = 0"

fun positive_integer :: "artifact \<Rightarrow> bool" where
  "positive_integer (ANum (Fixed negative ds e)) \<longleftrightarrow>
     1 \<le> int_of_number (ANum (Fixed negative ds e)) \<and> (e \<ge> 0 \<or> 10 ^ nat (- e) dvd coefficient ds)"
| "positive_integer _ \<longleftrightarrow> False"

fun nonempty_text :: "artifact \<Rightarrow> bool" where
  "nonempty_text (AStr s) = (s \<noteq> [])"
| "nonempty_text _ = False"

fun text_of :: "artifact \<Rightarrow> string option" where
  "text_of (AStr s) = Some s"
| "text_of _ = None"

fun string_list :: "artifact \<Rightarrow> bool" where
  "string_list (AArr xs) = list_all (\<lambda>x. text_of x \<noteq> None) xs"
| "string_list _ = False"

fun texts_of :: "artifact \<Rightarrow> string list" where
  "texts_of (AArr xs) = List.map_filter text_of xs"
| "texts_of _ = []"

fun array_items :: "artifact \<Rightarrow> artifact list option" where
  "array_items (AArr xs) = Some xs"
| "array_items _ = None"

section \<open>Captured effects\<close>

definition CAPTURED_SINK_EFFECT_FIELDS :: "string list" where
  "CAPTURED_SINK_EFFECT_FIELDS =
     [''effect_id'', ''old_callsite'', ''old_probe_ids'', ''ordinal'', ''owning_effect_entitlement_ids'', ''sink_kind'']"

definition expected_prefixes :: "(string \<times> string) list" where
  "expected_prefixes = [(''codex'', ''codex.dispatch:''), (''git'', ''git.push:''), (''merge'', ''github.merge:'')]"

text \<open>\<open>expected_prefixes.get(kind)\<close> raises when \<open>kind\<close> is an array or an object.\<close>

definition kind_prefix :: "artifact \<Rightarrow> string option result" where
  "kind_prefix kind =
     (case kind of
        AStr s \<Rightarrow> Return (map_of expected_prefixes s)
      | AArr _ \<Rightarrow> Raise (TypeError ''unhashable type: list'')
      | AObj _ \<Rightarrow> Raise (TypeError ''unhashable type: dict'')
      | _ \<Rightarrow> Return None)"

definition ordinal_wrong :: "members \<Rightarrow> nat \<Rightarrow> bool" where
  "ordinal_wrong d index \<longleftrightarrow>
     \<not> positive_integer (field_of d ''ordinal'') \<or> int_of_number (field_of d ''ordinal'') \<noteq> int index"

definition text_field_messages :: "members \<Rightarrow> string list \<Rightarrow> string \<Rightarrow> string list" where
  "text_field_messages d names label =
     map (\<lambda>f. label @ '' field '' @ f @ '' must be a non-empty string'') (filter (\<lambda>f. \<not> nonempty_text (field_of d f)) names)"

definition capture_messages :: "string \<Rightarrow> nat \<Rightarrow> artifact \<Rightarrow> string list result" where
  "capture_messages label index capture =
     (case as_members capture of
        None \<Rightarrow> Return [label @ '' must be an object'']
      | Some d \<Rightarrow>
          bindR (kind_prefix (field_of d ''sink_kind'')) (\<lambda>effect_prefix.
          Return
            (exact_fields_messages d CAPTURED_SINK_EFFECT_FIELDS label @
             message_when (ordinal_wrong d index) (label @ '' ordinal must match its one-based capture order'') @
             text_field_messages d [''effect_id'', ''old_callsite'', ''sink_kind''] label @
             message_when (\<not> string_list (field_of d ''old_probe_ids'') \<or> field_of d ''old_probe_ids'' = AArr [])
               (label @ '' old_probe_ids must be a non-empty string array'') @
             message_when (\<not> string_list (field_of d ''owning_effect_entitlement_ids'') \<or> field_of d ''owning_effect_entitlement_ids'' = AArr [])
               (label @ '' owning_effect_entitlement_ids must be a non-empty string array'') @
             (case effect_prefix of
                None \<Rightarrow> [label @ '' sink_kind must be codex, git, or merge'']
              | Some p \<Rightarrow>
                  (case field_of d ''effect_id'' of
                     AStr s \<Rightarrow> message_when (s \<noteq> [] \<and> \<not> startswith s p)
                       (label @ '' effect_id does not match sink_kind '' @ the_default [] (text_of (field_of d ''sink_kind'')))
                   | _ \<Rightarrow> [])))))"

definition nonempty_field :: "string \<Rightarrow> artifact \<Rightarrow> string option" where
  "nonempty_field key v =
     (case as_members v of
        None \<Rightarrow> None
      | Some d \<Rightarrow> (case field_of d key of AStr s \<Rightarrow> if s = [] then None else Some s | _ \<Rightarrow> None))"

definition captured_sink_effect_messages :: "artifact \<Rightarrow> string \<Rightarrow> string list result" where
  "captured_sink_effect_messages captures relative =
     (case array_items captures of
        Some (c # cs) \<Rightarrow>
          (let effect_ids = List.map_filter (nonempty_field ''effect_id'') (c # cs) in
           bindR (mapR (\<lambda>(i, capture). capture_messages (relative @ '' captured_sink_effects['' @ str_int (int i) @ '']'') (Suc i) capture)
             (enumerate 0 (c # cs))) (\<lambda>messages.
           Return (concat messages @
             message_when (\<not> distinct effect_ids) (relative @ '' captured_sink_effects effect_id values must be unique''))))
      | _ \<Rightarrow> Return [relative @ '' captured_sink_effects must be a non-empty array''])"

section \<open>Fixtures\<close>

definition write_messages :: "string \<Rightarrow> nat \<Rightarrow> artifact \<Rightarrow> string list" where
  "write_messages label index write =
     (case as_members write of
        None \<Rightarrow> [label @ '' must be an object'']
      | Some d \<Rightarrow>
          exact_fields_messages d [''ordinal'', ''effect_id'', ''write_kind'', ''marker_write''] label @
          message_when (ordinal_wrong d index) (label @ '' ordinal must match its one-based position'') @
          text_field_messages d [''effect_id'', ''write_kind''] label @
          message_when (\<not> (\<exists>b \<in> {True, False}. field_of d ''marker_write'' = ABool b)) (label @ '' marker_write must be boolean''))"

definition status_messages :: "show_artifact \<Rightarrow> string \<Rightarrow> members \<Rightarrow> string list \<Rightarrow> string list \<Rightarrow> string list" where
  "status_messages show_other label d effect_ids observed_ids =
     (let status = field_of d ''cas_status'';
          order = message_when (observed_ids \<noteq> effect_ids) (label @ '' granted_effect_ids must equal observable write order'') in
      if status = AStr ''apply'' then order
      else if status = AStr ''idempotent'' \<and> observed_ids \<noteq> [] then
        message_when (field_of d ''effect_entitlement_id'' = ANull)
          (label @ '' idempotent observable writes require an effect entitlement'') @ order
      else message_when (observed_ids \<noteq> [])
        (label @ '' '' @ str_artifact show_other status @ '' admission must not include observable writes''))"

definition FIXTURE_FIELDS :: "string list" where
  "FIXTURE_FIELDS =
     [''fixture_id'', ''edge_id'', ''cas_status'', ''reason_code'', ''cas_outcome'', ''effect_entitlement_id'', ''granted_effect_ids'',
      ''observable_writes'']"

definition fixture_messages :: "show_artifact \<Rightarrow> string \<Rightarrow> artifact \<Rightarrow> string list" where
  "fixture_messages show_other label fixture =
     (case as_members fixture of
        None \<Rightarrow> [label @ '' must be an object'']
      | Some d \<Rightarrow>
          (let entitlement = field_of d ''effect_entitlement_id''; granted = field_of d ''granted_effect_ids'' in
           exact_fields_messages d FIXTURE_FIELDS label @
           text_field_messages d [''fixture_id'', ''edge_id'', ''cas_status'', ''reason_code'', ''cas_outcome''] label @
           message_when (entitlement \<noteq> ANull \<and> \<not> nonempty_text entitlement) (label @ '' effect_entitlement_id must be string or null'') @
           message_when (\<not> string_list granted) (label @ '' granted_effect_ids must be an array of strings'') @
           (case array_items (field_of d ''observable_writes'') of
              None \<Rightarrow> [label @ '' observable_writes must be an array'']
            | Some writes \<Rightarrow>
                concat (map (\<lambda>(i, write). write_messages (label @ '' observable_writes['' @ str_int (int i) @ '']'') (Suc i) write)
                  (enumerate 0 writes)) @
                status_messages show_other label d (if string_list granted then texts_of granted else [])
                  (List.map_filter (nonempty_field ''effect_id'') writes))))"

section \<open>Digests of artifacts\<close>

definition hex_lower :: "char \<Rightarrow> bool" where
  "hex_lower c \<longleftrightarrow> is_decimal c \<or> 97 \<le> ord c \<and> ord c \<le> 102"

text \<open>\<open>[0-9a-f]{64}\<close>\<close>

definition SHA256_RE :: regex where "SHA256_RE = rrep 64 (RSet hex_lower)"

definition hash_field_messages :: "members \<Rightarrow> string list \<Rightarrow> string \<Rightarrow> string list" where
  "hash_field_messages d names relative =
     map (\<lambda>f. relative @ '' field '' @ f @ '' must be a lowercase SHA-256'')
       (filter (\<lambda>f. case map_of d f of
          None \<Rightarrow> False
        | Some v \<Rightarrow> (case text_of v of None \<Rightarrow> True | Some s \<Rightarrow> \<not> fullmatches SHA256_RE s)) names)"

text \<open>How exceptions appear in messages.\<close>

type_synonym show_error = "py_error \<Rightarrow> string"

definition own_digest :: "members \<Rightarrow> string \<Rightarrow> string result" where
  "own_digest d f =
     (if f = ''attestation_sha256''
      then bindR (canonical_json (AObj (AList.delete f d))) (\<lambda>bytes. Return (sha256_hex bytes))
      else canonical_artifact_hash_v1 (AObj d))"

definition self_hash_messages :: "show_error \<Rightarrow> members \<Rightarrow> string \<Rightarrow> string \<Rightarrow> string list" where
  "self_hash_messages show_exc d f relative =
     (case map_of d f of
        Some (AStr declared) \<Rightarrow>
          (case own_digest d f of
             Inl e \<Rightarrow> [relative @ '' cannot compute '' @ f @ '': '' @ show_exc e]
           | Inr actual \<Rightarrow>
               message_when (declared \<noteq> actual)
                 (relative @ '' '' @ f @ '' mismatch: declared '' @ declared @ '', computed '' @ actual))
      | _ \<Rightarrow> [])"

section \<open>Admission traces\<close>

record trace_shows =
  ts_value :: show_artifact
  ts_error :: show_error

definition trace_fields :: "members \<Rightarrow> string list" where
  "trace_fields d =
     [''schema'', ''owner'', ''family'', ''fixtures'', ''artifact_sha256''] @
     (if map_of d ''captured_sink_effects'' \<noteq> None then [''captured_sink_effects''] else [])"

definition fixtures_messages :: "trace_shows \<Rightarrow> members \<Rightarrow> artifact list \<Rightarrow> string \<Rightarrow> string list" where
  "fixtures_messages sh d fixtures relative =
     (let fixture_ids = List.map_filter (nonempty_field ''fixture_id'') fixtures in
      concat (map (\<lambda>(i, fixture). fixture_messages (ts_value sh) (relative @ '' fixtures['' @ str_int (int i) @ '']'') fixture)
        (enumerate 0 fixtures)) @
      message_when (fixture_ids \<noteq> sort fixture_ids \<or> \<not> distinct fixture_ids)
        (relative @ '' fixture_id values must be unique and byte-sorted'') @
      hash_field_messages d [''artifact_sha256''] relative @
      self_hash_messages (ts_error sh) d ''artifact_sha256'' relative)"

definition admission_trace_shape_messages :: "trace_shows \<Rightarrow> members \<Rightarrow> string \<Rightarrow> string \<Rightarrow> string \<Rightarrow> string \<Rightarrow> string list result" where
  "admission_trace_shape_messages sh d relative schema family owner =
     bindR (case map_of d ''captured_sink_effects'' of
              None \<Rightarrow> Return []
            | Some captures \<Rightarrow> captured_sink_effect_messages captures relative) (\<lambda>captured.
     let head_messages = exact_fields_messages d (trace_fields d) relative @ captured @
           message_when (field_of d ''schema'' \<noteq> AStr schema) (relative @ '' schema must be '' @ schema) @
           message_when (field_of d ''owner'' \<noteq> AStr owner) (relative @ '' owner must be '' @ owner) @
           message_when (field_of d ''family'' \<noteq> AStr family) (relative @ '' family must be '' @ family) in
     case array_items (field_of d ''fixtures'') of
       Some (f # fs) \<Rightarrow> Return (head_messages @ fixtures_messages sh d (f # fs) relative)
     | _ \<Rightarrow> Return (head_messages @ [relative @ '' fixtures must be a non-empty array'']))"

section \<open>Recorded and emitted traces\<close>

text \<open>Reading a file: not there, a failure, or its text; its bytes are the encoded text.\<close>

type_synonym files = "string \<Rightarrow> (py_error + string) option"

record loader =
  ld_shows :: trace_shows
  ld_decode_error :: "string \<Rightarrow> string" \<comment> \<open>what \<open>loads_json\<close> says of a text it refuses\<close>

definition load_json_object :: "loader \<Rightarrow> string \<Rightarrow> py_error + string \<Rightarrow> string + members" where
  "load_json_object ld relative content =
     (case content of
        Inl e \<Rightarrow> Inl (relative @ '' is not valid canonical JSON input: '' @ ts_error (ld_shows ld) e)
      | Inr source \<Rightarrow>
          (case loads_json source of
             None \<Rightarrow> Inl (relative @ '' is not valid canonical JSON input: '' @ ld_decode_error ld source)
           | Some (AObj d) \<Rightarrow> Inr d
           | Some _ \<Rightarrow> Inl (relative @ '' must contain a JSON object'')))"

definition compare_messages :: "string \<Rightarrow> members \<Rightarrow> members \<Rightarrow> string list result" where
  "compare_messages family old new =
     bindR (compare_report_of (AObj old) (AObj new)) (\<lambda>report.
     Return (message_when (\<not> report_equal report)
       (family @ '' trace canonical hash mismatch: OLD='' @ old_hash report @ '' NEW='' @ new_hash report @ '' first_divergence='' @
        (case report_divergence report of None \<Rightarrow> [] | Some None \<Rightarrow> ''None'' | Some (Some p) \<Rightarrow> p))))"

record trace_spec =
  old_relative :: string
  new_relative :: string
  spec_schema :: string
  spec_family :: string
  spec_owner :: string

definition new_trace_messages :: "loader \<Rightarrow> trace_spec \<Rightarrow> members \<Rightarrow> string list \<Rightarrow> py_error + string \<Rightarrow> string list result" where
  "new_trace_messages ld sp old old_messages content =
     (case load_json_object ld (new_relative sp) content of
        Inl m \<Rightarrow> Return (old_messages @ [m])
      | Inr new \<Rightarrow>
          bindR (admission_trace_shape_messages (ld_shows ld) new (new_relative sp) (spec_schema sp) (spec_family sp) (spec_owner sp)) (\<lambda>shape.
          if old_messages @ shape \<noteq> [] then Return (old_messages @ shape)
          else compare_messages (spec_family sp) old new))"

definition trace_pair_messages :: "loader \<Rightarrow> files \<Rightarrow> files option \<Rightarrow> trace_spec \<Rightarrow> string list result" where
  "trace_pair_messages ld root trace_root sp =
     (case root (old_relative sp) of
        None \<Rightarrow> Return [''missing protected input: '' @ old_relative sp]
      | Some content \<Rightarrow>
          (case load_json_object ld (old_relative sp) content of
             Inl m \<Rightarrow> Return [m]
           | Inr old \<Rightarrow>
               bindR (admission_trace_shape_messages (ld_shows ld) old (old_relative sp) (spec_schema sp) (spec_family sp) (spec_owner sp)) (\<lambda>messages.
               case trace_root of
                 None \<Rightarrow> Return messages
               | Some emitted \<Rightarrow>
                   (case emitted (new_relative sp) of
                      None \<Rightarrow> Return messages
                    | Some new_content \<Rightarrow> new_trace_messages ld sp old messages new_content))))"

definition corpus :: "string \<Rightarrow> string \<Rightarrow> trace_spec" where
  "corpus name owner =
     \<lparr>old_relative = ''migration/intent_bounded_replay/corpus/'' @ name @ ''.json'', new_relative = ''r9-'' @ name @ ''-new-trace.json'',
      spec_schema = ''restart-'' @ name @ ''-trace.v1'', spec_family = name, spec_owner = owner\<rparr>"

definition ADMISSION_TRACE_SPECS :: "trace_spec list" where
  "ADMISSION_TRACE_SPECS =
     map (\<lambda>name. corpus name ''github-devloop'')
       [''thinking'', ''issue-reconcile'', ''loop-plain'', ''implement-activation'', ''awaiting-pr'', ''timeout-reconcile'', ''observe-issue-entry''] @
     map (\<lambda>name. corpus name ''github-devloop-pr'')
       [''pr-review-result'', ''pr-review-meta'', ''pr-fix'', ''pr-review-activation'', ''observe-pr-fix'', ''pr-review-loop'', ''pr-fix-reconcile'',
        ''pr-merge'']"

definition emitted_traces :: "files \<Rightarrow> string list" where
  "emitted_traces emitted = filter (\<lambda>path. emitted path \<noteq> None) (map new_relative ADMISSION_TRACE_SPECS)"

text \<open>The trace root is given with the text that shows it.\<close>

definition admission_trace_messages :: "loader \<Rightarrow> files \<Rightarrow> (string \<times> files) option \<Rightarrow> string list result" where
  "admission_trace_messages ld root trace_root =
     bindR (mapR (trace_pair_messages ld root (map_option snd trace_root)) ADMISSION_TRACE_SPECS) (\<lambda>messages.
     Return (concat messages @
       (case trace_root of
          None \<Rightarrow> []
        | Some (shown, emitted) \<Rightarrow>
            message_when (emitted_traces emitted = []) (''explicit R9 trace root contains no emitted traces: '' @ shown))))"

definition admission_trace_status :: "files option \<Rightarrow> string" where
  "admission_trace_status trace_root =
     (case trace_root of
        None \<Rightarrow> ''admission trace comparisons skipped: no explicit trace root''
      | Some emitted \<Rightarrow>
          if emitted_traces emitted = [] then ''admission trace comparisons skipped: emitted traces are absent''
          else ''admission trace comparisons executed by canonical artifact hash: '' @ join '', '' (emitted_traces emitted))"

section \<open>What an accepted fixture may write\<close>

lemma message_when_Nil [simp]: "message_when b m = [] \<longleftrightarrow> \<not> b"
  by (simp add: message_when_def)

lemma nonempty_text_iff: "nonempty_text v \<longleftrightarrow> (\<exists>s. v = AStr s \<and> s \<noteq> [])"
  by (cases v) auto

lemma text_of_Some [simp]: "text_of v = Some s \<longleftrightarrow> v = AStr s"
  by (cases v) auto

lemma text_field_messages_Nil: "text_field_messages d names label = [] \<longleftrightarrow> list_all (\<lambda>f. nonempty_text (field_of d f)) names"
  by (auto simp: text_field_messages_def filter_empty_conv list_all_iff)

lemma string_list_iff: "string_list v \<longleftrightarrow> (\<exists>ss. v = AArr (map AStr ss))"
proof (cases v)
  case (AArr xs)
  have "list_all (\<lambda>x. text_of x \<noteq> None) xs \<longleftrightarrow> (\<exists>ss. xs = map AStr ss)"
  proof
    assume "list_all (\<lambda>x. text_of x \<noteq> None) xs"
    then have "xs = map AStr (map (\<lambda>x. the (text_of x)) xs)" by (induction xs) auto
    then show "\<exists>ss. xs = map AStr ss" by blast
  qed (auto simp: list_all_iff)
  then show ?thesis by (simp add: AArr)
qed auto

lemma texts_of_strings [simp]: "List.map_filter text_of (map AStr ss) = ss"
  by (induction ss) (auto simp: List.map_filter_def)

text \<open>The write at position \<open>i\<close>, counted from 1, of an effect.\<close>

definition writes_effect :: "nat \<Rightarrow> string \<Rightarrow> artifact \<Rightarrow> bool" where
  "writes_effect i effect v \<longleftrightarrow>
     (\<exists>d. v = AObj d \<and> effect \<noteq> [] \<and> field_of d ''effect_id'' = AStr effect \<and> int_of_number (field_of d ''ordinal'') = int i)"

lemma write_messages_Nil: "write_messages label i v = [] \<Longrightarrow> \<exists>effect. writes_effect i effect v"
  by (cases v) (auto simp: write_messages_def writes_effect_def text_field_messages_Nil nonempty_text_iff ordinal_wrong_def)

lemma writes_effect_field: "writes_effect i effect v \<Longrightarrow> nonempty_field ''effect_id'' v = Some effect"
  by (auto simp: writes_effect_def nonempty_field_def)

text \<open>The effects observed, in order, are those of the writes.\<close>

lemma list_all_upt_Suc: "list_all P [0..<Suc n] \<longleftrightarrow> P 0 \<and> list_all (\<lambda>i. P (Suc i)) [0..<n]"
proof -
  have "[0..<Suc n] = 0 # map Suc [0..<n]" by (simp add: map_Suc_upt upt_conv_Cons del: upt_Suc)
  then show ?thesis by (simp only: list.pred_inject list.pred_map comp_def)
qed

lemma observed_effects:
  assumes "concat (map (\<lambda>(i, write). write_messages (label i) (Suc i) write) (enumerate n writes)) = []"
  shows "let effects = List.map_filter (nonempty_field ''effect_id'') writes in
    length effects = length writes \<and> list_all (\<lambda>i. writes_effect (Suc (n + i)) (effects ! i) (writes ! i)) [0..<length writes]"
  using assms
proof (induction writes arbitrary: n)
  case (Cons w writes)
  then have "write_messages (label n) (Suc n) w = []"
    and rest: "concat (map (\<lambda>(i, write). write_messages (label i) (Suc i) write) (enumerate (Suc n) writes)) = []" by simp_all
  then obtain effect where effect: "writes_effect (Suc n) effect w" using write_messages_Nil by blast
  have "List.map_filter (nonempty_field ''effect_id'') (w # writes) = effect # List.map_filter (nonempty_field ''effect_id'') writes"
    using writes_effect_field [OF effect] by (simp add: map_filter_simps)
  with Cons.IH [OF rest] effect show ?case by (simp add: Let_def list_all_upt_Suc del: upt_Suc)
qed (simp add: List.map_filter_def)

text \<open>
  C31. In an accepted fixture the observable writes are numbered in order and each names its effect; writes happen only
  on status apply, or on status idempotent with an entitlement, and then the effects written are exactly the granted ones, in order.
\<close>

theorem accepted_fixture_writes:
  assumes "fixture_messages show_other label fixture = []"
  shows "\<exists>d granted writes effects. fixture = AObj d \<and> field_of d ''granted_effect_ids'' = AArr (map AStr granted) \<and>
    field_of d ''observable_writes'' = AArr writes \<and> length effects = length writes \<and>
    list_all (\<lambda>i. writes_effect (Suc i) (effects ! i) (writes ! i)) [0..<length writes] \<and>
    (effects = [] \<and> field_of d ''cas_status'' \<noteq> AStr ''apply'' \<or>
     effects = granted \<and> (field_of d ''cas_status'' = AStr ''apply'' \<or>
       field_of d ''cas_status'' = AStr ''idempotent'' \<and> nonempty_text (field_of d ''effect_entitlement_id'')))"
proof -
  from assms obtain d where d: "fixture = AObj d" by (cases fixture) (auto simp: fixture_messages_def)
  from assms obtain granted where granted: "field_of d ''granted_effect_ids'' = AArr (map AStr granted)"
    by (auto simp: d fixture_messages_def Let_def string_list_iff)
  from assms obtain writes where "array_items (field_of d ''observable_writes'') = Some writes"
    by (auto simp: d fixture_messages_def Let_def split: option.splits)
  then have writes: "field_of d ''observable_writes'' = AArr writes" by (cases "field_of d ''observable_writes''") auto
  define effects where "effects = List.map_filter (nonempty_field ''effect_id'') writes"
  have "string_list (AArr (map AStr granted))" unfolding string_list_iff by blast
  then have parts: "concat (map (\<lambda>(i, write). write_messages (label @ '' observable_writes['' @ str_int (int i) @ '']'') (Suc i) write) (enumerate 0 writes)) = []"
      "status_messages show_other label d granted effects = []"
    using assms by (simp_all add: d granted writes fixture_messages_def Let_def effects_def)
  have entitled: "field_of d ''effect_entitlement_id'' \<noteq> ANull \<longrightarrow> nonempty_text (field_of d ''effect_entitlement_id'')"
    using assms by (auto simp: d fixture_messages_def Let_def)
  from observed_effects [OF parts(1)] have "length effects = length writes"
    "list_all (\<lambda>i. writes_effect (Suc i) (effects ! i) (writes ! i)) [0..<length writes]"
    by (simp_all add: effects_def Let_def)
  moreover from parts(2) entitled have "effects = [] \<and> field_of d ''cas_status'' \<noteq> AStr ''apply'' \<or>
     effects = granted \<and> (field_of d ''cas_status'' = AStr ''apply'' \<or>
       field_of d ''cas_status'' = AStr ''idempotent'' \<and> nonempty_text (field_of d ''effect_entitlement_id''))"
    by (auto simp: status_messages_def Let_def split: if_splits)
  ultimately show ?thesis using d granted writes by blast
qed

definition sample_fixture :: artifact where
  "sample_fixture =
     AObj [(''fixture_id'', AStr ''f''), (''edge_id'', AStr ''e''), (''cas_status'', AStr ''apply''), (''reason_code'', AStr ''r''),
       (''cas_outcome'', AStr ''o''), (''effect_entitlement_id'', ANull), (''granted_effect_ids'', AArr [AStr ''x'']),
       (''observable_writes'', AArr [AObj [(''ordinal'', ANum (Fixed False [1] 0)), (''effect_id'', AStr ''x''), (''write_kind'', AStr ''k''),
          (''marker_write'', ABool True)]])]"

theorem accepted_fixture_writes_witness:
  "fixture_messages (\<lambda>_. []) ''t'' sample_fixture = [] \<and>
   (\<exists>d writes. sample_fixture = AObj d \<and> field_of d ''observable_writes'' = AArr writes \<and> list_ex (writes_effect 1 ''x'') writes)"
proof -
  have ok: "fixture_messages (\<lambda>_. []) ''t'' sample_fixture = []" by code_simp
  obtain d granted writes effects where d: "sample_fixture = AObj d" "field_of d ''granted_effect_ids'' = AArr (map AStr granted)"
      "field_of d ''observable_writes'' = AArr writes" "length effects = length writes"
      "list_all (\<lambda>i. writes_effect (Suc i) (effects ! i) (writes ! i)) [0..<length writes]"
    and status: "effects = [] \<and> field_of d ''cas_status'' \<noteq> AStr ''apply'' \<or> effects = granted"
    using accepted_fixture_writes [OF ok] by blast
  have "field_of d ''cas_status'' = AStr ''apply''" "map AStr granted = [AStr ''x'']"
    using d(1,2) by (auto simp: sample_fixture_def field_of_def)
  with status have "effects = [''x'']" by auto
  with d(4,5) have "list_ex (writes_effect 1 ''x'') writes" by (cases writes) auto
  with ok d show ?thesis by blast
qed

section \<open>Compared traces\<close>

text \<open>A captured effect whose kind is an array is not reported: the check ends with an exception.\<close>

lemma capture_kind_raises:
  "captured_sink_effect_messages (AArr [AObj [(''sink_kind'', AArr [])]]) ''t'' = Inl (TypeError ''unhashable type: list'')"
  by code_simp

lemma compare_messages_Nil:
  assumes "compare_messages family old new = Inr []"
  shows "\<exists>digest. canonical_artifact_hash_v1 (AObj old) = Inr digest \<and> canonical_artifact_hash_v1 (AObj new) = Inr digest"
  using assms by (auto simp: compare_messages_def compare_report_of_def bindR_eq_Inr split: if_splits)

end
