(* ===== verification/DeliveryAuthorization.thy ===== *)
theory DeliveryAuthorization
  imports CanonicalJson
begin

text \<open>
  \<^verbatim>\<open>scripts/intent_bounded_replay/delivery_authorization.py\<close>: the closed validation of the manifests that may change how
  messages are delivered. Shown here: a manifest has no messages exactly if it is of another cause and has no
  authorization, or authorizes exactly the observations it changes, within the closed vocabulary of atoms and using all of it.
\<close>

definition R11_CAUSE :: string where "R11_CAUSE = ''R11.queue_dialogue_to_sync_consensus_call''"
definition FIELD :: string where "FIELD = ''authorized_delivery_atoms''"

definition REMOVED_ATOMS :: "string list" where
  "REMOVED_ATOMS = [''queue:consensus.consensus_converge'', ''queue:consensus.consensus_reached'', ''queue:consensus.proposal'']"

definition ADDED_ATOMS :: "string list" where
  "ADDED_ATOMS = [''call:consensus.reach'', ''raise:devloop_consensus_continue'', ''raise:devloop_consensus_request'']"

definition ENTRY_FIELDS :: "string list" where "ENTRY_FIELDS = [''observation_id'', ''remove'', ''add'']"

definition CHANGED_ID_FIELDS :: "string list" where
  "CHANGED_ID_FIELDS = [''changed_row_ids'', ''changed_edge_ids'', ''changed_policy_ids'']"

section \<open>Arrays of strings\<close>

definition report_if :: "bool \<Rightarrow> string \<Rightarrow> string list" where
  "report_if b m = (if b then [m] else [])"

definition has_wildcard :: "string \<Rightarrow> bool" where
  "has_wildcard item \<longleftrightarrow> list_ex (\<lambda>token. token \<in> set item) ''*?[]''"

definition nonempty_string :: "artifact \<Rightarrow> string option" where
  "nonempty_string v = (case v of AStr s \<Rightarrow> if s = [] then None else Some s | _ \<Rightarrow> None)"

definition nonempty_strings :: "artifact \<Rightarrow> string list option" where
  "nonempty_strings v =
     (case v of
        AArr xs \<Rightarrow> if list_all (\<lambda>x. nonempty_string x \<noteq> None) xs then Some (List.map_filter nonempty_string xs) else None
      | _ \<Rightarrow> None)"

definition canonical_ids :: "string list \<Rightarrow> string list" where
  "canonical_ids xs = sort_key utf8 (remdups xs)"

definition strings_messages :: "artifact \<Rightarrow> string \<Rightarrow> string list" where
  "strings_messages v label =
     (case nonempty_strings v of
        None \<Rightarrow> [label @ '' must be an array of non-empty strings'']
      | Some xs \<Rightarrow>
          report_if (list_ex has_wildcard xs) (label @ '' must not contain wildcard values'') @
          report_if (xs \<noteq> canonical_ids xs) (label @ '' must be byte-sorted and unique''))"

section \<open>Changed observations\<close>

fun add_ids :: "string \<Rightarrow> string list \<Rightarrow> string list \<Rightarrow> string list \<times> string list" where
  "add_ids relative changed [] = ([], changed)"
| "add_ids relative changed (v # vs) =
     (case add_ids relative (if v \<in> set changed then changed else changed @ [v]) vs of
        (messages, ids) \<Rightarrow>
          (report_if (v \<in> set changed) (relative @ '' changed observation ID appears in multiple sets: '' @ v) @ messages, ids))"

fun collect_changed :: "members \<Rightarrow> string \<Rightarrow> string list \<Rightarrow> string list \<Rightarrow> string list \<times> string list" where
  "collect_changed artifact relative changed [] = ([], changed)"
| "collect_changed artifact relative changed (f # fs) =
     (let own = strings_messages (field_of artifact f) (relative @ '' field '' @ f);
          (messages, ids) = (case nonempty_strings (field_of artifact f) of None \<Rightarrow> ([], changed) | Some xs \<Rightarrow> add_ids relative changed xs);
          (later, all_ids) = collect_changed artifact relative ids fs
      in (own @ messages @ later, all_ids))"

section \<open>Entries\<close>

definition entry_id :: "artifact \<Rightarrow> string option" where
  "entry_id entry = (case as_members entry of None \<Rightarrow> None | Some d \<Rightarrow> nonempty_string (field_of d ''observation_id''))"

definition entry_atoms :: "string \<Rightarrow> artifact \<Rightarrow> string list" where
  "entry_atoms key entry =
     (case as_members entry of None \<Rightarrow> [] | Some d \<Rightarrow> (case nonempty_strings (field_of d key) of None \<Rightarrow> [] | Some xs \<Rightarrow> xs))"

definition field_messages :: "string \<Rightarrow> members \<Rightarrow> string list" where
  "field_messages label d =
     (let missing = sort (filter (\<lambda>f. f \<notin> set (map fst d)) ENTRY_FIELDS);
          extra = sort (filter (\<lambda>f. f \<notin> set ENTRY_FIELDS) (remdups (map fst d)))
      in report_if (missing \<noteq> []) (label @ '' is missing fields: '' @ join '', '' missing) @
         report_if (extra \<noteq> []) (label @ '' has unexpected fields: '' @ join '', '' extra))"

definition id_messages :: "string \<Rightarrow> artifact \<Rightarrow> string list" where
  "id_messages label v =
     (case nonempty_string v of
        None \<Rightarrow> [label @ '' observation_id must be a non-empty string'']
      | Some observation_id \<Rightarrow> report_if (has_wildcard observation_id) (label @ '' observation_id must not contain wildcard values''))"

definition atom_messages :: "string \<Rightarrow> string list \<Rightarrow> string list \<Rightarrow> string list" where
  "atom_messages prefix_text allowed atoms = map (\<lambda>atom. prefix_text @ atom) (filter (\<lambda>atom. atom \<notin> set allowed) atoms)"

definition entry_messages :: "string \<Rightarrow> artifact \<Rightarrow> string list" where
  "entry_messages label entry =
     (case as_members entry of
        None \<Rightarrow> [label @ '' must be an object'']
      | Some d \<Rightarrow>
          field_messages label d @ id_messages label (field_of d ''observation_id'') @
          strings_messages (field_of d ''remove'') (label @ '' remove'') @
          strings_messages (field_of d ''add'') (label @ '' add'') @
          atom_messages (label @ '' has unsupported removed delivery atom: '') REMOVED_ATOMS (entry_atoms ''remove'' entry) @
          atom_messages (label @ '' has unsupported added delivery atom: '') ADDED_ATOMS (entry_atoms ''add'' entry) @
          report_if (nonempty_strings (field_of d ''remove'') = Some [] \<and> nonempty_strings (field_of d ''add'') = Some [])
            (label @ '' must authorize a non-empty delivery diff''))"

definition summary_messages :: "string \<Rightarrow> string list \<Rightarrow> artifact list \<Rightarrow> string list" where
  "summary_messages relative changed entries =
     (let authorization_ids = List.map_filter entry_id entries in
      report_if (authorization_ids \<noteq> canonical_ids authorization_ids)
        (relative @ '' '' @ FIELD @ '' observation_id values must be byte-sorted and unique'') @
      report_if (set authorization_ids \<noteq> set changed)
        (relative @ '' changed observation IDs must exactly equal '' @ FIELD @ '' observation IDs'') @
      report_if (set (concat (map (entry_atoms ''remove'') entries)) \<noteq> set REMOVED_ATOMS)
        (relative @ '' removed delivery vocabulary must exactly equal the R11 closed set'') @
      report_if (set (concat (map (entry_atoms ''add'') entries)) \<noteq> set ADDED_ATOMS)
        (relative @ '' added delivery vocabulary must exactly equal the R11 closed set''))"

definition delivery_authorization_messages :: "members \<Rightarrow> string \<Rightarrow> string list" where
  "delivery_authorization_messages artifact relative =
     (if field_of artifact ''cause'' \<noteq> AStr R11_CAUSE then
        report_if (map_of artifact FIELD \<noteq> None) (relative @ '' '' @ FIELD @ '' is reserved for cause '' @ R11_CAUSE)
      else
        case collect_changed artifact relative [] CHANGED_ID_FIELDS of
          (messages, changed) \<Rightarrow>
            (case field_of artifact FIELD of
               AArr (entry # entries) \<Rightarrow>
                 messages @
                 concat (map (\<lambda>(i, e). entry_messages (relative @ '' '' @ FIELD @ ''['' @ str_int (int i) @ '']'') e)
                   (enumerate 0 (entry # entries))) @
                 summary_messages relative changed (entry # entries)
             | _ \<Rightarrow> messages @ [relative @ '' '' @ FIELD @ '' must be a non-empty array'']))"

section \<open>The closed form\<close>

text \<open>Non-empty strings without wildcards, in strictly ascending byte order.\<close>

definition canonical_strings :: "string list \<Rightarrow> bool" where
  "canonical_strings xs \<longleftrightarrow> list_all (\<lambda>x. x \<noteq> [] \<and> \<not> has_wildcard x) xs \<and> distinct xs \<and> sorted (map utf8 xs)"

record authorization =
  observation :: string
  removes :: "string list"
  adds :: "string list"

definition valid_authorization :: "authorization \<Rightarrow> bool" where
  "valid_authorization a \<longleftrightarrow>
     observation a \<noteq> [] \<and> \<not> has_wildcard (observation a) \<and> canonical_strings (removes a) \<and> canonical_strings (adds a) \<and>
     (removes a \<noteq> [] \<or> adds a \<noteq> [])"

text \<open>An object with exactly the three fields.\<close>

definition encodes :: "authorization \<Rightarrow> artifact \<Rightarrow> bool" where
  "encodes a v \<longleftrightarrow>
     (\<exists>d. v = AObj d \<and> set (map fst d) = set ENTRY_FIELDS \<and> field_of d ''observation_id'' = AStr (observation a) \<and>
        field_of d ''remove'' = AArr (map AStr (removes a)) \<and> field_of d ''add'' = AArr (map AStr (adds a)))"

definition authorizes_exactly :: "artifact \<Rightarrow> string list \<Rightarrow> bool" where
  "authorizes_exactly v changed \<longleftrightarrow>
     (\<exists>entries as. v = AArr entries \<and> list_all2 encodes as entries \<and> list_all valid_authorization as \<and>
        distinct (map observation as) \<and> sorted (map (\<lambda>a. utf8 (observation a)) as) \<and> set (map observation as) = set changed \<and>
        \<Union> (set (map (\<lambda>a. set (removes a)) as)) = set REMOVED_ATOMS \<and> \<Union> (set (map (\<lambda>a. set (adds a)) as)) = set ADDED_ATOMS)"

definition changes :: "members \<Rightarrow> string list \<Rightarrow> string list \<Rightarrow> string list \<Rightarrow> bool" where
  "changes artifact rows edges policies \<longleftrightarrow>
     map (field_of artifact) CHANGED_ID_FIELDS = map (\<lambda>ids. AArr (map AStr ids)) [rows, edges, policies] \<and>
     list_all canonical_strings [rows, edges, policies] \<and> distinct (rows @ edges @ policies)"

definition authorizes :: "members \<Rightarrow> bool" where
  "authorizes artifact \<longleftrightarrow>
     (\<exists>rows edges policies. changes artifact rows edges policies \<and> authorizes_exactly (field_of artifact FIELD) (rows @ edges @ policies))"

lemma report_if_Nil [simp]: "report_if b m = [] \<longleftrightarrow> \<not> b"
  by (simp add: report_if_def)

lemma nonempty_string_Some [simp]: "nonempty_string v = Some s \<longleftrightarrow> v = AStr s \<and> s \<noteq> []"
  by (cases v) (auto simp: nonempty_string_def)

lemma nonempty_strings_Some: "nonempty_strings v = Some xs \<longleftrightarrow> v = AArr (map AStr xs) \<and> list_all (\<lambda>x. x \<noteq> []) xs"
proof (cases v)
  case (AArr vs)
  have "list_all (\<lambda>x. nonempty_string x \<noteq> None) vs \<and> List.map_filter nonempty_string vs = xs
      \<longleftrightarrow> vs = map AStr xs \<and> list_all (\<lambda>x. x \<noteq> []) xs"
  proof (induction vs arbitrary: xs)
    case (Cons w vs)
    then show ?case by (cases w; cases xs) (auto simp: nonempty_string_def List.map_filter_def)
  qed (auto simp: List.map_filter_def)
  then show ?thesis by (auto simp: AArr nonempty_strings_def)
qed (auto simp: nonempty_strings_def)

lemma canonical_ids_iff: "xs = canonical_ids xs \<longleftrightarrow> distinct xs \<and> sorted (map utf8 xs)"
proof
  assume "xs = canonical_ids xs"
  then show "distinct xs \<and> sorted (map utf8 xs)"
    by (metis canonical_ids_def distinct_remdups distinct_sort sorted_sort_key)
next
  assume "distinct xs \<and> sorted (map utf8 xs)"
  then show "xs = canonical_ids xs" by (simp add: canonical_ids_def distinct_remdups_id sort_key_id_if_sorted)
qed

lemma strings_messages_Nil: "strings_messages v label = [] \<longleftrightarrow> (\<exists>xs. v = AArr (map AStr xs) \<and> canonical_strings xs)"
proof (cases "nonempty_strings v")
  case None
  have "\<not> canonical_strings xs" if "v = AArr (map AStr xs)" for xs
    using None that nonempty_strings_Some [of v xs] by (auto simp: canonical_strings_def list_all_iff)
  with None show ?thesis by (auto simp: strings_messages_def)
next
  case (Some xs)
  then have v: "v = AArr (map AStr xs)" "list_all (\<lambda>x. x \<noteq> []) xs" by (simp_all add: nonempty_strings_Some)
  have "strings_messages v label = [] \<longleftrightarrow> canonical_strings xs"
    using v(2) by (auto simp: strings_messages_def Some canonical_ids_iff canonical_strings_def list_all_iff list_ex_iff)
  moreover have "(\<exists>ys. v = AArr (map AStr ys) \<and> canonical_strings ys) \<longleftrightarrow> canonical_strings xs"
    by (auto simp: v(1) inj_map_eq_map inj_def)
  ultimately show ?thesis by simp
qed

lemma canonical_strings_nonempty: "canonical_strings xs \<Longrightarrow> nonempty_strings (AArr (map AStr xs)) = Some xs"
  by (simp add: nonempty_strings_Some canonical_strings_def list_all_iff)

lemma add_ids_exact:
  "(fst (add_ids relative changed xs) = [] \<longleftrightarrow> distinct xs \<and> set xs \<inter> set changed = {}) \<and>
   (distinct xs \<and> set xs \<inter> set changed = {} \<longrightarrow> snd (add_ids relative changed xs) = changed @ xs)"
proof (induction xs arbitrary: changed)
  case (Cons x xs)
  show ?case
  proof (cases "x \<in> set changed")
    case True
    then show ?thesis by (auto split: prod.splits)
  next
    case False
    then show ?thesis using Cons.IH [of "changed @ [x]"] by (auto split: prod.splits)
  qed
qed simp

lemma collect_changed_step:
  "fst (collect_changed artifact relative changed (f # fs)) = [] \<longleftrightarrow>
     (\<exists>xs. field_of artifact f = AArr (map AStr xs) \<and> canonical_strings xs \<and> set xs \<inter> set changed = {} \<and>
        fst (collect_changed artifact relative (changed @ xs) fs) = [])"
  "field_of artifact f = AArr (map AStr xs) \<Longrightarrow> canonical_strings xs \<Longrightarrow> set xs \<inter> set changed = {} \<Longrightarrow>
     snd (collect_changed artifact relative changed (f # fs)) = snd (collect_changed artifact relative (changed @ xs) fs)"
proof -
  have ids: "add_ids relative changed xs = ([], changed @ xs)" if "canonical_strings xs" "set xs \<inter> set changed = {}" for xs
    using that add_ids_exact [of relative changed xs] by (auto simp: canonical_strings_def prod_eq_iff)
  show "fst (collect_changed artifact relative changed (f # fs)) = [] \<longleftrightarrow>
     (\<exists>xs. field_of artifact f = AArr (map AStr xs) \<and> canonical_strings xs \<and> set xs \<inter> set changed = {} \<and>
        fst (collect_changed artifact relative (changed @ xs) fs) = [])" (is "?l \<longleftrightarrow> ?r")
  proof
    assume ?l
    then have "strings_messages (field_of artifact f) (relative @ '' field '' @ f) = []" by (simp add: Let_def split: prod.splits)
    then obtain xs where xs: "field_of artifact f = AArr (map AStr xs)" "canonical_strings xs" by (auto simp: strings_messages_Nil)
    with \<open>?l\<close> have "fst (add_ids relative changed xs) = []"
      by (simp add: Let_def canonical_strings_nonempty split: prod.splits)
    then have disjoint: "set xs \<inter> set changed = {}" using add_ids_exact [of relative changed xs] by simp
    with \<open>?l\<close> xs show ?r by (auto simp: Let_def canonical_strings_nonempty ids split: prod.splits)
  next
    assume ?r
    then show ?l by (auto simp: Let_def canonical_strings_nonempty ids strings_messages_Nil split: prod.splits)
  qed
  show "field_of artifact f = AArr (map AStr xs) \<Longrightarrow> canonical_strings xs \<Longrightarrow> set xs \<inter> set changed = {} \<Longrightarrow>
     snd (collect_changed artifact relative changed (f # fs)) = snd (collect_changed artifact relative (changed @ xs) fs)"
    by (simp add: Let_def canonical_strings_nonempty ids split: prod.splits)
qed

lemma changes_step:
  "changes artifact xs ys zs \<longleftrightarrow>
     field_of artifact ''changed_row_ids'' = AArr (map AStr xs) \<and> canonical_strings xs \<and> set xs \<inter> set [] = {} \<and>
     field_of artifact ''changed_edge_ids'' = AArr (map AStr ys) \<and> canonical_strings ys \<and> set ys \<inter> set ([] @ xs) = {} \<and>
     field_of artifact ''changed_policy_ids'' = AArr (map AStr zs) \<and> canonical_strings zs \<and> set zs \<inter> set (([] @ xs) @ ys) = {}"
proof -
  have "distinct (xs @ ys @ zs) \<longleftrightarrow> set ys \<inter> set ([] @ xs) = {} \<and> set zs \<inter> set (([] @ xs) @ ys) = {}"
    if "canonical_strings xs" "canonical_strings ys" "canonical_strings zs"
    using that by (auto simp: canonical_strings_def)
  moreover have "list_all canonical_strings []" by simp
  ultimately show ?thesis unfolding changes_def CHANGED_ID_FIELDS_def list.map list.inject list.pred_inject set_simps Int_empty_right by blast
qed

lemma collect_changed_exact:
  "fst (collect_changed artifact relative [] CHANGED_ID_FIELDS) = [] \<longleftrightarrow> (\<exists>rows edges policies. changes artifact rows edges policies)"
  unfolding CHANGED_ID_FIELDS_def collect_changed_step(1) changes_step collect_changed.simps(1) fst_conv by blast

lemma collected_ids:
  "changes artifact rows edges policies \<Longrightarrow>
     snd (collect_changed artifact relative [] CHANGED_ID_FIELDS) = rows @ edges @ policies"
  unfolding changes_step CHANGED_ID_FIELDS_def
  by (simp add: collect_changed_step(2) [of _ _ rows] collect_changed_step(2) [of _ _ edges] collect_changed_step(2) [of _ _ policies]
      del: collect_changed.simps(2))

lemma field_messages_Nil: "field_messages label d = [] \<longleftrightarrow> set (map fst d) = set ENTRY_FIELDS"
proof -
  have "sort xs = [] \<longleftrightarrow> xs = []" for xs :: "string list" by (metis set_empty set_sort)
  then show ?thesis by (auto simp: field_messages_def Let_def filter_empty_conv)
qed

lemma atom_messages_Nil: "atom_messages label allowed atoms = [] \<longleftrightarrow> set atoms \<subseteq> set allowed"
  by (auto simp: atom_messages_def filter_empty_conv)

lemma id_messages_Nil: "id_messages label v = [] \<longleftrightarrow> (\<exists>s. v = AStr s \<and> s \<noteq> [] \<and> \<not> has_wildcard s)"
  by (cases v) (auto simp: id_messages_def nonempty_string_def)

lemma encoded:
  assumes "encodes a e" "valid_authorization a"
  shows "entry_id e = Some (observation a)" "entry_atoms ''remove'' e = removes a" "entry_atoms ''add'' e = adds a"
  using assms by (auto simp: encodes_def valid_authorization_def entry_id_def entry_atoms_def canonical_strings_nonempty)

lemma entry_messages_Nil:
  "entry_messages label e = [] \<longleftrightarrow>
     (\<exists>a. encodes a e \<and> valid_authorization a \<and> set (removes a) \<subseteq> set REMOVED_ATOMS \<and> set (adds a) \<subseteq> set ADDED_ATOMS)" (is "?l \<longleftrightarrow> ?r")
proof
  assume l: ?l
  then obtain d where d: "e = AObj d" by (cases e) (auto simp: entry_messages_def)
  from l obtain s xs ys where parts: "set (map fst d) = set ENTRY_FIELDS" "field_of d ''observation_id'' = AStr s" "s \<noteq> []" "\<not> has_wildcard s"
      "field_of d ''remove'' = AArr (map AStr xs)" "canonical_strings xs" "field_of d ''add'' = AArr (map AStr ys)" "canonical_strings ys"
    by (auto simp: d entry_messages_def field_messages_Nil id_messages_Nil strings_messages_Nil)
  let ?a = "\<lparr>observation = s, removes = xs, adds = ys\<rparr>"
  have a: "encodes ?a e" using parts by (simp add: encodes_def d)
  have v: "valid_authorization ?a"
    using parts l by (auto simp: d valid_authorization_def entry_messages_def canonical_strings_nonempty)
  from l encoded [OF a v] a v show ?r by (auto simp: d entry_messages_def atom_messages_Nil intro!: exI [of _ ?a])
next
  assume ?r
  then obtain a where a: "encodes a e" "valid_authorization a" "set (removes a) \<subseteq> set REMOVED_ATOMS" "set (adds a) \<subseteq> set ADDED_ATOMS" by blast
  then obtain d where d: "e = AObj d" "set (map fst d) = set ENTRY_FIELDS" "field_of d ''observation_id'' = AStr (observation a)"
      "field_of d ''remove'' = AArr (map AStr (removes a))" "field_of d ''add'' = AArr (map AStr (adds a))"
    by (auto simp: encodes_def)
  then show ?l using a encoded [OF a(1,2)]
    by (auto simp: entry_messages_def field_messages_Nil id_messages_Nil strings_messages_Nil atom_messages_Nil valid_authorization_def
        canonical_strings_nonempty)
qed

lemma list_all2_choice: "(\<forall>e \<in> set es. \<exists>a. P a e) \<longleftrightarrow> (\<exists>as. list_all2 P as es)"
proof
  assume "\<forall>e \<in> set es. \<exists>a. P a e"
  then show "\<exists>as. list_all2 P as es" by (induction es) (auto intro: list_all2_Cons)
next
  assume "\<exists>as. list_all2 P as es"
  then obtain as where "list_all2 P as es" ..
  then show "\<forall>e \<in> set es. \<exists>a. P a e" by (induction rule: list_all2_induct) auto
qed

lemma summary_messages_Nil:
  assumes "list_all2 encodes as entries" "list_all valid_authorization as"
  shows "summary_messages relative changed entries = [] \<longleftrightarrow>
     distinct (map observation as) \<and> sorted (map (\<lambda>a. utf8 (observation a)) as) \<and> set (map observation as) = set changed \<and>
     \<Union> (set (map (\<lambda>a. set (removes a)) as)) = set REMOVED_ATOMS \<and> \<Union> (set (map (\<lambda>a. set (adds a)) as)) = set ADDED_ATOMS"
proof -
  have "List.map_filter entry_id entries = map observation as \<and> map (entry_atoms ''remove'') entries = map removes as
      \<and> map (entry_atoms ''add'') entries = map adds as"
    using assms by (induction rule: list_all2_induct) (auto simp: encoded List.map_filter_def)
  then show ?thesis by (auto simp: summary_messages_def Let_def canonical_ids_iff comp_def)
qed

lemma entries_messages_Nil:
  "concat (map (\<lambda>(i, e). entry_messages (label i) e) (enumerate 0 entries)) = [] \<longleftrightarrow>
     (\<exists>as. list_all2 encodes as entries \<and> list_all valid_authorization as \<and>
        list_all (\<lambda>a. set (removes a) \<subseteq> set REMOVED_ATOMS \<and> set (adds a) \<subseteq> set ADDED_ATOMS) as)"
proof -
  let ?ok = "\<lambda>a e. encodes a e \<and> valid_authorization a \<and> set (removes a) \<subseteq> set REMOVED_ATOMS \<and> set (adds a) \<subseteq> set ADDED_ATOMS"
  have "concat (map (\<lambda>(i, e). entry_messages (label i) e) (enumerate 0 entries)) = [] \<longleftrightarrow> (\<forall>e \<in> set entries. \<exists>a. ?ok a e)"
  proof -
    have "concat (map (\<lambda>(i, e). entry_messages (label i) e) (enumerate 0 entries)) = [] \<longleftrightarrow> (\<forall>e \<in> snd ` set (enumerate 0 entries). \<exists>a. ?ok a e)"
      by (simp add: entry_messages_Nil case_prod_beta)
    then show ?thesis by (simp only: set_map [symmetric] map_snd_enumerate)
  qed
  also have "\<dots> \<longleftrightarrow> (\<exists>as. list_all2 ?ok as entries)" by (rule list_all2_choice)
  also have "\<dots> \<longleftrightarrow> (\<exists>as. list_all2 encodes as entries \<and> list_all valid_authorization as \<and>
        list_all (\<lambda>a. set (removes a) \<subseteq> set REMOVED_ATOMS \<and> set (adds a) \<subseteq> set ADDED_ATOMS) as)"
    by (rule iff_exI) (auto simp: list_all2_conv_all_nth list_all_length)
  finally show ?thesis .
qed

lemma accepted_entries:
  "(\<exists>entries. v = AArr entries \<and> entries \<noteq> [] \<and>
      concat (map (\<lambda>(i, e). entry_messages (label i) e) (enumerate 0 entries)) = [] \<and> summary_messages relative changed entries = [])
   \<longleftrightarrow> authorizes_exactly v changed" (is "?l \<longleftrightarrow> ?r")
proof
  assume ?l
  then obtain entries as where v: "v = AArr entries" and as: "list_all2 encodes as entries" "list_all valid_authorization as"
    and summary: "summary_messages relative changed entries = []"
    unfolding entries_messages_Nil by blast
  from summary [unfolded summary_messages_Nil [OF as]] v as show ?r unfolding authorizes_exactly_def by blast
next
  assume ?r
  then obtain entries as where v: "v = AArr entries" and as: "list_all2 encodes as entries" "list_all valid_authorization as"
    and rest: "distinct (map observation as) \<and> sorted (map (\<lambda>a. utf8 (observation a)) as) \<and> set (map observation as) = set changed \<and>
        \<Union> (set (map (\<lambda>a. set (removes a)) as)) = set REMOVED_ATOMS \<and> \<Union> (set (map (\<lambda>a. set (adds a)) as)) = set ADDED_ATOMS"
    unfolding authorizes_exactly_def by blast
  have "summary_messages relative changed entries = []" using summary_messages_Nil [OF as] rest by blast
  moreover have "list_all (\<lambda>a. set (removes a) \<subseteq> set REMOVED_ATOMS \<and> set (adds a) \<subseteq> set ADDED_ATOMS) as"
    using rest by (auto simp: list_all_iff)
  moreover have "entries \<noteq> []"
  proof
    assume "entries = []"
    then have "as = []" using as(1) by simp
    then have "set REMOVED_ATOMS = {}" using rest by simp
    then show False by (simp add: REMOVED_ATOMS_def)
  qed
  ultimately show ?l unfolding entries_messages_Nil using as v by blast
qed

text \<open>
  a manifest passes exactly if it is of another cause and authorizes nothing, or it is an R11 manifest whose three
  lists of changed observations are canonical and disjoint, whose authorizations are well formed, name exactly the
  changed observations in byte order, and together remove and add exactly the closed vocabulary.
\<close>

theorem delivery_messages_iff:
  "delivery_authorization_messages artifact relative = [] \<longleftrightarrow>
     (if field_of artifact ''cause'' = AStr R11_CAUSE then authorizes artifact else map_of artifact FIELD = None)"
proof (cases "field_of artifact ''cause'' = AStr R11_CAUSE")
  case True
  let ?c = "collect_changed artifact relative [] CHANGED_ID_FIELDS" and ?v = "field_of artifact FIELD"
  let ?label = "\<lambda>i. relative @ '' '' @ FIELD @ ''['' @ str_int (int i) @ '']''"
  have "delivery_authorization_messages artifact relative = [] \<longleftrightarrow> fst ?c = [] \<and> (\<exists>entries. ?v = AArr entries \<and> entries \<noteq> [] \<and>
      concat (map (\<lambda>(i, e). entry_messages (?label i) e) (enumerate 0 entries)) = [] \<and> summary_messages relative (snd ?c) entries = [])"
    by (simp add: delivery_authorization_messages_def True split: prod.splits artifact.splits list.splits)
  also have "\<dots> \<longleftrightarrow> authorizes artifact"
    unfolding accepted_entries collect_changed_exact authorizes_def using collected_ids by metis
  finally show ?thesis using True by simp
qed (simp add: delivery_authorization_messages_def)

end
