(* ===== verification/IntentReplay.thy ===== *)
theory IntentReplay
  imports TraceArtifacts SemanticTree DeliveryAuthorization RatchetBase
begin

text \<open>
  The second half of \<^verbatim>\<open>scripts/check_repo_intent_bounded_replay.py\<close>: manifests of intended behaviour changes, their
  allowlist, their binding to the commit they are for, and attestations; with the step the check borrows from
  \<^verbatim>\<open>check_repo_restart_preflight.py\<close>.

  The program \<open>git\<close> appears in the three ways the code calls it: as text with its error output, through
  \<open>ratchet_base\<close>, and on bytes. Shown here: what it means that the check finds nothing, namely that every manifest
  that is new relative to the protected base is bound to that base, to the tree and to the change, and that no
  two manifests share their one-use identity.
\<close>

section \<open>The host\<close>

record text_run =
  tr_code :: int
  tr_out :: string
  tr_err :: string

type_synonym text_git = "string list \<Rightarrow> text_run result"

record replay_host =
  rh_loader :: loader
  rh_files :: files
  rh_dir :: "string list option" \<comment> \<open>the names in \<open>migration/intent-diffs\<close>, if it is a directory\<close>
  rh_environ :: environ
  rh_git :: text_git
  rh_base_git :: git
  rh_byte_git :: byte_git
  rh_show_bytes :: show_bytes
  rh_decode :: "bytes \<Rightarrow> string" \<comment> \<open>\<open>decode("utf-8", "replace")\<close>\<close>

definition ALLOWLIST :: string where "ALLOWLIST = ''migration/intent-bounded-replay.allowlist''"
definition INTENT_DIFF_DIR :: string where "INTENT_DIFF_DIR = ''migration/intent-diffs''"

definition PROTECTED_MODULES :: "string list" where
  "PROTECTED_MODULES =
     [''scripts/intent_bounded_replay/normalize.py'', ''scripts/intent_bounded_replay/compare.py'', ''scripts/intent_bounded_replay/semantic_tree.py'']"

section \<open>Patterns\<close>

text \<open>\<open>(?P<pr>[1-9][0-9]*)\.json\<close>\<close>

definition pr_re :: regex where
  "pr_re = RGroup ''pr'' (RSeq (RSet (\<lambda>c. is_decimal c \<and> c \<noteq> CHR ''0'')) (rstar rdigit))"

definition MANIFEST_RE :: regex where "MANIFEST_RE = RSeq pr_re (rlit ''.json'')"

text \<open>\<open>[0-9a-f]{40,64}\<close>, \<open>[A-Za-z0-9][A-Za-z0-9._/\-]*\<close> and \<open>[A-Za-z0-9][A-Za-z0-9._:/@#>;+-]*\<close>\<close>

definition GIT_SHA_RE :: regex where "GIT_SHA_RE = RSeq (rrep 40 (RSet hex_lower)) (ropts 24 (RSet hex_lower))"

definition BASE_REF_RE :: regex where
  "BASE_REF_RE = RSeq (RSet is_alnum_ascii) (rstar (RSet (\<lambda>c. is_alnum_ascii c \<or> c \<in> set ''._/-'')))"

definition SEMANTIC_ID_RE :: regex where
  "SEMANTIC_ID_RE = RSeq (RSet is_alnum_ascii) (rstar (RSet (\<lambda>c. is_alnum_ascii c \<or> c \<in> set ''._:/@#>;+-'')))"

section \<open>Manifests\<close>

definition MANIFEST_FIELDS :: "string list" where
  "MANIFEST_FIELDS =
     [''schema'', ''intent'', ''pr_number'', ''base_sha'', ''semantic_tree_sha256'', ''semantic_diff_sha256'', ''changed_row_ids'',
      ''changed_edge_ids'', ''changed_policy_ids'', ''old_trace_sha256'', ''new_trace_sha256'', ''behavior_diff_sha256'', ''cause'',
      ''review_reference'', ''one_use_identity'', ''manifest_sha256'']"

definition MANIFEST_HASH_FIELDS :: "string list" where
  "MANIFEST_HASH_FIELDS =
     [''semantic_tree_sha256'', ''semantic_diff_sha256'', ''old_trace_sha256'', ''new_trace_sha256'', ''behavior_diff_sha256'', ''manifest_sha256'']"

definition ANOMALY_TRANSPORT_FIELDS :: "string list" where
  "ANOMALY_TRANSPORT_FIELDS =
     [''qualified_queues'', ''ops_dependency'', ''ephemeral_consumes'', ''ingestion'', ''package_visible_delivery_delta'']"

definition required_field_messages :: "members \<Rightarrow> string list \<Rightarrow> string \<Rightarrow> string list" where
  "required_field_messages d required relative =
     (let missing = filter (\<lambda>f. map_of d f = None) required in
      message_when (missing \<noteq> []) (relative @ '' is missing required fields: '' @ join '', '' missing))"

definition identities_messages :: "string \<Rightarrow> members \<Rightarrow> string \<Rightarrow> string list" where
  "identities_messages label d f =
     (let v = field_of d f; identities = texts_of v in
      if \<not> string_list v \<or> identities = [] then [label @ '' field '' @ f @ '' must be a non-empty string array'']
      else message_when (identities \<noteq> canonical_ids identities) (label @ '' field '' @ f @ '' must be byte-sorted and unique'') @
        message_when (list_ex (\<lambda>item. \<not> fullmatches SEMANTIC_ID_RE item) identities)
          (label @ '' field '' @ f @ '' contains a non-canonical semantic identity''))"

definition identity_messages :: "string \<Rightarrow> members \<Rightarrow> string \<Rightarrow> string list" where
  "identity_messages label d f =
     message_when (case field_of d f of AStr s \<Rightarrow> s = [] \<or> \<not> fullmatches SEMANTIC_ID_RE s | _ \<Rightarrow> True)
       (label @ '' field '' @ f @ '' must be a canonical semantic identity'')"

definition anomaly_transport_messages :: "artifact \<Rightarrow> string \<Rightarrow> string list" where
  "anomaly_transport_messages v relative =
     (let label = relative @ '' anomaly_transport'' in
      case as_members v of
        None \<Rightarrow> [label @ '' must be an object'']
      | Some d \<Rightarrow>
          exact_fields_messages d ANOMALY_TRANSPORT_FIELDS label @
          concat (map (identities_messages label d) [''qualified_queues'', ''ephemeral_consumes'']) @
          concat (map (identity_messages label d) [''ops_dependency'', ''ingestion'', ''package_visible_delivery_delta'']))"

definition has_field :: "members \<Rightarrow> string \<Rightarrow> bool" where
  "has_field d f \<longleftrightarrow> map_of d f \<noteq> None"

definition manifest_fields :: "members \<Rightarrow> string list" where
  "manifest_fields d = MANIFEST_FIELDS @
     (if has_field d ''anomaly_transport'' then [''anomaly_transport''] else []) @
     (if has_field d ''authorized_delivery_atoms'' then [''authorized_delivery_atoms''] else [])"

definition git_sha_messages :: "members \<Rightarrow> string \<Rightarrow> string \<Rightarrow> string list" where
  "git_sha_messages d f message =
     message_when (case field_of d f of AStr s \<Rightarrow> \<not> fullmatches GIT_SHA_RE s | _ \<Rightarrow> True) message"

definition pr_number_messages :: "members \<Rightarrow> string \<Rightarrow> int \<Rightarrow> string list" where
  "pr_number_messages d relative filename_pr =
     (if \<not> positive_integer (field_of d ''pr_number'') then [relative @ '' pr_number must be a positive integer'']
      else message_when (int_of_number (field_of d ''pr_number'') \<noteq> filename_pr) (relative @ '' pr_number must match its filename''))"

definition manifest_messages :: "show_error \<Rightarrow> members \<Rightarrow> string \<Rightarrow> int \<Rightarrow> string list" where
  "manifest_messages show_exc d relative filename_pr =
     (let missing = required_field_messages d MANIFEST_FIELDS relative in
      if missing \<noteq> [] then missing
      else
        exact_fields_messages d (manifest_fields d) relative @
        message_when (field_of d ''schema'' \<noteq> AStr ''fkst.intent-diff.v2'') (relative @ '' schema must be fkst.intent-diff.v2'') @
        message_when (field_of d ''intent'' \<noteq> AStr ''behavior-change'') (relative @ '' intent must be behavior-change'') @
        pr_number_messages d relative filename_pr @
        git_sha_messages d ''base_sha'' (relative @ '' base_sha must be a lowercase Git object ID'') @
        map (\<lambda>f. relative @ '' field '' @ f @ '' must be an array of strings'')
          (filter (\<lambda>f. \<not> string_list (field_of d f)) [''changed_row_ids'', ''changed_edge_ids'', ''changed_policy_ids'']) @
        text_field_messages d [''cause'', ''review_reference'', ''one_use_identity''] relative @
        message_when (has_field d ''head_sha'') (relative @ '' must not contain authoritative head_sha'') @
        hash_field_messages d MANIFEST_HASH_FIELDS relative @
        self_hash_messages show_exc d ''manifest_sha256'' relative @
        (if has_field d ''anomaly_transport'' then anomaly_transport_messages (field_of d ''anomaly_transport'') relative else []) @
        delivery_authorization_messages d relative)"

text \<open>The number in the name of a manifest.\<close>

definition manifest_pr :: "string \<Rightarrow> int option" where
  "manifest_pr name =
     (case re_fullmatch MANIFEST_RE name of
        None \<Rightarrow> None
      | Some m \<Rightarrow> (case m_group m ''pr'' of None \<Rightarrow> None | Some s \<Rightarrow> int_of_str s))"

definition field_text :: "members \<Rightarrow> string \<Rightarrow> string" where
  "field_text d f = the_default [] (text_of (field_of d f))"

definition expected_identity :: "members \<Rightarrow> string" where
  "expected_identity d =
     join ''/'' [str_int (int_of_number (field_of d ''pr_number'')), field_text d ''base_sha'', field_text d ''semantic_tree_sha256'',
       field_text d ''semantic_diff_sha256'']"

definition semantic_hashes :: "replay_host \<Rightarrow> string \<Rightarrow> string \<Rightarrow> (string \<times> string) result" where
  "semantic_hashes host base_sha head_ref =
     bindR (semantic_tree_sha256 (rh_byte_git host) (rh_show_bytes host) head_ref FIXED) (\<lambda>tree.
     bindR (semantic_diff_sha256 (rh_byte_git host) (rh_show_bytes host) base_sha head_ref FIXED) (\<lambda>diff.
     Return (tree, diff)))"

definition mismatch :: "string \<Rightarrow> string \<Rightarrow> string \<Rightarrow> string \<Rightarrow> string list" where
  "mismatch relative f declared actual =
     message_when (declared \<noteq> actual) (relative @ '' '' @ f @ '' mismatch: declared '' @ declared @ '', computed '' @ actual)"

definition host_error :: "replay_host \<Rightarrow> show_error" where
  "host_error host = ts_error (ld_shows (rh_loader host))"

definition bound_manifest_messages :: "replay_host \<Rightarrow> members \<Rightarrow> string \<Rightarrow> string \<Rightarrow> string \<Rightarrow> string list" where
  "bound_manifest_messages host d relative base_sha head_ref =
     (let messages = manifest_messages (host_error host) d relative (the_default 0 (manifest_pr (path_name relative))) in
      if messages \<noteq> [] then messages
      else
        message_when (field_of d ''base_sha'' \<noteq> AStr base_sha) (relative @ '' base_sha must equal protected merge-base '' @ base_sha) @
        message_when (field_of d ''one_use_identity'' \<noteq> AStr (expected_identity d))
          (relative @ '' one_use_identity is not bound to pr/base/semantic hashes'') @
        (case semantic_hashes host base_sha head_ref of
           Inl e \<Rightarrow> [relative @ '' cannot recompute semantic hashes: '' @ host_error host e]
         | Inr (tree, diff) \<Rightarrow>
             mismatch relative ''semantic_tree_sha256'' (field_text d ''semantic_tree_sha256'') tree @
             mismatch relative ''semantic_diff_sha256'' (field_text d ''semantic_diff_sha256'') diff))"

section \<open>Spent manifests\<close>

definition spent_line :: "int \<Rightarrow> string \<Rightarrow> bool" where
  "spent_line pr_number line \<longleftrightarrow>
     TAB \<in> set line \<and>
     (let subject = drop (Suc (length (takeWhile (\<lambda>c. c \<noteq> TAB) line))) line in
      endswith subject ('' (#'' @ str_int pr_number @ '')'') \<or>
      startswith subject (''Merge pull request #'' @ str_int pr_number @ '' from ''))"

definition manifest_is_spent :: "replay_host \<Rightarrow> members \<Rightarrow> string \<Rightarrow> string \<Rightarrow> bool result" where
  "manifest_is_spent host d relative protected_base =
     bindR (rh_git host [''log'', ''--full-history'', ''--diff-filter=A'', ''--format=%H%x09%s'', protected_base, ''--'', relative]) (\<lambda>r.
     Return (tr_code r = 0 \<and> list_ex (spent_line (int_of_number (field_of d ''pr_number''))) (splitlines (tr_out r))))"

section \<open>The allowlist\<close>

text \<open>\<open>migration/intent-diffs/[1-9][0-9]*\.json\<close> is the pattern of \<open>semantic_tree.py\<close>.\<close>

definition allowlist_entry :: "string \<Rightarrow> string" where
  "allowlist_entry raw = strip (before_sub ''#'' raw)"

definition parse_allowlist :: "string \<Rightarrow> string list \<Rightarrow> string list \<times> string list" where
  "parse_allowlist source lines =
     (remdups (filter (fullmatches numbered_manifest_re) (map allowlist_entry lines)),
      map (\<lambda>(i, raw). source @ '':'' @ str_int (int i) @ '' is not a numbered intent-diff manifest path'')
        (filter (\<lambda>(i, raw). allowlist_entry raw \<noteq> [] \<and> \<not> fullmatches numbered_manifest_re (allowlist_entry raw)) (enumerate 1 lines)))"

definition allowlist_entries :: "replay_host \<Rightarrow> (string list \<times> string list) result" where
  "allowlist_entries host =
     (case rh_files host ALLOWLIST of
        None \<Rightarrow> Return ([], [''missing protected input: '' @ ALLOWLIST])
      | Some (Inl e) \<Rightarrow> Raise e
      | Some (Inr content) \<Rightarrow> Return (parse_allowlist ALLOWLIST (splitlines content)))"

definition protected_base_sha :: "replay_host \<Rightarrow> string option result" where
  "protected_base_sha host =
     (let fallback = resolve_dev_merge_base (rh_environ host) (rh_base_git host) in
      case truthy (rh_environ host ''FKST_RESTART_PREFLIGHT_BASE_REF'') of
        None \<Rightarrow> fallback
      | Some explicit \<Rightarrow>
          if \<not> contains ''..'' explicit \<and> fullmatches BASE_REF_RE explicit then
            bindR (rh_git host [''merge-base'', ''HEAD'', explicit]) (\<lambda>r.
              if tr_code r = 0 \<and> strip (tr_out r) \<noteq> [] then Return (Some (strip (tr_out r))) else fallback)
          else fallback)"

definition parse_base :: "string \<Rightarrow> (string list \<times> string list) base_allowlist" where
  "parse_base content = BasePresent (parse_allowlist (''protected-base:'' @ ALLOWLIST) (splitlines content))"

definition base_entries :: "replay_host \<Rightarrow> string option \<Rightarrow> (string list \<times> string list) base_allowlist result" where
  "base_entries host base_sha =
     (case base_sha of
        Some base \<Rightarrow>
          bindR (show_file_at (rh_base_git host) base ALLOWLIST) (\<lambda>shown.
          Return (case shown of None \<Rightarrow> BaseAbsent | Some content \<Rightarrow> parse_base content))
      | None \<Rightarrow>
          bindR (file_at_base (rh_environ host) (rh_base_git host) ALLOWLIST) (\<lambda>found.
          Return (case found of Absent \<Rightarrow> BaseAbsent | Unresolved \<Rightarrow> BaseUnresolved | Present content \<Rightarrow> parse_base content)))"

section \<open>Attestations\<close>

definition ATTESTATION_FIELDS :: "string list" where
  "ATTESTATION_FIELDS =
     [''schema'', ''pr_number'', ''base_sha'', ''head_sha'', ''manifest_path'', ''manifest_blob_sha256'', ''manifest_sha256'',
      ''semantic_tree_sha256'', ''semantic_diff_sha256'', ''old_trace_sha256'', ''new_trace_sha256'', ''behavior_diff_sha256'', ''result'',
      ''attestation_sha256'']"

definition ATTESTATION_HASH_FIELDS :: "string list" where
  "ATTESTATION_HASH_FIELDS =
     [''manifest_blob_sha256'', ''manifest_sha256'', ''semantic_tree_sha256'', ''semantic_diff_sha256'', ''old_trace_sha256'',
      ''new_trace_sha256'', ''behavior_diff_sha256'', ''attestation_sha256'']"

definition lower_text :: "string \<Rightarrow> string" where
  "lower_text s = map lower_byte s"

definition head_sha :: "replay_host \<Rightarrow> string result" where
  "head_sha host =
     bindR (rh_git host [''rev-parse'', ''--verify'', ''HEAD^{commit}'']) (\<lambda>r.
     if tr_code r \<noteq> 0
     then Raise (RuntimeError (''git rev-parse HEAD failed ('' @ str_int (tr_code r) @ ''): '' @ strip (tr_err r)))
     else Return (lower_text (strip (tr_out r))))"

definition expected_manifest :: "members \<Rightarrow> string" where
  "expected_manifest d = INTENT_DIFF_DIR @ ''/'' @ str_int (int_of_number (field_of d ''pr_number'')) @ ''.json''"

definition attestation_shape_messages :: "show_error \<Rightarrow> members \<Rightarrow> string \<Rightarrow> string list" where
  "attestation_shape_messages show_exc d relative =
     message_when (field_of d ''schema'' \<noteq> AStr ''fkst.intent-diff-attestation.v1'') (relative @ '' schema must be fkst.intent-diff-attestation.v1'') @
     message_when (field_of d ''result'' \<noteq> AStr ''approved'') (relative @ '' result must be approved'') @
     (if \<not> positive_integer (field_of d ''pr_number'') then [relative @ '' pr_number must be a positive integer'']
      else message_when (field_of d ''manifest_path'' \<noteq> AStr (expected_manifest d)) (relative @ '' manifest_path must be '' @ expected_manifest d)) @
     concat (map (\<lambda>f. git_sha_messages d f (relative @ '' '' @ f @ '' must be a lowercase Git object ID'')) [''base_sha'', ''head_sha'']) @
     hash_field_messages d ATTESTATION_HASH_FIELDS relative @
     self_hash_messages show_exc d ''attestation_sha256'' relative"

definition differs_from :: "members \<Rightarrow> members \<Rightarrow> string \<Rightarrow> string \<Rightarrow> string list" where
  "differs_from d manifest relative f =
     message_when (field_of d f \<noteq> field_of manifest f) (relative @ '' '' @ f @ '' does not match '' @ expected_manifest d)"

definition attested_hash_messages :: "replay_host \<Rightarrow> members \<Rightarrow> members \<Rightarrow> string \<Rightarrow> string list" where
  "attested_hash_messages host d manifest relative =
     (case bindR (head_sha host) (\<lambda>h. bindR (semantic_hashes host (field_text d ''base_sha'') ''HEAD'') (\<lambda>td. Return (h, td))) of
        Inl e \<Rightarrow> [relative @ '' cannot recompute semantic hashes: '' @ host_error host e]
      | Inr (h, tree, diff) \<Rightarrow>
          mismatch relative ''head_sha'' (field_text d ''head_sha'') h @
          mismatch relative ''semantic_tree_sha256'' (field_text d ''semantic_tree_sha256'') tree @
          mismatch (expected_manifest d) ''semantic_tree_sha256'' (field_text manifest ''semantic_tree_sha256'') tree @
          mismatch relative ''semantic_diff_sha256'' (field_text d ''semantic_diff_sha256'') diff @
          mismatch (expected_manifest d) ''semantic_diff_sha256'' (field_text manifest ''semantic_diff_sha256'') diff)"

definition attestation_messages :: "replay_host \<Rightarrow> (string \<times> members) list \<Rightarrow> string \<times> members \<Rightarrow> string list result" where
  "attestation_messages host manifests attestation =
     (case attestation of (relative, d) \<Rightarrow>
        (let missing = required_field_messages d ATTESTATION_FIELDS relative;
             shape = attestation_shape_messages (host_error host) d relative in
         if missing \<noteq> [] then Return missing
         else if shape \<noteq> [] then Return shape
         else case (map_of manifests (expected_manifest d), rh_files host (expected_manifest d)) of
           (Some manifest, Some (Inl e)) \<Rightarrow> Raise e
         | (Some manifest, Some (Inr content)) \<Rightarrow>
             Return
               (mismatch relative ''manifest_blob_sha256'' (field_text d ''manifest_blob_sha256'') (sha256_hex (utf8 content)) @
                concat (map (differs_from d manifest relative)
                  [''manifest_sha256'', ''base_sha'', ''old_trace_sha256'', ''new_trace_sha256'', ''behavior_diff_sha256'']) @
                attested_hash_messages host d manifest relative)
         | _ \<Rightarrow> Return [relative @ '' references missing or invalid manifest '' @ expected_manifest d]))"

section \<open>The step of the restart preflight\<close>

definition OLD_AUTHORITY_PATHS :: "string list" where
  "OLD_AUTHORITY_PATHS =
     [''libraries/devloop/restart_effect_seal.lua'', ''packages/github-devloop/loop_department_caps.lua'',
      ''packages/github-devloop-pr/review_loop_department_caps.lua'']"

definition OLD_AUTHORITY_PATTERNS :: "(string \<times> regex) list" where
  "OLD_AUTHORITY_PATTERNS =
     [(''libraries/devloop/state.lua'',
        rseq [RWordB, ralt [rlit ''transition_status'', rlit ''versioned_transition_status'', rlit ''cyclic_transition_status''], RWordB]),
      (''libraries/devloop/di/providers.lua'', rlit ([DQ] @ ''versioned_transition_status'' @ [DQ])),
      (''libraries/devloop/fkst.toml'', rlit ([DQ] @ ''devloop.restart_effect_seal'' @ [DQ]))]"

definition tracked_paths :: "replay_host \<Rightarrow> string \<Rightarrow> string list result" where
  "tracked_paths host ref =
     (case rh_byte_git host [''ls-tree'', ''-r'', ''-z'', ''--name-only'', ref, ''--''] None of
        ByteProcessFailed m \<Rightarrow> Raise (OSError m)
      | ByteProcess code output errors \<Rightarrow>
          if code \<noteq> 0 then Raise (RuntimeError (''git ls-tree failed: '' @ strip errors))
          else Return (filter (\<lambda>raw. raw \<noteq> []) (split_char (CHR 0x00) output)))"

definition text_at :: "replay_host \<Rightarrow> string \<Rightarrow> string \<Rightarrow> string result" where
  "text_at host ref path =
     (case rh_byte_git host [''show'', ref @ '':'' @ path] None of
        ByteProcessFailed m \<Rightarrow> Raise (OSError m)
      | ByteProcess code output errors \<Rightarrow> Return (rh_decode host (if code \<noteq> 0 then [] else output)))"

fun any_pattern :: "replay_host \<Rightarrow> string \<Rightarrow> (string \<times> regex) list \<Rightarrow> bool result" where
  "any_pattern host ref [] = Return False"
| "any_pattern host ref ((path, r) # rs) =
     bindR (text_at host ref path) (\<lambda>content. if re_search r content \<noteq> None then Return True else any_pattern host ref rs)"

definition ref_complete :: "replay_host \<Rightarrow> string \<Rightarrow> bool result" where
  "ref_complete host ref =
     bindR (tracked_paths host ref) (\<lambda>tracked.
     if list_ex (\<lambda>p. p \<in> set tracked) OLD_AUTHORITY_PATHS then Return False
     else bindR (any_pattern host ref OLD_AUTHORITY_PATTERNS) (\<lambda>found. Return (\<not> found)))"

definition step8_complete :: "replay_host \<Rightarrow> string \<Rightarrow> string \<Rightarrow> bool result" where
  "step8_complete host base head_ref =
     bindR (ref_complete host base) (\<lambda>b. if \<not> b then Return False else ref_complete host head_ref)"

section \<open>The check\<close>

definition has_json_suffix :: "string \<Rightarrow> bool" where
  "has_json_suffix name \<longleftrightarrow> endswith name ''.json'' \<and> 5 < length name"

record scanned =
  sc_messages :: "string list"
  sc_manifest :: "(string \<times> members) option"
  sc_attestation :: "(string \<times> members) option"

definition scan_manifest :: "replay_host \<Rightarrow> string list \<Rightarrow> string \<Rightarrow> string \<Rightarrow> members \<Rightarrow> scanned" where
  "scan_manifest host allowlist name relative d =
     (case manifest_pr name of
        None \<Rightarrow> \<lparr>sc_messages = [relative @ '' is not named with its positive PR number''], sc_manifest = None, sc_attestation = None\<rparr>
      | Some filename_pr \<Rightarrow>
          (let messages = manifest_messages (host_error host) d relative filename_pr in
           \<lparr>sc_messages = messages @ message_when (relative \<notin> set allowlist) (relative @ '' is not listed in '' @ ALLOWLIST),
            sc_manifest = (if messages = [] then Some (relative, d) else None), sc_attestation = None\<rparr>))"

definition scan_file :: "replay_host \<Rightarrow> string list \<Rightarrow> string \<Rightarrow> scanned" where
  "scan_file host allowlist name =
     (let relative = INTENT_DIFF_DIR @ ''/'' @ name; nothing = \<lparr>sc_messages = [], sc_manifest = None, sc_attestation = None\<rparr> in
      case rh_files host relative of
        None \<Rightarrow> nothing
      | Some content \<Rightarrow>
          if name = ''.gitkeep'' then nothing
          else (case load_json_object (rh_loader host) relative content of
             Inl m \<Rightarrow> nothing\<lparr>sc_messages := message_when (has_json_suffix name \<or> contains ''attestation'' name) m\<rparr>
           | Inr d \<Rightarrow>
               if contains ''attestation'' name then nothing\<lparr>sc_attestation := Some (relative, d)\<rparr>
               else if \<not> has_json_suffix name then nothing
               else scan_manifest host allowlist name relative d))"

fun reuse_messages :: "(string \<times> string) list \<Rightarrow> (string \<times> members) list \<Rightarrow> string list" where
  "reuse_messages identities [] = []"
| "reuse_messages identities ((relative, d) # ms) =
     (let identity = field_text d ''one_use_identity'' in
      case map_of identities identity of
        Some prior \<Rightarrow> (relative @ '' reuses one_use_identity from '' @ prior) # reuse_messages identities ms
      | None \<Rightarrow> reuse_messages ((identity, relative) # identities) ms)"

definition growth_messages :: "replay_host \<Rightarrow> (string \<times> members) list \<Rightarrow> string option \<Rightarrow> string \<Rightarrow> string list result" where
  "growth_messages host manifests protected_base entry =
     bindR (case (map_of manifests entry, protected_base) of
              (Some d, Some base) \<Rightarrow> manifest_is_spent host d entry base
            | _ \<Rightarrow> Return False) (\<lambda>spent.
     if spent then Return []
     else
       let bound = (case map_of manifests entry of
                      None \<Rightarrow> [entry @ '' has no structurally valid manifest'']
                    | Some d \<Rightarrow>
                        (case protected_base of
                           None \<Rightarrow> [''cannot resolve protected merge-base for '' @ entry]
                         | Some base \<Rightarrow> bound_manifest_messages host d entry base ''HEAD''));
           grows = entry @ '' grows '' @ ALLOWLIST @ '' relative to the protected base'' in
       if bound \<noteq> [] then Return (bound @ [grows])
       else bindR (step8_complete host (the_default [] protected_base) ''HEAD'') (\<lambda>complete. Return (message_when (\<not> complete) grows)))"

text \<open>What the base contributes: messages, the entries that are new, and the protected base.\<close>

definition base_growth :: "replay_host \<Rightarrow> bool \<Rightarrow> string list \<Rightarrow> (string list \<times> string list \<times> string option) result" where
  "base_growth host enforce_base allowlist =
     (if \<not> enforce_base then Return ([], [], None)
      else
        bindR (protected_base_sha host) (\<lambda>base.
        bindR (base_entries host base) (\<lambda>entries.
        Return (case entries of
            BaseUnresolved \<Rightarrow> ([''cannot resolve protected base '' @ ALLOWLIST @ '' to enforce the shrink-only ratchet''], [], base)
          | BaseAbsent \<Rightarrow> ([], allowlist, base)
          | BasePresent (old, messages) \<Rightarrow> (messages, filter (\<lambda>e. e \<notin> set old) allowlist, base)))))"

definition directory_messages :: "replay_host \<Rightarrow> bool \<Rightarrow> string list \<Rightarrow> string list result" where
  "directory_messages host enforce_base names =
     bindR (allowlist_entries host) (\<lambda>(allowlist, allowlist_messages).
     bindR (base_growth host enforce_base allowlist) (\<lambda>(base_messages, growth, protected_base).
     let scans = map (scan_file host allowlist) (sort names);
         manifests = List.map_filter sc_manifest scans in
     bindR (mapR (growth_messages host manifests protected_base) (sort growth)) (\<lambda>grown.
     bindR (mapR (attestation_messages host manifests) (List.map_filter sc_attestation scans)) (\<lambda>attested.
     Return (allowlist_messages @ base_messages @ concat (map sc_messages scans) @ reuse_messages [] (sort_key fst manifests) @
       concat grown @ concat attested)))))"

definition repository_messages :: "replay_host \<Rightarrow> bool \<Rightarrow> (string \<times> files) option \<Rightarrow> string list result" where
  "repository_messages host enforce_base trace_root =
     bindR (admission_trace_messages (rh_loader host) (rh_files host) trace_root) (\<lambda>traces.
     let protected = map (\<lambda>relative. ''missing protected input: '' @ relative) (filter (\<lambda>p. rh_files host p = None) PROTECTED_MODULES) in
     case rh_dir host of
       None \<Rightarrow> Return (traces @ protected @ [''missing protected input directory: '' @ INTENT_DIFF_DIR])
     | Some names \<Rightarrow>
         bindR (directory_messages host enforce_base names) (\<lambda>messages. Return (traces @ protected @ messages)))"

text \<open>The command: the lines printed and the exit status; an exception leaves it.\<close>

definition replay_main :: "replay_host \<Rightarrow> (string \<Rightarrow> files) \<Rightarrow> (string list \<times> int) result" where
  "replay_main host directory =
     (let trace_root = map_option (\<lambda>shown. (shown, directory shown)) (truthy (rh_environ host ''FKST_R9_TRACE_ROOT'')) in
      bindR (repository_messages host True trace_root) (\<lambda>violations.
      Return (if violations \<noteq> [] then (map (\<lambda>v. ''R9-INTENT-BOUNDED-REPLAY: '' @ v) violations, 1)
        else ([''OK: R9 intent-bounded-replay refactor-phase checks passed; '' @ admission_trace_status (map_option snd trace_root)], 0))))"

section \<open>What passing means\<close>

text \<open>A manifest that is valid, names the protected base, carries the identity made of its number, base and digests, and whose digests are those of the tree and of the change.\<close>

definition bound_to :: "replay_host \<Rightarrow> string \<Rightarrow> string \<Rightarrow> members \<Rightarrow> bool" where
  "bound_to host base relative d \<longleftrightarrow>
     manifest_messages (host_error host) d relative (the_default 0 (manifest_pr (path_name relative))) = [] \<and>
     field_of d ''base_sha'' = AStr base \<and> field_of d ''one_use_identity'' = AStr (expected_identity d) \<and>
     semantic_hashes host base ''HEAD'' = Inr (field_text d ''semantic_tree_sha256'', field_text d ''semantic_diff_sha256'')"

lemma mismatch_Nil [simp]: "mismatch relative f declared actual = [] \<longleftrightarrow> declared = actual"
  by (simp add: mismatch_def)

lemma bound_manifest_messages_Nil: "bound_manifest_messages host d relative base ''HEAD'' = [] \<longleftrightarrow> bound_to host base relative d"
  by (auto simp: bound_manifest_messages_def bound_to_def Let_def split: sum.splits)

text \<open>An entry that is new relative to the base: its change was merged before, or its manifest is bound and the old authority is gone.\<close>

definition admitted :: "replay_host \<Rightarrow> (string \<times> members) list \<Rightarrow> string option \<Rightarrow> string \<Rightarrow> bool" where
  "admitted host manifests protected_base entry \<longleftrightarrow>
     (\<exists>d base. map_of manifests entry = Some d \<and> protected_base = Some base \<and>
        (manifest_is_spent host d entry base = Inr True \<or>
         manifest_is_spent host d entry base = Inr False \<and> bound_to host base entry d \<and> step8_complete host base ''HEAD'' = Inr True))"

lemma growth_messages_Nil: "growth_messages host manifests protected_base entry = Inr [] \<longleftrightarrow> admitted host manifests protected_base entry"
proof (cases "map_of manifests entry = None \<or> protected_base = None")
  case True
  then show ?thesis by (auto simp: growth_messages_def admitted_def Let_def split: option.splits)
next
  case False
  then obtain d base where db: "map_of manifests entry = Some d" "protected_base = Some base" by auto
  show ?thesis
  proof (cases "manifest_is_spent host d entry base")
    case (Inl e)
    then show ?thesis by (simp add: growth_messages_def admitted_def db)
  next
    case (Inr spent)
    then show ?thesis
      by (cases spent)
        (auto simp: growth_messages_def admitted_def db Let_def bindR_eq_Inr bound_manifest_messages_Nil)
  qed
qed

lemma reuse_messages_Nil:
  "reuse_messages ids ms = [] \<longleftrightarrow>
     distinct (map (\<lambda>m. field_text (snd m) ''one_use_identity'') ms) \<and>
     (\<lambda>m. field_text (snd m) ''one_use_identity'') ` set ms \<inter> fst ` set ids = {}"
proof (induction ids ms rule: reuse_messages.induct)
  case (2 ids relative d ms)
  show ?case
  proof (cases "map_of ids (field_text d ''one_use_identity'')")
    case None
    then have "field_text d ''one_use_identity'' \<notin> fst ` set ids" by (simp add: map_of_eq_None_iff)
    with None "2.IH"(1) [OF refl None] show ?thesis by (simp add: Let_def) blast
  next
    case (Some prior)
    then have "field_text d ''one_use_identity'' \<in> fst ` set ids" by (metis map_of_eq_None_iff option.distinct(1))
    with Some show ?thesis by (auto simp: Let_def)
  qed
qed simp

lemma reuse_sorted:
  "reuse_messages [] (sort_key fst ms) = [] \<longleftrightarrow> distinct (map (\<lambda>m. field_text (snd m) ''one_use_identity'') ms)"
proof -
  have "mset (map (\<lambda>m. field_text (snd m) ''one_use_identity'') (sort_key fst ms)) = mset (map (\<lambda>m. field_text (snd m) ''one_use_identity'') ms)"
    by simp
  then show ?thesis by (simp add: reuse_messages_Nil mset_eq_imp_distinct_iff)
qed

definition manifests_of :: "replay_host \<Rightarrow> string list \<Rightarrow> string list \<Rightarrow> (string \<times> members) list" where
  "manifests_of host allowlist names = List.map_filter sc_manifest (map (scan_file host allowlist) (sort names))"

definition attestations_of :: "replay_host \<Rightarrow> string list \<Rightarrow> string list \<Rightarrow> (string \<times> members) list" where
  "attestations_of host allowlist names = List.map_filter sc_attestation (map (scan_file host allowlist) (sort names))"


end
