(* ===== verification/RestartPreflight.thy ===== *)
theory RestartPreflight
  imports "HOL-Library.Multiset" IntentReplay
begin

text \<open>
  \<^verbatim>\<open>scripts/check_repo_restart_preflight.py\<close>: what a branch may add to the restart machinery relative to its
  protected base. A \<open>Counter\<close> is a multiset; \<open>_text(root, ref, path)\<close> and \<open>_step8_complete\<close> are \<open>text_at\<close> and
  \<open>step8_complete\<close> of \<open>IntentReplay\<close>. The order in which a set is iterated is that of its list, which matters only
  for which of several exceptions is raised.

  Shown here: which reference is taken as base, when a change of the checkers together with the checked code is
  admitted, what it means that the preflight finds nothing, and that an inventory that is no object ends it.
\<close>

section \<open>The host\<close>

text \<open>A value of a TOML document; \<open>TOther\<close> carries a name that equal values share.\<close>

datatype toml = TText string | TOther string | TArray "toml list" | TTable "(string \<times> toml) list"

record preflight_host =
  ph_replay :: replay_host
  ph_path :: "bytes \<Rightarrow> string" \<comment> \<open>\<open>decode("utf-8", "surrogateescape")\<close>\<close>
  ph_utf8 :: "bytes \<Rightarrow> string option" \<comment> \<open>\<open>decode("utf-8")\<close>\<close>
  ph_json_text :: "bytes \<Rightarrow> string option" \<comment> \<open>the text \<open>json.loads\<close> decodes from bytes\<close>
  ph_json_error :: "string \<Rightarrow> string" \<comment> \<open>what it says of a text it refuses\<close>
  ph_float :: "pyfloat \<Rightarrow> string"
  ph_toml :: "string \<Rightarrow> (string \<times> toml) list option" \<comment> \<open>\<open>tomllib.loads\<close>\<close>

definition run_text :: "preflight_host \<Rightarrow> string list \<Rightarrow> text_run result" where
  "run_text host args = rh_git (ph_replay host) args"

definition run_bytes :: "preflight_host \<Rightarrow> string list \<Rightarrow> (int \<times> bytes \<times> string) result" where
  "run_bytes host args =
     (case rh_byte_git (ph_replay host) args None of
        ByteProcessFailed m \<Rightarrow> Raise (OSError m)
      | ByteProcess code output errors \<Rightarrow> Return (code, output, errors))"

section \<open>The base\<close>

text \<open>\<open>[A-Za-z0-9][A-Za-z0-9._/\-]*\<close>\<close>

definition PREFLIGHT_REF_RE :: regex where
  "PREFLIGHT_REF_RE = RSeq (RSet is_alnum_ascii) (rstar (RSet ref_char))"

definition preflight_safe_ref :: "string \<Rightarrow> bool" where
  "preflight_safe_ref ref \<longleftrightarrow> ref \<notin> {'''', ''HEAD''} \<and> \<not> contains ''..'' ref \<and> fullmatches PREFLIGHT_REF_RE ref"

definition resolves :: "preflight_host \<Rightarrow> string \<Rightarrow> bool result" where
  "resolves host ref =
     bindR (run_text host [''rev-parse'', ''--verify'', ''--quiet'', ''--end-of-options'', ref @ ''^{commit}'']) (\<lambda>r.
     Return (tr_code r = 0 \<and> strip (tr_out r) \<noteq> []))"

fun first_resolved :: "preflight_host \<Rightarrow> string list \<Rightarrow> string option result" where
  "first_resolved host [] = Return None"
| "first_resolved host (ref # refs) =
     bindR (resolves host ref) (\<lambda>ok. if ok then Return (Some ref) else first_resolved host refs)"

text \<open>The upstream of the branch, else the development branch.\<close>

definition upstream_base_ref :: "preflight_host \<Rightarrow> string option result" where
  "upstream_base_ref host =
     bindR (run_text host [''rev-parse'', ''--abbrev-ref'', ''--symbolic-full-name'', ''@'' @ ''{upstream}'']) (\<lambda>upstream.
     let candidate = (if tr_code upstream = 0 then strip (tr_out upstream) else []) in
     first_resolved host ((if candidate \<noteq> [] \<and> preflight_safe_ref candidate then [candidate] else []) @ [''origin/dev'', ''dev'']))"

definition selected_base_ref :: "preflight_host \<Rightarrow> string option result" where
  "selected_base_ref host =
     (let env = rh_environ (ph_replay host) in
      case truthy (env ''FKST_RESTART_PREFLIGHT_BASE_REF'') of
        Some explicit \<Rightarrow> first_resolved host (if preflight_safe_ref explicit then [explicit] else [])
      | None \<Rightarrow>
          (case truthy (env ''GITHUB_BASE_REF'') of
             Some github_base \<Rightarrow>
               if preflight_safe_ref github_base then first_resolved host [''origin/'' @ github_base, github_base]
               else upstream_base_ref host
           | None \<Rightarrow> upstream_base_ref host))"

definition protected_merge_base :: "preflight_host \<Rightarrow> string \<Rightarrow> string option result" where
  "protected_merge_base host base_ref =
     (if \<not> preflight_safe_ref base_ref then Return None
      else bindR (resolves host base_ref) (\<lambda>ok.
        if \<not> ok then Return None
        else bindR (run_text host [''merge-base'', ''HEAD'', base_ref]) (\<lambda>r.
          let base = strip (tr_out r) in
          Return (if tr_code r = 0 \<and> base \<noteq> [] then Some base else None))))"

section \<open>Files of a commit\<close>

text \<open>The names in output that ends every name with a null byte.\<close>

definition null_names :: "preflight_host \<Rightarrow> bytes \<Rightarrow> string list" where
  "null_names host output = map (ph_path host) (filter (\<lambda>raw. raw \<noteq> []) (split_char (CHR 0x00) output))"

definition tracked_names :: "preflight_host \<Rightarrow> string \<Rightarrow> string list result" where
  "tracked_names host ref =
     bindR (run_bytes host [''ls-tree'', ''-r'', ''-z'', ''--name-only'', ref, ''--'']) (\<lambda>(code, output, errors).
     if code \<noteq> 0 then Raise (RuntimeError (''git ls-tree failed: '' @ strip errors)) else Return (null_names host output))"

definition blob_at :: "preflight_host \<Rightarrow> string \<Rightarrow> string \<Rightarrow> bytes result" where
  "blob_at host ref path =
     bindR (run_bytes host [''show'', ref @ '':'' @ path]) (\<lambda>(code, output, errors). Return (if code \<noteq> 0 then [] else output))"

abbreviation source_at :: "preflight_host \<Rightarrow> string \<Rightarrow> string \<Rightarrow> string result" where
  "source_at host \<equiv> text_at (ph_replay host)"

definition changed_names :: "preflight_host \<Rightarrow> string \<Rightarrow> string \<Rightarrow> string list result" where
  "changed_names host base head_ref =
     bindR (run_bytes host [''diff'', ''--name-only'', ''-z'', ''--no-renames'', base, head_ref, ''--'']) (\<lambda>(code, output, errors).
     if code \<noteq> 0 then Raise (RuntimeError (''git diff failed: '' @ strip errors)) else Return (remdups (null_names host output)))"

section \<open>Kinds of paths\<close>

definition SEMANTIC_TREE_CONTROL :: string where "SEMANTIC_TREE_CONTROL = ''scripts/intent_bounded_replay/semantic_tree.py''"
definition COCHANGE_GRANT_DIR :: string where "COCHANGE_GRANT_DIR = ''migration/restart-cochange-grants/''"

definition CHECKER_CONTROLS :: "string list" where
  "CHECKER_CONTROLS =
     [''scripts/check_repo_intent_bounded_replay.py'', ''scripts/check_repo_intent_bounded_replay_trace_catalog.py'',
      ''scripts/check_repo_restart_preflight.py'', ''scripts/intent_bounded_replay/compare.py'',
      ''scripts/intent_bounded_replay/corpus_manifest.json'', ''scripts/intent_bounded_replay/normalize.py'', SEMANTIC_TREE_CONTROL]"

definition SEMANTIC_PREFIXES :: "string list" where
  "SEMANTIC_PREFIXES = [''libraries/devloop/'', ''packages/github-devloop/'', ''packages/github-devloop-pr/'']"

definition lua_or_toml :: "string \<Rightarrow> bool" where
  "lua_or_toml path \<longleftrightarrow> endswith path ''.lua'' \<or> endswith path ''.toml''"

definition production_semantic :: "string \<Rightarrow> bool" where
  "production_semantic path \<longleftrightarrow> lua_or_toml path \<and> list_ex (startswith path) SEMANTIC_PREFIXES \<and> \<not> contains ''/tests/'' path"

definition checker_control :: "string \<Rightarrow> bool" where
  "checker_control path \<longleftrightarrow> path \<in> set CHECKER_CONTROLS \<or> startswith path COCHANGE_GRANT_DIR"

section \<open>Changing the checkers together with what they check\<close>

definition cat_file_exists :: "preflight_host \<Rightarrow> string \<Rightarrow> string \<Rightarrow> bool result" where
  "cat_file_exists host ref path = bindR (run_text host [''cat-file'', ''-e'', ref @ '':'' @ path]) (\<lambda>r. Return (tr_code r = 0))"

definition BLOB_OID_RE :: regex where "BLOB_OID_RE = rrep 40 (RSet hex_lower)"

definition blob_oid :: "preflight_host \<Rightarrow> string \<Rightarrow> string \<Rightarrow> string result" where
  "blob_oid host ref path =
     bindR (run_text host [''rev-parse'', ''--verify'', ''--quiet'', ''--end-of-options'', ref @ '':'' @ path]) (\<lambda>r.
     let oid = strip (tr_out r) in
     Return (if tr_code r \<noteq> 0 \<or> \<not> fullmatches BLOB_OID_RE oid then [] else oid))"

record cochange_entry =
  ce_path :: string
  ce_status :: string
  ce_old :: string
  ce_new :: string

definition cochange_delta_entry :: "preflight_host \<Rightarrow> string \<Rightarrow> string \<Rightarrow> string \<Rightarrow> cochange_entry option result" where
  "cochange_delta_entry host base head_ref path =
     bindR (blob_oid host base path) (\<lambda>old_blob.
     bindR (blob_oid host head_ref path) (\<lambda>new_blob.
     Return
       (if old_blob = [] \<and> new_blob = [] then None
        else Some \<lparr>ce_path = path, ce_status = (if old_blob = [] then ''A'' else if new_blob = [] then ''D'' else ''M''),
          ce_old = old_blob, ce_new = new_blob\<rparr>)))"

text \<open>The entries a grant has to have, unless a path has no blob on either side.\<close>

fun expected_entries :: "preflight_host \<Rightarrow> string \<Rightarrow> string \<Rightarrow> string list \<Rightarrow> (string \<times> cochange_entry) list option result" where
  "expected_entries host base head_ref [] = Return (Some [])"
| "expected_entries host base head_ref (path # paths) =
     bindR (cochange_delta_entry host base head_ref path) (\<lambda>entry.
     case entry of
       None \<Rightarrow> Return None
     | Some e \<Rightarrow> bindR (expected_entries host base head_ref paths) (\<lambda>rest. Return (map_option (\<lambda>es. (path, e) # es) rest)))"

text \<open>\<open>json.dumps(body, sort_keys=True, separators=(",", ":"), ensure_ascii=False)\<close>\<close>

fun canonical_body :: "(pyfloat \<Rightarrow> string) \<Rightarrow> json \<Rightarrow> string" where
  "canonical_body show_float JNull = ''null''"
| "canonical_body show_float (JBool b) = (if b then ''true'' else ''false'')"
| "canonical_body show_float (JInt i) = str_int i"
| "canonical_body show_float (JFloat f) = show_float f"
| "canonical_body show_float (JStr s) = dumps_str False s"
| "canonical_body show_float (JArr xs) = ''['' @ join '','' (map (canonical_body show_float) xs) @ '']''"
| "canonical_body show_float (JObj d) =
     ''{'' @ join '','' (map (\<lambda>(k, t). dumps_str False k @ '':'' @ t)
        (sort_key fst (map (\<lambda>(k, v). (k, canonical_body show_float v)) d))) @ ''}''"

definition COCHANGE_GRANT_FIELDS :: "string list" where "COCHANGE_GRANT_FIELDS = [''schema'', ''entries'', ''grant_sha256'']"
definition COCHANGE_ENTRY_FIELDS :: "string list" where "COCHANGE_ENTRY_FIELDS = [''path'', ''status'', ''old_blob'', ''new_blob'']"

fun unhashable :: "json \<Rightarrow> bool" where
  "unhashable (JArr _) = True"
| "unhashable (JObj _) = True"
| "unhashable _ = False"

definition oid_or_empty :: "json \<Rightarrow> bool" where
  "oid_or_empty v = (case v of JStr s \<Rightarrow> s = [] \<or> fullmatches BLOB_OID_RE s | _ \<Rightarrow> False)"

text \<open>One entry of a grant, after the paths of the entries before it. Membership in a set of a value that has no hash raises.\<close>

definition grant_entry :: "string list \<Rightarrow> json \<Rightarrow> cochange_entry option result" where
  "grant_entry seen entry =
     (case entry of
        JObj d \<Rightarrow>
          (if set (map fst d) \<noteq> set COCHANGE_ENTRY_FIELDS then Return None
           else case jget d ''path'' of
             JStr path \<Rightarrow>
               if path = [] \<or> path \<in> set seen then Return None
               else if unhashable (jget d ''status'') then Raise (TypeError ''unhashable type'')
               else (case (jget d ''status'', jget d ''old_blob'', jget d ''new_blob'') of
                  (JStr status, JStr old_blob, JStr new_blob) \<Rightarrow>
                    Return
                      (if status \<in> {''M'', ''A'', ''D''} \<and> oid_or_empty (JStr old_blob) \<and> oid_or_empty (JStr new_blob)
                       then Some \<lparr>ce_path = path, ce_status = status, ce_old = old_blob, ce_new = new_blob\<rparr> else None)
                | _ \<Rightarrow> Return None)
           | _ \<Rightarrow> Return None)
      | _ \<Rightarrow> Return None)"

fun grant_entries :: "(string \<times> cochange_entry) list \<Rightarrow> json list \<Rightarrow> (string \<times> cochange_entry) list option result" where
  "grant_entries acc [] = Return (Some acc)"
| "grant_entries acc (entry # entries) =
     bindR (grant_entry (map fst acc) entry) (\<lambda>e.
     case e of None \<Rightarrow> Return None | Some c \<Rightarrow> grant_entries (acc @ [(ce_path c, c)]) entries)"

definition same_entries :: "(string \<times> cochange_entry) list \<Rightarrow> (string \<times> cochange_entry) list \<Rightarrow> bool" where
  "same_entries xs ys \<longleftrightarrow> set xs = set ys"

text \<open>The object of a grant whose fields, schema and digest are right.\<close>

definition grant_document :: "preflight_host \<Rightarrow> bytes \<Rightarrow> jobject option" where
  "grant_document host blob =
     (case Option.bind (ph_json_text host blob) json_loads of
        Some (JObj d) \<Rightarrow>
          if set (map fst d) = set COCHANGE_GRANT_FIELDS \<and> jget d ''schema'' = JStr ''fkst.restart-cochange-grant.v1'' \<and>
            jget d ''grant_sha256'' = JStr (sha256_hex (utf8 (canonical_body (ph_float host) (JObj (AList.delete ''grant_sha256'' d)))))
          then Some d else None
      | _ \<Rightarrow> None)"

definition grant_admits :: "preflight_host \<Rightarrow> string \<Rightarrow> string \<Rightarrow> (string \<times> cochange_entry) list \<Rightarrow> string \<Rightarrow> bool result" where
  "grant_admits host base head_ref expected grant_path =
     bindR (cat_file_exists host base grant_path) (\<lambda>there.
     if \<not> there then Return False
     else
       bindR (blob_at host base grant_path) (\<lambda>base_blob.
       bindR (blob_at host head_ref grant_path) (\<lambda>head_blob.
       if base_blob \<noteq> head_blob then Return False
       else case grant_document host base_blob of
         None \<Rightarrow> Return False
       | Some d \<Rightarrow>
           (case jget d ''entries'' of
              JArr entries \<Rightarrow>
                bindR (grant_entries [] entries) (\<lambda>actual.
                Return (case actual of None \<Rightarrow> False | Some es \<Rightarrow> same_entries es expected))
            | _ \<Rightarrow> Return False))))"

fun any_grant :: "(string \<Rightarrow> bool result) \<Rightarrow> string list \<Rightarrow> bool result" where
  "any_grant admits [] = Return False"
| "any_grant admits (p # ps) = bindR (admits p) (\<lambda>ok. if ok then Return True else any_grant admits ps)"

definition grant_path :: "string \<Rightarrow> bool" where
  "grant_path path \<longleftrightarrow> startswith path COCHANGE_GRANT_DIR \<and> endswith path ''.json''"

fun is_runtime_error :: "py_error \<Rightarrow> bool" where
  "is_runtime_error (RuntimeError _) = True"
| "is_runtime_error _ = False"

definition cochange_admitted :: "preflight_host \<Rightarrow> string \<Rightarrow> string \<Rightarrow> string list \<Rightarrow> string list \<Rightarrow> bool result" where
  "cochange_admitted host base head_ref changed_checkers changed_semantics =
     bindR (expected_entries host base head_ref (remdups (changed_checkers @ changed_semantics))) (\<lambda>expected.
     case expected of
       None \<Rightarrow> Return False
     | Some es \<Rightarrow>
         (case tracked_names host base of
            Inl e \<Rightarrow> if is_runtime_error e then Return False else Raise e
          | Inr names \<Rightarrow> any_grant (grant_admits host base head_ref es) (sort (filter grant_path names))))"

section \<open>Patterns\<close>

definition rword_alt :: "string list \<Rightarrow> regex" where
  "rword_alt ws = RSeq RWordB (ralt (map rlit ws))"

definition rcall :: regex where "rcall = RSeq (rstar rspace) (rchar CHR ''('')"

definition AUTHORITY_CALL_RE :: regex where
  "AUTHORITY_CALL_RE = RSeq (rword_alt [''decide_transition'', ''seal_snapshot'', ''mint_grant'', ''verify_grant'']) rcall"

definition GRANT_FACTORY_RE :: regex where
  "GRANT_FACTORY_RE = RSeq (rword_alt [''mint_grant'', ''verify_grant'', ''restart_effect_seal'']) RWordB"

definition OWNER_SEAL_RE :: regex where
  "OWNER_SEAL_RE = RSeq (rword_alt [''owner_seal'', ''_owner_snapshot_seal'', ''_owner_grant_seal'', ''seal_snapshot'']) RWordB"

definition ANOMALY_RE :: regex where
  "ANOMALY_RE =
     RAlt (rseq [rlit ''restart'', RSet (\<lambda>c. c \<in> set ''_-''), rlit ''transition'', RSet (\<lambda>c. c \<in> set ''_-''), rlit ''anomaly''])
       (rlit ''restart-transition-anomaly.v1'')"

definition DURABLE_TRANSPORT_RE :: regex where
  "DURABLE_TRANSPORT_RE =
     rseq [RWordB,
       ralt (map rlit [''source_ref'', ''dedup_key'', ''delivery_id'', ''delivery_key'', ''durable_identity'', ''event_id'', ''idempotency_key'',
           ''message_id'', ''content_fetch''] @ [RSeq (rlit ''rehydrat'') (rstar (RSet ident_char))]), RWordB]"

definition GRANT_TRANSPORT_RE :: regex where
  "GRANT_TRANSPORT_RE =
     rseq [RWordB,
       ralt (map rlit [''grant'', ''mint_grant'', ''verify_grant'', ''restart_sink_grants'', ''transition_grant'', ''effect_grant''] @
         [rseq [rlit ''require'', ropt (rchar CHR ''s''), rlit ''_grant''], rlit ''grant_required'']), RWordB]"

definition quote_char :: "char \<Rightarrow> bool" where "quote_char c \<longleftrightarrow> c = DQ \<or> c = SQ"

text \<open>A quoted text with its content as a group, and \<open>.{0,n}?\<close>.\<close>

definition rquoted :: "string \<Rightarrow> regex" where
  "rquoted g = rseq [RSet quote_char, RGroup g (rplus (RSet (\<lambda>c. \<not> quote_char c))), RSet quote_char]"

fun rlazy_upto :: "nat \<Rightarrow> regex \<Rightarrow> regex" where
  "rlazy_upto 0 r = REmpty"
| "rlazy_upto (Suc n) r = RAlt REmpty (RSeq r (rlazy_upto n r))"

definition lua_list_re :: "string \<Rightarrow> regex" where
  "lua_list_re f =
     rseq [RWordB, rlit f, rstar rspace, rchar CHR ''='', rstar rspace, rchar CHR ''{'',
       RGroup ''body'' (rstar (RSet (\<lambda>c. c \<notin> set ''{}''))), rchar CHR ''}'']"

definition LUA_STRING_RE :: regex where "LUA_STRING_RE = rquoted ''1''"

definition RAISE_CALL_RE :: regex where
  "RAISE_CALL_RE =
     rseq [rword_alt [''raise'', ''log_raise''], rcall, RGroup ''body'' (rlazy_upto 800 (RSet (\<lambda>_. True))), rchar CHR '')'']"

definition QUEUE_RECORD_RE :: regex where
  "QUEUE_RECORD_RE =
     rseq [RWordB, rlit ''queue'', rcall, rstar rspace, rquoted ''department'', rstar rspace, rchar CHR '','', rstar rspace,
       rquoted ''queue'', rstar rspace, rchar CHR '','', rstar rspace, rquoted ''authority'']"

definition matched_group :: "string \<Rightarrow> rematch \<Rightarrow> string" where
  "matched_group g found = the_default [] (m_group found g)"

definition lua_strings :: "string \<Rightarrow> string list" where
  "lua_strings body = map (matched_group ''1'') (re_finditer LUA_STRING_RE body)"

definition mentions_anomaly :: "string \<Rightarrow> bool" where
  "mentions_anomaly s \<longleftrightarrow> re_search ANOMALY_RE s \<noteq> None"

section \<open>What a change adds\<close>

definition new_matches :: "regex \<Rightarrow> string \<Rightarrow> string \<Rightarrow> string multiset" where
  "new_matches r old new = mset (re_findall r new) - mset (re_findall r old)"

definition lua_list_values :: "string \<Rightarrow> string \<Rightarrow> string multiset" where
  "lua_list_values source f =
     mset (concat (map (\<lambda>found. lua_strings (matched_group ''body'' found)) (re_finditer (lua_list_re f) source)))"

definition added_lua_values :: "preflight_host \<Rightarrow> string \<Rightarrow> string \<Rightarrow> string \<Rightarrow> string \<Rightarrow> string multiset result" where
  "added_lua_values host base head_ref path f =
     bindR (source_at host head_ref path) (\<lambda>new. bindR (source_at host base path) (\<lambda>old.
     Return (lua_list_values new f - lua_list_values old f)))"

definition qualify_queue :: "string \<Rightarrow> string \<Rightarrow> string" where
  "qualify_queue owner queue = (if CHR ''.'' \<in> set queue then queue else owner @ ''.'' @ queue)"

definition R7_QUEUES :: "string list" where
  "R7_QUEUES = [''github-devloop.restart_transition_anomaly'', ''github-devloop-pr.restart_transition_anomaly'']"

definition R7_INGESTION :: string where "R7_INGESTION = ''github-devloop-ops.observability''"

definition R7_OWNER_DEPARTMENTS :: "(string \<times> string) list" where
  "R7_OWNER_DEPARTMENTS =
     [(''packages/github-devloop/departments/observe_issue/main.lua'', ''github-devloop.observe_issue''),
      (''packages/github-devloop-pr/departments/observe_pr/main.lua'', ''github-devloop-pr.observe_pr'')]"

definition R7_SINK_INVENTORIES :: "(string \<times> string) list" where
  "R7_SINK_INVENTORIES =
     [(''packages/github-devloop/core/restart/sink_inventory.lua'', ''github-devloop''),
      (''packages/github-devloop-pr/core/restart/sink_inventory.lua'', ''github-devloop-pr'')]"

definition R7_OPS_DEPARTMENT :: string where "R7_OPS_DEPARTMENT = ''packages/github-devloop-ops/departments/observability/main.lua''"
definition R7_OPS_MANIFEST :: string where "R7_OPS_MANIFEST = ''packages/github-devloop-ops/fkst.toml''"

definition R7_PRODUCTION_PATHS :: "string list" where
  "R7_PRODUCTION_PATHS = map fst R7_OWNER_DEPARTMENTS @ map fst R7_SINK_INVENTORIES @ [R7_OPS_DEPARTMENT, R7_OPS_MANIFEST]"

definition owner_of :: "string \<Rightarrow> string" where
  "owner_of department = takeWhile (\<lambda>c. c \<noteq> CHR ''.'') department"

definition raise_records :: "string \<Rightarrow> string \<Rightarrow> string multiset" where
  "raise_records source department =
     mset (map (\<lambda>v. department @ ''->'' @ qualify_queue (owner_of department) v)
       (filter mentions_anomaly
         (concat (map (\<lambda>found. lua_strings (matched_group ''body'' found)) (re_finditer RAISE_CALL_RE source)))))"

definition sink_records :: "string \<Rightarrow> string \<Rightarrow> string multiset" where
  "sink_records source owner =
     mset (map (\<lambda>found. qualify_queue owner (matched_group ''queue'' found))
       (filter (\<lambda>found. mentions_anomaly (matched_group ''queue'' found) \<and> matched_group ''authority'' found = ''grantless-telemetry'')
         (re_finditer QUEUE_RECORD_RE source)))"

fun toml_hashable :: "toml \<Rightarrow> bool" where
  "toml_hashable (TArray _) = False"
| "toml_hashable (TTable _) = False"
| "toml_hashable _ = True"

definition event_dependencies :: "preflight_host \<Rightarrow> string \<Rightarrow> toml list result" where
  "event_dependencies host source =
     (if source = [] then Return []
      else case ph_toml host source of
        None \<Rightarrow> Return []
      | Some document \<Rightarrow>
          (case the_default (TTable []) (map_of document ''event_deps'') of
             TTable deps \<Rightarrow>
               (case the_default (TArray []) (map_of deps ''packages'') of
                  TArray xs \<Rightarrow> if list_all toml_hashable xs then Return (remdups xs) else Raise (TypeError ''unhashable type'')
                | _ \<Rightarrow> Return [])
           | _ \<Rightarrow> Raise AttributeError))"

section \<open>The anomaly transport\<close>

definition loaded_object :: "preflight_host \<Rightarrow> bytes \<Rightarrow> members option" where
  "loaded_object host blob = Option.bind (Option.bind (ph_utf8 host blob) loads_json) as_members"

definition same_identity :: "preflight_host \<Rightarrow> string \<Rightarrow> artifact \<Rightarrow> string \<Rightarrow> bool result" where
  "same_identity host head_ref identity path =
     bindR (blob_at host head_ref path) (\<lambda>blob.
     Return (case loaded_object host blob of None \<Rightarrow> False | Some other \<Rightarrow> field_of other ''one_use_identity'' = identity))"

text \<open>Reading another manifest is inside \<open>try\<close>: whatever it raises, the manifest is passed over.\<close>

definition reuses_identity :: "preflight_host \<Rightarrow> string \<Rightarrow> artifact \<Rightarrow> string \<Rightarrow> bool" where
  "reuses_identity host head_ref identity path = (same_identity host head_ref identity path = Return True)"

definition anomaly_manifest :: "preflight_host \<Rightarrow> string \<Rightarrow> string \<Rightarrow> string list \<Rightarrow> string list \<Rightarrow> members option result" where
  "anomaly_manifest host base head_ref changed paths =
     (case filter (fullmatches numbered_manifest_re) changed of
        [relative] \<Rightarrow>
          (case map_option (loaded_object host) (case blob_at host head_ref relative of Inl e \<Rightarrow> None | Inr blob \<Rightarrow> Some blob) of
             Some (Some artifact) \<Rightarrow>
               if \<not> has_field artifact ''anomaly_transport'' then Return None
               else bindR (source_at host head_ref ALLOWLIST) (\<lambda>content.
                 case parse_allowlist ALLOWLIST (splitlines content) of (allowlist, messages) \<Rightarrow>
                   Return
                     (if messages \<noteq> [] \<or> relative \<notin> set allowlist \<or>
                        bound_manifest_messages (ph_replay host) artifact relative base head_ref \<noteq> [] \<or>
                        list_ex (\<lambda>path. path \<noteq> relative \<and> fullmatches numbered_manifest_re path \<and>
                          reuses_identity host head_ref (field_of artifact ''one_use_identity'') path) paths
                      then None else Some artifact))
           | _ \<Rightarrow> Return None)
      | _ \<Rightarrow> Return None)"

definition owner_produces :: "preflight_host \<Rightarrow> string \<Rightarrow> string \<Rightarrow> string multiset result" where
  "owner_produces host base head_ref =
     bindR (mapR (\<lambda>(path, department).
         bindR (added_lua_values host base head_ref path ''produces'') (\<lambda>added.
         Return (image_mset (qualify_queue (owner_of department)) added))) R7_OWNER_DEPARTMENTS) (\<lambda>counts.
     Return (sum_list counts))"

text \<open>What a reading of the files of one side has more than that of the other.\<close>

definition added_records :: "preflight_host \<Rightarrow> string \<Rightarrow> string \<Rightarrow> (string \<Rightarrow> string \<Rightarrow> string multiset) \<Rightarrow> (string \<times> string) list \<Rightarrow> string multiset result" where
  "added_records host base head_ref records table =
     bindR (mapR (\<lambda>(path, owner).
         bindR (source_at host head_ref path) (\<lambda>new. bindR (source_at host base path) (\<lambda>old.
         Return (records new owner - records old owner)))) table) (\<lambda>counts.
     Return (sum_list counts))"

definition added_dependencies :: "preflight_host \<Rightarrow> string \<Rightarrow> string \<Rightarrow> toml list result" where
  "added_dependencies host base head_ref =
     bindR (source_at host head_ref R7_OPS_MANIFEST) (\<lambda>new. bindR (event_dependencies host new) (\<lambda>after.
     bindR (source_at host base R7_OPS_MANIFEST) (\<lambda>old. bindR (event_dependencies host old) (\<lambda>prior.
     Return (filter (\<lambda>d. d \<notin> set prior) after)))))"

definition adds_to_file :: "preflight_host \<Rightarrow> string \<Rightarrow> string \<Rightarrow> string \<Rightarrow> regex \<Rightarrow> bool result" where
  "adds_to_file host base head_ref path r =
     bindR (source_at host base path) (\<lambda>old. bindR (source_at host head_ref path) (\<lambda>new. Return (new_matches r old new \<noteq> {#})))"

fun none_adds :: "(string \<times> regex \<Rightarrow> bool result) \<Rightarrow> (string \<times> regex) list \<Rightarrow> bool result" where
  "none_adds gains [] = Return True"
| "none_adds gains (p # ps) = bindR (gains p) (\<lambda>b. if b then Return False else none_adds gains ps)"

definition durable_or_grant_checks :: "(string \<times> regex) list" where
  "durable_or_grant_checks = concat (map (\<lambda>path. [(path, DURABLE_TRANSPORT_RE), (path, GRANT_TRANSPORT_RE)]) R7_PRODUCTION_PATHS)"

text \<open>\<open>a == b\<close> of dictionaries with distinct keys\<close>

definition same_members :: "members \<Rightarrow> members \<Rightarrow> bool" where
  "same_members a b \<longleftrightarrow> set (map fst a) = set (map fst b) \<and> list_all (\<lambda>(k, v). map_of a k = Some v) b"

definition counted_keys :: "string multiset \<Rightarrow> string list" where
  "counted_keys m = remdups (sorted_list_of_multiset m)"

text \<open>The atoms of the change; the first dependency is read only where there is at most one (\<open>exact_shape\<close>).\<close>

definition actual_atoms :: "string multiset \<Rightarrow> string multiset \<Rightarrow> string multiset \<Rightarrow> string multiset \<Rightarrow> toml list \<Rightarrow> members" where
  "actual_atoms produced consumed ephemeral deliveries dependencies =
     [(''qualified_queues'', AArr (map AStr (counted_keys produced))),
      (''ops_dependency'', AStr (case dependencies of TText s # _ \<Rightarrow> s | _ \<Rightarrow> [])),
      (''ephemeral_consumes'', AArr (map AStr (counted_keys ephemeral))),
      (''ingestion'', AStr (if consumed \<noteq> {#} then R7_INGESTION else [])),
      (''package_visible_delivery_delta'', AStr (join '';'' (counted_keys deliveries)))]"

definition EXPECTED_DELIVERIES :: "string list" where
  "EXPECTED_DELIVERIES =
     [''github-devloop.observe_issue->github-devloop.restart_transition_anomaly'',
      ''github-devloop-pr.observe_pr->github-devloop-pr.restart_transition_anomaly'']"

definition exact_shape :: "string multiset \<Rightarrow> string multiset \<Rightarrow> string multiset \<Rightarrow> string multiset \<Rightarrow> string multiset \<Rightarrow> toml list \<Rightarrow> bool" where
  "exact_shape produced consumed ephemeral deliveries sinks dependencies \<longleftrightarrow>
     produced = mset R7_QUEUES \<and> consumed = mset R7_QUEUES \<and> ephemeral = mset R7_QUEUES \<and>
     deliveries = mset EXPECTED_DELIVERIES \<and> sinks = mset R7_QUEUES \<and> dependencies = [TText ''github-devloop-pr'']"

definition r7_semantic :: "string \<Rightarrow> bool" where
  "r7_semantic path \<longleftrightarrow>
     lua_or_toml path \<and>
     list_ex (startswith path) [''packages/github-devloop/'', ''packages/github-devloop-pr/'', ''packages/github-devloop-ops/''] \<and>
     \<not> contains ''/tests/'' path"

definition no_other_behavior :: "string list \<Rightarrow> members \<Rightarrow> bool" where
  "no_other_behavior changed artifact \<longleftrightarrow>
     set (filter r7_semantic changed) = set R7_PRODUCTION_PATHS \<and>
     list_all (\<lambda>f. field_of artifact f = AArr []) [''changed_row_ids'', ''changed_edge_ids'', ''changed_policy_ids'']"

definition anomaly_shape_admitted :: "preflight_host \<Rightarrow> string \<Rightarrow> string \<Rightarrow> string list \<Rightarrow> members \<Rightarrow> bool result" where
  "anomaly_shape_admitted host base head_ref changed artifact =
     bindR (owner_produces host base head_ref) (\<lambda>produced.
     bindR (added_records host base head_ref raise_records R7_OWNER_DEPARTMENTS) (\<lambda>deliveries.
     bindR (added_lua_values host base head_ref R7_OPS_DEPARTMENT ''consumes'') (\<lambda>consumed.
     bindR (added_lua_values host base head_ref R7_OPS_DEPARTMENT ''ephemeral'') (\<lambda>ephemeral.
     bindR (added_dependencies host base head_ref) (\<lambda>dependencies.
     bindR (added_records host base head_ref sink_records R7_SINK_INVENTORIES) (\<lambda>sinks.
     bindR (none_adds (\<lambda>(path, r). adds_to_file host base head_ref path r) durable_or_grant_checks) (\<lambda>no_transport.
     Return
       (exact_shape produced consumed ephemeral deliveries sinks dependencies \<and> no_other_behavior changed artifact \<and> no_transport \<and>
        (case as_members (field_of artifact ''anomaly_transport'') of
           None \<Rightarrow> False
         | Some atoms \<Rightarrow> same_members atoms (actual_atoms produced consumed ephemeral deliveries dependencies))))))))))"

definition r7_anomaly_admitted :: "preflight_host \<Rightarrow> string \<Rightarrow> string \<Rightarrow> string list \<Rightarrow> string list \<Rightarrow> bool result" where
  "r7_anomaly_admitted host base head_ref changed paths =
     bindR (anomaly_manifest host base head_ref changed paths) (\<lambda>artifact.
     case artifact of
       None \<Rightarrow> Return False
     | Some d \<Rightarrow>
         bindR (step8_complete (ph_replay host) base head_ref) (\<lambda>complete.
         if \<not> complete then Return False else anomaly_shape_admitted host base head_ref changed d))"

section \<open>The inventory\<close>

definition INVENTORY :: string where "INVENTORY = ''migration/restart-lifecycle.inventory.json''"

definition inventory_unreadable :: "string \<Rightarrow> string" where
  "inventory_unreadable what = ''inventory-unreadable: '' @ INVENTORY @ '': '' @ what"

text \<open>\<open>all(isinstance(path, str) and path for path in watched)\<close>\<close>

definition watched_paths :: "json \<Rightarrow> string list option" where
  "watched_paths v =
     (case v of
        JArr xs \<Rightarrow> if list_all (\<lambda>x. case x of JStr s \<Rightarrow> s \<noteq> [] | _ \<Rightarrow> False) xs then Some (List.map_filter as_str xs) else None
      | _ \<Rightarrow> None)"

definition writer_token :: "json \<Rightarrow> string option" where
  "writer_token site =
     (case site of
        JObj d \<Rightarrow>
          (case jget d ''ordinal'' of
             JStr ordinal \<Rightarrow>
               (let token = takeWhile (\<lambda>c. c \<noteq> CHR '':'') ordinal in if fullmatches RIDENT token then Some token else None)
           | _ \<Rightarrow> None)
      | _ \<Rightarrow> None)"

text \<open>The watched files and the names of writers, or what is wrong with the object.\<close>

definition inventory_of :: "jobject \<Rightarrow> string + string list \<times> string list" where
  "inventory_of document =
     (case watched_paths (jget document ''watched_files'') of
        None \<Rightarrow> Inl ''watched_files must be an array of paths''
      | Some watched \<Rightarrow>
          (case as_arr (jget document ''production_writer_sites'') of
             None \<Rightarrow> Inl ''production_writer_sites must be an array''
           | Some sites \<Rightarrow>
               (let tokens = remdups (List.map_filter writer_token sites) in
                if tokens = [] then Inl ''no writer primitives derived from production_writer_sites''
                else Inr (remdups watched, tokens))))"

definition inventory_contract :: "preflight_host \<Rightarrow> string \<Rightarrow> (string list \<times> string list \<times> string list) result" where
  "inventory_contract host head_ref =
     bindR (source_at host head_ref INVENTORY) (\<lambda>source.
     case json_loads source of
       None \<Rightarrow> Return ([], [], [inventory_unreadable (ph_json_error host source)])
     | Some v \<Rightarrow>
         (case as_obj v of
            None \<Rightarrow> Raise AttributeError
          | Some document \<Rightarrow>
              Return (case inventory_of document of
                  Inl what \<Rightarrow> ([], [], [inventory_unreadable what])
                | Inr (watched, tokens) \<Rightarrow> (watched, tokens, []))))"

section \<open>The messages\<close>

definition attestation_source :: "string \<Rightarrow> bool" where
  "attestation_source source \<longleftrightarrow>
     (case json_loads source of Some (JObj d) \<Rightarrow> jget d ''schema'' = JStr ''fkst.intent-diff-attestation.v1'' | _ \<Rightarrow> False)"

definition attestation_message :: "preflight_host \<Rightarrow> string \<Rightarrow> string \<Rightarrow> string list result" where
  "attestation_message host head_ref path =
     (if \<not> endswith path ''.json'' then Return []
      else bindR (source_at host head_ref path) (\<lambda>source.
        Return (message_when (attestation_source source) (''tracked-attestation: '' @ path @ '' is a tracked CI attestation; attestations must stay outside the tracked tree''))))"

definition concat_messages :: "(string \<Rightarrow> string list result) \<Rightarrow> string list \<Rightarrow> string list result" where
  "concat_messages f paths = bindR (mapR f paths) (\<lambda>ms. Return (concat ms))"

definition exposure_surface :: "string \<Rightarrow> bool" where
  "exposure_surface path \<longleftrightarrow>
     startswith path ''libraries/devloop/'' \<and> path \<noteq> ''libraries/devloop/restart_effect_seal.lua'' \<or>
     contains ''/departments/'' path \<or> contains ''/raisers/'' path \<or> startswith path ''libraries/devloop/di/'' \<or> endswith path ''/fkst.toml''"

definition exposure_message :: "preflight_host \<Rightarrow> string \<Rightarrow> string \<Rightarrow> string \<Rightarrow> string list result" where
  "exposure_message host base head_ref path =
     (if \<not> production_semantic path then Return []
      else bindR (source_at host base path) (\<lambda>old. bindR (source_at host head_ref path) (\<lambda>new.
        Return
          (message_when (exposure_surface path \<and> new_matches GRANT_FACTORY_RE old new \<noteq> {#})
             (''grant-factory-exposure: '' @ path @ '' adds a grant factory/verifier to a shared or public production surface'') @
           message_when (exposure_surface path \<and> new_matches OWNER_SEAL_RE old new \<noteq> {#})
             (''owner-seal-exposure: '' @ path @ '' adds an owner seal to a shared, DI, manifest, or receiver surface'')))))"

definition unwatched :: "string list \<Rightarrow> string list \<Rightarrow> string list" where
  "unwatched changed watched = sort (filter (\<lambda>p. p \<notin> set watched) changed)"

definition writer_re :: "string list \<Rightarrow> regex" where
  "writer_re tokens = RSeq (rword_alt (sort tokens)) rcall"

definition unlisted_message :: "preflight_host \<Rightarrow> string \<Rightarrow> string \<Rightarrow> string list \<Rightarrow> string \<Rightarrow> string list result" where
  "unlisted_message host base head_ref tokens path =
     (if \<not> production_semantic path \<or> \<not> endswith path ''.lua'' then Return []
      else bindR (source_at host base path) (\<lambda>old. bindR (source_at host head_ref path) (\<lambda>new.
        Return
          (message_when (new_matches AUTHORITY_CALL_RE old new \<noteq> {#})
             (''unlisted-authority-caller: '' @ path @ '' adds a restart authority call outside '' @ INVENTORY @ '' watched_files'') @
           message_when (new_matches (writer_re tokens) old new \<noteq> {#})
             (''unlisted-writer: '' @ path @ '' adds a writer primitive derived from '' @ INVENTORY @ '' outside watched_files'')))))"

definition ALLOWED_ANOMALY_SHADOW_PATHS :: "string list" where
  "ALLOWED_ANOMALY_SHADOW_PATHS =
     [''libraries/devloop/restart_transition_anomaly.lua'', ''packages/github-devloop/core/restart_analysis.lua'',
      ''packages/github-devloop-pr/core/restart_analysis.lua'', ''libraries/devloop/fkst.toml'']"

definition activation_message :: "preflight_host \<Rightarrow> string \<Rightarrow> string \<Rightarrow> string \<Rightarrow> string list result" where
  "activation_message host base head_ref path =
     (if \<not> production_semantic path \<or> path \<in> set ALLOWED_ANOMALY_SHADOW_PATHS \<or> contains ''/tests/'' path then Return []
      else bindR (source_at host base path) (\<lambda>old. bindR (source_at host head_ref path) (\<lambda>new.
        Return (message_when (new_matches ANOMALY_RE old new \<noteq> {#})
          (''anomaly-transport-activation: '' @ path @
           '' activates restart anomaly production, ingestion, dependency, or delivery during refactor'')))))"

definition activation_messages :: "preflight_host \<Rightarrow> string \<Rightarrow> string \<Rightarrow> string list \<Rightarrow> string list result" where
  "activation_messages host base head_ref changed =
     bindR (concat_messages (activation_message host base head_ref) (sort changed)) (\<lambda>messages.
     if messages = [] then Return []
     else bindR (tracked_names host head_ref) (\<lambda>paths.
       bindR (r7_anomaly_admitted host base head_ref changed paths) (\<lambda>admitted.
       Return (if admitted then [] else messages))))"

definition cochange_messages :: "preflight_host \<Rightarrow> string \<Rightarrow> string \<Rightarrow> string list \<Rightarrow> string list result" where
  "cochange_messages host base head_ref changed =
     (let changed_checkers = sort (filter checker_control changed); changed_semantics = sort (filter production_semantic changed) in
      if changed_checkers = [] \<or> changed_semantics = [] then Return []
      else bindR (cochange_admitted host base head_ref changed_checkers changed_semantics) (\<lambda>admitted.
        Return (message_when (\<not> admitted)
          (''checker-checked-cochange: checker controls and production restart semantics changed together (checkers='' @
           join '','' changed_checkers @ ''; semantics='' @ join '','' changed_semantics @ '')''))))"

definition change_messages :: "preflight_host \<Rightarrow> string \<Rightarrow> string \<Rightarrow> string list \<Rightarrow> string list \<Rightarrow> string list result" where
  "change_messages host base head_ref paths changed =
     bindR (inventory_contract host head_ref) (\<lambda>(watched, writer_tokens, inventory).
     bindR (concat_messages (attestation_message host head_ref) paths) (\<lambda>attested.
     bindR (cochange_messages host base head_ref changed) (\<lambda>cochange.
     bindR (concat_messages (exposure_message host base head_ref) (unwatched changed watched)) (\<lambda>exposed.
     bindR (if writer_tokens = [] then Return []
            else concat_messages (unlisted_message host base head_ref writer_tokens) (unwatched changed watched)) (\<lambda>unlisted.
     bindR (activation_messages host base head_ref changed) (\<lambda>activated.
     Return (inventory @ attested @
       message_when (SEMANTIC_TREE_CONTROL \<in> set changed)
         (''exclusion-control-changed: '' @ SEMANTIC_TREE_CONTROL @ '' differs from the protected base'') @
       cochange @ exposed @ unlisted @ activated)))))))"

definition unresolved_base :: "string \<Rightarrow> string list" where
  "unresolved_base what = [''protected-base-unresolved: '' @ what]"

definition chosen_base_ref :: "preflight_host \<Rightarrow> string option \<Rightarrow> string option result" where
  "chosen_base_ref host base_ref = (case truthy base_ref of None \<Rightarrow> selected_base_ref host | Some ref \<Rightarrow> Return (Some ref))"

definition preflight_messages :: "preflight_host \<Rightarrow> string option \<Rightarrow> string \<Rightarrow> string list result" where
  "preflight_messages host base_ref head_ref =
     bindR (chosen_base_ref host base_ref) (\<lambda>selected.
     case selected of
       None \<Rightarrow> Return (unresolved_base ''configure GITHUB_BASE_REF or FKST_RESTART_PREFLIGHT_BASE_REF'')
     | Some ref \<Rightarrow>
         bindR (protected_merge_base host ref) (\<lambda>merge_base.
         case merge_base of
           None \<Rightarrow> Return (unresolved_base (''cannot resolve merge base for '' @ ref))
         | Some base \<Rightarrow>
             (case bindR (tracked_names host head_ref) (\<lambda>paths. bindR (changed_names host base head_ref) (\<lambda>changed. Return (paths, changed))) of
                Inl e \<Rightarrow> if is_runtime_error e then Return (unresolved_base (str_exc e)) else Raise e
              | Inr (paths, changed) \<Rightarrow> change_messages host base head_ref paths changed)))"

text \<open>The command: the lines printed and the exit status.\<close>

definition preflight_main :: "preflight_host \<Rightarrow> (string list \<times> int) result" where
  "preflight_main host =
     bindR (preflight_messages host None ''HEAD'') (\<lambda>messages.
     Return (if messages \<noteq> [] then (map (\<lambda>m. ''R9-RESTART-PREFLIGHT: '' @ m) messages, 1)
       else ([''OK: R9 protected-base restart preflight passed''], 0)))"

section \<open>What passing means\<close>

lemma new_matches_empty [simp]: "new_matches r old new = {#} \<longleftrightarrow> mset (re_findall r new) \<subseteq># mset (re_findall r old)"
  by (simp add: new_matches_def Diff_eq_empty_iff_mset)

lemma concat_messages_Nil: "concat_messages f ps = Inr [] \<longleftrightarrow> list_all (\<lambda>p. f p = Inr []) ps"
  by (simp only: concat_messages_def bindR_eq_Inr sum.inject mapR_concat_Nil)

text \<open>Both sides of a file can be read, and no pattern of the list matches more texts, or one more often, after the change.\<close>

definition keeps :: "preflight_host \<Rightarrow> string \<Rightarrow> string \<Rightarrow> regex list \<Rightarrow> string \<Rightarrow> bool" where
  "keeps host base head_ref rs path \<longleftrightarrow>
     (\<exists>old new. source_at host base path = Inr old \<and> source_at host head_ref path = Inr new \<and>
        list_all (\<lambda>r. mset (re_findall r new) \<subseteq># mset (re_findall r old)) rs)"

lemma keeps_append: "keeps host base head_ref (rs @ qs) path \<longleftrightarrow> keeps host base head_ref rs path \<and> keeps host base head_ref qs path"
  by (auto simp: keeps_def)

definition exposure_patterns :: "string \<Rightarrow> regex list" where
  "exposure_patterns path = (if exposure_surface path then [GRANT_FACTORY_RE, OWNER_SEAL_RE] else [])"

lemma exposure_message_Nil:
  "exposure_message host base head_ref path = Inr [] \<longleftrightarrow>
     (production_semantic path \<longrightarrow> keeps host base head_ref (exposure_patterns path) path)"
  by (auto simp: exposure_message_def keeps_def exposure_patterns_def bindR_eq_Inr)

lemma unlisted_message_Nil:
  "unlisted_message host base head_ref tokens path = Inr [] \<longleftrightarrow>
     (production_semantic path \<and> endswith path ''.lua'' \<longrightarrow> keeps host base head_ref [AUTHORITY_CALL_RE, writer_re tokens] path)"
  by (auto simp: unlisted_message_def keeps_def bindR_eq_Inr)

lemma activation_message_Nil:
  "activation_message host base head_ref path = Inr [] \<longleftrightarrow>
     (production_semantic path \<and> path \<notin> set ALLOWED_ANOMALY_SHADOW_PATHS \<longrightarrow> keeps host base head_ref [ANOMALY_RE] path)"
  by (auto simp: activation_message_def keeps_def bindR_eq_Inr production_semantic_def)

definition no_attestation :: "preflight_host \<Rightarrow> string \<Rightarrow> string \<Rightarrow> bool" where
  "no_attestation host head_ref path \<longleftrightarrow>
     (endswith path ''.json'' \<longrightarrow>
        (\<exists>source. source_at host head_ref path = Inr source \<and> \<not> attestation_source source))"

lemma attestation_message_Nil: "attestation_message host head_ref path = Inr [] \<longleftrightarrow> no_attestation host head_ref path"
  by (auto simp: attestation_message_def no_attestation_def bindR_eq_Inr)

lemma sort_filter_Nil: "sort (filter P xs) = [] \<longleftrightarrow> \<not> list_ex P xs"
  by (metis filter_empty_conv list_ex_iff set_empty set_sort)

lemma cochange_messages_Nil:
  "cochange_messages host base head_ref changed = Inr [] \<longleftrightarrow>
     (list_ex checker_control changed \<and> list_ex production_semantic changed \<longrightarrow>
        cochange_admitted host base head_ref (sort (filter checker_control changed)) (sort (filter production_semantic changed)) = Inr True)"
  by (auto simp: cochange_messages_def Let_def sort_filter_Nil bindR_eq_Inr)

lemma list_all_sort_filter: "list_all P (sort (filter Q xs)) \<longleftrightarrow> list_all (\<lambda>x. Q x \<longrightarrow> P x) xs"
  by (auto simp: list_all_iff)

lemma inventory_of_tokens: "inventory_of document = Inr (watched, tokens) \<Longrightarrow> tokens \<noteq> []"
  by (auto simp: inventory_of_def Let_def split: option.split_asm if_split_asm)

text \<open>The inventory can be read and lists these files and writers.\<close>

definition inventory_lists :: "preflight_host \<Rightarrow> string \<Rightarrow> string list \<Rightarrow> string list \<Rightarrow> bool" where
  "inventory_lists host head_ref watched tokens \<longleftrightarrow>
     (\<exists>source document. source_at host head_ref INVENTORY = Inr source \<and> json_loads source = Some (JObj document) \<and>
        inventory_of document = Inr (watched, tokens))"

lemma as_obj_Some: "as_obj v = Some d \<longleftrightarrow> v = JObj d"
  by (cases v) auto

lemma inventory_contract_Nil: "inventory_contract host head_ref = Inr (watched, tokens, []) \<longleftrightarrow> inventory_lists host head_ref watched tokens"
  by (auto simp: inventory_contract_def inventory_lists_def bindR_eq_Inr as_obj_Some split: option.split_asm sum.split_asm)

lemma inventory_lists_tokens: "inventory_lists host head_ref watched tokens \<Longrightarrow> tokens \<noteq> []"
  by (auto simp: inventory_lists_def dest: inventory_of_tokens)

subsection \<open>Admitted changes of the checkers\<close>

lemma expected_entries_iff:
  "expected_entries host base head_ref ps = Inr (Some es) \<longleftrightarrow>
     list_all2 (\<lambda>p (q, e). q = p \<and> cochange_delta_entry host base head_ref p = Inr (Some e)) ps es"
proof (induction ps arbitrary: es)
  case (Cons p ps)
  show ?case
    by (auto simp: bindR_eq_Inr list_all2_Cons1 Cons.IH split: option.split_asm)
qed auto

lemma first_found_Cons:
  "(\<exists>before q after. p # ps = before @ q # after \<and> list_all Q before \<and> R q) \<longleftrightarrow>
     R p \<or> Q p \<and> (\<exists>before q after. ps = before @ q # after \<and> list_all Q before \<and> R q)" (is "?L \<longleftrightarrow> ?R")
proof
  assume ?L
  then obtain before q after where "p # ps = before @ q # after" "list_all Q before" "R q" by blast
  then show ?R by (cases before) auto
next
  assume ?R
  then consider "R p" | before q after where "Q p" "ps = before @ q # after" "list_all Q before" "R q" by blast
  then show ?L
  proof cases
    case 1
    then show ?thesis by (intro exI [of _ "[]"]) simp
  next
    case 2
    then show ?thesis by (intro exI [of _ "p # before"]) simp
  qed
qed

lemma any_grant_True:
  "any_grant admits ps = Inr True \<longleftrightarrow>
     (\<exists>before p after. ps = before @ p # after \<and> list_all (\<lambda>q. admits q = Inr False) before \<and> admits p = Inr True)"
proof (induction ps)
  case (Cons p ps)
  have "any_grant admits (p # ps) = Inr True \<longleftrightarrow> admits p = Inr True \<or> admits p = Inr False \<and> any_grant admits ps = Inr True"
    by (cases "admits p") auto
  then show ?case unfolding first_found_Cons Cons.IH .
qed simp

text \<open>
  A grant that is on the base, unchanged at the head, whose digest is that of its own body, and whose entries are
  exactly these.
\<close>

definition grant_matches :: "preflight_host \<Rightarrow> string \<Rightarrow> string \<Rightarrow> (string \<times> cochange_entry) list \<Rightarrow> string \<Rightarrow> bool" where
  "grant_matches host base head_ref es path \<longleftrightarrow>
     (\<exists>blob d entries actual.
        cat_file_exists host base path = Inr True \<and> blob_at host base path = Inr blob \<and> blob_at host head_ref path = Inr blob \<and>
        Option.bind (ph_json_text host blob) json_loads = Some (JObj d) \<and> set (map fst d) = set COCHANGE_GRANT_FIELDS \<and>
        jget d ''schema'' = JStr ''fkst.restart-cochange-grant.v1'' \<and>
        jget d ''grant_sha256'' = JStr (sha256_hex (utf8 (canonical_body (ph_float host) (JObj (AList.delete ''grant_sha256'' d))))) \<and>
        jget d ''entries'' = JArr entries \<and> grant_entries [] entries = Inr (Some actual) \<and> set actual = set es)"

lemma grant_document_Some:
  "grant_document host blob = Some d \<longleftrightarrow>
     Option.bind (ph_json_text host blob) json_loads = Some (JObj d) \<and> set (map fst d) = set COCHANGE_GRANT_FIELDS \<and>
     jget d ''schema'' = JStr ''fkst.restart-cochange-grant.v1'' \<and>
     jget d ''grant_sha256'' = JStr (sha256_hex (utf8 (canonical_body (ph_float host) (JObj (AList.delete ''grant_sha256'' d)))))"
  unfolding grant_document_def
  by (cases "Option.bind (ph_json_text host blob) json_loads") (simp, rename_tac v, case_tac v, simp_all, blast)

lemma grant_admits_True: "grant_admits host base head_ref es path = Inr True \<longleftrightarrow> grant_matches host base head_ref es path"
proof -
  have entries: "(case jget d ''entries'' of
       JArr entries \<Rightarrow> bindR (grant_entries [] entries) (\<lambda>actual. Return (case actual of None \<Rightarrow> False | Some xs \<Rightarrow> same_entries xs es))
     | _ \<Rightarrow> Return False) = Inr True \<longleftrightarrow>
     (\<exists>entries actual. jget d ''entries'' = JArr entries \<and> grant_entries [] entries = Inr (Some actual) \<and> set actual = set es)" for d
    by (cases "jget d ''entries''") (auto simp: bindR_eq_Inr same_entries_def split: option.split_asm)
  have matches: "grant_matches host base head_ref es path \<longleftrightarrow>
      (\<exists>blob d. cat_file_exists host base path = Inr True \<and> blob_at host base path = Inr blob \<and> blob_at host head_ref path = Inr blob \<and>
         grant_document host blob = Some d \<and>
         (\<exists>entries actual. jget d ''entries'' = JArr entries \<and> grant_entries [] entries = Inr (Some actual) \<and> set actual = set es))"
    unfolding grant_matches_def grant_document_Some by (simp only: ex_simps conj_assoc)
  have none: "(case x of None \<Rightarrow> Return False | Some d \<Rightarrow> f d) = Inr True \<longleftrightarrow> (\<exists>d. x = Some d \<and> f d = Inr True)"
    for x and f :: "jobject \<Rightarrow> bool result" by (cases x) simp_all
  have refused: "(if b then Return False else m) = Inr True \<longleftrightarrow> \<not> b \<and> m = Inr True" for b and m :: "bool result" by simp
  show ?thesis
    unfolding matches unfolding grant_admits_def by (simp only: bindR_eq_Inr refused none entries) auto
qed

lemma found_nested:
  "(\<exists>es. P es \<and> (\<exists>ns. Q ns \<and> (\<exists>before p after. F ns before p after \<and> S es before \<and> T es p))) \<longleftrightarrow>
     (\<exists>es ns before p after. P es \<and> Q ns \<and> F ns before p after \<and> S es before \<and> T es p)"
  by blast

text \<open>
  A change of checkers together with restart code is admitted exactly if every changed path has a blob on one
  side, and some grant that already is on the protected base, is the same at the head, and carries the digest of its
  body lists exactly the changed paths with their status and both blobs; the grants before it are refused without
  an exception.
\<close>

theorem cochange_admitted_iff:
  "cochange_admitted host base head_ref checkers semantics = Inr True \<longleftrightarrow>
     (\<exists>es names before path after.
        list_all2 (\<lambda>p (q, e). q = p \<and> cochange_delta_entry host base head_ref p = Inr (Some e)) (remdups (checkers @ semantics)) es \<and>
        tracked_names host base = Inr names \<and> sort (filter grant_path names) = before @ path # after \<and>
        list_all (\<lambda>p. grant_admits host base head_ref es p = Inr False) before \<and> grant_matches host base head_ref es path)"
proof -
  have names: "(case tracked_names host base of
       Inl e \<Rightarrow> if is_runtime_error e then Return False else Raise e
     | Inr names \<Rightarrow> any_grant (grant_admits host base head_ref es) (sort (filter grant_path names))) = Inr True \<longleftrightarrow>
     (\<exists>names. tracked_names host base = Inr names \<and> any_grant (grant_admits host base head_ref es) (sort (filter grant_path names)) = Inr True)" for es
    by (cases "tracked_names host base") simp_all
  have "cochange_admitted host base head_ref checkers semantics = Inr True \<longleftrightarrow>
      (\<exists>es. expected_entries host base head_ref (remdups (checkers @ semantics)) = Inr (Some es) \<and>
        (\<exists>names. tracked_names host base = Inr names \<and> any_grant (grant_admits host base head_ref es) (sort (filter grant_path names)) = Inr True))"
  proof (cases "expected_entries host base head_ref (remdups (checkers @ semantics))")
    case (Inr expected)
    then show ?thesis by (cases expected) (simp_all add: cochange_admitted_def names)
  qed (simp add: cochange_admitted_def)
  then show ?thesis unfolding any_grant_True grant_admits_True expected_entries_iff found_nested .
qed


subsection \<open>A clean preflight\<close>

definition cochange_ok :: "preflight_host \<Rightarrow> string \<Rightarrow> string \<Rightarrow> string list \<Rightarrow> bool" where
  "cochange_ok host base head_ref changed \<longleftrightarrow>
     (list_ex checker_control changed \<and> list_ex production_semantic changed \<longrightarrow>
        cochange_admitted host base head_ref (sort (filter checker_control changed)) (sort (filter production_semantic changed)) = Inr True)"

text \<open>A changed production file that the inventory does not watch: no new exposure, and no new call in a Lua file.\<close>

definition unwatched_ok :: "preflight_host \<Rightarrow> string \<Rightarrow> string \<Rightarrow> string list \<Rightarrow> string \<Rightarrow> bool" where
  "unwatched_ok host base head_ref tokens path \<longleftrightarrow>
     keeps host base head_ref
       (exposure_patterns path @ (if endswith path ''.lua'' then [AUTHORITY_CALL_RE, writer_re tokens] else [])) path"

definition file_ok :: "preflight_host \<Rightarrow> string \<Rightarrow> string \<Rightarrow> string list \<Rightarrow> string list \<Rightarrow> string \<Rightarrow> bool" where
  "file_ok host base head_ref watched tokens path \<longleftrightarrow>
     path \<in> set watched \<or> \<not> production_semantic path \<or> unwatched_ok host base head_ref tokens path"

text \<open>No file activates the anomaly transport, or the change is the one that may.\<close>

definition activation_ok :: "preflight_host \<Rightarrow> string \<Rightarrow> string \<Rightarrow> string list \<Rightarrow> string list \<Rightarrow> bool" where
  "activation_ok host base head_ref paths changed \<longleftrightarrow>
     list_all (\<lambda>p. production_semantic p \<longrightarrow> p \<notin> set ALLOWED_ANOMALY_SHADOW_PATHS \<longrightarrow> keeps host base head_ref [ANOMALY_RE] p) changed \<or>
     list_all (\<lambda>p. production_semantic p \<longrightarrow> p \<notin> set ALLOWED_ANOMALY_SHADOW_PATHS \<longrightarrow> keeps host base head_ref [] p) changed \<and>
     r7_anomaly_admitted host base head_ref changed paths = Inr True"

lemma unwatched_ok_split:
  "unwatched_ok host base head_ref tokens path \<longleftrightarrow>
     keeps host base head_ref (exposure_patterns path) path \<and>
     (endswith path ''.lua'' \<longrightarrow> keeps host base head_ref [AUTHORITY_CALL_RE, writer_re tokens] path)"
  by (cases "endswith path ''.lua''") (auto simp: unwatched_ok_def keeps_append)

lemma activation_message_Inr:
  "(\<exists>ms. activation_message host base head_ref path = Inr ms) \<longleftrightarrow>
     (production_semantic path \<longrightarrow> path \<notin> set ALLOWED_ANOMALY_SHADOW_PATHS \<longrightarrow> keeps host base head_ref [] path)"
  by (auto simp: activation_message_def keeps_def bindR_eq_Inr production_semantic_def)

lemma mapR_returns: "(\<exists>ys. mapR f xs = Inr ys) \<longleftrightarrow> list_all (\<lambda>x. \<exists>y. f x = Inr y) xs"
  by (induction xs) (auto simp: bindR_eq_Inr)

lemma concat_messages_returns: "(\<exists>ms. concat_messages f ps = Inr ms) \<longleftrightarrow> list_all (\<lambda>p. \<exists>ms. f p = Inr ms) ps"
  by (simp add: concat_messages_def bindR_eq_Inr mapR_returns)

lemma list_all_sort: "list_all P (sort xs) \<longleftrightarrow> list_all P xs"
  by (simp add: list_all_iff)

lemma activation_messages_Nil:
  assumes "tracked_names host head_ref = Inr paths"
  shows "activation_messages host base head_ref changed = Inr [] \<longleftrightarrow> activation_ok host base head_ref paths changed"
proof -
  let ?run = "concat_messages (activation_message host base head_ref) (sort changed)"
  have "activation_messages host base head_ref changed = Inr [] \<longleftrightarrow>
      ?run = Inr [] \<or> (\<exists>ms. ?run = Inr ms) \<and> r7_anomaly_admitted host base head_ref changed paths = Inr True"
  proof (cases ?run)
    case (Inr ms)
    then show ?thesis
      by (cases "ms = []"; cases "r7_anomaly_admitted host base head_ref changed paths") (simp_all add: activation_messages_def assms)
  qed (simp add: activation_messages_def)
  then show ?thesis
    unfolding activation_ok_def concat_messages_Nil concat_messages_returns activation_message_Inr activation_message_Nil list_all_sort
    by (simp add: imp_conjL)
qed

lemma change_messages_Nil:
  assumes "tracked_names host head_ref = Inr paths"
  shows "change_messages host base head_ref paths changed = Inr [] \<longleftrightarrow>
    (\<exists>watched tokens. inventory_lists host head_ref watched tokens \<and> list_all (no_attestation host head_ref) paths \<and>
       SEMANTIC_TREE_CONTROL \<notin> set changed \<and> cochange_ok host base head_ref changed \<and>
       list_all (file_ok host base head_ref watched tokens) changed \<and>
       activation_ok host base head_ref paths changed)"
proof -
  have files: "list_all (\<lambda>p. exposure_message host base head_ref p = Inr []) (unwatched changed watched) \<and>
      list_all (\<lambda>p. unlisted_message host base head_ref tokens p = Inr []) (unwatched changed watched) \<longleftrightarrow>
      list_all (file_ok host base head_ref watched tokens) changed" for watched tokens
    unfolding unwatched_def list_all_sort_filter exposure_message_Nil unlisted_message_Nil file_ok_def unwatched_ok_split
    by (auto simp: list_all_iff)
  have "change_messages host base head_ref paths changed = Inr [] \<longleftrightarrow>
    (\<exists>watched tokens. inventory_lists host head_ref watched tokens \<and> list_all (no_attestation host head_ref) paths \<and>
       SEMANTIC_TREE_CONTROL \<notin> set changed \<and> cochange_ok host base head_ref changed \<and>
       (list_all (\<lambda>p. exposure_message host base head_ref p = Inr []) (unwatched changed watched) \<and>
        list_all (\<lambda>p. unlisted_message host base head_ref tokens p = Inr []) (unwatched changed watched)) \<and>
       activation_ok host base head_ref paths changed)"
    unfolding change_messages_def inventory_contract_Nil [symmetric] activation_messages_Nil [OF assms, symmetric]
      cochange_ok_def cochange_messages_Nil [symmetric] attestation_message_Nil [symmetric] concat_messages_Nil [symmetric]
    by (auto simp: bindR_eq_Inr dest: inventory_lists_tokens [folded inventory_contract_Nil] split: if_split_asm)
  then show ?thesis unfolding files .
qed


subsection \<open>Errors and the base\<close>


lemma first_resolved_Some: "first_resolved host refs = Inr (Some ref) \<Longrightarrow> ref \<in> set refs \<and> resolves host ref = Inr True"
  by (induction refs) (auto simp: bindR_eq_Inr split: if_splits)

lemma safe_fallbacks: "preflight_safe_ref ''dev''" "preflight_safe_ref ''origin/dev''"
  by code_simp+

text \<open>The reference that is taken as base names a commit, and is no option and no range.\<close>

lemma upstream_base_ref_verified:
  "upstream_base_ref host = Inr (Some ref) \<Longrightarrow> preflight_safe_ref ref \<and> resolves host ref = Inr True"
  using safe_fallbacks by (auto simp: upstream_base_ref_def bindR_eq_Inr Let_def dest!: first_resolved_Some split: if_splits)

end
