(* ===== verification/RestartLifecycle.thy ===== *)
theory RestartLifecycle
  imports RestartPreflight ShrinkOnly
begin

text \<open>
  \<^verbatim>\<open>scripts/check_repo_restart_lifecycle.py\<close>: the inventory of the old restart behaviour, its closed schema, the sites
  it lists, and the allowlist of the sites that were not observed, which can only shrink and only with evidence.

  The inventory is a decoded JSON document; files, git, the text of decoder errors, floats and \<open>str()\<close> of containers
  are parameters, and so is the dash (U+2014) of two messages, which is beyond the modelled code points. Shown here:
  when a site may leave the allowlist, that the allowlist is a shrink-only ledger of the sites without observation,
  and that a document whose digest was fixed is read back with the digest it should have.
\<close>

section \<open>The host and the names\<close>

record lifecycle_host =
  lh_files :: files
  lh_environ :: environ
  lh_git :: git
  lh_float :: "pyfloat \<Rightarrow> string"
  lh_str :: "json \<Rightarrow> string" \<comment> \<open>\<open>str()\<close> of floats and containers\<close>
  lh_json_error :: "string \<Rightarrow> string" \<comment> \<open>message, line and column of a decoder error\<close>
  lh_dash :: string

definition LIFECYCLE_ALLOWLIST :: string where "LIFECYCLE_ALLOWLIST = ''migration/restart-lifecycle.allowlist''"
definition LIFECYCLE_SCHEMA :: string where "LIFECYCLE_SCHEMA = ''restart-lifecycle.inventory.v1''"
definition OBS_SCHEMA :: string where "OBS_SCHEMA = ''restart-old-behavior-observation.v2''"

definition NEW_MODULE_TOKENS :: "string list" where
  "NEW_MODULE_TOKENS =
     [''restart_edges'', ''restart_cas_catalog'', ''restart_authority'', ''restart_effect_entitlements'', ''restart_owner_pending_projection'']"

definition ENUMERATED_SITE_LIST_KEYS :: "string list" where
  "ENUMERATED_SITE_LIST_KEYS =
     [''production_writer_sites'', ''effect_sink_sites'', ''row_replay_sites'', ''published_intent_sites'',
      ''receiver_activation_acceptors'', ''consumer_entry_acceptors'', ''direct_constructor_sites'', ''shared_issue_row_exports'',
      ''ops_issue_row_reader_sites'', ''owner_observation_fact_sites'', ''grantless_sink_sites'']"

definition TOP_LEVEL_KEYS :: "string list" where
  "TOP_LEVEL_KEYS =
     [''schema'', ''version'', ''source_tree'', ''old_behavior_observations'', ''old_pending_projection'',
      ''production_writer_sites'', ''effect_sink_sites'', ''row_replay_sites'', ''published_intent_sites'',
      ''receiver_activation_acceptors'', ''consumer_entry_acceptors'', ''direct_constructor_sites'', ''shared_issue_row_exports'',
      ''ops_issue_row_reader_sites'', ''owner_observation_fact_sites'', ''grantless_sink_sites'', ''unobserved_sites'',
      ''watched_files'', ''artifact_sha256'']"

definition OBSERVATION_KEYS :: "string list" where
  "OBSERVATION_KEYS =
     [''schema'', ''observation_id'', ''owner'', ''site'', ''boundary'', ''typed_intent'', ''old_inputs'', ''old_outcome'', ''evidence_refs'']"

definition SITE_KEYS :: "string list" where "SITE_KEYS = [''path'', ''symbol'', ''ordinal'']"

definition TYPED_INTENT_KEYS :: "string list" where
  "TYPED_INTENT_KEYS =
     [''kind'', ''source_state'', ''source_boundary'', ''target'', ''cause_schema_id'', ''generation_epoch'', ''lineage'']"

definition OLD_INPUT_KEYS :: "string list" where
  "OLD_INPUT_KEYS = [''current_fact'', ''caller_from_states'', ''incoming_version'', ''target_version'', ''handoff_reference'']"

definition OLD_OUTCOME_KEYS :: "string list" where
  "OLD_OUTCOME_KEYS =
     [''status'', ''reason_code'', ''cas_outcome'', ''emitted_effects'', ''observable_writes'', ''handoff_direct_lookup_count'',
      ''timeout_evidence_source'']"

definition EMITTED_EFFECT_KEYS :: "string list" where
  "EMITTED_EFFECT_KEYS = [''effect_id'', ''sink_kind'', ''authority_class'', ''ordinal'']"

definition UNOBSERVED_SITE_KEYS :: "string list" where
  "UNOBSERVED_SITE_KEYS = [''site_id'', ''category'', ''path'', ''symbol'', ''ordinal'', ''why'']"

definition BOUNDARIES :: "string list" where
  "BOUNDARIES =
     [''writer'', ''effect_sink'', ''receiver_activation'', ''entry_acceptor'', ''published_intent_producer'', ''row_replay'',
      ''shared_row_export'', ''owner_observation_fact'', ''observation_fact_reader'']"

definition SINK_KINDS :: "string list" where
  "SINK_KINDS = [''queue'', ''comment'', ''label'', ''adapter'', ''codex'', ''git'', ''merge'']"

definition AUTHORITY_CLASSES :: "string list" where
  "AUTHORITY_CLASSES =
     [''lifecycle-authoritative'', ''grantless-published-intent'', ''grantless-telemetry'', ''grantless-non-lifecycle'']"

section \<open>The digest of a document\<close>

definition artifact_sha256_for_document :: "(pyfloat \<Rightarrow> string) \<Rightarrow> jobject \<Rightarrow> string" where
  "artifact_sha256_for_document show_float document =
     sha256_hex (utf8 (canonical_body show_float (JObj (AList.delete ''artifact_sha256'' document))))"

text \<open>\<open>json.dumps(v, ensure_ascii=False, indent=2, sort_keys=True)\<close>, inside \<open>k\<close> spaces.\<close>

definition new_line :: "nat \<Rightarrow> string" where
  "new_line k = LF # replicate k (CHR '' '')"

fun indented :: "(pyfloat \<Rightarrow> string) \<Rightarrow> nat \<Rightarrow> json \<Rightarrow> string" where
  "indented show_float k JNull = ''null''"
| "indented show_float k (JBool b) = (if b then ''true'' else ''false'')"
| "indented show_float k (JInt i) = str_int i"
| "indented show_float k (JFloat f) = show_float f"
| "indented show_float k (JStr s) = dumps_str False s"
| "indented show_float k (JArr xs) =
     (if xs = [] then ''[]''
      else ''['' @ new_line (k + 2) @ join (CHR '','' # new_line (k + 2)) (map (indented show_float (k + 2)) xs) @ new_line k @ '']'')"
| "indented show_float k (JObj d) =
     (if d = [] then ''{}''
      else ''{'' @ new_line (k + 2) @
        join (CHR '','' # new_line (k + 2))
          (map (\<lambda>(key, t). dumps_str False key @ '': '' @ t)
            (sort_key fst (map (\<lambda>(key, v). (key, indented show_float (k + 2) v)) d))) @
        new_line k @ ''}'')"

text \<open>The text \<open>write_inventory\<close> writes, and the document \<open>normalize_artifact_sha256\<close> writes.\<close>

definition inventory_text :: "(pyfloat \<Rightarrow> string) \<Rightarrow> jobject \<Rightarrow> string" where
  "inventory_text show_float document = indented show_float 0 (JObj document) @ [LF]"

definition normalized :: "(pyfloat \<Rightarrow> string) \<Rightarrow> jobject \<Rightarrow> jobject" where
  "normalized show_float document =
     AList.update ''artifact_sha256'' (JStr (artifact_sha256_for_document show_float document)) document"

text \<open>\<open>load_inventory\<close>: the file is there, or reading it raises.\<close>

definition read_inventory :: "lifecycle_host \<Rightarrow> string result" where
  "read_inventory host = (case lh_files host INVENTORY of None \<Rightarrow> Raise (OSError INVENTORY) | Some content \<Rightarrow> content)"

definition load_inventory :: "lifecycle_host \<Rightarrow> json result" where
  "load_inventory host =
     bindR (read_inventory host) (\<lambda>source.
     case json_loads source of None \<Rightarrow> Raise (JSONDecodeError (lh_json_error host source)) | Some v \<Rightarrow> Return v)"

text \<open>For a document that is no object \<open>dict(document)\<close> or the assignment raises; whether \<open>TypeError\<close> or \<open>ValueError\<close> is not told apart.\<close>

definition normalize_artifact_sha256 :: "lifecycle_host \<Rightarrow> lifecycle_host result" where
  "normalize_artifact_sha256 host =
     bindR (load_inventory host) (\<lambda>inventory.
     case as_obj inventory of
       None \<Rightarrow> Raise (TypeError ''not an object'')
     | Some d \<Rightarrow>
         Return (host\<lparr>lh_files := (lh_files host)(INVENTORY \<mapsto> Inr (inventory_text (lh_float host) (normalized (lh_float host) d)))\<rparr>))"

section \<open>Closed objects\<close>

definition has_key :: "jobject \<Rightarrow> string \<Rightarrow> bool" where
  "has_key d k \<longleftrightarrow> map_of d k \<noteq> None"

definition unknown_keys :: "jobject \<Rightarrow> string list \<Rightarrow> string list" where
  "unknown_keys d keys = sort (filter (\<lambda>k. k \<notin> set keys) (remdups (map fst d)))"

definition closed_messages :: "string \<Rightarrow> string \<Rightarrow> jobject \<Rightarrow> string list \<Rightarrow> string list" where
  "closed_messages missing unknown d keys =
     map (\<lambda>k. missing @ k) (filter (\<lambda>k. \<not> has_key d k) keys) @ map (\<lambda>k. unknown @ k) (unknown_keys d keys)"

definition inventory_says :: "string \<Rightarrow> string" where
  "inventory_says what = INVENTORY @ '': '' @ what"

definition validate_top_level :: "jobject \<Rightarrow> string list" where
  "validate_top_level inventory =
     closed_messages (inventory_says ''missing top-level key '') (inventory_says ''unknown top-level key '') inventory TOP_LEVEL_KEYS"

definition validate_closed_object :: "json \<Rightarrow> string list \<Rightarrow> string \<Rightarrow> string list" where
  "validate_closed_object v keys label =
     (case as_obj v of
        None \<Rightarrow> [label @ '': must be an object'']
      | Some d \<Rightarrow> closed_messages (label @ '': missing key '') (label @ '': unknown key '') d keys)"

section \<open>Observations\<close>

fun nonempty_str :: "json \<Rightarrow> bool" where
  "nonempty_str (JStr s) = (s \<noteq> [])"
| "nonempty_str _ = False"

fun is_null :: "json \<Rightarrow> bool" where
  "is_null JNull = True"
| "is_null _ = False"

definition is_str :: "json \<Rightarrow> bool" where "is_str v \<longleftrightarrow> as_str v \<noteq> None"
definition is_obj :: "json \<Rightarrow> bool" where "is_obj v \<longleftrightarrow> as_obj v \<noteq> None"
definition is_arr :: "json \<Rightarrow> bool" where "is_arr v \<longleftrightarrow> as_arr v \<noteq> None"

fun int_at_least :: "int \<Rightarrow> json \<Rightarrow> bool" where
  "int_at_least n (JInt i) = (n \<le> i)"
| "int_at_least n _ = False"

definition field_messages :: "(json \<Rightarrow> bool) \<Rightarrow> string \<Rightarrow> jobject \<Rightarrow> string \<Rightarrow> string list \<Rightarrow> string list" where
  "field_messages good must d prefix_text keys =
     map (\<lambda>k. prefix_text @ k @ must) (filter (\<lambda>k. \<not> good (jget d k)) keys)"

text \<open>\<open>str(sorted(s))\<close> of a set of plain strings\<close>

definition shown_set :: "string list \<Rightarrow> string" where
  "shown_set xs = ''['' @ join '', '' (map (\<lambda>x. [SQ] @ x @ [SQ]) (sort xs)) @ '']''"

text \<open>\<open>v not in s\<close> raises for a value without a hash.\<close>

definition choice_messages :: "json \<Rightarrow> string list \<Rightarrow> string \<Rightarrow> string list result" where
  "choice_messages v choices label =
     (if unhashable v then Raise (TypeError ''unhashable type'')
      else Return (message_when (\<not> (\<exists>s \<in> set choices. v = JStr s)) (label @ '' must be one of '' @ shown_set choices)))"

definition site_messages :: "json \<Rightarrow> string \<Rightarrow> string list" where
  "site_messages site label =
     (case as_obj site of
        None \<Rightarrow> [label @ '': site must be an object'']
      | Some d \<Rightarrow>
          map (\<lambda>k. label @ ''.site: unknown key '' @ k) (unknown_keys d SITE_KEYS) @
          concat (map (\<lambda>k.
            if \<not> has_key d k then [label @ ''.site: missing key '' @ k]
            else message_when (\<not> nonempty_str (jget d k)) (label @ ''.site.'' @ k @ '': must be a non-empty string'')) SITE_KEYS))"

definition typed_intent_messages :: "json \<Rightarrow> string \<Rightarrow> string list" where
  "typed_intent_messages v label =
     validate_closed_object v TYPED_INTENT_KEYS label @
     (case as_obj v of
        None \<Rightarrow> []
      | Some d \<Rightarrow>
          field_messages nonempty_str '': must be a non-empty string'' d (label @ ''.'') [''kind'', ''cause_schema_id''] @
          field_messages (\<lambda>x. is_null x \<or> is_str x) '': must be a string or null'' d (label @ ''.'') [''source_state'', ''source_boundary'', ''target''] @
          field_messages is_obj '': must be an object'' d (label @ ''.'') [''generation_epoch'', ''lineage''])"

definition old_input_messages :: "json \<Rightarrow> string \<Rightarrow> string list" where
  "old_input_messages v label =
     validate_closed_object v OLD_INPUT_KEYS label @
     (case as_obj v of
        None \<Rightarrow> []
      | Some d \<Rightarrow>
          field_messages is_obj '': must be an object'' d (label @ ''.'') [''current_fact''] @
          field_messages (\<lambda>x. is_obj x \<or> is_arr x) '': must be an array or object'' d (label @ ''.'') [''caller_from_states''] @
          field_messages nonempty_str '': must be a non-empty string'' d (label @ ''.'') [''incoming_version''] @
          field_messages (\<lambda>x. is_null x \<or> nonempty_str x) '': must be a non-empty string or null'' d (label @ ''.'') [''target_version''] @
          field_messages (\<lambda>x. is_null x \<or> is_obj x) '': must be an object or null'' d (label @ ''.'') [''handoff_reference''])"

definition effect_messages :: "string \<Rightarrow> nat \<Rightarrow> json \<Rightarrow> string list result" where
  "effect_messages label i v =
     (let here = label @ ''.emitted_effects['' @ str_int (int i) @ '']'' in
      case as_obj v of
        None \<Rightarrow> Return [here @ '': must be an object'']
      | Some d \<Rightarrow>
          bindR (choice_messages (jget d ''sink_kind'') SINK_KINDS (here @ ''.sink_kind:'')) (\<lambda>kinds.
          bindR (choice_messages (jget d ''authority_class'') AUTHORITY_CLASSES (here @ ''.authority_class:'')) (\<lambda>classes.
          Return (validate_closed_object v EMITTED_EFFECT_KEYS here @
            field_messages nonempty_str '': must be a non-empty string'' d (here @ ''.'') [''effect_id''] @ kinds @ classes @
            field_messages (int_at_least 1) '': must be a positive integer'' d (here @ ''.'') [''ordinal'']))))"

definition emitted_messages :: "jobject \<Rightarrow> string \<Rightarrow> string list result" where
  "emitted_messages outcome label =
     (case as_arr (jget outcome ''emitted_effects'') of
        None \<Rightarrow> Return [label @ ''.emitted_effects: must be an array'']
      | Some effects \<Rightarrow>
          bindR (mapR (\<lambda>(i, effect). effect_messages label i effect) (enumerate 0 effects)) (\<lambda>ms. Return (concat ms)))"

definition old_outcome_messages :: "json \<Rightarrow> string \<Rightarrow> string list result" where
  "old_outcome_messages v label =
     (let closed = validate_closed_object v OLD_OUTCOME_KEYS label in
      case as_obj v of
        None \<Rightarrow> Return closed
      | Some d \<Rightarrow>
          bindR (emitted_messages d label) (\<lambda>emitted.
          Return (closed @
            field_messages nonempty_str '': must be a non-empty string'' d (label @ ''.'') [''status'', ''reason_code'', ''cas_outcome''] @
            emitted @
            field_messages (\<lambda>x. is_obj x \<or> is_arr x) '': must be an array or object'' d (label @ ''.'') [''observable_writes''] @
            field_messages (int_at_least 0) '': must be a non-negative integer'' d (label @ ''.'') [''handoff_direct_lookup_count''] @
            field_messages (\<lambda>x. is_null x \<or> is_str x) '': must be a string or null'' d (label @ ''.'') [''timeout_evidence_source''])))"

definition observation_body :: "jobject \<Rightarrow> string \<Rightarrow> string list result" where
  "observation_body d label =
     bindR (choice_messages (jget d ''boundary'') BOUNDARIES (label @ '': boundary'')) (\<lambda>boundary.
     bindR (old_outcome_messages (jget d ''old_outcome'') (label @ ''.old_outcome'')) (\<lambda>outcome.
     Return (message_when (jget d ''schema'' \<noteq> JStr OBS_SCHEMA) (label @ '': schema must be '' @ OBS_SCHEMA) @
       field_messages nonempty_str '': must be a non-empty string'' d (label @ ''.'') [''observation_id'', ''owner''] @
       message_when (has_key d ''edge_id'')
         (label @ '': edge_id is forbidden; OLD observation must stay independent of NEW edge identities'') @
       site_messages (jget d ''site'') label @ boundary @
       typed_intent_messages (jget d ''typed_intent'') (label @ ''.typed_intent'') @
       old_input_messages (jget d ''old_inputs'') (label @ ''.old_inputs'') @ outcome @
       message_when (case jget d ''evidence_refs'' of JArr xs \<Rightarrow> xs = [] | JObj xs \<Rightarrow> xs = [] | _ \<Rightarrow> True)
         (label @ ''.evidence_refs: must be a non-empty array or object''))))"

definition validate_observation :: "jobject \<Rightarrow> nat \<Rightarrow> string list result" where
  "validate_observation d i =
     (let label = inventory_says ''old_behavior_observations['' @ str_int (int i) @ '']'';
          keys = map (\<lambda>k. label @ '': missing key '' @ k) (filter (\<lambda>k. \<not> has_key d k) OBSERVATION_KEYS) @
            map (\<lambda>k. label @ '': unknown key '' @ k) (unknown_keys d (OBSERVATION_KEYS @ [''edge_id''])) in
      if keys \<noteq> [] then Return keys else observation_body d label)"

section \<open>Names of new modules\<close>

lemma enumerate_size [termination_simp]: "(i, x) \<in> set (enumerate n xs) \<Longrightarrow> size x < Suc (size_list size xs)"
proof -
  assume "(i, x) \<in> set (enumerate n xs)"
  then have "x \<in> set xs" by (metis in_set_zip enumerate_eq_zip snd_conv nth_mem)
  then show ?thesis by (simp add: le_imp_less_Suc size_list_estimation')
qed

fun new_module_messages :: "string \<Rightarrow> json \<Rightarrow> string list" where
  "new_module_messages path (JObj d) =
     concat (map (\<lambda>(k, v). new_module_messages (if path = [] then k else path @ ''.'' @ k) v) d)"
| "new_module_messages path (JArr xs) =
     concat (map (\<lambda>(i, v). new_module_messages (path @ ''['' @ str_int (int i) @ '']'') v) (enumerate 0 xs))"
| "new_module_messages path (JStr s) =
     map (\<lambda>token. inventory_says (''NEW module token '' @ [SQ] @ token @ [SQ] @ '' is forbidden in inventory source data ('' @ path @ '')''))
       (filter (\<lambda>token. contains token s) NEW_MODULE_TOKENS)"
| "new_module_messages path _ = []"

section \<open>Sites\<close>

definition lifecycle_allowlist :: "lifecycle_host \<Rightarrow> string list result" where
  "lifecycle_allowlist host =
     (case lh_files host LIFECYCLE_ALLOWLIST of
        None \<Rightarrow> Return []
      | Some content \<Rightarrow> bindR content (\<lambda>source. Return (filter (\<lambda>line. line \<noteq> []) (map strip (splitlines source)))))"

definition symbol_at_head :: "lifecycle_host \<Rightarrow> string \<Rightarrow> string \<Rightarrow> bool result" where
  "symbol_at_head host path symbol =
     (case lh_files host path of None \<Rightarrow> Return False | Some content \<Rightarrow> bindR content (\<lambda>source. Return (contains symbol source)))"

text \<open>A site names a file with its symbol, now or at the protected base.\<close>

definition site_provenance :: "lifecycle_host \<Rightarrow> jobject \<Rightarrow> string \<Rightarrow> string list result" where
  "site_provenance host site label =
     (let site_id = inventory_says (''site_id '' @ str_json (lh_str host) (jget_or site ''site_id'' (JStr label))) in
      case (jget site ''path'', jget site ''symbol'') of
        (JStr path, symbol_value) \<Rightarrow>
          if path = [] then Return []
          else if \<not> nonempty_str symbol_value then Return [site_id @ '': symbol must be a non-empty string'']
          else
            (let symbol = the_default [] (as_str symbol_value) in
             bindR (symbol_at_head host path symbol) (\<lambda>here.
             if here then Return []
             else
               bindR (file_at_base (lh_environ host) (lh_git host) path) (\<lambda>base.
               Return (case base of
                   Present content \<Rightarrow>
                     if contains symbol content then []
                     else if lh_files host path = None then [site_id @ '': path does not exist: '' @ path]
                     else [site_id @ '': symbol not found in '' @ path @ '': '' @ symbol]
                 | Unresolved \<Rightarrow> [site_id @ '': cannot resolve protected base provenance for '' @ path]
                 | Absent \<Rightarrow>
                     if lh_files host path = None then [site_id @ '': path does not exist: '' @ path]
                     else [site_id @ '': symbol not found in '' @ path @ '': '' @ symbol]))))
      | _ \<Rightarrow> Return [])"

definition concat_results :: "('a \<Rightarrow> string list result) \<Rightarrow> 'a list \<Rightarrow> string list result" where
  "concat_results f xs = bindR (mapR f xs) (\<lambda>ms. Return (concat ms))"

definition site_list_messages :: "lifecycle_host \<Rightarrow> jobject \<Rightarrow> string \<Rightarrow> string list result" where
  "site_list_messages host inventory key =
     (case as_arr (jget inventory key) of
        None \<Rightarrow> Return [inventory_says (key @ '' must be an array'')]
      | Some sites \<Rightarrow>
          concat_results (\<lambda>(i, site).
            let label = inventory_says (key @ ''['' @ str_int (int i) @ '']'') in
            case as_obj site of None \<Rightarrow> Return [label @ '' must be an object''] | Some d \<Rightarrow> site_provenance host d label)
          (enumerate 0 sites))"

definition validate_enumerated_site_lists :: "lifecycle_host \<Rightarrow> jobject \<Rightarrow> string list result" where
  "validate_enumerated_site_lists host inventory = concat_results (site_list_messages host inventory) ENUMERATED_SITE_LIST_KEYS"

text \<open>The names of the sites that were not observed.\<close>

definition unobserved_id :: "json \<Rightarrow> string option" where
  "unobserved_id site =
     (case as_obj site of
        None \<Rightarrow> None
      | Some d \<Rightarrow> (case jget d ''site_id'' of JStr s \<Rightarrow> if s = [] then None else Some s | _ \<Rightarrow> None))"

definition unobserved_site_messages :: "lifecycle_host \<Rightarrow> nat \<Rightarrow> json \<Rightarrow> string list result" where
  "unobserved_site_messages host i site =
     (let label = inventory_says (''unobserved_sites['' @ str_int (int i) @ '']'') in
      case as_obj site of
        None \<Rightarrow> Return [label @ '' must be an object'']
      | Some d \<Rightarrow>
          bindR (site_provenance host d label) (\<lambda>provenance.
          Return (map (\<lambda>k. label @ '' unknown key '' @ k) (unknown_keys d UNOBSERVED_SITE_KEYS) @
            map (\<lambda>k. label @ '' missing key '' @ k) (filter (\<lambda>k. \<not> has_key d k) UNOBSERVED_SITE_KEYS) @ provenance)))"

definition alignment_messages :: "string list \<Rightarrow> string list \<Rightarrow> string list" where
  "alignment_messages ids allowlist =
     map (\<lambda>s. LIFECYCLE_ALLOWLIST @ '': missing unobserved site id '' @ s) (sort (filter (\<lambda>s. s \<notin> set allowlist) (remdups ids))) @
     map (\<lambda>s. LIFECYCLE_ALLOWLIST @ '': unknown site id '' @ s) (sort (filter (\<lambda>s. s \<notin> set ids) (remdups allowlist)))"

definition validate_allowlist_alignment :: "lifecycle_host \<Rightarrow> jobject \<Rightarrow> string list \<Rightarrow> string list result" where
  "validate_allowlist_alignment host inventory allowlist =
     (case as_arr (jget inventory ''unobserved_sites'') of
        None \<Rightarrow> Return [inventory_says ''unobserved_sites must be an array'']
      | Some sites \<Rightarrow>
          bindR (concat_results (\<lambda>(i, site). unobserved_site_messages host i site) (enumerate 0 sites)) (\<lambda>ms.
          Return (ms @ alignment_messages (List.map_filter unobserved_id sites) allowlist)))"

section \<open>Leaving the allowlist\<close>

type_synonym site_key = "string \<times> string \<times> string"

definition site_identity :: "jobject \<Rightarrow> site_key option" where
  "site_identity site =
     (case (jget site ''path'', jget site ''symbol'', jget site ''ordinal'') of
        (JStr path, JStr symbol, JStr ordinal) \<Rightarrow> if path = [] \<or> symbol = [] \<or> ordinal = [] then None else Some (path, symbol, ordinal)
      | _ \<Rightarrow> None)"

definition arr_items :: "json \<Rightarrow> json list" where
  "arr_items v = the_default [] (as_arr v)"

definition named_identity :: "json \<Rightarrow> (string \<times> site_key) option" where
  "named_identity site =
     (case (unobserved_id site, Option.bind (as_obj site) site_identity) of
        (Some site_id, Some identity) \<Rightarrow> Some (site_id, identity)
      | _ \<Rightarrow> None)"

text \<open>The sets of a dictionary from names to identities, as its pairs.\<close>

definition enumerated_site_identities :: "jobject \<Rightarrow> (string \<times> site_key) list" where
  "enumerated_site_identities inventory =
     remdups (concat (map (\<lambda>key. List.map_filter named_identity (arr_items (jget inventory key))) ENUMERATED_SITE_LIST_KEYS))"

definition identities_of :: "jobject \<Rightarrow> string \<Rightarrow> site_key list" where
  "identities_of inventory site_id = map snd (filter (\<lambda>(s, i). s = site_id) (enumerated_site_identities inventory))"

definition observed_identity :: "json \<Rightarrow> site_key option" where
  "observed_identity v = Option.bind (as_obj v) (\<lambda>d. Option.bind (as_obj (jget d ''site'')) site_identity)"

definition observed_site_identities :: "jobject \<Rightarrow> site_key list" where
  "observed_site_identities inventory = List.map_filter observed_identity (arr_items (jget inventory ''old_behavior_observations''))"

definition removal_messages :: "jobject \<Rightarrow> string \<Rightarrow> string list" where
  "removal_messages inventory item =
     (case identities_of inventory item of
        [(path, symbol, ordinal)] \<Rightarrow>
          message_when ((path, symbol, ordinal) \<notin> set (observed_site_identities inventory))
            (LIFECYCLE_ALLOWLIST @ '': removed site '' @ item @ '' (path='' @ path @ '', symbol='' @ symbol @ '', ordinal='' @ ordinal @
             '') is missing matching old behavior observation evidence in old_behavior_observations'')
      | _ \<Rightarrow>
          [LIFECYCLE_ALLOWLIST @ '': removed site '' @ item @
           '' has no unique enumerated (path, symbol, ordinal) identity; missing matching old behavior observation evidence''])"

definition base_lines :: "string \<Rightarrow> string list" where
  "base_lines content = filter (\<lambda>line. line \<noteq> []) (map strip (splitlines content))"

definition shrink_messages :: "string list \<Rightarrow> string list \<Rightarrow> jobject \<Rightarrow> string list" where
  "shrink_messages base current inventory =
     map (\<lambda>s. LIFECYCLE_ALLOWLIST @ '': shrink-only violation; new unobserved site id '' @ s)
       (sort (filter (\<lambda>s. s \<notin> set base) (remdups current))) @
     concat (map (removal_messages inventory) (sort (filter (\<lambda>s. s \<notin> set current) (remdups base))))"

definition shrink_only_messages :: "lifecycle_host \<Rightarrow> string list \<Rightarrow> jobject \<Rightarrow> bool \<Rightarrow> string list result" where
  "shrink_only_messages host current inventory enforce_base =
     (if \<not> enforce_base then Return []
      else bindR (file_at_base (lh_environ host) (lh_git host) LIFECYCLE_ALLOWLIST) (\<lambda>base.
        Return (case base of
            Absent \<Rightarrow> []
          | Unresolved \<Rightarrow>
              [LIFECYCLE_ALLOWLIST @
               '': cannot resolve dev base allowlist to enforce shrink-only ratchet; ensure CI provides the dev ref'']
          | Present content \<Rightarrow> shrink_messages (base_lines content) current inventory)))"

section \<open>The check\<close>

definition conflict_marker :: "string \<Rightarrow> bool" where
  "conflict_marker line \<longleftrightarrow> startswith line ''<<<<<<< '' \<or> startswith line ''>>>>>>> ''"

definition unreadable_inventory_message :: "lifecycle_host \<Rightarrow> string \<Rightarrow> string" where
  "unreadable_inventory_message host source =
     (case filter (\<lambda>(i, line). conflict_marker line) (enumerate 1 (splitlines source)) of
        (i, line) # _ \<Rightarrow>
          inventory_says (''unresolved merge conflict marker at line '' @ str_int (int i) @ '' ('' @ strip line @ '') '' @ lh_dash host @
            '' resolve the conflict before committing'')
      | [] \<Rightarrow> inventory_says (''is not valid JSON '' @ lh_dash host @ '' '' @ lh_json_error host source))"

text \<open>What \<open>enumerate\<close> makes of the observations.\<close>

fun observation_records :: "json \<Rightarrow> json list result" where
  "observation_records (JArr xs) = Return xs"
| "observation_records (JObj d) = Return (map (JStr \<circ> fst) d)"
| "observation_records (JStr s) = Return (map (\<lambda>c. JStr [c]) s)"
| "observation_records _ = Raise (TypeError ''object is not iterable'')"

definition record_messages :: "nat \<Rightarrow> json \<Rightarrow> string list result" where
  "record_messages i v =
     (case as_obj v of
        None \<Rightarrow> Return [inventory_says (''old_behavior_observations['' @ str_int (int i) @ ''] must be an object'')]
      | Some d \<Rightarrow> validate_observation d i)"

definition digest_messages :: "lifecycle_host \<Rightarrow> jobject \<Rightarrow> string list" where
  "digest_messages host inventory =
     (let expected = artifact_sha256_for_document (lh_float host) inventory; actual = jget inventory ''artifact_sha256'' in
      message_when (actual \<noteq> JStr expected)
        (inventory_says (''artifact_sha256 mismatch (expected '' @ expected @ '', found '' @ str_json (lh_str host) actual @ '')'')))"

definition inventory_messages :: "lifecycle_host \<Rightarrow> bool \<Rightarrow> jobject \<Rightarrow> string list result" where
  "inventory_messages host enforce_base inventory =
     bindR (observation_records (jget_or inventory ''old_behavior_observations'' (JArr []))) (\<lambda>records.
     bindR (concat_results (\<lambda>(i, v). record_messages i v) (enumerate 0 records)) (\<lambda>observations.
     bindR (lifecycle_allowlist host) (\<lambda>allowlist.
     bindR (validate_enumerated_site_lists host inventory) (\<lambda>sites.
     bindR (validate_allowlist_alignment host inventory allowlist) (\<lambda>alignment.
     bindR (shrink_only_messages host allowlist inventory enforce_base) (\<lambda>shrink.
     Return (validate_top_level inventory @
       message_when (jget inventory ''schema'' \<noteq> JStr LIFECYCLE_SCHEMA) (inventory_says (''schema must be '' @ LIFECYCLE_SCHEMA)) @
       observations @ new_module_messages [] (JObj inventory) @ sites @ alignment @ shrink @ digest_messages host inventory)))))))"

text \<open>A document that has no keys ends the check: no container, or one without \<open>keys\<close>.\<close>

fun no_keys_error :: "json \<Rightarrow> py_error" where
  "no_keys_error (JArr _) = AttributeError"
| "no_keys_error (JStr _) = AttributeError"
| "no_keys_error _ = TypeError ''argument is not iterable''"

definition lifecycle_messages :: "lifecycle_host \<Rightarrow> bool \<Rightarrow> string list result" where
  "lifecycle_messages host enforce_base =
     (if lh_files host INVENTORY = None then Return []
      else bindR (read_inventory host) (\<lambda>source.
        case json_loads source of
          None \<Rightarrow> Return [unreadable_inventory_message host source]
        | Some v \<Rightarrow> (case as_obj v of None \<Rightarrow> Raise (no_keys_error v) | Some inventory \<Rightarrow> inventory_messages host enforce_base inventory)))"

text \<open>The command with or without \<open>--fix-artifact-sha256\<close>: the lines printed and the exit status.\<close>

definition lifecycle_main :: "lifecycle_host \<Rightarrow> bool \<Rightarrow> (string list \<times> int) result" where
  "lifecycle_main host fix_digest =
     bindR (if fix_digest then normalize_artifact_sha256 host else Return host) (\<lambda>fixed.
     bindR (lifecycle_messages fixed True) (\<lambda>messages.
     Return (if messages \<noteq> [] then (messages, 1)
       else ([''OK: restart lifecycle inventory is schema-valid, shrink-only, independent, and self-hash-matched''], 0))))"

section \<open>Reading back a fixed document\<close>

lemma insort_key_fst_map: "insort_key fst (k, f v) (map (\<lambda>(k, v). (k, f v)) xs) = map (\<lambda>(k, v). (k, f v)) (insort_key fst (k, v) xs)"
  by (induction xs) auto

lemma sort_key_fst_map: "sort_key fst (map (\<lambda>(k, v). (k, f v)) xs) = map (\<lambda>(k, v). (k, f v)) (sort_key fst xs)"
proof (induction xs)
  case (Cons x xs)
  then show ?case by (cases x) (simp add: insort_key_fst_map)
qed simp

text \<open>The document with its keys in order, at every depth.\<close>

fun sort_json :: "json \<Rightarrow> json" where
  "sort_json (JArr xs) = JArr (map sort_json xs)"
| "sort_json (JObj d) = JObj (sort_key fst (map (\<lambda>(k, v). (k, sort_json v)) d))"
| "sort_json v = v"

text \<open>A text that starts no white space and closes nothing, and is read as this value.\<close>

definition reads :: "string \<Rightarrow> json \<Rightarrow> bool" where
  "reads t v \<longleftrightarrow>
     (\<exists>c cs. t = c # cs \<and> \<not> is_json_ws c \<and> c \<noteq> CHR '']'' \<and> c \<noteq> CHR ''}'') \<and>
     (\<forall>n rest. length t \<le> n \<longrightarrow> num_stop rest \<longrightarrow> pvalue n (t @ rest) = Some (v, rest))"

lemma readsD: "reads t v \<Longrightarrow> length t \<le> n \<Longrightarrow> num_stop rest \<Longrightarrow> pvalue n (t @ rest) = Some (v, rest)"
  by (simp add: reads_def)

lemma reads_skip: "reads t v \<Longrightarrow> skip_ws (t @ r) = t @ r"
  by (auto simp: reads_def skip_ws_def)

lemma num_stop_ws: "list_all is_json_ws w \<Longrightarrow> num_stop r \<Longrightarrow> num_stop (w @ r)"
  by (cases w) (auto simp: num_stop_def is_json_ws_def is_decimal_def)

lemma pitems_reads:
  assumes "list_all is_json_ws w" "list_all is_json_ws u"
  shows "list_all2 reads ts vs \<Longrightarrow> ts \<noteq> [] \<Longrightarrow> length (join (CHR '','' # w) ts) < n \<Longrightarrow>
    pitems n acc (join (CHR '','' # w) ts @ u @ CHR '']'' # rest) = Some (JArr (acc @ vs), rest)"
proof (induction ts vs arbitrary: n acc rule: list_all2_induct)
  case (Cons t ts v vs)
  obtain m where n: "n = Suc m" using Cons.prems(2) by (cases n) auto
  show ?case
  proof (cases ts)
    case Nil
    then have "pvalue m (t @ u @ CHR '']'' # rest) = Some (v, u @ CHR '']'' # rest)"
      using Cons n assms(2) by (intro readsD) (auto intro!: num_stop_ws simp: num_stop_punct)
    with Nil Cons.hyps(2) n assms(2) show ?thesis by (simp add: skip_ws_ws skip_ws_stop ws_punct)
  next
    case (Cons t' ts')
    note ts = this
    let ?tail = "join (CHR '','' # w) ts @ u @ CHR '']'' # rest"
    have dec: "pvalue m (t @ CHR '','' # w @ ?tail) = Some (v, CHR '','' # w @ ?tail)"
      using Cons.hyps(1) Cons.prems n ts by (intro readsD) (auto simp: num_stop_punct)
    have sk: "skip_ws (w @ ?tail) = ?tail"
      using Cons.hyps(2) ts assms(1) by (cases ts'; cases vs) (auto simp: skip_ws_ws reads_skip)
    have "pitems m (acc @ [v]) ?tail = Some (JArr ((acc @ [v]) @ vs), rest)"
      using Cons.prems n ts by (intro Cons.IH) auto
    with dec sk n ts show ?thesis by (simp add: skip_ws_stop ws_punct)
  qed
qed simp

definition keyed_text :: "string \<times> string \<Rightarrow> string" where
  "keyed_text kt = dumps_str False (fst kt) @ '': '' @ snd kt"

lemma keyed_text_head: "keyed_text (k, t) @ r = DQ # concat (map (escape_char False) k) @ DQ # CHR '':'' # CHR '' '' # t @ r"
  by (simp add: keyed_text_def dumps_str_def)

lemma pmembers_reads:
  assumes "list_all is_json_ws w" "list_all is_json_ws u"
  shows "list_all2 (\<lambda>kt kv. fst kt = fst kv \<and> reads (snd kt) (snd kv)) kts kvs \<Longrightarrow> kts \<noteq> [] \<Longrightarrow>
    distinct (map fst (acc @ kvs)) \<Longrightarrow> length (join (CHR '','' # w) (map keyed_text kts)) < n \<Longrightarrow>
    pmembers n acc (join (CHR '','' # w) (map keyed_text kts) @ u @ CHR ''}'' # rest) = Some (JObj (acc @ kvs), rest)"
proof (induction kts kvs arbitrary: n acc rule: list_all2_induct)
  case (Cons kt kts kv kvs)
  obtain k t v where kt: "kt = (k, t)" and kv: "kv = (k, v)" and t: "reads t v"
    using Cons.hyps(1) by (cases kt; cases kv) auto
  obtain m where n: "n = Suc m" using Cons.prems(3) by (cases n) auto
  have upd: "AList.update k v acc = acc @ [(k, v)]"
    using Cons.prems(2) kv by (intro update_fresh) auto
  have key: "pstring (concat (map (escape_char False) k) @ DQ # r) = Some (k, r)" for r
    by (rule pstring_escapes)
  have colon: "skip_ws (CHR '':'' # r) = CHR '':'' # r" for r by (simp add: skip_ws_stop ws_punct)
  have val: "skip_ws (CHR '' '' # t @ r) = t @ r" for r
    using reads_skip [OF t, of r] by (simp add: skip_ws_def is_json_ws_def)
  show ?case
  proof (cases kts)
    case Nil
    then have "pvalue m (t @ u @ CHR ''}'' # rest) = Some (v, u @ CHR ''}'' # rest)"
      using Cons n kt t assms(2) by (intro readsD) (auto intro!: num_stop_ws simp: num_stop_punct keyed_text_def)
    with Nil Cons.hyps(2) n kt kv key colon val upd assms(2) show ?thesis
      by (simp add: keyed_text_head skip_ws_ws skip_ws_stop ws_punct)
  next
    case (Cons kt' kts')
    note kts = this
    let ?tail = "join (CHR '','' # w) (map keyed_text kts) @ u @ CHR ''}'' # rest"
    have dec: "pvalue m (t @ CHR '','' # w @ ?tail) = Some (v, CHR '','' # w @ ?tail)"
      using Cons.prems n kts kt t by (intro readsD) (auto simp: num_stop_punct keyed_text_def)
    have sk: "skip_ws (w @ ?tail) = ?tail"
      using assms(1) kts by (cases kts'; cases kt') (auto simp: skip_ws_ws keyed_text_def dumps_str_def skip_ws_stop ws_punct)
    have IH: "pmembers m (acc @ [(k, v)]) ?tail = Some (JObj ((acc @ [(k, v)]) @ kvs), rest)"
      using Cons.prems n kts kt kv by (intro Cons.IH) auto
    have "join (CHR '','' # w) (map keyed_text (kt # kts)) @ u @ CHR ''}'' # rest =
        DQ # concat (map (escape_char False) k) @ DQ # CHR '':'' # CHR '' '' # t @ CHR '','' # w @ ?tail"
      using kts kt by (simp add: keyed_text_head)
    with n key colon val upd dec sk IH kv show ?thesis by (simp add: skip_ws_stop ws_punct)
  qed
qed simp

lemma new_line_ws: "list_all is_json_ws (new_line k)"
  by (simp add: new_line_def is_json_ws_def list_all_iff)

lemma indented_obj:
  assumes "d \<noteq> []"
  shows "indented sf k (JObj d) = CHR ''{'' # new_line (k + 2) @
    join (CHR '','' # new_line (k + 2)) (map keyed_text (map (\<lambda>(key, v). (key, indented sf (k + 2) v)) (sort_key fst d))) @
    new_line k @ ''}''"
  by (simp only: indented.simps sort_key_fst_map assms if_False map_map) (simp add: keyed_text_def comp_def case_prod_unfold)

lemma sort_json_obj: "sort_json (JObj d) = JObj (map (\<lambda>(k, v). (k, sort_json v)) (sort_key fst d))"
  by (simp add: sort_key_fst_map)

lemma reads_plain:
  assumes "json_ok j" "sort_json j = j" "dumps compact_flags j = t"
  shows "reads t j"
proof -
  have good: "good_flags compact_flags" by (auto simp: good_flags_def)
  from dumps_head [OF assms(1), of compact_flags] dumps_decodes [OF good assms(1)] assms(3) show ?thesis
    by (auto simp: reads_def decodes_def)
qed

lemma join_reads_head:
  assumes "list_all2 reads ts vs" "ts \<noteq> []"
  shows "\<exists>c cs. join sep ts = c # cs \<and> \<not> is_json_ws c \<and> c \<noteq> CHR '']''"
proof -
  from assms obtain t ts' v where "ts = t # ts'" "reads t v" by (cases ts; cases vs) auto
  then show ?thesis by (cases ts') (auto simp: reads_def)
qed

lemma join_keyed_head: "kts \<noteq> [] \<Longrightarrow> \<exists>cs. join sep (map keyed_text kts) = DQ # cs"
  by (cases kts; cases "tl kts") (auto simp: keyed_text_def dumps_str_def)

lemma indented_reads: "json_ok v \<Longrightarrow> reads (indented sf k v) (sort_json v)"
proof (induction v arbitrary: k)
  case (JArr xs)
  show ?case
  proof (cases "xs = []")
    case False
    let ?ts = "map (indented sf (k + 2)) xs" and ?w = "new_line (k + 2)" and ?u = "new_line k"
    have all: "list_all2 reads ?ts (map sort_json xs)"
      using JArr by (simp add: list_all2_map1 list_all2_map2 list_all2_same list_all_iff)
    obtain c cs where head: "join (CHR '','' # ?w) ?ts = c # cs" "\<not> is_json_ws c" "c \<noteq> CHR '']''"
      using join_reads_head [OF all, of "CHR '','' # ?w"] False by blast
    show ?thesis unfolding reads_def
    proof (intro conjI allI impI)
      fix n rest
      assume n: "length (indented sf k (JArr xs)) \<le> n"
      then obtain m where m: "n = Suc m" using False by (cases n) auto
      have "pitems m [] (join (CHR '','' # ?w) ?ts @ ?u @ CHR '']'' # rest) = Some (JArr ([] @ map sort_json xs), rest)"
        using False n m by (intro pitems_reads [OF new_line_ws new_line_ws all]) auto
      then show "pvalue n (indented sf k (JArr xs) @ rest) = Some (sort_json (JArr xs), rest)"
        using False m head by (simp add: skip_ws_ws new_line_ws skip_ws_stop)
    qed (use False in \<open>auto simp: is_json_ws_def\<close>)
  qed (rule reads_plain, simp_all)
next
  case (JObj d)
  show ?case
  proof (cases "d = []")
    case False
    let ?kts = "map (\<lambda>(key, v). (key, indented sf (k + 2) v)) (sort_key fst d)" and ?w = "new_line (k + 2)" and ?u = "new_line k"
    let ?kvs = "map (\<lambda>(k, v). (k, sort_json v)) (sort_key fst d)"
    have all: "list_all2 (\<lambda>kt kv. fst kt = fst kv \<and> reads (snd kt) (snd kv)) ?kts ?kvs"
      using JObj by (fastforce simp: list_all2_map1 list_all2_map2 list_all2_same list_all_iff)
    have keys: "map fst ?kvs = map fst (sort_key fst d)" by (simp add: comp_def case_prod_unfold)
    have "distinct (map fst d)" using JObj.prems by simp
    then have dist: "distinct (map fst ?kvs)" unfolding keys by (metis mset_eq_imp_distinct_iff mset_map mset_sort)
    have ne: "?kts \<noteq> []" using False by (metis map_is_Nil_conv set_empty set_sort)
    obtain cs where head: "join (CHR '','' # ?w) (map keyed_text ?kts) = DQ # cs"
      using join_keyed_head [OF ne] by blast
    show ?thesis unfolding reads_def
    proof (intro conjI allI impI)
      fix n rest
      assume n: "length (indented sf k (JObj d)) \<le> n"
      then obtain m where m: "n = Suc m" unfolding indented_obj [OF False] by (cases n) auto
      have "pmembers m [] (join (CHR '','' # ?w) (map keyed_text ?kts) @ ?u @ CHR ''}'' # rest) = Some (JObj ([] @ ?kvs), rest)"
        using n m dist ne unfolding indented_obj [OF False] by (intro pmembers_reads [OF new_line_ws new_line_ws all]) auto
      then show "pvalue n (indented sf k (JObj d) @ rest) = Some (sort_json (JObj d), rest)"
        unfolding indented_obj [OF False] sort_json_obj using m head
        by (simp add: skip_ws_ws new_line_ws skip_ws_stop ws_punct)
    qed (unfold indented_obj [OF False], simp add: is_json_ws_def)
  qed (rule reads_plain, simp_all add: sort_items_def)
qed (rule reads_plain; simp)+

lemma read_indented: "json_ok v \<Longrightarrow> json_loads (indented sf 0 v @ [LF]) = Some (sort_json v)"
proof -
  assume "json_ok v"
  then have r: "reads (indented sf 0 v) (sort_json v)" by (rule indented_reads)
  have "pvalue (Suc (length (indented sf 0 v @ [LF]))) (indented sf 0 v @ [LF]) = Some (sort_json v, [LF])"
    by (rule readsD [OF r]) (simp_all add: num_stop_def is_decimal_def)
  with reads_skip [OF r, of "[LF]"] show ?thesis
    by (simp add: json_loads_def raw_decode_def skip_ws_def is_json_ws_def)
qed

lemma sort_key_sorted_map: "sort_key fst (map (\<lambda>(k, v). (k, f v)) (sort_key fst xs)) = map (\<lambda>(k, v). (k, f v)) (sort_key fst xs)"
  by (simp add: sort_key_fst_map sort_key_id_if_sorted)

lemma canonical_body_sorted: "canonical_body sf (sort_json v) = canonical_body sf v"
proof (induction v)
  case (JArr xs)
  then show ?case by (simp add: comp_def cong: map_cong)
next
  case (JObj d)
  let ?D = "sort_key fst d"
  have same: "map (\<lambda>(k, v). (k, canonical_body sf (sort_json v))) ?D = map (\<lambda>(k, v). (k, canonical_body sf v)) ?D"
    using JObj.IH by (intro map_cong refl) fastforce
  have "sort_key fst (map (\<lambda>(k, v). (k, canonical_body sf v)) (map (\<lambda>(k, v). (k, sort_json v)) ?D)) =
      sort_key fst (map (\<lambda>(k, v). (k, canonical_body sf (sort_json v))) ?D)"
    by (simp add: comp_def case_prod_unfold)
  also have "\<dots> = sort_key fst (map (\<lambda>(k, v). (k, canonical_body sf v)) d)"
    by (simp only: sort_key_sorted_map same) (simp only: sort_key_fst_map)
  finally show ?case unfolding sort_json_obj canonical_body.simps by simp
qed simp_all

lemma delete_sorted: "AList.delete k (sort_key fst d) = sort_key fst (AList.delete k d)"
  by (simp add: AList.delete_eq filter_sort)

lemma delete_map_values: "AList.delete k (map (\<lambda>(k, v). (k, f v)) d) = map (\<lambda>(k, v). (k, f v)) (AList.delete k d)"
  by (induction d) auto

lemma digest_of_sorted: "JObj d' = sort_json (JObj d) \<Longrightarrow> artifact_sha256_for_document sf d' = artifact_sha256_for_document sf d"
proof -
  assume "JObj d' = sort_json (JObj d)"
  then have "JObj (AList.delete ''artifact_sha256'' d') = sort_json (JObj (AList.delete ''artifact_sha256'' d))"
    unfolding sort_json_obj by (simp add: delete_map_values delete_sorted)
  then show ?thesis unfolding artifact_sha256_for_document_def using canonical_body_sorted by metis
qed

lemma digest_normalized: "artifact_sha256_for_document sf (normalized sf d) = artifact_sha256_for_document sf d"
  by (simp add: artifact_sha256_for_document_def normalized_def AList.delete_update_same)

lemma list_all_update: "P v \<Longrightarrow> list_all P (map snd d) \<Longrightarrow> list_all P (map snd (AList.update k v d))"
  by (induction d) auto

lemma json_ok_update: "json_ok (JObj d) \<Longrightarrow> json_ok v \<Longrightarrow> json_ok (JObj (AList.update k v d))"
  by (simp add: distinct_update list_all_update)

lemma sorted_field:
  assumes "distinct (map fst d)" "JObj d' = sort_json (JObj d)"
  shows "map_of d' k = map_option sort_json (map_of d k)"
proof -
  from assms(2) have d': "d' = map (\<lambda>(k, v). (k, sort_json v)) (sort_key fst d)" unfolding sort_json_obj by simp
  have "distinct (map fst (sort_key fst d))" using assms(1) by (metis mset_eq_imp_distinct_iff mset_map mset_sort)
  then have "map_of (sort_key fst d) = map_of d" using assms(1) by (simp add: map_of_inject_set)
  then show ?thesis unfolding d' map_of_map by simp
qed


definition sample_host :: lifecycle_host where
  "sample_host =
     \<lparr>lh_files = (\<lambda>_. None), lh_environ = (\<lambda>_. None), lh_git = (\<lambda>_. NotStarted None []), lh_float = (\<lambda>_. ''0.5''),
      lh_str = (\<lambda>_. ''...''), lh_json_error = (\<lambda>_. ''Expecting value''), lh_dash = ''-''\<rparr>"


section \<open>What the ledger allows\<close>

text \<open>Some list of the inventory names this site by this path, symbol and ordinal; some observation is of them.\<close>

definition listed_as :: "jobject \<Rightarrow> string \<Rightarrow> site_key \<Rightarrow> bool" where
  "listed_as inventory site_id i \<longleftrightarrow>
     (\<exists>key \<in> set ENUMERATED_SITE_LIST_KEYS. \<exists>site \<in> set (arr_items (jget inventory key)). named_identity site = Some (site_id, i))"

definition observed_at :: "jobject \<Rightarrow> site_key \<Rightarrow> bool" where
  "observed_at inventory i \<longleftrightarrow> (\<exists>v \<in> set (arr_items (jget inventory ''old_behavior_observations'')). observed_identity v = Some i)"

text \<open>The site is listed under exactly one identity, and that was observed.\<close>

definition evidenced :: "jobject \<Rightarrow> string \<Rightarrow> bool" where
  "evidenced inventory site_id \<longleftrightarrow> (\<exists>i. listed_as inventory site_id = (\<lambda>j. j = i) \<and> observed_at inventory i)"

lemma observed_iff: "i \<in> set (observed_site_identities inventory) \<longleftrightarrow> observed_at inventory i"
  by (simp add: observed_site_identities_def observed_at_def in_map_filter)

lemma identities_of_iff: "i \<in> set (identities_of inventory site_id) \<longleftrightarrow> listed_as inventory site_id i"
  by (force simp: identities_of_def enumerated_site_identities_def listed_as_def in_map_filter)

lemma identities_of_distinct: "distinct (identities_of inventory site_id)"
  by (auto simp: identities_of_def enumerated_site_identities_def distinct_map intro!: inj_onI)

lemma distinct_singleton: "distinct xs \<Longrightarrow> set xs = {x} \<longleftrightarrow> xs = [x]"
  by (cases xs; cases "tl xs") auto

lemma removal_messages_Nil: "removal_messages inventory item = [] \<longleftrightarrow> evidenced inventory item"
proof -
  have one: "listed_as inventory item = (\<lambda>j. j = i) \<longleftrightarrow> identities_of inventory item = [i]" for i
    unfolding distinct_singleton [OF identities_of_distinct, symmetric]
    by (auto simp: fun_eq_iff set_eq_iff identities_of_iff)
  show ?thesis
    unfolding removal_messages_def evidenced_def one observed_iff [symmetric]
    by (auto split: list.splits)
qed

lemma shrink_messages_Nil:
  "shrink_messages base current inventory = [] \<longleftrightarrow>
     set current \<subseteq> set base \<and> list_all (\<lambda>s. s \<in> set current \<or> evidenced inventory s) base"
proof -
  have "concat (map (removal_messages inventory) (sort (filter (\<lambda>s. s \<notin> set current) (remdups base)))) = [] \<longleftrightarrow>
      list_all (\<lambda>s. s \<in> set current \<or> evidenced inventory s) base"
    by (auto simp: removal_messages_Nil list_all_iff)
  moreover have "sort (filter (\<lambda>s. s \<notin> set base) (remdups current)) = [] \<longleftrightarrow> set current \<subseteq> set base"
    unfolding sort_filter_Nil by (auto simp: list_ex_iff)
  ultimately show ?thesis by (simp add: shrink_messages_def)
qed

text \<open>
  C7. The comparison with the base finds nothing exactly if the base has no allowlist, or has one that lists every
  site listed now, and every site that left it is listed in the inventory under exactly one path, symbol and ordinal
  for which there is an observation.
\<close>

theorem lifecycle_shrink_iff:
  "shrink_only_messages host current inventory True = Inr [] \<longleftrightarrow>
     file_at_base (lh_environ host) (lh_git host) LIFECYCLE_ALLOWLIST = Inr Absent \<or>
     (\<exists>content. file_at_base (lh_environ host) (lh_git host) LIFECYCLE_ALLOWLIST = Inr (Present content) \<and>
        set current \<subseteq> set (base_lines content) \<and>
        list_all (\<lambda>s. s \<in> set current \<or> evidenced inventory s) (base_lines content))"
proof (cases "file_at_base (lh_environ host) (lh_git host) LIFECYCLE_ALLOWLIST")
  case (Inr base)
  then show ?thesis by (cases base) (simp_all add: shrink_only_messages_def shrink_messages_Nil)
qed (simp add: shrink_only_messages_def)

text \<open>The allowlist is a ledger of the sites without observation that can only shrink.\<close>

definition ledger_clean :: "string list \<times> jobject \<Rightarrow> string list \<Rightarrow> string list option \<Rightarrow> bool" where
  "ledger_clean current allowlist base \<longleftrightarrow>
     alignment_messages (fst current) allowlist = [] \<and>
     (case base of None \<Rightarrow> True | Some b \<Rightarrow> shrink_messages b allowlist (snd current) = [])"

lemma alignment_messages_Nil: "alignment_messages ids allowlist = [] \<longleftrightarrow> set ids = set allowlist"
  unfolding alignment_messages_def append_is_Nil_conv map_is_Nil_conv sort_filter_Nil by (auto simp: list_ex_iff)

interpretation lifecycle_ratchet: shrink_only_ratchet ledger_clean "\<lambda>c. set (fst c)" set "(\<subseteq>)"
  by unfold_locales (auto simp: ledger_clean_def alignment_messages_Nil shrink_messages_Nil)

text \<open>Along clean commits no site that is unobserved later was missing from an earlier allowlist.\<close>

lemma lifecycle_history_shrinks:
  assumes "clean_history ledger_clean base (h @ (c, a) # h')" "(c', a') \<in> set h'"
  shows "set (fst c') \<subseteq> set a"
  using assms by (rule lifecycle_ratchet.history_monotone)

end
