(* ===== verification/TestShape.thy ===== *)
theory TestShape
  imports LuaLex RatchetBase
begin

text \<open>
  The first half of \<^verbatim>\<open>scripts/check_repo.py\<close>: where packages are, which tests a Lua file defines, which test modules
  it requires, and the two checks over them: the shape of test files and the reachability of test helpers.

  A repository is a tree with the question whether it is the own one. Shown here: the name of a test is always
  captured, the worklist visits exactly the files that tests require, directly or through others, and what it means
  that both checks find nothing.
\<close>

section \<open>The repository\<close>

record repo =
  rp_own :: bool \<comment> \<open>\<open>same_path(project_root, OWN_REPO_ROOT)\<close>\<close>
  rp_tree :: tree

definition under :: "string \<Rightarrow> string \<Rightarrow> bool" where
  "under dir p \<longleftrightarrow> startswith p (dir @ ''/'')"

definition dir_exists :: "tree \<Rightarrow> string \<Rightarrow> bool" where
  "dir_exists t dir \<longleftrightarrow> list_ex (under dir) (map fst t)"

definition path_exists :: "tree \<Rightarrow> string \<Rightarrow> bool" where
  "path_exists t p \<longleftrightarrow> p \<in> set (map fst t) \<or> dir_exists t p"

definition package_roots :: "repo \<Rightarrow> string list" where
  "package_roots repo =
     (if rp_own repo then [''packages'']
      else let existing = filter (path_exists (rp_tree repo)) [''packages'', ''.fkst/local-packages''] in
        if existing \<noteq> [] then existing else [''packages''])"

fun rel_from :: "string list \<Rightarrow> string \<Rightarrow> string" where
  "rel_from [] path = path"
| "rel_from (view # views) path =
     (if under view path then ''packages/'' @ drop (Suc (length view)) path else rel_from views path)"

definition rel :: "repo \<Rightarrow> string \<Rightarrow> string" where
  "rel repo path = rel_from (package_roots repo) path"

text \<open>The directories directly below, in order, and the Lua files of all packages.\<close>

definition child_dirs :: "tree \<Rightarrow> string \<Rightarrow> string list" where
  "child_dirs t dir =
     sort (remdups (map (\<lambda>p. takeWhile (\<lambda>c. c \<noteq> CHR ''/'') (drop (Suc (length dir)) p))
       (filter (\<lambda>p. under dir p \<and> CHR ''/'' \<in> set (drop (Suc (length dir)) p)) (map fst t))))"

definition package_dirs :: "repo \<Rightarrow> string list" where
  "package_dirs repo =
     concat (map (\<lambda>packages. map (\<lambda>n. packages @ ''/'' @ n) (child_dirs (rp_tree repo) packages)) (package_roots repo))"

definition package_lua_files :: "repo \<Rightarrow> (string \<times> string) list" where
  "package_lua_files repo = concat (map (\<lambda>packages. map (Pair packages) (rglob_lua (rp_tree repo) packages)) (package_roots repo))"

definition test_files :: "tree \<Rightarrow> string \<Rightarrow> string list" where
  "test_files t pkg = rglob_lua t (pkg @ ''/tests'')"

definition source_of :: "tree \<Rightarrow> string \<Rightarrow> string" where
  "source_of t path = the_default [] (tree_read t path)"

section \<open>Code without comments and strings\<close>

definition test_char :: "char \<Rightarrow> bool" where "test_char c \<longleftrightarrow> is_alnum_ascii c \<or> c = CHR ''_''"

definition test_word :: regex where "test_word = RSeq (rlit ''test_'') (rplus (RSet test_char))"

definition TEST_NAME_RE :: regex where "TEST_NAME_RE = RSeq test_word REos"

text \<open>Before the quote \<open>[\<close>, after the string \<open>]\<close> and \<open>=\<close>, with spaces between.\<close>

definition bracket_test_assignment_key_string_end :: "string \<Rightarrow> nat \<Rightarrow> nat option" where
  "bracket_test_assignment_key_string_end source quote_start =
     (case literal_span_at source quote_start True False of
        None \<Rightarrow> None
      | Some literal \<Rightarrow>
          if sp_kind literal \<noteq> SHORT_STRING \<or> \<not> sp_terminated literal \<or> \<not> fullmatches TEST_NAME_RE (span_content literal source) then None
          else
            (case (dropWhile is_space (rev (take quote_start source)), dropWhile is_space (drop (sp_end literal) source)) of
               (b # _, c # rest) \<Rightarrow>
                 if b = CHR ''['' \<and> c = CHR '']'' \<and> next_char (dropWhile is_space rest) = Some (CHR ''='')
                 then Some (sp_end literal) else None
             | _ \<Rightarrow> None))"

definition strip_lua_comments_and_strings :: "string \<Rightarrow> string" where
  "strip_lua_comments_and_strings source =
     code_mask_gen source MASKED_KINDS
       (Some (\<lambda>span. sp_kind span = SHORT_STRING \<and> bracket_test_assignment_key_string_end source (sp_start span) \<noteq> None)) True True"

definition is_unmasked_range :: "string \<Rightarrow> string \<Rightarrow> nat \<Rightarrow> nat \<Rightarrow> bool" where
  "is_unmasked_range source stripped a b \<longleftrightarrow>
     list_all (\<lambda>i. source ! i = CHR '' '' \<or> source ! i = LF \<or> stripped ! i = source ! i) [a..<b]"

section \<open>Tests of a file\<close>

definition rblank :: regex where "rblank = rstar rspace"

definition quoted_key :: "string \<Rightarrow> string \<Rightarrow> regex" where
  "quoted_key q g =
     rseq [rchar CHR ''['', rblank, RGroup q (RSet (\<lambda>c. c = DQ \<or> c = SQ)), RGroup g test_word, RBackref q, rblank, rchar CHR '']'', rblank, rchar CHR ''='']"

definition rname :: regex where "rname = RSeq RWordB RIDENT"

definition TEST_DEF_RE :: regex where
  "TEST_DEF_RE =
     RAlt (rseq [RWordB, RGroup ''bare'' test_word, rblank, rchar CHR ''='', rblank, rlit ''function'', RWordB])
       (rseq [quoted_key ''key_quote'' ''bracket'', rblank, rlit ''function'', RWordB])"

definition TEST_ASSIGN_RE :: regex where
  "TEST_ASSIGN_RE =
     ralt [rseq [RWordB, RGroup ''bare'' test_word, rblank, rchar CHR ''=''],
       quoted_key ''assign_key_quote'' ''bracket'',
       rseq [rname, rblank, rchar CHR ''.'', rblank, RGroup ''field'' test_word, rblank, rchar CHR ''=''],
       rseq [rname, rblank, quoted_key ''field_key_quote'' ''field_bracket'']]"

definition TEST_FUNCTION_SUGAR_RE :: regex where
  "TEST_FUNCTION_SUGAR_RE =
     RAlt (rseq [RWordB, rlit ''function'', rplus rspace, RGroup ''bare'' test_word, rblank, rchar CHR ''('']) 
       (rseq [RWordB, rlit ''function'', rplus rspace, RIDENT, rblank, RSet (\<lambda>c. c = CHR ''.'' \<or> c = CHR '':''), rblank,
          RGroup ''field'' test_word, rblank, rchar CHR ''('']) "

fun first_group :: "string list \<Rightarrow> rematch \<Rightarrow> string option" where
  "first_group [] found = None"
| "first_group (g # gs) found = (case m_group found g of None \<Rightarrow> first_group gs found | Some n \<Rightarrow> Some n)"

definition TEST_GROUPS :: "string list" where "TEST_GROUPS = [''bare'', ''bracket'', ''field'', ''field_bracket'']"

definition test_name :: "rematch \<Rightarrow> string result" where
  "test_name found =
     (case first_group TEST_GROUPS found of
        None \<Rightarrow> Raise (ValueError ''test name pattern did not capture a test name'')
      | Some n \<Rightarrow> Return n)"

text \<open>The part of the line before the match, backwards and without the spaces next to it.\<close>

definition line_before :: "string \<Rightarrow> nat \<Rightarrow> string" where
  "line_before source a = takeWhile (\<lambda>c. c \<noteq> LF) (rev (take a source))"

definition has_table_key_prefix :: "string \<Rightarrow> nat \<Rightarrow> bool" where
  "has_table_key_prefix source a \<longleftrightarrow>
     (case dropWhile is_space (line_before source a) of [] \<Rightarrow> True | c # _ \<Rightarrow> c \<in> {CHR ''{'', CHR '','', CHR '';''})"

definition matched_test_names :: "string \<Rightarrow> regex \<Rightarrow> string list result" where
  "matched_test_names source r =
     (let stripped = strip_lua_comments_and_strings source in
      mapR test_name (filter (\<lambda>found. has_table_key_prefix stripped (m_start found)) (re_finditer r stripped)))"

definition assignment_match_is_test_entry :: "string \<Rightarrow> rematch \<Rightarrow> bool" where
  "assignment_match_is_test_entry source found \<longleftrightarrow>
     m_group found ''field'' \<noteq> None \<or> m_group found ''field_bracket'' \<noteq> None \<or> has_table_key_prefix source (m_start found)"

definition matched_test_assignment_names :: "string \<Rightarrow> string list result" where
  "matched_test_assignment_names source =
     (let stripped = strip_lua_comments_and_strings source in
      mapR test_name (filter (assignment_match_is_test_entry stripped) (re_finditer TEST_ASSIGN_RE stripped)))"

definition function_sugar_match_is_test_entry :: "string \<Rightarrow> rematch \<Rightarrow> bool" where
  "function_sugar_match_is_test_entry source found \<longleftrightarrow>
     (let before_match = strip (rev (line_before source (m_start found))) in
      before_match \<noteq> ''local'' \<and> (m_group found ''field'' \<noteq> None \<or> before_match = []))"

definition matched_test_function_sugar_names :: "string \<Rightarrow> string list result" where
  "matched_test_function_sugar_names source =
     (let stripped = strip_lua_comments_and_strings source in
      mapR test_name (filter (function_sugar_match_is_test_entry stripped) (re_finditer TEST_FUNCTION_SUGAR_RE stripped)))"

definition test_function_names :: "string \<Rightarrow> string list result" where
  "test_function_names source = matched_test_names source TEST_DEF_RE"

definition test_assignment_names :: "string \<Rightarrow> string list result" where
  "test_assignment_names source =
     bindR (matched_test_assignment_names source) (\<lambda>xs. bindR (matched_test_function_sugar_names source) (\<lambda>ys. Return (xs @ ys)))"

fun duplicates_from :: "string list \<Rightarrow> string list \<Rightarrow> string list \<Rightarrow> string list" where
  "duplicates_from seen duplicates [] = duplicates"
| "duplicates_from seen duplicates (n # ns) =
     (if n \<in> set seen then duplicates_from seen (List.insert n duplicates) ns else duplicates_from (n # seen) duplicates ns)"

definition duplicate_test_names :: "string list \<Rightarrow> string list" where
  "duplicate_test_names names = sort (duplicates_from [] [] names)"

section \<open>Required test modules\<close>

definition module_char :: "char \<Rightarrow> bool" where
  "module_char c \<longleftrightarrow> is_alnum_ascii c \<or> c \<in> {CHR ''_'', CHR ''.'', CHR ''-''}"

definition TEST_REQUIRE_RE :: regex where
  "TEST_REQUIRE_RE =
     rseq [RWordB, rlit ''require'', rblank, RGroup ''open_parens'' (rstar (RSeq (rchar CHR ''('') rblank)),
       RAlt
         (rseq [RGroup ''quote'' (RSet (\<lambda>c. c = DQ \<or> c = SQ)), rlit ''tests.'', RGroup ''quoted'' (rplus (RSet module_char)), RBackref ''quote''])
         (RGroup ''long_literal''
           (rseq [rchar CHR ''['', RGroup ''long_eq'' (rstar (rchar CHR ''='')), rlit ''[tests.'', RGroup ''long'' (rplus (RSet module_char)),
              rchar CHR '']'', RBackref ''long_eq'', rchar CHR '']''])),
       rblank, RGroup ''close_parens'' (rstar (rchar CHR '')''))]"

definition group_or_empty :: "rematch \<Rightarrow> string \<Rightarrow> string" where
  "group_or_empty found g = the_default [] (m_group found g)"

definition require_module :: "rematch \<Rightarrow> string" where
  "require_module found = (case m_group found ''quoted'' of Some s \<Rightarrow> s | None \<Rightarrow> group_or_empty found ''long'')"

definition group_end :: "rematch \<Rightarrow> string \<Rightarrow> nat" where
  "group_end found g = the_default 0 (m_group_start found g) + length (group_or_empty found g)"

definition require_string_span :: "rematch \<Rightarrow> nat \<times> nat" where
  "require_string_span found =
     (if m_group found ''quoted'' \<noteq> None then (the_default 0 (m_group_start found ''quote''), group_end found ''quoted'' + 1)
      else (the_default 0 (m_group_start found ''long_literal''), group_end found ''long_literal''))"

definition require_parens_are_balanced :: "rematch \<Rightarrow> bool" where
  "require_parens_are_balanced found \<longleftrightarrow>
     length (filter (\<lambda>c. c = CHR ''('') (group_or_empty found ''open_parens'')) = length (group_or_empty found ''close_parens'')"

definition is_code_require_match :: "string \<Rightarrow> string \<Rightarrow> rematch \<Rightarrow> bool" where
  "is_code_require_match source stripped found \<longleftrightarrow>
     (case require_string_span found of (a, b) \<Rightarrow>
        require_parens_are_balanced found \<and> is_unmasked_range source stripped (m_start found) a \<and> is_unmasked_range source stripped b (m_end found))"

definition required_modules :: "string \<Rightarrow> string list" where
  "required_modules source =
     (let stripped = strip_lua_comments_and_strings source in
      map require_module (filter (is_code_require_match source stripped) (re_finditer TEST_REQUIRE_RE source)))"

text \<open>
  \<open>tests_dir.joinpath(*module.split(".")).with_suffix(".lua")\<close>: no component holds a dot, and a module of dots
  only names a sibling of the directory.
\<close>

definition module_path :: "string \<Rightarrow> string \<Rightarrow> string" where
  "module_path tests_dir module =
     join ''/'' (tests_dir # filter (\<lambda>p. p \<noteq> []) (split_char (CHR ''.'') module)) @ ''.lua''"

text \<open>\<open>with_suffix("")\<close> of the name of a file, and the name of a module.\<close>

definition path_stem :: "string \<Rightarrow> string" where
  "path_stem name =
     (let extension = after_last (CHR ''.'') name; i = length name - length extension - 1 in
      if CHR ''.'' \<notin> set name \<or> i = 0 \<or> extension = [] then name else take i name)"

definition test_module_name :: "string \<Rightarrow> string \<Rightarrow> string" where
  "test_module_name tests_dir path =
     (let relative = drop (Suc (length tests_dir)) path; name = path_name relative;
          dir = take (length relative - length name) relative in
      map (\<lambda>c. if c = CHR ''/'' then CHR ''.'' else c) (dir @ path_stem name))"

section \<open>Violations and failures of the configuration\<close>

text \<open>A message is a violation, or says that the check was not set up as it needs; the list of violations routes these apart.\<close>

datatype check_message = Violation string | ConfigurationFailure string

definition add :: "string \<Rightarrow> check_message \<Rightarrow> check_message" where
  "add rule message =
     (case message of
        Violation m \<Rightarrow> Violation (rule @ '': '' @ m)
      | ConfigurationFailure m \<Rightarrow> ConfigurationFailure (rule @ '': '' @ m))"

record routed_violations =
  rv_violations :: "string list"
  rv_configuration_failures :: "string list"

definition routed_append :: "routed_violations \<Rightarrow> check_message \<Rightarrow> routed_violations" where
  "routed_append rv message =
     (case message of
        Violation m \<Rightarrow> rv\<lparr>rv_violations := rv_violations rv @ [m]\<rparr>
      | ConfigurationFailure m \<Rightarrow> rv\<lparr>rv_configuration_failures := rv_configuration_failures rv @ [m]\<rparr>)"

definition routed_extend :: "routed_violations \<Rightarrow> check_message list \<Rightarrow> routed_violations" where
  "routed_extend rv messages = foldl routed_append rv messages"

definition unresolved_failure :: "string \<Rightarrow> 'a base_allowlist \<Rightarrow> check_message list" where
  "unresolved_failure message base = (case base of BaseUnresolved \<Rightarrow> [ConfigurationFailure message] | _ \<Rightarrow> [])"

section \<open>The shape of tests (G2)\<close>

text \<open>What a check adds: violations and warnings.\<close>

type_synonym reports = "string list \<times> string list"

definition add_reports :: "reports \<Rightarrow> reports \<Rightarrow> reports" where
  "add_reports a b = (fst a @ fst b, snd a @ snd b)"

definition is_test_file :: "string \<Rightarrow> bool" where "is_test_file path \<longleftrightarrow> endswith (path_name path) ''_test.lua''"
definition is_helper_file :: "string \<Rightarrow> bool" where "is_helper_file path \<longleftrightarrow> endswith (path_name path) ''_helpers.lua''"

definition file_shape :: "repo \<Rightarrow> string \<Rightarrow> reports result" where
  "file_shape repo path =
     (if \<not> is_test_file path \<and> \<not> is_helper_file path
      then Return ([''G2: '' @ rel repo path @ '' must be named *_test.lua or *_helpers.lua''], [])
      else
        (let source = source_of (rp_tree repo) path in
         bindR (test_function_names source) (\<lambda>runnable_names.
         bindR (test_assignment_names source) (\<lambda>assigned_names.
         Return
           ((if is_test_file path
             then map (\<lambda>n. ''G2: '' @ rel repo path @ '' defines duplicate top-level test name: '' @ n) (duplicate_test_names assigned_names)
             else []) @
            (if is_helper_file path \<and> assigned_names \<noteq> []
             then [''G2: '' @ rel repo path @ '' is a helper but defines test entries: '' @ join '', '' (sort (remdups assigned_names))]
             else []),
            if is_test_file path \<and> runnable_names = []
            then [''G2: '' @ rel repo path @ '' has no best-effort test_<name> = function lint match; engine G5 is authoritative'']
            else [])))))"

definition check_test_shape :: "repo \<Rightarrow> reports result" where
  "check_test_shape repo =
     bindR (mapR (file_shape repo) (concat (map (test_files (rp_tree repo)) (package_dirs repo)))) (\<lambda>rs.
     Return (concat (map fst rs), concat (map snd rs)))"

section \<open>Reachability of helpers (G3)\<close>

text \<open>The file of a module: of two files with one module name the later one.\<close>

definition file_by_module :: "string \<Rightarrow> string list \<Rightarrow> (string \<times> string) list" where
  "file_by_module tests_dir files = dict_of (map (\<lambda>p. (test_module_name tests_dir p, p)) files)"

definition targets_of :: "(string \<times> string) list \<Rightarrow> (string \<Rightarrow> string list) \<Rightarrow> string \<Rightarrow> string list" where
  "targets_of modules requires path = List.map_filter (map_of modules) (requires path)"

text \<open>
  The worklist: \<open>pending\<close> is a stack with its top first; a file that was visited is passed over, any other one is
  visited and its targets that were not are pushed.
\<close>

function visit_all :: "(string \<times> string) list \<Rightarrow> (string \<Rightarrow> string list) \<Rightarrow> string list \<Rightarrow> string list \<Rightarrow> string list" where
  "visit_all modules requires reachable [] = reachable"
| "visit_all modules requires reachable (path # pending) =
     (if path \<in> set reachable then visit_all modules requires reachable pending
      else visit_all modules requires (path # reachable)
        (rev (filter (\<lambda>t. t \<notin> set (path # reachable)) (targets_of modules requires path)) @ pending))"
  by pat_completeness auto
termination
proof (relation "measures [\<lambda>(modules, requires, reachable, pending). card ((set (map snd modules) \<union> set pending) - set reachable),
    \<lambda>(modules, requires, reachable, pending). length pending]", goal_cases)
  case (2 modules requires reachable path pending)
  have "card ((set (map snd modules) \<union> set pending) - set reachable) = card ((set (map snd modules) \<union> set (path # pending)) - set reachable)"
    using 2 by (intro arg_cong [where f = card]) auto
  then show ?case by simp
next
  case (3 modules requires reachable path pending)
  let ?new = "rev (filter (\<lambda>t. t \<notin> set (path # reachable)) (targets_of modules requires path)) @ pending"
  have "set (targets_of modules requires path) \<subseteq> set (map snd modules)"
    by (force simp: targets_of_def in_map_filter dest: map_of_SomeD)
  then have "(set (map snd modules) \<union> set ?new) - set (path # reachable) \<subset> (set (map snd modules) \<union> set (path # pending)) - set reachable"
    using 3 by auto
  then have "card ((set (map snd modules) \<union> set ?new) - set (path # reachable)) < card ((set (map snd modules) \<union> set (path # pending)) - set reachable)"
    by (intro psubset_card_mono) simp_all
  then show ?case by simp
qed simp

definition reachable_files :: "string \<Rightarrow> (string \<Rightarrow> string list) \<Rightarrow> string list \<Rightarrow> string list" where
  "reachable_files tests_dir requires files =
     visit_all (file_by_module tests_dir files) requires [] (rev (filter is_test_file files))"

definition require_messages :: "repo \<Rightarrow> string \<Rightarrow> string \<Rightarrow> string \<Rightarrow> string list" where
  "require_messages repo tests_dir path module =
     (let target = module_path tests_dir module in
      if \<not> path_exists (rp_tree repo) target
      then [''G3: '' @ rel repo path @ '' requires tests.'' @ module @ '', but '' @ rel repo target @ '' does not exist'']
      else if is_test_file target then [''G3: '' @ rel repo path @ '' must not require test module tests.'' @ module]
      else [])"

definition package_reachability :: "repo \<Rightarrow> string \<Rightarrow> string list" where
  "package_reachability repo pkg =
     (let tests_dir = pkg @ ''/tests''; files = test_files (rp_tree repo) pkg;
          requires = (\<lambda>p. required_modules (source_of (rp_tree repo) p));
          reachable = reachable_files tests_dir requires files in
      concat (map (\<lambda>path. concat (map (require_messages repo tests_dir path) (requires path))) files) @
      map (\<lambda>helper. ''G3: '' @ rel repo helper @ '' is not reachable from any *_test.lua as tests.'' @ test_module_name tests_dir helper)
        (filter (\<lambda>p. is_helper_file p \<and> p \<notin> set reachable) files))"

definition check_helper_reachability :: "repo \<Rightarrow> string list" where
  "check_helper_reachability repo = concat (map (package_reachability repo) (package_dirs repo))"

section \<open>Names are always captured\<close>

text \<open>Every match of the pattern sets one of these groups.\<close>

fun captures :: "string set \<Rightarrow> regex \<Rightarrow> bool" where
  "captures gs (RGroup g r) = (g \<in> gs \<or> captures gs r)"
| "captures gs (RSeq r q) = (captures gs r \<or> captures gs q)"
| "captures gs (RAlt r q) = (captures gs r \<and> captures gs q)"
| "captures gs _ = False"

lemma star_iter_keeps:
  assumes "\<And>st g st' g'. (st', g') \<in> set (f st g) \<Longrightarrow> fst ` set g \<subseteq> fst ` set g'"
  shows "(st', g') \<in> set (star_iter f b n st g) \<Longrightarrow> fst ` set g \<subseteq> fst ` set g'"
proof (induction n arbitrary: st g)
  case (Suc n)
  from Suc.prems consider "g' = g" | st1 g1 where "(st1, g1) \<in> set (f st g)" "(st', g') \<in> set (star_iter f b n st1 g1)"
    by (auto simp: Let_def split: if_splits)
  then show ?case
  proof cases
    case 2
    with assms [OF 2(1)] Suc.IH [OF 2(2)] show ?thesis by blast
  qed simp
qed simp

lemma update_keys: "fst ` set (AList.update k v g) = insert k (fst ` set g)"
  using dom_update [of k v g] by (simp add: dom_map_of_conv_image_fst)

lemma rmatch_keeps: "(st', g') \<in> set (rmatch r st g) \<Longrightarrow> fst ` set g \<subseteq> fst ` set g'"
proof (induction r arbitrary: st g st' g')
  case (RStar b r)
  show ?case by (rule star_iter_keeps [OF RStar.IH]) (use RStar.prems in simp_all)
next
  case (RSeq r q)
  from RSeq.prems obtain st1 g1 where "(st1, g1) \<in> set (rmatch r st g)" "(st', g') \<in> set (rmatch q st1 g1)" by auto
  then have "fst ` set g \<subseteq> fst ` set g1" "fst ` set g1 \<subseteq> fst ` set g'" using RSeq.IH by blast+
  then show ?case by (rule subset_trans)
next
  case (RAlt r q)
  then show ?case unfolding rmatch.simps set_append by blast
next
  case (RGroup n r)
  from RGroup.prems obtain g1 v where g1: "(st', g1) \<in> set (rmatch r st g)" and g': "g' = AList.update n v g1" by auto
  from RGroup.IH [OF g1] show ?case unfolding g' update_keys by blast
qed (auto split: if_splits option.splits list.splits)

lemma rmatch_captures:
  "captures gs r \<Longrightarrow> (st', g') \<in> set (rmatch r st g) \<Longrightarrow> fst ` set g' \<inter> gs \<noteq> {}"
proof (induction r arbitrary: st g st' g')
  case (RSeq r q)
  then obtain st1 g1 where a: "(st1, g1) \<in> set (rmatch r st g)" "(st', g') \<in> set (rmatch q st1 g1)" by auto
  show ?case
  proof (cases "captures gs r")
    case True
    with RSeq.IH(1) a(1) have "fst ` set g1 \<inter> gs \<noteq> {}" by blast
    with rmatch_keeps [OF a(2)] show ?thesis by blast
  next
    case False
    with RSeq.prems(1) RSeq.IH(2) a(2) show ?thesis by auto
  qed
next
  case (RGroup n r)
  from RGroup.prems obtain g1 v where g1: "(st', g1) \<in> set (rmatch r st g)" and g': "g' = AList.update n v g1" by auto
  show ?case
  proof (cases "n \<in> gs")
    case False
    with RGroup.prems(1) RGroup.IH [OF _ g1] show ?thesis unfolding g' update_keys by auto
  qed (use g' in \<open>auto simp: update_keys\<close>)
qed auto

lemma match_at_captures: "captures gs r \<Longrightarrow> match_at r st = Some found \<Longrightarrow> fst ` set (m_groups found) \<inter> gs \<noteq> {}"
proof -
  assume c: "captures gs r" and m: "match_at r st = Some found"
  from m obtain res ress where res: "rmatch r st [] = res # ress" and found: "found = mk_match st res"
    by (auto simp: match_at_def split: list.split_asm)
  obtain st' g' where "res = (st', g')" by (cases res)
  with res found rmatch_captures [OF c, of st' g' st "[]"] show ?thesis by (simp add: mk_match_def)
qed

lemma search_at_captures:
  "captures gs r \<Longrightarrow> search_at r i p cs = Some found \<Longrightarrow> fst ` set (m_groups found) \<inter> gs \<noteq> {}"
proof (induction r i p cs rule: search_at.induct)
  case (1 r i p)
  then show ?case using match_at_captures by simp
next
  case (2 r i p c cs)
  show ?case
  proof (cases "match_at r (i, p, c # cs)")
    case None
    with 2 show ?thesis by simp
  next
    case (Some m)
    with "2.prems" match_at_captures [of gs r "(i, p, c # cs)" m] show ?thesis by simp
  qed
qed

lemma finditer_captures: "captures gs r \<Longrightarrow> found \<in> set (finditer_from r s k) \<Longrightarrow> fst ` set (m_groups found) \<inter> gs \<noteq> {}"
proof (induction r s k rule: finditer_from.induct)
  case (1 r s k)
  from "1.prems"(2) obtain m where m: "re_search_from r s k = Some m" "found = m \<or> found \<in> set (finditer_from r s (next_start m))"
    unfolding finditer_from.simps [of r s k] by (cases "re_search_from r s k") auto
  from m(2) show ?case
  proof
    assume "found = m"
    with m(1) obtain i p cs where "search_at r i p cs = Some found"
      by (auto simp: re_search_from_def split: prod.split_asm if_split_asm)
    with "1.prems"(1) show ?thesis by (rule search_at_captures)
  next
    assume "found \<in> set (finditer_from r s (next_start m))"
    with "1.IH" [OF m(1)] "1.prems"(1) show ?thesis by blast
  qed
qed

lemma first_group_Some: "fst ` set (m_groups found) \<inter> set gs \<noteq> {} \<Longrightarrow> first_group gs found \<noteq> None"
proof (induction gs)
  case (Cons g gs)
  show ?case
  proof (cases "m_group found g")
    case None
    then have "g \<notin> fst ` set (m_groups found)" by (simp add: m_group_def map_of_eq_None_iff)
    with Cons None show ?thesis by simp
  qed simp
qed simp

lemma test_name_returns: "captures (set TEST_GROUPS) r \<Longrightarrow> found \<in> set (re_finditer r s) \<Longrightarrow> \<exists>n. test_name found = Inr n"
proof -
  assume "captures (set TEST_GROUPS) r" and "found \<in> set (re_finditer r s)"
  then have "fst ` set (m_groups found) \<inter> set TEST_GROUPS \<noteq> {}" unfolding re_finditer_def by (rule finditer_captures)
  from first_group_Some [OF this] show ?thesis by (auto simp: test_name_def)
qed

lemma patterns_capture:
  "captures (set TEST_GROUPS) TEST_DEF_RE" "captures (set TEST_GROUPS) TEST_ASSIGN_RE" "captures (set TEST_GROUPS) TEST_FUNCTION_SUGAR_RE"
  by (simp_all add: TEST_DEF_RE_def TEST_ASSIGN_RE_def TEST_FUNCTION_SUGAR_RE_def quoted_key_def TEST_GROUPS_def)

lemma mapR_returns_all: "(\<And>x. x \<in> set xs \<Longrightarrow> \<exists>y. f x = Inr y) \<Longrightarrow> \<exists>ys. mapR f xs = Inr ys"
  by (induction xs) (force simp: bindR_eq_Inr)+

lemma names_return:
  "\<exists>ns. test_function_names source = Inr ns" "\<exists>ns. test_assignment_names source = Inr ns"
proof -
  have a: "\<exists>ns. matched_test_names source r = Inr ns" if "captures (set TEST_GROUPS) r" for r
    unfolding matched_test_names_def Let_def by (rule mapR_returns_all) (use test_name_returns [OF that] in auto)
  have b: "\<exists>ns. matched_test_assignment_names source = Inr ns"
    unfolding matched_test_assignment_names_def Let_def by (rule mapR_returns_all) (use test_name_returns [OF patterns_capture(2)] in auto)
  have c: "\<exists>ns. matched_test_function_sugar_names source = Inr ns"
    unfolding matched_test_function_sugar_names_def Let_def by (rule mapR_returns_all) (use test_name_returns [OF patterns_capture(3)] in auto)
  show "\<exists>ns. test_function_names source = Inr ns" unfolding test_function_names_def by (rule a [OF patterns_capture(1)])
  show "\<exists>ns. test_assignment_names source = Inr ns" unfolding test_assignment_names_def using b c by (auto simp: bindR_eq_Inr)
qed

text \<open>The names a file assigns; reading them does not fail.\<close>

definition assigned_tests :: "repo \<Rightarrow> string \<Rightarrow> string list" where
  "assigned_tests repo path = (case test_assignment_names (source_of (rp_tree repo) path) of Inl e \<Rightarrow> [] | Inr ns \<Rightarrow> ns)"

lemma assigned_tests_eq: "test_assignment_names (source_of (rp_tree repo) path) = Inr (assigned_tests repo path)"
  using names_return(2) [of "source_of (rp_tree repo) path"] by (auto simp: assigned_tests_def)

section \<open>What the check of shapes means\<close>

lemma duplicates_from_set:
  "set (duplicates_from seen duplicates ns) = set duplicates \<union> {n. n \<in> set ns \<and> (n \<in> set seen \<or> 2 \<le> count_list ns n)}"
proof (induction seen duplicates ns rule: duplicates_from.induct)
  case (2 seen duplicates n ns)
  have one: "1 \<le> count_list ns m \<longleftrightarrow> m \<in> set ns" for m using count_list_0_iff [of ns m] by linarith
  show ?case
  proof (cases "n \<in> set seen")
    case True
    with 2(1) [OF True] show ?thesis using one by auto
  next
    case False
    with 2(2) [OF False] show ?thesis using one by (auto simp: Suc_le_eq)
  qed
qed simp

lemma distinct_count_list: "distinct xs \<longleftrightarrow> (\<forall>x \<in> set xs. \<not> 2 \<le> count_list xs x)"
proof (induction xs)
  case (Cons x xs)
  have one: "0 < count_list xs m \<longleftrightarrow> m \<in> set xs" for m using count_list_0_iff [of xs m] by linarith
  show ?case using Cons.IH one by (auto simp: Suc_le_eq)
qed simp

lemma duplicate_test_names_Nil: "duplicate_test_names ns = [] \<longleftrightarrow> distinct ns"
proof -
  have "duplicate_test_names ns = [] \<longleftrightarrow> set (duplicates_from [] [] ns) = {}"
    unfolding duplicate_test_names_def by (metis set_empty set_sort)
  then show ?thesis by (auto simp: duplicates_from_set distinct_count_list)
qed

text \<open>A file is a test that assigns no name twice, or a helper that assigns none.\<close>

definition well_shaped :: "repo \<Rightarrow> string \<Rightarrow> bool" where
  "well_shaped repo path \<longleftrightarrow>
     is_test_file path \<and> distinct (assigned_tests repo path) \<or> is_helper_file path \<and> assigned_tests repo path = []"

lemma not_test_and_helper: "\<not> (is_test_file path \<and> is_helper_file path)"
proof
  assume "is_test_file path \<and> is_helper_file path"
  then have "suffix ''_test.lua'' (path_name path)" "suffix ''_helpers.lua'' (path_name path)"
    by (simp_all add: is_test_file_def is_helper_file_def)
  from suffix_same_cases [OF this] show False by (simp add: suffix_to_prefix)
qed

lemma file_shape_clean: "(\<exists>ws. file_shape repo path = Inr ([], ws)) \<longleftrightarrow> well_shaped repo path"
proof -
  obtain ns where "test_function_names (source_of (rp_tree repo) path) = Inr ns" using names_return(1) by blast
  then show ?thesis using not_test_and_helper [of path]
    by (auto simp: file_shape_def well_shaped_def Let_def assigned_tests_eq duplicate_test_names_Nil)
qed

lemma file_shape_returns: "\<exists>r. file_shape repo path = Inr r"
proof -
  obtain ns where "test_function_names (source_of (rp_tree repo) path) = Inr ns" using names_return(1) by blast
  then show ?thesis by (auto simp: file_shape_def Let_def assigned_tests_eq)
qed

text \<open>
  The check of the shape of tests always returns, and reports no violation exactly if every file below the
  tests of a package is a test that defines no name twice or a helper that defines no test.
\<close>

theorem test_shape_clean_iff:
  "\<exists>violations warnings. check_test_shape repo = Inr (violations, warnings) \<and>
     (violations = [] \<longleftrightarrow> list_all (well_shaped repo) (concat (map (test_files (rp_tree repo)) (package_dirs repo))))"
proof -
  let ?files = "concat (map (test_files (rp_tree repo)) (package_dirs repo))"
  have "\<exists>rs. mapR (file_shape repo) ps = Inr rs \<and> (concat (map fst rs) = [] \<longleftrightarrow> list_all (well_shaped repo) ps)" for ps
  proof (induction ps)
    case (Cons p ps)
    then obtain rs where "mapR (file_shape repo) ps = Inr rs" "concat (map fst rs) = [] \<longleftrightarrow> list_all (well_shaped repo) ps" by blast
    moreover obtain vs ws where r: "file_shape repo p = Inr (vs, ws)" using file_shape_returns by fastforce
    moreover have "vs = [] \<longleftrightarrow> well_shaped repo p" using file_shape_clean [of repo p] r by auto
    ultimately show ?case by (auto simp: bindR_eq_Inr)
  qed simp
  then obtain rs where "mapR (file_shape repo) ?files = Inr rs" "concat (map fst rs) = [] \<longleftrightarrow> list_all (well_shaped repo) ?files" by blast
  then show ?thesis by (simp add: check_test_shape_def)
qed

section \<open>What the worklist visits\<close>

definition requires_edges :: "(string \<times> string) list \<Rightarrow> (string \<Rightarrow> string list) \<Rightarrow> (string \<times> string) set" where
  "requires_edges modules requires = {(p, t). \<exists>m \<in> set (requires p). map_of modules m = Some t}"

lemma targets_of_edges: "set (targets_of modules requires p) = requires_edges modules requires `` {p}"
  by (auto simp: targets_of_def requires_edges_def in_map_filter)

lemma rtrancl_closed: "R `` A \<subseteq> A \<union> B \<Longrightarrow> R\<^sup>* `` A \<subseteq> A \<union> R\<^sup>* `` B"
proof
  fix y
  assume c: "R `` A \<subseteq> A \<union> B" and "y \<in> R\<^sup>* `` A"
  then obtain x where "(x, y) \<in> R\<^sup>*" "x \<in> A" by blast
  then show "y \<in> A \<union> R\<^sup>* `` B"
  proof (induction rule: converse_rtrancl_induct)
    case (step x z)
    show ?case
    proof (cases "z \<in> A")
      case False
      with c step have "z \<in> B" by blast
      with step(2) show ?thesis by blast
    qed (use step in blast)
  qed blast
qed

lemma visit_all_visits:
  "requires_edges modules requires `` set reachable \<subseteq> set reachable \<union> set pending \<Longrightarrow>
     set (visit_all modules requires reachable pending) = set reachable \<union> (requires_edges modules requires)\<^sup>* `` set pending"
proof (induction modules requires reachable pending rule: visit_all.induct)
  case (2 modules requires reachable path pending)
  let ?E = "requires_edges modules requires"
  show ?case
  proof (cases "path \<in> set reachable")
    case True
    with "2.prems" have inv: "?E `` set reachable \<subseteq> set reachable \<union> set pending" by auto
    from rtrancl_closed [OF inv] True have "?E\<^sup>* `` {path} \<subseteq> set reachable \<union> ?E\<^sup>* `` set pending" by blast
    moreover have "?E\<^sup>* `` set (path # pending) = ?E\<^sup>* `` {path} \<union> ?E\<^sup>* `` set pending" by auto
    ultimately show ?thesis using "2.IH"(1) [OF True inv] True by auto
  next
    case False
    let ?R = "insert path (set reachable)"
    let ?new = "rev (filter (\<lambda>t. t \<notin> set (path # reachable)) (targets_of modules requires path)) @ pending"
    have new: "set ?new = (?E `` {path} - ?R) \<union> set pending" by (auto simp: targets_of_edges)
    with "2.prems" have inv: "?E `` set (path # reachable) \<subseteq> set (path # reachable) \<union> set ?new" by auto
    from "2.IH"(2) [OF False inv] False have eq: "set (visit_all modules requires reachable (path # pending)) = ?R \<union> ?E\<^sup>* `` set ?new"
      by simp
    have "?E\<^sup>* `` ?R \<subseteq> ?R \<union> ?E\<^sup>* `` set ?new" using rtrancl_closed [OF inv] by simp
    moreover have "?E\<^sup>* `` set ?new \<subseteq> ?E\<^sup>* `` set (path # pending)"
      unfolding new by (auto intro: converse_rtrancl_into_rtrancl)
    moreover have "?E\<^sup>* `` set pending \<subseteq> ?E\<^sup>* `` set ?new" unfolding new by blast
    moreover have "?E\<^sup>* `` set (path # pending) = ?E\<^sup>* `` {path} \<union> ?E\<^sup>* `` set pending" by auto
    ultimately show ?thesis unfolding eq by auto
  qed
qed simp

lemma reachable_files_set:
  "set (reachable_files tests_dir requires files) =
     (requires_edges (file_by_module tests_dir files) requires)\<^sup>* `` {p \<in> set files. is_test_file p}"
  unfolding reachable_files_def by (subst visit_all_visits) auto

text \<open>
  C33. The search for reachable files ends, and every file that some test requires, directly or through other files,
  is eventually visited, and no other one is.
\<close>

theorem every_required_file_visited:
  "set (reachable_files tests_dir requires files) =
     (requires_edges (file_by_module tests_dir files) requires)\<^sup>* `` {p \<in> set files. is_test_file p}"
  by (rule reachable_files_set)

definition tests_of :: "repo \<Rightarrow> string \<Rightarrow> string list" where
  "tests_of repo path = required_modules (source_of (rp_tree repo) path)"

text \<open>A file requires only modules that exist and are no tests.\<close>

definition requires_well :: "repo \<Rightarrow> string \<Rightarrow> string \<Rightarrow> bool" where
  "requires_well repo tests_dir path \<longleftrightarrow>
     list_all (\<lambda>m. path_exists (rp_tree repo) (module_path tests_dir m) \<and> \<not> is_test_file (module_path tests_dir m)) (tests_of repo path)"

text \<open>A helper is required by a test, directly or through other files.\<close>

definition used_by_test :: "repo \<Rightarrow> string \<Rightarrow> string \<Rightarrow> bool" where
  "used_by_test repo pkg helper \<longleftrightarrow>
     (let files = test_files (rp_tree repo) pkg in
      \<exists>t. t \<in> set files \<and> is_test_file t \<and> (t, helper) \<in> (requires_edges (file_by_module (pkg @ ''/tests'') files) (tests_of repo))\<^sup>*)"

definition helpers_used :: "repo \<Rightarrow> string \<Rightarrow> bool" where
  "helpers_used repo pkg \<longleftrightarrow>
     (let files = test_files (rp_tree repo) pkg in
      list_all (requires_well repo (pkg @ ''/tests'')) files \<and> list_all (used_by_test repo pkg) (filter is_helper_file files))"

lemma concat_map_Nil: "concat (map f xs) = [] \<longleftrightarrow> list_all (\<lambda>x. f x = []) xs"
  by (auto simp: list_all_iff)

lemma package_reachability_Nil: "package_reachability repo pkg = [] \<longleftrightarrow> helpers_used repo pkg"
proof -
  let ?files = "test_files (rp_tree repo) pkg"
  have req: "concat (map (require_messages repo tests_dir path) (tests_of repo path)) = [] \<longleftrightarrow> requires_well repo tests_dir path" for tests_dir path
    unfolding requires_well_def concat_map_Nil
    by (intro list.pred_cong refl) (simp only: require_messages_def Let_def, simp)
  have vis: "p \<in> set (reachable_files (pkg @ ''/tests'') (tests_of repo) ?files) \<longleftrightarrow> used_by_test repo pkg p" for p
    unfolding reachable_files_set used_by_test_def Let_def by blast
  show ?thesis
    unfolding package_reachability_def Let_def tests_of_def [symmetric] append_is_Nil_conv map_is_Nil_conv vis helpers_used_def
      concat_map_Nil [of "\<lambda>path. concat (map (require_messages repo (pkg @ ''/tests'') path) (tests_of repo path))"] req
    by (auto simp: list_all_iff filter_empty_conv)
qed

text \<open>
  C12. The check of helpers finds nothing exactly if in every package every required test module exists and is no
  test, and every helper is required by some test, directly or through other files.
\<close>

theorem helper_reachability_clean_iff: "check_helper_reachability repo = [] \<longleftrightarrow> list_all (helpers_used repo) (package_dirs repo)"
  by (simp only: check_helper_reachability_def concat_map_Nil package_reachability_Nil)

end
