(* ===== verification/SourceChecks.thy ===== *)
theory SourceChecks
  imports TestShape PyDigest
begin

text \<open>
  The checks of \<^verbatim>\<open>scripts/check_repo.py\<close> that read one file after the other: the limit of lines, the guards of paged reads
  (with \<^verbatim>\<open>scripts/check_repo_pagination.py\<close>), hidden text in encoded literals, the sizing of the rate pool, the gate of
  ownership (\<^verbatim>\<open>scripts/check_repo_ownership_gate.py\<close>) and classes of persistence.

  Which code points are printable is a parameter. Shown here: what is reported about the length of files, that
  base64 is read back, and that encoded printable text is recognised.
\<close>

section \<open>The limit of lines (G1)\<close>

definition LINE_LIMIT :: int where "LINE_LIMIT = 1000"
definition LINE_WARNING_MARGIN :: int where "LINE_WARNING_MARGIN = 100"
definition SOURCE_SUFFIXES :: "string list" where "SOURCE_SUFFIXES = [''.lua'', ''.sh'', ''.py'', ''.rs'']"

definition line_count :: "string \<Rightarrow> int" where "line_count source = int (length (splitlines source))"

definition line_warning_threshold :: "environ \<Rightarrow> int" where
  "line_warning_threshold env =
     (case truthy (env ''FKST_G1_LINE_WARNING_THRESHOLD'') of
        None \<Rightarrow> LINE_LIMIT - LINE_WARNING_MARGIN
      | Some raw \<Rightarrow>
          (case int_of_str raw of
             None \<Rightarrow> LINE_LIMIT - LINE_WARNING_MARGIN
           | Some threshold \<Rightarrow> if threshold < 1 then LINE_LIMIT - LINE_WARNING_MARGIN else threshold))"

definition path_suffix :: "string \<Rightarrow> string" where
  "path_suffix path = drop (length (path_stem (path_name path))) (path_name path)"

definition source_files :: "tree \<Rightarrow> string \<Rightarrow> string list" where
  "source_files t dir = sort_key path_parts (filter (\<lambda>p. under dir p \<and> path_suffix p \<in> set SOURCE_SUFFIXES) (map fst t))"

definition line_reports :: "repo \<Rightarrow> int \<Rightarrow> string \<Rightarrow> reports" where
  "line_reports repo warning_threshold path =
     (let n = line_count (source_of (rp_tree repo) path); has = ''G1: '' @ rel repo path @ '' has '' @ str_int n in
      if LINE_LIMIT < n then ([has @ '' lines; limit is '' @ str_int LINE_LIMIT], [])
      else if warning_threshold \<le> n
      then ([], [has @ '' lines; warning threshold is '' @ str_int warning_threshold @ ''; hard limit is '' @ str_int LINE_LIMIT])
      else ([], []))"

definition line_limit_files :: "repo \<Rightarrow> string list" where
  "line_limit_files repo = concat (map (source_files (rp_tree repo)) (package_roots repo @ [''libraries'', ''scripts'']))"

definition check_line_limit :: "environ \<Rightarrow> repo \<Rightarrow> reports" where
  "check_line_limit env repo =
     fold (\<lambda>path rs. add_reports rs (line_reports repo (line_warning_threshold env) path)) (line_limit_files repo) ([], [])"

section \<open>Paged reads (G4, G5)\<close>

definition GRAPHQL_FIRST_CONNECTION_RE :: regex where
  "GRAPHQL_FIRST_CONNECTION_RE =
     (let inside = RSet (\<lambda>c. c \<notin> {CHR ''('', CHR '')'', CHR ''{'', CHR ''}''}) in
      rseq [RWordB, RIDENT, rblank, rchar CHR ''('', rstar inside, RWordB, rlit ''first'', rblank, rchar CHR '':'', rblank,
        rplus rdigit, RWordB, rstar inside, rchar CHR '')'', rblank, rchar CHR ''{''])"

fun graphql_brace :: "int \<Rightarrow> nat \<Rightarrow> string \<Rightarrow> nat option" where
  "graphql_brace depth i [] = None"
| "graphql_brace depth i (c # cs) =
     (if c = CHR ''{'' then graphql_brace (depth + 1) (Suc i) cs
      else if c = CHR ''}'' then (if depth = 1 then Some i else graphql_brace (depth - 1) (Suc i) cs)
      else graphql_brace depth (Suc i) cs)"

definition matching_graphql_brace :: "string \<Rightarrow> nat \<Rightarrow> nat option" where
  "matching_graphql_brace source open_index = graphql_brace 0 open_index (drop open_index source)"

fun top_level_chars :: "nat \<Rightarrow> string \<Rightarrow> string" where
  "top_level_chars depth [] = []"
| "top_level_chars depth (c # cs) =
     (if c = CHR ''{'' then CHR '' '' # top_level_chars (Suc depth) cs
      else if c = CHR ''}'' then CHR '' '' # top_level_chars (depth - 1) cs
      else (if depth = 0 \<or> c = LF then c else CHR '' '') # top_level_chars depth cs)"

definition graphql_top_level_text :: "string \<Rightarrow> string" where "graphql_top_level_text source = top_level_chars 0 source"

definition depth_step :: "char \<Rightarrow> nat \<Rightarrow> nat" where
  "depth_step c depth = (if c = CHR ''{'' then Suc depth else if c = CHR ''}'' then depth - 1 else depth)"

definition graphql_depth_at :: "string \<Rightarrow> nat \<Rightarrow> nat" where
  "graphql_depth_at source i = fold depth_step (take i source) 0"

fun first_field_body :: "string \<Rightarrow> rematch list \<Rightarrow> string option" where
  "first_field_body source [] = None"
| "first_field_body source (found # matches) =
     (if graphql_depth_at source (m_start found) \<noteq> 0 then first_field_body source matches
      else
        (case matching_graphql_brace source (m_end found - 1) of
           None \<Rightarrow> first_field_body source matches
         | Some close_index \<Rightarrow> Some (py_slice source (m_end found) close_index)))"

definition graphql_top_level_field_body :: "string \<Rightarrow> string \<Rightarrow> string option" where
  "graphql_top_level_field_body source field_name =
     first_field_body source (re_finditer (rseq [RWordB, rlit field_name, RWordB, rblank, rchar CHR ''{'']) source)"

definition has_word :: "string \<Rightarrow> string \<Rightarrow> bool" where
  "has_word word source \<longleftrightarrow> re_search (rseq [RWordB, rlit word, RWordB]) source \<noteq> None"

definition graphql_connection_has_truncation_guard :: "string \<Rightarrow> bool" where
  "graphql_connection_has_truncation_guard selection_body \<longleftrightarrow>
     has_word ''totalCount'' (graphql_top_level_text selection_body) \<or>
     (case graphql_top_level_field_body selection_body ''pageInfo'' of
        None \<Rightarrow> False
      | Some page_info_body \<Rightarrow> has_word ''hasNextPage'' (graphql_top_level_text page_info_body))"

text \<open>The literals of a source: the line and the content of each.\<close>

definition lua_string_literals :: "string \<Rightarrow> (nat \<times> string) list" where
  "lua_string_literals source = map (\<lambda>span. (sp_line span, span_content span source)) (literal_spans source True True)"

definition literal_connection_lines :: "nat \<times> string \<Rightarrow> nat list" where
  "literal_connection_lines literal =
     (case literal of (line, content) \<Rightarrow>
        if \<not> contains ''first'' content \<or> CHR ''{'' \<notin> set content then []
        else
          map (\<lambda>found. line + count_char content LF 0 (m_start found))
            (filter (\<lambda>found. case matching_graphql_brace content (m_end found - 1) of
                 None \<Rightarrow> False
               | Some close_index \<Rightarrow> \<not> graphql_connection_has_truncation_guard (py_slice content (m_end found) close_index))
              (re_finditer GRAPHQL_FIRST_CONNECTION_RE content)))"

definition unguarded_graphql_first_connection_lines :: "string \<Rightarrow> nat list" where
  "unguarded_graphql_first_connection_lines source = concat (map literal_connection_lines (lua_string_literals source))"

definition quote_or :: regex where "quote_or = RSet (\<lambda>c. c = SQ \<or> c = DQ)"

definition GH_API_WORDS_RE :: regex where
  "GH_API_WORDS_RE = rseq [quote_or, rlit ''gh'', quote_or, rblank, rchar CHR '','', rblank, quote_or, rlit ''api'', quote_or]"

definition PAGINATE_CALL_RE :: regex where
  "PAGINATE_CALL_RE =
     rseq [RAlt (RSeq (RSet (\<lambda>c. c = CHR ''.'' \<or> c = CHR '':'')) rblank) RWordB,
       rstar (RSet test_char), rlit ''paginate'', rstar (RSet test_char), rblank, rchar CHR ''('']"

definition paginates :: "string \<Rightarrow> bool" where
  "paginates source \<longleftrightarrow> contains ''--paginate'' source \<or> contains ''%-%-paginate'' source"

definition unguarded_rest_line :: "string list \<Rightarrow> nat \<Rightarrow> bool" where
  "unguarded_rest_line source_lines i \<longleftrightarrow>
     (let line = source_lines ! i; window = join [LF] (py_slice source_lines (i - 12) (i + 7)) in
      contains ''per_page=100'' line \<and>
      (contains ''gh api'' line \<and> \<not> paginates line \<or>
       \<not> (paginates window \<and> (contains ''gh api'' window \<or> re_search GH_API_WORDS_RE window \<noteq> None) \<or>
          re_search PAGINATE_CALL_RE window \<noteq> None)))"

definition unguarded_rest_per_page_lines :: "string \<Rightarrow> nat list" where
  "unguarded_rest_per_page_lines source =
     (let source_lines = splitlines source in map Suc (filter (unguarded_rest_line source_lines) [0..<length source_lines]))"

text \<open>A report per line of a file, for every Lua file of the packages.\<close>

definition line_messages :: "repo \<Rightarrow> string \<Rightarrow> string \<Rightarrow> (string \<Rightarrow> nat list) \<Rightarrow> string \<Rightarrow> string list" where
  "line_messages repo rule message lines_of path =
     map (\<lambda>line. rule @ '': '' @ rel repo path @ '':'' @ str_int (int line) @ message) (lines_of (source_of (rp_tree repo) path))"

definition check_graphql_connection_guards :: "repo \<Rightarrow> string list" where
  "check_graphql_connection_guards repo =
     concat (map (line_messages repo ''G4''
         '' GraphQL first:N connection lacks a truncation guard; possible fail-open; explicitly detect truncation or fail closed''
         unguarded_graphql_first_connection_lines)
       (map snd (package_lua_files repo)))"

definition check_rest_pagination_guards :: "repo \<Rightarrow> string list" where
  "check_rest_pagination_guards repo =
     concat (map (line_messages repo ''G5''
         '' REST per_page=100 read lacks gh api --paginate; possible fail-open truncation'' unguarded_rest_per_page_lines)
       (map snd (package_lua_files repo)))"

section \<open>Hidden text (G6)\<close>

definition is_hex_digit :: "char \<Rightarrow> bool" where
  "is_hex_digit c \<longleftrightarrow> is_decimal c \<or> (let n = ord c in 65 \<le> n \<and> n \<le> 70 \<or> 97 \<le> n \<and> n \<le> 102)"

definition LONG_STRING_CHAR_RE :: regex where
  "LONG_STRING_CHAR_RE =
     rseq [RWordB, rlit ''string'', rblank, rchar CHR ''.'', rblank, rlit ''char'', rblank, rchar CHR ''('',
       RGroup ''args'' (rstar (RSet (\<lambda>c. c \<noteq> CHR '')''))), rchar CHR '')'']"

definition NUMERIC_ARG_RE :: regex where
  "NUMERIC_ARG_RE =
     rseq [RAlt RBol (rchar CHR '',''), rblank, RAlt (RSeq (rlit ''0x'') (rplus (RSet is_hex_digit))) (rplus rdigit), rblank,
       RLook True (RAlt (rchar CHR '','') REos)]"

definition HIDDEN_TEXT_STRING_CHAR_ARG_MIN :: nat where "HIDDEN_TEXT_STRING_CHAR_ARG_MIN = 6"
definition ENCODED_LITERAL_MIN_BYTES :: nat where "ENCODED_LITERAL_MIN_BYTES = 6"

definition hidden_text_string_char_lines :: "string \<Rightarrow> nat list" where
  "hidden_text_string_char_lines source =
     map (\<lambda>found. count_char source LF 0 (m_start found) + 1)
       (filter (\<lambda>found. HIDDEN_TEXT_STRING_CHAR_ARG_MIN \<le> length (re_findall NUMERIC_ARG_RE (group_or_empty found ''args'')))
         (re_finditer LONG_STRING_CHAR_RE (strip_lua_comments_and_strings source)))"

definition to_lower :: "char \<Rightarrow> char" where
  "to_lower c = (if is_upper_ascii c then char_of (ord c + 32 :: nat) else c)"

text \<open>The name of a function holds letters, digits, underscores, dots and spaces only.\<close>

definition looks_like_decode_helper :: "string \<Rightarrow> bool" where
  "looks_like_decode_helper func \<longleftrightarrow>
     (let normalized = map to_lower (re_sub (rplus rspace) [] func) in
      after_last (CHR ''.'') normalized \<in> {''h'', ''b'', ''u'', ''hex'', ''base64'', ''b64'', ''bytes'', ''byte''} \<or>
      list_ex (\<lambda>token. contains token normalized) [''decode'', ''fromhex'', ''from_hex'', ''unhex'', ''unescape''])"

definition BYTE_ESCAPE_RE :: regex where
  "BYTE_ESCAPE_RE =
     ralt [rseq [rchar BSLASH, rchar CHR ''x'', RSet is_hex_digit, RSet is_hex_digit],
       rseq [rchar BSLASH, RSet is_decimal, ropts 2 (RSet is_decimal)],
       rseq [rchar BSLASH, rchar CHR ''u'', rchar CHR ''{'', rplus (RSet is_hex_digit), rchar CHR ''}'']]"

definition byte_escape_count :: "string \<Rightarrow> nat" where "byte_escape_count content = length (re_findall BYTE_ESCAPE_RE content)"

text \<open>\<open>base64.b64decode\<close> of a text of the alphabet with up to two \<open>=\<close>, in groups of four characters.\<close>

definition base64_value :: "char \<Rightarrow> nat" where
  "base64_value c =
     (if is_upper_ascii c then ord c - 65 else if is_lower_ascii c then ord c - 71 else if is_decimal c then ord c + 4
      else if c = CHR ''+'' then 62 else 63)"

fun b64_bytes :: "nat list \<Rightarrow> nat list" where
  "b64_bytes (a # b # c # d # vs) = (4 * a + b div 16) # (16 * (b mod 16) + c div 4) # (64 * (c mod 4) + d) # b64_bytes vs"
| "b64_bytes [a, b, c] = [4 * a + b div 16, 16 * (b mod 16) + c div 4]"
| "b64_bytes [a, b] = [4 * a + b div 16]"
| "b64_bytes _ = []"

definition b64decode :: "string \<Rightarrow> nat list" where
  "b64decode content = b64_bytes (map base64_value (filter (\<lambda>c. c \<noteq> CHR ''='') content))"

text \<open>\<open>bytes.decode("utf-8")\<close>: no overlong forms, no surrogates, nothing above \<open>0x10FFFF\<close>.\<close>

definition continues :: "nat \<Rightarrow> nat \<Rightarrow> nat \<Rightarrow> bool" where "continues lo hi b \<longleftrightarrow> lo \<le> b \<and> b \<le> hi"

definition opt_cons :: "nat \<Rightarrow> nat list option \<Rightarrow> nat list option" where
  "opt_cons x rest = map_option (\<lambda>xs. x # xs) rest"

fun utf8_decode :: "nat list \<Rightarrow> nat list option" where
  "utf8_decode [] = Some []"
| "utf8_decode (a # bs) =
     (if a < 128 then opt_cons a (utf8_decode bs)
      else
        (case bs of
           [] \<Rightarrow> None
         | b # cs \<Rightarrow>
             if 194 \<le> a \<and> a \<le> 223
             then (if continues 128 191 b then opt_cons (64 * (a - 192) + (b - 128)) (utf8_decode cs) else None)
             else
               (case cs of
                  [] \<Rightarrow> None
                | c # ds \<Rightarrow>
                    if 224 \<le> a \<and> a \<le> 239
                    then
                      (if continues (if a = 224 then 160 else 128) (if a = 237 then 159 else 191) b \<and> continues 128 191 c
                       then opt_cons (4096 * (a - 224) + 64 * (b - 128) + (c - 128)) (utf8_decode ds) else None)
                    else
                      (case ds of
                         [] \<Rightarrow> None
                       | d # es \<Rightarrow>
                           if 240 \<le> a \<and> a \<le> 244 \<and> continues (if a = 240 then 144 else 128) (if a = 244 then 143 else 191) b \<and>
                              continues 128 191 c \<and> continues 128 191 d
                           then opt_cons (262144 * (a - 240) + 4096 * (b - 128) + 64 * (c - 128) + (d - 128)) (utf8_decode es)
                           else None))))"

text \<open>The quotient of two lengths is at least \<open>0.8\<close> exactly if five times the first is at least four times the second.\<close>

definition is_printable_utf8 :: "(nat \<Rightarrow> bool) \<Rightarrow> nat list \<Rightarrow> bool" where
  "is_printable_utf8 isprintable bytes \<longleftrightarrow>
     ENCODED_LITERAL_MIN_BYTES \<le> length bytes \<and>
     (case utf8_decode bytes of
        None \<Rightarrow> False
      | Some decoded \<Rightarrow>
          decoded \<noteq> [] \<and> 4 * length decoded \<le> 5 * length (filter (\<lambda>n. isprintable n \<or> n \<in> {10, 13, 9}) decoded))"

definition HEX_LITERAL_RE :: regex where "HEX_LITERAL_RE = RSeq (rplus (RSet is_hex_digit)) REos"

definition BASE64_LITERAL_RE :: regex where
  "BASE64_LITERAL_RE =
     rseq [rplus (RSet (\<lambda>c. is_alnum_ascii c \<or> c = CHR ''+'' \<or> c = CHR ''/'')), ropts 2 (rchar CHR ''=''), REos]"

definition encoded_literal_kind :: "(nat \<Rightarrow> bool) \<Rightarrow> string \<Rightarrow> string option" where
  "encoded_literal_kind isprintable content =
     (let n = length content in
      if 2 * ENCODED_LITERAL_MIN_BYTES \<le> n \<and> n mod 2 = 0 \<and> fullmatches HEX_LITERAL_RE content then Some ''hex''
      else if ENCODED_LITERAL_MIN_BYTES \<le> byte_escape_count content then Some ''byte-escape''
      else if 2 * ENCODED_LITERAL_MIN_BYTES \<le> n \<and> n mod 4 = 0 \<and> fullmatches BASE64_LITERAL_RE content \<and>
         is_printable_utf8 isprintable (b64decode content) then Some ''base64''
      else None)"

definition HELPER_STRING_ARG_RE :: regex where
  "HELPER_STRING_ARG_RE =
     rseq [RWordB, RGroup ''func'' (RSeq (ropt (rseq [RIDENT, rblank, rchar CHR ''.'', rblank])) RIDENT), rblank, rchar CHR ''('', rblank,
       RGroup ''quote'' quote_or]"

definition hides_text :: "(nat \<Rightarrow> bool) \<Rightarrow> string \<Rightarrow> string \<Rightarrow> rematch \<Rightarrow> bool" where
  "hides_text isprintable source stripped found \<longleftrightarrow>
     (let quote_start = the_default 0 (m_group_start found ''quote'') in
      is_unmasked_range source stripped (m_start found) quote_start \<and>
      (case literal_span_at source quote_start True False of
         None \<Rightarrow> False
       | Some literal \<Rightarrow>
           sp_kind literal = SHORT_STRING \<and> sp_terminated literal \<and> looks_like_decode_helper (group_or_empty found ''func'') \<and>
           encoded_literal_kind isprintable (py_slice source (Suc quote_start) (sp_end literal - 1)) \<noteq> None))"

definition hidden_text_encoded_literal_lines :: "(nat \<Rightarrow> bool) \<Rightarrow> string \<Rightarrow> nat list" where
  "hidden_text_encoded_literal_lines isprintable source =
     (let stripped = strip_lua_comments_and_strings source in
      sort (remdups (hidden_text_string_char_lines source @
        map (\<lambda>found. count_char source LF 0 (m_start found) + 1)
          (filter (hides_text isprintable source stripped) (re_finditer HELPER_STRING_ARG_RE source)))))"

text \<open>Files outside of the directories of tests.\<close>

definition in_tests :: "string \<Rightarrow> string \<Rightarrow> bool" where
  "in_tests dir path \<longleftrightarrow> ''tests'' \<in> set (path_parts (drop (Suc (length dir)) path))"

definition production_lua_files :: "repo \<Rightarrow> string list" where
  "production_lua_files repo = map snd (filter (\<lambda>(packages, path). \<not> in_tests packages path) (package_lua_files repo))"

definition check_hidden_text_encoded_literals :: "(nat \<Rightarrow> bool) \<Rightarrow> repo \<Rightarrow> string list" where
  "check_hidden_text_encoded_literals isprintable repo =
     concat (map (line_messages repo ''G6''
         '' hidden text uses an encoded literal decode helper; use a plain source literal instead''
         (hidden_text_encoded_literal_lines isprintable))
       (production_lua_files repo))"

section \<open>The rate pool (G7)\<close>

definition GH_RATE_POOL_FUNCTION_RE :: regex where
  "GH_RATE_POOL_FUNCTION_RE =
     RAlt (rseq [RWordB, rlit ''function'', RWordB, rstar rany, RWordB, rlit ''gh_rate_pool'', RWordB])
       (rseq [RWordB, rlit ''gh_rate_pool'', RWordB, rblank, rchar CHR ''='', rblank, rlit ''function'', RWordB])"

definition GH_RATE_POOL_SIZING_FIELD_RE :: regex where
  "GH_RATE_POOL_SIZING_FIELD_RE =
     rseq [RWordB, RAlt (rlit ''burst'') (RSeq (rlit ''refill_per_'') (RAlt (rlit ''hour'') (rlit ''minute''))), RWordB]"

definition END_LINE_RE :: regex where
  "END_LINE_RE = rseq [RBol, rblank, rlit ''end'', rblank, ropt (RSet (\<lambda>c. c = CHR '','' \<or> c = CHR '';'')), rblank, REol]"

fun sizing_from :: "bool \<Rightarrow> nat \<Rightarrow> string list \<Rightarrow> nat list" where
  "sizing_from in_pool i [] = []"
| "sizing_from in_pool i (line # lines) =
     (let inside = in_pool \<or> re_search GH_RATE_POOL_FUNCTION_RE line \<noteq> None in
      (if inside \<and> re_search GH_RATE_POOL_SIZING_FIELD_RE line \<noteq> None then [i] else []) @
      sizing_from (inside \<and> re_match END_LINE_RE line = None) (Suc i) lines)"

definition gh_rate_pool_sizing_lines :: "string \<Rightarrow> nat list" where
  "gh_rate_pool_sizing_lines source = sizing_from False 1 (splitlines (strip_lua_comments_and_strings source))"

definition check_gh_rate_pool_sizing :: "repo \<Rightarrow> string list" where
  "check_gh_rate_pool_sizing repo =
     concat (map (line_messages repo ''G7''
         '' gh rate pool sizing belongs to FKST_RATE_POOL_GH host posture; package code may declare only the pool name''
         gh_rate_pool_sizing_lines)
       (production_lua_files repo))"

section \<open>The owner of a claim (G8)\<close>

definition CLAIMS_PATH :: string where "CLAIMS_PATH = ''libraries/devloop/claims.lua''"

definition function_M :: regex where
  "function_M = rseq [RMBol, rblank, rlit ''function'', rplus rspace, rchar CHR ''M'', rblank, rchar CHR ''.'']"

definition GATE_RE :: regex where
  "GATE_RE =
     rseq [function_M, rblank, rlit ''verify_pr_review_issue_claim'', rblank, rchar CHR ''('', rstar (RSet (\<lambda>c. c \<noteq> CHR '')'')),
       rchar CHR '')'', RStar False (RSet (\<lambda>_. True)), RLook True (RAlt function_M REos)]"

definition defaulting_bot_login_lines :: "string \<Rightarrow> nat list" where
  "defaulting_bot_login_lines source =
     (case re_search GATE_RE (strip_lua_comments_and_strings source) of
        None \<Rightarrow> []
      | Some gate \<Rightarrow>
          map (\<lambda>found. count_char source LF 0 (m_start gate + m_start found) + 1)
            (re_finditer (rseq [RWordB, rlit ''trusted_bot_login'', rblank, rchar CHR ''('']) 
              (py_slice (strip_lua_comments_and_strings source) (m_start gate) (m_end gate))))"

definition check_ownership_gate_claim_owner :: "repo \<Rightarrow> string list" where
  "check_ownership_gate_claim_owner repo =
     (if \<not> path_exists (rp_tree repo) CLAIMS_PATH
      then [''G8: '' @ CLAIMS_PATH @ '' is missing; ownership gate guard cannot run'']
      else line_messages repo ''G8''
        '' verify_pr_review_issue_claim must use claim_owner(), not the defaulting trusted_bot_login() getter''
        defaulting_bot_login_lines CLAIMS_PATH)"

section \<open>Classes of persistence (G8)\<close>

definition PERSISTENCE_CLASS_RE :: regex where
  "PERSISTENCE_CLASS_RE =
     rseq [RMBol, rblank, rlit ''persistence_class'', rblank, rchar CHR ''='', rblank, RGroup ''quote'' quote_or,
       RGroup ''class'' (rplus (RSet test_char)), RBackref ''quote'']"

definition SAGA_RECOVERY_TOKENS :: "string list" where
  "SAGA_RECOVERY_TOKENS =
     [''fkst:github-devloop:state:v1'', ''current_entity_state'', ''restart_completeness'', ''transition_status'',
      ''versioned_transition_status'', ''cyclic_transition_status'']"

definition package_persistence_class :: "tree \<Rightarrow> string \<Rightarrow> string option" where
  "package_persistence_class t pkg =
     (case tree_read t (pkg @ ''/fkst.toml'') of
        None \<Rightarrow> None
      | Some manifest \<Rightarrow> map_option (\<lambda>found. group_or_empty found ''class'') (re_search PERSISTENCE_CLASS_RE manifest))"

definition persistence_messages :: "repo \<Rightarrow> string \<Rightarrow> string list" where
  "persistence_messages repo pkg =
     (case package_persistence_class (rp_tree repo) pkg of
        None \<Rightarrow> []
      | Some declared \<Rightarrow>
          if declared = ''saga'' then []
          else
            concat (map (\<lambda>path.
              map (\<lambda>token. ''G8: '' @ rel repo path @ '' uses saga recovery token '' @ [SQ] @ token @ [SQ] @ '' but '' @ path_name pkg @
                  '' is '' @ declared)
                (filter (\<lambda>token. contains token (source_of (rp_tree repo) path)) SAGA_RECOVERY_TOKENS))
              (filter (\<lambda>path. \<not> in_tests pkg path) (rglob_lua (rp_tree repo) pkg))))"

definition check_persistence_classes :: "repo \<Rightarrow> string list" where
  "check_persistence_classes repo = concat (map (persistence_messages repo) (package_dirs repo))"

section \<open>What is reported about lengths\<close>

lemma check_line_limit_eq:
  "check_line_limit env repo =
     (concat (map (\<lambda>p. fst (line_reports repo (line_warning_threshold env) p)) (line_limit_files repo)),
      concat (map (\<lambda>p. snd (line_reports repo (line_warning_threshold env) p)) (line_limit_files repo)))"
proof -
  have "fold (\<lambda>path rs. add_reports rs (f path)) ps acc = (fst acc @ concat (map (fst \<circ> f) ps), snd acc @ concat (map (snd \<circ> f) ps))"
    for f and ps :: "string list" and acc :: reports
    by (induction ps arbitrary: acc) (simp_all add: add_reports_def)
  then show ?thesis by (simp add: check_line_limit_def comp_def)
qed

lemma warning_threshold_positive: "1 \<le> line_warning_threshold env"
  by (simp add: line_warning_threshold_def LINE_LIMIT_def LINE_WARNING_MARGIN_def split: option.split)

definition file_lines :: "repo \<Rightarrow> string \<Rightarrow> int" where "file_lines repo path = line_count (source_of (rp_tree repo) path)"

text \<open>
  Whatever the environment says, no file is reported exactly if none has more than a thousand lines; files are
  warned about that stay below this limit, and only from one line on.
\<close>

theorem line_limit_bounds:
  "fst (check_line_limit env repo) = [] \<longleftrightarrow> list_all (\<lambda>p. file_lines repo p \<le> 1000) (line_limit_files repo)"
  "snd (check_line_limit env repo) = [] \<longleftrightarrow>
     list_all (\<lambda>p. 1000 < file_lines repo p \<or> file_lines repo p < line_warning_threshold env) (line_limit_files repo)"
  "1 \<le> line_warning_threshold env"
  using warning_threshold_positive
  by (auto simp: check_line_limit_eq line_reports_def file_lines_def LINE_LIMIT_def Let_def list_all_iff split: if_splits)

section \<open>Encoded text is found\<close>

definition base64_char :: "nat \<Rightarrow> char" where
  "base64_char v = char_of (if v < 26 then v + 65 else if v < 52 then v + 71 else if v < 62 then v - 4 else if v = 62 then 43 else 47)"

fun b64_values :: "nat list \<Rightarrow> nat list" where
  "b64_values (a # b # c # bs) = a div 4 # (16 * (a mod 4) + b div 16) # (4 * (b mod 16) + c div 64) # c mod 64 # b64_values bs"
| "b64_values [a, b] = [a div 4, 16 * (a mod 4) + b div 16, 4 * (b mod 16)]"
| "b64_values [a] = [a div 4, 16 * (a mod 4)]"
| "b64_values [] = []"

definition b64encode :: "nat list \<Rightarrow> string" where
  "b64encode bs = map base64_char (b64_values bs) @ replicate ((3 - length bs mod 3) mod 3) (CHR ''='')"

definition base64_alphabet :: "char \<Rightarrow> bool" where
  "base64_alphabet c \<longleftrightarrow> is_alnum_ascii c \<or> c = CHR ''+'' \<or> c = CHR ''/''"

lemma char_of_eq: "char_of n = c \<longleftrightarrow> n mod 256 = (ord c :: nat)"
  by (metis char_of_char of_char_mod_256 of_char_of char_of_mod_256)

lemma base64_char_value:
  assumes "v < 64"
  shows "base64_value (base64_char v) = v" "base64_alphabet (base64_char v)"
  using assms
  by (auto simp: base64_value_def base64_alphabet_def base64_char_def is_alnum_ascii_def is_alpha_ascii_def is_upper_ascii_def
    is_lower_ascii_def is_decimal_def Let_def char_of_eq)

text \<open>Digits packed into one number and read back.\<close>

lemma packed [simp]: "x < k \<Longrightarrow> (k * y + x) div k = (y :: nat)" "x < k \<Longrightarrow> (k * y + x) mod k = (x :: nat)"
  by simp_all

lemma sixths:
  fixes a :: nat
  assumes "a < 256"
  shows "a div 4 < 64" "a div 16 < 16" "a div 64 < 4"
  using assms by (simp_all add: less_mult_imp_div_less)

lemma packed_less: "r < 4 \<Longrightarrow> q < 16 \<Longrightarrow> 16 * r + q < (64 :: nat)" "r < 16 \<Longrightarrow> q < 4 \<Longrightarrow> 4 * r + q < (64 :: nat)"
  by linarith+

lemma b64_values_less: "list_all (\<lambda>b. b < 256) bs \<Longrightarrow> list_all (\<lambda>v. v < 64) (b64_values bs)"
proof (induction bs rule: b64_values.induct)
  case (1 a b c bs)
  then show ?case by (simp add: packed_less sixths)
next
  case (2 a b)
  then show ?case using packed_less(2) [of "b mod 16" 0] by (simp add: packed_less sixths)
next
  case (3 a)
  then show ?case using packed_less(1) [of "a mod 4" 0] by (simp add: sixths)
qed simp

lemma unpacked: "4 * (c mod 16) div 4 = c mod (16 :: nat)" "16 * (a mod 4) div 16 = a mod (4 :: nat)"
  "4 * (a div 4) + a mod 4 = (a :: nat)" "16 * (a div 16) + a mod 16 = a" "64 * (a div 64) + a mod 64 = a"
  by simp_all

lemma b64_bytes_values: "list_all (\<lambda>b. b < 256) bs \<Longrightarrow> b64_bytes (b64_values bs) = bs"
proof (induction bs rule: b64_values.induct)
  case (1 a b c bs)
  then have "b div 16 < 16" "c div 64 < 4" by (simp_all add: sixths)
  with 1 show ?case by (simp add: unpacked)
next
  case (2 a b)
  then have "b div 16 < 16" by (simp add: sixths)
  with 2 show ?case by (simp add: unpacked)
qed (simp_all add: unpacked)

lemma length_b64_values: "length (b64_values bs) + (3 - length bs mod 3) mod 3 = 4 * ((length bs + 2) div 3)"
proof (induction bs rule: b64_values.induct)
  case (1 a b c bs)
  have "Suc (Suc (Suc (length bs))) mod 3 = length bs mod 3" by presburger
  moreover have "Suc (Suc (Suc (length bs + 2))) div 3 = Suc ((length bs + 2) div 3)" by simp
  ultimately show ?case using 1 by simp
qed simp_all

lemma b64_values_Nil: "b64_values bs = [] \<longleftrightarrow> bs = []"
  by (cases bs rule: b64_values.cases) simp_all

lemma b64decode_encode:
  assumes "list_all (\<lambda>b. b < 256) bs"
  shows "b64decode (b64encode bs) = bs"
proof -
  have alphabet: "base64_char v \<noteq> CHR ''=''" if "v < 64" for v
    using base64_char_value(2) [OF that]
    by (auto simp: base64_alphabet_def is_alnum_ascii_def is_alpha_ascii_def is_upper_ascii_def is_lower_ascii_def is_decimal_def)
  have "filter (\<lambda>c. c \<noteq> CHR ''='') (map base64_char vs) = map base64_char vs" if "list_all (\<lambda>v. v < 64) vs" for vs
    using that alphabet by (induction vs) auto
  moreover have "map (base64_value \<circ> base64_char) vs = vs" if "list_all (\<lambda>v. v < 64) vs" for vs
    using that base64_char_value(1) by (induction vs) auto
  ultimately show ?thesis using b64_values_less [OF assms] b64_bytes_values [OF assms] by (simp add: b64decode_def b64encode_def)
qed

lemma ord_less: "(ord c :: nat) < 256"
  using range_nat_of_char by auto

lemma utf8_bytes: "list_all (\<lambda>b. b < 256) (utf8 s)"
proof -
  have "list_all (\<lambda>b. b < 256) (utf8_char c)" for c
    using ord_less [of c] sixths [of "ord c"] by (auto simp: utf8_char_def Let_def)
  then show ?thesis by (induction s) (simp_all add: utf8_def)
qed

lemma utf8_decode_utf8: "utf8_decode (utf8 s) = Some (map ord s)"
proof (induction s)
  case (Cons c s)
  let ?n = "ord c :: nat"
  have n: "?n < 256" by (rule ord_less)
  show ?case
  proof (cases "?n < 128")
    case False
    with n sixths(3) [OF n] have "?n div 64 = 2 \<or> ?n div 64 = 3" by linarith
    moreover have "64 * (?n div 64) + ?n mod 64 = ?n" by simp
    ultimately show ?thesis using Cons False by (auto simp: utf8_def utf8_char_def Let_def continues_def opt_cons_def)
  qed (use Cons in \<open>simp add: utf8_def utf8_char_def Let_def opt_cons_def\<close>)
qed (simp add: utf8_def)

lemma base64_literal_matches:
  assumes "w \<noteq> []" "list_all base64_alphabet w" "k \<le> 2"
  shows "fullmatches BASE64_LITERAL_RE (w @ replicate k (CHR ''=''))"
proof -
  obtain c cs where w: "w = c # cs" using assms(1) by (cases w) auto
  let ?rest = "replicate k (CHR ''='')" and ?A = "\<lambda>c. is_alnum_ascii c \<or> c = CHR ''+'' \<or> c = CHR ''/''"
  have A: "?A c" "list_all ?A cs" using assms(2) w by (auto simp: base64_alphabet_def list_all_iff)
  have "length cs \<le> length (takeWhile ?A (cs @ ?rest))" using A(2) by (induction cs) auto
  moreover obtain i p where adv: "adv (length cs) (1, Some c, cs @ ?rest) = (i, p, ?rest)"
    using adv_rest [of "length cs" "cs @ ?rest" 1 "Some c"] by auto
  ultimately have star: "((i, p, ?rest), []) \<in> set (rmatch (rstar (RSet ?A)) (1, Some c, cs @ ?rest) [])"
    unfolding rmatch_star_set by (intro conjI refl exI [of _ "length cs"]) (simp_all add: adv)
  have "\<exists>i' p' g'. ((i', p', []), g') \<in> set (rmatch (RSeq (ropts 2 (rchar CHR ''='')) REos) (i, p, ?rest) [])"
    unfolding seq_REos_to_end ropts_set_to_end using assms(3) by (simp add: list_all_iff)
  with star have "\<exists>i' p' g'. ((i', p', []), g') \<in> set (rmatch (RSeq (rplus (RSet ?A)) (RSeq (ropts 2 (rchar CHR ''='')) REos)) (0, None, w @ ?rest) [])"
    using A(1) w unfolding rmatch_RSeq_iff by fastforce
  then show ?thesis unfolding fullmatches_iff BASE64_LITERAL_RE_def by simp
qed

text \<open>
  C34. Printable text of seven characters or more does not hide in an encoded literal: its hex digits are recognised,
  and so is its base64 form.
\<close>

theorem encoded_text_found:
  assumes "7 \<le> length s" "list_all (\<lambda>c. isprintable (ord c)) s"
  shows "encoded_literal_kind isprintable (hex_bytes (utf8 s)) = Some ''hex'' \<and>
    encoded_literal_kind isprintable (b64encode (utf8 s)) \<noteq> None"
proof
  from assms(1) have len: "7 \<le> length (utf8 s)" using length_le_utf8 [of s] by simp
  have digits: "list_all is_hex_digit (hex_bytes (utf8 s))"
    using hex_bytes_shape(2) [of "utf8 s"] by (auto simp: list_all_iff is_hex_char_def is_hex_digit_def Let_def)
  have "hex_bytes (utf8 s) \<noteq> []" using hex_bytes_shape(1) [of "utf8 s"] len by auto
  with digits have "fullmatches HEX_LITERAL_RE (hex_bytes (utf8 s))"
    using fullmatches_plus [of is_hex_digit] unfolding HEX_LITERAL_RE_def fullmatches_iff seq_REos_to_end by simp
  then show "encoded_literal_kind isprintable (hex_bytes (utf8 s)) = Some ''hex''"
    using len by (simp add: encoded_literal_kind_def ENCODED_LITERAL_MIN_BYTES_def hex_bytes_shape(1))
  let ?e = "b64encode (utf8 s)"
  have "length ?e = 4 * ((length (utf8 s) + 2) div 3)" using length_b64_values [of "utf8 s"] by (simp add: b64encode_def)
  moreover have "3 \<le> (length (utf8 s) + 2) div 3" using len by presburger
  ultimately have e: "12 \<le> length ?e" "length ?e mod 4 = 0" by simp_all
  have "b64_values (utf8 s) \<noteq> []" using len by (auto simp: b64_values_Nil)
  moreover have "list_all base64_alphabet (map base64_char (b64_values (utf8 s)))"
    using b64_values_less [OF utf8_bytes [of s]] by (auto simp: list_all_iff base64_char_value)
  moreover have "(3 - length (utf8 s) mod 3) mod 3 \<le> 2" using mod_less_divisor [of 3 "3 - length (utf8 s) mod 3"] by linarith
  ultimately have "fullmatches BASE64_LITERAL_RE ?e"
    unfolding b64encode_def using base64_literal_matches by (metis map_is_Nil_conv)
  moreover have "is_printable_utf8 isprintable (b64decode ?e)"
    using assms len by (auto simp: b64decode_encode [OF utf8_bytes] is_printable_utf8_def utf8_decode_utf8 ENCODED_LITERAL_MIN_BYTES_def list_all_iff)
  ultimately show "encoded_literal_kind isprintable ?e \<noteq> None"
    using e by (auto simp: encoded_literal_kind_def ENCODED_LITERAL_MIN_BYTES_def Let_def)
qed

theorem encoded_text_found_witness:
  "encoded_literal_kind (\<lambda>n. 32 \<le> n \<and> n < 127) (hex_bytes (utf8 ''fkst:state'')) = Some ''hex'' \<and>
   encoded_literal_kind (\<lambda>n. 32 \<le> n \<and> n < 127) (b64encode (utf8 ''fkst:state'')) \<noteq> None"
  by (rule encoded_text_found) simp_all

end
