(* ===== verification/ErrorClass.thy ===== *)
theory ErrorClass
  imports SourceChecks ShrinkOnly
begin

text \<open>
  \<^verbatim>\<open>scripts/check_repo_error_class.py\<close> with its two callers: strings raised by \<open>error()\<close> must begin with a class that the
  error envelope of the libraries admits. Sites of packages are listed by line in an allowlist that only shrinks;
  sites of libraries are compared with the ones at the target commit, by a fingerprint of the message and a count.

  Shown here: when each comparison prints nothing, that debt of packages only shrinks, and that the comparison of a
  library file is a comparison of multisets of fingerprints, which no motion of code changes.
\<close>

section \<open>The grammar of classes\<close>

definition ALLOWLIST :: string where "ALLOWLIST = ''migration/error-class.allowlist''"
definition LIBRARY_ALLOWLIST :: string where "LIBRARY_ALLOWLIST = ''migration/library-error-class.allowlist''"

definition GRAMMAR_SOURCE :: string where "GRAMMAR_SOURCE = ''libraries/contract/error_facts.lua''"

definition GRAMMAR_TABLE_RE :: regex where
  "GRAMMAR_TABLE_RE =
     rseq [rlit ''F.ERROR_ENVELOPE_GRAMMAR'', rblank, rchar CHR ''='', rblank, rchar CHR ''{'',
       RGroup ''body'' (RStar False (RSet (\<lambda>_. True))), rchar LF, rchar CHR ''}'']"

definition GRAMMAR_FIELD_RE :: regex where
  "GRAMMAR_FIELD_RE =
     rseq [RMBol, rblank, RGroup ''name'' (rplus (RSet (\<lambda>c. is_lower_ascii c \<or> c = CHR ''_''))), rblank, rchar CHR ''='', rblank,
       rchar DQ, RGroup ''value'' (rstar (RSet (\<lambda>c. c \<noteq> DQ))), rchar DQ, ropt (rchar CHR '',''), rblank,
       RLook True (RAlt (rchar LF) REos)]"

definition REQUIRED_FIELDS :: "string list" where
  "REQUIRED_FIELDS =
     [''subsystem_segment_initial'', ''subsystem_segment_rest'', ''hierarchy_separator'', ''component_separator'',
      ''class_initial'', ''class_rest'', ''class_terminator'', ''fallback'']"

type_synonym grammar = "(string \<times> string) list"

definition py_list :: "string list \<Rightarrow> string" where
  "py_list xs = ''['' @ join '', '' (map (\<lambda>x. [SQ] @ x @ [SQ]) xs) @ '']''"

definition load_error_envelope_grammar :: "string \<Rightarrow> grammar result" where
  "load_error_envelope_grammar source =
     (case re_search GRAMMAR_TABLE_RE source of
        None \<Rightarrow> Raise (RuntimeError (''missing F.ERROR_ENVELOPE_GRAMMAR in '' @ GRAMMAR_SOURCE))
      | Some table \<Rightarrow>
          let grammar = dict_of (map (\<lambda>found. (group_or_empty found ''name'', group_or_empty found ''value''))
                (re_finditer GRAMMAR_FIELD_RE (group_or_empty table ''body'')));
              missing = filter (\<lambda>f. f \<notin> fst ` set grammar) REQUIRED_FIELDS in
          if missing \<noteq> [] then Raise (RuntimeError (''incomplete error-envelope grammar: missing '' @ py_list (sort missing)))
          else Return grammar)"

text \<open>A class of the escaped characters of a field; the fields that are used so are not empty.\<close>

definition chars_of :: "grammar \<Rightarrow> string \<Rightarrow> regex" where
  "chars_of grammar field = (let chars = dget grammar field [] in RSet (\<lambda>c. c \<in> set chars))"

definition error_class_prefix_re :: "grammar \<Rightarrow> regex" where
  "error_class_prefix_re grammar =
     (let subsystem_segment = RSeq (chars_of grammar ''subsystem_segment_initial'') (rstar (chars_of grammar ''subsystem_segment_rest''));
          error_class = RSeq (chars_of grammar ''class_initial'') (rstar (chars_of grammar ''class_rest'')) in
      rseq [RBol, subsystem_segment, rstar (RSeq (rlit (dget grammar ''hierarchy_separator'' [])) subsystem_segment),
        rlit (dget grammar ''component_separator'' []), error_class, rlit (dget grammar ''class_terminator'' [])])"

section \<open>Calls without a class\<close>

definition ERROR_CALL_STRING_RE :: regex where
  "ERROR_CALL_STRING_RE =
     rseq [RWordB, rlit ''error'', rblank, rchar CHR ''('', rblank, RGroup ''quote'' (RSet (\<lambda>c. c = SQ \<or> c = DQ)),
       RGroup ''message'' (rstar (RSet (\<lambda>c. c \<noteq> SQ \<and> c \<noteq> DQ))), RBackref ''quote'']"

definition unclassified_error_calls :: "grammar \<Rightarrow> string \<Rightarrow> (nat \<times> string) list" where
  "unclassified_error_calls grammar source =
     (let stripped = strip_lua_comments_and_strings source in
      map (\<lambda>found. (count_char source LF 0 (m_start found) + 1, group_or_empty found ''message''))
        (filter (\<lambda>found.
            is_unmasked_range source stripped (m_start found) (the_default 0 (m_group_start found ''quote'')) \<and>
            re_match (error_class_prefix_re grammar) (group_or_empty found ''message'') = None)
          (re_finditer ERROR_CALL_STRING_RE source)))"

definition unclassified_error_call_lines :: "grammar \<Rightarrow> string \<Rightarrow> nat list" where
  "unclassified_error_call_lines grammar source = map fst (unclassified_error_calls grammar source)"

definition current_sites :: "grammar \<Rightarrow> repo \<Rightarrow> string fset" where
  "current_sites grammar repo =
     fset_of_list (concat (map (\<lambda>path.
       map (\<lambda>line. rel repo path @ '':'' @ str_int (int line)) (unclassified_error_call_lines grammar (source_of (rp_tree repo) path)))
       (production_lua_files repo)))"

section \<open>Allowlists\<close>

definition parse_scoped_line :: "string \<Rightarrow> string \<Rightarrow> string \<Rightarrow> string list result" where
  "parse_scoped_line allowlist pre raw =
     (let line = strip (before_sub ''#'' raw); invalid = Raise (ValueError (''invalid '' @ allowlist @ '' line: '' @ raw)) in
      if line = [] then Return []
      else if \<not> startswith line pre \<or> contains '':line='' line \<or> CHR '':'' \<notin> set line then invalid
      else
        let line_part = after_last (CHR '':'') line; path_part = take (length line - length line_part - 1) line in
        if \<not> endswith path_part ''.lua'' \<or> line_part = [] \<or> \<not> list_all is_digit line_part then invalid
        else
          (case int_of_str line_part of
             None \<Rightarrow> Raise (ValueError (''invalid literal for int() with base 10: '' @ [SQ] @ line_part @ [SQ]))
           | Some n \<Rightarrow> if n < 1 then invalid else Return [line]))"

definition parse_scoped_allowlist_lines :: "string list \<Rightarrow> string \<Rightarrow> string \<Rightarrow> string fset result" where
  "parse_scoped_allowlist_lines lines allowlist pre =
     bindR (mapR (parse_scoped_line allowlist pre) lines) (\<lambda>entries. Return (fset_of_list (concat entries)))"

definition parse_allowlist_lines :: "string list \<Rightarrow> string fset result" where
  "parse_allowlist_lines lines = parse_scoped_allowlist_lines lines ALLOWLIST ''packages/''"

definition hex_lower :: "char \<Rightarrow> bool" where "hex_lower c \<longleftrightarrow> is_hex_char c"

definition LIBRARY_ID_RE :: regex where
  "LIBRARY_ID_RE =
     rseq [RGroup ''path'' (rseq [rlit ''libraries/'', rplus rany, rlit ''.lua'']), rlit '':fingerprint='',
       RGroup ''fingerprint'' (rrep 64 (RSet hex_lower)), rlit '':occurrence='',
       RGroup ''occurrence'' (RSeq (RSet (\<lambda>c. is_decimal c \<and> c \<noteq> CHR ''0'')) (rstar (RSet is_decimal))), REos]"

definition parse_library_line :: "string \<Rightarrow> string list result" where
  "parse_library_line raw =
     (let line = strip (before_sub ''#'' raw) in
      if line = [] then Return []
      else if \<not> fullmatches LIBRARY_ID_RE line then Raise (ValueError (''invalid '' @ LIBRARY_ALLOWLIST @ '' line: '' @ raw))
      else Return [line])"

definition parse_library_allowlist_lines :: "string list \<Rightarrow> string fset result" where
  "parse_library_allowlist_lines lines =
     bindR (mapR parse_library_line lines) (\<lambda>entries. Return (fset_of_list (concat entries)))"

section \<open>Sites of libraries\<close>

definition fingerprint_of :: "string \<Rightarrow> string" where "fingerprint_of message = sha256_hex (utf8 message)"

definition site_identity :: "string \<Rightarrow> string \<Rightarrow> nat \<Rightarrow> string" where
  "site_identity relative_path fingerprint occurrence =
     relative_path @ '':fingerprint='' @ fingerprint @ '':occurrence='' @ str_int (int occurrence)"

text \<open>Sites as a dictionary from the identity of each to its location; \<open>occurrences\<close> counts the fingerprints so far.\<close>

fun sites_from :: "string \<Rightarrow> (string \<times> nat) list \<Rightarrow> (nat \<times> string) list \<Rightarrow> (string \<times> string) list" where
  "sites_from relative_path occurrences [] = []"
| "sites_from relative_path occurrences ((line, message) # calls) =
     (let fingerprint = fingerprint_of message; occurrence = dget occurrences fingerprint 0 + 1 in
      (site_identity relative_path fingerprint occurrence, relative_path @ '':'' @ str_int (int line)) #
      sites_from relative_path (AList.update fingerprint occurrence occurrences) calls)"

definition library_sites_for_source :: "grammar \<Rightarrow> string \<Rightarrow> string \<Rightarrow> (string \<times> string) list" where
  "library_sites_for_source grammar relative_path source =
     dict_of (sites_from relative_path [] (unclassified_error_calls grammar source))"

definition current_library_diagnostics :: "grammar \<Rightarrow> repo \<Rightarrow> (string \<times> string) list" where
  "current_library_diagnostics grammar repo =
     dict_of (concat (map (\<lambda>path. library_sites_for_source grammar (rel repo path) (source_of (rp_tree repo) path))
       (filter (\<lambda>path. \<not> in_tests ''libraries'' path) (rglob_lua (rp_tree repo) ''libraries''))))"

text \<open>The site at the target: unchanged files as they are now, changed ones as the target commit has them.\<close>

datatype 'a target = TargetAbsent | TargetUnresolved | TargetPresent 'a

fun target_sites_of :: "git \<Rightarrow> grammar \<Rightarrow> string \<Rightarrow> string list \<Rightarrow> (string \<times> string) list target result" where
  "target_sites_of git grammar commit [] = Return (TargetPresent [])"
| "target_sites_of git grammar commit (path # paths) =
     (let rest = target_sites_of git grammar commit paths in
      if \<not> endswith (path_name path) ''.lua'' \<or> path_name path = ''.lua'' then rest
      else if path \<noteq> ''libraries'' \<and> \<not> under ''libraries'' path
      then Raise (ValueError ([SQ] @ path @ [SQ] @ '' is not in the subpath of '' @ [SQ] @ ''libraries'' @ [SQ]))
      else if in_tests ''libraries'' path then rest
      else
        bindR (file_at_commit git commit path) (\<lambda>file.
          case file of
            Unresolved \<Rightarrow> Return TargetUnresolved
          | Absent \<Rightarrow> rest
          | Present source \<Rightarrow>
              bindR rest (\<lambda>r. case r of
                 TargetPresent sites \<Rightarrow> Return (TargetPresent (library_sites_for_source grammar path source @ sites))
               | other \<Rightarrow> Return other)))"

definition target_library_sites ::
    "environ \<Rightarrow> host_file \<Rightarrow> git \<Rightarrow> grammar \<Rightarrow> (string \<times> string) list \<Rightarrow> (string \<times> string) list target result" where
  "target_library_sites env read git grammar current =
     bindR (resolve_target_ref env read git) (\<lambda>resolved.
       case resolved of
         None \<Rightarrow> Return TargetUnresolved
       | Some target_commit \<Rightarrow>
           bindR (changed_paths git target_commit ''libraries'') (\<lambda>changed.
             case changed of
               None \<Rightarrow> Return TargetUnresolved
             | Some paths \<Rightarrow>
                 bindR (target_sites_of git grammar target_commit (sort (remdups paths))) (\<lambda>r. case r of
                   TargetPresent sites \<Rightarrow>
                     Return (TargetPresent (dict_of
                       (filter (\<lambda>(site, location). before_sub '':fingerprint='' site \<notin> set paths) current @ sites)))
                 | other \<Rightarrow> Return other)))"

definition target_value :: "'a target \<Rightarrow> 'a option" where
  "target_value r = (case r of TargetPresent x \<Rightarrow> Some x | _ \<Rightarrow> None)"

section \<open>Messages\<close>

definition scoped_ratchet_messages :: "string fset \<Rightarrow> string fset \<Rightarrow> string fset option \<Rightarrow> string \<Rightarrow> string \<Rightarrow> string list" where
  "scoped_ratchet_messages current allowlist base_allowlist allowlist_name source_name =
     map (\<lambda>site. site @ '' '' @ source_name @ '' error(...) string lacks a greppable class prefix and is not in '' @ allowlist_name)
       (sorted_list_of_fset (current |-| allowlist)) @
     (case base_allowlist of None \<Rightarrow> []
      | Some base \<Rightarrow>
          map (\<lambda>site. site @ '' grows '' @ allowlist_name @ '' relative to dev; classify the error string instead'')
            (sorted_list_of_fset (allowlist |-| base)))"

definition ratchet_messages :: "string fset \<Rightarrow> string fset \<Rightarrow> string fset option \<Rightarrow> string list" where
  "ratchet_messages current allowlist base_allowlist = scoped_ratchet_messages current allowlist base_allowlist ALLOWLIST ''production''"

definition library_message :: "string fset \<Rightarrow> (string \<times> string) list option \<Rightarrow> string \<times> string \<Rightarrow> string list" where
  "library_message allowlist target_sites site =
     (case site of (identity, location) \<Rightarrow>
        case target_sites of
          Some target \<Rightarrow>
            if identity \<in> fst ` set target then []
            else [location @ '' production library error(...) string is new relative to the target baseline; '' @
              ''diagnostic identity '' @ identity @ ''; classify the error string instead'']
        | None \<Rightarrow>
            if identity |\<in>| allowlist then []
            else [location @ '' production library error(...) string lacks a greppable class prefix; '' @
              ''diagnostic identity '' @ identity @ '' is not in '' @ LIBRARY_ALLOWLIST])"

definition library_ratchet_messages :: "(string \<times> string) list \<Rightarrow> string fset \<Rightarrow> (string \<times> string) list option \<Rightarrow> string list" where
  "library_ratchet_messages current allowlist target_sites =
     concat (map (library_message allowlist target_sites) (sort_key fst current))"

definition check_error_class_prefixes ::
    "environ \<Rightarrow> git \<Rightarrow> host_file \<Rightarrow> grammar \<Rightarrow> repo \<Rightarrow> string option \<Rightarrow> bool \<Rightarrow> check_message list result" where
  "check_error_class_prefixes env git host grammar repo allowlist_dir enforce_base =
     bindR (load_allowlist_with parse_allowlist_lines (case allowlist_dir of None \<Rightarrow> tree_read (rp_tree repo) ALLOWLIST
         | Some dir \<Rightarrow> host (dir @ ''/'' @ path_name ALLOWLIST))) (\<lambda>allowlist.
       let base = (if enforce_base then allowlist_at_dev_base env git ALLOWLIST parse_allowlist_lines else BaseAbsent) in
       Return (map (add ''G7'')
         (unresolved_failure
             ''cannot resolve dev base allowlist to enforce shrink-only error-class ratchet; ensure CI provides the dev ref'' base @
          map Violation (ratchet_messages (current_sites grammar repo) allowlist (base_value base)))))"

definition check_library_error_class ::
    "environ \<Rightarrow> git \<Rightarrow> host_file \<Rightarrow> grammar \<Rightarrow> repo \<Rightarrow> string option \<Rightarrow> bool \<Rightarrow> check_message list result" where
  "check_library_error_class env git host grammar repo allowlist_dir enforce_base =
     (let current = current_library_diagnostics grammar repo in
      bindR (load_allowlist_with parse_library_allowlist_lines
          (case allowlist_dir of None \<Rightarrow> tree_read (rp_tree repo) LIBRARY_ALLOWLIST
           | Some dir \<Rightarrow> host (dir @ ''/'' @ path_name LIBRARY_ALLOWLIST))) (\<lambda>allowlist.
       bindR (if enforce_base then target_library_sites env host git grammar current else Return TargetAbsent) (\<lambda>r.
       Return (map (add ''G-LIB-ERROR-CLASS'')
         ((case r of TargetUnresolved \<Rightarrow>
             [ConfigurationFailure (''cannot resolve target baseline diagnostics to enforce the shrink-only library error-class ratchet; '' @
              ''ensure an explicit target branch or FKST_RATCHET_TARGET_REF is available'')] | _ \<Rightarrow> []) @
          map Violation (library_ratchet_messages current allowlist (target_value r)))))))"

section \<open>Sites count fingerprints\<close>

definition fingerprints :: "grammar \<Rightarrow> string \<Rightarrow> string multiset" where
  "fingerprints grammar source = mset (map (\<lambda>call. fingerprint_of (snd call)) (unclassified_error_calls grammar source))"

lemma sites_from_keys:
  "fst ` set (sites_from path occurrences calls) =
     {site_identity path f k | f k. dget occurrences f 0 < k \<and>
        k \<le> dget occurrences f 0 + count (mset (map (\<lambda>call. fingerprint_of (snd call)) calls)) f}"
proof (induction calls arbitrary: occurrences)
  case (Cons call calls)
  obtain line message where call: "call = (line, message)" by (cases call)
  let ?f = "fingerprint_of message" and ?n = "\<lambda>f. dget occurrences f 0"
  let ?c = "\<lambda>f. count (mset (map (\<lambda>call. fingerprint_of (snd call)) calls)) f"
  have "fst ` set (sites_from path occurrences (call # calls)) =
      insert (site_identity path ?f (Suc (?n ?f)))
        {site_identity path f k | f k. (if f = ?f then Suc (?n f) else ?n f) < k \<and> k \<le> (if f = ?f then Suc (?n f) else ?n f) + ?c f}"
    unfolding call sites_from.simps Let_def list.set image_insert Cons.IH dget_update by simp
  also have "\<dots> = {site_identity path f k | f k. ?n f < k \<and> k \<le> ?n f + count (mset (map (\<lambda>call. fingerprint_of (snd call)) (call # calls))) f}"
    (is "insert ?new ?old = ?all")
  proof (intro equalityI subsetI)
    fix x assume "x \<in> insert ?new ?old"
    then consider "x = ?new" | f k where "x = site_identity path f k" "(if f = ?f then Suc (?n f) else ?n f) < k"
      "k \<le> (if f = ?f then Suc (?n f) else ?n f) + ?c f" by blast
    then show "x \<in> ?all"
    proof cases
      case 1
      then show ?thesis by (intro CollectI exI [of _ ?f] exI [of _ "Suc (?n ?f)"]) (simp add: call)
    next
      case 2
      then show ?thesis by (intro CollectI exI [of _ f] exI [of _ k]) (auto simp: call split: if_splits)
    qed
  next
    fix x assume "x \<in> ?all"
    then obtain f k where x: "x = site_identity path f k" "?n f < k"
      "k \<le> ?n f + count (mset (map (\<lambda>call. fingerprint_of (snd call)) (call # calls))) f" by blast
    show "x \<in> insert ?new ?old"
    proof (cases "f = ?f \<and> k = Suc (?n ?f)")
      case False
      then have "x \<in> ?old" using x by (intro CollectI exI [of _ f] exI [of _ k]) (auto simp: call split: if_splits)
      then show ?thesis by simp
    qed (use x in simp)
  qed
  finally show ?case .
qed simp

lemma library_site_keys:
  "fst ` set (library_sites_for_source grammar path source) =
     {site_identity path f k | f k. 0 < k \<and> k \<le> count (fingerprints grammar source) f}"
  by (simp add: library_sites_for_source_def dict_of_keys sites_from_keys fingerprints_def)

lemma fingerprint_length: "f \<in># fingerprints grammar source \<Longrightarrow> length f = 64"
  by (auto simp: fingerprints_def fingerprint_of_def sha256_hex_shape(1))

lemma site_identity_inject:
  assumes "site_identity path f k = site_identity path f' k'" "length f = length f'"
  shows "f = f' \<and> k = k'"
proof -
  from assms have "f = f'" "str_int (int k) = str_int (int k')" by (auto simp: site_identity_def)
  then show ?thesis by (metis int_of_str_str_int option.inject of_nat_eq_iff)
qed

lemma site_keys_subset:
  "fst ` set (library_sites_for_source grammar path source) \<subseteq> fst ` set (library_sites_for_source grammar path source') \<longleftrightarrow>
     fingerprints grammar source \<subseteq># fingerprints grammar source'"
proof
  assume sub: "fst ` set (library_sites_for_source grammar path source) \<subseteq> fst ` set (library_sites_for_source grammar path source')"
  have "count (fingerprints grammar source) f \<le> count (fingerprints grammar source') f" for f
  proof (cases "count (fingerprints grammar source) f = 0")
    case False
    then have "site_identity path f (count (fingerprints grammar source) f) \<in> fst ` set (library_sites_for_source grammar path source)"
      unfolding library_site_keys by blast
    with sub obtain f' k' where eq: "site_identity path f (count (fingerprints grammar source) f) = site_identity path f' k'"
      and k': "0 < k'" "k' \<le> count (fingerprints grammar source') f'" unfolding library_site_keys by blast
    have "f \<in># fingerprints grammar source" using False by (simp add: count_eq_zero_iff)
    moreover have "f' \<in># fingerprints grammar source'" using k' by (metis count_eq_zero_iff le_zero_eq less_numeral_extra(3))
    ultimately have "length f = length f'" by (simp add: fingerprint_length)
    from site_identity_inject [OF eq this] k'(2) show ?thesis by metis
  qed simp
  then show "fingerprints grammar source \<subseteq># fingerprints grammar source'" by (simp add: subseteq_mset_def)
next
  assume "fingerprints grammar source \<subseteq># fingerprints grammar source'"
  then have "count (fingerprints grammar source) f \<le> count (fingerprints grammar source') f" for f by (simp add: subseteq_mset_def)
  then show "fst ` set (library_sites_for_source grammar path source) \<subseteq> fst ` set (library_sites_for_source grammar path source')"
    unfolding library_site_keys by (auto intro: order_trans)
qed

section \<open>What the ratchets say\<close>

definition library_admitted :: "(string \<times> string) list \<Rightarrow> string fset \<Rightarrow> (string \<times> string) list option \<Rightarrow> bool" where
  "library_admitted current allowlist target_sites \<longleftrightarrow>
     fst ` set current \<subseteq> (case target_sites of Some target \<Rightarrow> fst ` set target | None \<Rightarrow> fset allowlist)"

lemma library_messages_Nil: "library_ratchet_messages current allowlist target_sites = [] \<longleftrightarrow> library_admitted current allowlist target_sites"
proof -
  have "library_message allowlist target_sites site = [] \<longleftrightarrow>
      fst site \<in> (case target_sites of Some target \<Rightarrow> fst ` set target | None \<Rightarrow> fset allowlist)" for site
    by (simp add: library_message_def split: prod.split option.split)
  then show ?thesis by (auto simp: library_ratchet_messages_def library_admitted_def)
qed

text \<open>
  C13. Compared with the target, a library file passes exactly if the messages without a class that it raises are, as a
  multiset of fingerprints, among those of the file at the target: moving calls or adding lines changes nothing, one
  more call with a known message is reported.
\<close>

theorem library_file_motion:
  "library_ratchet_messages (library_sites_for_source grammar path source) allowlist
       (Some (library_sites_for_source grammar path source')) = [] \<longleftrightarrow>
     fingerprints grammar source \<subseteq># fingerprints grammar source'"
  by (simp add: library_messages_Nil library_admitted_def site_keys_subset)

lemma scoped_messages_Nil:
  "scoped_ratchet_messages current allowlist base_allowlist allowlist_name source_name = [] \<longleftrightarrow>
     current |\<subseteq>| allowlist \<and> (case base_allowlist of None \<Rightarrow> True | Some base \<Rightarrow> allowlist |\<subseteq>| base)"
  unfolding scoped_ratchet_messages_def append_is_Nil_conv map_is_Nil_conv sorted_list_of_fset_Nil fminus_empty
  by (simp split: option.split)

interpretation error_class_ratchet: shrink_only_ratchet
  "\<lambda>current allowlist base. ratchet_messages current allowlist base = []" "\<lambda>sites. sites" "\<lambda>allowlist. allowlist" "(|\<subseteq>|)"
  by unfold_locales (auto simp: ratchet_messages_def scoped_messages_Nil)

text \<open>Along a history of clean commits every site without a class was listed from the start.\<close>

lemma error_class_history_shrinks:
  "clean_history (\<lambda>current allowlist base. ratchet_messages current allowlist base = []) base history \<Longrightarrow>
     (current, allowlist) \<in> set history \<Longrightarrow> current |\<subseteq>| base"
  by (rule error_class_ratchet.history_debt)

end
