(* ===== verification/ProducerLiveness.thy ===== *)
theory ProducerLiveness
  imports TestShape ShrinkOnly
begin

text \<open>
  \<^verbatim>\<open>scripts/check_repo_producer_liveness.py\<close>: the ratchet that demands a test with an assertion about the trace of every
  declared raiser.

  The tests of a source are cut out as blocks, a block covers the raisers it fires and whose trace it asserts, and
  the raisers and contracts that packages declare are compared with what is covered. Shown here: a table body is cut
  out in balance, a source without a visible call covers nothing, what it means that the ratchet prints nothing,
  and that debt only shrinks along a history of clean commits.
\<close>

section \<open>Patterns\<close>

definition ALLOWLIST :: string where "ALLOWLIST = ''migration/producer-liveness.allowlist''"

definition TRACE_FIELDS :: "string list" where
  "TRACE_FIELDS = [''consumer_result'', ''source_payload'', ''raised'', ''routed_to'']"

definition quote_char :: "char \<Rightarrow> bool" where "quote_char c \<longleftrightarrow> c = DQ \<or> c = SQ"

text \<open>A quoted name: the quote, the name in a group, the same quote.\<close>

definition quoted_name :: "string \<Rightarrow> regex" where
  "quoted_name g = rseq [RGroup ''quote'' (RSet quote_char), RGroup g (rplus (RSet module_char)), RBackref ''quote'']"

definition RAISER_NAME_RE :: regex where
  "RAISER_NAME_RE = rseq [RWordB, RAlt (rlit ''name'') (rlit ''raiser''), rblank, rchar CHR ''='', rblank, quoted_name ''name'']"

definition PRODUCES_STRING_RE :: regex where
  "PRODUCES_STRING_RE = rseq [RWordB, rlit ''produces'', rblank, rchar CHR ''='', rblank, quoted_name ''queue'']"

text \<open>\<open>.*?\<close> with \<open>DOTALL\<close>\<close>

definition rlazy :: regex where "rlazy = RStar False (RSet (\<lambda>_. True))"

definition PRODUCES_TABLE_RE :: regex where
  "PRODUCES_TABLE_RE =
     rseq [RWordB, rlit ''produces'', rblank, rchar CHR ''='', rblank, rchar CHR ''{'', RGroup ''body'' rlazy, rchar CHR ''}'']"

definition STRING_RE :: regex where "STRING_RE = quoted_name ''value''"

definition TEST_START_RE :: regex where
  "TEST_START_RE =
     RAlt
       (rseq [RBol, rblank,
          RAlt test_word (rseq [rchar CHR ''['', rblank, RSet quote_char, test_word, RSet quote_char, rblank, rchar CHR '']'']),
          rblank, rchar CHR ''='', rblank, rlit ''function'', RWordB])
       (rseq [RBol, rblank, rlit ''function'', rplus rspace, ropt (RSeq RIDENT (RSet (\<lambda>c. c = CHR ''.'' \<or> c = CHR '':''))),
          test_word, rblank, rchar CHR ''('']) "

definition fire_raiser_head :: regex where
  "fire_raiser_head = rseq [RWordB, rchar CHR ''t'', rblank, rchar CHR ''.'', rblank, rlit ''fire_raiser'']"

definition FIRE_RAISER_RE :: regex where
  "FIRE_RAISER_RE =
     rseq [ropt (rseq [ropt (RSeq (rlit ''local'') (rplus rspace)), RGroup ''var'' RIDENT, rblank, rchar CHR ''='', rblank]),
       fire_raiser_head, rblank, rchar CHR ''('', rblank, quoted_name ''raiser'', rblank, rchar CHR '')'']"

definition FIRE_RAISER_HEAD_RE :: regex where "FIRE_RAISER_HEAD_RE = RSeq fire_raiser_head RWordB"

definition ASSERTION_CALL_RE :: regex where
  "ASSERTION_CALL_RE =
     rseq [RWordB,
       ralt [rseq [rchar CHR ''t'', rblank, rchar CHR ''.'', rblank, ralt [rlit ''eq'', rlit ''is_true'', rlit ''assert'']],
         rlit ''assert'', rlit ''error'', rlit ''fail''],
       rblank, rchar CHR ''('']"

definition IF_HEAD_RE :: regex where "IF_HEAD_RE = rseq [RWordB, rlit ''if'', RWordB]"

definition IF_THEN_RE :: regex where
  "IF_THEN_RE = rseq [IF_HEAD_RE, RGroup ''condition'' rlazy, RWordB, rlit ''then'', RWordB]"

definition IF_ASSERTION_ACTION_RE :: regex where
  "IF_ASSERTION_ACTION_RE =
     RAlt (rseq [RWordB, RAlt (rlit ''error'') (rlit ''fail''), rblank, rchar CHR ''('']) 
       (rseq [RWordB, rlit ''return'', rplus rspace, rlit ''false'', RWordB])"

definition FIRE_RAISER_CHILD_PREFIX_RE :: regex where
  "FIRE_RAISER_CHILD_PREFIX_RE =
     rseq [RWordB, ropt (rseq [RIDENT, rblank, rchar CHR ''.'', rblank]), rlit ''fire_raiser_child'', rblank, rchar CHR ''('', rblank, REol]"

section \<open>Raisers and contracts\<close>

datatype producer_raiser =
  ProducerRaiser (pr_package: string) (pr_name: string) (pr_path: string) (pr_produces: "string list")

datatype producer_contract =
  ProducerLivenessContract (pc_package: string) (pc_producer_id: string) (pc_trigger_source: string)
    (pc_runtime_gate: string) (pc_adversarial_fixture: string)

text \<open>\<open>dataclass(order=True)\<close>: the order of the tuples of the fields.\<close>

definition raiser_tuple :: "producer_raiser \<Rightarrow> string \<times> string \<times> string \<times> string list" where
  "raiser_tuple r = (pr_package r, pr_name r, pr_path r, pr_produces r)"

definition contract_tuple :: "producer_contract \<Rightarrow> string \<times> string \<times> string \<times> string \<times> string" where
  "contract_tuple k = (pc_package k, pc_producer_id k, pc_trigger_source k, pc_runtime_gate k, pc_adversarial_fixture k)"

instantiation producer_raiser :: linorder
begin

definition less_eq_producer_raiser :: "producer_raiser \<Rightarrow> producer_raiser \<Rightarrow> bool" where
  "r \<le> r' \<longleftrightarrow> raiser_tuple r \<le> raiser_tuple r'"

definition less_producer_raiser :: "producer_raiser \<Rightarrow> producer_raiser \<Rightarrow> bool" where
  "r < r' \<longleftrightarrow> raiser_tuple r < raiser_tuple r'"

instance
proof
  show "r = r'" if "r \<le> r'" "r' \<le> r" for r r' :: producer_raiser
    using that by (cases r; cases r') (auto simp: less_eq_producer_raiser_def raiser_tuple_def dest: antisym)
qed (auto simp: less_eq_producer_raiser_def less_producer_raiser_def)

end

instantiation producer_contract :: linorder
begin

definition less_eq_producer_contract :: "producer_contract \<Rightarrow> producer_contract \<Rightarrow> bool" where
  "k \<le> k' \<longleftrightarrow> contract_tuple k \<le> contract_tuple k'"

definition less_producer_contract :: "producer_contract \<Rightarrow> producer_contract \<Rightarrow> bool" where
  "k < k' \<longleftrightarrow> contract_tuple k < contract_tuple k'"

instance
proof
  show "k = k'" if "k \<le> k'" "k' \<le> k" for k k' :: producer_contract
    using that by (cases k; cases k') (auto simp: less_eq_producer_contract_def contract_tuple_def dest: antisym)
qed (auto simp: less_eq_producer_contract_def less_producer_contract_def)

end

definition raiser_key :: "producer_raiser \<Rightarrow> string" where "raiser_key r = pr_package r @ ''.'' @ pr_name r"

definition raiser_label :: "producer_raiser \<Rightarrow> string" where
  "raiser_label r =
     raiser_key r @ '' ('' @ pr_path r @ '' -> '' @
     (if pr_produces r \<noteq> [] then join '','' (pr_produces r) else ''<unknown>'') @ '')''"

section \<open>Blocks of tests\<close>

definition strip_lua_comments :: "string \<Rightarrow> string" where
  "strip_lua_comments source = code_mask_gen source COMMENT_KINDS None True True"

definition mask_lua_comments_and_strings :: "string \<Rightarrow> string" where
  "mask_lua_comments_and_strings source = code_mask source"

text \<open>How many more lines a block takes that is open by \<open>depth\<close>.\<close>

fun block_extent :: "int \<Rightarrow> string list \<Rightarrow> nat" where
  "block_extent depth [] = 0"
| "block_extent depth (l # ls) = (if 0 < depth then Suc (block_extent (depth + block_delta l) ls) else 0)"

function blocks_from :: "string list \<Rightarrow> string list \<Rightarrow> string list" where
  "blocks_from [] original_lines = []"
| "blocks_from (l # ls) original_lines =
     (if re_search TEST_START_RE l = None then blocks_from ls (drop 1 original_lines)
      else
        let n = block_extent (block_delta l) ls in
        join [LF] (take (Suc n) original_lines) # blocks_from (drop n ls) (drop (Suc n) original_lines))"
  by pat_completeness auto
termination by (relation "measure (length \<circ> fst)") simp_all

definition test_blocks :: "string \<Rightarrow> string list" where
  "test_blocks source = blocks_from (splitlines (mask_lua_comments_and_strings source)) (splitlines source)"

section \<open>Assertions about a trace\<close>

text \<open>A range of positions, from the first to before the second.\<close>

type_synonym range = "nat \<times> nat"

definition trace_fields :: regex where "trace_fields = ralt (map rlit TRACE_FIELDS)"

definition trace_field_re :: "string \<Rightarrow> regex" where
  "trace_field_re var =
     rseq [RWordB, rlit var, rblank,
       RAlt (rseq [rchar CHR ''.'', rblank, trace_fields])
         (rseq [rchar CHR ''['', rblank, RGroup ''quote'' (RSet quote_char), trace_fields, RBackref ''quote'', rblank, rchar CHR '']''])]"

definition visible_regex_at :: "regex \<Rightarrow> string \<Rightarrow> nat \<Rightarrow> bool" where
  "visible_regex_at r masked start \<longleftrightarrow> match_at r (pos_at masked start) \<noteq> None"

definition visible_fire_raiser_call :: "string \<Rightarrow> rematch \<Rightarrow> bool" where
  "visible_fire_raiser_call masked found \<longleftrightarrow>
     (case re_search FIRE_RAISER_HEAD_RE (m_text found) of
        None \<Rightarrow> False
      | Some head \<Rightarrow> visible_regex_at FIRE_RAISER_HEAD_RE masked (m_start found + m_start head))"

definition trace_field_spans :: "string \<Rightarrow> string \<Rightarrow> string \<Rightarrow> range list" where
  "trace_field_spans source masked var =
     map (\<lambda>found. (m_start found, m_end found))
       (filter (\<lambda>found. strip (py_slice masked (m_start found) (m_start found + length var)) \<noteq> []) (re_finditer (trace_field_re var) source))"

fun paren_end :: "int \<Rightarrow> nat \<Rightarrow> string \<Rightarrow> nat" where
  "paren_end depth i [] = i"
| "paren_end depth i (c # cs) =
     (if c = CHR ''('' then paren_end (depth + 1) (Suc i) cs
      else if c = CHR '')'' then (if depth = 1 then Suc i else paren_end (depth - 1) (Suc i) cs)
      else paren_end depth (Suc i) cs)"

definition matching_paren_end :: "string \<Rightarrow> nat \<Rightarrow> nat" where
  "matching_paren_end masked open_index =
     (if length masked \<le> open_index then length masked else paren_end 0 open_index (drop open_index masked))"

definition assertion_call_spans :: "string \<Rightarrow> string \<Rightarrow> range list" where
  "assertion_call_spans source masked =
     map (\<lambda>found. (m_start found, matching_paren_end masked (m_end found - 1)))
       (filter (\<lambda>found. visible_regex_at ASSERTION_CALL_RE masked (m_start found)) (re_finditer ASSERTION_CALL_RE source))"

definition span_inside :: "range \<Rightarrow> range \<Rightarrow> bool" where
  "span_inside inner outer \<longleftrightarrow> fst outer \<le> fst inner \<and> snd inner \<le> snd outer"

definition action_in_span :: "string \<Rightarrow> string \<Rightarrow> nat \<Rightarrow> nat \<Rightarrow> bool" where
  "action_in_span source masked a b \<longleftrightarrow>
     list_ex (\<lambda>found. visible_regex_at IF_ASSERTION_ACTION_RE masked (m_start found)) (re_finditer_range IF_ASSERTION_ACTION_RE source a b)"

definition if_asserts :: "string \<Rightarrow> string \<Rightarrow> range list \<Rightarrow> rematch \<Rightarrow> bool" where
  "if_asserts source masked refs found \<longleftrightarrow>
     visible_regex_at IF_HEAD_RE masked (m_start found) \<and>
     list_ex (\<lambda>ref. span_inside ref (the_default 0 (m_group_start found ''condition''), group_end found ''condition'')) refs \<and>
     action_in_span source masked (m_end found)
       (case re_search (rseq [RWordB, rlit ''end'', RWordB]) (drop (m_end found) masked) of
          None \<Rightarrow> length masked
        | Some closing \<Rightarrow> m_end found + m_start closing)"

definition if_assertion_spans :: "string \<Rightarrow> string \<Rightarrow> range list \<Rightarrow> bool" where
  "if_assertion_spans source masked refs \<longleftrightarrow> list_ex (if_asserts source masked refs) (re_finditer IF_THEN_RE source)"

definition assertion_contains_trace :: "string \<Rightarrow> string \<Rightarrow> range list \<Rightarrow> bool" where
  "assertion_contains_trace source masked refs \<longleftrightarrow>
     list_ex (\<lambda>assertion. list_ex (\<lambda>ref. span_inside ref assertion) refs) (assertion_call_spans source masked) \<or>
     if_assertion_spans source masked refs"

definition TAIL_RE :: regex where "TAIL_RE = rseq [RBol, rblank, rchar CHR ''.'', rblank, trace_fields, RWordB]"

definition call_asserts_trace :: "string \<Rightarrow> rematch \<Rightarrow> bool" where
  "call_asserts_trace block found \<longleftrightarrow>
     (let source = strip_lua_comments block; masked = mask_lua_comments_and_strings block in
      case m_group found ''var'' of
        Some var \<Rightarrow> assertion_contains_trace source masked (trace_field_spans source masked var)
      | None \<Rightarrow>
          (case re_search TAIL_RE (py_slice source (m_end found) (m_end found + 240)) of
             None \<Rightarrow> False
           | Some tail \<Rightarrow> assertion_contains_trace source masked [(m_start found, m_end found + m_end tail)]))"

section \<open>What the tests of a package cover\<close>

text \<open>\<open>dict[str, set[str]]\<close>: the raisers by the words of the names of the tests that fire them.\<close>

type_synonym fixtures = "(string \<times> string fset) list"

definition embedded_fire_raiser_child_sources :: "string \<Rightarrow> string list" where
  "embedded_fire_raiser_child_sources source =
     map (\<lambda>span. span_content span source)
       (filter (\<lambda>span. sp_kind span = LONG_STRING \<and>
            re_search FIRE_RAISER_CHILD_PREFIX_RE (py_slice source (sp_start span - 160) (sp_start span)) \<noteq> None)
          (literal_spans source True True))"

definition lower_ascii :: "char \<Rightarrow> char" where
  "lower_ascii c = (if is_upper_ascii c then char_of (ord c + 32 :: nat) else c)"

definition fixture_tokens :: "string \<Rightarrow> string list" where
  "fixture_tokens name =
     (let words = re_findall (rplus (RSet is_alnum_ascii)) (map lower_ascii name) in
      words @ concat (map (\<lambda>start. map (\<lambda>n. join ''_'' (take n (drop start words))) [1..<Suc (length words - start)]) [0..<length words]))"

definition block_test_name :: "string \<Rightarrow> string" where
  "block_test_name block = (case re_search (rseq [RWordB, test_word, RWordB]) block of Some found \<Rightarrow> m_text found | None \<Rightarrow> [])"

definition covering_calls :: "string \<Rightarrow> rematch list" where
  "covering_calls block =
     filter (\<lambda>found. visible_fire_raiser_call (mask_lua_comments_and_strings block) found \<and> call_asserts_trace block found)
       (re_finditer FIRE_RAISER_RE (strip_lua_comments block))"

text \<open>The calls of a source that count, each as the name of its test and the raiser it fires.\<close>

definition covering_hits :: "string \<Rightarrow> (string \<times> string) list" where
  "covering_hits source =
     concat (map (\<lambda>block. map (\<lambda>found. (block_test_name block, group_or_empty found ''raiser'')) (covering_calls block))
       (concat (map test_blocks (source # embedded_fire_raiser_child_sources source))))"

definition add_hit :: "string \<times> string \<Rightarrow> fixtures \<Rightarrow> fixtures" where
  "add_hit hit by_fixture = fold (\<lambda>token. dmodify token {||} (finsert (snd hit))) (fixture_tokens (fst hit)) by_fixture"

definition covered_raiser_tests_in_source :: "string \<Rightarrow> fixtures" where
  "covered_raiser_tests_in_source source =
     (let hits = covering_hits source in
      dmodify [] {||} (\<lambda>raisers. raisers |\<union>| fset_of_list (map snd hits)) (fold add_hit hits []))"

definition fixture_raisers :: "fixtures \<Rightarrow> string fset" where
  "fixture_raisers by_fixture = fold (|\<union>|) (map snd by_fixture) {||}"

definition covered_raisers_in_source :: "string \<Rightarrow> string fset" where
  "covered_raisers_in_source source = fixture_raisers (covered_raiser_tests_in_source source)"

definition merge_fixtures :: "fixtures \<Rightarrow> fixtures \<Rightarrow> fixtures" where
  "merge_fixtures new covered = fold (\<lambda>(fixture, raisers). dmodify fixture {||} (\<lambda>s. s |\<union>| raisers)) new covered"

definition package_test_fixture_coverage :: "tree \<Rightarrow> string \<Rightarrow> fixtures" where
  "package_test_fixture_coverage t pkg =
     fold (\<lambda>path. merge_fixtures (covered_raiser_tests_in_source (source_of t path))) (filter is_test_file (test_files t pkg)) []"

definition package_test_coverage :: "tree \<Rightarrow> string \<Rightarrow> string fset" where
  "package_test_coverage t pkg = fixture_raisers (package_test_fixture_coverage t pkg)"

section \<open>Bodies of tables\<close>

text \<open>The position of the brace that closes, from \<open>cursor\<close> inside \<open>depth\<close> open ones.\<close>

function closing_brace :: "string \<Rightarrow> int \<Rightarrow> nat \<Rightarrow> nat option" where
  "closing_brace source depth cursor =
     (if length source \<le> cursor then None
      else
        (case literal_span_at source cursor True False of
           Some literal \<Rightarrow> closing_brace source depth (sp_end literal)
         | None \<Rightarrow>
             (if source ! cursor = CHR ''{'' then closing_brace source (depth + 1) (Suc cursor)
              else if source ! cursor = CHR ''}''
              then (if depth = 1 then Some cursor else closing_brace source (depth - 1) (Suc cursor))
              else closing_brace source depth (Suc cursor))))"
  by pat_completeness auto
termination
  by (relation "measure (\<lambda>(source, depth, cursor). length source - cursor)") (auto dest: literal_span_at_moves)

declare closing_brace.simps [simp del]

definition bracket_body :: "string \<Rightarrow> nat \<Rightarrow> string option" where
  "bracket_body source start =
     (case find_from source ''{'' start of
        None \<Rightarrow> None
      | Some opening \<Rightarrow> map_option (py_slice source (Suc opening)) (closing_brace source 0 opening))"

function table_bodies_from :: "string \<Rightarrow> nat \<Rightarrow> string list" where
  "table_bodies_from source cursor =
     (if length source \<le> cursor then []
      else
        (case literal_span_at source cursor True False of
           Some literal \<Rightarrow> table_bodies_from source (sp_end literal)
         | None \<Rightarrow>
             (if source ! cursor \<noteq> CHR ''{'' then table_bodies_from source (Suc cursor)
              else
                (case bracket_body source cursor of
                   None \<Rightarrow> table_bodies_from source (Suc cursor)
                 | Some body \<Rightarrow> body # table_bodies_from source (cursor + length body + 2)))))"
  by pat_completeness auto
termination
  by (relation "measure (\<lambda>(source, cursor). length source - cursor)") (auto dest: literal_span_at_moves)

declare table_bodies_from.simps [simp del]

definition top_level_table_bodies :: "string \<Rightarrow> string list" where
  "top_level_table_bodies source = table_bodies_from source 0"

section \<open>What packages declare\<close>

definition path_below :: "string \<Rightarrow> string \<Rightarrow> string" where
  "path_below packages path = drop (Suc (length packages)) path"

text \<open>The sorted files below a directory whose parts have a shape, as \<open>glob\<close> finds them.\<close>

definition glob_parts :: "(string list \<Rightarrow> bool) \<Rightarrow> tree \<Rightarrow> string \<Rightarrow> string list" where
  "glob_parts shape t packages =
     sort_key path_parts (filter (\<lambda>p. under packages p \<and> shape (path_parts (path_below packages p))) (map fst t))"

definition core_shape :: "string list \<Rightarrow> bool" where
  "core_shape parts \<longleftrightarrow> (case parts of [_, f] \<Rightarrow> f = ''core.lua'' | _ \<Rightarrow> False)"

definition raiser_shape :: "string list \<Rightarrow> bool" where
  "raiser_shape parts \<longleftrightarrow> (case parts of [_, d, f] \<Rightarrow> d = ''raisers'' \<and> endswith f ''.lua'' | _ \<Rightarrow> False)"

definition CONTRACT_FIELDS :: "string list" where
  "CONTRACT_FIELDS = [''producer_id'', ''trigger_source'', ''runtime_gate'', ''adversarial_fixture'']"

definition CONTRACT_FIELD_RE :: regex where
  "CONTRACT_FIELD_RE =
     rseq [RWordB, RGroup ''name'' (ralt (map rlit CONTRACT_FIELDS)), rblank, rchar CHR ''='', rblank, quoted_name ''value'']"

definition CONTRACTS_FUNCTION_RE :: regex where
  "CONTRACTS_FUNCTION_RE =
     rseq [RWordB, rlit ''function'', rplus rspace, rchar CHR ''M'', rblank, rchar CHR ''.'', rblank,
       rlit ''producer_liveness_contracts'', rblank, rchar CHR ''('']"

definition contract_fields :: "string \<Rightarrow> (string \<times> string) list" where
  "contract_fields entry_body =
     dict_of (map (\<lambda>found. (group_or_empty found ''name'', group_or_empty found ''value'')) (re_finditer CONTRACT_FIELD_RE entry_body))"

definition contract_of :: "string \<Rightarrow> string \<Rightarrow> producer_contract option" where
  "contract_of package entry_body =
     (let fields = contract_fields entry_body in
      if \<not> contains ''runtime_gate'' entry_body \<or> \<not> contains ''adversarial_fixture'' entry_body then None
      else if \<not> set CONTRACT_FIELDS \<subseteq> fst ` set fields then None
      else Some (ProducerLivenessContract package (dget fields ''producer_id'' []) (dget fields ''trigger_source'' [])
        (dget fields ''runtime_gate'' [])
        (map lower_ascii (map (\<lambda>c. if c = CHR ''-'' then CHR ''_'' else c) (dget fields ''adversarial_fixture'' [])))))"

definition producer_liveness_contracts :: "tree \<Rightarrow> string \<Rightarrow> string \<Rightarrow> producer_contract list" where
  "producer_liveness_contracts t packages path =
     (let source = strip_lua_comments (source_of t path) in
      case re_search CONTRACTS_FUNCTION_RE source of
        None \<Rightarrow> []
      | Some found \<Rightarrow>
          (case bracket_body source (m_end found) of
             None \<Rightarrow> []
           | Some body \<Rightarrow> List.map_filter (contract_of (hd (path_parts (path_below packages path)))) (top_level_table_bodies body)))"

definition declared_liveness_contracts :: "tree \<Rightarrow> string \<Rightarrow> producer_contract fset" where
  "declared_liveness_contracts t packages =
     fset_of_list (concat (map (producer_liveness_contracts t packages) (glob_parts core_shape t packages)))"

text \<open>\<open>tuple(dict.fromkeys(xs))\<close>: the first of equal elements stays.\<close>

definition first_of_each :: "string list \<Rightarrow> string list" where
  "first_of_each xs = rev (remdups (rev xs))"

definition declared_raiser :: "tree \<Rightarrow> string \<Rightarrow> string \<Rightarrow> producer_raiser" where
  "declared_raiser t packages path =
     (let source = strip_lua_comments (source_of t path);
          raiser_name = (case re_search RAISER_NAME_RE source of
            Some found \<Rightarrow> group_or_empty found ''name'' | None \<Rightarrow> path_stem (path_name path));
          produces = map (\<lambda>found. group_or_empty found ''queue'') (re_finditer PRODUCES_STRING_RE source) @
            concat (map (\<lambda>found. map (\<lambda>s. group_or_empty s ''value'') (re_finditer STRING_RE (group_or_empty found ''body'')))
              (re_finditer PRODUCES_TABLE_RE source)) in
      ProducerRaiser (hd (path_parts (path_below packages path))) raiser_name (''packages/'' @ path_below packages path)
        (first_of_each produces))"

definition declared_raisers :: "tree \<Rightarrow> string \<Rightarrow> producer_raiser fset" where
  "declared_raisers t packages = fset_of_list (map (declared_raiser t packages) (glob_parts raiser_shape t packages))"

section \<open>The ratchet\<close>

definition entry_char :: regex where "entry_char = RSet module_char"

definition ENTRY_RE :: regex where "ENTRY_RE = rseq [rplus entry_char, rchar CHR ''.'', rplus entry_char]"

definition parse_entry :: "nat \<times> string \<Rightarrow> string list result" where
  "parse_entry numbered =
     (case numbered of (number, raw) \<Rightarrow>
        let line = strip raw in
        if line = [] \<or> startswith line ''#'' then Return []
        else if \<not> fullmatches ENTRY_RE line
        then Raise (ValueError (''invalid '' @ ALLOWLIST @ '' line '' @ str_int (int number) @ '': '' @ raw))
        else Return [line])"

definition parse_allowlist :: "string list \<Rightarrow> string fset result" where
  "parse_allowlist lines =
     bindR (mapR parse_entry (zip [1..<Suc (length lines)] lines)) (\<lambda>entries. Return (fset_of_list (concat entries)))"

definition load_allowlist :: "string option \<Rightarrow> string fset result" where
  "load_allowlist file = load_allowlist_with parse_allowlist file"

definition parse_dev_allowlist_lines :: "string list \<Rightarrow> string fset result" where
  "parse_dev_allowlist_lines lines =
     Return (fset_of_list (filter (\<lambda>l. l \<noteq> [] \<and> \<not> startswith l ''#'') (map strip lines)))"

text \<open>The raisers come in the order in which Python iterates their set.\<close>

definition raiser_covered :: "(string \<times> string fset) list \<Rightarrow> producer_raiser \<Rightarrow> bool" where
  "raiser_covered coverage_by_package r \<longleftrightarrow> pr_name r |\<in>| dget coverage_by_package (pr_package r) {||}"

definition covered_keys :: "producer_raiser list \<Rightarrow> (string \<times> string fset) list \<Rightarrow> string fset" where
  "covered_keys raisers coverage_by_package = fset_of_list (map raiser_key (filter (raiser_covered coverage_by_package) raisers))"

definition uncovered_keys :: "producer_raiser list \<Rightarrow> (string \<times> string fset) list \<Rightarrow> string fset" where
  "uncovered_keys raisers coverage_by_package =
     fset_of_list (map raiser_key raisers) |-| covered_keys raisers coverage_by_package"

definition uncovered_message :: "producer_raiser list \<Rightarrow> string \<Rightarrow> string" where
  "uncovered_message raisers key =
     (case map_of (dict_of (map (\<lambda>r. (raiser_key r, r)) raisers)) key of
        None \<Rightarrow> key
      | Some r \<Rightarrow> raiser_label r @ '' lacks a trace-asserting fire_raiser test; add fire_raiser('' @ [DQ] @ pr_name r @ [DQ] @
          '') with consumer_result/source_payload/raised/routed_to assertions or list existing debt in '' @ ALLOWLIST)"

definition matching_raisers :: "producer_raiser list \<Rightarrow> producer_contract \<Rightarrow> producer_raiser list" where
  "matching_raisers raisers contract =
     filter (\<lambda>r. pr_package r = pc_package contract \<and> pc_trigger_source contract \<in> set (pr_produces r)) (sort raisers)"

definition fixture_covered :: "(string \<times> fixtures) list \<Rightarrow> producer_contract \<Rightarrow> producer_raiser \<Rightarrow> bool" where
  "fixture_covered fixture_coverage contract r \<longleftrightarrow>
     pr_name r |\<in>| dget (dget fixture_coverage (pc_package contract) []) (pc_adversarial_fixture contract) {||}"

definition contract_messages ::
    "producer_raiser list \<Rightarrow> string fset \<Rightarrow> (string \<times> fixtures) list \<Rightarrow> producer_contract \<Rightarrow> string list" where
  "contract_messages raisers allowlist fixture_coverage contract =
     (let declares = pc_producer_id contract @ '' declares producer-liveness trigger_source='' @ pc_trigger_source contract in
      case matching_raisers raisers contract of
        [] \<Rightarrow> [declares @ '' but no matching raiser exists'']
      | [r] \<Rightarrow>
          if raiser_key r |\<in>| allowlist \<or> fixture_covered fixture_coverage contract r then []
          else [raiser_label r @ '' is runtime-gated by '' @ pc_runtime_gate contract @ ''; add a trace-asserting fire_raiser('' @ [DQ] @
            pr_name r @ [DQ] @ '') test whose test name includes '' @ pc_adversarial_fixture contract]
      | rs \<Rightarrow> [declares @ '' but multiple raisers produce it: '' @ join '', '' (map raiser_key rs)])"

definition ratchet_messages ::
    "producer_raiser list \<Rightarrow> (string \<times> string fset) list \<Rightarrow> string fset \<Rightarrow> string fset option \<Rightarrow>
     (string \<times> fixtures) list \<Rightarrow> producer_contract fset \<Rightarrow> string list" where
  "ratchet_messages raisers coverage_by_package allowlist base_allowlist fixture_coverage contracts =
     (let covered = covered_keys raisers coverage_by_package; uncovered = uncovered_keys raisers coverage_by_package in
      map (uncovered_message raisers) (sorted_list_of_fset (uncovered |-| allowlist)) @
      map (\<lambda>key. key @ '' is listed in '' @ ALLOWLIST @ '' but '' @
            (if key |\<in>| covered then ''is covered'' else ''has no declared raiser'') @ ''; prune the stale entry'')
        (sorted_list_of_fset (allowlist |-| uncovered)) @
      (case base_allowlist of None \<Rightarrow> []
       | Some base \<Rightarrow> map (\<lambda>key. key @ '' grows '' @ ALLOWLIST @ '' relative to dev; add a fire_raiser trace assertion instead'')
           (sorted_list_of_fset (allowlist |-| base))) @
      concat (map (contract_messages raisers allowlist fixture_coverage) (sorted_list_of_fset contracts)))"

definition package_coverage :: "(string \<times> fixtures) list \<Rightarrow> (string \<times> string fset) list" where
  "package_coverage fixture_coverage = map (\<lambda>(package, by_fixture). (package, fixture_raisers by_fixture)) fixture_coverage"

text \<open>
  The messages for one directory of packages, as the tool prints them alone, and for all of a repository, as the
  runner of the checks collects them; \<open>iterate\<close> is the order in which Python iterates a set.
\<close>

definition messages_with ::
    "environ \<Rightarrow> git \<Rightarrow> (producer_raiser fset \<Rightarrow> producer_raiser list) \<Rightarrow> string option \<Rightarrow> bool \<Rightarrow> producer_raiser fset \<Rightarrow>
     (string \<times> fixtures) list \<Rightarrow> producer_contract fset \<Rightarrow> check_message list result" where
  "messages_with env git iterate allowlist_file enforce_base raisers fixture_coverage contracts =
     bindR (load_allowlist allowlist_file) (\<lambda>allowlist.
       let base = (if enforce_base then allowlist_at_dev_base env git ALLOWLIST parse_dev_allowlist_lines else BaseAbsent) in
       Return (unresolved_failure
           ''cannot resolve dev base allowlist to enforce shrink-only ratchet; ensure CI provides the dev ref'' base @
         map Violation (ratchet_messages (iterate raisers) (package_coverage fixture_coverage) allowlist (base_value base)
           fixture_coverage contracts)))"

definition fixture_coverage_of :: "tree \<Rightarrow> string list \<Rightarrow> (string \<times> fixtures) list" where
  "fixture_coverage_of t roots =
     dict_of (concat (map (\<lambda>packages.
       map (\<lambda>n. (n, package_test_fixture_coverage t (packages @ ''/'' @ n))) (child_dirs t packages)) roots))"

definition repository_messages ::
    "environ \<Rightarrow> git \<Rightarrow> (producer_raiser fset \<Rightarrow> producer_raiser list) \<Rightarrow> tree \<Rightarrow> string \<Rightarrow> check_message list result" where
  "repository_messages env git iterate t packages =
     messages_with env git iterate (tree_read t ALLOWLIST) True (declared_raisers t packages)
       (fixture_coverage_of t [packages]) (declared_liveness_contracts t packages)"

definition check_producer_liveness ::
    "environ \<Rightarrow> git \<Rightarrow> host_file \<Rightarrow> (producer_raiser fset \<Rightarrow> producer_raiser list) \<Rightarrow> repo \<Rightarrow> string option \<Rightarrow> bool \<Rightarrow> check_message list result" where
  "check_producer_liveness env git host iterate repo allowlist_dir enforce_base =
     (let t = rp_tree repo; roots = package_roots repo in
      bindR (messages_with env git iterate
          (case allowlist_dir of None \<Rightarrow> tree_read t ALLOWLIST | Some dir \<Rightarrow> host (dir @ ''/'' @ path_name ALLOWLIST)) enforce_base
          (fold (|\<union>|) (map (declared_raisers t) roots) {||}) (fixture_coverage_of t roots)
          (fold (|\<union>|) (map (declared_liveness_contracts t) roots) {||})) (\<lambda>ms.
        Return (map (add ''G-PRODUCER-LIVENESS'') ms)))"

section \<open>Braces and table bodies\<close>

lemma closing_brace_Some: "closing_brace source depth cursor = Some k \<Longrightarrow> cursor \<le> k \<and> k < length source \<and> source ! k = CHR ''}''"
proof (induction source depth cursor rule: closing_brace.induct)
  case (1 source depth cursor)
  show ?case
  proof (cases "literal_span_at source cursor True False")
    case None
    with 1 show ?thesis by (auto simp: closing_brace.simps [of source depth cursor] split: if_split_asm)
  next
    case (Some literal)
    with 1 literal_span_at_moves [OF Some] show ?thesis
      by (auto simp: closing_brace.simps [of source depth cursor] split: if_split_asm)
  qed
qed

lemma bracket_body_Some:
  assumes "bracket_body source start = Some body"
  shows "\<exists>opening closing. find_from source ''{'' start = Some opening \<and> closing_brace source 0 opening = Some closing \<and>
    body = py_slice source (Suc opening) closing"
  using assms by (auto simp: bracket_body_def split: option.splits)

section \<open>Calls that count are code\<close>

text \<open>Where the head of a call stands, and positions outside of every string and comment.\<close>

definition head_offset :: "rematch \<Rightarrow> nat" where
  "head_offset found = m_start found + (case re_search FIRE_RAISER_HEAD_RE (m_text found) of None \<Rightarrow> 0 | Some head \<Rightarrow> m_start head)"

definition in_code :: "string \<Rightarrow> nat \<Rightarrow> bool" where
  "in_code source i \<longleftrightarrow> \<not> list_ex (\<lambda>span. sp_kind span \<in> MASKED_KINDS \<and> in_span span i) (lex source True True)"

lemma head_starts_with_t: "rmatch FIRE_RAISER_HEAD_RE st g \<noteq> [] \<Longrightarrow> next_char (snd (snd st)) = Some (CHR ''t'')"
  by (cases st) (auto simp: FIRE_RAISER_HEAD_RE_def fire_raiser_head_def next_char_def split: if_split_asm list.splits)

lemma pos_at_text: "snd (snd (pos_at s i)) = drop i s"
proof -
  have "snd (snd (adv n st)) = drop n (snd (snd st))" for n st by (induction n st rule: adv.induct) simp_all
  then show ?thesis by (simp add: pos_at_def)
qed

lemma visible_head:
  assumes "visible_regex_at FIRE_RAISER_HEAD_RE masked i"
  shows "i < length masked" "masked ! i = CHR ''t''"
proof -
  from assms have "rmatch FIRE_RAISER_HEAD_RE (pos_at masked i) [] \<noteq> []"
    by (auto simp: visible_regex_at_def match_at_def split: list.splits)
  then have "next_char (drop i masked) = Some (CHR ''t'')" using head_starts_with_t by (fastforce simp: pos_at_text)
  then show "i < length masked" "masked ! i = CHR ''t''"
    by (auto simp: next_char_def split: list.splits) (metis drop_all not_le list.distinct(1), metis nth_via_drop)
qed

lemma mask_t_in_code:
  assumes "i < length source" "mask_lua_comments_and_strings source ! i = CHR ''t''"
  shows "in_code source i"
  using assms by (auto simp: mask_lua_comments_and_strings_def code_mask_gen_nth in_code_def list_ex_iff span_selected_def split: if_split_asm)

text \<open>
  C35. Every call that counts as coverage is code: its head stands in no string and in no comment of the block, so a
  call that is quoted or commented out covers nothing.
\<close>

theorem covering_calls_in_code: "list_all (\<lambda>found. in_code block (head_offset found)) (covering_calls block)"
proof (unfold list_all_iff, rule ballI)
  fix found
  assume "found \<in> set (covering_calls block)"
  then have "visible_fire_raiser_call (mask_lua_comments_and_strings block) found" by (simp add: covering_calls_def)
  then have "visible_regex_at FIRE_RAISER_HEAD_RE (mask_lua_comments_and_strings block) (head_offset found)"
    by (auto simp: visible_fire_raiser_call_def head_offset_def split: option.splits)
  from visible_head [OF this] show "in_code block (head_offset found)"
    by (intro mask_t_in_code) (simp_all add: mask_lua_comments_and_strings_def)
qed

section \<open>What is covered\<close>

lemma dget_fold_finsert:
  "dget (fold (\<lambda>token. dmodify token {||} (finsert r)) tokens d) f {||} =
     (if f \<in> set tokens then finsert r (dget d f {||}) else dget d f {||})"
  by (induction tokens arbitrary: d) (auto simp: dget_dmodify)

lemma dget_add_hit:
  "dget (add_hit hit d) f {||} = (if f \<in> set (fixture_tokens (fst hit)) then finsert (snd hit) (dget d f {||}) else dget d f {||})"
  by (simp add: add_hit_def dget_fold_finsert)

lemma dget_add_hits:
  "r |\<in>| dget (fold add_hit hits d) f {||} \<longleftrightarrow>
     r |\<in>| dget d f {||} \<or> (\<exists>name. (name, r) \<in> set hits \<and> f \<in> set (fixture_tokens name))"
  by (induction hits arbitrary: d) (auto simp: dget_add_hit)

text \<open>A raiser is covered for a fixture if a test fires it whose name has the fixture among its words.\<close>

definition fires :: "string \<Rightarrow> string \<Rightarrow> string \<Rightarrow> bool" where
  "fires source fixture raiser \<longleftrightarrow>
     list_ex (\<lambda>(name, r). r = raiser \<and> (fixture = [] \<or> fixture \<in> set (fixture_tokens name))) (covering_hits source)"

lemma covered_tests_iff: "r |\<in>| dget (covered_raiser_tests_in_source source) f {||} \<longleftrightarrow> fires source f r"
  by (force simp: covered_raiser_tests_in_source_def Let_def dget_dmodify dget_add_hits fires_def list_ex_iff fset_of_list_elem)

lemma distinct_fold_dmodify: "distinct (map fst d) \<Longrightarrow> distinct (map fst (fold (\<lambda>x. dmodify (k x) v (f x)) xs d))"
  by (induction xs arbitrary: d) simp_all

lemma distinct_covered_tests [simp]: "distinct (map fst (covered_raiser_tests_in_source source))"
proof -
  have "distinct (map fst d) \<Longrightarrow> distinct (map fst (fold add_hit hits d))" for d hits
    by (induction hits arbitrary: d) (simp_all add: add_hit_def distinct_fold_dmodify)
  then show ?thesis by (simp add: covered_raiser_tests_in_source_def Let_def)
qed

lemma dget_merge_fixtures:
  "distinct (map fst new) \<Longrightarrow> dget (merge_fixtures new covered) f {||} = dget covered f {||} |\<union>| dget new f {||}"
proof (induction new arbitrary: covered)
  case (Cons x new)
  obtain g S where x: "x = (g, S)" by (cases x)
  with Cons have "dget (merge_fixtures (x # new) covered) f {||} = dget (dmodify g {||} (\<lambda>s. s |\<union>| S) covered) f {||} |\<union>| dget new f {||}"
    by (simp add: merge_fixtures_def)
  moreover have "f = g \<Longrightarrow> dget new f {||} = {||}" using Cons.prems x by (force simp: dget_def split: option.splits dest: map_of_SomeD)
  ultimately show ?case using x by (auto simp: dget_dmodify) (auto simp: dget_def)
qed (simp add: merge_fixtures_def)

lemma dget_merge_sources:
  "r |\<in>| dget (fold (\<lambda>path. merge_fixtures (covered_raiser_tests_in_source (source_of t path))) paths d) f {||} \<longleftrightarrow>
     r |\<in>| dget d f {||} \<or> list_ex (\<lambda>path. fires (source_of t path) f r) paths"
  by (induction paths arbitrary: d) (auto simp: dget_merge_fixtures covered_tests_iff)

text \<open>
  A raiser is covered for a fixture in a package exactly if some test file of the package has a call that fires
  it and asserts its trace, in a test whose name has the fixture among its words (any test for the empty fixture).
\<close>

theorem package_fixture_coverage_iff:
  "r |\<in>| dget (package_test_fixture_coverage t pkg) fixture {||} \<longleftrightarrow>
     list_ex (\<lambda>path. is_test_file path \<and> fires (source_of t path) fixture r) (test_files t pkg)"
  by (simp add: package_test_fixture_coverage_def dget_merge_sources list_ex_iff) blast

section \<open>What the ratchet says\<close>

definition contract_met :: "producer_raiser list \<Rightarrow> string fset \<Rightarrow> (string \<times> fixtures) list \<Rightarrow> producer_contract \<Rightarrow> bool" where
  "contract_met raisers allowlist fixture_coverage contract \<longleftrightarrow>
     (\<exists>r. matching_raisers raisers contract = [r] \<and> (raiser_key r |\<in>| allowlist \<or> fixture_covered fixture_coverage contract r))"

definition contracts_met ::
    "producer_raiser list \<Rightarrow> string fset \<Rightarrow> (string \<times> fixtures) list \<Rightarrow> producer_contract fset \<Rightarrow> bool" where
  "contracts_met raisers allowlist fixture_coverage contracts \<longleftrightarrow>
     list_all (contract_met raisers allowlist fixture_coverage) (sorted_list_of_fset contracts)"

lemma contract_messages_Nil:
  "contract_messages raisers allowlist fixture_coverage contract = [] \<longleftrightarrow> contract_met raisers allowlist fixture_coverage contract"
proof (cases "matching_raisers raisers contract")
  case (Cons r rs)
  then show ?thesis by (cases rs) (auto simp: contract_messages_def contract_met_def Let_def)
qed (auto simp: contract_messages_def contract_met_def Let_def)

definition within_base :: "string fset \<Rightarrow> string fset option \<Rightarrow> bool" where
  "within_base allowlist base_allowlist \<longleftrightarrow> (case base_allowlist of None \<Rightarrow> True | Some base \<Rightarrow> allowlist |\<subseteq>| base)"

lemma producer_messages_Nil:
  "ratchet_messages raisers coverage allowlist base_allowlist fixture_coverage contracts = [] \<longleftrightarrow>
     allowlist = uncovered_keys raisers coverage \<and> within_base allowlist base_allowlist \<and>
     contracts_met raisers allowlist fixture_coverage contracts"
  unfolding ratchet_messages_def Let_def append_is_Nil_conv map_is_Nil_conv sorted_list_of_fset_Nil fminus_empty
    concat_map_Nil contract_messages_Nil contracts_met_def within_base_def
  by (auto split: option.splits)


definition producer_clean ::
    "producer_raiser list \<times> (string \<times> fixtures) list \<times> producer_contract fset \<Rightarrow> string fset \<Rightarrow> string fset option \<Rightarrow> bool" where
  "producer_clean state allowlist base_allowlist \<longleftrightarrow>
     (case state of (raisers, fixture_coverage, contracts) \<Rightarrow>
        ratchet_messages raisers (package_coverage fixture_coverage) allowlist base_allowlist fixture_coverage contracts = [])"

definition producer_debt :: "producer_raiser list \<times> (string \<times> fixtures) list \<times> producer_contract fset \<Rightarrow> string fset" where
  "producer_debt state = (case state of (raisers, fixture_coverage, contracts) \<Rightarrow> uncovered_keys raisers (package_coverage fixture_coverage))"

interpretation producer_ratchet: shrink_only_ratchet producer_clean producer_debt "\<lambda>allowlist. allowlist" "(|\<subseteq>|)"
  by unfold_locales (auto simp: producer_clean_def producer_debt_def producer_messages_Nil within_base_def split: prod.splits)

text \<open>Along a history of clean commits no raiser lacks a test that had one before.\<close>

lemma producer_history_shrinks:
  "clean_history producer_clean base history \<Longrightarrow> (state, allowlist) \<in> set history \<Longrightarrow> producer_debt state |\<subseteq>| base"
  by (rule producer_ratchet.history_debt)

end
