(* ===== verification/DependencyCycle.thy ===== *)
theory DependencyCycle
  imports LuaLex ShrinkOnly
begin

text \<open>
  \<^verbatim>\<open>scripts/check_repo_dependency_cycle.py\<close> with \<^verbatim>\<open>require_literals\<close> of
  \<^verbatim>\<open>scripts/check_repo_std_dependency_model.py\<close>: the ratchet on require cycles among library modules. The
  graph of the modules is split into strongly connected components by Tarjan's algorithm, the simple
  cycles of each component are enumerated by a depth-first search, and their names are compared with the
  allowlist and the one of the base.

  Shown here: Tarjan's search returns on every graph, and the names reported are exactly those of the
  vertex sets of the simple cycles of the graph; in particular none is reported exactly if it is acyclic.
\<close>

section \<open>The graph of the library modules\<close>

definition ALLOWLIST :: string where "ALLOWLIST = ''migration/dependency-cycle.allowlist''"

definition module_char :: "char \<Rightarrow> bool" where
  "module_char c \<longleftrightarrow> is_alnum_ascii c \<or> c \<in> {CHR ''_'', CHR ''.'', CHR ''-''}"

text \<open>\<open>\brequire\s*(?:\(\s*)?(?P<quote>["'])(?P<module>[A-Za-z0-9_.\-]+)(?P=quote)\<close>\<close>

definition REQUIRE_LITERAL_RE :: regex where
  "REQUIRE_LITERAL_RE = rseq
     [RWordB, rlit ''require'', rstar rspace, ropt (rseq [rchar (CHR ''(''), rstar rspace]),
      RGroup ''quote'' (RSet (\<lambda>c. c = DQ \<or> c = SQ)), RGroup ''module'' (rplus (RSet module_char)), RBackref ''quote'']"

text \<open>
  The two callables that the check passes in: the masking of comments and strings, and the test that a
  range of the text is not masked.
\<close>

type_synonym stripper = "string \<Rightarrow> string"
type_synonym range_test = "string \<Rightarrow> string \<Rightarrow> nat \<Rightarrow> nat \<Rightarrow> bool"

definition require_literals :: "stripper \<Rightarrow> range_test \<Rightarrow> string \<Rightarrow> (string \<times> nat) list" where
  "require_literals strip_lua is_unmasked_range source =
     (let stripped = strip_lua source in
      List.map_filter (\<lambda>m.
        if \<not> is_unmasked_range source stripped (m_start m) (the_default 0 (m_group_start m ''quote'')) then None
        else Some (the_default [] (m_group m ''module''), count_char source LF 0 (m_start m) + 1))
       (re_finditer REQUIRE_LITERAL_RE source))"

definition library_lua_files :: "tree \<Rightarrow> string list" where
  "library_lua_files root = rglob_lua root ''libraries''"

text \<open>\<open>with_suffix("")\<close> keeps a name that is only a suffix.\<close>

definition without_suffix :: "string \<Rightarrow> string" where
  "without_suffix path = (if path_name path = ''.lua'' then path else removesuffix ''.lua'' path)"

definition lua_module_name :: "string \<Rightarrow> string" where
  "lua_module_name path = join ''.'' (path_parts (without_suffix (removeprefix ''libraries/'' path)))"

type_synonym graph = "(string \<times> string fset) list"

definition dependency_graph :: "stripper \<Rightarrow> range_test \<Rightarrow> tree \<Rightarrow> graph" where
  "dependency_graph strip_lua is_unmasked_range root =
     (let modules = dict_of (map (\<lambda>path. (lua_module_name path, path)) (library_lua_files root)) in
      map (\<lambda>(module, path).
             (module, fset_of_list (filter (\<lambda>required. map_of modules required \<noteq> None)
                (map fst (require_literals strip_lua is_unmasked_range (the_default [] (tree_read root path)))))))
          modules)"

section \<open>Strongly connected components\<close>

text \<open>\<open>graph[node]\<close>; every node looked up is a key of the graph.\<close>

definition succs :: "graph \<Rightarrow> string \<Rightarrow> string fset" where
  "succs g node = dget g node {||}"

text \<open>The variables of \<open>strongly_connected_components\<close>; the top of the stack comes first.\<close>

record tarjan =
  t_index :: nat
  t_stack :: "string list"
  t_on_stack :: "string fset"
  t_indexes :: "(string \<times> nat) list"
  t_lowlinks :: "(string \<times> nat) list"
  t_components :: "string fset list"

definition tarjan_start :: tarjan where
  "tarjan_start = \<lparr>t_index = 0, t_stack = [], t_on_stack = {||}, t_indexes = [], t_lowlinks = [], t_components = []\<rparr>"

definition idx :: "tarjan \<Rightarrow> string \<Rightarrow> nat" where "idx s v = dget (t_indexes s) v 0"
definition low :: "tarjan \<Rightarrow> string \<Rightarrow> nat" where "low s v = dget (t_lowlinks s) v 0"
definition visited :: "tarjan \<Rightarrow> string \<Rightarrow> bool" where "visited s v \<longleftrightarrow> map_of (t_indexes s) v \<noteq> None"

definition enter :: "string \<Rightarrow> tarjan \<Rightarrow> tarjan" where
  "enter node s =
     \<lparr>t_index = t_index s + 1, t_stack = node # t_stack s, t_on_stack = finsert node (t_on_stack s),
      t_indexes = AList.update node (t_index s) (t_indexes s),
      t_lowlinks = AList.update node (t_index s) (t_lowlinks s), t_components = t_components s\<rparr>"

definition lower :: "string \<Rightarrow> nat \<Rightarrow> tarjan \<Rightarrow> tarjan" where
  "lower node n s = s\<lparr>t_lowlinks := AList.update node (min (low s node) n) (t_lowlinks s)\<rparr>"

fun pop_component :: "string \<Rightarrow> string list \<Rightarrow> string list \<times> string list" where
  "pop_component node [] = ([], [])"
| "pop_component node (popped # stack) =
     (if popped = node then ([popped], stack)
      else case pop_component node stack of (component, rest) \<Rightarrow> (popped # component, rest))"

definition finish :: "string \<Rightarrow> tarjan \<Rightarrow> tarjan" where
  "finish node s =
     (if low s node \<noteq> idx s node then s
      else case pop_component node (t_stack s) of (component, rest) \<Rightarrow>
        s\<lparr>t_stack := rest, t_on_stack := t_on_stack s |-| fset_of_list component,
          t_components := t_components s @ [fset_of_list component]\<rparr>)"

text \<open>
  The recursion with fuel, \<open>None\<close> when it runs out. Every nested call is for a node that had no index,
  so the number of nodes is enough.
\<close>

fun visit :: "nat \<Rightarrow> graph \<Rightarrow> string \<Rightarrow> tarjan \<Rightarrow> tarjan option"
  and visit_targets :: "nat \<Rightarrow> graph \<Rightarrow> string \<Rightarrow> string list \<Rightarrow> tarjan \<Rightarrow> tarjan option" where
  "visit 0 g node s = None"
| "visit (Suc n) g node s =
     map_option (finish node) (visit_targets n g node (sorted_list_of_fset (succs g node)) (enter node s))"
| "visit_targets n g node [] s = Some s"
| "visit_targets n g node (target # targets) s =
     (if \<not> visited s target then
        (case visit n g target s of
           None \<Rightarrow> None
         | Some s' \<Rightarrow> visit_targets n g node targets (lower node (low s' target) s'))
      else if target |\<in>| t_on_stack s then visit_targets n g node targets (lower node (idx s target) s)
      else visit_targets n g node targets s)"

fun visit_all :: "nat \<Rightarrow> graph \<Rightarrow> string list \<Rightarrow> tarjan \<Rightarrow> tarjan option" where
  "visit_all n g [] s = Some s"
| "visit_all n g (node # nodes) s =
     (if visited s node then visit_all n g nodes s
      else case visit n g node s of None \<Rightarrow> None | Some s' \<Rightarrow> visit_all n g nodes s')"

definition strongly_connected_components :: "graph \<Rightarrow> string fset list option" where
  "strongly_connected_components g =
     map_option t_components (visit_all (length g) g (sort (map fst g)) tarjan_start)"

section \<open>Simple cycles\<close>

definition canonical_cycle :: "string fset \<Rightarrow> string" where
  "canonical_cycle component = join '' <-> '' (sorted_list_of_fset component)"

definition rank_of :: "string list \<Rightarrow> (string \<times> nat) list" where
  "rank_of ordered = dict_of (map (\<lambda>(i, node). (node, i)) (enumerate 0 ordered))"

text \<open>The names found below a node; \<open>seen\<close> grows within the component.\<close>

function cycles_below ::
    "graph \<Rightarrow> string fset \<Rightarrow> (string \<times> nat) list \<Rightarrow> string \<Rightarrow> string \<Rightarrow> string list \<Rightarrow> string fset \<Rightarrow> string list" where
  "cycles_below g component rank start node path seen =
     concat (map (\<lambda>target.
        if target = start then [canonical_cycle (fset_of_list path)]
        else if target |\<in>| seen \<or> dget rank target 0 < dget rank start 0 then []
        else cycles_below g component rank start target (path @ [target]) (finsert target seen))
       (sorted_list_of_fset (succs g node |\<inter>| component)))"
  by pat_completeness auto

termination
proof (relation "measure (\<lambda>(g, component, rank, start, node, path, seen). fcard (component |-| seen))")
  fix g :: graph and component seen :: "string fset" and rank :: "(string \<times> nat) list"
    and start node target :: string and path :: "string list"
  assume "target \<in> set (sorted_list_of_fset (succs g node |\<inter>| component))"
    and "\<not> (target |\<in>| seen \<or> dget rank target 0 < dget rank start 0)"
  then have "component |-| finsert target seen |\<subset>| component |-| seen" by auto
  then show "((g, component, rank, start, target, path @ [target], finsert target seen),
      (g, component, rank, start, node, path, seen)) \<in> measure (\<lambda>(g, component, rank, start, node, path, seen). fcard (component |-| seen))"
    by (simp add: pfsubset_fcard_mono)
qed auto

declare cycles_below.simps [simp del]

definition simple_cycles_in_component :: "graph \<Rightarrow> string fset \<Rightarrow> string fset" where
  "simple_cycles_in_component g component =
     (let ordered = sorted_list_of_fset component; rank = rank_of ordered in
      fset_of_list (concat (map (\<lambda>start. cycles_below g component rank start start [start] {|start|}) ordered)))"

definition component_cycles :: "graph \<Rightarrow> string fset \<Rightarrow> string fset" where
  "component_cycles g component =
     (if 1 < fcard component then simple_cycles_in_component g component
      else case sorted_list_of_fset component of
        node # _ \<Rightarrow> if node |\<in>| succs g node then {|node|} else {||}
      | [] \<Rightarrow> {||})"

definition cycles_from_graph :: "graph \<Rightarrow> string fset option" where
  "cycles_from_graph g =
     map_option (\<lambda>components. ffUnion (fset_of_list (map (component_cycles g) components)))
       (strongly_connected_components g)"

definition current_cycles :: "stripper \<Rightarrow> range_test \<Rightarrow> tree \<Rightarrow> string fset option" where
  "current_cycles strip_lua is_unmasked_range root =
     cycles_from_graph (dependency_graph strip_lua is_unmasked_range root)"

section \<open>Allowlist and messages\<close>

definition parse_allowlist_line :: "string \<Rightarrow> string list result" where
  "parse_allowlist_line raw =
     (let line = strip (before_sub ''#'' raw) in
      if line = [] then Return []
      else
        let modules = split_sub '' <-> '' line in
        if [] \<in> set modules \<or> modules \<noteq> sort modules
        then Raise (ValueError (''invalid '' @ ALLOWLIST @ '' line: '' @ raw))
        else Return [line])"

definition parse_allowlist_lines :: "string list \<Rightarrow> string fset result" where
  "parse_allowlist_lines lines =
     bindR (mapR parse_allowlist_line lines) (\<lambda>entries. Return (fset_of_list (concat entries)))"

definition load_allowlist :: "string option \<Rightarrow> string fset result" where
  "load_allowlist file = load_allowlist_with parse_allowlist_lines file"

definition ratchet_messages :: "string fset \<Rightarrow> string fset \<Rightarrow> string fset option \<Rightarrow> string list" where
  "ratchet_messages current allowlist base_allowlist =
     map (\<lambda>cycle. cycle @ '' is a library require cycle and is not in '' @ ALLOWLIST @
            ''; break the cycle or shrink the allowlist only'') (sorted_list_of_fset (current |-| allowlist)) @
     map (\<lambda>cycle. cycle @ '' is stale in '' @ ALLOWLIST @ ''; prune the stale entry'')
         (sorted_list_of_fset (allowlist |-| current)) @
     (case base_allowlist of None \<Rightarrow> []
      | Some base \<Rightarrow>
          map (\<lambda>cycle. cycle @ '' grows '' @ ALLOWLIST @ '' relative to dev; break the new library require cycle instead'')
              (sorted_list_of_fset (allowlist |-| base)))"

text \<open>The allowlist comes from the tree or from a directory of the host; \<open>None\<close> when a search ran out of fuel.\<close>

definition cycle_messages ::
    "stripper \<Rightarrow> range_test \<Rightarrow> environ \<Rightarrow> git \<Rightarrow> host_file \<Rightarrow> tree \<Rightarrow> string option \<Rightarrow> bool \<Rightarrow> string list result option" where
  "cycle_messages strip_lua is_unmasked_range env git host root allowlist_dir enforce_base =
     map_option (\<lambda>current.
       bindR (load_allowlist (case allowlist_dir of None \<Rightarrow> tree_read root ALLOWLIST
                | Some dir \<Rightarrow> host (dir @ ''/'' @ path_name ALLOWLIST))) (\<lambda>allowlist.
         let base = (if enforce_base then allowlist_at_dev_base env git ALLOWLIST parse_allowlist_lines else BaseAbsent)
         in Return ((case base of BaseUnresolved \<Rightarrow>
               [''cannot resolve dev base allowlist to enforce shrink-only dependency-cycle ratchet; '' @
                ''ensure CI provides the dev ref''] | _ \<Rightarrow> []) @
             ratchet_messages current allowlist (base_value base))))
       (current_cycles strip_lua is_unmasked_range root)"

section \<open>Tarjan's search\<close>

definition nodes :: "graph \<Rightarrow> string set" where "nodes g = fst ` set g"

definition graph_wf :: "graph \<Rightarrow> bool" where
  "graph_wf g \<longleftrightarrow> distinct (map fst g) \<and> (\<forall>v \<in> nodes g. fset (succs g v) \<subseteq> nodes g)"

definition closed :: "graph \<Rightarrow> string set \<Rightarrow> bool" where
  "closed g S \<longleftrightarrow> (\<forall>x \<in> S. fset (succs g x) \<subseteq> S)"

definition emitted :: "tarjan \<Rightarrow> string set" where
  "emitted s = \<Union> (fset ` set (t_components s))"

text \<open>
  The invariant of the search started when the next index was \<open>B\<close>: the visited nodes are those on the
  stack and those emitted, indices grow towards the top of the stack, low links are between \<open>B\<close> and the
  index, and whatever has been emitted, at any time, is closed under the edges of the graph.
\<close>

definition tarjan_inv :: "graph \<Rightarrow> nat \<Rightarrow> tarjan \<Rightarrow> bool" where
  "tarjan_inv g B s \<longleftrightarrow>
     distinct (t_stack s) \<and> set (t_stack s) \<inter> emitted s = {} \<and>
     (\<forall>v. visited s v \<longleftrightarrow> v \<in> set (t_stack s) \<union> emitted s) \<and>
     fset (t_on_stack s) = set (t_stack s) \<and> set (t_stack s) \<union> emitted s \<subseteq> nodes g \<and>
     sorted_wrt (\<lambda>a b. idx s b < idx s a) (t_stack s) \<and>
     (\<forall>v. visited s v \<longrightarrow> idx s v < t_index s) \<and>
     (\<forall>v \<in> set (t_stack s). low s v \<le> idx s v \<and> B \<le> idx s v) \<and>
     (\<forall>v. visited s v \<and> B \<le> idx s v \<longrightarrow> B \<le> low s v) \<and> B \<le> t_index s \<and>
     (\<forall>cs ds. t_components s = cs @ ds \<longrightarrow> closed g (\<Union> (fset ` set cs)))"

text \<open>A target that is emitted, or on the stack not below a given index.\<close>

definition settled :: "tarjan \<Rightarrow> nat \<Rightarrow> string \<Rightarrow> bool" where
  "settled s b y \<longleftrightarrow> y \<in> emitted s \<or> y \<in> set (t_stack s) \<and> b \<le> idx s y"

text \<open>What a search keeps: everything about the nodes visited before, except the low link of one node.\<close>

definition extends :: "string set \<Rightarrow> tarjan \<Rightarrow> tarjan \<Rightarrow> bool" where
  "extends V s s' \<longleftrightarrow> emitted s \<subseteq> emitted s' \<and>
     (\<forall>x. visited s x \<longrightarrow> visited s' x \<and> idx s' x = idx s x \<and> (x \<notin> V \<longrightarrow> low s' x = low s x))"

lemma extends_trans: "extends V s s' \<Longrightarrow> extends V s' s'' \<Longrightarrow> extends V s s''"
  by (auto simp: extends_def)

lemma extends_weaken: "extends {} s s' \<Longrightarrow> extends V s s'"
  by (auto simp: extends_def)

lemma settled_mono:
  assumes "settled s b y" "extends V s s'" "set (t_stack s) \<subseteq> set (t_stack s')" "b' \<le> b" "tarjan_inv g B s"
  shows "settled s' b' y"
  using assms by (auto simp: settled_def extends_def tarjan_inv_def)

lemma enter_simps [simp]:
  "t_stack (enter v s) = v # t_stack s" "t_components (enter v s) = t_components s"
  "t_on_stack (enter v s) = finsert v (t_on_stack s)" "t_index (enter v s) = Suc (t_index s)"
  "idx (enter v s) x = (if x = v then t_index s else idx s x)"
  "low (enter v s) x = (if x = v then t_index s else low s x)"
  "visited (enter v s) x \<longleftrightarrow> x = v \<or> visited s x" "emitted (enter v s) = emitted s"
  by (auto simp: enter_def idx_def low_def visited_def emitted_def update_conv' dget_def)

lemma lower_simps [simp]:
  "t_stack (lower v n s) = t_stack s" "t_components (lower v n s) = t_components s"
  "t_on_stack (lower v n s) = t_on_stack s" "t_index (lower v n s) = t_index s"
  "idx (lower v n s) x = idx s x" "low (lower v n s) x = (if x = v then min (low s v) n else low s x)"
  "visited (lower v n s) x \<longleftrightarrow> visited s x" "emitted (lower v n s) = emitted s"
  by (auto simp: lower_def idx_def low_def visited_def emitted_def update_conv' dget_def)

lemma enter_inv:
  assumes "tarjan_inv g B s" "v \<in> nodes g" "\<not> visited s v"
  shows "tarjan_inv g B (enter v s)"
proof -
  have fresh: "v \<notin> set (t_stack s)" "v \<notin> emitted s" using assms(1,3) by (auto simp: tarjan_inv_def)
  have below: "idx s x < t_index s" if "x \<in> set (t_stack s)" for x using assms(1) that by (auto simp: tarjan_inv_def)
  have "sorted_wrt (\<lambda>a b. idx s b < idx s a) (t_stack s)" using assms(1) by (simp add: tarjan_inv_def)
  then have "sorted_wrt (\<lambda>a b. idx (enter v s) b < idx (enter v s) a) (t_stack s)"
    by (rule sorted_wrt_mono_rel [rotated]) (use fresh in auto)
  with below fresh have "sorted_wrt (\<lambda>a b. idx (enter v s) b < idx (enter v s) a) (t_stack (enter v s))" by auto
  then show ?thesis
    using assms fresh below unfolding tarjan_inv_def by (simp add: less_Suc_eq le_Suc_eq)
qed

lemma lower_inv:
  assumes "tarjan_inv g B s" "B \<le> n"
  shows "tarjan_inv g B (lower v n s)"
  using assms by (auto simp: tarjan_inv_def min_def)

lemma pop_component_split: "v \<notin> set seg \<Longrightarrow> pop_component v (seg @ v # rest) = (seg @ [v], rest)"
  by (induction seg) auto

lemma finish_pop:
  assumes "low s v = idx s v" "t_stack s = seg @ v # rest" "distinct (t_stack s)"
  shows "t_stack (finish v s) = rest" "t_on_stack (finish v s) = t_on_stack s |-| fset_of_list (seg @ [v])"
    "t_components (finish v s) = t_components s @ [fset_of_list (seg @ [v])]"
    "t_index (finish v s) = t_index s" "idx (finish v s) x = idx s x" "low (finish v s) x = low s x"
    "visited (finish v s) x \<longleftrightarrow> visited s x" "emitted (finish v s) = emitted s \<union> set (seg @ [v])"
proof -
  have "pop_component v (t_stack s) = (seg @ [v], rest)" using assms(2,3) pop_component_split by auto
  then have "finish v s = s\<lparr>t_stack := rest, t_on_stack := t_on_stack s |-| fset_of_list (seg @ [v]),
      t_components := t_components s @ [fset_of_list (seg @ [v])]\<rparr>"
    using assms(1) by (simp add: finish_def)
  then show "t_stack (finish v s) = rest" "t_on_stack (finish v s) = t_on_stack s |-| fset_of_list (seg @ [v])"
    "t_components (finish v s) = t_components s @ [fset_of_list (seg @ [v])]"
    "t_index (finish v s) = t_index s" "idx (finish v s) x = idx s x" "low (finish v s) x = low s x"
    "visited (finish v s) x \<longleftrightarrow> visited s x" "emitted (finish v s) = emitted s \<union> set (seg @ [v])"
    by (auto simp: idx_def low_def visited_def emitted_def fset_of_list.rep_eq)
qed

lemma popped_closed:
  assumes inv: "tarjan_inv g B s" and low: "low s v = idx s v" and stack: "t_stack s = seg @ v # rest"
    and settled: "\<And>x y. x \<in> set (seg @ [v]) \<Longrightarrow> y |\<in>| succs g x \<Longrightarrow> settled s (low s v) y"
  shows "closed g (emitted s \<union> set (seg @ [v]))"
proof -
  have "closed g (emitted s)" using inv unfolding tarjan_inv_def emitted_def by blast
  moreover have "y \<in> emitted s \<union> set (seg @ [v])" if "x \<in> set (seg @ [v])" "y |\<in>| succs g x" for x y
  proof -
    have "idx s y < idx s v" if "y \<in> set rest" for y
      using inv that by (auto simp: tarjan_inv_def stack sorted_wrt_append)
    with settled [OF that] show ?thesis by (fastforce simp: settled_def stack low)
  qed
  ultimately show ?thesis unfolding closed_def by blast
qed

lemma finish_correct:
  assumes inv: "tarjan_inv g B s" and stack: "t_stack s = seg @ v # rest"
    and settled: "\<And>x y. x \<in> set (seg @ [v]) \<Longrightarrow> y |\<in>| succs g x \<Longrightarrow> settled s (low s v) y"
  shows "tarjan_inv g B (finish v s)" "extends {} s (finish v s)"
    "\<exists>seg'. t_stack (finish v s) = seg' @ rest \<and>
       (\<forall>x \<in> set seg'. \<forall>y. y |\<in>| succs g x \<longrightarrow> settled (finish v s) (low (finish v s) v) y)"
proof -
  have "tarjan_inv g B (finish v s) \<and> extends {} s (finish v s) \<and>
      (\<exists>seg'. t_stack (finish v s) = seg' @ rest \<and>
         (\<forall>x \<in> set seg'. \<forall>y. y |\<in>| succs g x \<longrightarrow> settled (finish v s) (low (finish v s) v) y))"
  proof (cases "low s v = idx s v")
    case False
    then have "finish v s = s" by (simp add: finish_def)
    then show ?thesis using inv settled by (auto simp: extends_def stack intro!: exI [of _ "seg @ [v]"])
  next
    case True
    have dist: "distinct (t_stack s)" using inv by (simp add: tarjan_inv_def)
    note pop = finish_pop [OF True stack dist]
    have "closed g (\<Union> (fset ` set cs))" if "t_components s @ [fset_of_list (seg @ [v])] = cs @ ds" for cs ds
    proof (cases ds rule: rev_cases)
      case Nil
      then have "\<Union> (fset ` set cs) = emitted s \<union> set (seg @ [v])"
        using that by (auto simp: emitted_def fset_of_list.rep_eq)
      then show ?thesis using popped_closed [OF inv True stack settled] by simp
    next
      case (snoc ds' d)
      with that have "t_components s = cs @ ds'" by simp
      then show ?thesis using inv by (auto simp: tarjan_inv_def)
    qed
    moreover have "fset (t_on_stack s |-| fset_of_list (seg @ [v])) = set rest"
      using inv dist by (auto simp: tarjan_inv_def stack fset_of_list.rep_eq)
    moreover have "distinct rest" "set rest \<inter> (emitted s \<union> set (seg @ [v])) = {}"
      "sorted_wrt (\<lambda>a b. idx s b < idx s a) rest" "set (t_stack s) = set (seg @ [v]) \<union> set rest"
      using inv dist by (auto simp: tarjan_inv_def stack sorted_wrt_append)
    ultimately have "tarjan_inv g B (finish v s)"
      using inv unfolding tarjan_inv_def pop by (simp add: Un_ac)
    moreover have "extends {} s (finish v s)" by (auto simp: extends_def pop)
    ultimately show ?thesis by (simp add: pop)
  qed
  then show "tarjan_inv g B (finish v s)" "extends {} s (finish v s)"
    "\<exists>seg'. t_stack (finish v s) = seg' @ rest \<and>
       (\<forall>x \<in> set seg'. \<forall>y. y |\<in>| succs g x \<longrightarrow> settled (finish v s) (low (finish v s) v) y)"
    by blast+
qed

definition explored :: "graph \<Rightarrow> tarjan \<Rightarrow> nat \<Rightarrow> string list \<Rightarrow> bool" where
  "explored g s b seg \<longleftrightarrow> (\<forall>x \<in> set seg. \<forall>y. y |\<in>| succs g x \<longrightarrow> settled s b y)"

definition visit_ok :: "graph \<Rightarrow> nat \<Rightarrow> string \<Rightarrow> tarjan \<Rightarrow> tarjan \<Rightarrow> bool" where
  "visit_ok g B v s s' \<longleftrightarrow> tarjan_inv g B s' \<and> extends {} s s' \<and> visited s' v \<and> idx s' v = t_index s \<and> B \<le> idx s' v \<and>
     (t_stack s' = t_stack s \<or> v \<in> set (t_stack s') \<and> low s' v \<noteq> idx s' v) \<and>
     (\<exists>seg. t_stack s' = seg @ t_stack s \<and> explored g s' (low s' v) seg)"

definition targets_ok :: "graph \<Rightarrow> nat \<Rightarrow> string \<Rightarrow> string list \<Rightarrow> string set \<Rightarrow> tarjan \<Rightarrow> tarjan \<Rightarrow> bool" where
  "targets_ok g B v rest D s s' \<longleftrightarrow> tarjan_inv g B s' \<and> extends {v} s s' \<and>
     (\<exists>seg. t_stack s' = seg @ v # rest \<and> explored g s' (low s' v) seg) \<and> (\<forall>y \<in> D. settled s' (low s' v) y)"

lemma explored_mono:
  assumes "explored g s b seg" "extends V s s'" "set (t_stack s) \<subseteq> set (t_stack s')" "b' \<le> b" "tarjan_inv g B s"
  shows "explored g s' b' seg"
  using assms(1) settled_mono [OF _ assms(2-5)] by (auto simp: explored_def)

lemma targets_ok_step:
  assumes first: "targets_ok g B v rest D s s1" and rest: "targets_ok g B v rest D' s1 s2"
  shows "targets_ok g B v rest D' s s2"
  using assms by (auto simp: targets_ok_def intro: extends_trans)

lemma lower_ok:
  assumes "tarjan_inv g B s" "t_stack s = seg @ v # rest" "explored g s (low s v) seg"
    "\<forall>y \<in> D. settled s (low s v) y" "B \<le> n"
  shows "targets_ok g B v rest D s (lower v n s)"
proof -
  have ext: "extends {v} s (lower v n s)" by (auto simp: extends_def)
  have "explored g (lower v n s) (low (lower v n s) v) seg"
    by (rule explored_mono [OF assms(3) ext _ _ assms(1)]) auto
  moreover have "settled (lower v n s) (low (lower v n s) v) y" if "y \<in> D" for y
    by (rule settled_mono [OF _ ext _ _ assms(1), of "low s v"]) (use assms(4) that in auto)
  ultimately show ?thesis using lower_inv [OF assms(1,5)] ext assms(2) by (auto simp: targets_ok_def)
qed

text \<open>After the visit of a target, the low link taken over covers what was found below it.\<close>

lemma after_visit:
  assumes inv: "tarjan_inv g B s" and stack: "t_stack s = seg @ v # rest"
    and expl: "explored g s (low s v) seg" and D: "\<forall>y \<in> D. settled s (low s v) y"
    and visit: "visit_ok g B t s s1"
  shows "targets_ok g B v rest (insert t D) s (lower v (low s1 t) s1)"
proof -
  from visit obtain seg1 where inv1: "tarjan_inv g B s1" and ext: "extends {} s s1" and t: "visited s1 t" "B \<le> idx s1 t"
    and stack1: "t_stack s1 = seg1 @ t_stack s" and expl1: "explored g s1 (low s1 t) seg1"
    by (auto simp: visit_ok_def)
  let ?s2 = "lower v (low s1 t) s1" and ?b = "min (low s v) (low s1 t)"
  have "visited s v" using inv stack by (auto simp: tarjan_inv_def)
  with ext have low: "low ?s2 v = ?b" by (auto simp: extends_def)
  have Blow: "B \<le> low s1 t" using inv1 t by (auto simp: tarjan_inv_def)
  have ext2: "extends {v} s1 ?s2" by (auto simp: extends_def)
  have settled2: "settled ?s2 ?b y" if "settled s1 b y" "?b \<le> b" for b y
    by (rule settled_mono [OF that(1) ext2 _ that(2) inv1]) simp
  have old: "settled ?s2 ?b y" if "settled s (low s v) y" for y
    using settled2 settled_mono [OF that ext _ order_refl inv] stack1 by auto
  have "explored g ?s2 ?b (seg1 @ seg)"
    using expl expl1 old settled2 [of "low s1 t"] by (auto simp: explored_def)
  moreover have "settled ?s2 ?b t"
    using inv1 t(1) by (auto simp: settled_def tarjan_inv_def min_le_iff_disj)
  moreover have "tarjan_inv g B ?s2" by (rule lower_inv [OF inv1 Blow])
  moreover have "extends {v} s ?s2" using extends_trans [OF extends_weaken [OF ext] ext2] .
  ultimately show ?thesis using D old stack stack1 unfolding targets_ok_def low
    by (auto intro!: exI [of _ "seg1 @ seg"])
qed

lemma visit_from_targets:
  assumes inv: "tarjan_inv g B s" and v: "\<not> visited s v"
    and ok: "targets_ok g B v (t_stack s) (fset (succs g v)) (enter v s) s2"
  shows "visit_ok g B v s (finish v s2)"
proof -
  from ok obtain seg where inv2: "tarjan_inv g B s2" and ext: "extends {v} (enter v s) s2"
    and stack: "t_stack s2 = seg @ v # t_stack s" and expl: "explored g s2 (low s2 v) seg"
    and own: "\<forall>y. y |\<in>| succs g v \<longrightarrow> settled s2 (low s2 v) y"
    by (auto simp: targets_ok_def)
  have "settled s2 (low s2 v) y" if "x \<in> set (seg @ [v])" "y |\<in>| succs g x" for x y
    using that expl own by (auto simp: explored_def)
  note fin = finish_correct [OF inv2 stack this]
  have "visited s2 v" "idx s2 v = t_index s" using ext by (auto simp: extends_def)
  then have "visited (finish v s2) v" "idx (finish v s2) v = t_index s" using fin(2) by (auto simp: extends_def)
  moreover have "B \<le> t_index s" using inv by (simp add: tarjan_inv_def)
  moreover have "extends {} s s2" using ext v by (auto simp: extends_def)
  moreover have "t_stack (finish v s2) = t_stack s
      \<or> v \<in> set (t_stack (finish v s2)) \<and> low (finish v s2) v \<noteq> idx (finish v s2) v"
  proof (cases "low s2 v = idx s2 v")
    case True
    have "distinct (t_stack s2)" using inv2 by (simp add: tarjan_inv_def)
    from finish_pop(1) [OF True stack this] show ?thesis by simp
  qed (simp add: finish_def stack)
  ultimately show ?thesis using fin extends_trans by (auto simp: visit_ok_def explored_def)
qed

lemma visit_correct:
  shows "\<lbrakk>graph_wf g; tarjan_inv g B s; v \<in> nodes g; \<not> visited s v; visit n g v s = Some s'\<rbrakk> \<Longrightarrow> visit_ok g B v s s'"
    and "\<lbrakk>graph_wf g; tarjan_inv g B s; t_stack s = seg @ v # rest; explored g s (low s v) seg;
       \<forall>y \<in> D. settled s (low s v) y; set ts \<subseteq> nodes g; visit_targets n g v ts s = Some s'\<rbrakk> \<Longrightarrow>
       targets_ok g B v rest (D \<union> set ts) s s'"
proof (induction n g v s and n g v ts s arbitrary: s' and s' seg rest D rule: visit_visit_targets.induct)
  case (2 n g v s)
  from 2(6) obtain s2 where s2: "visit_targets n g v (sorted_list_of_fset (succs g v)) (enter v s) = Some s2"
    "s' = finish v s2" by auto
  have "targets_ok g B v (t_stack s) ({} \<union> set (sorted_list_of_fset (succs g v))) (enter v s) s2"
    by (rule 2(1) [OF 2(2) enter_inv [OF 2(3,4,5)], of "[]", OF _ _ _ _ s2(1)])
       (use 2(2,4) in \<open>auto simp: explored_def graph_wf_def\<close>)
  then have "targets_ok g B v (t_stack s) (fset (succs g v)) (enter v s) s2" by simp
  then show ?case unfolding s2(2) by (rule visit_from_targets [OF 2(3,5)])
next
  case (3 n g v s)
  then show ?case by (auto simp: targets_ok_def extends_def)
next
  case (4 n g v t ts s)
  have t: "t \<in> nodes g" "set ts \<subseteq> nodes g" using 4(10) by auto
  have combine: "targets_ok g B v rest (D \<union> set (t # ts)) s s'"
    if step: "targets_ok g B v rest (insert t D) s s1"
      and tail: "\<And>seg D. \<lbrakk>tarjan_inv g B s1; t_stack s1 = seg @ v # rest; explored g s1 (low s1 v) seg;
        \<forall>y \<in> D. settled s1 (low s1 v) y\<rbrakk> \<Longrightarrow> targets_ok g B v rest (D \<union> set ts) s1 s'" for s1
  proof -
    from step obtain seg1 where "tarjan_inv g B s1" "t_stack s1 = seg1 @ v # rest" "explored g s1 (low s1 v) seg1"
      "\<forall>y \<in> insert t D. settled s1 (low s1 v) y" by (auto simp: targets_ok_def)
    from targets_ok_step [OF step tail [OF this]] show ?thesis by simp
  qed
  show ?case
  proof (cases "visited s t")
    case False
    with 4(11) obtain s1 where s1: "visit n g t s = Some s1"
      "visit_targets n g v ts (lower v (low s1 t) s1) = Some s'" by (auto split: option.splits)
    from after_visit [OF 4(6-9) 4(1) [OF False 4(5,6) t(1) False s1(1)]]
    show ?thesis by (rule combine) (rule 4(2) [OF False s1(1) 4(5) _ _ _ _ t(2) s1(2)])
  next
    case True
    show ?thesis
    proof (cases "t |\<in>| t_on_stack s")
      case on: True
      from 4(6) on have st: "t \<in> set (t_stack s)" "B \<le> idx s t" by (auto simp: tarjan_inv_def)
      have tail: "visit_targets n g v ts (lower v (idx s t) s) = Some s'" using True on 4(11) by simp
      have "targets_ok g B v rest D s (lower v (idx s t) s)" by (rule lower_ok [OF 4(6-9) st(2)])
      moreover have "settled (lower v (idx s t) s) (low (lower v (idx s t) s) v) t"
        using st(1) by (auto simp: settled_def)
      ultimately have "targets_ok g B v rest (insert t D) s (lower v (idx s t) s)" by (auto simp: targets_ok_def)
      then show ?thesis by (rule combine) (rule 4(3) [OF _ on 4(5) _ _ _ _ t(2) tail]; simp add: True)
    next
      case off: False
      have tail: "visit_targets n g v ts s = Some s'" using True off 4(11) by simp
      from True off 4(6) have "settled s (low s v) t" by (auto simp: settled_def tarjan_inv_def)
      with 4(6-9) have "targets_ok g B v rest (insert t D) s s" by (auto simp: targets_ok_def extends_def)
      then show ?thesis by (rule combine) (rule 4(4) [OF _ off 4(5) _ _ _ _ t(2) tail]; simp add: True)
    qed
  qed
qed auto

text \<open>The search never runs out of fuel.\<close>

lemma finish_visited [simp]: "visited (finish v s) x = visited s x"
  by (simp add: finish_def visited_def split: prod.split)

lemma visit_mono:
  shows "visit n g v s = Some s' \<Longrightarrow> visited s x \<Longrightarrow> visited s' x"
    and "visit_targets n g v ts s = Some s' \<Longrightarrow> visited s x \<Longrightarrow> visited s' x"
  by (induction n g v s and n g v ts s arbitrary: s' and s' rule: visit_visit_targets.induct)
     (auto split: if_splits option.splits)

abbreviation unvisited :: "graph \<Rightarrow> tarjan \<Rightarrow> string set" where
  "unvisited g s \<equiv> {x \<in> nodes g. \<not> visited s x}"

lemma finite_unvisited [simp]: "finite (unvisited g s)"
  by (simp add: nodes_def)

lemma unvisited_enter:
  assumes "v \<in> nodes g" "\<not> visited s v" "card (unvisited g s) \<le> Suc n"
  shows "card (unvisited g (enter v s)) \<le> n"
proof -
  have "unvisited g (enter v s) = unvisited g s - {v}" by auto
  then show ?thesis using assms by simp
qed

lemma unvisited_mono: "(\<And>x. visited s x \<Longrightarrow> visited s' x) \<Longrightarrow> card (unvisited g s') \<le> card (unvisited g s)"
  by (rule card_mono) auto

lemma visit_total:
  shows "\<lbrakk>graph_wf g; v \<in> nodes g; \<not> visited s v; card (unvisited g s) \<le> n\<rbrakk> \<Longrightarrow> \<exists>s'. visit n g v s = Some s'"
    and "\<lbrakk>graph_wf g; set ts \<subseteq> nodes g; card (unvisited g s) \<le> n\<rbrakk> \<Longrightarrow> \<exists>s'. visit_targets n g v ts s = Some s'"
proof (induction n g v s and n g v ts s rule: visit_visit_targets.induct)
  case (1 g v s)
  then have "v \<in> unvisited g s" "unvisited g s = {}" by auto
  then show ?case by blast
next
  case (2 n g v s)
  then have "\<exists>s'. visit_targets n g v (sorted_list_of_fset (succs g v)) (enter v s) = Some s'"
    using unvisited_enter [of v g s n] by (auto simp: graph_wf_def)
  then show ?case by auto
next
  case (4 n g v t ts s)
  show ?case
  proof (cases "visited s t")
    case False
    with 4 obtain s1 where s1: "visit n g t s = Some s1" by auto
    have "card (unvisited g (lower v (low s1 t) s1)) \<le> n"
      using unvisited_mono [of s "lower v (low s1 t) s1" g] visit_mono(1) [OF s1] 4(7) by auto
    with 4(2) [OF False s1] 4(5,6) False s1 show ?thesis by auto
  next
    case True
    have "card (unvisited g (lower v (idx s t) s)) \<le> n" using 4(7) by simp
    with True 4 show ?thesis by auto
  qed
qed auto

section \<open>Components\<close>

lemma tarjan_start_inv: "tarjan_inv g 0 tarjan_start"
  by (simp add: tarjan_inv_def tarjan_start_def emitted_def visited_def closed_def)

lemma tarjan_inv_restart: "tarjan_inv g B s \<Longrightarrow> t_stack s = [] \<Longrightarrow> tarjan_inv g (t_index s) s"
  by (auto simp: tarjan_inv_def)

lemma tarjan_inv_low: "tarjan_inv g B s \<Longrightarrow> v \<in> set (t_stack s) \<Longrightarrow> low s v \<le> idx s v"
  unfolding tarjan_inv_def by (elim conjE) blast

lemma tarjan_inv_bound: "tarjan_inv g B s \<Longrightarrow> visited s v \<Longrightarrow> B \<le> idx s v \<Longrightarrow> B \<le> low s v"
  unfolding tarjan_inv_def by (elim conjE) blast

lemma visit_root:
  assumes "graph_wf g" "tarjan_inv g B s" "t_stack s = []" "v \<in> nodes g" "\<not> visited s v" "card (unvisited g s) \<le> n"
  shows "\<exists>s'. visit n g v s = Some s' \<and> tarjan_inv g (t_index s) s' \<and> t_stack s' = [] \<and> visited s' v"
proof -
  have inv: "tarjan_inv g (t_index s) s" by (rule tarjan_inv_restart [OF assms(2,3)])
  obtain s' where s': "visit n g v s = Some s'" using visit_total(1) [OF assms(1,4,5,6)] by blast
  have ok: "visit_ok g (t_index s) v s s'" by (rule visit_correct(1) [OF assms(1) inv assms(4,5) s'])
  have "t_stack s' = []"
  proof (rule ccontr)
    assume "t_stack s' \<noteq> []"
    with ok assms(3) have v: "v \<in> set (t_stack s')" "low s' v \<noteq> idx s' v" by (auto simp: visit_ok_def)
    have r: "visited s' v" "idx s' v = t_index s" "tarjan_inv g (t_index s) s'" using ok by (auto simp: visit_ok_def)
    have "low s' v \<le> idx s' v" by (rule tarjan_inv_low [OF r(3) v(1)])
    moreover have "idx s' v \<le> low s' v" using tarjan_inv_bound [OF r(3,1)] r(2) by simp
    ultimately show False using v(2) by simp
  qed
  with ok s' show ?thesis by (auto simp: visit_ok_def)
qed

lemma visit_all_correct:
  "\<lbrakk>graph_wf g; tarjan_inv g B s; t_stack s = []; set vs \<subseteq> nodes g; card (unvisited g s) \<le> n\<rbrakk> \<Longrightarrow>
     \<exists>s' B'. visit_all n g vs s = Some s' \<and> tarjan_inv g B' s' \<and> t_stack s' = [] \<and>
       (\<forall>x. visited s x \<or> x \<in> set vs \<longrightarrow> visited s' x)"
proof (induction vs arbitrary: B s)
  case (Cons v vs)
  show ?case
  proof (cases "visited s v")
    case True
    with Cons.IH [OF Cons.prems(1-3)] Cons.prems(4,5) show ?thesis by auto
  next
    case False
    with visit_root [OF Cons.prems(1-3) _ False Cons.prems(5)] Cons.prems(4) obtain s1 where
      s1: "visit n g v s = Some s1" "tarjan_inv g (t_index s) s1" "t_stack s1 = []" "visited s1 v" by auto
    have "card (unvisited g s1) \<le> n"
      using unvisited_mono [of s s1 g] visit_mono(1) [OF s1(1)] Cons.prems(5) by (meson order_trans)
    from Cons.IH [OF Cons.prems(1) s1(2,3) _ this] Cons.prems(4) obtain s' B' where
      "visit_all n g vs s1 = Some s'" "tarjan_inv g B' s'" "t_stack s' = []"
      "\<forall>x. visited s1 x \<or> x \<in> set vs \<longrightarrow> visited s' x" by auto
    with False s1 visit_mono(1) [OF s1(1)] show ?thesis by auto
  qed
qed auto

lemma components_correct:
  assumes "graph_wf g"
  obtains comps where "strongly_connected_components g = Some comps" "\<Union> (fset ` set comps) = nodes g"
    "\<And>cs ds. comps = cs @ ds \<Longrightarrow> closed g (\<Union> (fset ` set cs))"
proof -
  have "nodes g = set (map fst g)" by (simp add: nodes_def)
  then have card: "card (unvisited g tarjan_start) \<le> length g"
    by (metis (no_types, lifting) card_length card_mono finite_set length_map mem_Collect_eq order_trans subsetI)
  have "set (sort (map fst g)) \<subseteq> nodes g" by (simp add: nodes_def)
  from visit_all_correct [OF assms tarjan_start_inv _ this card] obtain s B where
    s: "visit_all (length g) g (sort (map fst g)) tarjan_start = Some s" "tarjan_inv g B s" "t_stack s = []"
      "\<forall>x \<in> nodes g. visited s x"
    by (auto simp: tarjan_start_def nodes_def)
  show thesis
  proof (rule that)
    show "strongly_connected_components g = Some (t_components s)"
      by (simp add: strongly_connected_components_def s(1))
    show "\<Union> (fset ` set (t_components s)) = nodes g"
      using s(2,3,4) by (auto simp: tarjan_inv_def emitted_def)
    show "closed g (\<Union> (fset ` set cs))" if "t_components s = cs @ ds" for cs ds
      using s(2) that by (simp add: tarjan_inv_def)
  qed
qed

section \<open>Cycles\<close>

primrec walk :: "graph \<Rightarrow> string \<Rightarrow> string list \<Rightarrow> bool" where
  "walk g v [] = True"
| "walk g v (x # q) = (x |\<in>| succs g v \<and> walk g x q)"

text \<open>A simple cycle: different nodes, each requiring the next and the last requiring the first.\<close>

definition simple_cycle :: "graph \<Rightarrow> string list \<Rightarrow> bool" where
  "simple_cycle g p \<longleftrightarrow>
     p \<noteq> [] \<and> distinct p \<and> set p \<subseteq> nodes g \<and> walk g (hd p) (tl p) \<and> hd p |\<in>| succs g (last p)"

lemma walk_append: "walk g v (a @ b) \<longleftrightarrow> walk g v a \<and> walk g (last (v # a)) b"
  by (induction a arbitrary: v) auto

lemma simple_cycle_rotate:
  assumes "simple_cycle g (a @ x # b)"
  shows "simple_cycle g (x # b @ a)"
proof (cases a)
  case Nil
  with assms show ?thesis by simp
next
  case (Cons v a')
  have "walk g v a'" "x |\<in>| succs g (last (v # a'))" "walk g x b" "v |\<in>| succs g (last (x # b))"
    using assms unfolding Cons simple_cycle_def by (auto simp: walk_append split: if_splits)
  then have "walk g x (b @ v # a')" "x |\<in>| succs g (last (x # b @ v # a'))" by (simp_all add: walk_append)
  with assms show ?thesis unfolding Cons simple_cycle_def by auto
qed

lemma walk_closed: "walk g v q \<Longrightarrow> closed g S \<Longrightarrow> v \<in> S \<Longrightarrow> set q \<subseteq> S"
  by (induction q arbitrary: v) (auto simp: closed_def)

lemma cycle_closed:
  assumes "simple_cycle g p" "closed g S" "x \<in> set p" "x \<in> S"
  shows "set p \<subseteq> S"
proof -
  from assms(3) obtain a b where p: "p = a @ x # b" by (auto simp: in_set_conv_decomp)
  have "simple_cycle g (x # b @ a)" using assms(1) unfolding p by (rule simple_cycle_rotate)
  then have "walk g x (b @ a)" by (simp add: simple_cycle_def)
  from walk_closed [OF this assms(2,4)] assms(4) show ?thesis by (auto simp: p)
qed

lemma cycle_in_component:
  assumes cycle: "simple_cycle g p" and all: "\<Union> (fset ` set comps) = nodes g"
    and closed: "\<And>cs ds. comps = cs @ ds \<Longrightarrow> closed g (\<Union> (fset ` set cs))"
  shows "\<exists>c \<in> set comps. set p \<subseteq> fset c"
proof -
  from cycle all have "\<exists>c \<in> set comps. fset c \<inter> set p \<noteq> {}"
    by (cases p) (auto simp: simple_cycle_def)
  then obtain cs c ds where comps: "comps = cs @ c # ds" and c: "fset c \<inter> set p \<noteq> {}"
    and first: "\<forall>d \<in> set cs. fset d \<inter> set p = {}"
    using split_list_first_prop [of comps "\<lambda>c. fset c \<inter> set p \<noteq> {}"] by auto
  have "closed g (\<Union> (fset ` set (cs @ [c])))" by (rule closed [of _ ds]) (simp add: comps)
  moreover from c obtain x where "x \<in> set p" "x \<in> \<Union> (fset ` set (cs @ [c]))" by auto
  ultimately have "set p \<subseteq> \<Union> (fset ` set (cs @ [c]))" using cycle_closed [OF cycle] by blast
  with first have "set p \<subseteq> fset c" by auto
  with comps show ?thesis by auto
qed

text \<open>A way to close a cycle from a node, through new nodes of the component that do not precede the start.\<close>

definition closes :: "graph \<Rightarrow> string fset \<Rightarrow> (string \<times> nat) list \<Rightarrow> string \<Rightarrow> string \<Rightarrow> string fset \<Rightarrow> string list \<Rightarrow> bool" where
  "closes g C rank start node seen q \<longleftrightarrow>
     walk g node q \<and> start |\<in>| succs g (last (node # q)) \<and> start |\<in>| C \<and> distinct q \<and> set q \<subseteq> fset C \<and> start \<notin> set q
     \<and> set q \<inter> fset seen = {} \<and> (\<forall>x \<in> set q. \<not> dget rank x 0 < dget rank start 0)"

lemma closes_Nil: "closes g C rank start node seen [] \<longleftrightarrow> start |\<in>| succs g node \<and> start |\<in>| C"
  by (simp add: closes_def)

lemma closes_Cons:
  "closes g C rank start node seen (t # q) \<longleftrightarrow>
     t |\<in>| succs g node \<and> t |\<in>| C \<and> t \<noteq> start \<and> t |\<notin>| seen \<and> \<not> dget rank t 0 < dget rank start 0
     \<and> closes g C rank start t (finsert t seen) q"
  by (auto simp: closes_def)

lemma cycles_below_iff:
  "name \<in> set (cycles_below g C rank start node path seen) \<longleftrightarrow>
     (\<exists>q. closes g C rank start node seen q \<and> name = canonical_cycle (fset_of_list (path @ q)))"
proof (induction g C rank start node path seen rule: cycles_below.induct)
  case (1 g C rank start node path seen)
  let ?go = "\<lambda>t. t |\<in>| succs g node \<and> t |\<in>| C \<and> t \<noteq> start \<and> t |\<notin>| seen \<and> \<not> dget rank t 0 < dget rank start 0"
  have "name \<in> set (cycles_below g C rank start node path seen) \<longleftrightarrow>
      start |\<in>| succs g node \<and> start |\<in>| C \<and> name = canonical_cycle (fset_of_list path) \<or>
      (\<exists>t. ?go t \<and> name \<in> set (cycles_below g C rank start t (path @ [t]) (finsert t seen)))"
    by (subst cycles_below.simps) (auto split: if_splits)
  also have "\<dots> \<longleftrightarrow> closes g C rank start node seen [] \<and> name = canonical_cycle (fset_of_list (path @ [])) \<or>
      (\<exists>t q. closes g C rank start node seen (t # q) \<and> name = canonical_cycle (fset_of_list (path @ t # q)))"
    unfolding closes_Nil closes_Cons using 1 by auto
  also have "\<dots> \<longleftrightarrow> (\<exists>q. closes g C rank start node seen q \<and> name = canonical_cycle (fset_of_list (path @ q)))"
    by (metis list.exhaust)
  finally show ?case .
qed

lemma rank_of_nth:
  assumes "distinct xs" "i < length xs"
  shows "dget (rank_of xs) (xs ! i) d = i"
proof -
  have keys: "map fst (map (\<lambda>(i, node). (node, i)) (enumerate 0 xs)) = xs"
    by (simp add: comp_def case_prod_beta')
  then have "rank_of xs = map (\<lambda>(i, node). (node, i)) (enumerate 0 xs)"
    unfolding rank_of_def using assms(1) by (intro dict_of_distinct) simp
  moreover have "(xs ! i, i) \<in> set (map (\<lambda>(i, node). (node, i)) (enumerate 0 xs))"
    using assms(2) by (force simp: in_set_enumerate_eq)
  ultimately show ?thesis using dget_in assms(1) keys by metis
qed

lemma rank_of_less:
  assumes "x |\<in>| C" "y |\<in>| C" "dget (rank_of (sorted_list_of_fset C)) x 0 < dget (rank_of (sorted_list_of_fset C)) y 0"
  shows "x < y"
proof -
  let ?xs = "sorted_list_of_fset C"
  have xs: "distinct ?xs" "sorted ?xs" by (simp_all add: sorted_list_of_fset.rep_eq)
  from assms(1,2) obtain i j where ij: "i < length ?xs" "x = ?xs ! i" "j < length ?xs" "y = ?xs ! j"
    by (metis in_set_conv_nth sorted_list_of_fset_simps(1))
  with assms(3) rank_of_nth [OF xs(1)] have "i < j" by simp
  with ij xs show ?thesis by (metis distinct_conv_nth less_le order.strict_implies_order sorted_nth_mono nat_less_le)
qed

lemma in_simple_cycles:
  "name |\<in>| simple_cycles_in_component g C \<longleftrightarrow>
     (\<exists>start q. start |\<in>| C \<and> closes g C (rank_of (sorted_list_of_fset C)) start start {|start|} q
        \<and> name = canonical_cycle (fset_of_list (start # q)))"
  by (auto simp: simple_cycles_in_component_def Let_def fset_of_list.rep_eq cycles_below_iff)

lemma closes_simple_cycle:
  "start |\<in>| C \<Longrightarrow> fset C \<subseteq> nodes g \<Longrightarrow> closes g C rank start start {|start|} q \<Longrightarrow>
     simple_cycle g (start # q) \<and> set (start # q) \<subseteq> fset C"
  by (auto simp: closes_def simple_cycle_def)

lemma simple_cycle_found:
  assumes "simple_cycle g p" "set p \<subseteq> fset C"
  shows "canonical_cycle (fset_of_list p) |\<in>| simple_cycles_in_component g C"
proof -
  define m where "m = Min (set p)"
  from assms(1) have "p \<noteq> []" by (simp add: simple_cycle_def)
  then have "m \<in> set p" and least: "\<And>x. x \<in> set p \<Longrightarrow> m \<le> x" by (auto simp: m_def)
  then obtain a b where p: "p = a @ m # b" by (auto simp: in_set_conv_decomp)
  have rot: "simple_cycle g (m # b @ a)" using assms(1) unfolding p by (rule simple_cycle_rotate)
  have "\<not> dget (rank_of (sorted_list_of_fset C)) x 0 < dget (rank_of (sorted_list_of_fset C)) m 0" if "x \<in> set (b @ a)" for x
  proof
    assume "dget (rank_of (sorted_list_of_fset C)) x 0 < dget (rank_of (sorted_list_of_fset C)) m 0"
    moreover have "x |\<in>| C" "m |\<in>| C" using that assms(2) p by auto
    ultimately have "x < m" using rank_of_less by blast
    with least [of x] that p show False by auto
  qed
  with rot assms(2) have "closes g C (rank_of (sorted_list_of_fset C)) m m {|m|} (b @ a)"
    by (auto simp: closes_def simple_cycle_def p)
  moreover have "fset_of_list p = fset_of_list (m # b @ a)" by (auto simp: p fset_eq_iff fset_of_list.rep_eq)
  moreover have "m |\<in>| C" using \<open>m \<in> set p\<close> assms(2) by auto
  ultimately show ?thesis unfolding in_simple_cycles by metis
qed

lemma component_cycles_exact:
  assumes "fset C \<subseteq> nodes g"
  shows "name |\<in>| component_cycles g C \<longleftrightarrow>
     (\<exists>p. simple_cycle g p \<and> set p \<subseteq> fset C \<and> name = canonical_cycle (fset_of_list p))"
proof (cases "1 < fcard C")
  case True
  then have "component_cycles g C = simple_cycles_in_component g C" by (simp add: component_cycles_def)
  then show ?thesis
    using closes_simple_cycle [OF _ assms] simple_cycle_found [of g _ C] in_simple_cycles [of name g C] by metis
next
  case False
  show ?thesis
  proof (cases "C = {||}")
    case True
    then show ?thesis by (auto simp: component_cycles_def simple_cycle_def fcard.rep_eq sorted_list_of_fset.rep_eq)
  next
    case ne: False
    then obtain v D where D: "v |\<notin>| D" "C = finsert v D" using fset_strong_cases [of C] by metis
    with False have "fcard D = 0" by (simp add: fcard_finsert_disjoint)
    with D have C: "C = {|v|}" by (simp add: fcard_0_eq)
    have canonical: "canonical_cycle {|v|} = v" by (simp add: canonical_cycle_def sorted_list_of_fset.rep_eq)
    have loop: "simple_cycle g p \<and> set p \<subseteq> {v} \<longleftrightarrow> p = [v] \<and> v |\<in>| succs g v" for p
    proof
      assume p: "simple_cycle g p \<and> set p \<subseteq> {v}"
      then have "p \<noteq> []" "distinct p" by (auto simp: simple_cycle_def)
      with p have "p = [v]" by (cases p; cases "tl p") auto
      with p show "p = [v] \<and> v |\<in>| succs g v" by (simp add: simple_cycle_def)
    next
      assume "p = [v] \<and> v |\<in>| succs g v"
      with assms C show "simple_cycle g p \<and> set p \<subseteq> {v}" by (simp add: simple_cycle_def)
    qed
    have "(\<exists>p. simple_cycle g p \<and> set p \<subseteq> fset C \<and> name = canonical_cycle (fset_of_list p)) \<longleftrightarrow>
        (\<exists>p. (simple_cycle g p \<and> set p \<subseteq> {v}) \<and> name = canonical_cycle (fset_of_list p))"
      by (simp add: C)
    also have "\<dots> \<longleftrightarrow> v |\<in>| succs g v \<and> name = canonical_cycle (fset_of_list [v])" unfolding loop by simp
    finally have "(\<exists>p. simple_cycle g p \<and> set p \<subseteq> fset C \<and> name = canonical_cycle (fset_of_list p)) \<longleftrightarrow>
        v |\<in>| succs g v \<and> name = canonical_cycle (fset_of_list [v])" .
    moreover have "component_cycles g C = (if v |\<in>| succs g v then {|v|} else {||})"
      by (simp add: component_cycles_def C fcard.rep_eq sorted_list_of_fset.rep_eq)
    ultimately show ?thesis by (simp add: canonical)
  qed
qed

lemma cycles_from_graph_exact:
  assumes "graph_wf g"
  shows "\<exists>cycles. cycles_from_graph g = Some cycles \<and>
     fset cycles = {canonical_cycle (fset_of_list p) | p. simple_cycle g p}"
proof -
  obtain comps where c: "strongly_connected_components g = Some comps" "\<Union> (fset ` set comps) = nodes g"
    "\<And>cs ds. comps = cs @ ds \<Longrightarrow> closed g (\<Union> (fset ` set cs))"
    using components_correct [OF assms] by metis
  let ?cycles = "ffUnion (fset_of_list (map (component_cycles g) comps))"
  have "name |\<in>| ?cycles \<longleftrightarrow> (\<exists>p. simple_cycle g p \<and> name = canonical_cycle (fset_of_list p))" for name
  proof -
    have sub: "fset C \<subseteq> nodes g" if "C \<in> set comps" for C using c(2) that by blast
    have inside: "\<exists>C \<in> set comps. set p \<subseteq> fset C" if "simple_cycle g p" for p
      by (rule cycle_in_component [OF that c(2)]) (rule c(3))
    have "name |\<in>| ?cycles \<longleftrightarrow> (\<exists>C \<in> set comps. name |\<in>| component_cycles g C)"
      by (auto simp: ffUnion.rep_eq fset_of_list.rep_eq)
    also have "\<dots> \<longleftrightarrow> (\<exists>C \<in> set comps. \<exists>p. simple_cycle g p \<and> set p \<subseteq> fset C \<and> name = canonical_cycle (fset_of_list p))"
      using component_cycles_exact [OF sub] by (rule bex_cong [OF refl])
    also have "\<dots> \<longleftrightarrow> (\<exists>p. simple_cycle g p \<and> name = canonical_cycle (fset_of_list p))"
      using inside by blast
    finally show ?thesis .
  qed
  then have "fset ?cycles = {canonical_cycle (fset_of_list p) | p. simple_cycle g p}" by blast
  moreover have "cycles_from_graph g = Some ?cycles" by (simp add: cycles_from_graph_def c(1))
  ultimately show ?thesis by blast
qed

text \<open>The graph of the modules is well-formed: edges only go to modules.\<close>

lemma dependency_graph_wf: "graph_wf (dependency_graph strip_lua is_unmasked_range root)"
proof -
  define modules where "modules = dict_of (map (\<lambda>path. (lua_module_name path, path)) (library_lua_files root))"
  let ?g = "dependency_graph strip_lua is_unmasked_range root"
  have keys: "map fst ?g = map fst modules"
    by (simp add: dependency_graph_def Let_def modules_def comp_def case_prod_beta')
  have targets: "t |\<in>| S \<Longrightarrow> (v, S) \<in> set ?g \<Longrightarrow> t \<in> fst ` set modules" for t v S
    by (auto simp: dependency_graph_def Let_def fset_of_list.rep_eq map_of_eq_None_iff simp flip: modules_def)
  have dist: "distinct (map fst ?g)" unfolding keys modules_def by (rule dict_of_dist)
  have "fset (succs ?g v) \<subseteq> nodes ?g" if "v \<in> nodes ?g" for v
  proof -
    from that have "(v, succs ?g v) \<in> set ?g" unfolding succs_def nodes_def by (intro in_dget) simp
    with targets have "fset (succs ?g v) \<subseteq> fst ` set modules" by blast
    also have "\<dots> = nodes ?g" unfolding nodes_def using arg_cong [OF keys, of set] by simp
    finally show ?thesis .
  qed
  with dist show ?thesis by (simp add: graph_wf_def)
qed

text \<open>
  C1. On every well-formed graph the search returns, and the names it reports are exactly those of the
  simple cycles of the graph: none is invented, none is missed, however the components fall out.
\<close>

theorem cycles_exact:
  assumes "graph_wf g"
  shows "\<exists>cycles. cycles_from_graph g = Some cycles \<and>
     fset cycles = {canonical_cycle (fset_of_list p) | p. simple_cycle g p}"
  using assms by (rule cycles_from_graph_exact)

definition demo_graph :: graph where
  "demo_graph = [(''a'', {|''b''|}), (''b'', {|''a'', ''c''|}), (''c'', {|''c''|})]"

lemma demo_graph_wf: "graph_wf demo_graph"
  by (auto simp: graph_wf_def demo_graph_def nodes_def succs_def dget_def)

theorem cycles_exact_witness:
  "graph_wf demo_graph \<and> (\<exists>cycles. cycles_from_graph demo_graph = Some cycles \<and>
     fset cycles = {canonical_cycle (fset_of_list p) | p. simple_cycle demo_graph p})"
  using cycles_exact [OF demo_graph_wf] demo_graph_wf by blast

text \<open>
  The check of a tree reports no cycle exactly if the require graph of its library modules has no
  simple cycle.
\<close>

theorem current_cycles_acyclic:
  "current_cycles strip_lua is_unmasked_range root = Some {||} \<longleftrightarrow>
     (\<nexists>p. simple_cycle (dependency_graph strip_lua is_unmasked_range root) p)"
  using cycles_from_graph_exact [OF dependency_graph_wf [of strip_lua is_unmasked_range root]]
  by (auto simp: current_cycles_def fset_eq_iff)

interpretation cycle_ratchet: shrink_only_ratchet
  "\<lambda>current allowlist base. ratchet_messages current allowlist base = []" "\<lambda>c. c" "\<lambda>a. a" "(|\<subseteq>|)"
  by unfold_locales (auto simp: ratchet_messages_def)

text \<open>
  Along a history whose commits all pass against the allowlist before, the require cycles of a commit
  were all allowed by every earlier allowlist: no new cycle ever enters.
\<close>

theorem cycle_history_shrinks:
  assumes "clean_history (\<lambda>current allowlist base. ratchet_messages current allowlist base = []) base
             (earlier @ (current, allowlist) # later)"
    and "(current', allowlist') \<in> set later"
  shows "current' |\<subseteq>| allowlist \<and> current' |\<subseteq>| base"
proof
  show "current' |\<subseteq>| allowlist" by (rule cycle_ratchet.history_monotone(1) [OF assms])
  show "current' |\<subseteq>| base" by (rule cycle_ratchet.history_debt [OF assms(1)]) (use assms(2) in auto)
qed

theorem cycle_history_shrinks_witness:
  "let pass = (\<lambda>current allowlist base. ratchet_messages current allowlist base = []); a = {|''a <-> b''|}
   in clean_history pass a ([] @ (a, a) # [({||}, {||})]) \<and> {||} |\<subseteq>| a \<and> {||} |\<subseteq>| a"
proof -
  let ?a = "{|''a <-> b''|}"
  have h: "clean_history (\<lambda>current allowlist base. ratchet_messages current allowlist base = []) ?a
      ([] @ (?a, ?a) # [({||}, {||})])"
    by (simp add: ratchet_messages_def)
  from h cycle_history_shrinks [OF h, of "{||}" "{||}"] show ?thesis unfolding Let_def by simp
qed

end
