(* ===== verification/RepoCheck.thy ===== *)
theory RepoCheck
  imports SourceChecks ErrorClass ProducerLiveness GhGitAdapter CodeDedup DependencyCycle
begin

text \<open>
  What is left of \<^verbatim>\<open>scripts/check_repo.py\<close>: the ratchet of saga handlers (with
  \<^verbatim>\<open>scripts/check_repo_saga_handler.py\<close>), the bindings of the ratchets that have theories of their own, and the
  command. What the runner of all checks collects is an argument of the command.

  Shown here: when the ratchet of saga handlers prints nothing and that it only shrinks, when the bindings do, and
  what the exit status says.
\<close>

section \<open>Saga handlers (G10)\<close>

definition SAGA_ALLOWLIST :: string where "SAGA_ALLOWLIST = ''migration/saga-handler.allowlist''"

definition SAGA_REQUIRE_RE :: regex where
  "SAGA_REQUIRE_RE =
     rseq [RWordB, rlit ''require'', rblank, ropt (RSeq (rchar CHR ''('') rblank), RSet quote_char, rlit ''workflow.saga'', RSet quote_char]"

definition SAGA_DEPARTMENT_RE :: regex where
  "SAGA_DEPARTMENT_RE =
     rseq [rchar CHR ''.'', rblank, rlit ''department'', rblank, RSet (\<lambda>c. c = CHR ''('' \<or> c = CHR ''{'')]"

definition FREE_FORM_PIPELINE_RE :: regex where
  "FREE_FORM_PIPELINE_RE =
     rseq [RMBol, rblank,
       RAlt (rseq [rlit ''function'', rplus rspace, rlit ''pipeline'', rblank, rchar CHR ''('']) 
         (rseq [rlit ''pipeline'', rblank, rchar CHR ''='', rblank, rlit ''function'', RWordB])]"

definition is_saga_handler_source :: "string \<Rightarrow> bool" where
  "is_saga_handler_source source \<longleftrightarrow>
     re_search SAGA_REQUIRE_RE source \<noteq> None \<and> re_search SAGA_DEPARTMENT_RE (strip_lua_comments_and_strings source) \<noteq> None"

definition free_form_pipeline :: "string \<Rightarrow> bool" where
  "free_form_pipeline source \<longleftrightarrow> re_search FREE_FORM_PIPELINE_RE (strip_lua_comments_and_strings source) \<noteq> None"

definition department_messages :: "string fset \<Rightarrow> string \<times> string \<Rightarrow> string list" where
  "department_messages allowlist department =
     (case department of (path, source) \<Rightarrow>
        (if is_saga_handler_source source \<and> path |\<in>| allowlist
         then [''G10: '' @ path @ '' saga-shaped department remains on saga-handler allowlist; remove it''] else []) @
        (if is_saga_handler_source source \<and> free_form_pipeline source
         then [''G10: '' @ path @ '' saga-shaped department still defines free-form top-level pipeline''] else []) @
        (if \<not> is_saga_handler_source source \<and> path |\<notin>| allowlist
         then [''G10: '' @ path @ '' free-form department not on saga-handler allowlist; migrate to workflow.saga.department or (only for pre-existing) keep listed'']
         else []))"

definition saga_handler_violations :: "(string \<times> string) list \<Rightarrow> string fset \<Rightarrow> string fset option \<Rightarrow> string list" where
  "saga_handler_violations departments allowlist base_allowlist =
     concat (map (department_messages allowlist) (sort_key fst departments)) @
     map (\<lambda>path. ''G10: '' @ path @ '' listed in saga-handler allowlist but does not exist'')
       (sorted_list_of_fset (allowlist |-| fset_of_list (map fst departments))) @
     (case base_allowlist of None \<Rightarrow> []
      | Some base \<Rightarrow> map (\<lambda>path. ''G10: '' @ path @ '' grows saga-handler allowlist relative to dev; migrate instead'')
          (sorted_list_of_fset (allowlist |-| base)))"

definition department_shape :: "string list \<Rightarrow> bool" where
  "department_shape parts \<longleftrightarrow> (case parts of [_, d, _, f] \<Rightarrow> d = ''departments'' \<and> f = ''main.lua'' | _ \<Rightarrow> False)"

definition department_sources :: "repo \<Rightarrow> (string \<times> string) list" where
  "department_sources repo =
     dict_of (map (\<lambda>path. (rel repo path, source_of (rp_tree repo) path))
       (concat (map (glob_parts department_shape (rp_tree repo)) (package_roots repo))))"

text \<open>Where an allowlist is read from: the repository, or a directory of the host.\<close>

definition allowlist_file :: "host_file \<Rightarrow> repo \<Rightarrow> string option \<Rightarrow> string \<Rightarrow> string option" where
  "allowlist_file host repo allowlist_dir relpath =
     (case allowlist_dir of None \<Rightarrow> tree_read (rp_tree repo) relpath | Some dir \<Rightarrow> host (dir @ ''/'' @ path_name relpath))"

definition base_of :: "environ \<Rightarrow> git \<Rightarrow> bool \<Rightarrow> string \<Rightarrow> (string list \<Rightarrow> 'a result) \<Rightarrow> 'a base_allowlist" where
  "base_of env git enforce_base allowlist parse = (if enforce_base then allowlist_at_dev_base env git allowlist parse else BaseAbsent)"

definition check_saga_handler_ratchet ::
    "environ \<Rightarrow> git \<Rightarrow> host_file \<Rightarrow> repo \<Rightarrow> string option \<Rightarrow> bool \<Rightarrow> check_message list result" where
  "check_saga_handler_ratchet env git host repo allowlist_dir enforce_base =
     bindR (load_allowlist_with parse_dev_allowlist_lines (allowlist_file host repo allowlist_dir SAGA_ALLOWLIST)) (\<lambda>allowlist.
       let base = base_of env git enforce_base SAGA_ALLOWLIST parse_dev_allowlist_lines in
       Return (unresolved_failure
           ''G10: cannot resolve dev base allowlist to enforce shrink-only ratchet; ensure CI provides the dev ref'' base @
         map Violation (saga_handler_violations (department_sources repo) allowlist (base_value base))))"

section \<open>Bindings\<close>

definition check_dependency_cycle ::
    "environ \<Rightarrow> git \<Rightarrow> host_file \<Rightarrow> repo \<Rightarrow> string option \<Rightarrow> bool \<Rightarrow> check_message list result option" where
  "check_dependency_cycle env git host repo allowlist_dir enforce_base =
     map_option (\<lambda>current.
       bindR (DependencyCycle.load_allowlist (allowlist_file host repo allowlist_dir DependencyCycle.ALLOWLIST)) (\<lambda>allowlist.
         let base = base_of env git enforce_base DependencyCycle.ALLOWLIST DependencyCycle.parse_allowlist_lines in
         Return (map (add ''G-DEPENDENCY-CYCLE'')
           (unresolved_failure
              ''cannot resolve dev base allowlist to enforce shrink-only dependency-cycle ratchet; ensure CI provides the dev ref'' base @
            map Violation (DependencyCycle.ratchet_messages current allowlist (base_value base))))))
       (current_cycles strip_lua_comments_and_strings is_unmasked_range (rp_tree repo))"

definition gh_git_sources :: "repo \<Rightarrow> (string \<times> string) list" where
  "gh_git_sources repo =
     dict_of (concat (map (\<lambda>packages.
       map (\<lambda>path. (rel repo path, source_of (rp_tree repo) path))
         (rglob_lua (rp_tree repo) packages @ rglob_lua (rp_tree repo) ''libraries/forge'')) (package_roots repo)))"

definition check_gh_git_adapter_ratchet :: "host_file \<Rightarrow> repo \<Rightarrow> string option \<Rightarrow> check_message list result option" where
  "check_gh_git_adapter_ratchet host repo allowlist_dir =
     (case GhGitAdapter.load_allowlist (allowlist_file host repo allowlist_dir GhGitAdapter.ALLOWLIST) of
        Inl e \<Rightarrow> Some (Raise e)
      | Inr allowlist \<Rightarrow>
          map_option (\<lambda>messages. Return (map (add ''G-ADAPTER'') (map Violation messages)))
            (GhGitAdapter.ratchet_messages (gh_git_sources repo) allowlist))"

text \<open>\<open>root\<close> is the absolute path of the repository.\<close>

definition dedup_source_map :: "string \<Rightarrow> repo \<Rightarrow> (string \<times> string) list" where
  "dedup_source_map root repo =
     dict_of (map (\<lambda>(path, source). (rel repo path, source))
       (concat (map (CodeDedup.sources root (rp_tree repo)) (package_roots repo))))"

definition check_code_dedup_ratchet ::
    "environ \<Rightarrow> git \<Rightarrow> host_file \<Rightarrow> string \<Rightarrow> repo \<Rightarrow> string option \<Rightarrow> bool \<Rightarrow> check_message list result" where
  "check_code_dedup_ratchet env git host root repo allowlist_dir enforce_base =
     bindR (CodeDedup.load_allowlist (allowlist_file host repo allowlist_dir CodeDedup.ALLOWLIST)) (\<lambda>allowlist.
       let base = (if enforce_base then dedup_allowlist_at_dev_base env git else BaseAbsent) in
       Return (map (add ''G-DEDUP'')
         (unresolved_failure
            ''cannot resolve dev base allowlist to enforce shrink-only ratchet; ensure CI provides the dev ref'' base @
          map Violation (CodeDedup.ratchet_messages (dedup_source_map root repo) allowlist (base_value base)))))"

section \<open>The command\<close>

definition VIOLATIONS_EXIT :: int where "VIOLATIONS_EXIT = 10"
definition CONFIGURATION_EXIT :: int where "CONFIGURATION_EXIT = 11"
definition TOOLCHAIN_EXIT :: int where "TOOLCHAIN_EXIT = 12"
definition INFRASTRUCTURE_EXIT :: int where "INFRASTRUCTURE_EXIT = 13"

text \<open>
  What the checks left: their messages in order and the warnings, or the exception that ended them. The text of a
  failure to start git, which names the cause, is a parameter.
\<close>

type_synonym run_outcome = "(check_message list \<times> string list) result"

record exit_report =
  er_status :: int
  er_stderr :: "string list"
  er_stdout :: "string list"

definition indent :: "string \<Rightarrow> string" where "indent line = ''  '' @ line"

definition finished :: "check_message list \<Rightarrow> string list \<Rightarrow> exit_report" where
  "finished messages warnings =
     (let rv = routed_extend \<lparr>rv_violations = [], rv_configuration_failures = []\<rparr> messages;
          warned = map (\<lambda>warning. ''warning: '' @ warning) warnings in
      if rv_violations rv \<noteq> [] \<or> rv_configuration_failures rv \<noteq> []
      then \<lparr>er_status = (if rv_violations rv = [] then CONFIGURATION_EXIT else VIOLATIONS_EXIT),
        er_stderr = warned @ [''repository check failed:''] @ map indent (rv_violations rv) @ map indent (rv_configuration_failures rv),
        er_stdout = []\<rparr>
      else \<lparr>er_status = 0, er_stderr = warned, er_stdout = [''OK: repository checks passed'']\<rparr>)"

definition repo_check_main :: "(py_error \<Rightarrow> string) \<Rightarrow> run_outcome \<Rightarrow> exit_report result" where
  "repo_check_main str_failure outcome =
     (case outcome of
        Inr (messages, warnings) \<Rightarrow> Return (finished messages warnings)
      | Inl failure \<Rightarrow>
          (case failure of
             GitInvocationFailure fault_class command \<Rightarrow>
               Return \<lparr>er_status = (if fault_class = TOOLCHAIN then TOOLCHAIN_EXIT else INFRASTRUCTURE_EXIT),
                 er_stderr = [''repository check failed:'', indent (str_failure failure)], er_stdout = []\<rparr>
           | _ \<Rightarrow> Raise failure))"

section \<open>What the checks mean\<close>

definition free_form_departments :: "(string \<times> string) list \<Rightarrow> string fset" where
  "free_form_departments departments = fset_of_list (map fst (filter (\<lambda>(path, source). \<not> is_saga_handler_source source) departments))"

text \<open>A department has the shape of a saga and no pipeline of its own, or is listed.\<close>

definition department_ok :: "string fset \<Rightarrow> string \<times> string \<Rightarrow> bool" where
  "department_ok allowlist department \<longleftrightarrow>
     (case department of (path, source) \<Rightarrow>
        if is_saga_handler_source source then path |\<notin>| allowlist \<and> \<not> free_form_pipeline source else path |\<in>| allowlist)"

lemma department_messages_Nil: "department_messages allowlist department = [] \<longleftrightarrow> department_ok allowlist department"
  by (cases department) (simp add: department_messages_def department_ok_def)

lemma saga_violations_Nil:
  "saga_handler_violations departments allowlist base_allowlist = [] \<longleftrightarrow>
     list_all (department_ok allowlist) departments \<and> allowlist |\<subseteq>| fset_of_list (map fst departments) \<and>
     within_base allowlist base_allowlist"
  unfolding saga_handler_violations_def append_is_Nil_conv map_is_Nil_conv sorted_list_of_fset_Nil fminus_empty concat_map_Nil
    department_messages_Nil within_base_def
  by (simp add: list_all_iff split: option.split)

lemma saga_debt_listed:
  assumes "saga_handler_violations departments allowlist base_allowlist = []"
  shows "free_form_departments departments |\<subseteq>| allowlist"
  using assms unfolding saga_violations_Nil
  by (auto simp: free_form_departments_def fset_of_list_elem list_all_iff department_ok_def split: if_split_asm)

interpretation saga_ratchet: shrink_only_ratchet
  "\<lambda>departments allowlist base. saga_handler_violations departments allowlist base = []" free_form_departments "\<lambda>allowlist. allowlist" "(|\<subseteq>|)"
  by unfold_locales (auto simp: saga_debt_listed, auto simp: saga_violations_Nil within_base_def)

text \<open>Along a history of clean commits no department becomes free-form.\<close>

lemma saga_history_shrinks:
  "clean_history (\<lambda>departments allowlist base. saga_handler_violations departments allowlist base = []) base history \<Longrightarrow>
     (departments, allowlist) \<in> set history \<Longrightarrow> free_form_departments departments |\<subseteq>| base"
  by (rule saga_ratchet.history_debt)

lemma unresolved_failure_Nil [simp]: "unresolved_failure message base = [] \<longleftrightarrow> base \<noteq> BaseUnresolved"
  by (cases base) (simp_all add: unresolved_failure_def)

text \<open>The allowlist that was read lists exactly the simple cycles of the graph, and grew over no base.\<close>

definition lists_cycles :: "graph \<Rightarrow> string fset \<Rightarrow> string fset base_allowlist \<Rightarrow> bool" where
  "lists_cycles g allowlist base \<longleftrightarrow>
     fset allowlist = {canonical_cycle (fset_of_list p) | p. simple_cycle g p} \<and> base \<noteq> BaseUnresolved \<and> within_base allowlist (base_value base)"

lemma cycle_messages_Nil:
  "DependencyCycle.ratchet_messages current allowlist base = [] \<longleftrightarrow> allowlist = current \<and> within_base allowlist base"
  unfolding DependencyCycle.ratchet_messages_def append_is_Nil_conv map_is_Nil_conv sorted_list_of_fset_Nil fminus_empty within_base_def
  by (auto split: option.split)

text \<open>
  C36. The check of require cycles, as the command binds it, always returns; it leaves no message exactly if the
  allowlist is read, lists exactly the simple cycles of the require graph of the libraries, the base is resolved, and
  nothing was added to the list since.
\<close>

theorem cycle_check_clean_iff:
  "\<exists>r. check_dependency_cycle env git host repo allowlist_dir enforce_base = Some r \<and>
     (r = Return [] \<longleftrightarrow>
       (\<exists>allowlist. DependencyCycle.load_allowlist (allowlist_file host repo allowlist_dir DependencyCycle.ALLOWLIST) = Return allowlist \<and>
          lists_cycles (dependency_graph strip_lua_comments_and_strings is_unmasked_range (rp_tree repo)) allowlist
            (base_of env git enforce_base DependencyCycle.ALLOWLIST DependencyCycle.parse_allowlist_lines)))"
proof -
  let ?g = "dependency_graph strip_lua_comments_and_strings is_unmasked_range (rp_tree repo)"
  obtain cycles where c: "current_cycles strip_lua_comments_and_strings is_unmasked_range (rp_tree repo) = Some cycles"
    and exact: "fset cycles = {canonical_cycle (fset_of_list p) | p. simple_cycle ?g p}"
    using cycles_from_graph_exact [OF dependency_graph_wf [of strip_lua_comments_and_strings is_unmasked_range "rp_tree repo"]]
    by (auto simp: current_cycles_def)
  have eq: "allowlist = cycles \<longleftrightarrow> fset allowlist = {canonical_cycle (fset_of_list p) | p. simple_cycle ?g p}" for allowlist
    unfolding exact [symmetric] by (simp add: fset_inject)
  show ?thesis
    unfolding check_dependency_cycle_def c lists_cycles_def eq [symmetric] Let_def
    by (auto simp: bindR_eq_Inr cycle_messages_Nil)
qed

section \<open>What the exit status says\<close>

definition is_violation :: "check_message \<Rightarrow> bool" where
  "is_violation message = (case message of Violation _ \<Rightarrow> True | ConfigurationFailure _ \<Rightarrow> False)"

definition message_text :: "check_message \<Rightarrow> string" where
  "message_text message = (case message of Violation m \<Rightarrow> m | ConfigurationFailure m \<Rightarrow> m)"

lemma routed_extend_eq:
  "routed_extend rv messages =
     \<lparr>rv_violations = rv_violations rv @ map message_text (filter is_violation messages),
      rv_configuration_failures = rv_configuration_failures rv @ map message_text (filter (\<lambda>m. \<not> is_violation m) messages)\<rparr>"
proof (induction messages arbitrary: rv)
  case (Cons m messages)
  then show ?case by (cases m) (simp_all add: routed_extend_def routed_append_def is_violation_def message_text_def)
qed (simp add: routed_extend_def)

definition exit_status_of :: "run_outcome \<Rightarrow> int option" where
  "exit_status_of outcome =
     (case outcome of
        Inr (messages, _) \<Rightarrow> Some (if list_ex is_violation messages then 10 else if messages \<noteq> [] then 11 else 0)
      | Inl (GitInvocationFailure fault_class _) \<Rightarrow> Some (if fault_class = TOOLCHAIN then 12 else 13)
      | Inl _ \<Rightarrow> None)"

text \<open>
  The exit status names the outcome: 0 exactly if the checks ran and left no message, 10 if there is a violation,
  11 if only the configuration failed, 12 or 13 if git could not be started; any other exception is not caught.
\<close>

theorem repo_check_exit:
  "(case repo_check_main str_failure outcome of Inl _ \<Rightarrow> None | Inr r \<Rightarrow> Some (er_status r)) = exit_status_of outcome"
proof (cases outcome)
  case (Inl e)
  then show ?thesis by (cases e) (simp_all add: repo_check_main_def exit_status_of_def TOOLCHAIN_EXIT_def INFRASTRUCTURE_EXIT_def)
next
  case (Inr x)
  obtain messages warnings where x: "x = (messages, warnings)" by (cases x)
  have none: "filter is_violation messages = [] \<longleftrightarrow> \<not> list_ex is_violation messages"
    "filter is_violation messages = [] \<Longrightarrow> filter (\<lambda>m. \<not> is_violation m) messages = messages"
    by (auto simp: filter_empty_conv list_ex_iff filter_id_conv)
  then show ?thesis
    by (auto simp: Inr x repo_check_main_def exit_status_of_def finished_def routed_extend_eq VIOLATIONS_EXIT_def CONFIGURATION_EXIT_def Let_def)
qed

end
