(* ===== verification/ShellOut.thy ===== *)
theory ShellOut
  imports ProducerLiveness
begin

text \<open>
  \<^verbatim>\<open>scripts/check_repo_shell_out_to_self.py\<close>: package code that runs the binary of the framework. Names that are bound
  to the binary, to its argument vectors and to the functions that execute are collected until nothing is added;
  then every call is inspected.

  Shown here: the scans end, the collection ends, and the names of executing functions are exactly the ones that
  assignments lead to.
\<close>

section \<open>Scanning expressions\<close>

definition ALLOWLIST :: string where "ALLOWLIST = ''migration/shell-out-to-self.allowlist''"
definition ENGINE_BASE_NAMES :: "string fset" where "ENGINE_BASE_NAMES = {|''BIN'', ''bin'', ''framework_bin''|}"
definition ARGV_EXEC_NAMES :: "string fset" where "ARGV_EXEC_NAMES = {|''exec_argv'', ''run_argv''|}"
definition SYNC_EXEC_NAMES :: "string fset" where "SYNC_EXEC_NAMES = {|''exec_sync'', ''run_sync''|}"

definition EXEC_CALL_RE :: regex where
  "EXEC_CALL_RE =
     rseq [RWordB, RGroup ''name'' (ralt [rlit ''exec_argv'', rlit ''exec_sync'', rlit ''run_argv'', rlit ''run_sync'']), rblank, rchar CHR ''('']"

definition ANY_CALL_RE :: regex where
  "ANY_CALL_RE = rseq [RWordB, RGroup ''name'' RIDENT, rblank, rchar CHR ''('']"

definition ASSIGN_RE :: regex where
  "ASSIGN_RE = rseq [RWordB, ropt (RSeq (rlit ''local'') (rplus rspace)), RGroup ''name'' RIDENT, rblank, rchar CHR ''='']"

definition skip_ws :: "string \<Rightarrow> nat \<Rightarrow> nat" where
  "skip_ws source cursor = cursor + length (takeWhile is_space (drop cursor source))"

function matching_from :: "string \<Rightarrow> char \<Rightarrow> char \<Rightarrow> int \<Rightarrow> nat \<Rightarrow> nat" where
  "matching_from source opener closer depth cursor =
     (if length source \<le> cursor then length source
      else
        (case literal_span_at source cursor True False of
           Some literal \<Rightarrow> matching_from source opener closer depth (sp_end literal)
         | None \<Rightarrow>
             (if source ! cursor = opener then matching_from source opener closer (depth + 1) (Suc cursor)
              else if source ! cursor = closer
              then (if depth = 1 then Suc cursor else matching_from source opener closer (depth - 1) (Suc cursor))
              else matching_from source opener closer depth (Suc cursor))))"
  by pat_completeness auto
termination
  by (relation "measure (\<lambda>(source, opener, closer, depth, cursor). length source - cursor)") (auto dest: literal_span_at_moves)

declare matching_from.simps [simp del]

definition find_matching :: "string \<Rightarrow> nat \<Rightarrow> char \<Rightarrow> char \<Rightarrow> nat" where
  "find_matching source start opener closer = matching_from source opener closer 0 start"

definition opens :: "char \<Rightarrow> bool" where "opens c \<longleftrightarrow> c \<in> {CHR ''('', CHR ''{'', CHR ''[''}"
definition shuts :: "char \<Rightarrow> bool" where "shuts c \<longleftrightarrow> c \<in> {CHR '')'', CHR ''}'', CHR '']''}"

function expression_from :: "string \<Rightarrow> nat \<Rightarrow> nat \<Rightarrow> nat" where
  "expression_from source depth cursor =
     (if length source \<le> cursor then cursor
      else
        (case literal_span_at source cursor True False of
           Some literal \<Rightarrow> expression_from source depth (sp_end literal)
         | None \<Rightarrow>
             (if opens (source ! cursor) then expression_from source (Suc depth) (Suc cursor)
              else if shuts (source ! cursor)
              then (if depth = 0 then cursor else expression_from source (depth - 1) (Suc cursor))
              else if depth = 0 \<and> source ! cursor \<in> {CHR '','', LF} then cursor
              else expression_from source depth (Suc cursor))))"
  by pat_completeness auto
termination
  by (relation "measure (\<lambda>(source, depth, cursor). length source - cursor)") (auto dest: literal_span_at_moves)

declare expression_from.simps [simp del]

definition expression_end :: "string \<Rightarrow> nat \<Rightarrow> nat" where
  "expression_end source start =
     (let cursor = skip_ws source start in
      if length source \<le> cursor then cursor
      else if source ! cursor = CHR ''{'' then find_matching source cursor CHR ''{'' CHR ''}''
      else expression_from source 0 cursor)"

definition parse_literal_content :: "string \<Rightarrow> string option" where
  "parse_literal_content expr =
     (let stripped = strip expr in
      if stripped = [] then None else map_option (\<lambda>literal. span_content literal stripped) (literal_span_at stripped 0 True False))"

text \<open>\<open>text[1:-1]\<close>\<close>

definition inner :: "string \<Rightarrow> string" where "inner s = butlast (drop 1 s)"

lemma length_strip: "length (strip s) \<le> length s"
proof -
  have "length (rstrip t) \<le> length t" for t using length_dropWhile_le [of is_space "rev t"] by (simp add: rstrip_def)
  then show ?thesis unfolding strip_def lstrip_def using length_dropWhile_le [of is_space s] order_trans by blast
qed

function outer_parens :: "string \<Rightarrow> string" where
  "outer_parens s =
     (if startswith s ''('' \<and> find_matching s 0 CHR ''('' CHR '')'' = length s then outer_parens (strip (inner s)) else s)"
  by pat_completeness auto
termination
proof (relation "measure length", goal_cases)
  case (2 s)
  then have "length (inner s) < length s" by (cases s) (auto simp: inner_def)
  with length_strip [of "inner s"] show ?case by simp
qed simp

declare outer_parens.simps [simp del]

definition strip_outer_parens :: "string \<Rightarrow> string" where "strip_outer_parens expr = outer_parens (strip expr)"

text \<open>The arguments, with the characters of the one that is read so far in \<open>start\<close> to \<open>cursor\<close>.\<close>

function args_from :: "string \<Rightarrow> nat \<Rightarrow> nat \<Rightarrow> nat \<Rightarrow> string list" where
  "args_from source start depth cursor =
     (if length source \<le> cursor then [drop start source]
      else
        (case literal_span_at source cursor True False of
           Some literal \<Rightarrow> args_from source start depth (sp_end literal)
         | None \<Rightarrow>
             (if opens (source ! cursor) then args_from source start (Suc depth) (Suc cursor)
              else if shuts (source ! cursor) then args_from source start (depth - 1) (Suc cursor)
              else if source ! cursor = CHR '','' \<and> depth = 0
              then py_slice source start cursor # args_from source (Suc cursor) depth (Suc cursor)
              else args_from source start depth (Suc cursor))))"
  by pat_completeness auto
termination
  by (relation "measure (\<lambda>(source, start, depth, cursor). length source - cursor)") (auto dest: literal_span_at_moves)

declare args_from.simps [simp del]

definition split_top_level_args :: "string \<Rightarrow> string list" where "split_top_level_args source = args_from source 0 0 0"

section \<open>Tables\<close>

definition rrest :: "string \<Rightarrow> regex" where "rrest g = RSeq (RGroup g (rstar (RSet (\<lambda>_. True)))) REos"

definition BARE_FIELD_RE :: regex where
  "BARE_FIELD_RE = rseq [RBol, RGroup ''key'' RIDENT, rblank, rchar CHR ''='', rrest ''value'']"

definition INDEXED_FIELD_RE :: regex where
  "INDEXED_FIELD_RE =
     rseq [RBol, rchar CHR ''['', rblank, RGroup ''quote'' (RSet quote_char), RGroup ''key'' RIDENT, RBackref ''quote'', rblank, rchar CHR '']'',
       rblank, rchar CHR ''='', rrest ''value'']"

definition FIRST_FIELD_RE :: regex where
  "FIRST_FIELD_RE =
     rseq [RBol, rchar CHR ''['', rblank, rchar CHR ''1'', rblank, rchar CHR '']'', rblank, rchar CHR ''='', rrest ''value'']"

definition KEYED_RE :: regex where "KEYED_RE = rseq [RBol, RIDENT, rblank, rchar CHR ''='']"

text \<open>The trimmed entries of an expression that is a table.\<close>

definition table_entries :: "string \<Rightarrow> string list option" where
  "table_entries expr =
     (let source = strip_outer_parens expr; start = skip_ws source 0 in
      if length source \<le> start \<or> source ! start \<noteq> CHR ''{'' then None
      else
        let body = py_slice source (start + 1) (find_matching source start CHR ''{'' CHR ''}'' - 1) in
        Some (filter (\<lambda>candidate. candidate \<noteq> []) (map strip (split_top_level_args body))))"

definition field_value :: "string \<Rightarrow> string \<Rightarrow> string option" where
  "field_value field candidate =
     (let given = (\<lambda>r. case re_match r candidate of
         None \<Rightarrow> None
       | Some found \<Rightarrow> if m_group found ''key'' = Some field then Some (strip (group_or_empty found ''value'')) else None) in
      case given BARE_FIELD_RE of Some v \<Rightarrow> Some v | None \<Rightarrow> given INDEXED_FIELD_RE)"

fun first_some :: "('a \<Rightarrow> 'b option) \<Rightarrow> 'a list \<Rightarrow> 'b option" where
  "first_some f [] = None"
| "first_some f (x # xs) = (case f x of None \<Rightarrow> first_some f xs | Some y \<Rightarrow> Some y)"

definition top_level_table_field_expr :: "string \<Rightarrow> string \<Rightarrow> string option" where
  "top_level_table_field_expr expr field =
     (case table_entries expr of None \<Rightarrow> None | Some entries \<Rightarrow> first_some (field_value field) entries)"

definition head_value :: "string \<Rightarrow> string option" where
  "head_value candidate =
     (case re_match FIRST_FIELD_RE candidate of
        Some found \<Rightarrow> Some (strip (group_or_empty found ''value''))
      | None \<Rightarrow> if re_match KEYED_RE candidate \<noteq> None \<or> startswith candidate ''['' then None else Some candidate)"

definition table_head_expr :: "string \<Rightarrow> string option" where
  "table_head_expr expr = (case table_entries expr of None \<Rightarrow> None | Some entries \<Rightarrow> first_some head_value entries)"

section \<open>Mentions of the binary\<close>

definition BIN_VARIABLE_RE :: regex where
  "BIN_VARIABLE_RE = RSeq (rchar CHR ''$'') (RAlt (rseq [rchar CHR ''{'', rlit ''BIN'', rchar CHR ''}'']) (RSeq (rlit ''BIN'') RWordB))"

definition shell_break :: "char \<Rightarrow> bool" where
  "shell_break c \<longleftrightarrow> is_space c \<or> c \<in> {CHR '';'', CHR ''&'', CHR ''|'', CHR ''('', CHR '')''}"

definition FRAMEWORK_WORD_RE :: regex where
  "FRAMEWORK_WORD_RE =
     rseq [RAlt RBol (RSet shell_break), ropt (RSeq (rstar (RSet (\<lambda>c. \<not> is_space c))) (rchar CHR ''/'')), rlit ''fkst-framework'',
       RAlt REol (RSet shell_break)]"

definition literal_is_engine_binary :: "string \<Rightarrow> bool" where
  "literal_is_engine_binary content \<longleftrightarrow>
     (let head = (case split_ws content of [] \<Rightarrow> content | token # _ \<Rightarrow> token) in
      re_search BIN_VARIABLE_RE content \<noteq> None \<or> re_search FRAMEWORK_WORD_RE content \<noteq> None \<or>
      head = ''fkst-framework'' \<or> endswith head ''/fkst-framework'' \<or> head \<in> {''$BIN'', ''${BIN}''} \<or>
      content = ''fkst-framework'' \<or> endswith content ''/fkst-framework'')"

definition GETENV_BIN_RE :: regex where
  "GETENV_BIN_RE =
     rseq [RWordB, rlit ''os'', rblank, rchar CHR ''.'', rblank, rlit ''getenv'', rblank, rchar CHR ''('', rblank,
       RSet quote_char, rlit ''BIN'', RSet quote_char, rblank, rchar CHR '')'']"

definition expr_mentions_engine :: "string \<Rightarrow> string fset \<Rightarrow> bool" where
  "expr_mentions_engine expr engine_vars \<longleftrightarrow>
     (let source = strip_outer_parens expr in
      case parse_literal_content source of
        Some content \<Rightarrow> literal_is_engine_binary content
      | None \<Rightarrow>
          contains ''fkst-framework'' source \<or> contains ''$BIN'' source \<or> contains (''${BIN}'') source \<or>
          re_search GETENV_BIN_RE source \<noteq> None \<or>
          fBex engine_vars (\<lambda>name. re_search (rseq [RWordB, rlit name, RWordB]) source \<noteq> None))"

section \<open>Names collected until nothing is added\<close>

text \<open>
  Two sets of names; what the expression of an assignment adds its name to; a pass over all assignments; and passes
  until one adds nothing.
\<close>

type_synonym vars = "string fset \<times> string fset"

definition mark :: "(string \<Rightarrow> vars \<Rightarrow> bool \<times> bool) \<Rightarrow> string \<times> string \<Rightarrow> vars \<Rightarrow> vars" where
  "mark kinds assignment st =
     (case assignment of (name, expr) \<Rightarrow> case kinds expr st of (a, b) \<Rightarrow>
        (if a then finsert name (fst st) else fst st, if b then finsert name (snd st) else snd st))"

definition names_of :: "(string \<times> string) list \<Rightarrow> string fset" where "names_of assignments = fset_of_list (map fst assignments)"

lemma fold_mark_grows:
  "fst st |\<subseteq>| fst (fold (mark kinds) assignments st)" "snd st |\<subseteq>| snd (fold (mark kinds) assignments st)"
  "fst (fold (mark kinds) assignments st) |\<subseteq>| fst st |\<union>| names_of assignments"
  "snd (fold (mark kinds) assignments st) |\<subseteq>| snd st |\<union>| names_of assignments"
proof (induction assignments arbitrary: st)
  case (Cons a assignments)
  have one: "fst st |\<subseteq>| fst (mark kinds a st)" "snd st |\<subseteq>| snd (mark kinds a st)"
    "fst (mark kinds a st) |\<subseteq>| finsert (fst a) (fst st)" "snd (mark kinds a st) |\<subseteq>| finsert (fst a) (snd st)" for st
    by (auto simp: mark_def split: prod.split)
  {
    case (1 st)
    show ?case using order_trans [OF one(1) Cons(1)] by simp
  next
    case (2 st)
    show ?case using order_trans [OF one(2) Cons(2)] by simp
  next
    case (3 st)
    show ?case using Cons(3) [of "mark kinds a st"] one(3) by (simp add: names_of_def) blast
  next
    case (4 st)
    show ?case using Cons(4) [of "mark kinds a st"] one(4) by (simp add: names_of_def) blast
  }
qed simp_all

function saturate :: "(string \<Rightarrow> vars \<Rightarrow> bool \<times> bool) \<Rightarrow> (string \<times> string) list \<Rightarrow> vars \<Rightarrow> vars" where
  "saturate kinds assignments st =
     (let st' = fold (mark kinds) assignments st in if st' = st then st else saturate kinds assignments st')"
  by pat_completeness auto
termination
proof (relation "measure (\<lambda>(kinds, assignments, st). fcard (names_of assignments |-| fst st) + fcard (names_of assignments |-| snd st))", goal_cases)
  case (2 kinds assignments st st')
  let ?n = "names_of assignments"
  have sub: "fst st |\<subseteq>| fst st'" "snd st |\<subseteq>| snd st'" "fst st' |\<subseteq>| fst st |\<union>| ?n" "snd st' |\<subseteq>| snd st |\<union>| ?n"
    using fold_mark_grows [where st = st and kinds = kinds and assignments = assignments] 2(1) by simp_all
  have le: "fcard (?n |-| fst st') \<le> fcard (?n |-| fst st)" "fcard (?n |-| snd st') \<le> fcard (?n |-| snd st)"
    using sub by (auto intro!: fcard_mono)
  from 2(2) consider "fst st \<noteq> fst st'" | "snd st \<noteq> snd st'" by (auto simp: prod_eq_iff)
  then have "fcard (?n |-| fst st') < fcard (?n |-| fst st) \<or> fcard (?n |-| snd st') < fcard (?n |-| snd st)"
  proof cases
    case 1
    then have "?n |-| fst st' |\<subset>| ?n |-| fst st" using sub by auto
    then show ?thesis by (simp add: pfsubset_fcard_mono)
  next
    case 2
    then have "?n |-| snd st' |\<subset>| ?n |-| snd st" using sub by auto
    then show ?thesis by (simp add: pfsubset_fcard_mono)
  qed
  with le show ?case by auto
qed simp

declare saturate.simps [simp del]

section \<open>Bindings of a source\<close>

text \<open>Each assignment as its name and the trimmed expression after it.\<close>

definition assignments_of :: "string \<Rightarrow> (string \<times> string) list" where
  "assignments_of source =
     (let stripped = strip_lua_comments source; masked = strip_lua_comments_and_strings stripped in
      filter (\<lambda>(name, expr). expr \<noteq> [])
        (map (\<lambda>found. (group_or_empty found ''name'', strip (py_slice stripped (m_end found) (expression_end stripped (m_end found)))))
          (re_finditer ASSIGN_RE masked)))"

text \<open>Variables that hold the binary, and variables that hold an argument vector with the binary at its head.\<close>

definition engine_kinds :: "string \<Rightarrow> vars \<Rightarrow> bool \<times> bool" where
  "engine_kinds expr st =
     (let of_head = (case table_head_expr expr of None \<Rightarrow> False | Some head \<Rightarrow> expr_mentions_engine head (fst st)) in
      (\<not> of_head \<and> expr_mentions_engine expr (fst st), of_head))"

definition collect_engine_bindings :: "string \<Rightarrow> vars" where
  "collect_engine_bindings source = saturate engine_kinds (assignments_of source) (ENGINE_BASE_NAMES, {||})"

definition argv_expr_uses_engine_head :: "string \<Rightarrow> string fset \<Rightarrow> string fset \<Rightarrow> bool" where
  "argv_expr_uses_engine_head expr engine_vars argv_vars \<longleftrightarrow>
     (let source = strip_outer_parens expr in
      source |\<in>| argv_vars \<or> fullmatches RIDENT source \<and> source |\<in>| engine_vars \<or>
      (case table_head_expr source of None \<Rightarrow> False | Some head \<Rightarrow> expr_mentions_engine head engine_vars))"

definition sync_expr_uses_engine_head :: "string \<Rightarrow> string fset \<Rightarrow> bool" where
  "sync_expr_uses_engine_head expr engine_vars \<longleftrightarrow> expr_mentions_engine expr engine_vars"

definition call_arg :: "string \<Rightarrow> nat \<Rightarrow> string" where
  "call_arg call_args i = (let args = split_top_level_args call_args in if i < length args then strip (args ! i) else [])"

definition first_call_arg :: "string \<Rightarrow> string" where "first_call_arg call_args = call_arg call_args 0"

definition call_option_field :: "string \<Rightarrow> string \<Rightarrow> string option" where
  "call_option_field call_args field = top_level_table_field_expr (first_call_arg call_args) field"

definition exec_arg :: "string \<Rightarrow> string \<Rightarrow> string option" where
  "exec_arg field expr =
     (let source = strip_outer_parens expr in
      if source = [] then None
      else Some (case top_level_table_field_expr source field of None \<Rightarrow> source | Some v \<Rightarrow> if v = [] then source else v))"

definition argv_expr_from_exec_arg :: "string \<Rightarrow> string option" where "argv_expr_from_exec_arg expr = exec_arg ''argv'' expr"
definition sync_expr_from_exec_arg :: "string \<Rightarrow> string option" where "sync_expr_from_exec_arg expr = exec_arg ''cmd'' expr"

text \<open>The last part of the name that an expression is.\<close>

definition function_name :: "string \<Rightarrow> string" where
  "function_name expr = after_last (CHR ''.'') (re_sub (rplus rspace) [] (strip_outer_parens expr))"

definition exec_function_kinds :: "string \<Rightarrow> vars \<Rightarrow> bool \<times> bool" where
  "exec_function_kinds expr st = (function_name expr |\<in>| fst st, function_name expr |\<in>| snd st)"

definition collect_exec_function_bindings :: "string \<Rightarrow> vars" where
  "collect_exec_function_bindings source = saturate exec_function_kinds (assignments_of source) (ARGV_EXEC_NAMES, SYNC_EXEC_NAMES)"

section \<open>Calls\<close>

definition argv_site :: "string \<Rightarrow> nat \<Rightarrow> vars \<Rightarrow> string option \<Rightarrow> string list" where
  "argv_site relpath line engine argv_expr =
     (case argv_expr of None \<Rightarrow> []
      | Some expr \<Rightarrow>
          if argv_expr_uses_engine_head expr (fst engine) (snd engine)
          then [relpath @ '':line='' @ str_int (int line) @ '':argv:engine-binary''] else [])"

definition sync_site :: "string \<Rightarrow> nat \<Rightarrow> vars \<Rightarrow> string option \<Rightarrow> string list" where
  "sync_site relpath line engine cmd_expr =
     (case cmd_expr of None \<Rightarrow> []
      | Some expr \<Rightarrow>
          if sync_expr_uses_engine_head expr (fst engine)
          then [relpath @ '':line='' @ str_int (int line) @ '':sync:engine-binary''] else [])"

definition call_args_of :: "string \<Rightarrow> rematch \<Rightarrow> string" where
  "call_args_of stripped found =
     py_slice stripped (m_end found) (find_matching stripped (m_end found - 1) CHR ''('' CHR '')'' - 1)"

definition direct_call_sites :: "string \<Rightarrow> nat \<Rightarrow> vars \<Rightarrow> string \<Rightarrow> string \<Rightarrow> string list" where
  "direct_call_sites relpath line engine name call_args =
     (if name |\<in>| ARGV_EXEC_NAMES then argv_site relpath line engine (argv_expr_from_exec_arg (first_call_arg call_args))
      else if name |\<in>| SYNC_EXEC_NAMES then sync_site relpath line engine (sync_expr_from_exec_arg (first_call_arg call_args))
      else [])"

text \<open>The first of two lists of sites that is not empty.\<close>

definition or_else :: "string list \<Rightarrow> string list \<Rightarrow> string list" where "or_else xs ys = (if xs \<noteq> [] then xs else ys)"

definition protected_call_sites :: "string \<Rightarrow> nat \<Rightarrow> vars \<Rightarrow> vars \<Rightarrow> string \<Rightarrow> string list" where
  "protected_call_sites relpath line engine exec call_args =
     (let (argv, sync) = exec_function_kinds (first_call_arg call_args) exec;
          argv_at = (\<lambda>i. argv_site relpath line engine (argv_expr_from_exec_arg (call_arg call_args i)));
          sync_at = (\<lambda>i. sync_site relpath line engine (sync_expr_from_exec_arg (call_arg call_args i))) in
      or_else (if argv then or_else (argv_at 1) (argv_at 2) else []) (if sync then or_else (sync_at 1) (sync_at 2) else []))"

definition any_call_sites :: "string \<Rightarrow> nat \<Rightarrow> vars \<Rightarrow> vars \<Rightarrow> string \<Rightarrow> string \<Rightarrow> string list" where
  "any_call_sites relpath line engine exec name call_args =
     (if name \<in> {''pcall'', ''xpcall''} then protected_call_sites relpath line engine exec call_args
      else
        let argv = (if name |\<in>| fst exec then argv_site relpath line engine (argv_expr_from_exec_arg (first_call_arg call_args)) else []) in
        if argv \<noteq> [] then argv
        else if name |\<in>| snd exec then sync_site relpath line engine (sync_expr_from_exec_arg (first_call_arg call_args))
        else
          argv_site relpath line engine (call_option_field call_args ''argv'') @
          sync_site relpath line engine (call_option_field call_args ''cmd''))"

definition exec_call_sites :: "string \<Rightarrow> string \<Rightarrow> vars \<Rightarrow> vars \<Rightarrow> string fset" where
  "exec_call_sites relpath source engine exec =
     (let stripped = strip_lua_comments source; masked = strip_lua_comments_and_strings stripped;
          line_of = (\<lambda>found. count_char source LF 0 (m_start found) + 1) in
      fset_of_list
        (concat (map (\<lambda>found. direct_call_sites relpath (line_of found) engine (group_or_empty found ''name'') (call_args_of stripped found))
           (re_finditer EXEC_CALL_RE masked)) @
         concat (map (\<lambda>found. any_call_sites relpath (line_of found) engine exec (group_or_empty found ''name'') (call_args_of stripped found))
           (re_finditer ANY_CALL_RE masked))))"

definition source_sites :: "string \<Rightarrow> string \<Rightarrow> string fset" where
  "source_sites relpath source =
     exec_call_sites relpath source (collect_engine_bindings source) (collect_exec_function_bindings source)"

definition shell_out_sites :: "repo \<Rightarrow> string fset" where
  "shell_out_sites repo =
     fold (|\<union>|)
       (map (\<lambda>path. source_sites (rel repo path) (source_of (rp_tree repo) path))
         (concat (map (rglob_lua (rp_tree repo)) (package_dirs repo)))) {||}"

section \<open>The ratchet\<close>

definition parse_shell_out_allowlist :: "string list \<Rightarrow> string fset result" where
  "parse_shell_out_allowlist lines = parse_dev_allowlist_lines lines"

definition ratchet_messages :: "string fset \<Rightarrow> string fset \<Rightarrow> string list" where
  "ratchet_messages current allowlist =
     map (\<lambda>site. site @ '' shells out to the framework binary; use an in-process SDK primitive instead or list pre-existing debt in '' @ ALLOWLIST)
       (sorted_list_of_fset (current |-| allowlist)) @
     map (\<lambda>site. site @ '' listed in '' @ ALLOWLIST @ '' but no longer detected; prune the stale entry'')
       (sorted_list_of_fset (allowlist |-| current))"

definition check_shell_out_to_self_ratchet :: "host_file \<Rightarrow> repo \<Rightarrow> string option \<Rightarrow> check_message list result" where
  "check_shell_out_to_self_ratchet host repo allowlist_dir =
     bindR (load_allowlist_with parse_shell_out_allowlist
         (case allowlist_dir of None \<Rightarrow> tree_read (rp_tree repo) ALLOWLIST | Some dir \<Rightarrow> host (dir @ ''/'' @ path_name ALLOWLIST))) (\<lambda>allowlist.
       Return (map (add ''G-SHELL-OUT-TO-SELF'') (map Violation (ratchet_messages (shell_out_sites repo) allowlist))))"

section \<open>What is collected\<close>

text \<open>A state that a pass does not change; the passes reach one.\<close>

lemma saturate_fixed: "fold (mark kinds) assignments (saturate kinds assignments st) = saturate kinds assignments st"
proof (induction kinds assignments st rule: saturate.induct)
  case (1 kinds assignments st)
  show ?case
  proof (cases "fold (mark kinds) assignments st = st")
    case True
    then show ?thesis by (subst (1 2) saturate.simps) simp
  next
    case False
    with "1.IH" [OF refl] show ?thesis by (subst (1 2) saturate.simps) (simp add: Let_def)
  qed
qed

lemma saturate_preserves:
  assumes "P st" "\<And>a st. a \<in> set assignments \<Longrightarrow> P st \<Longrightarrow> P (mark kinds a st)"
  shows "P (saturate kinds assignments st)"
  using assms
proof (induction kinds assignments st rule: saturate.induct)
  case (1 kinds assignments st)
  have fold: "P (fold (mark kinds) as st)" if "set as \<subseteq> set assignments" "P st" for as st
    using that
  proof (induction as arbitrary: st)
    case (Cons a as)
    from Cons.prems have "P (mark kinds a st)" by (intro "1.prems"(2)) auto
    with Cons show ?case by simp
  qed simp
  show ?case
  proof (cases "fold (mark kinds) assignments st = st")
    case True
    then show ?thesis using "1.prems"(1) by (subst saturate.simps) simp
  next
    case False
    then show ?thesis using "1.IH" [OF refl False fold [OF subset_refl "1.prems"(1)] "1.prems"(2)]
      by (subst saturate.simps) (simp add: Let_def)
  qed
qed

text \<open>A state that a pass does not change is changed by no assignment.\<close>

lemma fixed_marks:
  assumes "fold (mark kinds) assignments st = st" "a \<in> set assignments"
  shows "mark kinds a st = st"
  using assms
proof (induction assignments)
  case (Cons b assignments)
  have grows: "fst st |\<subseteq>| fst (mark kinds b st)" "snd st |\<subseteq>| snd (mark kinds b st)" using fold_mark_grows(1,2) [where st = st and kinds = kinds and assignments = "[b]"] by simp_all
  have "fst (mark kinds b st) |\<subseteq>| fst st" "snd (mark kinds b st) |\<subseteq>| snd st"
    using fold_mark_grows(1,2) [where st = "mark kinds b st" and kinds = kinds and assignments = assignments] Cons.prems(1) by simp_all
  with grows have b: "mark kinds b st = st" by (auto simp: prod_eq_iff)
  with Cons show ?case by auto
qed simp

text \<open>An assignment leads from the name of a function to the name it gives to it.\<close>

definition alias_edges :: "string \<Rightarrow> (string \<times> string) set" where
  "alias_edges source = {(function_name expr, name) | name expr. (name, expr) \<in> set (assignments_of source)}"

lemma exec_mark:
  "mark exec_function_kinds (name, expr) st =
     (if function_name expr |\<in>| fst st then finsert name (fst st) else fst st,
      if function_name expr |\<in>| snd st then finsert name (snd st) else snd st)"
  by (simp add: mark_def exec_function_kinds_def)

lemma saturate_initial: "fst st |\<subseteq>| fst (saturate kinds assignments st) \<and> snd st |\<subseteq>| snd (saturate kinds assignments st)"
  by (rule saturate_preserves) (auto simp: mark_def split: prod.splits)

lemma exec_bindings_closure:
  "fset (fst (collect_exec_function_bindings source)) = (alias_edges source)\<^sup>* `` fset ARGV_EXEC_NAMES"
  "fset (snd (collect_exec_function_bindings source)) = (alias_edges source)\<^sup>* `` fset SYNC_EXEC_NAMES"
proof -
  let ?as = "assignments_of source" and ?E = "alias_edges source" and ?st = "collect_exec_function_bindings source"
  let ?A = "?E\<^sup>* `` fset ARGV_EXEC_NAMES" and ?S = "?E\<^sup>* `` fset SYNC_EXEC_NAMES"
  have step: "name \<in> ?E\<^sup>* `` X" if "(name, expr) \<in> set ?as" "function_name expr \<in> ?E\<^sup>* `` X" for name expr X
  proof -
    have "(function_name expr, name) \<in> ?E" using that(1) by (auto simp: alias_edges_def)
    with that(2) show ?thesis by (auto intro: rtrancl_into_rtrancl)
  qed
  have "fset (fst ?st) \<subseteq> ?A \<and> fset (snd ?st) \<subseteq> ?S"
    unfolding collect_exec_function_bindings_def
  proof (rule saturate_preserves [where P = "\<lambda>st. fset (fst st) \<subseteq> ?A \<and> fset (snd st) \<subseteq> ?S"])
    fix a st
    assume st: "a \<in> set ?as" "fset (fst st) \<subseteq> ?A \<and> fset (snd st) \<subseteq> ?S"
    show "fset (fst (mark exec_function_kinds a st)) \<subseteq> ?A \<and> fset (snd (mark exec_function_kinds a st)) \<subseteq> ?S"
    proof -
      obtain name expr where "a = (name, expr)" by fastforce
      moreover from this st have "function_name expr |\<in>| fst st \<Longrightarrow> name \<in> ?A" "function_name expr |\<in>| snd st \<Longrightarrow> name \<in> ?S"
        using step by blast+
      ultimately show ?thesis using st(2) by (simp add: exec_mark)
    qed
  qed auto
  moreover have closed: "mark exec_function_kinds a ?st = ?st" if "a \<in> set ?as" for a
    using that unfolding collect_exec_function_bindings_def by (intro fixed_marks [OF saturate_fixed])
  have init: "fset ARGV_EXEC_NAMES \<subseteq> fset (fst ?st)" "fset SYNC_EXEC_NAMES \<subseteq> fset (snd ?st)"
    using saturate_initial [of "(ARGV_EXEC_NAMES, SYNC_EXEC_NAMES)" exec_function_kinds ?as]
    by (auto simp: collect_exec_function_bindings_def)
  have edges: "n \<in> fset (fst ?st)" if "m \<in> fset (fst ?st)" "(m, n) \<in> ?E" for m n
    using that closed by (force simp: alias_edges_def exec_mark prod_eq_iff split: if_split_asm)
  have edges': "n \<in> fset (snd ?st)" if "m \<in> fset (snd ?st)" "(m, n) \<in> ?E" for m n
    using that closed by (force simp: alias_edges_def exec_mark prod_eq_iff split: if_split_asm)
  have "n \<in> fset (fst ?st)" if "(m, n) \<in> ?E\<^sup>*" "m \<in> fset ARGV_EXEC_NAMES" for m n
    using that(1) by (induction rule: rtrancl_induct) (use that(2) init edges in auto)
  moreover have "n \<in> fset (snd ?st)" if "(m, n) \<in> ?E\<^sup>*" "m \<in> fset SYNC_EXEC_NAMES" for m n
    using that(1) by (induction rule: rtrancl_induct) (use that(2) init edges' in auto)
  ultimately show "fset (fst ?st) = ?A" "fset (snd ?st) = ?S" by blast+
qed

text \<open>
  C37. The passes over the assignments end, and collect exactly the names that chains of assignments lead to from the
  functions that execute argument vectors, or command lines, whatever the order of the assignments.
\<close>

theorem exec_bindings_exact:
  "fset (fst (collect_exec_function_bindings source)) = (alias_edges source)\<^sup>* `` fset ARGV_EXEC_NAMES \<and>
   fset (snd (collect_exec_function_bindings source)) = (alias_edges source)\<^sup>* `` fset SYNC_EXEC_NAMES"
  using exec_bindings_closure by blast

lemma shell_out_messages_Nil: "ratchet_messages current allowlist = [] \<longleftrightarrow> current = allowlist"
  unfolding ratchet_messages_def append_is_Nil_conv map_is_Nil_conv sorted_list_of_fset_Nil fminus_empty by auto

end
