(* ===== verification/BotLogin.thy ===== *)
theory BotLogin
  imports TestShape ShrinkOnly
begin

text \<open>
  \<^verbatim>\<open>scripts/check_repo_bot_login_mediation.py\<close>: the ratchet of decisions about logins of bots. Assignments are followed
  through the lexical scopes of a Lua source, so that a comparison and a membership test are judged by what the names
  in them are bound to.

  Shown here: the stack of scopes implements an environment with blocks, what stands in a string or comment has no
  influence on the sites, and what it means that the ratchet prints nothing.
\<close>

section \<open>Patterns\<close>

definition ALLOWLIST :: string where "ALLOWLIST = ''migration/bot-login-mediation.allowlist''"
definition CANONICAL_HELPER_PATH :: string where "CANONICAL_HELPER_PATH = ''libraries/forge/strings.lua''"

definition LEGACY_NORMALIZER_RE :: regex where
  "LEGACY_NORMALIZER_RE = rseq [RWordB, RAlt (rlit ''strip_bot_login_suffix'') (rlit ''canon_login''), RWordB]"

definition COMPARISON_RE :: regex where "COMPARISON_RE = RAlt (rlit ''=='') (rlit ''~='')"

definition dotted_char :: "char \<Rightarrow> bool" where "dotted_char c \<longleftrightarrow> ident_char c \<or> c = CHR ''.''"

text \<open>\<open>[A-Za-z_][A-Za-z0-9_.]*\<close>\<close>

definition DOTTED_RE :: regex where "DOTTED_RE = RSeq (RSet ident_start) (rstar (RSet dotted_char))"

definition OPERAND_RE :: regex where
  "OPERAND_RE =
     RAlt (rseq [DOTTED_RE, rblank, rchar CHR ''('', rstar (RSet (\<lambda>c. c \<noteq> CHR ''('' \<and> c \<noteq> CHR '')'')), rchar CHR '')'']) DOTTED_RE"

definition rtab :: regex where "rtab = RSet (\<lambda>c. c = CHR '' '' \<or> c = TAB)"

definition BINDING_ASSIGNMENT_RE :: regex where
  "BINDING_ASSIGNMENT_RE =
     rseq [RNotBehind dotted_char, ropt (RGroup ''local'' (RSeq (rlit ''local'') (rplus rtab))),
       RGroup ''names'' (RSeq RIDENT (rstar (rseq [rstar rtab, rchar CHR '','', rstar rtab, RIDENT]))),
       rstar rtab, rchar CHR ''='', RLook False (rchar CHR ''=''), rstar rtab,
       RGroup ''values'' (rstar (RSet (\<lambda>c. c \<noteq> CHR '';'' \<and> c \<noteq> LF)))]"

definition TRUST_MEMBERSHIP_RE :: regex where
  "TRUST_MEMBERSHIP_RE =
     rseq [RGroup ''table'' DOTTED_RE, rblank, rchar CHR ''['', rblank, RGroup ''key'' OPERAND_RE, rblank, rchar CHR '']'']"

text \<open>\<open>(?:^|[._])\<close>\<close>

definition part_start :: regex where "part_start = RAlt RBol (RSet (\<lambda>c. c = CHR ''.'' \<or> c = CHR ''_''))"

definition STRONG_IDENTITY_NAME_RE :: regex where
  "STRONG_IDENTITY_NAME_RE =
     rseq [part_start,
       ralt (map rlit [''author_login'', ''bot_login'', ''claim_owner'', ''comment_author_login'', ''created_by'', ''login'',
         ''owner_login'', ''self_login'', ''trusted_bot_login'', ''trusted_login'']), REol]"

definition ACCESSOR_NAME_RE :: regex where
  "ACCESSOR_NAME_RE =
     RSeq (ralt (map rlit [''author_login'', ''claim_owner'', ''comment_author_login'', ''trusted_bot_login''])) REol"

definition CANONICAL_IDENTITY_NAME_RE :: regex where
  "CANONICAL_IDENTITY_NAME_RE =
     rseq [RBol, RAlt (rlit ''canonical'') (rlit ''normalized''), rchar CHR ''_'', rstar (RSet ident_char),
       ralt (map rlit [''author'', ''owner'', ''login'']), REol]"

definition MEMBERSHIP_IDENTITY_NAME_RE :: regex where
  "MEMBERSHIP_IDENTITY_NAME_RE = rseq [part_start, ralt (map rlit [''author'', ''owner'', ''login'']), REol]"

definition TRUST_SET_NAME_RE :: regex where
  "TRUST_SET_NAME_RE =
     rseq [part_start,
       ralt [rlit ''allowlist'', rlit ''managed'', RSeq (rlit ''managed_bot_login'') (ropt (rchar CHR ''s'')), rlit ''trust_set'',
         rseq [rlit ''trusted_'', ropt (rlit ''bot_''), rlit ''login'', ropt (rchar CHR ''s'')], rlit ''whitelist''], REol]"

definition CONSTANT_RE :: regex where
  "CONSTANT_RE =
     RSeq (ralt [rlit ''nil'', rlit ''true'', rlit ''false'', RSeq (rplus rdigit) (ropt (RSeq (rchar CHR ''.'') (rplus rdigit)))]) REol"

definition CANONICAL_HELPERS :: "string list" where
  "CANONICAL_HELPERS = [''forge_strings.canonical_login'', ''parsers_misc.canonical_login'']"

definition LUA_KEYWORDS :: "string list" where
  "LUA_KEYWORDS =
     [''and'', ''break'', ''do'', ''else'', ''elseif'', ''end'', ''false'', ''for'', ''function'', ''goto'', ''if'', ''in'', ''local'', ''nil'',
      ''not'', ''or'', ''repeat'', ''return'', ''then'', ''true'', ''until'', ''while'']"

definition STRUCTURE_TOKEN_RE :: regex where
  "STRUCTURE_TOKEN_RE = ralt [RIDENT, rlit ''...'', RSet (\<lambda>c. c \<in> {CHR ''='', CHR ''('', CHR '')'', CHR '',''})]"

datatype binding_state = CanonicalBinding | RawBinding | UnknownBinding

section \<open>Sites\<close>

datatype login_site =
  BotLoginSite (ls_kind: string) (ls_path: string) (ls_surface: string) (ls_line: nat)

definition site_tuple :: "login_site \<Rightarrow> string \<times> string \<times> string \<times> nat" where
  "site_tuple s = (ls_kind s, ls_path s, ls_surface s, ls_line s)"

instantiation login_site :: linorder
begin

definition less_eq_login_site :: "login_site \<Rightarrow> login_site \<Rightarrow> bool" where
  "s \<le> s' \<longleftrightarrow> site_tuple s \<le> site_tuple s'"

definition less_login_site :: "login_site \<Rightarrow> login_site \<Rightarrow> bool" where
  "s < s' \<longleftrightarrow> site_tuple s < site_tuple s'"

instance
proof
  show "s = s'" if "s \<le> s'" "s' \<le> s" for s s' :: login_site
    using that by (cases s; cases s') (auto simp: less_eq_login_site_def site_tuple_def dest: antisym)
qed (auto simp: less_eq_login_site_def less_login_site_def)

end

definition parse_site :: "string \<Rightarrow> login_site result" where
  "parse_site raw =
     (let invalid = (\<lambda>what. Raise (ValueError (''invalid '' @ ALLOWLIST @ '' '' @ what @ '': '' @ raw))) in
      case split_char (CHR ''|'') raw of
        [kind, path, surface, why] \<Rightarrow>
          if kind \<notin> {''legacy-normalizer'', ''raw-login-comparison'', ''raw-login-membership''} then invalid ''kind''
          else if \<not> (startswith path ''libraries/'' \<or> startswith path ''packages/'') \<or> \<not> endswith path ''.lua'' then invalid ''path''
          else if surface = [] then invalid ''surface''
          else if \<not> startswith why ''why='' \<or> why = ''why='' then invalid ''WHY''
          else Return (BotLoginSite kind path surface 0)
      | _ \<Rightarrow> invalid ''line'')"

definition site_key :: "login_site \<Rightarrow> string \<times> string \<times> string" where
  "site_key s = (ls_kind s, ls_path s, ls_surface s)"

definition site_label :: "login_site \<Rightarrow> string" where
  "site_label s = ls_path s @ '':'' @ str_int (int (ls_line s)) @ '' '' @ ls_kind s @ '' '' @ ls_surface s"

definition is_test_path :: "string \<Rightarrow> bool" where
  "is_test_path path \<longleftrightarrow> ''tests'' \<in> set (path_parts path) \<or> endswith (path_name path) ''_test.lua''"

section \<open>Operands\<close>

definition compact_operand :: "string \<Rightarrow> string" where "compact_operand operand = re_sub (rplus rspace) [] operand"

text \<open>The text before the parenthesis that opens a call, both read backwards, with \<open>depth\<close> closing ones passed.\<close>

fun before_call :: "nat \<Rightarrow> string \<Rightarrow> string option" where
  "before_call 0 cs = Some cs"
| "before_call (Suc depth) [] = None"
| "before_call (Suc depth) (c # cs) =
     before_call (if c = CHR '')'' then Suc (Suc depth) else if c = CHR ''('' then depth else Suc depth) cs"

definition name_before :: "string \<Rightarrow> rematch option" where
  "name_before code =
     (case re_search (RSeq DOTTED_RE REol) code of
        None \<Rightarrow> None
      | Some found \<Rightarrow> if m_text found \<in> set LUA_KEYWORDS then None else Some found)"

definition operand_before :: "string \<Rightarrow> nat \<Rightarrow> string option" where
  "operand_before code index =
     (let left = rstrip (take index code) in
      if left = [] then None
      else if last left = CHR '')''
      then (case before_call 1 (tl (rev left)) of
              None \<Rightarrow> None
            | Some rest \<Rightarrow> map_option (\<lambda>found. compact_operand (drop (m_start found) left)) (name_before (rstrip (rev rest))))
      else map_option m_text (name_before left))"

text \<open>The length of a call up to the parenthesis that closes it.\<close>

fun call_length :: "nat \<Rightarrow> string \<Rightarrow> nat option" where
  "call_length depth [] = None"
| "call_length depth (c # cs) =
     (if c = CHR ''('' then map_option Suc (call_length (Suc depth) cs)
      else if c = CHR '')'' then (if depth = 1 then Some 1 else map_option Suc (call_length (depth - 1) cs))
      else map_option Suc (call_length depth cs))"

definition operand_after :: "string \<Rightarrow> nat \<Rightarrow> string option" where
  "operand_after code index =
     (let right = lstrip (drop index code) in
      case re_match DOTTED_RE right of
        None \<Rightarrow> None
      | Some found \<Rightarrow>
          if m_text found \<in> set LUA_KEYWORDS then None
          else
            let rest = drop (m_end found) right; call = lstrip rest in
            if \<not> startswith call ''('' then Some (m_text found)
            else map_option (\<lambda>n. compact_operand (take (length right - length call + n) right)) (call_length 0 call))"

definition operand_name :: "string \<Rightarrow> string" where "operand_name operand = before_sub ''('' operand"

definition is_call :: "string \<Rightarrow> bool" where "is_call operand \<longleftrightarrow> CHR ''('' \<in> set operand"

section \<open>Assignments\<close>

record binding_assignment =
  ba_position :: nat
  ba_local :: bool
  ba_names :: "string list"
  ba_operands :: "string option list"

text \<open>Where the values of a list start, from \<open>cursor\<close> inside \<open>depth\<close> brackets.\<close>

fun value_starts :: "nat \<Rightarrow> nat \<Rightarrow> bool \<Rightarrow> string \<Rightarrow> nat list" where
  "value_starts cursor depth expect [] = []"
| "value_starts cursor depth expect (c # cs) =
     (let expect' = (expect \<and> is_space c) in
      (if expect \<and> \<not> is_space c then [cursor] else []) @
      (if c \<in> {CHR ''('', CHR ''['', CHR ''{''} then value_starts (Suc cursor) (Suc depth) expect' cs
       else if c \<in> {CHR '')'', CHR '']'', CHR ''}''} then value_starts (Suc cursor) (depth - 1) expect' cs
       else if c = CHR '','' \<and> depth = 0 then value_starts (Suc cursor) depth True cs
       else value_starts (Suc cursor) depth expect' cs))"

definition value_operand_starts :: "string \<Rightarrow> nat \<Rightarrow> nat \<Rightarrow> nat list" where
  "value_operand_starts code a b = value_starts a 0 True (py_slice code a b)"

definition brace_step :: "nat \<Rightarrow> char \<Rightarrow> nat" where
  "brace_step depth c = (if c = CHR ''{'' then Suc depth else if c = CHR ''}'' then depth - 1 else depth)"

definition assignment_of :: "string \<Rightarrow> rematch \<Rightarrow> binding_assignment" where
  "assignment_of code found =
     \<lparr>ba_position = m_end found, ba_local = m_group found ''local'' \<noteq> None,
      ba_names = re_findall RIDENT (group_or_empty found ''names''),
      ba_operands = map (operand_after code)
        (value_operand_starts code (the_default 0 (m_group_start found ''values'')) (group_end found ''values''))\<rparr>"

fun assignments_from :: "string \<Rightarrow> nat \<Rightarrow> nat \<Rightarrow> rematch list \<Rightarrow> binding_assignment list" where
  "assignments_from code brace_depth scan_cursor [] = []"
| "assignments_from code brace_depth scan_cursor (found # rest) =
     (let depth = foldl brace_step brace_depth (py_slice code scan_cursor (m_start found)) in
      (if m_group found ''local'' = None \<and> 0 < depth then [] else [assignment_of code found]) @
      assignments_from code depth (m_start found) rest)"

definition binding_assignments :: "string \<Rightarrow> binding_assignment list" where
  "binding_assignments code = assignments_from code 0 0 (re_finditer BINDING_ASSIGNMENT_RE code)"

section \<open>Scopes\<close>

text \<open>The parameters up to the parenthesis that closes; the tokens between them are taken for names, too.\<close>

fun parameters_from :: "nat \<Rightarrow> string list \<Rightarrow> string list" where
  "parameters_from 0 tokens = []"
| "parameters_from (Suc depth) [] = []"
| "parameters_from (Suc depth) (token # tokens) =
     (if token = ''('' then parameters_from (Suc (Suc depth)) tokens
      else if token = '')'' then parameters_from depth tokens
      else if depth = 0 \<and> token \<notin> set LUA_KEYWORDS \<and> token \<noteq> ''...'' then token # parameters_from (Suc depth) tokens
      else parameters_from (Suc depth) tokens)"

definition function_parameters :: "string list \<Rightarrow> string list" where
  "function_parameters tokens = (case dropWhile (\<lambda>t. t \<noteq> ''('') tokens of [] \<Rightarrow> [] | _ # rest \<Rightarrow> parameters_from 1 rest)"

datatype scope_action = Push | Pop | Replace | Parameters "string list" | Assignment binding_assignment

type_synonym scope_event = "nat \<times> nat \<times> scope_action"

fun scope_events_from :: "string \<Rightarrow> rematch list \<Rightarrow> scope_event list" where
  "scope_events_from code [] = []"
| "scope_events_from code (found # rest) =
     (let token = m_text found; start = m_start found in
      (if token = ''function''
       then let parameters = function_parameters (map m_text rest) in
         (start, 1, Push) # (if parameters = [] then [] else [(m_end found, 2, Parameters parameters)])
       else if token \<in> {''then'', ''do'', ''repeat''} then [(start, 1, Push)]
       else if token = ''else'' then [(start, 0, Replace)]
       else if token \<in> {''elseif'', ''end''} then [(start, 0, Pop)]
       else if token = ''until'' then [(the_default (length code) (find_from code [LF] (m_end found)), 0, Pop)]
       else []) @
      scope_events_from code rest)"

definition scope_events :: "string \<Rightarrow> scope_event list" where
  "scope_events code = scope_events_from code (re_finditer STRUCTURE_TOKEN_RE code)"

text \<open>The scopes from the innermost to the outermost, each with the states of its names.\<close>

type_synonym scope = "(string \<times> binding_state) list"

definition update_scope :: "scope \<Rightarrow> scope \<Rightarrow> scope" where
  "update_scope visible scope = foldr (\<lambda>(name, state). AList.update name state) scope visible"

definition visible_bindings :: "scope list \<Rightarrow> scope" where
  "visible_bindings scopes = foldl update_scope [] (rev scopes)"

definition name_binding_state :: "string \<Rightarrow> binding_state" where
  "name_binding_state name =
     (if re_search STRONG_IDENTITY_NAME_RE name \<noteq> None \<or> fullmatches CANONICAL_IDENTITY_NAME_RE (after_last (CHR ''.'') name)
      then RawBinding else UnknownBinding)"

definition operand_binding_state :: "string option \<Rightarrow> scope \<Rightarrow> binding_state" where
  "operand_binding_state operand bindings =
     (case operand of None \<Rightarrow> UnknownBinding
      | Some op \<Rightarrow>
          if is_call op \<and> operand_name op \<in> set CANONICAL_HELPERS then CanonicalBinding
          else
            (case (is_call op, map_of bindings (operand_name op)) of
               (False, Some state) \<Rightarrow> state
             | _ \<Rightarrow> name_binding_state (operand_name op)))"

fun set_innermost :: "string \<Rightarrow> binding_state \<Rightarrow> scope list \<Rightarrow> scope list" where
  "set_innermost name state [] = []"
| "set_innermost name state (scope # scopes) = AList.update name state scope # scopes"

fun set_outer :: "string \<Rightarrow> binding_state \<Rightarrow> scope list \<Rightarrow> scope list" where
  "set_outer name state [] = []"
| "set_outer name state [outermost] = [AList.update name state outermost]"
| "set_outer name state (scope # scopes) =
     (if map_of scope name \<noteq> None then AList.update name state scope # scopes else scope # set_outer name state scopes)"

definition assign_binding :: "scope list \<Rightarrow> string \<Rightarrow> binding_state \<Rightarrow> bool \<Rightarrow> scope list" where
  "assign_binding scopes name state is_local = (if is_local then set_innermost name state scopes else set_outer name state scopes)"

definition pop_scope :: "scope list \<Rightarrow> scope list" where
  "pop_scope scopes = (if 1 < length scopes then tl scopes else scopes)"

definition apply_assignment :: "binding_assignment \<Rightarrow> scope list \<Rightarrow> scope list" where
  "apply_assignment assignment scopes =
     (let visible = visible_bindings scopes in
      foldl (\<lambda>scopes (offset, name).
          let operand = (if offset < length (ba_operands assignment) then ba_operands assignment ! offset else None) in
          assign_binding scopes name (operand_binding_state operand visible) (ba_local assignment))
        scopes (zip [0..<length (ba_names assignment)] (ba_names assignment)))"

fun apply_action :: "scope_action \<Rightarrow> scope list \<Rightarrow> scope list" where
  "apply_action Push scopes = [] # scopes"
| "apply_action Pop scopes = pop_scope scopes"
| "apply_action Replace scopes = [] # pop_scope scopes"
| "apply_action (Parameters names) scopes = foldl (\<lambda>scopes name. set_innermost name (name_binding_state name) scopes) scopes names"
| "apply_action (Assignment assignment) scopes = apply_assignment assignment scopes"

fun apply_event :: "scope_event \<Rightarrow> scope list \<Rightarrow> scope list" where
  "apply_event (position, priority, action) scopes = apply_action action scopes"

text \<open>What is visible before every index of an ascending list; the events are applied as the indexes pass them.\<close>

fun snapshots :: "scope_event list \<Rightarrow> scope list \<Rightarrow> nat list \<Rightarrow> (nat \<times> scope) list" where
  "snapshots events scopes [] = []"
| "snapshots events scopes (index # indexes) =
     (let scopes' = fold apply_event (takeWhile (\<lambda>event. fst event < index) events) scopes in
      (index, visible_bindings scopes') # snapshots (dropWhile (\<lambda>event. fst event < index) events) scopes' indexes)"

definition all_events :: "string \<Rightarrow> scope_event list" where
  "all_events code =
     sort_key (\<lambda>(position, priority, action). (position, priority))
       (scope_events code @ map (\<lambda>a. (ba_position a, 2, Assignment a)) (binding_assignments code))"

definition binding_states_before :: "string \<Rightarrow> nat list \<Rightarrow> (nat \<times> scope) list" where
  "binding_states_before code indexes = snapshots (all_events code) [[]] (sort (remdups indexes))"

section \<open>Sites of a source\<close>

definition is_canonical :: "string \<Rightarrow> scope \<Rightarrow> bool" where
  "is_canonical operand bindings \<longleftrightarrow>
     (if is_call operand then operand_name operand \<in> set CANONICAL_HELPERS
      else map_of bindings (operand_name operand) = Some CanonicalBinding)"

definition looks_canonical_identity :: "string \<Rightarrow> bool" where
  "looks_canonical_identity operand \<longleftrightarrow> fullmatches CANONICAL_IDENTITY_NAME_RE (after_last (CHR ''.'') (operand_name operand))"

definition is_strong_identity :: "string \<Rightarrow> bool" where
  "is_strong_identity operand \<longleftrightarrow>
     re_search STRONG_IDENTITY_NAME_RE (operand_name operand) \<noteq> None \<or> re_search ACCESSOR_NAME_RE (operand_name operand) \<noteq> None"

definition is_author_owner_pair :: "string \<Rightarrow> string \<Rightarrow> bool" where
  "is_author_owner_pair left right \<longleftrightarrow>
     {after_last (CHR ''.'') (operand_name left), after_last (CHR ''.'') (operand_name right)} = {''author'', ''owner''}"

definition comparison_surface :: "string \<Rightarrow> string \<Rightarrow> string \<Rightarrow> string" where
  "comparison_surface left operator right = left @ operator @ right"

definition is_trust_set :: "string \<Rightarrow> bool" where "is_trust_set operand \<longleftrightarrow> re_search TRUST_SET_NAME_RE operand \<noteq> None"

definition is_membership_identity :: "string \<Rightarrow> bool" where
  "is_membership_identity operand \<longleftrightarrow>
     is_strong_identity operand \<or> re_search MEMBERSHIP_IDENTITY_NAME_RE (operand_name operand) \<noteq> None \<or>
     looks_canonical_identity operand \<or> after_last (CHR ''.'') (operand_name operand) \<in> {''canonical'', ''normalized''}"

definition is_constant :: "string \<Rightarrow> bool" where "is_constant operand \<longleftrightarrow> fullmatches CONSTANT_RE operand"

definition compares_identity :: "string \<Rightarrow> string \<Rightarrow> scope \<Rightarrow> bool" where
  "compares_identity left right bindings \<longleftrightarrow>
     operand_binding_state (Some left) bindings \<noteq> UnknownBinding \<or> operand_binding_state (Some right) bindings \<noteq> UnknownBinding \<or>
     is_strong_identity left \<or> is_strong_identity right \<or> is_author_owner_pair left right \<or>
     looks_canonical_identity left \<or> looks_canonical_identity right"

definition site_at :: "string \<Rightarrow> string \<Rightarrow> string \<Rightarrow> rematch \<Rightarrow> string \<Rightarrow> login_site" where
  "site_at kind path source found surface = BotLoginSite kind path surface (count_char source LF 0 (m_start found) + 1)"

definition comparison_site :: "string \<Rightarrow> string \<Rightarrow> string \<Rightarrow> scope \<Rightarrow> rematch \<Rightarrow> login_site list" where
  "comparison_site path source code bindings found =
     (case (operand_before code (m_start found), operand_after code (m_end found)) of
        (Some left, Some right) \<Rightarrow>
          if is_constant left \<or> is_constant right \<or> is_canonical left bindings \<and> is_canonical right bindings \<or>
             \<not> compares_identity left right bindings then []
          else [site_at ''raw-login-comparison'' path source found (comparison_surface left (m_text found) right)]
      | _ \<Rightarrow> [])"

definition ASSIGNED_RE :: regex where "ASSIGNED_RE = rseq [rstar rtab, rchar CHR ''='', RLook False (rchar CHR ''='')]"

definition membership_site :: "string \<Rightarrow> string \<Rightarrow> string \<Rightarrow> scope \<Rightarrow> rematch \<Rightarrow> login_site list" where
  "membership_site path source code bindings found =
     (let table = group_or_empty found ''table''; key = filter (\<lambda>c. c \<noteq> CHR '' '') (group_or_empty found ''key'') in
      if \<not> is_trust_set table \<or> re_match ASSIGNED_RE (drop (m_end found) code) \<noteq> None \<or> is_canonical key bindings \<or>
         operand_binding_state (Some key) bindings = UnknownBinding \<and> \<not> is_membership_identity key then []
      else [site_at ''raw-login-membership'' path source found (table @ ''['' @ key @ '']'')])"

definition source_sites :: "string \<Rightarrow> string \<Rightarrow> login_site fset" where
  "source_sites path source =
     (if is_test_path path \<or> path = CANONICAL_HELPER_PATH then {||}
      else
        let code = code_mask source; comparisons = re_finditer COMPARISON_RE code; memberships = re_finditer TRUST_MEMBERSHIP_RE code;
            states = binding_states_before code (map m_start (comparisons @ memberships));
            bindings = (\<lambda>found. dget states (m_start found) []) in
        fset_of_list
          (map (\<lambda>found. site_at ''legacy-normalizer'' path source found (m_text found)) (re_finditer LEGACY_NORMALIZER_RE code) @
           concat (map (\<lambda>found. comparison_site path source code (bindings found) found) comparisons) @
           concat (map (\<lambda>found. membership_site path source code (bindings found) found) memberships)))"

section \<open>The ratchet\<close>

definition repository_sites :: "tree \<Rightarrow> login_site fset" where
  "repository_sites t =
     fold (\<lambda>path sites. sites |\<union>| source_sites path (source_of t path)) (rglob_lua t ''libraries'' @ rglob_lua t ''packages'') {||}"

definition parse_line :: "string \<Rightarrow> login_site list result" where
  "parse_line raw =
     (if strip raw = [] \<or> startswith (lstrip raw) ''#'' then Return [] else bindR (parse_site (strip raw)) (\<lambda>site. Return [site]))"

definition parse_allowlist_lines :: "string list \<Rightarrow> login_site fset result" where
  "parse_allowlist_lines lines = bindR (mapR parse_line lines) (\<lambda>entries. Return (fset_of_list (concat entries)))"

definition load_allowlist :: "tree \<Rightarrow> login_site fset result" where
  "load_allowlist t = load_allowlist_with parse_allowlist_lines (tree_read t ALLOWLIST)"

definition covered :: "login_site \<Rightarrow> login_site fset \<Rightarrow> bool" where
  "covered site allowlist \<longleftrightarrow> fBex allowlist (\<lambda>entry. site_key entry = site_key site)"

definition ratchet_messages :: "login_site fset \<Rightarrow> login_site fset \<Rightarrow> login_site fset option \<Rightarrow> string list" where
  "ratchet_messages current allowlist base_allowlist =
     map (\<lambda>site. site_label site @ '' bypasses bot-login mediation outside forge_strings.canonical_login'')
       (filter (\<lambda>site. \<not> covered site allowlist) (sorted_list_of_fset current)) @
     map (\<lambda>entry. site_label entry @ '' no longer matches bot-login mediation debt; prune the stale entry'')
       (filter (\<lambda>entry. \<not> covered entry current) (sorted_list_of_fset allowlist)) @
     (case base_allowlist of None \<Rightarrow> []
      | Some base \<Rightarrow>
          map (\<lambda>entry. site_label entry @ '' grows the bot-login mediation allowlist relative to dev'')
            (filter (\<lambda>entry. \<not> covered entry base) (sorted_list_of_fset allowlist)))"

definition repository_messages :: "environ \<Rightarrow> git \<Rightarrow> tree \<Rightarrow> bool \<Rightarrow> check_message list result" where
  "repository_messages env git t enforce_base =
     bindR (load_allowlist t) (\<lambda>allowlist.
       let base = (if enforce_base then allowlist_at_dev_base env git ALLOWLIST parse_allowlist_lines else BaseAbsent) in
       Return (unresolved_failure ''cannot resolve dev base allowlist to enforce the shrink-only ratchet'' base @
         map Violation (ratchet_messages (repository_sites t) allowlist (base_value base))))"

section \<open>Scopes implement an environment with blocks\<close>

fun lookup :: "scope list \<Rightarrow> string \<Rightarrow> binding_state option" where
  "lookup [] name = None"
| "lookup (scope # scopes) name = (case map_of scope name of None \<Rightarrow> lookup scopes name | Some state \<Rightarrow> Some state)"

lemma map_of_update_scope: "map_of (update_scope visible scope) = map_of visible ++ map_of scope"
  by (induction scope) (auto simp: update_scope_def update_conv' fun_eq_iff map_add_def)

lemma visible_lookup: "map_of (visible_bindings scopes) = lookup scopes"
proof (induction scopes)
  case (Cons scope scopes)
  have "map_of (visible_bindings (scope # scopes)) = map_of (visible_bindings scopes) ++ map_of scope"
    by (simp add: visible_bindings_def map_of_update_scope)
  with Cons show ?case by (auto simp: fun_eq_iff map_add_def split: option.splits)
qed (simp add: visible_bindings_def fun_eq_iff)

lemma lookup_set_outer: "scopes \<noteq> [] \<Longrightarrow> lookup (set_outer name state scopes) = (lookup scopes)(name \<mapsto> state)"
  by (induction name state scopes rule: set_outer.induct) (auto simp: fun_eq_iff update_conv' split: option.splits)

lemma lookup_set_innermost: "scopes \<noteq> [] \<Longrightarrow> lookup (set_innermost name state scopes) = (lookup scopes)(name \<mapsto> state)"
  by (cases scopes) (auto simp: fun_eq_iff update_conv' split: option.splits)

lemma set_outer_Nil [simp]: "set_outer name state scopes = [] \<longleftrightarrow> scopes = []"
  by (induction name state scopes rule: set_outer.induct) auto

lemma set_innermost_Nil [simp]: "set_innermost name state scopes = [] \<longleftrightarrow> scopes = []"
  by (cases scopes) auto

lemma foldl_Nil_iff: "(\<And>x y. f x y = [] \<longleftrightarrow> x = []) \<Longrightarrow> foldl f xs ys = [] \<longleftrightarrow> xs = []"
  by (induction ys arbitrary: xs) auto

lemma apply_assignment_Nil [simp]: "apply_assignment assignment scopes = [] \<longleftrightarrow> scopes = []"
  unfolding apply_assignment_def Let_def by (rule foldl_Nil_iff) (auto simp: assign_binding_def split: prod.split)

lemma pop_scope_Nil [simp]: "pop_scope scopes = [] \<longleftrightarrow> scopes = []"
  by (cases scopes) (auto simp: pop_scope_def)

lemma apply_action_nonempty: "scopes \<noteq> [] \<Longrightarrow> apply_action action scopes \<noteq> []"
  by (cases action) (auto simp: foldl_Nil_iff)

text \<open>The scopes that events lead to.\<close>

definition scopes_after :: "scope_action list \<Rightarrow> scope list" where "scopes_after actions = fold apply_action actions [[]]"

lemma scopes_after_nonempty: "scopes_after actions \<noteq> []"
proof -
  have "scopes \<noteq> [] \<Longrightarrow> fold apply_action actions scopes \<noteq> []" for scopes
    by (induction actions arbitrary: scopes) (auto simp: apply_action_nonempty)
  then show ?thesis by (simp add: scopes_after_def)
qed

text \<open>
  C38. Whatever the structure of the source, balanced or not, the stack of scopes never runs empty and an assignment
  refines the update of a map: afterwards the name has the new state and every other visible name the one it had, be
  the assignment local or not.
\<close>

theorem assignment_updates_environment:
  "scopes_after actions \<noteq> [] \<and>
   map_of (visible_bindings (assign_binding (scopes_after actions) name state is_local)) =
     (map_of (visible_bindings (scopes_after actions)))(name \<mapsto> state)"
  by (simp add: scopes_after_nonempty visible_lookup assign_binding_def lookup_set_outer lookup_set_innermost)

text \<open>Actions that bind locally, with blocks and branches inside.\<close>

inductive local_block :: "scope_action list \<Rightarrow> bool" where
  empty: "local_block []"
| parameters: "local_block body \<Longrightarrow> local_block (body @ [Parameters names])"
| assignment: "local_block body \<Longrightarrow> ba_local a \<Longrightarrow> local_block (body @ [Assignment a])"
| nested: "local_block body \<Longrightarrow> local_block inner \<Longrightarrow> local_block (body @ Push # inner @ [Pop])"
| branches: "local_block body \<Longrightarrow> local_block yes \<Longrightarrow> local_block no \<Longrightarrow> local_block (body @ Push # yes @ Replace # no @ [Pop])"

lemma foldl_innermost: "(\<And>inmost x. \<exists>inmost'. f (inmost # rest) x = inmost' # rest) \<Longrightarrow> \<exists>inmost'. foldl f (inmost # rest) xs = inmost' # rest"
  by (induction xs arbitrary: inmost) (auto, metis)

lemma local_assignment_innermost: "ba_local a \<Longrightarrow> \<exists>inmost'. apply_assignment a (inmost # rest) = inmost' # rest"
  unfolding apply_assignment_def Let_def by (rule foldl_innermost) (auto simp: assign_binding_def split: prod.split)

lemma local_block_innermost: "local_block body \<Longrightarrow> \<exists>inmost'. fold apply_action body (inmost # rest) = inmost' # rest"
proof (induction body arbitrary: inmost rest rule: local_block.induct)
  case (parameters body names)
  then obtain t where "fold apply_action body (inmost # rest) = t # rest" by blast
  moreover have "\<exists>inmost'. apply_action (Parameters names) (t # rest) = inmost' # rest"
    unfolding apply_action.simps by (rule foldl_innermost) simp
  ultimately show ?case by simp
next
  case (assignment body a)
  then obtain t where "fold apply_action body (inmost # rest) = t # rest" by blast
  with local_assignment_innermost [OF assignment(2), of t rest] show ?case by simp
next
  case (nested body block)
  then obtain t u where "fold apply_action body (inmost # rest) = t # rest"
    "fold apply_action block ([] # t # rest) = u # t # rest" by metis
  then show ?case by (simp add: pop_scope_def)
next
  case (branches body yes no)
  then obtain t u v where "fold apply_action body (inmost # rest) = t # rest"
    "fold apply_action yes ([] # t # rest) = u # t # rest" "fold apply_action no ([] # t # rest) = v # t # rest" by metis
  then show ?case by (simp add: pop_scope_def)
qed simp

text \<open>
  C14. What a block binds locally is forgotten at its end: after a block of parameters, local assignments, blocks and
  branches the scopes are the ones before it.
\<close>

theorem local_block_leaves_scopes:
  assumes "local_block body"
  shows "scopes_after (actions @ Push # body @ [Pop]) = scopes_after actions"
proof -
  obtain inmost rest where "scopes_after actions = inmost # rest" using scopes_after_nonempty by (cases "scopes_after actions") auto
  with local_block_innermost [OF assms, of "[]" "inmost # rest"] show ?thesis by (auto simp: scopes_after_def pop_scope_def)
qed

lemma local_block_leaves_scopes_witness:
  "local_block [Parameters [''login''], Push, Assignment \<lparr>ba_position = 0, ba_local = True, ba_names = [''z''], ba_operands = [Some ''login'']\<rparr>, Pop] \<and>
   scopes_after ([Push] @ Push # [Parameters [''login''], Push,
     Assignment \<lparr>ba_position = 0, ba_local = True, ba_names = [''z''], ba_operands = [Some ''login'']\<rparr>, Pop] @ [Pop]) = scopes_after [Push]"
proof -
  let ?a = "\<lparr>ba_position = 0, ba_local = True, ba_names = [''z''], ba_operands = [Some ''login'']\<rparr>"
  have "local_block ([] @ [Parameters [''login'']])" by (intro local_block.parameters local_block.empty)
  moreover have "local_block ([] @ [Assignment ?a])" by (intro local_block.assignment local_block.empty) simp
  ultimately have "local_block (([] @ [Parameters [''login'']]) @ Push # ([] @ [Assignment ?a]) @ [Pop])" by (rule local_block.nested)
  then have block: "local_block [Parameters [''login''], Push, Assignment ?a, Pop]" by simp
  from this local_block_leaves_scopes [OF block, of "[Push]"] show ?thesis by blast
qed

section \<open>States at an index\<close>

lemma snapshots_keys: "map fst (snapshots events scopes indexes) = indexes"
  by (induction events scopes indexes rule: snapshots.induct) (auto simp: Let_def)

text \<open>Applying events as the indexes pass them is applying all events before each index.\<close>

lemma snapshots_exact:
  assumes "sorted_wrt (<) indexes" "sorted (map fst events)" "index \<in> set indexes"
  shows "map_of (snapshots events scopes indexes) index =
           Some (visible_bindings (fold apply_event (takeWhile (\<lambda>event. fst event < index) events) scopes))"
  using assms
proof (induction events scopes indexes rule: snapshots.induct)
  case (2 events scopes i indexes)
  show ?case
  proof (cases "index = i")
    case False
    with "2.prems" have i: "i < index" "index \<in> set indexes" by auto
    let ?due = "takeWhile (\<lambda>event. fst event < i) events" and ?rest = "dropWhile (\<lambda>event. fst event < i) events"
    have "takeWhile (\<lambda>event. fst event < index) (?due @ ?rest) = ?due @ takeWhile (\<lambda>event. fst event < index) ?rest"
      using i by (intro takeWhile_append2) (auto dest!: set_takeWhileD)
    moreover have "sorted (map fst ?rest)" using "2.prems"(2) by (metis map_append sorted_append takeWhile_dropWhile_id)
    ultimately show ?thesis using 2 i False by (simp add: Let_def)
  qed (simp add: Let_def)
qed simp

definition state_before :: "string \<Rightarrow> nat \<Rightarrow> scope" where
  "state_before code index =
     visible_bindings (fold apply_event (takeWhile (\<lambda>event. fst event < index) (all_events code)) [[]])"

lemma all_events_sorted: "sorted (map fst (all_events code))"
proof -
  have "sorted (map (\<lambda>(position, priority, action). (position, priority)) (all_events code))" by (simp add: all_events_def)
  then have "sorted_wrt (\<lambda>e e'. fst e \<le> fst e') (all_events code)"
    unfolding sorted_map by (rule sorted_wrt_mono_rel [rotated]) (auto simp: less_eq_prod_def split: prod.splits)
  then show ?thesis by (simp add: sorted_map)
qed

lemma binding_states_exact: "index \<in> set indexes \<Longrightarrow> dget (binding_states_before code indexes) index d = state_before code index"
  by (simp add: binding_states_before_def dget_def state_before_def snapshots_exact all_events_sorted strict_sorted_iff sorted_remdups
      flip: sorted_list_of_set_sort_remdups)

section \<open>Strings and comments have no influence\<close>

lemma code_mask_idem: "code_mask (code_mask s) = code_mask s"
proof -
  have "lex (code_mask s) True True = []" unfolding lex_def by (rule lex_loop_Nil) (auto intro: mask_lex_here_None)
  then show ?thesis by (intro nth_equalityI) (auto simp: code_mask_gen_nth)
qed

text \<open>
  What stands in strings and comments has no influence on the sites: a source has the sites of its mask, each
  with the kind, the surface and the line it has there.
\<close>

theorem sites_of_code: "source_sites path (code_mask source) = source_sites path source"
proof -
  have site: "site_at kind path (code_mask source) = site_at kind path source" for kind
    by (simp add: fun_eq_iff site_at_def lua_mask.mask_count_newlines)
  have "comparison_site path (code_mask source) = comparison_site path source"
    "membership_site path (code_mask source) = membership_site path source"
    by (intro ext; simp only: comparison_site_def membership_site_def site)+
  then show ?thesis by (simp only: source_sites_def code_mask_idem site)
qed

section \<open>What the ratchet says\<close>

definition site_keys :: "login_site fset \<Rightarrow> (string \<times> string \<times> string) fset" where "site_keys sites = site_key |`| sites"

lemma covered_iff: "covered site allowlist \<longleftrightarrow> site_key site |\<in>| site_keys allowlist"
  unfolding covered_def site_keys_def by (auto simp: image_iff) metis

lemma uncovered_Nil: "filter (\<lambda>site. \<not> covered site allowlist) (sorted_list_of_fset sites) = [] \<longleftrightarrow> site_keys sites |\<subseteq>| site_keys allowlist"
  by (auto simp: filter_empty_conv covered_iff) (auto simp: site_keys_def)

lemma messages_Nil:
  "ratchet_messages current allowlist base_allowlist = [] \<longleftrightarrow>
     site_keys current = site_keys allowlist \<and> (case base_allowlist of None \<Rightarrow> True | Some base \<Rightarrow> site_keys allowlist |\<subseteq>| site_keys base)"
  unfolding ratchet_messages_def append_is_Nil_conv map_is_Nil_conv uncovered_Nil
  by (auto simp: uncovered_Nil split: option.split)

interpretation login_ratchet: shrink_only_ratchet
  "\<lambda>current allowlist base. ratchet_messages current allowlist base = []" site_keys site_keys "(|\<subseteq>|)"
  by unfold_locales (auto simp: messages_Nil)

text \<open>Along a history of clean commits every raw decision was listed from the start.\<close>

lemma login_history_shrinks:
  "clean_history (\<lambda>current allowlist base. ratchet_messages current allowlist base = []) base history \<Longrightarrow>
     (current, allowlist) \<in> set history \<Longrightarrow> site_keys current |\<subseteq>| site_keys base"
  by (rule login_ratchet.history_debt)

lemma repository_sites_iff:
  "site |\<in>| repository_sites t \<longleftrightarrow>
     (\<exists>path \<in> set (rglob_lua t ''libraries'' @ rglob_lua t ''packages''). site |\<in>| source_sites path (source_of t path))"
proof -
  have "site |\<in>| fold (\<lambda>path sites. sites |\<union>| source_sites path (source_of t path)) paths sites \<longleftrightarrow>
      site |\<in>| sites \<or> (\<exists>path \<in> set paths. site |\<in>| source_sites path (source_of t path))" for paths sites
    by (induction paths arbitrary: sites) auto
  then show ?thesis unfolding repository_sites_def by (simp only: bot_fset.rep_eq empty_iff simp_thms)
qed

text \<open>
  The check is silent exactly if the allowlist can be read, the base can be resolved, the kinds, paths and surfaces
  that are found are exactly those of the allowlist, and none of these is new.
\<close>

definition login_clean :: "environ \<Rightarrow> git \<Rightarrow> tree \<Rightarrow> bool \<Rightarrow> bool" where
  "login_clean env git t enforce_base \<longleftrightarrow>
     (case load_allowlist t of
        Inl e \<Rightarrow> False
      | Inr allowlist \<Rightarrow>
          site_keys (repository_sites t) = site_keys allowlist \<and>
          (if enforce_base
           then (case allowlist_at_dev_base env git ALLOWLIST parse_allowlist_lines of
               BaseUnresolved \<Rightarrow> False | BaseAbsent \<Rightarrow> True | BasePresent base \<Rightarrow> site_keys allowlist |\<subseteq>| site_keys base)
           else True))"

theorem login_check_clean_iff: "repository_messages env git t enforce_base = Return [] \<longleftrightarrow> login_clean env git t enforce_base"
proof (cases "load_allowlist t")
  case (Inr allowlist)
  then show ?thesis
    by (auto simp: repository_messages_def login_clean_def unresolved_failure_def base_value_def messages_Nil split: base_allowlist.splits)
qed (simp add: repository_messages_def login_clean_def)

end
