(* ===== verification/SagaSplit.thy ===== *)
theory SagaSplit
  imports TestShape ShrinkOnly PyJson
begin

text \<open>
  \<^verbatim>\<open>scripts/check_repo_saga_split.py\<close>: the ratchet of the split of the issue saga and the pull-request saga. A manifest
  classifies every file of the sagas by its owner, two Lua files state the same issue states, and files that the
  pull-request side does not own may write or parse its phases only as far as an allowlist says.

  Shown here: that the scan of a call stays within its limits, and what it means that the check finds nothing.
\<close>

section \<open>Names and patterns\<close>

definition MANIFEST :: string where "MANIFEST = ''migration/github-devloop-saga-split.inventory''"
definition ALLOWLIST :: string where "ALLOWLIST = ''migration/github-devloop-saga-split-authority.allowlist''"
definition SPEC_REF :: string where "SPEC_REF = ''docs/superpowers/specs/2026-06-20-issue-pr-saga-split-design.md''"
definition CONTRACT :: string where "CONTRACT = ''libraries/devloop/restart/issue/pr_partition_contract.lua''"
definition ISSUE_PACKAGE_CORE :: string where "ISSUE_PACKAGE_CORE = ''packages/github-devloop/core.lua''"

definition OWNERS :: "string list" where
  "OWNERS = [''issue'', ''pr'', ''shared'', ''integration'', ''cross-cutting'', ''intake'']"

definition CALL_SCAN_MAX_CHARS :: nat where "CALL_SCAN_MAX_CHARS = 12000"
definition CALL_SCAN_MAX_LINES :: nat where "CALL_SCAN_MAX_LINES = 120"

text \<open>A table as the value of a name, with its text up to the first brace that closes.\<close>

definition table_of :: "regex \<Rightarrow> regex" where
  "table_of name =
     rseq [RWordB, name, rblank, rchar CHR ''='', rblank, rchar CHR ''{'', RGroup ''body'' (RStar False (RSet (\<lambda>_. True))), rchar CHR ''}'']"

definition local_name :: "string \<Rightarrow> regex" where "local_name name = rseq [rlit ''local'', rplus rspace, rlit name]"

definition ISSUE_STATES_BLOCK_RE :: regex where "ISSUE_STATES_BLOCK_RE = table_of (local_name ''ISSUE_STATES'')"
definition PR_PHASE_BLOCK_RE :: regex where "PR_PHASE_BLOCK_RE = table_of (local_name ''PR_PHASE_STATES'')"
definition ISSUE_LIFECYCLE_BLOCK_RE :: regex where "ISSUE_LIFECYCLE_BLOCK_RE = table_of (rlit ''M.restart_lifecycle_states'')"

definition LUA_STRING_RE :: regex where
  "LUA_STRING_RE =
     rseq [RGroup ''quote'' (RSet (\<lambda>c. c = DQ \<or> c = SQ)), RGroup ''value'' (rplus (RSet (\<lambda>c. c \<noteq> DQ \<and> c \<noteq> SQ))), RBackref ''quote'']"

definition STATE_WRITE_HELPERS :: "(string \<times> string \<times> nat) list" where
  "STATE_WRITE_HELPERS = [(''state_marker'', ''state-marker'', 2)]"

definition STATE_WRITE_CALL_RE :: regex where
  "STATE_WRITE_CALL_RE =
     rseq [RNotBehind (\<lambda>c. is_word c \<or> c = CHR ''.''), ropt (rseq [RSet ident_start, rstar (RSet is_word), rchar CHR ''.'']),
       RGroup ''helper'' (ralt (map (rlit \<circ> fst) STATE_WRITE_HELPERS)), rblank, rchar CHR ''('']"

definition LINKED_STATE_RE :: regex where
  "LINKED_STATE_RE =
     ralt [rseq [RWordB, ralt (map rlit [''issue_authoritative_linked_state'', ''linked_snapshot_issue_state'',
         ''current_linked_entity_state'', ''linked_entity_snapshot'']), RWordB],
       rseq [rlit ''snapshot.state'', rblank, rchar CHR ''='', rblank, rlit ''M.current_entity_state'', rblank, rchar CHR ''('', rblank,
         rlit ''snapshot.comments''],
       rseq [rlit ''copy_comments'', rblank, rchar CHR ''('', rblank, rlit ''snapshot.comments'', rblank, rchar CHR '','', rblank,
         rlit ''current_pr.comments'', rblank, rchar CHR '')'']]"

section \<open>Entries and sites\<close>

datatype inventory_entry = InventoryEntry (ie_path: string) (ie_owner: string) (ie_reason: string)

datatype leak_site = LeakSite (lk_path: string) (lk_kind: string) (lk_token: string) (lk_line: int)

definition leak_tuple :: "leak_site \<Rightarrow> string \<times> string \<times> string \<times> int" where
  "leak_tuple s = (lk_path s, lk_kind s, lk_token s, lk_line s)"

instantiation leak_site :: linorder
begin

definition less_eq_leak_site :: "leak_site \<Rightarrow> leak_site \<Rightarrow> bool" where
  "s \<le> s' \<longleftrightarrow> leak_tuple s \<le> leak_tuple s'"

definition less_leak_site :: "leak_site \<Rightarrow> leak_site \<Rightarrow> bool" where
  "s < s' \<longleftrightarrow> leak_tuple s < leak_tuple s'"

instance
proof
  show "s = s'" if "s \<le> s'" "s' \<le> s" for s s' :: leak_site
    using that by (cases s; cases s') (auto simp: less_eq_leak_site_def leak_tuple_def dest: antisym)
qed (auto simp: less_eq_leak_site_def less_leak_site_def)

end

definition SITE_PREFIXES :: "string list" where
  "SITE_PREFIXES =
     [''packages/github-devloop/'', ''packages/github-devloop-intake/'', ''packages/github-devloop-intake-default/'',
      ''packages/github-devloop-ops/'', ''packages/github-devloop-pr/'', ''packages/github-devloop-integration/'', ''libraries/devloop/'']"

definition parse_site :: "string \<Rightarrow> leak_site result" where
  "parse_site raw =
     (let invalid = (\<lambda>what. Raise (ValueError (''invalid '' @ ALLOWLIST @ '' '' @ what @ '': '' @ raw))) in
      case split_char (CHR ''|'') raw of
        path # kind # token # line_part # spec # why # _ \<Rightarrow>
          if \<not> list_ex (startswith path) SITE_PREFIXES \<or> \<not> endswith path ''.lua'' then invalid ''path''
          else if kind \<notin> {''state-marker'', ''linked-state-promotion''} then invalid ''kind''
          else if spec \<noteq> ''spec='' @ SPEC_REF then invalid ''spec ref''
          else if \<not> startswith why ''why='' \<or> why = ''why='' then invalid ''WHY''
          else if \<not> startswith line_part ''line='' then invalid ''line number''
          else
            (case int_of_str (removeprefix ''line='' line_part) of
               None \<Rightarrow> Raise (ValueError (''invalid literal for int() with base 10: '' @ [SQ] @ removeprefix ''line='' line_part @ [SQ]))
             | Some n \<Rightarrow> Return (LeakSite path kind token n))
      | _ \<Rightarrow> invalid ''line'')"

definition site_key :: "leak_site \<Rightarrow> string \<times> string \<times> string \<times> string" where
  "site_key s = (lk_path s, lk_kind s, lk_token s, str_int (lk_line s))"

definition site_label :: "leak_site \<Rightarrow> string" where
  "site_label s = lk_path s @ '':'' @ str_int (lk_line s) @ '' '' @ lk_kind s @ '' '' @ lk_token s"

definition allowlist_line :: "leak_site \<Rightarrow> string \<Rightarrow> string" where
  "allowlist_line s why =
     join ''|'' [lk_path s, lk_kind s, lk_token s, ''line='' @ str_int (lk_line s), ''spec='' @ SPEC_REF, ''why='' @ why]"

section \<open>The manifest\<close>

definition PACKAGES :: "string list" where
  "PACKAGES =
     [''github-devloop'', ''github-devloop-intake'', ''github-devloop-intake-default'', ''github-devloop-ops'', ''github-devloop-pr'',
      ''github-devloop-integration'']"

definition parts_below :: "string \<Rightarrow> string \<Rightarrow> string list" where
  "parts_below dir p = path_parts (drop (Suc (length dir)) p)"

definition expected_in_package :: "string \<Rightarrow> string \<Rightarrow> bool" where
  "expected_in_package p package \<longleftrightarrow>
     (let base = ''packages/'' @ package in
      under (base @ ''/departments'') p \<and> length (parts_below (base @ ''/departments'') p) = 2 \<and> path_name p = ''main.lua'' \<or>
      under (base @ ''/core'') p \<and> endswith p ''.lua'')"

definition expected_path :: "string \<Rightarrow> bool" where
  "expected_path p \<longleftrightarrow>
     list_ex (expected_in_package p) PACKAGES \<or>
     under ''libraries/devloop'' p \<and> length (parts_below ''libraries/devloop'' p) = 1 \<and> endswith p ''.lua'' \<or>
     under ''libraries/devloop/restart'' p \<and> endswith p ''.lua''"

definition expected_paths :: "tree \<Rightarrow> string fset" where "expected_paths t = fset_of_list (filter expected_path (map fst t))"

definition entry_messages :: "inventory_entry \<Rightarrow> string list" where
  "entry_messages entry =
     (if ie_owner entry \<notin> set OWNERS then [''manifest-invalid-owner: '' @ ie_path entry @ '' owner='' @ ie_owner entry] else []) @
     (if ie_reason entry = [] then [''manifest-missing-reason: '' @ ie_path entry] else [])"

text \<open>A line of the manifest: its entry, when it decodes, and messages; what is no object has no \<open>get\<close>.\<close>

definition load_line :: "json_diag \<Rightarrow> (json \<Rightarrow> string) \<Rightarrow> nat \<times> string \<Rightarrow> (inventory_entry list \<times> string list) result" where
  "load_line diag str_other numbered =
     (case numbered of (number, raw) \<Rightarrow>
        let stripped = strip raw in
        if stripped = [] \<or> startswith stripped ''#'' then Return ([], [])
        else
          (case json_loads stripped of
             None \<Rightarrow> Return ([], [''manifest-invalid-json: '' @ MANIFEST @ '':'' @ str_int (int number) @ '': '' @ diag_msg diag stripped])
           | Some (JObj doc) \<Rightarrow>
               let text_of = (\<lambda>key. str_json str_other (jget_or doc key (JStr [])));
                   entry = InventoryEntry (text_of ''path'') (text_of ''owner'') (text_of ''reason'') in
               Return ([entry], entry_messages entry)
           | Some _ \<Rightarrow> Raise AttributeError))"

definition load_manifest :: "json_diag \<Rightarrow> (json \<Rightarrow> string) \<Rightarrow> string option \<Rightarrow> (inventory_entry list \<times> string list) result" where
  "load_manifest diag str_other file =
     (case file of
        None \<Rightarrow> Return ([], [''manifest-missing: '' @ MANIFEST @ '' is required''])
      | Some source \<Rightarrow>
          let lines = splitlines source in
          bindR (mapR (load_line diag str_other) (zip [1..<Suc (length lines)] lines)) (\<lambda>read.
            Return (concat (map fst read), concat (map snd read))))"

definition manifest_messages :: "tree \<Rightarrow> inventory_entry list \<Rightarrow> string list" where
  "manifest_messages t entries =
     (let expected = expected_paths t; classified = map ie_path entries; by_path = fset_of_list classified in
      map (\<lambda>path. ''manifest-missing-entry: '' @ path @ '' is not classified in '' @ MANIFEST) (sorted_list_of_fset (expected |-| by_path)) @
      map (\<lambda>path. ''manifest-stale-entry: '' @ path @ '' is classified in '' @ MANIFEST @ '' but no longer exists'')
        (sorted_list_of_fset (by_path |-| expected)) @
      map (\<lambda>path. ''manifest-duplicate-entry: '' @ path @ '' appears '' @ str_int (int (count_list classified path)) @ '' times in '' @ MANIFEST)
        (filter (\<lambda>path. 1 < count_list classified path) (sorted_list_of_fset by_path)))"

text \<open>The first entry of every path.\<close>

definition inventory_by_path :: "inventory_entry list \<Rightarrow> (string \<times> inventory_entry) list" where
  "inventory_by_path entries =
     foldl (\<lambda>d entry. if ie_path entry \<in> fst ` set d then d else d @ [(ie_path entry, entry)]) [] entries"

section \<open>Comments and lines\<close>

definition strip_lua_line_comment :: "string \<Rightarrow> string" where
  "strip_lua_line_comment l = (case comment_spans l False of [] \<Rightarrow> l | span # _ \<Rightarrow> take (sp_start span) l)"

definition strip_lua_comments :: "string \<Rightarrow> string" where
  "strip_lua_comments source = join [LF] (map strip_lua_line_comment (splitlines source))"

definition line_of :: "string \<Rightarrow> nat \<Rightarrow> nat" where "line_of source index = count_char source LF 0 index + 1"

section \<open>The states of the contract\<close>

definition states_in :: "string \<Rightarrow> string fset" where
  "states_in body = fset_of_list (map (\<lambda>found. group_or_empty found ''value'') (re_finditer LUA_STRING_RE (strip_lua_comments body)))"

definition load_states :: "tree \<Rightarrow> string \<Rightarrow> regex \<Rightarrow> string \<Rightarrow> string \<Rightarrow> string \<Rightarrow> string fset result" where
  "load_states t path r missing malformed name =
     (case tree_read t path of
        None \<Rightarrow> Raise (ValueError (missing @ '': '' @ path))
      | Some source \<Rightarrow>
          (case re_search r source of
             None \<Rightarrow> Raise (ValueError (malformed @ '': missing '' @ name @ '' literal in '' @ path))
           | Some found \<Rightarrow>
               let states = states_in (group_or_empty found ''body'') in
               if states = {||} then Raise (ValueError (malformed @ '': empty '' @ name @ '' literal in '' @ path)) else Return states))"

definition load_pr_phase_states :: "tree \<Rightarrow> string fset result" where
  "load_pr_phase_states t = load_states t CONTRACT PR_PHASE_BLOCK_RE ''contract-missing'' ''contract-malformed'' ''PR_PHASE_STATES''"

definition load_issue_contract_states :: "tree \<Rightarrow> string fset result" where
  "load_issue_contract_states t = load_states t CONTRACT ISSUE_STATES_BLOCK_RE ''contract-missing'' ''contract-malformed'' ''ISSUE_STATES''"

definition load_issue_lifecycle_states :: "tree \<Rightarrow> string fset result" where
  "load_issue_lifecycle_states t =
     load_states t ISSUE_PACKAGE_CORE ISSUE_LIFECYCLE_BLOCK_RE ''issue-package-core-missing'' ''issue-lifecycle-malformed''
       ''M.restart_lifecycle_states''"

definition issue_state_contract_messages :: "tree \<Rightarrow> string list result" where
  "issue_state_contract_messages t =
     bindR (load_issue_contract_states t) (\<lambda>contract_states.
     bindR (load_issue_lifecycle_states t) (\<lambda>package_states.
       Return
         (if contract_states = package_states then []
          else [''issue-state-contract-mismatch: contract-only=['' @ join '','' (sorted_list_of_fset (contract_states |-| package_states)) @
            ''] package-only=['' @ join '','' (sorted_list_of_fset (package_states |-| contract_states)) @ '']''])))"

section \<open>Calls that write a state\<close>

text \<open>The end of a call from \<open>index\<close>, inside \<open>depth\<close> parentheses and \<open>line_count\<close> lines after its start.\<close>

function call_end_from :: "string \<Rightarrow> nat \<Rightarrow> int \<Rightarrow> nat \<Rightarrow> nat \<Rightarrow> nat option" where
  "call_end_from source limit depth line_count index =
     (if limit \<le> index then None
      else
        (case literal_span_at source index False False of
           Some literal \<Rightarrow>
             (let lines = line_count + count_char source LF (sp_start literal) (sp_end literal) in
              if CALL_SCAN_MAX_LINES < lines then None else call_end_from source limit depth lines (sp_end literal))
         | None \<Rightarrow>
             (let lines = (if source ! index = LF then Suc line_count else line_count) in
              if source ! index = LF \<and> CALL_SCAN_MAX_LINES < lines then None
              else if source ! index = CHR ''('' then call_end_from source limit (depth + 1) lines (Suc index)
              else if source ! index = CHR '')''
              then (if depth = 1 then Some (Suc index) else call_end_from source limit (depth - 1) lines (Suc index))
              else call_end_from source limit depth lines (Suc index))))"
  by pat_completeness auto
termination
  by (relation "measure (\<lambda>(source, limit, depth, line_count, index). limit - index)") (auto dest: literal_span_at_moves)

declare call_end_from.simps [simp del]

definition call_end :: "string \<Rightarrow> nat \<Rightarrow> nat option" where
  "call_end source open_paren = call_end_from source (min (length source) (open_paren + CALL_SCAN_MAX_CHARS)) 0 0 open_paren"

text \<open>The arguments with the positions where they start.\<close>

function arguments_from :: "string \<Rightarrow> nat \<Rightarrow> int \<Rightarrow> nat \<Rightarrow> (string \<times> nat) list" where
  "arguments_from args_text start depth index =
     (if length args_text \<le> index then [(drop start args_text, start)]
      else
        (case literal_span_at args_text index False False of
           Some literal \<Rightarrow> arguments_from args_text start depth (sp_end literal)
         | None \<Rightarrow>
             (if args_text ! index \<in> {CHR ''('', CHR ''{'', CHR ''[''} then arguments_from args_text start (depth + 1) (Suc index)
              else if args_text ! index \<in> {CHR '')'', CHR ''}'', CHR '']''} then arguments_from args_text start (depth - 1) (Suc index)
              else if args_text ! index = CHR '','' \<and> depth = 0
              then (py_slice args_text start index, start) # arguments_from args_text (Suc index) depth (Suc index)
              else arguments_from args_text start depth (Suc index))))"
  by pat_completeness auto
termination
  by (relation "measure (\<lambda>(args_text, start, depth, index). length args_text - index)") (auto dest: literal_span_at_moves)

declare arguments_from.simps [simp del]

definition rfind_char :: "string \<Rightarrow> char \<Rightarrow> nat option" where
  "rfind_char s c = (if c \<in> set s then Some (length s - Suc (length (takeWhile (\<lambda>x. x \<noteq> c) (rev s)))) else None)"

definition call_arguments :: "string \<Rightarrow> (string \<times> nat) list" where
  "call_arguments call_text =
     (case (find_sub ''('' call_text, rfind_char call_text (CHR '')'')) of
        (Some open_paren, Some close_paren) \<Rightarrow>
          if close_paren \<le> open_paren then []
          else map (\<lambda>(arg, start). (arg, Suc open_paren + start)) (arguments_from (py_slice call_text (Suc open_paren) close_paren) 0 0 0)
      | _ \<Rightarrow> [])"

text \<open>\<open>text.rfind(sub, 0, index)\<close>\<close>

definition rfind_below :: "string \<Rightarrow> string \<Rightarrow> nat \<Rightarrow> nat option" where
  "rfind_below source sub index =
     (let starts = filter (\<lambda>i. startswith (drop i (take index source)) sub) [0..<Suc index] in
      if starts = [] then None else Some (last starts))"

fun or_option :: "'a option \<Rightarrow> 'a option \<Rightarrow> 'a option" where
  "or_option (Some x) y = Some x"
| "or_option None y = y"

definition enclosing_function_body :: "string \<Rightarrow> nat \<Rightarrow> string" where
  "enclosing_function_body source index =
     (case or_option (rfind_below source ''local function '' index) (rfind_below source ''function '' index) of
        None \<Rightarrow> []
      | Some function_start \<Rightarrow>
          py_slice source function_start
            (the_default (length source)
              (or_option (find_from source (LF # ''local function '') (Suc function_start))
                (find_from source (LF # ''function '') (Suc function_start)))))"

definition is_allowed_issue_to_pr_boundary_seed :: "string \<Rightarrow> string \<Rightarrow> nat \<Rightarrow> string \<Rightarrow> bool" where
  "is_allowed_issue_to_pr_boundary_seed path source index state \<longleftrightarrow>
     path = ''packages/github-devloop/core/pr_delegation.lua'' \<and> state = ''pr-open'' \<and>
     (let body = enclosing_function_body source index in
      contains ''build_pr_open_comment_request'' body \<and> contains ''pr_origin_marker'' body \<and> contains ''state_marker'' body)"

definition call_leaks :: "string \<Rightarrow> string \<Rightarrow> string fset \<Rightarrow> rematch \<Rightarrow> leak_site list" where
  "call_leaks path clean pr_phase_states call =
     (case (call_end clean (m_end call - 1), map_of STATE_WRITE_HELPERS (group_or_empty call ''helper'')) of
        (Some stop, Some (kind, state_arg_index)) \<Rightarrow>
          let args = call_arguments (py_slice clean (m_start call) stop) in
          if length args < state_arg_index then []
          else
            (case args ! (state_arg_index - 1) of (state_arg, state_arg_start) \<Rightarrow>
               map (\<lambda>literal. LeakSite path kind (group_or_empty literal ''value'')
                   (int (line_of clean (m_start call + state_arg_start + m_start literal))))
                 (filter (\<lambda>literal. group_or_empty literal ''value'' |\<in>| pr_phase_states \<and>
                     \<not> is_allowed_issue_to_pr_boundary_seed path clean (m_start call) (group_or_empty literal ''value''))
                   (re_finditer LUA_STRING_RE state_arg)))
      | _ \<Rightarrow> [])"

definition state_write_leaks :: "string \<Rightarrow> string \<Rightarrow> string fset \<Rightarrow> leak_site list" where
  "state_write_leaks path source pr_phase_states =
     (let clean = strip_lua_comments source in
      concat (map (call_leaks path clean pr_phase_states) (re_finditer STATE_WRITE_CALL_RE clean)))"

definition linked_leaks :: "string \<Rightarrow> string \<Rightarrow> leak_site list" where
  "linked_leaks path source =
     (let lines = splitlines source in
      map (\<lambda>(line_number, raw). LeakSite path ''linked-state-promotion'' ''linked-pr-comments'' (int line_number))
        (filter (\<lambda>(line_number, raw). re_search LINKED_STATE_RE (strip_lua_line_comment raw) \<noteq> None)
          (zip [1..<Suc (length lines)] lines)))"

definition source_leaks :: "string \<Rightarrow> string \<Rightarrow> string \<Rightarrow> string fset \<Rightarrow> leak_site fset" where
  "source_leaks path owner source pr_phase_states =
     (if owner = ''pr'' then {||}
      else fset_of_list (state_write_leaks path source pr_phase_states @ linked_leaks path source))"

text \<open>
  The text of a path of the manifest, which is taken for one inside the repository: without empty parts and \<open>.\<close>; a
  directory exists, too, and cannot be read.
\<close>

definition inside_path :: "string \<Rightarrow> string" where
  "inside_path path = join ''/'' (filter (\<lambda>part. part \<noteq> [] \<and> part \<noteq> ''.'') (path_parts path))"

definition read_inside :: "tree \<Rightarrow> string \<Rightarrow> string option result" where
  "read_inside t path =
     (case tree_read t (inside_path path) of
        Some source \<Rightarrow> Return (Some source)
      | None \<Rightarrow>
          if inside_path path = [] \<or> dir_exists t (inside_path path) then Raise (OSError (''Is a directory: '' @ inside_path path))
          else Return None)"

definition current_leaks :: "tree \<Rightarrow> inventory_entry list \<Rightarrow> string fset \<Rightarrow> leak_site fset result" where
  "current_leaks t entries pr_phase_states =
     bindR (mapR (\<lambda>(path, entry).
         if ie_owner entry = ''pr'' then Return {||}
         else bindR (read_inside t path) (\<lambda>source.
           Return (case source of None \<Rightarrow> {||} | Some s \<Rightarrow> source_leaks path (ie_owner entry) s pr_phase_states)))
       (sort_key fst (inventory_by_path entries))) (\<lambda>found. Return (fold (|\<union>|) found {||}))"

section \<open>The ratchet\<close>

definition load_allowlist_line :: "string \<Rightarrow> leak_site list result" where
  "load_allowlist_line raw =
     (let stripped = strip raw in
      if stripped = [] \<or> startswith stripped ''#'' then Return [] else bindR (parse_site stripped) (\<lambda>site. Return [site]))"

definition load_allowlist :: "tree \<Rightarrow> leak_site fset result" where
  "load_allowlist t =
     (case tree_read t ALLOWLIST of
        None \<Rightarrow> Return {||}
      | Some source \<Rightarrow> bindR (mapR load_allowlist_line (splitlines source)) (\<lambda>sites. Return (fset_of_list (concat sites))))"

definition parse_dev_line :: "string \<Rightarrow> leak_site list result" where
  "parse_dev_line raw =
     (if strip raw = [] \<or> startswith (lstrip raw) ''#'' then Return [] else bindR (parse_site (strip raw)) (\<lambda>site. Return [site]))"

definition parse_dev_allowlist_lines :: "string list \<Rightarrow> leak_site fset result" where
  "parse_dev_allowlist_lines lines = bindR (mapR parse_dev_line lines) (\<lambda>sites. Return (fset_of_list (concat sites)))"

definition covered_by_allowlist :: "leak_site \<Rightarrow> leak_site fset \<Rightarrow> bool" where
  "covered_by_allowlist site allowlist \<longleftrightarrow> fBex allowlist (\<lambda>entry. site_key entry = site_key site)"

definition ratchet_messages :: "leak_site fset \<Rightarrow> leak_site fset \<Rightarrow> leak_site fset option \<Rightarrow> string list" where
  "ratchet_messages leaks allowlist base_allowlist =
     map (\<lambda>site. ''leak-new: '' @ site_label site @ '' writes or parses PR-phase authority from a non-PR owner'')
       (filter (\<lambda>site. \<not> covered_by_allowlist site allowlist) (sorted_list_of_fset leaks)) @
     map (\<lambda>entry. ''allowlist-stale: '' @ site_label entry @ '' no longer matches saga-split authority debt'')
       (filter (\<lambda>entry. \<not> covered_by_allowlist entry leaks) (sorted_list_of_fset allowlist)) @
     (case base_allowlist of None \<Rightarrow> []
      | Some base \<Rightarrow>
          map (\<lambda>entry. ''allowlist-growth: '' @ site_label entry @ '' grows '' @ ALLOWLIST @ '' relative to dev'')
            (filter (\<lambda>entry. \<not> covered_by_allowlist entry base) (sorted_list_of_fset allowlist)))"

text \<open>\<open>except ValueError as exc: messages.append(str(exc))\<close>, with a value to go on with.\<close>

definition or_message :: "'a \<Rightarrow> 'a result \<Rightarrow> ('a \<times> string list) result" where
  "or_message fallback r =
     (case r of Inr x \<Rightarrow> Return (x, []) | Inl e \<Rightarrow> if is_value_error e then Return (fallback, [str_exc e]) else Raise e)"

definition repository_messages :: "environ \<Rightarrow> git \<Rightarrow> json_diag \<Rightarrow> (json \<Rightarrow> string) \<Rightarrow> tree \<Rightarrow> check_message list result" where
  "repository_messages env git diag str_other t =
     bindR (load_manifest diag str_other (tree_read t MANIFEST)) (\<lambda>(entries, messages).
     bindR (or_message [] (issue_state_contract_messages t)) (\<lambda>(contract, contract_errors).
     bindR (or_message {||} (load_pr_phase_states t)) (\<lambda>(pr_phase_states, phase_errors).
     bindR (current_leaks t entries pr_phase_states) (\<lambda>leaks.
     bindR (load_allowlist t) (\<lambda>allowlist.
       let base = allowlist_at_dev_base env git ALLOWLIST parse_dev_allowlist_lines in
       Return
         (map Violation (messages @ manifest_messages t entries @ contract @ contract_errors @ phase_errors) @
          unresolved_failure ''allowlist-base-unresolved: cannot resolve dev base allowlist to enforce shrink-only ratchet'' base @
          map Violation (ratchet_messages leaks allowlist (base_value base))))))))"

section \<open>Scans of calls\<close>

lemma call_end_from_bounds:
  "call_end_from source limit depth line_count index = Some stop \<Longrightarrow>
     index < stop \<and> stop \<le> limit \<and> source ! (stop - 1) = CHR '')''"
proof (induction source limit depth line_count index rule: call_end_from.induct)
  case (1 source limit depth line_count index)
  note eq = call_end_from.simps [of source limit depth line_count index]
  have index: "index < limit" using "1.prems" by (cases "limit \<le> index") (auto simp: eq)
  show ?case
  proof (cases "literal_span_at source index False False")
    case (Some literal)
    let ?lines = "line_count + count_char source LF (sp_start literal) (sp_end literal)"
    have few: "\<not> CALL_SCAN_MAX_LINES < ?lines" and rec: "call_end_from source limit depth ?lines (sp_end literal) = Some stop"
      using "1.prems" index Some by (auto simp: eq Let_def split: if_splits)
    from "1.IH"(4) [OF _ Some refl few rec] index literal_span_at_moves [OF Some] show ?thesis by auto
  next
    case None
    let ?lines = "if source ! index = LF then Suc line_count else line_count"
    have few: "\<not> (source ! index = LF \<and> CALL_SCAN_MAX_LINES < ?lines)"
      using "1.prems" index None by (auto simp: eq Let_def split: if_splits)
    from "1.prems" index None few consider
        "source ! index = CHR ''(''" "call_end_from source limit (depth + 1) ?lines (Suc index) = Some stop"
      | "source ! index = CHR '')''" "depth = 1" "stop = Suc index"
      | "source ! index = CHR '')''" "depth \<noteq> 1" "call_end_from source limit (depth - 1) ?lines (Suc index) = Some stop"
      | "source ! index \<noteq> CHR ''(''" "source ! index \<noteq> CHR '')''" "call_end_from source limit depth ?lines (Suc index) = Some stop"
      by (auto simp: eq Let_def split: if_splits)
    then show ?thesis
    proof cases
      case 1
      with "1.IH"(1) [OF _ None refl few 1(1,2)] index show ?thesis by auto
    next
      case 2
      with index show ?thesis by auto
    next
      case 3
      with "1.IH"(2) [OF _ None refl few _ 3(1,2,3)] index show ?thesis by auto
    next
      case 4
      with "1.IH"(3) [OF _ None refl few 4] index show ?thesis by auto
    qed
  qed
qed

text \<open>The end of a call lies behind a closing parenthesis, at most 12000 characters after the opening one.\<close>

lemma call_end_bounds:
  "call_end source open_paren = Some stop \<Longrightarrow>
     open_paren < stop \<and> stop \<le> length source \<and> stop \<le> open_paren + CALL_SCAN_MAX_CHARS \<and> source ! (stop - 1) = CHR '')''"
  unfolding call_end_def by (drule call_end_from_bounds) simp

section \<open>A manifest without objections\<close>

text \<open>The entries of a line that nothing is said about: none of a blank line or comment, the one of an object with an owner and a reason.\<close>

definition line_entry :: "(json \<Rightarrow> string) \<Rightarrow> string \<Rightarrow> inventory_entry list option" where
  "line_entry str_other raw =
     (if strip raw = [] \<or> startswith (strip raw) ''#'' then Some []
      else
        (case json_loads (strip raw) of
           Some (JObj doc) \<Rightarrow>
             let text_of = (\<lambda>key. str_json str_other (jget_or doc key (JStr []))) in
             if text_of ''owner'' \<in> set OWNERS \<and> text_of ''reason'' \<noteq> []
             then Some [InventoryEntry (text_of ''path'') (text_of ''owner'') (text_of ''reason'')] else None
         | _ \<Rightarrow> None))"

definition accepted_entries :: "(json \<Rightarrow> string) \<Rightarrow> string option \<Rightarrow> inventory_entry list option" where
  "accepted_entries str_other given =
     (case given of None \<Rightarrow> None | Some source \<Rightarrow> map_option concat (those (map (line_entry str_other) (splitlines source))))"

lemma load_line_accepted: "load_line diag str_other (n, raw) = Inr (es, []) \<longleftrightarrow> line_entry str_other raw = Some es"
  by (auto simp: load_line_def line_entry_def entry_messages_def Let_def split: option.splits json.splits if_splits)

lemma load_lines_accepted:
  "(\<exists>read. mapR (load_line diag str_other) numbered = Inr read \<and> concat (map fst read) = es \<and> concat (map snd read) = []) \<longleftrightarrow>
     map_option concat (those (map (line_entry str_other) (map snd numbered))) = Some es"
proof (induction numbered arbitrary: es)
  case (Cons line numbered)
  obtain n raw where line: "line = (n, raw)" by (cases line)
  have "(\<exists>read. mapR (load_line diag str_other) ((n, raw) # numbered) = Inr read \<and>
       concat (map fst read) = es \<and> concat (map snd read) = []) \<longleftrightarrow>
     (\<exists>e es'. load_line diag str_other (n, raw) = Inr (e, []) \<and> es = e @ es' \<and>
        (\<exists>read. mapR (load_line diag str_other) numbered = Inr read \<and> concat (map fst read) = es' \<and> concat (map snd read) = []))"
    (is "?l \<longleftrightarrow> ?r")
  proof
    assume ?l
    then obtain e m read where "load_line diag str_other (n, raw) = Inr (e, m)" "mapR (load_line diag str_other) numbered = Inr read"
      "es = e @ concat (map fst read)" "m @ concat (map snd read) = []" by (fastforce simp: bindR_eq_Inr)
    then show ?r by (metis append_is_Nil_conv)
  next
    assume ?r
    then obtain e read where "load_line diag str_other (n, raw) = Inr (e, [])" "mapR (load_line diag str_other) numbered = Inr read"
      "es = e @ concat (map fst read)" "concat (map snd read) = []" by blast
    then show ?l by (intro exI [of _ "(e, []) # read"]) simp
  qed
  then show ?case unfolding line Cons.IH load_line_accepted by (auto split: option.splits)
qed simp

lemma load_manifest_accepted:
  "load_manifest diag str_other given = Inr (es, []) \<longleftrightarrow> accepted_entries str_other given = Some es"
proof (cases given)
  case (Some source)
  let ?lines = "splitlines source"
  have reads: "load_manifest diag str_other given = Inr (es, []) \<longleftrightarrow>
      (\<exists>read. mapR (load_line diag str_other) (zip [1..<Suc (length ?lines)] ?lines) = Inr read \<and>
       concat (map fst read) = es \<and> concat (map snd read) = [])"
    unfolding load_manifest_def Some option.case Let_def bindR_eq_Inr by blast
  have numbered: "map snd (zip [1..<Suc (length ?lines)] ?lines) = ?lines" by (simp del: upt_Suc)
  show ?thesis unfolding reads load_lines_accepted numbered by (simp add: accepted_entries_def Some)
qed (simp add: load_manifest_def accepted_entries_def)

lemma manifest_messages_Nil:
  "manifest_messages t entries = [] \<longleftrightarrow> distinct (map ie_path entries) \<and> fset_of_list (map ie_path entries) = expected_paths t"
proof -
  have "(\<forall>path \<in> set xs. count_list xs path \<le> 1) \<longleftrightarrow> distinct xs" for xs :: "string list"
    by (induction xs) (auto simp: count_list_0_iff le_Suc_eq split: if_splits)
  from this [of "map ie_path entries"] show ?thesis
    unfolding manifest_messages_def Let_def append_is_Nil_conv map_is_Nil_conv sorted_list_of_fset_Nil fminus_empty filter_empty_conv
    by (auto simp: fset_of_list.rep_eq not_less)
qed

section \<open>What the check says\<close>

lemma site_key_inject [simp]: "site_key s = site_key s' \<longleftrightarrow> s = s'"
  by (cases s; cases s') (auto simp: site_key_def dest: arg_cong [where f = int_of_str])

lemma site_covered_iff [simp]: "covered_by_allowlist site allowlist \<longleftrightarrow> site |\<in>| allowlist"
  by (auto simp: covered_by_allowlist_def)

lemma ratchet_messages_Nil:
  "ratchet_messages leaks allowlist base_allowlist = [] \<longleftrightarrow>
     leaks = allowlist \<and> (case base_allowlist of None \<Rightarrow> True | Some base \<Rightarrow> allowlist |\<subseteq>| base)"
  by (auto simp: ratchet_messages_def filter_empty_conv split: option.split)

interpretation split_ratchet: shrink_only_ratchet
  "\<lambda>leaks allowlist base. ratchet_messages leaks allowlist base = []" "\<lambda>leaks. leaks" "\<lambda>allowlist. allowlist" "(|\<subseteq>|)"
  by unfold_locales (auto simp: ratchet_messages_Nil)

text \<open>Along a history of clean commits every leak was listed from the start.\<close>

lemma split_history_shrinks:
  "clean_history (\<lambda>leaks allowlist base. ratchet_messages leaks allowlist base = []) base history \<Longrightarrow>
     (leaks, allowlist) \<in> set history \<Longrightarrow> leaks |\<subseteq>| base"
  by (rule split_ratchet.history_debt)

text \<open>What the files of a manifest without duplicates leak: every file that the pull-request side does not own is read.\<close>

definition entry_leaks :: "tree \<Rightarrow> string fset \<Rightarrow> inventory_entry \<Rightarrow> leak_site fset result" where
  "entry_leaks t pr_phase_states entry =
     (if ie_owner entry = ''pr'' then Return {||}
      else bindR (read_inside t (ie_path entry)) (\<lambda>source.
        Return (case source of None \<Rightarrow> {||} | Some s \<Rightarrow> source_leaks (ie_path entry) (ie_owner entry) s pr_phase_states)))"

lemma inventory_distinct: "distinct (map ie_path entries) \<Longrightarrow> inventory_by_path entries = map (\<lambda>e. (ie_path e, e)) entries"
proof (induction entries rule: rev_induct)
  case (snoc e entries)
  then show ?case by (auto simp: inventory_by_path_def image_iff)
qed (simp add: inventory_by_path_def)

lemma sort_pairs: "sort_key fst (map (\<lambda>e. (f e, e)) xs) = map (\<lambda>e. (f e, e)) (sort_key f xs)"
proof -
  have "insort_key fst (f x, x) (map (\<lambda>e. (f e, e)) ys) = map (\<lambda>e. (f e, e)) (insort_key f x ys)" for x ys
    by (induction ys) auto
  then show ?thesis by (induction xs) auto
qed

lemma fold_funion: "x |\<in>| fold (|\<union>|) sets S \<longleftrightarrow> x |\<in>| S \<or> (\<exists>s \<in> set sets. x |\<in>| s)"
  by (induction sets arbitrary: S) auto

lemma list_all2_members:
  "list_all2 P xs ys \<Longrightarrow> (\<forall>x \<in> set xs. \<exists>y \<in> set ys. P x y) \<and> (\<forall>y \<in> set ys. \<exists>x \<in> set xs. P x y)"
  by (induction rule: list_all2_induct) auto

definition leaks_are :: "tree \<Rightarrow> string fset \<Rightarrow> inventory_entry list \<Rightarrow> leak_site fset \<Rightarrow> bool" where
  "leaks_are t pr_phase_states entries leaks \<longleftrightarrow>
     list_all (\<lambda>e. \<exists>s. entry_leaks t pr_phase_states e = Return s) entries \<and>
     (\<forall>site. site |\<in>| leaks \<longleftrightarrow> (\<exists>e \<in> set entries. \<exists>s. entry_leaks t pr_phase_states e = Return s \<and> site |\<in>| s))"

lemma current_leaks_iff:
  assumes "distinct (map ie_path entries)"
  shows "current_leaks t entries pr_phase_states = Return leaks \<longleftrightarrow> leaks_are t pr_phase_states entries leaks"
proof -
  let ?sorted = "sort_key ie_path entries" and ?f = "entry_leaks t pr_phase_states"
  have pairs: "sort_key fst (inventory_by_path entries) = map (\<lambda>e. (ie_path e, e)) ?sorted"
    using assms by (simp add: inventory_distinct sort_pairs)
  have "mapR (\<lambda>(path, entry).
         if ie_owner entry = ''pr'' then Return {||}
         else bindR (read_inside t path) (\<lambda>source.
           Return (case source of None \<Rightarrow> {||} | Some s \<Rightarrow> source_leaks path (ie_owner entry) s pr_phase_states)))
       (map (\<lambda>e. (ie_path e, e)) es) = mapR ?f es" for es
    by (induction es) (simp_all add: entry_leaks_def)
  then have "current_leaks t entries pr_phase_states = Return leaks \<longleftrightarrow>
      (\<exists>found. mapR ?f ?sorted = Return found \<and> fold (|\<union>|) found {||} = leaks)"
    by (auto simp: current_leaks_def pairs bindR_eq_Inr)
  also have "\<dots> \<longleftrightarrow> leaks_are t pr_phase_states entries leaks"
  proof
    assume "\<exists>found. mapR ?f ?sorted = Return found \<and> fold (|\<union>|) found {||} = leaks"
    then obtain found where found: "list_all2 (\<lambda>e s. ?f e = Return s) ?sorted found" "fold (|\<union>|) found {||} = leaks"
      by (auto simp: mapR_Inr)
    note both = list_all2_members [OF found(1), simplified]
    show "leaks_are t pr_phase_states entries leaks"
      unfolding leaks_are_def list_all_iff found(2) [symmetric] fold_funion using both by auto (metis Inr_inject)+
  next
    assume r: "leaks_are t pr_phase_states entries leaks"
    then have "\<forall>e \<in> set ?sorted. \<exists>s. ?f e = Return s" by (simp add: leaks_are_def list_all_iff)
    then obtain g where g: "\<And>e. e \<in> set ?sorted \<Longrightarrow> ?f e = Return (g e)" by metis
    then have "mapR ?f ?sorted = Return (map g ?sorted)" by (rule mapR_map)
    moreover have "fold (|\<union>|) (map g ?sorted) {||} = leaks"
      using r g by (auto simp: fset_eq_iff fold_funion leaks_are_def)
    ultimately show "\<exists>found. mapR ?f ?sorted = Return found \<and> fold (|\<union>|) found {||} = leaks" by blast
  qed
  finally show ?thesis .
qed

text \<open>
  The check is silent exactly if the manifest decodes and classifies every file of the sagas once, the two lists of
  issue states agree, and the leaks of files that the pull-request side does not own are those of the allowlist.
\<close>

definition split_clean :: "environ \<Rightarrow> git \<Rightarrow> (json \<Rightarrow> string) \<Rightarrow> tree \<Rightarrow> bool" where
  "split_clean env git str_other t \<longleftrightarrow>
     (case (accepted_entries str_other (tree_read t MANIFEST), load_pr_phase_states t, load_allowlist t) of
        (Some entries, Inr pr_phase_states, Inr allowlist) \<Rightarrow>
          distinct (map ie_path entries) \<and> fset_of_list (map ie_path entries) = expected_paths t \<and>
          (\<exists>states. load_issue_contract_states t = Inr states \<and> load_issue_lifecycle_states t = Inr states) \<and>
          leaks_are t pr_phase_states entries allowlist \<and>
          (case allowlist_at_dev_base env git ALLOWLIST parse_dev_allowlist_lines of
             BaseUnresolved \<Rightarrow> False | BaseAbsent \<Rightarrow> True | BasePresent base \<Rightarrow> allowlist |\<subseteq>| base)
      | _ \<Rightarrow> False)"

lemma state_contract_Nil:
  "issue_state_contract_messages t = Inr [] \<longleftrightarrow>
     (\<exists>states. load_issue_contract_states t = Inr states \<and> load_issue_lifecycle_states t = Inr states)"
  by (auto simp: issue_state_contract_messages_def bindR_eq_Inr split: if_splits)

lemma or_message_Nil: "or_message fallback r = Inr (x, []) \<longleftrightarrow> r = Inr x"
  by (auto simp: or_message_def split: sum.splits if_splits)

lemma unresolved_Nil: "unresolved_failure message base = [] \<longleftrightarrow> base \<noteq> BaseUnresolved"
  by (auto simp: unresolved_failure_def split: base_allowlist.splits)

text \<open>
  C15. The check of the split finds nothing exactly if the manifest holds one accepted entry for every file of the sagas
  and nothing else, the contract and the package state the same issue states, the writes and readings of
  pull-request phases outside the files that own them are exactly the ones of the allowlist, and none of these is
  new since the base.
\<close>

theorem split_check_clean_iff: "repository_messages env git diag str_other t = Return [] \<longleftrightarrow> split_clean env git str_other t"
proof -
  let ?base = "allowlist_at_dev_base env git ALLOWLIST parse_dev_allowlist_lines"
  have "repository_messages env git diag str_other t = Return [] \<longleftrightarrow>
      (\<exists>entries pr_phase_states leaks allowlist.
         load_manifest diag str_other (tree_read t MANIFEST) = Inr (entries, []) \<and>
         or_message [] (issue_state_contract_messages t) = Inr ([], []) \<and>
         or_message {||} (load_pr_phase_states t) = Inr (pr_phase_states, []) \<and>
         current_leaks t entries pr_phase_states = Inr leaks \<and> load_allowlist t = Inr allowlist \<and>
         manifest_messages t entries = [] \<and> ?base \<noteq> BaseUnresolved \<and> ratchet_messages leaks allowlist (base_value ?base) = [])"
    unfolding repository_messages_def bindR_eq_Inr Let_def split_paired_Ex prod.case Inr_Inl_False sum.inject append_is_Nil_conv
      map_is_Nil_conv unresolved_Nil by blast
  also have "\<dots> \<longleftrightarrow>
      (\<exists>entries pr_phase_states allowlist.
         accepted_entries str_other (tree_read t MANIFEST) = Some entries \<and> load_pr_phase_states t = Inr pr_phase_states \<and>
         load_allowlist t = Inr allowlist \<and>
         (\<exists>states. load_issue_contract_states t = Inr states \<and> load_issue_lifecycle_states t = Inr states) \<and>
         distinct (map ie_path entries) \<and> fset_of_list (map ie_path entries) = expected_paths t \<and>
         leaks_are t pr_phase_states entries allowlist \<and> ?base \<noteq> BaseUnresolved \<and>
         (case base_value ?base of None \<Rightarrow> True | Some base \<Rightarrow> allowlist |\<subseteq>| base))"
    unfolding load_manifest_accepted or_message_Nil state_contract_Nil manifest_messages_Nil ratchet_messages_Nil
    using current_leaks_iff by blast
  also have "\<dots> \<longleftrightarrow> split_clean env git str_other t"
    unfolding split_clean_def by (cases ?base) (auto simp: base_value_def split: option.split sum.split)
  finally show ?thesis .
qed

end
