(* ===== verification/IntakeRouting.thy ===== *)
theory IntakeRouting
  imports TestShape PyJson
begin

text \<open>
  \<^verbatim>\<open>scripts/check_repo_intake_routing.py\<close>: what the thin intake package may produce, which packages consume its
  candidates, and the slots of the manifest of policies, of which a topology loads one implementation each.

  Shown here: the legal topologies are exactly the choices of packages that load one implementation of every slot, as
  long as no package implements two slots; the manifest check does not demand that, and then it fails.
\<close>

section \<open>Names and patterns\<close>

definition INTAKE_PACKAGE :: string where "INTAKE_PACKAGE = ''github-devloop-intake''"
definition POLICY_SLOT_MANIFEST :: string where "POLICY_SLOT_MANIFEST = ''scripts/intake_policy_slots.json''"
definition POLICY_SLOT_SCHEMA :: string where "POLICY_SLOT_SCHEMA = ''fkst.package-topology-policy-slots.v1''"
definition INTAKE_POLICY_SLOT :: string where "INTAKE_POLICY_SLOT = ''intake-policy''"

definition LIFECYCLE_FORWARD_QUEUES :: "string list" where
  "LIFECYCLE_FORWARD_QUEUES =
     [''devloop_ready'', ''devloop_reviewing'', ''devloop_fixing'', ''devloop_merge_ready'', ''devloop_merge'', ''devloop_reconcile'',
      ''devloop_review_reconcile'', ''devloop_execute_request'', ''devloop_decompose'', ''devloop_liveness_tick'']"

definition quotes :: regex where "quotes = RSet (\<lambda>c. c = DQ \<or> c = SQ)"

definition SPEC_FIELD_RE :: regex where
  "SPEC_FIELD_RE =
     rseq [RWordB, RGroup ''field'' (RAlt (rlit ''consumes'') (rlit ''produces'')), rblank, rchar CHR ''='', rblank, rchar CHR ''{'',
       RGroup ''body'' (RStar False (RSet (\<lambda>_. True))), rchar CHR ''}'']"

definition RAISER_FIELD_RE :: regex where
  "RAISER_FIELD_RE =
     rseq [RWordB, RGroup ''field'' (RAlt (rlit ''type'') (rlit ''produces'')), rblank, rchar CHR ''='', rblank, RGroup ''quote'' quotes,
       RGroup ''value'' (rplus (RSet (\<lambda>c. c \<noteq> DQ \<and> c \<noteq> SQ))), RBackref ''quote'']"

definition LITERAL_RE :: regex where
  "LITERAL_RE = rseq [RGroup ''quote'' quotes, RGroup ''value'' (rplus (RSet module_char)), RBackref ''quote'']"

definition STATE_MARKER_CALL_RE :: regex where
  "STATE_MARKER_CALL_RE =
     rseq [RWordB, ropt (rseq [RIDENT, rblank, rchar CHR ''.'', rblank]), rlit ''state_marker'', rblank, rchar CHR ''('']"

definition ISSUE_LIST_RE :: regex where "ISSUE_LIST_RE = rseq [RWordB, rlit ''issue_list'', RWordB]"

section \<open>Slots of the manifest\<close>

datatype policy_implementation = PolicyImplementation (pi_package: string) (pi_topology: string)

record policy_slot =
  slot_name :: string
  slot_queue :: string
  slot_implementations :: "policy_implementation list"

record legal_topology =
  topology_name :: string
  topology_excluded :: "string list"

definition slot_packages :: "policy_slot \<Rightarrow> string fset" where
  "slot_packages slot = fset_of_list (map pi_package (slot_implementations slot))"

text \<open>Messages about the manifest; \<open>show_repr\<close> is \<open>repr()\<close> of a text.\<close>

definition manifest_error :: "string \<Rightarrow> 'a result" where
  "manifest_error what = Raise (ValueError (POLICY_SLOT_MANIFEST @ '' '' @ what))"

definition required_string :: "(string \<Rightarrow> string) \<Rightarrow> jobject \<Rightarrow> string \<Rightarrow> string result" where
  "required_string show_repr raw key =
     (case as_str (jget raw key) of
        None \<Rightarrow> manifest_error (key @ '' must be a non-empty string'')
      | Some v \<Rightarrow>
          if v = [] then manifest_error (key @ '' must be a non-empty string'')
          else if \<not> fullmatches (rplus (RSet module_char)) v then manifest_error (key @ '' has invalid value '' @ show_repr v)
          else Return v)"

fun implementations_from ::
    "(string \<Rightarrow> string) \<Rightarrow> string \<Rightarrow> string list \<Rightarrow> string list \<Rightarrow> json list \<Rightarrow> policy_implementation list result" where
  "implementations_from show_repr slot seen_packages seen_topologies [] = Return []"
| "implementations_from show_repr slot seen_packages seen_topologies (raw # rest) =
     (case as_obj raw of
        None \<Rightarrow> manifest_error (''slot '' @ show_repr slot @ '' implementation entries must be objects'')
      | Some d \<Rightarrow>
          bindR (required_string show_repr d ''package'') (\<lambda>package.
          bindR (required_string show_repr d ''topology'') (\<lambda>topology.
            if package \<in> set seen_packages then manifest_error (''slot '' @ show_repr slot @ '' duplicate package '' @ show_repr package)
            else if topology \<in> set seen_topologies
            then manifest_error (''slot '' @ show_repr slot @ '' duplicate topology '' @ show_repr topology)
            else
              bindR (implementations_from show_repr slot (package # seen_packages) (topology # seen_topologies) rest) (\<lambda>rest.
                Return (PolicyImplementation package topology # rest)))))"

fun slots_from :: "(string \<Rightarrow> string) \<Rightarrow> string list \<Rightarrow> json list \<Rightarrow> policy_slot list result" where
  "slots_from show_repr seen_slot_names [] = Return []"
| "slots_from show_repr seen_slot_names (raw # rest) =
     (case as_obj raw of
        None \<Rightarrow> manifest_error ''policy_slots entries must be objects''
      | Some d \<Rightarrow>
          bindR (required_string show_repr d ''name'') (\<lambda>slot.
            if slot \<in> set seen_slot_names then manifest_error (''duplicate policy slot '' @ show_repr slot)
            else
              bindR (required_string show_repr d ''consumer_queue'') (\<lambda>consumer_queue.
              bindR
                (case as_arr (jget d ''implementations'') of
                   None \<Rightarrow> manifest_error (''slot '' @ show_repr slot @ '' must declare at least two implementations'')
                 | Some raws \<Rightarrow>
                     if length raws < 2 then manifest_error (''slot '' @ show_repr slot @ '' must declare at least two implementations'')
                     else implementations_from show_repr slot [] [] raws) (\<lambda>implementations.
              bindR (slots_from show_repr (slot # seen_slot_names) rest) (\<lambda>slots.
                Return (\<lparr>slot_name = slot, slot_queue = consumer_queue, slot_implementations = implementations\<rparr> # slots))))))"

text \<open>\<open>missing\<close> is what the system says of a file that does not exist.\<close>

definition load_policy_slots :: "json_diag \<Rightarrow> string \<Rightarrow> (string \<Rightarrow> string) \<Rightarrow> tree \<Rightarrow> policy_slot list result" where
  "load_policy_slots diag missing show_repr t =
     (case tree_read t POLICY_SLOT_MANIFEST of
        None \<Rightarrow> Raise (OSError missing)
      | Some source \<Rightarrow>
          (case json_loads source of
             None \<Rightarrow> Raise (JSONDecodeError (diag_str diag source))
           | Some (JObj raw) \<Rightarrow>
               if jget raw ''schema'' \<noteq> JStr POLICY_SLOT_SCHEMA
               then manifest_error (''schema must be '' @ show_repr POLICY_SLOT_SCHEMA)
               else
                 (case as_arr (jget raw ''policy_slots'') of
                    None \<Rightarrow> manifest_error ''policy_slots must be a non-empty list''
                  | Some slots_raw \<Rightarrow>
                      if slots_raw = [] then manifest_error ''policy_slots must be a non-empty list''
                      else slots_from show_repr [] slots_raw)
           | Some _ \<Rightarrow> Raise AttributeError))"

definition policy_slot_messages :: "json_diag \<Rightarrow> string \<Rightarrow> (string \<Rightarrow> string) \<Rightarrow> tree \<Rightarrow> string list result" where
  "policy_slot_messages diag missing show_repr t =
     (case load_policy_slots diag missing show_repr t of
        Inl e \<Rightarrow>
          if is_os_error e \<or> is_value_error e
          then Return [POLICY_SLOT_MANIFEST @ '': invalid policy-slot manifest: '' @ str_exc e] else Raise e
      | Inr slots \<Rightarrow>
          Return
            (if list_ex (\<lambda>slot. slot_name slot = INTAKE_POLICY_SLOT) slots then []
             else [POLICY_SLOT_MANIFEST @ '': missing required policy slot '' @ show_repr INTAKE_POLICY_SLOT]))"

definition intake_policy_slot :: "json_diag \<Rightarrow> string \<Rightarrow> (string \<Rightarrow> string) \<Rightarrow> tree \<Rightarrow> policy_slot result" where
  "intake_policy_slot diag missing show_repr t =
     bindR (load_policy_slots diag missing show_repr t) (\<lambda>slots.
       case find (\<lambda>slot. slot_name slot = INTAKE_POLICY_SLOT) slots of
         Some slot \<Rightarrow> Return slot
       | None \<Rightarrow> manifest_error (''missing required policy slot '' @ show_repr INTAKE_POLICY_SLOT))"

section \<open>Topologies\<close>

definition excluded_packages :: "policy_slot list \<Rightarrow> policy_implementation list \<Rightarrow> string fset" where
  "excluded_packages slots selected =
     fset_of_list (concat (map (\<lambda>(slot, chosen).
       filter (\<lambda>package. package \<noteq> pi_package chosen) (map pi_package (slot_implementations slot))) (zip slots selected)))"

definition topology_of :: "policy_slot list \<Rightarrow> policy_implementation list \<Rightarrow> legal_topology" where
  "topology_of slots selected =
     \<lparr>topology_name = join ''+'' (map pi_topology selected), topology_excluded = sorted_list_of_fset (excluded_packages slots selected)\<rparr>"

definition legal_topologies :: "policy_slot list \<Rightarrow> legal_topology list" where
  "legal_topologies slots = map (topology_of slots) (product_lists (map slot_implementations slots))"

definition show_list :: "(string \<Rightarrow> string) \<Rightarrow> string list \<Rightarrow> string" where
  "show_list show_repr xs = ''['' @ join '', '' (map show_repr xs) @ '']''"

definition exclusivity_message :: "(string \<Rightarrow> string) \<Rightarrow> string fset \<Rightarrow> policy_slot \<Rightarrow> string list" where
  "exclusivity_message show_repr loaded_packages slot =
     (let loaded = sorted_list_of_fset (slot_packages slot |\<inter>| loaded_packages) in
      if length loaded = 1 then []
      else [''topology must load exactly one implementation of policy slot '' @ show_repr (slot_name slot) @ ''; loaded '' @
        (if loaded = [] then ''none'' else show_list show_repr loaded) @ '' from '' @
        show_list show_repr (sorted_list_of_fset (slot_packages slot))])"

definition topology_exclusivity_messages :: "(string \<Rightarrow> string) \<Rightarrow> policy_slot list \<Rightarrow> string fset \<Rightarrow> string list" where
  "topology_exclusivity_messages show_repr slots loaded_packages = concat (map (exclusivity_message show_repr loaded_packages) slots)"

text \<open>The two commands: the rows that are printed and the exit status.\<close>

definition topology_rows :: "json_diag \<Rightarrow> string \<Rightarrow> (string \<Rightarrow> string) \<Rightarrow> tree \<Rightarrow> (string list \<times> nat) result" where
  "topology_rows diag missing show_repr t =
     bindR (load_policy_slots diag missing show_repr t) (\<lambda>slots.
       Return (map (\<lambda>topology. topology_name topology @ [TAB] @ join '','' (topology_excluded topology)) (legal_topologies slots), 0))"

definition assert_topology :: "json_diag \<Rightarrow> string \<Rightarrow> (string \<Rightarrow> string) \<Rightarrow> tree \<Rightarrow> string list \<Rightarrow> (string list \<times> nat) result" where
  "assert_topology diag missing show_repr t packages =
     bindR (load_policy_slots diag missing show_repr t) (\<lambda>slots.
       let messages = topology_exclusivity_messages show_repr slots (fset_of_list packages) in
       Return (messages, if messages = [] then 0 else 1))"

section \<open>Sources\<close>

record lua_source =
  src_relpath :: string
  src_text :: string

definition src_package :: "lua_source \<Rightarrow> string option" where
  "src_package source =
     (case path_parts (src_relpath source) of
        root # package # _ \<Rightarrow> if root = ''packages'' then Some package else None
      | _ \<Rightarrow> None)"

definition lua_string_literals :: "string \<Rightarrow> (nat \<times> string) list" where
  "lua_string_literals source =
     map (\<lambda>span. (sp_start span, if sp_terminated span then span_content span source else butlast (span_content span source)))
       (literal_spans source False True)"

definition line_of :: "string \<Rightarrow> nat \<Rightarrow> nat" where "line_of source index = count_char source LF 0 index + 1"

definition spec_queues :: "string \<Rightarrow> string \<Rightarrow> string list" where
  "spec_queues source field =
     concat (map (\<lambda>found. map (\<lambda>literal. group_or_empty literal ''value'') (re_finditer LITERAL_RE (group_or_empty found ''body'')))
       (filter (\<lambda>found. group_or_empty found ''field'' = field) (re_finditer SPEC_FIELD_RE source)))"

definition raiser_fields :: "string \<Rightarrow> (string \<times> string) list" where
  "raiser_fields source =
     dict_of (map (\<lambda>found. (group_or_empty found ''field'', group_or_empty found ''value'')) (re_finditer RAISER_FIELD_RE source))"

definition queue_leaf :: "string \<Rightarrow> string" where "queue_leaf queue = after_last (CHR ''.'') queue"

definition is_state_marker_literal :: "string \<Rightarrow> bool" where
  "is_state_marker_literal v \<longleftrightarrow> contains ''fkst:github-devloop:state:v1'' v \<or> v = ''state:v1''"

definition lua_sources :: "tree \<Rightarrow> lua_source list" where
  "lua_sources t = map (\<lambda>path. \<lparr>src_relpath = path, src_text = source_of t path\<rparr>) (rglob_lua t ''packages'')"

definition production_intake_sources :: "lua_source list \<Rightarrow> lua_source list" where
  "production_intake_sources all_sources =
     filter (\<lambda>source. src_package source = Some INTAKE_PACKAGE \<and> ''tests'' \<notin> set (path_parts (src_relpath source))) all_sources"

definition is_intake_raiser :: "lua_source \<Rightarrow> bool" where
  "is_intake_raiser source \<longleftrightarrow>
     4 \<le> length (path_parts (src_relpath source)) \<and> take 3 (path_parts (src_relpath source)) = [''packages'', INTAKE_PACKAGE, ''raisers'']"

definition is_production_department :: "lua_source \<Rightarrow> bool" where
  "is_production_department source \<longleftrightarrow>
     (let parts = path_parts (src_relpath source) in 5 \<le> length parts \<and> hd parts = ''packages'' \<and> parts ! 2 = ''departments'')"

section \<open>Messages\<close>

definition queue_message :: "(string \<Rightarrow> string) \<Rightarrow> lua_source \<Rightarrow> string \<Rightarrow> string list" where
  "queue_message show_repr source queue =
     (if queue = ''consensus.proposal'' then [src_relpath source @ '': github-devloop-intake must not produce '' @ [SQ] @ ''consensus.proposal'' @ [SQ]]
      else if queue_leaf queue \<in> set LIFECYCLE_FORWARD_QUEUES
      then [src_relpath source @ '': github-devloop-intake must not produce lifecycle queue '' @ show_repr queue] else [])"

definition at_line :: "lua_source \<Rightarrow> nat \<Rightarrow> string \<Rightarrow> string" where
  "at_line source index message = src_relpath source @ '':'' @ str_int (int (line_of (src_text source) index)) @ '' '' @ message"

definition STATE_MARKER_MESSAGE :: string where
  "STATE_MARKER_MESSAGE = ''github-devloop-intake must not build or write state:v1 markers''"

definition source_messages :: "(string \<Rightarrow> string) \<Rightarrow> lua_source \<Rightarrow> string list" where
  "source_messages show_repr source =
     (if is_intake_raiser source
      then [src_relpath source @ '': github-devloop-intake is event-driven only; no cron/file_watch raiser is allowed (type='' @
        show_repr (dget (raiser_fields (src_text source)) ''type'' ''unknown'') @ '')'']
      else
        let masked = code_mask_short (src_text source) in
        concat (map (queue_message show_repr source) (spec_queues (src_text source) ''produces'')) @
        map (\<lambda>found. at_line source (m_start found) ''github-devloop-intake must not self-read GitHub issue lists'')
          (re_finditer ISSUE_LIST_RE masked) @
        map (\<lambda>found. at_line source (m_start found) STATE_MARKER_MESSAGE) (re_finditer STATE_MARKER_CALL_RE masked) @
        map (\<lambda>(start, v). at_line source start STATE_MARKER_MESSAGE)
          (filter (\<lambda>(start, v). is_state_marker_literal v) (lua_string_literals (src_text source))))"

definition static_messages :: "(string \<Rightarrow> string) \<Rightarrow> lua_source list \<Rightarrow> string list" where
  "static_messages show_repr all_sources = concat (map (source_messages show_repr) (production_intake_sources all_sources))"

definition candidate_consuming_packages :: "lua_source list \<Rightarrow> string \<Rightarrow> (string \<times> string list) list" where
  "candidate_consuming_packages all_sources candidate_queue =
     fold (\<lambda>source consumers.
         case src_package source of
           None \<Rightarrow> consumers
         | Some package \<Rightarrow>
             fold (\<lambda>queue. dmodify package [] (\<lambda>paths. paths @ [src_relpath source]))
               (filter (\<lambda>queue. queue = candidate_queue) (spec_queues (src_text source) ''consumes'')) consumers)
       (filter is_production_department all_sources) []"

definition candidate_consumer_messages :: "(string \<Rightarrow> string) \<Rightarrow> lua_source list \<Rightarrow> policy_slot \<Rightarrow> string list" where
  "candidate_consumer_messages show_repr all_sources policy_slot =
     (let consumers = candidate_consuming_packages all_sources (slot_queue policy_slot) in
      if consumers \<noteq> [] \<and> list_all (\<lambda>consumer. fst consumer |\<in>| slot_packages policy_slot) consumers then []
      else
        [''expected candidate-consuming production packages to be a non-empty subset of '' @
         show_list show_repr (sorted_list_of_fset (slot_packages policy_slot)) @ '' for '' @ slot_queue policy_slot @ ''; '' @
         (if consumers = [] then ''found none''
          else ''found '' @ join '', '' (map (\<lambda>(package, paths). package @ '' ('' @ join '', '' paths @ '')'') (sort_key fst consumers)))])"

definition repository_messages :: "json_diag \<Rightarrow> string \<Rightarrow> (string \<Rightarrow> string) \<Rightarrow> tree \<Rightarrow> string list result" where
  "repository_messages diag missing show_repr t =
     bindR (policy_slot_messages diag missing show_repr t) (\<lambda>slot_messages.
     bindR (if slot_messages \<noteq> [] then Return []
            else bindR (intake_policy_slot diag missing show_repr t) (\<lambda>slot.
              Return (candidate_consumer_messages show_repr (lua_sources t) slot))) (\<lambda>consumer_messages.
       Return (static_messages show_repr (lua_sources t) @ slot_messages @ consumer_messages)))"

section \<open>Legal topologies load one implementation of every slot\<close>

lemma exclusivity_message_Nil:
  "exclusivity_message show_repr loaded slot = [] \<longleftrightarrow> (\<exists>package. fset (slot_packages slot) \<inter> fset loaded = {package})"
proof -
  have "length (sorted_list_of_fset S) = 1 \<longleftrightarrow> (\<exists>x. fset S = {x})" for S :: "string fset"
    by (simp add: sorted_list_of_fset.rep_eq card_1_singleton_iff)
  then show ?thesis by (simp add: exclusivity_message_def Let_def del: One_nat_def)
qed

lemma exclusive_iff_choice:
  "topology_exclusivity_messages show_repr slots loaded = [] \<longleftrightarrow>
     (\<exists>selected \<in> set (product_lists (map slot_implementations slots)).
        list_all2 (\<lambda>slot chosen. fset (slot_packages slot) \<inter> fset loaded = {pi_package chosen}) slots selected)"
proof (induction slots)
  case (Cons slot slots)
  have "exclusivity_message show_repr loaded slot = [] \<longleftrightarrow>
      (\<exists>chosen \<in> set (slot_implementations slot). fset (slot_packages slot) \<inter> fset loaded = {pi_package chosen})"
    unfolding exclusivity_message_Nil by (auto simp: slot_packages_def fset_of_list.rep_eq) blast
  then show ?case using Cons by (fastforce simp: topology_exclusivity_messages_def)
qed (simp add: topology_exclusivity_messages_def)

definition all_packages :: "policy_slot list \<Rightarrow> string list" where
  "all_packages slots = concat (map (\<lambda>slot. map pi_package (slot_implementations slot)) slots)"

lemma excluded_subset: "fset (excluded_packages slots selected) \<subseteq> set (all_packages slots)"
  unfolding excluded_packages_def all_packages_def fset_of_list.rep_eq by (auto dest!: set_zip_leftD)

lemma choice_iff_not_excluded:
  assumes "distinct (all_packages slots)" "list_all2 (\<lambda>chosen slot. chosen \<in> set (slot_implementations slot)) selected slots"
  shows "list_all2 (\<lambda>slot chosen. fset (slot_packages slot) \<inter> fset loaded = {pi_package chosen}) slots selected \<longleftrightarrow>
     set (all_packages slots) \<inter> fset loaded = set (all_packages slots) - fset (excluded_packages slots selected)"
  using assms
proof (induction slots arbitrary: selected)
  case (Cons slot slots)
  then obtain chosen rest where sel: "selected = chosen # rest" "chosen \<in> set (slot_implementations slot)"
    "list_all2 (\<lambda>chosen slot. chosen \<in> set (slot_implementations slot)) rest slots" by (auto simp: list_all2_Cons2)
  let ?own = "pi_package ` set (slot_implementations slot)" and ?others = "set (all_packages slots)"
  have apart: "?own \<inter> ?others = {}" "distinct (all_packages slots)" using Cons.prems(1) by (auto simp: all_packages_def)
  have all: "set (all_packages (slot # slots)) = ?own \<union> ?others" by (simp add: all_packages_def)
  have ex: "fset (excluded_packages (slot # slots) selected) = (?own - {pi_package chosen}) \<union> fset (excluded_packages slots rest)"
    by (auto simp: sel excluded_packages_def fset_of_list.rep_eq)
  have own: "fset (slot_packages slot) = ?own" by (simp add: slot_packages_def fset_of_list.rep_eq)
  show ?case
    unfolding sel(1) list_all2_Cons Cons.IH [OF apart(2) sel(3)] own all ex [unfolded sel(1)]
    using apart(1) excluded_subset [of slots rest] sel(2) by blast
qed (simp add: all_packages_def)

lemma length_chosen: "selected \<in> set (product_lists (map f slots)) \<longleftrightarrow> list_all2 (\<lambda>x slot. x \<in> set (f slot)) selected slots"
  by (simp add: product_lists_set list.rel_map)

text \<open>
  C39. As long as no package implements two slots, the topologies that are printed are exactly the choices that the
  assertion accepts: some packages load one implementation of every slot if and only if they are, among all packages
  of the slots, those that a legal topology does not exclude.
\<close>

theorem legal_topologies_exact:
  assumes "distinct (all_packages slots)"
  shows "topology_exclusivity_messages show_repr slots loaded = [] \<longleftrightarrow>
     (\<exists>topology \<in> set (legal_topologies slots).
        set (all_packages slots) \<inter> fset loaded = set (all_packages slots) - set (topology_excluded topology))"
  unfolding exclusive_iff_choice legal_topologies_def
  using choice_iff_not_excluded [OF assms] length_chosen [where f = slot_implementations and slots = slots]
  by (auto simp: topology_of_def)

definition demo_slots :: "policy_slot list" where
  "demo_slots =
     [\<lparr>slot_name = ''intake-policy'', slot_queue = ''q'', slot_implementations = [PolicyImplementation ''a'' ''x'', PolicyImplementation ''b'' ''y'']\<rparr>,
      \<lparr>slot_name = ''board'', slot_queue = ''r'', slot_implementations = [PolicyImplementation ''c'' ''z'', PolicyImplementation ''d'' ''w'']\<rparr>]"

lemma legal_topologies_exact_witness:
  "distinct (all_packages demo_slots) \<and>
   (topology_exclusivity_messages id demo_slots {|''a'', ''d''|} = [] \<longleftrightarrow>
     (\<exists>topology \<in> set (legal_topologies demo_slots).
        set (all_packages demo_slots) \<inter> fset {|''a'', ''d''|} = set (all_packages demo_slots) - set (topology_excluded topology)))"
proof -
  have "distinct (all_packages demo_slots)" by code_simp
  then show ?thesis using legal_topologies_exact [of demo_slots id "{|''a'', ''d''|}"] by blast
qed

text \<open>The manifest check accepts a package in two slots; then a legal topology excludes a package that it selects.\<close>

definition shared_slots :: "policy_slot list" where
  "shared_slots =
     [\<lparr>slot_name = ''intake-policy'', slot_queue = ''q'', slot_implementations = [PolicyImplementation ''a'' ''x'', PolicyImplementation ''b'' ''y'']\<rparr>,
      \<lparr>slot_name = ''board'', slot_queue = ''r'', slot_implementations = [PolicyImplementation ''a'' ''z'', PolicyImplementation ''c'' ''w'']\<rparr>]"

lemma shared_package_excluded: "''a'' |\<in>| excluded_packages shared_slots [PolicyImplementation ''a'' ''x'', PolicyImplementation ''c'' ''w'']"
  by (simp add: excluded_packages_def shared_slots_def)

text \<open>Within one slot the manifest check demands different packages.\<close>

lemma implementations_distinct:
  "implementations_from show_repr slot seen_packages seen_topologies raws = Return implementations \<Longrightarrow>
     distinct (map pi_package implementations) \<and> set (map pi_package implementations) \<inter> set seen_packages = {} \<and>
     length implementations = length raws"
proof (induction raws arbitrary: seen_packages seen_topologies implementations)
  case (Cons raw raws)
  then show ?case
    by (fastforce simp: bindR_eq_Inr manifest_error_def split: option.splits if_splits)
qed simp

lemma slots_distinct:
  "slots_from show_repr seen raws = Return slots \<Longrightarrow>
     distinct (map slot_name slots) \<and> set (map slot_name slots) \<inter> set seen = {} \<and>
     list_all (\<lambda>slot. distinct (map pi_package (slot_implementations slot)) \<and> 2 \<le> length (slot_implementations slot)) slots"
proof (induction raws arbitrary: seen slots)
  case (Cons raw raws)
  then obtain d slot queue implementations rest raws' where
    "as_obj raw = Some d" "slot \<notin> set seen" "as_arr (jget d ''implementations'') = Some raws'" "2 \<le> length raws'"
    "implementations_from show_repr slot [] [] raws' = Return implementations"
    "slots_from show_repr (slot # seen) raws = Return rest"
    "slots = \<lparr>slot_name = slot, slot_queue = queue, slot_implementations = implementations\<rparr> # rest"
    by (fastforce simp: bindR_eq_Inr manifest_error_def not_less split: option.splits if_splits)
  with Cons.IH implementations_distinct show ?case by fastforce
qed simp

end
