(* ===== verification/LintBase.thy ===== *)
theory LintBase
  imports TestShape ShrinkOnly
begin

text \<open>
  What several linters of Lua sources share: the lines of a block that is open, the innermost of the blocks around a
  position, allowlists whose entries must differ, and ratchets that compare sites and entries by keys.
\<close>

section \<open>Blocks\<close>

text \<open>How many more lines a block takes that is open by \<open>depth\<close>.\<close>

fun line_extent :: "(string \<Rightarrow> int) \<Rightarrow> int \<Rightarrow> string list \<Rightarrow> nat" where
  "line_extent delta depth [] = 0"
| "line_extent delta depth (l # ls) = (if 0 < depth then Suc (line_extent delta (depth + delta l) ls) else 0)"

lemma line_extent_le: "line_extent delta depth ls \<le> length ls"
  by (induction delta depth ls rule: line_extent.induct) auto

text \<open>The block ends with the first line that closes it, or with the text.\<close>

lemma line_extent_closes:
  assumes "0 < depth" "n = line_extent delta depth ls"
  shows "(\<forall>k < n. 0 < depth + (\<Sum>l\<leftarrow>take k ls. delta l)) \<and> (depth + (\<Sum>l\<leftarrow>take n ls. delta l) \<le> 0 \<or> n = length ls)"
  using assms
proof (induction delta depth ls arbitrary: n rule: line_extent.induct)
  case (2 delta depth l ls)
  let ?m = "line_extent delta (depth + delta l) ls"
  show ?case
  proof (cases "0 < depth + delta l")
    case True
    from "2.IH" [OF "2.prems"(1) True refl] have
      IH: "\<forall>k < ?m. 0 < depth + delta l + (\<Sum>l\<leftarrow>take k ls. delta l)" "depth + delta l + (\<Sum>l\<leftarrow>take ?m ls. delta l) \<le> 0 \<or> ?m = length ls"
      by auto
    have "0 < depth + (\<Sum>l\<leftarrow>take k (l # ls). delta l)" if "k < Suc ?m" for k
      using that IH(1) "2.prems"(1) by (cases k) (auto simp: algebra_simps)
    with IH(2) "2.prems" show ?thesis by (auto simp: algebra_simps)
  next
    case False
    then have "?m = 0" by (cases ls) auto
    with False "2.prems" show ?thesis by (auto simp: less_Suc_eq)
  qed
qed simp

text \<open>The position of the bracket that closes the one at \<open>open_index\<close>.\<close>

fun close_from :: "char \<Rightarrow> char \<Rightarrow> int \<Rightarrow> nat \<Rightarrow> string \<Rightarrow> nat option" where
  "close_from opener closer depth cursor [] = None"
| "close_from opener closer depth cursor (c # cs) =
     (if c = opener then close_from opener closer (depth + 1) (Suc cursor) cs
      else if c = closer then (if depth = 1 then Some cursor else close_from opener closer (depth - 1) (Suc cursor) cs)
      else close_from opener closer depth (Suc cursor) cs)"

definition matching_close :: "string \<Rightarrow> nat \<Rightarrow> char \<Rightarrow> char \<Rightarrow> nat option" where
  "matching_close source open_index opener closer = close_from opener closer 0 open_index (drop open_index source)"

text \<open>\<open>splitlines(keepends=True)\<close>\<close>

fun splitlines_keep_acc :: "string \<Rightarrow> string \<Rightarrow> string list" where
  "splitlines_keep_acc acc [] = (if acc = [] then [] else [rev acc])"
| "splitlines_keep_acc acc (c # cs) =
     (if c = CR then
        (case cs of
           [] \<Rightarrow> [rev (c # acc)]
         | d # ds \<Rightarrow> if d = LF then rev (d # c # acc) # splitlines_keep_acc [] ds else rev (c # acc) # splitlines_keep_acc [] cs)
      else if is_linebreak c then rev (c # acc) # splitlines_keep_acc [] cs
      else splitlines_keep_acc (c # acc) cs)"

definition splitlines_keep :: "string \<Rightarrow> string list" where "splitlines_keep s = splitlines_keep_acc [] s"

lemma concat_splitlines_keep: "concat (splitlines_keep s) = s"
proof -
  have "concat (splitlines_keep_acc acc s) = rev acc @ s" for acc
    by (induction acc s rule: splitlines_keep_acc.induct) (auto split: list.splits)
  then show ?thesis by (simp add: splitlines_keep_def)
qed

section \<open>Any case\<close>

text \<open>A text in any case, under \<open>re.IGNORECASE\<close>.\<close>

definition upper_of :: "char \<Rightarrow> char" where "upper_of c = (if is_lower_ascii c then char_of (ord c - 32 :: nat) else c)"

definition ilit :: "string \<Rightarrow> regex" where "ilit s = rseq (map (\<lambda>c. RSet (\<lambda>x. x = c \<or> x = upper_of c)) s)"

section \<open>Lists of different entries\<close>

text \<open>Entries that are read one after the other, with an error for one that was there before.\<close>

fun distinct_entries :: "(string \<Rightarrow> string option result) \<Rightarrow> (string \<Rightarrow> string) \<Rightarrow> string list \<Rightarrow> string list \<Rightarrow> string list result" where
  "distinct_entries read duplicate seen [] = Return []"
| "distinct_entries read duplicate seen (raw # rest) =
     bindR (read raw) (\<lambda>entry.
       case entry of
         None \<Rightarrow> distinct_entries read duplicate seen rest
       | Some e \<Rightarrow>
           if e \<in> set seen then Raise (ValueError (duplicate e))
           else bindR (distinct_entries read duplicate (e # seen) rest) (\<lambda>es. Return (e # es)))"

lemma distinct_entries_distinct:
  "distinct_entries read duplicate seen raws = Return es \<Longrightarrow> distinct es \<and> set es \<inter> set seen = {}"
proof (induction raws arbitrary: seen es)
  case (Cons raw raws)
  then show ?case by (fastforce simp: bindR_eq_Inr split: option.splits if_splits)
qed simp

section \<open>Ratchets by key\<close>

text \<open>Sites and entries are compared by keys: the uncovered ones, in order.\<close>

definition uncovered :: "('a::linorder \<Rightarrow> 'k) \<Rightarrow> ('b \<Rightarrow> 'k) \<Rightarrow> 'a fset \<Rightarrow> 'b fset \<Rightarrow> 'a list" where
  "uncovered key key' sites entries = filter (\<lambda>site. key site |\<notin>| key' |`| entries) (sorted_list_of_fset sites)"

lemma uncovered_keys_Nil: "uncovered key key' sites entries = [] \<longleftrightarrow> key |`| sites |\<subseteq>| key' |`| entries"
  by (auto simp: uncovered_def filter_empty_conv)

lemma uncovered_set: "set (uncovered key key' sites entries) = {site. site |\<in>| sites \<and> key site |\<notin>| key' |`| entries}"
  by (auto simp: uncovered_def)

end
