(* ===== verification/GhEgress.thy ===== *)
theory GhEgress
  imports LintBase
begin

text \<open>
  \<^verbatim>\<open>scripts/check_repo_gh_egress.py\<close>: raw calls of \<open>gh\<close> leave the adapter at one place. Calls of an execution callback
  with an argument vector are attributed to the innermost function around them.

  Shown here: the check finds nothing exactly if the inventory and the sources name that one place and no other.
\<close>

definition INVENTORY :: string where "INVENTORY = ''migration/gh-egress.inventory''"
definition SANCTIONED_EGRESS :: string where "SANCTIONED_EGRESS = ''libraries/forge/github/exec.lua:M.run''"
definition ENTRY_FILES :: "string list" where "ENTRY_FILES = [''libraries/forge/github.lua'', ''libraries/forge/github_fake.lua'']"

text \<open>A name with parts after dots and colons.\<close>

definition dotted_name :: regex where
  "dotted_name = RSeq RIDENT (rstar (rseq [rblank, RSet (\<lambda>c. c = CHR ''.'' \<or> c = CHR '':''), rblank, RIDENT]))"

definition FUNCTION_RE :: regex where
  "FUNCTION_RE =
     rseq [RBol, rblank, ropt (RSeq (rlit ''local'') (rplus rspace)), rlit ''function'', rplus rspace, RGroup ''name'' dotted_name, rblank,
       rchar CHR ''('']"

definition CALL_RE :: regex where
  "CALL_RE = rseq [RWordB, RGroup ''callee'' RIDENT, rblank, rchar CHR ''('', rblank, rchar CHR ''{'']"

definition PARAMETER_RE :: regex where "PARAMETER_RE = rseq [RBol, RIDENT, REol]"

definition site_name_char :: "char \<Rightarrow> bool" where "site_name_char c \<longleftrightarrow> ident_char c \<or> c = CHR ''.'' \<or> c = CHR '':''"

definition INVENTORY_ENTRY_RE :: regex where
  "INVENTORY_ENTRY_RE =
     rseq [RBol, rlit ''libraries/forge/'',
       RAlt (rseq [rlit ''github'', ropt (rlit ''_fake''), rlit ''.lua'']) (rseq [rlit ''github/'', rplus (RSet (\<lambda>c. c \<noteq> CHR '':'')), rlit ''.lua'']),
       rchar CHR '':'', RSet ident_start, rstar (RSet site_name_char), REol]"

datatype function_block =
  FunctionBlock (fb_name: string) (fb_parameters: "string fset") (fb_start: nat) (fb_end: nat)

definition parameters_of :: "string \<Rightarrow> string fset" where
  "parameters_of arglist = fset_of_list (filter (fullmatches PARAMETER_RE) (map strip (split_char (CHR '','') arglist)))"

definition without_blanks :: "string \<Rightarrow> string" where "without_blanks s = filter (\<lambda>c. c \<noteq> CHR '' '') s"

text \<open>The blocks of the lines from \<open>offset\<close>; a block reaches to the end of the line that closes it.\<close>

fun blocks_from :: "string \<Rightarrow> nat \<Rightarrow> string list \<Rightarrow> function_block list" where
  "blocks_from masked offset [] = []"
| "blocks_from masked offset (l # ls) =
     (case re_match FUNCTION_RE l of
        None \<Rightarrow> []
      | Some found \<Rightarrow>
          let open_paren = offset + m_end found - 1 in
          (case matching_close masked open_paren CHR ''('' CHR '')'' of
             None \<Rightarrow> []
           | Some close_paren \<Rightarrow>
               [FunctionBlock (without_blanks (group_or_empty found ''name'')) (parameters_of (py_slice masked (Suc open_paren) close_paren))
                  offset (offset + length l + length (concat (take (line_extent block_delta (block_delta l) ls) ls)))])) @
     blocks_from masked (offset + length l) ls"

definition function_blocks :: "string \<Rightarrow> function_block list" where
  "function_blocks source = (let masked = code_mask_short source in blocks_from masked 0 (splitlines_keep masked))"

definition production_sources :: "tree \<Rightarrow> string list" where
  "production_sources t =
     sort_key path_parts (remdups (filter (\<lambda>p. tree_read t p \<noteq> None \<and> ''tests'' \<notin> set (path_parts p))
       (ENTRY_FILES @ rglob_lua t ''libraries/forge/github'')))"

definition around :: "nat \<Rightarrow> function_block \<Rightarrow> bool" where "around index block \<longleftrightarrow> fb_start block \<le> index \<and> index < fb_end block"

definition owner_for_call :: "function_block list \<Rightarrow> nat \<Rightarrow> function_block option" where
  "owner_for_call blocks call_index =
     (case filter (around call_index) blocks of
        [] \<Rightarrow> None
      | block # rest \<Rightarrow> Some (first_max (\<lambda>b. (fb_start b, - int (fb_end b))) block rest))"

definition is_execution_callback :: "function_block list \<Rightarrow> nat \<Rightarrow> string \<Rightarrow> bool" where
  "is_execution_callback blocks call_index callee \<longleftrightarrow>
     callee = ''exec_argv'' \<or> list_ex (\<lambda>block. callee |\<in>| fb_parameters block) (filter (around call_index) blocks)"

definition ARGV_FIELD_RE :: regex where "ARGV_FIELD_RE = rseq [RWordB, rlit ''argv'', rblank, rchar CHR ''='']"

definition sink_of :: "string \<Rightarrow> string \<Rightarrow> function_block list \<Rightarrow> rematch \<Rightarrow> string list" where
  "sink_of relpath masked blocks found =
     (let open_brace = the_default 0 (find_from masked ''{'' (m_start found)) in
      case matching_close masked open_brace CHR ''{'' CHR ''}'' of
        None \<Rightarrow> []
      | Some close_brace \<Rightarrow>
          if re_search ARGV_FIELD_RE (py_slice masked open_brace close_brace) = None \<or>
             \<not> is_execution_callback blocks (m_start found) (group_or_empty found ''callee'') then []
          else [relpath @ '':'' @ (case owner_for_call blocks (m_start found) of None \<Rightarrow> ''<top-level>'' | Some owner \<Rightarrow> fb_name owner)])"

definition source_sinks :: "string \<Rightarrow> string \<Rightarrow> string fset" where
  "source_sinks relpath source =
     (let masked = code_mask_short source in
      fset_of_list (concat (map (sink_of relpath masked (function_blocks source)) (re_finditer CALL_RE masked))))"

definition current_sinks :: "tree \<Rightarrow> string fset" where
  "current_sinks t = fold (\<lambda>path sinks. sinks |\<union>| source_sinks path (source_of t path)) (production_sources t) {||}"

definition read_entry :: "string \<Rightarrow> string option result" where
  "read_entry raw =
     (let line = strip raw in
      if line = [] \<or> startswith line ''#'' then Return None
      else if \<not> fullmatches INVENTORY_ENTRY_RE line then Raise (ValueError (''invalid '' @ INVENTORY @ '' entry: '' @ raw))
      else Return (Some line))"

definition parse_inventory_lines :: "string list \<Rightarrow> string fset result" where
  "parse_inventory_lines lines =
     bindR (distinct_entries read_entry (\<lambda>e. ''duplicate '' @ INVENTORY @ '' entry: '' @ e) [] lines) (\<lambda>es. Return (fset_of_list es))"

definition load_inventory :: "tree \<Rightarrow> string fset option result" where
  "load_inventory t =
     (case tree_read t INVENTORY of
        None \<Rightarrow> Return None
      | Some source \<Rightarrow> bindR (parse_inventory_lines (splitlines source)) (\<lambda>es. Return (Some es)))"

definition inventory_messages :: "string fset option \<Rightarrow> string list" where
  "inventory_messages inventory =
     (case inventory of
        None \<Rightarrow> [''missing '' @ INVENTORY @ ''; it must contain exactly '' @ SANCTIONED_EGRESS @
          '' because the terminal floor is one, not zero'']
      | Some entries \<Rightarrow>
          (if SANCTIONED_EGRESS |\<notin>| entries
           then [INVENTORY @ '' must contain '' @ SANCTIONED_EGRESS @ ''; the terminal floor is one, not zero''] else []) @
          map (\<lambda>entry. INVENTORY @ '' contains non-sanctioned egress '' @ entry @ ''; exactly one entry is allowed: '' @ SANCTIONED_EGRESS)
            (sorted_list_of_fset (entries |-| {|SANCTIONED_EGRESS|})))"

definition repository_messages :: "tree \<Rightarrow> string list result" where
  "repository_messages t =
     (if \<not> dir_exists t ''libraries/forge'' then Return []
      else
        bindR (load_inventory t) (\<lambda>inventory.
          let current = current_sinks t in
          Return (inventory_messages inventory @
            map (\<lambda>sink. sink @ '' is an additional GitHub raw argv egress sink; exactly one is sanctioned: '' @ SANCTIONED_EGRESS)
              (sorted_list_of_fset (current |-| {|SANCTIONED_EGRESS|})) @
            (if SANCTIONED_EGRESS |\<notin>| current
             then [''sanctioned GitHub raw argv egress '' @ SANCTIONED_EGRESS @
               '' is missing; the terminal contract requires exactly one egress''] else []))))"

definition check :: "tree \<Rightarrow> string list result" where
  "check t = bindR (repository_messages t) (\<lambda>messages. Return (map (\<lambda>message. ''G-GH-EGRESS: '' @ message) messages))"

section \<open>What the check says\<close>

lemma inventory_messages_Nil: "inventory_messages inventory = [] \<longleftrightarrow> inventory = Some {|SANCTIONED_EGRESS|}"
  by (auto simp: inventory_messages_def split: option.split)

text \<open>The owner of a call is a function around it that starts last.\<close>

lemma owner_around:
  assumes "owner_for_call blocks index = Some block"
  shows "block \<in> set blocks \<and> around index block \<and> (\<forall>b \<in> set blocks. around index b \<longrightarrow> fb_start b \<le> fb_start block)"
proof -
  obtain b rest where rest: "filter (around index) blocks = b # rest"
    and block: "block = first_max (\<lambda>b. (fb_start b, - int (fb_end b))) b rest"
    using assms by (auto simp: owner_for_call_def split: list.splits)
  from first_max_split [of b rest "\<lambda>b. (fb_start b, - int (fb_end b))"] obtain before after where
    split: "b # rest = before @ block # after" and
    le: "\<forall>y \<in> set before. (fb_start y, - int (fb_end y)) < (fb_start block, - int (fb_end block))"
      "\<forall>y \<in> set after. (fb_start y, - int (fb_end y)) \<le> (fb_start block, - int (fb_end block))"
    unfolding block by blast
  have "set (filter (around index) blocks) = set (before @ block # after)" using rest split by simp
  then show ?thesis using le by (fastforce simp: less_prod_def less_eq_prod_def)
qed

text \<open>
  Where the adapter exists, the check finds nothing exactly if the inventory holds the sanctioned place and nothing
  else, and the sources call the execution callback with an argument vector there and nowhere else.
\<close>

theorem egress_clean_iff:
  "check t = Return [] \<longleftrightarrow>
     \<not> dir_exists t ''libraries/forge'' \<or>
     load_inventory t = Return (Some {|SANCTIONED_EGRESS|}) \<and> current_sinks t = {|SANCTIONED_EGRESS|}"
proof -
  have "check t = Return [] \<longleftrightarrow> repository_messages t = Return []" by (auto simp: check_def bindR_eq_Inr)
  also have "\<dots> \<longleftrightarrow> \<not> dir_exists t ''libraries/forge'' \<or>
      (\<exists>inventory. load_inventory t = Return inventory \<and> inventory_messages inventory = [] \<and> current_sinks t = {|SANCTIONED_EGRESS|})"
    by (auto simp: repository_messages_def bindR_eq_Inr Let_def)
  finally show ?thesis by (simp add: inventory_messages_Nil)
qed

end
