(* ===== verification/VersionSuffix.thy ===== *)
theory VersionSuffix
  imports LintBase
begin

text \<open>
  \<^verbatim>\<open>scripts/check_repo_version_suffix.py\<close>: the ratchet of texts that build or parse suffixes of transition versions
  outside the module made for them. Sites and entries are compared by path and line.

  Shown here: what it means that the ratchet prints nothing, and where the literals of sites stand.
\<close>

definition ALLOWLIST :: string where "ALLOWLIST = ''migration/version-suffix.allowlist''"
definition SANCTIONED_PATH :: string where "SANCTIONED_PATH = ''libraries/contract/transition_version.lua''"

definition SUFFIX_LITERALS :: "string list" where
  "SUFFIX_LITERALS =
     [''/loop/'', ''/fix/'', ''/review-loop/'', ''/review-meta-action/'', ''/ready-split/'', ''/reimplement/'', ''/timeout/'']"

definition parsing_function :: regex where "parsing_function = ralt [rlit ''gmatch'', rlit ''match'', rlit ''gsub'']"

definition PARSING_FUNCTION_RE :: regex where
  "PARSING_FUNCTION_RE =
     rseq [RGroup ''call''
         (RAlt (rseq [RSet (\<lambda>c. c = CHR '':'' \<or> c = CHR ''.''), rblank, parsing_function])
           (rseq [RWordB, rlit ''string'', rblank, rchar CHR ''.'', rblank, parsing_function])),
       rblank, rchar CHR ''('']"

definition escaped_suffixes :: regex where
  "escaped_suffixes =
     ralt (map rlit [''loop'', ''fix'', ''review%-loop'', ''review%-meta%-action'', ''ready%-split'', ''reimplement'', ''timeout''])"

definition PARSING_PATTERN_RE :: regex where
  "PARSING_PATTERN_RE =
     ralt [rseq [rchar CHR ''/'', escaped_suffixes, rchar CHR ''/''], RSeq (rlit ''[/-]'') escaped_suffixes,
       rseq [rchar CHR ''/'', ralt (map rlit [''review%-loop'', ''review%-meta%-action'', ''ready%-split'']), rchar CHR ''/'']]"

record string_literal =
  lit_start :: nat
  lit_end :: nat
  lit_content :: string

datatype suffix_site = VersionSuffixSite (vs_path: string) (vs_line: nat) (vs_kind: string) (vs_text: string)
datatype suffix_entry = VersionSuffixAllowlistEntry (ve_path: string) (ve_line: nat) (ve_why: string)

definition suffix_site_tuple :: "suffix_site \<Rightarrow> string \<times> nat \<times> string \<times> string" where
  "suffix_site_tuple s = (vs_path s, vs_line s, vs_kind s, vs_text s)"

definition suffix_entry_tuple :: "suffix_entry \<Rightarrow> string \<times> nat \<times> string" where
  "suffix_entry_tuple e = (ve_path e, ve_line e, ve_why e)"

instantiation suffix_site :: linorder
begin

definition less_eq_suffix_site :: "suffix_site \<Rightarrow> suffix_site \<Rightarrow> bool" where
  "s \<le> s' \<longleftrightarrow> suffix_site_tuple s \<le> suffix_site_tuple s'"

definition less_suffix_site :: "suffix_site \<Rightarrow> suffix_site \<Rightarrow> bool" where
  "s < s' \<longleftrightarrow> suffix_site_tuple s < suffix_site_tuple s'"

instance
proof
  show "s = s'" if "s \<le> s'" "s' \<le> s" for s s' :: suffix_site
    using that by (cases s; cases s') (auto simp: less_eq_suffix_site_def suffix_site_tuple_def dest: antisym)
qed (auto simp: less_eq_suffix_site_def less_suffix_site_def)

end

instantiation suffix_entry :: linorder
begin

definition less_eq_suffix_entry :: "suffix_entry \<Rightarrow> suffix_entry \<Rightarrow> bool" where
  "e \<le> e' \<longleftrightarrow> suffix_entry_tuple e \<le> suffix_entry_tuple e'"

definition less_suffix_entry :: "suffix_entry \<Rightarrow> suffix_entry \<Rightarrow> bool" where
  "e < e' \<longleftrightarrow> suffix_entry_tuple e < suffix_entry_tuple e'"

instance
proof
  show "e = e'" if "e \<le> e'" "e' \<le> e" for e e' :: suffix_entry
    using that by (cases e; cases e') (auto simp: less_eq_suffix_entry_def suffix_entry_tuple_def dest: antisym)
qed (auto simp: less_eq_suffix_entry_def less_suffix_entry_def)

end

definition site_key :: "suffix_site \<Rightarrow> string \<times> nat" where "site_key s = (vs_path s, vs_line s)"

definition site_label :: "suffix_site \<Rightarrow> string" where
  "site_label s = vs_path s @ '':'' @ str_int (int (vs_line s)) @ '' '' @ vs_kind s @ '' '' @ vs_text s"

definition ENTRY_RE :: regex where
  "ENTRY_RE =
     rseq [RGroup ''path'' (rplus (RSet (\<lambda>c. c \<noteq> CHR '':'' \<and> \<not> is_space c))), rchar CHR '':'', RGroup ''line'' (rplus rdigit), rplus rspace,
       rchar CHR ''#'', rplus rspace, rlit ''why='', RGroup ''why'' (rplus rany)]"

definition parse_entry :: "string \<Rightarrow> suffix_entry result" where
  "parse_entry l =
     (let invalid = (\<lambda>what. Raise (ValueError (''invalid '' @ ALLOWLIST @ '' '' @ what @ '': '' @ l))) in
      case re_fullmatch ENTRY_RE l of
        None \<Rightarrow> invalid ''line''
      | Some found \<Rightarrow>
          let path = group_or_empty found ''path''; why = strip (group_or_empty found ''why'') in
          if \<not> (startswith path ''libraries/'' \<or> startswith path ''packages/'') \<or> \<not> endswith path ''.lua'' then invalid ''path''
          else if why = [] then invalid ''WHY''
          else Return (VersionSuffixAllowlistEntry path (digits_val (group_or_empty found ''line'')) why))"

definition entry_key :: "suffix_entry \<Rightarrow> string \<times> nat" where "entry_key e = (ve_path e, ve_line e)"

definition entry_label :: "suffix_entry \<Rightarrow> string" where "entry_label e = ve_path e @ '':'' @ str_int (int (ve_line e))"

definition lua_string_literals :: "string \<Rightarrow> string_literal list" where
  "lua_string_literals source =
     map (\<lambda>span. \<lparr>lit_start = sp_start span, lit_end = sp_end span, lit_content = span_content span source\<rparr>) (literal_spans source True True)"

definition line_start :: "string \<Rightarrow> nat \<Rightarrow> nat" where "line_start source index = nat (rfind_char_below source LF index + 1)"

definition line_end :: "string \<Rightarrow> nat \<Rightarrow> nat" where "line_end source index = the_default (length source) (find_from source [LF] index)"

definition line_no :: "string \<Rightarrow> nat \<Rightarrow> nat" where "line_no source index = count_char source LF 0 index + 1"

definition line_text :: "string \<Rightarrow> nat \<Rightarrow> string" where
  "line_text source index = strip (py_slice source (line_start source index) (line_end source index))"

definition has_concat_neighbor :: "string \<Rightarrow> string_literal \<Rightarrow> bool" where
  "has_concat_neighbor masked literal \<longleftrightarrow>
     contains ''..'' (py_slice masked (line_start masked (lit_start literal)) (lit_start literal)) \<or>
     contains ''..'' (py_slice masked (lit_end literal) (line_end masked (lit_end literal)))"

definition contains_banned_suffix_literal :: "string \<Rightarrow> bool" where
  "contains_banned_suffix_literal content \<longleftrightarrow> list_ex (\<lambda>suffix. contains suffix content) SUFFIX_LITERALS"

definition parsing_call_span :: "string \<Rightarrow> string_literal \<Rightarrow> (nat \<times> nat) option" where
  "parsing_call_span masked literal =
     (let start = lit_start literal - 160; found = re_finditer PARSING_FUNCTION_RE (py_slice masked start (lit_start literal)) in
      if found = [] then None else Some (start + m_end (last found) - 1, lit_start literal))"

fun paren_end :: "int \<Rightarrow> nat \<Rightarrow> string \<Rightarrow> nat option" where
  "paren_end depth cursor [] = None"
| "paren_end depth cursor (c # cs) =
     (if c = CHR ''('' then paren_end (depth + 1) (Suc cursor) cs
      else if c = CHR '')'' then (if depth = 1 then Some (Suc cursor) else paren_end (depth - 1) (Suc cursor) cs)
      else paren_end depth (Suc cursor) cs)"

definition matching_paren_end :: "string \<Rightarrow> nat \<Rightarrow> nat" where
  "matching_paren_end masked open_pos = the_default (length masked) (paren_end 0 open_pos (drop open_pos masked))"

definition is_parsing_pattern :: "string \<Rightarrow> string_literal \<Rightarrow> bool" where
  "is_parsing_pattern masked literal \<longleftrightarrow>
     re_search PARSING_PATTERN_RE (lit_content literal) \<noteq> None \<and>
     (case parsing_call_span masked literal of
        None \<Rightarrow> False
      | Some (open_pos, stop) \<Rightarrow>
          LF \<notin> set (py_slice masked open_pos stop) \<and> lit_start literal < matching_paren_end masked open_pos)"

definition site_of :: "string \<Rightarrow> string \<Rightarrow> string_literal \<Rightarrow> string \<Rightarrow> suffix_site" where
  "site_of path source literal kind =
     VersionSuffixSite path (line_no source (lit_start literal)) kind (line_text source (lit_start literal))"

definition literal_sites :: "string \<Rightarrow> string \<Rightarrow> string_literal \<Rightarrow> suffix_site list" where
  "literal_sites path source literal =
     (let masked = code_mask source in
      (if contains_banned_suffix_literal (lit_content literal) \<and> has_concat_neighbor masked literal
       then [site_of path source literal ''construction''] else []) @
      (if is_parsing_pattern masked literal then [site_of path source literal ''parsing''] else []))"

definition source_sites :: "string \<Rightarrow> string \<Rightarrow> suffix_site fset" where
  "source_sites path source = fset_of_list (concat (map (literal_sites path source) (lua_string_literals source)))"

definition is_production_lua_path :: "string \<Rightarrow> bool" where
  "is_production_lua_path path \<longleftrightarrow>
     endswith path ''.lua'' \<and> path_name path \<noteq> ''.lua'' \<and> path \<noteq> SANCTIONED_PATH \<and> \<not> endswith (path_name path) ''_test.lua'' \<and>
     ''tests'' \<notin> set (path_parts path) \<and> (startswith path ''libraries/'' \<or> startswith path ''packages/'')"

definition production_lua_sources :: "tree \<Rightarrow> (string \<times> string) list" where
  "production_lua_sources t =
     map (\<lambda>path. (path, source_of t path))
       (filter is_production_lua_path (rglob_lua t ''libraries'' @ rglob_lua t ''packages''))"

definition current_sites :: "tree \<Rightarrow> suffix_site fset" where
  "current_sites t = fold (\<lambda>(path, source) sites. sites |\<union>| source_sites path source) (production_lua_sources t) {||}"

definition read_line :: "string \<Rightarrow> suffix_entry list result" where
  "read_line raw =
     (let stripped = strip raw in
      if stripped = [] \<or> startswith stripped ''#'' then Return [] else bindR (parse_entry stripped) (\<lambda>e. Return [e]))"

definition load_allowlist :: "string option \<Rightarrow> suffix_entry fset result" where
  "load_allowlist content =
     (case content of
        None \<Rightarrow> Return {||}
      | Some source \<Rightarrow> bindR (mapR read_line (splitlines source)) (\<lambda>es. Return (fset_of_list (concat es))))"

definition read_dev_line :: "string \<Rightarrow> suffix_entry list result" where
  "read_dev_line raw =
     (if strip raw = [] \<or> startswith (lstrip raw) ''#'' then Return [] else bindR (parse_entry (strip raw)) (\<lambda>e. Return [e]))"

definition parse_dev_allowlist_lines :: "string list \<Rightarrow> suffix_entry fset result" where
  "parse_dev_allowlist_lines lines = bindR (mapR read_dev_line lines) (\<lambda>es. Return (fset_of_list (concat es)))"

definition ratchet_messages :: "suffix_site fset \<Rightarrow> suffix_entry fset \<Rightarrow> suffix_entry fset option \<Rightarrow> string list" where
  "ratchet_messages current allowlist base_allowlist =
     map (\<lambda>site. site_label site @ '' constructs/parses a transition-version suffix outside contract.transition_version'')
       (uncovered site_key entry_key current allowlist) @
     map (\<lambda>entry. entry_label entry @ '' no longer matches transition-version suffix debt; prune the stale entry'')
       (uncovered entry_key site_key allowlist current) @
     (case base_allowlist of None \<Rightarrow> []
      | Some base \<Rightarrow>
          map (\<lambda>entry. entry_label entry @
              '' grows version-suffix allowlist relative to dev; migrate to contract.transition_version instead'')
            (uncovered entry_key entry_key allowlist base))"

definition repository_messages :: "environ \<Rightarrow> git \<Rightarrow> host_file \<Rightarrow> tree \<Rightarrow> string option \<Rightarrow> bool \<Rightarrow> check_message list result" where
  "repository_messages env git host t allowlist_dir enforce_base =
     bindR (load_allowlist (case allowlist_dir of None \<Rightarrow> tree_read t ALLOWLIST | Some dir \<Rightarrow> host (dir @ ''/'' @ path_name ALLOWLIST)))
       (\<lambda>allowlist.
       let base = (if enforce_base then allowlist_at_dev_base env git ALLOWLIST parse_dev_allowlist_lines else BaseAbsent) in
       Return (unresolved_failure ''cannot resolve dev base allowlist to enforce shrink-only ratchet; ensure CI provides the dev ref'' base @
         map Violation (ratchet_messages (current_sites t) allowlist (base_value base))))"

section \<open>What the ratchet says\<close>

lemma suffix_messages_Nil:
  "ratchet_messages current allowlist base_allowlist = [] \<longleftrightarrow>
     site_key |`| current = entry_key |`| allowlist \<and>
     (case base_allowlist of None \<Rightarrow> True | Some base \<Rightarrow> entry_key |`| allowlist |\<subseteq>| entry_key |`| base)"
  unfolding ratchet_messages_def append_is_Nil_conv map_is_Nil_conv uncovered_keys_Nil
  by (simp add: uncovered_keys_Nil fsubset_antisym split: option.split) blast

interpretation suffix_ratchet: shrink_only_ratchet
  "\<lambda>current allowlist base. VersionSuffix.ratchet_messages current allowlist base = []" "(|`|) site_key" "(|`|) entry_key" "(|\<subseteq>|)"
  by unfold_locales (auto simp: suffix_messages_Nil)

text \<open>Along a history of clean commits every path and line of a suffix was listed from the start.\<close>

lemma suffix_history_shrinks:
  "clean_history (\<lambda>current allowlist base. ratchet_messages current allowlist base = []) base history \<Longrightarrow>
     (current, allowlist) \<in> set history \<Longrightarrow> site_key |`| current |\<subseteq>| entry_key |`| base"
  by (rule suffix_ratchet.history_debt)

text \<open>A site comes from a literal of its source, on the line where the literal starts.\<close>

lemma source_sites_literal:
  assumes "site |\<in>| source_sites path source"
  shows "vs_path site = path \<and> (\<exists>literal \<in> set (lua_string_literals source). vs_line site = line_no source (lit_start literal))"
  using assms by (auto simp: source_sites_def fset_of_list_elem literal_sites_def site_of_def Let_def split: if_splits)

end
