(* ===== verification/ContentTruncation.thy ===== *)
theory ContentTruncation
  imports LintBase
begin

text \<open>
  \<^verbatim>\<open>scripts/check_repo_content_truncation.py\<close> with its binding in \<^verbatim>\<open>check_repo_runner.py\<close>: the ratchet of content that is cut
  at a cap before it goes into a payload or a prompt. Sites are compared by path, function, cap and sink.

  The names of caps are tried from the longest to the shortest; between names of the same length the order is that of
  the iteration of a set, a parameter here. Shown here: what it means that the ratchet prints nothing, and that the order
  of the names has no influence on which lines are candidates.
\<close>

section \<open>Patterns\<close>

definition ALLOWLIST :: string where "ALLOWLIST = ''migration/content-truncation.allowlist''"

definition CONTENT_NAME_RE :: regex where
  "CONTENT_NAME_RE =
     ralt (map ilit [''body'', ''bodies'', ''comment'', ''comments'', ''context'', ''content'', ''diff'', ''file'', ''files'', ''evidence'',
       ''prompt'', ''review'', ''issue'', ''notes''])"

definition max_name :: regex where
  "max_name = rseq [rlit ''max_'', rstar (RSet ident_char), RAlt (rlit ''_len'') (rlit ''_bytes'')]"

definition CAP_NAME_RE :: regex where
  "CAP_NAME_RE = rseq [RWordB, RGroup ''name'' (RSeq (ropt (rchar CHR ''_'')) max_name), RWordB]"

definition CAP_DECL_RE :: regex where
  "CAP_DECL_RE =
     rseq [RWordB, ropt (RSeq (rlit ''local'') (rplus rspace)), RGroup ''name'' (RSeq (ropt (rchar CHR ''_'')) max_name), rblank,
       rchar CHR ''='', rblank, rplus rdigit, RWordB]"

definition MAX_FUNC_RE :: regex where
  "MAX_FUNC_RE = rseq [RWordB, RGroup ''name'' max_name, rblank, rchar CHR ''('', rblank, rchar CHR '')'']"

definition TRUNCATE_RE :: regex where
  "TRUNCATE_RE =
     RAlt (rseq [RWordB, RAlt (rlit ''truncate_utf8'') (rlit ''bounded_text''), rblank, rchar CHR ''(''])
       (rseq [rchar CHR '':'', rblank, rlit ''sub'', rblank, rchar CHR ''('', rblank, rchar CHR ''1'', rblank, rchar CHR '',''])"

definition PROMPT_SINK_RE :: regex where
  "PROMPT_SINK_RE =
     rseq [RWordB,
       ralt [RSeq (rlit ''spawn_codex'') (ropt (rlit ''_sync'')), rlit ''judgment_codex_opts'',
         rseq [rlit ''build_'', rstar (RSet ident_char), rlit ''prompt'']], RWordB]"

definition RAISE_SINK_RE :: regex where
  "RAISE_SINK_RE = rseq [RWordB, RAlt (rlit ''raise'') (rlit ''log_raise''), rblank, rchar CHR ''('']"

definition PAYLOAD_HINT_RE :: regex where
  "PAYLOAD_HINT_RE =
     ralt [rlit ''consensus.proposal'', rlit ''consensus_reached'', rlit ''consensus_converge'',
       rseq [rlit ''github%-proxy'', rchar CHR ''.'', ropt (rlit ''github_''), rlit ''issue_create_request''],
       rseq [rlit ''github-proxy'', rchar CHR ''.'', ropt (rlit ''github_''), rlit ''issue_create_request'']]"

definition CONTENT_FIELD_RE :: regex where
  "CONTENT_FIELD_RE =
     rseq [RWordB,
       ralt [rlit ''body'', rlit ''context'', rlit ''content'', rlit ''content_fetch'', RSeq (rlit ''comment'') (ropt (rchar CHR ''s'')),
         rlit ''diff'', rlit ''file'', rlit ''files'', rlit ''evidence'', rlit ''prompt''],
       rblank, rchar CHR ''='']"

definition dotted_name :: regex where
  "dotted_name = RSeq RIDENT (rstar (rseq [rblank, RSet (\<lambda>c. c = CHR ''.'' \<or> c = CHR '':''), rblank, RIDENT]))"

definition FUNCTION_RE :: regex where
  "FUNCTION_RE =
     RAlt
       (rseq [RBol, rblank, ropt (RSeq (rlit ''local'') (rplus rspace)), rlit ''function'', rplus rspace, RGroup ''name'' dotted_name, rblank,
          rchar CHR ''(''])
       (rseq [RBol, rblank, RGroup ''assign'' dotted_name, rblank, rchar CHR ''='', rblank, rlit ''function'', RWordB])"

section \<open>Sites\<close>

datatype truncation_site =
  ContentTruncationSite (ts_path: string) (ts_function: string) (ts_cap: string) (ts_sink: string) (ts_line: nat)

definition truncation_tuple :: "truncation_site \<Rightarrow> string \<times> string \<times> string \<times> string \<times> nat" where
  "truncation_tuple s = (ts_path s, ts_function s, ts_cap s, ts_sink s, ts_line s)"

instantiation truncation_site :: linorder
begin

definition less_eq_truncation_site :: "truncation_site \<Rightarrow> truncation_site \<Rightarrow> bool" where
  "s \<le> s' \<longleftrightarrow> truncation_tuple s \<le> truncation_tuple s'"

definition less_truncation_site :: "truncation_site \<Rightarrow> truncation_site \<Rightarrow> bool" where
  "s < s' \<longleftrightarrow> truncation_tuple s < truncation_tuple s'"

instance
proof
  show "s = s'" if "s \<le> s'" "s' \<le> s" for s s' :: truncation_site
    using that by (cases s; cases s') (auto simp: less_eq_truncation_site_def truncation_tuple_def dest: antisym)
qed (auto simp: less_eq_truncation_site_def less_truncation_site_def)

end

definition ISSUE_RE :: regex where "ISSUE_RE = rseq [rlit ''issue='', ropt (rchar CHR ''#''), rplus rdigit]"

definition parse_site :: "string \<Rightarrow> truncation_site result" where
  "parse_site l =
     (let invalid = (\<lambda>what. Raise (ValueError (''invalid '' @ ALLOWLIST @ '' '' @ what @ '': '' @ l))) in
      case split_char (CHR ''|'') l of
        path # fn # cap # sink # issue # why # _ \<Rightarrow>
          if \<not> startswith path ''packages/'' \<or> \<not> endswith path ''.lua'' then invalid ''path''
          else if fn = [] then invalid ''function''
          else if \<not> fullmatches CAP_NAME_RE cap \<and> \<not> fullmatches MAX_FUNC_RE (cap @ ''()'') then invalid ''cap''
          else if sink \<notin> {''raise-payload'', ''codex-prompt''} then invalid ''sink''
          else if \<not> fullmatches ISSUE_RE issue then invalid ''issue link''
          else if \<not> startswith why ''why='' \<or> why = ''why='' then invalid ''WHY''
          else Return (ContentTruncationSite path fn cap sink 0)
      | _ \<Rightarrow> invalid ''line'')"

definition allowlist_line :: "truncation_site \<Rightarrow> int \<Rightarrow> string \<Rightarrow> string" where
  "allowlist_line s issue why =
     join ''|'' [ts_path s, ts_function s, ts_cap s, ts_sink s, ''issue=#'' @ str_int issue, ''why='' @ why]"

definition site_key :: "truncation_site \<Rightarrow> string \<times> string \<times> string \<times> string" where
  "site_key s = (ts_path s, ts_function s, ts_cap s, ts_sink s)"

definition site_label :: "truncation_site \<Rightarrow> string" where
  "site_label s = ts_path s @ '':'' @ str_int (int (ts_line s)) @ '' '' @ ts_function s @ '' '' @ ts_cap s @ '' -> '' @ ts_sink s"

section \<open>Blocks of functions\<close>

datatype function_block = FunctionBlock (fn_name: string) (fn_start: nat) (fn_end: nat) (fn_source: string)

definition block_name :: "rematch \<Rightarrow> string" where
  "block_name found =
     filter (\<lambda>c. c \<noteq> CHR '' '')
       (case (m_group found ''name'', m_group found ''assign'') of
          (Some n, _) \<Rightarrow> n
        | (None, Some n) \<Rightarrow> n
        | (None, None) \<Rightarrow> ''unknown'')"

function blocks_from :: "nat \<Rightarrow> string list \<Rightarrow> string list \<Rightarrow> function_block list" where
  "blocks_from index [] original_lines = []"
| "blocks_from index (l # ls) original_lines =
     (case re_match FUNCTION_RE l of
        None \<Rightarrow> blocks_from (Suc index) ls (drop 1 original_lines)
      | Some found \<Rightarrow>
          let n = line_extent block_delta (block_delta l) ls in
          FunctionBlock (block_name found) (index + 1) (index + n + 1) (join [LF] (take (Suc n) original_lines)) #
          blocks_from (index + n + 1) (drop n ls) (drop (Suc n) original_lines))"
  by pat_completeness auto
termination by (relation "measure (length \<circ> fst \<circ> snd)") simp_all

definition function_blocks :: "string \<Rightarrow> function_block list" where
  "function_blocks source = blocks_from 0 (splitlines (code_mask_short source)) (splitlines source)"

definition package_lua_sources :: "repo \<Rightarrow> string \<Rightarrow> (string \<times> string) list" where
  "package_lua_sources repo packages =
     map (\<lambda>path. (rel repo path, source_of (rp_tree repo) path))
       (filter (\<lambda>path. ''tests'' \<notin> set (path_parts (drop (Suc (length packages)) path))) (rglob_lua (rp_tree repo) packages))"

section \<open>Sites of a source\<close>

definition cap_names :: "string \<Rightarrow> string fset" where
  "cap_names source =
     ffilter (\<lambda>n. re_search CONTENT_NAME_RE n \<noteq> None)
       (fset_of_list (map (\<lambda>found. group_or_empty found ''name'') (re_finditer CAP_DECL_RE source @ re_finditer MAX_FUNC_RE source)))"

text \<open>\<open>sorted(caps, key=len, reverse=True)\<close>, stable over the order in which the set is iterated.\<close>

definition caps_by_length :: "(string fset \<Rightarrow> string list) \<Rightarrow> string fset \<Rightarrow> string list" where
  "caps_by_length set_order caps = sort_key (\<lambda>cap. - int (length cap)) (set_order caps)"

definition mentions_cap :: "string \<Rightarrow> string \<Rightarrow> bool" where
  "mentions_cap l cap \<longleftrightarrow>
     re_search (rseq [RWordB, rlit cap, RWordB]) l \<noteq> None \<or>
     re_search (rseq [RWordB, rlit cap, rblank, rchar CHR ''('', rblank, rchar CHR '')'']) l \<noteq> None"

definition truncation_cap_on_line :: "(string fset \<Rightarrow> string list) \<Rightarrow> string \<Rightarrow> string fset \<Rightarrow> string option" where
  "truncation_cap_on_line set_order l caps =
     (if re_search TRUNCATE_RE l = None then None else find (mentions_cap l) (caps_by_length set_order caps))"

definition sink_for_block :: "string \<Rightarrow> nat \<Rightarrow> string option" where
  "sink_for_block block_source truncation_index =
     (let tail = join [LF] (take 80 (drop truncation_index (splitlines block_source)));
          payload = re_search PAYLOAD_HINT_RE tail \<noteq> None; content = re_search CONTENT_FIELD_RE tail \<noteq> None in
      if re_search PROMPT_SINK_RE tail \<noteq> None then Some ''codex-prompt''
      else if payload \<and> content then Some ''raise-payload''
      else if re_search RAISE_SINK_RE tail \<noteq> None \<and> (payload \<or> content) then Some ''raise-payload''
      else None)"

text \<open>The lines of a block that cut at a cap, each with its index and the cap.\<close>

definition cut_lines :: "(string fset \<Rightarrow> string list) \<Rightarrow> function_block \<Rightarrow> string fset \<Rightarrow> (nat \<times> string) list" where
  "cut_lines set_order block caps =
     (let lines = splitlines (code_mask_short (fn_source block)) in
      List.map_filter (\<lambda>(index, l). map_option (Pair index) (truncation_cap_on_line set_order l caps)) (zip [0..<length lines] lines))"

definition block_sites :: "(string fset \<Rightarrow> string list) \<Rightarrow> string \<Rightarrow> function_block \<Rightarrow> string fset \<Rightarrow> truncation_site list" where
  "block_sites set_order path block caps =
     List.map_filter (\<lambda>(index, cap).
         map_option (\<lambda>sink. ContentTruncationSite path (fn_name block) cap sink (fn_start block + index)) (sink_for_block (fn_source block) index))
       (cut_lines set_order block caps)"

definition truncation_candidates :: "(string fset \<Rightarrow> string list) \<Rightarrow> string \<Rightarrow> function_block \<Rightarrow> string fset \<Rightarrow> truncation_site list" where
  "truncation_candidates set_order path block caps =
     map (\<lambda>(index, cap). ContentTruncationSite path (fn_name block) cap [] (fn_start block + index)) (cut_lines set_order block caps)"

definition block_calls_function :: "function_block \<Rightarrow> string \<Rightarrow> bool" where
  "block_calls_function block function_name \<longleftrightarrow>
     (let basename = after_last (CHR '':'') (after_last (CHR ''.'') function_name) in
      re_search (rseq [RWordB, rlit basename, rblank, rchar CHR ''('']) (code_mask_short (fn_source block)) \<noteq> None)"

text \<open>The site of a candidate at the first other block that calls its function and has a sink.\<close>

fun called_site :: "function_block list \<Rightarrow> truncation_site \<Rightarrow> truncation_site list" where
  "called_site [] candidate = []"
| "called_site (block # blocks) candidate =
     (if fn_name block = ts_function candidate \<or> \<not> block_calls_function block (ts_function candidate) then called_site blocks candidate
      else
        (case sink_for_block (fn_source block) 0 of
           None \<Rightarrow> called_site blocks candidate
         | Some sink \<Rightarrow> [ContentTruncationSite (ts_path candidate) (ts_function candidate) (ts_cap candidate) sink (ts_line candidate)]))"

definition source_sites :: "(string fset \<Rightarrow> string list) \<Rightarrow> string \<Rightarrow> string \<Rightarrow> truncation_site fset" where
  "source_sites set_order path source =
     (let caps = cap_names source; blocks = function_blocks source in
      if caps = {||} then {||}
      else
        fset_of_list
          (concat (map (\<lambda>block. block_sites set_order path block caps) blocks) @
           concat (map (called_site blocks)
             (filter (\<lambda>candidate. ts_sink candidate = []) (concat (map (\<lambda>block. truncation_candidates set_order path block caps) blocks))))))"

definition current_sites :: "(string fset \<Rightarrow> string list) \<Rightarrow> (string \<times> string) list \<Rightarrow> truncation_site fset" where
  "current_sites set_order sources =
     fold (\<lambda>(path, source) sites. sites |\<union>| source_sites set_order path source) (sort_key fst sources) {||}"

section \<open>The ratchet\<close>

definition read_line :: "string \<Rightarrow> truncation_site list result" where
  "read_line raw =
     (let stripped = strip raw in
      if stripped = [] \<or> startswith stripped ''#'' then Return [] else bindR (parse_site stripped) (\<lambda>e. Return [e]))"

definition load_allowlist :: "string option \<Rightarrow> truncation_site fset result" where
  "load_allowlist content =
     (case content of
        None \<Rightarrow> Return {||}
      | Some source \<Rightarrow> bindR (mapR read_line (splitlines source)) (\<lambda>es. Return (fset_of_list (concat es))))"

definition read_dev_line :: "string \<Rightarrow> truncation_site list result" where
  "read_dev_line raw =
     (if strip raw = [] \<or> startswith (lstrip raw) ''#'' then Return [] else bindR (parse_site (strip raw)) (\<lambda>e. Return [e]))"

definition parse_dev_allowlist_lines :: "string list \<Rightarrow> truncation_site fset result" where
  "parse_dev_allowlist_lines lines = bindR (mapR read_dev_line lines) (\<lambda>es. Return (fset_of_list (concat es)))"

definition entry_label :: "truncation_site \<Rightarrow> string" where
  "entry_label e = ts_path e @ '' '' @ ts_function e @ '' '' @ ts_cap e @ '' -> '' @ ts_sink e"

definition ratchet_messages :: "truncation_site fset \<Rightarrow> truncation_site fset \<Rightarrow> truncation_site fset option \<Rightarrow> string list" where
  "ratchet_messages current allowlist base_allowlist =
     map (\<lambda>site. site_label site @
         '' truncates large content into a reliable payload or codex prompt; use source_ref/content_fetch rehydration instead'')
       (uncovered site_key site_key current allowlist) @
     map (\<lambda>entry. entry_label entry @ '' no longer matches content-truncation debt; prune the stale entry'')
       (uncovered site_key site_key allowlist current) @
     (case base_allowlist of None \<Rightarrow> []
      | Some base \<Rightarrow>
          map (\<lambda>entry. entry_label entry @
              '' grows content-truncation allowlist relative to dev; migrate to source_ref/content_fetch instead'')
            (uncovered site_key site_key allowlist base))"

definition unresolved_message :: string where
  "unresolved_message = ''cannot resolve dev base allowlist to enforce shrink-only ratchet; ensure CI provides the dev ref''"

definition repository_messages :: "environ \<Rightarrow> git \<Rightarrow> (string fset \<Rightarrow> string list) \<Rightarrow> repo \<Rightarrow> string \<Rightarrow> check_message list result" where
  "repository_messages env git set_order repo packages =
     bindR (load_allowlist (tree_read (rp_tree repo) ALLOWLIST)) (\<lambda>allowlist.
       let base = allowlist_at_dev_base env git ALLOWLIST parse_dev_allowlist_lines in
       Return (unresolved_failure unresolved_message base @
         map Violation
           (ratchet_messages (current_sites set_order (dict_of (package_lua_sources repo packages))) allowlist (base_value base))))"

text \<open>\<open>check_content_truncation\<close> of the runner\<close>

definition check_content_truncation ::
    "environ \<Rightarrow> git \<Rightarrow> host_file \<Rightarrow> (string fset \<Rightarrow> string list) \<Rightarrow> repo \<Rightarrow> string option \<Rightarrow> bool \<Rightarrow> check_message list result" where
  "check_content_truncation env git host set_order repo allowlist_dir enforce_base =
     (let sources = dict_of (concat (map (package_lua_sources repo) (package_roots repo))) in
      bindR (load_allowlist (case allowlist_dir of None \<Rightarrow> tree_read (rp_tree repo) ALLOWLIST
          | Some dir \<Rightarrow> host (dir @ ''/'' @ path_name ALLOWLIST))) (\<lambda>allowlist.
        let base = (if enforce_base then allowlist_at_dev_base env git ALLOWLIST parse_dev_allowlist_lines else BaseAbsent) in
        Return (map (add ''G-CONTENT-TRUNCATION'')
          (unresolved_failure unresolved_message base @
           map Violation (ratchet_messages (current_sites set_order sources) allowlist (base_value base))))))"

section \<open>What the ratchet says\<close>

lemma truncation_messages_Nil:
  "ratchet_messages current allowlist base_allowlist = [] \<longleftrightarrow>
     site_key |`| current = site_key |`| allowlist \<and>
     (case base_allowlist of None \<Rightarrow> True | Some base \<Rightarrow> site_key |`| allowlist |\<subseteq>| site_key |`| base)"
  unfolding ratchet_messages_def append_is_Nil_conv map_is_Nil_conv uncovered_keys_Nil
  by (simp add: uncovered_keys_Nil fsubset_antisym split: option.split) blast

interpretation truncation_ratchet: shrink_only_ratchet
  "\<lambda>current allowlist base. ContentTruncation.ratchet_messages current allowlist base = []" "(|`|) site_key" "(|`|) site_key" "(|\<subseteq>|)"
  by unfold_locales (auto simp: truncation_messages_Nil)

text \<open>Along a history of clean commits every cut was listed from the start.\<close>

lemma truncation_history_shrinks:
  "clean_history (\<lambda>current allowlist base. ratchet_messages current allowlist base = []) base history \<Longrightarrow>
     (current, allowlist) \<in> set history \<Longrightarrow> site_key |`| current |\<subseteq>| site_key |`| base"
  by (rule truncation_ratchet.history_debt)

text \<open>
  An order of iteration lists the elements of the set. Which lines are cut at some cap does not depend on it, but which
  cap of equal length is named does.
\<close>

definition iterates :: "(string fset \<Rightarrow> string list) \<Rightarrow> bool" where
  "iterates set_order \<longleftrightarrow> (\<forall>caps. distinct (set_order caps) \<and> set (set_order caps) = fset caps)"

lemma cut_at_some_cap:
  assumes "iterates set_order"
  shows "truncation_cap_on_line set_order l caps \<noteq> None \<longleftrightarrow>
     re_search TRUNCATE_RE l \<noteq> None \<and> fBex caps (mentions_cap l)"
proof -
  have "find P xs \<noteq> None \<longleftrightarrow> (\<exists>x \<in> set xs. P x)" for P and xs :: "string list" by (auto simp: find_None_iff)
  moreover have "set (caps_by_length set_order caps) = fset caps" using assms by (simp add: caps_by_length_def iterates_def)
  ultimately show ?thesis by (simp add: truncation_cap_on_line_def)
qed

lemma longest_cap_named:
  assumes "iterates set_order" "truncation_cap_on_line set_order l caps = Some cap"
  shows "cap |\<in>| caps \<and> mentions_cap l cap \<and> (\<forall>other. other |\<in>| caps \<longrightarrow> mentions_cap l other \<longrightarrow> length other \<le> length cap)"
proof -
  let ?caps = "caps_by_length set_order caps"
  from assms(2) have "find (mentions_cap l) ?caps = Some cap" by (auto simp: truncation_cap_on_line_def split: if_splits)
  then obtain i where i: "i < length ?caps" "mentions_cap l cap" "cap = ?caps ! i" "\<And>j. j < i \<Longrightarrow> \<not> mentions_cap l (?caps ! j)"
    by (auto simp: find_Some_iff)
  have set: "set ?caps = fset caps" using assms(1) by (simp add: caps_by_length_def iterates_def)
  have sorted: "sorted (map (\<lambda>cap. - int (length cap)) ?caps)" by (simp add: caps_by_length_def)
  have "length other \<le> length cap" if other: "other |\<in>| caps" "mentions_cap l other" for other
  proof -
    from other set obtain j where j: "j < length ?caps" "other = ?caps ! j" by (metis in_set_conv_nth)
    with i(4) other have "i \<le> j" by (meson not_le)
    with sorted_nth_mono [OF sorted, of i j] j i show ?thesis by simp
  qed
  moreover have "cap |\<in>| caps" using i set by (metis nth_mem)
  ultimately show ?thesis using i by blast
qed

end
