(* ===== verification/GhHandle.thy ===== *)
theory GhHandle
  imports LintBase
begin

text \<open>
  \<^verbatim>\<open>scripts/check_repo_gh_handle_construction.py\<close>: the ratchet of production code that constructs a handle of GitHub
  itself. Constructions are attributed to the innermost function around them, the seams that own the handle are
  recognised, and the rest is compared with an inventory that only shrinks.

  Shown here: what it means that the check finds nothing, and that debt never lies in the files that own the handle.
\<close>

section \<open>Patterns\<close>

definition INVENTORY :: string where "INVENTORY = ''migration/gh-handle-construction.inventory''"
definition DEBT_HEADER :: string where "DEBT_HEADER = ''# Debt-only, shrink-only production GitHub consumer handle locators.''"

definition quotes :: regex where "quotes = RSet (\<lambda>c. c = SQ \<or> c = DQ)"

definition require_of :: "string list \<Rightarrow> regex" where
  "require_of modules =
     rseq [rlit ''require('', rblank, quotes, RGroup ''module'' (ralt (map rlit modules)), quotes, rblank, rchar CHR '')'']"

definition IMPORT_RE :: regex where
  "IMPORT_RE =
     rseq [RWordB, rlit ''local'', rplus rspace, RGroup ''alias'' RIDENT, rblank, rchar CHR ''='', rblank,
       require_of [''devloop.github_factory'', ''forge.github'', ''forge.ports'']]"

definition DIRECT_FACTORY_RE :: regex where
  "DIRECT_FACTORY_RE =
     rseq [RWordB, require_of [''devloop.github_factory'', ''forge.github''], rblank, rchar CHR ''.'', rblank,
       RGroup ''method'' (RAlt (rlit ''production_handle'') (rlit ''new'')), RWordB]"

definition name_char :: "char \<Rightarrow> bool" where "name_char c \<longleftrightarrow> ident_char c \<or> c = CHR ''.'' \<or> c = CHR '':''"

definition named :: regex where "named = RSeq (RSet ident_start) (rstar (RSet name_char))"

definition FUNCTION_RE :: regex where
  "FUNCTION_RE =
     rseq [RWordB,
       RAlt (rseq [rlit ''local'', rplus rspace, rlit ''function'', rplus rspace, RGroup ''local'' RIDENT])
         (rseq [rlit ''function'', rplus rspace, RGroup ''named'' named]),
       rblank, rchar CHR ''('']"

definition LOCAL_ASSIGN_RE :: regex where
  "LOCAL_ASSIGN_RE = rseq [RWordB, rlit ''local'', rplus rspace, RGroup ''1'' RIDENT, rblank, rchar CHR ''='']"

definition SITE_RE :: regex where "SITE_RE = rseq [RBol, rplus (RSet (\<lambda>c. c \<noteq> CHR '':'')), rchar CHR '':'', named, REol]"

definition PACKAGE_CORE_WIRING_LINE_RE :: regex where
  "PACKAGE_CORE_WIRING_LINE_RE =
     rseq [RBol, rblank, rlit ''github_handle'', rblank, rchar CHR ''='', rblank, require_of [''devloop.github_factory''], rblank,
       rchar CHR ''.'', rblank, rlit ''production_handle'', rblank, ropt (rchar CHR '',''), rblank, REol]"

section \<open>Imports and functions\<close>

definition production_lua_files :: "tree \<Rightarrow> string list" where
  "production_lua_files t =
     concat (map (\<lambda>base. filter (\<lambda>path. ''tests'' \<notin> set (path_parts (drop (Suc (length base)) path))) (rglob_lua t base))
       [''libraries'', ''packages''])"

definition is_code_start :: "string \<Rightarrow> nat \<Rightarrow> string \<Rightarrow> bool" where
  "is_code_start masked start token \<longleftrightarrow> py_slice masked start (start + length token) = token"

definition aliases_of :: "string \<Rightarrow> string \<Rightarrow> string \<Rightarrow> string fset" where
  "aliases_of source masked module =
     fset_of_list (map (\<lambda>found. group_or_empty found ''alias'')
       (filter (\<lambda>found. is_code_start masked (m_start found) ''local'' \<and> group_or_empty found ''module'' = module) (re_finditer IMPORT_RE source)))"

type_synonym function_span = "nat \<times> nat \<times> string"

definition header_delta_of :: "string \<Rightarrow> int" where "header_delta_of l = block_delta_gen l True"

fun spans_of_lines :: "nat \<Rightarrow> string list \<Rightarrow> function_span list" where
  "spans_of_lines index [] = []"
| "spans_of_lines index (l # ls) =
     (case re_search FUNCTION_RE l of
        None \<Rightarrow> []
      | Some found \<Rightarrow>
          [(index + 1, index + line_extent header_delta_of (header_delta_of l) ls + 1,
            case m_group found ''local'' of Some n \<Rightarrow> n | None \<Rightarrow> group_or_empty found ''named'')]) @
     spans_of_lines (Suc index) ls"

definition function_spans :: "string \<Rightarrow> function_span list" where
  "function_spans source = spans_of_lines 0 (splitlines (code_mask source))"

definition owner_of :: "nat \<Rightarrow> string \<Rightarrow> function_span list \<Rightarrow> nat \<Rightarrow> string" where
  "owner_of number l spans ordinal =
     (case filter (\<lambda>(start, stop, n). start \<le> number \<and> number \<le> stop) spans of
        span # rest \<Rightarrow> snd (snd (first_max (\<lambda>(start, stop, n). (start, - int stop)) span rest))
      | [] \<Rightarrow>
          (case re_search LOCAL_ASSIGN_RE l of
             Some assignment \<Rightarrow> group_or_empty assignment ''1''
           | None \<Rightarrow> ''top_level_locator_'' @ str_int (int ordinal)))"

section \<open>Constructions\<close>

definition call_of :: "string fset \<Rightarrow> string list \<Rightarrow> regex" where
  "call_of aliases methods =
     rseq [RWordB, ralt (map rlit (sorted_list_of_fset aliases)), rblank, rchar CHR ''.'', rblank, ralt (map rlit methods), RWordB]"

definition hits :: "string \<Rightarrow> rematch list \<Rightarrow> (nat \<times> string) list" where
  "hits source founds = map (\<lambda>found. (count_char source LF 0 (m_start found) + 1, m_text found)) founds"

definition candidate_lines :: "string \<Rightarrow> (nat \<times> string) list" where
  "candidate_lines source =
     (let masked = code_mask source; factory = aliases_of source masked ''devloop.github_factory''; github = aliases_of source masked ''forge.github'' in
      sort (remdups
        ((if factory = {||} then [] else hits source (re_finditer (call_of factory [''production_handle'', ''new'']) masked)) @
         (if github = {||} then [] else hits source (re_finditer (call_of github [''new'']) masked)) @
         hits source (filter (\<lambda>found. is_code_start masked (m_start found) ''require'') (re_finditer DIRECT_FACTORY_RE source)))))"

definition CORE_PATH_RE :: regex where
  "CORE_PATH_RE = rseq [rlit ''packages/'', rplus (RSet (\<lambda>c. c \<noteq> CHR ''/'')), rlit ''/core.lua'']"

definition MERGE_INSTALL :: string where "MERGE_INSTALL = ''require('' @ [DQ] @ ''forge.merge'' @ [DQ] @ '').install''"

definition is_package_core_wiring :: "string \<Rightarrow> string \<Rightarrow> string \<Rightarrow> bool" where
  "is_package_core_wiring relpath l source \<longleftrightarrow>
     fullmatches CORE_PATH_RE relpath \<and> fullmatches PACKAGE_CORE_WIRING_LINE_RE l \<and> contains MERGE_INSTALL source"

definition has_package_core_wiring :: "string \<Rightarrow> string \<Rightarrow> bool" where
  "has_package_core_wiring relpath source \<longleftrightarrow> list_ex (\<lambda>l. is_package_core_wiring relpath l source) (splitlines source)"

definition OWNING_FILES :: "string list" where
  "OWNING_FILES = [''libraries/forge/ports.lua'', ''libraries/forge/merge_commands.lua'', ''libraries/devloop/github_factory.lua'']"

definition RELEASE_NOTES :: string where "RELEASE_NOTES = ''packages/github-devloop-integration/core/release_notes.lua''"

definition is_canonical_candidate :: "string \<Rightarrow> string \<Rightarrow> string \<Rightarrow> string \<Rightarrow> bool" where
  "is_canonical_candidate relpath owner l source \<longleftrightarrow>
     relpath \<in> set OWNING_FILES \<or> is_package_core_wiring relpath l source \<or> relpath = RELEASE_NOTES \<and> owner = ''M.gh_pr_create_body''"

definition port_install_sites :: "string \<Rightarrow> string \<Rightarrow> string fset" where
  "port_install_sites relpath source =
     (let masked = code_mask source in
      (\<lambda>alias. relpath @ '':'' @ alias @ ''.install'') |`|
        ffilter (\<lambda>alias. re_search (rseq [RWordB, rlit alias, rblank, rchar CHR ''.'', rblank, rlit ''install'', rblank, rchar CHR ''('']) masked \<noteq> None)
          (aliases_of source masked ''forge.ports''))"

text \<open>The definitions of functions and the names that count as canonical in one file each.\<close>

definition defines_function :: "string \<Rightarrow> string \<Rightarrow> bool" where
  "defines_function masked symbol \<longleftrightarrow> re_search (rseq [RWordB, rlit ''function'', rplus rspace, rlit symbol, rblank, rchar CHR ''('']) masked \<noteq> None"

definition CANONICAL_DEFINITIONS :: "(string \<times> string) list" where
  "CANONICAL_DEFINITIONS =
     [(''libraries/forge/github.lua'', ''M.new''), (''libraries/forge/ports.lua'', ''M.production_handles''),
      (''libraries/forge/merge_commands.lua'', ''M.install''), (''libraries/devloop/github_factory.lua'', ''M.new''),
      (''libraries/devloop/github_factory.lua'', ''M.production_handle''), (RELEASE_NOTES, ''M.gh_pr_create_body'')]"

definition canonical_sites_of :: "string \<Rightarrow> string \<Rightarrow> string list" where
  "canonical_sites_of relpath source =
     (let masked = code_mask source in
      map (\<lambda>(path, symbol). relpath @ '':'' @ symbol)
        (filter (\<lambda>(path, symbol). relpath = path \<and> defines_function masked symbol) CANONICAL_DEFINITIONS) @
      (if has_package_core_wiring relpath source then [relpath @ '':forge.merge.install''] else []) @
      (if relpath = ''packages/github-devloop/core/github_graphql.lua'' \<and> contains ''M.github_graphql'' masked
       then [relpath @ '':M.github_graphql''] else []))"

definition canonical_sites :: "tree \<Rightarrow> string fset" where
  "canonical_sites t =
     fold (\<lambda>path sites. sites |\<union>| port_install_sites path (source_of t path) |\<union>| fset_of_list (canonical_sites_of path (source_of t path)))
       (production_lua_files t) {||}"

definition file_debt :: "string \<Rightarrow> string \<Rightarrow> string list" where
  "file_debt relpath source =
     (let lines = splitlines source; spans = function_spans source; candidates = candidate_lines source in
      concat (map (\<lambda>(ordinal, number, found).
          let l = lines ! (number - 1); owner = owner_of number l spans ordinal in
          if is_canonical_candidate relpath owner l source then [] else [relpath @ '':'' @ owner])
        (zip [1..<Suc (length candidates)] candidates)))"

definition current_debt :: "tree \<Rightarrow> string fset" where
  "current_debt t = fold (\<lambda>path debt. debt |\<union>| fset_of_list (file_debt path (source_of t path))) (production_lua_files t) {||}"

section \<open>The inventory\<close>

definition read_entry :: "string \<Rightarrow> string option result" where
  "read_entry raw =
     (let line = strip raw in
      if line = [] \<or> startswith line ''#'' then Return None
      else if \<not> fullmatches SITE_RE line then Raise (ValueError (''invalid '' @ INVENTORY @ '' entry: '' @ raw))
      else Return (Some line))"

definition parse_inventory_lines :: "string list \<Rightarrow> bool \<Rightarrow> string fset option result" where
  "parse_inventory_lines lines require_debt_header =
     (if require_debt_header \<and> DEBT_HEADER \<notin> set lines then Return None
      else bindR (distinct_entries read_entry (\<lambda>e. ''duplicate '' @ INVENTORY @ '' entry: '' @ e) [] lines) (\<lambda>es. Return (Some (fset_of_list es))))"

definition load_inventory :: "tree \<Rightarrow> string fset option result" where
  "load_inventory t =
     (case tree_read t INVENTORY of None \<Rightarrow> Return None | Some source \<Rightarrow> parse_inventory_lines (splitlines source) True)"

definition ratchet_messages :: "string fset \<Rightarrow> string fset \<Rightarrow> string fset option \<Rightarrow> string list" where
  "ratchet_messages current inventory base_inventory =
     map (\<lambda>site. site @ '' is a new consumer-side GitHub handle locator not recorded in '' @ INVENTORY @
         ''; inject the typed forge.github handle instead (the debt inventory cannot grow)'')
       (sorted_list_of_fset (current |-| inventory)) @
     map (\<lambda>site. site @ '' no longer exists; remove it from '' @ INVENTORY @ '' (the inventory must shrink with the debt)'')
       (sorted_list_of_fset (inventory |-| current)) @
     (case base_inventory of None \<Rightarrow> []
      | Some base \<Rightarrow>
          map (\<lambda>site. INVENTORY @ '' inventory grew relative to the base with '' @ site @ ''; new consumer handle locators are forbidden'')
            (sorted_list_of_fset (inventory |-| base)))"

text \<open>A base that is present may still have no debt header; then it is not compared.\<close>

definition base_inventory_of :: "string fset option base_allowlist \<Rightarrow> string fset option" where
  "base_inventory_of base = (case base of BasePresent parsed \<Rightarrow> parsed | _ \<Rightarrow> None)"

definition repository_messages :: "environ \<Rightarrow> git \<Rightarrow> tree \<Rightarrow> bool \<Rightarrow> check_message list result" where
  "repository_messages env git t enforce_base =
     (if \<not> dir_exists t ''libraries/forge'' then Return []
      else
        bindR (load_inventory t) (\<lambda>loaded.
          case loaded of
            None \<Rightarrow> Return [Violation (''missing or unscoped '' @ INVENTORY @ ''; write '' @ [SQ] @ DEBT_HEADER @ [SQ] @
              '' followed only by the current consumer-side locator sites'')]
          | Some inventory \<Rightarrow>
              let base = (if enforce_base
                    then allowlist_at_dev_base env git INVENTORY (\<lambda>lines. parse_inventory_lines lines True) else BaseAbsent) in
              Return (unresolved_failure (''cannot resolve target baseline inventory to enforce the shrink-only GitHub '' @
                  ''handle locator ratchet; ensure CI provides the target ref'') base @
                map Violation (ratchet_messages (current_debt t) inventory (base_inventory_of base)))))"

section \<open>What the check says\<close>

lemma handle_messages_Nil:
  "ratchet_messages current inventory base_inventory = [] \<longleftrightarrow>
     current = inventory \<and> (case base_inventory of None \<Rightarrow> True | Some base \<Rightarrow> inventory |\<subseteq>| base)"
  unfolding ratchet_messages_def append_is_Nil_conv map_is_Nil_conv sorted_list_of_fset_Nil fminus_empty
  by (auto split: option.split)

interpretation handle_ratchet: shrink_only_ratchet
  "\<lambda>current inventory base. GhHandle.ratchet_messages current inventory base = []" "\<lambda>debt. debt" "\<lambda>inventory. inventory" "(|\<subseteq>|)"
  by unfold_locales (auto simp: handle_messages_Nil)

text \<open>Along a history of clean commits every construction was listed from the start.\<close>

lemma handle_history_shrinks:
  "clean_history (\<lambda>current inventory base. ratchet_messages current inventory base = []) base history \<Longrightarrow>
     (current, inventory) \<in> set history \<Longrightarrow> current |\<subseteq>| base"
  by (rule handle_ratchet.history_debt)

text \<open>The files that own the handle have no debt.\<close>

lemma owning_files_free: "relpath \<in> set OWNING_FILES \<Longrightarrow> file_debt relpath source = []"
  by (simp add: file_debt_def is_canonical_candidate_def Let_def case_prod_unfold)

text \<open>The check is silent exactly without the adapter, or with an inventory of exactly the debt, none of it new.\<close>

definition handle_clean :: "environ \<Rightarrow> git \<Rightarrow> tree \<Rightarrow> bool \<Rightarrow> bool" where
  "handle_clean env git t enforce_base \<longleftrightarrow>
     \<not> dir_exists t ''libraries/forge'' \<or>
     load_inventory t = Return (Some (current_debt t)) \<and>
     (if enforce_base
      then (case allowlist_at_dev_base env git INVENTORY (\<lambda>lines. parse_inventory_lines lines True) of
          BaseUnresolved \<Rightarrow> False | BasePresent (Some base) \<Rightarrow> current_debt t |\<subseteq>| base | _ \<Rightarrow> True)
      else True)"

theorem handle_check_clean_iff: "repository_messages env git t enforce_base = Return [] \<longleftrightarrow> handle_clean env git t enforce_base"
proof (cases "load_inventory t")
  case (Inr loaded)
  then show ?thesis
    by (cases loaded)
      (auto simp: repository_messages_def handle_clean_def unresolved_failure_def base_inventory_of_def handle_messages_Nil
        split: base_allowlist.splits option.splits)
qed (auto simp: repository_messages_def handle_clean_def)

end
