(* ===== verification/ContentIngress.thy ===== *)
theory ContentIngress
  imports LintBase
begin

text \<open>
  \<^verbatim>\<open>scripts/check_repo_github_content_ingress.py\<close>: content that others wrote on GitHub comes in through one filter. Calls
  of the adapter's executor must declare what happens to their output, raw calls and handles without a policy are
  reported, and prompts must not fetch.

  Shown here: what it means that the check finds nothing.
\<close>

section \<open>Names\<close>

definition RULE :: string where "RULE = ''G-GITHUB-CONTENT-INGRESS''"
definition PROMPT_EXTERNAL_FETCH_ALLOWLIST :: string where
  "PROMPT_EXTERNAL_FETCH_ALLOWLIST = ''migration/prompt-external-fetch.allowlist''"

definition PROMPT_EXTERNAL_FETCH_RE :: regex where
  "PROMPT_EXTERNAL_FETCH_RE =
     RAlt
       (rseq [RWordB, ilit ''gh'', rplus rspace,
          ralt [RSeq (ilit ''api'') RWordB, rseq [ilit ''issue'', rplus rspace, ilit ''view'', RWordB],
            rseq [ilit ''pr'', rplus rspace, RAlt (ilit ''view'') (ilit ''diff''), RWordB]]])
       (rseq [RWordB, ilit ''git'', rplus rspace, ralt (map ilit [''clone'', ''fetch'', ''pull'', ''ls-remote'']), RWordB])"

definition WRAPPER_NEEDLES :: "(string \<times> string list) list" where
  "WRAPPER_NEEDLES = [(''libraries/forge/github/exec.lua'', [''content_filter.apply_gh_content_filter''])]"

definition POLICY_FACTORY_NEEDLE :: string where "POLICY_FACTORY_NEEDLE = ''devloop.github_factory''"

definition AUTHORED_LIST_HELPER_SHAPES :: "(string \<times> string) list" where
  "AUTHORED_LIST_HELPER_SHAPES =
     [(''issue_list_argv'', ''issue_list''), (''issue_list_cli_argv'', ''issue_list''), (''issue_list_observe_argv'', ''issue_list''),
      (''issue_list_open_assigned_argv'', ''issue_list''), (''issue_search_argv'', ''issue_list''), (''pr_list_argv'', ''pr_list''),
      (''pr_list_cli_argv'', ''pr_list''), (''pr_list_head_argv'', ''pr_list''), (''pr_list_merge_queue_argv'', ''pr_list''),
      (''pr_list_observe_argv'', ''pr_list''), (''pr_list_recent_merged_argv'', ''pr_list'')]"

section \<open>Calls\<close>

definition opens_bracket :: "char \<Rightarrow> bool" where "opens_bracket c \<longleftrightarrow> c \<in> {CHR ''('', CHR ''['', CHR ''{''}"
definition shuts_bracket :: "char \<Rightarrow> bool" where "shuts_bracket c \<longleftrightarrow> c \<in> {CHR '')'', CHR '']'', CHR ''}''}"

text \<open>The length of a call up to the bracket that closes it.\<close>

fun call_extent :: "int \<Rightarrow> string \<Rightarrow> nat" where
  "call_extent depth [] = 0"
| "call_extent depth (c # cs) =
     (if opens_bracket c then Suc (call_extent (depth + 1) cs)
      else if shuts_bracket c then (if depth = 1 then 1 else Suc (call_extent (depth - 1) cs))
      else Suc (call_extent depth cs))"

definition matching_call :: "string \<Rightarrow> nat \<Rightarrow> string" where
  "matching_call source open_paren = take (call_extent 0 (drop open_paren source)) (drop open_paren source)"

fun commas_from :: "nat \<Rightarrow> string \<Rightarrow> nat" where
  "commas_from depth [] = 0"
| "commas_from depth (c # cs) =
     (if opens_bracket c then commas_from (Suc depth) cs
      else if shuts_bracket c \<and> 0 < depth then commas_from (depth - 1) cs
      else if c = CHR '','' \<and> depth = 1 then Suc (commas_from depth cs)
      else commas_from depth cs)"

definition top_level_commas :: "string \<Rightarrow> nat" where "top_level_commas call = commas_from 0 call"

section \<open>Sources\<close>

definition SCAN_ROOTS :: "string list" where
  "SCAN_ROOTS = [''libraries/forge/github'', ''libraries/forge/merge'', ''libraries/devloop'']"

definition is_test_relpath :: "string \<Rightarrow> bool" where
  "is_test_relpath relpath \<longleftrightarrow> contains ''/tests/'' relpath \<or> endswith relpath ''_test.lua''"

definition production_lua_sources :: "repo \<Rightarrow> (string \<times> string) list" where
  "production_lua_sources repo =
     (let t = rp_tree repo;
          paths = map snd (package_lua_files repo) @ concat (map (rglob_lua t) SCAN_ROOTS) @
            filter (\<lambda>p. tree_read t p \<noteq> None) [''libraries/forge/ports.lua'', ''libraries/forge/merge.lua''] in
      map (\<lambda>path. (rel repo path, source_of t path))
        (filter (\<lambda>path. \<not> is_test_relpath (rel repo path) \<and>
             rel repo path \<notin> {''libraries/forge/github.lua'', ''libraries/forge/github_fake.lua''})
          (sort_key path_parts (remdups paths))))"

definition OBFUSCATED_HEAD_RE :: regex where
  "OBFUSCATED_HEAD_RE =
     (let q = RSet (\<lambda>c. c = SQ \<or> c = DQ) in
      rseq [rlit ''table'', rblank, rchar CHR ''.'', rblank, rlit ''concat'', rblank, rchar CHR ''('', rblank, rchar CHR ''{'', rblank,
        q, rchar CHR ''g'', q, rblank, rchar CHR '','', rblank, q, rchar CHR ''h'', q, rblank, rchar CHR ''}''])"

definition file_has_obfuscated_gh_head :: "string \<Rightarrow> bool" where
  "file_has_obfuscated_gh_head source \<longleftrightarrow> re_search OBFUSCATED_HEAD_RE source \<noteq> None"

definition is_allowed_policyless_github_construction :: "string \<Rightarrow> bool" where
  "is_allowed_policyless_github_construction relpath \<longleftrightarrow>
     relpath \<in> {''libraries/forge/github.lua'', ''libraries/forge/merge_commands.lua'', ''libraries/devloop/github_factory.lua''} \<or>
     is_test_relpath relpath"

definition authored_api_path_literal :: "string \<Rightarrow> bool" where
  "authored_api_path_literal call \<longleftrightarrow>
     (let part = rplus (RSet (\<lambda>c. c \<noteq> DQ \<and> c \<noteq> SQ)) in
      re_search (rseq [rlit ''repos/'', part, rchar CHR ''/'', part, rchar CHR ''/'', RAlt (rlit ''issues'') (rlit ''pulls''),
        RAlt (rchar CHR ''?'') (RSeq (rchar CHR ''/'') (rplus rdigit))]) call \<noteq> None)"

definition authored_list_helper_shape :: "string \<Rightarrow> (string \<times> string) option" where
  "authored_list_helper_shape call =
     map_option (\<lambda>(helper, shape). (removesuffix ''_argv'' helper, shape))
       (find (\<lambda>(helper, shape). re_search (rseq [RWordB, rlit helper, rblank, rchar CHR ''('']) call \<noteq> None) AUTHORED_LIST_HELPER_SHAPES)"

definition has_content_json_shape :: "string \<Rightarrow> string \<Rightarrow> bool" where
  "has_content_json_shape call shape \<longleftrightarrow>
     (let q = RSet (\<lambda>c. c = SQ \<or> c = DQ) in
      re_search (rseq [RWordB, rlit ''stdout_policy'', rblank, rchar CHR ''.'', rblank, rlit ''content_json'', rblank, rchar CHR ''('', rblank,
        q, rlit shape, q, rblank, rchar CHR '')'']) call \<noteq> None)"

definition has_explicit_stdout_policy :: "string \<Rightarrow> bool" where
  "has_explicit_stdout_policy call \<longleftrightarrow>
     contains ''stdout_policy.'' call \<or>
     re_search (rseq [RWordB, RAlt (rlit ''api_paginate_slurp_policy'') (rlit ''api_method_policy''), rblank, rchar CHR ''('']) call \<noteq> None"

definition raw_call_for_stripped_call :: "string \<Rightarrow> nat \<Rightarrow> string \<Rightarrow> string" where
  "raw_call_for_stripped_call source open_paren stripped_call = py_slice source open_paren (open_paren + length stripped_call)"

definition REQUIRE_NEW_RE :: regex where
  "REQUIRE_NEW_RE =
     (let q = RSet (\<lambda>c. c = SQ \<or> c = DQ) in
      rseq [rlit ''require'', rblank, rchar CHR ''('', rblank, q, rlit ''forge.github'', q, rblank, rchar CHR '')'', rblank, rchar CHR ''.'',
        rblank, rlit ''new'', rblank, rchar CHR ''(''])"

text \<open>The constructions whose text up to the quote is code, each with its start and its arguments in the stripped text.\<close>

definition policyless_require_github_constructions :: "string \<Rightarrow> string \<Rightarrow> (nat \<times> string) list" where
  "policyless_require_github_constructions source stripped =
     List.map_filter (\<lambda>found.
         let within = take (m_end found) source;
             quote = (case find_from within [DQ] (m_start found) of Some k \<Rightarrow> Some k | None \<Rightarrow> find_from within [SQ] (m_start found)) in
         case quote of
           None \<Rightarrow> None
         | Some q \<Rightarrow>
             if is_unmasked_range source stripped (m_start found) q
             then Some (m_start found, matching_call stripped (m_end found - 1)) else None)
       (re_finditer REQUIRE_NEW_RE source)"

definition prompt_shape :: "string \<Rightarrow> bool" where
  "prompt_shape p \<longleftrightarrow>
     (case path_parts p of [root, _, d, f] \<Rightarrow> root = ''packages'' \<and> d = ''prompts'' \<and> endswith f ''.lua'' | _ \<Rightarrow> False)"

definition prompt_external_fetch_sites :: "repo \<Rightarrow> (string \<times> nat \<times> string) list" where
  "prompt_external_fetch_sites repo =
     concat (map (\<lambda>path.
         let source = source_of (rp_tree repo) path in
         map (\<lambda>found. (rel repo path, count_char source LF 0 (m_start found) + 1, m_text found)) (re_finditer PROMPT_EXTERNAL_FETCH_RE source))
       (sort_key path_parts (filter prompt_shape (map fst (rp_tree repo)))))"

section \<open>Messages\<close>

definition at_line :: "string \<Rightarrow> string \<Rightarrow> nat \<Rightarrow> string \<Rightarrow> string" where
  "at_line relpath source index message = relpath @ '':'' @ str_int (int (count_char source LF 0 index + 1)) @ '' '' @ message"

definition allowlist_messages :: "tree \<Rightarrow> string list" where
  "allowlist_messages t =
     (case tree_read t PROMPT_EXTERNAL_FETCH_ALLOWLIST of
        None \<Rightarrow> [PROMPT_EXTERNAL_FETCH_ALLOWLIST @ '' is missing; prompt external-fetch inventory must remain at zero'']
      | Some content \<Rightarrow>
          if list_all (\<lambda>l. strip l = [] \<or> startswith (lstrip l) ''#'') (splitlines content) then []
          else [PROMPT_EXTERNAL_FETCH_ALLOWLIST @ '' must remain empty; raw prompt fetch bypasses are forbidden''])"

definition fetch_messages :: "(string \<Rightarrow> string) \<Rightarrow> repo \<Rightarrow> string list" where
  "fetch_messages show_repr repo =
     map (\<lambda>(relpath, line, command).
         relpath @ '':'' @ str_int (int line) @ '' prompt contains raw external-content fetch '' @ show_repr command @
         ''; prefetch through filtered forge.github and pass supplied context'')
       (prompt_external_fetch_sites repo)"

definition wrapper_messages :: "tree \<Rightarrow> string list" where
  "wrapper_messages t =
     concat (map (\<lambda>(relpath, needles).
         map (\<lambda>needle. relpath @ '' must apply the shared GitHub content filter at gh ingress (missing: '' @ needle @ '')'')
           (filter (\<lambda>needle. \<not> contains needle (source_of t relpath)) needles))
       WRAPPER_NEEDLES)"

definition handle_exec_calls :: "string \<Rightarrow> rematch list" where
  "handle_exec_calls stripped =
     re_finditer (rseq [RWordB, rlit ''handle'', rblank, rchar CHR ''.'', rblank, rlit ''_exec'', rblank, rchar CHR ''('']) stripped"

definition call_at :: "string \<Rightarrow> rematch \<Rightarrow> string" where "call_at stripped found = matching_call stripped (m_end found - 1)"

definition declares_policy :: "string \<Rightarrow> bool" where
  "declares_policy call \<longleftrightarrow> 3 \<le> top_level_commas call \<and> has_explicit_stdout_policy call"

definition policy_messages :: "string \<Rightarrow> string \<Rightarrow> string \<Rightarrow> string list" where
  "policy_messages relpath source stripped =
     map (\<lambda>found. at_line relpath source (m_start found) ''gh handle._exec call must declare a stdout_policy'')
       (filter (\<lambda>found. \<not> declares_policy (call_at stripped found)) (handle_exec_calls stripped))"

definition exec_argv_calls :: "string \<Rightarrow> rematch list" where
  "exec_argv_calls stripped = re_finditer (rseq [RWordB, rlit ''exec_argv'', rblank, rchar CHR ''('']) stripped"

definition raw_gh_call :: "string \<Rightarrow> string \<Rightarrow> rematch \<Rightarrow> bool" where
  "raw_gh_call source stripped found \<longleftrightarrow>
     (let call = call_at stripped found; raw = py_slice source (m_start found) (m_start found + length call) in
      contains ''argv'' call \<and>
      (contains ([DQ] @ ''gh'' @ [DQ]) raw \<or> contains ([SQ] @ ''gh'' @ [SQ]) raw \<or> file_has_obfuscated_gh_head source))"

definition raw_messages :: "string \<Rightarrow> string \<Rightarrow> string \<Rightarrow> string list" where
  "raw_messages relpath source stripped =
     (if relpath \<in> fst ` set WRAPPER_NEEDLES then []
      else
        map (\<lambda>found. at_line relpath source (m_start found)
            ''raw gh exec_argv egress bypasses the GitHub capability seam; use forge.github.exec.run'')
          (filter (raw_gh_call source stripped) (exec_argv_calls stripped)))"

definition has_trusted_policy :: "string \<Rightarrow> bool" where
  "has_trusted_policy call \<longleftrightarrow> contains ''trusted_author_policy'' call \<or> contains ''github_author_policy.github_options'' call"

definition CONSTRUCTION_MESSAGE :: string where
  "CONSTRUCTION_MESSAGE =
     ''production forge.github construction bypasses the GitHub capability seam; use '' @ POLICY_FACTORY_NEEDLE @
     '' or pass an explicit trusted_author_policy''"

definition adapter_constructions :: "string \<Rightarrow> rematch list" where
  "adapter_constructions stripped =
     re_finditer (rseq [RWordB, rlit ''github_adapter'', rblank, rchar CHR ''.'', rblank, rlit ''new'', rblank, rchar CHR ''('']) stripped"

definition construction_messages :: "string \<Rightarrow> string \<Rightarrow> string \<Rightarrow> string list" where
  "construction_messages relpath source stripped =
     (if is_allowed_policyless_github_construction relpath then []
      else
        map (\<lambda>(start, call). at_line relpath source start CONSTRUCTION_MESSAGE)
          (filter (\<lambda>(start, call). call = [] \<or> \<not> has_trusted_policy call) (policyless_require_github_constructions source stripped)) @
        map (\<lambda>found. at_line relpath source (m_start found) CONSTRUCTION_MESSAGE)
          (filter (\<lambda>found. \<not> has_trusted_policy (call_at stripped found)) (adapter_constructions stripped)))"

definition authored_call_messages :: "string \<Rightarrow> string \<Rightarrow> string \<Rightarrow> rematch \<Rightarrow> string list" where
  "authored_call_messages relpath source stripped found =
     (let call = call_at stripped found; raw_call = raw_call_for_stripped_call source (m_end found - 1) call in
      (if authored_api_path_literal raw_call \<and> \<not> contains ''stdout_policy.content_json'' call
       then [at_line relpath source (m_start found) ''authored GitHub API read must declare stdout_policy.content_json''] else []) @
      (case authored_list_helper_shape call of
         None \<Rightarrow> []
       | Some (helper, shape) \<Rightarrow>
           if has_content_json_shape raw_call shape then []
           else [at_line relpath source (m_start found) (helper @ '' must declare stdout_policy.content_json('' @ [DQ] @ shape @ [DQ] @ '')'')]))"

definition source_messages :: "string \<times> string \<Rightarrow> string list" where
  "source_messages entry =
     (case entry of (relpath, source) \<Rightarrow>
        let stripped = strip_lua_comments_and_strings source in
        policy_messages relpath source stripped @ raw_messages relpath source stripped @ construction_messages relpath source stripped @
        concat (map (authored_call_messages relpath source stripped) (handle_exec_calls stripped)))"

definition ingress_messages :: "(string \<Rightarrow> string) \<Rightarrow> repo \<Rightarrow> string list" where
  "ingress_messages show_repr repo =
     allowlist_messages (rp_tree repo) @ fetch_messages show_repr repo @ wrapper_messages (rp_tree repo) @
     concat (map source_messages (production_lua_sources repo))"

definition check_github_content_ingress :: "(string \<Rightarrow> string) \<Rightarrow> repo \<Rightarrow> check_message list" where
  "check_github_content_ingress show_repr repo = map (\<lambda>message. add RULE (Violation message)) (ingress_messages show_repr repo)"

section \<open>What the check says\<close>

text \<open>A source whose calls declare their policies and whose handles are constructed with one.\<close>

definition authored_ok :: "string \<Rightarrow> string \<Rightarrow> bool" where
  "authored_ok call raw_call \<longleftrightarrow>
     (\<not> authored_api_path_literal raw_call \<or> contains ''stdout_policy.content_json'' call) \<and>
     (case authored_list_helper_shape call of None \<Rightarrow> True | Some (helper, shape) \<Rightarrow> has_content_json_shape raw_call shape)"

definition source_ok :: "string \<Rightarrow> string \<Rightarrow> bool" where
  "source_ok relpath source \<longleftrightarrow>
     (let stripped = strip_lua_comments_and_strings source in
      list_all (\<lambda>found. declares_policy (call_at stripped found) \<and>
          authored_ok (call_at stripped found) (raw_call_for_stripped_call source (m_end found - 1) (call_at stripped found)))
        (handle_exec_calls stripped) \<and>
      (relpath \<in> fst ` set WRAPPER_NEEDLES \<or> \<not> list_ex (raw_gh_call source stripped) (exec_argv_calls stripped)) \<and>
      (is_allowed_policyless_github_construction relpath \<or>
       list_all (\<lambda>(start, call). call \<noteq> [] \<and> has_trusted_policy call) (policyless_require_github_constructions source stripped) \<and>
       list_all (\<lambda>found. has_trusted_policy (call_at stripped found)) (adapter_constructions stripped)))"

lemma authored_call_messages_Nil:
  "authored_call_messages relpath source stripped found = [] \<longleftrightarrow>
     authored_ok (call_at stripped found) (raw_call_for_stripped_call source (m_end found - 1) (call_at stripped found))"
  by (auto simp: authored_call_messages_def authored_ok_def Let_def split: option.split)

lemma source_messages_Nil: "source_messages (relpath, source) = [] \<longleftrightarrow> source_ok relpath source"
  unfolding source_messages_def prod.case Let_def append_is_Nil_conv concat_eq_Nil_conv
  by (auto simp: source_ok_def policy_messages_def raw_messages_def construction_messages_def authored_call_messages_Nil filter_empty_conv
      list_all_iff list_ex_iff Let_def)

theorem ingress_clean_iff:
  "check_github_content_ingress show_repr repo = [] \<longleftrightarrow>
     (\<exists>content. tree_read (rp_tree repo) PROMPT_EXTERNAL_FETCH_ALLOWLIST = Some content \<and>
        list_all (\<lambda>l. strip l = [] \<or> startswith (lstrip l) ''#'') (splitlines content)) \<and>
     prompt_external_fetch_sites repo = [] \<and>
     list_all (\<lambda>(relpath, needles). list_all (\<lambda>needle. contains needle (source_of (rp_tree repo) relpath)) needles) WRAPPER_NEEDLES \<and>
     list_all (\<lambda>(relpath, source). source_ok relpath source) (production_lua_sources repo)"
proof -
  have "allowlist_messages (rp_tree repo) = [] \<longleftrightarrow>
      (\<exists>content. tree_read (rp_tree repo) PROMPT_EXTERNAL_FETCH_ALLOWLIST = Some content \<and>
        list_all (\<lambda>l. strip l = [] \<or> startswith (lstrip l) ''#'') (splitlines content))"
    by (auto simp: allowlist_messages_def split: option.split)
  moreover have "wrapper_messages (rp_tree repo) = [] \<longleftrightarrow>
      list_all (\<lambda>(relpath, needles). list_all (\<lambda>needle. contains needle (source_of (rp_tree repo) relpath)) needles) WRAPPER_NEEDLES"
    by (simp add: wrapper_messages_def WRAPPER_NEEDLES_def)
  moreover have "concat (map source_messages (production_lua_sources repo)) = [] \<longleftrightarrow>
      list_all (\<lambda>(relpath, source). source_ok relpath source) (production_lua_sources repo)"
    by (auto simp: list_all_iff source_messages_Nil)
  ultimately show ?thesis by (simp add: check_github_content_ingress_def ingress_messages_def fetch_messages_def)
qed

end
