(* ===== verification/InjectedM.thy ===== *)
theory InjectedM
  imports LintBase PyJson "HOL-Library.Multiset"
begin

text \<open>
  \<^verbatim>\<open>scripts/check_repo_lower_injected_m.py\<close>: reads of the package table \<open>M\<close> that lower libraries receive as a parameter.
  A counter of symbols is a multiset; the inventory is a JSON document with counts and a route for every symbol.

  Shown here: the blocks are disjoint and in order, and what it means that the check finds nothing.
\<close>

section \<open>Names and patterns\<close>

definition INVENTORY :: string where "INVENTORY = ''migration/lower-injected-m.inventory''"

definition LIBRARY_DIRECTORIES :: "(string \<times> string list) list" where
  "LIBRARY_DIRECTORIES = [(''workflow'', [''workflow'', ''workflow_internal'']), (''forge'', [''forge''])]"

definition COUNT_KEYS :: "string list" where
  "COUNT_KEYS =
     [''workflow_injected_m_reads'', ''workflow_injected_m_unique_symbols'', ''forge_injected_m_reads'', ''forge_injected_m_unique_symbols'',
      ''total_injected_m_reads'', ''total_injected_m_unique_symbols'']"

definition ROUTES :: "string list" where "ROUTES = [''contract'', ''workflow'', ''forge'', ''typed_port'', ''move_up'']"

definition dotted_char :: "char \<Rightarrow> bool" where "dotted_char c \<longleftrightarrow> ident_char c \<or> c = CHR ''.''"

definition M_PARAMETER_FUNCTION_RE :: regex where
  "M_PARAMETER_FUNCTION_RE =
     rseq [RWordB, rlit ''function'', RWordB,
       ropt (rseq [rplus rspace, RSet ident_start, rstar (RSet (\<lambda>c. dotted_char c \<or> c = CHR '':''))]), rblank, rchar CHR ''('',
       RGroup ''1'' (rstar (RSet (\<lambda>c. c \<noteq> CHR '')''))), rchar CHR '')'']"

definition M_MEMBER_RE :: regex where
  "M_MEMBER_RE =
     rseq [RNotBehind dotted_char, rchar CHR ''M'', rblank, RSet (\<lambda>c. c = CHR ''.'' \<or> c = CHR '':''), rblank, RGroup ''1'' RIDENT]"

definition M_BRACKET_START_RE :: regex where
  "M_BRACKET_START_RE = rseq [RNotBehind dotted_char, rchar CHR ''M'', rblank, rchar CHR ''['']"

section \<open>Blocks that receive the table\<close>

definition has_bare_m_parameter :: "string \<Rightarrow> bool" where
  "has_bare_m_parameter parameter_list \<longleftrightarrow> list_ex (\<lambda>part. strip part = ''M'') (split_char (CHR '','') parameter_list)"

definition m_parameter_function_match :: "string \<Rightarrow> rematch option" where
  "m_parameter_function_match masked_line =
     find (\<lambda>found. has_bare_m_parameter (group_or_empty found ''1'')) (re_finditer M_PARAMETER_FUNCTION_RE masked_line)"

definition header_delta :: "string \<Rightarrow> int" where "header_delta l = block_delta_gen l True"

text \<open>First and last line, from 1, and the column where the body starts.\<close>

function spans_from :: "nat \<Rightarrow> string list \<Rightarrow> (nat \<times> nat \<times> nat) list" where
  "spans_from index [] = []"
| "spans_from index (l # ls) =
     (case m_parameter_function_match l of
        None \<Rightarrow> spans_from (Suc index) ls
      | Some found \<Rightarrow>
          let n = line_extent header_delta (header_delta l) ls in
          (index + 1, index + n + 1, m_end found) # spans_from (index + n + 1) (drop n ls))"
  by pat_completeness auto
termination by (relation "measure (length \<circ> snd)") simp_all

definition install_block_spans :: "string \<Rightarrow> (nat \<times> nat \<times> nat) list" where
  "install_block_spans source = spans_from 0 (splitlines (code_mask source))"

definition install_blocks :: "string \<Rightarrow> (nat \<times> nat) list" where
  "install_blocks source = map (\<lambda>(start, stop, _). (start, stop)) (install_block_spans source)"

section \<open>Symbols\<close>

definition matching_square_bracket :: "string \<Rightarrow> nat \<Rightarrow> nat option" where
  "matching_square_bracket masked_line open_index = matching_close masked_line open_index CHR ''['' CHR '']''"

text \<open>The text of a literal from behind its quote to the one that closes it, which only blanks may follow.\<close>

fun literal_from :: "char \<Rightarrow> string \<Rightarrow> string option" where
  "literal_from quote [] = None"
| "literal_from quote (c # cs) =
     (if c = CHR 0x5C then (case cs of [] \<Rightarrow> None | d # ds \<Rightarrow> map_option (\<lambda>rest. c # d # rest) (literal_from quote ds))
      else if c = quote then (if strip cs = [] then Some [] else None)
      else map_option (\<lambda>rest. c # rest) (literal_from quote cs))"

definition short_string_literal_value :: "string \<Rightarrow> string option" where
  "short_string_literal_value expr =
     (case strip expr of
        q # c # cs \<Rightarrow> if q = SQ \<or> q = DQ then literal_from q (c # cs) else None
      | _ \<Rightarrow> None)"

text \<open>An empty name counts as a dynamic one; the bracket is the last character of its match.\<close>

definition bracket_symbol :: "string \<Rightarrow> string \<Rightarrow> rematch \<Rightarrow> string" where
  "bracket_symbol original_line masked_line found =
     (let open_index = m_end found - 1 in
      case matching_square_bracket masked_line open_index of
        None \<Rightarrow> ''<dynamic>''
      | Some close_index \<Rightarrow>
          (case short_string_literal_value (py_slice original_line (Suc open_index) close_index) of
             None \<Rightarrow> ''<dynamic>''
           | Some v \<Rightarrow> if v = [] then ''<dynamic>'' else v))"

definition direct_bracket_symbols :: "string \<Rightarrow> string \<Rightarrow> string list" where
  "direct_bracket_symbols original_line masked_line =
     map (bracket_symbol original_line masked_line) (re_finditer M_BRACKET_START_RE masked_line)"

definition line_symbols :: "string \<Rightarrow> string \<Rightarrow> string list" where
  "line_symbols original_line masked_line =
     map (\<lambda>found. group_or_empty found ''1'') (re_finditer M_MEMBER_RE masked_line) @ direct_bracket_symbols original_line masked_line"

definition span_symbols :: "string list \<Rightarrow> string list \<Rightarrow> nat \<times> nat \<times> nat \<Rightarrow> string list" where
  "span_symbols original_lines masked_lines span =
     (case span of (start, stop, scan_start) \<Rightarrow>
        concat (map (\<lambda>number.
            let offset = (if number = start - 1 then scan_start else 0) in
            line_symbols (drop offset (original_lines ! number)) (drop offset (masked_lines ! number)))
          [start - 1..<stop]))"

definition injected_m_symbols :: "string \<Rightarrow> string multiset" where
  "injected_m_symbols source =
     mset (concat (map (span_symbols (splitlines source) (splitlines (code_mask source))) (install_block_spans source)))"

section \<open>The measure\<close>

record measure =
  counts_of :: "(string \<times> int) list"
  symbols_of :: "(string \<times> string list) list"
  symbol_counts_of :: "(string \<times> (string \<times> nat) list) list"

definition library_symbols :: "tree \<Rightarrow> string \<Rightarrow> string multiset" where
  "library_symbols t library =
     fold (\<lambda>path symbols. symbols + injected_m_symbols (source_of t path))
       (concat (map (\<lambda>directory. rglob_lua t (''libraries/'' @ directory)) (dget LIBRARY_DIRECTORIES library []))) {#}"

definition symbol_names :: "string multiset \<Rightarrow> string list" where "symbol_names symbols = sorted_list_of_set (set_mset symbols)"

definition measure_symbols :: "string multiset \<Rightarrow> string multiset \<Rightarrow> measure" where
  "measure_symbols workflow forge =
     \<lparr>counts_of =
        zip COUNT_KEYS (map int
          [size workflow, card (set_mset workflow), size forge, card (set_mset forge), size workflow + size forge,
           card (set_mset workflow \<union> set_mset forge)]),
      symbols_of = [(''workflow'', symbol_names workflow), (''forge'', symbol_names forge)],
      symbol_counts_of =
        map (\<lambda>(library, symbols). (library, map (\<lambda>symbol. (symbol, count symbols symbol)) (symbol_names symbols)))
          [(''workflow'', workflow), (''forge'', forge)]\<rparr>"

definition measure_of :: "tree \<Rightarrow> measure" where
  "measure_of t = measure_symbols (library_symbols t ''workflow'') (library_symbols t ''forge'')"

definition current_symbols :: "measure \<Rightarrow> (string \<times> string list) list" where
  "current_symbols current = map (\<lambda>library. (library, sort (dget (symbols_of current) library []))) (map fst LIBRARY_DIRECTORIES)"

section \<open>The inventory\<close>

definition load_inventory :: "tree \<Rightarrow> ((string \<times> int) list option \<times> jobject) result" where
  "load_inventory t =
     (case tree_read t INVENTORY of
        None \<Rightarrow> Return (None, [])
      | Some source \<Rightarrow>
          (case json_loads source of
             None \<Rightarrow> Return (None, [])
           | Some (JObj data) \<Rightarrow>
               (case jget_or data ''counts'' (JObj data) of
                  JObj counts \<Rightarrow>
                    bindR (mapR (\<lambda>key. bindR (int_of_json (jget_or counts key (JInt 0))) (\<lambda>n. Return (key, n))) COUNT_KEYS) (\<lambda>baseline.
                      Return (Some baseline, the_default [] (as_obj (jget_or data ''manifest'' (JObj [])))))
                | _ \<Rightarrow> Raise AttributeError)
           | Some _ \<Rightarrow> Raise AttributeError))"

definition manifest_section :: "jobject \<Rightarrow> string \<Rightarrow> jobject" where
  "manifest_section manifest library = the_default [] (as_obj (jget_or manifest library (JObj [])))"

definition manifest_entry :: "jobject \<Rightarrow> string \<Rightarrow> string \<Rightarrow> jobject option" where
  "manifest_entry manifest library symbol = as_obj (jget (manifest_section manifest library) symbol)"

text \<open>The message about a route; looking up an array or an object in a set raises. \<open>show_value\<close> is \<open>repr()\<close> of a decoded value.\<close>

definition route_messages :: "(json \<Rightarrow> string) \<Rightarrow> string \<Rightarrow> string \<Rightarrow> json \<Rightarrow> string list result" where
  "route_messages show_value library symbol route =
     (let invalid = Return [library @ '' M.'' @ symbol @ '' has invalid route '' @ show_value route @ '' in '' @ INVENTORY] in
      case route of
        JArr _ \<Rightarrow> Raise (TypeError ''unhashable type'')
      | JObj _ \<Rightarrow> Raise (TypeError ''unhashable type'')
      | JStr r \<Rightarrow> if r \<in> set ROUTES then Return [] else invalid
      | _ \<Rightarrow> invalid)"

definition owner_messages :: "string \<Rightarrow> string \<Rightarrow> json \<Rightarrow> string list" where
  "owner_messages library symbol owner =
     (case as_str owner of
        Some (c # cs) \<Rightarrow> []
      | _ \<Rightarrow> [library @ '' M.'' @ symbol @ '' has missing owner in '' @ INVENTORY])"

definition symbol_messages :: "(json \<Rightarrow> string) \<Rightarrow> jobject \<Rightarrow> string \<Rightarrow> string \<Rightarrow> string list result" where
  "symbol_messages show_value manifest library symbol =
     (case manifest_entry manifest library symbol of
        None \<Rightarrow>
          Return [library @ '' M.'' @ symbol @ '' has no declared route in '' @ INVENTORY @
            ''; declare route contract|workflow|forge|typed_port|move_up and owner before adding or retaining it'']
      | Some entry \<Rightarrow>
          bindR (route_messages show_value library symbol (jget entry ''route'')) (\<lambda>messages.
            Return (messages @ owner_messages library symbol (jget entry ''owner''))))"

definition library_messages :: "(json \<Rightarrow> string) \<Rightarrow> jobject \<Rightarrow> string \<Rightarrow> string list \<Rightarrow> string list result" where
  "library_messages show_value manifest library symbols =
     bindR (mapR (symbol_messages show_value manifest library) (sort (remdups symbols))) (\<lambda>messages.
       Return (concat messages @
         map (\<lambda>stale. library @ '' M.'' @ stale @ '' is stale in '' @ INVENTORY @ ''; remove dissolved manifest entries'')
           (filter (\<lambda>symbol. symbol \<notin> set symbols) (sort (remdups (map fst (manifest_section manifest library)))))))"

definition manifest_messages :: "(json \<Rightarrow> string) \<Rightarrow> jobject \<Rightarrow> (string \<times> string list) list \<Rightarrow> string list result" where
  "manifest_messages show_value manifest symbols =
     bindR (mapR (\<lambda>library. library_messages show_value manifest library (dget symbols library [])) (map fst LIBRARY_DIRECTORIES))
       (\<lambda>messages. Return (concat messages))"

section \<open>The ratchet\<close>

definition growth_messages :: "(string \<times> int) list \<Rightarrow> (string \<times> int) list \<Rightarrow> string list" where
  "growth_messages counts baseline =
     concat (map (\<lambda>key.
         if dget baseline key 0 < dget counts key 0
         then [''lower-library injected-M coupling grew: '' @ key @ '' '' @ str_int (dget counts key 0) @ '' > baseline '' @
           str_int (dget baseline key 0) @ ''. Do not add new lower-library reads from the composed M table; route through '' @
           ''contract, workflow/forge ownership, or typed ports and lower the baseline only after shrinkage.'']
         else []) COUNT_KEYS)"

definition ratchet_messages ::
    "(json \<Rightarrow> string) \<Rightarrow> measure \<Rightarrow> (string \<times> int) list option \<Rightarrow> jobject \<Rightarrow> (string \<times> string list) list option \<Rightarrow> string list result" where
  "ratchet_messages show_value current baseline manifest symbols =
     (case baseline of
        None \<Rightarrow>
          Return [''missing baseline '' @ INVENTORY @ ''; create it with current measured counts '' @
            ''and a route manifest (shrink-only: growth is forbidden, progress lowers it)'']
      | Some counts \<Rightarrow>
          bindR (manifest_messages show_value manifest (case symbols of None \<Rightarrow> current_symbols current | Some given \<Rightarrow> given)) (\<lambda>messages.
            Return (growth_messages (counts_of current) counts @ messages)))"

definition governed :: "tree \<Rightarrow> bool" where
  "governed t \<longleftrightarrow> list_ex (\<lambda>directory. dir_exists t (''libraries/'' @ directory)) (concat (map snd LIBRARY_DIRECTORIES))"

definition repository_messages :: "(json \<Rightarrow> string) \<Rightarrow> tree \<Rightarrow> string list result" where
  "repository_messages show_value t =
     (if \<not> governed t then Return []
      else
        bindR (load_inventory t) (\<lambda>(baseline, manifest).
          ratchet_messages show_value (measure_of t) baseline manifest (Some (current_symbols (measure_of t)))))"

section \<open>Blocks are disjoint and in order\<close>

lemma spans_from_bounds:
  "(start, stop, column) \<in> set (spans_from index ls) \<Longrightarrow> index < start \<and> start \<le> stop \<and> stop \<le> index + length ls"
proof (induction index ls rule: spans_from.induct)
  case (2 index l ls)
  show ?case
  proof (cases "m_parameter_function_match l")
    case None
    with "2.IH"(1) "2.prems" show ?thesis by fastforce
  next
    case (Some found)
    let ?n = "line_extent header_delta (header_delta l) ls"
    have n: "?n \<le> length ls" by (rule line_extent_le)
    from "2.prems" Some consider "start = index + 1" "stop = index + ?n + 1" | "(start, stop, column) \<in> set (spans_from (index + ?n + 1) (drop ?n ls))"
      by (auto simp: Let_def)
    then show ?thesis
    proof cases
      case 2
      with "2.IH"(2) [OF Some refl] n show ?thesis by fastforce
    qed (use n in auto)
  qed
qed simp

lemma spans_disjoint: "sorted_wrt (\<lambda>(_, stop, _) (start, _, _). stop < start) (install_block_spans source)"
proof -
  have "sorted_wrt (\<lambda>(_, stop, _) (start, _, _). stop < start) (spans_from index ls)" for index ls
  proof (induction index ls rule: spans_from.induct)
    case (2 index l ls)
    then show ?case by (auto simp: Let_def split: option.split dest: spans_from_bounds)
  qed simp
  then show ?thesis by (simp add: install_block_spans_def)
qed

section \<open>What the check says\<close>

text \<open>A symbol with a route and an owner.\<close>

definition routed :: "jobject \<Rightarrow> string \<Rightarrow> string \<Rightarrow> bool" where
  "routed manifest library symbol \<longleftrightarrow>
     (\<exists>entry route owner. manifest_entry manifest library symbol = Some entry \<and> jget entry ''route'' = JStr route \<and> route \<in> set ROUTES \<and>
        jget entry ''owner'' = JStr owner \<and> owner \<noteq> [])"

lemma owner_messages_Nil: "owner_messages library symbol owner = [] \<longleftrightarrow> (\<exists>s. owner = JStr s \<and> s \<noteq> [])"
  by (cases owner) (auto simp: owner_messages_def split: list.splits)

lemma route_messages_Nil: "route_messages show_value library symbol route = Inr [] \<longleftrightarrow> (\<exists>r. route = JStr r \<and> r \<in> set ROUTES)"
  by (cases route) (auto simp: route_messages_def Let_def)

lemma symbol_messages_Nil: "symbol_messages show_value manifest library symbol = Inr [] \<longleftrightarrow> routed manifest library symbol"
  by (auto simp: symbol_messages_def routed_def bindR_eq_Inr owner_messages_Nil route_messages_Nil split: option.split)

lemma library_routes_Nil:
  "library_messages show_value manifest library symbols = Inr [] \<longleftrightarrow>
     (\<forall>symbol \<in> set symbols. routed manifest library symbol) \<and> fst ` set (manifest_section manifest library) \<subseteq> set symbols"
proof -
  have "(\<exists>messages. mapR (symbol_messages show_value manifest library) (sort (remdups symbols)) = Inr messages \<and> concat messages = []) \<longleftrightarrow>
      (\<forall>symbol \<in> set symbols. routed manifest library symbol)"
    unfolding mapR_concat_Nil symbol_messages_Nil by (simp add: list_all_iff)
  moreover have "filter (\<lambda>symbol. symbol \<notin> set symbols) (sort (remdups (map fst (manifest_section manifest library)))) = [] \<longleftrightarrow>
      fst ` set (manifest_section manifest library) \<subseteq> set symbols"
    by (auto simp: filter_empty_conv)
  ultimately show ?thesis unfolding library_messages_def bindR_eq_Inr by auto
qed

lemma concat_when_Nil: "concat (map (\<lambda>x. if P x then [g x] else []) xs) = [] \<longleftrightarrow> list_all (\<lambda>x. \<not> P x) xs"
  by (induction xs) auto

lemma symbol_names_set [simp]: "set (symbol_names symbols) = set_mset symbols"
  by (simp add: symbol_names_def)

text \<open>
  The check finds nothing exactly if there is no lower library, or the inventory holds counts that are not exceeded and,
  library by library, a route and an owner for every symbol and nothing else.
\<close>

theorem injected_check_clean_iff:
  "repository_messages show_value t = Inr [] \<longleftrightarrow>
     \<not> governed t \<or>
     (\<exists>baseline manifest. load_inventory t = Inr (Some baseline, manifest) \<and>
        list_all (\<lambda>key. dget (counts_of (measure_of t)) key 0 \<le> dget baseline key 0) COUNT_KEYS \<and>
        list_all (\<lambda>library.
            list_all (routed manifest library) (symbol_names (library_symbols t library)) \<and>
            set (map fst (manifest_section manifest library)) \<subseteq> set_mset (library_symbols t library))
          (map fst LIBRARY_DIRECTORIES))"
proof -
  have growth: "growth_messages counts baseline = [] \<longleftrightarrow> list_all (\<lambda>key. dget counts key 0 \<le> dget baseline key 0) COUNT_KEYS" for counts baseline
    by (simp only: growth_messages_def concat_when_Nil not_less)
  have libraries: "map fst LIBRARY_DIRECTORIES = [''workflow'', ''forge'']" by (simp add: LIBRARY_DIRECTORIES_def)
  have "set (dget (current_symbols (measure_of t)) library []) = set_mset (library_symbols t library)"
    if "library \<in> set (map fst LIBRARY_DIRECTORIES)" for library
    using that by (auto simp: libraries current_symbols_def measure_of_def measure_symbols_def dget_def)
  then have manifest: "manifest_messages show_value manifest (current_symbols (measure_of t)) = Inr [] \<longleftrightarrow>
      list_all (\<lambda>library.
          list_all (routed manifest library) (symbol_names (library_symbols t library)) \<and>
          set (map fst (manifest_section manifest library)) \<subseteq> set_mset (library_symbols t library))
        (map fst LIBRARY_DIRECTORIES)" for manifest
    using mapR_concat_Nil [of "\<lambda>library. library_messages show_value manifest library (dget (current_symbols (measure_of t)) library [])"]
    by (simp add: manifest_messages_def bindR_eq_Inr library_routes_Nil list_all_iff)
  show ?thesis
    by (auto simp: repository_messages_def bindR_eq_Inr ratchet_messages_def growth manifest split: option.splits)
qed

end
