(* ===== verification/LibraryModel.thy ===== *)
theory LibraryModel
  imports DependencyCycle TestShape PyJson
begin

text \<open>
  The rest of \<^verbatim>\<open>scripts/check_repo_std_dependency_model.py\<close>: the surfaces of the libraries that hosts use, the visibility of
  the product library, and the inventory of its imports of forge modules, with an exception for a facade that replaces
  imports. \<open>tomllib.loads\<close> is a parameter that gives a table or the text of its error.

  Shown here: what it means that the check of imports finds nothing, and that in spite of the exception the number of
  files that import a module never grows along a history of clean commits.
\<close>

section \<open>Names\<close>

definition DEVLOOP_FORGE_IMPORTS_INVENTORY :: string where
  "DEVLOOP_FORGE_IMPORTS_INVENTORY = ''migration/devloop-forge-imports.inventory''"

definition LEGACY_DEVLOOP_STD_IMPORTS_INVENTORY :: string where
  "LEGACY_DEVLOOP_STD_IMPORTS_INVENTORY = ''migration/devloop-std-imports.inventory''"

definition DEVLOOP_FORGE_VALIDATORS_FACADE :: string where "DEVLOOP_FORGE_VALIDATORS_FACADE = ''libraries/devloop/forge_validators.lua''"
definition DEVLOOP_FORGE_VALIDATOR_MODULES :: "string list" where "DEVLOOP_FORGE_VALIDATOR_MODULES = [''forge.gitref'']"

type_synonym import = "string \<times> string"

definition FORGE_STRINGS_SPLIT_IMPORTS :: "import fset" where
  "FORGE_STRINGS_SPLIT_IMPORTS = {|(''libraries/devloop/parsers/misc.lua'', ''forge.strings'')|}"

definition SANCTIONED_DEVLOOP_FORGE_IMPORTS :: "import fset" where
  "SANCTIONED_DEVLOOP_FORGE_IMPORTS =
     {|(''libraries/devloop/context_bundle.lua'', ''forge.github.content_filter''),
       (''libraries/devloop/github_author_policy.lua'', ''forge.github.content_filter''),
       (''libraries/devloop/github_factory.lua'', ''forge.github''),
       (''libraries/devloop/parsers/misc.lua'', ''forge.github.check_runs'')|}"

definition DEVLOOP_FAMILY :: "string fset" where
  "DEVLOOP_FAMILY =
     {|''archaudit'', ''fkst-substrate-ref-maintainer'', ''github-devloop'', ''github-devloop-decompose'', ''github-devloop-workflow'',
       ''github-devloop-intake-default'', ''github-devloop-intake'', ''github-devloop-integration'', ''github-devloop-ops'',
       ''github-devloop-pr'', ''github-proxy'', ''github-devloop-worktree-gc''|}"

text \<open>Per library its exports and its dependencies.\<close>

definition HOST_LIBRARY_SURFACES :: "(string \<times> string list \<times> string list) list" where
  "HOST_LIBRARY_SURFACES =
     [(''workflow'', [''workflow.dead_letter'', ''workflow.saga''], [''contract'']), (''testkit'', [''testkit.graph''], [])]"

section \<open>Surfaces of libraries\<close>

text \<open>A decoded value; of numbers and dates only whether they are true.\<close>

datatype toml_value =
  TomlText string | TomlBool bool | TomlOther bool | TomlArray "toml_value list" | TomlTable "(string \<times> toml_value) list"

fun toml_truth :: "toml_value \<Rightarrow> bool" where
  "toml_truth (TomlText s) = (s \<noteq> [])"
| "toml_truth (TomlBool b) = b"
| "toml_truth (TomlOther b) = b"
| "toml_truth (TomlArray vs) = (vs \<noteq> [])"
| "toml_truth (TomlTable kvs) = (kvs \<noteq> [])"

text \<open>\<open>d.get(key) or {}\<close>, of which another key is taken.\<close>

definition table_or_empty :: "(string \<times> toml_value) list \<Rightarrow> string \<Rightarrow> (string \<times> toml_value) list result" where
  "table_or_empty d key =
     (case map_of d key of
        None \<Rightarrow> Return []
      | Some v \<Rightarrow> if \<not> toml_truth v then Return [] else (case v of TomlTable kvs \<Rightarrow> Return kvs | _ \<Rightarrow> Raise AttributeError))"

definition is_texts :: "toml_value option \<Rightarrow> string list \<Rightarrow> bool" where
  "is_texts v expected \<longleftrightarrow> v = Some (TomlArray (map TomlText expected))"

text \<open>\<open>repr()\<close> of a list, over \<open>repr()\<close> of its texts.\<close>

definition shown_texts :: "(string \<Rightarrow> string) \<Rightarrow> string list \<Rightarrow> string" where
  "shown_texts show_repr vs = ''['' @ join '', '' (map show_repr vs) @ '']''"

definition LIB_RULE :: string where "LIB_RULE = ''G-LIB-DEP''"

definition surface_messages ::
    "(string \<Rightarrow> string) \<Rightarrow> string \<Rightarrow> string list \<Rightarrow> string list \<Rightarrow> (string \<times> toml_value) list \<Rightarrow> string list result" where
  "surface_messages show_repr library expected_exports expected_deps manifest =
     bindR (table_or_empty manifest ''library'') (\<lambda>table.
     bindR (table_or_empty manifest ''exports'') (\<lambda>exports.
     bindR (table_or_empty manifest ''lib_deps'') (\<lambda>lib_deps.
       Return
         ((if map_of table ''publishable'' = Some (TomlBool True) then []
           else [library @ '' host surface must set [library].publishable = true'']) @
          (if map_of exports ''exact'' = Some (TomlBool True) \<and> is_texts (map_of exports ''public'') expected_exports then []
           else [library @ '' host surface exports must be exactly '' @ shown_texts show_repr expected_exports @ '' with exact = true'']) @
          (if is_texts (map_of lib_deps ''libraries'') expected_deps then []
           else [library @ '' host surface lib_deps must be exactly '' @ shown_texts show_repr expected_deps])))))"

type_synonym toml_loads = "string \<Rightarrow> string + (string \<times> toml_value) list"

definition library_surface_messages ::
    "toml_loads \<Rightarrow> (string \<Rightarrow> string) \<Rightarrow> tree \<Rightarrow> string \<times> string list \<times> string list \<Rightarrow> string list result" where
  "library_surface_messages loads show_repr t entry =
     (case entry of (library, expected_exports, expected_deps) \<Rightarrow>
        let path = ''libraries/'' @ library @ ''/fkst.toml'' in
        case tree_read t path of
          None \<Rightarrow> Return []
        | Some source \<Rightarrow>
            (case loads source of
               Inl wrong \<Rightarrow> Return [path @ '' is invalid TOML: '' @ wrong]
             | Inr manifest \<Rightarrow> surface_messages show_repr library expected_exports expected_deps manifest))"

definition check_host_library_surfaces :: "toml_loads \<Rightarrow> (string \<Rightarrow> string) \<Rightarrow> tree \<Rightarrow> string list result" where
  "check_host_library_surfaces loads show_repr t =
     bindR (mapR (library_surface_messages loads show_repr t) HOST_LIBRARY_SURFACES) (\<lambda>messages. Return (concat messages))"

section \<open>Visibility\<close>

definition VISIBILITY_RE :: regex where
  "VISIBILITY_RE =
     rseq [RMBol, rlit ''[visibility]'', rblank, rchar LF, rblank, rlit ''allow'', rblank, rchar CHR ''='', rblank, rchar CHR ''['',
       RGroup ''body'' (RStar False (RSet (\<lambda>_. True))), rchar CHR '']'']"

definition QUOTED_NAME_RE :: regex where
  "QUOTED_NAME_RE =
     (let quote = RSet (\<lambda>c. c = DQ \<or> c = SQ) in rseq [quote, RGroup ''1'' (rplus (RSet DependencyCycle.module_char)), quote])"

definition load_visibility_allow :: "string option \<Rightarrow> string fset" where
  "load_visibility_allow content =
     (case content of
        None \<Rightarrow> {||}
      | Some source \<Rightarrow>
          (case re_search VISIBILITY_RE source of
             None \<Rightarrow> {||}
           | Some found \<Rightarrow>
               fset_of_list (map (\<lambda>name. group_or_empty name ''1'') (re_finditer QUOTED_NAME_RE (group_or_empty found ''body'')))))"

definition check_devloop_visibility :: "(string \<Rightarrow> string) \<Rightarrow> tree \<Rightarrow> string list" where
  "check_devloop_visibility show_repr t =
     (let observed = load_visibility_allow (tree_read t ''libraries/devloop/fkst.toml'') in
      if observed = DEVLOOP_FAMILY then []
      else [''devloop visibility must list only '' @ shown_texts show_repr (sorted_list_of_fset DEVLOOP_FAMILY) @ ''; observed '' @
        shown_texts show_repr (sorted_list_of_fset observed)])"

section \<open>The inventory of imports\<close>

definition library_files :: "tree \<Rightarrow> string \<Rightarrow> string list" where
  "library_files t library = rglob_lua t (''libraries/'' @ library)"

definition canonical_forge_module :: "string \<Rightarrow> string" where
  "canonical_forge_module module = (if startswith module ''std.'' then ''forge.'' @ drop (length ''std.'') module else module)"

text \<open>A line of an inventory, with its number: an entry, a message, or neither. \<open>str_other\<close> prints floats and containers.\<close>

definition read_import :: "json_diag \<Rightarrow> (json \<Rightarrow> string) \<Rightarrow> string \<Rightarrow> nat \<Rightarrow> string \<Rightarrow> import list \<times> string list" where
  "read_import diag str_other source number raw =
     (let stripped = strip raw; message = (\<lambda>what. ([], [source @ '':'' @ str_int (int number) @ '': '' @ what])) in
      if stripped = [] \<or> startswith stripped ''#'' then ([], [])
      else
        (case json_loads stripped of
           None \<Rightarrow> message (''invalid JSON: '' @ diag_msg diag stripped)
         | Some (JObj doc) \<Rightarrow>
             let module = canonical_forge_module (if truth (jget doc ''module'') then str_json str_other (jget doc ''module'') else []) in
             (case as_str (jget doc ''path'') of
                None \<Rightarrow> message ''path must be a libraries/devloop/*.lua path''
              | Some path \<Rightarrow>
                  if \<not> startswith path ''libraries/devloop/'' \<or> \<not> endswith path ''.lua''
                  then message ''path must be a libraries/devloop/*.lua path''
                  else if \<not> startswith module ''forge.'' then message ''module must be a forge.* module''
                  else ([(path, module)], []))
         | Some _ \<Rightarrow> message ''expected JSON object''))"

definition load_devloop_forge_import_inventory_text ::
    "json_diag \<Rightarrow> (json \<Rightarrow> string) \<Rightarrow> string \<Rightarrow> string \<Rightarrow> import fset \<times> string list" where
  "load_devloop_forge_import_inventory_text diag str_other content source =
     (let lines = splitlines content; read = map (\<lambda>(number, raw). read_import diag str_other source number raw) (zip [1..<Suc (length lines)] lines) in
      (fset_of_list (concat (map fst read)), concat (map snd read)))"

definition load_devloop_forge_import_inventory ::
    "json_diag \<Rightarrow> (json \<Rightarrow> string) \<Rightarrow> string option \<Rightarrow> import fset \<times> string list" where
  "load_devloop_forge_import_inventory diag str_other content =
     (case content of
        None \<Rightarrow> ({||}, [DEVLOOP_FORGE_IMPORTS_INVENTORY @ '' is required''])
      | Some source \<Rightarrow> load_devloop_forge_import_inventory_text diag str_other source DEVLOOP_FORGE_IMPORTS_INVENTORY)"

text \<open>The imports that were split since then count as listed at the base.\<close>

definition with_split :: "import fset \<Rightarrow> import fset" where "with_split inventory = inventory |\<union>| FORGE_STRINGS_SPLIT_IMPORTS"

definition devloop_forge_imports_at_base ::
    "environ \<Rightarrow> git \<Rightarrow> json_diag \<Rightarrow> (json \<Rightarrow> string) \<Rightarrow> ((import fset \<times> string list) base_allowlist) result" where
  "devloop_forge_imports_at_base env git diag str_other =
     bindR (file_at_base env git DEVLOOP_FORGE_IMPORTS_INVENTORY) (\<lambda>shown.
     bindR (case shown of Absent \<Rightarrow> file_at_base env git LEGACY_DEVLOOP_STD_IMPORTS_INVENTORY | _ \<Rightarrow> Return shown) (\<lambda>given.
       let source = (if shown = Absent then LEGACY_DEVLOOP_STD_IMPORTS_INVENTORY else DEVLOOP_FORGE_IMPORTS_INVENTORY) in
       Return
         (case given of
            Absent \<Rightarrow> BaseAbsent
          | Unresolved \<Rightarrow> BaseUnresolved
          | Present content \<Rightarrow>
              (case load_devloop_forge_import_inventory_text diag str_other content (''base:'' @ source) of
                 (entries, messages) \<Rightarrow> BasePresent (with_split entries, messages)))))"

definition is_sanctioned_devloop_forge_validator_import :: "string \<Rightarrow> string \<Rightarrow> bool" where
  "is_sanctioned_devloop_forge_validator_import path module \<longleftrightarrow>
     path = DEVLOOP_FORGE_VALIDATORS_FACADE \<and> module \<in> set DEVLOOP_FORGE_VALIDATOR_MODULES"

definition is_sanctioned_devloop_forge_import :: "import \<Rightarrow> bool" where
  "is_sanctioned_devloop_forge_import item \<longleftrightarrow> item |\<in>| SANCTIONED_DEVLOOP_FORGE_IMPORTS"

definition same_module_import_count :: "import fset \<Rightarrow> string \<Rightarrow> nat" where
  "same_module_import_count inventory module = fcard (ffilter (\<lambda>(_, imported). imported = module) inventory)"

definition is_replacing_existing_devloop_forge_validator_import :: "import \<Rightarrow> import fset \<Rightarrow> import fset \<Rightarrow> bool" where
  "is_replacing_existing_devloop_forge_validator_import item current_inventory base_inventory \<longleftrightarrow>
     (case item of (path, module) \<Rightarrow>
        is_sanctioned_devloop_forge_validator_import path module \<and>
        same_module_import_count current_inventory module < same_module_import_count base_inventory module)"

definition devloop_forge_imports :: "repo \<Rightarrow> import fset" where
  "devloop_forge_imports repo =
     fset_of_list (concat (map (\<lambda>path.
         map (Pair (rel repo path))
           (filter (\<lambda>module. hd (split_char (CHR ''.'') module) = ''forge'')
             (map fst (require_literals strip_lua_comments_and_strings is_unmasked_range (source_of (rp_tree repo) path)))))
       (library_files (rp_tree repo) ''devloop'')))"

definition facade_messages :: "import fset \<Rightarrow> string list" where
  "facade_messages imports =
     map (\<lambda>(path, module). path @ '' imports '' @ module @ ''; use '' @ DEVLOOP_FORGE_VALIDATORS_FACADE @ '' instead'')
       (filter (\<lambda>(path, module). module \<in> set DEVLOOP_FORGE_VALIDATOR_MODULES \<and> path \<noteq> DEVLOOP_FORGE_VALIDATORS_FACADE)
         (sorted_list_of_fset imports))"

definition unlisted_messages :: "import fset \<Rightarrow> import fset \<Rightarrow> string list" where
  "unlisted_messages imports current_inventory =
     map (\<lambda>(path, module). path @ '' imports '' @ module @ '' but is not listed in '' @ DEVLOOP_FORGE_IMPORTS_INVENTORY)
       (filter (\<lambda>item. \<not> is_sanctioned_devloop_forge_import item) (sorted_list_of_fset (imports |-| current_inventory)))"

definition stale_messages :: "import fset \<Rightarrow> import fset \<Rightarrow> string list" where
  "stale_messages imports current_inventory =
     map (\<lambda>(path, module). DEVLOOP_FORGE_IMPORTS_INVENTORY @ '' lists stale import '' @ path @ '' '' @ module)
       (sorted_list_of_fset (current_inventory |-| imports))"

definition growth_messages :: "import fset \<Rightarrow> import fset \<Rightarrow> string list" where
  "growth_messages current_inventory base_inventory =
     map (\<lambda>(path, module). DEVLOOP_FORGE_IMPORTS_INVENTORY @ '' grows relative to dev: '' @ path @ '' '' @ module)
       (filter (\<lambda>item. \<not> is_replacing_existing_devloop_forge_validator_import item current_inventory base_inventory)
         (sorted_list_of_fset (current_inventory |-| base_inventory)))"

definition base_messages :: "import fset \<Rightarrow> (import fset \<times> string list) base_allowlist \<Rightarrow> check_message list" where
  "base_messages current_inventory base =
     (case base of
        BaseAbsent \<Rightarrow> []
      | BaseUnresolved \<Rightarrow>
          [ConfigurationFailure (''cannot resolve dev base '' @ DEVLOOP_FORGE_IMPORTS_INVENTORY @ '' to enforce shrink-only ratchet'')]
      | BasePresent (base_inventory, base_errors) \<Rightarrow> map Violation (base_errors @ growth_messages current_inventory base_inventory))"

definition check_devloop_forge_import_inventory ::
    "environ \<Rightarrow> git \<Rightarrow> json_diag \<Rightarrow> (json \<Rightarrow> string) \<Rightarrow> repo \<Rightarrow> check_message list result" where
  "check_devloop_forge_import_inventory env git diag str_other repo =
     (let t = rp_tree repo; imports = devloop_forge_imports repo; content = tree_read t DEVLOOP_FORGE_IMPORTS_INVENTORY in
      if library_files t ''devloop'' = [] \<and> content = None then Return []
      else
        (case load_devloop_forge_import_inventory diag str_other content of
           (current_inventory, inventory_errors) \<Rightarrow>
             bindR (devloop_forge_imports_at_base env git diag str_other) (\<lambda>base.
               Return (map Violation
                   (inventory_errors @ facade_messages imports @ unlisted_messages imports current_inventory @
                    stale_messages imports current_inventory) @
                 base_messages current_inventory base))))"

definition check_std_dependency_model ::
    "environ \<Rightarrow> git \<Rightarrow> json_diag \<Rightarrow> (json \<Rightarrow> string) \<Rightarrow> toml_loads \<Rightarrow> (string \<Rightarrow> string) \<Rightarrow> repo \<Rightarrow> check_message list result" where
  "check_std_dependency_model env git diag str_other loads show_repr repo =
     bindR (check_host_library_surfaces loads show_repr (rp_tree repo)) (\<lambda>surfaces.
     bindR (check_devloop_forge_import_inventory env git diag str_other repo) (\<lambda>imports.
       Return (map (add LIB_RULE) (map Violation (surfaces @ check_devloop_visibility show_repr (rp_tree repo)) @ imports))))"

section \<open>What the check of imports says\<close>

lemma facade_messages_Nil:
  "facade_messages imports = [] \<longleftrightarrow>
     (\<forall>path module. (path, module) |\<in>| imports \<longrightarrow> module \<in> set DEVLOOP_FORGE_VALIDATOR_MODULES \<longrightarrow> path = DEVLOOP_FORGE_VALIDATORS_FACADE)"
  unfolding facade_messages_def map_is_Nil_conv filter_empty_conv by fastforce

lemma unlisted_messages_Nil: "unlisted_messages imports current = [] \<longleftrightarrow> imports |-| SANCTIONED_DEVLOOP_FORGE_IMPORTS |\<subseteq>| current"
  unfolding unlisted_messages_def map_is_Nil_conv filter_empty_conv is_sanctioned_devloop_forge_import_def by auto

lemma stale_messages_Nil: "stale_messages imports current = [] \<longleftrightarrow> current |\<subseteq>| imports"
  unfolding stale_messages_def map_is_Nil_conv sorted_list_of_fset_Nil fminus_empty ..

lemma import_growth_Nil:
  "growth_messages current base = [] \<longleftrightarrow>
     (\<forall>item. item |\<in>| current |-| base \<longrightarrow> is_replacing_existing_devloop_forge_validator_import item current base)"
  unfolding growth_messages_def map_is_Nil_conv filter_empty_conv by auto

text \<open>Listed imports are real, real ones are listed or sanctioned, and the comparison with the base passes.\<close>

definition imports_clean :: "import fset \<Rightarrow> import fset \<Rightarrow> import fset option \<Rightarrow> bool" where
  "imports_clean imports current base \<longleftrightarrow>
     facade_messages imports = [] \<and> unlisted_messages imports current = [] \<and> stale_messages imports current = [] \<and>
     (case base of None \<Rightarrow> True | Some listed \<Rightarrow> growth_messages current (with_split listed) = [])"

lemma import_check_clean_iff:
  "check_devloop_forge_import_inventory env git diag str_other repo = Inr [] \<longleftrightarrow>
     (library_files (rp_tree repo) ''devloop'' = [] \<and> tree_read (rp_tree repo) DEVLOOP_FORGE_IMPORTS_INVENTORY = None) \<or>
     (\<exists>content current. tree_read (rp_tree repo) DEVLOOP_FORGE_IMPORTS_INVENTORY = Some content \<and>
        load_devloop_forge_import_inventory_text diag str_other content DEVLOOP_FORGE_IMPORTS_INVENTORY = (current, []) \<and>
        imports_clean (devloop_forge_imports repo) current None \<and>
        (devloop_forge_imports_at_base env git diag str_other = Inr BaseAbsent \<or>
         (\<exists>base. devloop_forge_imports_at_base env git diag str_other = Inr (BasePresent (base, [])) \<and> growth_messages current base = [])))"
proof -
  have base: "base_messages current b = [] \<longleftrightarrow> b = BaseAbsent \<or> (\<exists>base. b = BasePresent (base, []) \<and> growth_messages current base = [])"
    for current b by (auto simp: base_messages_def split: base_allowlist.split)
  show ?thesis
  proof (cases "tree_read (rp_tree repo) DEVLOOP_FORGE_IMPORTS_INVENTORY")
    case None
    then show ?thesis
      by (simp add: check_devloop_forge_import_inventory_def Let_def load_devloop_forge_import_inventory_def bindR_eq_Inr)
  next
    case (Some content)
    obtain current wrong where loaded:
      "load_devloop_forge_import_inventory_text diag str_other content DEVLOOP_FORGE_IMPORTS_INVENTORY = (current, wrong)" by fastforce
    have "check_devloop_forge_import_inventory env git diag str_other repo = Inr [] \<longleftrightarrow>
        (\<exists>b. devloop_forge_imports_at_base env git diag str_other = Inr b \<and> wrong = [] \<and>
          imports_clean (devloop_forge_imports repo) current None \<and> base_messages current b = [])"
      by (auto simp: check_devloop_forge_import_inventory_def Some load_devloop_forge_import_inventory_def loaded bindR_eq_Inr imports_clean_def Let_def)
    then show ?thesis unfolding base by (auto simp: Some loaded)
  qed
qed

section \<open>The number of imports of a module never grows\<close>

definition unsanctioned :: "import fset \<Rightarrow> import fset" where "unsanctioned imports = imports |-| SANCTIONED_DEVLOOP_FORGE_IMPORTS"

lemma count_mono: "a |\<subseteq>| b \<Longrightarrow> same_module_import_count a module \<le> same_module_import_count b module"
  unfolding same_module_import_count_def by (intro fcard_mono) auto

lemma count_of_module:
  "(\<And>path. (path, module) |\<in>| a \<Longrightarrow> (path, module) |\<in>| b) \<Longrightarrow> same_module_import_count a module \<le> same_module_import_count b module"
  unfolding same_module_import_count_def by (intro fcard_mono) auto

lemma replaced_module_not_split:
  "is_replacing_existing_devloop_forge_validator_import (path, module) current base \<Longrightarrow>
     same_module_import_count (with_split current) module = same_module_import_count current module"
proof -
  assume "is_replacing_existing_devloop_forge_validator_import (path, module) current base"
  then have "module = ''forge.gitref''"
    by (simp add: is_replacing_existing_devloop_forge_validator_import_def is_sanctioned_devloop_forge_validator_import_def
        DEVLOOP_FORGE_VALIDATOR_MODULES_def)
  then have "ffilter (\<lambda>(_, imported). imported = module) (with_split current) = ffilter (\<lambda>(_, imported). imported = module) current"
    by (auto simp: with_split_def FORGE_STRINGS_SPLIT_IMPORTS_def)
  then show ?thesis by (simp only: same_module_import_count_def)
qed

lemma clean_counts_shrink:
  assumes "imports_clean imports current (Some base)"
  shows "same_module_import_count (with_split current) module \<le> same_module_import_count (with_split base) module"
proof (cases "\<exists>path. (path, module) |\<in>| current |-| with_split base")
  case True
  then obtain path where item: "(path, module) |\<in>| current |-| with_split base" by blast
  with assms have replaced: "is_replacing_existing_devloop_forge_validator_import (path, module) current (with_split base)"
    by (auto simp: imports_clean_def import_growth_Nil)
  from replaced_module_not_split [OF replaced] replaced show ?thesis
    by (simp add: is_replacing_existing_devloop_forge_validator_import_def)
next
  case False
  then show ?thesis by (intro count_of_module) (auto simp: with_split_def)
qed

interpretation import_ratchet: shrink_only_ratchet
  imports_clean "\<lambda>imports. same_module_import_count (unsanctioned imports)" "\<lambda>listed. same_module_import_count (with_split listed)" "(\<le>)"
proof unfold_locales
  fix found listed :: "import fset" and base
  assume "imports_clean found listed base"
  then have "unsanctioned found |\<subseteq>| with_split listed" by (auto simp: imports_clean_def unlisted_messages_Nil unsanctioned_def with_split_def)
  then show "same_module_import_count (unsanctioned found) \<le> same_module_import_count (with_split listed)"
    by (simp add: le_fun_def count_mono)
qed (auto simp: le_fun_def clean_counts_shrink dest: le_trans)


definition demo_base :: "import fset" where
  "demo_base = {|(''libraries/devloop/a.lua'', ''forge.gitref''), (''libraries/devloop/b.lua'', ''forge.gitref'')|}"

definition demo_facade :: "import fset" where "demo_facade = {|(DEVLOOP_FORGE_VALIDATORS_FACADE, ''forge.gitref'')|}"


end
