(* ===== verification/Couplings.thy ===== *)
theory Couplings
  imports InjectedM
begin

text \<open>
  Ratchets that compare counts with a JSON document: \<^verbatim>\<open>scripts/check_repo_service_locator.py\<close>,
  \<^verbatim>\<open>scripts/check_repo_core_param.py\<close>, \<^verbatim>\<open>scripts/check_repo_ambient_surface.py\<close>, \<^verbatim>\<open>scripts/check_repo_devloop_godlib.py\<close>,
  \<^verbatim>\<open>scripts/check_repo_devloop_decouple.py\<close> and \<^verbatim>\<open>scripts/check_repo_devloop_installer.py\<close>. Each counts one way in which the
  composed table of a package is used. Paths contain no directory \<open>tests\<close> above the repository.

  Shown here: what it means that a comparison finds nothing, that a package cannot make up for the growth of another, and
  that a comparison with a member of the table is counted as a write of it.
\<close>

section \<open>Counts and their baselines\<close>

type_synonym counts = "(string \<times> int) list"

text \<open>
  \<open>value > prev\<close> for a count and a decoded value. A count is above a float exactly if it is above its integer part, or the
  float is negative.
\<close>

fun count_exceeds :: "int \<Rightarrow> json \<Rightarrow> bool result" where
  "count_exceeds v (JInt i) = Return (i < v)"
| "count_exceeds v (JBool b) = Return ((if b then 1 else 0) < v)"
| "count_exceeds v (JFloat f) =
     Return
       (case f of
          PosInfinity \<Rightarrow> False
        | NegInfinity \<Rightarrow> True
        | NotANumber \<Rightarrow> False
        | Decimal m e \<Rightarrow> m < 0 \<or> (case float_to_int f of Some (Some i) \<Rightarrow> i < v | _ \<Rightarrow> False))"
| "count_exceeds v _ = Raise (TypeError ''not supported between instances'')"

definition load_baseline :: "json_diag \<Rightarrow> tree \<Rightarrow> string \<Rightarrow> json option result" where
  "load_baseline diag t path =
     (case tree_read t path of
        None \<Rightarrow> Return None
      | Some source \<Rightarrow>
          (case json_loads source of
             None \<Rightarrow> Raise (JSONDecodeError (diag_str diag source))
           | Some v \<Rightarrow> Return (Some v)))"

text \<open>
  The messages about counts above their previous values, of which a missing one or \<open>null\<close> is not compared; \<open>grown\<close> is
  the message for a key, its count and the text of the previous value.
\<close>

definition grown_messages ::
    "(json \<Rightarrow> string) \<Rightarrow> (string \<Rightarrow> int \<Rightarrow> string \<Rightarrow> string) \<Rightarrow> counts \<Rightarrow> jobject \<Rightarrow> string list result" where
  "grown_messages str_other grown cur base =
     bindR (mapR (\<lambda>(key, v).
         if jget base key = JNull then Return []
         else bindR (count_exceeds v (jget base key)) (\<lambda>above.
           Return (if above then [grown key v (str_json str_other (jget base key))] else []))) cur)
       (\<lambda>messages. Return (concat messages))"

definition compared_messages ::
    "(json \<Rightarrow> string) \<Rightarrow> string \<Rightarrow> (string \<Rightarrow> int \<Rightarrow> string \<Rightarrow> string) \<Rightarrow> counts \<Rightarrow> json option \<Rightarrow> string list result" where
  "compared_messages str_other missing grown cur base =
     (case base of
        None \<Rightarrow> Return [missing]
      | Some JNull \<Rightarrow> Return [missing]
      | Some (JObj d) \<Rightarrow> grown_messages str_other grown cur d
      | Some _ \<Rightarrow> if cur = [] then Return [] else Raise AttributeError)"

definition counts_text :: "counts \<Rightarrow> string" where
  "counts_text cur =
     dumps \<lparr>df_ascii = True, df_sort = False, df_item = '', '', df_key = '': ''\<rparr> (JObj (map (\<lambda>(key, v). (key, JInt v)) cur))"

definition found :: "regex \<Rightarrow> string \<Rightarrow> int" where "found r source = int (length (re_finditer r source))"

definition found_in :: "regex \<Rightarrow> tree \<Rightarrow> string list \<Rightarrow> int" where
  "found_in r t paths = (\<Sum>path\<leftarrow>paths. found r (source_of t path))"

section \<open>Files\<close>

definition is_test_file_path :: "string \<Rightarrow> bool" where
  "is_test_file_path path \<longleftrightarrow> contains ''/tests/'' path \<or> endswith path ''_test.lua''"

definition department_lua :: "string \<Rightarrow> bool" where
  "department_lua path \<longleftrightarrow>
     (case path_parts path of p # _ # d # f # rest \<Rightarrow> p = ''packages'' \<and> d = ''departments'' \<and> endswith path ''.lua'' | _ \<Rightarrow> False)"

definition department_files :: "tree \<Rightarrow> string list" where
  "department_files t = filter (\<lambda>path. department_lua path \<and> \<not> is_test_file_path path) (map fst t)"

definition core_files :: "tree \<Rightarrow> string list" where
  "core_files t =
     sort_key path_parts (filter (\<lambda>path. case path_parts path of [p, _, f] \<Rightarrow> p = ''packages'' \<and> f = ''core.lua'' | _ \<Rightarrow> False) (map fst t))"

definition governs :: "tree \<Rightarrow> bool" where "governs t \<longleftrightarrow> dir_exists t ''libraries/devloop''"

section \<open>Reads of the composed table by departments\<close>

definition REQUIRE_CORE :: regex where
  "REQUIRE_CORE =
     (let q = RSet (\<lambda>c. c = DQ \<or> c = SQ) in rseq [rlit ''require('', rblank, q, rlit ''core'', q, rblank, rchar CHR '')''])"

definition CORE_MEMBER :: regex where "CORE_MEMBER = rseq [RWordB, rlit ''core.'', RIDENT]"

definition LOCATOR_INVENTORY :: string where "LOCATOR_INVENTORY = ''migration/service-locator.inventory''"

definition locator_counts :: "tree \<Rightarrow> counts" where
  "locator_counts t =
     [(''department_core_requires'', found_in REQUIRE_CORE t (department_files t)),
      (''department_core_member_reads'', found_in CORE_MEMBER t (department_files t))]"

definition locator_messages :: "json_diag \<Rightarrow> (json \<Rightarrow> string) \<Rightarrow> tree \<Rightarrow> string list result" where
  "locator_messages diag str_other t =
     (if \<not> governs t then Return []
      else
        bindR (load_baseline diag t LOCATOR_INVENTORY)
          (compared_messages str_other
            (''missing baseline '' @ LOCATOR_INVENTORY @ ''; create it with '' @ counts_text (locator_counts t) @
             '' (shrink-only; migrate departments to make_department(caps) DI to lower it toward zero)'')
            (\<lambda>key v prev. key @ '' = '' @ str_int v @ '' (baseline '' @ prev @ ''); this GREW. Departments must not add ambient '' @
               ''`require('' @ [DQ] @ ''core'' @ [DQ] @ '')` / `core.X` reads; migrate to make_department(caps) narrow '' @
               ''capabilities. Update '' @ LOCATOR_INVENTORY @ '' only when the real count drops.'')
            (locator_counts t)))"

section \<open>The table as a parameter\<close>

definition dotted_call :: "regex list" where "dotted_call = [RIDENT, rchar CHR ''.'', RIDENT, rchar CHR ''('', rblank]"

definition LIB_PARAM :: regex where
  "LIB_PARAM =
     rseq ([rlit ''function'', rplus rspace] @ dotted_call @
       [RAlt (rchar CHR ''M'') (rlit ''core''), rblank, RSet (\<lambda>c. c = CHR '','' \<or> c = CHR '')'')])"

definition CALL_ARG :: regex where
  "CALL_ARG =
     rseq ([RWordB] @ dotted_call @ [RAlt (rlit ''core'') (rchar CHR ''M''), rblank, RSet (\<lambda>c. c = CHR '','' \<or> c = CHR '')'')])"

definition PARAM_INVENTORY :: string where "PARAM_INVENTORY = ''migration/core-param.inventory''"

definition param_counts :: "tree \<Rightarrow> counts" where
  "param_counts t =
     [(''library_core_params'',
         found_in LIB_PARAM t (filter (\<lambda>path. \<not> endswith (path_name path) ''_test.lua'') (rglob_lua t ''libraries/devloop''))),
      (''dept_core_arg_call_sites'', found_in CALL_ARG t (department_files t))]"

definition param_messages :: "json_diag \<Rightarrow> (json \<Rightarrow> string) \<Rightarrow> tree \<Rightarrow> string list result" where
  "param_messages diag str_other t =
     (if \<not> governs t then Return []
      else
        bindR (load_baseline diag t PARAM_INVENTORY)
          (compared_messages str_other
            (''missing baseline '' @ PARAM_INVENTORY @ ''; create it with '' @ counts_text (param_counts t) @
             '' (shrink-only; decouple devloop library functions from the threaded composed core -- '' @
             ''drop vestigial M, use require('' @ [DQ] @ ''devloop.base'' @ [DQ] @ '') for base constants, or pass a narrow cap)'')
            (\<lambda>key v prev. key @ '' = '' @ str_int v @ '' (baseline '' @ prev @ ''); this GREW. Do not thread the composed core/M '' @
               ''as a parameter; decouple the library function (drop vestigial M / require the '' @
               ''module directly / pass a narrow cap). Update '' @ PARAM_INVENTORY @ '' only when it drops.'')
            (param_counts t)))"

section \<open>What modules install on the table\<close>

definition quote_mark :: regex where "quote_mark = RSet (\<lambda>c. c = DQ \<or> c = SQ)"

definition INSTALL :: regex where
  "INSTALL =
     rseq [rlit ''require('', rblank, quote_mark, RGroup ''1'' (RSeq (rlit ''devloop.'') (rplus (RSet dotted_char))), quote_mark, rblank,
       rlit '').install('', rblank, rchar CHR ''M'', rblank, rchar CHR '')'']"

definition SUBMOD :: regex where
  "SUBMOD =
     rseq [quote_mark, RGroup ''1'' (RSeq (rlit ''devloop.'') (rplus (RSet (\<lambda>c. dotted_char c \<or> c = CHR ''/'')))), quote_mark]"

definition M_METHOD :: regex where
  "M_METHOD =
     rseq [RMBol, rblank,
       RAlt (RSeq (rlit ''function M.'') (RGroup ''1'' RIDENT)) (rseq [rlit ''M.'', RGroup ''2'' RIDENT, rblank, rchar CHR ''=''])]"

definition LOOP_BIND :: regex where
  "LOOP_BIND =
     rseq [rlit ''ipairs('', rblank, rchar CHR ''{'', RGroup ''1'' (rstar (RSet (\<lambda>c. c \<noteq> CHR ''}''))), rchar CHR ''}'', rblank, rchar CHR '')'',
       rblank, rlit ''do'', rblank, rlit ''M['', RIDENT, rchar CHR '']'', rblank, rchar CHR ''='']"

definition QUOTED :: regex where "QUOTED = rseq [quote_mark, RGroup ''1'' RIDENT, quote_mark]"

definition group1 :: "regex \<Rightarrow> string \<Rightarrow> string list" where
  "group1 r source = map (\<lambda>m. group_or_empty m ''1'') (re_finditer r source)"

definition install_method_names :: "string \<Rightarrow> string fset" where
  "install_method_names source =
     fset_of_list
       (map (\<lambda>m. case m_group m ''1'' of Some n \<Rightarrow> n | None \<Rightarrow> group_or_empty m ''2'') (re_finditer M_METHOD source) @
        concat (map (group1 QUOTED) (group1 LOOP_BIND source)))"

text \<open>Empty parts of a path are dropped, as in a \<open>Path\<close>.\<close>

definition module_file :: "string \<Rightarrow> string" where
  "module_file m =
     join ''/'' (''libraries'' #
       filter (\<lambda>part. part \<noteq> []) (split_char (CHR ''/'') (map (\<lambda>c. if c = CHR ''.'' then CHR ''/'' else c) m @ ''.lua'')))"

definition names_of_module :: "(string \<Rightarrow> string fset) \<Rightarrow> tree \<Rightarrow> string \<Rightarrow> string fset" where
  "names_of_module names t m = (case tree_read t (module_file m) of None \<Rightarrow> {||} | Some source \<Rightarrow> names source)"

text \<open>The names of the modules and of the submodules that they mention.\<close>

definition installed_names :: "(string \<Rightarrow> string fset) \<Rightarrow> tree \<Rightarrow> string list \<Rightarrow> string fset" where
  "installed_names names t modules =
     fold (\<lambda>m all.
         case tree_read t (module_file m) of
           None \<Rightarrow> all
         | Some source \<Rightarrow> fold (\<lambda>sub found. found |\<union>| names_of_module names t sub) (group1 SUBMOD source) (all |\<union>| names source))
       modules {||}"

definition export_names :: "string \<Rightarrow> string fset" where "export_names source = install_method_names source |-| {|''install''|}"

definition AMBIENT_INVENTORY :: string where "AMBIENT_INVENTORY = ''migration/ambient-surface.inventory''"

definition ambient_counts :: "tree \<Rightarrow> counts" where
  "ambient_counts t =
     (let calls = concat (map (\<lambda>core. group1 INSTALL (source_of t core)) (core_files t)) in
      [(''install_m_calls'', int (length calls)), (''ambient_m_exports'', int (fcard (installed_names export_names t calls)))])"

definition ambient_messages :: "json_diag \<Rightarrow> (json \<Rightarrow> string) \<Rightarrow> tree \<Rightarrow> string list result" where
  "ambient_messages diag str_other t =
     (if \<not> governs t then Return []
      else
        bindR (load_baseline diag t AMBIENT_INVENTORY)
          (compared_messages str_other
            (''missing baseline '' @ AMBIENT_INVENTORY @ ''; create it with '' @ counts_text (ambient_counts t) @
             '' (shrink-only; delete install(M) scaffolds once the ambient M is unconsumed to lower it)'')
            (\<lambda>key v prev. key @ '' = '' @ str_int v @ '' (baseline '' @ prev @ ''); this GREW. Do not add install(M) ambient-surface '' @
               ''exports; migrate departments to make_department(caps) and delete the scaffold. '' @
               ''Update '' @ AMBIENT_INVENTORY @ '' only when the real count drops.'')
            (ambient_counts t)))"

section \<open>The pattern of the shared table\<close>

definition word_dotted :: "char \<Rightarrow> bool" where "word_dotted c \<longleftrightarrow> is_word c \<or> c = CHR ''.''"

definition call_of_m :: "regex list" where "call_of_m = [rblank, rchar CHR ''('', rblank, rchar CHR ''M'', rblank, rchar CHR '')'']"

definition INSTALL_DEF :: regex where
  "INSTALL_DEF =
     RAlt
       (rseq ([rlit ''function'', rplus rspace, RSet ident_start, rstar (RSet word_dotted), rlit ''.install''] @ call_of_m))
       (rseq ([rlit ''.install'', rblank, rchar CHR ''='', rblank, rlit ''function''] @ call_of_m))"

definition word_name :: regex where "word_name = RSeq (RSet ident_start) (rstar (RSet is_word))"

definition M_ASSIGN :: regex where "M_ASSIGN = rseq [RNotBehind word_dotted, rlit ''M.'', word_name, rblank, rchar CHR ''='']"
definition M_FUNC :: regex where "M_FUNC = rseq [rlit ''function'', rplus rspace, rlit ''M.'', word_name, rblank, rchar CHR ''('']"

definition PKG_INSTALL :: regex where
  "PKG_INSTALL =
     rseq ([rlit ''require('', rblank, rchar DQ, rlit ''devloop.'', RSet ident_start, rstar (RSet word_dotted), rchar DQ, rblank, rchar CHR '')'',
       rblank, rlit ''.install''] @ call_of_m)"

definition WILDCARD :: regex where "WILDCARD = rseq [rchar DQ, rlit ''devloop.*'', rchar DQ]"

definition GODLIB_INVENTORY :: string where "GODLIB_INVENTORY = ''migration/devloop-godlib.inventory''"

definition GODLIB_KEYS :: "string list" where
  "GODLIB_KEYS = [''install_defs'', ''m_writes'', ''package_core_installs'', ''wildcard_exports'']"

definition godlib_measure :: "tree \<Rightarrow> counts" where
  "godlib_measure t =
     (let devloop = rglob_lua t ''libraries/devloop'' in
      zip GODLIB_KEYS
        [found_in INSTALL_DEF t devloop, found_in M_ASSIGN t devloop + found_in M_FUNC t devloop,
         found_in PKG_INSTALL t (core_files t), found WILDCARD (source_of t ''libraries/devloop/fkst.toml'')])"

text \<open>A text that does not decode counts as a missing inventory, other values raise.\<close>

definition godlib_baseline :: "tree \<Rightarrow> counts option result" where
  "godlib_baseline t =
     (case tree_read t GODLIB_INVENTORY of
        None \<Rightarrow> Return None
      | Some source \<Rightarrow>
          (case json_loads source of
             None \<Rightarrow> Return None
           | Some (JObj data) \<Rightarrow>
               (case jget_or data ''counts'' (JObj data) of
                  JObj counts \<Rightarrow>
                    bindR (mapR (\<lambda>key. bindR (int_of_json (jget_or counts key (JInt 0))) (\<lambda>n. Return (key, n))) GODLIB_KEYS)
                      (\<lambda>baseline. Return (Some baseline))
                | _ \<Rightarrow> Raise AttributeError)
           | Some _ \<Rightarrow> Raise AttributeError))"

definition godlib_ratchet_messages :: "counts \<Rightarrow> counts option \<Rightarrow> string list" where
  "godlib_ratchet_messages current baseline =
     (case baseline of
        None \<Rightarrow>
          [''missing baseline '' @ GODLIB_INVENTORY @ ''; create it with the current counts '' @
           ''(this is the shrink-only baseline; growth is forbidden, progress lowers it)'']
      | Some base \<Rightarrow>
          concat (map (\<lambda>key.
              if dget base key 0 < dget current key 0
              then [''devloop god-PATTERN coupling grew: '' @ key @ '' '' @ str_int (dget current key 0) @ '' > baseline '' @
                str_int (dget base key 0) @ ''. Adding shared-M install/exports is forbidden; dissolve via typed modules '' @
                ''(require-returns-a-table), never grow the ambient-M surface.'']
              else []) GODLIB_KEYS))"

definition godlib_messages :: "tree \<Rightarrow> string list result" where
  "godlib_messages t =
     (if \<not> governs t then Return []
      else bindR (godlib_baseline t) (\<lambda>baseline. Return (godlib_ratchet_messages (godlib_measure t) baseline)))"

section \<open>Calls through the table\<close>

definition DECOUPLE_INVENTORY :: string where "DECOUPLE_INVENTORY = ''migration/devloop-decouple.inventory''"
definition KERNEL_ALLOWLIST :: string where "KERNEL_ALLOWLIST = ''migration/devloop-decouple-kernel.allowlist''"

definition ASSEMBLED_RE :: regex where "ASSEMBLED_RE = rseq [RMBol, rblank, rlit ''M.'', RGroup ''1'' RIDENT, rblank, rchar CHR ''='']"

definition assembled_devloop_symbols :: "tree \<Rightarrow> string fset" where
  "assembled_devloop_symbols t = fset_of_list (concat (map (\<lambda>core. group1 ASSEMBLED_RE (source_of t core)) (core_files t)))"

definition kernel_allowlist :: "tree \<Rightarrow> string fset" where
  "kernel_allowlist t =
     (case tree_read t KERNEL_ALLOWLIST of
        None \<Rightarrow> {||}
      | Some source \<Rightarrow> fset_of_list (filter (\<lambda>l. l \<noteq> []) (map (\<lambda>l. strip (hd (split_char (CHR ''#'') l))) (splitlines source))))"

text \<open>One of the symbols, longer ones first; of two of equal length at most one matches.\<close>

definition any_symbol :: "string fset \<Rightarrow> regex" where
  "any_symbol symbols = ralt (map rlit (sort_key (\<lambda>s. - int (length s)) (sorted_list_of_fset symbols)))"

definition through_m :: "regex list" where "through_m = [RAlt (rlit ''core'') (rchar CHR ''M''), rchar CHR ''.'']"

definition reader_call_re :: "string fset \<Rightarrow> regex" where
  "reader_call_re symbols = rseq ([RWordB] @ through_m @ [RGroup ''1'' (any_symbol symbols), rblank, rchar CHR ''(''])"

definition definition_re :: "string fset \<Rightarrow> regex" where
  "definition_re symbols =
     rseq ([RBol, rblank, ropt (RSeq (rlit ''local'') (rplus rspace)), rlit ''function'', rplus rspace] @ through_m @
       [any_symbol symbols, rblank, rchar CHR ''(''])"

definition is_reader_file :: "string \<Rightarrow> bool" where
  "is_reader_file path \<longleftrightarrow> \<not> endswith path ''/core.lua'' \<and> \<not> contains ''/tests/'' path"

definition reader_calls_through_m :: "tree \<Rightarrow> string fset \<Rightarrow> int" where
  "reader_calls_through_m t symbols =
     (if symbols = {||} then 0
      else
        (\<Sum>path\<leftarrow>filter is_reader_file (rglob_lua t ''packages'').
          \<Sum>l\<leftarrow>splitlines (source_of t path). found (reader_call_re symbols) (re_sub1 (definition_re symbols) [] l)))"

definition decouple_count :: "tree \<Rightarrow> int" where
  "decouple_count t = reader_calls_through_m t (assembled_devloop_symbols t |-| kernel_allowlist t)"

definition decouple_baseline :: "json_diag \<Rightarrow> tree \<Rightarrow> int option result" where
  "decouple_baseline diag t =
     bindR (load_baseline diag t DECOUPLE_INVENTORY) (\<lambda>loaded.
       case loaded of
         None \<Rightarrow> Return None
       | Some (JObj d) \<Rightarrow>
           (case map_of d ''reader_calls_through_m'' of
              None \<Rightarrow> Raise (KeyError ''reader_calls_through_m'')
            | Some v \<Rightarrow> bindR (int_of_json v) (\<lambda>n. Return (Some n)))
       | Some _ \<Rightarrow> Raise (TypeError ''indices must be integers''))"

text \<open>\<open>dash\<close> is the dash of the message.\<close>

definition decouple_messages :: "json_diag \<Rightarrow> string \<Rightarrow> tree \<Rightarrow> string list result" where
  "decouple_messages diag dash t =
     (if \<not> governs t then Return []
      else
        bindR (decouple_baseline diag t) (\<lambda>baseline.
          Return
            (case baseline of
               None \<Rightarrow>
                 [''missing baseline '' @ DECOUPLE_INVENTORY @ ''; create it with '' @ ''{'' @ [DQ] @ ''reader_calls_through_m'' @ [DQ] @ '': '' @
                  str_int (decouple_count t) @ ''} (shrink-only; progress lowers it toward the kernel)'']
             | Some base \<Rightarrow>
                 if base < decouple_count t
                 then [str_int (decouple_count t) @ '' production reader-calls through the ambient M to devloop symbols '' @
                   ''(baseline '' @ str_int base @ ''); this GREW. A copy-onto-M wrapper cannot lower this '' @ dash @ '' rewire '' @
                   ''readers to direct require(module).fn(...) calls instead. Update '' @ DECOUPLE_INVENTORY @ '' only '' @
                   ''when the real count drops.'']
                 else [])))"

section \<open>Calls of installed methods, package by package\<close>

definition INSTALLER_INVENTORY :: string where "INSTALLER_INVENTORY = ''migration/devloop-installer.inventory''"

datatype reader_site = ReaderSite (rs_path: string) (rs_line: nat) (rs_column: nat) (rs_symbol: string)

definition package_of_core :: "string \<Rightarrow> string" where "package_of_core core = path_parts core ! 1"

definition installer_symbols_by_package :: "tree \<Rightarrow> (string \<times> string fset) list" where
  "installer_symbols_by_package t =
     map (\<lambda>core. (package_of_core core, installed_names install_method_names t (group1 INSTALL (source_of t core)))) (core_files t)"

definition FUNCTION_HEAD_RE :: regex where "FUNCTION_HEAD_RE = rseq [RWordB, rlit ''function'', rplus rspace, REol]"

definition line_reader_sites :: "string fset \<Rightarrow> string \<Rightarrow> nat \<Rightarrow> string \<Rightarrow> reader_site list" where
  "line_reader_sites symbols path number l =
     map (\<lambda>m. ReaderSite path number (m_start m + 1) (group_or_empty m ''1''))
       (filter (\<lambda>m. re_search FUNCTION_HEAD_RE (take (m_start m) l) = None) (re_finditer (reader_call_re symbols) l))"

definition reader_sites :: "tree \<Rightarrow> string \<Rightarrow> string fset \<Rightarrow> reader_site list" where
  "reader_sites t package symbols =
     (if symbols = {||} then []
      else
        concat (map (\<lambda>path. let lines = splitlines (source_of t path) in
            concat (map (\<lambda>(number, l). line_reader_sites symbols path number l) (zip [1..<Suc (length lines)] lines)))
          (filter is_reader_file (rglob_lua t (''packages/'' @ package)))))"

definition installer_inventory :: "tree \<Rightarrow> (string \<times> reader_site list) list" where
  "installer_inventory t =
     filter (\<lambda>(_, sites). sites \<noteq> [])
       (map (\<lambda>(package, symbols). (package, reader_sites t package symbols)) (sort_key fst (installer_symbols_by_package t)))"

definition installer_baseline :: "json_diag \<Rightarrow> tree \<Rightarrow> (string \<times> json list) list option result" where
  "installer_baseline diag t =
     bindR (load_baseline diag t INSTALLER_INVENTORY) (\<lambda>loaded.
       case loaded of
         None \<Rightarrow> Return None
       | Some (JObj data) \<Rightarrow>
           (case as_obj (jget data ''packages'') of
              None \<Rightarrow> Raise (ValueError (''invalid '' @ INSTALLER_INVENTORY @ '': expected a packages object''))
            | Some packages \<Rightarrow>
                bindR (mapR (\<lambda>(package, sites).
                    case as_arr sites of
                      None \<Rightarrow> Raise (ValueError (''invalid '' @ INSTALLER_INVENTORY @ '': package baselines must be site lists''))
                    | Some xs \<Rightarrow> Return (package, xs)) packages) (\<lambda>lists. Return (Some lists)))
       | Some _ \<Rightarrow> Raise AttributeError)"

definition format_site :: "reader_site \<Rightarrow> string" where
  "format_site site =
     rs_path site @ '':'' @ str_int (int (rs_line site)) @ '':'' @ str_int (int (rs_column site)) @ '' core.'' @ rs_symbol site"

definition installer_grown :: "(string \<times> json list) list \<Rightarrow> string \<times> reader_site list \<Rightarrow> bool" where
  "installer_grown base entry \<longleftrightarrow> length (dget base (fst entry) []) < length (snd entry)"

definition installer_message :: "(string \<times> json list) list \<Rightarrow> string \<times> reader_site list \<Rightarrow> string" where
  "installer_message base entry =
     (case entry of (package, sites) \<Rightarrow>
        ''package '' @ package @ '' has '' @ str_int (int (length sites)) @ '' production reader-calls through the ambient '' @
        ''M to its install(M) composed-core symbols (baseline '' @ str_int (int (length (dget base package []))) @ ''); this GREW. '' @
        ''Current sites: '' @ join '', '' (map format_site sites) @ ''. Do not add new install(M) composed-core reads; '' @
        ''migrate readers to explicit capability handles (caps.log/state/egress). Update '' @
        INSTALLER_INVENTORY @ '' only when that package'' @ [SQ] @ ''s real count drops.'')"

definition installer_messages :: "json_diag \<Rightarrow> tree \<Rightarrow> string list result" where
  "installer_messages diag t =
     (if \<not> governs t then Return []
      else
        bindR (installer_baseline diag t) (\<lambda>baseline.
          Return
            (case baseline of
               None \<Rightarrow>
                 [''missing baseline '' @ INSTALLER_INVENTORY @ ''; create a packages object containing the current '' @
                  ''per-package reader-site inventory (shrink-only; migrate install(M) composed-core '' @
                  ''reads to explicit typed capability injection to lower each package toward zero)'']
             | Some base \<Rightarrow> map (installer_message base) (filter (installer_grown base) (installer_inventory t)))))"

section \<open>What the comparisons say\<close>

text \<open>A count that is compared stays at or below its previous value; without one it is not compared.\<close>

definition at_most :: "int \<Rightarrow> json \<Rightarrow> bool" where "at_most v prev \<longleftrightarrow> prev = JNull \<or> count_exceeds v prev = Inr False"

lemma at_most_int: "at_most v (JInt i) \<longleftrightarrow> v \<le> i" by (auto simp: at_most_def)

lemma grown_messages_Nil:
  "grown_messages str_other grown cur base = Inr [] \<longleftrightarrow> list_all (\<lambda>(key, v). at_most v (jget base key)) cur"
proof -
  have "(if jget base key = JNull then Return []
        else bindR (count_exceeds v (jget base key)) (\<lambda>above. Return (if above then [grown key v (str_json str_other (jget base key))] else []))) =
      Inr [] \<longleftrightarrow> at_most v (jget base key)" for key v
    by (auto simp: at_most_def bindR_eq_Inr split: if_splits)
  then show ?thesis unfolding grown_messages_def bindR_eq_Inr sum.inject mapR_concat_Nil by (simp add: case_prod_beta list_all_iff split_beta)
qed

lemma compared_messages_Nil:
  "compared_messages str_other missing grown cur base = Inr [] \<longleftrightarrow>
     (\<exists>v. base = Some v \<and> v \<noteq> JNull \<and> (cur = [] \<or> (\<exists>d. v = JObj d))  \<and> (\<forall>d. v = JObj d \<longrightarrow> list_all (\<lambda>(key, n). at_most n (jget d key)) cur))"
  by (auto simp: compared_messages_def grown_messages_Nil split: option.split json.split)

text \<open>
  The check of calls of installed methods finds nothing exactly if no package has more of them than its own baseline
  lists; what another package lost does not count.
\<close>

theorem installer_clean_iff:
  "installer_messages diag t = Inr [] \<longleftrightarrow>
     \<not> governs t \<or>
     (\<exists>base. installer_baseline diag t = Inr (Some base) \<and>
        list_all (\<lambda>(package, sites). length sites \<le> length (dget base package [])) (installer_inventory t))"
proof -
  have "filter (installer_grown base) (installer_inventory t) = [] \<longleftrightarrow>
      list_all (\<lambda>(package, sites). length sites \<le> length (dget base package [])) (installer_inventory t)" for base
    by (auto simp: filter_empty_conv list_all_iff installer_grown_def not_less)
  then show ?thesis by (auto simp: installer_messages_def bindR_eq_Inr split: option.split_asm option.split)
qed

text \<open>Every site that is listed stands in a file of its package.\<close>

lemma reader_sites_in_package:
  "site \<in> set (reader_sites t package symbols) \<Longrightarrow> rs_path site \<in> set (rglob_lua t (''packages/'' @ package)) \<and> is_reader_file (rs_path site)"
  by (auto simp: reader_sites_def line_reader_sites_def Let_def split: if_splits)

text \<open>A comparison is counted as a write.\<close>

lemma comparison_counts_as_write: "found M_ASSIGN ''if M.a == 1 then'' = 1"
  by code_simp

end
