(* ===== verification/SourceLints.thy ===== *)
theory SourceLints
  imports LibraryModel LintBase
begin

text \<open>
  Checks of single sources: \<^verbatim>\<open>scripts/check_repo_ingress.py\<close>, \<^verbatim>\<open>scripts/check_repo_dead_letter.py\<close>,
  \<^verbatim>\<open>scripts/check_repo_saga_head.py\<close>, \<^verbatim>\<open>scripts/check_repo_perm.py\<close>, \<^verbatim>\<open>scripts/check_repo_dead_locals.py\<close>,
  \<^verbatim>\<open>scripts/check_repo_cross_package.py\<close> and \<^verbatim>\<open>scripts/check_repo_codex_timeout.py\<close>. \<open>show_repr\<close> is \<open>repr()\<close> of a text.

  Shown here: the positive control of dead locals never fails, which packages lack a dead-letter department, and what an
  accepted ingress is.
\<close>

section \<open>Queues of a spec\<close>

definition quote_class :: regex where "quote_class = RSet (\<lambda>c. c = DQ \<or> c = SQ)"

definition quoted_by :: "string \<Rightarrow> string \<Rightarrow> regex \<Rightarrow> regex" where
  "quoted_by quote name r = rseq [RGroup quote quote_class, RGroup name r, RBackref quote]"

definition field_is :: "string \<Rightarrow> regex list" where "field_is name = [RWordB, rlit name, rblank, rchar CHR ''='', rblank]"

definition RAISER_PRODUCES_RE :: regex where
  "RAISER_PRODUCES_RE = rseq (field_is ''produces'' @ [quoted_by ''quote'' ''queue'' (rplus (RSet ident_char))])"

definition RAISER_FILE_WATCH_RE :: regex where
  "RAISER_FILE_WATCH_RE = rseq (field_is ''type'' @ [RGroup ''quote'' quote_class, rlit ''file_watch'', RBackref ''quote''])"

definition RAISER_GLOB_RE :: regex where
  "RAISER_GLOB_RE = rseq (field_is ''glob'' @ [quoted_by ''quote'' ''glob'' (rplus (RSet (\<lambda>c. c \<noteq> DQ \<and> c \<noteq> SQ)))])"

definition SPEC_FIELD_RE :: regex where
  "SPEC_FIELD_RE =
     rseq [RWordB, RGroup ''field'' (ralt [rlit ''consumes'', rlit ''produces'', rlit ''ephemeral'']), rblank, rchar CHR ''='', rblank,
       rchar CHR ''{'', RGroup ''body'' (RStar False (RSet (\<lambda>_. True))), rchar CHR ''}'']"

definition LITERAL_QUEUE_RE :: regex where "LITERAL_QUEUE_RE = quoted_by ''quote'' ''queue'' (rplus (RSet DependencyCycle.module_char))"

definition spec_queues :: "string \<Rightarrow> string \<Rightarrow> string fset" where
  "spec_queues source field =
     fset_of_list (concat (map (\<lambda>m. map (\<lambda>queue. group_or_empty queue ''queue'') (re_finditer LITERAL_QUEUE_RE (group_or_empty m ''body'')))
       (filter (\<lambda>m. group_or_empty m ''field'' = field) (re_finditer SPEC_FIELD_RE source))))"

section \<open>Ingress\<close>

definition queue_ingress_segment :: "string \<Rightarrow> string \<Rightarrow> string" where
  "queue_ingress_segment package queue =
     map (\<lambda>c. if c = CHR ''_'' then CHR ''-'' else c) (removeprefix (hd (split_char (CHR ''-'') package) @ ''_'') queue)"

definition union_of :: "('a \<Rightarrow> 'b fset) \<Rightarrow> 'a list \<Rightarrow> 'b fset" where "union_of f xs = fold (\<lambda>x all. all |\<union>| f x) xs {||}"

definition package_consumed_queues :: "tree \<Rightarrow> string \<Rightarrow> string fset" where
  "package_consumed_queues t package_root =
     union_of (\<lambda>path. spec_queues (source_of t path) ''consumes'') (rglob_lua t (package_root @ ''/departments''))"

text \<open>The Lua files directly in a directory, and the raisers below the packages.\<close>

definition lua_directly_in :: "tree \<Rightarrow> string \<Rightarrow> string list" where
  "lua_directly_in t dir = filter (\<lambda>path. path_parts path = path_parts dir @ [path_name path]) (rglob_lua t dir)"

definition raiser_queues :: "string \<Rightarrow> string fset" where
  "raiser_queues source =
     (case re_search RAISER_PRODUCES_RE source of None \<Rightarrow> {||} | Some produces \<Rightarrow> {|group_or_empty produces ''queue''|})"

definition package_internal_produced_queues :: "tree \<Rightarrow> string \<Rightarrow> string \<Rightarrow> string fset" where
  "package_internal_produced_queues t package_root current_ingress =
     union_of (\<lambda>path. spec_queues (source_of t path) ''produces'') (rglob_lua t (package_root @ ''/departments'')) |\<union>|
     union_of (\<lambda>path. raiser_queues (source_of t path))
       (filter (\<lambda>path. path \<noteq> current_ingress) (lua_directly_in t (package_root @ ''/raisers'')))"

definition expected_glob :: "string \<Rightarrow> string \<Rightarrow> string" where
  "expected_glob package queue = ''.fkst/ingress/'' @ package @ ''/'' @ queue_ingress_segment package queue @ ''/*.json''"

definition scoped_file_watch_ingress_violation :: "repo \<Rightarrow> string \<Rightarrow> string \<Rightarrow> string \<Rightarrow> string option" where
  "scoped_file_watch_ingress_violation repo package_root path source =
     (let shown = rel repo path @ '' file-watch ingress ''; package = path_name package_root in
      if \<not> endswith (path_name path) ''_ingress.lua'' \<or> re_search RAISER_FILE_WATCH_RE source = None then None
      else
        (case (re_search RAISER_PRODUCES_RE source, re_search RAISER_GLOB_RE source) of
           (Some produces, Some glob) \<Rightarrow>
             let queue = group_or_empty produces ''queue''; shown = shown @ ''for queue `'' @ queue @ ''` '' in
             if group_or_empty glob ''glob'' \<noteq> expected_glob package queue
             then Some (shown @ ''must be scoped to `'' @ expected_glob package queue @ ''`, got `'' @ group_or_empty glob ''glob'' @ ''`'')
             else if queue |\<notin>| package_consumed_queues (rp_tree repo) package_root
             then Some (shown @ ''must target a package-consumed queue'')
             else if queue |\<in>| package_internal_produced_queues (rp_tree repo) package_root path
             then Some (shown @ ''duplicates an internal package producer'')
             else None
         | _ \<Rightarrow> Some (shown @ ''must declare literal `glob` and `produces` fields'')))"

definition ingress_files :: "tree \<Rightarrow> string \<Rightarrow> (string \<times> string) list" where
  "ingress_files t packages =
     map (\<lambda>path. (packages @ ''/'' @ path_parts path ! length (path_parts packages), path))
       (filter (\<lambda>path. endswith (path_name path) ''_ingress.lua'' \<and>
           (case drop (length (path_parts packages)) (path_parts path) of [_, d, _] \<Rightarrow> d = ''raisers'' | _ \<Rightarrow> False))
         (rglob_lua t packages))"

definition scoped_file_watch_ingress_messages :: "repo \<Rightarrow> string \<Rightarrow> string list" where
  "scoped_file_watch_ingress_messages repo packages =
     List.map_filter (\<lambda>(package_root, path). scoped_file_watch_ingress_violation repo package_root path (source_of (rp_tree repo) path))
       (ingress_files (rp_tree repo) packages)"

section \<open>Dead letters\<close>

text \<open>The main files of the departments of a package.\<close>

definition department_mains :: "tree \<Rightarrow> string \<Rightarrow> string list" where
  "department_mains t pkg =
     filter (\<lambda>path. case drop (length (path_parts pkg)) (path_parts path) of [d, _, f] \<Rightarrow> d = ''departments'' \<and> f = ''main.lua'' | _ \<Rightarrow> False)
       (rglob_lua t pkg)"

definition consumed_of :: "repo \<Rightarrow> string \<Rightarrow> string fset" where
  "consumed_of repo path = spec_queues (source_of (rp_tree repo) path) ''consumes''"

definition reliable_queues :: "repo \<Rightarrow> string \<Rightarrow> string fset" where
  "reliable_queues repo pkg =
     union_of (\<lambda>path. consumed_of repo path |-| spec_queues (source_of (rp_tree repo) path) ''ephemeral'' |-| {|''dead_letter''|})
       (department_mains (rp_tree repo) pkg)"

definition has_dead_letter :: "repo \<Rightarrow> string \<Rightarrow> bool" where
  "has_dead_letter repo pkg \<longleftrightarrow> list_ex (\<lambda>path. ''dead_letter'' |\<in>| consumed_of repo path) (department_mains (rp_tree repo) pkg)"

definition dead_letter_messages :: "repo \<Rightarrow> string list" where
  "dead_letter_messages repo =
     map (\<lambda>pkg. ''packages/'' @ path_name pkg @ '' consumes reliable queues but has no department consuming `dead_letter`: '' @
         join '', '' (sorted_list_of_fset (reliable_queues repo pkg)))
       (filter (\<lambda>pkg. reliable_queues repo pkg \<noteq> {||} \<and> \<not> has_dead_letter repo pkg) (package_dirs repo))"

section \<open>Heads of saga departments\<close>

definition SAGA_REQUIRE_RE :: regex where
  "SAGA_REQUIRE_RE =
     rseq [RWordB, rlit ''require'', rblank, ropt (RSeq (rchar CHR ''('') rblank), quote_class, rlit ''workflow.saga'', quote_class]"

definition call_or_table :: regex where "call_or_table = RSet (\<lambda>c. c = CHR ''('' \<or> c = CHR ''{'')"

definition SAGA_DEPARTMENT_RE :: regex where
  "SAGA_DEPARTMENT_RE = rseq [rchar CHR ''.'', rblank, rlit ''department'', rblank, call_or_table]"

definition saga_department :: "regex list" where
  "saga_department = [RWordB, rlit ''saga'', rblank, rchar CHR ''.'', rblank, rlit ''department'', rblank]"

definition SAGA_DEPARTMENT_CALL_RE :: regex where
  "SAGA_DEPARTMENT_CALL_RE = rseq (saga_department @ [RGroup ''form'' call_or_table])"

definition SAGA_DEPARTMENT_NAMED_SPEC_RE :: regex where
  "SAGA_DEPARTMENT_NAMED_SPEC_RE = rseq (saga_department @ [rchar CHR ''('', rblank, RGroup ''spec'' RIDENT, rblank, rchar CHR '',''])"

definition LOCAL_FUNCTION_RE :: regex where
  "LOCAL_FUNCTION_RE = rseq [RMBol, rblank, rlit ''local'', rplus rspace, rlit ''function'', RWordB]"

definition line_at :: "string \<Rightarrow> nat \<Rightarrow> nat" where "line_at source index = count_char source LF 0 index + 1"

definition local_table_declaration_line :: "string \<Rightarrow> string \<Rightarrow> nat option" where
  "local_table_declaration_line source name =
     map_option (\<lambda>m. line_at source (m_start m))
       (re_search (rseq [RMBol, rblank, rlit ''local'', rplus rspace, rlit name, rblank, rchar CHR ''='', rblank, rchar CHR ''{'']) source)"

definition saga_call_message :: "(string \<Rightarrow> string) \<Rightarrow> string \<Rightarrow> string \<Rightarrow> rematch \<Rightarrow> string option" where
  "saga_call_message show_repr path source call =
     (let call_line = line_at source (m_start call) in
      case match_at SAGA_DEPARTMENT_NAMED_SPEC_RE (pos_at source (m_start call)) of
        None \<Rightarrow>
          Some (path @ '':'' @ str_int (int call_line) @ '' saga.department must pass a named spec first argument declared at file head'')
      | Some named \<Rightarrow>
          let spec = group_or_empty named ''spec'' in
          (case local_table_declaration_line source spec of
             None \<Rightarrow>
               Some (path @ '':'' @ str_int (int call_line) @ '' saga.department spec '' @ show_repr spec @ '' must be declared as local '' @ spec @
                 '' = { at file head'')
           | Some spec_line \<Rightarrow>
               (case re_search LOCAL_FUNCTION_RE source of
                  None \<Rightarrow> None
                | Some first \<Rightarrow>
                    let first_line = line_at source (m_start first) in
                    if first_line \<le> spec_line
                    then Some (path @ '':'' @ str_int (int spec_line) @ '' saga.department spec '' @ show_repr spec @
                      '' must be declared before the first local function at line '' @ str_int (int first_line))
                    else None)))"

definition saga_head_violations :: "(string \<Rightarrow> string) \<Rightarrow> (string \<times> string) list \<Rightarrow> string list" where
  "saga_head_violations show_repr sources =
     concat (map (\<lambda>(path, raw_source).
         let source = strip_lua_comments_and_strings raw_source in
         if re_search SAGA_REQUIRE_RE raw_source = None \<or> re_search SAGA_DEPARTMENT_RE source = None then []
         else List.map_filter (saga_call_message show_repr path source) (re_finditer SAGA_DEPARTMENT_CALL_RE source))
       (sort_key fst sources))"

section \<open>Permissions\<close>

definition SOURCE_SUFFIXES :: "string list" where "SOURCE_SUFFIXES = [''.lua'', ''.sh'', ''.py'']"
definition SCAN_DIRS :: "string list" where "SCAN_DIRS = [''packages'', ''libraries'', ''scripts'']"

definition RESTRICTIVE_MODE_RE :: regex where
  "RESTRICTIVE_MODE_RE =
     (let mode = ralt (map rlit [''555'', ''444'', ''500'', ''400'']) in
      rseq [RNotBehind ident_char, RAlt (RSeq (rlit ''0o'') mode) (RSeq (rchar CHR ''0'') mode), RLook False (RSet ident_char)])"

definition CHMOD_COMMAND_RE :: regex where
  "CHMOD_COMMAND_RE =
     rseq [RNotBehind (\<lambda>c. is_word c \<or> c = CHR ''.'' \<or> c = CHR ''-''), rlit ''chmod'', rplus rspace, RLook False (rchar CHR ''+'')]"

definition is_perm_test_path :: "string \<Rightarrow> bool" where
  "is_perm_test_path path \<longleftrightarrow> ''tests'' \<in> set (path_parts path) \<or> contains ''_test.'' (path_name path)"

definition allowed_chmod_line :: "string \<Rightarrow> bool" where "allowed_chmod_line l \<longleftrightarrow> re_search CHMOD_COMMAND_RE l = None"

definition has_suffix :: "string \<Rightarrow> string \<Rightarrow> bool" where "has_suffix path ext \<longleftrightarrow> endswith (path_name path) ext \<and> path_name path \<noteq> ext"

definition source_paths :: "tree \<Rightarrow> string list" where
  "source_paths t =
     concat (map (\<lambda>dir. sort_key path_parts (filter (\<lambda>path. under dir path \<and> list_ex (has_suffix path) SOURCE_SUFFIXES) (map fst t))) SCAN_DIRS)"

definition perm_line_messages :: "string \<Rightarrow> nat \<Rightarrow> string \<Rightarrow> string list" where
  "perm_line_messages shown number l =
     (let at = ''G-PERM: '' @ shown @ '':'' @ str_int (int number) in
      (if allowed_chmod_line l then [] else [at @ '' permission command may not be used for permission-based control'']) @
      (if re_search RESTRICTIVE_MODE_RE l = None then []
       else [at @ '' restrictive mode literal may not be used for permission-based control'']))"

definition check_no_permission_control :: "repo \<Rightarrow> check_message list" where
  "check_no_permission_control repo =
     map Violation (concat (map (\<lambda>path.
         let lines = splitlines (source_of (rp_tree repo) path) in
         concat (map (\<lambda>(number, l). perm_line_messages (rel repo path) number l) (zip [1..<Suc (length lines)] lines)))
       (filter (\<lambda>path. \<not> is_perm_test_path path) (source_paths (rp_tree repo)))))"

section \<open>Dead local functions\<close>

definition NAMED_LOCAL_FUNCTION_RE :: regex where
  "NAMED_LOCAL_FUNCTION_RE =
     rseq [RWordB, rlit ''local'', rplus rspace, rlit ''function'', rplus rspace, RGroup ''name'' RIDENT, rblank, rchar CHR ''('']"

definition POSITIVE_CONTROL_NAME :: string where "POSITIVE_CONTROL_NAME = ''fkst_dead_local_positive_control''"

definition POSITIVE_CONTROL_SOURCE :: string where
  "POSITIVE_CONTROL_SOURCE = ''local function '' @ POSITIVE_CONTROL_NAME @ ''() end'' @ [LF]"

definition dead_local_functions :: "string \<Rightarrow> (nat \<times> string) list" where
  "dead_local_functions source =
     (let code = code_mask source; words = re_findall LUA_WORD_RE code in
      map (\<lambda>m. (line_at source (m_start m), group_or_empty m ''name''))
        (filter (\<lambda>m. count_list words (group_or_empty m ''name'') = 1) (re_finditer NAMED_LOCAL_FUNCTION_RE code)))"

definition lua_files :: "tree \<Rightarrow> string list" where "lua_files t = rglob_lua t ''libraries'' @ rglob_lua t ''packages''"

definition verify_positive_control :: "((nat \<times> string) list \<Rightarrow> string) \<Rightarrow> unit result" where
  "verify_positive_control show_list =
     (let expected = [(1, POSITIVE_CONTROL_NAME)]; actual = dead_local_functions POSITIVE_CONTROL_SOURCE in
      if actual \<noteq> expected
      then Raise (RuntimeError (''dead-local positive control failed: expected '' @ show_list expected @ '', got '' @ show_list actual))
      else Return ())"

definition dead_local_messages :: "(string \<Rightarrow> string) \<Rightarrow> ((nat \<times> string) list \<Rightarrow> string) \<Rightarrow> tree \<Rightarrow> string list result" where
  "dead_local_messages show_repr show_list t =
     bindR (verify_positive_control show_list) (\<lambda>_.
       Return (concat (map (\<lambda>path.
           map (\<lambda>(number, name). path @ '':'' @ str_int (int number) @ '' local function '' @ show_repr name @ '' is unreachable within its file'')
             (dead_local_functions (source_of t path))) (lua_files t))))"

section \<open>Requires of other packages\<close>

definition CROSS_REQUIRE_RE :: regex where
  "CROSS_REQUIRE_RE =
     (let name = rplus (RSet DependencyCycle.module_char) in
      rseq [RWordB, rlit ''require'', rblank, ropt (RSeq (rchar CHR ''('') rblank),
        ralt [rseq [rchar DQ, RGroup ''1'' name, rchar DQ], rseq [rchar SQ, RGroup ''2'' name, rchar SQ],
          rseq [rchar CHR ''['', RGroup ''3'' (rstar (rchar CHR ''='')), rchar CHR ''['', RGroup ''4'' name, rchar CHR '']'', RBackref ''3'',
            rchar CHR '']'']]])"

text \<open>The group that holds the name, with where the text around it starts and ends.\<close>

definition name_group :: "rematch \<Rightarrow> string" where
  "name_group m = (if m_group m ''1'' \<noteq> None then ''1'' else if m_group m ''2'' \<noteq> None then ''2'' else ''4'')"

definition name_span :: "rematch \<Rightarrow> nat \<times> nat" where
  "name_span m =
     (let g = name_group m in
      (the_default 0 (m_group_start m g) - 1, group_end m g + 1 + (if g = ''4'' then 1 + length (group_or_empty m ''3'') else 0)))"

definition top_of :: "string \<Rightarrow> string" where "top_of module = hd (split_char (CHR ''.'') module)"

definition require_names :: "string \<Rightarrow> string list \<Rightarrow> string \<Rightarrow> string fset \<Rightarrow> string list" where
  "require_names source package_names current_pkg allowed_top_names =
     (let stripped = strip_lua_comments_and_strings source in
      sorted_list_of_fset (fset_of_list
        (filter (\<lambda>top_name. top_name \<in> set package_names \<and> top_name \<noteq> current_pkg \<and> top_name |\<notin>| allowed_top_names)
          (map (\<lambda>m. top_of (group_or_empty m (name_group m)))
            (filter (\<lambda>m. is_unmasked_range source stripped (m_start m) (fst (name_span m)) \<and>
                is_unmasked_range source stripped (snd (name_span m)) (m_end m)) (re_finditer CROSS_REQUIRE_RE source))))))"

definition text_names :: "toml_value list \<Rightarrow> string list" where
  "text_names vs = List.map_filter (\<lambda>v. case v of TomlText s \<Rightarrow> Some s | _ \<Rightarrow> None) vs"

text \<open>A manifest that does not decode declares nothing; \<open>lib_deps\<close> that is true and no table raises.\<close>

definition declared_workspace_libraries :: "toml_loads \<Rightarrow> tree \<Rightarrow> string \<Rightarrow> string list \<Rightarrow> string fset result" where
  "declared_workspace_libraries loads t pkg workspace_libraries =
     (case tree_read t (pkg @ ''/fkst.toml'') of
        None \<Rightarrow> Return {||}
      | Some source \<Rightarrow>
          (case loads source of
             Inl _ \<Rightarrow> Return {||}
           | Inr manifest \<Rightarrow>
               bindR (table_or_empty manifest ''lib_deps'') (\<lambda>lib_deps.
                 Return
                   (case map_of lib_deps ''libraries'' of
                      Some (TomlArray vs) \<Rightarrow> fset_of_list (filter (\<lambda>name. name \<in> set workspace_libraries) (text_names vs))
                    | _ \<Rightarrow> {||}))))"

definition workspace_library_names :: "tree \<Rightarrow> string list" where
  "workspace_library_names t = filter (\<lambda>name. path_exists t (''libraries/'' @ name @ ''/fkst.toml'')) (child_dirs t ''libraries'')"

definition peer_files :: "tree \<Rightarrow> string \<Rightarrow> string list" where
  "peer_files t pkg =
     filter (\<lambda>path. case drop (length (path_parts pkg)) (path_parts path) of
         first # _ \<Rightarrow> first \<notin> {''std'', ''libraries''} | [] \<Rightarrow> True) (rglob_lua t pkg)"

definition cross_package_messages :: "toml_loads \<Rightarrow> (string \<Rightarrow> string) \<Rightarrow> repo \<Rightarrow> string list result" where
  "cross_package_messages loads show_repr repo =
     (let t = rp_tree repo; pkgs = package_dirs repo; names = map path_name pkgs in
      bindR (mapR (\<lambda>pkg.
          bindR (declared_workspace_libraries loads t pkg (workspace_library_names t)) (\<lambda>allowed.
            Return (concat (map (\<lambda>path.
                map (\<lambda>name. rel repo path @ '' peer cross-package require of '' @ show_repr name @
                    ''; share via workspace libraries (peer cross-package require is forbidden)'')
                  (require_names (source_of t path) names (path_name pkg) allowed)) (peer_files t pkg))))) pkgs)
        (\<lambda>messages. Return (concat messages)))"

section \<open>Timeouts of codex\<close>

definition CODEX_RUN_CALL_RE :: regex where
  "CODEX_RUN_CALL_RE =
     rseq [RWordB,
       RGroup ''call'' (RAlt (RSeq (rlit ''spawn_codex'') (ropt (rlit ''_sync'')))
         (rseq [rlit ''workflow_codex'', rblank, rchar CHR ''.'', rblank, rlit ''dispatch''])),
       rblank, rchar CHR ''('']"

definition numeric :: regex where
  "numeric = rseq [rplus rdigit, rblank, rstar (rseq [rchar CHR ''*'', rblank, rplus rdigit, rblank])]"

definition NUMERIC_TIMEOUT_RE :: regex where "NUMERIC_TIMEOUT_RE = rseq [RWordB, rlit ''timeout'', rblank, rchar CHR ''='', rblank, numeric]"

definition opts_timeout :: "regex list" where
  "opts_timeout = [RWordB, RGroup ''opts'' RIDENT, rblank, rchar CHR ''.'', rblank, rlit ''timeout'', rblank, rchar CHR ''='', rblank]"

definition NUMERIC_TIMEOUT_ASSIGN_RE :: regex where "NUMERIC_TIMEOUT_ASSIGN_RE = rseq (opts_timeout @ [numeric])"

definition NUMERIC_CONST_ASSIGN_RE :: regex where
  "NUMERIC_CONST_ASSIGN_RE =
     rseq [RWordB, ropt (RSeq (rlit ''local'') (rplus rspace)), RGroup ''name'' RIDENT, rblank, rchar CHR ''='', rblank, numeric]"

definition TIMEOUT_VAR_ASSIGN_RE :: regex where "TIMEOUT_VAR_ASSIGN_RE = rseq (opts_timeout @ [RGroup ''value'' RIDENT])"

definition CODEX_TIMEOUT_CONST_RE :: regex where
  "CODEX_TIMEOUT_CONST_RE =
     rseq [RWordB, ropt (RSeq (ilit ''local'') (rplus rspace)), RLook True (rseq [RIDENT, rblank, rchar CHR ''='']),
       RLook True (RSeq (rstar (RSet ident_char)) (ilit ''codex_timeout'')), RIDENT, rblank, rchar CHR ''='', rblank, numeric]"

definition matching_lua_paren :: "string \<Rightarrow> nat \<Rightarrow> nat option" where
  "matching_lua_paren source open_index = matching_close source open_index CHR ''('' CHR '')''"

definition call_body :: "string \<Rightarrow> rematch \<Rightarrow> string option" where
  "call_body stripped call = map_option (py_slice stripped (m_end call)) (matching_lua_paren stripped (m_end call - 1))"

definition passes_opts :: "string \<Rightarrow> string \<Rightarrow> rematch \<Rightarrow> bool" where
  "passes_opts stripped name call \<longleftrightarrow>
     (case call_body stripped call of
        None \<Rightarrow> False
      | Some body \<Rightarrow>
          let call_name = re_sub (rplus rspace) [] (group_or_empty call ''call'') in
          if startswith call_name ''spawn_codex'' then fullmatches (rseq [rblank, rlit name, rblank]) body
          else
            call_name = ''workflow_codex.dispatch'' \<and>
            re_search (rseq [RAlt RBol (rchar CHR '',''), rblank, rlit name, rblank, RAlt (rchar CHR '','') REol]) body \<noteq> None)"

definition variable_used_as_codex_opts_argument :: "string \<Rightarrow> string \<Rightarrow> nat \<Rightarrow> bool" where
  "variable_used_as_codex_opts_argument stripped name start \<longleftrightarrow>
     list_ex (passes_opts stripped name) (re_finditer_range CODEX_RUN_CALL_RE stripped start (length stripped))"

definition used_later :: "string \<Rightarrow> rematch \<Rightarrow> bool" where
  "used_later stripped m \<longleftrightarrow> variable_used_as_codex_opts_argument stripped (group_or_empty m ''opts'') (m_end m)"

definition codex_timeout_literal_lines :: "string \<Rightarrow> nat list" where
  "codex_timeout_literal_lines source =
     (let stripped = strip_lua_comments_and_strings source;
          numeric_const_lines = dict_of (map (\<lambda>m. (group_or_empty m ''name'', line_at source (m_start m))) (re_finditer NUMERIC_CONST_ASSIGN_RE stripped)) in
      sort (remdups
        (map (\<lambda>m. line_at source (m_start m)) (re_finditer CODEX_TIMEOUT_CONST_RE stripped) @
         map (\<lambda>m. line_at source (m_start m)) (filter (used_later stripped) (re_finditer NUMERIC_TIMEOUT_ASSIGN_RE stripped)) @
         List.map_filter (\<lambda>m. if used_later stripped m then map_of numeric_const_lines (group_or_empty m ''value'') else None)
           (re_finditer TIMEOUT_VAR_ASSIGN_RE stripped) @
         concat (map (\<lambda>call.
             map (\<lambda>m. line_at source (m_end call + m_start m)) (re_finditer NUMERIC_TIMEOUT_RE (the_default [] (call_body stripped call))))
           (re_finditer CODEX_RUN_CALL_RE stripped)))))"

definition codex_timeout_messages :: "repo \<Rightarrow> string list" where
  "codex_timeout_messages repo =
     concat (map (\<lambda>(packages, path).
         map (\<lambda>number. rel repo path @ '':'' @ str_int (int number) @ '' production codex timeout defaults must come from workflow_internal.codex'')
           (codex_timeout_literal_lines (source_of (rp_tree repo) path)))
       (filter (\<lambda>(packages, path). ''tests'' \<notin> set (path_parts (drop (Suc (length packages)) path))) (package_lua_files repo)))"

section \<open>What the checks say\<close>

text \<open>The positive control holds, so that the check of dead locals always returns.\<close>

lemma positive_control: "dead_local_functions POSITIVE_CONTROL_SOURCE = [(1, POSITIVE_CONTROL_NAME)]"
  by code_simp

lemma dead_local_messages_returns:
  "dead_local_messages show_repr show_list t =
     Inr (concat (map (\<lambda>path.
       map (\<lambda>(number, name). path @ '':'' @ str_int (int number) @ '' local function '' @ show_repr name @ '' is unreachable within its file'')
         (dead_local_functions (source_of t path))) (lua_files t)))"
  by (simp add: dead_local_messages_def verify_positive_control_def positive_control)

lemma union_of_member: "x |\<in>| union_of f xs \<longleftrightarrow> (\<exists>y \<in> set xs. x |\<in>| f y)"
proof -
  have "x |\<in>| fold (\<lambda>x all. all |\<union>| f x) xs start \<longleftrightarrow> x |\<in>| start \<or> (\<exists>y \<in> set xs. x |\<in>| f y)" for start
    by (induction xs arbitrary: start) auto
  then show ?thesis by (simp add: union_of_def)
qed

text \<open>
  The check of dead letters finds nothing exactly if every package whose departments consume some queue reliably has a
  department that consumes \<open>dead_letter\<close>.
\<close>

lemma dead_letter_clean_iff:
  "dead_letter_messages repo = [] \<longleftrightarrow>
     (\<forall>pkg \<in> set (package_dirs repo).
        (\<exists>path \<in> set (department_mains (rp_tree repo) pkg). \<exists>queue. queue |\<in>| consumed_of repo path \<and>
           queue |\<notin>| spec_queues (source_of (rp_tree repo) path) ''ephemeral'' \<and> queue \<noteq> ''dead_letter'') \<longrightarrow>
        (\<exists>path \<in> set (department_mains (rp_tree repo) pkg). ''dead_letter'' |\<in>| consumed_of repo path))"
proof -
  have "reliable_queues repo pkg \<noteq> {||} \<longleftrightarrow>
      (\<exists>path \<in> set (department_mains (rp_tree repo) pkg). \<exists>queue. queue |\<in>| consumed_of repo path \<and>
         queue |\<notin>| spec_queues (source_of (rp_tree repo) path) ''ephemeral'' \<and> queue \<noteq> ''dead_letter'')" for pkg
    unfolding reliable_queues_def fset_eq_iff union_of_member by auto
  then show ?thesis
    unfolding dead_letter_messages_def map_is_Nil_conv filter_empty_conv has_dead_letter_def list_ex_iff by blast
qed

text \<open>An accepted file-watch ingress serves a queue that its package consumes and nothing else in it produces.\<close>

lemma accepted_ingress:
  assumes "scoped_file_watch_ingress_violation repo package_root path source = None"
    and "endswith (path_name path) ''_ingress.lua''" "re_search RAISER_FILE_WATCH_RE source \<noteq> None"
  obtains produces glob where "re_search RAISER_PRODUCES_RE source = Some produces" "re_search RAISER_GLOB_RE source = Some glob"
    "group_or_empty glob ''glob'' = expected_glob (path_name package_root) (group_or_empty produces ''queue'')"
    "group_or_empty produces ''queue'' |\<in>| package_consumed_queues (rp_tree repo) package_root"
    "group_or_empty produces ''queue'' |\<notin>| package_internal_produced_queues (rp_tree repo) package_root path"
  using assms by (auto simp: scoped_file_watch_ingress_violation_def Let_def split: option.splits if_splits)

text \<open>
  A require of a peer in long brackets is not reported: the range before its name starts with the brackets, which the
  mask of strings blanks.
\<close>

lemma long_bracket_require_missed:
  "require_names ''local x = require [[peer]]'' [''peer''] ''me'' {||} = [] \<and>
   require_names (''local x = require '' @ [DQ] @ ''peer'' @ [DQ]) [''peer''] ''me'' {||} = [''peer'']"
  by code_simp

text \<open>With two blanks the exception for \<open>chmod +\<close> does not apply: one blank is left for the character that is no plus.\<close>

lemma chmod_two_blanks: "allowed_chmod_line ''chmod +x run.sh'' \<and> \<not> allowed_chmod_line ''chmod  +x run.sh''"
  by code_simp

end
