(* ===== verification/LayerLints.thy ===== *)
theory LayerLints
  imports IntakeRouting SourceLints
begin

text \<open>
  Two ratchets over sets of texts: \<^verbatim>\<open>scripts/check_repo_library_layering.py\<close> and
  \<^verbatim>\<open>scripts/check_repo_dept_failure_surface.py\<close> with its binding in the runner.

  Shown here: both satisfy the laws of the shrink-only interface, by one lemma on the messages they share; a comment that names the wrapper is a failure surface.
\<close>

section \<open>Sets of texts against an allowlist\<close>

text \<open>The messages for new sites, stale entries and grown entries, in this order.\<close>

definition set_ratchet_messages ::
    "(string \<Rightarrow> string) \<Rightarrow> (string \<Rightarrow> string) \<Rightarrow> (string \<Rightarrow> string) \<Rightarrow> string fset \<Rightarrow> string fset \<Rightarrow> string fset option \<Rightarrow> string list" where
  "set_ratchet_messages new stale grown current allowlist base_allowlist =
     map new (sorted_list_of_fset (current |-| allowlist)) @ map stale (sorted_list_of_fset (allowlist |-| current)) @
     (case base_allowlist of None \<Rightarrow> [] | Some base \<Rightarrow> map grown (sorted_list_of_fset (allowlist |-| base)))"

lemma set_ratchet_Nil:
  "set_ratchet_messages new stale grown current allowlist base = [] \<longleftrightarrow>
     current = allowlist \<and> (case base of None \<Rightarrow> True | Some b \<Rightarrow> allowlist |\<subseteq>| b)"
  unfolding set_ratchet_messages_def append_is_Nil_conv map_is_Nil_conv sorted_list_of_fset_Nil fminus_empty
  by (auto simp: sorted_list_of_fset_Nil fminus_empty split: option.split)

section \<open>Libraries below packages\<close>

definition LAYERING_ALLOWLIST :: string where "LAYERING_ALLOWLIST = ''migration/library-layering.allowlist''"

definition PACKAGE_ONLY_TOP_LEVELS :: "string list" where "PACKAGE_ONLY_TOP_LEVELS = [''core'', ''departments'', ''tests'', ''raisers'']"

definition forbidden_reason :: "string \<Rightarrow> string list \<Rightarrow> string list \<Rightarrow> string option" where
  "forbidden_reason module libraries packages =
     (if top_of module \<in> set libraries then None
      else if top_of module \<in> set PACKAGE_ONLY_TOP_LEVELS then Some ''package-only module''
      else if top_of module \<in> set packages then Some ''package namespace''
      else None)"

definition layering_sites :: "repo \<Rightarrow> string fset" where
  "layering_sites repo =
     (let t = rp_tree repo; packages = map path_name (package_dirs repo) in
      fset_of_list (concat (map (\<lambda>path.
          List.map_filter (\<lambda>(module, number).
              map_option (\<lambda>reason. rel repo path @ '':'' @ str_int (int number) @ '':'' @ module @ '':'' @ reason)
                (forbidden_reason module (workspace_library_names t) packages))
            (require_literals strip_lua_comments_and_strings is_unmasked_range (source_of t path)))
        (rglob_lua t ''libraries''))))"

text \<open>\<open>line_no.isdigit()\<close> accepts digits that \<open>int\<close> does not, which raises another text.\<close>

definition is_positive_number :: "string \<Rightarrow> bool result" where
  "is_positive_number n =
     (if n = [] \<or> \<not> list_all is_digit n then Return False
      else (case int_of_str n of None \<Rightarrow> Raise (ValueError ''invalid literal for int() with base 10'') | Some i \<Rightarrow> Return (1 \<le> i)))"

definition layering_line :: "string \<Rightarrow> string list result" where
  "layering_line raw =
     (let line = strip (hd (split_char (CHR ''#'') raw)); invalid = Raise (ValueError (''invalid '' @ LAYERING_ALLOWLIST @ '' line: '' @ raw)) in
      if line = [] then Return []
      else
        (case split_char (CHR '':'') line of
           [path, line_no, module, reason] \<Rightarrow>
             if \<not> startswith path ''libraries/'' \<or> \<not> endswith path ''.lua'' then invalid
             else
               bindR (is_positive_number line_no) (\<lambda>positive.
                 if \<not> positive then invalid
                 else if module = [] \<or> reason \<notin> {''package-only module'', ''package namespace''} then invalid
                 else Return [line])
         | _ \<Rightarrow> invalid))"

definition parse_layering_lines :: "string list \<Rightarrow> string fset result" where
  "parse_layering_lines lines = bindR (mapR layering_line lines) (\<lambda>es. Return (fset_of_list (concat es)))"

definition layering_site_message :: "(string \<Rightarrow> string) \<Rightarrow> string \<Rightarrow> string" where
  "layering_site_message show_repr site =
     (case split_char (CHR '':'') site of
        path # number # module # rest \<Rightarrow>
          path @ '':'' @ number @ '' library requires '' @ join '':'' rest @ '' '' @ show_repr module @ ''; '' @
          ''libraries are the lower shared layer and must depend only on workspace libraries or external Lua modules''
      | _ \<Rightarrow> [])"

definition layering_ratchet_messages :: "(string \<Rightarrow> string) \<Rightarrow> string fset \<Rightarrow> string fset \<Rightarrow> string fset option \<Rightarrow> string list" where
  "layering_ratchet_messages show_repr =
     set_ratchet_messages (\<lambda>site. layering_site_message show_repr site @ ''; not in '' @ LAYERING_ALLOWLIST)
       (\<lambda>site. site @ '' is stale in '' @ LAYERING_ALLOWLIST @ ''; prune the stale entry'')
       (\<lambda>site. site @ '' grows '' @ LAYERING_ALLOWLIST @ '' relative to dev; remove the libraries-to-packages require instead'')"

definition allowlist_source :: "tree \<Rightarrow> host_file \<Rightarrow> string option \<Rightarrow> string \<Rightarrow> string option" where
  "allowlist_source t host allowlist_dir relpath =
     (case allowlist_dir of None \<Rightarrow> tree_read t relpath | Some dir \<Rightarrow> host (dir @ ''/'' @ path_name relpath))"

definition layering_messages ::
    "environ \<Rightarrow> git \<Rightarrow> host_file \<Rightarrow> (string \<Rightarrow> string) \<Rightarrow> repo \<Rightarrow> string option \<Rightarrow> bool \<Rightarrow> check_message list result" where
  "layering_messages env git host show_repr repo allowlist_dir enforce_base =
     bindR (load_allowlist_with parse_layering_lines (allowlist_source (rp_tree repo) host allowlist_dir LAYERING_ALLOWLIST)) (\<lambda>allowlist.
       let base = (if enforce_base then allowlist_at_dev_base env git LAYERING_ALLOWLIST parse_layering_lines else BaseAbsent) in
       Return (unresolved_failure (''cannot resolve dev base allowlist to enforce shrink-only library-layering ratchet; '' @
           ''ensure CI provides the dev ref'') base @
         map Violation (layering_ratchet_messages show_repr (layering_sites repo) allowlist (base_value base))))"

interpretation layering_ratchet: shrink_only_ratchet
  "\<lambda>current allowlist base. layering_ratchet_messages show_repr current allowlist base = []" "\<lambda>c. c" "\<lambda>a. a" "(|\<subseteq>|)"
  by unfold_locales (auto simp: layering_ratchet_messages_def set_ratchet_Nil)

section \<open>Failure surfaces of departments\<close>

definition SURFACE_ALLOWLIST :: string where "SURFACE_ALLOWLIST = ''migration/dept-failure-surface.allowlist''"

definition RETRY_RE :: regex where "RETRY_RE = rseq [RMBol, rblank, rlit ''retry'', rblank, rchar CHR ''='', rblank, rchar CHR ''{'']"
definition WRAP_RE :: regex where "WRAP_RE = rseq [RWordB, rlit ''wrap_pipeline_failure'', RWordB]"

definition DEPT_PATH_RE :: regex where
  "DEPT_PATH_RE =
     (let part = rplus (RSet (\<lambda>c. c \<noteq> CHR ''/'')) in
      rseq [rlit ''packages/'', RGroup ''pkg'' part, rlit ''/departments/'', RGroup ''dept'' part, rlit ''/main.lua'', REol])"

definition dept_id :: "string \<Rightarrow> string option" where
  "dept_id rel_path =
     map_option (\<lambda>m. group_or_empty m ''pkg'' @ ''.'' @ group_or_empty m ''dept'')
       (re_search DEPT_PATH_RE (map (\<lambda>c. if c = BSLASH then CHR ''/'' else c) rel_path))"

definition is_structurally_exempt :: "string \<Rightarrow> bool" where
  "is_structurally_exempt dept \<longleftrightarrow> (let leaf = after_last (CHR ''.'') dept in leaf = ''dead_letter'' \<or> startswith leaf ''test_'')"

definition has_failure_surface :: "string \<Rightarrow> bool" where
  "has_failure_surface source \<longleftrightarrow> re_search RETRY_RE source \<noteq> None \<or> re_search WRAP_RE source \<noteq> None"

definition exposed_departments :: "(string \<times> string) list \<Rightarrow> string fset" where
  "exposed_departments sources =
     fset_of_list (List.map_filter (\<lambda>(rel_path, source).
         case dept_id rel_path of
           None \<Rightarrow> None
         | Some dept \<Rightarrow> if is_structurally_exempt dept \<or> has_failure_surface source then None else Some dept) sources)"

definition surface_line :: "string \<Rightarrow> string list" where
  "surface_line raw =
     (let line = strip raw in if line = [] \<or> startswith line ''#'' then [] else [strip (hd (split_char (CHR ''|'') line))])"

definition parse_surface_lines :: "string list \<Rightarrow> string fset" where "parse_surface_lines lines = fset_of_list (concat (map surface_line lines))"

definition load_surface_allowlist :: "string option \<Rightarrow> string fset" where
  "load_surface_allowlist content = (case content of None \<Rightarrow> {||} | Some source \<Rightarrow> parse_surface_lines (splitlines source))"

definition surface_ratchet_messages :: "string fset \<Rightarrow> string fset \<Rightarrow> string fset option \<Rightarrow> string list" where
  "surface_ratchet_messages =
     set_ratchet_messages
       (\<lambda>dept. ''department `'' @ dept @ ''` uses neither an enabled `retry` table nor '' @
          ''`wrap_pipeline_failure`, so neither package-owned failure surface accepted by this '' @
          ''ratchet is explicit (see #2996). An omitted `retry` inherits the engine'' @ [SQ] @ ''s reliable '' @
          ''host defaults, equivalent to `retry = {}`; `retry = false` explicitly disables retry. '' @
          ''Declare `retry = {}` to formalize the inherited policy, use '' @
          ''`wrap_pipeline_failure` for a structured package log fact, or add a '' @
          ''shrink-only allowlist entry in '' @ SURFACE_ALLOWLIST @ '' with an issue link and a reason.'')
       (\<lambda>dept. ''`'' @ dept @ ''` is listed in '' @ SURFACE_ALLOWLIST @ '' but now uses an accepted failure surface '' @
          ''(or no longer exists). Remove the stale allowlist entry so the ratchet keeps shrinking.'')
       (\<lambda>dept. SURFACE_ALLOWLIST @ '' grew by `'' @ dept @ ''`; this inventory is shrink-only. '' @
          ''Give the new department an enabled `retry` table or `wrap_pipeline_failure` instead.'')"

definition department_main_sources :: "repo \<Rightarrow> (string \<times> string) list" where
  "department_main_sources repo =
     dict_of (concat (map (\<lambda>package_root. map (\<lambda>path. (rel repo path, source_of (rp_tree repo) path))
       (filter (\<lambda>path. case drop (length (path_parts package_root)) (path_parts path) of
           [_, d, _, f] \<Rightarrow> d = ''departments'' \<and> f = ''main.lua'' | _ \<Rightarrow> False) (rglob_lua (rp_tree repo) package_root)))
       (package_roots repo)))"

text \<open>The base with \<open>catch_errors=False\<close>: what git raises goes through.\<close>

definition surface_base :: "environ \<Rightarrow> git \<Rightarrow> string fset base_allowlist result" where
  "surface_base env git =
     bindR (file_at_base env git SURFACE_ALLOWLIST) (\<lambda>shown.
       Return (case shown of Absent \<Rightarrow> BaseAbsent | Unresolved \<Rightarrow> BaseUnresolved | Present s \<Rightarrow> BasePresent (parse_surface_lines (splitlines s))))"

definition check_dept_failure_surface :: "environ \<Rightarrow> git \<Rightarrow> host_file \<Rightarrow> repo \<Rightarrow> string option \<Rightarrow> bool \<Rightarrow> check_message list result" where
  "check_dept_failure_surface env git host repo allowlist_dir enforce_base =
     bindR (if enforce_base then surface_base env git else Return BaseAbsent) (\<lambda>base.
       Return (map (add ''G-DEPT-FAILURE-SURFACE'')
         (unresolved_failure ''cannot resolve dev base allowlist to enforce shrink-only ratchet; ensure CI provides the dev ref'' base @
          map Violation
            (surface_ratchet_messages (exposed_departments (department_main_sources repo))
              (load_surface_allowlist (allowlist_source (rp_tree repo) host allowlist_dir SURFACE_ALLOWLIST)) (base_value base)))))"

interpretation surface_ratchet: shrink_only_ratchet
  "\<lambda>current allowlist base. surface_ratchet_messages current allowlist base = []" "\<lambda>c. c" "\<lambda>a. a" "(|\<subseteq>|)"
  by unfold_locales (auto simp: surface_ratchet_messages_def set_ratchet_Nil)

text \<open>A comment that names the wrapper is a failure surface.\<close>

lemma comment_is_surface: "has_failure_surface ''-- no wrap_pipeline_failure'' \<and> \<not> has_failure_surface ''-- none''"
  by code_simp

end
