(* ===== verification/ShapeLints.thy ===== *)
theory ShapeLints
  imports LayerLints
begin

text \<open>
  More structural checks: \<^verbatim>\<open>scripts/check_repo_lock_scope.py\<close> (external calls inside a lock) and
  \<^verbatim>\<open>scripts/check_repo_namespaced_queue.py\<close> (comparisons of \<^verbatim>\<open>event.queue\<close> with a queue of the department itself).

  Shown here: when the allowlist of locks is accepted, that it may grow together with the code, that only a line which
  calls \<^verbatim>\<open>with_lock\<close> is reported, that a callback on the line of the call is not looked at; and that a comparison is
  reported only if the department consumes the bare queue.
\<close>

section \<open>External calls inside a lock\<close>

definition LOCK_ALLOWLIST :: string where "LOCK_ALLOWLIST = ''migration/lock-scope.allowlist''"

definition lua_dotted :: "char \<Rightarrow> bool" where "lua_dotted c \<longleftrightarrow> is_word c \<or> c = CHR ''.''"

definition IO_CALLS :: "(string \<times> regex) list" where
  "IO_CALLS =
     [(''exec_sync'', rseq [RNotBehind lua_dotted, rlit ''exec_sync'', rblank, rchar CHR ''('']),
      (''exec_argv'', rseq [RNotBehind lua_dotted, rlit ''exec_argv'', rblank, rchar CHR ''('']),
      (''spawn_codex'', rseq [RNotBehind lua_dotted, rlit ''spawn_codex'', ropt (rlit ''_sync''), rblank, rchar CHR ''('']),
      (''forge_handle'',
         rseq [RWordB, ropt (rlit ''core.''), RAlt (rlit ''github'') (rlit ''git''), rblank, rchar CHR ''.'', rblank,
           rplus (RSet (\<lambda>c. is_lower_ascii c \<or> c = CHR ''_'')), rblank, rchar CHR ''('']),
      (''forge_factory'',
         rseq [RWordB, rlit ''github_factory'', rblank, rchar CHR ''.'', rblank, rlit ''production_handle'', rblank, rchar CHR ''(''])]"

definition keyword_re :: "string list \<Rightarrow> regex" where
  "keyword_re words = rseq [RNotBehind lua_dotted, ralt (map rlit words), RLook False (RSet is_word)]"

definition OPENERS :: regex where "OPENERS = keyword_re [''function'', ''if'', ''for'', ''while'', ''do'']"
definition ELSEIF :: regex where "ELSEIF = keyword_re [''elseif'']"
definition CLOSERS :: regex where "CLOSERS = keyword_re [''end'']"
definition WITH_LOCK :: regex where "WITH_LOCK = rseq [RNotBehind lua_dotted, rlit ''with_lock'', rblank, rchar CHR ''('']"

datatype lock_site = LockScopeSite (ls_path: string) (ls_line: nat) (ls_kind: string)

definition lock_label :: "lock_site \<Rightarrow> string" where
  "lock_label s = ls_path s @ '':'' @ str_int (int (ls_line s)) @ '' '' @ ls_kind s"

definition lock_key :: "lock_site \<Rightarrow> string" where
  "lock_key s = ls_path s @ '':'' @ str_int (int (ls_line s)) @ '':'' @ ls_kind s"

definition lazy_any :: regex where "lazy_any = RStar False rany"

definition quoted_text :: "char \<Rightarrow> regex" where
  "quoted_text q = rseq [rchar q, rstar (RAlt (RSeq (rchar BSLASH) rany) (RSet (\<lambda>c. c \<noteq> q \<and> c \<noteq> BSLASH))), rchar q]"

definition strip_lua :: "string \<Rightarrow> string" where
  "strip_lua l =
     (let empty = [SQ, SQ];
          l = re_sub (rseq [rlit ''--[['', lazy_any, rlit '']]'']) '' '' l;
          l = re_sub (rseq [rlit ''--'', rstar rany, REol]) [] l;
          l = re_sub (rseq [rlit ''[['', lazy_any, rlit '']]'']) empty l;
          l = re_sub (quoted_text SQ) empty l in
      re_sub (quoted_text DQ) empty l)"

definition occurrences :: "regex \<Rightarrow> string \<Rightarrow> int" where "occurrences r l = int (length (re_finditer r l))"

definition keyword_delta :: "string \<Rightarrow> int" where
  "keyword_delta code = occurrences OPENERS code - occurrences ELSEIF code - occurrences CLOSERS code"

text \<open>The stripped lines of a call behind its first line.\<close>

definition callback_body :: "string \<Rightarrow> string list \<Rightarrow> string list" where
  "callback_body l ls =
     (let codes = map strip_lua ls in take (line_extent keyword_delta (keyword_delta (strip_lua l)) codes) codes)"

fun lock_sites_from :: "string \<Rightarrow> nat \<Rightarrow> string list \<Rightarrow> lock_site list" where
  "lock_sites_from path number [] = []"
| "lock_sites_from path number (l # ls) =
     (if re_search WITH_LOCK (strip_lua l) = None then []
      else
        map (LockScopeSite path number)
          (sort (map fst (filter (\<lambda>(kind, r). list_ex (\<lambda>code. re_search r code \<noteq> None) (callback_body l ls)) IO_CALLS)))) @
     lock_sites_from path (Suc number) ls"

definition lock_sources :: "tree \<Rightarrow> string list" where
  "lock_sources t =
     filter (\<lambda>path. ''tests'' \<notin> set (path_parts path) \<and> \<not> endswith (path_name path) ''_test.lua'')
       (rglob_lua t ''packages'' @ rglob_lua t ''libraries'')"

definition lock_sites :: "tree \<Rightarrow> lock_site list" where
  "lock_sites t =
     sort_key (\<lambda>s. (ls_path s, ls_line s, ls_kind s))
       (concat (map (\<lambda>path. lock_sites_from path 1 (splitlines (source_of t path))) (lock_sources t)))"

definition lock_entry :: "string \<Rightarrow> (string \<times> string) list" where
  "lock_entry raw =
     (let line = strip raw in
      if line = [] \<or> startswith line ''#'' then []
      else [(strip (takeWhile (\<lambda>c. c \<noteq> CHR ''|'') line), strip (drop 1 (dropWhile (\<lambda>c. c \<noteq> CHR ''|'') line)))])"

definition read_lock_allowlist :: "string option \<Rightarrow> (string \<times> string) list" where
  "read_lock_allowlist content = (case content of None \<Rightarrow> [] | Some source \<Rightarrow> concat (map lock_entry (splitlines source)))"

definition lock_ratchet_messages :: "lock_site list \<Rightarrow> (string \<times> string) list \<Rightarrow> bool \<Rightarrow> string list" where
  "lock_ratchet_messages observed allowed enforce_base =
     map (\<lambda>site. lock_label site @ '' performs external IO inside a with_lock critical section; '' @
         ''move the read outside the lock and keep only the currency re-check and its '' @
         ''protected write, or record the justified site in '' @ LOCK_ALLOWLIST)
       (filter (\<lambda>site. lock_key site \<notin> set (map fst allowed)) observed) @
     (if \<not> enforce_base then []
      else
        map (\<lambda>key. LOCK_ALLOWLIST @ '' entry '' @ key @ '' no longer matches a site; this ratchet is '' @
            ''shrink-only, so delete the stale entry'')
          (filter (\<lambda>key. key \<notin> set (map lock_key observed)) (sort (map fst allowed))) @
        map (\<lambda>(key, _). LOCK_ALLOWLIST @ '' entry '' @ key @ '' is missing its `|why=` justification'')
          (filter (\<lambda>(_, why). why = []) (sort_key fst allowed)))"

text \<open>The directory of allowlists is taken for a repository.\<close>

definition lock_scope_messages :: "host_file \<Rightarrow> tree \<Rightarrow> string option \<Rightarrow> bool \<Rightarrow> string list" where
  "lock_scope_messages host t allowlist_dir enforce_base =
     lock_ratchet_messages (lock_sites t)
       (dict_of (read_lock_allowlist (case allowlist_dir of None \<Rightarrow> tree_read t LOCK_ALLOWLIST | Some dir \<Rightarrow> host (dir @ ''/'' @ LOCK_ALLOWLIST))))
       enforce_base"

text \<open>The ratchet is silent if and only if sites and entries agree and every entry is justified.\<close>

lemma lock_ratchet_Nil:
  "lock_ratchet_messages observed allowed enforce_base = [] \<longleftrightarrow>
     lock_key ` set observed \<subseteq> fst ` set allowed \<and>
     (enforce_base \<longrightarrow> fst ` set allowed \<subseteq> lock_key ` set observed \<and> (\<forall>(key, why) \<in> set allowed. why \<noteq> []))"
  unfolding lock_ratchet_messages_def append_is_Nil_conv map_is_Nil_conv filter_empty_conv
  by (auto simp: filter_empty_conv image_subset_iff)

text \<open>No comparison with the base: a new site passes with a new entry.\<close>

lemma lock_allowlist_may_grow:
  assumes "lock_ratchet_messages observed allowed enforce_base = []" "why \<noteq> []"
  shows "lock_ratchet_messages (site # observed) ((lock_key site, why) # allowed) enforce_base = []"
  using assms unfolding lock_ratchet_Nil by auto

lemma lock_sites_are_calls:
  "s \<in> set (lock_sites_from path number ls) \<Longrightarrow>
     ls_path s = path \<and> ls_kind s \<in> set (map fst IO_CALLS) \<and>
     (\<exists>i < length ls. ls_line s = number + i \<and> re_search WITH_LOCK (strip_lua (ls ! i)) \<noteq> None)"
proof (induction path number ls rule: lock_sites_from.induct)
  case (2 path number l ls)
  consider "s \<in> set (lock_sites_from path (Suc number) ls)"
    | "re_search WITH_LOCK (strip_lua l) \<noteq> None" "s \<in> LockScopeSite path number ` fst ` set IO_CALLS"
    using "2.prems" by (auto split: if_splits)
  then show ?case
  proof cases
    case 1
    with "2.IH" obtain i where "i < length ls" "ls_line s = Suc number + i" "re_search WITH_LOCK (strip_lua (ls ! i)) \<noteq> None"
      and rest: "ls_path s = path" "ls_kind s \<in> set (map fst IO_CALLS)" by blast
    then have "Suc i < length (l # ls)" "ls_line s = number + Suc i" "re_search WITH_LOCK (strip_lua ((l # ls) ! Suc i)) \<noteq> None" by auto
    with rest show ?thesis by blast
  next
    case 2
    then obtain kind where "s = LockScopeSite path number kind" "kind \<in> fst ` set IO_CALLS" by blast
    with 2(1) show ?thesis by (simp add: exI [of _ 0])
  qed
qed simp

text \<open>The call on two lines is found, the call on the line of the lock is not.\<close>

lemma lock_on_two_lines:
  "lock_sites_from ''a.lua'' 1 [''with_lock(k, function()'', ''exec_sync(c)'', ''end)''] = [LockScopeSite ''a.lua'' 1 ''exec_sync'']"
  by code_simp

lemma lock_on_one_line: "lock_sites_from ''a.lua'' 1 [''with_lock(k, function() exec_sync(c) end)''] = []"
  by code_simp

section \<open>Comparisons with bare queues\<close>

definition LOCAL_SPEC_RE :: regex where
  "LOCAL_SPEC_RE = rseq [RWordB, rlit ''local'', rplus rspace, rlit ''spec'', rblank, rchar CHR ''='', rblank, rchar CHR ''{'']"

definition CONSUMES_RE :: regex where "CONSUMES_RE = rseq (field_is ''consumes'' @ [rchar CHR ''{''])"

definition STRING_LITERAL_RE :: regex where
  "STRING_LITERAL_RE =
     (let plain = rstar (RSet (\<lambda>c. c \<noteq> DQ \<and> c \<noteq> SQ \<and> c \<noteq> BSLASH)) in
      quoted_by ''quote'' ''value'' (RSeq plain (rstar (rseq [rchar BSLASH, rany, plain]))))"

definition event_queue :: "regex list" where
  "event_queue =
     [RWordB, rlit ''event'', rblank,
      RAlt (rseq [rchar CHR ''.'', rblank, rlit ''queue''])
        (rseq [rchar CHR ''['', rblank, RGroup ''field_quote'' quote_class, rlit ''queue'', RBackref ''field_quote'', rblank, rchar CHR '']''])]"

definition compare_op :: regex where "compare_op = RGroup ''op'' (RAlt (rlit ''=='') (rlit ''~=''))"

definition bare_queue :: regex where "bare_queue = quoted_by ''queue_quote'' ''queue'' (rplus (RSet (\<lambda>c. c \<noteq> DQ \<and> c \<noteq> SQ)))"

definition EVENT_QUEUE_COMPARE_RES :: "regex list" where
  "EVENT_QUEUE_COMPARE_RES =
     [rseq (event_queue @ [rblank, compare_op, rblank, bare_queue]), rseq ([bare_queue, rblank, compare_op, rblank] @ event_queue)]"

definition matching_table_end :: "string \<Rightarrow> nat \<Rightarrow> nat option" where
  "matching_table_end stripped open_index = map_option Suc (matching_close stripped open_index CHR ''{'' CHR ''}'')"

text \<open>A table between two positions, whose end must not lie behind the second.\<close>

definition table_span :: "regex \<Rightarrow> string \<Rightarrow> nat \<Rightarrow> nat option \<Rightarrow> (nat \<times> nat) option" where
  "table_span r stripped start stop =
     (case re_search_from r (take (the_default (length stripped) stop) stripped) start of
        None \<Rightarrow> None
      | Some m \<Rightarrow>
          (case matching_table_end stripped (m_end m - 1) of
             None \<Rightarrow> None
           | Some close_index \<Rightarrow> if (case stop of None \<Rightarrow> False | Some e \<Rightarrow> e < close_index) then None else Some (m_end m - 1, close_index)))"

definition code_string_literals :: "string \<Rightarrow> string \<Rightarrow> nat \<Rightarrow> nat \<Rightarrow> string list" where
  "code_string_literals source stripped start stop =
     map (\<lambda>m. group_or_empty m ''value'')
       (filter (\<lambda>m. is_unmasked_range source stripped (m_start m) (the_default 0 (m_group_start m ''quote'')))
         (re_finditer_range STRING_LITERAL_RE source start stop))"

definition bare_spec_consumes :: "string \<Rightarrow> string list" where
  "bare_spec_consumes source =
     (let stripped = strip_lua_comments_and_strings source in
      case table_span LOCAL_SPEC_RE stripped 0 None of
        None \<Rightarrow> []
      | Some (spec_start, spec_end) \<Rightarrow>
          (case table_span CONSUMES_RE stripped spec_start (Some spec_end) of
             None \<Rightarrow> []
           | Some (start, stop) \<Rightarrow> filter (\<lambda>v. \<not> contains ''.'' v) (code_string_literals source stripped start stop)))"

definition compare_string_spans :: "rematch \<Rightarrow> (nat \<times> nat) list" where
  "compare_string_spans m =
     sort ((the_default 0 (m_group_start m ''queue_quote''), group_end m ''queue'' + 1) #
       (case m_group_start m ''field_quote'' of None \<Rightarrow> [] | Some k \<Rightarrow> [(k, k + 7)]))"

fun unmasked_between :: "string \<Rightarrow> string \<Rightarrow> nat \<Rightarrow> nat \<Rightarrow> (nat \<times> nat) list \<Rightarrow> bool" where
  "unmasked_between source stripped cursor until [] = is_unmasked_range source stripped cursor until"
| "unmasked_between source stripped cursor until ((start, stop) # spans) =
     (is_unmasked_range source stripped cursor start \<and> unmasked_between source stripped stop until spans)"

definition compare_match_is_unmasked :: "string \<Rightarrow> string \<Rightarrow> rematch \<Rightarrow> bool" where
  "compare_match_is_unmasked source stripped m = unmasked_between source stripped (m_start m) (m_end m) (compare_string_spans m)"

definition bare_own_queue_compare_messages :: "(string \<Rightarrow> string) \<Rightarrow> string \<Rightarrow> string \<Rightarrow> string list" where
  "bare_own_queue_compare_messages show_repr path source =
     (let bare = bare_spec_consumes source; stripped = strip_lua_comments_and_strings source in
      if bare = [] then []
      else
        concat (map (\<lambda>r.
            map (\<lambda>m. path @ '':'' @ str_int (int (line_at source (m_start m))) @ '' compares event.queue to bare own queue '' @
                show_repr (group_or_empty m ''queue'') @
                ''; production delivers namespaced queues, so use the router/saga contract instead'')
              (filter (\<lambda>m. let queue = group_or_empty m ''queue'' in
                  \<not> contains ''.'' queue \<and> queue \<in> set bare \<and> compare_match_is_unmasked source stripped m) (re_finditer r source)))
          EVENT_QUEUE_COMPARE_RES))"

definition namespaced_queue_messages :: "(string \<Rightarrow> string) \<Rightarrow> repo \<Rightarrow> string \<Rightarrow> string list" where
  "namespaced_queue_messages show_repr repo packages_root =
     concat (map (\<lambda>path. bare_own_queue_compare_messages show_repr (rel repo path) (source_of (rp_tree repo) path))
       (filter (\<lambda>path. case drop (length (path_parts packages_root)) (path_parts path) of
           [_, d, _, f] \<Rightarrow> d = ''departments'' \<and> f = ''main.lua'' | _ \<Rightarrow> False) (rglob_lua (rp_tree repo) packages_root)))"

text \<open>A message names a queue which the department consumes under its bare name.\<close>

lemma compare_reports_own_queue:
  assumes "msg \<in> set (bare_own_queue_compare_messages show_repr path source)"
  obtains queue pre post where "queue \<in> set (bare_spec_consumes source)" "\<not> contains ''.'' queue" "msg = pre @ show_repr queue @ post"
proof -
  from assms obtain r m where "r \<in> set EVENT_QUEUE_COMPARE_RES" "m \<in> set (re_finditer r source)"
    and own: "group_or_empty m ''queue'' \<in> set (bare_spec_consumes source)" "\<not> contains ''.'' (group_or_empty m ''queue'')"
    and msg: "msg = path @ '':'' @ str_int (int (line_at source (m_start m))) @ '' compares event.queue to bare own queue '' @
      show_repr (group_or_empty m ''queue'') @
      ''; production delivers namespaced queues, so use the router/saga contract instead''"
    unfolding bare_own_queue_compare_messages_def Let_def
    by (simp only: if_split_mem2 set_concat set_map set_filter UN_iff Set.bex_simps(7) image_iff mem_Collect_eq empty_iff list.set split: if_splits) blast
  from own(1,2) msg show thesis
    by (intro that [of "group_or_empty m ''queue''" "path @ '':'' @ str_int (int (line_at source (m_start m))) @ '' compares event.queue to bare own queue ''"])
      (simp_all only: append_assoc not_False_eq_True)
qed

lemma bare_compare_found:
  "length (bare_own_queue_compare_messages (\<lambda>s. s) ''main.lua''
     ''local spec={consumes={\"p\"}} event.queue==\"p\"'') = 1"
  by code_simp

lemma namespaced_compare_passes:
  "bare_own_queue_compare_messages (\<lambda>s. s) ''main.lua''
     ''local spec={consumes={\"p\"}} event.queue==\"i.p\"'' = []"
  by code_simp

end
