(* ===== verification/Spec2Isabelle.thy ===== *)
theory Spec2Isabelle
  imports LifecycleBoard WorkflowBoard IntegrationCoverage CoverageRatchet MonotoneGate SliceMain SemanticTree CompetenceGate RestartLifecycle RepoCheck ShellOut BotLogin SagaSplit IntakeRouting GhEgress VersionSuffix ContentTruncation GhHandle ContentIngress InjectedM LibraryModel Couplings ShapeLints
begin

text \<open>
  \<^bold>\<open>The program.\<close> The repository holds Lua packages for the fkst engine and the Python tools that guard
  and drive their development. This library models the tools that carry the repository's own logic:

  \<^item> the \<^emph>\<open>repository check\<close> (\<open>scripts/check_repo.py\<close>): checks that read the sources and tests of the packages, and
    \<^emph>\<open>ratchets\<close> that it binds: each derives an inventory from the tree, compares it with an allowlist under \<open>migration/\<close> and compares that allowlist with the one
    at the merge base with the target branch, so that debt can only shrink;
  \<^item> the \<^emph>\<open>migration slicer\<close> (\<open>ratchet_migration_slicer.py\<close>), which turns the allowlists into work: it cuts a
    slice from an inventory and files one GitHub issue for it, or closes the parent issue when nothing is left;
  \<^item> the \<^emph>\<open>board facts\<close> (\<open>lifecycle_board_fact.py\<close>, \<open>workflow_board_fact.py\<close>), which read the comments of an
    issue and print the state of its lifecycle or workflow from the markers a trusted login wrote;
  \<^item> the \<^emph>\<open>competence gate\<close> (\<open>competence_gate.py\<close>), which lets changes of the durable state machine pass only with
    complete obligations and evidence in the test corpus;
  \<^item> the \<^emph>\<open>replay artifacts\<close> (\<open>scripts/intent_bounded_replay/\<close>): canonical JSON, digests and comparison of artifacts,
    digests of trees and changes, and the closed validation of delivery authorizations; with the check
    (\<open>check_repo_intent_bounded_replay.py\<close>) that admits a change of behaviour only with a manifest bound to it, and the
    \<^emph>\<open>restart preflight\<close> (\<open>check_repo_restart_preflight.py\<close>), which compares a branch with its protected base.

  The ratchets share the Lua lexer (\<open>check_repo_lua.py\<close>) and the base resolver (\<open>ratchet_base.py\<close>); the slicer
  reads the allowlist of the duplicate-function ratchet with that ratchet's own functions.

  \<^bold>\<open>Theories and the code they model.\<close>

  \<^item> \<open>PyPrelude\<close>, \<open>PyRegex\<close>, \<open>PyJson\<close>, \<open>PyDigest\<close>: what the tools use of Python. Texts are \<^typ>\<open>string\<close> (code
    points below 256), dictionaries are association lists in insertion order, exceptions are values of
    \<open>error + 'a\<close>. \<open>PyRegex\<close> is a backtracking matcher that lists all ways to match in the order of priority
    of Python's \<open>re\<close>; \<open>PyJson\<close> is the decoder and encoder of \<open>json\<close>; \<open>PyDigest\<close> is SHA-256 on words.
  \<^item> \<open>LuaLex\<close>: \<open>check_repo_lua.py\<close>. Spans of strings and comments, code masks, block depth.
  \<^item> \<open>RatchetBase\<close>: \<open>ratchet_base.py\<close> and the allowlist helpers of \<open>check_repo_config.py\<close>. Trees, git, target
    and merge base, allowlists at the base.
  \<^item> \<open>ShrinkOnly\<close>: the contract of a shrink-only ratchet as a locale, with the history theorem every ratchet
    inherits by interpretation (\<open>CodeDedup\<close>, \<open>CoverageRatchet\<close>, \<open>MonotoneGate\<close>, \<open>DependencyCycle\<close>, \<open>RestartLifecycle\<close>,
    \<open>ProducerLiveness\<close>, \<open>ErrorClass\<close>, \<open>RepoCheck\<close>, \<open>BotLogin\<close>, \<open>SagaSplit\<close>, \<open>VersionSuffix\<close>,
    \<open>ContentTruncation\<close>, \<open>GhHandle\<close>, \<open>LibraryModel\<close>, \<open>LayerLints\<close>).
  \<^item> \<open>TestShape\<close>: the first half of \<open>check_repo.py\<close>, packages, what is code of a source, tests and their helpers;
    \<open>SourceChecks\<close>: its checks of one file after the other, with \<open>check_repo_pagination.py\<close> and
    \<open>check_repo_ownership_gate.py\<close>; \<open>RepoCheck\<close>: the ratchet of saga handlers (\<open>check_repo_saga_handler.py\<close>), the
    bindings of ratchets, and the command over the outcome of the runner.
  \<^item> \<open>ProducerLiveness\<close>: \<open>check_repo_producer_liveness.py\<close>. \<open>ErrorClass\<close>: \<open>check_repo_error_class.py\<close>.
    \<open>ShellOut\<close>: \<open>check_repo_shell_out_to_self.py\<close>, names of functions that execute commands, collected until nothing is added.
    \<open>BotLogin\<close>: \<open>check_repo_bot_login_mediation.py\<close>, bindings of names followed through lexical scopes. \<open>SagaSplit\<close>:
    \<open>check_repo_saga_split.py\<close>, a manifest of owners and writes of states by calls.
  \<^item> \<open>LintBase\<close>: what linters of Lua sources share. \<open>IntakeRouting\<close>: \<open>check_repo_intake_routing.py\<close>, policy slots and
    the topologies they allow. \<open>GhEgress\<close>, \<open>GhHandle\<close>, \<open>ContentIngress\<close>: \<open>check_repo_gh_egress.py\<close>,
    \<open>check_repo_gh_handle_construction.py\<close>, \<open>check_repo_github_content_ingress.py\<close>, the places where sources reach GitHub.
    \<open>VersionSuffix\<close>: \<open>check_repo_version_suffix.py\<close>. \<open>ContentTruncation\<close>: \<open>check_repo_content_truncation.py\<close>.
    \<open>InjectedM\<close>: \<open>check_repo_lower_injected_m.py\<close>. \<open>LibraryModel\<close>: the rest of \<open>check_repo_std_dependency_model.py\<close>.
  \<^item> \<open>Couplings\<close>: the ratchets that compare counts of uses of the composed table with a document
    (\<open>check_repo_service_locator.py\<close>, \<open>check_repo_core_param.py\<close>, \<open>check_repo_ambient_surface.py\<close>,
    \<open>check_repo_devloop_godlib.py\<close>, \<open>check_repo_devloop_decouple.py\<close>, \<open>check_repo_devloop_installer.py\<close>).
    \<open>SourceLints\<close>: \<open>check_repo_ingress.py\<close>, \<open>check_repo_dead_letter.py\<close>, \<open>check_repo_saga_head.py\<close>, \<open>check_repo_perm.py\<close>,
    \<open>check_repo_dead_locals.py\<close>, \<open>check_repo_cross_package.py\<close> and \<open>check_repo_codex_timeout.py\<close>. \<open>LayerLints\<close>:
    \<open>check_repo_library_layering.py\<close> and \<open>check_repo_dept_failure_surface.py\<close>. \<open>ShapeLints\<close>: \<open>check_repo_lock_scope.py\<close>
    and \<open>check_repo_namespaced_queue.py\<close>.
  \<^item> \<open>CodeDedup\<close>: \<open>check_repo_dedup.py\<close>. \<open>CoverageRatchet\<close>: \<open>check_repo_coverage.py\<close>. \<open>MonotoneGate\<close>:
    \<open>check_repo_monotone_gate.py\<close>. \<open>DependencyCycle\<close>: \<open>check_repo_dependency_cycle.py\<close> with the require scanner
    of \<open>check_repo_std_dependency_model.py\<close>. \<open>IntegrationCoverage\<close>: \<open>check_repo_integration_coverage.py\<close>.
  \<^item> \<open>BoardComments\<close>: what the two board tools share; \<open>LifecycleBoard\<close> and \<open>WorkflowBoard\<close>: the tools.
  \<^item> \<open>SlicePlan\<close>: the first half of \<open>ratchet_migration_slicer.py\<close>, inventories, slices, markers and issue texts;
    \<open>SliceReconcile\<close>: the second half, the GitHub client and the reconciliation, as computations that call
    \<open>gh\<close> with an explicit world and leave the list of their calls. The locale \<open>github_ops\<close> states what the
    controller relies on; the client of the tool is its interpretation. \<open>SliceMain\<close>: the inventory of the gh/git
    ratchet and the command.
  \<^item> \<open>GhGitAdapter\<close>: \<open>check_repo_gh_git_adapter.py\<close>. Literals, concatenations and argument tables of Lua sources, shell
    words as \<open>shlex\<close> reads them, and the command heads found in them.
  \<^item> \<open>CompetenceGate\<close>: \<open>competence_gate.py\<close>. Changed paths, classification, validation, report and exit status.
  \<^item> \<open>SemanticTree\<close>: \<open>semantic_tree.py\<close>, with bytes as texts and lengths as 64-bit words. \<open>CanonicalJson\<close>: \<open>normalize.py\<close>
    and \<open>compare.py\<close>. \<open>DeliveryAuthorization\<close>: \<open>delivery_authorization.py\<close>.
  \<^item> \<open>TraceArtifacts\<close>: the trace half of \<open>check_repo_intent_bounded_replay.py\<close> with its catalogue
    (\<open>check_repo_intent_bounded_replay_trace_catalog.py\<close>); \<open>IntentReplay\<close>: the manifest half, on the file records of
    \<open>RatchetBase\<close>, the digests of \<open>SemanticTree\<close> and the validation of \<open>DeliveryAuthorization\<close>, with the step it takes
    from \<open>check_repo_restart_preflight.py\<close>; \<open>RestartPreflight\<close>: the rest of that check, with counters as multisets.
  \<^item> \<open>RestartLifecycle\<close>: \<open>check_repo_restart_lifecycle.py\<close>. The inventory of old restart behaviour, the ledger of its sites
    without observation, and the digest of the document with the text that is written for it.

  \<^bold>\<open>What the lemmas show.\<close> For the lexer: spans are ordered and disjoint, a mask blanks exactly the selected
  spans, and a masked text has no string or comment left. For each ratchet: the exact condition under which it
  prints nothing, and that along a history of passing commits the inventory stays below every earlier allowlist.
  For the cycle ratchet: Tarjan's components and the enumeration return, and report exactly the simple cycles.
  For coverage: a written baseline is read back and passes; failures to evaluate block. For the boards: comments
  of other authors have no influence, later comments never move a workflow back, output is bounded. For the
  slicer: a dry run only reads, a run makes exactly the changes its result stands for, and a slice recorded on the
  parent is read back and not filed again; and that slices of two or more sites cannot be filed at all. For the
  gh/git ratchet: the scan ends on every source, heads have a fixed shape, and on a tree that passes the slicer finds
  every listed head. For the competence gate: which obligations are accepted, what exit status 0 means, and how a change is
  classified. For the replay artifacts: canonical streams and texts are equal exactly for the same trees, changes
  and values, blobs are read back, a reported difference has a pointer that leads to it, and which manifests pass; every artifact
  the decoder accepts has canonical bytes. For the replay check: which writes an accepted fixture may have, and
  what it means that the check of the manifests finds nothing. For the restart preflight: what it means that it finds
  nothing, and which grants admit a change of the checkers together with the code they check. For the restart
  lifecycle: when a site may leave the ledger, and that a fixed digest is read back and passes. For the checks of tests
  and sources: what it means that they find nothing, that every file which a test requires is visited, that printable
  text does not hide in an encoded literal, and what the exit status says. For producer liveness: which raisers are
  covered, that a call in a string or comment covers nothing, and what a clean ratchet means. For error classes: the
  comparison of a library file with the target is one of multisets of messages, which no motion of code changes.
  For calls of the repository's own tools: the names that stand for an executing function are exactly the ones that a
  chain of assignments leads to. For decisions about logins: the stack of scopes implements a map with blocks, and
  strings and comments have no influence. For the split of the sagas: what a silent check means. For the routing of
  the intake: the topologies called legal are the ones that load one implementation of every slot. For the imports of
  forge modules: no module is imported by more files than before, although a facade may take imports over. For the
  counts of couplings: that a count with a previous value, and every package on its own, stays at or below it. For the other linters: what it means that
  they find nothing, with the inputs that they do not see.

  \<^bold>\<open>Loops and fuel.\<close> Loops are structural or carry a measure: the rest of the text for the lexer and the
  matcher (a repetition stops when it consumes nothing, as in \<open>re\<close>), the modules of a component not yet on the
  path for the cycle enumeration, the size of the first artifact for the comparison,
  the files not yet visited for the search of reachable helpers, the rest of the text for bodies of tables, the names
  not yet collected for the names of executing functions. Three groups of functions take
  fuel. Tarjan's visit takes the number of modules, and \<open>cycles_exact\<close> shows that it always returns. The JSON
  decoders (of \<open>PyJson\<close>, and of \<open>CanonicalJson\<close> with the hooks of \<open>normalize.py\<close>) take the length of the text, which
  every value and member shortens; the round trips show that the first decodes everything the encoder writes. The
  scans of \<open>GhGitAdapter\<close> take the length of the source, and \<open>command_heads_returns\<close> shows that it is enough.

  \<^bold>\<open>Parameters.\<close> Code outside the repository is an argument: git and \<open>gh\<close> as functions from a call to a finished
  process (or a failure to start), the environment, the contents of the tree, the text of decoder errors, \<open>str()\<close>
  of floats and containers, \<open>repr()\<close> of bytes, the decoders of bytes, \<open>tomllib.loads\<close>, the dash in two messages, \<open>datetime.fromisoformat\<close>, the clock, the name of a temporary file, the
  order in which a set is iterated, the code points that are printable, \<open>repr()\<close> of texts and values, what the system says of a
  missing file.

  \<^bold>\<open>Not modelled.\<close> The Lua packages and libraries, which run on the engine, with their tests and documentation;
  code points above 255; symbolic links; argument parsing by \<open>argparse\<close>;
  of the repository check the list of all checks that the runner calls, and the linters for hidden state, the default
  surface of the intake, fanout, the dispatch of live runs and the layout of a checkout; the board printer and the score board, which format the output of commands.
\<close>

end
